(* ===== verification/Prelude.thy ===== *)
theory Prelude
  imports Complex_Main "HOL-Library.AList" "HOL-Library.Word"
begin

section \<open>Prelude: Python values, errors, dictionaries and byte packing\<close>

text \<open>
  What every component of the model shares.

  A Python \<open>str\<close> and a Python \<open>bytes\<close> are both an Isabelle \<open>string\<close>: a \<open>bytes\<close> is
  the list of its bytes and a \<open>str\<close> is the list of the bytes of its UTF-8 encoding, so
  \<open>encode\<close> is the identity, \<open>decode\<close> is a validity check (\<open>py_decode\<close>), and \<open>len\<close> of a
  \<open>str\<close> counts the bytes that are not continuation bytes (\<open>ulen\<close>). Splitting, searching and
  comparing for ASCII separators gives the same result on both readings.

  An exception is a value of \<open>py_error\<close> in the left side of a sum (\<open>'a res\<close>). A \<open>dict\<close> is an
  association list in insertion order; \<open>d[k] = v\<close> is \<open>AList.update\<close>, \<open>del d[k]\<close> is
  \<open>AList.delete\<close> guarded by a membership test, and lookup is \<open>map_of\<close>.
\<close>

named_theorems res_simps \<open>equations for the error monad\<close>
named_theorems pack_simps \<open>equations for fixed-width packing and unpacking\<close>

subsection \<open>Errors and results\<close>

datatype py_error =
    IndexError | KeyError | ValueError | TypeError | AttributeError | AssertionFailure
  | StructError | UnicodeDecodeError | UnicodeEncodeError | RecursionError | NotImplementedError
  | LibvirtError | QemuGuestError | NoAvailableVMs | PoolNotReady | AlreadyCalled | AlreadyCancelled
  | SFTPError | UnboundLocalError | OverflowError | ZeroDivisionError | FileNotFound | PermissionDenied | IsADirectoryError | OSError string

type_synonym 'a res = "py_error + 'a"

definition rbind :: "'e + 'a \<Rightarrow> ('a \<Rightarrow> 'e + 'b) \<Rightarrow> 'e + 'b" where
  "rbind m f = (case m of Inl e \<Rightarrow> Inl e | Inr x \<Rightarrow> f x)"

lemma rbind_simps [simp, res_simps]:
  "rbind (Inl e) f = Inl e" "rbind (Inr x) f = f x"
  by (simp_all add: rbind_def)

lemma rbind_Inr_iff [res_simps]: "rbind m f = Inr y \<longleftrightarrow> (\<exists>x. m = Inr x \<and> f x = Inr y)"
  by (cases m) simp_all

lemma rbind_Inl_iff [res_simps]:
  "rbind m f = Inl e \<longleftrightarrow> m = Inl e \<or> (\<exists>x. m = Inr x \<and> f x = Inl e)"
  by (cases m) simp_all

definition is_ok :: "'e + 'a \<Rightarrow> bool" where
  "is_ok m = (case m of Inl _ \<Rightarrow> False | Inr _ \<Rightarrow> True)"

lemma is_ok_simps [simp, res_simps]: "\<not> is_ok (Inl e)" "is_ok (Inr x)"
  by (simp_all add: is_ok_def)

definition require :: "bool \<Rightarrow> 'e \<Rightarrow> 'e + unit" where
  "require b e = (if b then Inr () else Inl e)"

lemma require_Inr_iff [simp, res_simps]: "require b e = Inr u \<longleftrightarrow> b"
  by (simp add: require_def)

text \<open>An operation on a state that may raise: the state it leaves behind, and the result.\<close>

type_synonym ('s, 'a) sres = "'s \<times> 'a res"

definition sbind :: "('s, 'a) sres \<Rightarrow> ('s \<Rightarrow> 'a \<Rightarrow> ('s, 'b) sres) \<Rightarrow> ('s, 'b) sres" where
  "sbind m f = (case m of (s, Inl e) \<Rightarrow> (s, Inl e) | (s, Inr x) \<Rightarrow> f s x)"

lemma sbind_simps [simp, res_simps]:
  "sbind (s, Inl e) f = (s, Inl e)" "sbind (s, Inr x) f = f s x"
  by (simp_all add: sbind_def)

text \<open>\<open>xs[i]\<close> for an index known not to be negative.\<close>

definition py_nth :: "'a list \<Rightarrow> nat \<Rightarrow> 'a res" where
  "py_nth xs i = (if i < length xs then Inr (xs ! i) else Inl IndexError)"

lemma py_nth_Inr_iff [res_simps]: "py_nth xs i = Inr x \<longleftrightarrow> i < length xs \<and> xs ! i = x"
  by (auto simp: py_nth_def)

text \<open>\<open>range(n)\<close> for an \<open>int\<close>: empty when \<open>n\<close> is not positive.\<close>

abbreviation py_range :: "int \<Rightarrow> nat list" where
  "py_range n \<equiv> [0..<nat n]"

subsection \<open>Strings\<close>

fun starts_with :: "'a list \<Rightarrow> 'a list \<Rightarrow> bool" where
  "starts_with _ [] = True"
| "starts_with [] (_ # _) = False"
| "starts_with (x # xs) (p # ps) = (x = p \<and> starts_with xs ps)"

lemma starts_with_iff: "starts_with s p \<longleftrightarrow> (\<exists>r. s = p @ r)"
  by (induction s p rule: starts_with.induct) auto

lemma starts_with_append [simp]: "starts_with (p @ r) p"
  by (auto simp: starts_with_iff)

text \<open>
  \<open>s.split(c)\<close> for a one-character separator: always at least one piece, and joining the
  pieces with the separator gives the string back.
\<close>

fun split_on :: "'a \<Rightarrow> 'a list \<Rightarrow> 'a list list" where
  "split_on c [] = [[]]"
| "split_on c (x # xs) =
     (if x = c then [] # split_on c xs
      else case split_on c xs of [] \<Rightarrow> [[x]] | p # ps \<Rightarrow> (x # p) # ps)"

fun join_with :: "'a list \<Rightarrow> 'a list list \<Rightarrow> 'a list" where
  "join_with sep [] = []"
| "join_with sep [x] = x"
| "join_with sep (x # y # zs) = x @ sep @ join_with sep (y # zs)"

lemma split_on_nonempty [simp]: "split_on c xs \<noteq> []"
  by (induction xs) (auto split: list.splits)

lemma join_with_Cons: "ps \<noteq> [] \<Longrightarrow> join_with sep (p # ps) = p @ sep @ join_with sep ps"
  by (cases ps) simp_all

lemma join_split_on [simp]: "join_with [c] (split_on c xs) = xs"
proof (induction xs)
  case Nil
  then show ?case by simp
next
  case (Cons x xs)
  obtain p ps where sp: "split_on c xs = p # ps"
    by (cases "split_on c xs") auto
  show ?case
  proof (cases "x = c")
    case True
    with Cons.IH show ?thesis by (simp add: join_with_Cons)
  next
    case False
    with Cons.IH sp show ?thesis by (cases ps) simp_all
  qed
qed

lemma split_on_no_sep: "c \<notin> set xs \<Longrightarrow> split_on c xs = [xs]"
  by (induction xs) (auto split: list.splits)

lemma split_on_pieces: "p \<in> set (split_on c xs) \<Longrightarrow> c \<notin> set p"
  by (induction xs arbitrary: p) (auto split: list.splits if_splits)

lemma split_on_append:
  "c \<notin> set p \<Longrightarrow> split_on c (p @ c # r) = p # split_on c r"
  by (induction p) auto

lemma split_on_join:
  "ps \<noteq> [] \<Longrightarrow> (\<forall>p \<in> set ps. c \<notin> set p) \<Longrightarrow> split_on c (join_with [c] ps) = ps"
proof (induction ps)
  case Nil
  then show ?case by simp
next
  case (Cons p ps)
  then show ?case
    by (cases ps) (simp_all add: split_on_no_sep split_on_append)
qed

text \<open>\<open>rstrip\<close>, \<open>lstrip\<close> and \<open>strip\<close> with a set of characters.\<close>

definition lstrip_chars :: "('a \<Rightarrow> bool) \<Rightarrow> 'a list \<Rightarrow> 'a list" where
  "lstrip_chars P xs = dropWhile P xs"

definition rstrip_chars :: "('a \<Rightarrow> bool) \<Rightarrow> 'a list \<Rightarrow> 'a list" where
  "rstrip_chars P xs = rev (dropWhile P (rev xs))"

definition strip_chars :: "('a \<Rightarrow> bool) \<Rightarrow> 'a list \<Rightarrow> 'a list" where
  "strip_chars P xs = rstrip_chars P (lstrip_chars P xs)"

text \<open>The white space that \<open>strip\<close> and \<open>split\<close> take away, as far as it is one byte. Of a text, Python
  also takes the Unicode spaces whose UTF-8 form is longer (such as the no-break space U+00A0); that
  is not modelled: those bytes stay.\<close>

definition is_space :: "char \<Rightarrow> bool" where
  "is_space c \<longleftrightarrow> (let n = (of_char c :: nat) in n = 32 \<or> 9 \<le> n \<and> n \<le> 13 \<or> 28 \<le> n \<and> n \<le> 31)"

definition is_digit :: "char \<Rightarrow> bool" where
  "is_digit c \<longleftrightarrow> (let n = (of_char c :: nat) in 48 \<le> n \<and> n \<le> 57)"

definition py_isdigit :: "string \<Rightarrow> bool" where
  "py_isdigit s \<longleftrightarrow> s \<noteq> [] \<and> list_all is_digit s"

fun nat_of_digits :: "nat \<Rightarrow> string \<Rightarrow> nat" where
  "nat_of_digits acc [] = acc"
| "nat_of_digits acc (c # cs) = nat_of_digits (10 * acc + (of_char c - 48)) cs"

text \<open>Decimal text of a number, as \<open>str(n)\<close> gives it.\<close>

fun digits_of_nat :: "nat \<Rightarrow> string" where
  "digits_of_nat n =
     (if n < 10 then [char_of (48 + n)] else digits_of_nat (n div 10) @ [char_of (48 + n mod 10)])"

declare digits_of_nat.simps [simp del]

lemma digits_of_nat_nonempty [simp]: "digits_of_nat n \<noteq> []"
  by (subst digits_of_nat.simps) simp

lemma nat_of_digits_append:
  "nat_of_digits a (xs @ [c]) = 10 * nat_of_digits a xs + (of_char c - 48)"
  by (induction xs arbitrary: a) simp_all

lemma nat_of_digits_of_nat [simp]: "nat_of_digits 0 (digits_of_nat n) = n"
proof (induction n rule: digits_of_nat.induct)
  case (1 n)
  then show ?case
    by (cases "n < 10") (simp_all add: digits_of_nat.simps [of n] nat_of_digits_append)
qed

lemma digits_of_nat_inject [simp]: "digits_of_nat m = digits_of_nat n \<longleftrightarrow> m = n"
  by (metis nat_of_digits_of_nat)

subsection \<open>UTF-8\<close>

definition is_cont :: "char \<Rightarrow> bool" where
  "is_cont c \<longleftrightarrow> (let n = (of_char c :: nat) in 128 \<le> n \<and> n < 192)"

text \<open>Number of code points of a text given by its UTF-8 bytes.\<close>

definition ulen :: "string \<Rightarrow> nat" where
  "ulen s = length (filter (\<lambda>c. \<not> is_cont c) s)"

text \<open>The well-formed byte sequences of the Unicode standard (table 3-7).\<close>

fun utf8_valid :: "nat list \<Rightarrow> bool" where
  "utf8_valid [] = True"
| "utf8_valid (a # bs) =
     (if a < 128 then utf8_valid bs
      else if a < 194 then False
      else if a < 224 then
        (case bs of b # r \<Rightarrow> 128 \<le> b \<and> b < 192 \<and> utf8_valid r | _ \<Rightarrow> False)
      else if a < 240 then
        (case bs of b # c # r \<Rightarrow>
           (if a = 224 then 160 else 128) \<le> b \<and> b < (if a = 237 then 160 else 192)
           \<and> 128 \<le> c \<and> c < 192 \<and> utf8_valid r
         | _ \<Rightarrow> False)
      else if a < 245 then
        (case bs of b # c # d # r \<Rightarrow>
           (if a = 240 then 144 else 128) \<le> b \<and> b < (if a = 244 then 144 else 192)
           \<and> 128 \<le> c \<and> c < 192 \<and> 128 \<le> d \<and> d < 192 \<and> utf8_valid r
         | _ \<Rightarrow> False)
      else False)"

definition py_decode :: "string \<Rightarrow> string res" where
  "py_decode s = (if utf8_valid (map of_char s) then Inr s else Inl UnicodeDecodeError)"

definition is_ascii :: "string \<Rightarrow> bool" where
  "is_ascii s \<longleftrightarrow> list_all (\<lambda>c. (of_char c :: nat) < 128) s"

lemma utf8_valid_ascii: "list_all (\<lambda>n. n < 128) ns \<Longrightarrow> utf8_valid ns"
  by (induction ns) simp_all

lemma py_decode_ascii: "is_ascii s \<Longrightarrow> py_decode s = Inr s"
  by (simp add: py_decode_def is_ascii_def utf8_valid_ascii list.pred_map comp_def)

lemma ulen_ascii: "is_ascii s \<Longrightarrow> ulen s = length s"
proof -
  assume "is_ascii s"
  then have "filter (\<lambda>c. \<not> is_cont c) s = s"
    by (intro filter_True) (auto simp: is_ascii_def is_cont_def list_all_iff Let_def)
  then show ?thesis by (simp add: ulen_def)
qed

lemma ulen_le_length: "ulen s \<le> length s"
  by (simp add: ulen_def)

subsection \<open>Dictionaries\<close>

text \<open>\<open>del d[k]\<close> raises KeyError for a key that is not there.\<close>

definition dict_del :: "'k \<Rightarrow> ('k \<times> 'v) list \<Rightarrow> ('k \<times> 'v) list res" where
  "dict_del k d = (if map_of d k = None then Inl KeyError else Inr (AList.delete k d))"

definition dict_get :: "('k \<times> 'v) list \<Rightarrow> 'k \<Rightarrow> 'v res" where
  "dict_get d k = (case map_of d k of None \<Rightarrow> Inl KeyError | Some v \<Rightarrow> Inr v)"

abbreviation dict_keys :: "('k \<times> 'v) list \<Rightarrow> 'k list" where
  "dict_keys d \<equiv> map fst d"

lemma map_of_alist_update: "map_of (AList.update k v d) = (map_of d)(k \<mapsto> v)"
  by (rule update_conv')

lemma length_alist_update:
  "length (AList.update k v d) = (if k \<in> fst ` set d then length d else Suc (length d))"
  by (induction d) auto

lemma alist_update_new: "map_of bs g = None \<Longrightarrow> AList.update g w bs = bs @ [(g, w)]"
  by (induction bs) (auto split: if_splits)

lemma alist_delete_mid:
  "g \<notin> fst ` set as \<Longrightarrow> g \<notin> fst ` set cs \<Longrightarrow> AList.delete g (as @ (g, v) # cs) = as @ cs"
  by (induction as) auto

lemma alist_update_mid:
  "g \<notin> fst ` set as \<Longrightarrow> AList.update g w (as @ (g, v) # cs) = as @ (g, w) # cs"
  by (induction as) auto

lemma map_of_split:
  "map_of bs g = Some v \<Longrightarrow> \<exists>as cs. bs = as @ (g, v) # cs \<and> g \<notin> fst ` set as"
proof (induction bs)
  case Nil
  then show ?case by simp
next
  case (Cons b bs)
  show ?case
  proof (cases "fst b = g")
    case True
    with Cons.prems show ?thesis by (intro exI [of _ "[]"] exI [of _ bs]) (cases b, simp)
  next
    case False
    with Cons obtain as cs where "bs = as @ (g, v) # cs \<and> g \<notin> fst ` set as"
      by (cases b) auto
    with False show ?thesis by (intro exI [of _ "b # as"] exI [of _ cs]) auto
  qed
qed

lemma fst_delete: "fst ` set (AList.delete k l) = fst ` set l - {k}"
  by (force simp: AList.delete_eq)

subsection \<open>Big-endian packing\<close>

text \<open>
  The network-order integer fields of \<open>struct\<close>: \<open>H\<close> is \<open>pack_be 2\<close> and \<open>I\<close> is
  \<open>pack_be 4\<close>. A value out of range raises \<open>struct.error\<close>, as does a buffer of the wrong size.
\<close>

fun pack_be :: "nat \<Rightarrow> nat \<Rightarrow> string" where
  "pack_be 0 n = []"
| "pack_be (Suc w) n = pack_be w (n div 256) @ [char_of (n mod 256)]"

fun unpack_be :: "string \<Rightarrow> nat" where
  "unpack_be [] = 0"
| "unpack_be (c # cs) = of_char c * 256 ^ length cs + unpack_be cs"

lemma length_pack_be [simp, pack_simps]: "length (pack_be w n) = w"
  by (induction w arbitrary: n) simp_all

lemma unpack_be_snoc: "unpack_be (cs @ [c]) = 256 * unpack_be cs + of_char c"
  by (induction cs) (simp_all add: algebra_simps)

lemma unpack_pack_be [pack_simps]: "n < 256 ^ w \<Longrightarrow> unpack_be (pack_be w n) = n"
proof (induction w arbitrary: n)
  case 0
  then show ?case by simp
next
  case (Suc w)
  then have "n div 256 < 256 ^ w"
    by (simp add: less_mult_imp_div_less mult.commute)
  with Suc.IH show ?case by (simp add: unpack_be_snoc)
qed

lemma unpack_be_bound: "unpack_be cs < 256 ^ length cs"
proof (induction cs)
  case Nil
  then show ?case by simp
next
  case (Cons c cs)
  have "of_char c < (256 :: nat)" by simp
  then have "of_char c + 1 \<le> (256 :: nat)" by linarith
  then have le: "(of_char c + 1) * 256 ^ length cs \<le> 256 * (256 :: nat) ^ length cs"
    by (rule mult_right_mono) simp
  have "unpack_be (c # cs) < 256 ^ length cs + of_char c * 256 ^ length cs"
    using Cons.IH by simp
  also have "\<dots> = (of_char c + 1) * 256 ^ length cs" by (simp add: algebra_simps)
  also note le
  finally show ?case by simp
qed

definition struct_pack :: "nat \<Rightarrow> int \<Rightarrow> string res" where
  "struct_pack w n = (if 0 \<le> n \<and> n < 256 ^ w then Inr (pack_be w (nat n)) else Inl StructError)"

definition struct_unpack :: "nat \<Rightarrow> string \<Rightarrow> nat res" where
  "struct_unpack w s = (if length s = w then Inr (unpack_be s) else Inl StructError)"

text \<open>The field \<open>Ns\<close>: cut or padded with zero bytes to \<open>N\<close> bytes when packing.\<close>

definition pack_s :: "nat \<Rightarrow> string \<Rightarrow> string" where
  "pack_s n s = take n s @ replicate (n - length s) (char_of (0 :: nat))"

definition unpack_s :: "nat \<Rightarrow> string \<Rightarrow> string res" where
  "unpack_s n s = (if length s = n then Inr s else Inl StructError)"

lemma length_pack_s [simp, pack_simps]: "length (pack_s n s) = n"
  by (simp add: pack_s_def)

lemma pack_s_exact [simp, pack_simps]: "length s = n \<Longrightarrow> pack_s n s = s"
  by (simp add: pack_s_def)

lemma struct_unpack_pack [pack_simps]:
  "struct_pack w n = Inr s \<Longrightarrow> struct_unpack w s = Inr (nat n) \<and> length s = w"
  by (auto simp: struct_pack_def struct_unpack_def unpack_pack_be nat_less_iff split: if_splits)

subsection \<open>Lists updated in place\<close>

lemma remove1_map_fst_subset: "set (map fst (remove1 p xs)) \<subseteq> set (map fst xs)"
  using set_remove1_subset [of p xs] by auto

lemma fold_remove1_filter:
  "fold remove1 (filter P xs) xs = filter (\<lambda>x. \<not> P x) xs"
proof -
  have aux: "fold remove1 (filter P ys) (zs @ ys) = zs @ filter (\<lambda>x. \<not> P x) ys"
    if "\<forall>z \<in> set zs. \<not> P z" for ys zs
    using that
  proof (induction ys arbitrary: zs)
    case Nil
    then show ?case by simp
  next
    case (Cons y ys)
    show ?case
    proof (cases "P y")
      case True
      with Cons.prems have "y \<notin> set zs" by auto
      with True Cons.IH [OF Cons.prems] show ?thesis by (simp add: remove1_append)
    next
      case False
      with Cons.prems have "\<forall>z \<in> set (zs @ [y]). \<not> P z" by auto
      from Cons.IH [OF this] False show ?thesis by simp
    qed
  qed
  from aux [of "[]" xs] show ?thesis by simp
qed

subsection \<open>State machines with an invariant\<close>

text \<open>
  The contract shared by every component with state: one operation per event keeps the
  invariant. What holds of runs is proved once here and reached through an interpretation on
  the component's step function.
\<close>

locale machine =
  fixes step :: "'s \<Rightarrow> 'e \<Rightarrow> 's" and inv :: "'s \<Rightarrow> bool"
  assumes step_inv: "inv s \<Longrightarrow> inv (step s e)"
begin

lemma run_inv: "inv s \<Longrightarrow> inv (foldl step s es)"
  by (induction es arbitrary: s) (simp_all add: step_inv)

lemma run_inv_prefix: "inv s \<Longrightarrow> inv (foldl step s (take n es))"
  by (rule run_inv)

end

text \<open>A machine one of whose components only ever grows.\<close>

locale growing_machine = machine step inv
  for step :: "'s \<Rightarrow> 'e \<Rightarrow> 's" and inv :: "'s \<Rightarrow> bool" +
  fixes trace :: "'s \<Rightarrow> 'o list"
  assumes step_trace: "inv s \<Longrightarrow> \<exists>r. trace (step s e) = trace s @ r"
begin

lemma run_trace_grows: "inv s \<Longrightarrow> \<exists>r. trace (foldl step s es) = trace s @ r"
proof (induction es arbitrary: s)
  case (Cons e es)
  from Cons.IH [OF step_inv [OF Cons.prems], of e] step_trace [OF Cons.prems, of e] show ?case by auto
qed simp

end

text \<open>A machine whose view follows a simpler one: what holds of a step holds of every run.\<close>

locale simulating_machine = machine step inv
  for step :: "'s \<Rightarrow> 'e \<Rightarrow> 's" and inv :: "'s \<Rightarrow> bool" +
  fixes view :: "'s \<Rightarrow> 'a" and spec_step :: "'a \<Rightarrow> 'e \<Rightarrow> 'a"
  assumes step_view: "inv s \<Longrightarrow> view (step s e) = spec_step (view s) e"
begin

lemma run_view: "inv s \<Longrightarrow> view (foldl step s es) = foldl spec_step (view s) es"
  by (induction es arbitrary: s) (simp_all add: step_inv step_view)

end

end
