(* ===== verification/Prelude_Bytes.thy ===== *)
theory Prelude_Bytes
  imports Prelude
begin

section \<open>Prelude: slices, searching and replacing in texts and bytes\<close>

text \<open>
  The operations of \<open>bytes\<close> and \<open>str\<close> that the protocol handlers and the commands share: slices with a
  negative bound, searching, replacing, splitting at a text, numbers in base 2 and 8.
\<close>

named_theorems slice_simps \<open>slices and searches at a known prefix\<close>

subsection \<open>Slices\<close>

text \<open>\<open>xs[:i]\<close> and \<open>xs[i:]\<close> for an \<open>int\<close>: a negative bound counts from the end.\<close>

definition py_take :: "int \<Rightarrow> 'a list \<Rightarrow> 'a list" where
  "py_take i xs = (if 0 \<le> i then take (nat i) xs else take (nat (int (length xs) + i)) xs)"

definition py_drop :: "int \<Rightarrow> 'a list \<Rightarrow> 'a list" where
  "py_drop i xs = (if 0 \<le> i then drop (nat i) xs else drop (nat (int (length xs) + i)) xs)"

lemma py_take_drop [simp]: "py_take i xs @ py_drop i xs = xs"
  by (simp add: py_take_def py_drop_def)

lemma py_take_of_nat [simp, slice_simps]: "py_take (int n) xs = take n xs"
  by (simp add: py_take_def)

lemma py_drop_of_nat [simp, slice_simps]: "py_drop (int n) xs = drop n xs"
  by (simp add: py_drop_def)

lemma length_py_drop: "0 < i \<Longrightarrow> xs \<noteq> [] \<Longrightarrow> length (py_drop i xs) < length xs"
  by (simp add: py_drop_def)

lemma length_py_drop_le: "length (py_drop i xs) \<le> length xs"
  by (simp add: py_drop_def)

subsection \<open>Searching and replacing\<close>

text \<open>\<open>s.index(t)\<close> for a text that occurs.\<close>

fun find_sub :: "string \<Rightarrow> string \<Rightarrow> nat option" where
  "find_sub t [] = (if t = [] then Some 0 else None)"
| "find_sub t (c # cs) =
     (if starts_with (c # cs) t then Some 0 else map_option Suc (find_sub t cs))"

definition contains :: "string \<Rightarrow> string \<Rightarrow> bool" where
  "contains t s \<longleftrightarrow> find_sub t s \<noteq> None"

lemma find_sub_none: "t \<noteq> [] \<Longrightarrow> hd t \<notin> set s \<Longrightarrow> find_sub t s = None"
  by (induction s) (cases t; auto)+

lemma contains_iff: "contains t s \<longleftrightarrow> (\<exists>a b. s = a @ t @ b)"
proof (induction s)
  case Nil
  then show ?case by (auto simp: contains_def)
next
  case (Cons c s)
  have "contains t (c # s) \<longleftrightarrow> starts_with (c # s) t \<or> contains t s"
    by (auto simp: contains_def)
  also have "\<dots> \<longleftrightarrow> (\<exists>a b. c # s = a @ t @ b)"
  proof
    assume "starts_with (c # s) t \<or> contains t s"
    then show "\<exists>a b. c # s = a @ t @ b"
    proof
      assume "starts_with (c # s) t"
      then obtain r where "c # s = t @ r" unfolding starts_with_iff by blast
      then show ?thesis by (intro exI [of _ "[]"] exI [of _ r]) simp
    next
      assume "contains t s"
      with Cons.IH obtain a b where "s = a @ t @ b" by blast
      then show ?thesis by (intro exI [of _ "c # a"] exI [of _ b]) simp
    qed
  next
    assume "\<exists>a b. c # s = a @ t @ b"
    then obtain a b where e: "c # s = a @ t @ b" by blast
    show "starts_with (c # s) t \<or> contains t s"
    proof (cases a)
      case Nil
      then show ?thesis using e by (metis append_Nil starts_with_append)
    next
      case (Cons x xs)
      then show ?thesis using e \<open>contains t s \<longleftrightarrow> _\<close> by auto
    qed
  qed
  finally show ?case .
qed

text \<open>\<open>s.replace(a, b)\<close> for a text \<open>a\<close> that is not empty.\<close>

function py_replace :: "string \<Rightarrow> string \<Rightarrow> string \<Rightarrow> string" where
  "py_replace a b s =
     (if s = [] \<or> a = [] then s
      else if starts_with s a then b @ py_replace a b (drop (length a) s)
      else hd s # py_replace a b (tl s))"
  by pat_completeness auto
termination by (relation "measure (\<lambda>(_, _, s). length s)") (auto simp: neq_Nil_conv)

declare py_replace.simps [simp del]

lemma py_replace_Nil [simp]: "py_replace a b [] = []"
  by (simp add: py_replace.simps)

lemma py_replace_char:
  "py_replace [c] b s = concat (map (\<lambda>x. if x = c then b else [x]) s)"
proof (induction s)
  case (Cons x s)
  then show ?case
    by (cases "x = c") (auto simp: py_replace.simps [of "[c]" b "x # s"] py_replace.simps [of "[c]" b "c # s"])
qed simp

lemma py_replace_delete: "py_replace [c] [] s = filter (\<lambda>x. x \<noteq> c) s"
  by (simp add: py_replace_char) (induction s; simp)

lemma py_replace_absent: "\<not> contains a s \<Longrightarrow> py_replace a b s = s"
proof (induction s)
  case (Cons c s)
  then have "\<not> starts_with (c # s) a" "\<not> contains a s"
    by (auto simp: contains_def split: if_splits)
  with Cons.IH show ?case by (simp add: py_replace.simps [of a b "c # s"])
qed simp

subsection \<open>Numbers in other bases\<close>

text \<open>The digits of a number, most significant first, padded with zeros: \<open>f"{n:08b}"\<close>.\<close>

fun digits_base :: "nat \<Rightarrow> nat \<Rightarrow> nat list" where
  "digits_base b n = (if n < b \<or> b < 2 then [n] else digits_base b (n div b) @ [n mod b])"

declare digits_base.simps [simp del]

definition bin_text :: "nat \<Rightarrow> nat \<Rightarrow> nat list" where
  "bin_text w n = (let ds = digits_base 2 n in replicate (w - length ds) 0 @ ds)"

fun value_base :: "nat \<Rightarrow> nat list \<Rightarrow> nat" where
  "value_base b [] = 0"
| "value_base b (d # ds) = d * b ^ length ds + value_base b ds"

lemma value_base_snoc: "value_base b (ds @ [d]) = b * value_base b ds + d"
  by (induction ds) (simp_all add: algebra_simps)

lemma digits_base_nonempty [simp]: "digits_base b n \<noteq> []"
  by (subst digits_base.simps) simp

lemma value_digits: "2 \<le> b \<Longrightarrow> value_base b (digits_base b n) = n"
proof (induction n rule: less_induct)
  case (less n)
  show ?case
  proof (cases "n < b")
    case False
    then have "n div b < n" using less.prems by (intro div_less_dividend) auto
    with less False show ?thesis by (simp add: digits_base.simps [of b n] value_base_snoc)
  qed (simp add: digits_base.simps [of b n])
qed

lemma value_base_pad: "value_base b (replicate k 0 @ ds) = value_base b ds"
  by (induction k) simp_all

lemma value_bin_text: "value_base 2 (bin_text w n) = n"
  by (simp add: bin_text_def value_base_pad value_digits Let_def)

lemma length_digits_base: "2 \<le> b \<Longrightarrow> n < b ^ k \<Longrightarrow> 0 < k \<Longrightarrow> length (digits_base b n) \<le> k"
proof (induction k arbitrary: n)
  case (Suc k)
  show ?case
  proof (cases "n < b")
    case True
    then show ?thesis by (simp add: digits_base.simps [of b n])
  next
    case False
    have k: "0 < k"
    proof (rule ccontr)
      assume "\<not> 0 < k"
      then show False using Suc.prems(2) False by simp
    qed
    have "n div b < b ^ k" using Suc.prems(1,2) by (simp add: less_mult_imp_div_less mult.commute)
    with Suc.IH [OF Suc.prems(1) _ k] False show ?thesis by (simp add: digits_base.simps [of b n])
  qed
qed simp

lemma length_bin_text: "n < 2 ^ w \<Longrightarrow> 0 < w \<Longrightarrow> length (bin_text w n) = w"
  using length_digits_base [of 2 n w] by (simp add: bin_text_def Let_def)

lemma value_base_nth:
  "i < length ds \<Longrightarrow> list_all (\<lambda>d. d < b) ds \<Longrightarrow> value_base b ds div b ^ (length ds - Suc i) mod b = ds ! i"
proof (induction ds arbitrary: i rule: rev_induct)
  case (snoc d ds)
  then have d: "d < b" by simp
  show ?case
  proof (cases "i = length ds")
    case True
    with d show ?thesis by (simp add: value_base_snoc)
  next
    case False
    then have i: "i < length ds" using snoc.prems(1) by simp
    then have e: "length (ds @ [d]) - Suc i = Suc (length ds - Suc i)" by simp
    have "value_base b (ds @ [d]) div b ^ Suc (length ds - Suc i)
        = (value_base b (ds @ [d]) div b) div b ^ (length ds - Suc i)"
      by (simp add: div_mult2_eq)
    also have "value_base b (ds @ [d]) div b = value_base b ds" using d by (simp add: value_base_snoc)
    finally show ?thesis using snoc.IH [OF i] snoc.prems(2) i unfolding e by (simp add: nth_append)
  qed
qed simp

lemma digits_base_less: "2 \<le> b \<Longrightarrow> list_all (\<lambda>d. d < b) (digits_base b n)"
proof (induction n rule: less_induct)
  case (less n)
  show ?case
  proof (cases "n < b")
    case False
    then have "n div b < n" using less.prems by (intro div_less_dividend) auto
    with less False show ?thesis by (simp add: digits_base.simps [of b n])
  qed (simp add: digits_base.simps [of b n])
qed

lemma bin_text_bits: "list_all (\<lambda>d. d < 2) (bin_text w n)"
  using digits_base_less [of 2 n] by (auto simp: bin_text_def Let_def list_all_iff)

lemma bin_text_nth: "n < 2 ^ w \<Longrightarrow> i < w \<Longrightarrow> bin_text w n ! i = n div 2 ^ (w - Suc i) mod 2"
  using value_base_nth [of i "bin_text w n" 2] length_bin_text [of n w] bin_text_bits [of w n]
  by (simp add: value_bin_text)

lemma value_base_append: "value_base b (xs @ ys) = value_base b xs * b ^ length ys + value_base b ys"
  by (induction xs) (simp_all add: power_add algebra_simps)

lemma value_base_less: "list_all (\<lambda>d. d < b) ds \<Longrightarrow> value_base b ds < b ^ length ds"
proof (induction ds)
  case (Cons d ds)
  then have "Suc d \<le> b" "value_base b ds < b ^ length ds" by simp_all
  then have "d * b ^ length ds + value_base b ds < Suc d * b ^ length ds" by simp
  also have "\<dots> \<le> b * b ^ length ds" using \<open>Suc d \<le> b\<close> by (rule mult_le_mono1)
  finally show ?case by simp
qed simp

definition lower_char :: "char \<Rightarrow> char" where
  "lower_char c = (let n = (of_char c :: nat) in if 65 \<le> n \<and> n \<le> 90 then char_of (n + 32) else c)"

definition py_lower :: "string \<Rightarrow> string" where
  "py_lower s = map lower_char s"

subsection \<open>Encoding a code point\<close>

text \<open>\<open>chr(n).encode()\<close> for a number below 2048: one byte of UTF-8 below 128, two above.\<close>

definition chr_encode :: "nat \<Rightarrow> string" where
  "chr_encode n = (if n < 128 then [char_of n] else [char_of (192 + n div 64), char_of (128 + n mod 64)])"

lemma chr_encode_ascii: "of_char c < (128 :: nat) \<Longrightarrow> chr_encode (of_char c) = [c]"
  by (simp add: chr_encode_def)

subsection \<open>Hexadecimal text\<close>

definition hex_char :: "nat \<Rightarrow> char" where
  "hex_char d = (if d < 10 then char_of (48 + d) else char_of (87 + d))"

fun hex_of_nat :: "nat \<Rightarrow> string" where
  "hex_of_nat n =
     (if n < 16 then [hex_char n] else hex_of_nat (n div 16) @ [hex_char (n mod 16)])"

declare hex_of_nat.simps [simp del]

lemma hex_char_inject: "a < 16 \<Longrightarrow> b < 16 \<Longrightarrow> hex_char a = hex_char b \<longleftrightarrow> a = b"
proof -
  assume ab: "a < 16" "b < 16"
  have code: "of_char (hex_char d) = (if d < 10 then 48 + d else 87 + d)" if "d < 16" for d
    using that by (simp add: hex_char_def)
  show ?thesis
  proof
    assume "hex_char a = hex_char b"
    then have "(of_char (hex_char a) :: nat) = of_char (hex_char b)" by simp
    with ab code show "a = b" by (simp split: if_splits)
  qed simp
qed

subsection \<open>Splitting at white space and at a text\<close>

text \<open>\<open>split()\<close> of a \<open>bytes\<close> and of a \<open>str\<close>: the pieces between runs of white space.\<close>

definition byte_space :: "char \<Rightarrow> bool" where
  "byte_space c \<longleftrightarrow> (let n = (of_char c :: nat) in n = 32 \<or> 9 \<le> n \<and> n \<le> 13)"

fun split_space :: "(char \<Rightarrow> bool) \<Rightarrow> string \<Rightarrow> string \<Rightarrow> string list" where
  "split_space sp cur [] = (if cur = [] then [] else [cur])"
| "split_space sp cur (c # cs) =
     (if sp c then (if cur = [] then split_space sp [] cs else cur # split_space sp [] cs)
      else split_space sp (cur @ [c]) cs)"

text \<open>\<open>s.split(t)\<close> for a text \<open>t\<close> that is not empty.\<close>

function split_str :: "string \<Rightarrow> string \<Rightarrow> string list" where
  "split_str t s =
     (case find_sub t s of
        None \<Rightarrow> [s]
      | Some i \<Rightarrow> if t = [] then [s] else take i s # split_str t (drop (i + length t) s))"
  by pat_completeness auto

lemma find_sub_bound: "find_sub t s = Some i \<Longrightarrow> i + length t \<le> length s"
proof (induction s arbitrary: i)
  case (Cons c s)
  then show ?case
    by (auto split: if_splits simp: starts_with_iff) (metis Suc_le_mono add.commute length_Cons length_append le_add1)
qed (auto split: if_splits)

termination split_str
  by (relation "measure (\<lambda>(t, s). length s)") (simp, drule find_sub_bound, simp add: neq_Nil_conv, fastforce)

declare split_str.simps [simp del]

end
