(* ===== verification/Pool_Backend.thy ===== *)
theory Pool_Backend
  imports Prelude_Bytes
begin

section \<open>The libvirt back end of the VM pool\<close>

text \<open>
  Model of \<open>backend_pool/util.py\<close> (\<open>generate_network_table\<close>) and of
  \<open>backend_pool/libvirt/backend_service.py\<close>. The back end keeps a flag that says whether its
  networks are up and a table from MAC to IP address. What libvirt itself does is a parameter:
  \<open>spawn\<close> is the outcome of \<open>guest_handler.create_guest\<close> (a domain and its snapshot, or an
  exception). The calls made to libvirt are recorded in a log, in order.
\<close>

subsection \<open>The network table\<close>

text \<open>\<open>hex(n)[2:].zfill(2)\<close>\<close>

definition to_byte :: "nat \<Rightarrow> string" where
  "to_byte n = (let h = hex_of_nat n in replicate (2 - length h) (CHR ''0'') @ h)"

definition mac_of :: "nat \<times> nat \<Rightarrow> string" where
  "mac_of ab = ''48:d2:24:bf:'' @ to_byte (fst ab) @ '':'' @ to_byte (snd ab)"

text \<open>
  The \<open>while len(macs) < 253\<close> loop over the random draws, each a pair of numbers below 256;
  \<open>None\<close> when the given draws do not suffice.
\<close>

fun collect_macs :: "nat \<Rightarrow> string list \<Rightarrow> (nat \<times> nat) list \<Rightarrow> string list option" where
  "collect_macs target macs [] = (if length macs < target then None else Some macs)"
| "collect_macs target macs (d # ds) =
     (if length macs < target
      then collect_macs target (if mac_of d \<in> set macs then macs else macs @ [mac_of d]) ds
      else Some macs)"

fun table_of_macs :: "nat \<Rightarrow> string list \<Rightarrow> (string \<times> string) list" where
  "table_of_macs ip_counter [] = []"
| "table_of_macs ip_counter (m # ms) =
     (m, ''192.168.150.'' @ digits_of_nat ip_counter) # table_of_macs (Suc ip_counter) ms"

text \<open>\<open>ord\<close> is the order in which Python iterates over the set of MACs.\<close>

definition generate_network_table ::
    "(string list \<Rightarrow> string list) \<Rightarrow> (nat \<times> nat) list \<Rightarrow> (string \<times> string) list option" where
  "generate_network_table ord draws =
     map_option (\<lambda>macs. table_of_macs 2 (ord macs)) (collect_macs 253 [] draws)"

lemma collect_macs_distinct:
  "collect_macs n macs ds = Some r \<Longrightarrow> distinct macs \<Longrightarrow> length macs \<le> n
   \<Longrightarrow> distinct r \<and> length r = n"
  by (induction n macs ds rule: collect_macs.induct) (auto split: if_splits)

text \<open>Different bytes have different texts, so enough different draws fill the table.\<close>

lemma to_byte_two_digits: "n < 256 \<Longrightarrow> to_byte n = [hex_char (n div 16), hex_char (n mod 16)]"
proof -
  assume "n < 256"
  then have "n div 16 < 16" by (simp add: less_mult_imp_div_less)
  moreover have "hex_char 0 = CHR ''0''" by (simp add: hex_char_def char_of_def bit_0)
  ultimately show ?thesis
    by (simp add: to_byte_def hex_of_nat.simps [of n] hex_of_nat.simps [of "n div 16"] Let_def)
qed

lemma to_byte_inject: "m < 256 \<Longrightarrow> n < 256 \<Longrightarrow> to_byte m = to_byte n \<longleftrightarrow> m = n"
  by (simp add: to_byte_two_digits hex_char_inject) (metis div_mult_mod_eq)

lemma collect_macs_all:
  "distinct (macs @ map mac_of ds) \<Longrightarrow> length macs + length ds = n
   \<Longrightarrow> collect_macs n macs ds = Some (macs @ map mac_of ds)"
  by (induction n macs ds rule: collect_macs.induct) auto

lemma table_of_macs_keys [simp]: "map fst (table_of_macs n ms) = ms"
  by (induction n ms rule: table_of_macs.induct) simp_all

lemma table_of_macs_ips:
  "map snd (table_of_macs n ms)
   = map (\<lambda>k. ''192.168.150.'' @ digits_of_nat k) [n..<n + length ms]"
proof (induction n ms rule: table_of_macs.induct)
  case (2 n m ms)
  have "[n..<n + length (m # ms)] = n # [Suc n..<Suc n + length ms]"
    by (simp add: upt_rec)
  with 2 show ?case by simp
qed simp

lemma table_of_macs_distinct_ips: "distinct (map snd (table_of_macs n ms))"
  by (simp add: table_of_macs_ips distinct_map inj_on_def)

subsection \<open>The service\<close>

datatype qemu_call =
    DestroyDomain string
  | DestroyAllCowrie
  | StartBackend
  | StopBackend
  | ShutdownBackend

record backend =
  ready :: bool
  network_table :: "(string \<times> string) list"
  qemu_log :: "qemu_call list"

definition log_call :: "qemu_call \<Rightarrow> backend \<Rightarrow> backend" where
  "log_call c b = b\<lparr>qemu_log := qemu_log b @ [c]\<rparr>"

definition destroy_all_cowrie :: "backend \<Rightarrow> backend" where
  "destroy_all_cowrie b = log_call DestroyAllCowrie b"

definition start_backend :: "backend \<Rightarrow> backend" where
  "start_backend b = (log_call StartBackend b)\<lparr>ready := True\<rparr>"

definition stop_backend :: "backend \<Rightarrow> backend" where
  "stop_backend b = destroy_all_cowrie ((log_call StopBackend b)\<lparr>ready := False\<rparr>)"

definition shutdown_backend :: "backend \<Rightarrow> backend" where
  "shutdown_backend b = log_call ShutdownBackend b"

text \<open>
  \<open>destroy_guest\<close>: nothing when the back end is not ready; otherwise the domain is destroyed,
  and an exception of libvirt is logged and swallowed.
\<close>

definition destroy_guest :: "string \<Rightarrow> backend \<Rightarrow> backend" where
  "destroy_guest d b = (if \<not> ready b then b else log_call (DestroyDomain d) b)"

text \<open>
  \<open>get_mac_ip\<close>: up to 500 random choices; \<open>rnd k\<close> is the draw of attempt \<open>k\<close>, reduced to an
  index as \<open>random.choice\<close> does.
\<close>

fun get_mac_ip :: "(string \<times> string) list \<Rightarrow> (nat \<Rightarrow> nat) \<Rightarrow> (string \<Rightarrow> bool) \<Rightarrow> nat
    \<Rightarrow> (string \<times> string) res" where
  "get_mac_ip tab rnd ip_tester 0 = Inl LibvirtError"
| "get_mac_ip tab rnd ip_tester (Suc left) =
     (if tab = [] then Inl IndexError
      else let (mac, ip) = tab ! (rnd left mod length tab)
           in if ip_tester ip then Inr (mac, ip) else get_mac_ip tab rnd ip_tester left)"

definition create_guest :: "backend \<Rightarrow> (nat \<Rightarrow> nat) \<Rightarrow> (string \<Rightarrow> (string option \<times> string) res)
    \<Rightarrow> (string \<Rightarrow> bool) \<Rightarrow> (string \<times> string \<times> string) option res" where
  "create_guest b rnd spawn ip_tester =
     (if \<not> ready b then Inr None
      else rbind (get_mac_ip (network_table b) rnd ip_tester 500)
        (\<lambda>(mac, ip). rbind (spawn mac)
          (\<lambda>(domain, snapshot). case domain of
               None \<Rightarrow> Inr None
             | Some d \<Rightarrow> Inr (Some (d, snapshot, ip)))))"

lemma get_mac_ip_sound:
  "get_mac_ip tab rnd tst n = Inr (mac, ip) \<Longrightarrow> (mac, ip) \<in> set tab \<and> tst ip"
  by (induction n) (auto simp: Let_def split: if_splits prod.splits, metis mod_less_divisor
      length_greater_0_conv nth_mem)

lemma get_mac_ip_exhausted:
  "tab \<noteq> [] \<Longrightarrow> (\<forall>ip \<in> snd ` set tab. \<not> tst ip) \<Longrightarrow> get_mac_ip tab rnd tst n = Inl LibvirtError"
proof (induction n)
  case 0
  then show ?case by simp
next
  case (Suc n)
  obtain m ip where mi: "tab ! (rnd n mod length tab) = (m, ip)"
    by (cases "tab ! (rnd n mod length tab)")
  then have "(m, ip) \<in> set tab"
    using Suc.prems(1) by (metis length_greater_0_conv mod_less_divisor nth_mem)
  then have "\<not> tst ip" using Suc.prems(2) by force
  with mi Suc show ?case by (simp add: Let_def)
qed

lemma create_guest_Some:
  assumes "create_guest b rnd spawn tst = Inr (Some (d, s, ip))"
  shows "ready b \<and> tst ip \<and> ip \<in> snd ` set (network_table b)"
proof -
  from assms obtain mac where "ready b" and "get_mac_ip (network_table b) rnd tst 500 = Inr (mac, ip)"
    by (auto simp: create_guest_def rbind_Inr_iff split: if_splits option.splits)
  then show ?thesis using get_mac_ip_sound by force
qed

lemma backend_ready_simps [simp]:
  "ready (log_call c b) = ready b" "ready (destroy_all_cowrie b) = ready b"
  "ready (start_backend b)" "\<not> ready (stop_backend b)" "ready (destroy_guest d b) = ready b"
  "ready (shutdown_backend b) = ready b"
  by (simp_all add: log_call_def destroy_all_cowrie_def start_backend_def stop_backend_def
      destroy_guest_def shutdown_backend_def)

lemma backend_table_simps [simp]:
  "network_table (log_call c b) = network_table b"
  "network_table (destroy_all_cowrie b) = network_table b"
  "network_table (start_backend b) = network_table b"
  "network_table (stop_backend b) = network_table b"
  "network_table (destroy_guest d b) = network_table b"
  "network_table (shutdown_backend b) = network_table b"
  by (simp_all add: log_call_def destroy_all_cowrie_def start_backend_def stop_backend_def
      destroy_guest_def shutdown_backend_def)

lemma backend_log_simps [simp]:
  "qemu_log (log_call c b) = qemu_log b @ [c]"
  "qemu_log (destroy_all_cowrie b) = qemu_log b @ [DestroyAllCowrie]"
  "qemu_log (start_backend b) = qemu_log b @ [StartBackend]"
  "qemu_log (stop_backend b) = qemu_log b @ [StopBackend, DestroyAllCowrie]"
  "qemu_log (destroy_guest d b) = qemu_log b @ (if ready b then [DestroyDomain d] else [])"
  by (simp_all add: log_call_def destroy_all_cowrie_def start_backend_def stop_backend_def
      destroy_guest_def)

end
