(* ===== verification/Pool_Nat.thy ===== *)
theory Pool_Nat
  imports Prelude
begin

section \<open>The NAT service of the VM pool\<close>

text \<open>
  Model of \<open>backend_pool/nat.py\<close>. Every method of \<open>NATService\<close> runs under its lock, so each is
  one atomic step on the table of bindings and on the set of ports the reactor listens on. A
  port object is a number handed out in order; the TCP port number the system chooses for a new
  listener is an argument. \<open>_realPortNumber\<close> of a port object is \<open>None\<close> exactly when it no
  longer listens (here at once, in Twisted in the next turn of the reactor).
\<close>

record nat_service =
  bindings :: "(nat \<times> (int \<times> nat \<times> nat)) list"
  listening :: "(nat \<times> nat) list"
  next_port :: nat

definition nat_init :: nat_service where
  "nat_init = \<lparr>bindings = [], listening = [], next_port = 0\<rparr>"

definition real_port :: "nat_service \<Rightarrow> nat \<Rightarrow> nat option" where
  "real_port n h = map_of (listening n) h"

definition stop_listening :: "nat \<Rightarrow> nat_service \<Rightarrow> nat_service" where
  "stop_listening h n = n\<lparr>listening := AList.delete h (listening n)\<rparr>"

text \<open>\<open>reactor.listenTCP\<close>: a new port object, listening on the number the system gave.\<close>

definition listen_tcp :: "nat \<Rightarrow> nat_service \<Rightarrow> nat_service \<times> nat" where
  "listen_tcp p n =
     (n\<lparr>listening := (next_port n, p) # listening n, next_port := Suc (next_port n)\<rparr>, next_port n)"

definition create_binding :: "nat \<Rightarrow> nat \<times> nat \<Rightarrow> nat_service \<Rightarrow> nat_service \<times> nat \<times> nat" where
  "create_binding gid ports n =
     (let (n1, h_ssh) = listen_tcp (fst ports) n;
          (n2, h_telnet) = listen_tcp (snd ports) n1
      in (n2\<lparr>bindings := AList.update gid (1, h_ssh, h_telnet) (bindings n2)\<rparr>, ports))"

definition request_binding :: "nat \<Rightarrow> nat \<times> nat \<Rightarrow> nat_service \<Rightarrow> nat_service \<times> nat \<times> nat" where
  "request_binding gid ports n =
     (case map_of (bindings n) gid of
        None \<Rightarrow> create_binding gid ports n
      | Some (c, h1, h2) \<Rightarrow>
          let n1 = n\<lparr>bindings := AList.update gid (c + 1, h1, h2) (bindings n)\<rparr>
          in (case (real_port n1 h1, real_port n1 h2) of
                (Some p1, Some p2) \<Rightarrow> (n1, p1, p2)
              | (port1, port2) \<Rightarrow>
                  let n2 = (if port1 \<noteq> None then stop_listening h1 n1 else n1);
                      n3 = (if port2 \<noteq> None then stop_listening h2 n2 else n2);
                      n4 = n3\<lparr>bindings := AList.delete gid (bindings n3)\<rparr>
                  in create_binding gid ports n4))"

definition free_binding :: "nat \<Rightarrow> nat_service \<Rightarrow> (nat_service, unit) sres" where
  "free_binding gid n =
     (case map_of (bindings n) gid of
        None \<Rightarrow> (n, Inl KeyError)
      | Some (c, h1, h2) \<Rightarrow>
          let n1 = n\<lparr>bindings := AList.update gid (c - 1, h1, h2) (bindings n)\<rparr>
          in (if c - 1 \<le> 0
              then let n2 = stop_listening h2 (stop_listening h1 n1)
                   in (n2\<lparr>bindings := AList.delete gid (bindings n2)\<rparr>, Inr ())
              else (n1, Inr ())))"

definition free_all :: "nat_service \<Rightarrow> nat_service" where
  "free_all n =
     (let n1 = fold (\<lambda>(gid, c, h1, h2) s. stop_listening h2 (stop_listening h1 s)) (bindings n) n
      in n1\<lparr>bindings := []\<rparr>)"

text \<open>A listener closed from outside, the edge case the code guards against.\<close>

definition lose_port :: "nat \<Rightarrow> nat_service \<Rightarrow> nat_service" where
  "lose_port h n = stop_listening h n"

subsection \<open>Invariant: no listener without a binding, no port object shared\<close>

definition handles :: "(nat \<times> (int \<times> nat \<times> nat)) list \<Rightarrow> nat list" where
  "handles bs = concat (map (\<lambda>(g, c, h1, h2). [h1, h2]) bs)"

definition open_ports :: "nat_service \<Rightarrow> nat set" where
  "open_ports n = fst ` set (listening n)"

definition nat_inv :: "nat_service \<Rightarrow> bool" where
  "nat_inv n \<longleftrightarrow>
     distinct (map fst (bindings n)) \<and> distinct (handles (bindings n))
     \<and> (\<forall>h \<in> set (handles (bindings n)). h < next_port n)
     \<and> open_ports n \<subseteq> set (handles (bindings n))
     \<and> list_all (\<lambda>(g, c, h1, h2). 1 \<le> c) (bindings n)"

lemma handles_simps [simp]:
  "handles [] = []" "handles ((g, c, h1, h2) # bs) = h1 # h2 # handles bs"
  "handles (bs @ bs') = handles bs @ handles bs'"
  by (simp_all add: handles_def)

lemma mem_handles: "h \<in> set (handles bs) \<longleftrightarrow> (\<exists>g c h1 h2. (g, c, h1, h2) \<in> set bs \<and> (h = h1 \<or> h = h2))"
  by (force simp: handles_def)

lemma stop_listening_simps [simp]:
  "bindings (stop_listening h n) = bindings n" "next_port (stop_listening h n) = next_port n"
  "open_ports (stop_listening h n) = open_ports n - {h}"
  by (simp_all add: stop_listening_def open_ports_def fst_delete)

lemma open_ports_simps [simp]:
  "open_ports (n\<lparr>bindings := bs\<rparr>) = open_ports n"
  "open_ports (n\<lparr>listening := (h, p) # ls, next_port := k\<rparr>) = insert h (fst ` set ls)"
  by (simp_all add: open_ports_def)

lemma real_port_open: "real_port n h \<noteq> None \<longleftrightarrow> h \<in> open_ports n"
  by (auto simp: real_port_def open_ports_def map_of_eq_None_iff)

lemma listen_tcp_simps:
  "snd (listen_tcp p n) = next_port n" "bindings (fst (listen_tcp p n)) = bindings n"
  "next_port (fst (listen_tcp p n)) = Suc (next_port n)"
  "open_ports (fst (listen_tcp p n)) = insert (next_port n) (open_ports n)"
  by (simp_all add: listen_tcp_def open_ports_def)

lemma create_binding_simps:
  "bindings (fst (create_binding g ps n))
     = AList.update g (1, next_port n, Suc (next_port n)) (bindings n)"
  "next_port (fst (create_binding g ps n)) = Suc (Suc (next_port n))"
  "open_ports (fst (create_binding g ps n))
     = insert (Suc (next_port n)) (insert (next_port n) (open_ports n))"
  by (simp_all add: create_binding_def listen_tcp_def open_ports_def)

lemma create_binding_inv:
  assumes "nat_inv n" "map_of (bindings n) g = None"
  shows "nat_inv (fst (create_binding g ps n))"
  using assms
  by (auto simp: nat_inv_def create_binding_simps alist_update_new map_of_eq_None_iff)

lemma request_binding_inv: "nat_inv n \<Longrightarrow> nat_inv (fst (request_binding g ps n))"
proof (cases "map_of (bindings n) g")
  case None
  assume "nat_inv n"
  with None show ?thesis by (simp add: request_binding_def create_binding_inv)
next
  case (Some v)
  assume inv: "nat_inv n"
  obtain c h1 h2 where v: "v = (c, h1, h2)" by (cases v)
  obtain as cs where sp: "bindings n = as @ (g, c, h1, h2) # cs" and ga: "g \<notin> fst ` set as"
    using map_of_split [OF Some] v by blast
  have gc: "g \<notin> fst ` set cs" using inv sp by (simp add: nat_inv_def)
  show ?thesis
  proof (cases "real_port n h1 \<noteq> None \<and> real_port n h2 \<noteq> None")
    case True
    then show ?thesis
      using inv Some v sp ga
      by (auto simp: request_binding_def nat_inv_def real_port_def alist_update_mid)
  next
    case False
    define n1 where "n1 = n\<lparr>bindings := AList.update g (c + 1, h1, h2) (bindings n)\<rparr>"
    define n2 where "n2 = (if real_port n1 h1 \<noteq> None then stop_listening h1 n1 else n1)"
    define n3 where "n3 = (if real_port n1 h2 \<noteq> None then stop_listening h2 n2 else n2)"
    define m where "m = n3\<lparr>bindings := AList.delete g (bindings n3)\<rparr>"
    have req: "request_binding g ps n = create_binding g ps m"
      using False Some v
      by (auto simp: request_binding_def m_def n3_def n2_def n1_def Let_def real_port_def
          split: option.splits)
    have bm: "bindings m = as @ cs" "next_port m = next_port n"
      by (simp_all add: m_def n3_def n2_def n1_def sp ga gc alist_update_mid alist_delete_mid)
    have "open_ports m = open_ports n - {h1, h2}"
      using real_port_open [of n1 h1] real_port_open [of n1 h2]
      by (auto simp: m_def n3_def n2_def n1_def)
    then have "nat_inv m"
      using inv by (auto simp: nat_inv_def bm sp)
    moreover have "map_of (bindings m) g = None"
      using ga gc by (auto simp: bm map_of_eq_None_iff)
    ultimately show ?thesis by (simp add: req create_binding_inv)
  qed
qed

lemma free_binding_inv: "nat_inv n \<Longrightarrow> nat_inv (fst (free_binding g n))"
proof (cases "map_of (bindings n) g")
  case None
  assume "nat_inv n"
  with None show ?thesis by (simp add: free_binding_def)
next
  case (Some v)
  assume inv: "nat_inv n"
  obtain c h1 h2 where v: "v = (c, h1, h2)" by (cases v)
  obtain as cs where sp: "bindings n = as @ (g, c, h1, h2) # cs" and ga: "g \<notin> fst ` set as"
    using map_of_split [OF Some] v by blast
  have gc: "g \<notin> fst ` set cs" using inv sp by (simp add: nat_inv_def)
  show ?thesis
    using inv Some v ga gc
    by (auto simp: free_binding_def nat_inv_def Let_def sp alist_update_mid alist_delete_mid)
qed

lemma lose_port_inv: "nat_inv n \<Longrightarrow> nat_inv (lose_port h n)"
  by (auto simp: nat_inv_def lose_port_def)

lemma free_all_fold:
  "open_ports (fold (\<lambda>(gid, c, h1, h2) s. stop_listening h2 (stop_listening h1 s)) bs n)
     = open_ports n - set (handles bs)"
  by (induction bs arbitrary: n) auto

lemma free_all_clears: "nat_inv n \<Longrightarrow> bindings (free_all n) = [] \<and> listening (free_all n) = []"
proof -
  assume inv: "nat_inv n"
  let ?m = "fold (\<lambda>(gid, c, h1, h2) s. stop_listening h2 (stop_listening h1 s)) (bindings n) n"
  have "open_ports ?m = {}"
    using inv free_all_fold [of "bindings n" n] by (auto simp: nat_inv_def)
  then show ?thesis by (simp add: free_all_def Let_def open_ports_def)
qed

lemma free_all_inv: "nat_inv n \<Longrightarrow> nat_inv (free_all n)"
  by (simp add: nat_inv_def [of "free_all n"] free_all_clears open_ports_def)

lemma nat_init_inv: "nat_inv nat_init"
  by (simp add: nat_init_def nat_inv_def open_ports_def)

subsection \<open>Reference counting\<close>

definition ref_count :: "nat \<Rightarrow> nat_service \<Rightarrow> int" where
  "ref_count g n = (case map_of (bindings n) g of None \<Rightarrow> 0 | Some (c, h1, h2) \<Rightarrow> c)"

definition binding_open :: "nat \<Rightarrow> nat_service \<Rightarrow> bool" where
  "binding_open g n \<longleftrightarrow>
     (case map_of (bindings n) g of
        None \<Rightarrow> False
      | Some (c, h1, h2) \<Rightarrow> real_port n h1 \<noteq> None \<and> real_port n h2 \<noteq> None)"

lemma request_binding_open: "binding_open g n \<Longrightarrow>
   listening (fst (request_binding g ps n)) = listening n
   \<and> ref_count g (fst (request_binding g ps n)) = ref_count g n + 1
   \<and> binding_open g (fst (request_binding g ps n))"
  by (auto simp: binding_open_def request_binding_def ref_count_def real_port_def
      map_of_alist_update split: option.splits)

lemma create_binding_open: "binding_open g (fst (create_binding g ps n))
   \<and> ref_count g (fst (create_binding g ps n)) = 1 \<and> snd (create_binding g ps n) = ps"
  by (simp add: binding_open_def create_binding_def listen_tcp_def ref_count_def real_port_def
      map_of_alist_update Let_def)

lemma request_binding_always_open: "binding_open g (fst (request_binding g ps n))"
proof (cases "binding_open g n")
  case True
  then show ?thesis by (simp add: request_binding_open)
next
  case False
  then show ?thesis
    by (auto simp: request_binding_def binding_open_def [of g n] Let_def real_port_def
        create_binding_open [THEN conjunct1] split: option.splits)
qed

subsection \<open>The buffering TCP proxy\<close>

text \<open>
  \<open>ServerProtocol\<close> keeps what arrives before its client side is connected. \<open>retries\<close> counts the
  \<open>callLater\<close> calls it has scheduled and \<open>sent\<close> is what it wrote to the client transport.
\<close>

record nat_proxy =
  buffer :: "string list"
  client_up :: bool
  sent :: "string list"
  retries :: nat

definition send_data :: "nat_proxy \<Rightarrow> nat_proxy" where
  "send_data s =
     (if \<not> client_up s then s\<lparr>retries := Suc (retries s)\<rparr>
      else s\<lparr>sent := sent s @ buffer s, buffer := []\<rparr>)"

definition data_received :: "string \<Rightarrow> nat_proxy \<Rightarrow> nat_proxy" where
  "data_received d s = send_data (s\<lparr>buffer := buffer s @ [d]\<rparr>)"

datatype proxy_event = Data string | Client_connected | Retry_timer

fun proxy_step :: "nat_proxy \<Rightarrow> proxy_event \<Rightarrow> nat_proxy" where
  "proxy_step s (Data d) = data_received d s"
| "proxy_step s Client_connected = s\<lparr>client_up := True\<rparr>"
| "proxy_step s Retry_timer =
     (if retries s = 0 then s else send_data (s\<lparr>retries := retries s - 1\<rparr>))"

fun data_of :: "proxy_event list \<Rightarrow> string list" where
  "data_of [] = []"
| "data_of (Data d # es) = d # data_of es"
| "data_of (_ # es) = data_of es"

definition proxy_init :: nat_proxy where
  "proxy_init = \<lparr>buffer = [], client_up = False, sent = [], retries = 0\<rparr>"

lemma send_data_content: "sent (send_data s) @ buffer (send_data s) = sent s @ buffer s"
  by (simp add: send_data_def)

lemma proxy_step_content:
  "sent (proxy_step s e) @ buffer (proxy_step s e) = (sent s @ buffer s) @ data_of [e]"
  by (cases e) (simp_all add: data_received_def send_data_content)

lemma data_of_Cons: "data_of (e # es) = data_of [e] @ data_of es"
  by (cases e) simp_all

lemma proxy_run_content:
  "sent (foldl proxy_step s es) @ buffer (foldl proxy_step s es) = (sent s @ buffer s) @ data_of es"
proof (induction es arbitrary: s)
  case Nil
  then show ?case by simp
next
  case (Cons e es)
  then show ?case by (simp add: proxy_step_content data_of_Cons [of e es] del: data_of.simps(2-4))
qed

text \<open>Data waits only behind a pending timer.\<close>

lemma proxy_step_pending:
  "buffer s \<noteq> [] \<longrightarrow> 0 < retries s
   \<Longrightarrow> buffer (proxy_step s e) \<noteq> [] \<longrightarrow> 0 < retries (proxy_step s e)"
  by (cases e) (auto simp: data_received_def send_data_def)

lemma proxy_run_pending:
  "buffer s \<noteq> [] \<longrightarrow> 0 < retries s
   \<Longrightarrow> buffer (foldl proxy_step s es) \<noteq> [] \<longrightarrow> 0 < retries (foldl proxy_step s es)"
  by (induction es arbitrary: s) (simp_all add: proxy_step_pending)

end
