(* ===== verification/Pool_Service.thy ===== *)
theory Pool_Service
  imports Pool_Backend Pool_Nat
begin

section \<open>The VM pool: producer loop and consumer operations\<close>

text \<open>
  Model of \<open>backend_pool/pool_service.py\<close>. The pool keeps a list of guests; the producer loop
  creates, checks, retires and removes them, and the consumers request, free and reuse them.
  Every method that touches the list is one operation on the pool state here: consumer requests
  and all but the first producer iteration run in the reactor thread. A guest is a position of
  the list, so mutating a guest the code holds a reference to is updating that position.

  What the pool asks of its surroundings is a parameter of the iteration (\<open>env\<close>): the clock,
  the answers of \<open>nmap\<close> in the two phases that probe, the random picks of the back end and the
  outcome of starting a domain. Times are rational numbers of seconds.
\<close>

subsection \<open>State\<close>

datatype vm_state = Created | Available | Using | Used | Unavailable | Destroyed

record guest =
  g_id :: nat
  client_ips :: "string list"
  g_connected :: int
  g_state :: "vm_state option"
  prev_state :: "vm_state option"
  start_timestamp :: rat
  freed_timestamp :: rat
  g_domain :: string
  guest_ip :: string
  g_name :: string
  g_snapshot :: string

text \<open>The state of the \<open>DelayedCall\<close> in \<open>loop_next_call\<close>.\<close>

datatype delayed_call = NoCall | Pending | Called | Cancelled

record pool =
  qemu :: backend
  nat_svc :: nat_service
  guests :: "guest list"
  guest_id :: nat
  loop_next_call :: delayed_call
  max_vm :: int
  vm_unused_timeout :: int
  share_guests :: bool
  ssh_port :: int
  telnet_port :: int
  local_pool :: bool
  pool_only :: bool
  use_nat :: bool
  any_vm_up :: bool

record pool_env =
  clk :: "nat \<Rightarrow> rat"
  probe_health :: "string \<Rightarrow> int \<Rightarrow> bool"
  probe_boot :: "string \<Rightarrow> int \<Rightarrow> bool"
  picks :: "nat \<Rightarrow> nat \<Rightarrow> nat"
  spawn :: "nat \<Rightarrow> string \<Rightarrow> (string option \<times> string) res"
  boot_clk :: "nat \<Rightarrow> rat"

definition in_states :: "vm_state list \<Rightarrow> guest \<Rightarrow> bool" where
  "in_states sts g \<longleftrightarrow> g_state g \<in> Some ` set sts"

definition get_guest_states :: "vm_state list \<Rightarrow> pool \<Rightarrow> guest list" where
  "get_guest_states sts p = filter (in_states sts) (guests p)"

definition existing_pool_size :: "pool \<Rightarrow> int" where
  "existing_pool_size p = int (length (filter (\<lambda>g. g_state g \<noteq> Some Destroyed) (guests p)))"

definition is_ip_free :: "pool \<Rightarrow> string \<Rightarrow> bool" where
  "is_ip_free p ip \<longleftrightarrow> list_all (\<lambda>g. guest_ip g \<noteq> ip) (guests p)"

definition has_connectivity :: "(string \<Rightarrow> int \<Rightarrow> bool) \<Rightarrow> pool \<Rightarrow> string \<Rightarrow> bool" where
  "has_connectivity nmap_port p ip =
     (let has_ssh = (if ssh_port p > 0 then nmap_port ip (ssh_port p) else False);
          has_telnet = (if telnet_port p > 0 \<and> \<not> has_ssh then nmap_port ip (telnet_port p) else True)
      in has_ssh \<or> has_telnet)"

subsection \<open>Starting and stopping\<close>

definition set_configs :: "int \<Rightarrow> int \<Rightarrow> bool \<Rightarrow> pool \<Rightarrow> pool" where
  "set_configs m t sh p = p\<lparr>max_vm := m, vm_unused_timeout := t, share_guests := sh\<rparr>"

definition start_pool :: "pool \<Rightarrow> pool" where
  "start_pool p =
     p\<lparr>qemu := start_backend (destroy_all_cowrie (qemu p)), guests := [], guest_id := 0,
       any_vm_up := False\<rparr>"

text \<open>\<open>loop_next_call.cancel()\<close>, guarded by \<open>if self.loop_next_call\<close>.\<close>

definition cancel_loop :: "pool \<Rightarrow> (pool, unit) sres" where
  "cancel_loop p =
     (case loop_next_call p of
        NoCall \<Rightarrow> (p, Inr ())
      | Pending \<Rightarrow> (p\<lparr>loop_next_call := Cancelled\<rparr>, Inr ())
      | Called \<Rightarrow> (p, Inl AlreadyCalled)
      | Cancelled \<Rightarrow> (p, Inl AlreadyCancelled))"

definition nat_in_use :: "pool \<Rightarrow> bool" where
  "nat_in_use p \<longleftrightarrow> (\<not> local_pool p \<and> use_nat p) \<or> pool_only p"

definition stop_pool :: "pool \<Rightarrow> (pool, unit) sres" where
  "stop_pool p =
     sbind (cancel_loop p) (\<lambda>p1 _.
       let q1 = fold (\<lambda>g. destroy_guest (g_domain g)) (guests p1) (qemu p1);
           q2 = destroy_all_cowrie q1;
           n1 = (if nat_in_use p1 then free_all (nat_svc p1) else nat_svc p1)
       in (p1\<lparr>qemu := stop_backend q2, nat_svc := n1\<rparr>, Inr ()))"

definition shutdown_pool :: "pool \<Rightarrow> (pool, unit) sres" where
  "shutdown_pool p =
     sbind (stop_pool p) (\<lambda>p1 _. (p1\<lparr>qemu := shutdown_backend (qemu p1)\<rparr>, Inr ()))"

definition restart_pool :: "pool \<Rightarrow> (pool, unit) sres" where
  "restart_pool p = sbind (stop_pool p) (\<lambda>p1 _. (start_pool p1, Inr ()))"

subsection \<open>The producer\<close>

text \<open>\<open>k\<close> counts the readings of the clock.\<close>

fun timed_out_loop :: "rat \<Rightarrow> (nat \<Rightarrow> rat) \<Rightarrow> nat \<Rightarrow> guest list \<Rightarrow> guest list" where
  "timed_out_loop tmo clock k [] = []"
| "timed_out_loop tmo clock k (g # gs) =
     (if in_states [Used] g
      then (if freed_timestamp g + tmo < clock k then g\<lparr>g_state := Some Unavailable\<rparr> else g)
           # timed_out_loop tmo clock (Suc k) gs
      else g # timed_out_loop tmo clock k gs)"

definition mark_timed_out :: "pool_env \<Rightarrow> pool \<Rightarrow> pool" where
  "mark_timed_out e p =
     p\<lparr>guests := timed_out_loop (of_int (vm_unused_timeout p)) (clk e) 0 (guests p)\<rparr>"

definition check_health :: "pool_env \<Rightarrow> pool \<Rightarrow> pool" where
  "check_health e p =
     p\<lparr>guests := map (\<lambda>g. if in_states [Available, Using, Used] g
                            \<and> \<not> has_connectivity (probe_health e) p (guest_ip g)
                          then g\<lparr>g_state := Some Unavailable\<rparr> else g) (guests p)\<rparr>"

definition destroy_timed_out :: "pool \<Rightarrow> pool" where
  "destroy_timed_out p =
     p\<lparr>qemu := fold (\<lambda>g. destroy_guest (g_domain g)) (get_guest_states [Unavailable] p) (qemu p),
       guests := map (\<lambda>g. if in_states [Unavailable] g then g\<lparr>g_state := Some Destroyed\<rparr> else g)
                   (guests p)\<rparr>"

definition remove_destroyed :: "pool \<Rightarrow> pool" where
  "remove_destroyed p = p\<lparr>guests := fold remove1 (get_guest_states [Destroyed] p) (guests p)\<rparr>"

definition mark_available :: "pool_env \<Rightarrow> pool \<Rightarrow> pool" where
  "mark_available e p =
     (let up = (\<lambda>g. in_states [Created] g \<and> has_connectivity (probe_boot e) p (guest_ip g))
      in p\<lparr>any_vm_up := any_vm_up p \<or> list_ex up (guests p),
           guests := map (\<lambda>g. if up g then g\<lparr>g_state := Some Available\<rparr> else g) (guests p)\<rparr>)"

definition new_guest :: "nat \<Rightarrow> rat \<Rightarrow> string \<times> string \<times> string \<Rightarrow> guest" where
  "new_guest i t dsi =
     (case dsi of (d, snap, ip) \<Rightarrow>
       \<lparr>g_id = i, client_ips = [], g_connected = 0, g_state = Some Created, prev_state = None,
        start_timestamp = t, freed_timestamp = -1, g_domain = d, guest_ip = ip, g_name = [],
        g_snapshot = snap\<rparr>)"

definition append_guest :: "rat \<Rightarrow> string \<times> string \<times> string \<Rightarrow> pool \<Rightarrow> pool" where
  "append_guest t dsi p =
     p\<lparr>guests := guests p @ [new_guest (guest_id p) t dsi],
       guest_id := (if guest_id p + 1 = 252 then 0 else guest_id p + 1)\<rparr>"

text \<open>
  The \<open>for _ in range(to_create)\<close> loop. A back end that is not ready returns \<open>None\<close>, which
  cannot be unpacked: a TypeError.
\<close>

fun create_loop :: "pool_env \<Rightarrow> nat \<Rightarrow> nat \<Rightarrow> pool \<Rightarrow> (pool, unit) sres" where
  "create_loop e k 0 p = (p, Inr ())"
| "create_loop e k (Suc n) p =
     (case create_guest (qemu p) (picks e k) (spawn e k) (is_ip_free p) of
        Inl err \<Rightarrow> (p, Inl err)
      | Inr None \<Rightarrow> (p, Inl TypeError)
      | Inr (Some dsi) \<Rightarrow> create_loop e (Suc k) n (append_guest (boot_clk e k) dsi p))"

definition create_guests :: "pool_env \<Rightarrow> pool \<Rightarrow> (pool, unit) sres" where
  "create_guests e p = create_loop e 0 (nat (max_vm p - existing_pool_size p)) p"

text \<open>
  One run of \<open>producer_loop\<close>. The delayed call that started it has been called; a new one is
  scheduled only at the very end.
\<close>

definition fire_loop :: "pool \<Rightarrow> pool" where
  "fire_loop p = (if loop_next_call p = Pending then p\<lparr>loop_next_call := Called\<rparr> else p)"

definition producer_retire :: "pool_env \<Rightarrow> pool \<Rightarrow> pool" where
  "producer_retire e p =
     (if existing_pool_size p > 1 then destroy_timed_out (mark_timed_out e p) else p)"

definition producer_loop :: "pool_env \<Rightarrow> pool \<Rightarrow> (pool, unit) sres" where
  "producer_loop e p =
     sbind (create_guests e (remove_destroyed (check_health e (producer_retire e (fire_loop p)))))
       (\<lambda>p1 _. ((mark_available e p1)\<lparr>loop_next_call := Pending\<rparr>, Inr ()))"

subsection \<open>The consumers\<close>

fun first_idx :: "('a \<Rightarrow> bool) \<Rightarrow> 'a list \<Rightarrow> nat option" where
  "first_idx P [] = None"
| "first_idx P (x # xs) = (if P x then Some 0 else map_option Suc (first_idx P xs))"

text \<open>\<open>min(..., key=f)\<close> over the elements that satisfy \<open>P\<close>: the first one with the least key.\<close>

fun min_idx :: "('a \<Rightarrow> int) \<Rightarrow> ('a \<Rightarrow> bool) \<Rightarrow> nat \<Rightarrow> (nat \<times> int) option \<Rightarrow> 'a list \<Rightarrow> nat option" where
  "min_idx f P i best [] = map_option fst best"
| "min_idx f P i best (x # xs) =
     min_idx f P (Suc i)
       (if P x \<and> (case best of None \<Rightarrow> True | Some (_, m) \<Rightarrow> f x < m) then Some (i, f x) else best) xs"

definition get_guest_ip :: "string \<Rightarrow> pool \<Rightarrow> nat option" where
  "get_guest_ip src p =
     first_idx (\<lambda>g. in_states [Used, Using] g \<and> src \<in> set (client_ips g)) (guests p)"

definition get_available_guest :: "pool \<Rightarrow> nat option" where
  "get_available_guest p = first_idx (in_states [Available]) (guests p)"

definition get_any_guest :: "pool \<Rightarrow> nat option" where
  "get_any_guest p = min_idx g_connected (in_states [Using, Used]) 0 None (guests p)"

definition choose_guest :: "string \<Rightarrow> pool \<Rightarrow> nat option" where
  "choose_guest src p =
     (case get_guest_ip src p of
        Some i \<Rightarrow> Some i
      | None \<Rightarrow> (case get_available_guest p of
            Some i \<Rightarrow> Some i
          | None \<Rightarrow> if share_guests p then get_any_guest p else None))"

definition take_guest :: "string \<Rightarrow> guest \<Rightarrow> guest" where
  "take_guest src g =
     g\<lparr>prev_state := g_state g, g_state := Some Using, g_connected := g_connected g + 1,
       client_ips := client_ips g @ [src]\<rparr>"

definition request_vm :: "string \<Rightarrow> pool \<Rightarrow> (pool, nat \<times> string \<times> string) sres" where
  "request_vm src p =
     (case choose_guest src p of
        None \<Rightarrow>
          if any_vm_up p then sbind (stop_pool p) (\<lambda>p1 _. (p1, Inl NoAvailableVMs))
          else (p, Inl NoAvailableVMs)
      | Some i \<Rightarrow>
          let g = take_guest src (guests p ! i)
          in (p\<lparr>guests := (guests p)[i := g]\<rparr>, Inr (g_id g, guest_ip g, g_snapshot g)))"

definition free_guest :: "rat \<Rightarrow> guest \<Rightarrow> guest" where
  "free_guest t g =
     (let g1 = g\<lparr>freed_timestamp := t, g_connected := g_connected g - 1\<rparr>
      in if g_connected g1 = 0 then g1\<lparr>g_state := Some Used\<rparr> else g1)"

definition reuse_guest :: "guest \<Rightarrow> guest" where
  "reuse_guest g =
     (let g1 = g\<lparr>g_connected := g_connected g - 1\<rparr>
      in if g_connected g1 = 0 then g1\<lparr>g_state := prev_state g1, prev_state := None\<rparr> else g1)"

definition update_guest :: "nat \<Rightarrow> (guest \<Rightarrow> guest) \<Rightarrow> pool \<Rightarrow> pool" where
  "update_guest i f p =
     (case first_idx (\<lambda>g. g_id g = i) (guests p) of
        None \<Rightarrow> p
      | Some j \<Rightarrow> p\<lparr>guests := (guests p)[j := f (guests p ! j)]\<rparr>)"

definition free_vm :: "rat \<Rightarrow> nat \<Rightarrow> pool \<Rightarrow> pool" where
  "free_vm t i p = update_guest i (free_guest t) p"

definition reuse_vm :: "nat \<Rightarrow> pool \<Rightarrow> pool" where
  "reuse_vm i p = update_guest i reuse_guest p"

subsection \<open>Finding guests\<close>

lemma first_idx_Some:
  "first_idx P xs = Some i \<longleftrightarrow> i < length xs \<and> P (xs ! i) \<and> (\<forall>j < i. \<not> P (xs ! j))"
proof (induction xs arbitrary: i)
  case Nil
  then show ?case by simp
next
  case (Cons x xs)
  show ?case
    by (cases i) (auto simp: Cons.IH less_Suc_eq_0_disj)
qed

lemma first_idx_None: "first_idx P xs = None \<longleftrightarrow> (\<forall>x \<in> set xs. \<not> P x)"
  by (induction xs) auto

lemma min_idx_Some:
  "min_idx f P i best xs = Some k \<Longrightarrow>
   (\<exists>m. best = Some (k, m) \<and> (\<forall>x \<in> set xs. P x \<longrightarrow> m \<le> f x))
   \<or> (i \<le> k \<and> k - i < length xs \<and> P (xs ! (k - i))
      \<and> (\<forall>x \<in> set xs. P x \<longrightarrow> f (xs ! (k - i)) \<le> f x)
      \<and> (case best of None \<Rightarrow> True | Some (_, m) \<Rightarrow> f (xs ! (k - i)) < m))"
proof (induction f P i best xs rule: min_idx.induct)
  case (1 f P i best)
  then show ?case by auto
next
  case (2 f P i best x xs)
  let ?t = "P x \<and> (case best of None \<Rightarrow> True | Some (_, m) \<Rightarrow> f x < m)"
  show ?case
  proof (cases ?t)
    case True
    with 2 have "(k = i \<and> (\<forall>y \<in> set xs. P y \<longrightarrow> f x \<le> f y))
      \<or> (Suc i \<le> k \<and> k - Suc i < length xs \<and> P (xs ! (k - Suc i))
         \<and> (\<forall>y \<in> set xs. P y \<longrightarrow> f (xs ! (k - Suc i)) \<le> f y) \<and> f (xs ! (k - Suc i)) < f x)"
      by auto
    then show ?thesis
    proof
      assume "k = i \<and> (\<forall>y \<in> set xs. P y \<longrightarrow> f x \<le> f y)"
      with True show ?thesis by (auto split: option.splits)
    next
      assume r: "Suc i \<le> k \<and> k - Suc i < length xs \<and> P (xs ! (k - Suc i))
         \<and> (\<forall>y \<in> set xs. P y \<longrightarrow> f (xs ! (k - Suc i)) \<le> f y) \<and> f (xs ! (k - Suc i)) < f x"
      then have "k - i = Suc (k - Suc i)" by arith
      with r True show ?thesis by (auto split: option.splits)
    qed
  next
    case False
    with 2 consider (old) m where "best = Some (k, m)" "\<forall>y \<in> set xs. P y \<longrightarrow> m \<le> f y"
      | (new) "Suc i \<le> k" "k - Suc i < length xs" "P (xs ! (k - Suc i))"
          "\<forall>y \<in> set xs. P y \<longrightarrow> f (xs ! (k - Suc i)) \<le> f y"
          "case best of None \<Rightarrow> True | Some (_, m) \<Rightarrow> f (xs ! (k - Suc i)) < m"
      by auto
    then show ?thesis
    proof cases
      case old
      with False show ?thesis by auto
    next
      case new
      then have "k - i = Suc (k - Suc i)" by arith
      with new False show ?thesis by (auto split: option.splits)
    qed
  qed
qed

lemma min_idx_None:
  "min_idx f P i best xs = None \<longleftrightarrow> best = None \<and> (\<forall>x \<in> set xs. \<not> P x)"
  by (induction f P i best xs rule: min_idx.induct) (auto split: option.splits)

lemma get_any_guest_Some:
  assumes "get_any_guest p = Some i"
  shows "i < length (guests p) \<and> in_states [Using, Used] (guests p ! i)
    \<and> (\<forall>g \<in> set (guests p). in_states [Using, Used] g \<longrightarrow> g_connected (guests p ! i) \<le> g_connected g)"
  using min_idx_Some [OF assms [unfolded get_any_guest_def]] by auto

lemma choose_guest_Some:
  assumes "choose_guest src p = Some i"
  shows "i < length (guests p) \<and> in_states [Available, Using, Used] (guests p ! i)"
  using assms
  by (auto simp: choose_guest_def get_guest_ip_def get_available_guest_def first_idx_Some in_states_def
      dest!: get_any_guest_Some split: option.splits if_splits)

lemma choose_guest_None:
  "choose_guest src p = None \<longleftrightarrow>
     (\<forall>g \<in> set (guests p). \<not> in_states [Available] g)
     \<and> (\<forall>g \<in> set (guests p). in_states [Using, Used] g \<longrightarrow> \<not> share_guests p \<and> src \<notin> set (client_ips g))"
  by (auto simp: choose_guest_def get_guest_ip_def get_available_guest_def get_any_guest_def
      first_idx_None min_idx_None first_idx_Some in_states_def split: option.splits if_splits)

end
