(* ===== verification/Pool_Props.thy ===== *)
theory Pool_Props
  imports Pool_Service "HOL-Library.Multiset"
begin

section \<open>Correctness of the VM pool\<close>

text \<open>
  The invariant of the pool, its preservation by every operation, and the properties of the
  producer and of the consumer operations.
\<close>

subsection \<open>The invariant\<close>

text \<open>
  What every guest satisfies: an id that fits the counter, a proper state, no more connections
  than recorded clients; a guest nobody has requested, or that was given back, has no remembered
  state and no connection, and a guest that has not been handed out has neither.
\<close>

definition guest_ok :: "guest \<Rightarrow> bool" where
  "guest_ok g \<longleftrightarrow>
     g_id g < 252 \<and> g_state g \<noteq> None
     \<and> (prev_state g = None \<longrightarrow> g_connected g \<le> 0)
     \<and> prev_state g \<in> {None, Some Available, Some Using, Some Used}
     \<and> g_connected g \<le> int (length (client_ips g))
     \<and> (g_state g \<in> {Some Created, Some Available} \<longrightarrow> g_connected g \<le> 0 \<and> prev_state g = None)"

definition pool_inv :: "pool \<Rightarrow> bool" where
  "pool_inv p \<longleftrightarrow>
     list_all guest_ok (guests p) \<and> distinct (map guest_ip (guests p))
     \<and> set (map guest_ip (guests p)) \<subseteq> snd ` set (network_table (qemu p))
     \<and> guest_id p < 252 \<and> nat_inv (nat_svc p)"

text \<open>An operation that keeps the addresses, in place, only has to keep every guest in order.\<close>

lemma pool_inv_same:
  assumes "pool_inv p" "map guest_ip (guests p') = map guest_ip (guests p)"
    "list_all guest_ok (guests p')" "network_table (qemu p') = network_table (qemu p)"
    "guest_id p' = guest_id p" "nat_svc p' = nat_svc p"
  shows "pool_inv p'"
  using assms unfolding pool_inv_def by (simp only:)

lemma pool_inv_map:
  assumes "pool_inv p" "\<And>g. guest_ip (f g) = guest_ip g" "\<And>g. guest_ok g \<Longrightarrow> guest_ok (f g)"
    "network_table (qemu p') = network_table (qemu p)" "guests p' = map f (guests p)"
    "guest_id p' = guest_id p" "nat_svc p' = nat_svc p"
  shows "pool_inv p'"
proof (rule pool_inv_same [OF assms(1)])
  show "map guest_ip (guests p') = map guest_ip (guests p)"
    by (simp add: assms(2,5))
  show "list_all guest_ok (guests p')"
    using assms(1,3,5) by (simp add: pool_inv_def list_all_iff)
qed (use assms in simp_all)

lemma pool_inv_upd:
  assumes "pool_inv p" "i < length (guests p)"
    "guest_ip g = guest_ip (guests p ! i)" "guest_ok g"
  shows "pool_inv (p\<lparr>guests := (guests p)[i := g]\<rparr>)"
proof (rule pool_inv_same [OF assms(1)])
  show "map guest_ip (guests (p\<lparr>guests := (guests p)[i := g]\<rparr>)) = map guest_ip (guests p)"
    using assms(2,3) by (simp add: map_update) (metis list_update_id nth_map)
  show "list_all guest_ok (guests (p\<lparr>guests := (guests p)[i := g]\<rparr>))"
    using assms by (simp add: pool_inv_def list_all_length nth_list_update)
qed simp_all

lemma in_states_simps:
  "in_states sts g \<longleftrightarrow> (\<exists>s \<in> set sts. g_state g = Some s)"
  by (auto simp: in_states_def)

lemma take_guest_ok:
  "guest_ok g \<Longrightarrow> in_states [Available, Using, Used] g \<Longrightarrow> guest_ok (take_guest src g)"
  by (auto simp: guest_ok_def take_guest_def in_states_simps)

lemma free_guest_ok: "guest_ok g \<Longrightarrow> guest_ok (free_guest t g)"
  by (auto simp: guest_ok_def free_guest_def Let_def)

lemma reuse_guest_ok: "guest_ok g \<Longrightarrow> guest_ok (reuse_guest g)"
  by (auto simp: guest_ok_def reuse_guest_def Let_def)

lemma retired_ok: "guest_ok g \<Longrightarrow> s \<in> {Unavailable, Destroyed} \<Longrightarrow> guest_ok (g\<lparr>g_state := Some s\<rparr>)"
  by (auto simp: guest_ok_def)

lemma booted_ok: "guest_ok g \<Longrightarrow> in_states [Created] g \<Longrightarrow> guest_ok (g\<lparr>g_state := Some Available\<rparr>)"
  by (auto simp: guest_ok_def in_states_simps)

subsection \<open>The producer keeps the invariant\<close>

lemma timed_out_loop_ips [simp]: "map guest_ip (timed_out_loop t c k gs) = map guest_ip gs"
  by (induction t c k gs rule: timed_out_loop.induct) simp_all

lemma timed_out_loop_ok: "list_all guest_ok gs \<Longrightarrow> list_all guest_ok (timed_out_loop t c k gs)"
  by (induction t c k gs rule: timed_out_loop.induct) (simp_all add: retired_ok)

lemma mark_timed_out_inv: "pool_inv p \<Longrightarrow> pool_inv (mark_timed_out e p)"
  by (rule pool_inv_same, assumption)
    (simp_all add: mark_timed_out_def pool_inv_def timed_out_loop_ok)

lemma check_health_inv: "pool_inv p \<Longrightarrow> pool_inv (check_health e p)"
  by (erule pool_inv_map [where f = "\<lambda>g. if in_states [Available, Using, Used] g
      \<and> \<not> has_connectivity (probe_health e) p (guest_ip g) then g\<lparr>g_state := Some Unavailable\<rparr> else g"])
    (auto simp: check_health_def retired_ok)

lemma fold_destroy_table [simp]:
  "network_table (fold (\<lambda>g. destroy_guest (g_domain g)) gs b) = network_table b"
  "ready (fold (\<lambda>g. destroy_guest (g_domain g)) gs b) = ready b"
  by (induction gs arbitrary: b) simp_all

lemma destroy_timed_out_inv: "pool_inv p \<Longrightarrow> pool_inv (destroy_timed_out p)"
  by (erule pool_inv_map [where f = "\<lambda>g. if in_states [Unavailable] g
      then g\<lparr>g_state := Some Destroyed\<rparr> else g"])
    (auto simp: destroy_timed_out_def retired_ok)

lemma remove_destroyed_guests:
  "guests (remove_destroyed p) = filter (\<lambda>g. \<not> in_states [Destroyed] g) (guests p)"
  by (simp add: remove_destroyed_def get_guest_states_def fold_remove1_filter)

lemma remove_destroyed_inv: "pool_inv p \<Longrightarrow> pool_inv (remove_destroyed p)"
proof -
  assume inv: "pool_inv p"
  have "remove_destroyed p = p\<lparr>guests := filter (\<lambda>g. \<not> in_states [Destroyed] g) (guests p)\<rparr>"
    using remove_destroyed_guests [of p] by (simp add: remove_destroyed_def)
  with inv show ?thesis
    by (auto simp: pool_inv_def distinct_map_filter list_all_iff)
qed

lemma mark_available_inv: "pool_inv p \<Longrightarrow> pool_inv (mark_available e p)"
  by (erule pool_inv_map [where f = "\<lambda>g. if in_states [Created] g
      \<and> has_connectivity (probe_boot e) p (guest_ip g) then g\<lparr>g_state := Some Available\<rparr> else g"])
    (auto simp: mark_available_def booted_ok)

lemma fire_loop_inv [simp]: "pool_inv (fire_loop p) = pool_inv p"
  by (simp add: fire_loop_def pool_inv_def)

lemma producer_retire_inv: "pool_inv p \<Longrightarrow> pool_inv (producer_retire e p)"
  by (simp add: producer_retire_def mark_timed_out_inv destroy_timed_out_inv)

text \<open>
  The contract between the pool and its back end: a guest is created only on an address the
  pool's test accepted and that belongs to the network.
\<close>

locale guest_provider =
  fixes create :: "'b \<Rightarrow> (nat \<Rightarrow> nat) \<Rightarrow> (string \<Rightarrow> (string option \<times> string) res)
      \<Rightarrow> (string \<Rightarrow> bool) \<Rightarrow> (string \<times> string \<times> string) option res"
    and addresses :: "'b \<Rightarrow> string set"
  assumes create_tested: "create b rnd sp tst = Inr (Some (d, s, ip)) \<Longrightarrow> tst ip"
    and create_address: "create b rnd sp tst = Inr (Some (d, s, ip)) \<Longrightarrow> ip \<in> addresses b"
begin

lemma create_fresh:
  assumes "create b rnd sp (\<lambda>ip. list_all (\<lambda>g. guest_ip g \<noteq> ip) gs) = Inr (Some (d, s, ip))"
    and "distinct (map guest_ip gs)" "set (map guest_ip gs) \<subseteq> addresses b"
  shows "distinct (map guest_ip gs @ [ip]) \<and> set (map guest_ip gs @ [ip]) \<subseteq> addresses b"
  using create_tested [OF assms(1)] create_address [OF assms(1)] assms(2,3)
  by (auto simp: list_all_iff)

end

interpretation libvirt: guest_provider create_guest "\<lambda>b. snd ` set (network_table b)"
  by unfold_locales (blast dest: create_guest_Some)+

lemma append_guest_simps [simp]:
  "guests (append_guest t dsi p) = guests p @ [new_guest (guest_id p) t dsi]"
  "qemu (append_guest t dsi p) = qemu p" "nat_svc (append_guest t dsi p) = nat_svc p"
  "max_vm (append_guest t dsi p) = max_vm p"
  by (simp_all add: append_guest_def)

lemma append_guest_inv:
  assumes "pool_inv p" "create_guest (qemu p) rnd sp (is_ip_free p) = Inr (Some (d, s, ip))"
  shows "pool_inv (append_guest t (d, s, ip) p)"
proof -
  have "distinct (map guest_ip (guests p) @ [ip])
      \<and> set (map guest_ip (guests p) @ [ip]) \<subseteq> snd ` set (network_table (qemu p))"
  proof (rule libvirt.create_fresh)
    show "create_guest (qemu p) rnd sp (\<lambda>ip. list_all (\<lambda>g. guest_ip g \<noteq> ip) (guests p))
        = Inr (Some (d, s, ip))"
      using assms(2) by (simp add: is_ip_free_def [abs_def])
  qed (use assms(1) in \<open>simp_all add: pool_inv_def\<close>)
  with assms(1) show ?thesis
    by (auto simp: pool_inv_def new_guest_def guest_ok_def append_guest_def)
qed

lemma create_loop_inv: "pool_inv p \<Longrightarrow> pool_inv (fst (create_loop e k n p))"
proof (induction e k n p rule: create_loop.induct)
  case (1 e k p)
  then show ?case by simp
next
  case (2 e k n p)
  then show ?case
    by (fastforce split: sum.splits option.splits dest: append_guest_inv)
qed

lemma producer_loop_inv: "pool_inv p \<Longrightarrow> pool_inv (fst (producer_loop e p))"
proof -
  assume "pool_inv p"
  then have "pool_inv (remove_destroyed (check_health e (producer_retire e (fire_loop p))))"
    by (simp add: producer_retire_inv check_health_inv remove_destroyed_inv)
  then have inv: "pool_inv (fst (create_guests e (remove_destroyed
      (check_health e (producer_retire e (fire_loop p))))))" (is "pool_inv (fst ?m)")
    by (simp add: create_guests_def create_loop_inv)
  obtain q r where m: "?m = (q, r)" by (cases ?m)
  have "pool_inv (mark_available e q\<lparr>loop_next_call := Pending\<rparr>) = pool_inv (mark_available e q)"
    by (simp add: pool_inv_def)
  with inv m show ?thesis
    by (cases r) (simp_all add: producer_loop_def mark_available_inv)
qed

subsection \<open>The consumers keep the invariant\<close>

lemma cancel_loop_simps [simp]:
  "qemu (fst (cancel_loop p)) = qemu p" "guests (fst (cancel_loop p)) = guests p"
  "nat_svc (fst (cancel_loop p)) = nat_svc p" "guest_id (fst (cancel_loop p)) = guest_id p"
  by (simp_all add: cancel_loop_def split: delayed_call.splits)

lemma stop_pool_inv: "pool_inv p \<Longrightarrow> pool_inv (fst (stop_pool p))"
  by (auto simp: stop_pool_def cancel_loop_def pool_inv_def Let_def free_all_inv
      split: delayed_call.splits)

lemma request_vm_inv: "pool_inv p \<Longrightarrow> pool_inv (fst (request_vm src p))"
proof (cases "choose_guest src p")
  case None
  assume inv: "pool_inv p"
  obtain q r where m: "stop_pool p = (q, r)" by (cases "stop_pool p")
  with stop_pool_inv [OF inv] None inv show ?thesis
    by (cases r) (simp_all add: request_vm_def)
next
  case (Some i)
  assume inv: "pool_inv p"
  from choose_guest_Some [OF Some] have i: "i < length (guests p)"
    and st: "in_states [Available, Using, Used] (guests p ! i)" by auto
  from inv i have "guest_ok (guests p ! i)" by (simp add: pool_inv_def list_all_length)
  then have "guest_ok (take_guest src (guests p ! i))" using st by (rule take_guest_ok)
  then have "pool_inv (p\<lparr>guests := (guests p)[i := take_guest src (guests p ! i)]\<rparr>)"
    by (intro pool_inv_upd inv i) (simp_all add: take_guest_def)
  with Some show ?thesis by (simp add: request_vm_def Let_def)
qed

lemma update_guest_inv:
  assumes "pool_inv p" "\<And>g. guest_ip (f g) = guest_ip g" "\<And>g. guest_ok g \<Longrightarrow> guest_ok (f g)"
  shows "pool_inv (update_guest i f p)"
proof (cases "first_idx (\<lambda>g. g_id g = i) (guests p)")
  case None
  with assms(1) show ?thesis by (simp add: update_guest_def)
next
  case (Some j)
  then have j: "j < length (guests p)" by (simp add: first_idx_Some)
  with assms have "guest_ok (f (guests p ! j))" by (simp add: pool_inv_def list_all_length)
  then show ?thesis
    using Some j assms by (simp add: update_guest_def pool_inv_upd)
qed

lemma free_vm_inv: "pool_inv p \<Longrightarrow> pool_inv (free_vm t i p)"
  unfolding free_vm_def
  by (erule update_guest_inv) (simp_all add: free_guest_ok, simp add: free_guest_def Let_def)

lemma reuse_vm_inv: "pool_inv p \<Longrightarrow> pool_inv (reuse_vm i p)"
  unfolding reuse_vm_def
  by (erule update_guest_inv) (simp_all add: reuse_guest_ok, simp add: reuse_guest_def Let_def)

lemma start_pool_inv: "pool_inv p \<Longrightarrow> pool_inv (start_pool p)"
  by (simp add: start_pool_def pool_inv_def)

lemma restart_pool_inv: "pool_inv p \<Longrightarrow> pool_inv (fst (restart_pool p))"
proof -
  assume inv: "pool_inv p"
  obtain q r where m: "stop_pool p = (q, r)" by (cases "stop_pool p")
  with stop_pool_inv [OF inv] show ?thesis
    by (cases r) (simp_all add: restart_pool_def start_pool_inv)
qed

subsection \<open>Runs of the pool\<close>

datatype pool_event =
    Set_configs int int bool
  | Producer pool_env
  | Request_vm string
  | Free_vm rat nat
  | Reuse_vm nat
  | Restart_pool
  | Stop_pool

fun pool_step :: "pool \<Rightarrow> pool_event \<Rightarrow> pool" where
  "pool_step p (Set_configs m t sh) = set_configs m t sh p"
| "pool_step p (Producer e) = fst (producer_loop e p)"
| "pool_step p (Request_vm src) = fst (request_vm src p)"
| "pool_step p (Free_vm t i) = free_vm t i p"
| "pool_step p (Reuse_vm i) = reuse_vm i p"
| "pool_step p Restart_pool = fst (restart_pool p)"
| "pool_step p Stop_pool = fst (stop_pool p)"

lemma set_configs_inv: "pool_inv p \<Longrightarrow> pool_inv (set_configs m t sh p)"
  by (simp add: set_configs_def pool_inv_def)

interpretation vm_pool: machine pool_step pool_inv
proof unfold_locales
  fix p e
  assume "pool_inv p"
  then show "pool_inv (pool_step p e)"
    by (cases e) (simp_all add: set_configs_inv producer_loop_inv request_vm_inv free_vm_inv
        reuse_vm_inv restart_pool_inv stop_pool_inv)
qed

text \<open>
  The pool as \<open>__init__\<close> builds it; \<open>None\<close> where the code exits because neither port is set.
\<close>

definition pool_init :: "(string \<times> string) list \<Rightarrow> int \<Rightarrow> int \<Rightarrow> bool \<Rightarrow> bool \<Rightarrow> bool \<Rightarrow> pool option" where
  "pool_init tab ssh telnet loc po un =
     (if ssh = -1 \<and> telnet = -1 then None
      else Some \<lparr>qemu = \<lparr>ready = False, network_table = tab, qemu_log = []\<rparr>, nat_svc = nat_init,
        guests = [], guest_id = 0, loop_next_call = NoCall, max_vm = 2, vm_unused_timeout = 600,
        share_guests = True, ssh_port = ssh, telnet_port = telnet, local_pool = loc,
        pool_only = po, use_nat = un, any_vm_up = False\<rparr>)"

lemma pool_init_inv: "pool_init tab ssh telnet loc po un = Some p \<Longrightarrow> pool_inv p"
  by (auto simp: pool_init_def pool_inv_def nat_init_inv split: if_splits)

subsection \<open>Properties of the pool\<close>

text \<open>C1: Whatever sequence of producer runs, requests, releases and restarts the pool goes
  through, no two guests share an address, every address comes from the network table, no guest
  is ever left without a state, and no guest counts more connections than clients.\<close>

theorem pool_runs_keep_invariant:
  assumes "pool_init tab ssh telnet loc po un = Some p"
  shows "distinct (map guest_ip (guests (foldl pool_step p es)))
    \<and> (\<forall>g \<in> set (guests (foldl pool_step p es)).
      guest_ip g \<in> snd ` set (network_table (qemu (foldl pool_step p es))) \<and> g_state g \<noteq> None
      \<and> g_connected g \<le> int (length (client_ips g)))"
  using vm_pool.run_inv [OF pool_init_inv [OF assms], of es]
  by (auto simp: pool_inv_def list_all_iff guest_ok_def)

lemma request_vm_Inr:
  "request_vm src p = (p', Inr (i, ip, snap)) \<longleftrightarrow>
     (\<exists>k. choose_guest src p = Some k \<and> p' = p\<lparr>guests := (guests p)[k := take_guest src (guests p ! k)]\<rparr>
       \<and> i = g_id (guests p ! k) \<and> ip = guest_ip (guests p ! k) \<and> snap = g_snapshot (guests p ! k))"
  by (auto simp: request_vm_def Let_def take_guest_def sbind_def split: option.splits prod.splits sum.splits)

text \<open>C12: A successful request hands out one live guest and changes nothing else: a guest that
  already serves the address if there is one, else an unused guest, else, when guests are
  shared, a busy guest with the fewest connections.\<close>

theorem request_vm_serves:
  assumes "request_vm src p = (p', Inr (i, ip, snap))"
  shows "\<exists>k < length (guests p). \<exists>g. g = guests p ! k
    \<and> p' = p\<lparr>guests := (guests p)[k := take_guest src g]\<rparr>
    \<and> (i, ip, snap) = (g_id g, guest_ip g, g_snapshot g)
    \<and> (if \<exists>h \<in> set (guests p). in_states [Used, Using] h \<and> src \<in> set (client_ips h)
       then in_states [Used, Using] g \<and> src \<in> set (client_ips g)
       else if \<exists>h \<in> set (guests p). in_states [Available] h then in_states [Available] g
       else share_guests p \<and> in_states [Using, Used] g
         \<and> (\<forall>h \<in> set (guests p). in_states [Using, Used] h \<longrightarrow> g_connected g \<le> g_connected h))"
proof -
  from assms obtain k where k: "choose_guest src p = Some k"
    and eq: "p' = p\<lparr>guests := (guests p)[k := take_guest src (guests p ! k)]\<rparr>"
      "i = g_id (guests p ! k)" "ip = guest_ip (guests p ! k)" "snap = g_snapshot (guests p ! k)"
    by (auto simp: request_vm_Inr)
  let ?g = "guests p ! k"
  let ?mine = "\<lambda>h. in_states [Used, Using] h \<and> src \<in> set (client_ips h)"
  have len: "k < length (guests p)" using choose_guest_Some [OF k] by simp
  have "if \<exists>h \<in> set (guests p). ?mine h then ?mine ?g
       else if \<exists>h \<in> set (guests p). in_states [Available] h then in_states [Available] ?g
       else share_guests p \<and> in_states [Using, Used] ?g
         \<and> (\<forall>h \<in> set (guests p). in_states [Using, Used] h \<longrightarrow> g_connected ?g \<le> g_connected h)"
  proof (cases "get_guest_ip src p")
    case (Some j)
    with k have "j = k" by (simp add: choose_guest_def)
    with Some have "k < length (guests p) \<and> ?mine ?g" by (simp add: get_guest_ip_def first_idx_Some)
    then show ?thesis by (auto intro: nth_mem)
  next
    case no_mine: None
    then have nm: "\<not> (\<exists>h \<in> set (guests p). ?mine h)" by (simp add: get_guest_ip_def first_idx_None)
    show ?thesis
    proof (cases "get_available_guest p")
      case (Some j)
      with k no_mine have "j = k" by (simp add: choose_guest_def)
      with Some have "k < length (guests p) \<and> in_states [Available] ?g"
        by (simp add: get_available_guest_def first_idx_Some)
      with nm show ?thesis by (auto intro: nth_mem)
    next
      case None
      then have na: "\<not> (\<exists>h \<in> set (guests p). in_states [Available] h)"
        by (simp add: get_available_guest_def first_idx_None)
      from None no_mine k have "share_guests p" and "get_any_guest p = Some k"
        by (auto simp: choose_guest_def split: if_splits)
      with get_any_guest_Some nm na show ?thesis by (simp only: if_False) blast
    qed
  qed
  with len eq show ?thesis by blast
qed

text \<open>\<open>has_connectivity\<close> answers yes exactly when the SSH port is open, or the Telnet port is
  open, or no Telnet port is configured: a pool that serves SSH only takes every guest to be
  healthy, without regard to its SSH port.\<close>

theorem has_connectivity_iff:
  "has_connectivity nmap p ip \<longleftrightarrow>
     telnet_port p \<le> 0 \<or> nmap ip (telnet_port p) \<or> (ssh_port p > 0 \<and> nmap ip (ssh_port p))"
  by (auto simp: has_connectivity_def Let_def)

lemma timed_out_loop_keeps:
  "g \<in> set gs \<Longrightarrow> \<not> in_states [Used] g \<Longrightarrow> g \<in> set (timed_out_loop t c k gs)"
  by (induction t c k gs rule: timed_out_loop.induct) auto

text \<open>A timeout never takes a guest away from its clients: the retiring phase of the
  producer leaves every guest as it is that is booting, available or in use.\<close>

theorem producer_retire_keeps_live:
  assumes "g \<in> set (guests p)" "in_states [Created, Available, Using] g"
  shows "g \<in> set (guests (producer_retire e p))"
proof -
  have "g \<in> set (guests (mark_timed_out e p))"
    using assms by (auto simp: mark_timed_out_def in_states_simps intro!: timed_out_loop_keeps)
  then show ?thesis
    using assms by (auto simp: producer_retire_def destroy_timed_out_def in_states_simps image_iff
        intro!: bexI [of _ g])
qed

lemma timed_out_loop_all:
  "list_all (in_states [Used]) gs \<Longrightarrow> list_all (\<lambda>g. \<forall>k. freed_timestamp g + t < c k) gs
   \<Longrightarrow> timed_out_loop t c k gs = map (\<lambda>g. g\<lparr>g_state := Some Unavailable\<rparr>) gs"
  by (induction t c k gs rule: timed_out_loop.induct) simp_all

text \<open>The producer is meant to keep the pool from becoming empty ("do not let pool size be
  0"), but the test is made once for the whole pass: when every one of two or more guests has
  timed out, all of them are destroyed and the pool is empty.\<close>

theorem producer_retire_can_empty_pool:
  assumes "list_all (in_states [Used]) (guests p)" "1 < length (guests p)"
    "list_all (\<lambda>g. \<forall>k. freed_timestamp g + of_int (vm_unused_timeout p) < clk e k) (guests p)"
  shows "existing_pool_size (producer_retire e p) = 0"
proof -
  have "filter (\<lambda>g. g_state g \<noteq> Some Destroyed) (guests p) = guests p"
    using assms(1) by (intro filter_True) (auto simp: list_all_iff in_states_simps)
  then have "existing_pool_size p > 1" using assms(2) by (simp add: existing_pool_size_def)
  moreover have "guests (mark_timed_out e p) = map (\<lambda>g. g\<lparr>g_state := Some Unavailable\<rparr>) (guests p)"
    using assms by (simp add: mark_timed_out_def timed_out_loop_all)
  ultimately show ?thesis
    by (simp add: producer_retire_def destroy_timed_out_def existing_pool_size_def in_states_simps
        filter_empty_conv)
qed

lemma create_loop_Inr:
  "create_loop e k n p = (p', Inr u) \<Longrightarrow>
   \<exists>gs. guests p' = guests p @ gs \<and> length gs = n \<and> list_all (in_states [Created]) gs
     \<and> loop_next_call p' = loop_next_call p \<and> max_vm p' = max_vm p"
proof (induction e k n p rule: create_loop.induct)
  case (1 e k p)
  then show ?case by simp
next
  case (2 e k n p)
  from "2.prems" obtain dsi where cg: "create_guest (qemu p) (picks e k) (spawn e k) (is_ip_free p) = Inr (Some dsi)"
    and rest: "create_loop e (Suc k) n (append_guest (boot_clk e k) dsi p) = (p', Inr u)"
    by (auto split: sum.splits option.splits)
  from "2.IH" [OF cg refl rest] obtain gs where
    "guests p' = guests (append_guest (boot_clk e k) dsi p) @ gs" "length gs = n"
    "list_all (in_states [Created]) gs" "loop_next_call p' = loop_next_call p" "max_vm p' = max_vm p"
    by (auto simp: append_guest_def)
  moreover have "in_states [Created] (new_guest (guest_id p) (boot_clk e k) dsi)"
    by (simp add: new_guest_def in_states_simps split: prod.splits)
  ultimately show ?case
    by (intro exI [of _ "new_guest (guest_id p) (boot_clk e k) dsi # gs"]) simp
qed

lemma live_size:
  "list_all (\<lambda>g. g_state g \<noteq> Some Destroyed) (guests p) \<Longrightarrow> existing_pool_size p = int (length (guests p))"
  by (simp add: existing_pool_size_def list_all_iff)

text \<open>C36: A producer run that does not raise leaves no destroyed guest in the list, holds at
  least \<open>max_vm\<close> guests and exactly that many unless there were more before, and has scheduled
  the next run.\<close>

theorem producer_loop_fills_pool:
  assumes "producer_loop e p = (p', Inr u)"
  shows "loop_next_call p' = Pending \<and> list_all (\<lambda>g. g_state g \<noteq> Some Destroyed) (guests p')
    \<and> existing_pool_size p'
        = max (max_vm p') (existing_pool_size (check_health e (producer_retire e (fire_loop p))))"
proof -
  define q where "q = check_health e (producer_retire e (fire_loop p))"
  define r where "r = remove_destroyed q"
  from assms obtain s where c: "create_guests e r = (s, Inr ())"
    and p': "p' = (mark_available e s)\<lparr>loop_next_call := Pending\<rparr>"
    by (auto simp: producer_loop_def q_def r_def sbind_def split: prod.splits sum.splits)
  have live_r: "list_all (\<lambda>g. g_state g \<noteq> Some Destroyed) (guests r)"
    by (auto simp: r_def remove_destroyed_guests list_all_iff in_states_simps)
  have size_r: "existing_pool_size r = existing_pool_size q" and max_r: "max_vm r = max_vm q"
    by (simp_all add: r_def existing_pool_size_def remove_destroyed_guests in_states_simps)
      (simp add: remove_destroyed_def)
  from create_loop_Inr [OF c [unfolded create_guests_def]] obtain gs where
    gs: "guests s = guests r @ gs" "length gs = nat (max_vm r - existing_pool_size r)"
      "list_all (in_states [Created]) gs" "max_vm s = max_vm r" by auto
  have live: "list_all (\<lambda>g. g_state g \<noteq> Some Destroyed) (guests p')"
    using gs live_r by (auto simp: p' mark_available_def Let_def list_all_iff in_states_simps)
  have "int (length (guests p')) = int (length (guests r)) + int (length gs)"
    by (simp add: p' mark_available_def Let_def gs)
  also have "\<dots> = max (max_vm r) (existing_pool_size r)"
    using gs(2) live_size [OF live_r] by simp
  finally have "existing_pool_size p' = max (max_vm p') (existing_pool_size q)"
    using live_size [OF live] gs(4) max_r size_r by (simp add: p' mark_available_def Let_def)
  with live p' show ?thesis by (simp add: q_def)
qed

text \<open>Giving an unused guest back untouched undoes the request: the pool is as before but
  for the record of the client's address.\<close>

theorem reuse_undoes_request:
  assumes "pool_inv p" "distinct (map g_id (guests p))" "k < length (guests p)"
    "in_states [Available] (guests p ! k)" "g_connected (guests p ! k) = 0"
    "request_vm src p = (p', Inr (i, ip, snap))" "i = g_id (guests p ! k)"
  shows "reuse_vm i p' =
    p\<lparr>guests := (guests p)[k := (guests p ! k)\<lparr>client_ips := client_ips (guests p ! k) @ [src]\<rparr>]\<rparr>"
proof -
  let ?g = "guests p ! k"
  from assms(6) obtain j where j: "choose_guest src p = Some j"
    and p': "p' = p\<lparr>guests := (guests p)[j := take_guest src (guests p ! j)]\<rparr>"
    and "i = g_id (guests p ! j)"
    by (auto simp: request_vm_Inr)
  then have "g_id (guests p ! j) = g_id ?g" and jl: "j < length (guests p)"
    using assms(7) choose_guest_Some [OF j] by simp_all
  then have jk: "j = k" using assms(2,3) by (metis length_map nth_eq_iff_index_eq nth_map)
  have ids: "g_id (guests p' ! m) = g_id (guests p ! m)" if "m < length (guests p)" for m
    using that jl by (cases "m = j") (simp_all add: p' take_guest_def)
  have "g_id (guests p ! m) \<noteq> i" if "m < k" for m
  proof -
    have "map g_id (guests p) ! m \<noteq> map g_id (guests p) ! k"
      using nth_eq_iff_index_eq [OF assms(2), of m k] assms(3) that by simp
    then show ?thesis using that assms(3,7) by simp
  qed
  then have "first_idx (\<lambda>g. g_id g = i) (guests p') = Some k"
    using assms(3,7) ids jl by (simp add: first_idx_Some p')
  moreover have "prev_state ?g = None" "g_state ?g = Some Available"
    using assms(1,3,4) by (auto simp: pool_inv_def list_all_length guest_ok_def in_states_simps)
  then have "reuse_guest (take_guest src ?g) = ?g\<lparr>client_ips := client_ips ?g @ [src]\<rparr>"
    using assms(5) by (cases ?g) (simp add: reuse_guest_def take_guest_def)
  ultimately show ?thesis
    using assms(3) by (simp add: reuse_vm_def update_guest_def p' jk)
qed

text \<open>Two connections from one client to an unused guest that are both given back leave the
  guest in use with no client: the state remembered by the second request is \<open>using\<close>. No
  timeout retires such a guest.\<close>

theorem reuse_twice_strands_guest:
  fixes src :: string and g :: guest
  assumes "g_connected g = 0"
  defines "g' \<equiv> reuse_guest (reuse_guest (take_guest src (take_guest src g)))"
  shows "g_state g' = Some Using \<and> g_connected g' = 0
    \<and> (\<forall>t c k gs. g' \<in> set gs \<longrightarrow> g' \<in> set (timed_out_loop t c k gs))"
proof -
  have "g_state g' = Some Using \<and> g_connected g' = 0"
    using assms(1) by (simp add: g'_def reuse_guest_def take_guest_def Let_def)
  then show ?thesis by (auto intro: timed_out_loop_keeps simp: in_states_simps)
qed

lemma fold_destroy_log:
  "ready b \<Longrightarrow> qemu_log (fold (\<lambda>g. destroy_guest (g_domain g)) gs b)
   = qemu_log b @ map (\<lambda>g. DestroyDomain (g_domain g)) gs"
  by (induction gs arbitrary: b) simp_all

text \<open>With guests not shared, a request from a new address that arrives when every guest
  is busy is taken for an inconsistent pool: the code announces a restart but stops the pool,
  destroying the domains of all guests, those in use included, and cancels the producer. The
  guests stay in the list, and the next such request fails on the cancelled timer.\<close>

theorem full_unshared_pool_shuts_down:
  assumes "\<not> share_guests p" "any_vm_up p" "loop_next_call p = Pending" "ready (qemu p)"
    "\<forall>g \<in> set (guests p). in_states [Using, Used] g \<and> src \<notin> set (client_ips g)"
  shows "\<exists>p'. request_vm src p = (p', Inl NoAvailableVMs) \<and> guests p' = guests p
    \<and> loop_next_call p' = Cancelled \<and> \<not> ready (qemu p')
    \<and> (\<forall>g \<in> set (guests p). DestroyDomain (g_domain g) \<in> set (qemu_log (qemu p')))
    \<and> snd (request_vm src p') = Inl AlreadyCancelled"
proof -
  have none: "choose_guest src p = None"
    using assms(1,5) by (auto simp: choose_guest_None in_states_simps)
  obtain p' where stop: "stop_pool p = (p', Inr ())" and
    p': "guests p' = guests p" "loop_next_call p' = Cancelled" "\<not> ready (qemu p')"
      "share_guests p' = share_guests p" "any_vm_up p' = any_vm_up p"
      "qemu_log (qemu p') = qemu_log (qemu p) @ map (\<lambda>g. DestroyDomain (g_domain g)) (guests p)
         @ [DestroyAllCowrie, StopBackend, DestroyAllCowrie]"
    using assms(3,4) by (simp add: stop_pool_def cancel_loop_def Let_def fold_destroy_log)
  have req: "request_vm src p = (p', Inl NoAvailableVMs)"
    using none assms(2) stop by (simp add: request_vm_def)
  have "choose_guest src p' = None"
    using none p' by (simp add: choose_guest_None)
  then have "snd (request_vm src p') = Inl AlreadyCancelled"
    using p' assms(2) by (simp add: request_vm_def stop_pool_def cancel_loop_def)
  with req p' show ?thesis by auto
qed

text \<open>The address table the back end draws from: 253 entries, no MAC and no address twice,
  the addresses 192.168.150.2 to 192.168.150.254.\<close>

theorem network_table_covers_subnet:
  assumes "generate_network_table ord draws = Some tab" "\<And>xs. mset (ord xs) = mset xs"
  shows "length tab = 253 \<and> distinct (map fst tab) \<and> distinct (map snd tab)
    \<and> map snd tab = map (\<lambda>k. ''192.168.150.'' @ digits_of_nat k) [2..<255]"
proof -
  from assms(1) obtain macs where c: "collect_macs 253 [] draws = Some macs"
    and tab: "tab = table_of_macs 2 (ord macs)"
    by (auto simp: generate_network_table_def)
  have "distinct macs \<and> length macs = 253"
    using collect_macs_distinct [OF c] by simp
  then have "distinct (ord macs) \<and> length (ord macs) = 253"
    using assms(2) [of macs] by (metis mset_eq_imp_distinct_iff mset_eq_length)
  moreover have "length tab = length (ord macs)"
    using table_of_macs_keys [of 2 "ord macs"] by (metis length_map tab)
  ultimately show ?thesis
    by (simp add: tab table_of_macs_distinct_ips del: upt_rec_numeral)
      (simp add: table_of_macs_ips del: upt_rec_numeral)
qed

subsection \<open>The properties at concrete pools\<close>

definition sample_guest :: "nat \<Rightarrow> vm_state \<Rightarrow> int \<Rightarrow> string list \<Rightarrow> string \<Rightarrow> guest" where
  "sample_guest i st n ips ip =
     \<lparr>g_id = i, client_ips = ips, g_connected = n, g_state = Some st, prev_state = None,
      start_timestamp = 0, freed_timestamp = 0, g_domain = ''dom'', guest_ip = ip, g_name = [],
      g_snapshot = ''snap''\<rparr>"

definition sample_pool :: "guest list \<Rightarrow> pool" where
  "sample_pool gs =
     \<lparr>qemu = \<lparr>ready = True, network_table = [(''m1'', ''ip1''), (''m2'', ''ip2'')], qemu_log = []\<rparr>,
      nat_svc = nat_init, guests = gs, guest_id = 2, loop_next_call = Pending, max_vm = 2,
      vm_unused_timeout = 600, share_guests = False, ssh_port = 22, telnet_port = 0,
      local_pool = True, pool_only = False, use_nat = True, any_vm_up = True\<rparr>"

definition sample_env :: pool_env where
  "sample_env = \<lparr>clk = (\<lambda>_. 1000), probe_health = (\<lambda>_ _. True), probe_boot = (\<lambda>_ _. True),
     picks = (\<lambda>_ _. 1), spawn = (\<lambda>_ _. Inr (Some ''dom'', ''snap'')), boot_clk = (\<lambda>_. 1000)\<rparr>"

lemmas sample_defs = sample_guest_def sample_pool_def sample_env_def

theorem pool_runs_keep_invariant_witness:
  "\<exists>p. pool_init [(''m1'', ''ip1'')] 22 23 True False True = Some p
    \<and> distinct (map guest_ip (guests (foldl pool_step p [Producer sample_env, Request_vm ''a''])))"
proof -
  obtain p where p: "pool_init [(''m1'', ''ip1'')] 22 23 True False True = Some p"
    by (simp add: pool_init_def)
  show ?thesis using p pool_runs_keep_invariant [OF p] by blast
qed

theorem request_vm_serves_witness:
  "snd (request_vm ''a'' (sample_pool [sample_guest 0 Available 0 [] ''ip1''])) = Inr (0, ''ip1'', ''snap'')
   \<and> (\<exists>k < 1. fst (request_vm ''a'' (sample_pool [sample_guest 0 Available 0 [] ''ip1'']))
        = sample_pool ([sample_guest 0 Available 0 [] ''ip1'']
            [k := take_guest ''a'' (sample_guest 0 Available 0 [] ''ip1'')]))"
proof -
  let ?p = "sample_pool [sample_guest 0 Available 0 [] ''ip1'']"
  have h: "request_vm ''a'' ?p = (fst (request_vm ''a'' ?p), Inr (0, ''ip1'', ''snap''))"
    by (simp add: request_vm_def choose_guest_def get_guest_ip_def get_available_guest_def
        in_states_simps sample_defs take_guest_def)
  from request_vm_serves [OF h] h show ?thesis
    by (auto simp: sample_pool_def)
qed

theorem producer_retire_keeps_live_witness:
  "sample_guest 0 Using 1 [''a''] ''ip1''
   \<in> set (guests (producer_retire sample_env (sample_pool
        [sample_guest 0 Using 1 [''a''] ''ip1'', sample_guest 1 Used 0 [''b''] ''ip2''])))"
  by (rule producer_retire_keeps_live) (simp_all add: sample_defs in_states_simps)

theorem producer_retire_can_empty_pool_witness:
  "existing_pool_size (producer_retire sample_env (sample_pool
     [sample_guest 0 Used 0 [''a''] ''ip1'', sample_guest 1 Used 0 [''b''] ''ip2''])) = 0"
  by (rule producer_retire_can_empty_pool) (simp_all add: sample_defs in_states_simps)

theorem producer_loop_fills_pool_witness:
  "loop_next_call (fst (producer_loop sample_env (sample_pool [sample_guest 0 Available 0 [] ''ip1'']))) = Pending"
proof -
  let ?p = "sample_pool [sample_guest 0 Available 0 [] ''ip1'']"
  have "is_ok (snd (producer_loop sample_env ?p))"
    by (simp add: producer_loop_def create_guests_def fire_loop_def producer_retire_def
        existing_pool_size_def check_health_def remove_destroyed_def get_guest_states_def
        has_connectivity_def create_guest_def is_ip_free_def eval_nat_numeral
        in_states_simps sample_defs)
  then obtain q u where h: "producer_loop sample_env ?p = (q, Inr u)"
    by (cases "producer_loop sample_env ?p") (auto simp: is_ok_def split: sum.splits)
  show ?thesis using producer_loop_fills_pool [OF h] h by simp
qed

theorem reuse_undoes_request_witness:
  "reuse_vm 0 (fst (request_vm ''a'' (sample_pool [sample_guest 0 Available 0 [] ''ip1''])))
   = sample_pool [sample_guest 0 Available 0 [''a''] ''ip1'']"
proof -
  let ?p = "sample_pool [sample_guest 0 Available 0 [] ''ip1'']"
  have h: "request_vm ''a'' ?p = (fst (request_vm ''a'' ?p), Inr (0, ''ip1'', ''snap''))"
    by (simp add: request_vm_def choose_guest_def get_guest_ip_def get_available_guest_def
        in_states_simps sample_defs take_guest_def)
  have inv: "pool_inv ?p"
    by (simp add: pool_inv_def guest_ok_def sample_defs nat_init_inv)
  show ?thesis
    using reuse_undoes_request [OF inv _ _ _ _ h, of 0]
    by (simp add: sample_defs in_states_simps)
qed

theorem reuse_twice_strands_guest_witness:
  "g_state (reuse_guest (reuse_guest (take_guest ''a'' (take_guest ''a''
     (sample_guest 0 Available 0 [] ''ip1''))))) = Some Using"
  using reuse_twice_strands_guest [of "sample_guest 0 Available 0 [] ''ip1''" "''a''"]
  by (simp add: sample_defs)

theorem full_unshared_pool_shuts_down_witness:
  "\<exists>p'. request_vm ''b'' (sample_pool [sample_guest 0 Using 1 [''a''] ''ip1'']) = (p', Inl NoAvailableVMs)
     \<and> DestroyDomain ''dom'' \<in> set (qemu_log (qemu p'))"
proof -
  let ?g = "sample_guest 0 Using 1 [''a''] ''ip1''"
  have "\<exists>p'. request_vm ''b'' (sample_pool [?g]) = (p', Inl NoAvailableVMs)
      \<and> guests p' = guests (sample_pool [?g]) \<and> loop_next_call p' = Cancelled \<and> \<not> ready (qemu p')
      \<and> (\<forall>g \<in> set (guests (sample_pool [?g])). DestroyDomain (g_domain g) \<in> set (qemu_log (qemu p')))
      \<and> snd (request_vm ''b'' p') = Inl AlreadyCancelled"
    by (rule full_unshared_pool_shuts_down) (simp_all add: sample_defs in_states_simps)
  then show ?thesis by (auto simp: sample_defs)
qed

text \<open>Draws that give 253 different MACs.\<close>

definition sample_draws :: "(nat \<times> nat) list" where
  "sample_draws = map (\<lambda>k. (0, k)) [0..<253]"

lemma sample_draws_macs: "collect_macs 253 [] sample_draws = Some (map mac_of sample_draws)"
proof -
  have "distinct (map mac_of sample_draws)"
    by (auto simp: sample_draws_def distinct_map inj_on_def mac_of_def to_byte_inject
        simp del: upt_rec_numeral)
  then show ?thesis using collect_macs_all [of "[]" sample_draws 253]
    by (simp add: sample_draws_def del: upt_rec_numeral)
qed

theorem network_table_covers_subnet_witness:
  "\<exists>tab. generate_network_table rev sample_draws = Some tab \<and> length tab = 253
     \<and> distinct (map snd tab)"
proof -
  obtain tab where t: "generate_network_table rev sample_draws = Some tab"
    by (simp add: generate_network_table_def sample_draws_macs)
  show ?thesis using network_table_covers_subnet [OF t mset_rev] t by blast
qed

end
