(* ===== verification/Pool_Wire.thy ===== *)
theory Pool_Wire
  imports Pool_Props
begin

section \<open>The pool's wire protocol: server and client\<close>

text \<open>
  Model of \<open>backend_pool/pool_server.py\<close> (one \<open>dataReceived\<close> of \<open>PoolServer\<close>, acting on the
  shared pool and NAT service) and of \<open>cowrie/pool_interface/client.py\<close> and \<open>handler.py\<close>. A
  message is one opcode byte, for responses a status word, and packed fields. An exception
  leaves the changes made before it in place, as it does in the code.
\<close>

subsection \<open>The server\<close>

record pool_server =
  pool_service :: pool
  initialised :: bool
  nat_public_ip :: string
  cfg_ssh_port :: "int option"
  cfg_telnet_port :: "int option"

text \<open>The response \<open>!cIIH{n}sHHH{m}s\<close> to a request for a guest.\<close>

definition pack_vm_response :: "nat \<Rightarrow> string \<Rightarrow> int \<Rightarrow> int \<Rightarrow> string \<Rightarrow> string res" where
  "pack_vm_response gid ip p1 p2 snapshot =
     rbind (struct_pack 4 (int gid)) (\<lambda>b_id.
     rbind (struct_pack 2 (int (ulen ip))) (\<lambda>b_len.
     rbind (struct_pack 2 p1) (\<lambda>b_p1.
     rbind (struct_pack 2 p2) (\<lambda>b_p2.
     rbind (struct_pack 2 (int (ulen snapshot))) (\<lambda>b_slen.
       Inr (''r'' @ pack_be 4 0 @ b_id @ b_len @ pack_s (ulen ip) ip @ b_p1 @ b_p2 @ b_slen
            @ pack_s (ulen snapshot) snapshot))))))"

definition handle_init :: "string \<Rightarrow> pool_server \<Rightarrow> (pool_server, string) sres" where
  "handle_init body s =
     (if length body \<noteq> 9 then (s, Inl StructError)
      else let m = int (unpack_be (take 4 body));
               t = int (unpack_be (take 4 (drop 4 body)));
               sh = (of_char (body ! 8) \<noteq> (0 :: nat))
           in (s\<lparr>pool_service := set_configs m t sh (pool_service s), initialised := True\<rparr>,
               Inr (''i'' @ pack_be 4 0)))"

definition parse_vm_request :: "string \<Rightarrow> string res" where
  "parse_vm_request body =
     rbind (struct_unpack 2 (take 2 body)) (\<lambda>ip_len.
     rbind (unpack_s ip_len (drop 2 body)) py_decode)"

definition handle_request :: "nat \<times> nat \<Rightarrow> string \<Rightarrow> pool_server \<Rightarrow> (pool_server, string) sres" where
  "handle_request ports body s =
     (case parse_vm_request body of
        Inl e \<Rightarrow> (s, Inl e)
      | Inr attacker_ip \<Rightarrow>
          (case request_vm attacker_ip (pool_service s) of
             (p, Inl e) \<Rightarrow>
               (s\<lparr>pool_service := p\<rparr>,
                if e = NoAvailableVMs then Inr (''r'' @ pack_be 4 1) else Inl e)
           | (p, Inr (gid, ip, snapshot)) \<Rightarrow>
               let ssh = (case cfg_ssh_port s of None \<Rightarrow> 22 | Some n \<Rightarrow> n);
                   telnet = (case cfg_telnet_port s of None \<Rightarrow> 23 | Some n \<Rightarrow> n)
               in (if nat_in_use p
                   then let (n, np1, np2) = request_binding gid ports (nat_svc p)
                        in (s\<lparr>pool_service := p\<lparr>nat_svc := n\<rparr>\<rparr>,
                            pack_vm_response gid (nat_public_ip s) (int np1) (int np2) snapshot)
                   else (s\<lparr>pool_service := p\<rparr>, pack_vm_response gid ip ssh telnet snapshot))))"

text \<open>\<open>RES_OP_F\<close> and \<open>RES_OP_U\<close>: the NAT binding first, then the guest.\<close>

definition handle_release :: "(nat \<Rightarrow> pool \<Rightarrow> pool) \<Rightarrow> string \<Rightarrow> pool_server \<Rightarrow> (pool_server, string) sres" where
  "handle_release release body s =
     (case struct_unpack 4 body of
        Inl e \<Rightarrow> (s, Inl e)
      | Inr gid \<Rightarrow>
          let p = pool_service s
          in (if nat_in_use p
              then (case free_binding gid (nat_svc p) of
                  (n, Inl e) \<Rightarrow> (s\<lparr>pool_service := p\<lparr>nat_svc := n\<rparr>\<rparr>, Inl e)
                | (n, Inr _) \<Rightarrow> (s\<lparr>pool_service := release gid (p\<lparr>nat_svc := n\<rparr>)\<rparr>, Inr []))
              else (s\<lparr>pool_service := release gid p\<rparr>, Inr [])))"

text \<open>
  One \<open>dataReceived\<close>; the result is what is written back. An unknown opcode is ignored.
\<close>

definition pool_server_data_received ::
    "nat \<times> nat \<Rightarrow> rat \<Rightarrow> string \<Rightarrow> pool_server \<Rightarrow> (pool_server, string) sres" where
  "pool_server_data_received ports now data s =
     (case data of
        [] \<Rightarrow> (s, Inl IndexError)
      | res_op # body \<Rightarrow>
          if res_op = CHR ''i'' then handle_init body s
          else if res_op = CHR ''r'' then handle_request ports body s
          else if res_op = CHR ''f'' then handle_release (free_vm now) body s
          else if res_op = CHR ''u'' then handle_release reuse_vm body s
          else (s, Inr []))"

subsection \<open>The client\<close>

datatype parent_call =
    Initialisation_response nat
  | Lose_connection
  | Received_pool_data char nat string string nat nat

record pool_client =
  parent_set :: bool
  vm_id :: "nat option"

definition send_initialisation :: "int \<Rightarrow> int \<Rightarrow> bool \<Rightarrow> string res" where
  "send_initialisation max_vms tmo share =
     rbind (struct_pack 4 max_vms) (\<lambda>a. rbind (struct_pack 4 tmo) (\<lambda>b.
       Inr (''i'' @ a @ b @ [char_of (if share then 1 else 0 :: nat)])))"

definition send_vm_request :: "string \<Rightarrow> string res" where
  "send_vm_request src_ip =
     rbind (struct_pack 2 (int (ulen src_ip))) (\<lambda>a. Inr (''r'' @ a @ pack_s (ulen src_ip) src_ip))"

definition send_vm_free :: "bool \<Rightarrow> pool_client \<Rightarrow> string option res" where
  "send_vm_free backend_dirty c =
     (case vm_id c of
        None \<Rightarrow> Inr None
      | Some i \<Rightarrow> rbind (struct_pack 4 (int i))
          (\<lambda>a. Inr (Some ((if backend_dirty then ''f'' else ''u'') @ a))))"

text \<open>The fields after the guest id, each unpacked from the front of what is left.\<close>

definition parse_guest_fields :: "string \<Rightarrow> (string \<times> string \<times> nat \<times> nat) res" where
  "parse_guest_fields d0 =
     rbind (struct_unpack 2 (take 2 d0)) (\<lambda>ip_len. let d1 = drop 2 d0 in
     rbind (unpack_s ip_len (take ip_len d1)) (\<lambda>honey_ip. let d2 = drop ip_len d1 in
     if length (take 4 d2) \<noteq> 4 then Inl StructError
     else let ssh = unpack_be (take 2 d2); telnet = unpack_be (take 2 (drop 2 d2)); d3 = drop 4 d2 in
     rbind (struct_unpack 2 (take 2 d3)) (\<lambda>s_len. let d4 = drop 2 d3 in
     rbind (unpack_s s_len (take s_len d4)) (\<lambda>snapshot. Inr (honey_ip, snapshot, ssh, telnet)))))"

definition client_data_received :: "string \<Rightarrow> pool_client \<Rightarrow> (pool_client, parent_call list) sres" where
  "client_data_received data c =
     (if \<not> parent_set c then (c, Inr [])
      else if length (take 5 data) \<noteq> 5 then (c, Inl StructError)
      else
        let res_op = data ! 0; res_code = unpack_be (take 4 (drop 1 data)); d = drop 5 data in
        if res_op = CHR ''i'' then (c, Inr [Initialisation_response res_code])
        else if res_op = CHR ''r'' then
          (if res_code \<noteq> 0 then (c, Inr [Lose_connection])
           else case struct_unpack 4 (take 4 d) of
               Inl e \<Rightarrow> (c, Inl e)
             | Inr i \<Rightarrow>
                 let c1 = c\<lparr>vm_id := Some i\<rparr> in
                 (case parse_guest_fields (drop 4 d) of
                    Inl e \<Rightarrow> (c1, Inl e)
                  | Inr (honey_ip, snapshot, ssh, telnet) \<Rightarrow>
                      (c1, Inr [Received_pool_data res_op res_code honey_ip snapshot ssh telnet])))
        else (c, Inr []))"

text \<open>
  \<open>PoolHandler\<close>: the pool is ready once the initialisation was answered with code 0; any other
  code ends the process. Before that only the initial connection may be requested.
\<close>

datatype handler_outcome = Handler_ready bool | Handler_exit

definition initialisation_response :: "nat \<Rightarrow> handler_outcome" where
  "initialisation_response res_code = (if res_code = 0 then Handler_ready True else Handler_exit)"

definition request_interface :: "bool \<Rightarrow> bool \<Rightarrow> bool res" where
  "request_interface pool_ready initial_setup =
     (if \<not> initial_setup \<and> \<not> pool_ready then Inl PoolNotReady else Inr True)"

subsection \<open>Correctness of the protocol\<close>

lemma take_pack_append [simp]: "take w (pack_be w n @ r) = pack_be w n" "drop w (pack_be w n @ r) = r"
  by simp_all

lemma pack_s_ascii: "is_ascii s \<Longrightarrow> pack_s (ulen s) s = s"
  by (simp add: ulen_ascii)

lemma struct_pack_Inr_iff: "struct_pack w n = Inr s \<longleftrightarrow> 0 \<le> n \<and> n < 256 ^ w \<and> s = pack_be w (nat n)"
  by (auto simp: struct_pack_def)

text \<open>What the client asks for is what the server reads: a request for an ASCII address,
  when it can be packed at all, is parsed back to that address.\<close>

theorem vm_request_roundtrip:
  assumes "is_ascii src" "send_vm_request src = Inr msg"
  shows "\<exists>body. msg = CHR ''r'' # body \<and> parse_vm_request body = Inr src"
proof -
  from assms(2) have len: "ulen src < 65536"
    and msg: "msg = CHR ''r'' # pack_be 2 (ulen src) @ src"
    by (auto simp: send_vm_request_def rbind_Inr_iff struct_pack_Inr_iff pack_s_ascii [OF assms(1)])
  have "parse_vm_request (pack_be 2 (ulen src) @ src) = Inr src"
    using len assms(1) by (simp add: parse_vm_request_def struct_unpack_def unpack_pack_be unpack_s_def
        ulen_ascii py_decode_ascii)
  with msg show ?thesis by blast
qed

lemma parse_guest_fields_packed:
  assumes "ulen ip < 65536" "ulen sn < 65536" "p1 < 65536" "p2 < 65536" "is_ascii ip" "is_ascii sn"
  shows "parse_guest_fields (pack_be 2 (ulen ip) @ ip @ pack_be 2 p1 @ pack_be 2 p2
    @ pack_be 2 (ulen sn) @ sn) = Inr (ip, sn, p1, p2)"
  using assms
  by (simp add: parse_guest_fields_def struct_unpack_def unpack_s_def unpack_pack_be ulen_ascii Let_def)

text \<open>What the server packs is what the client delivers: the guest id, the address, the two
  ports and the snapshot of a response arrive unchanged (for ASCII texts).\<close>

theorem vm_response_roundtrip:
  assumes "is_ascii ip" "is_ascii sn" "parent_set c"
    "pack_vm_response gid ip (int p1) (int p2) sn = Inr msg"
  shows "client_data_received msg c
    = (c\<lparr>vm_id := Some gid\<rparr>, Inr [Received_pool_data (CHR ''r'') 0 ip sn p1 p2])"
proof -
  from assms(4) have b: "gid < 256 ^ 4" "ulen ip < 65536" "ulen sn < 65536" "p1 < 65536" "p2 < 65536"
    and msg: "msg = ''r'' @ pack_be 4 0 @ pack_be 4 gid @ pack_be 2 (ulen ip) @ ip @ pack_be 2 p1
      @ pack_be 2 p2 @ pack_be 2 (ulen sn) @ sn"
    by (auto simp: pack_vm_response_def rbind_Inr_iff struct_pack_Inr_iff pack_s_ascii [OF assms(1)]
        pack_s_ascii [OF assms(2)])
  have op: "msg ! 0 = CHR ''r''" "take 4 (drop 1 msg) = pack_be 4 0" "length (take 5 msg) = 5"
    "drop 5 msg = pack_be 4 gid @ pack_be 2 (ulen ip) @ ip @ pack_be 2 p1
      @ pack_be 2 p2 @ pack_be 2 (ulen sn) @ sn"
    by (simp_all add: msg)
  have z: "unpack_be (pack_be 4 0) = 0" by (simp add: unpack_pack_be)
  have id: "struct_unpack 4 (pack_be 4 gid) = Inr gid"
    using b(1) by (simp add: struct_unpack_def unpack_pack_be)
  show ?thesis
    using assms(3) parse_guest_fields_packed [OF b(2-5) assms(1,2)]
    unfolding client_data_received_def Let_def op z by (simp add: id)
qed

text \<open>The initialisation message sets the pool's limits to the values the client sent.\<close>

theorem init_roundtrip:
  assumes "send_initialisation m t sh = Inr (op # body)"
  shows "op = CHR ''i'' \<and> handle_init body s
    = (s\<lparr>pool_service := set_configs m t sh (pool_service s), initialised := True\<rparr>,
       Inr (''i'' @ pack_be 4 0))"
proof -
  from assms have b: "0 \<le> m" "m < 256 ^ 4" "0 \<le> t" "t < 256 ^ 4" "op = CHR ''i''"
    and body: "body = pack_be 4 (nat m) @ pack_be 4 (nat t) @ [char_of (if sh then 1 else 0 :: nat)]"
    by (auto simp: send_initialisation_def rbind_Inr_iff struct_pack_Inr_iff)
  have "body ! 8 = char_of (if sh then 1 else 0 :: nat)"
    by (simp add: body nth_append)
  then show ?thesis
    using b by (simp add: handle_init_def body unpack_pack_be nat_less_iff Let_def)
qed

subsection \<open>The server keeps the pool's invariant\<close>

lemma nat_svc_update_inv:
  "pool_inv p \<Longrightarrow> nat_inv n \<Longrightarrow> pool_inv (p\<lparr>nat_svc := n\<rparr>)"
  by (simp add: pool_inv_def)

lemma handle_request_inv:
  "pool_inv (pool_service s) \<Longrightarrow> pool_inv (pool_service (fst (handle_request ps body s)))"
proof -
  assume inv: "pool_inv (pool_service s)"
  have "pool_inv p" "nat_inv (nat_svc p)" if "request_vm a (pool_service s) = (p, r)" for a p r
    using request_vm_inv [OF inv, of a] that by (simp_all add: pool_inv_def)
  moreover have "nat_inv n" if "nat_inv m" "request_binding g ps m = (n, q)" for g m n q
    using request_binding_inv [OF that(1), of g ps] that(2) by simp
  ultimately show ?thesis
    using inv unfolding handle_request_def
    by (fastforce simp: Let_def nat_svc_update_inv split: sum.splits prod.splits if_splits)
qed

lemma handle_release_inv:
  assumes "pool_inv (pool_service s)" "\<And>i p. pool_inv p \<Longrightarrow> pool_inv (f i p)"
  shows "pool_inv (pool_service (fst (handle_release f body s)))"
proof -
  have "nat_inv n" if "free_binding g (nat_svc (pool_service s)) = (n, r)" for g n r
    using free_binding_inv [of "nat_svc (pool_service s)" g] assms(1) that by (simp add: pool_inv_def)
  then show ?thesis
    using assms unfolding handle_release_def
    by (fastforce simp: Let_def nat_svc_update_inv split: sum.splits prod.splits if_splits)
qed

text \<open>Nothing that arrives on the wire, well formed or not, breaks the pool: after any
  sequence of messages the pool and its NAT bindings still satisfy their invariants.\<close>

theorem server_messages_keep_pool_inv:
  assumes "pool_inv (pool_service s)"
  shows "pool_inv (pool_service
    (foldl (\<lambda>s (ports, now, data). fst (pool_server_data_received ports now data s)) s msgs))"
  using assms
proof (induction msgs arbitrary: s)
  case Nil
  then show ?case by simp
next
  case (Cons m msgs)
  obtain ports now data where m: "m = (ports, now, data)" by (cases m)
  have "pool_inv (pool_service (fst (pool_server_data_received ports now data s)))"
    using Cons.prems
    by (auto simp: pool_server_data_received_def handle_init_def Let_def set_configs_inv
        handle_request_inv handle_release_inv free_vm_inv reuse_vm_inv split: list.splits)
  with Cons.IH m show ?case by simp
qed

subsection \<open>The properties at concrete messages\<close>

definition sample_server :: pool_server where
  "sample_server = \<lparr>pool_service = sample_pool [sample_guest 0 Available 0 [] ''ip1''],
     initialised = True, nat_public_ip = ''ip'', cfg_ssh_port = None, cfg_telnet_port = None\<rparr>"

theorem vm_request_roundtrip_witness:
  "send_vm_request ''10.0.0.1'' = Inr (CHR ''r'' # pack_be 2 8 @ ''10.0.0.1'')
   \<and> parse_vm_request (pack_be 2 8 @ ''10.0.0.1'') = Inr ''10.0.0.1''"
proof -
  have a: "is_ascii ''10.0.0.1''" by (simp add: is_ascii_def)
  have m: "send_vm_request ''10.0.0.1'' = Inr (CHR ''r'' # pack_be 2 8 @ ''10.0.0.1'')"
    by (simp add: send_vm_request_def struct_pack_def ulen_ascii [OF a])
  from vm_request_roundtrip [OF a m] m show ?thesis by simp
qed

theorem vm_response_roundtrip_witness:
  "\<exists>msg. pack_vm_response 3 ''ip1'' 22 23 ''snap'' = Inr msg
     \<and> client_data_received msg \<lparr>parent_set = True, vm_id = None\<rparr>
       = (\<lparr>parent_set = True, vm_id = Some 3\<rparr>,
          Inr [Received_pool_data (CHR ''r'') 0 ''ip1'' ''snap'' 22 23])"
proof -
  have a: "is_ascii ''ip1''" "is_ascii ''snap''" by (simp_all add: is_ascii_def)
  obtain msg where m: "pack_vm_response 3 ''ip1'' (int 22) (int 23) ''snap'' = Inr msg"
    by (simp add: pack_vm_response_def struct_pack_def ulen_ascii a)
  show ?thesis
    using vm_response_roundtrip [OF a _ m, of "\<lparr>parent_set = True, vm_id = None\<rparr>"] m by simp
qed

theorem init_roundtrip_witness:
  "\<exists>body. send_initialisation 2 600 True = Inr (CHR ''i'' # body)
     \<and> max_vm (pool_service (fst (handle_init body sample_server))) = 2"
proof -
  obtain body where m: "send_initialisation 2 600 True = Inr (CHR ''i'' # body)"
    by (simp add: send_initialisation_def struct_pack_def)
  show ?thesis using init_roundtrip [OF m, of sample_server] m by (simp add: set_configs_def)
qed

theorem server_messages_keep_pool_inv_witness:
  "pool_inv (pool_service (foldl (\<lambda>s (ports, now, data). fst (pool_server_data_received ports now data s))
     sample_server [((1, 2), 0, ''r''), ((1, 2), 0, CHR ''r'' # pack_be 2 1 @ ''a'')]))"
proof -
  have "pool_inv (pool_service sample_server)"
    by (simp add: sample_server_def pool_inv_def guest_ok_def sample_defs nat_init_inv)
  then show ?thesis by (rule server_messages_keep_pool_inv)
qed

end
