(* ===== verification/Pool_Nat_Props.thy ===== *)
theory Pool_Nat_Props
  imports Pool_Nat "HOL-Library.Sublist"
begin

section \<open>NAT: a counter per guest, and no data lost\<close>

text \<open>
  What \<open>Pool_Nat\<close> promises: the table of bindings with its listeners implements one counter per guest,
  with ports open exactly for the guests whose counter is not zero; a port lost from outside breaks the
  count; and the buffering proxy delivers everything, in order.
\<close>

subsection \<open>The counters\<close>

datatype nat_op = Request nat "nat \<times> nat" | Free nat

fun nat_exec :: "nat_op \<Rightarrow> nat_service \<Rightarrow> (nat_service, unit) sres" where
  "nat_exec (Request g ps) n = (fst (request_binding g ps n), Inr ())"
| "nat_exec (Free g) n = free_binding g n"

text \<open>The specification.\<close>

fun count_exec :: "nat_op \<Rightarrow> (nat \<Rightarrow> int) \<Rightarrow> (nat \<Rightarrow> int, unit) sres" where
  "count_exec (Request g ps) m = (m(g := m g + 1), Inr ())"
| "count_exec (Free g) m = (if m g = 0 then (m, Inl KeyError) else (m(g := m g - 1), Inr ()))"

definition counters :: "nat_service \<Rightarrow> nat \<Rightarrow> int" where
  "counters n g = ref_count g n"

text \<open>Every binding has both its listeners.\<close>

definition all_open :: "nat_service \<Rightarrow> bool" where
  "all_open n \<longleftrightarrow> nat_inv n \<and> set (handles (bindings n)) \<subseteq> open_ports n"

lemma real_port_not_None [simp]: "(\<exists>p. real_port n h = Some p) \<longleftrightarrow> h \<in> open_ports n"
  using real_port_open [of n h] by auto

lemma all_open_binding:
  assumes "all_open n" "map_of (bindings n) g = Some (c, h1, h2)"
  shows "binding_open g n \<and> 1 \<le> c"
proof -
  have m: "(g, c, h1, h2) \<in> set (bindings n)" using assms(2) by (rule map_of_SomeD)
  then have "h1 \<in> open_ports n" "h2 \<in> open_ports n" using assms(1) by (force simp: all_open_def mem_handles)+
  then show ?thesis
    using assms m real_port_open [of n h1] real_port_open [of n h2]
    by (auto simp: binding_open_def all_open_def nat_inv_def list_all_iff)
qed

lemma request_refines:
  assumes "all_open n"
  shows "counters (fst (request_binding g ps n)) = (counters n)(g := counters n g + 1)
    \<and> all_open (fst (request_binding g ps n))"
proof (cases "map_of (bindings n) g")
  case None
  then have "all_open (fst (create_binding g ps n))"
    using assms create_binding_inv [OF _ None, of ps] alist_update_new [OF None]
    by (auto simp: all_open_def create_binding_simps)
  with None show ?thesis
    by (auto simp: request_binding_def fun_eq_iff counters_def ref_count_def create_binding_simps map_of_alist_update)
next
  case (Some v)
  obtain c h1 h2 where v: "v = (c, h1, h2)" by (cases v)
  obtain as cs where sp: "bindings n = as @ (g, c, h1, h2) # cs" and ga: "g \<notin> fst ` set as"
    using map_of_split [OF Some] v by blast
  from all_open_binding [OF assms Some [unfolded v]] have "h1 \<in> open_ports n" "h2 \<in> open_ports n"
    using Some v real_port_open [of n h1] real_port_open [of n h2] by (auto simp: binding_open_def)
  then obtain p1 p2 where p: "real_port n h1 = Some p1" "real_port n h2 = Some p2"
    using real_port_open by (metis option.exhaust)
  then have e: "fst (request_binding g ps n) = n\<lparr>bindings := AList.update g (c + 1, h1, h2) (bindings n)\<rparr>"
    using Some v by (simp add: request_binding_def Let_def real_port_def)
  have "all_open (fst (request_binding g ps n))"
    using assms request_binding_inv [of n g ps] sp ga
    by (auto simp: all_open_def e alist_update_mid)
  then show ?thesis using Some v by (auto simp: e fun_eq_iff counters_def ref_count_def map_of_alist_update)
qed

lemma free_refines:
  assumes "all_open n"
  shows "counters (fst (free_binding g n)) = fst (count_exec (Free g) (counters n))
    \<and> snd (free_binding g n) = snd (count_exec (Free g) (counters n)) \<and> all_open (fst (free_binding g n))"
proof (cases "map_of (bindings n) g")
  case None
  with assms show ?thesis by (simp add: free_binding_def counters_def ref_count_def)
next
  case (Some v)
  obtain c h1 h2 where v: "v = (c, h1, h2)" by (cases v)
  obtain as cs where sp: "bindings n = as @ (g, c, h1, h2) # cs" and ga: "g \<notin> fst ` set as"
    using map_of_split [OF Some] v by blast
  have gc: "g \<notin> fst ` set cs" using assms sp by (simp add: all_open_def nat_inv_def)
  have c: "1 \<le> c" using all_open_binding [OF assms] Some v by blast
  have "all_open (fst (free_binding g n))"
    using assms free_binding_inv [of n g] Some v sp ga gc
    by (auto simp: all_open_def free_binding_def Let_def alist_update_mid alist_delete_mid nat_inv_def)
  then show ?thesis
    using Some v c ga gc
    by (auto simp: free_binding_def fun_eq_iff counters_def ref_count_def map_of_alist_update Let_def delete_conv')
qed

text \<open>A run goes on behind an error.\<close>

fun nat_run :: "nat_op list \<Rightarrow> nat_service \<Rightarrow> nat_service \<times> unit res list" where
  "nat_run [] n = (n, [])"
| "nat_run (op # ops) n = (case nat_exec op n of (n1, r) \<Rightarrow> (case nat_run ops n1 of (n2, rs) \<Rightarrow> (n2, r # rs)))"

fun count_run :: "nat_op list \<Rightarrow> (nat \<Rightarrow> int) \<Rightarrow> (nat \<Rightarrow> int) \<times> unit res list" where
  "count_run [] m = (m, [])"
| "count_run (op # ops) m = (case count_exec op m of (m1, r) \<Rightarrow> (case count_run ops m1 of (m2, rs) \<Rightarrow> (m2, r # rs)))"

lemma exec_refines:
  assumes "all_open n" "nat_exec op n = (n', r)"
  shows "count_exec op (counters n) = (counters n', r) \<and> all_open n'"
proof (cases op)
  case (Request g ps)
  with assms request_refines [OF assms(1), of g ps] show ?thesis by auto
next
  case (Free g)
  with assms free_refines [OF assms(1), of g] show ?thesis by (cases "count_exec op (counters n)") auto
qed

lemma run_refines:
  assumes "all_open n" "nat_run ops n = (n', rs)"
  shows "count_run ops (counters n) = (counters n', rs) \<and> all_open n'"
  using assms
proof (induction ops arbitrary: n rs)
  case (Cons op ops)
  obtain n1 r where e: "nat_exec op n = (n1, r)" by (metis prod.collapse)
  obtain rs1 where rs: "nat_run ops n1 = (n', rs1)" "rs = r # rs1" using Cons.prems(2) e by (auto split: prod.splits)
  from exec_refines [OF Cons.prems(1) e] Cons.IH [OF _ rs(1)] rs(2) show ?case by simp
qed simp

text \<open>C3: The NAT service implements one counter for each guest: in every run of requests and releases the
  errors are those of the counters, the counters come out the same, and a guest has its ports open exactly
  while its counter is not zero.\<close>

theorem nat_implements_counters:
  assumes "nat_run ops nat_init = (n, rs)"
  shows "count_run ops (\<lambda>_. 0) = (counters n, rs) \<and> (\<forall>g. binding_open g n \<longleftrightarrow> counters n g \<noteq> 0)
    \<and> (\<forall>g. 0 \<le> counters n g)"
proof -
  have "all_open nat_init" "counters nat_init = (\<lambda>_. 0)"
    using nat_init_inv by (simp_all add: all_open_def nat_init_def fun_eq_iff counters_def ref_count_def)
  with run_refines [OF this(1) assms] have r: "count_run ops (\<lambda>_. 0) = (counters n, rs)" "all_open n" by simp_all
  have "(binding_open g n \<longleftrightarrow> counters n g \<noteq> 0) \<and> 0 \<le> counters n g" for g
  proof (cases "map_of (bindings n) g")
    case None
    then show ?thesis by (simp add: binding_open_def counters_def ref_count_def)
  next
    case (Some v)
    obtain c h1 h2 where "v = (c, h1, h2)" by (cases v)
    with Some all_open_binding [OF r(2), of g c h1 h2] show ?thesis by (simp add: counters_def ref_count_def)
  qed
  with r(1) show ?thesis by blast
qed

text \<open>When a port of a guest in use has been closed from outside, the next request starts the count anew:
  one release then closes the ports of everyone else who is still connected.\<close>

theorem nat_lost_port_resets_count:
  assumes "nat_inv n" "map_of (bindings n) g = Some (c, h1, h2)"
  shows "counters (fst (request_binding g ps (lose_port h1 n))) g = 1
    \<and> map_of (bindings (fst (free_binding g (fst (request_binding g ps (lose_port h1 n)))))) g = None"
proof -
  let ?n = "lose_port h1 n"
  have "h1 \<notin> open_ports ?n" by (simp add: lose_port_def)
  then have "real_port ?n h1 = None" using real_port_open [of ?n h1] by blast
  then have "\<exists>m. request_binding g ps ?n = create_binding g ps m"
    using assms(2) by (auto simp: request_binding_def lose_port_def real_port_def Let_def)
  then obtain m where m: "request_binding g ps ?n = create_binding g ps m" by blast
  have "counters (fst (create_binding g ps m)) g = 1"
    using create_binding_open [of g ps m] by (simp add: counters_def)
  then have "\<exists>h h'. map_of (bindings (fst (create_binding g ps m))) g = Some (1, h, h')"
    by (auto simp: counters_def ref_count_def split: option.splits)
  then have "map_of (bindings (fst (free_binding g (fst (create_binding g ps m))))) g = None"
    by (auto simp: free_binding_def Let_def delete_conv')
  with \<open>counters _ g = 1\<close> show ?thesis by (simp add: m)
qed

subsection \<open>The buffering proxy\<close>

text \<open>What has been written only grows.\<close>

interpretation nat_proxy_machine: growing_machine proxy_step "\<lambda>s. buffer s \<noteq> [] \<longrightarrow> 0 < retries s" sent
proof unfold_locales
  show "buffer (proxy_step s e) \<noteq> [] \<longrightarrow> 0 < retries (proxy_step s e)" if "buffer s \<noteq> [] \<longrightarrow> 0 < retries s" for s e
    using that by (rule proxy_step_pending)
  show "\<exists>r. sent (proxy_step s e) = sent s @ r" for s e
    by (cases e) (auto simp: data_received_def send_data_def)
qed

lemma client_stays_up: "client_up (foldl proxy_step s es) \<longleftrightarrow> client_up s \<or> Client_connected \<in> set es"
proof (induction es arbitrary: s)
  case (Cons e es)
  have "client_up (proxy_step s e) \<longleftrightarrow> client_up s \<or> e = Client_connected"
    by (cases e) (auto simp: data_received_def send_data_def)
  with Cons.IH show ?case by auto
qed simp

text \<open>C8: Everything a connection of the attacker carries is delivered to the guest, in order: at every moment
  what has been written is a prefix of what has arrived, and once the guest's side is connected the next
  timer delivers all of it.\<close>

theorem nat_proxy_delivers:
  assumes "Client_connected \<in> set es"
  shows "prefix (sent (foldl proxy_step proxy_init (take k es))) (data_of es)
    \<and> sent (foldl proxy_step proxy_init (es @ [Retry_timer])) = data_of es
    \<and> buffer (foldl proxy_step proxy_init (es @ [Retry_timer])) = []"
proof -
  have i: "buffer proxy_init \<noteq> [] \<longrightarrow> 0 < retries proxy_init" "sent proxy_init = []" "buffer proxy_init = []"
    by (simp_all add: proxy_init_def)
  let ?s = "foldl proxy_step proxy_init es"
  have all: "sent ?s @ buffer ?s = data_of es" using proxy_run_content [of proxy_init es] i by simp
  have "prefix (sent (foldl proxy_step proxy_init (take k es))) (sent ?s)"
  proof -
    have "?s = foldl proxy_step (foldl proxy_step proxy_init (take k es)) (drop k es)"
      by (metis append_take_drop_id foldl_append)
    moreover have "\<exists>r. sent (foldl proxy_step (foldl proxy_step proxy_init (take k es)) (drop k es))
        = sent (foldl proxy_step proxy_init (take k es)) @ r"
      by (rule nat_proxy_machine.run_trace_grows [OF nat_proxy_machine.run_inv_prefix [OF i(1)]])
    ultimately show ?thesis by (auto simp: prefix_def)
  qed
  moreover have "prefix (sent ?s) (data_of es)" unfolding all [symmetric] by simp
  moreover have "client_up ?s" using client_stays_up assms by simp
  moreover have "buffer ?s \<noteq> [] \<longrightarrow> 0 < retries ?s" by (rule nat_proxy_machine.run_inv [OF i(1)])
  ultimately show ?thesis using all
    by (auto simp: send_data_def dest: prefix_order.order_trans)
qed

subsection \<open>Examples\<close>

theorem nat_implements_counters_witness:
  "\<exists>n rs. nat_run [Request 7 (40, 41), Request 7 (42, 43), Free 7, Free 8] nat_init = (n, rs) \<and> binding_open 7 n"
proof -
  let ?ops = "[Request 7 (40, 41), Request 7 (42, 43), Free 7, Free 8]"
  obtain n rs where r: "nat_run ?ops nat_init = (n, rs)" by (metis prod.collapse)
  from nat_implements_counters [OF r] have "fst (count_run ?ops (\<lambda>_. 0)) = counters n" "binding_open 7 n \<longleftrightarrow> counters n 7 \<noteq> 0"
    by (metis fst_conv, blast)
  moreover have "fst (count_run ?ops (\<lambda>_. 0)) 7 = 1" by simp
  ultimately have "binding_open 7 n" by presburger
  with r show ?thesis by blast
qed

theorem nat_lost_port_resets_count_witness:
  "counters (fst (request_binding 7 (42, 43) (lose_port 0 (fst (request_binding 7 (40, 41) nat_init))))) 7 = 1"
  using nat_lost_port_resets_count [of "fst (request_binding 7 (40, 41) nat_init)" 7 1 0 1 "(42, 43)"]
    request_binding_inv [OF nat_init_inv, of 7 "(40, 41)"]
  by (simp add: request_binding_def nat_init_def create_binding_def listen_tcp_def)

theorem nat_proxy_delivers_witness:
  "sent (foldl proxy_step proxy_init ([Data ''a'', Data ''b'', Client_connected] @ [Retry_timer])) = [''a'', ''b'']"
  using nat_proxy_delivers [of "[Data ''a'', Data ''b'', Client_connected]" 1] by simp

end
