(* ===== verification/Rate_Limiter.thy ===== *)
theory Rate_Limiter
  imports Prelude "HOL-Library.Multiset"
begin

section \<open>The rate limiter for outbound requests\<close>

text \<open>
  Model of \<open>core/rate_limiter.py\<close>. The tracker is the \<open>defaultdict\<close> from a key to the times
  of its admitted requests, in insertion order. The clock reading of a call is an argument.
\<close>

record limiter =
  enabled :: bool
  max_requests :: nat
  window_seconds :: rat
  max_keys :: nat
  tracker :: "(string \<times> rat list) list"
  last_cleanup :: rat

definition limiter_init :: "bool \<Rightarrow> nat \<Rightarrow> rat \<Rightarrow> nat \<Rightarrow> rat \<Rightarrow> limiter" where
  "limiter_init en mr w mk now =
     \<lparr>enabled = en, max_requests = mr, window_seconds = w, max_keys = mk, tracker = [],
      last_cleanup = now\<rparr>"

text \<open>Reading a \<open>defaultdict(list)\<close>: a missing key is an empty list.\<close>

definition times_of :: "limiter \<Rightarrow> string \<Rightarrow> rat list" where
  "times_of l k = (case map_of (tracker l) k of None \<Rightarrow> [] | Some ts \<Rightarrow> ts)"

definition recent :: "limiter \<Rightarrow> rat \<Rightarrow> rat list \<Rightarrow> rat list" where
  "recent l now ts = filter (\<lambda>t. now - t < window_seconds l) ts"

definition cleanup_all :: "rat \<Rightarrow> limiter \<Rightarrow> limiter" where
  "cleanup_all now l =
     l\<lparr>tracker := filter (\<lambda>(k, ts). ts \<noteq> []) (map (\<lambda>(k, ts). (k, recent l now ts)) (tracker l))\<rparr>"

definition latest_activity :: "rat list \<Rightarrow> rat" where
  "latest_activity ts = (if ts = [] then 0 else Max (set ts))"

definition remove_oldest_keys :: "limiter \<Rightarrow> limiter" where
  "remove_oldest_keys l =
     (if tracker l = [] then l
      else let sorted_keys = sort_key snd (map (\<lambda>(k, ts). (k, latest_activity ts)) (tracker l));
               keys_to_remove = max 1 (length sorted_keys div 10)
           in l\<lparr>tracker := fold (\<lambda>k. AList.delete k) (map fst (take keys_to_remove sorted_keys)) (tracker l)\<rparr>)"

definition limiter_reset :: "rat \<Rightarrow> limiter \<Rightarrow> limiter" where
  "limiter_reset now l = l\<lparr>tracker := [], last_cleanup := now\<rparr>"

text \<open>\<open>check\<close> in its parts: the periodic clean-up, the purge of this key, the size limit, the limit.\<close>

definition periodic_cleanup :: "rat \<Rightarrow> limiter \<Rightarrow> limiter" where
  "periodic_cleanup now l =
     (if now - last_cleanup l > window_seconds l
      then (cleanup_all now l)\<lparr>last_cleanup := now\<rparr> else l)"

definition purge_key :: "rat \<Rightarrow> string \<Rightarrow> limiter \<Rightarrow> limiter" where
  "purge_key now key l = l\<lparr>tracker := AList.update key (recent l now (times_of l key)) (tracker l)\<rparr>"

definition limit_size :: "limiter \<Rightarrow> limiter" where
  "limit_size l = (if length (tracker l) > max_keys l then remove_oldest_keys l else l)"

text \<open>
  The last part reads \<open>self.request_tracker[key]\<close>, which puts a key back that the size limit has
  just removed.
\<close>

definition check_limit :: "rat \<Rightarrow> string \<Rightarrow> limiter \<Rightarrow> limiter \<times> bool" where
  "check_limit now key l =
     (let l1 = l\<lparr>tracker := AList.update key (times_of l key) (tracker l)\<rparr>
      in if length (times_of l1 key) \<ge> max_requests l1 then (l1, False)
         else (l1\<lparr>tracker := AList.update key (times_of l1 key @ [now]) (tracker l1)\<rparr>, True))"

definition check :: "rat \<Rightarrow> string \<Rightarrow> limiter \<Rightarrow> limiter \<times> bool" where
  "check now key l =
     (if \<not> enabled l then (l, True)
      else check_limit now key (limit_size (purge_key now key (periodic_cleanup now l))))"

subsection \<open>Size of the tracker\<close>

definition tracker_ok :: "limiter \<Rightarrow> bool" where
  "tracker_ok l \<longleftrightarrow> distinct (map fst (tracker l)) \<and> length (tracker l) \<le> max (max_keys l) 19"

lemma distinct_filter_map: "distinct (map fst xs) \<Longrightarrow> distinct (map fst (filter P (map (\<lambda>(k, v). (k, f v)) xs)))"
proof -
  assume "distinct (map fst xs)"
  moreover have "map fst (map (\<lambda>(k, v). (k, f v)) xs) = map fst xs"
    by (simp add: comp_def case_prod_unfold)
  ultimately have "distinct (map fst (map (\<lambda>(k, v). (k, f v)) xs))" by (simp only:)
  then show ?thesis by (rule distinct_map_filter)
qed

lemma cleanup_all_ok: "tracker_ok l \<Longrightarrow> tracker_ok (cleanup_all now l)"
proof -
  assume ok: "tracker_ok l"
  have "length (tracker (cleanup_all now l)) \<le> length (tracker l)"
    using length_filter_le [of "\<lambda>(k, ts). ts \<noteq> []" "map (\<lambda>(k, ts). (k, recent l now ts)) (tracker l)"]
    by (simp add: cleanup_all_def del: filter_map)
  moreover have "distinct (map fst (tracker (cleanup_all now l)))"
    using ok by (simp add: tracker_ok_def cleanup_all_def distinct_filter_map del: filter_map)
  moreover have "max_keys (cleanup_all now l) = max_keys l" by (simp add: cleanup_all_def)
  ultimately show ?thesis using ok by (simp add: tracker_ok_def)
qed

lemma periodic_cleanup_ok: "tracker_ok l \<Longrightarrow> tracker_ok (periodic_cleanup now l)"
  using cleanup_all_ok [of l now] by (simp add: periodic_cleanup_def tracker_ok_def)

lemma fold_delete_distinct:
  "distinct (map fst d) \<Longrightarrow> distinct (map fst (fold (\<lambda>k. AList.delete k) ks d))"
  by (induction ks arbitrary: d) (simp_all add: distinct_delete)

lemma fold_delete_set: "fst ` set (fold (\<lambda>k. AList.delete k) ks d) = fst ` set d - set ks"
  by (induction ks arbitrary: d) (auto simp: fst_delete)

lemma map_of_fold_delete:
  "map_of (fold (\<lambda>k. AList.delete k) ks d) k = (if k \<in> set ks then None else map_of d k)"
  by (induction ks arbitrary: d) (simp_all add: AList.delete_conv')

lemma length_alist_keys: "distinct (map fst d) \<Longrightarrow> length d = card (fst ` set d)"
  by (metis distinct_card length_map set_map)

lemma remove_oldest_shrinks:
  assumes "distinct (map fst (tracker l))" "tracker l \<noteq> []"
  shows "length (tracker (remove_oldest_keys l)) = length (tracker l) - max 1 (length (tracker l) div 10)"
    and "distinct (map fst (tracker (remove_oldest_keys l)))"
    and "fst ` set (tracker (remove_oldest_keys l)) \<subseteq> fst ` set (tracker l)"
proof -
  define sk where "sk = sort_key snd (map (\<lambda>(k, ts). (k, latest_activity ts)) (tracker l))"
  define n where "n = max 1 (length sk div 10)"
  have len: "length sk = length (tracker l)" by (simp add: sk_def)
  have "distinct (map fst sk)"
  proof -
    have "mset (map fst sk) = mset (map fst (tracker l))"
      by (simp add: sk_def multiset.map_comp comp_def case_prod_unfold)
    then show ?thesis using assms(1) by (metis mset_eq_imp_distinct_iff)
  qed
  then have dt: "distinct (map fst (take n sk))" by (simp add: distinct_take take_map [symmetric])
  have n: "n \<le> length sk"
    using assms(2) len unfolding n_def by (cases "tracker l") auto
  have rem: "tracker (remove_oldest_keys l) = fold (\<lambda>k. AList.delete k) (map fst (take n sk)) (tracker l)"
    using assms(2) by (simp add: remove_oldest_keys_def Let_def sk_def n_def)
  have sub: "set (map fst (take n sk)) \<subseteq> fst ` set (tracker l)"
    by (force simp: sk_def dest!: in_set_takeD)
  show d: "distinct (map fst (tracker (remove_oldest_keys l)))"
    by (simp add: rem fold_delete_distinct assms(1))
  show "fst ` set (tracker (remove_oldest_keys l)) \<subseteq> fst ` set (tracker l)"
    by (auto simp: rem fold_delete_set)
  have "card (fst ` set (tracker l) - set (map fst (take n sk))) = length (tracker l) - n"
    using sub n dt len assms(1)
    by (simp add: card_Diff_subset length_alist_keys [symmetric] distinct_card del: set_map)
  then show "length (tracker (remove_oldest_keys l)) = length (tracker l) - max 1 (length (tracker l) div 10)"
    using length_alist_keys [OF d] by (simp add: rem fold_delete_set n_def len)
qed

lemma purge_key_ok:
  "tracker_ok l \<Longrightarrow> distinct (map fst (tracker (purge_key now k l)))
    \<and> length (tracker (purge_key now k l)) \<le> Suc (max (max_keys l) 19)"
  by (auto simp: tracker_ok_def purge_key_def distinct_update length_alist_update)

lemma length_check_limit:
  "length (tracker (fst (check_limit now k l)))
   = (if k \<in> fst ` set (tracker l) then length (tracker l) else Suc (length (tracker l)))"
  by (simp add: check_limit_def Let_def length_alist_update dom_update)

lemma check_limit_distinct:
  "distinct (map fst (tracker l)) \<Longrightarrow> distinct (map fst (tracker (fst (check_limit now k l))))"
  by (simp add: check_limit_def Let_def distinct_update)

text \<open>
  Ten keys in a hundred go at each overflow, so one key re-created afterwards fits again, unless
  a tenth is a single key.
\<close>

lemma limit_and_check_ok:
  assumes "distinct (map fst (tracker l))" "length (tracker l) \<le> Suc (max (max_keys l) 19)"
    "k \<in> fst ` set (tracker l)"
  shows "tracker_ok (fst (check_limit now k (limit_size l)))"
proof -
  have mk: "max_keys (fst (check_limit now k (limit_size l))) = max_keys l"
    by (simp add: check_limit_def limit_size_def remove_oldest_keys_def Let_def)
  show ?thesis
  proof (cases "length (tracker l) > max_keys l")
    case False
    then have "limit_size l = l" by (simp add: limit_size_def)
    then show ?thesis
      using assms False mk by (simp add: tracker_ok_def length_check_limit check_limit_distinct)
  next
    case True
    define n where "n = length (tracker l)"
    have ne: "tracker l \<noteq> []" using True by auto
    have ls: "limit_size l = remove_oldest_keys l" using True by (simp add: limit_size_def)
    have "length (tracker (fst (check_limit now k (limit_size l)))) \<le> Suc (n - max 1 (n div 10))"
      using remove_oldest_shrinks(1) [OF assms(1) ne] by (simp add: ls length_check_limit n_def)
    also have "\<dots> \<le> max (max_keys l) 19"
      using assms(2) True by (cases "n = Suc (max (max_keys l) 19)") (auto simp: n_def)
    finally show ?thesis
      using remove_oldest_shrinks(2) [OF assms(1) ne] mk
      by (simp add: tracker_ok_def ls check_limit_distinct)
  qed
qed

lemma check_ok: "tracker_ok l \<Longrightarrow> tracker_ok (fst (check now k l))"
proof (cases "enabled l")
  case True
  assume "tracker_ok l"
  then have ok: "tracker_ok (periodic_cleanup now l)" by (rule periodic_cleanup_ok)
  let ?m = "purge_key now k (periodic_cleanup now l)"
  have "k \<in> fst ` set (tracker ?m)" by (simp add: purge_key_def dom_update)
  then have "tracker_ok (fst (check_limit now k (limit_size ?m)))"
    using purge_key_ok [OF ok, of now k] by (intro limit_and_check_ok) (simp_all add: purge_key_def)
  with True show ?thesis by (simp add: check_def)
qed (simp add: check_def)

interpretation rate_limiter: machine "\<lambda>l (now, k). fst (check now k l)" tracker_ok
  by unfold_locales (auto simp: check_ok)

text \<open>Whatever requests arrive, the tracker never holds more keys than \<open>max_keys\<close>, or 19
  where \<open>max_keys\<close> is smaller: below 20 keys the tenth that an overflow removes is one key, the
  new one itself, and the limit check puts it back.\<close>

theorem tracker_size_bound:
  "length (tracker (foldl (\<lambda>l (now, k). fst (check now k l)) (limiter_init en mr w mk t0) es))
   \<le> max mk 19"
proof -
  have mk: "max_keys (foldl (\<lambda>l (now, k). fst (check now k l)) l es) = max_keys l" for l
  proof (induction es arbitrary: l)
    case (Cons e es)
    then show ?case
      by (cases e) (simp add: check_def check_limit_def limit_size_def remove_oldest_keys_def
          purge_key_def periodic_cleanup_def cleanup_all_def Let_def)
  qed simp
  have "tracker_ok (limiter_init en mr w mk t0)" by (simp add: tracker_ok_def limiter_init_def)
  then have "tracker_ok (foldl (\<lambda>l (now, k). fst (check now k l)) (limiter_init en mr w mk t0) es)"
    by (rule rate_limiter.run_inv)
  then show ?thesis by (simp add: tracker_ok_def mk) (simp add: limiter_init_def)
qed

subsection \<open>The rate limit\<close>

fun admitted :: "limiter \<Rightarrow> (rat \<times> string) list \<Rightarrow> (rat \<times> string) list" where
  "admitted l [] = []"
| "admitted l ((now, k) # es) =
     (if snd (check now k l) then [(now, k)] else []) @ admitted (fst (check now k l)) es"

definition times_for :: "string \<Rightarrow> (rat \<times> string) list \<Rightarrow> rat list" where
  "times_for k h = map fst (filter (\<lambda>e. snd e = k) h)"

text \<open>
  The tracker remembers the admitted requests \<open>h\<close>: from \<open>now\<close> on, the recent times it holds for
  a key are the recent ones of the history, and no key has more than the limit.
\<close>

definition remembers :: "(rat \<times> string) list \<Rightarrow> rat \<Rightarrow> limiter \<Rightarrow> bool" where
  "remembers h now l \<longleftrightarrow>
     (\<forall>k. length (times_of l k) \<le> max_requests l
          \<and> (\<forall>t \<ge> now. recent l t (times_of l k) = recent l t (times_for k h)))"

lemma recent_recent: "t \<ge> now \<Longrightarrow> recent l t (recent l now ts) = recent l t ts"
  unfolding recent_def filter_filter by (rule filter_cong) auto

lemma recent_cong [simp]:
  "recent (l\<lparr>tracker := x\<rparr>) = recent l" "recent (l\<lparr>last_cleanup := y\<rparr>) = recent l"
  "recent (l\<lparr>tracker := x, last_cleanup := y\<rparr>) = recent l"
  by (auto simp: recent_def fun_eq_iff)

lemma map_of_cleaned:
  "distinct (map fst xs) \<Longrightarrow>
   map_of (filter (\<lambda>(k, ts). ts \<noteq> []) (map (\<lambda>(k, ts). (k, f ts)) xs)) k
   = (case map_of xs k of None \<Rightarrow> None | Some ts \<Rightarrow> if f ts = [] then None else Some (f ts))"
proof (induction xs)
  case Nil
  then show ?case by simp
next
  case (Cons x xs)
  obtain k' ts where x: "x = (k', ts)" by (cases x)
  show ?case
  proof (cases "k' = k")
    case True
    with Cons.prems x have "map_of xs k = None" by (simp add: map_of_eq_None_iff)
    with Cons x True show ?thesis by simp
  next
    case False
    with Cons x show ?thesis by simp
  qed
qed

lemma times_of_cleanup:
  "distinct (map fst (tracker l)) \<Longrightarrow> times_of (cleanup_all now l) k = recent l now (times_of l k)"
  by (auto simp: times_of_def cleanup_all_def map_of_cleaned recent_def split: option.splits
      simp del: filter_map)

lemma times_of_periodic:
  "distinct (map fst (tracker l)) \<Longrightarrow>
   times_of (periodic_cleanup now l) k \<in> {times_of l k, recent l now (times_of l k)}"
  using times_of_cleanup [of l now k] by (auto simp: periodic_cleanup_def times_of_def)

lemma times_of_purge:
  "times_of (purge_key now key l) k
   = (if k = key then recent l now (times_of l key) else times_of l k)"
  by (simp add: times_of_def purge_key_def map_of_alist_update)

lemma times_of_check_limit:
  "times_of (fst (check_limit now key l)) k
   = times_of l k @ (if k = key \<and> snd (check_limit now key l) then [now] else [])"
  "snd (check_limit now key l) \<longleftrightarrow> length (times_of l key) < max_requests l"
  by (auto simp: check_limit_def times_of_def Let_def map_of_alist_update split: option.splits)

lemma length_recent: "length (recent l t ts) \<le> length ts"
  by (simp add: recent_def)

lemma limiter_fields [simp]:
  "max_requests (periodic_cleanup now l) = max_requests l"
  "window_seconds (periodic_cleanup now l) = window_seconds l"
  "max_keys (periodic_cleanup now l) = max_keys l"
  "max_requests (purge_key now k l) = max_requests l"
  "window_seconds (purge_key now k l) = window_seconds l"
  "max_keys (purge_key now k l) = max_keys l"
  "recent (periodic_cleanup now l) = recent l" "recent (purge_key now k l) = recent l"
  "recent (fst (check_limit now k l)) = recent l"
  "max_requests (fst (check_limit now k l)) = max_requests l"
  "max_keys (fst (check_limit now k l)) = max_keys l"
  by (auto simp: periodic_cleanup_def purge_key_def cleanup_all_def check_limit_def Let_def
      recent_def fun_eq_iff)

lemma remembers_periodic:
  assumes "remembers h t0 l" "t0 \<le> now" "distinct (map fst (tracker l))"
  shows "remembers h now (periodic_cleanup now l)"
  unfolding remembers_def
proof (intro allI conjI impI)
  fix k
  have "length (times_of (periodic_cleanup now l) k) \<le> length (times_of l k)"
    using times_of_periodic [OF assms(3), of now k] length_recent [of l now "times_of l k"] by auto
  moreover have "length (times_of l k) \<le> max_requests l" using assms(1) by (simp add: remembers_def)
  ultimately show "length (times_of (periodic_cleanup now l) k) \<le> max_requests (periodic_cleanup now l)"
    by simp
  fix t
  assume t: "now \<le> t"
  then have "recent l t (times_of (periodic_cleanup now l) k) = recent l t (times_of l k)"
    using times_of_periodic [OF assms(3), of now k] by (auto simp: recent_recent)
  also have "\<dots> = recent l t (times_for k h)"
    using assms(1,2) t by (auto simp: remembers_def)
  finally show "recent (periodic_cleanup now l) t (times_of (periodic_cleanup now l) k)
      = recent (periodic_cleanup now l) t (times_for k h)" by simp
qed

lemma remembers_purge:
  assumes "remembers h now l"
  shows "remembers h now (purge_key now key l)"
proof -
  have "length (recent l now (times_of l key)) \<le> max_requests l"
    using assms length_recent [of l now "times_of l key"] le_trans unfolding remembers_def by blast
  then show ?thesis
    using assms unfolding remembers_def by (simp add: times_of_purge recent_recent)
qed

lemma remembers_check_limit:
  assumes "remembers h now l"
  shows "remembers (h @ (if snd (check_limit now key l) then [(now, key)] else [])) now
    (fst (check_limit now key l))"
proof -
  have app: "recent l t (xs @ ys) = recent l t xs @ recent l t ys" for t xs ys
    by (simp add: recent_def)
  show ?thesis
    using assms unfolding remembers_def
    by (auto simp: times_of_check_limit times_for_def app Suc_le_eq)
qed

lemma check_remembers:
  assumes "remembers h t0 l" "t0 \<le> now" "enabled l" "distinct (map fst (tracker l))"
    "fst ` set (tracker l) \<subseteq> ks" "key \<in> ks" "finite ks" "card ks \<le> max_keys l"
  shows "remembers (h @ (if snd (check now key l) then [(now, key)] else [])) now (fst (check now key l))
    \<and> distinct (map fst (tracker (fst (check now key l))))
    \<and> fst ` set (tracker (fst (check now key l))) \<subseteq> ks
    \<and> enabled (fst (check now key l)) \<and> max_keys (fst (check now key l)) = max_keys l"
proof -
  let ?p = "periodic_cleanup now l"
  let ?q = "purge_key now key ?p"
  have keys_p: "fst ` set (tracker ?p) \<subseteq> fst ` set (tracker l)" and dp: "distinct (map fst (tracker ?p))"
    using assms(4) by (auto simp: periodic_cleanup_def cleanup_all_def distinct_filter_map
        simp del: filter_map intro: rev_image_eqI)
  have keys_q: "fst ` set (tracker ?q) \<subseteq> ks" and dq: "distinct (map fst (tracker ?q))"
    using keys_p dp assms(5,6) by (auto simp: purge_key_def dom_update distinct_update)
  have "length (tracker ?q) \<le> card ks"
    using card_mono [OF assms(7) keys_q] length_alist_keys [OF dq] by simp
  then have ls: "limit_size ?q = ?q"
    using assms(8) by (simp add: limit_size_def)
  have ck: "check now key l = check_limit now key ?q"
    using assms(3) by (simp add: check_def ls)
  have "remembers h now ?q"
    by (rule remembers_purge [OF remembers_periodic [OF assms(1,2,4)]])
  then have "remembers (h @ (if snd (check now key l) then [(now, key)] else [])) now (fst (check now key l))"
    unfolding ck by (rule remembers_check_limit)
  moreover have "fst ` set (tracker (fst (check now key l))) \<subseteq> ks"
    using keys_q assms(6) by (auto simp: ck check_limit_def Let_def dom_update)
  moreover have "enabled (fst (check now key l))"
    using assms(3) by (simp add: ck check_limit_def purge_key_def periodic_cleanup_def cleanup_all_def Let_def)
  ultimately show ?thesis
    using dq by (simp add: ck check_limit_distinct)
qed

lemma admitted_bound:
  assumes "remembers h t0 l" "sorted (t0 # map fst es)" "enabled l" "distinct (map fst (tracker l))"
    "fst ` set (tracker l) \<subseteq> ks" "snd ` set es \<subseteq> ks" "finite ks" "card ks \<le> max_keys l"
  shows "length (filter (\<lambda>t. last (t0 # map fst es) - t < window_seconds l)
      (times_for k (h @ admitted l es))) \<le> max_requests l"
  using assms
proof (induction es arbitrary: h t0 l)
  case Nil
  have "recent l t0 (times_of l k) = recent l t0 (times_for k h)"
    and "length (times_of l k) \<le> max_requests l"
    using Nil(1) by (simp_all add: remembers_def)
  then have "length (recent l t0 (times_for k h)) \<le> max_requests l"
    by (metis le_trans length_recent)
  then show ?case by (simp add: recent_def)
next
  case (Cons e es)
  obtain now key where e: "e = (now, key)" by (cases e)
  let ?a = "if snd (check now key l) then [(now, key)] else []"
  let ?l = "fst (check now key l)"
  have st: "remembers (h @ ?a) now ?l \<and> distinct (map fst (tracker ?l)) \<and> fst ` set (tracker ?l) \<subseteq> ks
      \<and> enabled ?l \<and> max_keys ?l = max_keys l"
    using Cons.prems e by (intro check_remembers) auto
  have "length (filter (\<lambda>t. last (now # map fst es) - t < window_seconds ?l)
      (times_for k ((h @ ?a) @ admitted ?l es))) \<le> max_requests ?l"
    using Cons.prems e st by (intro Cons.IH) auto
  moreover have "window_seconds ?l = window_seconds l" "max_requests ?l = max_requests l"
    by (simp_all add: check_def check_limit_def limit_size_def remove_oldest_keys_def Let_def)
  ultimately show ?case by (simp add: e)
qed

text \<open>C37: As long as no more than \<open>max_keys\<close> distinct destinations are asked for in the whole
  run, at most \<open>max_requests\<close> requests to one destination are admitted within any window: counting
  back from the last of any sequence of calls in the order of time, no key has more admitted requests
  than the limit. With more destinations the tracker forgets keys and the limit is exceeded
  (\<open>forgotten_key_admitted\<close> and \<open>overflow_exceeds_limit\<close> below).\<close>

theorem rate_limit_enforced:
  assumes "sorted (t0 # map fst es)" "card (snd ` set es) \<le> mk"
  shows "length (filter (\<lambda>t. last (t0 # map fst es) - t < w)
    (times_for k (admitted (limiter_init True mr w mk t0) es))) \<le> mr"
  using admitted_bound [of "[]" t0 "limiter_init True mr w mk t0" es "snd ` set es" k] assms
  by (simp add: limiter_init_def remembers_def times_of_def times_for_def recent_def)

text \<open>The bound on the number of destinations is needed. When the tracker overflows, the least
  recently used keys go, with requests that are still in the window: a request to a destination
  that is thus forgotten is admitted, however many went before it.\<close>

lemma forgotten_key_removed:
  assumes "distinct (map fst (tracker m))" "key \<in> fst ` set (tracker m)"
    "\<forall>k ts. (k, ts) \<in> set (tracker m) \<longrightarrow> k \<noteq> key \<longrightarrow> latest_activity (times_of m key) < latest_activity ts"
  shows "times_of (remove_oldest_keys m) key = []"
proof -
  let ?s = "sort_key snd (map (\<lambda>(k, ts). (k, latest_activity ts)) (tracker m))"
  obtain ts where ts: "(key, ts) \<in> set (tracker m)" using assms(2) by auto
  then have mo: "times_of m key = ts" using assms(1) by (simp add: times_of_def)
  obtain x xs where s: "?s = x # xs"
    using ts by (cases ?s) (auto dest: arg_cong [where f = length])
  have "\<forall>y \<in> set ?s. snd x \<le> snd y"
    using sorted_sort_key [of snd "map (\<lambda>(k, ts). (k, latest_activity ts)) (tracker m)"]
    unfolding s by auto
  moreover have "(key, latest_activity ts) \<in> set ?s" using ts by force
  ultimately have le: "snd x \<le> latest_activity ts" by force
  have "x \<in> set ?s" unfolding s by simp
  then obtain us where us: "(fst x, us) \<in> set (tracker m)" "snd x = latest_activity us" by auto
  have "fst x = key" using assms(3) us le mo by (metis leD)
  moreover obtain n where "max 1 (length ?s div 10) = Suc n" by (cases "max 1 (length ?s div 10)") auto
  ultimately have "key \<in> set (map fst (take (max 1 (length ?s div 10)) ?s))" by (simp only: s) simp
  moreover have "tracker m \<noteq> []" using ts by auto
  ultimately show ?thesis
    by (simp add: remove_oldest_keys_def times_of_def Let_def map_of_fold_delete)
qed

theorem forgotten_key_admitted:
  fixes now key l
  defines "m \<equiv> purge_key now key (periodic_cleanup now l)"
  assumes "distinct (map fst (tracker l))" "0 < max_requests l" "max_keys l < length (tracker m)"
    "\<forall>k ts. (k, ts) \<in> set (tracker m) \<longrightarrow> k \<noteq> key \<longrightarrow> latest_activity (times_of m key) < latest_activity ts"
  shows "snd (check now key l)"
proof (cases "enabled l")
  case True
  have "distinct (map fst (tracker m))"
    using assms(2) by (auto simp: m_def purge_key_def periodic_cleanup_def cleanup_all_def
        distinct_update distinct_filter_map simp del: filter_map)
  moreover have "key \<in> fst ` set (tracker m)" by (simp add: m_def purge_key_def dom_update)
  ultimately have "times_of (remove_oldest_keys m) key = []"
    using assms(5) by (rule forgotten_key_removed)
  moreover have "limit_size m = remove_oldest_keys m" using assms(4) by (simp add: limit_size_def m_def)
  moreover have "max_requests (remove_oldest_keys m) = max_requests l"
    by (simp add: remove_oldest_keys_def m_def Let_def)
  ultimately show ?thesis
    using True assms(3) by (simp add: check_def times_of_check_limit m_def [symmetric])
qed (simp add: check_def)

text \<open>With room for two destinations and one request a minute to each, a third destination in
  between makes the limiter admit the first one twice within the minute.\<close>

lemma overflow_exceeds_limit:
  "times_for ''h'' (admitted (limiter_init True 1 60 2 0) [(1, ''h''), (2, ''a''), (3, ''b''), (4, ''h'')])
   = [1, 4]"
  by code_simp

text \<open>Below the limit a request is admitted: a destination with fewer than \<open>max_requests\<close>
  remembered times in the window is never refused.\<close>

theorem below_limit_admitted:
  assumes "length (recent l now (times_of l key)) < max_requests l" "tracker_ok l"
  shows "snd (check now key l)"
proof (cases "enabled l")
  case True
  let ?q = "purge_key now key (periodic_cleanup now l)"
  have tq: "times_of ?q key = recent l now (times_of l key)"
    using times_of_periodic [of l now key] assms(2)
    by (auto simp: times_of_purge recent_recent tracker_ok_def)
  have le: "length (times_of (limit_size m) key) \<le> length (times_of m key)" for m
    by (simp add: limit_size_def remove_oldest_keys_def times_of_def Let_def map_of_fold_delete)
  have mr: "max_requests (limit_size m) = max_requests m" for m
    by (simp add: limit_size_def remove_oldest_keys_def Let_def)
  have "length (times_of (limit_size ?q) key) < max_requests (limit_size ?q)"
    using le [of ?q] mr [of ?q] tq assms(1) by simp
  with True show ?thesis by (simp add: check_def times_of_check_limit)
qed (simp add: check_def)

theorem rate_limit_enforced_witness:
  "length (filter (\<lambda>t. 4 - t < 60) (times_for ''h'' (admitted (limiter_init True 3 60 1000 0)
     [(1, ''h''), (2, ''h''), (3, ''h''), (4, ''h'')]))) \<le> 3"
  using rate_limit_enforced [of 0 "[(1, ''h''), (2, ''h''), (3, ''h''), (4, ''h'')]" 1000 60 "''h''" 3]
  by simp

theorem below_limit_admitted_witness:
  "snd (check 5 ''h'' (limiter_init True 3 60 1000 0))"
  by (rule below_limit_admitted) (simp_all add: limiter_init_def times_of_def recent_def tracker_ok_def)

end
