(* ===== verification/Auth.thy ===== *)
theory Auth
  imports Prelude
begin

section \<open>Password authentication\<close>

text \<open>
  Model of \<open>core/auth.py\<close>. \<open>UserDB\<close> is an ordered dictionary from a pair of rules to a policy;
  the matching of a compiled regular expression is a parameter \<open>rx\<close> (pattern, ignore-case flag,
  data), everything around it is modelled. \<open>AuthRandom\<close> keeps a record per source address; what
  the code keeps in a JSON file is the state here, and \<open>randint\<close> is an argument reduced to its
  range.
\<close>

subsection \<open>UserDB\<close>

datatype rule = Bytes string | Pattern string bool

type_synonym userdb = "((rule \<times> rule) \<times> bool) list"

definition match_rule :: "(string \<Rightarrow> bool \<Rightarrow> string \<Rightarrow> bool) \<Rightarrow> rule \<Rightarrow> string \<Rightarrow> bool" where
  "match_rule rx r data =
     (case r of
        Bytes b \<Rightarrow> b = ''*'' \<or> b = data
      | Pattern p i \<Rightarrow> rx p i data)"

text \<open>
  The rule syntax \<open>/(.+)/(i)?$\<close>: the text between the first and the last slash, which must not be
  empty nor contain a newline, then an optional \<open>i\<close> and an optional final newline.
\<close>

definition re_or_bytes :: "string \<Rightarrow> rule" where
  "re_or_bytes r =
     (case r of
        c # body \<Rightarrow>
          let post = rev (takeWhile (\<lambda>x. x \<noteq> CHR ''/'') (rev body));
              pre = take (length body - Suc (length post)) body
          in if c = CHR ''/'' \<and> CHR ''/'' \<in> set body \<and> pre \<noteq> [] \<and> CHR 0x0A \<notin> set pre
                \<and> post \<in> {[], ''i'', [CHR 0x0A], ''i'' @ [CHR 0x0A]}
             then Pattern pre (starts_with post ''i'') else Bytes r
      | [] \<Rightarrow> Bytes r)"

definition adduser :: "string \<Rightarrow> string \<Rightarrow> userdb \<Rightarrow> userdb res" where
  "adduser login passwd db =
     (case passwd of
        [] \<Rightarrow> Inl IndexError
      | c # rest \<Rightarrow>
          let policy = (c \<noteq> CHR ''!'');
              p = re_or_bytes (if policy then passwd else rest)
          in Inr (AList.update (re_or_bytes login, p) policy db))"

text \<open>
  One line of \<open>userdb.txt\<close>: comments and lines with fewer than three fields are skipped; an error
  of \<open>adduser\<close> is outside the \<open>try\<close> and ends the loading.
\<close>

definition load_line :: "string \<Rightarrow> userdb \<Rightarrow> userdb res" where
  "load_line user db =
     (if starts_with user ''#'' then Inr db
      else let fields = split_on (CHR '':'') user
           in if length fields < 3 then Inr db
              else adduser (fields ! 0) (strip_chars is_space (fields ! 2)) db)"

fun load_lines :: "string list \<Rightarrow> userdb \<Rightarrow> userdb res" where
  "load_lines [] db = Inr db"
| "load_lines (u # us) db = rbind (load_line u db) (load_lines us)"

definition userdb_defaults :: "string list" where
  "userdb_defaults =
     [''root:x:!root'', ''root:x:!123456'', ''root:x:!/honeypot/i'', ''root:x:*'', ''phil:x:*'',
      ''phil:x:fout'']"

definition load :: "string list option \<Rightarrow> userdb res" where
  "load dblines = load_lines (case dblines of None \<Rightarrow> userdb_defaults | Some ls \<Rightarrow> ls) []"

fun checklogin :: "(string \<Rightarrow> bool \<Rightarrow> string \<Rightarrow> bool) \<Rightarrow> userdb \<Rightarrow> string \<Rightarrow> string \<Rightarrow> bool" where
  "checklogin rx [] thelogin thepasswd = False"
| "checklogin rx (((login, passwd), policy) # db) thelogin thepasswd =
     (if match_rule rx login thelogin \<and> match_rule rx passwd thepasswd then policy
      else checklogin rx db thelogin thepasswd)"

lemma checklogin_skip:
  "(\<forall>((l, q), _) \<in> set as. \<not> (match_rule rx l u \<and> match_rule rx q p))
   \<Longrightarrow> checklogin rx (as @ bs) u p = checklogin rx bs u p"
  by (induction as) auto

text \<open>C40: The first rule of the user database that matches both name and password decides: a
  login succeeds exactly if some allowing rule matches and no rule before it does, so a denying
  rule in front of an allowing one wins.\<close>

theorem checklogin_first_match:
  "checklogin rx db u p \<longleftrightarrow>
     (\<exists>as l q bs. db = as @ ((l, q), True) # bs \<and> match_rule rx l u \<and> match_rule rx q p
       \<and> list_all (\<lambda>((l', q'), _). \<not> (match_rule rx l' u \<and> match_rule rx q' p)) as)"
  (is "_ \<longleftrightarrow> ?R db")
proof (induction db)
  case Nil
  then show ?case by simp
next
  case (Cons e db)
  obtain l q pol where e: "e = ((l, q), pol)" by (cases e) auto
  show ?case
  proof (cases "match_rule rx l u \<and> match_rule rx q p")
    case True
    have "?R (e # db) \<longleftrightarrow> pol"
    proof
      assume "?R (e # db)"
      then obtain as l' q' bs where d: "e # db = as @ ((l', q'), True) # bs"
        and n: "list_all (\<lambda>((l', q'), _). \<not> (match_rule rx l' u \<and> match_rule rx q' p)) as" by blast
      from n True have "as = []" by (cases as) (use d e in auto)
      with d e show pol by simp
    next
      assume pol
      with True e show "?R (e # db)" by (intro exI [of _ "[]"]) auto
    qed
    with True e show ?thesis by simp
  next
    case False
    have "?R (e # db) \<longleftrightarrow> ?R db"
    proof
      assume "?R (e # db)"
      then obtain as l' q' bs where d: "e # db = as @ ((l', q'), True) # bs"
        and m: "match_rule rx l' u" "match_rule rx q' p"
        and n: "list_all (\<lambda>((l', q'), _). \<not> (match_rule rx l' u \<and> match_rule rx q' p)) as" by blast
      from d m False e obtain as' where "as = e # as'" by (cases as) auto
      with d m n show "?R db" by auto
    next
      assume "?R db"
      then obtain as l' q' bs where d: "db = as @ ((l', q'), True) # bs"
        and m: "match_rule rx l' u" "match_rule rx q' p"
        and n: "list_all (\<lambda>((l', q'), _). \<not> (match_rule rx l' u \<and> match_rule rx q' p)) as" by blast
      then show "?R (e # db)"
        using False e by (intro exI [of _ "e # as"] exI [of _ l'] exI [of _ q'] exI [of _ bs]) auto
    qed
    moreover have "checklogin rx (e # db) u p = checklogin rx db u p"
      using False e by auto
    ultimately show ?thesis using Cons.IH by blast
  qed
qed

lemma load_defaults:
  "load None = Inr
     [((Bytes ''root'', Bytes ''root''), False), ((Bytes ''root'', Bytes ''123456''), False),
      ((Bytes ''root'', Pattern ''honeypot'' True), False), ((Bytes ''root'', Bytes ''*''), True),
      ((Bytes ''phil'', Bytes ''*''), True), ((Bytes ''phil'', Bytes ''fout''), True)]"
  by (simp add: load_def userdb_defaults_def load_line_def adduser_def re_or_bytes_def Let_def
      strip_chars_def rstrip_chars_def lstrip_chars_def is_space_def)

text \<open>What the built-in user database admits when no \<open>userdb.txt\<close> can be read: user root
  with any password but root, 123456 and whatever matches honeypot, user phil with any password,
  and nobody else.\<close>

theorem default_logins:
  "\<exists>db. load None = Inr db \<and> (\<forall>rx u p. checklogin rx db u p \<longleftrightarrow>
     u = ''root'' \<and> p \<noteq> ''root'' \<and> p \<noteq> ''123456'' \<and> \<not> rx ''honeypot'' True p \<or> u = ''phil'')"
  unfolding load_defaults by (auto simp: match_rule_def)

text \<open>A \<open>userdb.txt\<close> line with an empty password field is not skipped like other malformed
  lines: it raises an IndexError out of the constructor, whatever the other lines are.\<close>

theorem empty_password_line_raises:
  assumes "load_lines as [] = Inr db" "\<not> starts_with u ''#''" "2 < length (split_on (CHR '':'') u)"
    "strip_chars is_space (split_on (CHR '':'') u ! 2) = []"
  shows "load (Some (as @ u # bs)) = Inl IndexError"
proof -
  have run: "load_lines (as @ r) d = rbind (load_lines as d) (load_lines r)" for r d
  proof (induction as arbitrary: d)
    case Nil
    then show ?case by simp
  next
    case (Cons a as)
    then show ?case by (cases "load_line a d") simp_all
  qed
  have "load_line u db = Inl IndexError"
    using assms(2-4) by (simp add: load_line_def adduser_def)
  then show ?thesis by (simp add: load_def run assms(1))
qed

theorem empty_password_line_raises_witness:
  "load (Some [''root:x:toor'', ''bob:x:'']) = Inl IndexError"
proof -
  have "load_lines [''root:x:toor''] [] = Inr [((Bytes ''root'', Bytes ''toor''), True)]"
    by (simp add: load_line_def adduser_def re_or_bytes_def Let_def
        strip_chars_def rstrip_chars_def lstrip_chars_def is_space_def)
  then have "load (Some ([''root:x:toor''] @ ''bob:x:'' # [])) = Inl IndexError"
    by (rule empty_password_line_raises)
      (simp_all add: strip_chars_def rstrip_chars_def lstrip_chars_def)
  then show ?thesis by simp
qed

subsection \<open>AuthRandom\<close>

text \<open>A Python value that is \<open>bytes\<close> or \<open>str\<close>: the two are never equal.\<close>

datatype pyval = PBytes string | PStr string

text \<open>\<open>str(b)\<close> of a \<open>bytes\<close>: its literal.\<close>

definition escape_byte :: "char \<Rightarrow> char \<Rightarrow> string" where
  "escape_byte quote c =
     (let n = (of_char c :: nat);
          hex = (\<lambda>d. if d < 10 then char_of (48 + d) else char_of (87 + d))
      in if c = quote \<or> n = 92 then [CHR 0x5C, c]
         else if n = 9 then [CHR 0x5C, CHR ''t'']
         else if n = 10 then [CHR 0x5C, CHR ''n'']
         else if n = 13 then [CHR 0x5C, CHR ''r'']
         else if n < 32 \<or> 127 \<le> n then [CHR 0x5C, CHR ''x'', hex (n div 16), hex (n mod 16)]
         else [c])"

definition bytes_repr :: "string \<Rightarrow> string" where
  "bytes_repr b =
     (let quote = (if CHR 0x27 \<in> set b \<and> CHR 0x22 \<notin> set b then CHR 0x22 else CHR 0x27)
      in CHR ''b'' # quote # concat (map (escape_byte quote) b) @ [quote])"

record ipinfo =
  ip_try :: "nat option"
  ip_max :: "int option"
  ip_tried :: "string list option"
  ip_user :: "string option"
  ip_pw :: "string option"

record auth_random =
  mintry :: int
  maxtry :: int
  maxcache :: nat
  cache :: "string list"
  uservar :: "(string \<times> ipinfo) list"

definition auth_random_init :: "(int \<times> int \<times> nat) option \<Rightarrow> auth_random" where
  "auth_random_init parameters =
     (let (mi, ma, mc) = (case parameters of None \<Rightarrow> (2, 5, 10) | Some p \<Rightarrow> p)
      in \<lparr>mintry = mi, maxtry = (if ma < mi then mi + 1 else ma), maxcache = mc, cache = [],
          uservar = []\<rparr>)"

text \<open>\<open>randint(mintry, maxtry)\<close> with the random number \<open>r\<close>.\<close>

definition draw_need :: "int \<Rightarrow> auth_random \<Rightarrow> int" where
  "draw_need r a = mintry a + r mod (maxtry a - mintry a + 1)"

definition save_ip :: "string \<Rightarrow> ipinfo \<Rightarrow> auth_random \<Rightarrow> auth_random" where
  "save_ip ip info a = a\<lparr>uservar := AList.update ip info (uservar a)\<rparr>"

definition cached_login :: "string \<Rightarrow> string \<Rightarrow> ipinfo \<Rightarrow> ipinfo" where
  "cached_login u p info = info\<lparr>ip_max := Some 1, ip_user := Some (bytes_repr u), ip_pw := Some (bytes_repr p)\<rparr>"

text \<open>The part of \<open>checklogin\<close> behind the cache: the missing variables, then the count.\<close>

definition fill_ipinfo :: "int \<Rightarrow> auth_random \<Rightarrow> ipinfo \<Rightarrow> int \<times> nat \<times> string list" where
  "fill_ipinfo r a info =
     (case ip_max info of None \<Rightarrow> draw_need r a | Some m \<Rightarrow> m,
      case ip_try info of None \<Rightarrow> 0 | Some t \<Rightarrow> t,
      case ip_tried info of None \<Rightarrow> [] | Some ts \<Rightarrow> ts)"

definition count_attempt :: "int \<Rightarrow> string \<Rightarrow> string \<Rightarrow> string \<Rightarrow> ipinfo \<Rightarrow> auth_random \<Rightarrow> auth_random \<times> bool" where
  "count_attempt r u p ip info a =
     (let userpass = bytes_repr u @ '':'' @ bytes_repr p;
          (need, tried_n, tried) = fill_ipinfo r a info;
          info1 = info\<lparr>ip_max := Some need, ip_try := Some tried_n, ip_tried := Some tried\<rparr>
      in if userpass \<in> set tried then (save_ip ip info1 a, False)
         else
           let attempts = Suc tried_n; info2 = info1\<lparr>ip_try := Some attempts\<rparr>
           in if int attempts < need
              then (save_ip ip (info2\<lparr>ip_tried := Some (tried @ [userpass])\<rparr>) a, False)
              else if int attempts = need
              then
                let cache1 = cache a @ [userpass];
                    cache2 = (if length cache1 > maxcache a then tl cache1 else cache1)
                in (save_ip ip (info2\<lparr>ip_user := Some (bytes_repr u), ip_pw := Some (bytes_repr p)\<rparr>)
                      (a\<lparr>cache := cache2\<rparr>), True)
              else (case (ip_user info2, ip_pw info2) of
                  (Some user, Some pw) \<Rightarrow>
                    (save_ip ip info2 a, PBytes u = PStr user \<and> PStr (bytes_repr p) = PStr pw)
                | _ \<Rightarrow> (save_ip ip (info2\<lparr>ip_tried := Some (tried @ [userpass]), ip_try := Some 1\<rparr>) a, False)))"

definition random_checklogin :: "int \<Rightarrow> string \<Rightarrow> string \<Rightarrow> string \<Rightarrow> auth_random \<Rightarrow> auth_random \<times> bool" where
  "random_checklogin r u p src_ip a =
     (let userpass = bytes_repr u @ '':'' @ bytes_repr p in
      case map_of (uservar a) src_ip of
        None \<Rightarrow>
          let ipinfo = \<lparr>ip_try = Some 0, ip_max = None, ip_tried = None, ip_user = None, ip_pw = None\<rparr>
          in if userpass \<in> set (cache a) then (save_ip src_ip (cached_login u p ipinfo) a, True)
             else count_attempt r u p src_ip (ipinfo\<lparr>ip_max := Some (draw_need r a)\<rparr>) a
      | Some ipinfo \<Rightarrow>
          if userpass \<in> set (cache a) then (save_ip src_ip (cached_login u p ipinfo) a, True)
          else count_attempt r u p src_ip ipinfo a)"

abbreviation userpass :: "string \<Rightarrow> string \<Rightarrow> string" where
  "userpass u p \<equiv> bytes_repr u @ '':'' @ bytes_repr p"

lemma map_of_save_ip [simp]:
  "map_of (uservar (save_ip ip info a)) = (map_of (uservar a))(ip \<mapsto> info)"
  "cache (save_ip ip info a) = cache a" "maxcache (save_ip ip info a) = maxcache a"
  by (simp_all add: save_ip_def map_of_alist_update)

text \<open>A source that has used up its attempts is never let in by its stored credentials: the
  code compares the \<open>bytes\<close> user name with the stored text, which is always unequal. Unless the
  pair is still in the shared cache, the login is refused, also with the pair that succeeded.\<close>

theorem returning_login_refused:
  assumes "map_of (uservar a) ip = Some info" "userpass u p \<notin> set (cache a)"
    "ip_max info = Some m" "ip_try info = Some t" "m \<le> int t"
  shows "\<not> snd (random_checklogin r u p ip a)"
  using assms
  by (auto simp: random_checklogin_def count_attempt_def fill_ipinfo_def Let_def
      split: option.splits prod.splits)

theorem returning_login_refused_witness:
  "\<not> snd (random_checklogin 0 ''root'' ''pw'' ''1.2.3.4''
     \<lparr>mintry = 2, maxtry = 5, maxcache = 0, cache = [], uservar = [(''1.2.3.4'',
        \<lparr>ip_try = Some 2, ip_max = Some 2, ip_tried = Some [], ip_user = Some (bytes_repr ''root''),
         ip_pw = Some (bytes_repr ''pw'')\<rparr>)]\<rparr>)"
  by (rule returning_login_refused [where m = 2 and t = 2], simp) simp_all

text \<open>The cache stays within \<open>maxcache\<close>.\<close>

definition cache_ok :: "auth_random \<Rightarrow> bool" where
  "cache_ok a \<longleftrightarrow> length (cache a) \<le> maxcache a"

lemma random_checklogin_cache:
  "cache_ok a \<Longrightarrow> cache_ok (fst (random_checklogin r u p ip a))"
  by (auto simp: cache_ok_def random_checklogin_def count_attempt_def fill_ipinfo_def Let_def
      save_ip_def split: option.splits prod.splits)

interpretation random_auth: machine
  "\<lambda>a (r, u, p, ip). fst (random_checklogin r u p ip a)" cache_ok
  by unfold_locales (auto simp: random_checklogin_cache)

text \<open>However many logins there are, the shared cache of successful pairs never holds more
  than \<open>maxcache\<close> of them.\<close>

theorem login_cache_bounded:
  "length (cache (foldl (\<lambda>a (r, u, p, ip). fst (random_checklogin r u p ip a)) (auth_random_init ps) es))
   \<le> maxcache (foldl (\<lambda>a (r, u, p, ip). fst (random_checklogin r u p ip a)) (auth_random_init ps) es)"
proof -
  have "cache_ok (auth_random_init ps)"
    by (simp add: cache_ok_def auth_random_init_def split: prod.splits)
  then show ?thesis using random_auth.run_inv unfolding cache_ok_def by blast
qed

fun attempts :: "(int \<times> string \<times> string) list \<Rightarrow> string \<Rightarrow> auth_random \<Rightarrow> bool list" where
  "attempts [] ip a = []"
| "attempts ((r, u, p) # cs) ip a =
     snd (random_checklogin r u p ip a) # attempts cs ip (fst (random_checklogin r u p ip a))"

lemma count_attempt_below:
  assumes "fill_ipinfo r a info = (need, t, ts)" "userpass u p \<notin> set ts" "int (Suc t) < need"
  shows "\<exists>info'. count_attempt r u p ip info a = (save_ip ip info' a, False)
    \<and> ip_max info' = Some need \<and> ip_try info' = Some (Suc t) \<and> ip_tried info' = Some (ts @ [userpass u p])"
  using assms by (simp add: count_attempt_def Let_def) (rule exI, rule conjI, rule refl, simp)

lemma count_attempt_at:
  assumes "fill_ipinfo r a info = (need, t, ts)" "userpass u p \<notin> set ts" "int (Suc t) = need"
  shows "snd (count_attempt r u p ip info a)"
  using assms by (simp add: count_attempt_def Let_def)

lemma attempts_from:
  assumes "map_of (uservar a) ip = Some info" "ip_max info = Some need" "ip_try info = Some t"
    "ip_tried info = Some ts" "cs \<noteq> []" "int (t + length cs) = need"
    "distinct (map (\<lambda>(r, u, p). userpass u p) cs)"
    "\<forall>(r, u, p) \<in> set cs. userpass u p \<notin> set ts \<union> set (cache a)"
  shows "attempts cs ip a = replicate (length cs - 1) False @ [True]"
  using assms
proof (induction cs arbitrary: a info t ts)
  case Nil
  then show ?case by simp
next
  case (Cons c cs)
  obtain r u p where c: "c = (r, u, p)" by (cases c)
  have rc: "random_checklogin r u p ip a = count_attempt r u p ip info a"
    using Cons.prems c by (simp add: random_checklogin_def Let_def)
  have fill: "fill_ipinfo r a info = (need, t, ts)"
    using Cons.prems by (simp add: fill_ipinfo_def)
  have nt: "userpass u p \<notin> set ts" using Cons.prems(8) c by simp
  show ?case
  proof (cases cs)
    case Nil
    then show ?thesis
      using count_attempt_at [OF fill nt] Cons.prems(6) c rc by simp
  next
    case (Cons d ds)
    then have "int (Suc t) < need" using Cons.prems(6) by simp
    from count_attempt_below [OF fill nt this, of ip] obtain info' where
      info': "count_attempt r u p ip info a = (save_ip ip info' a, False)" "ip_max info' = Some need"
        "ip_try info' = Some (Suc t)" "ip_tried info' = Some (ts @ [userpass u p])" by blast
    have "attempts cs ip (save_ip ip info' a) = replicate (length cs - 1) False @ [True]"
      using Cons.prems c info' Cons
      by (intro Cons.IH [of _ info' "Suc t" "ts @ [userpass u p]"]) (auto simp: image_iff split: prod.splits)
    then show ?thesis using c rc info'(1) Cons by simp
  qed
qed

text \<open>A source address seen for the first time is let in at exactly the attempt drawn for it:
  with as many different pairs as drawn, none of them cached, every attempt but the last is
  refused and the last succeeds.\<close>

theorem new_source_admitted_at_draw:
  assumes "map_of (uservar a) ip = None" "draw_need (fst (hd cs)) a = int (length cs)" "cs \<noteq> []"
    "distinct (map (\<lambda>(r, u, p). userpass u p) cs)"
    "\<forall>(r, u, p) \<in> set cs. userpass u p \<notin> set (cache a)"
  shows "attempts cs ip a = replicate (length cs - 1) False @ [True]"
proof -
  obtain r u p cs' where cs: "cs = (r, u, p) # cs'"
    using assms(3) by (cases cs) auto
  define info where "info = \<lparr>ip_try = Some 0, ip_max = Some (draw_need r a), ip_tried = None,
    ip_user = None, ip_pw = None\<rparr>"
  have rc: "random_checklogin r u p ip a = count_attempt r u p ip info a"
    using assms(1,5) cs by (simp add: random_checklogin_def Let_def info_def)
  have fill: "fill_ipinfo r a info = (draw_need r a, 0, [])"
    by (simp add: fill_ipinfo_def info_def)
  show ?thesis
  proof (cases cs')
    case Nil
    then show ?thesis
      using count_attempt_at [OF fill] assms(2) cs rc by simp
  next
    case (Cons d ds)
    then have "int (Suc 0) < draw_need r a" using assms(2) cs by simp
    from count_attempt_below [OF fill _ this, of u p ip] obtain info' where
      info': "count_attempt r u p ip info a = (save_ip ip info' a, False)"
        "ip_max info' = Some (draw_need r a)" "ip_try info' = Some 1" "ip_tried info' = Some [userpass u p]"
      by auto
    have "attempts cs' ip (save_ip ip info' a) = replicate (length cs' - 1) False @ [True]"
      using assms cs Cons info'
      by (intro attempts_from [of _ _ info' "draw_need r a" 1 "[userpass u p]"])
        (auto simp: image_iff split: prod.splits)
    then show ?thesis using cs rc info'(1) Cons by simp
  qed
qed

theorem new_source_admitted_at_draw_witness:
  "attempts [(0, ''root'', ''a''), (0, ''root'', ''b'')] ''1.2.3.4'' (auth_random_init None) = [False, True]"
proof -
  have "attempts [(0, ''root'', ''a''), (0, ''root'', ''b'')] ''1.2.3.4'' (auth_random_init None)
    = replicate (length [(0 :: int, ''root'', ''a''), (0, ''root'', ''b'')] - 1) False @ [True]"
    by (rule new_source_admitted_at_draw)
      (simp_all add: auth_random_init_def draw_need_def bytes_repr_def escape_byte_def Let_def)
  then show ?thesis by simp
qed

end
