(* ===== verification/Tty_Log.thy ===== *)
theory Tty_Log
  imports Prelude
begin

section \<open>Session recordings\<close>

text \<open>
  Model of \<open>core/ttylog.py\<close> (writing a recording and hashing its input side) and of the replay
  loop of \<open>scripts/asciinema.py\<close>. A recording is its bytes; a record is a header packed as
  \<open><iLiiLL\<close> (24 bytes, little-endian) and its data. SHA-256 is a parameter.
\<close>

subsection \<open>Headers\<close>

record tty_header =
  h_op :: int
  h_tty :: int
  h_length :: int
  h_direction :: int
  h_sec :: int
  h_usec :: int

definition OP_OPEN :: int where "OP_OPEN = 1"
definition OP_CLOSE :: int where "OP_CLOSE = 2"
definition OP_WRITE :: int where "OP_WRITE = 3"
definition TYPE_INPUT :: int where "TYPE_INPUT = 1"
definition TYPE_OUTPUT :: int where "TYPE_OUTPUT = 2"
definition TYPE_INTERACT :: int where "TYPE_INTERACT = 3"

lemmas tty_consts = OP_OPEN_def OP_CLOSE_def OP_WRITE_def TYPE_INPUT_def TYPE_OUTPUT_def
  TYPE_INTERACT_def

text \<open>The struct codes \<open>i\<close> and \<open>L\<close> in standard size, little-endian.\<close>

definition pack_i :: "int \<Rightarrow> string res" where
  "pack_i n = (if - (2 ^ 31) \<le> n \<and> n < 2 ^ 31 then Inr (rev (pack_be 4 (nat (n mod 2 ^ 32))))
               else Inl StructError)"

definition pack_L :: "int \<Rightarrow> string res" where
  "pack_L n = (if 0 \<le> n \<and> n < 2 ^ 32 then Inr (rev (pack_be 4 (nat n))) else Inl StructError)"

definition unpack_L :: "string \<Rightarrow> int" where
  "unpack_L s = int (unpack_be (rev s))"

definition unpack_i :: "string \<Rightarrow> int" where
  "unpack_i s = (let u = unpack_L s in if u \<ge> 2 ^ 31 then u - 2 ^ 32 else u)"

lemma pack_L_Inr:
  "pack_L n = Inr s \<Longrightarrow> length s = 4 \<and> unpack_L s = n"
  by (auto simp: pack_L_def unpack_L_def unpack_pack_be nat_less_iff split: if_splits)

lemma pack_i_Inr:
  assumes "pack_i n = Inr s"
  shows "length s = 4 \<and> unpack_i s = n"
proof -
  from assms have n: "- (2 ^ 31) \<le> n" "n < 2 ^ 31" and s: "s = rev (pack_be 4 (nat (n mod 2 ^ 32)))"
    by (auto simp: pack_i_def split: if_splits)
  have "nat (n mod 2 ^ 32) < 256 ^ 4" by (simp add: nat_less_iff)
  then have u: "unpack_L s = n mod 2 ^ 32"
    by (simp add: s unpack_L_def unpack_pack_be)
  have "(if n mod 2 ^ 32 \<ge> 2 ^ 31 then n mod 2 ^ 32 - 2 ^ 32 else n mod 2 ^ 32) = n"
  proof (cases "0 \<le> n")
    case True
    with n show ?thesis by (simp add: mod_pos_pos_trivial)
  next
    case False
    have "n mod 2 ^ 32 = (n + 2 ^ 32) mod 2 ^ 32" by simp
    also have "\<dots> = n + 2 ^ 32" using False n by (intro mod_pos_pos_trivial) simp_all
    finally show ?thesis using False n by simp
  qed
  then have "unpack_i s = n" unfolding unpack_i_def Let_def u .
  then show ?thesis by (simp add: s)
qed

definition pack_header :: "tty_header \<Rightarrow> string res" where
  "pack_header h =
     rbind (pack_i (h_op h)) (\<lambda>a. rbind (pack_L (h_tty h)) (\<lambda>b. rbind (pack_i (h_length h)) (\<lambda>c.
     rbind (pack_i (h_direction h)) (\<lambda>d. rbind (pack_L (h_sec h)) (\<lambda>e. rbind (pack_L (h_usec h)) (\<lambda>f.
       Inr (a @ b @ c @ d @ e @ f)))))))"

definition unpack_header :: "string \<Rightarrow> tty_header res" where
  "unpack_header s =
     (if length s = 24
      then Inr \<lparr>h_op = unpack_i (take 4 s), h_tty = unpack_L (take 4 (drop 4 s)),
             h_length = unpack_i (take 4 (drop 8 s)), h_direction = unpack_i (take 4 (drop 12 s)),
             h_sec = unpack_L (take 4 (drop 16 s)), h_usec = unpack_L (take 4 (drop 20 s))\<rparr>
      else Inl StructError)"

lemma unpack_pack_header:
  assumes "pack_header h = Inr s"
  shows "length s = 24 \<and> unpack_header s = Inr h"
proof -
  from assms obtain a b c d e f where p: "pack_i (h_op h) = Inr a" "pack_L (h_tty h) = Inr b"
    "pack_i (h_length h) = Inr c" "pack_i (h_direction h) = Inr d" "pack_L (h_sec h) = Inr e"
    "pack_L (h_usec h) = Inr f" and s: "s = a @ b @ c @ d @ e @ f"
    by (auto simp: pack_header_def rbind_Inr_iff)
  note fs = pack_i_Inr [OF p(1)] pack_L_Inr [OF p(2)] pack_i_Inr [OF p(3)] pack_i_Inr [OF p(4)]
    pack_L_Inr [OF p(5)] pack_L_Inr [OF p(6)]
  then show ?thesis by (cases h) (simp add: unpack_header_def s)
qed

subsection \<open>Writing\<close>

text \<open>\<open>int(x)\<close> of a float: towards zero.\<close>

definition py_int :: "rat \<Rightarrow> int" where
  "py_int x = (if 0 \<le> x then \<lfloor>x\<rfloor> else \<lceil>x\<rceil>)"

definition stamp_header :: "int \<Rightarrow> int \<Rightarrow> int \<Rightarrow> rat \<Rightarrow> tty_header" where
  "stamp_header op len dir stamp =
     \<lparr>h_op = op, h_tty = 0, h_length = len, h_direction = dir, h_sec = py_int stamp,
      h_usec = py_int (1000000 * (stamp - of_int (py_int stamp)))\<rparr>"

definition ttylog_open :: "rat \<Rightarrow> string \<Rightarrow> string res" where
  "ttylog_open stamp file = rbind (pack_header (stamp_header OP_OPEN 0 0 stamp)) (\<lambda>h. Inr (file @ h))"

definition ttylog_write :: "int \<Rightarrow> int \<Rightarrow> rat \<Rightarrow> string \<Rightarrow> string \<Rightarrow> string res" where
  "ttylog_write len direction stamp data file =
     rbind (pack_header (stamp_header OP_WRITE len direction stamp)) (\<lambda>h. Inr (file @ h @ data))"

definition ttylog_close :: "rat \<Rightarrow> string \<Rightarrow> string res" where
  "ttylog_close stamp file = rbind (pack_header (stamp_header OP_CLOSE 0 0 stamp)) (\<lambda>h. Inr (file @ h))"

subsection \<open>Reading\<close>

text \<open>\<open>fd.read(n)\<close>: a negative \<open>n\<close> reads to the end.\<close>

definition fd_read :: "int \<Rightarrow> string \<Rightarrow> string \<times> string" where
  "fd_read n s = (if n < 0 then (s, []) else (take (nat n) s, drop (nat n) s))"

lemma fd_read_length: "length (snd (fd_read n s)) \<le> length s"
  by (simp add: fd_read_def)

function parse_records :: "string \<Rightarrow> (tty_header \<times> string) list" where
  "parse_records s =
     (case unpack_header (take 24 s) of
        Inl _ \<Rightarrow> []
      | Inr h \<Rightarrow>
          (let (data, rest) = fd_read (h_length h) (drop 24 s) in (h, data) # parse_records rest))"
  by pat_completeness auto

termination
proof (relation "measure length")
  fix s h x data rest
  assume "unpack_header (take 24 s) = Inr h" "x = fd_read (h_length h) (drop 24 s)" "(data, rest) = x"
  then have "24 \<le> length s" "length rest \<le> length (drop 24 s)"
    using fd_read_length [of "h_length h" "drop 24 s"]
    by (auto simp: unpack_header_def split: if_splits, metis snd_conv)
  then show "(rest, s) \<in> measure length" by simp
qed simp

declare parse_records.simps [simp del]

fun input_bytes :: "(tty_header \<times> string) list \<Rightarrow> string" where
  "input_bytes [] = []"
| "input_bytes ((h, data) # rs) =
     (if h_op h = OP_WRITE \<and> h_direction h = TYPE_OUTPUT then input_bytes rs else data @ input_bytes rs)"

definition ttylog_inputhash :: "(string \<Rightarrow> string) \<Rightarrow> string \<Rightarrow> string" where
  "ttylog_inputhash sha256 file = sha256 (input_bytes (parse_records file))"

lemma parse_records_Nil [simp]: "parse_records [] = []"
  by (simp add: parse_records.simps unpack_header_def)

lemma parse_records_cons:
  assumes "pack_header h = Inr s" "h_length h = int (length data)"
  shows "parse_records (s @ data @ rest) = (h, data) # parse_records rest"
  using unpack_pack_header [OF assms(1)] assms(2)
  by (simp add: parse_records.simps [of "s @ data @ rest"] fd_read_def)

text \<open>What the session wrote: each event with its stamp.\<close>

datatype tty_event = Tty_open rat | Tty_write int rat string | Tty_close rat

fun log_event :: "tty_event \<Rightarrow> string \<Rightarrow> string res" where
  "log_event (Tty_open t) file = ttylog_open t file"
| "log_event (Tty_write dir t data) file = ttylog_write (int (length data)) dir t data file"
| "log_event (Tty_close t) file = ttylog_close t file"

fun log_events :: "tty_event list \<Rightarrow> string \<Rightarrow> string res" where
  "log_events [] file = Inr file"
| "log_events (e # es) file = rbind (log_event e file) (log_events es)"

fun event_record :: "tty_event \<Rightarrow> tty_header \<times> string" where
  "event_record (Tty_open t) = (stamp_header OP_OPEN 0 0 t, [])"
| "event_record (Tty_write dir t data) = (stamp_header OP_WRITE (int (length data)) dir t, data)"
| "event_record (Tty_close t) = (stamp_header OP_CLOSE 0 0 t, [])"

lemma event_record_length: "h_length (fst (event_record e)) = int (length (snd (event_record e)))"
  by (cases e) (simp_all add: stamp_header_def)

lemma log_event_Inr:
  "log_event e file = Inr f' \<longleftrightarrow>
     (\<exists>s. pack_header (fst (event_record e)) = Inr s \<and> f' = file @ s @ snd (event_record e))"
  by (cases e) (auto simp: ttylog_open_def ttylog_write_def ttylog_close_def rbind_Inr_iff)

lemma log_events_parse:
  assumes "log_events es f0 = Inr f'"
  shows "\<exists>body. f' = f0 @ body \<and> parse_records body = map event_record es"
  using assms
proof (induction es arbitrary: f0)
  case Nil
  then show ?case by simp
next
  case (Cons e es)
  then obtain s where s: "pack_header (fst (event_record e)) = Inr s"
    and rest: "log_events es (f0 @ s @ snd (event_record e)) = Inr f'"
    by (auto simp: rbind_Inr_iff log_event_Inr)
  from Cons.IH [OF rest] obtain body where
    "f' = f0 @ s @ snd (event_record e) @ body" "parse_records body = map event_record es" by auto
  moreover have "parse_records (s @ snd (event_record e) @ body) = event_record e # parse_records body"
    using parse_records_cons [OF s event_record_length] by simp
  ultimately show ?case by (intro exI [of _ "s @ snd (event_record e) @ body"]) simp
qed

fun typed_bytes :: "tty_event list \<Rightarrow> string" where
  "typed_bytes [] = []"
| "typed_bytes (Tty_write dir t data # es) =
     (if dir = TYPE_OUTPUT then typed_bytes es else data @ typed_bytes es)"
| "typed_bytes (_ # es) = typed_bytes es"

lemma input_bytes_events: "input_bytes (map event_record es) = typed_bytes es"
  by (induction es rule: typed_bytes.induct) (simp_all add: stamp_header_def tty_consts)

text \<open>Reading a recording back gives the records that were written, in order.\<close>

theorem recording_roundtrip:
  assumes "log_events es [] = Inr file"
  shows "parse_records file = map event_record es"
  using log_events_parse [OF assms] by auto

text \<open>The hash of a recording depends on what the attacker typed and on nothing else: two
  sessions with the same input have the same hash whatever was printed and whenever it was.\<close>

theorem inputhash_only_input:
  assumes "log_events es [] = Inr file" "log_events es' [] = Inr file'"
    "typed_bytes es = typed_bytes es'"
  shows "ttylog_inputhash sha file = ttylog_inputhash sha file'
    \<and> ttylog_inputhash sha file = sha (typed_bytes es)"
  using log_events_parse [OF assms(1)] log_events_parse [OF assms(2)] assms(3)
  by (auto simp: ttylog_inputhash_def input_bytes_events)

subsection \<open>Replay\<close>

text \<open>
  The loop of \<open>asciinema.playlog\<close>: only the first terminal and the direction seen first on it are
  replayed, each piece of data with the time since the one before.
\<close>

record replay =
  currtty :: int
  prevtime :: rat
  prefdir :: int
  sleeptime :: rat
  duration :: rat
  stdout :: "(rat \<times> string) list"

definition replay_init :: replay where
  "replay_init = \<lparr>currtty = 0, prevtime = 0, prefdir = 0, sleeptime = 0, duration = 0, stdout = []\<rparr>"

definition crlf :: "string \<Rightarrow> string" where
  "crlf s = concat (map (\<lambda>c. if c = CHR 0x0A then [CHR 0x0D, CHR 0x0A] else [c]) s)"

definition header_time :: "tty_header \<Rightarrow> rat" where
  "header_time h = of_int (h_sec h) + of_int (h_usec h) / 1000000"

definition replay_write :: "tty_header \<Rightarrow> string \<Rightarrow> replay \<Rightarrow> replay res" where
  "replay_write h data r =
     (let r1 = (if prefdir r = 0 then r\<lparr>prefdir := h_direction h\<rparr> else r) in
      if h_direction h = prefdir r1
      then
        let curtime = header_time h;
            sl = (if prevtime r1 \<noteq> 0 then curtime - prevtime r1 else sleeptime r1)
        in rbind (py_decode (crlf data)) (\<lambda>d.
             Inr (r1\<lparr>sleeptime := sl, prevtime := curtime, duration := duration r1 + sl,
                     stdout := stdout r1 @ [(sl, d)]\<rparr>))
      else Inr r1)"

fun replay_loop :: "(tty_header \<times> string) list \<Rightarrow> replay \<Rightarrow> replay res" where
  "replay_loop [] r = Inr r"
| "replay_loop ((h, data) # rs) r =
     (let r1 = (if currtty r = 0 then r\<lparr>currtty := h_tty h\<rparr> else r) in
      if h_tty h = currtty r1 \<and> h_op h = OP_WRITE
      then rbind (replay_write h data r1) (replay_loop rs)
      else if h_tty h = currtty r1 \<and> h_op h = OP_CLOSE then Inr r1
      else replay_loop rs r1)"

definition asciinema_playlog :: "string \<Rightarrow> replay res" where
  "asciinema_playlog file = replay_loop (parse_records file) replay_init"

text \<open>The invariant of the replay: the total is the sum of the pauses.\<close>

definition replay_ok :: "replay \<Rightarrow> bool" where
  "replay_ok r \<longleftrightarrow> duration r = sum_list (map fst (stdout r))"

lemma replay_write_ok: "replay_ok r \<Longrightarrow> replay_write h data r = Inr r' \<Longrightarrow> replay_ok r'"
  by (auto simp: replay_ok_def replay_write_def Let_def rbind_Inr_iff split: if_splits)

lemma replay_loop_ok: "replay_ok r \<Longrightarrow> replay_loop rs r = Inr r' \<Longrightarrow> replay_ok r'"
proof (induction rs r rule: replay_loop.induct)
  case (1 r)
  then show ?case by simp
next
  case (2 h data rs r)
  define r1 where "r1 = (if currtty r = 0 then r\<lparr>currtty := h_tty h\<rparr> else r)"
  have ok1: "replay_ok r1" using "2.prems"(1) by (simp add: r1_def replay_ok_def)
  show ?case
  proof (cases "h_tty h = currtty r1 \<and> h_op h = OP_WRITE")
    case True
    with "2.prems" obtain r2 where "replay_write h data r1 = Inr r2" "replay_loop rs r2 = Inr r'"
      by (auto simp: r1_def [symmetric] Let_def rbind_Inr_iff)
    with "2.IH"(1) [OF r1_def True] ok1 replay_write_ok show ?thesis by blast
  next
    case False
    with "2.prems" "2.IH"(2) [OF r1_def False] ok1 show ?thesis
      by (auto simp: r1_def [symmetric] Let_def split: if_splits)
  qed
qed

text \<open>The duration an exported recording announces is the sum of its pauses.\<close>

lemma replay_duration:
  assumes "asciinema_playlog file = Inr r"
  shows "duration r = sum_list (map fst (stdout r))"
  using replay_loop_ok [of replay_init "parse_records file" r] assms
  by (simp add: asciinema_playlog_def replay_ok_def replay_init_def)

subsection \<open>The properties at a concrete recording\<close>

lemma sample_recording:
  "\<exists>file. log_events [Tty_open 0, Tty_write TYPE_INPUT 1 ''ls'', Tty_write TYPE_OUTPUT 2 d, Tty_close 3] [] = Inr file"
  if "length d < 100"
  using that
  by (simp add: ttylog_open_def ttylog_write_def ttylog_close_def pack_header_def stamp_header_def
      pack_i_def pack_L_def py_int_def tty_consts rbind_def)

theorem recording_roundtrip_witness:
  "\<exists>file. log_events [Tty_open 0, Tty_write TYPE_INPUT 1 ''ls'', Tty_write TYPE_OUTPUT 2 ''a'', Tty_close 3] []
     = Inr file \<and> length (parse_records file) = 4"
proof -
  obtain f where f: "log_events [Tty_open 0, Tty_write TYPE_INPUT 1 ''ls'',
      Tty_write TYPE_OUTPUT 2 ''a'', Tty_close 3] [] = Inr f"
    using sample_recording [of "''a''"] by auto
  show ?thesis using recording_roundtrip [OF f] f by simp
qed

theorem inputhash_only_input_witness:
  "\<exists>file. log_events [Tty_open 0, Tty_write TYPE_INPUT 1 ''ls'', Tty_write TYPE_OUTPUT 2 ''a'', Tty_close 3] []
     = Inr file \<and> ttylog_inputhash rev file = ''sl''"
proof -
  obtain f1 where f1: "log_events [Tty_open 0, Tty_write TYPE_INPUT 1 ''ls'',
      Tty_write TYPE_OUTPUT 2 ''a'', Tty_close 3] [] = Inr f1"
    using sample_recording [of "''a''"] by auto
  obtain f2 where f2: "log_events [Tty_open 0, Tty_write TYPE_INPUT 1 ''ls'',
      Tty_write TYPE_OUTPUT 2 ''bb'', Tty_close 3] [] = Inr f2"
    using sample_recording [of "''bb''"] by auto
  have same: "typed_bytes [Tty_open 0, Tty_write TYPE_INPUT 1 ''ls'', Tty_write TYPE_OUTPUT 2 ''a'', Tty_close 3]
      = typed_bytes [Tty_open 0, Tty_write TYPE_INPUT 1 ''ls'', Tty_write TYPE_OUTPUT 2 ''bb'', Tty_close 3]"
    by (simp add: tty_consts)
  have "ttylog_inputhash rev f1 = rev (typed_bytes [Tty_open 0, Tty_write TYPE_INPUT 1 ''ls'',
      Tty_write TYPE_OUTPUT 2 ''a'', Tty_close 3])"
    using inputhash_only_input [OF f1 f2 same, of rev] by (rule conjunct2)
  also have "\<dots> = ''sl''" by (simp add: tty_consts)
  finally show ?thesis using f1 by blast
qed

end
