(* ===== verification/Shell_Parser.thy ===== *)
theory Shell_Parser
  imports Prelude "HOL-Library.Sublist"
begin

section \<open>Parsing of redirections\<close>

text \<open>
  Model of \<open>shell/parser.py\<close>: gluing the tokens of a redirection together, and splitting a
  command's arguments into words and redirections. The digits of \<open>str.isdigit\<close> and of the
  pattern are the ASCII ones.
\<close>

datatype redirection =
    Redir_file nat string bool
  | Redir_stdin nat string
  | Redir_dup nat nat

subsection \<open>Gluing tokens\<close>

definition token_at :: "string list \<Rightarrow> nat \<Rightarrow> string option" where
  "token_at ts i = (if i < length ts then Some (ts ! i) else None)"

definition is_separator :: "string option \<Rightarrow> bool" where
  "is_separator t \<longleftrightarrow> t \<in> {None, Some ''|'', Some '';'', Some ''&&'', Some ''||''}"

text \<open>The tokens from \<open>index\<close> on: the glued token, if any, and how many tokens it takes.\<close>

definition combine_redir_sequence :: "string list \<Rightarrow> string option \<times> nat" where
  "combine_redir_sequence ts =
     (let tok = hd ts; nxt = token_at ts 1; nxt2 = token_at ts 2; nxt3 = token_at ts 3 in
      if py_isdigit tok \<and> nxt \<in> {Some ''>'', Some ''>>'', Some ''>&''}
      then
        let combined = tok @ the nxt in
        if nxt = Some ''>&'' \<and> \<not> is_separator nxt2 then (Some (combined @ the nxt2), 3)
        else if nxt \<in> {Some ''>'', Some ''>>''} \<and> nxt2 = Some ''&''
        then (if \<not> is_separator nxt3 then (Some (combined @ ''&'' @ the nxt3), 4)
              else (Some (combined @ ''&''), 3))
        else (Some combined, 2)
      else if tok \<in> {''>'', ''>>''} \<and> nxt = Some ''&'' then (Some (tok @ ''&''), 2)
      else (None, 1))"

function merge_redirection_tokens :: "string list \<Rightarrow> string list" where
  "merge_redirection_tokens [] = []"
| "merge_redirection_tokens (t # ts) =
     (case combine_redir_sequence (t # ts) of
        (Some combined, consumed) \<Rightarrow>
          if combined \<noteq> [] then combined # merge_redirection_tokens (drop (consumed - 1) ts)
          else t # merge_redirection_tokens ts
      | (None, _) \<Rightarrow> t # merge_redirection_tokens ts)"
  by pat_completeness auto
termination by (relation "measure length") auto

subsection \<open>One redirection token\<close>

text \<open>The pattern \<open>^(\d*)(>>|>&|>|<)(.*)$\<close>: the dot does not match a newline and the end may be
  followed by one.\<close>

definition redir_operator :: "string \<Rightarrow> (string \<times> string) option" where
  "redir_operator s =
     (if starts_with s ''>>'' then Some (''>>'', drop 2 s)
      else if starts_with s ''>&'' then Some (''>&'', drop 2 s)
      else if starts_with s ''>'' then Some (''>'', drop 1 s)
      else if starts_with s ''<'' then Some (''<'', drop 1 s)
      else None)"

definition extract_redir_op :: "string \<Rightarrow> (string \<times> nat option \<times> string) option" where
  "extract_redir_op token =
     (let fd_text = takeWhile is_digit token in
      case redir_operator (dropWhile is_digit token) of
        None \<Rightarrow> None
      | Some (opr, rest) \<Rightarrow>
          let inline_target = takeWhile (\<lambda>c. c \<noteq> CHR 0x0A) rest
          in if dropWhile (\<lambda>c. c \<noteq> CHR 0x0A) rest \<in> {[], [CHR 0x0A]}
             then Some (opr, if fd_text = [] then None else Some (nat_of_digits 0 fd_text), inline_target)
             else None)"

text \<open>
  One redirection: the words and redirections it adds, and how many tokens it takes. \<open>None\<close> stands
  for the missing next token; an empty target counts as one.
\<close>

definition apply_redirection ::
  "string \<Rightarrow> nat option \<Rightarrow> string \<Rightarrow> string option \<Rightarrow> string \<Rightarrow> redirection list \<times> string list \<times> nat" where
  "apply_redirection opr fd inline_target next_token raw_token =
     (let target = (if inline_target \<noteq> [] then Some inline_target else next_token);
          consume = (if inline_target \<noteq> [] then 1 else 2)
      in if opr \<in> {''>'', ''>>''} then
           (case target of
              None \<Rightarrow> ([], [raw_token], 1)
            | Some t \<Rightarrow> ([Redir_file (case fd of None \<Rightarrow> 1 | Some n \<Rightarrow> n) t (opr = ''>>'')], [], consume))
         else if opr = ''<'' then
           (case target of
              None \<Rightarrow> ([], [raw_token], 1)
            | Some t \<Rightarrow> ([Redir_stdin (case fd of None \<Rightarrow> 0 | Some n \<Rightarrow> n) t], [], consume))
         else if opr = ''>&'' then
           (case target of
              None \<Rightarrow> ([], [raw_token], 1)
            | Some t \<Rightarrow>
                if t = ''-'' then ([], [], consume)
                else if py_isdigit t
                then ([Redir_dup (case fd of None \<Rightarrow> 1 | Some n \<Rightarrow> n) (nat_of_digits 0 t)], [], consume)
                else ([], [raw_token], 1))
         else ([], [], 0))"

definition token_op :: "string \<Rightarrow> (string \<times> nat option \<times> string) option" where
  "token_op tok =
     (case extract_redir_op tok of
        None \<Rightarrow> if tok \<in> {''>'', ''>>'', ''<'', ''>&''} then Some (tok, None, []) else None
      | Some r \<Rightarrow> Some r)"

function parse_redirections :: "string list \<Rightarrow> string list \<times> redirection list" where
  "parse_redirections [] = ([], [])"
| "parse_redirections (tok # rest) =
     (case token_op tok of
        None \<Rightarrow> (let (cleaned, ops) = parse_redirections rest in (tok # cleaned, ops))
      | Some (opr, fd, inline_target) \<Rightarrow>
          (let (new_ops, words, consumed) =
                 apply_redirection opr fd inline_target (token_at (tok # rest) 1) tok
           in if consumed = 0
              then (let (cleaned, ops) = parse_redirections rest in (tok # cleaned, ops))
              else (let (cleaned, ops) = parse_redirections (drop (consumed - 1) rest)
                    in (words @ cleaned, new_ops @ ops))))"
  by pat_completeness auto
termination by (relation "measure length") auto

subsection \<open>Properties\<close>

lemma token_at_simps [simp]:
  "token_at [] i = None" "token_at (x # xs) 0 = Some x" "token_at (x # xs) (Suc i) = token_at xs i"
  by (simp_all add: token_at_def)

lemma combine_concat:
  assumes "combine_redir_sequence (t # ts) = (Some c, n)"
  shows "c = concat (take n (t # ts)) \<and> 0 < n"
proof -
  consider "ts = []" | a where "ts = [a]" | a b where "ts = [a, b]" | a b d r where "ts = a # b # d # r"
    by (metis neq_Nil_conv)
  then show ?thesis
    by cases (use assms in \<open>auto simp: combine_redir_sequence_def is_separator_def Let_def numeral_eq_Suc
        split: if_splits\<close>)
qed

text \<open>Gluing the tokens of redirections together changes only where the token boundaries are:
  the text of the command is the same before and after.\<close>

theorem merge_preserves_text:
  "concat (merge_redirection_tokens ts) = concat ts"
proof (induction ts rule: merge_redirection_tokens.induct)
  case (2 t ts)
  show ?case
  proof (cases "\<exists>c n. combine_redir_sequence (t # ts) = (Some c, n) \<and> c \<noteq> []")
    case True
    then obtain c n where c: "combine_redir_sequence (t # ts) = (Some c, n)" "c \<noteq> []" by blast
    then obtain m where n: "n = Suc m" using combine_concat [OF c(1)] by (cases n) auto
    have "concat (merge_redirection_tokens (t # ts)) = c @ concat (drop m ts)"
      using c n 2 by simp
    also have "\<dots> = concat (take n (t # ts)) @ concat (drop n (t # ts))"
      using combine_concat [OF c(1)] n by simp
    also have "\<dots> = concat (t # ts)" by (simp only: concat_append [symmetric] append_take_drop_id)
    finally show ?thesis .
  next
    case False
    obtain r n where rn: "combine_redir_sequence (t # ts) = (r, n)" by fastforce
    from False rn have "r = None \<or> r = Some []" by (cases r) auto
    then show ?thesis
    proof
      assume "r = None"
      with rn 2 show ?thesis by simp
    next
      assume "r = Some []"
      with rn 2 show ?thesis by simp
    qed
  qed
qed simp

text \<open>Words that cannot be taken for a redirection.\<close>

definition plain_word :: "string \<Rightarrow> bool" where
  "plain_word t \<longleftrightarrow> CHR ''>'' \<notin> set t \<and> CHR ''<'' \<notin> set t"

lemma redir_operator_chars:
  "redir_operator s = Some r \<Longrightarrow> CHR ''>'' \<in> set s \<or> CHR ''<'' \<in> set s"
  by (cases s) (auto simp: redir_operator_def split: if_splits)

lemma plain_token_op: "plain_word t \<Longrightarrow> token_op t = None"
proof -
  assume p: "plain_word t"
  have "set (dropWhile is_digit t) \<subseteq> set t" by (auto dest: set_dropWhileD)
  then have "redir_operator (dropWhile is_digit t) = None"
    using redir_operator_chars [of "dropWhile is_digit t"] p
    by (cases "redir_operator (dropWhile is_digit t)") (auto simp: plain_word_def)
  then show ?thesis using p by (auto simp: token_op_def extract_redir_op_def Let_def plain_word_def)
qed

lemma is_digit_char: "k < 10 \<Longrightarrow> is_digit (char_of (48 + k :: nat))"
  by (simp add: is_digit_def Let_def)

lemma digits_are_digits: "list_all is_digit (digits_of_nat n)"
proof (induction n rule: digits_of_nat.induct)
  case (1 n)
  then show ?case
    by (cases "n < 10") (simp_all add: digits_of_nat.simps [of n] is_digit_char)
qed

lemma py_isdigit_digits [simp]: "py_isdigit (digits_of_nat n)"
  by (simp add: py_isdigit_def digits_are_digits)

lemma split_digits:
  assumes "\<not> is_digit c"
  shows "takeWhile is_digit (digits_of_nat n @ c # s) = digits_of_nat n"
    "dropWhile is_digit (digits_of_nat n @ c # s) = c # s"
  using digits_are_digits [of n] assms
  by (simp_all add: takeWhile_append2 dropWhile_append2 list_all_iff)

lemma not_digit_ops: "\<not> is_digit (CHR ''>'')" "\<not> is_digit (CHR ''<'')"
  by (simp_all add: is_digit_def)

lemma digits_neq: "digits_of_nat n \<noteq> ''>''"
  using digits_are_digits [of n] not_digit_ops by auto

text \<open>The tokens that mean a redirection.\<close>

fun render :: "redirection \<Rightarrow> string list" where
  "render (Redir_file fd target app) = [digits_of_nat fd @ (if app then ''>>'' else ''>''), target]"
| "render (Redir_stdin fd target) = [digits_of_nat fd @ ''<'', target]"
| "render (Redir_dup fd target) = [digits_of_nat fd @ ''>&'' @ digits_of_nat target]"

lemma parse_render:
  "parse_redirections (render r @ ts) = (let (c, ops) = parse_redirections ts in (c, r # ops))"
proof (cases r)
  case (Redir_dup fd target)
  have nl: "\<forall>x \<in> set (digits_of_nat target). x \<noteq> CHR 0x0A"
    using digits_are_digits [of target] by (auto simp: list_all_iff is_digit_def)
  then have tw: "takeWhile (\<lambda>c. c \<noteq> CHR 0x0A) (digits_of_nat target) = digits_of_nat target"
    by simp
  have nd: "digits_of_nat target \<noteq> ''-''"
    using digits_are_digits [of target] by (auto simp: is_digit_def)
  have "token_op (digits_of_nat fd @ ''>&'' @ digits_of_nat target)
      = Some (''>&'', Some fd, digits_of_nat target)"
    using nl by (simp add: token_op_def extract_redir_op_def split_digits not_digit_ops redir_operator_def
        Let_def tw)
  then show ?thesis
    by (simp add: Redir_dup apply_redirection_def Let_def nd split: prod.splits)
qed (simp_all add: token_op_def extract_redir_op_def split_digits not_digit_ops redir_operator_def
    digits_neq apply_redirection_def Let_def split: prod.splits)

text \<open>A command line item is a word or a redirection.\<close>

definition item_tokens :: "(string + redirection) list \<Rightarrow> string list" where
  "item_tokens items = concat (map (case_sum (\<lambda>w. [w]) render) items)"

definition item_words :: "(string + redirection) list \<Rightarrow> string list" where
  "item_words items = concat (map (case_sum (\<lambda>w. [w]) (\<lambda>_. [])) items)"

definition item_redirections :: "(string + redirection) list \<Rightarrow> redirection list" where
  "item_redirections items = concat (map (case_sum (\<lambda>_. []) (\<lambda>r. [r])) items)"

text \<open>C35: A command whose words contain no redirection characters and whose redirections are written
  out, in any interleaving, is parsed into exactly those words and exactly those redirections, both
  in their order.\<close>

theorem parse_redirections_roundtrip:
  assumes "\<forall>w \<in> set (item_words items). plain_word w"
  shows "parse_redirections (item_tokens items) = (item_words items, item_redirections items)"
  using assms
proof (induction items)
  case (Cons x xs)
  then show ?case
    by (cases x) (auto simp: item_tokens_def item_words_def item_redirections_def plain_token_op parse_render)
qed (simp add: item_tokens_def item_words_def item_redirections_def)

lemma digit_chars: "char_of (49 :: nat) = CHR ''1''" "char_of (50 :: nat) = CHR ''2''"
  by code_simp+

theorem parse_redirections_roundtrip_witness:
  "parse_redirections [''ls'', ''2>'', ''err'', ''-l'', ''1>&2'']
    = ([''ls'', ''-l''], [Redir_file 2 ''err'' False, Redir_dup 1 2])"
  using parse_redirections_roundtrip [of "[Inl ''ls'', Inr (Redir_file 2 ''err'' False), Inl ''-l'', Inr (Redir_dup 1 2)]"]
  by (simp add: item_tokens_def item_words_def item_redirections_def plain_word_def digits_of_nat.simps
      digit_chars del: parse_redirections.simps)

text \<open>Whatever the arguments are, no word is invented or moved.\<close>

lemma parse_redirections_subseq: "subseq (fst (parse_redirections ts)) ts"
proof (induction ts rule: parse_redirections.induct)
  case (2 tok rest)
  have drop: "subseq (drop n rest) rest" for n by (rule suffix_imp_subseq) (rule suffix_drop)
  show ?case
  proof (cases "token_op tok")
    case None
    with 2(1) show ?thesis by (auto split: prod.splits)
  next
    case (Some r)
    obtain opr fd inl where r: "r = (opr, fd, inl)" by (cases r)
    obtain nops words n where a: "apply_redirection opr fd inl (token_at (tok # rest) 1) tok = (nops, words, n)"
      by (cases "apply_redirection opr fd inl (token_at (tok # rest) 1) tok") auto
    have w: "words = [] \<or> words = [tok] \<and> n = 1"
      using a by (auto simp: apply_redirection_def Let_def split: if_splits option.splits)
    show ?thesis
    proof (cases "n = 0")
      case True
      with a w Some r 2(2) show ?thesis by (auto split: prod.splits)
    next
      case False
      then have "subseq (fst (parse_redirections (drop (n - 1) rest))) (drop (n - 1) rest)"
        using 2(3) Some r a by simp
      then have "subseq (fst (parse_redirections (drop (n - 1) rest))) rest"
        using drop subseq_order.order_trans by blast
      with a w Some r False show ?thesis by (auto split: prod.splits)
    qed
  qed
qed simp

end
