(* ===== verification/Vfs.thy ===== *)
theory Vfs
  imports Prelude
begin

section \<open>The virtual file system\<close>

text \<open>
  Model of \<open>shell/fs.py\<close>. An entry of the file system is a Python list of ten fields that the
  code shares and mutates; here entries live in a heap (\<open>heap s\<close>), an entry is an address, and
  the contents of a directory are a list of addresses. Address 0 is the root.

  \<open>getfile\<close> calls itself for every symbolic link it meets, so a cycle of links ends in a
  \<open>RecursionError\<close>: \<open>frames s\<close> is the number of nested calls the interpreter allows. The
  comparison \<open>==\<close> of two entries recurses in the same way. Files of the host (what
  \<open>os.path.isfile\<close> and \<open>read_bytes\<close> see) are the map \<open>disk s\<close>.
\<close>

unbundle bit_operations_syntax

subsection \<open>Entries and the heap\<close>

datatype ftype = T_LINK | T_DIR | T_FILE | T_BLK | T_CHR | T_SOCK | T_FIFO

datatype contents = Entries "nat list" | Blob string

record node =
  A_NAME :: string
  A_TYPE :: ftype
  A_UID :: int
  A_GID :: int
  A_SIZE :: int
  A_MODE :: int
  A_CTIME :: rat
  A_CONTENTS :: contents
  A_TARGET :: "string option"
  A_REALFILE :: "string option"

type_synonym heap = "nat \<Rightarrow> node"

record filesystem =
  heap :: heap
  fresh :: nat
  arch :: string
  home :: string
  tempfiles :: "(int \<times> string) list"
  filenames :: "(int \<times> string) list"
  newcount :: nat
  frames :: nat
  disk :: "string \<rightharpoonup> string"

abbreviation root :: nat where "root \<equiv> 0"

definition SPECIAL_PATHS :: "string list" where
  "SPECIAL_PATHS = [''/sys'', ''/proc'', ''/dev/pts'']"

abbreviation OSError_ENOENT :: py_error where "OSError_ENOENT \<equiv> OSError ''ENOENT''"

text \<open>Iterating over the contents of an entry: iterating over \<open>bytes\<close> gives numbers, which have
  no fields.\<close>

definition entries :: "heap \<Rightarrow> nat \<Rightarrow> nat list res" where
  "entries h i =
     (case A_CONTENTS (h i) of
        Entries ids \<Rightarrow> Inr ids
      | Blob b \<Rightarrow> if b = [] then Inr [] else Inl TypeError)"

text \<open>\<open>append\<close> and \<open>remove\<close> on the contents: \<open>bytes\<close> has neither.\<close>

definition entry_list :: "heap \<Rightarrow> nat \<Rightarrow> nat list res" where
  "entry_list h i = (case A_CONTENTS (h i) of Entries ids \<Rightarrow> Inr ids | Blob _ \<Rightarrow> Inl AttributeError)"

definition set_entries :: "nat \<Rightarrow> nat list \<Rightarrow> filesystem \<Rightarrow> filesystem" where
  "set_entries d ids s = s\<lparr>heap := (heap s)(d := (heap s d)\<lparr>A_CONTENTS := Entries ids\<rparr>)\<rparr>"

definition update_node :: "nat \<Rightarrow> (node \<Rightarrow> node) \<Rightarrow> filesystem \<Rightarrow> filesystem" where
  "update_node i f s = s\<lparr>heap := (heap s)(i := f (heap s i))\<rparr>"

definition alloc :: "node \<Rightarrow> filesystem \<Rightarrow> filesystem \<times> nat" where
  "alloc n s = (s\<lparr>heap := (heap s)(fresh s := n), fresh := Suc (fresh s)\<rparr>, fresh s)"

subsection \<open>Path strings\<close>

text \<open>\<open>os.path.dirname\<close> and \<open>os.path.basename\<close>.\<close>

definition basename :: "string \<Rightarrow> string" where
  "basename p = rev (takeWhile (\<lambda>c. c \<noteq> CHR ''/'') (rev p))"

definition dirname :: "string \<Rightarrow> string" where
  "dirname p =
     (let head = rev (dropWhile (\<lambda>c. c \<noteq> CHR ''/'') (rev p))
      in if list_all (\<lambda>c. c = CHR ''/'') head then head else rstrip_chars (\<lambda>c. c = CHR ''/'') head)"

abbreviation slash :: "char \<Rightarrow> bool" where "slash c \<equiv> c = CHR ''/''"

fun resolve_pieces :: "string list \<Rightarrow> string list \<Rightarrow> string list" where
  "resolve_pieces [] cwdpieces = cwdpieces"
| "resolve_pieces (piece # pieces) cwdpieces =
     (if piece = ''..'' then resolve_pieces pieces (if cwdpieces = [] then [] else butlast cwdpieces)
      else if piece = ''.'' \<or> piece = [] then resolve_pieces pieces cwdpieces
      else resolve_pieces pieces (cwdpieces @ [piece]))"

definition path_of :: "string list \<Rightarrow> string" where
  "path_of ps = CHR ''/'' # join_with ''/'' ps"

definition nonempty_pieces :: "string \<Rightarrow> string list" where
  "nonempty_pieces p = filter (\<lambda>x. x \<noteq> []) (split_on (CHR ''/'') p)"

definition resolve_path :: "string \<Rightarrow> string \<Rightarrow> string \<Rightarrow> string res" where
  "resolve_path hm pathspec cwd =
     (let path = (if starts_with pathspec ''~/'' then hm @ tl pathspec else pathspec);
          pieces = split_on (CHR ''/'') (rstrip_chars slash path)
      in case path of
           [] \<Rightarrow> Inl IndexError
         | c # _ \<Rightarrow> Inr (path_of (resolve_pieces pieces (if slash c then [] else nonempty_pieces cwd))))"

subsection \<open>Lookup\<close>

text \<open>
  One component of \<open>getfile\<close>: every entry of that name is tried in order and the last one counts;
  a broken link among them ends the lookup. \<open>rec\<close> is the nested call for a link. The target of
  a relative link is taken from the root, since the code never updates its \<open>cwd\<close>.
\<close>

definition entry_target :: "(string \<Rightarrow> nat option res) \<Rightarrow> heap \<Rightarrow> bool \<Rightarrow> nat \<Rightarrow> nat option res" where
  "entry_target rec h keep x =
     (if keep then Inr (Some x)
      else if A_TYPE (h x) = T_LINK
      then (case A_TARGET (h x) of
              None \<Rightarrow> Inl TypeError
            | Some [] \<Rightarrow> Inl IndexError
            | Some (c # cs) \<Rightarrow> rec (if slash c then c # cs else CHR ''/'' # c # cs))
      else Inr (Some x))"

fun last_match :: "(nat \<Rightarrow> nat option res) \<Rightarrow> heap \<Rightarrow> string \<Rightarrow> nat list \<Rightarrow> nat \<Rightarrow> nat option res" where
  "last_match target h piece [] p = Inr (Some p)"
| "last_match target h piece (x # xs) p =
     (if A_NAME (h x) = piece
      then rbind (target x) (\<lambda>r. case r of
             None \<Rightarrow> Inr None
           | Some q \<Rightarrow> last_match target h piece xs q)
      else last_match target h piece xs p)"

fun getfile_steps ::
  "(string \<Rightarrow> nat option res) \<Rightarrow> heap \<Rightarrow> bool \<Rightarrow> string \<Rightarrow> string list \<Rightarrow> nat \<Rightarrow> nat option res" where
  "getfile_steps rec h follow lastp [] p = Inr (Some p)"
| "getfile_steps rec h follow lastp (piece # pieces) p =
     rbind (entries h p) (\<lambda>ids.
       if piece \<notin> set (map (\<lambda>x. A_NAME (h x)) ids) then Inr None
       else rbind (last_match (entry_target rec h (piece = lastp \<and> \<not> follow)) h piece ids p) (\<lambda>r.
              case r of None \<Rightarrow> Inr None | Some q \<Rightarrow> getfile_steps rec h follow lastp pieces q))"

definition path_pieces :: "string \<Rightarrow> string list" where
  "path_pieces path = split_on (CHR ''/'') (strip_chars slash path)"

fun getfile_at :: "nat \<Rightarrow> heap \<Rightarrow> string \<Rightarrow> bool \<Rightarrow> nat option res" where
  "getfile_at 0 h path follow = Inl RecursionError"
| "getfile_at (Suc n) h path follow =
     (if path = ''/'' then Inr (Some root)
      else getfile_steps (\<lambda>t. getfile_at n h t follow) h follow (last (path_pieces path))
             (path_pieces path) root)"

definition getfile :: "filesystem \<Rightarrow> string \<Rightarrow> bool \<Rightarrow> nat option res" where
  "getfile s path follow = getfile_at (frames s) (heap s) path follow"

text \<open>\<open>get_path\<close> returns the list of contents; here the entry that owns it. The first entry of a
  name counts.\<close>

fun get_path_steps :: "(string \<Rightarrow> nat option res) \<Rightarrow> heap \<Rightarrow> string list \<Rightarrow> nat \<Rightarrow> nat res" where
  "get_path_steps rec h [] cwd = Inr cwd"
| "get_path_steps rec h (part # parts) cwd =
     (if part = [] then get_path_steps rec h parts cwd
      else rbind (entries h cwd) (\<lambda>ids.
        case find (\<lambda>c. A_NAME (h c) = part) ids of
          None \<Rightarrow> Inl FileNotFound
        | Some c \<Rightarrow>
            if A_TYPE (h c) = T_LINK
            then rbind (case A_TARGET (h c) of None \<Rightarrow> Inl AttributeError | Some t \<Rightarrow> rec t) (\<lambda>f.
                   case f of None \<Rightarrow> Inl FileNotFound | Some i \<Rightarrow> get_path_steps rec h parts i)
            else get_path_steps rec h parts c))"

definition get_path :: "filesystem \<Rightarrow> string \<Rightarrow> bool \<Rightarrow> nat res" where
  "get_path s path follow =
     get_path_steps (\<lambda>t. getfile s t follow) (heap s) (split_on (CHR ''/'') path) root"

definition listdir :: "filesystem \<Rightarrow> string \<Rightarrow> string list res" where
  "listdir s path =
     rbind (get_path s path True) (\<lambda>d. rbind (entries (heap s) d) (\<lambda>ids.
       Inr (map (\<lambda>x. A_NAME (heap s x)) ids)))"

definition exists :: "filesystem \<Rightarrow> string \<Rightarrow> bool res" where
  "exists s path = rbind (getfile s path True) (\<lambda>f. Inr (f \<noteq> None))"

definition lexists :: "filesystem \<Rightarrow> string \<Rightarrow> bool res" where
  "lexists s path = rbind (getfile s path False) (\<lambda>f. Inr (f \<noteq> None))"

text \<open>\<open>isfile\<close>, \<open>islink\<close> and \<open>isdir\<close> catch every exception of the lookup.\<close>

definition has_type :: "filesystem \<Rightarrow> ftype \<Rightarrow> string \<Rightarrow> bool" where
  "has_type s t path =
     (case getfile s path True of Inr (Some f) \<Rightarrow> A_TYPE (heap s f) = t | _ \<Rightarrow> False)"

definition isfile :: "filesystem \<Rightarrow> string \<Rightarrow> bool" where
  "isfile s path = has_type s T_FILE path"

definition islink :: "filesystem \<Rightarrow> string \<Rightarrow> bool" where
  "islink s path = has_type s T_LINK path"

definition isdir :: "filesystem \<Rightarrow> string \<Rightarrow> bool" where
  "isdir s path = (path = ''/'' \<or> has_type s T_DIR path)"

subsection \<open>Wildcards\<close>

text \<open>
  \<open>fnmatch.fnmatchcase\<close>: a text is cut into its characters (a leading byte and its continuation
  bytes), whose UTF-8 bytes order as their code points do. \<open>[seq]\<close> may be negated by \<open>!\<close>, a
  \<open>]\<close> in first place is literal, and an unclosed \<open>[\<close> is literal.
\<close>

function uchars :: "string \<Rightarrow> string list" where
  "uchars [] = []"
| "uchars (c # cs) = (c # takeWhile is_cont cs) # uchars (dropWhile is_cont cs)"
  by pat_completeness auto
termination
  by (relation "measure length") (auto simp: le_imp_less_Suc length_dropWhile_le)

fun bytes_le :: "string \<Rightarrow> string \<Rightarrow> bool" where
  "bytes_le [] _ = True"
| "bytes_le (_ # _) [] = False"
| "bytes_le (a # as) (b # bs) =
     (if a = b then bytes_le as bs else (of_char a :: nat) < of_char b)"

definition cut_set :: "bool \<Rightarrow> string list \<Rightarrow> string list \<Rightarrow> (bool \<times> string list \<times> string list) option" where
  "cut_set neg lit p =
     (case dropWhile (\<lambda>c. c \<noteq> '']'') p of
        [] \<Rightarrow> None
      | _ # rest \<Rightarrow> Some (neg, lit @ takeWhile (\<lambda>c. c \<noteq> '']'') p, rest))"

definition cut_first :: "bool \<Rightarrow> string list \<Rightarrow> (bool \<times> string list \<times> string list) option" where
  "cut_first neg p =
     (case p of
        [] \<Rightarrow> None
      | c # q \<Rightarrow> if c = '']'' then cut_set neg ['']''] q else cut_set neg [] p)"

definition split_set :: "string list \<Rightarrow> (bool \<times> string list \<times> string list) option" where
  "split_set p =
     (case p of
        [] \<Rightarrow> None
      | c # q \<Rightarrow> if c = ''!'' then cut_first True q else cut_first False p)"

fun in_ranges :: "string \<Rightarrow> string list \<Rightarrow> bool" where
  "in_ranges c (a # m # b # r) =
     (if m = ''-'' then bytes_le a c \<and> bytes_le c b \<or> in_ranges c r
      else c = a \<or> in_ranges c (m # b # r))"
| "in_ranges c (a # r) = (c = a \<or> in_ranges c r)"
| "in_ranges c [] = False"

lemma cut_set_shorter: "cut_set neg lit p = Some (n, body, rest) \<Longrightarrow> length rest < length p"
  using length_dropWhile_le [of "\<lambda>c. c \<noteq> '']''" p]
  by (simp add: cut_set_def split: list.splits)

lemma cut_first_shorter: "cut_first neg p = Some (n, body, rest) \<Longrightarrow> length rest < length p"
  by (auto simp: cut_first_def split: list.splits if_splits dest!: cut_set_shorter)

lemma split_set_shorter: "split_set p = Some (n, body, rest) \<Longrightarrow> length rest < length p"
  by (auto simp: split_set_def split: list.splits if_splits dest!: cut_first_shorter)

function fnmatch :: "string list \<Rightarrow> string list \<Rightarrow> bool" where
  "fnmatch n [] = (n = [])"
| "fnmatch n (c # p) =
     (if c = ''*''
      then fnmatch n p \<or> (case n of [] \<Rightarrow> False | _ # n' \<Rightarrow> fnmatch n' (c # p))
      else case n of
             [] \<Rightarrow> False
           | x # n' \<Rightarrow>
               if c = ''?'' then fnmatch n' p
               else if c = ''['' then
                 (case split_set p of
                    None \<Rightarrow> x = c \<and> fnmatch n' p
                  | Some (neg, body, rest) \<Rightarrow> (in_ranges x body \<noteq> neg) \<and> fnmatch n' rest)
               else x = c \<and> fnmatch n' p)"
  by pat_completeness auto
termination
  by (relation "measure (\<lambda>(n, p). length n + length p)")
     (auto dest: split_set_shorter)

definition fnmatchcase :: "string \<Rightarrow> string \<Rightarrow> bool" where
  "fnmatchcase name pat = fnmatch (uchars name) (uchars pat)"

text \<open>The nested function of \<open>resolve_path_wc\<close>.\<close>

fun wc_search :: "filesystem \<Rightarrow> string list \<Rightarrow> string list \<Rightarrow> string list res" where
  "wc_search s [] cwd = Inr [path_of cwd]"
| "wc_search s (p # ps) cwd =
     (if p = ''.'' then wc_search s ps cwd
      else if p = ''..'' then wc_search s ps (butlast cwd)
      else rbind (listdir s (join_with ''/'' cwd)) (\<lambda>names.
             fold (\<lambda>m acc. rbind acc (\<lambda>found. rbind (wc_search s ps (cwd @ [m])) (\<lambda>f. Inr (found @ f))))
               (filter (\<lambda>x. fnmatchcase x p) names) (Inr [])))"

definition resolve_path_wc :: "filesystem \<Rightarrow> string \<Rightarrow> string \<Rightarrow> string list res" where
  "resolve_path_wc s path cwd =
     (let pieces = split_on (CHR ''/'') (rstrip_chars slash path)
      in if hd pieces \<noteq> [] then wc_search s pieces (nonempty_pieces cwd)
         else wc_search s (tl pieces) [])"

subsection \<open>Equality and removal of entries\<close>

text \<open>\<open>==\<close> of two entries: field by field, the contents element by element, where an object is
  equal to itself without a look at its fields.\<close>

fun list_eq :: "(nat \<Rightarrow> nat \<Rightarrow> bool res) \<Rightarrow> nat list \<Rightarrow> nat list \<Rightarrow> bool res" where
  "list_eq eq (x # xs) (y # ys) =
     rbind (if x = y then Inr True else eq x y) (\<lambda>b. if b then list_eq eq xs ys else Inr False)"
| "list_eq eq _ _ = Inr True"

definition contents_eq :: "(nat \<Rightarrow> nat \<Rightarrow> bool res) \<Rightarrow> contents \<Rightarrow> contents \<Rightarrow> bool res" where
  "contents_eq eq c d =
     (case (c, d) of
        (Entries xs, Entries ys) \<Rightarrow> if length xs = length ys then list_eq eq xs ys else Inr False
      | _ \<Rightarrow> Inr (c = d))"

definition same_scalars :: "node \<Rightarrow> node \<Rightarrow> bool" where
  "same_scalars a b \<longleftrightarrow>
     A_NAME a = A_NAME b \<and> A_TYPE a = A_TYPE b \<and> A_UID a = A_UID b \<and> A_GID a = A_GID b
     \<and> A_SIZE a = A_SIZE b \<and> A_MODE a = A_MODE b \<and> A_CTIME a = A_CTIME b"

fun py_eq :: "nat \<Rightarrow> heap \<Rightarrow> nat \<Rightarrow> nat \<Rightarrow> bool res" where
  "py_eq 0 h i j = Inl RecursionError"
| "py_eq (Suc n) h i j =
     (if \<not> same_scalars (h i) (h j) then Inr False
      else rbind (contents_eq (py_eq n h) (A_CONTENTS (h i)) (A_CONTENTS (h j))) (\<lambda>b.
        Inr (b \<and> A_TARGET (h i) = A_TARGET (h j) \<and> A_REALFILE (h i) = A_REALFILE (h j))))"

text \<open>\<open>list.remove(x)\<close>: the first element that is or equals \<open>x\<close>.\<close>

fun list_remove :: "(nat \<Rightarrow> bool res) \<Rightarrow> nat \<Rightarrow> nat list \<Rightarrow> nat list res" where
  "list_remove eq x [] = Inl ValueError"
| "list_remove eq x (y # ys) =
     rbind (if y = x then Inr True else eq y) (\<lambda>b.
       if b then Inr ys else rbind (list_remove eq x ys) (\<lambda>zs. Inr (y # zs)))"

definition remove_entry :: "nat \<Rightarrow> nat \<Rightarrow> filesystem \<Rightarrow> (filesystem, unit) sres" where
  "remove_entry d x s =
     (case rbind (entry_list (heap s) d) (list_remove (\<lambda>y. py_eq (frames s) (heap s) y x) x) of
        Inl e \<Rightarrow> (s, Inl e)
      | Inr ids \<Rightarrow> (set_entries d ids s, Inr ()))"

definition append_entry :: "nat \<Rightarrow> nat \<Rightarrow> filesystem \<Rightarrow> (filesystem, unit) sres" where
  "append_entry d x s =
     (case entry_list (heap s) d of
        Inl e \<Rightarrow> (s, Inl e)
      | Inr ids \<Rightarrow> (set_entries d (ids @ [x]) s, Inr ()))"

end
