(* ===== verification/Vfs_Ops.thy ===== *)
theory Vfs_Ops
  imports Vfs
begin

section \<open>Operations of the virtual file system\<close>

text \<open>
  The operations of \<open>shell/fs.py\<close> that read or change entries. Time, host file names and the
  calls to the host (\<open>os.open\<close>, SHA-256, the binaries shipped as data) are arguments.
\<close>

unbundle bit_operations_syntax

definition S_IFMT :: int where "S_IFMT = 0xF000"
definition S_IFREG :: int where "S_IFREG = 0x8000"
definition S_IFLNK :: int where "S_IFLNK = 0xA000"
definition S_IXUSR :: int where "S_IXUSR = 0x40"

lemmas stat_consts = S_IFMT_def S_IFREG_def S_IFLNK_def S_IXUSR_def

subsection \<open>Contents\<close>

definition update_realfile :: "nat option \<Rightarrow> string \<Rightarrow> filesystem \<Rightarrow> (filesystem, unit) sres" where
  "update_realfile f realfile s =
     (case f of
        None \<Rightarrow> (s, Inl TypeError)
      | Some i \<Rightarrow>
          if A_REALFILE (heap s i) \<in> {None, Some []} \<and> disk s realfile \<noteq> None
             \<and> A_SIZE (heap s i) < 25000000
          then (update_node i (\<lambda>n. n\<lparr>A_REALFILE := Some realfile\<rparr>) s, Inr ())
          else (s, Inr ()))"

fun init_honeyfs :: "string \<Rightarrow> string list \<Rightarrow> filesystem \<Rightarrow> (filesystem, unit) sres" where
  "init_honeyfs honeyfs_path [] s = (s, Inr ())"
| "init_honeyfs honeyfs_path (rel # rels) s =
     (case getfile s (CHR ''/'' # rel) False of
        Inl e \<Rightarrow> (s, Inl e)
      | Inr None \<Rightarrow> init_honeyfs honeyfs_path rels s
      | Inr (Some f) \<Rightarrow>
          if A_TYPE (heap s f) = T_FILE
          then sbind (update_realfile (Some f) (honeyfs_path @ ''/'' @ rel) s)
                 (\<lambda>s' _. init_honeyfs honeyfs_path rels s')
          else init_honeyfs honeyfs_path rels s)"

definition read_bytes :: "filesystem \<Rightarrow> string \<Rightarrow> string res" where
  "read_bytes s realfile = (case disk s realfile of None \<Rightarrow> Inl OSError_ENOENT | Some b \<Rightarrow> Inr b)"

definition node_contents :: "(string \<Rightarrow> string) \<Rightarrow> filesystem \<Rightarrow> node \<Rightarrow> string res" where
  "node_contents arch_bytes s f =
     (if A_TYPE f = T_DIR then Inl IsADirectoryError
      else if A_TYPE f \<noteq> T_FILE then Inr []
      else case A_REALFILE f of
        Some (c # cs) \<Rightarrow> read_bytes s (c # cs)
      | _ \<Rightarrow> (case A_CONTENTS f of
          Blob b \<Rightarrow> Inr b
        | _ \<Rightarrow>
            if A_SIZE f = 0 then Inr []
            else if A_MODE f AND S_IXUSR \<noteq> 0 then Inr (arch_bytes (arch s))
            else Inr []))"

definition file_contents :: "(string \<Rightarrow> string) \<Rightarrow> filesystem \<Rightarrow> string \<Rightarrow> string res" where
  "file_contents arch_bytes s target =
     rbind (resolve_path (home s) target (dirname target)) (\<lambda>path.
     rbind (exists s path) (\<lambda>ex.
       if path = [] \<or> \<not> ex then Inl FileNotFound
       else rbind (getfile s path True) (\<lambda>f. case f of
              None \<Rightarrow> Inl TypeError
            | Some i \<Rightarrow> node_contents arch_bytes s (heap s i))))"

subsection \<open>Creating entries\<close>

definition new_node :: "string \<Rightarrow> ftype \<Rightarrow> int \<Rightarrow> int \<Rightarrow> int \<Rightarrow> int \<Rightarrow> rat \<Rightarrow> node" where
  "new_node name ty uid gid sz mode ctime =
     \<lparr>A_NAME = name, A_TYPE = ty, A_UID = uid, A_GID = gid, A_SIZE = sz, A_MODE = mode,
      A_CTIME = ctime, A_CONTENTS = Entries [], A_TARGET = None, A_REALFILE = None\<rparr>"

definition add_node :: "nat \<Rightarrow> node \<Rightarrow> filesystem \<Rightarrow> (filesystem, unit) sres" where
  "add_node d n s =
     (case entry_list (heap s) d of
        Inl e \<Rightarrow> (s, Inl e)
      | Inr _ \<Rightarrow> (let (s1, i) = alloc n s
                in sbind (append_entry d i s1) (\<lambda>s2 _. (s2\<lparr>newcount := Suc (newcount s2)\<rparr>, Inr ()))))"

text \<open>The entry of that name, if there is one, is removed first.\<close>

definition drop_named :: "nat \<Rightarrow> string \<Rightarrow> filesystem \<Rightarrow> (filesystem, unit) sres" where
  "drop_named d outfile s =
     (case entries (heap s) d of
        Inl e \<Rightarrow> (s, Inl e)
      | Inr ids \<Rightarrow> (case find (\<lambda>x. A_NAME (heap s x) = outfile) ids of
            None \<Rightarrow> (s, Inr ())
          | Some x \<Rightarrow> remove_entry d x s))"

definition mkfile ::
  "string \<Rightarrow> int \<Rightarrow> int \<Rightarrow> int \<Rightarrow> int \<Rightarrow> rat \<Rightarrow> filesystem \<Rightarrow> (filesystem, bool) sres" where
  "mkfile path uid gid sz mode ctime s =
     (if newcount s > 10000 then (s, Inr False)
      else
        let dir_name = dirname path in
        if list_ex (starts_with dir_name) SPECIAL_PATHS then (s, Inl PermissionDenied)
        else case get_path s dir_name True of
          Inl e \<Rightarrow> (s, Inl e)
        | Inr d \<Rightarrow>
            let outfile = basename path
            in sbind (drop_named d outfile s) (\<lambda>s1 _.
               sbind (add_node d (new_node outfile T_FILE uid gid sz mode ctime) s1)
                 (\<lambda>s2 _. (s2, Inr True))))"

definition mkdir ::
  "string \<Rightarrow> int \<Rightarrow> int \<Rightarrow> int \<Rightarrow> int \<Rightarrow> rat \<Rightarrow> filesystem \<Rightarrow> (filesystem, unit) sres" where
  "mkdir path uid gid sz mode ctime s =
     (if newcount s > 10000 then (s, Inl (OSError ''EDQUOT''))
      else if strip_chars slash path = [] then (s, Inl OSError_ENOENT)
      else case get_path s (dirname (strip_chars slash path)) True of
        Inl e \<Rightarrow> (s, Inl (if e = IndexError \<or> e = FileNotFound then OSError_ENOENT else e))
      | Inr d \<Rightarrow> add_node d (new_node (basename path) T_DIR uid gid sz mode ctime) s)"

definition mkdir2 :: "rat \<Rightarrow> string \<Rightarrow> filesystem \<Rightarrow> (filesystem, unit) sres" where
  "mkdir2 ctime path s =
     (case getfile s path True of
        Inl e \<Rightarrow> (s, Inl e)
      | Inr (Some _) \<Rightarrow> (s, Inl (OSError ''EEXIST''))
      | Inr None \<Rightarrow> mkdir path 0 0 4096 16877 ctime s)"

subsection \<open>Removing and renaming\<close>

definition contents_len :: "heap \<Rightarrow> nat \<Rightarrow> nat" where
  "contents_len h i = (case A_CONTENTS (h i) of Entries ids \<Rightarrow> length ids | Blob b \<Rightarrow> length b)"

definition rmdir :: "string \<Rightarrow> filesystem \<Rightarrow> (filesystem, bool) sres" where
  "rmdir path s =
     (let p = rstrip_chars slash path; name = basename p; parent = dirname p in
      case getfile s p False of
        Inl e \<Rightarrow> (s, Inl e)
      | Inr None \<Rightarrow> (s, Inl (OSError ''EEXIST''))
      | Inr (Some directory) \<Rightarrow>
          if A_TYPE (heap s directory) \<noteq> T_DIR then (s, Inl (OSError ''ENOTDIR''))
          else case get_path s p True of
            Inl e \<Rightarrow> (s, Inl e)
          | Inr d \<Rightarrow>
              if contents_len (heap s) d > 0 then (s, Inl (OSError ''ENOTEMPTY''))
              else case rbind (get_path s parent True) (\<lambda>pdir.
                          rbind (entries (heap s) pdir) (\<lambda>ids. Inr (pdir, ids))) of
                Inl e \<Rightarrow> (s, Inl e)
              | Inr (pdir, ids) \<Rightarrow>
                  (case find (\<lambda>i. A_NAME (heap s i) = name) ids of
                     None \<Rightarrow> (s, Inr False)
                   | Some i \<Rightarrow> sbind (remove_entry pdir i s) (\<lambda>s' _. (s', Inr True))))"

text \<open>Look an entry up, or fail with \<open>ENOENT\<close>, and go on with it.\<close>

definition with_file ::
  "bool \<Rightarrow> string \<Rightarrow> (nat \<Rightarrow> filesystem \<Rightarrow> (filesystem, 'a) sres) \<Rightarrow> filesystem \<Rightarrow> (filesystem, 'a) sres" where
  "with_file follow path k s =
     (case getfile s path follow of
        Inl e \<Rightarrow> (s, Inl e)
      | Inr None \<Rightarrow> (s, Inl OSError_ENOENT)
      | Inr (Some p) \<Rightarrow> k p s)"

definition utime :: "string \<Rightarrow> rat \<Rightarrow> filesystem \<Rightarrow> (filesystem, unit) sres" where
  "utime path mtime = with_file True path (\<lambda>p s. (update_node p (\<lambda>n. n\<lparr>A_CTIME := mtime\<rparr>) s, Inr ()))"

definition chmod :: "string \<Rightarrow> int \<Rightarrow> filesystem \<Rightarrow> (filesystem, unit) sres" where
  "chmod path perm = with_file True path (\<lambda>p s.
     (update_node p (\<lambda>n. n\<lparr>A_MODE := (A_MODE n AND S_IFMT) OR perm\<rparr>) s, Inr ()))"

definition chown :: "string \<Rightarrow> int \<Rightarrow> int \<Rightarrow> filesystem \<Rightarrow> (filesystem, unit) sres" where
  "chown path uid gid = with_file True path (\<lambda>p s.
     (let s1 = (if uid \<noteq> -1 then update_node p (\<lambda>n. n\<lparr>A_UID := uid\<rparr>) s else s);
          s2 = (if gid \<noteq> -1 then update_node p (\<lambda>n. n\<lparr>A_GID := gid\<rparr>) s1 else s1)
      in (s2, Inr ())))"

definition fs_remove :: "string \<Rightarrow> filesystem \<Rightarrow> (filesystem, unit) sres" where
  "fs_remove path = with_file False path (\<lambda>p s.
     case get_path s (dirname path) True of
       Inl e \<Rightarrow> (s, Inl e)
     | Inr d \<Rightarrow> remove_entry d p s)"

definition readlink :: "string \<Rightarrow> filesystem \<Rightarrow> (filesystem, string option) sres" where
  "readlink path = with_file False path (\<lambda>p s.
     if A_MODE (heap s p) AND S_IFLNK = 0 then (s, Inl (OSError []))
     else (s, Inr (A_TARGET (heap s p))))"

definition rename :: "string \<Rightarrow> string \<Rightarrow> filesystem \<Rightarrow> (filesystem, unit) sres" where
  "rename oldpath newpath = with_file True oldpath (\<lambda>old s.
     case getfile s newpath True of
       Inl e \<Rightarrow> (s, Inl e)
     | Inr (Some _) \<Rightarrow> (s, Inl (OSError ''EEXIST''))
     | Inr None \<Rightarrow>
         (case get_path s (dirname oldpath) True of
            Inl e \<Rightarrow> (s, Inl e)
          | Inr d \<Rightarrow>
              sbind (remove_entry d old s) (\<lambda>s1 _.
                let s2 = update_node old (\<lambda>n. n\<lparr>A_NAME := basename newpath\<rparr>) s1
                in case get_path s2 (dirname newpath) True of
                     Inl e \<Rightarrow> (s2, Inl e)
                   | Inr d2 \<Rightarrow> append_entry d2 old s2)))"

subsection \<open>Status\<close>

record statobj =
  st_mode :: int
  st_ino :: int
  st_dev :: int
  st_nlink :: int
  st_uid :: int
  st_gid :: int
  st_size :: int
  st_atime :: rat
  st_mtime :: rat
  st_ctime :: rat

definition stat_of :: "node \<Rightarrow> statobj" where
  "stat_of p =
     \<lparr>st_mode = A_MODE p, st_ino = 0, st_dev = 0, st_nlink = 1, st_uid = A_UID p, st_gid = A_GID p,
      st_size = A_SIZE p, st_atime = A_CTIME p, st_mtime = A_CTIME p, st_ctime = A_CTIME p\<rparr>"

definition stat :: "rat \<Rightarrow> filesystem \<Rightarrow> string \<Rightarrow> bool \<Rightarrow> statobj res" where
  "stat now s path follow =
     (if path = ''/'' then Inr (stat_of (new_node ''/'' T_DIR 0 0 4096 16877 now))
      else rbind (getfile s path follow) (\<lambda>p. case p of
             None \<Rightarrow> Inl OSError_ENOENT
           | Some i \<Rightarrow> Inr (stat_of (heap s i))))"

definition lstat :: "rat \<Rightarrow> filesystem \<Rightarrow> string \<Rightarrow> statobj res" where
  "lstat now s path = stat now s path False"

definition update_size :: "string \<Rightarrow> int \<Rightarrow> filesystem \<Rightarrow> (filesystem, unit) sres" where
  "update_size filename sz s =
     (case getfile s filename True of
        Inl e \<Rightarrow> (s, Inl e)
      | Inr None \<Rightarrow> (s, Inr ())
      | Inr (Some f) \<Rightarrow>
          if A_TYPE (heap s f) \<noteq> T_FILE then (s, Inr ())
          else (update_node f (\<lambda>n. n\<lparr>A_SIZE := sz\<rparr>) s, Inr ()))"

subsection \<open>Uploads\<close>

definition is_alnum :: "char \<Rightarrow> bool" where
  "is_alnum c \<longleftrightarrow> (let n = (of_char c :: nat) in 48 \<le> n \<and> n \<le> 57 \<or> 65 \<le> n \<and> n \<le> 90 \<or> 97 \<le> n \<and> n \<le> 122)"

text \<open>\<open>re.sub("[^A-Za-z0-9]", "_", filename)\<close>, one underscore per character.\<close>

definition safe_name :: "string \<Rightarrow> string" where
  "safe_name s = map (\<lambda>c. if is_alnum c then c else CHR ''_'') (filter (\<lambda>c. \<not> is_cont c) s)"

text \<open>
  \<open>os_open hostfile flags hostmode\<close> is the host: the new disk and a descriptor. The mask is the
  decimal 111 of the source.
\<close>

definition hostmode :: "int \<Rightarrow> int" where
  "hostmode mode = mode AND NOT 111"

definition fs_open ::
  "(string \<Rightarrow> int \<Rightarrow> int \<Rightarrow> (string \<rightharpoonup> string) \<Rightarrow> ((string \<rightharpoonup> string) \<times> int) res) \<Rightarrow> string \<Rightarrow> string \<Rightarrow> rat
   \<Rightarrow> string \<Rightarrow> int \<Rightarrow> int \<Rightarrow> filesystem \<Rightarrow> (filesystem, int option) sres" where
  "fs_open os_open download_path stamp now filename openFlags mode s =
     (if openFlags AND 1 = 1 \<or> openFlags AND 2 = 2
      then
        let hostfile = download_path @ ''/'' @ stamp @ ''_sftp_'' @ safe_name filename
        in sbind (mkfile filename 0 0 0 (S_IFREG OR mode) now s) (\<lambda>s1 _.
           case os_open hostfile openFlags (hostmode mode) (disk s1) of
             Inl e \<Rightarrow> (s1, Inl e)
           | Inr (dk, fd) \<Rightarrow>
               let s2 = s1\<lparr>disk := dk\<rparr>
               in case getfile s2 filename True of
                    Inl e \<Rightarrow> (s2, Inl e)
                  | Inr f \<Rightarrow> sbind (update_realfile f hostfile s2) (\<lambda>s3 _.
                      (s3\<lparr>tempfiles := AList.update fd hostfile (tempfiles s3),
                          filenames := AList.update fd filename (filenames s3)\<rparr>, Inr (Some fd))))
      else (s, Inr None))"

text \<open>The upload is stored under its hash; \<open>os.close\<close> has no effect on this state.\<close>

definition store_upload :: "string \<Rightarrow> string \<Rightarrow> string \<Rightarrow> filesystem \<Rightarrow> filesystem" where
  "store_upload tmp shasumfile b s =
     s\<lparr>disk := (if disk s shasumfile \<noteq> None then (disk s)(tmp := None)
                else (disk s)(shasumfile \<mapsto> b, tmp := None))\<rparr>"

definition fs_close ::
  "(string \<Rightarrow> string) \<Rightarrow> string \<Rightarrow> int option \<Rightarrow> filesystem \<Rightarrow> (filesystem, unit) sres" where
  "fs_close sha256 download_path fd s =
     (case fd of
        None \<Rightarrow> (s, Inr ())
      | Some n \<Rightarrow>
          if n = 0 then (s, Inr ())
          else case rbind (dict_get (tempfiles s) n) (\<lambda>tmp. rbind (read_bytes s tmp) (\<lambda>b. Inr (tmp, b))) of
            Inl e \<Rightarrow> (s, Inl e)
          | Inr (tmp, b) \<Rightarrow>
              let shasumfile = download_path @ ''/'' @ sha256 b; s1 = store_upload tmp shasumfile b s
              in case rbind (dict_get (filenames s1) n) (\<lambda>fnm. getfile s1 fnm True) of
                   Inl e \<Rightarrow> (s1, Inl e)
                 | Inr f \<Rightarrow> sbind (update_realfile f shasumfile s1) (\<lambda>s2 _.
                     (s2\<lparr>tempfiles := AList.delete n (tempfiles s2),
                         filenames := AList.delete n (filenames s2)\<rparr>, Inr ())))"

text \<open>Bytes written at an offset; a gap is filled with zero bytes, nothing written leaves the file as it is.\<close>

definition put_at :: "nat \<Rightarrow> string \<Rightarrow> string \<Rightarrow> string" where
  "put_at offset d b =
     (if d = [] then b
      else take offset (b @ replicate (offset - length b) (CHR 0x00)) @ d @ drop (offset + length d) b)"

text \<open>\<open>write\<close>: \<open>os.write\<close> of the host on the temporary file of the descriptor, where the descriptor is
  positioned (\<open>lseek\<close>, or the end of the last write).\<close>

definition fs_write :: "int \<Rightarrow> nat \<Rightarrow> string \<Rightarrow> filesystem \<Rightarrow> (filesystem, nat) sres" where
  "fs_write fd pos bs s =
     (case rbind (dict_get (tempfiles s) fd) (\<lambda>tmp. rbind (read_bytes s tmp) (\<lambda>b. Inr (tmp, b))) of
        Inl e \<Rightarrow> (s, Inl (OSError ''EBADF''))
      | Inr (tmp, b) \<Rightarrow> (s\<lparr>disk := (disk s)(tmp \<mapsto> put_at pos bs b)\<rparr>, Inr (length bs)))"

end
