(* ===== verification/Vfs_Props.thy ===== *)
theory Vfs_Props
  imports Vfs_Ops
begin

section \<open>Lemmas about the virtual file system\<close>

text \<open>
  Normal paths, lookup along a path without links, how an update of one directory changes
  lookup, and the invariant of the store.
\<close>

named_theorems vfs_simps \<open>lookup and update of entries\<close>

subsection \<open>Normal paths\<close>

definition good_piece :: "string \<Rightarrow> bool" where
  "good_piece x \<longleftrightarrow> x \<noteq> [] \<and> x \<noteq> ''.'' \<and> x \<noteq> ''..'' \<and> CHR ''/'' \<notin> set x"

definition normal_path :: "string \<Rightarrow> bool" where
  "normal_path p \<longleftrightarrow> (\<exists>ps. (\<forall>x \<in> set ps. good_piece x) \<and> p = path_of ps)"

lemma resolve_pieces_good:
  "\<forall>x \<in> set cs. good_piece x \<Longrightarrow> \<forall>x \<in> set ps. CHR ''/'' \<notin> set x \<Longrightarrow>
   \<forall>x \<in> set (resolve_pieces ps cs). good_piece x"
proof (induction ps cs rule: resolve_pieces.induct)
  case (2 piece pieces cs)
  have rest: "\<forall>x \<in> set pieces. CHR ''/'' \<notin> set x" using "2.prems"(2) by simp
  have bl: "\<forall>x \<in> set (if cs = [] then [] else butlast cs). good_piece x"
    using "2.prems"(1) by (auto dest: in_set_butlastD)
  have app: "\<forall>x \<in> set (cs @ [piece]). good_piece x" if "piece \<noteq> ''..''" "piece \<noteq> ''.''" "piece \<noteq> []"
    using "2.prems" that by (simp add: good_piece_def)
  consider "piece = ''..''" | "piece \<noteq> ''..''" "piece = ''.'' \<or> piece = []"
    | "piece \<noteq> ''..''" "\<not> (piece = ''.'' \<or> piece = [])" by blast
  then show ?case
  proof cases
    case 1
    then show ?thesis using "2.IH"(1) [OF 1 bl rest] by (simp only: resolve_pieces.simps if_True refl)
  next
    case 2
    then show ?thesis using "2.IH"(2) [OF 2 "2.prems"(1) rest] by simp
  next
    case 3
    have "\<forall>x \<in> set (resolve_pieces pieces (cs @ [piece])). good_piece x"
      using "2.IH"(3) [OF 3 _ rest] app 3 by blast
    with 3 show ?thesis by simp
  qed
qed simp

lemma resolve_pieces_id: "\<forall>x \<in> set ps. good_piece x \<Longrightarrow> resolve_pieces ps cs = cs @ ps"
  by (induction ps arbitrary: cs) (auto simp: good_piece_def)

lemma join_pieces_slash:
  "ps \<noteq> [] \<Longrightarrow> \<forall>x \<in> set ps. good_piece x \<Longrightarrow> join_with ''/'' ps \<noteq> [] \<and> last (join_with ''/'' ps) \<noteq> CHR ''/''"
proof (induction ps)
  case (Cons p ps)
  then show ?case by (cases ps) (auto simp: good_piece_def dest: last_in_set)
qed simp

lemma join_pieces_hd:
  "ps \<noteq> [] \<Longrightarrow> \<forall>x \<in> set ps. good_piece x \<Longrightarrow> hd (join_with ''/'' ps) \<noteq> CHR ''/''"
proof (induction ps)
  case (Cons p ps)
  then show ?case by (cases ps; cases p) (auto simp: good_piece_def)
qed simp

lemma rstrip_id: "xs = [] \<or> \<not> P (last xs) \<Longrightarrow> rstrip_chars P xs = xs"
  by (cases xs rule: rev_cases) (auto simp: rstrip_chars_def)

lemma split_path_of:
  assumes "\<forall>x \<in> set ps. good_piece x" "ps \<noteq> []"
  shows "split_on (CHR ''/'') (path_of ps) = [] # ps"
proof -
  have "\<forall>x \<in> set ps. CHR ''/'' \<notin> set x" using assms by (simp add: good_piece_def)
  then show ?thesis using assms by (simp add: path_of_def split_on_join)
qed

lemma rstrip_path_of:
  assumes "\<forall>x \<in> set ps. good_piece x" "ps \<noteq> []"
  shows "rstrip_chars slash (path_of ps) = path_of ps"
  using join_pieces_slash [OF assms(2,1)] by (intro rstrip_id) (simp add: path_of_def)

lemma strip_path_of:
  assumes "\<forall>x \<in> set ps. good_piece x" "ps \<noteq> []"
  shows "strip_chars slash (path_of ps) = join_with ''/'' ps"
proof -
  have j: "join_with ''/'' ps \<noteq> []" "hd (join_with ''/'' ps) \<noteq> CHR ''/''"
    "last (join_with ''/'' ps) \<noteq> CHR ''/''"
    using join_pieces_slash [OF assms(2,1)] join_pieces_hd [OF assms(2,1)] by auto
  then have "dropWhile slash (path_of ps) = join_with ''/'' ps"
    by (cases "join_with ''/'' ps") (auto simp: path_of_def)
  then show ?thesis using j by (simp add: strip_chars_def lstrip_chars_def rstrip_id)
qed

lemma path_pieces_path_of [vfs_simps]:
  assumes "\<forall>x \<in> set ps. good_piece x" "ps \<noteq> []"
  shows "path_pieces (path_of ps) = ps"
proof -
  have "\<forall>x \<in> set ps. CHR ''/'' \<notin> set x" using assms by (simp add: good_piece_def)
  then show ?thesis using assms by (simp add: path_pieces_def strip_path_of split_on_join)
qed

lemma nonempty_pieces_path_of:
  assumes "\<forall>x \<in> set ps. good_piece x"
  shows "nonempty_pieces (path_of ps) = ps"
proof (cases "ps = []")
  case True
  then show ?thesis by (simp add: nonempty_pieces_def path_of_def)
next
  case False
  have "filter (\<lambda>x. x \<noteq> []) ps = ps" using assms by (intro filter_True) (auto simp: good_piece_def)
  with False assms show ?thesis by (simp add: nonempty_pieces_def split_path_of)
qed

lemma path_of_root_iff: "\<forall>x \<in> set ps. good_piece x \<Longrightarrow> path_of ps = ''/'' \<longleftrightarrow> ps = []"
  using join_pieces_slash [of ps] by (auto simp: path_of_def)

lemma resolve_normal:
  assumes "\<forall>x \<in> set ps. good_piece x"
  shows "resolve_path hm (path_of ps) cwd = Inr (path_of ps)"
proof (cases "ps = []")
  case True
  then show ?thesis by (simp add: resolve_path_def path_of_def rstrip_chars_def)
next
  case False
  obtain cs where c: "path_of ps = CHR ''/'' # cs" by (simp add: path_of_def)
  have "rstrip_chars slash (CHR ''/'' # cs) = CHR ''/'' # cs"
    "split_on (CHR ''/'') (CHR ''/'' # cs) = [] # ps"
    using rstrip_path_of [OF assms False] split_path_of [OF assms False] by (simp_all only: c)
  moreover have "resolve_pieces ([] # ps) [] = ps" using assms by (simp add: resolve_pieces_id)
  ultimately show ?thesis using c
    by (simp add: resolve_path_def del: resolve_pieces.simps split_on.simps)
qed

text \<open>Whatever a client types, a resolved path is absolute and in normal form (no empty
  component, no \<open>.\<close> and no \<open>..\<close>) when the working directory is, and resolving it again
  from anywhere changes nothing: nothing typed leads outside the tree.\<close>

theorem resolve_path_normal:
  assumes "normal_path cwd" "resolve_path hm path cwd = Inr r"
  shows "normal_path r \<and> resolve_path hm r cwd' = Inr r"
proof -
  from assms(1) obtain cps where cps: "\<forall>x \<in> set cps. good_piece x" "cwd = path_of cps"
    by (auto simp: normal_path_def)
  obtain base where r: "r = path_of base" "\<forall>x \<in> set base. good_piece x"
  proof -
    let ?p = "if starts_with path ''~/'' then hm @ tl path else path"
    let ?pieces = "split_on (CHR ''/'') (rstrip_chars slash ?p)"
    have "\<forall>x \<in> set ?pieces. CHR ''/'' \<notin> set x" by (auto dest: split_on_pieces)
    then have g: "\<forall>x \<in> set (resolve_pieces ?pieces cs). good_piece x" if "cs = [] \<or> cs = cps" for cs
      using resolve_pieces_good [of cs ?pieces] that cps(1) by auto
    from assms(2) obtain cs where "r = path_of (resolve_pieces ?pieces cs)" "cs = [] \<or> cs = cps"
      by (auto simp: resolve_path_def Let_def cps nonempty_pieces_path_of split: list.splits if_splits)
    with g that show thesis by blast
  qed
  then show ?thesis by (auto simp: normal_path_def resolve_normal)
qed

theorem resolve_path_normal_witness:
  "normal_path ''/etc'' \<and> resolve_path ''/root'' ''/etc'' ''/tmp'' = Inr ''/etc''"
proof -
  have n: "normal_path ''/root''"
    unfolding normal_path_def by (rule exI [of _ "[''root'']"]) (simp add: path_of_def good_piece_def)
  have r: "resolve_path ''/root'' ''../x/..//etc/./'' ''/root'' = Inr ''/etc''"
    by (simp add: resolve_path_def rstrip_chars_def nonempty_pieces_def path_of_def)
  show ?thesis by (rule resolve_path_normal [OF n r])
qed

subsection \<open>Links are always followed\<close>

lemma last_match_not_link:
  assumes "last_match target h piece ids p = Inr (Some q)"
    "\<And>x r. target x = Inr (Some r) \<Longrightarrow> N r" "N p"
  shows "N q"
  using assms
  by (induction ids arbitrary: p) (auto simp: rbind_Inr_iff split: if_splits option.splits)

lemma getfile_steps_not_link:
  assumes "getfile_steps rec h True l ps p = Inr (Some q)"
    "\<And>t r. rec t = Inr (Some r) \<Longrightarrow> A_TYPE (h r) \<noteq> T_LINK" "A_TYPE (h p) \<noteq> T_LINK"
  shows "A_TYPE (h q) \<noteq> T_LINK"
  using assms
proof (induction ps arbitrary: p)
  case (Cons piece pieces)
  have tgt: "A_TYPE (h r) \<noteq> T_LINK" if "entry_target rec h False x = Inr (Some r)" for x r
    using that Cons.prems(2)
    by (auto simp: entry_target_def split: if_splits option.splits list.splits)
  from Cons.prems(1) obtain ids q1 where
    q1: "last_match (entry_target rec h False) h piece ids p = Inr (Some q1)"
    "getfile_steps rec h True l pieces q1 = Inr (Some q)"
    by (auto simp: rbind_Inr_iff split: if_splits option.splits)
  have "A_TYPE (h q1) \<noteq> T_LINK"
    by (rule last_match_not_link [OF q1(1), where N = "\<lambda>x. A_TYPE (h x) \<noteq> T_LINK"])
       (use tgt Cons.prems(3) in auto)
  then show ?case using Cons.IH q1(2) Cons.prems(2) by blast
qed simp

lemma getfile_at_not_link:
  "A_TYPE (h root) \<noteq> T_LINK \<Longrightarrow> getfile_at n h path True = Inr (Some q) \<Longrightarrow> A_TYPE (h q) \<noteq> T_LINK"
proof (induction n arbitrary: path q)
  case (Suc n)
  show ?case
  proof (cases "path = ''/''")
    case True
    with Suc.prems show ?thesis by simp
  next
    case False
    with Suc.prems(2) have "getfile_steps (\<lambda>t. getfile_at n h t True) h True (last (path_pieces path))
        (path_pieces path) root = Inr (Some q)" by simp
    then show ?thesis
      by (rule getfile_steps_not_link) (use Suc.IH Suc.prems(1) in auto)
  qed
qed simp

subsection \<open>Lookup along a path without links\<close>

fun walk :: "heap \<Rightarrow> nat \<Rightarrow> string list \<Rightarrow> nat option" where
  "walk h i [] = Some i"
| "walk h i (p # ps) =
     (case A_CONTENTS (h i) of
        Entries ids \<Rightarrow> (case filter (\<lambda>x. A_NAME (h x) = p) ids of
            [x] \<Rightarrow> if A_TYPE (h x) = T_LINK then None else walk h x ps
          | _ \<Rightarrow> None)
      | Blob _ \<Rightarrow> None)"

text \<open>The entries passed on the way, the last one excepted.\<close>

fun trail :: "heap \<Rightarrow> nat \<Rightarrow> string list \<Rightarrow> nat list" where
  "trail h i [] = []"
| "trail h i (p # ps) =
     i # (case A_CONTENTS (h i) of
        Entries ids \<Rightarrow> (case filter (\<lambda>x. A_NAME (h x) = p) ids of
            [x] \<Rightarrow> trail h x ps
          | _ \<Rightarrow> [])
      | Blob _ \<Rightarrow> [])"

lemma walk_Cons_iff [vfs_simps]:
  "walk h i (p # ps) = Some j \<longleftrightarrow>
     (\<exists>ids x. A_CONTENTS (h i) = Entries ids \<and> filter (\<lambda>x. A_NAME (h x) = p) ids = [x]
        \<and> A_TYPE (h x) \<noteq> T_LINK \<and> walk h x ps = Some j)"
  by (auto split: contents.splits list.splits if_splits)

declare walk.simps(2) [simp del]

lemma walk_append: "walk h i (ps @ qs) = (case walk h i ps of None \<Rightarrow> None | Some j \<Rightarrow> walk h j qs)"
  by (induction ps arbitrary: i)
     (auto simp: walk.simps(2) split: contents.splits list.splits if_splits)

lemma filter_single_find: "filter P ids = [x] \<Longrightarrow> find P ids = Some x"
  by (induction ids) (auto split: if_splits)

lemma last_match_none: "filter (\<lambda>x. A_NAME (h x) = piece) ids = [] \<Longrightarrow> last_match t h piece ids p = Inr (Some p)"
  by (induction ids) (auto split: if_splits)

lemma last_match_unique:
  "filter (\<lambda>x. A_NAME (h x) = piece) ids = [x] \<Longrightarrow> t x = Inr (Some q) \<Longrightarrow>
   last_match t h piece ids p = Inr (Some q)"
  by (induction ids) (auto simp: last_match_none split: if_splits)

lemma filter_single_mem: "filter P ids = [x] \<Longrightarrow> P x \<and> x \<in> set ids"
proof -
  assume "filter P ids = [x]"
  then have "set (filter P ids) = {x}" by simp
  then show ?thesis by auto
qed

lemma filter_single_name:
  "filter (\<lambda>x. A_NAME (h x) = piece) ids = [x] \<Longrightarrow> piece \<in> (\<lambda>x. A_NAME (h x)) ` set ids"
  using filter_single_mem by fastforce

lemma getfile_steps_walk:
  "walk h i ps = Some j \<Longrightarrow> getfile_steps rec h follow l (ps @ qs) i = getfile_steps rec h follow l qs j"
proof (induction ps arbitrary: i)
  case (Cons p ps)
  then obtain ids x where x: "A_CONTENTS (h i) = Entries ids" "filter (\<lambda>x. A_NAME (h x) = p) ids = [x]"
    "A_TYPE (h x) \<noteq> T_LINK" "walk h x ps = Some j" by (auto simp: walk_Cons_iff)
  have "last_match (entry_target rec h (p = l \<and> \<not> follow)) h p ids i = Inr (Some x)"
    by (rule last_match_unique [OF x(2)]) (simp add: entry_target_def x(3))
  with x(1) filter_single_name [OF x(2)] Cons.IH [OF x(4)] show ?case
    by (simp add: entries_def)
qed simp

lemma get_path_steps_walk:
  "\<forall>p \<in> set ps. p \<noteq> [] \<Longrightarrow> walk h i ps = Some j \<Longrightarrow>
   get_path_steps rec h (ps @ qs) i = get_path_steps rec h qs j"
  by (induction ps arbitrary: i)
     (auto simp: walk_Cons_iff entries_def dest!: filter_single_find)

lemma getfile_walk_gen:
  assumes "\<forall>x \<in> set (ps @ qs). good_piece x" "walk (heap s) root ps = Some j" "0 < frames s"
  shows "getfile s (path_of (ps @ qs)) follow =
    (if ps @ qs = [] then Inr (Some root)
     else getfile_steps (\<lambda>t. getfile_at (frames s - 1) (heap s) t follow) (heap s) follow
            (last (ps @ qs)) qs j)"
proof -
  obtain n where n: "frames s = Suc n" using assms(3) by (cases "frames s") auto
  show ?thesis
    using path_of_root_iff [OF assms(1)] path_pieces_path_of [OF assms(1)] assms(2)
    by (auto simp: getfile_def n getfile_steps_walk)
qed

lemma getfile_walk [vfs_simps]:
  assumes "\<forall>x \<in> set ps. good_piece x" "walk (heap s) root ps = Some j" "0 < frames s"
  shows "getfile s (path_of ps) follow = Inr (Some j)"
  using getfile_walk_gen [of ps "[]" s j follow] assms by auto

lemma getfile_absent [vfs_simps]:
  assumes "\<forall>x \<in> set (ps @ q # qs). good_piece x" "walk (heap s) root ps = Some j" "0 < frames s"
    "A_CONTENTS (heap s j) = Entries ids" "q \<notin> (\<lambda>x. A_NAME (heap s x)) ` set ids"
  shows "getfile s (path_of (ps @ q # qs)) follow = Inr None"
  using getfile_walk_gen [of ps "q # qs" s j follow] assms by (simp add: entries_def)

lemma get_path_of_steps:
  assumes "\<forall>x \<in> set ps. good_piece x"
  shows "get_path s (path_of ps) fl = get_path_steps (\<lambda>t. getfile s t fl) (heap s) ps root"
proof (cases "ps = []")
  case True
  then show ?thesis by (simp add: get_path_def path_of_def)
next
  case False
  with assms show ?thesis by (simp add: get_path_def split_path_of)
qed

lemma get_path_walk [vfs_simps]:
  assumes "\<forall>x \<in> set ps. good_piece x" "walk (heap s) root ps = Some j"
  shows "get_path s (path_of ps) fl = Inr j"
  using get_path_steps_walk [of ps "heap s" root j "\<lambda>t. getfile s t fl" "[]"] assms
  by (auto simp: get_path_of_steps good_piece_def)

lemma get_path_absent [vfs_simps]:
  assumes "\<forall>x \<in> set (ps @ q # qs). good_piece x" "walk (heap s) root ps = Some j"
    "A_CONTENTS (heap s j) = Entries ids" "q \<notin> (\<lambda>x. A_NAME (heap s x)) ` set ids"
  shows "get_path s (path_of (ps @ q # qs)) fl = Inl FileNotFound"
proof -
  have "find (\<lambda>c. A_NAME (heap s c) = q) ids = None" using assms(4) by (auto simp: find_None_iff)
  moreover have "\<forall>x \<in> set ps. x \<noteq> []" "q \<noteq> []" using assms(1) by (auto simp: good_piece_def)
  ultimately show ?thesis
    using get_path_steps_walk [of ps "heap s" root j _ "q # qs"] assms
    by (simp add: get_path_of_steps entries_def)
qed

lemma rev_join_snoc: "rev (join_with ''/'' (ps @ [f])) =
    rev f @ (if ps = [] then [] else CHR ''/'' # rev (join_with ''/'' ps))"
proof (induction ps)
  case (Cons p ps)
  then show ?case by (cases ps) simp_all
qed simp

lemma takeWhile_piece: "good_piece f \<Longrightarrow> takeWhile (\<lambda>c. c \<noteq> CHR ''/'') (rev f @ CHR ''/'' # r) = rev f"
  by (subst takeWhile_append2) (auto simp: good_piece_def)

lemma dropWhile_piece: "good_piece f \<Longrightarrow> dropWhile (\<lambda>c. c \<noteq> CHR ''/'') (rev f @ CHR ''/'' # r) = CHR ''/'' # r"
  by (subst dropWhile_append2) (auto simp: good_piece_def)

lemma basename_path_of [vfs_simps]: "good_piece f \<Longrightarrow> basename (path_of (ps @ [f])) = f"
  by (cases "ps = []") (simp_all add: basename_def path_of_def rev_join_snoc takeWhile_piece)

lemma dirname_path_of [vfs_simps]:
  assumes "\<forall>x \<in> set (ps @ [f]). good_piece x"
  shows "dirname (path_of (ps @ [f])) = path_of ps"
proof (cases "ps = []")
  case True
  then show ?thesis using assms by (simp add: dirname_def path_of_def dropWhile_piece Let_def)
next
  case False
  have "rev (path_of (ps @ [f])) = rev f @ CHR ''/'' # rev (path_of ps)"
    using False by (simp add: path_of_def rev_join_snoc)
  then have d: "rev (dropWhile (\<lambda>c. c \<noteq> CHR ''/'') (rev (path_of (ps @ [f])))) = path_of ps @ ''/''"
    using assms by (simp add: dropWhile_piece)
  have l: "path_of ps \<noteq> [] \<and> last (path_of ps) \<noteq> CHR ''/''"
    using join_pieces_slash [OF False] assms by (simp add: path_of_def)
  then have "\<not> list_all slash (path_of ps @ ''/'')" by (cases "path_of ps" rule: rev_cases) simp_all
  moreover have "rstrip_chars slash (path_of ps @ ''/'') = path_of ps"
    using l rstrip_id [of "path_of ps" slash] by (simp add: rstrip_chars_def)
  ultimately show ?thesis by (simp only: dirname_def d Let_def if_False)
qed

subsection \<open>The store\<close>

definition closed_heap :: "heap \<Rightarrow> nat \<Rightarrow> bool" where
  "closed_heap h n \<longleftrightarrow> (\<forall>k < n. \<forall>ids. A_CONTENTS (h k) = Entries ids \<longrightarrow> (\<forall>x \<in> set ids. x < n))"

definition fs_ok :: "filesystem \<Rightarrow> bool" where
  "fs_ok s \<longleftrightarrow> 0 < fresh s \<and> closed_heap (heap s) (fresh s) \<and> A_TYPE (heap s root) = T_DIR
     \<and> newcount s \<le> 10001"

text \<open>Two heaps that agree on names and types below \<open>n\<close>, and on contents except at \<open>d\<close>.\<close>

definition agree_but :: "nat \<Rightarrow> nat \<Rightarrow> heap \<Rightarrow> heap \<Rightarrow> bool" where
  "agree_but d n h h' \<longleftrightarrow>
     (\<forall>k < n. A_NAME (h' k) = A_NAME (h k) \<and> A_TYPE (h' k) = A_TYPE (h k)
        \<and> (k \<noteq> d \<longrightarrow> A_CONTENTS (h' k) = A_CONTENTS (h k)))"

lemma agree_filter:
  "agree_but d n h h' \<Longrightarrow> \<forall>x \<in> set ids. x < n \<Longrightarrow>
   filter (\<lambda>x. A_NAME (h' x) = p) ids = filter (\<lambda>x. A_NAME (h x) = p) ids"
  by (rule filter_cong) (auto simp: agree_but_def)

lemma walk_trail_frame:
  assumes "agree_but d n h h'" "closed_heap h n" "i < n" "walk h i ps = Some j" "d \<notin> set (trail h i ps)"
  shows "walk h' i ps = Some j \<and> trail h' i ps = trail h i ps \<and> j < n"
  using assms(3-)
proof (induction ps arbitrary: i)
  case (Cons p ps)
  then obtain ids x where x: "A_CONTENTS (h i) = Entries ids" "filter (\<lambda>x. A_NAME (h x) = p) ids = [x]"
    "A_TYPE (h x) \<noteq> T_LINK" "walk h x ps = Some j" by (auto simp: walk_Cons_iff)
  have ids: "\<forall>x \<in> set ids. x < n" using assms(2) Cons.prems(1) x(1) by (auto simp: closed_heap_def)
  have "x \<in> set (filter (\<lambda>x. A_NAME (h x) = p) ids)" by (simp add: x(2))
  then have xn: "x < n" using ids by simp
  have i: "i \<noteq> d" "d \<notin> set (trail h x ps)" using Cons.prems(3) x by simp_all
  then have c: "A_CONTENTS (h' i) = Entries ids" using assms(1) Cons.prems(1) x(1) by (simp add: agree_but_def)
  have f: "filter (\<lambda>x. A_NAME (h' x) = p) ids = [x]" using agree_filter [OF assms(1) ids] x(2) by simp
  have t: "A_TYPE (h' x) \<noteq> T_LINK" using assms(1) xn x(3) by (simp add: agree_but_def)
  from Cons.IH [OF xn x(4) i(2)] show ?case
    using c f t x by (simp add: walk_Cons_iff)
qed (use assms in simp)

text \<open>A directory reached without links, whose own contents are not passed on the way.\<close>

definition at_dir :: "filesystem \<Rightarrow> string list \<Rightarrow> nat \<Rightarrow> nat list \<Rightarrow> bool" where
  "at_dir s ps d ids \<longleftrightarrow>
     (\<forall>x \<in> set ps. good_piece x) \<and> walk (heap s) root ps = Some d \<and> d \<notin> set (trail (heap s) root ps)
     \<and> A_CONTENTS (heap s d) = Entries ids \<and> 0 < frames s"

lemma at_dirD [vfs_simps]:
  assumes "at_dir s ps d ids"
  shows "\<forall>x \<in> set ps. good_piece x" "walk (heap s) root ps = Some d"
    "d \<notin> set (trail (heap s) root ps)" "A_CONTENTS (heap s d) = Entries ids" "0 < frames s"
  using assms by (simp_all add: at_dir_def)

lemma at_dir_fresh: "at_dir s ps d ids \<Longrightarrow> fs_ok s \<Longrightarrow> d < fresh s \<and> (\<forall>x \<in> set ids. x < fresh s)"
  using walk_trail_frame [of d "fresh s" "heap s" "heap s" root ps d]
  by (auto simp: at_dir_def fs_ok_def agree_but_def closed_heap_def)

lemma at_dir_update:
  assumes "at_dir s ps d ids" "fs_ok s" "agree_but d (fresh s) (heap s) (heap s')" "frames s' = frames s"
    "A_CONTENTS (heap s' d) = Entries ids'"
  shows "at_dir s' ps d ids'"
  using assms walk_trail_frame [OF assms(3), of root ps d]
  by (auto simp: at_dir_def fs_ok_def)

lemma at_dir_paths [vfs_simps]:
  assumes "at_dir s ps d ids"
  shows "get_path s (path_of ps) fl = Inr d" "getfile s (path_of ps) fl = Inr (Some d)"
    "listdir s (path_of ps) = Inr (map (\<lambda>x. A_NAME (heap s x)) ids)"
    "entries (heap s) d = Inr ids" "entry_list (heap s) d = Inr ids"
    "good_piece f \<Longrightarrow> dirname (path_of (ps @ [f])) = path_of ps"
    "good_piece f \<Longrightarrow> basename (path_of (ps @ [f])) = f"
  using at_dirD [OF assms] dirname_path_of [of ps f]
  by (simp_all add: get_path_walk getfile_walk listdir_def entries_def entry_list_def basename_path_of)

lemma at_dir_child [vfs_simps]:
  assumes "at_dir s ps d ids" "good_piece f" "filter (\<lambda>x. A_NAME (heap s x) = f) ids = [x]"
    "A_TYPE (heap s x) \<noteq> T_LINK"
  shows "getfile s (path_of (ps @ [f])) follow = Inr (Some x)"
  using at_dirD [OF assms(1)] assms
  by (intro getfile_walk) (auto simp: walk_append walk_Cons_iff)

lemma at_dir_no_child [vfs_simps]:
  assumes "at_dir s ps d ids" "good_piece f" "f \<notin> (\<lambda>x. A_NAME (heap s x)) ` set ids"
  shows "getfile s (path_of (ps @ [f])) follow = Inr None"
  using at_dirD [OF assms(1)] assms(2,3) by (intro getfile_absent [where ids = ids and j = d]) auto

subsection \<open>Adding and removing entries\<close>

lemma set_entries_same: "A_CONTENTS (heap s d) = Entries ids \<Longrightarrow> set_entries d ids s = s"
  by (simp add: set_entries_def fun_upd_idem)

lemma add_node_eq:
  assumes "entry_list (heap s) d = Inr ids" "d < fresh s"
  shows "add_node d n s =
    (s\<lparr>heap := (heap s)(fresh s := n, d := (heap s d)\<lparr>A_CONTENTS := Entries (ids @ [fresh s])\<rparr>),
       fresh := Suc (fresh s), newcount := Suc (newcount s)\<rparr>, Inr ())"
  using assms by (simp add: add_node_def alloc_def append_entry_def set_entries_def entry_list_def)

lemma list_remove_named:
  "filter (\<lambda>x. A_NAME (h x) = f) ids = [x] \<Longrightarrow> 0 < n \<Longrightarrow>
   list_remove (\<lambda>y. py_eq n h y x) x ids = Inr (filter (\<lambda>x. A_NAME (h x) \<noteq> f) ids)"
proof (induction ids)
  case (Cons y ys)
  have xf: "A_NAME (h x) = f"
    using filter_single_mem [OF Cons.prems(1)] by simp
  show ?case
  proof (cases "A_NAME (h y) = f")
    case True
    with Cons.prems have "y = x" "filter (\<lambda>x. A_NAME (h x) = f) ys = []" by simp_all
    moreover from this have "filter (\<lambda>x. A_NAME (h x) \<noteq> f) ys = ys"
      by (auto simp: filter_empty_conv intro!: filter_True)
    ultimately show ?thesis using True by simp
  next
    case False
    then have "y \<noteq> x" using xf by auto
    moreover have "py_eq n h y x = Inr False"
      using False xf Cons.prems(2) by (cases n) (auto simp: same_scalars_def)
    ultimately show ?thesis using Cons False by simp
  qed
qed simp

lemma remove_entry_named:
  assumes "A_CONTENTS (heap s d) = Entries ids" "filter (\<lambda>x. A_NAME (heap s x) = f) ids = [x]" "0 < frames s"
  shows "remove_entry d x s = (set_entries d (filter (\<lambda>x. A_NAME (heap s x) \<noteq> f) ids) s, Inr ())"
  using assms by (simp add: remove_entry_def entry_list_def list_remove_named)

lemma drop_named_eq:
  assumes "A_CONTENTS (heap s d) = Entries ids" "length (filter (\<lambda>x. A_NAME (heap s x) = f) ids) \<le> 1"
    "0 < frames s"
  shows "drop_named d f s = (set_entries d (filter (\<lambda>x. A_NAME (heap s x) \<noteq> f) ids) s, Inr ())"
proof (cases "filter (\<lambda>x. A_NAME (heap s x) = f) ids")
  case Nil
  then have n: "\<forall>x \<in> set ids. A_NAME (heap s x) \<noteq> f" by (simp add: filter_empty_conv)
  then have "find (\<lambda>x. A_NAME (heap s x) = f) ids = None" by (auto simp: find_None_iff)
  moreover have "filter (\<lambda>x. A_NAME (heap s x) \<noteq> f) ids = ids" using n by (simp add: filter_True)
  ultimately show ?thesis using assms(1) by (simp add: drop_named_def entries_def set_entries_same)
next
  case (Cons x xs)
  with assms(2) have "filter (\<lambda>x. A_NAME (heap s x) = f) ids = [x]" by simp
  with assms show ?thesis
    by (simp add: drop_named_def entries_def filter_single_find remove_entry_named)
qed

lemma agree_set_entries: "agree_but d n (heap s) (heap (set_entries d ids s))"
  by (simp add: agree_but_def set_entries_def)

lemma set_entries_simps [simp]:
  "frames (set_entries d ids s) = frames s" "fresh (set_entries d ids s) = fresh s"
  "newcount (set_entries d ids s) = newcount s" "disk (set_entries d ids s) = disk s"
  "home (set_entries d ids s) = home s" "tempfiles (set_entries d ids s) = tempfiles s"
  "filenames (set_entries d ids s) = filenames s" "arch (set_entries d ids s) = arch s"
  "A_NAME (heap (set_entries d ids s) k) = A_NAME (heap s k)"
  "A_TYPE (heap (set_entries d ids s) k) = A_TYPE (heap s k)"
  "A_CONTENTS (heap (set_entries d ids s) k) = (if k = d then Entries ids else A_CONTENTS (heap s k))"
  by (simp_all add: set_entries_def)

end
