(* ===== verification/Vfs_Main.thy ===== *)
theory Vfs_Main
  imports Vfs_Props
begin

section \<open>Properties of the virtual file system\<close>

text \<open>
  Creating, removing and renaming entries, uploads over SFTP, and the invariant of every run.
\<close>

unbundle bit_operations_syntax

subsection \<open>Creating files\<close>

text \<open>The state after an entry has been added to a directory.\<close>

definition add_state :: "nat \<Rightarrow> nat list \<Rightarrow> node \<Rightarrow> filesystem \<Rightarrow> filesystem" where
  "add_state d ids n s =
     s\<lparr>heap := (heap s)(fresh s := n, d := (heap s d)\<lparr>A_CONTENTS := Entries (ids @ [fresh s])\<rparr>),
       fresh := Suc (fresh s), newcount := Suc (newcount s)\<rparr>"

lemma add_state_simps [simp]:
  "frames (add_state d ids n s) = frames s" "fresh (add_state d ids n s) = Suc (fresh s)"
  "newcount (add_state d ids n s) = Suc (newcount s)" "disk (add_state d ids n s) = disk s"
  "home (add_state d ids n s) = home s" "tempfiles (add_state d ids n s) = tempfiles s"
  "filenames (add_state d ids n s) = filenames s"
  by (simp_all add: add_state_def)

lemma add_state_heap:
  "d < fresh s \<Longrightarrow> heap (add_state d ids n s) (fresh s) = n"
  "k \<noteq> d \<Longrightarrow> k \<noteq> fresh s \<Longrightarrow> heap (add_state d ids n s) k = heap s k"
  "A_CONTENTS (heap (add_state d ids n s) d) = Entries (ids @ [fresh s])"
  by (simp_all add: add_state_def)

lemma add_state_agree: "agree_but d (fresh s) (heap s) (heap (add_state d ids n s))"
  by (auto simp: agree_but_def add_state_def)

lemma add_state_set_entries: "add_state d ids n (set_entries d js s) = add_state d ids n s"
  by (simp add: add_state_def set_entries_def fun_upd_twist)

lemma add_state_names:
  "\<forall>x \<in> set ids. x < fresh s \<Longrightarrow> d < fresh s \<Longrightarrow>
   map (\<lambda>x. A_NAME (heap (add_state d ids' n s) x)) ids = map (\<lambda>x. A_NAME (heap s x)) ids"
  using add_state_agree [of d s ids' n] by (auto simp: agree_but_def)

lemma add_state_child:
  assumes "at_dir s ps d ids" "fs_ok s" "set js \<subseteq> set ids" "f \<notin> (\<lambda>x. A_NAME (heap s x)) ` set js"
    "A_NAME n = f"
  shows "filter (\<lambda>x. A_NAME (heap (add_state d js n s) x) = f) (js @ [fresh s]) = [fresh s]"
proof -
  have fr: "d < fresh s" "\<forall>x \<in> set js. x < fresh s" using at_dir_fresh [OF assms(1,2)] assms(3) by auto
  have "filter (\<lambda>x. A_NAME (heap (add_state d js n s) x) = f) js = filter (\<lambda>x. A_NAME (heap s x) = f) js"
    by (rule agree_filter [OF add_state_agree fr(2)])
  also have "\<dots> = []" using assms(4) by (auto simp: filter_empty_conv)
  finally show ?thesis using add_state_heap(1) [OF fr(1)] assms(5) by simp
qed

lemma add_node_state:
  "entry_list (heap s) d = Inr ids \<Longrightarrow> d < fresh s \<Longrightarrow> add_node d n s = (add_state d ids n s, Inr ())"
  by (simp add: add_node_eq add_state_def)

lemma add_node_at:
  assumes "at_dir s ps d ids" "fs_ok s"
  shows "add_node d n s = (add_state d ids n s, Inr ())"
  using at_dir_fresh [OF assms] at_dir_paths(5) [OF assms(1)]
  by (simp add: add_node_state)

definition special :: "string \<Rightarrow> bool" where
  "special p \<longleftrightarrow> list_ex (starts_with p) SPECIAL_PATHS"

lemma mkfile_eq:
  assumes "at_dir s ps d ids" "fs_ok s" "good_piece f" "\<not> special (path_of ps)" "newcount s \<le> 10000"
    "length (filter (\<lambda>x. A_NAME (heap s x) = f) ids) \<le> 1"
  shows "mkfile (path_of (ps @ [f])) uid gid sz mode t s =
    (add_state d (filter (\<lambda>x. A_NAME (heap s x) \<noteq> f) ids) (new_node f T_FILE uid gid sz mode t) s,
     Inr True)"
proof -
  let ?js = "filter (\<lambda>x. A_NAME (heap s x) \<noteq> f) ids"
  note ps = at_dir_paths [OF assms(1)]
  have dn: "drop_named d f s = (set_entries d ?js s, Inr ())"
    using at_dirD(4,5) [OF assms(1)] assms(6) by (intro drop_named_eq)
  have "d < fresh s" using at_dir_fresh [OF assms(1,2)] by simp
  then have "add_node d n (set_entries d ?js s) = (add_state d ?js n s, Inr ())" for n
    using add_node_state [of "set_entries d ?js s" d ?js n]
    by (simp add: entry_list_def add_state_set_entries)
  then show ?thesis
    using assms(4,5) ps(1) ps(6,7) [OF assms(3)]
    by (simp add: mkfile_def special_def [symmetric] Let_def dn)
qed

text \<open>C38: Creating a file in a directory reached without links succeeds, replaces an entry of that
  name, counts against the quota, and afterwards a lookup of the path finds exactly the new entry
  and the directory lists the old names without it and then the new one; every other entry of the
  file system is as it was.\<close>

theorem mkfile_then_lookup:
  assumes "at_dir s ps d ids" "fs_ok s" "good_piece f" "\<not> special (path_of ps)" "newcount s \<le> 10000"
    "length (filter (\<lambda>x. A_NAME (heap s x) = f) ids) \<le> 1"
    "mkfile (path_of (ps @ [f])) uid gid sz mode t s = (s', r)"
  shows "r = Inr True
    \<and> getfile s' (path_of (ps @ [f])) follow = Inr (Some (fresh s))
    \<and> heap s' (fresh s) = new_node f T_FILE uid gid sz mode t
    \<and> listdir s' (path_of ps) = Inr (filter (\<lambda>n. n \<noteq> f) (map (\<lambda>x. A_NAME (heap s x)) ids) @ [f])
    \<and> newcount s' = Suc (newcount s)
    \<and> (\<forall>k. k \<noteq> d \<and> k \<noteq> fresh s \<longrightarrow> heap s' k = heap s k)"
proof -
  let ?js = "filter (\<lambda>x. A_NAME (heap s x) \<noteq> f) ids"
  let ?n = "new_node f T_FILE uid gid sz mode t"
  have s': "s' = add_state d ?js ?n s" "r = Inr True"
    using mkfile_eq [OF assms(1-6)] assms(7) by simp_all
  have fr: "d < fresh s" "\<forall>x \<in> set ids. x < fresh s" using at_dir_fresh [OF assms(1,2)] by auto
  have at: "at_dir s' ps d (?js @ [fresh s])"
    unfolding s' by (rule at_dir_update [OF assms(1,2) add_state_agree]) (simp_all add: add_state_heap)
  have one: "filter (\<lambda>x. A_NAME (heap s' x) = f) (?js @ [fresh s]) = [fresh s]"
    unfolding s' by (rule add_state_child [OF assms(1,2)]) (auto simp: new_node_def)
  have node: "heap s' (fresh s) = ?n" unfolding s' by (rule add_state_heap(1) [OF fr(1)])
  have "getfile s' (path_of (ps @ [f])) follow = Inr (Some (fresh s))"
    by (rule at_dir_child [OF at assms(3) one]) (simp add: node new_node_def)
  moreover have "map (\<lambda>x. A_NAME (heap s' x)) ?js = filter (\<lambda>n. n \<noteq> f) (map (\<lambda>x. A_NAME (heap s x)) ids)"
    unfolding s' using fr by (subst add_state_names) (auto simp: filter_map comp_def)
  ultimately show ?thesis
    using at_dir_paths(3) [OF at] node s' by (simp add: add_state_heap new_node_def)
qed

text \<open>A small file system for the examples: a root with a directory \<open>tmp\<close> and a link to it.\<close>

definition example_fs :: filesystem where
  "example_fs =
     \<lparr>heap = (\<lambda>_. new_node [] T_FILE 0 0 0 0 0)
        (0 := (new_node ''/'' T_DIR 0 0 4096 16877 0)\<lparr>A_CONTENTS := Entries [1, 2]\<rparr>,
         1 := new_node ''tmp'' T_DIR 0 0 4096 16877 0,
         2 := (new_node ''t'' T_LINK 0 0 0 0xA1FF 0)\<lparr>A_TARGET := Some ''tmp''\<rparr>),
      fresh = 3, arch = ''linux-x64-lsb'', home = ''/root'', tempfiles = [], filenames = [],
      newcount = 0, frames = 100, disk = Map.empty\<rparr>"

lemma example_fs_ok: "fs_ok example_fs"
  unfolding fs_ok_def closed_heap_def
  by (auto simp: example_fs_def new_node_def less_Suc_eq numeral_3_eq_3 split: if_splits)

lemma example_at_tmp: "at_dir example_fs [''tmp''] 1 []"
  by (simp add: at_dir_def example_fs_def new_node_def walk.simps(2) good_piece_def)

theorem mkfile_then_lookup_witness:
  "\<exists>s'. mkfile ''/tmp/x'' 0 0 5 33188 7 example_fs = (s', Inr True)
     \<and> getfile s' ''/tmp/x'' True = Inr (Some 3)"
proof -
  obtain s' r where m: "mkfile (path_of ([''tmp''] @ [''x''])) 0 0 5 33188 7 example_fs = (s', r)"
    by fastforce
  have g: "good_piece ''x''" by (simp add: good_piece_def)
  have sp: "\<not> special (path_of [''tmp''])" by (simp add: special_def path_of_def SPECIAL_PATHS_def)
  have "r = Inr True \<and> getfile s' (path_of ([''tmp''] @ [''x''])) True = Inr (Some 3)"
    using mkfile_then_lookup [OF example_at_tmp example_fs_ok g sp _ _ m, of True]
    by (simp add: example_fs_def)
  with m show ?thesis by (auto simp: path_of_def)
qed

subsection \<open>Directories\<close>

lemma get_path_relative: "get_path s (CHR ''/'' # p) fl = get_path s p fl"
  by (simp add: get_path_def)

lemma dirname_join:
  assumes "\<forall>x \<in> set (ps @ [f]). good_piece x"
  shows "dirname (join_with ''/'' (ps @ [f])) = join_with ''/'' ps"
proof (cases "ps = []")
  case True
  have "dropWhile (\<lambda>c. c \<noteq> CHR ''/'') (rev f) = []"
    using assms by (auto simp: good_piece_def dropWhile_eq_Nil_conv)
  then have "dirname f = []" unfolding dirname_def by (simp only: Let_def) simp
  then show ?thesis using True by simp
next
  case False
  have "rev (join_with ''/'' (ps @ [f])) = rev f @ CHR ''/'' # rev (join_with ''/'' ps)"
    using False by (simp add: rev_join_snoc)
  then have d: "rev (dropWhile (\<lambda>c. c \<noteq> CHR ''/'') (rev (join_with ''/'' (ps @ [f]))))
      = join_with ''/'' ps @ ''/''"
    using assms by (simp add: dropWhile_piece)
  have l: "join_with ''/'' ps \<noteq> [] \<and> last (join_with ''/'' ps) \<noteq> CHR ''/''"
    using join_pieces_slash [OF False] assms by simp
  then have "\<not> list_all slash (join_with ''/'' ps @ ''/'')"
    by (cases "join_with ''/'' ps" rule: rev_cases) simp_all
  moreover have "rstrip_chars slash (join_with ''/'' ps @ ''/'') = join_with ''/'' ps"
    using l rstrip_id [of "join_with ''/'' ps" slash] by (simp add: rstrip_chars_def)
  ultimately show ?thesis by (simp only: dirname_def d Let_def if_False)
qed

lemma mkdir2_eq:
  assumes "at_dir s ps d ids" "fs_ok s" "good_piece f" "newcount s \<le> 10000"
    "f \<notin> (\<lambda>x. A_NAME (heap s x)) ` set ids"
  shows "mkdir2 t (path_of (ps @ [f])) s = (add_state d ids (new_node f T_DIR 0 0 4096 16877 t) s, Inr ())"
proof -
  have g: "\<forall>x \<in> set (ps @ [f]). good_piece x" using assms(3) at_dirD(1) [OF assms(1)] by simp
  have "strip_chars slash (path_of (ps @ [f])) = join_with ''/'' (ps @ [f])"
    using strip_path_of [OF g] by simp
  moreover have "join_with ''/'' (ps @ [f]) \<noteq> []" using join_pieces_slash [OF _ g] by simp
  moreover have "get_path s (join_with ''/'' ps) True = Inr d"
    using at_dir_paths(1) [OF assms(1), of True] by (simp add: path_of_def get_path_relative)
  ultimately show ?thesis
    using at_dir_no_child [OF assms(1,3,5)] assms(3,4) add_node_at [OF assms(1,2)]
    by (simp add: mkdir2_def mkdir_def dirname_join [OF g] basename_path_of)
qed

lemma rmdir_eq:
  assumes "at_dir s ps d ids" "good_piece f" "filter (\<lambda>x. A_NAME (heap s x) = f) ids = [x]"
    "A_TYPE (heap s x) = T_DIR" "A_CONTENTS (heap s x) = Entries []"
  shows "rmdir (path_of (ps @ [f])) s
    = (set_entries d (filter (\<lambda>x. A_NAME (heap s x) \<noteq> f) ids) s, Inr True)"
proof -
  note a = at_dirD [OF assms(1)]
  have g: "\<forall>x \<in> set (ps @ [f]). good_piece x" using assms(2) a(1) by simp
  have w: "walk (heap s) root (ps @ [f]) = Some x" using a assms by (simp add: walk_append walk_Cons_iff)
  show ?thesis
    using at_dir_paths [OF assms(1)] at_dir_child [OF assms(1-3)] get_path_walk [OF g w]
      filter_single_find [OF assms(3)] remove_entry_named [OF a(4) assms(3) a(5)] assms
    by (simp add: rmdir_def rstrip_path_of [OF g] contents_len_def)
qed

text \<open>Making a directory and removing it again is the identity: after \<open>mkdir2\<close> the path is an
  empty directory, \<open>rmdir\<close> succeeds on it, and then the path is gone and every entry that existed
  before is exactly as it was.\<close>

theorem mkdir_rmdir_roundtrip:
  assumes "at_dir s ps d ids" "fs_ok s" "good_piece f" "newcount s \<le> 10000"
    "f \<notin> (\<lambda>x. A_NAME (heap s x)) ` set ids"
    "mkdir2 t (path_of (ps @ [f])) s = (s1, r1)" "rmdir (path_of (ps @ [f])) s1 = (s2, r2)"
  shows "r1 = Inr () \<and> isdir s1 (path_of (ps @ [f])) \<and> listdir s1 (path_of (ps @ [f])) = Inr []
    \<and> r2 = Inr True \<and> lexists s2 (path_of (ps @ [f])) = Inr False
    \<and> (\<forall>k. k \<noteq> fresh s \<longrightarrow> heap s2 k = heap s k)"
proof -
  let ?n = "new_node f T_DIR 0 0 4096 16877 t"
  note a = at_dirD [OF assms(1)]
  have s1: "s1 = add_state d ids ?n s" "r1 = Inr ()"
    using mkdir2_eq [OF assms(1-5)] assms(6) by simp_all
  have fr: "d < fresh s" "\<forall>x \<in> set ids. x < fresh s" using at_dir_fresh [OF assms(1,2)] by auto
  have at: "at_dir s1 ps d (ids @ [fresh s])"
    unfolding s1 by (rule at_dir_update [OF assms(1,2) add_state_agree]) (simp_all add: add_state_heap)
  have one: "filter (\<lambda>x. A_NAME (heap s1 x) = f) (ids @ [fresh s]) = [fresh s]"
    unfolding s1 by (rule add_state_child [OF assms(1,2) _ assms(5)]) (auto simp: new_node_def)
  have node: "heap s1 (fresh s) = ?n" unfolding s1 by (rule add_state_heap(1) [OF fr(1)])
  have dir: "A_TYPE (heap s1 (fresh s)) = T_DIR" "A_CONTENTS (heap s1 (fresh s)) = Entries []"
    by (simp_all add: node new_node_def)
  have g: "\<forall>x \<in> set (ps @ [f]). good_piece x" using assms(3) a(1) by simp
  have w: "walk (heap s1) root (ps @ [f]) = Some (fresh s)"
    using at_dirD [OF at] one dir by (simp add: walk_append walk_Cons_iff)
  have names: "\<forall>x \<in> set ids. A_NAME (heap s1 x) \<noteq> f"
    using add_state_agree [of d s ids ?n] fr(2) assms(5) by (auto simp: s1 agree_but_def)
  have js: "filter (\<lambda>x. A_NAME (heap s1 x) \<noteq> f) (ids @ [fresh s]) = ids"
    using names by (simp add: node new_node_def filter_True)
  have s2: "s2 = set_entries d ids s1" "r2 = Inr True"
    using rmdir_eq [OF at assms(3) one dir, unfolded js] assms(7) by simp_all
  have at2: "at_dir s2 ps d ids"
    unfolding s2 using at_dir_update [OF assms(1,2), of "set_entries d ids s1" ids]
    by (simp add: s1 agree_but_def add_state_def)
  have "f \<notin> (\<lambda>x. A_NAME (heap s2 x)) ` set ids" using names by (auto simp: s2)
  then have "lexists s2 (path_of (ps @ [f])) = Inr False"
    using at_dir_no_child [OF at2 assms(3)] by (simp add: lexists_def)
  moreover have "heap s2 k = heap s k" if "k \<noteq> fresh s" for k
  proof (cases "k = d")
    case True
    have "(heap s d)\<lparr>A_CONTENTS := Entries ids\<rparr> = heap s d" by (simp flip: a(4))
    with True fr(1) show ?thesis by (simp add: s2 s1 set_entries_def add_state_def)
  next
    case False
    with that show ?thesis by (simp add: s2 s1 set_entries_def add_state_def)
  qed
  moreover have "isdir s1 (path_of (ps @ [f]))"
    using at_dir_child [OF at assms(3) one] dir by (simp add: isdir_def has_type_def)
  moreover have "listdir s1 (path_of (ps @ [f])) = Inr []"
    using get_path_walk [OF g w] dir by (simp add: listdir_def entries_def)
  ultimately show ?thesis using s1 s2 by blast
qed

theorem mkdir_rmdir_roundtrip_witness:
  "\<exists>s1 s2. mkdir2 9 ''/tmp/x'' example_fs = (s1, Inr ()) \<and> rmdir ''/tmp/x'' s1 = (s2, Inr True)
     \<and> lexists s2 ''/tmp/x'' = Inr False"
proof -
  obtain s1 r1 where m: "mkdir2 9 (path_of ([''tmp''] @ [''x''])) example_fs = (s1, r1)" by fastforce
  obtain s2 r2 where r: "rmdir (path_of ([''tmp''] @ [''x''])) s1 = (s2, r2)" by fastforce
  have g: "good_piece ''x''" by (simp add: good_piece_def)
  have "r1 = Inr () \<and> r2 = Inr True \<and> lexists s2 (path_of ([''tmp''] @ [''x''])) = Inr False"
    using mkdir_rmdir_roundtrip [OF example_at_tmp example_fs_ok g _ _ m r] by (simp add: example_fs_def)
  with m r show ?thesis by (auto simp: path_of_def)
qed

text \<open>\<open>rmdir\<close> never removes anything but an empty directory: if it succeeds, the path was a
  directory without entries and one entry of that name is gone from one directory; otherwise the
  file system is unchanged.\<close>

theorem rmdir_only_empty:
  assumes "rmdir path s = (s', r)"
  shows "(r \<noteq> Inr True \<longrightarrow> s' = s) \<and>
    (r = Inr True \<longrightarrow>
      (\<exists>x e pdir as y bs. getfile s (rstrip_chars slash path) False = Inr (Some x)
        \<and> A_TYPE (heap s x) = T_DIR \<and> get_path s (rstrip_chars slash path) True = Inr e
        \<and> contents_len (heap s) e = 0
        \<and> A_CONTENTS (heap s pdir) = Entries (as @ y # bs)
        \<and> A_NAME (heap s y) = basename (rstrip_chars slash path)
        \<and> s' = set_entries pdir (as @ bs) s))"
proof -
  have rem: "\<exists>as y bs. ids = as @ y # bs \<and> zs = as @ bs \<and> A_NAME (h y) = A_NAME (h x)"
    if "list_remove (\<lambda>y. py_eq n h y x) x ids = Inr zs" for n h x ids zs
    using that
  proof (induction ids arbitrary: zs)
    case (Cons y ys)
    have same: "A_NAME (h y) = A_NAME (h x)" if "py_eq n h y x = Inr True"
      using that by (cases n) (auto simp: same_scalars_def split: if_splits)
    from Cons.prems consider "zs = ys" "A_NAME (h y) = A_NAME (h x)"
      | zs' where "list_remove (\<lambda>y. py_eq n h y x) x ys = Inr zs'" "zs = y # zs'"
      using same by (auto simp: rbind_Inr_iff split: if_splits)
    then show ?case
    proof cases
      case 1
      then show ?thesis by (intro exI [of _ "[]"]) auto
    next
      case 2
      from Cons.IH [OF 2(1)] obtain as w bs
        where "ys = as @ w # bs" "zs' = as @ bs" "A_NAME (h w) = A_NAME (h x)" by blast
      with 2 show ?thesis by (intro exI [of _ "y # as"]) auto
    qed
  qed simp
  have removed: "\<exists>as y bs. A_CONTENTS (heap s d) = Entries (as @ y # bs) \<and> A_NAME (heap s y) = A_NAME (heap s x)
      \<and> s1 = set_entries d (as @ bs) s" if "remove_entry d x s = (s1, Inr ())" for d x s1
    using that
    by (auto simp: remove_entry_def entry_list_def rbind_Inr_iff split: sum.splits contents.splits dest!: rem)
  have kept: "s1 = s" if "remove_entry d x s = (s1, Inl e)" for d x s1 e
    using that by (auto simp: remove_entry_def split: sum.splits)
  have named: "A_NAME (heap s i) = nm" if "find (\<lambda>i. A_NAME (heap s i) = nm) ids = Some i" for nm ids i
    using that by (auto simp: find_Some_iff)
  show ?thesis
    using assms
    by (auto simp: rmdir_def Let_def sbind_def rbind_Inr_iff split: sum.splits option.splits if_splits prod.splits
        dest!: removed kept dest: named) (metis named)+
qed

subsection \<open>Removing and renaming\<close>

lemma getfile_no_follow:
  assumes "at_dir s ps d ids" "good_piece f" "filter (\<lambda>x. A_NAME (heap s x) = f) ids = [x]"
  shows "getfile s (path_of (ps @ [f])) False = Inr (Some x)"
proof -
  note a = at_dirD [OF assms(1)]
  have "\<forall>x \<in> set (ps @ [f]). good_piece x" using assms(2) a(1) by simp
  from getfile_walk_gen [OF this a(2,5)]
    last_match_unique [OF assms(3), of "entry_target r (heap s) True" x for r]
    filter_single_name [OF assms(3)]
  show ?thesis by (simp add: entries_def a(4) entry_target_def)
qed

lemma fs_remove_eq:
  assumes "at_dir s ps d ids" "good_piece f" "filter (\<lambda>x. A_NAME (heap s x) = f) ids = [x]"
  shows "fs_remove (path_of (ps @ [f])) s
    = (set_entries d (filter (\<lambda>x. A_NAME (heap s x) \<noteq> f) ids) s, Inr ())"
  using getfile_no_follow [OF assms] at_dir_paths [OF assms(1)] assms(2)
    remove_entry_named [OF at_dirD(4) [OF assms(1)] assms(3) at_dirD(5) [OF assms(1)]]
  by (simp add: fs_remove_def with_file_def)

lemma at_dir_set_entries:
  assumes "at_dir s ps d ids" "fs_ok s"
  shows "at_dir (set_entries d js s) ps d js"
  by (rule at_dir_update [OF assms agree_set_entries]) simp_all

text \<open>Removing an entry of unique name, a link included, takes exactly that entry out of its
  directory: the path no longer exists, not even as a broken link, the other names of the
  directory stay in order and no other entry changes.\<close>

theorem remove_then_gone:
  assumes "at_dir s ps d ids" "fs_ok s" "good_piece f"
    "filter (\<lambda>x. A_NAME (heap s x) = f) ids = [x]" "fs_remove (path_of (ps @ [f])) s = (s', r)"
  shows "r = Inr () \<and> lexists s' (path_of (ps @ [f])) = Inr False
    \<and> listdir s' (path_of ps) = Inr (filter (\<lambda>n. n \<noteq> f) (map (\<lambda>x. A_NAME (heap s x)) ids))
    \<and> (\<forall>k. k \<noteq> d \<longrightarrow> heap s' k = heap s k)"
proof -
  let ?js = "filter (\<lambda>x. A_NAME (heap s x) \<noteq> f) ids"
  have s': "s' = set_entries d ?js s" "r = Inr ()"
    using fs_remove_eq [OF assms(1,3,4)] assms(5) by simp_all
  have at: "at_dir s' ps d ?js" unfolding s' by (rule at_dir_set_entries [OF assms(1,2)])
  have "lexists s' (path_of (ps @ [f])) = Inr False"
    using at_dir_no_child [OF at assms(3), of False] by (force simp: lexists_def s')
  moreover have "map (\<lambda>x. A_NAME (heap s' x)) ?js = filter (\<lambda>n. n \<noteq> f) (map (\<lambda>x. A_NAME (heap s x)) ids)"
    by (simp add: s' filter_map comp_def)
  ultimately show ?thesis using at_dir_paths(3) [OF at] s' by (simp add: set_entries_def)
qed

lemma example_at_root: "at_dir example_fs [] 0 [1, 2]"
  by (simp add: at_dir_def example_fs_def new_node_def)

theorem remove_then_gone_witness:
  "\<exists>s'. fs_remove ''/t'' example_fs = (s', Inr ()) \<and> lexists s' ''/t'' = Inr False
     \<and> listdir s' ''/'' = Inr [''tmp'']"
proof -
  obtain s' r where m: "fs_remove (path_of ([] @ [''t''])) example_fs = (s', r)" by fastforce
  have g: "good_piece ''t''" by (simp add: good_piece_def)
  have one: "filter (\<lambda>x. A_NAME (heap example_fs x) = ''t'') [1, 2] = [2]"
    by (simp add: example_fs_def new_node_def)
  have names: "map (\<lambda>x. A_NAME (heap example_fs x)) [1, 2] = [''tmp'', ''t'']"
    by (simp add: example_fs_def new_node_def)
  have "r = Inr () \<and> lexists s' (path_of ([] @ [''t''])) = Inr False
     \<and> listdir s' (path_of []) = Inr [''tmp'']"
    using remove_then_gone [OF example_at_root example_fs_ok g one m] by (simp only: names) simp
  with m show ?thesis by (auto simp: path_of_def)
qed

text \<open>Taking an entry out of every directory, whatever happens to the entry itself.\<close>

definition dropped :: "nat \<Rightarrow> heap \<Rightarrow> heap \<Rightarrow> bool" where
  "dropped x h h' \<longleftrightarrow>
     (\<forall>k ids. A_CONTENTS (h k) = Entries ids \<longrightarrow> A_CONTENTS (h' k) = Entries (filter (\<lambda>y. y \<noteq> x) ids))
     \<and> (\<forall>k. k \<noteq> x \<longrightarrow> A_NAME (h' k) = A_NAME (h k) \<and> A_TYPE (h' k) = A_TYPE (h k))"

lemma dropped_filter:
  "dropped x h h' \<Longrightarrow>
   filter (\<lambda>y. A_NAME (h' y) = p) (filter (\<lambda>y. y \<noteq> x) ids) = filter (\<lambda>y. y \<noteq> x) (filter (\<lambda>y. A_NAME (h y) = p) ids)"
  by (induction ids) (auto simp: dropped_def)

lemma walk_dropped:
  assumes "dropped x h h'" "A_CONTENTS (h x) = Entries []" "j \<noteq> x" "walk h i ps = Some j"
  shows "walk h' i ps = Some j"
  using assms(4)
proof (induction ps arbitrary: i)
  case (Cons p ps)
  then obtain ids y where y: "A_CONTENTS (h i) = Entries ids" "filter (\<lambda>x. A_NAME (h x) = p) ids = [y]"
    "A_TYPE (h y) \<noteq> T_LINK" "walk h y ps = Some j" by (auto simp: walk_Cons_iff)
  have "y \<noteq> x"
  proof
    assume "y = x"
    with y(4) assms(2,3) show False by (cases ps) (auto simp: walk_Cons_iff)
  qed
  then have "filter (\<lambda>x. A_NAME (h' x) = p) (filter (\<lambda>y. y \<noteq> x) ids) = [y]"
    unfolding dropped_filter [OF assms(1)] y(2) by simp
  moreover have "A_CONTENTS (h' i) = Entries (filter (\<lambda>y. y \<noteq> x) ids)" "A_TYPE (h' y) \<noteq> T_LINK"
    using assms(1) y(1,3) \<open>y \<noteq> x\<close> by (auto simp: dropped_def)
  ultimately show ?case using Cons.IH [OF y(4)] unfolding walk_Cons_iff by blast
qed simp

definition sole_entry :: "filesystem \<Rightarrow> nat \<Rightarrow> nat \<Rightarrow> bool" where
  "sole_entry s d x \<longleftrightarrow> (\<forall>k ids. A_CONTENTS (heap s k) = Entries ids \<longrightarrow> k \<noteq> d \<longrightarrow> x \<notin> set ids)"

text \<open>What \<open>rename\<close> does up to the point where it looks for the new directory.\<close>

definition renamed :: "nat \<Rightarrow> nat list \<Rightarrow> string \<Rightarrow> string \<Rightarrow> nat \<Rightarrow> filesystem \<Rightarrow> filesystem" where
  "renamed d ids f g x s =
     update_node x (\<lambda>n. n\<lparr>A_NAME := g\<rparr>) (set_entries d (filter (\<lambda>x. A_NAME (heap s x) \<noteq> f) ids) s)"

lemma renamed_dropped:
  assumes "A_CONTENTS (heap s d) = Entries ids" "filter (\<lambda>x. A_NAME (heap s x) = f) ids = [x]"
    "sole_entry s d x"
  shows "dropped x (heap s) (heap (renamed d ids f g x s))"
proof -
  have "A_NAME (heap s y) \<noteq> f \<longleftrightarrow> y \<noteq> x" if "y \<in> set ids" for y
  proof -
    have "y \<in> set [x]" if "A_NAME (heap s y) = f"
      using that \<open>y \<in> set ids\<close> by (simp flip: assms(2))
    then show ?thesis using filter_single_mem [OF assms(2)] by auto
  qed
  then have f: "filter (\<lambda>x. A_NAME (heap s x) \<noteq> f) ids = filter (\<lambda>y. y \<noteq> x) ids"
    by (intro filter_cong) auto
  have "filter (\<lambda>y. y \<noteq> x) ids' = ids'" if "A_CONTENTS (heap s k) = Entries ids'" "k \<noteq> d" for k ids'
    using assms(3) that by (intro filter_True) (auto simp: sole_entry_def)
  then show ?thesis using assms(1) f
    by (auto simp: dropped_def renamed_def update_node_def set_entries_def)
qed

lemma rename_eq:
  assumes "at_dir s ps d ids" "good_piece f" "filter (\<lambda>x. A_NAME (heap s x) = f) ids = [x]"
    "A_TYPE (heap s x) \<noteq> T_LINK" "getfile s new True = Inr None"
  shows "rename (path_of (ps @ [f])) new s =
    (let s2 = renamed d ids f (basename new) x s in
     case get_path s2 (dirname new) True of
       Inl e \<Rightarrow> (s2, Inl e)
     | Inr d2 \<Rightarrow> append_entry d2 x s2)"
  using at_dir_child [OF assms(1-4)] at_dir_paths [OF assms(1)] assms
    remove_entry_named [OF at_dirD(4) [OF assms(1)] assms(3) at_dirD(5) [OF assms(1)]]
  by (simp add: rename_def with_file_def renamed_def Let_def)

text \<open>A failing rename destroys the file. The entry is taken out of its directory before the
  new directory is looked up, so renaming a file to a path whose directory does not exist raises
  FileNotFound and leaves the file in no directory at all.\<close>

theorem rename_missing_directory_loses_file:
  assumes "at_dir s ps d ids" "fs_ok s" "good_piece f" "filter (\<lambda>x. A_NAME (heap s x) = f) ids = [x]"
    "A_TYPE (heap s x) = T_FILE" "A_CONTENTS (heap s x) = Entries []" "sole_entry s d x"
    "walk (heap s) root qs = Some e" "e \<noteq> x" "A_CONTENTS (heap s e) = Entries js"
    "q \<notin> (\<lambda>x. A_NAME (heap s x)) ` set js" "\<forall>p \<in> set (qs @ q # rs @ [g]). good_piece p"
    "rename (path_of (ps @ [f])) (path_of (qs @ q # rs @ [g])) s = (s', r)"
  shows "r = Inl FileNotFound \<and> (\<forall>k ids. A_CONTENTS (heap s' k) = Entries ids \<longrightarrow> x \<notin> set ids)"
proof -
  let ?new = "path_of (qs @ q # rs @ [g])"
  let ?s2 = "renamed d ids f (basename ?new) x s"
  note a = at_dirD [OF assms(1)]
  have dr: "dropped x (heap s) (heap ?s2)" by (rule renamed_dropped [OF a(4) assms(4,7)])
  have none: "getfile s ?new True = Inr None"
    using getfile_absent [of qs q "rs @ [g]" s e js True] assms(8,10-12) a(5) by simp
  have w: "walk (heap ?s2) root qs = Some e" by (rule walk_dropped [OF dr assms(6,9,8)])
  have c: "A_CONTENTS (heap ?s2 e) = Entries (filter (\<lambda>y. y \<noteq> x) js)"
    using dr assms(10) by (simp add: dropped_def)
  have q: "q \<notin> (\<lambda>x. A_NAME (heap ?s2 x)) ` set (filter (\<lambda>y. y \<noteq> x) js)"
    using dr assms(11) by (auto simp: dropped_def)
  have "dirname ?new = path_of (qs @ q # rs)"
    using dirname_path_of [of "qs @ q # rs" g] assms(12) by simp
  moreover have "get_path ?s2 (path_of (qs @ q # rs)) True = Inl FileNotFound"
    by (rule get_path_absent [OF _ w c q]) (use assms(12) in auto)
  ultimately have s': "s' = ?s2" "r = Inl FileNotFound"
    using rename_eq [OF assms(1,3,4) _ none] assms(5,13) by (simp_all add: Let_def)
  have "x \<notin> set ids'" if k: "A_CONTENTS (heap ?s2 k) = Entries ids'" for k ids'
  proof (cases "A_CONTENTS (heap s k)")
    case (Entries l)
    with dr k show ?thesis by (auto simp: dropped_def)
  next
    case (Blob b)
    with k a(4) show ?thesis by (auto simp: renamed_def update_node_def set_entries_def split: if_splits)
  qed
  with s' show ?thesis by blast
qed

text \<open>A rename that succeeds moves the file: the new path finds the entry, with the new last
  component as its name and every other attribute unchanged, and the entry is in no directory but
  the new one.\<close>

theorem rename_moves_file:
  assumes "at_dir s ps d ids" "fs_ok s" "good_piece f" "filter (\<lambda>x. A_NAME (heap s x) = f) ids = [x]"
    "A_TYPE (heap s x) = T_FILE" "A_CONTENTS (heap s x) = Entries []" "sole_entry s d x"
    "at_dir s qs e js" "e \<noteq> x" "good_piece g" "g \<notin> (\<lambda>x. A_NAME (heap s x)) ` set js"
    "rename (path_of (ps @ [f])) (path_of (qs @ [g])) s = (s', r)"
  shows "r = Inr () \<and> heap s' x = (heap s x)\<lparr>A_NAME := g\<rparr>
    \<and> A_CONTENTS (heap s' e) = Entries (filter (\<lambda>y. y \<noteq> x) js @ [x])
    \<and> (\<forall>k ids. k \<noteq> e \<longrightarrow> A_CONTENTS (heap s' k) = Entries ids \<longrightarrow> x \<notin> set ids)"
proof -
  let ?s2 = "renamed d ids f g x s"
  note a = at_dirD [OF assms(1)] and b = at_dirD [OF assms(8)]
  have dr: "dropped x (heap s) (heap ?s2)" by (rule renamed_dropped [OF a(4) assms(4,7)])
  have w: "walk (heap ?s2) root qs = Some e" by (rule walk_dropped [OF dr assms(6,9) b(2)])
  have c: "A_CONTENTS (heap ?s2 e) = Entries (filter (\<lambda>y. y \<noteq> x) js)"
    using dr b(4) by (simp add: dropped_def)
  have s': "s' = set_entries e (filter (\<lambda>y. y \<noteq> x) js @ [x]) ?s2" "r = Inr ()"
    using rename_eq [OF assms(1,3,4) _ at_dir_no_child [OF assms(8,10,11)]] assms(5,12)
      at_dir_paths(6,7) [OF assms(8,10)] get_path_walk [OF b(1) w] c
    by (simp_all add: Let_def append_entry_def entry_list_def)
  have xd: "x \<noteq> d" using a(4) assms(4,6) by auto
  have "x \<notin> set ids'" if k: "k \<noteq> e" "A_CONTENTS (heap s' k) = Entries ids'" for k ids'
  proof (cases "A_CONTENTS (heap s k)")
    case (Entries l)
    with dr k show ?thesis by (auto simp: dropped_def s')
  next
    case (Blob b)
    with k a(4) show ?thesis by (auto simp: s' renamed_def update_node_def set_entries_def split: if_splits)
  qed
  then show ?thesis using s' xd assms(9)
    by (auto simp: set_entries_def renamed_def update_node_def)
qed

definition example_file_fs :: filesystem where
  "example_file_fs =
     example_fs\<lparr>heap := (heap example_fs)
        (1 := (new_node ''tmp'' T_DIR 0 0 4096 16877 0)\<lparr>A_CONTENTS := Entries [3]\<rparr>,
         3 := new_node ''a'' T_FILE 0 0 5 33188 0), fresh := 4\<rparr>"

lemma example_file_facts:
  "fs_ok example_file_fs" "at_dir example_file_fs [''tmp''] 1 [3]" "at_dir example_file_fs [] 0 [1, 2]"
  "filter (\<lambda>x. A_NAME (heap example_file_fs x) = ''a'') [3] = [3]"
  "A_TYPE (heap example_file_fs 3) = T_FILE" "A_CONTENTS (heap example_file_fs 3) = Entries []"
  "sole_entry example_file_fs 1 3" "(\<lambda>x. A_NAME (heap example_file_fs x)) ` set [1, 2] = {''tmp'', ''t''}"
proof -
  show "fs_ok example_file_fs"
    unfolding fs_ok_def closed_heap_def
    by (auto simp: example_file_fs_def example_fs_def new_node_def less_Suc_eq numeral_eq_Suc split: if_splits)
qed (auto simp: at_dir_def sole_entry_def example_file_fs_def example_fs_def new_node_def walk.simps(2)
  good_piece_def split: if_splits)

theorem rename_missing_directory_loses_file_witness:
  "\<exists>s'. rename ''/tmp/a'' ''/no/b'' example_file_fs = (s', Inl FileNotFound)
     \<and> (\<forall>k ids. A_CONTENTS (heap s' k) = Entries ids \<longrightarrow> 3 \<notin> set ids)"
proof -
  note e = example_file_facts
  obtain s' r where m: "rename (path_of ([''tmp''] @ [''a''])) (path_of ([] @ ''no'' # [] @ [''b'']))
      example_file_fs = (s', r)" by fastforce
  have w: "walk (heap example_file_fs) root [] = Some 0" by simp
  have q: "''no'' \<notin> (\<lambda>x. A_NAME (heap example_file_fs x)) ` set [1, 2]" unfolding e(8) by simp
  have g: "good_piece ''a''" "\<forall>p \<in> set ([] @ ''no'' # [] @ [''b'']). good_piece p"
    by (simp_all add: good_piece_def)
  from rename_missing_directory_loses_file [OF e(2,1) g(1) e(4-7) w _ at_dirD(4) [OF e(3)] q g(2) m]
  have "r = Inl FileNotFound \<and> (\<forall>k ids. A_CONTENTS (heap s' k) = Entries ids \<longrightarrow> 3 \<notin> set ids)" by simp
  with m show ?thesis by (auto simp: path_of_def)
qed

theorem rename_moves_file_witness:
  "\<exists>s'. rename ''/tmp/a'' ''/b'' example_file_fs = (s', Inr ())
     \<and> A_CONTENTS (heap s' 0) = Entries [1, 2, 3]"
proof -
  note e = example_file_facts
  obtain s' r where m: "rename (path_of ([''tmp''] @ [''a''])) (path_of ([] @ [''b''])) example_file_fs = (s', r)"
    by fastforce
  have q: "''b'' \<notin> (\<lambda>x. A_NAME (heap example_file_fs x)) ` set [1, 2]" unfolding e(8) by simp
  have g: "good_piece ''a''" "good_piece ''b''" by (simp_all add: good_piece_def)
  from rename_moves_file [OF e(2,1) g(1) e(4-7) e(3) _ g(2) q m]
  have "r = Inr () \<and> A_CONTENTS (heap s' 0) = Entries [1, 2, 3]" by simp
  with m show ?thesis by (auto simp: path_of_def)
qed

subsection \<open>Links\<close>

text \<open>\<open>islink\<close> is false for every path, links included, because the lookup it uses follows
  links to their end.\<close>

theorem islink_never:
  assumes "A_TYPE (heap s root) \<noteq> T_LINK"
  shows "\<not> islink s path"
  using getfile_at_not_link [of "heap s" "frames s" path] assms
  by (auto simp: islink_def has_type_def getfile_def split: sum.splits option.splits)

theorem islink_never_witness:
  "\<not> islink example_fs ''/t'' \<and> A_TYPE (heap example_fs 2) = T_LINK
    \<and> getfile example_fs ''/t'' False = Inr (Some 2)"
proof -
  have "filter (\<lambda>x. A_NAME (heap example_fs x) = ''t'') [1, 2] = [2]"
    by (simp add: example_fs_def new_node_def)
  from getfile_no_follow [OF example_at_root _ this]
  have "getfile example_fs (path_of ([] @ [''t''])) False = Inr (Some 2)" by (simp add: good_piece_def)
  then show ?thesis
    using islink_never [of example_fs "''/t''"] by (simp add: path_of_def example_fs_def new_node_def)
qed

text \<open>\<open>readlink\<close> does not recognise links: the mode test is true for every regular file, for
  which it answers without an error and without a target.\<close>

theorem readlink_regular_file:
  assumes "getfile s path False = Inr (Some x)" "A_MODE (heap s x) AND S_IFMT = S_IFREG"
    "A_TARGET (heap s x) = None"
  shows "readlink path s = (s, Inr None)"
proof -
  have k: "S_IFMT AND S_IFLNK = S_IFLNK" "S_IFREG AND S_IFLNK = S_IFREG" "S_IFREG \<noteq> 0"
    by (simp_all add: stat_consts)
  have "A_MODE (heap s x) AND S_IFLNK = (A_MODE (heap s x) AND S_IFMT) AND S_IFLNK"
    by (simp only: and.assoc k)
  then have "A_MODE (heap s x) AND S_IFLNK \<noteq> 0" using assms(2) k by simp
  with assms show ?thesis by (simp add: readlink_def with_file_def)
qed

theorem readlink_regular_file_witness:
  "readlink ''/tmp/a'' example_file_fs = (example_file_fs, Inr None)"
proof -
  note e = example_file_facts
  have g: "getfile example_file_fs (path_of ([''tmp''] @ [''a''])) False = Inr (Some 3)"
    by (rule getfile_no_follow [OF e(2) _ e(4)]) (simp add: good_piece_def)
  have "readlink (path_of ([''tmp''] @ [''a''])) example_file_fs = (example_file_fs, Inr None)"
    by (rule readlink_regular_file [OF g])
       (simp_all add: example_file_fs_def example_fs_def new_node_def stat_consts)
  then show ?thesis by (simp add: path_of_def)
qed

subsection \<open>The invariant of every run\<close>

named_theorems fs_ok_rules \<open>preservation of the invariant of the store\<close>

lemma last_match_below:
  assumes "last_match target h piece ids p = Inr (Some q)"
    "\<forall>x \<in> set ids. \<forall>r. target x = Inr (Some r) \<longrightarrow> r < n" "p < n"
  shows "q < (n::nat)"
  using assms
  by (induction ids arbitrary: p) (auto simp: rbind_Inr_iff split: if_splits option.splits)

lemma getfile_steps_below:
  assumes "getfile_steps rec h follow l ps p = Inr (Some q)" "closed_heap h n"
    "\<And>t r. rec t = Inr (Some r) \<Longrightarrow> r < n" "p < n"
  shows "q < n"
  using assms(1,4)
proof (induction ps arbitrary: p)
  case (Cons piece pieces)
  from Cons.prems(1) obtain ids q1 where
    q1: "entries h p = Inr ids"
    "last_match (entry_target rec h (piece = l \<and> \<not> follow)) h piece ids p = Inr (Some q1)"
    "getfile_steps rec h follow l pieces q1 = Inr (Some q)"
    by (auto simp: rbind_Inr_iff split: if_splits option.splits)
  have ids: "x < n" if "x \<in> set ids" for x
    using q1(1) that assms(2) Cons.prems(2) by (auto simp: entries_def closed_heap_def split: contents.splits if_splits)
  have "r < n" if "x \<in> set ids" "entry_target rec h k x = Inr (Some r)" for k x r
    using that ids assms(3) by (auto simp: entry_target_def split: if_splits option.splits list.splits)
  then have "q1 < n" using last_match_below [OF q1(2)] Cons.prems(2) by blast
  then show ?case using Cons.IH q1(3) by blast
qed simp

lemma getfile_below:
  assumes "fs_ok s" "getfile s path follow = Inr (Some q)"
  shows "q < fresh s"
proof -
  have "getfile_at m (heap s) path follow = Inr (Some q) \<Longrightarrow> q < fresh s" for m
  proof (induction m arbitrary: path q)
    case (Suc m)
    show ?case
    proof (cases "path = ''/''")
      case True
      with Suc.prems assms(1) show ?thesis by (simp add: fs_ok_def)
    next
      case False
      with Suc.prems have "getfile_steps (\<lambda>t. getfile_at m (heap s) t follow) (heap s) follow
          (last (path_pieces path)) (path_pieces path) root = Inr (Some q)" by simp
      then show ?thesis
        by (rule getfile_steps_below) (use Suc.IH assms(1) in \<open>auto simp: fs_ok_def\<close>)
    qed
  qed simp
  with assms(2) show ?thesis by (simp add: getfile_def)
qed

lemma fs_ok_sub:
  assumes "fs_ok s" "fresh s' = fresh s" "newcount s' = newcount s"
    "\<And>k. A_TYPE (heap s' k) = A_TYPE (heap s k)"
    "\<And>k ids. A_CONTENTS (heap s' k) = Entries ids \<Longrightarrow>
       (\<forall>x \<in> set ids. x < fresh s) \<or> A_CONTENTS (heap s k) = Entries ids"
  shows "fs_ok s'"
  using assms unfolding fs_ok_def closed_heap_def by metis

lemma fs_ok_disk [fs_ok_rules]:
  "fs_ok s \<Longrightarrow> fs_ok (s\<lparr>disk := dk\<rparr>)"
  "fs_ok s \<Longrightarrow> fs_ok (s\<lparr>tempfiles := a, filenames := b\<rparr>)"
  "fs_ok s \<Longrightarrow> fs_ok (store_upload tmp sf b' s)"
  by (simp_all add: fs_ok_def store_upload_def)

lemma fs_ok_update_node [fs_ok_rules]:
  assumes "fs_ok s" "\<And>n. A_TYPE (f n) = A_TYPE n" "\<And>n. A_CONTENTS (f n) = A_CONTENTS n"
  shows "fs_ok (update_node i f s)"
  using assms by (intro fs_ok_sub [OF assms(1)]) (auto simp: update_node_def split: if_splits)

lemma list_remove_subset: "list_remove eq x ids = Inr zs \<Longrightarrow> set zs \<subseteq> set ids"
proof (induction ids arbitrary: zs)
  case (Cons y ys)
  from Cons.prems consider "zs = ys" | zs' where "list_remove eq x ys = Inr zs'" "zs = y # zs'"
    by (auto simp: rbind_Inr_iff split: if_splits)
  then show ?case using Cons.IH by cases auto
qed simp

lemma fs_ok_set_entries:
  assumes "fs_ok s" "\<forall>x \<in> set ids. x < fresh s"
  shows "fs_ok (set_entries d ids s)"
  using assms by (intro fs_ok_sub [OF assms(1)]) (auto split: if_splits)

lemma fs_ok_set_entries_outside:
  assumes "fs_ok s" "fresh s \<le> d"
  shows "fs_ok (set_entries d ids s)"
  using assms by (auto simp: fs_ok_def closed_heap_def)

lemma entry_list_below:
  "fs_ok s \<Longrightarrow> d < fresh s \<Longrightarrow> entry_list (heap s) d = Inr ids \<Longrightarrow> \<forall>x \<in> set ids. x < fresh s"
  by (auto simp: fs_ok_def closed_heap_def entry_list_def split: contents.splits)

lemma fs_ok_remove_entry [fs_ok_rules]:
  assumes "fs_ok s"
  shows "fs_ok (fst (remove_entry d x s))"
proof (cases "d < fresh s")
  case True
  then show ?thesis
    using assms entry_list_below [OF assms True] list_remove_subset
    by (auto simp: remove_entry_def rbind_Inr_iff split: sum.splits intro!: fs_ok_set_entries) blast
next
  case False
  then show ?thesis
    using assms by (auto simp: remove_entry_def split: sum.splits intro: fs_ok_set_entries_outside)
qed

lemma fs_ok_append_entry [fs_ok_rules]:
  assumes "fs_ok s" "x < fresh s"
  shows "fs_ok (fst (append_entry d x s))"
proof (cases "d < fresh s")
  case True
  then show ?thesis
    using assms entry_list_below [OF assms(1) True]
    by (auto simp: append_entry_def split: sum.splits intro!: fs_ok_set_entries)
next
  case False
  then show ?thesis
    using assms by (auto simp: append_entry_def split: sum.splits intro: fs_ok_set_entries_outside)
qed

lemma fs_ok_add_node [fs_ok_rules]:
  assumes "fs_ok s" "newcount s \<le> 10000" "A_CONTENTS n = Entries []"
  shows "fs_ok (fst (add_node d n s))"
proof -
  let ?s1 = "fst (alloc n s)"
  have "fs_ok ?s1" using assms unfolding fs_ok_def closed_heap_def
    by (auto simp: alloc_def less_Suc_eq split: if_splits)
  then have "fs_ok (fst (append_entry d (fresh s) ?s1))"
    by (rule fs_ok_append_entry) (simp add: alloc_def)
  moreover have "newcount (fst (append_entry d (fresh s) ?s1)) = newcount s"
    by (simp add: append_entry_def alloc_def split: sum.splits)
  ultimately have "fs_ok ((fst (append_entry d (fresh s) ?s1))\<lparr>newcount := Suc (newcount s)\<rparr>)"
    using assms(2) by (simp add: fs_ok_def)
  moreover have "fs_ok (fst (append_entry d (fresh s) ?s1))" by fact
  ultimately show ?thesis using assms(1) \<open>newcount (fst _) = newcount s\<close>
    by (auto simp: add_node_def alloc_def sbind_def Let_def split: sum.splits prod.splits)
qed

lemma fs_ok_sbind:
  "fs_ok (fst m) \<Longrightarrow> (\<And>s x. m = (s, Inr x) \<Longrightarrow> fs_ok s \<Longrightarrow> fs_ok (fst (f s x))) \<Longrightarrow> fs_ok (fst (sbind m f))"
  by (auto simp: sbind_def split: prod.splits sum.splits)

lemma newcount_drop_named: "newcount (fst (drop_named d f s)) = newcount s"
  by (auto simp: drop_named_def remove_entry_def split: sum.splits option.splits)

lemma fs_ok_mkfile [fs_ok_rules]:
  assumes "fs_ok s"
  shows "fs_ok (fst (mkfile path uid gid sz mode t s))"
proof -
  have d: "fs_ok (fst (drop_named d f s))" for d f
    using assms by (auto simp: drop_named_def split: sum.splits option.splits intro: fs_ok_remove_entry)
  have "fs_ok (fst (add_node d (new_node f T_FILE uid gid sz mode t) s1))"
    if "drop_named d f s = (s1, Inr ())" "newcount s \<le> 10000" for d f s1
  proof -
    have "fs_ok s1" "newcount s1 \<le> 10000"
      using that d [of d f] newcount_drop_named [of d f s] by simp_all
    then show ?thesis by (rule fs_ok_add_node) (simp add: new_node_def)
  qed
  note add = this
  have "fs_ok s2" if "drop_named d f s = (s1, Inr ())" "newcount s \<le> 10000"
    "add_node d (new_node f T_FILE uid gid sz mode t) s1 = (s2, r)" for d f s1 s2 r
    using add [OF that(1,2)] that(3) by simp
  then show ?thesis using assms d add
    by (auto simp: mkfile_def Let_def split: sum.splits intro!: fs_ok_sbind)
qed

lemma fs_ok_mkdir [fs_ok_rules]:
  "fs_ok s \<Longrightarrow> fs_ok (fst (mkdir path uid gid sz mode t s))"
  by (auto simp: mkdir_def new_node_def split: sum.splits intro!: fs_ok_add_node)

lemma fs_ok_with_file:
  assumes "fs_ok s" "\<And>p. p < fresh s \<Longrightarrow> fs_ok (fst (k p s))"
  shows "fs_ok (fst (with_file follow path k s))"
  using assms getfile_below [OF assms(1)]
  by (auto simp: with_file_def split: sum.splits option.splits)

lemma fs_ok_update_realfile [fs_ok_rules]:
  "fs_ok s \<Longrightarrow> fs_ok (fst (update_realfile f rf s))"
  by (auto simp: update_realfile_def split: option.splits intro!: fs_ok_update_node)

lemma fs_ok_rename [fs_ok_rules]:
  assumes "fs_ok s"
  shows "fs_ok (fst (rename old new s))"
proof -
  have u: "fs_ok (update_node p (\<lambda>n. n\<lparr>A_NAME := g\<rparr>) s1) \<and> p < fresh (update_node p (\<lambda>n. n\<lparr>A_NAME := g\<rparr>) s1)"
    if "p < fresh s" "remove_entry d p s = (s1, Inr ())" for p d s1 g
  proof -
    have "fs_ok s1" "fresh s1 = fresh s"
      using fs_ok_remove_entry [OF assms, of d p] that(2)
      by (auto simp: remove_entry_def split: sum.splits)
    then show ?thesis using that(1) by (auto simp: update_node_def intro!: fs_ok_update_node [unfolded update_node_def])
  qed
  show ?thesis unfolding rename_def
    by (rule fs_ok_with_file [OF assms])
       (use assms u in \<open>auto simp: Let_def split: sum.splits option.splits
          intro!: fs_ok_sbind fs_ok_remove_entry fs_ok_append_entry\<close>)
qed

text \<open>One call of a client: the shell, SFTP or SCP.\<close>

datatype fs_event =
    Mkfile string int int int int rat
  | Mkdir string int int int int rat
  | Mkdir2 rat string
  | Rmdir string
  | Utime string rat
  | Chmod string int
  | Chown string int int
  | Remove string
  | Rename string string
  | Update_size string int
  | Open_upload string rat string int int
  | Write_upload int nat string
  | Close_upload "int option"

type_synonym host_open = "string \<Rightarrow> int \<Rightarrow> int \<Rightarrow> (string \<rightharpoonup> string) \<Rightarrow> ((string \<rightharpoonup> string) \<times> int) res"

fun fs_step :: "host_open \<Rightarrow> (string \<Rightarrow> string) \<Rightarrow> string \<Rightarrow> filesystem \<Rightarrow> fs_event \<Rightarrow> filesystem" where
  "fs_step oo sha dl s (Mkfile p u g z m t) = fst (mkfile p u g z m t s)"
| "fs_step oo sha dl s (Mkdir p u g z m t) = fst (mkdir p u g z m t s)"
| "fs_step oo sha dl s (Mkdir2 t p) = fst (mkdir2 t p s)"
| "fs_step oo sha dl s (Rmdir p) = fst (rmdir p s)"
| "fs_step oo sha dl s (Utime p t) = fst (utime p t s)"
| "fs_step oo sha dl s (Chmod p m) = fst (chmod p m s)"
| "fs_step oo sha dl s (Chown p u g) = fst (chown p u g s)"
| "fs_step oo sha dl s (Remove p) = fst (fs_remove p s)"
| "fs_step oo sha dl s (Rename p q) = fst (rename p q s)"
| "fs_step oo sha dl s (Update_size p z) = fst (update_size p z s)"
| "fs_step oo sha dl s (Open_upload st t p fl m) = fst (fs_open oo dl st t p fl m s)"
| "fs_step oo sha dl s (Write_upload fd k b) = fst (fs_write fd k b s)"
| "fs_step oo sha dl s (Close_upload fd) = fst (fs_close sha dl fd s)"

lemma fs_ok_update_size [fs_ok_rules]: "fs_ok s \<Longrightarrow> fs_ok (fst (update_size p z s))"
  by (auto simp: update_size_def split: sum.splits option.splits intro!: fs_ok_update_node)

lemma fs_ok_mkdir2 [fs_ok_rules]: "fs_ok s \<Longrightarrow> fs_ok (fst (mkdir2 t p s))"
  by (auto simp: mkdir2_def split: sum.splits option.splits intro!: fs_ok_mkdir)

lemma fs_ok_rmdir [fs_ok_rules]: "fs_ok s \<Longrightarrow> fs_ok (fst (rmdir p s))"
  by (auto simp: rmdir_def Let_def split: sum.splits option.splits prod.splits
      intro!: fs_ok_sbind fs_ok_remove_entry)

lemma fs_ok_attributes [fs_ok_rules]:
  "fs_ok s \<Longrightarrow> fs_ok (fst (utime p t s))" "fs_ok s \<Longrightarrow> fs_ok (fst (chmod p m s))"
  "fs_ok s \<Longrightarrow> fs_ok (fst (chown p u g s))" "fs_ok s \<Longrightarrow> fs_ok (fst (fs_remove p s))"
  unfolding utime_def chmod_def chown_def fs_remove_def
  by (auto simp: Let_def split: sum.splits
      intro!: fs_ok_with_file fs_ok_update_node fs_ok_remove_entry)

lemma fs_ok_fs_open [fs_ok_rules]: "fs_ok s \<Longrightarrow> fs_ok (fst (fs_open oo dl st t p fl m s))"
proof -
  assume ok: "fs_ok s"
  show ?thesis using ok
    by (auto simp: fs_open_def Let_def split: sum.splits prod.splits
        intro!: fs_ok_sbind fs_ok_mkfile fs_ok_update_realfile fs_ok_disk)
qed

lemma fs_ok_fs_write [fs_ok_rules]: "fs_ok s \<Longrightarrow> fs_ok (fst (fs_write fd k b s))"
  by (auto simp: fs_write_def split: sum.splits prod.splits intro!: fs_ok_disk)

lemma fs_ok_fs_close [fs_ok_rules]: "fs_ok s \<Longrightarrow> fs_ok (fst (fs_close sha dl fd s))"
proof -
  assume ok: "fs_ok s"
  show ?thesis using ok
    by (auto simp: fs_close_def Let_def split: option.splits sum.splits prod.splits
        intro!: fs_ok_sbind fs_ok_update_realfile fs_ok_disk)
qed

interpretation fs_machine: machine "fs_step oo sha dl" fs_ok for oo sha dl
proof unfold_locales
  fix s e
  assume "fs_ok s"
  then show "fs_ok (fs_step oo sha dl s e)" by (cases e) (simp_all add: fs_ok_rules)
qed

text \<open>C9: No sequence of calls, in whatever order and with whatever arguments, makes a directory
  refer to an entry that does not exist, changes the type of the root, or creates more than
  10001 entries.\<close>

theorem filesystem_runs_ok:
  assumes "fs_ok s"
  shows "closed_heap (heap (foldl (fs_step oo sha dl) s events)) (fresh (foldl (fs_step oo sha dl) s events))
    \<and> A_TYPE (heap (foldl (fs_step oo sha dl) s events) root) = T_DIR
    \<and> newcount (foldl (fs_step oo sha dl) s events) \<le> 10001"
  using fs_machine.run_inv [OF assms, of oo sha dl events] unfolding fs_ok_def by blast

theorem filesystem_runs_ok_witness:
  "newcount (foldl (fs_step (\<lambda>p fl m dk. Inr (dk(p \<mapsto> []), 5)) (\<lambda>_. ''hash'') ''dl'') example_fs
     [Mkdir2 0 ''/tmp/x'', Rename ''/tmp/x'' ''/y'', Rmdir ''/y'']) \<le> 10001"
  using filesystem_runs_ok [OF example_fs_ok] by blast

subsection \<open>Uploads\<close>

definition hostfile_of :: "string \<Rightarrow> string \<Rightarrow> string \<Rightarrow> string" where
  "hostfile_of dl stamp filename = dl @ ''/'' @ stamp @ ''_sftp_'' @ safe_name filename"

text \<open>What \<open>os.open\<close> promises when it does not fail: the file is there.\<close>

definition host_opens :: "host_open \<Rightarrow> bool" where
  "host_opens oo \<longleftrightarrow> (\<forall>p fl m dk dk' n. oo p fl m dk = Inr (dk', n) \<longrightarrow> dk' p \<noteq> None)"

text \<open>What an upload leaves behind: the entry of the path refers to the temporary file.\<close>

lemma fs_open_state:
  assumes "at_dir s ps d ids" "fs_ok s" "good_piece f" "\<not> special (path_of ps)" "newcount s \<le> 10000"
    "length (filter (\<lambda>x. A_NAME (heap s x) = f) ids) \<le> 1"
    "host_opens oo"
    "fs_open oo dl st t (path_of (ps @ [f])) fl m s = (s1, Inr (Some fd))"
  defines "hf \<equiv> hostfile_of dl st (path_of (ps @ [f]))"
  shows "map_of (tempfiles s1) fd = Some hf \<and> map_of (filenames s1) fd = Some (path_of (ps @ [f]))
    \<and> getfile s1 (path_of (ps @ [f])) True = Inr (Some (fresh s))
    \<and> A_TYPE (heap s1 (fresh s)) = T_FILE \<and> A_REALFILE (heap s1 (fresh s)) = Some hf"
proof -
  let ?path = "path_of (ps @ [f])"
  let ?js = "filter (\<lambda>x. A_NAME (heap s x) \<noteq> f) ids"
  let ?n = "new_node f T_FILE 0 0 0 (S_IFREG OR m) t"
  let ?sA = "add_state d ?js ?n s"
  have mk: "mkfile ?path 0 0 0 (S_IFREG OR m) t s = (?sA, Inr True)" by (rule mkfile_eq [OF assms(1-6)])
  have fr: "d < fresh s" using at_dir_fresh [OF assms(1,2)] by simp
  have node: "heap ?sA (fresh s) = ?n" by (rule add_state_heap(1) [OF fr])
  have one: "filter (\<lambda>x. A_NAME (heap ?sA x) = f) (?js @ [fresh s]) = [fresh s]"
    by (rule add_state_child [OF assms(1,2)]) (auto simp: new_node_def)
  have at: "at_dir s' ps d (?js @ [fresh s])"
    if "frames s' = frames s" "\<And>k. A_NAME (heap s' k) = A_NAME (heap ?sA k)"
      "\<And>k. A_TYPE (heap s' k) = A_TYPE (heap ?sA k)" "\<And>k. A_CONTENTS (heap s' k) = A_CONTENTS (heap ?sA k)" for s'
    using that add_state_agree [of d s ?js ?n]
    by (intro at_dir_update [OF assms(1,2)]) (auto simp: agree_but_def add_state_heap)
  have got: "getfile s' ?path True = Inr (Some (fresh s))"
    if "frames s' = frames s" "\<And>k. A_NAME (heap s' k) = A_NAME (heap ?sA k)"
      "\<And>k. A_TYPE (heap s' k) = A_TYPE (heap ?sA k)" "\<And>k. A_CONTENTS (heap s' k) = A_CONTENTS (heap ?sA k)" for s'
    using that one node by (intro at_dir_child [OF at [OF that] assms(3)]) (simp_all add: new_node_def)
  from assms(8) obtain dk s3 where dk: "oo hf fl (hostmode m) (disk ?sA) = Inr (dk, fd)"
    and up: "update_realfile (Some (fresh s)) hf (?sA\<lparr>disk := dk\<rparr>) = (s3, Inr ())"
    and s1: "s1 = s3\<lparr>tempfiles := AList.update fd hf (tempfiles s3), filenames := AList.update fd ?path (filenames s3)\<rparr>"
    using got [of "?sA\<lparr>disk := _\<rparr>"]
    by (auto simp: fs_open_def mk Let_def sbind_def hf_def hostfile_of_def split: sum.splits if_splits prod.splits)
  have "dk hf \<noteq> None" using assms(7) dk unfolding host_opens_def by blast
  moreover have "A_REALFILE (heap ?sA (fresh s)) = None" "A_SIZE (heap ?sA (fresh s)) = 0"
    by (simp_all add: node) (simp_all add: new_node_def)
  ultimately have s3: "s3 = update_node (fresh s) (\<lambda>n. n\<lparr>A_REALFILE := Some hf\<rparr>) (?sA\<lparr>disk := dk\<rparr>)"
    using up by (auto simp: update_realfile_def)
  have "getfile s1 ?path True = Inr (Some (fresh s))"
    by (rule got) (auto simp: s1 s3 update_node_def)
  then show ?thesis using node by (simp add: s1 s3 update_node_def map_of_alist_update new_node_def)
qed

text \<open>A file uploaded over SFTP cannot be read back. Closing it moves the data from the temporary
  file to a file named by its hash, but the entry keeps referring to the temporary file, because
  \<open>update_realfile\<close> only fills an empty reference; the next read of the path fails.\<close>

theorem sftp_upload_unreadable:
  assumes "at_dir s ps d ids" "fs_ok s" "good_piece f" "\<not> special (path_of ps)" "newcount s \<le> 10000"
    "length (filter (\<lambda>x. A_NAME (heap s x) = f) ids) \<le> 1"
    "host_opens oo"
    "\<And>b. CHR ''_'' \<notin> set (sha b)"
    "fs_open oo dl st t (path_of (ps @ [f])) fl m s = (s1, Inr (Some fd))" "fd \<noteq> 0"
    "fs_write fd k bs s1 = (s2, Inr n)" "fs_close sha dl (Some fd) s2 = (s3, Inr ())"
  shows "file_contents arch_bytes s3 (path_of (ps @ [f])) = Inl (OSError ''ENOENT'')"
proof -
  let ?path = "path_of (ps @ [f])"
  let ?hf = "hostfile_of dl st ?path"
  note op = fs_open_state [OF assms(1-6) assms(7) assms(9)]
  have g: "\<forall>x \<in> set (ps @ [f]). good_piece x" using assms(3) at_dirD(1) [OF assms(1)] by simp
  have hf: "?hf \<noteq> []" by (simp add: hostfile_of_def)
  from assms(11) have s2: "heap s2 = heap s1" "frames s2 = frames s1" "tempfiles s2 = tempfiles s1"
    "filenames s2 = filenames s1"
    by (auto simp: fs_write_def split: sum.splits prod.splits)
  then have got2: "getfile s2 ?path True = Inr (Some (fresh s))" using op by (simp add: getfile_def)
  have ne: "?hf \<noteq> dl @ ''/'' @ sha b" for b
  proof
    assume "?hf = dl @ ''/'' @ sha b"
    then have "sha b = st @ ''_sftp_'' @ safe_name ?path" by (simp add: hostfile_of_def)
    then have "CHR ''_'' \<in> set (sha b)" by simp
    with assms(8) show False by blast
  qed
  have tmp: "dict_get (tempfiles s2) fd = Inr ?hf" "dict_get (filenames s2) fd = Inr ?path"
    using op by (simp_all add: dict_get_def s2)
  from assms(12) obtain b s2' where b: "read_bytes s2 ?hf = Inr b"
    and up: "update_realfile (Some (fresh s)) (dl @ ''/'' @ sha b)
      (store_upload ?hf (dl @ ''/'' @ sha b) b s2) = (s2', Inr ())"
    and s3: "s3 = s2'\<lparr>tempfiles := AList.delete fd (tempfiles s2'), filenames := AList.delete fd (filenames s2')\<rparr>"
    using got2 assms(10) tmp
    by (auto simp: fs_close_def Let_def sbind_def store_upload_def getfile_def rbind_Inr_iff
        split: sum.splits if_splits prod.splits)
  have "s2' = store_upload ?hf (dl @ ''/'' @ sha b) b s2"
    using up op hf by (auto simp: update_realfile_def store_upload_def s2)
  then have fin: "heap s3 = heap s1" "frames s3 = frames s1" "disk s3 ?hf = None"
    using ne [of b] by (auto simp: s3 store_upload_def s2)
  then have "getfile s3 ?path True = Inr (Some (fresh s))" using op by (simp add: getfile_def)
  moreover obtain c cs where "?hf = c # cs" using hf by (cases ?hf) auto
  moreover have "?path \<noteq> []" by (simp add: path_of_def)
  ultimately show ?thesis
    using op fin by (simp add: file_contents_def resolve_normal [OF g] exists_def node_contents_def read_bytes_def)
qed

definition example_host :: host_open where
  "example_host = (\<lambda>p fl m dk. Inr (dk(p \<mapsto> []), 5))"

definition example_upload :: "(filesystem, int option) sres" where
  "example_upload = fs_open example_host ''dl'' ''1'' 0 ''/tmp/x'' 65 420 example_fs"

theorem sftp_upload_unreadable_witness:
  "\<exists>s2 s3. fs_write 5 0 ''data'' (fst example_upload) = (s2, Inr 4)
    \<and> fs_close (\<lambda>_. ''ab'') ''dl'' (Some 5) s2 = (s3, Inr ())
    \<and> file_contents (\<lambda>_. []) s3 ''/tmp/x'' = Inl (OSError ''ENOENT'')"
proof -
  have r1: "snd example_upload = Inr (Some 5)" by code_simp
  have r2: "snd (fs_write 5 0 ''data'' (fst example_upload)) = Inr 4" by code_simp
  have r3: "snd (fs_close (\<lambda>_. ''ab'') ''dl'' (Some 5) (fst (fs_write 5 0 ''data'' (fst example_upload)))) = Inr ()"
    by code_simp
  obtain s1 where s1: "example_upload = (s1, Inr (Some 5))" using r1 by (metis prod.collapse)
  obtain s2 where s2: "fs_write 5 0 ''data'' s1 = (s2, Inr 4)" using r2 unfolding s1 fst_conv by (metis prod.collapse)
  obtain s3 where s3: "fs_close (\<lambda>_. ''ab'') ''dl'' (Some 5) s2 = (s3, Inr ())"
    using r3 unfolding s1 s2 fst_conv by (metis prod.collapse)
  have op: "fs_open example_host ''dl'' ''1'' 0 (path_of ([''tmp''] @ [''x''])) 65 420 example_fs = (s1, Inr (Some 5))"
    using s1 by (simp add: example_upload_def path_of_def)
  have g: "good_piece ''x''" by (simp add: good_piece_def)
  have sp: "\<not> special (path_of [''tmp''])" by (simp add: special_def path_of_def SPECIAL_PATHS_def)
  have ho: "host_opens example_host" by (auto simp: host_opens_def example_host_def)
  have "file_contents (\<lambda>_. []) s3 (path_of ([''tmp''] @ [''x''])) = Inl (OSError ''ENOENT'')"
    by (rule sftp_upload_unreadable [OF example_at_tmp example_fs_ok g sp _ _ ho _ op _ s2 s3])
       (simp_all add: example_fs_def)
  then have "file_contents (\<lambda>_. []) s3 ''/tmp/x'' = Inl (OSError ''ENOENT'')" by (simp add: path_of_def)
  with s2 s3 show ?thesis unfolding s1 fst_conv by blast
qed

subsection \<open>Relative links\<close>

text \<open>The target of a relative link is looked up from the root directory, whatever directory the
  link is in: following a link \<open>t\<close> found in any directory gives exactly what the path
  \<open>/t\<close> gives.\<close>

theorem relative_link_from_root:
  assumes "at_dir s ps d ids" "good_piece f" "filter (\<lambda>x. A_NAME (heap s x) = f) ids = [x]"
    "A_TYPE (heap s x) = T_LINK" "A_TARGET (heap s x) = Some t" "t \<noteq> []" "hd t \<noteq> CHR ''/''"
  shows "getfile s (path_of (ps @ [f])) True = getfile_at (frames s - 1) (heap s) (CHR ''/'' # t) True"
proof -
  note a = at_dirD [OF assms(1)]
  obtain m where m: "frames s = Suc m" using a(5) by (cases "frames s") auto
  have g: "\<forall>x \<in> set (ps @ [f]). good_piece x" using assms(2) a(1) by simp
  have tgt: "entry_target (\<lambda>t. getfile_at m (heap s) t True) (heap s) False x
      = getfile_at m (heap s) (CHR ''/'' # t) True"
    using assms(4-7) by (cases t) (simp_all add: entry_target_def)
  have once: "last_match target h p ids i = target x"
    if "filter (\<lambda>x. A_NAME (h x) = p) ids = [x]" for target h p ids and i :: nat
    using that
    by (induction ids) (auto simp: last_match_none rbind_def split: if_splits sum.splits option.splits)
  have ret: "rbind M (case_option (Inr None) (getfile_steps r h fl l [])) = M" for M r h fl l
    by (auto simp: rbind_def split: sum.splits option.splits)
  show ?thesis
    using getfile_walk_gen [OF g a(2,5), of True] filter_single_name [OF assms(3)]
    by (simp add: entries_def a(4) once [OF assms(3)] m tgt ret)
qed

definition example_link_fs :: filesystem where
  "example_link_fs =
     example_fs\<lparr>heap := (heap example_fs)
        (1 := (new_node ''tmp'' T_DIR 0 0 4096 16877 0)\<lparr>A_CONTENTS := Entries [3]\<rparr>,
         3 := (new_node ''l'' T_LINK 0 0 0 0xA1FF 0)\<lparr>A_TARGET := Some ''tmp''\<rparr>), fresh := 4\<rparr>"

theorem relative_link_from_root_witness:
  "getfile example_link_fs ''/tmp/l'' True = Inr (Some 1)"
proof -
  have at: "at_dir example_link_fs [''tmp''] 1 [3]"
    by (simp add: at_dir_def example_link_fs_def example_fs_def new_node_def walk.simps(2) good_piece_def)
  have g: "good_piece ''l''" by (simp add: good_piece_def)
  have "getfile example_link_fs (path_of ([''tmp''] @ [''l''])) True
      = getfile_at (frames example_link_fs - 1) (heap example_link_fs) (CHR ''/'' # ''tmp'') True"
    by (rule relative_link_from_root [OF at g, where x = 3])
       (simp_all add: example_link_fs_def example_fs_def new_node_def)
  also have "\<dots> = Inr (Some 1)" by code_simp
  finally show ?thesis by (simp add: path_of_def)
qed

text \<open>The mask for the host file is decimal: it also strips read and write permissions.\<close>

lemma hostmode_strips_too_much:
  "hostmode 420 = 384" "420 AND NOT (73 :: int) = 420"
  by (simp_all add: hostmode_def)

theorem rmdir_only_empty_witness:
  "\<exists>x. getfile example_fs ''/tmp'' False = Inr (Some x) \<and> A_TYPE (heap example_fs x) = T_DIR"
proof -
  have ok: "snd (rmdir ''/tmp'' example_fs) = Inr True" by code_simp
  have p: "rstrip_chars slash ''/tmp'' = ''/tmp''" by (simp add: rstrip_chars_def)
  from rmdir_only_empty [OF prod.collapse [symmetric], of "''/tmp''" example_fs] ok
  show ?thesis unfolding p by blast
qed

end
