(* ===== verification/Shell_Pipe.thy ===== *)
theory Shell_Pipe
  imports Shell_Parser Vfs_Main
begin

section \<open>Output routing of a pipeline\<close>

text \<open>
  Model of \<open>shell/pipe.py\<close>. A pipeline is a list of pipe protocols, each the producer for the one
  behind it. The session holds the file system, the working directory and what has been written to
  the terminal. Opening a backing file on the host creates it in \<open>disk\<close>; the time stamps that go
  into its name are fields of the session.
\<close>

unbundle bit_operations_syntax

subsection \<open>State\<close>

record session =
  vfs :: filesystem
  cwd :: string
  terminal :: string
  user_uid :: int
  user_gid :: int
  download_path :: string
  contents_path :: string
  stamp :: string
  transport_id :: string
  session_id :: string
  now :: rat

record file_info =
  virtual :: string
  real :: string
  f_append :: bool
  start_size :: int

datatype fd_target =
    FD_STDIN | FD_TERMINAL | FD_PIPE | FD_CAPTURE | FD_FILE file_info | FD_FILE_INPUT string | FD_DEVNULL

record pipe =
  input_data :: "string option"
  redirected_data :: string
  err_data :: string
  targets :: "nat \<rightharpoonup> fd_target"
  redirection_error :: bool
  has_redirection_error :: bool
  redirect_real_files :: "(string \<times> string) list"
  stdout_written :: int
  stderr_written :: int

definition in_vfs :: "(filesystem \<Rightarrow> (filesystem, 'a) sres) \<Rightarrow> session \<Rightarrow> (session, 'a) sres" where
  "in_vfs f w = (let (s, r) = f (vfs w) in (w\<lparr>vfs := s\<rparr>, r))"

definition terminal_write :: "string \<Rightarrow> session \<Rightarrow> session" where
  "terminal_write data w = w\<lparr>terminal := terminal w @ data\<rparr>"

definition set_disk :: "((string \<rightharpoonup> string) \<Rightarrow> (string \<rightharpoonup> string)) \<Rightarrow> session \<Rightarrow> session" where
  "set_disk f w = w\<lparr>vfs := (vfs w)\<lparr>disk := f (disk (vfs w))\<rparr>\<rparr>"

text \<open>Opening a file of the host for appending creates it, writing appends, truncating empties it.\<close>

definition touch_disk :: "string \<Rightarrow> (string \<rightharpoonup> string) \<Rightarrow> (string \<rightharpoonup> string)" where
  "touch_disk f d = d(f \<mapsto> (case d f of None \<Rightarrow> [] | Some b \<Rightarrow> b))"

definition append_disk :: "string \<Rightarrow> string \<Rightarrow> (string \<rightharpoonup> string) \<Rightarrow> (string \<rightharpoonup> string)" where
  "append_disk f data d = d(f \<mapsto> (case d f of None \<Rightarrow> [] | Some b \<Rightarrow> b) @ data)"

subsection \<open>Backing files\<close>

definition path_join :: "string \<Rightarrow> string \<Rightarrow> string" where
  "path_join a b = (if b \<noteq> [] \<and> slash (hd b) then b
     else if a = [] \<or> slash (last a) then a @ b else a @ ''/'' @ b)"

definition redirect_name :: "session \<Rightarrow> string \<Rightarrow> string" where
  "redirect_name w outfile =
     path_join (download_path w)
       (stamp w @ ''-'' @ transport_id w @ ''-'' @ session_id w @ ''-redir_'' @ safe_name outfile)"

definition emit_redirection_error :: "string \<Rightarrow> session \<Rightarrow> pipe \<Rightarrow> session \<times> pipe" where
  "emit_redirection_error message w p = (terminal_write message w, p\<lparr>redirection_error := True\<rparr>)"

definition not_found :: "string \<Rightarrow> string" where
  "not_found f = ''-bash: '' @ f @ '': No such file or directory'' @ [CHR 0x0A]"

definition denied :: "string \<Rightarrow> string" where
  "denied f = ''-bash: '' @ f @ '': Permission denied'' @ [CHR 0x0A]"

definition needs_new_backing :: "session \<Rightarrow> nat option \<Rightarrow> bool" where
  "needs_new_backing w p =
     (case p of
        None \<Rightarrow> True
      | Some i \<Rightarrow> (case A_REALFILE (heap (vfs w) i) of
            None \<Rightarrow> True
          | Some r \<Rightarrow> r = [] \<or> starts_with r (contents_path w)))"

text \<open>Mode 0644 with the bit of a regular file.\<close>

definition redirect_mode :: int where "redirect_mode = S_IFREG OR 0x1A4"

definition create_redirect_target :: "string \<Rightarrow> session \<Rightarrow> pipe \<Rightarrow> (session \<times> pipe, string option) sres" where
  "create_redirect_target outfile w p =
     (let safeoutfile = redirect_name w outfile in
      case in_vfs (mkfile outfile (user_uid w) (user_gid w) 0 redirect_mode (now w)) w of
        (w1, Inl e) \<Rightarrow>
          if e = FileNotFound then (emit_redirection_error (not_found outfile) w1 p, Inr None)
          else if e = PermissionDenied then (emit_redirection_error (denied outfile) w1 p, Inr None)
          else ((w1, p), Inl e)
      | (w1, Inr _) \<Rightarrow>
          let w2 = set_disk (touch_disk safeoutfile) w1 in
          case getfile (vfs w2) outfile True of
            Inl e \<Rightarrow> ((w2, p), Inl e)
          | Inr f \<Rightarrow> (case in_vfs (update_realfile f safeoutfile) w2 of
                (w3, Inl e) \<Rightarrow> ((w3, p), Inl e)
              | (w3, Inr _) \<Rightarrow> ((w3, p), Inr (Some safeoutfile))))"

definition reuse_existing_backing :: "string \<Rightarrow> nat \<Rightarrow> bool \<Rightarrow> session \<Rightarrow> (session, (string \<times> int)) sres" where
  "reuse_existing_backing outfile i app w =
     (let n = heap (vfs w) i; safeoutfile = (case A_REALFILE n of None \<Rightarrow> [] | Some r \<Rightarrow> r) in
      if app then (w, Inr (safeoutfile, A_SIZE n))
      else sbind (in_vfs (update_size outfile 0) (set_disk (\<lambda>d. d(safeoutfile \<mapsto> [])) w))
             (\<lambda>w' _. (w', Inr (safeoutfile, 0))))"

text \<open>What the code keeps of a target: a file, the null device, or nothing after an error.\<close>

datatype output_target = No_target | Null_device | Output_file file_info

definition prepare_output_file ::
  "string \<Rightarrow> bool \<Rightarrow> session \<Rightarrow> pipe \<Rightarrow> (session \<times> pipe, output_target) sres" where
  "prepare_output_file target app w p =
     (case rbind (resolve_path (home (vfs w)) target (cwd w)) (\<lambda>outfile.
             rbind (getfile (vfs w) outfile True) (\<lambda>f. Inr (outfile, f))) of
        Inl e \<Rightarrow> ((w, p), Inl e)
      | Inr (outfile, f) \<Rightarrow>
          if outfile = ''/dev/null'' then ((w, p), Inr Null_device)
          else
            let size0 = (case f of Some i \<Rightarrow> if app then A_SIZE (heap (vfs w) i) else 0 | None \<Rightarrow> 0);
                info = (\<lambda>safe start. \<lparr>virtual = outfile, real = safe, f_append = app, start_size = start\<rparr>);
                finish = (\<lambda>(w', p') safe start.
                  ((w', p'\<lparr>redirect_real_files := redirect_real_files p' @ [(safe, outfile)]\<rparr>),
                   Inr (Output_file (info safe start))))
            in if needs_new_backing w f
               then (case create_redirect_target outfile w p of
                       (wp, Inl e) \<Rightarrow> (wp, Inl e)
                     | (wp, Inr None) \<Rightarrow> (wp, Inr No_target)
                     | (wp, Inr (Some safe)) \<Rightarrow> finish wp safe size0)
               else (case reuse_existing_backing outfile (the f) app w of
                       (w', Inl e) \<Rightarrow> ((w', p), Inl e)
                     | (w', Inr (safe, start)) \<Rightarrow> finish (w', p) safe start))"

definition prepare_stdin ::
  "(string \<Rightarrow> string) \<Rightarrow> string \<Rightarrow> session \<Rightarrow> pipe \<Rightarrow> (session \<times> pipe, unit) sres" where
  "prepare_stdin arch_bytes target w p =
     (case rbind (resolve_path (home (vfs w)) target (cwd w)) (\<lambda>path. file_contents arch_bytes (vfs w) path) of
        Inr data \<Rightarrow> ((w, p\<lparr>input_data := Some data\<rparr>), Inr ())
      | Inl e \<Rightarrow>
          if e = FileNotFound then (emit_redirection_error (not_found target) w p, Inr ())
          else if e = PermissionDenied then (emit_redirection_error (denied target) w p, Inr ())
          else ((w, p), Inl e))"

subsection \<open>The table of descriptors\<close>

text \<open>The offset a redirected standard stream starts at.\<close>

definition start_at :: "nat \<Rightarrow> int \<Rightarrow> pipe \<Rightarrow> pipe" where
  "start_at fd start p =
     (if fd = 1 then p\<lparr>stdout_written := start\<rparr>
      else if fd = 2 then p\<lparr>stderr_written := start\<rparr> else p)"

definition set_target :: "nat \<Rightarrow> fd_target \<Rightarrow> pipe \<Rightarrow> pipe" where
  "set_target fd t p = p\<lparr>targets := (targets p)(fd \<mapsto> t)\<rparr>"

fun apply_redirections ::
  "redirection list \<Rightarrow> string option \<Rightarrow> session \<Rightarrow> pipe \<Rightarrow> (session \<times> pipe, string option) sres" where
  "apply_redirections [] pending w p = ((w, p), Inr pending)"
| "apply_redirections (Redir_file fd target app # ops) pending w p =
     (case prepare_output_file target app w p of
        (wp, Inl e) \<Rightarrow> (wp, Inl e)
      | ((w1, p1), Inr No_target) \<Rightarrow> apply_redirections ops pending w1 p1
      | ((w1, p1), Inr Null_device) \<Rightarrow> apply_redirections ops pending w1 (set_target fd FD_DEVNULL p1)
      | ((w1, p1), Inr (Output_file info)) \<Rightarrow>
          apply_redirections ops pending w1
            (start_at fd (start_size info) (set_target fd (FD_FILE info) p1)))"
| "apply_redirections (Redir_stdin fd target # ops) pending w p =
     apply_redirections ops (Some target) w (set_target fd (FD_FILE_INPUT target) p)"
| "apply_redirections (Redir_dup fd target_fd # ops) pending w p =
     apply_redirections ops pending w
       (case targets p target_fd of None \<Rightarrow> p | Some t \<Rightarrow> set_target fd t p)"

definition default_targets :: "bool \<Rightarrow> bool \<Rightarrow> nat \<rightharpoonup> fd_target" where
  "default_targets has_next redirect =
     [0 \<mapsto> FD_STDIN,
      1 \<mapsto> (if redirect then FD_CAPTURE else if has_next then FD_PIPE else FD_TERMINAL),
      2 \<mapsto> FD_TERMINAL]"

definition initial_pipe :: "string option \<Rightarrow> bool \<Rightarrow> bool \<Rightarrow> pipe" where
  "initial_pipe inp has_next redirect =
     \<lparr>input_data = inp, redirected_data = [], err_data = [],
      targets = default_targets has_next redirect,
      redirection_error = False, has_redirection_error = False, redirect_real_files = [],
      stdout_written = 0, stderr_written = 0\<rparr>"

text \<open>
  Building a pipe protocol: \<open>next_command\<close> is the one behind it, already built. An exception leaves
  no protocol.
\<close>

definition pipe_protocol ::
  "(string \<Rightarrow> string) \<Rightarrow> string option \<Rightarrow> pipe option \<Rightarrow> bool \<Rightarrow> redirection list \<Rightarrow> session
   \<Rightarrow> (session, pipe) sres" where
  "pipe_protocol arch_bytes inp next_command redirect redirections w =
     (let p = initial_pipe inp (next_command \<noteq> None) redirect;
          finish = (\<lambda>p. p\<lparr>has_redirection_error := redirection_error p
             \<or> (case next_command of None \<Rightarrow> False | Some n \<Rightarrow> has_redirection_error n)\<rparr>)
      in case apply_redirections redirections None w p of
           ((w1, p1), Inl e) \<Rightarrow> (w1, Inl e)
         | ((w1, p1), Inr pending) \<Rightarrow>
             (if pending \<in> {None, Some []} then (w1, Inr (finish p1))
              else case prepare_stdin arch_bytes (the pending) w1 p1 of
                     ((w2, p2), Inl e) \<Rightarrow> (w2, Inl e)
                   | ((w2, p2), Inr _) \<Rightarrow> (w2, Inr (finish p2))))"

subsection \<open>Writing\<close>

definition write_to_file ::
  "file_info \<Rightarrow> string \<Rightarrow> bool \<Rightarrow> session \<Rightarrow> pipe \<Rightarrow> (session \<times> pipe, unit) sres" where
  "write_to_file info data is_stdout w p =
     (let w1 = set_disk (append_disk (real info) data) w;
          p1 = (if is_stdout then p\<lparr>stdout_written := stdout_written p + int (length data)\<rparr>
                else p\<lparr>stderr_written := stderr_written p + int (length data)\<rparr>);
          written = (if is_stdout then stdout_written p1 else stderr_written p1)
      in case in_vfs (update_size (virtual info) written) w1 of (w2, r) \<Rightarrow> ((w2, p1), r))"

text \<open>A write of the first protocol of a chain; data for the next one is its input.\<close>

definition pipe_to_next :: "string \<Rightarrow> pipe list \<Rightarrow> pipe list" where
  "pipe_to_next data ps =
     (case ps of
        p # q # r \<Rightarrow> p # q\<lparr>input_data := Some ((case input_data q of None \<Rightarrow> [] | Some d \<Rightarrow> d) @ data)\<rparr> # r
      | _ \<Rightarrow> ps)"

definition write_to_fd :: "nat \<Rightarrow> string \<Rightarrow> session \<Rightarrow> pipe list \<Rightarrow> (session \<times> pipe list, unit) sres" where
  "write_to_fd fd data w chain =
     (case chain of
        [] \<Rightarrow> ((w, []), Inr ())
      | p # ps \<Rightarrow>
          (case targets p fd of
             Some FD_TERMINAL \<Rightarrow> ((terminal_write data w, chain), Inr ())
           | Some FD_PIPE \<Rightarrow> ((w, pipe_to_next data chain), Inr ())
           | Some FD_CAPTURE \<Rightarrow> ((w, p\<lparr>redirected_data := redirected_data p @ data\<rparr> # ps), Inr ())
           | Some (FD_FILE info) \<Rightarrow>
               (case write_to_file info data (fd = 1) w p of ((w1, p1), r) \<Rightarrow> ((w1, p1 # ps), r))
           | _ \<Rightarrow> ((w, chain), Inr ())))"

definition write_stdout :: "string \<Rightarrow> session \<Rightarrow> pipe list \<Rightarrow> (session \<times> pipe list, unit) sres" where
  "write_stdout = write_to_fd 1"

definition write_stderr :: "string \<Rightarrow> session \<Rightarrow> pipe list \<Rightarrow> (session \<times> pipe list, unit) sres" where
  "write_stderr data w chain =
     write_to_fd 2 data w
       (case chain of [] \<Rightarrow> [] | p # ps \<Rightarrow> p\<lparr>err_data := err_data p @ data\<rparr> # ps)"

subsection \<open>Lookup does not see attributes\<close>

definition same_lookup :: "heap \<Rightarrow> heap \<Rightarrow> bool" where
  "same_lookup h h' \<longleftrightarrow>
     (\<forall>k. A_NAME (h' k) = A_NAME (h k) \<and> A_TYPE (h' k) = A_TYPE (h k)
        \<and> A_CONTENTS (h' k) = A_CONTENTS (h k) \<and> A_TARGET (h' k) = A_TARGET (h k))"

lemma last_match_same: "same_lookup h h' \<Longrightarrow> last_match t h' piece ids p = last_match t h piece ids p"
  by (induction ids arbitrary: p) (auto simp: same_lookup_def rbind_def split: sum.splits option.splits)

lemma getfile_steps_same:
  assumes "same_lookup h h'"
  shows "getfile_steps rec h' follow l ps p = getfile_steps rec h follow l ps p"
proof (induction ps arbitrary: p)
  case (Cons piece pieces)
  have t: "entry_target rec h' k = entry_target rec h k" for k
    using assms by (intro ext) (simp add: entry_target_def same_lookup_def)
  have e: "entries h' p = entries h p" using assms by (simp add: entries_def same_lookup_def)
  have n: "map (\<lambda>x. A_NAME (h' x)) ids = map (\<lambda>x. A_NAME (h x)) ids" for ids
    using assms by (simp add: same_lookup_def)
  show ?case unfolding getfile_steps.simps t e n last_match_same [OF assms] Cons.IH ..
qed simp

lemma getfile_at_same: "same_lookup h h' \<Longrightarrow> getfile_at n h' path follow = getfile_at n h path follow"
  by (induction n arbitrary: path) (simp_all add: getfile_steps_same)

lemma getfile_same:
  "same_lookup (heap s) (heap s') \<Longrightarrow> frames s' = frames s \<Longrightarrow> getfile s' path follow = getfile s path follow"
  by (simp add: getfile_def getfile_at_same)

subsection \<open>A file being written through a redirection\<close>

text \<open>The path finds entry \<open>x\<close>, a regular file backed by \<open>info\<close>, with that content on disk.\<close>

definition backed :: "session \<Rightarrow> file_info \<Rightarrow> nat \<Rightarrow> string \<Rightarrow> bool" where
  "backed w info x content \<longleftrightarrow>
     getfile (vfs w) (virtual info) True = Inr (Some x) \<and> A_TYPE (heap (vfs w) x) = T_FILE
     \<and> A_REALFILE (heap (vfs w) x) = Some (real info) \<and> real info \<noteq> []
     \<and> disk (vfs w) (real info) = Some content"

lemma write_to_file_backed:
  fixes is_stdout :: bool and p :: pipe and data :: string
  assumes "backed w info x content"
  defines "n \<equiv> (if is_stdout then stdout_written p else stderr_written p) + int (length data)"
  shows "\<exists>w'. write_to_file info data is_stdout w p =
      ((w', if is_stdout then p\<lparr>stdout_written := n\<rparr> else p\<lparr>stderr_written := n\<rparr>), Inr ())
    \<and> backed w' info x (content @ data) \<and> A_SIZE (heap (vfs w') x) = n
    \<and> terminal w' = terminal w \<and> home (vfs w') = home (vfs w) \<and> redirect_name w' = redirect_name w"
proof -
  let ?s1 = "(vfs w)\<lparr>disk := append_disk (real info) data (disk (vfs w))\<rparr>"
  let ?s2 = "update_node x (\<lambda>m. m\<lparr>A_SIZE := n\<rparr>) ?s1"
  have g1: "getfile ?s1 (virtual info) True = Inr (Some x)"
    using assms(1) by (simp add: backed_def getfile_def)
  have us: "update_size (virtual info) n ?s1 = (?s2, Inr ())"
    using g1 assms(1) by (simp add: update_size_def backed_def)
  have "same_lookup (heap ?s1) (heap ?s2)" by (simp add: same_lookup_def update_node_def)
  then have "getfile ?s2 (virtual info) True = Inr (Some x)"
    using getfile_same [of ?s1 ?s2] g1 by (simp add: update_node_def)
  then have "backed (w\<lparr>vfs := ?s2\<rparr>) info x (content @ data)"
    using assms(1) by (simp add: backed_def update_node_def append_disk_def)
  moreover have "A_SIZE (heap ?s2 x) = n" by (simp add: update_node_def)
  ultimately show ?thesis
    using us by (intro exI [of _ "w\<lparr>vfs := ?s2\<rparr>"])
      (auto simp: write_to_file_def set_disk_def in_vfs_def n_def Let_def update_node_def redirect_name_def fun_eq_iff)
qed

lemma backed_contents:
  assumes "backed w info x content" "virtual info = path_of ps" "\<forall>p \<in> set ps. good_piece p"
  shows "file_contents arch_bytes (vfs w) (virtual info) = Inr content"
proof -
  have "path_of ps \<noteq> []" by (simp add: path_of_def)
  moreover obtain c cs where "real info = c # cs" using assms(1) by (cases "real info") (auto simp: backed_def)
  ultimately show ?thesis
    using assms by (simp add: file_contents_def resolve_normal exists_def backed_def node_contents_def read_bytes_def)
qed

text \<open>Opening a redirection to a file that does not exist yet.\<close>

definition new_redirect :: "session \<Rightarrow> string list \<Rightarrow> string \<Rightarrow> bool \<Rightarrow> file_info" where
  "new_redirect w ps f app =
     \<lparr>virtual = path_of (ps @ [f]), real = redirect_name w (path_of (ps @ [f])), f_append = app,
      start_size = 0\<rparr>"

definition can_create :: "session \<Rightarrow> string list \<Rightarrow> nat \<Rightarrow> nat list \<Rightarrow> string \<Rightarrow> bool" where
  "can_create w ps d ids f \<longleftrightarrow>
     at_dir (vfs w) ps d ids \<and> fs_ok (vfs w) \<and> good_piece f \<and> \<not> special (path_of ps)
     \<and> newcount (vfs w) \<le> 10000 \<and> f \<notin> (\<lambda>x. A_NAME (heap (vfs w) x)) ` set ids
     \<and> path_of (ps @ [f]) \<noteq> ''/dev/null''"

text \<open>
  What the backing file a redirection to a new file would use already holds. Its name is the second, the
  session and the path with everything but letters and digits made underscores, so it is there
  when a file with a path that looks alike, or the same path before it was deleted, was made in the same second.
\<close>

definition leftover :: "session \<Rightarrow> string \<Rightarrow> string" where
  "leftover w path = (case disk (vfs w) (redirect_name w path) of None \<Rightarrow> [] | Some b \<Rightarrow> b)"

lemma redirect_name_nonempty: "redirect_name w f \<noteq> []"
  by (auto simp: redirect_name_def path_join_def)

lemma prepare_new_file:
  assumes "can_create w ps d ids f"
  shows "\<exists>w'. prepare_output_file (path_of (ps @ [f])) app w p =
      ((w', p\<lparr>redirect_real_files := redirect_real_files p @ [(real (new_redirect w ps f app), path_of (ps @ [f]))]\<rparr>),
       Inr (Output_file (new_redirect w ps f app)))
    \<and> backed w' (new_redirect w ps f app) (fresh (vfs w)) (leftover w (path_of (ps @ [f]))) \<and> terminal w' = terminal w
    \<and> redirect_name w' = redirect_name w"
proof -
  let ?path = "path_of (ps @ [f])" and ?s = "vfs w"
  let ?safe = "redirect_name w ?path"
  have a: "at_dir ?s ps d ids" "fs_ok ?s" "good_piece f" "\<not> special (path_of ps)" "newcount ?s \<le> 10000"
    "f \<notin> (\<lambda>x. A_NAME (heap ?s x)) ` set ids" "?path \<noteq> ''/dev/null''"
    using assms by (auto simp: can_create_def)
  have g: "\<forall>x \<in> set (ps @ [f]). good_piece x" using a(3) at_dirD(1) [OF a(1)] by simp
  let ?n = "new_node f T_FILE (user_uid w) (user_gid w) 0 redirect_mode (now w)"
  let ?sA = "add_state d ids ?n ?s"
  let ?sB = "?sA\<lparr>disk := touch_disk ?safe (disk ?sA)\<rparr>"
  let ?sC = "update_node (fresh ?s) (\<lambda>n. n\<lparr>A_REALFILE := Some ?safe\<rparr>) ?sB"
  have js: "filter (\<lambda>x. A_NAME (heap ?s x) \<noteq> f) ids = ids" "filter (\<lambda>x. A_NAME (heap ?s x) = f) ids = []"
    using a(6) by (auto simp: filter_empty_conv intro!: filter_True)
  have mk: "mkfile ?path (user_uid w) (user_gid w) 0 redirect_mode (now w) ?s = (?sA, Inr True)"
    using mkfile_eq [OF a(1-5)] by (simp add: js)
  have fr: "d < fresh ?s" using at_dir_fresh [OF a(1,2)] by simp
  have node: "heap ?sA (fresh ?s) = ?n" by (rule add_state_heap(1) [OF fr])
  have at: "at_dir ?sA ps d (ids @ [fresh ?s])"
    by (rule at_dir_update [OF a(1,2) add_state_agree]) (simp_all add: add_state_heap)
  have one: "filter (\<lambda>x. A_NAME (heap ?sA x) = f) (ids @ [fresh ?s]) = [fresh ?s]"
    by (rule add_state_child [OF a(1,2) _ a(6)]) (auto simp: new_node_def)
  have "getfile ?sA ?path True = Inr (Some (fresh ?s))"
    by (rule at_dir_child [OF at a(3) one]) (simp add: node, simp add: new_node_def)
  then have gB: "getfile ?sB ?path True = Inr (Some (fresh ?s))" by (simp add: getfile_def)
  have rB: "A_REALFILE (heap ?sB (fresh ?s)) = None" "A_SIZE (heap ?sB (fresh ?s)) = 0"
    "A_TYPE (heap ?sB (fresh ?s)) = T_FILE"
    by (simp_all add: node) (simp_all add: new_node_def)
  have up: "update_realfile (Some (fresh ?s)) ?safe ?sB = (?sC, Inr ())"
    using rB by (simp add: update_realfile_def touch_disk_def)
  have "same_lookup (heap ?sB) (heap ?sC)" by (simp add: same_lookup_def update_node_def)
  then have gC: "getfile ?sC ?path True = Inr (Some (fresh ?s))"
    using getfile_same [of ?sB ?sC] gB by (simp add: update_node_def)
  have b: "backed (w\<lparr>vfs := ?sC\<rparr>) (new_redirect w ps f app) (fresh ?s) (leftover w ?path)"
    using gC rB by (simp add: backed_def new_redirect_def redirect_name_nonempty update_node_def touch_disk_def leftover_def)
  have "getfile ?s ?path True = Inr None" by (rule at_dir_no_child [OF a(1,3,6)])
  then show ?thesis
    using mk gB up b a(7)
    by (intro exI [of _ "w\<lparr>vfs := ?sC\<rparr>"])
       (simp add: prepare_output_file_def resolve_normal [OF g] Let_def needs_new_backing_def
         create_redirect_target_def in_vfs_def set_disk_def new_redirect_def redirect_name_def fun_eq_iff)
qed

subsection \<open>Properties\<close>

fun write_chunks :: "string list \<Rightarrow> session \<Rightarrow> pipe list \<Rightarrow> (session \<times> pipe list, unit) sres" where
  "write_chunks [] w chain = ((w, chain), Inr ())"
| "write_chunks (b # bs) w chain =
     (case write_stdout b w chain of
        (wc, Inl e) \<Rightarrow> (wc, Inl e)
      | ((w', chain'), Inr _) \<Rightarrow> write_chunks bs w' chain')"

lemma write_chunks_backed:
  assumes "backed w info x content" "targets p 1 = Some (FD_FILE info)" "stdout_written p = int k"
  shows "\<exists>w' p'. write_chunks chunks w (p # ps) = ((w', p' # ps), Inr ())
    \<and> backed w' info x (content @ concat chunks) \<and> terminal w' = terminal w
    \<and> redirect_name w' = redirect_name w
    \<and> (chunks \<noteq> [] \<longrightarrow> A_SIZE (heap (vfs w') x) = int (k + length (concat chunks)))"
  using assms
proof (induction chunks arbitrary: w p content k)
  case (Cons b bs)
  let ?p = "p\<lparr>stdout_written := stdout_written p + int (length b)\<rparr>"
  obtain w1 where w1: "write_to_file info b True w p = ((w1, ?p), Inr ())"
    "backed w1 info x (content @ b)" "terminal w1 = terminal w" "redirect_name w1 = redirect_name w"
    "A_SIZE (heap (vfs w1) x) = stdout_written p + int (length b)"
    using write_to_file_backed [OF Cons.prems(1), of b True p] by auto
  have "targets ?p 1 = Some (FD_FILE info)" "stdout_written ?p = int (k + length b)"
    using Cons.prems by simp_all
  from Cons.IH [OF w1(2) this] show ?case
    using w1 Cons.prems(2,3) by (cases "bs = []") (auto simp: write_stdout_def write_to_fd_def)
qed simp

lemma redirect_stored:
  assumes "can_create w ps d ids f"
    "pipe_protocol arch_bytes inp None False [Redir_file 1 (path_of (ps @ [f])) app] w = (w1, Inr p)"
    "write_chunks chunks w1 [p] = ((w2, chain), r)" "chunks \<noteq> []"
  shows "r = Inr () \<and> file_contents arch_bytes (vfs w2) (path_of (ps @ [f])) 
        = Inr (leftover w (path_of (ps @ [f])) @ concat chunks)
    \<and> terminal w2 = terminal w \<and> redirect_name w2 = redirect_name w
    \<and> leftover w2 (path_of (ps @ [f])) = leftover w (path_of (ps @ [f])) @ concat chunks
    \<and> (\<exists>x. getfile (vfs w2) (path_of (ps @ [f])) True = Inr (Some x)
        \<and> A_SIZE (heap (vfs w2) x) = int (length (concat chunks)))"
proof -
  let ?info = "new_redirect w ps f app"
  have g: "\<forall>x \<in> set (ps @ [f]). good_piece x"
    using assms(1) at_dirD(1) by (auto simp: can_create_def)
  let ?p0 = "initial_pipe inp False False"
  let ?p1 = "?p0\<lparr>redirect_real_files := redirect_real_files ?p0 @ [(real ?info, path_of (ps @ [f]))]\<rparr>"
  obtain w' where w': "prepare_output_file (path_of (ps @ [f])) app w ?p0 = ((w', ?p1), Inr (Output_file ?info))"
    "backed w' ?info (fresh (vfs w)) (leftover w (path_of (ps @ [f])))" "terminal w' = terminal w"
    "redirect_name w' = redirect_name w"
    using prepare_new_file [OF assms(1), of app ?p0] by blast
  have w1: "w1 = w'" and tp: "targets p 1 = Some (FD_FILE ?info)" "stdout_written p = 0"
    using assms(2) w'(1)
    by (auto simp: pipe_protocol_def Let_def start_at_def set_target_def new_redirect_def initial_pipe_def)
  obtain w3 p' where w3: "write_chunks chunks w1 [p] = ((w3, [p']), Inr ())"
    "backed w3 ?info (fresh (vfs w)) (leftover w (path_of (ps @ [f])) @ concat chunks)" "terminal w3 = terminal w"
    "redirect_name w3 = redirect_name w"
    "A_SIZE (heap (vfs w3) (fresh (vfs w))) = int (length (concat chunks))"
    using write_chunks_backed [of w' ?info "fresh (vfs w)" "leftover w (path_of (ps @ [f]))" p 0 chunks "[]"] w'(2-4) tp assms(4)
    by (auto simp: w1)
  have v: "virtual ?info = path_of (ps @ [f])" by (simp add: new_redirect_def)
  have "w2 = w3" "r = Inr ()" using w3(1) assms(3) by simp_all
  moreover have "leftover w3 (path_of (ps @ [f])) = leftover w (path_of (ps @ [f])) @ concat chunks"
    using w3(2,4) by (simp add: leftover_def [of w3] backed_def new_redirect_def)
  ultimately show ?thesis
    using w3 backed_contents [OF w3(2) v g] v unfolding backed_def by auto
qed

text \<open>C15: Redirecting to a new file stores the output: after \<open>> file\<close> in a directory reached without
  links, whatever is written to standard output, in however many pieces, is what reading the path
  gives afterwards, its recorded size is the number of bytes written, and nothing shows on the
  terminal. What is read starts with what the backing file held before, which is nothing unless one was
  made in the same second for a path that looks alike (\<open>redirects_of_a_second_mixed\<close> below).\<close>

theorem redirect_then_read_back:
  assumes "can_create w ps d ids f"
    "pipe_protocol arch_bytes inp None False [Redir_file 1 (path_of (ps @ [f])) app] w = (w1, Inr p)"
    "write_chunks chunks w1 [p] = ((w2, chain), r)" "chunks \<noteq> []"
  shows "r = Inr ()
    \<and> file_contents arch_bytes (vfs w2) (path_of (ps @ [f])) = Inr (leftover w (path_of (ps @ [f])) @ concat chunks)
    \<and> (disk (vfs w) (redirect_name w (path_of (ps @ [f]))) = None \<longrightarrow> leftover w (path_of (ps @ [f])) = [])
    \<and> terminal w2 = terminal w
    \<and> (\<exists>x. getfile (vfs w2) (path_of (ps @ [f])) True = Inr (Some x)
        \<and> A_SIZE (heap (vfs w2) x) = int (length (concat chunks)))"
  using redirect_stored [OF assms] by (simp add: leftover_def)

text \<open>Two files of one second whose paths differ in punctuation only, as \<open>/tmp/x.y\<close> and \<open>/tmp/x_y\<close>, or the
  same path deleted in between, have one backing file: the second is read with the first in front.\<close>

theorem redirects_of_a_second_mixed:
  assumes "can_create w ps d ids f" "leftover w (path_of (ps @ [f])) = []"
    "pipe_protocol arch_bytes inp None False [Redir_file 1 (path_of (ps @ [f])) app] w = (w1, Inr p)"
    "write_chunks chunks w1 [p] = ((w2, chain), r)" "chunks \<noteq> []"
    "can_create w2 qs e js g" "safe_name (path_of (qs @ [g])) = safe_name (path_of (ps @ [f]))"
    "pipe_protocol arch_bytes inp' None False [Redir_file 1 (path_of (qs @ [g])) app'] w2 = (w3, Inr q)"
    "write_chunks chunks' w3 [q] = ((w4, chain'), r')" "chunks' \<noteq> []"
  shows "file_contents arch_bytes (vfs w4) (path_of (qs @ [g])) = Inr (concat chunks @ concat chunks')"
proof -
  note one = redirect_stored [OF assms(1,3-5)] and two = redirect_stored [OF assms(6,8-10)]
  have "redirect_name w2 (path_of (qs @ [g])) = redirect_name w2 (path_of (ps @ [f]))"
    using assms(7) by (simp add: redirect_name_def)
  then have "leftover w2 (path_of (qs @ [g])) = leftover w2 (path_of (ps @ [f]))" by (simp add: leftover_def)
  with one two assms(2) show ?thesis by simp
qed

definition example_session :: session where
  "example_session =
     \<lparr>vfs = example_fs, cwd = ''/root'', terminal = [], user_uid = 0, user_gid = 0,
      download_path = ''dl'', contents_path = ''honeyfs'', stamp = ''1'', transport_id = ''2'',
      session_id = ''3'', now = 0\<rparr>"

lemma example_can_create: "can_create example_session [''tmp''] 1 [] ''x''"
  using example_at_tmp example_fs_ok
  by (simp add: can_create_def example_session_def good_piece_def special_def path_of_def SPECIAL_PATHS_def)
     (simp add: example_fs_def)

lemma split_result: "is_ok (snd m) \<Longrightarrow> \<exists>s x. m = (s, Inr x)"
  by (cases m; cases "snd m") auto

theorem redirect_then_read_back_witness:
  "\<exists>w1 p w2 chain. pipe_protocol (\<lambda>_. []) None None False [Redir_file 1 ''/tmp/x'' False] example_session = (w1, Inr p)
     \<and> write_chunks [''ab'', ''c''] w1 [p] = ((w2, chain), Inr ())
     \<and> file_contents (\<lambda>_. []) (vfs w2) ''/tmp/x'' = Inr ''abc''"
proof -
  let ?ops = "[Redir_file 1 (path_of ([''tmp''] @ [''x''])) False]"
  have "is_ok (snd (pipe_protocol (\<lambda>_. []) None None False ?ops example_session))" by code_simp
  then obtain w1 p where o: "pipe_protocol (\<lambda>_. []) None None False ?ops example_session = (w1, Inr p)"
    using split_result by blast
  obtain w2 chain r where c: "write_chunks [''ab'', ''c''] w1 [p] = ((w2, chain), r)"
    by (metis prod.collapse)
  have "r = Inr () \<and> file_contents (\<lambda>_. []) (vfs w2) (path_of ([''tmp''] @ [''x''])) = Inr ''abc''"
    using redirect_then_read_back [OF example_can_create o c] by (simp add: example_session_def example_fs_def)
  with o c show ?thesis by (auto simp: path_of_def)
qed

text \<open>At work: \<open>echo a > /tmp/x.y\<close> and \<open>echo b > /tmp/x_y\<close> in one second.\<close>

definition redirect_text :: "string \<Rightarrow> string \<Rightarrow> session \<Rightarrow> session" where
  "redirect_text path d w =
     (case pipe_protocol (\<lambda>_. []) None None False [Redir_file 1 path False] w of
        (w1, Inr p) \<Rightarrow> fst (fst (write_chunks [d] w1 [p]))
      | (w1, Inl e) \<Rightarrow> w1)"

lemma look_alike_paths_mixed:
  "file_contents (\<lambda>_. []) (vfs (redirect_text ''/tmp/x_y'' ''b'' (redirect_text ''/tmp/x.y'' ''a'' example_session)))
     ''/tmp/x_y'' = Inr ''ab''"
  by code_simp

text \<open>With both streams in one file (\<open>> file 2>&1\<close>) the recorded size is wrong: each stream
  counts only its own bytes, so after something on standard output and then something on standard
  error the file holds both, but its size is that of the second part alone.\<close>

theorem shared_redirect_size_wrong:
  assumes "can_create w ps d ids f"
    "pipe_protocol arch_bytes inp None False [Redir_file 1 (path_of (ps @ [f])) app, Redir_dup 2 1] w = (w1, Inr p)"
    "write_stdout a w1 [p] = ((w2, chain2), r2)" "write_stderr b w2 chain2 = ((w3, chain3), r3)"
  shows "r2 = Inr () \<and> r3 = Inr ()
    \<and> file_contents arch_bytes (vfs w3) (path_of (ps @ [f])) = Inr (leftover w (path_of (ps @ [f])) @ a @ b)
    \<and> (\<exists>x. getfile (vfs w3) (path_of (ps @ [f])) True = Inr (Some x)
        \<and> A_SIZE (heap (vfs w3) x) = int (length b))"
proof -
  let ?info = "new_redirect w ps f app" and ?x = "fresh (vfs w)"
  have g: "\<forall>x \<in> set (ps @ [f]). good_piece x"
    using assms(1) at_dirD(1) by (auto simp: can_create_def)
  let ?p0 = "initial_pipe inp False False"
  let ?p1 = "?p0\<lparr>redirect_real_files := redirect_real_files ?p0 @ [(real ?info, path_of (ps @ [f]))]\<rparr>"
  obtain w' where w': "prepare_output_file (path_of (ps @ [f])) app w ?p0 = ((w', ?p1), Inr (Output_file ?info))"
    "backed w' ?info ?x (leftover w (path_of (ps @ [f])))"
    using prepare_new_file [OF assms(1), of app ?p0] by blast
  have w1: "w1 = w'" and tp: "targets p 1 = Some (FD_FILE ?info)" "targets p 2 = Some (FD_FILE ?info)"
    "stdout_written p = 0" "stderr_written p = 0"
    using assms(2) w'(1)
    by (auto simp: pipe_protocol_def Let_def start_at_def set_target_def new_redirect_def initial_pipe_def)
  obtain w4 where w4: "write_to_file ?info a True w1 p = ((w4, p\<lparr>stdout_written := int (length a)\<rparr>), Inr ())"
    "backed w4 ?info ?x (leftover w (path_of (ps @ [f])) @ a)"
    using write_to_file_backed [OF w'(2), of a True p] by (auto simp: w1 tp)
  let ?q = "(p\<lparr>stdout_written := int (length a)\<rparr>)\<lparr>err_data := err_data p @ b\<rparr>"
  obtain w5 where w5: "write_to_file ?info b False w4 ?q = ((w5, ?q\<lparr>stderr_written := int (length b)\<rparr>), Inr ())"
    "backed w5 ?info ?x (leftover w (path_of (ps @ [f])) @ a @ b)" "A_SIZE (heap (vfs w5) ?x) = int (length b)"
    using write_to_file_backed [OF w4(2), of b False ?q] by (auto simp: tp)
  have s2: "w2 = w4" "r2 = Inr ()" "chain2 = [p\<lparr>stdout_written := int (length a)\<rparr>]"
    using assms(3) w4(1) tp by (simp_all add: write_stdout_def write_to_fd_def)
  then have s3: "w3 = w5" "r3 = Inr ()"
    using assms(4) w5(1) tp by (simp_all add: write_stderr_def write_to_fd_def)
  have v: "virtual ?info = path_of (ps @ [f])" by (simp add: new_redirect_def)
  show ?thesis using s2 s3 w5 backed_contents [OF w5(2) v g] v unfolding backed_def by auto
qed

theorem shared_redirect_size_wrong_witness:
  "\<exists>(w3 :: session) x. file_contents (\<lambda>_. []) (vfs w3) ''/tmp/x'' = Inr ''abc'' \<and> A_SIZE (heap (vfs w3) x) = 1
     \<and> getfile (vfs w3) ''/tmp/x'' True = Inr (Some x)"
proof -
  let ?ops = "[Redir_file 1 (path_of ([''tmp''] @ [''x''])) False, Redir_dup 2 1]"
  have "is_ok (snd (pipe_protocol (\<lambda>_. []) None None False ?ops example_session))" by code_simp
  then obtain w1 p where o: "pipe_protocol (\<lambda>_. []) None None False ?ops example_session = (w1, Inr p)"
    using split_result by blast
  obtain w2 c2 r2 where c: "write_stdout ''ab'' w1 [p] = ((w2, c2), r2)" by (metis prod.collapse)
  obtain w3 c3 r3 where e: "write_stderr ''c'' w2 c2 = ((w3, c3), r3)" by (metis prod.collapse)
  from shared_redirect_size_wrong [OF example_can_create o c e]
  have "file_contents (\<lambda>_. []) (vfs w3) ''/tmp/x'' = Inr ''abc''"
    "\<exists>x. getfile (vfs w3) ''/tmp/x'' True = Inr (Some x) \<and> A_SIZE (heap (vfs w3) x) = 1"
    by (simp_all add: path_of_def) (simp add: leftover_def example_session_def example_fs_def)
  then show ?thesis by blast
qed

text \<open>Every write of a pipeline member goes to one place: the terminal, the next member, the capture
  buffer of a substitution, or a file; nothing else is touched.\<close>

lemma write_capture:
  "targets p 1 = Some FD_CAPTURE \<Longrightarrow>
   write_stdout d w (p # ps) = ((w, p\<lparr>redirected_data := redirected_data p @ d\<rparr> # ps), Inr ())"
  by (simp add: write_stdout_def write_to_fd_def)

lemma write_pipe:
  "targets p 1 = Some FD_PIPE \<Longrightarrow> input_data q = Some x \<Longrightarrow>
   write_stdout d w (p # q # ps) = ((w, p # q\<lparr>input_data := Some (x @ d)\<rparr> # ps), Inr ())"
  by (simp add: write_stdout_def write_to_fd_def pipe_to_next_def)

end
