(* ===== verification/Shell_Line.thy ===== *)
theory Shell_Line
  imports Shell_Pipe Prelude_Bytes
begin

section \<open>From a line to commands\<close>

text \<open>
  Model of the first half of \<open>shell/honeypot.py\<close>: the lexer the shell uses (\<open>shlex\<close> with
  \<open>posix\<close>, \<open>punctuation_chars\<close> and the extra word characters), variable expansion, command
  substitution and subshells, and the loop of \<open>lineReceived\<close> that cuts a line into commands.
  Running a command in a nested shell is the parameter \<open>run\<close>.
\<close>

subsection \<open>The lexer\<close>

text \<open>A character is its UTF-8 bytes. The non-ASCII word characters are the letters of Latin-1.\<close>

definition word_char :: "string \<Rightarrow> bool" where
  "word_char c =
     (case c of
        [a] \<Rightarrow> is_alnum a \<or> a \<in> set ''_~-./*?=@%{}$:+^,()`''
      | [a, b] \<Rightarrow> of_char a = (0xC3 :: nat) \<and> 128 \<le> (of_char b :: nat) \<and> (of_char b :: nat) < 192
          \<and> of_char b \<noteq> (0x97 :: nat) \<and> of_char b \<noteq> (0xB7 :: nat)
      | _ \<Rightarrow> False)"

definition lex_space :: "string \<Rightarrow> bool" where
  "lex_space c \<longleftrightarrow> c \<in> {'' '', [CHR 0x09], [CHR 0x0D], [CHR 0x0A]}"

definition punct_char :: "string \<Rightarrow> bool" where
  "punct_char c \<longleftrightarrow> c \<in> {''('', '')'', '';'', ''<'', ''>'', ''|'', ''&''}"

definition quote_char :: "string \<Rightarrow> bool" where
  "quote_char c \<longleftrightarrow> c = [CHR 0x27] \<or> c = [CHR 0x22]"

abbreviation backslash :: string where "backslash \<equiv> [CHR 0x5C]"

datatype lex_state = LBlank | LWord | LPunct | LQuote string | LEscape "string option"

definition skip_line :: "string list \<Rightarrow> string list" where
  "skip_line cs = drop 1 (dropWhile (\<lambda>c. c \<noteq> [CHR 0x0A]) cs)"

lemma length_skip_line: "length (skip_line cs) \<le> length cs"
  using length_dropWhile_le [of "\<lambda>c. c \<noteq> [CHR 0x0A]" cs] by (simp add: skip_line_def)

lemma skip_line_less [simp]:
  "2 * length (skip_line cs) < Suc (Suc (2 * length cs))"
  "2 * length (skip_line cs) < Suc (Suc (Suc (2 * length cs)))"
  using length_skip_line [of cs] by linarith+

definition emit :: "string \<Rightarrow> bool \<Rightarrow> string list \<times> bool \<Rightarrow> string list \<times> bool" where
  "emit tok quoted r = (if tok \<noteq> [] \<or> quoted then (tok # fst r, snd r) else r)"

text \<open>The tokens of a text, and whether the lexer ends with an error (an open quotation or a lone
  backslash at the end).\<close>

function lex :: "lex_state \<Rightarrow> string \<Rightarrow> bool \<Rightarrow> string list \<Rightarrow> string list \<times> bool" where
  "lex LBlank tok q [] = ([], False)"
| "lex LBlank tok q (c # cs) =
     (if lex_space c then lex LBlank [] False cs
      else if c = ''#'' then lex LBlank [] False (skip_line cs)
      else if c = backslash then lex (LEscape None) [] False cs
      else if word_char c then lex LWord c False cs
      else if punct_char c then lex LPunct c False cs
      else if quote_char c then lex (LQuote c) [] True cs
      else emit c False (lex LBlank [] False cs))"
| "lex (LQuote k) tok q [] = ([], True)"
| "lex (LQuote k) tok q (c # cs) =
     (if c = k then lex LWord tok True cs
      else if c = backslash \<and> k = [CHR 0x22] then lex (LEscape (Some k)) tok True cs
      else lex (LQuote k) (tok @ c) True cs)"
| "lex (LEscape es) tok q [] = ([], True)"
| "lex (LEscape es) tok q (c # cs) =
     (case es of
        None \<Rightarrow> lex LWord (tok @ c) q cs
      | Some k \<Rightarrow> lex (LQuote k) (tok @ (if c \<noteq> backslash \<and> c \<noteq> k then backslash else []) @ c) q cs)"
| "lex LWord tok q [] = emit tok q ([], False)"
| "lex LWord tok q (c # cs) =
     (if lex_space c then emit tok q (lex LBlank [] False cs)
      else if c = ''#'' then emit tok q (lex LBlank [] False (skip_line cs))
      else if quote_char c then lex (LQuote c) tok True cs
      else if c = backslash then lex (LEscape None) tok q cs
      else if word_char c then lex LWord (tok @ c) q cs
      else emit tok q (lex LBlank [] False (c # cs)))"
| "lex LPunct tok q [] = emit tok q ([], False)"
| "lex LPunct tok q (c # cs) =
     (if lex_space c then emit tok q (lex LBlank [] False cs)
      else if c = ''#'' then emit tok q (lex LBlank [] False (skip_line cs))
      else if punct_char c then lex LPunct (tok @ c) q cs
      else emit tok q (lex LBlank [] False (c # cs)))"
  by pat_completeness auto
termination
  by (relation "measure (\<lambda>(st, tok, q, cs). 2 * length cs + (if st = LBlank then 0 else 1))")
     auto

type_synonym lexer = "string list \<times> bool"

definition new_lexer :: "string \<Rightarrow> lexer" where
  "new_lexer s = lex LBlank [] False (uchars s)"

definition get_token :: "lexer \<Rightarrow> (string option \<times> lexer) res" where
  "get_token l =
     (case l of
        (t # ts, err) \<Rightarrow> Inr (Some t, (ts, err))
      | ([], err) \<Rightarrow> if err then Inl ValueError else Inr (None, ([], err)))"

subsection \<open>Finding the end of a substitution\<close>

text \<open>
  The loop that looks for the closing bracket, taking more tokens from the lexer when the text ends
  first. \<open>dollar\<close> tells a substitution from a subshell: what opens a level, and whether a
  backquote closes one.
\<close>

datatype scan_result = Scan_found string nat lexer | Scan_eof lexer

function scan_close :: "bool \<Rightarrow> string \<Rightarrow> nat \<Rightarrow> nat \<Rightarrow> nat \<Rightarrow> lexer \<Rightarrow> scan_result res" where
  "scan_close dollar cmd_expr pos opening closing l =
     (if pos \<ge> length cmd_expr then Inl IndexError
      else
        let c = cmd_expr ! pos in
        if c = CHR '')'' \<or> dollar \<and> c = CHR ''`'' then
          (if opening = Suc closing then Inr (Scan_found cmd_expr pos l)
           else scan_close dollar cmd_expr (Suc pos) opening (Suc closing) l)
        else if dollar \<and> take 2 (drop pos cmd_expr) = ''$('' then
          scan_close dollar cmd_expr (pos + 2) (Suc opening) closing l
        else if \<not> dollar \<and> c = CHR ''('' then scan_close dollar cmd_expr (Suc pos) (Suc opening) closing l
        else if Suc pos = length cmd_expr then
          (case l of
             (t # ts, err) \<Rightarrow> scan_close dollar (cmd_expr @ '' '' @ t) (Suc pos) opening closing (ts, err)
           | ([], err) \<Rightarrow> if err then Inl ValueError else Inr (Scan_eof ([], err)))
        else scan_close dollar cmd_expr (Suc pos) opening closing l)"
  by pat_completeness auto
termination
  by (relation "inv_image (less_than <*lex*> less_than)
        (\<lambda>(dollar, cmd_expr, pos, opening, closing, l). (length (fst l), length cmd_expr - pos))") auto

subsection \<open>Substitutions and subshells\<close>

definition split_commands :: "string list \<Rightarrow> string list list" where
  "split_commands ts =
     filter (\<lambda>c. c \<noteq> [])
       (foldr (\<lambda>t acc. if t \<in> {'';'', ''&&'', ''||''} then [] # acc
                       else case acc of [] \<Rightarrow> [[t]] | a # r \<Rightarrow> (t # a) # r) ts [[]])"

type_synonym run = "string \<Rightarrow> session \<Rightarrow> (session, string) sres"

fun run_all :: "run \<Rightarrow> string list \<Rightarrow> session \<Rightarrow> (session, string) sres" where
  "run_all run [] w = (w, Inr [])"
| "run_all run (c # cs) w = sbind (run c w) (\<lambda>w1 out. sbind (run_all run cs w1) (\<lambda>w2 rest. (w2, Inr (out @ rest))))"

text \<open>If the text cannot be read to its end, the commands before the last separator have run.\<close>

definition execute_subshell_with_full_output :: "run \<Rightarrow> string \<Rightarrow> session \<Rightarrow> (session, string) sres" where
  "execute_subshell_with_full_output run cmd w =
     (let (ts, err) = new_lexer cmd;
          cmds = map (join_with '' '') (split_commands ts);
          complete = map (join_with '' '')
            (split_commands (rev (dropWhile (\<lambda>t. t \<notin> {'';'', ''&&'', ''||''}) (rev ts))))
      in if err then sbind (run_all run complete w) (\<lambda>w1 _. (w1, Inl ValueError))
         else run_all run cmds w)"

definition run_subshell_command :: "run \<Rightarrow> string \<Rightarrow> session \<Rightarrow> (session, string) sres" where
  "run_subshell_command run cmd_expr w =
     (let cmd = butlast (drop (if starts_with cmd_expr ''$('' then 2 else 1) cmd_expr) in
      if starts_with cmd_expr ''('' then execute_subshell_with_full_output run cmd w
      else sbind (execute_subshell_with_full_output run cmd w)
             (\<lambda>w1 out. (w1, Inr (rstrip_chars (\<lambda>c. c = CHR 0x0A) out))))"

text \<open>
  \<open>do_command_substitution\<close>: the text before the substitution, its expression and where to start.
  The recursion on the result is bounded by the interpreter: \<open>n\<close> nested calls.
\<close>

definition substitution_start :: "string \<Rightarrow> (string \<times> string \<times> nat) option" where
  "substitution_start start_tok =
     (if hd start_tok = CHR ''('' then Some ([], start_tok, 1)
      else case find_sub ''$('' start_tok of
          Some i \<Rightarrow> Some (take i start_tok, drop i start_tok, 2)
        | None \<Rightarrow> (case find_sub ''`'' start_tok of
              Some i \<Rightarrow> Some (take i start_tok, drop i start_tok, 1)
            | None \<Rightarrow> None))"

fun do_command_substitution :: "nat \<Rightarrow> run \<Rightarrow> string \<Rightarrow> lexer \<Rightarrow> session \<Rightarrow> (session, string \<times> lexer) sres" where
  "do_command_substitution 0 run start_tok l w = (w, Inl RecursionError)"
| "do_command_substitution (Suc n) run start_tok l w =
     (if start_tok = [] then (w, Inl IndexError)
      else case substitution_start start_tok of
        None \<Rightarrow> (w, Inr (start_tok, l))
      | Some (result, cmd_expr, pos) \<Rightarrow>
          (case scan_close True cmd_expr pos 1 0 l of
             Inl e \<Rightarrow> (w, Inl e)
           | Inr (Scan_eof l1) \<Rightarrow> (w, Inr (result, l1))
           | Inr (Scan_found cmd_expr1 p l1) \<Rightarrow>
               sbind (run_subshell_command run (take (Suc p) cmd_expr1) w) (\<lambda>w1 out.
                 let (w2, res) = (if hd cmd_expr1 = CHR ''('' then (terminal_write out w1, result)
                                  else (w1, result @ out));
                     remainder = drop (Suc p) cmd_expr1
                 in if remainder = [] then (w2, Inr (res, l1))
                    else if contains ''$('' remainder \<or> contains ''`'' remainder
                    then do_command_substitution n run (res @ remainder) l1 w2
                    else (w2, Inr (res @ remainder, l1)))))"

fun take_subshell :: "nat \<Rightarrow> nat \<Rightarrow> string list \<Rightarrow> string list \<times> string list" where
  "take_subshell opening closing [] = ([], [])"
| "take_subshell opening closing (tok # ts) =
     (if tok = '')'' then
        (if opening = Suc closing then ([], ts)
         else (let (a, r) = take_subshell opening (Suc closing) ts in (tok # a, r)))
      else (let (a, r) = take_subshell (if tok = ''('' then Suc opening else opening) closing ts
            in (tok # a, r)))"

text \<open>The tokens up to the closing bracket; without one, up to the end, which may be an error.\<close>

definition do_subshell_execution_from_lexer :: "run \<Rightarrow> lexer \<Rightarrow> session \<Rightarrow> (session, lexer) sres" where
  "do_subshell_execution_from_lexer run l w =
     (let (cmd_tokens, ts) = take_subshell 1 0 (fst l); closed = length cmd_tokens < length (fst l)
      in if \<not> closed \<and> snd l then (w, Inl ValueError)
         else sbind (run_subshell_command run (''('' @ join_with '' '' cmd_tokens @ '')'') w)
                (\<lambda>w1 out. (terminal_write out w1, Inr (ts, snd l))))"

definition do_subshell_execution :: "run \<Rightarrow> string \<Rightarrow> lexer \<Rightarrow> session \<Rightarrow> (session, lexer) sres" where
  "do_subshell_execution run start_tok l w =
     (case scan_close False start_tok 1 1 0 l of
        Inl e \<Rightarrow> (w, Inl e)
      | Inr (Scan_eof l1) \<Rightarrow> (w, Inr l1)
      | Inr (Scan_found cmd_expr p l1) \<Rightarrow>
          sbind (run_subshell_command run (take (Suc p) cmd_expr) w)
            (\<lambda>w1 out. (terminal_write out w1, Inr l1)))"

subsection \<open>Variables\<close>

definition env_name :: "string \<Rightarrow> bool" where
  "env_name s \<longleftrightarrow> s \<noteq> [] \<and> list_all (\<lambda>c. is_alnum c \<or> c = CHR ''_'') s"

text \<open>The patterns end in \<open>$\<close>, which also matches in front of a final newline.\<close>

definition chop_newline :: "string \<Rightarrow> string" where
  "chop_newline s = (if s \<noteq> [] \<and> last s = CHR 0x0A then butlast s else s)"

definition env_brace :: "string \<Rightarrow> string option" where
  "env_brace tok =
     (let t = chop_newline tok; name = butlast (drop 2 t) in
      if starts_with t ''${'' \<and> length t \<ge> 3 \<and> last t = CHR ''}'' \<and> env_name name then Some name else None)"

definition env_simple :: "string \<Rightarrow> string option" where
  "env_simple tok =
     (let t = chop_newline tok; name = drop 1 t in
      if starts_with t ''$'' \<and> env_name name then Some name else None)"

text \<open>The token with its variable replaced; a variable that is not set drops the token.\<close>

definition expand_variable :: "(string \<times> string) list \<Rightarrow> string \<Rightarrow> string option" where
  "expand_variable environ tok =
     (case (if starts_with tok ''${'' then env_brace tok
            else if starts_with tok ''$'' then env_simple tok else None) of
        None \<Rightarrow> Some tok
      | Some name \<Rightarrow> map_of environ name)"

end
