(* ===== verification/Shell.thy ===== *)
theory Shell
  imports Shell_Line
begin

section \<open>The shell\<close>

text \<open>
  Model of the second half of \<open>shell/honeypot.py\<close> and of \<open>getCommand\<close> in \<open>shell/protocol.py\<close>: from a
  received line to the pipelines it runs, the prompt, and completion. A call of a handler is one
  function; where the code goes on by calling itself or a command, the function ends with the
  \<open>action\<close> to take. Command classes are a type parameter.
\<close>

record shell =
  interactive :: bool
  redirect :: bool
  cmdpending :: "string list list"
  environ :: "(string \<times> string) list"

record account =
  username :: string
  hostname :: string
  avatar_home :: string
  prompt_option :: "string option"

subsection \<open>The prompt\<close>

definition prompt_text :: "account \<Rightarrow> session \<Rightarrow> string" where
  "prompt_text acc w =
     (case prompt_option acc of
        Some p \<Rightarrow> p @ '' ''
      | None \<Rightarrow>
          let hm = avatar_home acc;
              shown = (if cwd w = hm then ''~''
                       else if length (cwd w) > length hm + 1 \<and> starts_with (cwd w) (hm @ ''/'')
                       then ''~'' @ drop (length hm) (cwd w) else cwd w)
          in username acc @ ''@'' @ hostname acc @ '':'' @ shown @ (if user_uid w = 0 then ''# '' else ''$ ''))"

definition show_prompt :: "account \<Rightarrow> shell \<Rightarrow> session \<Rightarrow> (session, unit) sres" where
  "show_prompt acc sh w =
     (if \<not> interactive sh then (w, Inr ())
      else let p = prompt_text acc w
           in if is_ascii p then (terminal_write p w, Inr ()) else (w, Inl UnicodeEncodeError))"

subsection \<open>One line\<close>

definition newline :: string where "newline = [CHR 0x0A]"

definition unexpected_token :: "string \<Rightarrow> string" where
  "unexpected_token tok = ''-bash: syntax error near unexpected token `'' @ tok @ [CHR 0x27]"

definition unexpected_eof :: string where
  "unexpected_eof = ''-bash: syntax error: unexpected end of file'' @ newline"

text \<open>
  The token loop of \<open>lineReceived\<close>: the commands collected, or the exception that ended it. Every
  round takes a token, so the number of tokens plus one is enough fuel.
\<close>

fun line_loop ::
  "nat \<Rightarrow> nat \<Rightarrow> run \<Rightarrow> (string \<times> string) list \<Rightarrow> lexer \<Rightarrow> string list \<Rightarrow> string list list \<Rightarrow> session
   \<Rightarrow> (session, string list list) sres" where
  "line_loop 0 depth run env l tokens pending w = (w, Inl RecursionError)"
| "line_loop (Suc n) depth run env l tokens pending w =
     (case get_token l of
        Inl e \<Rightarrow> (w, Inl e)
      | Inr (None, _) \<Rightarrow> (w, Inr (if tokens = [] then pending else pending @ [tokens]))
      | Inr (Some tok, l1) \<Rightarrow>
          if tok \<in> {''&&'', ''||''} then
            (if tokens \<noteq> [] then line_loop n depth run env l1 [] (pending @ [tokens]) w
             else (terminal_write (unexpected_token tok @ newline) w, Inr pending))
          else if tok = '';'' then
            line_loop n depth run env l1 [] (if tokens = [] then pending else pending @ [tokens]) w
          else if tok = ''$?'' then line_loop n depth run env l1 (tokens @ [''0'']) pending w
          else if starts_with tok ''('' then
            (if tokens \<noteq> [] then (terminal_write (unexpected_token tok @ [CHR 0x5C, CHR ''n'']) w, Inr pending)
             else sbind (if tok = ''('' then do_subshell_execution_from_lexer run l1 w
                         else do_subshell_execution run tok l1 w)
                    (\<lambda>w1 l2. line_loop n depth run env l2 tokens pending w1))
          else if contains ''$('' tok \<or> contains ''`'' tok then
            sbind (do_command_substitution depth run tok l1 w)
              (\<lambda>w1 (t, l2). line_loop n depth run env l2 (tokens @ [t]) pending w1)
          else (case expand_variable env tok of
              None \<Rightarrow> line_loop n depth run env l1 tokens pending w
            | Some t \<Rightarrow> line_loop n depth run env l1 (tokens @ [t]) pending w))"

text \<open>
  \<open>lineReceived\<close>; \<open>canned\<close> is the answer of the router in front of the shell, if it has one. True as
  a result means that the pending commands are to be run.
\<close>

definition line_received ::
  "(string \<Rightarrow> string option) \<Rightarrow> run \<Rightarrow> account \<Rightarrow> string \<Rightarrow> shell \<Rightarrow> session \<Rightarrow> (session \<times> shell, bool) sres" where
  "line_received canned run acc line sh w =
     (case canned line of
        Some c \<Rightarrow> (case show_prompt acc sh (terminal_write c w) of (w1, r) \<Rightarrow>
                    ((w1, sh), rbind r (\<lambda>_. Inr False)))
      | None \<Rightarrow>
          let l = new_lexer line
          in case line_loop (Suc (length (fst l))) (frames (vfs w)) run (environ sh) l [] (cmdpending sh) w of
               (w1, Inl e) \<Rightarrow>
                 let sh1 = sh\<lparr>cmdpending := []\<rparr>
                 in (case show_prompt acc sh1 (terminal_write unexpected_eof w1) of (w2, r) \<Rightarrow>
                      ((w2, sh1), rbind r (\<lambda>_. Inr False)))
             | (w1, Inr pending) \<Rightarrow>
                 if pending \<noteq> []
                 then ((w1, sh\<lparr>cmdpending := map merge_redirection_tokens pending\<rparr>), Inr True)
                 else (case show_prompt acc (sh\<lparr>cmdpending := []\<rparr>) w1 of (w2, r) \<Rightarrow>
                      ((w2, sh\<lparr>cmdpending := []\<rparr>), rbind r (\<lambda>_. Inr False))))"

subsection \<open>Finding a command\<close>

text \<open>
  \<open>getCommand\<close>: \<open>commands\<close> is the table of built-in commands, \<open>txtcmd\<close> reads a canned output
  shipped as data (None if there is no such file), \<open>scriptcmd\<close> runs a file of the virtual file
  system.
\<close>

record 'c command_table =
  commands :: "string \<Rightarrow> 'c option"
  txtcmd :: "string \<Rightarrow> 'c option res"
  scriptcmd :: "string \<Rightarrow> 'c"

fun first_existing :: "filesystem \<Rightarrow> string list \<Rightarrow> string option res" where
  "first_existing s [] = Inr None"
| "first_existing s (p # ps) = rbind (exists s p) (\<lambda>b. if b then Inr (Some p) else first_existing s ps)"

fun candidate_paths :: "session \<Rightarrow> string \<Rightarrow> string list \<Rightarrow> string list res" where
  "candidate_paths w cmd [] = Inr []"
| "candidate_paths w cmd (x # xs) =
     rbind (resolve_path (home (vfs w)) x (cwd w)) (\<lambda>d.
     rbind (candidate_paths w cmd xs) (\<lambda>r. Inr ((d @ ''/'' @ cmd) # r)))"

definition find_command_path :: "session \<Rightarrow> string \<Rightarrow> string list \<Rightarrow> string option res" where
  "find_command_path w cmd paths =
     (if hd cmd \<in> {CHR ''.'', CHR ''/''}
      then rbind (resolve_path (home (vfs w)) cmd (cwd w)) (\<lambda>p.
           rbind (exists (vfs w) p) (\<lambda>b. Inr (if b then Some p else None)))
      else rbind (candidate_paths w cmd paths) (first_existing (vfs w)))"

definition get_command :: "'c command_table \<Rightarrow> session \<Rightarrow> string \<Rightarrow> string list \<Rightarrow> 'c option res" where
  "get_command tab w cmd paths =
     (if strip_chars is_space cmd = [] then Inr None
      else case commands tab cmd of
        Some c \<Rightarrow> Inr (Some c)
      | None \<Rightarrow>
          rbind (find_command_path w cmd paths) (\<lambda>found. case found of
              None \<Rightarrow> Inr None
            | Some path \<Rightarrow> rbind (txtcmd tab (lstrip_chars slash path)) (\<lambda>txt. case txt of
                  Some c \<Rightarrow> Inr (Some c)
                | None \<Rightarrow> (case commands tab path of
                    Some c \<Rightarrow> Inr (Some c)
                  | None \<Rightarrow> Inr (if isfile (vfs w) path then Some (scriptcmd tab path) else None)))))"

subsection \<open>Running a command\<close>

text \<open>Leading assignments, and the words that remain.\<close>

fun take_assignments :: "string list \<Rightarrow> (string \<times> string) list \<Rightarrow> (string \<times> string) list \<times> string list" where
  "take_assignments [] env = (env, [])"
| "take_assignments (piece # rest) env =
     (if CHR ''='' \<in> set piece
      then take_assignments rest
        (AList.update (takeWhile (\<lambda>c. c \<noteq> CHR ''='') piece) (tl (dropWhile (\<lambda>c. c \<noteq> CHR ''='') piece)) env)
      else (env, piece # rest))"

record cmd_spec =
  cmd_name :: string
  rargs :: "string list"
  redirects :: "redirection list"

text \<open>The commands behind the first one; a stage without words is skipped.\<close>

definition later_commands :: "string list list \<Rightarrow> cmd_spec list" where
  "later_commands stages =
     concat (map (\<lambda>ws. case parse_redirections ws of
         ([], _) \<Rightarrow> []
       | (c # args, ops) \<Rightarrow> [\<lparr>cmd_name = c, rargs = args, redirects = ops\<rparr>]) stages)"

datatype action =
    Run_or_prompt
  | Not_found
  | Show_prompt
  | End_session
  | Stop_here

datatype 'c outcome = Do action | Call "pipe list" "('c \<times> string list) list"

datatype 'c built = Built "pipe list" "('c \<times> string list) list" | Missing

definition command_not_found :: "string \<Rightarrow> string" where
  "command_not_found cmd = ''-bash: '' @ cmd @ '': command not found'' @ newline"

text \<open>An unknown command: the message goes where its own redirections send it.\<close>

definition report_missing :: "(string \<Rightarrow> string) \<Rightarrow> bool \<Rightarrow> cmd_spec \<Rightarrow> session \<Rightarrow> (session, unit) sres" where
  "report_missing arch_bytes redir spec w =
     (let message = command_not_found (cmd_name spec) in
      if redirects spec = [] then (terminal_write message w, Inr ())
      else sbind (pipe_protocol arch_bytes None None redir (redirects spec) w) (\<lambda>w1 p.
             case write_stderr message w1 [p] of ((w2, _), r) \<Rightarrow> (w2, r)))"

text \<open>The pipeline is built from its last command to its first.\<close>

fun build_pipeline ::
  "(string \<Rightarrow> string) \<Rightarrow> 'c command_table \<Rightarrow> (string \<times> string) list \<Rightarrow> bool \<Rightarrow> cmd_spec list \<Rightarrow> pipe list
   \<Rightarrow> ('c \<times> string list) list \<Rightarrow> session \<Rightarrow> (session, 'c built) sres" where
  "build_pipeline ab tab env redir [] chain classes w = (w, Inr (Built chain classes))"
| "build_pipeline ab tab env redir (spec # specs) chain classes w =
     (case rbind (dict_get env ''PATH'') (\<lambda>path. get_command tab w (cmd_name spec) (split_on (CHR '':'') path)) of
        Inl e \<Rightarrow> (w, Inl e)
      | Inr None \<Rightarrow> sbind (report_missing ab redir spec w) (\<lambda>w1 _. (w1, Inr Missing))
      | Inr (Some c) \<Rightarrow>
          sbind (pipe_protocol ab None (case chain of [] \<Rightarrow> None | p # _ \<Rightarrow> Some p) redir (redirects spec) w)
            (\<lambda>w1 p. build_pipeline ab tab env redir specs (p # chain) ((c, rargs spec) # classes) w1))"

text \<open>What \<open>runCommand\<close> does without a pending command.\<close>

definition nothing_pending :: "bool \<Rightarrow> nat \<Rightarrow> shell \<Rightarrow> action" where
  "nothing_pending has_next cmdstack_len sh =
     (if has_next then Stop_here
      else if interactive sh then Show_prompt
      else if cmdstack_len = 1 then End_session
      else Stop_here)"

definition run_stages ::
  "(string \<Rightarrow> string) \<Rightarrow> 'c command_table \<Rightarrow> (string \<times> string) list \<Rightarrow> bool \<Rightarrow> string list list \<Rightarrow> session
   \<Rightarrow> (session, 'c outcome) sres" where
  "run_stages ab tab env redir stages w =
     (case parse_redirections (hd stages) of
        ([], ops) \<Rightarrow>
          if ops = [] then (w, Inr (Do Run_or_prompt))
          else sbind (pipe_protocol ab None None redir ops w) (\<lambda>w1 _. (w1, Inr (Do Run_or_prompt)))
      | (c # args, ops) \<Rightarrow>
          let specs = \<lparr>cmd_name = c, rargs = args, redirects = ops\<rparr> # later_commands (tl stages)
          in sbind (build_pipeline ab tab env redir (rev specs) [] [] w) (\<lambda>w1 b. case b of
               Missing \<Rightarrow> (w1, Inr (Do Not_found))
             | Built chain classes \<Rightarrow>
                 if has_redirection_error (hd chain) then (w1, Inr (Do Run_or_prompt))
                 else (w1, Inr (Call chain classes))))"

definition run_command ::
  "(string \<Rightarrow> string) \<Rightarrow> 'c command_table \<Rightarrow> bool \<Rightarrow> nat \<Rightarrow> shell \<Rightarrow> session \<Rightarrow> (session \<times> shell, 'c outcome) sres" where
  "run_command ab tab has_next cmdstack_len sh w =
     (case cmdpending sh of
        [] \<Rightarrow> ((w, sh), Inr (Do (nothing_pending has_next cmdstack_len sh)))
      | cmd_and_args # later \<Rightarrow>
          let sh1 = sh\<lparr>cmdpending := later\<rparr>;
              (env, cmd_tokens) = take_assignments cmd_and_args (environ sh)
          in if cmd_tokens = [] then ((w, sh1), Inr (Do Run_or_prompt))
             else case run_stages ab tab env (redirect sh) (split_on ''|'' cmd_tokens) w of
                    (w1, r) \<Rightarrow> ((w1, sh1), r))"

text \<open>An action is carried out by running the next command or showing the prompt.\<close>

definition run_or_prompt :: "account \<Rightarrow> shell \<Rightarrow> session \<Rightarrow> (session, bool) sres" where
  "run_or_prompt acc sh w =
     (if cmdpending sh \<noteq> [] then (w, Inr True)
      else sbind (show_prompt acc sh w) (\<lambda>w1 _. (w1, Inr False)))"

end
