(* ===== verification/Shell_Props.thy ===== *)
theory Shell_Props
  imports Shell
begin

section \<open>Properties of the shell\<close>

subsection \<open>Lexing plain words\<close>

definition simple_char :: "char \<Rightarrow> bool" where
  "simple_char c \<longleftrightarrow> is_alnum c \<or> c \<in> set ''_~-./*?=@%:+^,''"

definition simple_word :: "string \<Rightarrow> bool" where
  "simple_word t \<longleftrightarrow> t \<noteq> [] \<and> list_all simple_char t"

lemma simple_char_facts:
  assumes "simple_char c"
  shows "word_char [c]" "\<not> lex_space [c]" "c \<noteq> CHR ''#''" "c \<noteq> CHR 0x5C" "\<not> quote_char [c]" "\<not> is_cont c"
    "c \<noteq> CHR ''$''" "c \<noteq> CHR ''`''" "c \<noteq> CHR ''(''" "c \<noteq> CHR '';''" "c \<noteq> CHR ''&''" "c \<noteq> CHR ''|''"
    "c \<noteq> CHR ''>''" "c \<noteq> CHR ''<''"
  using assms
  by (auto simp: simple_char_def word_char_def lex_space_def quote_char_def is_cont_def is_alnum_def Let_def)

lemma uchars_ascii: "list_all (\<lambda>c. \<not> is_cont c) s \<Longrightarrow> uchars s = map (\<lambda>c. [c]) s"
proof (induction s)
  case (Cons c s)
  then have "takeWhile is_cont s = []" "dropWhile is_cont s = s" by (cases s; simp)+
  with Cons show ?case by simp
qed simp

lemma lex_word:
  "list_all simple_char s \<Longrightarrow> lex LWord tok q (map (\<lambda>c. [c]) s @ r) = lex LWord (tok @ s) q r"
  by (induction s arbitrary: tok) (simp_all add: simple_char_facts)

lemma lex_simple_word:
  assumes "simple_word t"
  shows "lex LBlank tok q (map (\<lambda>c. [c]) t @ r) = lex LWord t False r"
  using assms lex_word [of "tl t" "[hd t]" False r]
  by (cases t) (auto simp: simple_word_def simple_char_facts)

lemma lex_words:
  assumes "ws \<noteq> []" "\<forall>t \<in> set ws. simple_word t"
  shows "lex LBlank tok q (map (\<lambda>c. [c]) (join_with '' '' ws)) = (ws, False)
    \<and> lex LBlank tok q (map (\<lambda>c. [c]) (join_with '' '' ws) @ '' '' # r)
      = (ws @ fst (lex LBlank [] False r), snd (lex LBlank [] False r))"
  using assms
proof (induction ws arbitrary: tok q)
  case (Cons t ts)
  have t: "simple_word t" "t \<noteq> []" using Cons.prems by (simp_all add: simple_word_def)
  have sp: "lex_space '' ''" by (simp add: lex_space_def)
  show ?case
  proof (cases "ts = []")
    case True
    then show ?thesis using lex_simple_word [OF t(1), of tok q "[]"] lex_simple_word [OF t(1)] t(2) sp
      by (simp add: emit_def)
  next
    case False
    then have j: "join_with '' '' (t # ts) = t @ '' '' @ join_with '' '' ts" by (simp add: join_with_Cons)
    have IH: "lex LBlank [] False (map (\<lambda>c. [c]) (join_with '' '' ts)) = (ts, False)"
      "lex LBlank [] False (map (\<lambda>c. [c]) (join_with '' '' ts) @ '' '' # r)
       = (ts @ fst (lex LBlank [] False r), snd (lex LBlank [] False r))"
      using Cons.IH [OF False] Cons.prems by auto
    show ?thesis unfolding j
      using lex_simple_word [OF t(1)] t(2) sp IH by (simp add: emit_def)
  qed
qed simp

text \<open>The line that says the same as a list of commands.\<close>

definition line_of :: "string list list \<Rightarrow> string" where
  "line_of cmds = join_with '' ; '' (map (join_with '' '') cmds)"

definition plain_commands :: "string list list \<Rightarrow> bool" where
  "plain_commands cmds \<longleftrightarrow> (\<forall>ws \<in> set cmds. ws \<noteq> [] \<and> (\<forall>t \<in> set ws. simple_word t))"

lemma lex_line:
  assumes "cmds \<noteq> []" "plain_commands cmds"
  shows "lex LBlank tok q (map (\<lambda>c. [c]) (line_of cmds)) = (join_with ['';''] cmds, False)"
  using assms
proof (induction cmds arbitrary: tok q)
  case (Cons ws cmds)
  have ws: "ws \<noteq> []" "\<forall>t \<in> set ws. simple_word t" using Cons.prems by (simp_all add: plain_commands_def)
  show ?case
  proof (cases "cmds = []")
    case True
    with lex_words [OF ws] show ?thesis by (simp add: line_of_def)
  next
    case False
    have l: "map (\<lambda>c. [c]) (line_of (ws # cmds)) =
      map (\<lambda>c. [c]) (join_with '' '' ws) @ '' '' # '';'' # '' '' # map (\<lambda>c. [c]) (line_of cmds)"
      using False by (simp add: line_of_def join_with_Cons)
    have semi: "lex LBlank [] False ('';'' # '' '' # r) = emit '';'' False (lex LBlank [] False r)" for r
      by (simp add: lex_space_def word_char_def is_alnum_def punct_char_def)
    have IH: "lex LBlank [] False (map (\<lambda>c. [c]) (line_of cmds)) = (join_with ['';''] cmds, False)"
      using Cons False by (simp add: plain_commands_def)
    show ?thesis
      unfolding l using lex_words [OF ws, of tok q] False
      by (simp add: semi IH emit_def join_with_Cons del: lex.simps)
  qed
qed simp

lemma set_join_with: "set (join_with sep ls) \<subseteq> \<Union> (set ` set ls) \<union> set sep"
  by (induction sep ls rule: join_with.induct) auto

lemma plain_line_chars:
  assumes "plain_commands cmds"
  shows "list_all (\<lambda>c. \<not> is_cont c) (line_of cmds)"
proof -
  have sep: "\<not> is_cont c" if "c \<in> set '' ; ''" for c using that by (auto simp: is_cont_def)
  have "\<not> is_cont c" if "c \<in> set (line_of cmds)" for c
  proof -
    from that obtain ws where "c \<in> set '' ; '' \<or> ws \<in> set cmds \<and> c \<in> set (join_with '' '' ws)"
      unfolding line_of_def using set_join_with [of "'' ; ''" "map (join_with '' '') cmds"] by auto
    then consider "c \<in> set '' ; ''" | t where "t \<in> set ws" "ws \<in> set cmds" "c \<in> set t"
      using set_join_with [of "'' ''" ws] by auto
    then show ?thesis
    proof cases
      case 2
      then have "simple_char c" using assms by (auto simp: plain_commands_def simple_word_def list_all_iff)
      then show ?thesis by (rule simple_char_facts)
    qed (rule sep)
  qed
  then show ?thesis by (simp add: list_all_iff)
qed

lemma new_lexer_line: "cmds \<noteq> [] \<Longrightarrow> plain_commands cmds \<Longrightarrow> new_lexer (line_of cmds) = (join_with ['';''] cmds, False)"
  using uchars_ascii [OF plain_line_chars] lex_line by (simp add: new_lexer_def)

subsection \<open>Cutting a line into commands\<close>

lemma simple_char_no [simp]:
  "\<not> simple_char (CHR ''>'')" "\<not> simple_char (CHR ''<'')" "\<not> simple_char (CHR ''&'')"
  "\<not> simple_char (CHR ''|'')" "\<not> simple_char (CHR '';'')" "\<not> simple_char (CHR ''('')"
  "\<not> simple_char (CHR ''$'')" "\<not> simple_char (CHR ''`'')"
  by (simp_all add: simple_char_def is_alnum_def)

lemma line_loop_word:
  assumes "simple_word t"
  shows "line_loop (Suc n) depth run env (t # ts, e) tokens pending w
    = line_loop n depth run env (ts, e) (tokens @ [t]) pending w"
proof -
  have all: "t \<noteq> []" "\<forall>x \<in> set t. simple_char x"
    using assms by (simp_all add: simple_word_def list_all_iff)
  then have hd: "simple_char (hd t)" by simp
  have ne: "t \<noteq> ''&&''" "t \<noteq> ''||''" "t \<noteq> '';''" "t \<noteq> ''$?''" using hd by auto
  have st: "\<not> starts_with t (CHR ''('' # p)" "\<not> starts_with t (CHR ''$'' # p)" for p
    using hd all(1) by (cases t; auto)+
  have "CHR ''$'' \<notin> set t" "CHR ''`'' \<notin> set t" using all(2) by auto
  then have sub: "\<not> contains ''$('' t" "\<not> contains ''`'' t"
    by (simp_all add: contains_def find_sub_none)
  have "expand_variable env t = Some t" using st by (simp add: expand_variable_def)
  then show ?thesis using ne st sub by (simp add: get_token_def)
qed

lemma line_loop_words:
  "\<forall>t \<in> set ws. simple_word t \<Longrightarrow>
   line_loop (length ws + n) depth run env (ws @ ts, e) tokens pending w
   = line_loop n depth run env (ts, e) (tokens @ ws) pending w"
  by (induction ws arbitrary: tokens) (simp_all add: line_loop_word del: line_loop.simps)

lemma line_loop_commands:
  assumes "cmds \<noteq> []" "plain_commands cmds"
  shows "line_loop (Suc (length (join_with ['';''] cmds))) depth run env (join_with ['';''] cmds, False) [] pending w
    = (w, Inr (pending @ cmds))"
  using assms
proof (induction cmds arbitrary: pending)
  case (Cons ws cmds)
  have ws: "ws \<noteq> []" "\<forall>t \<in> set ws. simple_word t" using Cons.prems by (simp_all add: plain_commands_def)
  show ?case
  proof (cases "cmds = []")
    case True
    then show ?thesis
      using line_loop_words [OF ws(2), of "Suc 0" depth run env "[]" False "[]" pending w] ws(1)
      by (simp add: get_token_def)
  next
    case False
    let ?ts = "join_with ['';''] cmds"
    have IH: "line_loop (Suc (length ?ts)) depth run env (?ts, False) [] (pending @ [ws]) w = (w, Inr ((pending @ [ws]) @ cmds))"
      using Cons False by (simp add: plain_commands_def)
    have "line_loop (Suc (length (join_with ['';''] (ws # cmds)))) depth run env (join_with ['';''] (ws # cmds), False) [] pending w
      = line_loop (Suc (Suc (length ?ts))) depth run env ('';'' # ?ts, False) ws pending w"
      using line_loop_words [OF ws(2), of "Suc (Suc (length ?ts))" depth run env "'';'' # ?ts" False "[]" pending w] False
      by (simp add: join_with_Cons del: line_loop.simps)
    also have "\<dots> = line_loop (Suc (length ?ts)) depth run env (?ts, False) [] (pending @ [ws]) w"
      using ws(1) by (subst line_loop.simps) (simp add: get_token_def del: line_loop.simps)
    finally show ?thesis using IH by simp
  qed
qed simp

lemma merge_simple_words: "\<forall>t \<in> set ws. simple_word t \<Longrightarrow> merge_redirection_tokens ws = ws"
proof (induction ws)
  case (Cons t ts)
  have plain: "x \<noteq> CHR ''>'' # y" if "x \<in> set (t # ts)" for x y
  proof -
    have "x \<noteq> [] \<and> simple_char (hd x)" using Cons.prems that by (cases x) (auto simp: simple_word_def)
    then show ?thesis by auto
  qed
  have "token_at (t # ts) (Suc 0) \<noteq> Some (CHR ''>'' # y)" for y
    using plain by (cases ts) auto
  moreover have "t \<noteq> CHR ''>'' # y" for y using plain by simp
  ultimately have "combine_redir_sequence (t # ts) = (None, 1)"
    by (auto simp: combine_redir_sequence_def Let_def)
  with Cons show ?case by simp
qed simp

text \<open>C33: A line that joins commands by \<open>;\<close>, each made of words without quotes, variables, brackets or
  redirections, is cut into exactly those commands and those words, and nothing else happens before
  they run.\<close>

theorem line_splits_commands:
  assumes "cmds \<noteq> []" "plain_commands cmds" "canned (line_of cmds) = None" "cmdpending sh = []"
  shows "line_received canned run acc (line_of cmds) sh w = ((w, sh\<lparr>cmdpending := cmds\<rparr>), Inr True)"
proof -
  have "map merge_redirection_tokens cmds = cmds"
    using assms(2) merge_simple_words by (intro map_idI) (auto simp: plain_commands_def)
  then show ?thesis
    using new_lexer_line [OF assms(1,2)] line_loop_commands [OF assms(1,2), of _ _ _ "[]"] assms
    by (simp add: line_received_def Let_def del: line_loop.simps)
qed

definition example_shell :: shell where
  "example_shell = \<lparr>interactive = True, redirect = False, cmdpending = [], environ = [(''PATH'', ''/bin'')]\<rparr>"

definition example_account :: account where
  "example_account = \<lparr>username = ''root'', hostname = ''svr04'', avatar_home = ''/root'', prompt_option = None\<rparr>"

theorem line_splits_commands_witness:
  "line_received (\<lambda>_. None) (\<lambda>c w. (w, Inr [])) example_account ''ls -l ; id'' example_shell example_session
    = ((example_session, example_shell\<lparr>cmdpending := [[''ls'', ''-l''], [''id'']]\<rparr>), Inr True)"
proof -
  have p: "plain_commands [[''ls'', ''-l''], [''id'']]"
    by (simp add: plain_commands_def simple_word_def simple_char_def is_alnum_def)
  have l: "line_of [[''ls'', ''-l''], [''id'']] = ''ls -l ; id''" by (simp add: line_of_def)
  show ?thesis
    using line_splits_commands [OF _ p, of "\<lambda>_. None" example_shell "\<lambda>c w. (w, Inr [])" example_account example_session]
    unfolding l by (simp add: example_shell_def)
qed

subsection \<open>Substitution\<close>

text \<open>A substitution written with a space behind its bracket is refused: \<open>$( cmd )\<close> gives the
  token \<open>$(\<close>, the scan for the closing bracket starts behind its end, and the IndexError discards
  the whole line with a syntax error.\<close>

theorem spaced_substitution_refused:
  assumes "new_lexer line = (''$('' # ts, e)" "canned line = None" "interactive sh"
    "is_ascii (prompt_text acc w)" "frames (vfs w) \<noteq> 0"
  shows "line_received canned run acc line sh w
    = ((terminal_write (prompt_text acc w) (terminal_write unexpected_eof w), sh\<lparr>cmdpending := []\<rparr>), Inr False)"
proof -
  obtain d where d: "frames (vfs w) = Suc d" using assms(5) by (cases "frames (vfs w)") auto
  have "substitution_start ''$('' = Some ([], ''$('', 2)" by (simp add: substitution_start_def)
  then have "do_command_substitution (frames (vfs w)) run ''$('' (ts, e) w = (w, Inl IndexError)"
    by (simp add: d)
  moreover have "contains ''$('' ''$(''" by (simp add: contains_def)
  ultimately have "line_loop (Suc n) (frames (vfs w)) run env (''$('' # ts, e) [] pend w = (w, Inl IndexError)" for n env pend
    by (simp add: get_token_def)
  moreover have "prompt_text acc (terminal_write unexpected_eof w) = prompt_text acc w"
    by (cases "prompt_option acc") (simp_all add: prompt_text_def terminal_write_def Let_def)
  ultimately show ?thesis
    using assms by (simp add: line_received_def Let_def show_prompt_def del: line_loop.simps)
qed

theorem spaced_substitution_refused_witness:
  "\<exists>w. line_received (\<lambda>_. None) (\<lambda>c w. (w, Inr [])) example_account ''$( id )'' example_shell example_session
    = (w, Inr False)"
proof -
  have l: "new_lexer ''$( id )'' = (''$('' # [''id'', '')''], False)" by code_simp
  have a: "is_ascii (prompt_text example_account example_session)" by code_simp
  show ?thesis
    using spaced_substitution_refused [OF l _ _ a, of "\<lambda>_. None" example_shell]
    by (simp add: example_shell_def example_session_def example_fs_def)
qed

text \<open>Pipes inside a substitution do not work: with the output of a shell redirected, every member
  of a pipeline writes into a buffer of its own instead of the next member's input, which receives
  nothing.\<close>

theorem substitution_pipe_broken:
  assumes "pipe_protocol ab inp (Some nxt) True [] w = (w1, Inr p)"
  shows "write_stdout data w1 (p # nxt # rest)
    = ((w1, p\<lparr>redirected_data := redirected_data p @ data\<rparr> # nxt # rest), Inr ())"
proof -
  have "targets p 1 = Some FD_CAPTURE"
    using assms by (auto simp: pipe_protocol_def Let_def initial_pipe_def default_targets_def)
  then show ?thesis by (rule write_capture)
qed

theorem substitution_pipe_broken_witness:
  "\<exists>p. write_stdout ''x'' example_session (p # initial_pipe None False True # [])
    = ((example_session, p\<lparr>redirected_data := redirected_data p @ ''x''\<rparr> # initial_pipe None False True # []), Inr ())"
proof -
  have "pipe_protocol (\<lambda>_. []) None (Some (initial_pipe None False True)) True [] example_session
      = (example_session, Inr (initial_pipe None True True))"
    by (simp add: pipe_protocol_def initial_pipe_def)
  from substitution_pipe_broken [OF this] show ?thesis by blast
qed

subsection \<open>Lookups that raise\<close>

text \<open>The name of a directory as a command: the canned output of that path is opened although it is a
  directory, and the error is not the one that is caught.\<close>

lemma root_as_command_raises:
  assumes "commands tab ''/'' = None" "txtcmd tab [] = Inl IsADirectoryError" "0 < frames (vfs w)"
  shows "get_command tab w ''/'' paths = Inl IsADirectoryError"
proof -
  have s: "strip_chars is_space ''/'' = ''/''"
    by (simp add: strip_chars_def rstrip_chars_def lstrip_chars_def is_space_def)
  have r: "resolve_path h ''/'' c = Inr ''/''" for h c
    using resolve_normal [of "[]" h c] by (simp add: path_of_def)
  have e: "exists (vfs w) ''/'' = Inr True"
    using assms(3) by (cases "frames (vfs w)") (simp_all add: exists_def getfile_def)
  show ?thesis using assms(1,2)
    by (simp add: get_command_def s find_command_path_def r e lstrip_chars_def)
qed

text \<open>An empty component of the search path.\<close>

lemma empty_search_path_raises:
  assumes "commands tab cmd = None" "strip_chars is_space cmd \<noteq> []" "hd cmd \<notin> {CHR ''.'', CHR ''/''}"
  shows "get_command tab w cmd (split_on (CHR '':'') []) = Inl IndexError"
  using assms by (simp add: get_command_def find_command_path_def resolve_path_def)

end
