(* ===== verification/Shell_Complete.thy ===== *)
theory Shell_Complete
  imports Shell_Props
begin

section \<open>Completion and interrupts\<close>

text \<open>
  Model of the key handlers of the shell in \<open>shell/honeypot.py\<close>: completion on TAB, and the end of
  a line on interrupt. The bytes that erase one character on the terminal are a parameter, the
  width of the window an argument.
\<close>

record line_buffer =
  buffer :: string
  buffer_index :: nat

text \<open>\<open>os.path.commonprefix\<close>: the longest common prefix, in characters.\<close>

fun common_prefix :: "'a list \<Rightarrow> 'a list \<Rightarrow> 'a list" where
  "common_prefix (a # as) (b # bs) = (if a = b then a # common_prefix as bs else [])"
| "common_prefix _ _ = []"

fun commonprefix :: "string list \<Rightarrow> string" where
  "commonprefix [] = []"
| "commonprefix [x] = x"
| "commonprefix (x # xs) = concat (common_prefix (uchars x) (uchars (commonprefix xs)))"

definition completion_clue :: "string \<Rightarrow> string res" where
  "completion_clue line =
     (if line \<noteq> [] \<and> last line = CHR '' '' then Inr []
      else case split_space byte_space [] line of
        [] \<Rightarrow> Inl IndexError
      | ws \<Rightarrow> py_decode (last ws))"

definition completion_dir :: "string \<Rightarrow> string" where
  "completion_dir clue =
     (let b = dirname clue in if b \<noteq> [] \<and> last b \<noteq> CHR ''/'' then b @ ''/'' else b)"

text \<open>The entries that match; None where the handler returns without an effect.\<close>

definition completion_files :: "session \<Rightarrow> string \<Rightarrow> nat list option res" where
  "completion_files w clue =
     (let basedir = completion_dir clue; tmppath = (if basedir = [] then cwd w else basedir) in
      case resolve_path (home (vfs w)) tmppath (cwd w) of
        Inl _ \<Rightarrow> Inr None
      | Inr r \<Rightarrow>
          rbind (exists (vfs w) r) (\<lambda>ex.
            if \<not> ex then Inr None
            else rbind (get_path (vfs w) r True) (\<lambda>d. rbind (entries (heap (vfs w)) d) (\<lambda>ids.
              let files = (if clue = [] then ids
                           else filter (\<lambda>x. starts_with (A_NAME (heap (vfs w) x)) (basename clue)) ids)
              in Inr (if files = [] then None else Some files)))))"

definition ljust :: "nat \<Rightarrow> string \<Rightarrow> string" where
  "ljust n s = s @ replicate (n - ulen s) (CHR '' '')"

fun columns :: "nat \<Rightarrow> nat \<Rightarrow> nat \<Rightarrow> string list \<Rightarrow> string" where
  "columns perline maxlen count [] = []"
| "columns perline maxlen count (n # ns) =
     (if count = perline then newline @ ljust maxlen n @ columns perline maxlen 1 ns
      else ljust maxlen n @ columns perline maxlen (Suc count) ns)"

definition completed_single :: "string \<Rightarrow> string \<Rightarrow> node \<Rightarrow> string" where
  "completed_single line basedir f =
     join_with '' '' (butlast (split_space is_space [] line) @ [basedir @ A_NAME f])
       @ (if A_TYPE f = T_DIR then ''/'' else '' '')"

definition completed_many :: "string \<Rightarrow> string \<Rightarrow> string \<Rightarrow> string list \<Rightarrow> string" where
  "completed_many line basedir clue names =
     join_with '' '' (butlast (split_on (CHR '' '') line)
       @ [basedir @ (if basename clue \<noteq> [] then commonprefix names else [])])"

definition show_candidates :: "account \<Rightarrow> shell \<Rightarrow> nat \<Rightarrow> string list \<Rightarrow> session \<Rightarrow> (session, unit) sres" where
  "show_candidates acc sh width names w =
     (let maxlen = Max (set (map ulen names)) + 1; perline = width div (maxlen + 1)
      in show_prompt acc sh (terminal_write (newline @ columns perline maxlen 0 names @ newline) w))"

definition handle_TAB ::
  "string \<Rightarrow> account \<Rightarrow> shell \<Rightarrow> nat \<Rightarrow> line_buffer \<Rightarrow> session \<Rightarrow> (session \<times> line_buffer, unit) sres" where
  "handle_TAB erase acc sh width lb w =
     (let line = buffer lb in
      if line = [] then ((w, lb), Inr ())
      else case rbind (completion_clue line) (\<lambda>clue. rbind (completion_files w clue) (\<lambda>fs. Inr (clue, fs))) of
        Inl e \<Rightarrow> ((w, lb), Inl e)
      | Inr (clue, None) \<Rightarrow> ((w, lb), Inr ())
      | Inr (clue, Some files) \<Rightarrow>
          let w1 = terminal_write (concat (replicate (buffer_index lb) erase)) w;
              basedir = completion_dir clue;
              names = map (\<lambda>x. A_NAME (heap (vfs w) x)) files;
              finish = (\<lambda>new w. ((terminal_write new w, \<lparr>buffer = new, buffer_index = length new\<rparr>), Inr ()))
          in case py_decode line of
               Inl e \<Rightarrow> ((w1, lb), Inl e)
             | Inr line \<Rightarrow>
                 if length files = 1
                 then finish (completed_single line basedir (heap (vfs w) (hd files))) w1
                 else let new = completed_many line basedir clue names
                      in if new = buffer lb
                         then (case show_candidates acc sh width names w1 of
                                 (w2, Inl e) \<Rightarrow> ((w2, lb), Inl e)
                               | (w2, Inr _) \<Rightarrow> finish new w2)
                         else finish new w1)"

definition handle_CTRL_C :: "account \<Rightarrow> shell \<Rightarrow> line_buffer \<Rightarrow> session \<Rightarrow> (session \<times> line_buffer, unit) sres" where
  "handle_CTRL_C acc sh lb w =
     (case show_prompt acc sh (terminal_write newline w) of
        (w1, r) \<Rightarrow> ((w1, \<lparr>buffer = [], buffer_index = 0\<rparr>), r))"

subsection \<open>Properties\<close>

lemma split_space_snoc_word:
  assumes "list_all (\<lambda>c. \<not> sp c) word" "word \<noteq> []" "sp c"
  shows "split_space sp [] (word @ [c]) = [word]"
proof -
  have "split_space sp cur (word @ [c]) = [cur @ word]" if "cur @ word \<noteq> []" "list_all (\<lambda>c. \<not> sp c) word" for cur word
    using that assms(3) by (induction word arbitrary: cur) auto
  from this [of "[]" word] assms show ?thesis by simp
qed

text \<open>Completing the empty word behind a command destroys the command: after typing \<open>cmd\<close> and a
  space in a directory with a single entry, TAB replaces the whole line by the name of the entry,
  because the last word is dropped although it is already finished.\<close>

theorem tab_drops_command:
  assumes "list_all simple_char word" "word \<noteq> []" "normal_path (cwd w)"
    "exists (vfs w) (cwd w) = Inr True" "get_path (vfs w) (cwd w) True = Inr d"
    "A_CONTENTS (heap (vfs w) d) = Entries [x]" "A_TYPE (heap (vfs w) x) = T_FILE"
    "handle_TAB erase acc sh width \<lparr>buffer = word @ '' '', buffer_index = n\<rparr> w = ((w', lb), r)"
  shows "r = Inr () \<and> buffer lb = A_NAME (heap (vfs w) x) @ '' ''"
proof -
  have r: "resolve_path (home (vfs w)) (cwd w) (cwd w) = Inr (cwd w)"
    using assms(3) resolve_normal by (auto simp: normal_path_def)
  have clue: "completion_clue (word @ '' '') = Inr []" by (simp add: completion_clue_def)
  have dir: "completion_dir [] = []" by (simp add: completion_dir_def dirname_def)
  have files: "completion_files w [] = Inr (Some [x])"
    using assms(4-6) r by (simp add: completion_files_def dir entries_def)
  have ns: "list_all (\<lambda>c. \<not> is_space c) word" and asc: "is_ascii word"
    using assms(1) by (auto simp: list_all_iff simple_char_def is_space_def is_ascii_def is_alnum_def Let_def)
  have dec: "py_decode (word @ '' '') = Inr (word @ '' '')"
    using asc by (intro py_decode_ascii) (simp add: is_ascii_def)
  have "is_space (CHR '' '')" by (simp add: is_space_def)
  then have sp: "split_space is_space [] (word @ '' '') = [word]"
    by (rule split_space_snoc_word [OF ns assms(2)])
  show ?thesis
    using assms(2,7,8) by (auto simp: handle_TAB_def clue files dec Let_def completed_single_def sp dir)
qed

definition example_tab_session :: session where
  "example_tab_session = example_session\<lparr>vfs := example_file_fs, cwd := ''/tmp''\<rparr>"

theorem tab_drops_command_witness:
  "\<exists>w' lb. handle_TAB [] example_account example_shell 80 \<lparr>buffer = ''cat '', buffer_index = 4\<rparr> example_tab_session
      = ((w', lb), Inr ()) \<and> buffer lb = ''a ''"
proof -
  obtain w' lb r where t: "handle_TAB [] example_account example_shell 80
      \<lparr>buffer = ''cat'' @ '' '', buffer_index = 4\<rparr> example_tab_session = ((w', lb), r)"
    by (metis prod.collapse)
  have n: "normal_path (cwd example_tab_session)"
    unfolding normal_path_def
    by (rule exI [of _ "[''tmp'']"]) (simp add: example_tab_session_def path_of_def good_piece_def)
  have v: "vfs example_tab_session = example_file_fs" "cwd example_tab_session = path_of [''tmp'']"
    by (simp_all add: example_tab_session_def path_of_def)
  note at = example_file_facts(2)
  have e: "exists (vfs example_tab_session) (cwd example_tab_session) = Inr True"
    "get_path (vfs example_tab_session) (cwd example_tab_session) True = Inr 1"
    unfolding v using at_dir_paths(1,2) [OF at] by (simp_all add: exists_def)
  have c: "A_CONTENTS (heap (vfs example_tab_session) 1) = Entries [3]" unfolding v by (rule at_dirD(4) [OF at])
  have "r = Inr () \<and> buffer lb = A_NAME (heap (vfs example_tab_session) 3) @ '' ''"
    by (rule tab_drops_command [OF _ _ n e c _ t])
       (simp_all add: simple_char_def is_alnum_def v example_file_facts)
  moreover have "A_NAME (heap (vfs example_tab_session) 3) = ''a''"
    unfolding v by (simp add: example_file_fs_def new_node_def)
  ultimately show ?thesis using t by auto
qed

end
