(* ===== verification/Commands_Base.thy ===== *)
theory Commands_Base
  imports Shell_Complete
begin

section \<open>What commands share\<close>

text \<open>
  Option parsing as \<open>getopt\<close> does it, and the output of a command (\<open>shell/command.py\<close>): a command
  runs in a session with the chain of pipe protocols it is the head of.
\<close>

subsection \<open>getopt\<close>

text \<open>An option string lists the letters; a colon behind one says that it takes an argument. The
  left side of a result is the option that was wrong.\<close>

fun short_has_arg :: "char \<Rightarrow> string \<Rightarrow> bool option" where
  "short_has_arg c [] = None"
| "short_has_arg c (s # ss) =
     (if c = s \<and> s \<noteq> CHR '':'' then Some (ss \<noteq> [] \<and> hd ss = CHR '':'') else short_has_arg c ss)"

type_synonym opts = "(string \<times> string) list"

fun do_shorts :: "string \<Rightarrow> string \<Rightarrow> string list \<Rightarrow> string + (opts \<times> string list)" where
  "do_shorts shorts [] args = Inr ([], args)"
| "do_shorts shorts (c # cs) args =
     (case short_has_arg c shorts of
        None \<Rightarrow> Inl [c]
      | Some True \<Rightarrow>
          (if cs \<noteq> [] then Inr ([([CHR ''-'', c], cs)], args)
           else case args of [] \<Rightarrow> Inl [c] | a # r \<Rightarrow> Inr ([([CHR ''-'', c], a)], r))
      | Some False \<Rightarrow>
          rbind (do_shorts shorts cs args) (\<lambda>(os, r). Inr (([CHR ''-'', c], []) # os, r)))"

definition long_match :: "string \<Rightarrow> string list \<Rightarrow> (bool \<times> string) option" where
  "long_match opt longs =
     (let possible = filter (\<lambda>l. starts_with l opt) longs in
      if opt \<in> set possible then Some (False, opt)
      else if opt @ ''='' \<in> set possible then Some (True, opt)
      else if length possible = 1 then
        (let l = hd possible in if last l = CHR ''='' then Some (True, butlast l) else Some (False, l))
      else None)"

definition long_result ::
  "(bool \<times> string) option \<Rightarrow> string \<Rightarrow> string option \<Rightarrow> string list \<Rightarrow> string + (opts \<times> string list)" where
  "long_result found opt optarg args =
     (case found of
        None \<Rightarrow> Inl opt
      | Some (has_arg, o1) \<Rightarrow>
          if has_arg then
            (case optarg of
               Some v \<Rightarrow> Inr ([(''--'' @ o1, v)], args)
             | None \<Rightarrow> (case args of [] \<Rightarrow> Inl o1 | a # r \<Rightarrow> Inr ([(''--'' @ o1, a)], r)))
          else if optarg = None then Inr ([(''--'' @ o1, [])], args) else Inl o1)"

definition do_longs :: "string list \<Rightarrow> string \<Rightarrow> string list \<Rightarrow> string + (opts \<times> string list)" where
  "do_longs longs text args =
     (let opt = takeWhile (\<lambda>c. c \<noteq> CHR ''='') text
      in long_result (long_match opt longs) opt
           (case dropWhile (\<lambda>c. c \<noteq> CHR ''='') text of [] \<Rightarrow> None | _ # v \<Rightarrow> Some v) args)"

lemma do_shorts_shorter: "do_shorts shorts cs args = Inr (os, r) \<Longrightarrow> length r \<le> length args"
  by (induction shorts cs args arbitrary: os rule: do_shorts.induct)
     (auto simp: rbind_Inr_iff split: option.splits bool.splits if_splits list.splits)

lemma long_result_shorter: "long_result f opt v args = Inr (os, r) \<Longrightarrow> length r \<le> length args"
  by (auto simp: long_result_def split: option.splits if_splits list.splits)

lemma do_longs_shorter: "do_longs longs t args = Inr (os, r) \<Longrightarrow> length r \<le> length args"
  unfolding do_longs_def Let_def by (rule long_result_shorter)

text \<open>\<open>getopt.getopt\<close> stops at the first argument that is not an option; \<open>gnu_getopt\<close> collects
  those arguments and goes on.\<close>

function getopt :: "bool \<Rightarrow> string \<Rightarrow> string list \<Rightarrow> string list \<Rightarrow> string + (opts \<times> string list)" where
  "getopt gnu shorts longs [] = Inr ([], [])"
| "getopt gnu shorts longs (a # args) =
     (if a = ''--'' then Inr ([], args)
      else if starts_with a ''--'' then
        (case do_longs longs (drop 2 a) args of
           Inl e \<Rightarrow> Inl e
         | Inr (os, r) \<Rightarrow> rbind (getopt gnu shorts longs r) (\<lambda>(os', r'). Inr (os @ os', r')))
      else if starts_with a ''-'' \<and> a \<noteq> ''-'' then
        (case do_shorts shorts (drop 1 a) args of
           Inl e \<Rightarrow> Inl e
         | Inr (os, r) \<Rightarrow> rbind (getopt gnu shorts longs r) (\<lambda>(os', r'). Inr (os @ os', r')))
      else if gnu then rbind (getopt gnu shorts longs args) (\<lambda>(os, r). Inr (os, a # r))
      else Inr ([], a # args))"
  by pat_completeness auto
termination
  by (relation "measure (\<lambda>(_, _, _, args). length args)")
     (auto simp: less_Suc_eq_le dest: do_shorts_shorter do_longs_shorter)

lemma getopt_plain_args:
  "\<forall>a \<in> set args. \<not> starts_with a ''-'' \<Longrightarrow> getopt True shorts longs args = Inr ([], args)"
proof (induction args)
  case (Cons a args)
  then have "\<not> starts_with a ''-''" by simp
  then have "\<not> starts_with a ''--''" "a \<noteq> ''--''" by (cases a; auto)+
  with Cons show ?case by simp
qed simp

subsection \<open>Output\<close>

record command_state =
  sess :: session
  chain :: "pipe list"

type_synonym 'a command = "command_state \<Rightarrow> (command_state, 'a) sres"

definition out :: "string \<Rightarrow> unit command" where
  "out data cs = (case write_stdout data (sess cs) (chain cs) of
     ((w, ps), r) \<Rightarrow> (\<lparr>sess = w, chain = ps\<rparr>, r))"

definition error_write :: "string \<Rightarrow> unit command" where
  "error_write data cs = (case write_stderr data (sess cs) (chain cs) of
     ((w, ps), r) \<Rightarrow> (\<lparr>sess = w, chain = ps\<rparr>, r))"

definition pure_res :: "(session \<Rightarrow> 'a res) \<Rightarrow> 'a command" where
  "pure_res f cs = (cs, f (sess cs))"

definition in_fs :: "(filesystem \<Rightarrow> (filesystem, 'a) sres) \<Rightarrow> 'a command" where
  "in_fs f cs = (case in_vfs f (sess cs) of (w, r) \<Rightarrow> (cs\<lparr>sess := w\<rparr>, r))"

definition ret :: "'a \<Rightarrow> 'a command" where
  "ret x cs = (cs, Inr x)"

definition cbind :: "'a command \<Rightarrow> ('a \<Rightarrow> 'b command) \<Rightarrow> 'b command" where
  "cbind m f cs = sbind (m cs) (\<lambda>cs' x. f x cs')"

definition then_do :: "unit command \<Rightarrow> 'b command \<Rightarrow> 'b command" where
  "then_do m k = cbind m (\<lambda>_. k)"

lemma command_simps [simp]:
  "cbind m f cs = (case m cs of (cs', Inl e) \<Rightarrow> (cs', Inl e) | (cs', Inr x) \<Rightarrow> f x cs')"
  "ret x cs = (cs, Inr x)" "pure_res g cs = (cs, g (sess cs))"
  "then_do m' k cs = (case m' cs of (cs', Inl e) \<Rightarrow> (cs', Inl e) | (cs', Inr _) \<Rightarrow> k cs')"
  by (simp_all add: cbind_def sbind_def ret_def pure_res_def then_do_def split: prod.splits sum.splits)

definition catch_any :: "'a command \<Rightarrow> 'a command \<Rightarrow> 'a command" where
  "catch_any m handler cs = (case m cs of (cs', Inl _) \<Rightarrow> handler cs' | r \<Rightarrow> r)"

definition catch_only :: "py_error \<Rightarrow> 'a command \<Rightarrow> 'a command \<Rightarrow> 'a command" where
  "catch_only err m handler cs =
     (case m cs of (cs', Inl e) \<Rightarrow> if e = err then handler cs' else (cs', Inl e) | r \<Rightarrow> r)"

text \<open>Running a body over arguments until one of them ends the command (False).\<close>

fun for_args :: "('a \<Rightarrow> bool command) \<Rightarrow> 'a list \<Rightarrow> unit command" where
  "for_args body [] = ret ()"
| "for_args body (a # as) = cbind (body a) (\<lambda>go. if go then for_args body as else ret ())"

definition resolv :: "string \<Rightarrow> string command" where
  "resolv p = pure_res (\<lambda>w. resolve_path (home (vfs w)) p (cwd w))"

text \<open>\<open>check_arguments\<close>: the paths of the arguments that are not directories.\<close>

fun check_arguments :: "string \<Rightarrow> string list \<Rightarrow> string list command" where
  "check_arguments application [] = ret []"
| "check_arguments application (a # as) =
     cbind (resolv a) (\<lambda>path. cbind (pure_res (\<lambda>w. Inr (isdir (vfs w) path))) (\<lambda>d.
       if d then then_do (error_write (application @ '': error reading `'' @ a @ [CHR 0x27] @ '': Is a directory'' @ newline))
                   (check_arguments application as)
       else cbind (check_arguments application as) (\<lambda>r. ret (path # r))))"

end
