(* ===== verification/Commands_Fs.thy ===== *)
theory Commands_Fs
  imports Commands_Base
begin

section \<open>File system commands\<close>

text \<open>
  Model of \<open>commands/fs.py\<close>. Each command is a function of its arguments and of the data piped into
  it; help texts are a parameter. \<open>grep\<close>, \<open>tail\<close> and \<open>head\<close> override \<open>start\<close>: their result says whether
  they have called \<open>exit\<close>, without which they stay in front of the shell and swallow its input. The search of a regular expression is a parameter too (None when
  it does not compile).
\<close>

definition quote_end :: string where "quote_end = [CHR 0x27]"

definition no_such_file :: string where "no_such_file = '': No such file or directory'' @ newline"

subsection \<open>grep\<close>

definition grep_application :: "(string \<Rightarrow> (string \<Rightarrow> bool) option) \<Rightarrow> string \<Rightarrow> string \<Rightarrow> unit command" where
  "grep_application regex contents match =
     (case regex (filter (\<lambda>c. c \<noteq> CHR 0x22) (basename match)) of
        None \<Rightarrow> pure_res (\<lambda>_. Inl ValueError)
      | Some search \<Rightarrow>
          for_args (\<lambda>line. if search line then then_do (out (line @ newline)) (ret True) else ret True)
            (split_on (CHR 0x0A) contents))"

text \<open>Any exception, also one of the output, is answered by the error message.\<close>

definition grep_get_contents ::
  "(string \<Rightarrow> string) \<Rightarrow> (string \<Rightarrow> (string \<Rightarrow> bool) option) \<Rightarrow> string \<Rightarrow> string \<Rightarrow> unit command" where
  "grep_get_contents ab regex filename match =
     catch_any (cbind (pure_res (\<lambda>w. file_contents ab (vfs w) filename))
                  (\<lambda>contents. grep_application regex contents match))
       (error_write (''grep: '' @ filename @ no_such_file))"

definition grep_shorts :: string where "grep_shorts = ''abcDEFGHhIiJLlmnOoPqRSsUVvwxZA:B:C:e:f:''"

definition grep_longs :: "string list" where
  "grep_longs = [''binary-files='', ''color='', ''color'', ''context='', ''directories='', ''label'', ''line-buffered'']"

definition command_grep ::
  "(string \<Rightarrow> string) \<Rightarrow> (string \<Rightarrow> (string \<Rightarrow> bool) option) \<Rightarrow> string \<Rightarrow> string list \<Rightarrow> string option \<Rightarrow> bool command" where
  "command_grep ab regex help args input =
     (if args = [] then then_do (out help) (ret True)
      else if hd args = ''>'' then pure_res (\<lambda>_. Inl UnboundLocalError)
      else case getopt False grep_shorts grep_longs args of
        Inl opt \<Rightarrow> then_do (error_write (''grep: invalid option -- '' @ opt @ newline))
                       (then_do (out help) (ret True))
      | Inr (optlist, args1) \<Rightarrow>
          then_do (for_args (\<lambda>(o1, _). if o1 = ''-h'' then then_do (out help) (ret True) else ret True) optlist)
          (then_do
            (if input \<in> {None, Some []}
             then cbind (check_arguments ''grep'' (tl args1)) (\<lambda>files.
                    for_args (\<lambda>pname. if args1 = [] then pure_res (\<lambda>_. Inl IndexError)
                                      else then_do (grep_get_contents ab regex pname (hd args1)) (ret True)) files)
             else if args1 = [] then pure_res (\<lambda>_. Inl IndexError)
             else grep_application regex (the input) (hd args1))
            (ret True)))"

subsection \<open>tail and head\<close>

text \<open>
  \<open>tail_application\<close> prints the pieces from index \<open>lines - n - 1\<close> on; Python takes an index of -1
  as the last piece. The result is the text and the new \<open>n\<close>.
\<close>

definition tail_indices :: "nat \<Rightarrow> nat \<Rightarrow> int list" where
  "tail_indices lines n = map (\<lambda>k. int lines - int n - 1 + int k) [0..<n + 1]"

definition py_index :: "'a list \<Rightarrow> int \<Rightarrow> 'a" where
  "py_index xs j = (if j < 0 then xs ! nat (int (length xs) + j) else xs ! nat j)"

definition tail_application :: "nat \<Rightarrow> string \<Rightarrow> nat \<times> string list" where
  "tail_application n contents =
     (let contentsplit = split_on (CHR 0x0A) contents;
          lines = length contentsplit;
          n1 = (if lines < n then lines - 1 else n)
      in (n1, concat (map (\<lambda>(i, j). py_index contentsplit j # (if i < n1 then [newline] else []))
                (enumerate 0 (tail_indices lines n1)))))"

definition out_all :: "string list \<Rightarrow> unit command" where
  "out_all pieces = for_args (\<lambda>p. then_do (out p) (ret True)) pieces"

text \<open>The number of lines survives from one file to the next.\<close>

definition tail_error :: "string \<Rightarrow> unit command" where
  "tail_error f = error_write (''tail: cannot open `'' @ f @ quote_end @ '' for reading'' @ no_such_file)"

fun tail_files :: "(string \<Rightarrow> string) \<Rightarrow> nat \<Rightarrow> string list \<Rightarrow> unit command" where
  "tail_files ab n [] = ret ()"
| "tail_files ab n (f # fs) =
     cbind (pure_res (\<lambda>w. Inr (file_contents ab (vfs w) f))) (\<lambda>c. case c of
         Inl _ \<Rightarrow> then_do (tail_error f) (tail_files ab n fs)
       | Inr contents \<Rightarrow>
           (let (n1, pieces) = tail_application n contents
            in then_do (catch_any (out_all pieces) (tail_error f)) (tail_files ab n1 fs)))"

fun tail_options :: "opts \<Rightarrow> nat \<Rightarrow> nat command" where
  "tail_options [] n = ret n"
| "tail_options ((o1, v) # os) n =
     (if o1 = ''-n'' then
        (if \<not> py_isdigit v then then_do (error_write (''tail: illegal offset -- '' @ v @ newline)) (tail_options os n)
         else tail_options os (nat_of_digits 0 v))
      else tail_options os n)"

definition command_tail :: "(string \<Rightarrow> string) \<Rightarrow> string list \<Rightarrow> string option \<Rightarrow> bool command" where
  "command_tail ab args input =
     (if args = [] \<or> hd args = ''>'' then ret False
      else case getopt False ''n:'' [] args of
        Inl opt \<Rightarrow> then_do (error_write (''tail: invalid option -- '' @ quote_end @ opt @ quote_end @ newline)) (ret True)
      | Inr (optlist, args1) \<Rightarrow>
          cbind (tail_options optlist 10) (\<lambda>n.
            then_do
              (if input \<in> {None, Some []}
               then cbind (check_arguments ''tail'' args1) (tail_files ab n)
               else out_all (snd (tail_application n (the input))))
              (ret True)))"

definition head_application :: "nat \<Rightarrow> nat \<Rightarrow> string \<Rightarrow> string list" where
  "head_application linecount bytecount contents =
     (if bytecount \<noteq> 0 then [take bytecount contents]
      else map (\<lambda>line. line @ newline) (take linecount (split_on (CHR 0x0A) contents)))"

fun head_options :: "opts \<Rightarrow> nat \<Rightarrow> nat \<Rightarrow> (nat \<times> nat) command" where
  "head_options [] lc bc = ret (lc, bc)"
| "head_options ((o1, v) # os) lc bc =
     (if o1 = ''-n'' then
        (if \<not> py_isdigit v
         then then_do (error_write (''head: invalid number of lines: `'' @ v @ ''`'' @ newline)) (head_options os lc bc)
         else head_options os (nat_of_digits 0 v) 0)
      else if o1 = ''-c'' then
        (if \<not> py_isdigit v
         then then_do (error_write (''head: invalid number of bytes: `'' @ v @ ''`'' @ newline)) (head_options os lc bc)
         else head_options os 0 (nat_of_digits 0 v))
      else head_options os lc bc)"

definition head_get_file_contents :: "(string \<Rightarrow> string) \<Rightarrow> nat \<Rightarrow> nat \<Rightarrow> string \<Rightarrow> unit command" where
  "head_get_file_contents ab lc bc filename =
     catch_only FileNotFound
       (cbind (pure_res (\<lambda>w. file_contents ab (vfs w) filename)) (\<lambda>c. out_all (head_application lc bc c)))
       (error_write (''head: cannot open `'' @ filename @ quote_end @ '' for reading'' @ no_such_file))"

definition command_head :: "(string \<Rightarrow> string) \<Rightarrow> string list \<Rightarrow> string option \<Rightarrow> bool command" where
  "command_head ab args input =
     (if args = [] \<or> hd args = ''>'' then ret False
      else case getopt False ''c:n:'' [] args of
        Inl opt \<Rightarrow> then_do (error_write (''head: invalid option -- '' @ quote_end @ opt @ quote_end @ newline)) (ret True)
      | Inr (optlist, args1) \<Rightarrow>
          cbind (head_options optlist 10 0) (\<lambda>(lc, bc).
            then_do
              (if input \<in> {None, Some []}
               then cbind (check_arguments ''head'' args1) (\<lambda>files.
                      for_args (\<lambda>f. then_do (head_get_file_contents ab lc bc f) (ret True)) files)
               else out_all (head_application lc bc (the input)))
              (ret True)))"

subsection \<open>cd and pwd\<close>

definition command_cd :: "account \<Rightarrow> string list \<Rightarrow> unit command" where
  "command_cd acc args cs =
     (let w = sess cs;
          pname = (if args = [] \<or> hd args = ''~'' then avatar_home acc else hd args);
          found = rbind (resolve_path (home (vfs w)) pname (cwd w)) (\<lambda>p.
                    rbind (getfile (vfs w) p True) (\<lambda>f. Inr (p, f)))
      in if pname = ''-'' then error_write (''bash: cd: OLDPWD not set'' @ newline) cs
         else case found of
           Inr (newpath, Some i) \<Rightarrow>
             if A_TYPE (heap (vfs w) i) \<noteq> T_DIR
             then error_write (''bash: cd: '' @ pname @ '': Not a directory'' @ newline) cs
             else (cs\<lparr>sess := w\<lparr>cwd := newpath\<rparr>\<rparr>, Inr ())
         | _ \<Rightarrow> error_write (''bash: cd: '' @ pname @ no_such_file) cs)"

definition command_pwd :: "unit command" where
  "command_pwd cs = out (cwd (sess cs) @ newline) cs"

subsection \<open>rm\<close>

text \<open>\<open>"/".join(pname.split("/")[:-1])\<close> and the last component.\<close>

definition parent_path :: "string \<Rightarrow> string" where
  "parent_path p = join_with ''/'' (butlast (split_on (CHR ''/'') p))"

definition last_piece :: "string \<Rightarrow> string" where
  "last_piece p = last (split_on (CHR ''/'') p)"

definition rm_message :: "node \<Rightarrow> string" where
  "rm_message n =
     (if A_TYPE n = T_DIR then ''removed directory '' @ quote_end @ A_NAME n @ quote_end @ newline
      else ''removed '' @ quote_end @ A_NAME n @ quote_end @ newline)"

text \<open>The loop over a snapshot of the directory.\<close>

definition rm_entries :: "bool \<Rightarrow> bool \<Rightarrow> nat \<Rightarrow> string \<Rightarrow> nat list \<Rightarrow> unit command" where
  "rm_entries recursive verbose d base ids =
     for_args (\<lambda>i. cbind (pure_res (\<lambda>w. Inr (heap (vfs w) i))) (\<lambda>n.
       if A_NAME n \<noteq> base then ret True
       else if A_TYPE n = T_DIR \<and> \<not> recursive
       then then_do (error_write (''rm: cannot remove `'' @ A_NAME n @ quote_end @ '': Is a directory'' @ newline)) (ret True)
       else cbind (in_fs (remove_entry d i)) (\<lambda>_.
              if verbose then then_do (out (rm_message n)) (ret True) else ret True))) ids"

definition rm_one :: "bool \<Rightarrow> bool \<Rightarrow> bool \<Rightarrow> string \<Rightarrow> bool command" where
  "rm_one recursive force verbose f =
     cbind (resolv f) (\<lambda>pname.
     cbind (pure_res (\<lambda>w. Inr (rbind (get_path (vfs w) (parent_path pname) True) (\<lambda>d.
              rbind (get_path (vfs w) pname True) (\<lambda>_. Inr d))))) (\<lambda>found. case found of
         Inl e \<Rightarrow>
           if e \<in> {IndexError, FileNotFound} then
             (if force then ret True
              else then_do (error_write (''rm: cannot remove `'' @ f @ quote_end @ no_such_file)) (ret True))
           else pure_res (\<lambda>_. Inl e)
       | Inr d \<Rightarrow>
           cbind (pure_res (\<lambda>w. entries (heap (vfs w)) d)) (\<lambda>ids.
             then_do (rm_entries recursive verbose d (last_piece pname) ids) (ret True))))"

definition rm_param_error :: "unit command" where
  "rm_param_error = error_write (''Try '' @ quote_end @ ''rm --help'' @ quote_end @ '' for more information'' @ newline)"

definition has_opt :: "string list \<Rightarrow> opts \<Rightarrow> bool" where
  "has_opt names os \<longleftrightarrow> list_ex (\<lambda>(o1, _). o1 \<in> set names) os"

definition command_rm :: "string \<Rightarrow> string list \<Rightarrow> unit command" where
  "command_rm help args =
     (if args = [] then then_do (error_write (''rm: missing operand'' @ newline)) rm_param_error
      else case getopt True ''rTfvh'' [''help'', ''recursive'', ''force'', ''verbose''] args of
        Inl opt \<Rightarrow> then_do (error_write (''rm: invalid option -- '' @ quote_end @ opt @ quote_end @ newline)) rm_param_error
      | Inr (optlist, files) \<Rightarrow>
          if has_opt [''--help'', ''-h''] optlist then out help
          else for_args (rm_one (has_opt [''--recursive'', ''-r'', ''-R''] optlist)
                 (has_opt [''--force'', ''-f''] optlist) (has_opt [''--verbose'', ''-v''] optlist)) files)"

subsection \<open>cp\<close>

text \<open>\<open>copy.deepcopy\<close> of an entry: every entry below it is copied once.\<close>

type_synonym copy_state = "heap \<times> nat \<times> (nat \<times> nat) list"

fun copy_list :: "(nat \<Rightarrow> copy_state \<Rightarrow> (copy_state \<times> nat) res) \<Rightarrow> nat list \<Rightarrow> copy_state \<Rightarrow> (copy_state \<times> nat list) res" where
  "copy_list cpy [] st = Inr (st, [])"
| "copy_list cpy (i # is) st =
     rbind (cpy i st) (\<lambda>(st1, j). rbind (copy_list cpy is st1) (\<lambda>(st2, js). Inr (st2, j # js)))"

fun deep_copy :: "nat \<Rightarrow> nat \<Rightarrow> copy_state \<Rightarrow> (copy_state \<times> nat) res" where
  "deep_copy 0 i st = Inl RecursionError"
| "deep_copy (Suc n) i (h, fr, memo) =
     (case map_of memo i of
        Some j \<Rightarrow> Inr ((h, fr, memo), j)
      | None \<Rightarrow> (case A_CONTENTS (h i) of
          Blob b \<Rightarrow> Inr ((h(fr := h i), Suc fr, (i, fr) # memo), fr)
        | Entries ids \<Rightarrow>
            rbind (copy_list (deep_copy n) ids (h(fr := (h i)\<lparr>A_CONTENTS := Entries []\<rparr>), Suc fr, (i, fr) # memo))
              (\<lambda>((h1, fr1, memo1), js). Inr ((h1(fr := (h1 fr)\<lparr>A_CONTENTS := Entries js\<rparr>), fr1, memo1), fr))))"

definition copy_entry :: "nat \<Rightarrow> filesystem \<Rightarrow> (filesystem, nat) sres" where
  "copy_entry i s =
     (case deep_copy (frames s) i (heap s, fresh s, []) of
        Inl e \<Rightarrow> (s, Inl e)
      | Inr ((h, fr, _), j) \<Rightarrow> (s\<lparr>heap := h, fresh := fr\<rparr>, Inr j))"

text \<open>Where a file goes: the directory and the name, as \<open>cp\<close> and \<open>mv\<close> find them. \<open>last_name\<close> is the
  name for a destination that is not a directory.\<close>

definition destination :: "bool \<Rightarrow> string \<Rightarrow> string \<Rightarrow> string \<Rightarrow> (nat \<times> string) command" where
  "destination into_dir dest last_name src =
     cbind (resolv dest) (\<lambda>rd.
       cbind (pure_res (\<lambda>w. get_path (vfs w) (if into_dir then rd else dirname rd) True)) (\<lambda>d.
         ret (d, if into_dir then basename src else last_name)))"

definition is_dir :: "string \<Rightarrow> bool command" where
  "is_dir p = cbind (resolv p) (\<lambda>r. pure_res (\<lambda>w. Inr (isdir (vfs w) r)))"

definition path_exists :: "string \<Rightarrow> bool command" where
  "path_exists p = cbind (resolv p) (\<lambda>r. pure_res (\<lambda>w. exists (vfs w) r))"

definition cp_one :: "bool \<Rightarrow> bool \<Rightarrow> string \<Rightarrow> string \<Rightarrow> bool command" where
  "cp_one recursive into_dir dest src =
     cbind (path_exists src) (\<lambda>ex.
       if \<not> ex then then_do (error_write (''cp: cannot stat `'' @ src @ quote_end @ no_such_file)) (ret True)
       else cbind (is_dir src) (\<lambda>sd.
         if \<not> recursive \<and> sd then then_do (error_write (''cp: omitting directory `'' @ src @ quote_end @ newline)) (ret True)
         else
           cbind (resolv src) (\<lambda>rs. cbind (pure_res (\<lambda>w. getfile (vfs w) rs True)) (\<lambda>f. case f of
               None \<Rightarrow> pure_res (\<lambda>_. Inl TypeError)
             | Some i \<Rightarrow>
                 cbind (in_fs (copy_entry i)) (\<lambda>s.
                 cbind (destination into_dir dest (basename (rstrip_chars slash dest)) src) (\<lambda>(d, outfile).
                   then_do (in_fs (drop_named d outfile))
                     (then_do (in_fs (\<lambda>fs. (update_node s (\<lambda>n. n\<lparr>A_NAME := outfile\<rparr>) fs, Inr ())))
                       (then_do (in_fs (append_entry d s)) (ret True)))))))))"

text \<open>The checks in front of the loop; True if the destination is a directory, None if the command
  gives up.\<close>

definition target_checks :: "string \<Rightarrow> bool \<Rightarrow> nat \<Rightarrow> string \<Rightarrow> bool option command" where
  "target_checks name refuse_slash n_sources dest =
     cbind (if n_sources > 1 then is_dir dest else ret True) (\<lambda>ok.
       if \<not> ok then then_do (error_write (name @ '': target `'' @ dest @ quote_end @ '' is not a directory'' @ newline)) (ret None)
       else if dest = [] then pure_res (\<lambda>_. Inl IndexError)
       else cbind (if slash (last dest) then path_exists dest else ret True) (\<lambda>ex.
         if \<not> ex \<and> refuse_slash
         then then_do (error_write (name @ '': cannot create regular file `'' @ dest @ quote_end @ '': Is a directory'' @ newline)) (ret None)
         else cbind (is_dir dest) (\<lambda>d.
           if d then ret (Some True)
           else cbind (resolv dest) (\<lambda>rd. cbind (pure_res (\<lambda>w. exists (vfs w) (dirname rd))) (\<lambda>pe.
             if pe then ret (Some False)
             else then_do (error_write (name @ '': cannot create regular file `'' @ dest @ quote_end @ no_such_file)) (ret None))))))"

definition missing_operand :: "string \<Rightarrow> unit command" where
  "missing_operand name =
     then_do (error_write (name @ '': missing file operand'' @ newline))
       (error_write (''Try `'' @ name @ '' --help'' @ quote_end @ '' for more information.'' @ newline))"

definition missing_destination :: "string \<Rightarrow> string \<Rightarrow> unit command" where
  "missing_destination name arg =
     then_do (error_write (name @ '': missing destination file operand after `'' @ arg @ quote_end @ newline))
       (error_write (''Try `'' @ name @ '' --help'' @ quote_end @ '' for more information.'' @ newline))"

definition command_cp :: "string list \<Rightarrow> unit command" where
  "command_cp args =
     (if args = [] then missing_operand ''cp''
      else case getopt True ''-abdfiHlLPpRrsStTuvx'' [] args of
        Inl _ \<Rightarrow> error_write (''Unrecognized option'' @ newline)
      | Inr (optlist, args1) \<Rightarrow>
          let recursive = has_opt [''-r'', ''-a'', ''-R''] optlist
          in if length args1 < 2 then missing_destination ''cp'' (hd args)
             else cbind (target_checks ''cp'' (\<not> recursive) (length args1 - 1) (last args1)) (\<lambda>c. case c of
                 None \<Rightarrow> ret ()
               | Some into_dir \<Rightarrow> for_args (cp_one recursive into_dir (last args1)) (butlast args1)))"

subsection \<open>mv\<close>

text \<open>The test that should recognise a rename inside one directory compares a list with a text, so
  it never does; the entry is always appended and then removed.\<close>

definition mv_one :: "bool \<Rightarrow> string \<Rightarrow> string \<Rightarrow> bool command" where
  "mv_one into_dir dest src =
     cbind (path_exists src) (\<lambda>ex.
       if \<not> ex then then_do (error_write (''mv: cannot stat `'' @ src @ quote_end @ no_such_file)) (ret True)
       else cbind (resolv src) (\<lambda>rs. cbind (pure_res (\<lambda>w. getfile (vfs w) rs True)) (\<lambda>f.
         cbind (destination into_dir dest (basename dest) src) (\<lambda>(d, outfile). case f of
             None \<Rightarrow> pure_res (\<lambda>_. Inl TypeError)
           | Some s \<Rightarrow>
               then_do (in_fs (\<lambda>fs. (update_node s (\<lambda>n. n\<lparr>A_NAME := outfile\<rparr>) fs, Inr ())))
                 (then_do (in_fs (append_entry d s))
                   (cbind (pure_res (\<lambda>w. get_path (vfs w) (dirname rs) True)) (\<lambda>sd.
                     then_do (in_fs (remove_entry sd s)) (ret True))))))))"

definition command_mv :: "string list \<Rightarrow> unit command" where
  "command_mv args =
     (if args = [] then missing_operand ''mv''
      else case getopt True ''-bfiStTuv'' [] args of
        Inl _ \<Rightarrow> error_write (''Unrecognized option'' @ newline)
      | Inr (_, args1) \<Rightarrow>
          if length args1 < 2 then missing_destination ''mv'' (hd args)
          else cbind (target_checks ''mv'' (length args1 \<noteq> 2) (length args1 - 1) (last args1)) (\<lambda>c. case c of
              None \<Rightarrow> ret ()
            | Some into_dir \<Rightarrow> for_args (mv_one into_dir (last args1)) (butlast args1)))"

subsection \<open>mkdir, rmdir and touch\<close>

text \<open>The body ends in \<open>return\<close>, so only the first argument is looked at.\<close>

definition command_mkdir :: "string list \<Rightarrow> unit command" where
  "command_mkdir args =
     for_args (\<lambda>f. cbind (resolv f) (\<lambda>pname. cbind (pure_res (\<lambda>w. exists (vfs w) pname)) (\<lambda>ex.
       if ex then then_do (error_write (''mkdir: cannot create directory `'' @ f @ quote_end @ '': File exists'' @ newline)) (ret False)
       else then_do
         (catch_only FileNotFound
           (\<lambda>cs. in_fs (mkdir pname (user_uid (sess cs)) (user_gid (sess cs)) 4096 16877 (now (sess cs))) cs)
           (error_write (''mkdir: cannot create directory `'' @ f @ quote_end @ no_such_file)))
         (ret False)))) args"

definition rmdir_failed :: "string \<Rightarrow> string \<Rightarrow> unit command" where
  "rmdir_failed f why = error_write (''rmdir: failed to remove `'' @ f @ quote_end @ why @ newline)"

definition rmdir_one :: "string \<Rightarrow> bool command" where
  "rmdir_one f =
     cbind (resolv f) (\<lambda>pname.
     cbind (pure_res (\<lambda>w. Inr (rbind (get_path (vfs w) pname True) (\<lambda>d.
              if contents_len (heap (vfs w)) d > 0 then Inr None
              else rbind (get_path (vfs w) (parent_path pname) True) (\<lambda>p. Inr (Some p)))))) (\<lambda>found. case found of
         Inr None \<Rightarrow> then_do (rmdir_failed f '': Directory not empty'') (ret True)
       | Inl e \<Rightarrow>
           if e \<in> {IndexError, FileNotFound} then then_do (rmdir_failed f '': No such file or directory'') (ret True)
           else pure_res (\<lambda>_. Inl e)
       | Inr (Some d) \<Rightarrow>
           cbind (pure_res (\<lambda>w. rbind (entries (heap (vfs w)) d) (\<lambda>ids. Inr (find (\<lambda>i. A_NAME (heap (vfs w) i) = basename f) ids))))
             (\<lambda>i. case i of
                None \<Rightarrow> then_do (rmdir_failed f '': No such file or directory'') (ret True)
              | Some i \<Rightarrow>
                  cbind (pure_res (\<lambda>w. Inr (A_TYPE (heap (vfs w) i)))) (\<lambda>ty.
                    if ty \<noteq> T_DIR
                    then then_do (error_write (''rmdir: failed to remove '' @ quote_end @ f @ quote_end @ '': Not a directory'' @ newline)) (ret False)
                    else then_do (in_fs (remove_entry d i)) (ret True)))))"

definition command_rmdir :: "string list \<Rightarrow> unit command" where
  "command_rmdir args = for_args rmdir_one args"

definition touch_one :: "string \<Rightarrow> bool command" where
  "touch_one f =
     cbind (resolv f) (\<lambda>pname. cbind (pure_res (\<lambda>w. exists (vfs w) (dirname pname))) (\<lambda>pe.
       if \<not> pe then then_do (error_write (''touch: cannot touch `'' @ pname @ ''`'' @ no_such_file)) (ret False)
       else cbind (pure_res (\<lambda>w. exists (vfs w) pname)) (\<lambda>ex.
         if ex then ret True
         else if list_ex (starts_with pname) SPECIAL_PATHS
         then then_do (error_write (''touch: cannot touch `'' @ pname @ ''`: Permission denied'' @ newline)) (ret False)
         else cbind (\<lambda>cs. in_fs (mkfile pname (user_uid (sess cs)) (user_gid (sess cs)) 0 33188 (now (sess cs))) cs)
                (\<lambda>_. ret True))))"

definition command_touch :: "string list \<Rightarrow> unit command" where
  "command_touch args = (if args = [] then missing_operand ''touch'' else for_args touch_one args)"

end
