(* ===== verification/Commands_Props.thy ===== *)
theory Commands_Props
  imports Commands_Fs
begin

section \<open>Properties of the file system commands\<close>

subsection \<open>tail\<close>

lemma concat_enumerate_join:
  "length js = Suc m \<Longrightarrow>
   concat (concat (map (\<lambda>(i, j). f j # (if i < k + m then [sep] else [])) (enumerate k js))) = join_with sep (map f js)"
proof (induction js arbitrary: k m)
  case (Cons j js)
  show ?case
  proof (cases js)
    case Nil
    with Cons.prems show ?thesis by simp
  next
    case (Cons a as)
    then obtain m' where m: "m = Suc m'" using Cons.prems by (cases m) auto
    have "concat (concat (map (\<lambda>(i, j). f j # (if i < Suc k + m' then [sep] else [])) (enumerate (Suc k) js)))
        = join_with sep (map f js)"
      using Cons.IH [of m' "Suc k"] Cons.prems m by simp
    then show ?thesis using local.Cons m by (simp add: join_with_Cons)
  qed
qed simp

lemma py_index_int: "py_index xs (int k) = xs ! k"
  by (simp add: py_index_def)

lemma tail_pieces_inside:
  assumes "n < length ps"
  shows "map (py_index ps) (tail_indices (length ps) n) = drop (length ps - Suc n) ps"
proof (rule nth_equalityI)
  show "length (map (py_index ps) (tail_indices (length ps) n)) = length (drop (length ps - Suc n) ps)"
    using assms by (simp add: tail_indices_def)
next
  fix i assume "i < length (map (py_index ps) (tail_indices (length ps) n))"
  then have i: "i < Suc n" by (simp add: tail_indices_def)
  have e: "int (length ps) - int n - 1 + int i = int (length ps - Suc n + i)" using assms by simp
  have "py_index ps (int (length ps) - int n - 1 + int i) = ps ! (length ps - Suc n + i)"
    unfolding e by (rule py_index_int)
  then show "map (py_index ps) (tail_indices (length ps) n) ! i = drop (length ps - Suc n) ps ! i"
    using i assms by (simp add: tail_indices_def del: upt_Suc)
qed

lemma tail_pieces_all:
  assumes "ps \<noteq> []"
  shows "map (py_index ps) (tail_indices (length ps) (length ps)) = last ps # ps"
proof (rule nth_equalityI)
  show "length (map (py_index ps) (tail_indices (length ps) (length ps))) = length (last ps # ps)"
    by (simp add: tail_indices_def)
next
  fix i assume "i < length (map (py_index ps) (tail_indices (length ps) (length ps)))"
  then have i: "i < Suc (length ps)" by (simp add: tail_indices_def)
  have l: "nat (int (length ps) - 1) = length ps - 1" by simp
  show "map (py_index ps) (tail_indices (length ps) (length ps)) ! i = (last ps # ps) ! i"
    using i assms by (cases i) (simp_all add: tail_indices_def py_index_def last_conv_nth l del: upt_Suc)
qed

lemma tail_text:
  "concat (concat (map (\<lambda>(i, j). py_index ps j # (if i < n then [newline] else [])) (enumerate 0 (tail_indices lines n))))
   = join_with newline (map (py_index ps) (tail_indices lines n))"
  using concat_enumerate_join [of "tail_indices lines n" n "py_index ps" 0 newline]
  by (simp add: tail_indices_def)

text \<open>What \<open>tail -n\<close> prints. With fewer than \<open>n\<close> pieces between newlines it is the whole text, with
  more it is the last \<open>n + 1\<close> pieces, which are the last \<open>n\<close> lines if the text ends in a newline.
  With exactly \<open>n\<close> pieces the first index is -1, so the last piece is printed in front of the whole
  text.\<close>

theorem tail_output:
  "concat (snd (tail_application n contents)) =
    (let pieces = split_on (CHR 0x0A) contents in
     if length pieces < n then contents
     else if length pieces = n then last pieces @ newline @ contents
     else join_with newline (drop (length pieces - Suc n) pieces))"
proof -
  let ?ps = "split_on (CHR 0x0A) contents"
  have j: "join_with newline ?ps = contents" by (simp add: newline_def)
  have ne: "?ps \<noteq> []" by simp
  consider "length ?ps < n" | "length ?ps = n" | "n < length ?ps" by linarith
  then show ?thesis
  proof cases
    case 1
    have "map (py_index ?ps) (tail_indices (length ?ps) (length ?ps - 1)) = ?ps"
      using tail_pieces_inside [of "length ?ps - 1" ?ps] ne by simp
    with 1 show ?thesis by (simp add: tail_application_def Let_def tail_text j)
  next
    case 2
    then show ?thesis
      using tail_pieces_all [OF ne] ne
      by (simp add: tail_application_def Let_def tail_text j join_with_Cons)
  next
    case 3
    then show ?thesis
      using tail_pieces_inside [OF 3] by (simp add: tail_application_def Let_def tail_text)
  qed
qed

text \<open>\<open>head\<close> of a file that is shorter than the limit and ends in a newline prints an extra empty
  line.\<close>

lemma head_extra_line:
  assumes "length (split_on (CHR 0x0A) contents) \<le> n"
  shows "concat (head_application n 0 contents) = contents @ newline"
proof -
  have "concat (map (\<lambda>l. l @ newline) ps) = join_with newline ps @ newline" if "ps \<noteq> []" for ps
    using that by (induction newline ps rule: join_with.induct) simp_all
  from this [of "split_on (CHR 0x0A) contents"] assms show ?thesis
    by (simp add: head_application_def newline_def)
qed

subsection \<open>mkdir\<close>

text \<open>\<open>mkdir\<close> looks at its first argument only: with several names it creates the first and silently
  ignores the others.\<close>

theorem mkdir_first_argument_only:
  "command_mkdir (f # rest) = command_mkdir [f]"
proof -
  have "for_args body (a # as) cs = for_args body [a] cs"
    if "snd (body a cs) \<noteq> Inr True" for body :: "string \<Rightarrow> bool command" and a as cs
    using that by (auto split: prod.splits sum.splits)
  then show ?thesis
    unfolding command_mkdir_def
    by (intro ext) (rule, auto split: prod.splits sum.splits if_splits)
qed

subsection \<open>cp and mv\<close>

lemma path_not_option: "\<not> starts_with (path_of ps) ''-''"
  by (simp add: path_of_def)

lemma path_last_not_slash:
  "ps \<noteq> [] \<Longrightarrow> \<forall>x \<in> set ps. good_piece x \<Longrightarrow> path_of ps \<noteq> [] \<and> last (path_of ps) \<noteq> CHR ''/''"
  using join_pieces_slash [of ps] by (simp add: path_of_def)

lemma has_opt_none [simp]: "\<not> has_opt names []"
  by (simp add: has_opt_def)

lemma resolv_normal:
  "\<forall>x \<in> set ps. good_piece x \<Longrightarrow> resolv (path_of ps) cs = (cs, Inr (path_of ps))"
  by (simp add: resolv_def resolve_normal)

lemma plain_target:
  assumes "at_dir (vfs (sess cs)) qs e js" "good_piece g"
    "g \<notin> (\<lambda>x. A_NAME (heap (vfs (sess cs)) x)) ` set js"
  shows "target_checks name b 1 (path_of (qs @ [g])) cs = (cs, Inr (Some False))"
proof -
  let ?s = "vfs (sess cs)"
  have g: "\<forall>x \<in> set (qs @ [g]). good_piece x" using assms(2) at_dirD(1) [OF assms(1)] by simp
  have p: "path_of (qs @ [g]) \<noteq> []" "last (path_of (qs @ [g])) \<noteq> CHR ''/''"
    using path_last_not_slash [OF _ g] by simp_all
  have nd: "\<not> isdir ?s (path_of (qs @ [g]))"
    using at_dir_no_child [OF assms] path_of_root_iff [OF g] by (simp add: isdir_def has_type_def)
  have pe: "exists ?s (path_of qs) = Inr True" using at_dir_paths(2) [OF assms(1)] by (simp add: exists_def)
  show ?thesis
    using p nd pe at_dir_paths(6) [OF assms(1,2)]
    by (simp add: target_checks_def is_dir_def resolv_normal [OF g])
qed

text \<open>The state after a copy: an entry as \<open>mkfile\<close> adds one, but outside the quota.\<close>

definition copied_state :: "nat \<Rightarrow> nat list \<Rightarrow> node \<Rightarrow> filesystem \<Rightarrow> filesystem" where
  "copied_state e js n s = (add_state e js n s)\<lparr>newcount := newcount s\<rparr>"

lemma copy_file_entry:
  assumes "0 < frames s" "A_CONTENTS (heap s x) = Entries []"
  shows "copy_entry x s = (s\<lparr>heap := (heap s)(fresh s := heap s x), fresh := Suc (fresh s)\<rparr>, Inr (fresh s))"
proof -
  obtain m where m: "frames s = Suc m" using assms(1) by (cases "frames s") auto
  have id: "(heap s x)\<lparr>A_CONTENTS := Entries []\<rparr> = heap s x" by (simp flip: assms(2))
  show ?thesis by (simp add: copy_entry_def m assms(2) id)
qed

lemma cp_one_eq:
  fixes cs :: command_state
  defines "s \<equiv> vfs (sess cs)"
  assumes "at_dir s ps d ids" "fs_ok s" "good_piece f" "filter (\<lambda>x. A_NAME (heap s x) = f) ids = [x]"
    "A_TYPE (heap s x) = T_FILE" "A_CONTENTS (heap s x) = Entries []"
    "at_dir s qs e js" "good_piece g" "g \<notin> (\<lambda>x. A_NAME (heap s x)) ` set js"
  shows "cp_one False False (path_of (qs @ [g])) (path_of (ps @ [f])) cs
    = (cs\<lparr>sess := (sess cs)\<lparr>vfs := copied_state e js ((heap s x)\<lparr>A_NAME := g\<rparr>) s\<rparr>\<rparr>, Inr True)"
proof -
  let ?src = "path_of (ps @ [f])" and ?dest = "path_of (qs @ [g])" and ?fr = "fresh s"
  let ?sA = "s\<lparr>heap := (heap s)(?fr := heap s x), fresh := Suc ?fr\<rparr>"
  let ?sB = "update_node ?fr (\<lambda>n. n\<lparr>A_NAME := g\<rparr>) ?sA"
  have gs: "\<forall>x \<in> set (ps @ [f]). good_piece x" using assms(4) at_dirD(1) [OF assms(2)] by simp
  have gd: "\<forall>x \<in> set (qs @ [g]). good_piece x" using assms(9) at_dirD(1) [OF assms(8)] by simp
  have src: "getfile s ?src True = Inr (Some x)" using at_dir_child [OF assms(2,4,5)] assms(6) by simp
  have nd: "\<not> isdir s ?src"
    using src path_of_root_iff [OF gs] assms(6) by (simp add: isdir_def has_type_def)
  have fr: "e < ?fr" "\<forall>x \<in> set js. x < ?fr" using at_dir_fresh [OF assms(8,3)] by auto
  have "agree_but e ?fr (heap s) (heap ?sA)" by (simp add: agree_but_def)
  then have atA: "at_dir ?sA qs e js"
    using at_dirD(4) [OF assms(8)] fr(1) by (intro at_dir_update [OF assms(8,3)]) simp_all
  have namesA: "g \<notin> (\<lambda>x. A_NAME (heap ?sA x)) ` set js" using assms(10) fr(2) by auto
  have dn: "drop_named e g ?sA = (?sA, Inr ())"
  proof -
    have "find (\<lambda>x. A_NAME (heap ?sA x) = g) js = None" using namesA by (auto simp: find_None_iff)
    then show ?thesis using at_dir_paths(4) [OF atA] by (simp add: drop_named_def)
  qed
  have cB: "A_CONTENTS (heap ?sB e) = Entries js" using at_dirD(4) [OF assms(8)] fr(1) by (simp add: update_node_def)
  have fin: "set_entries e (js @ [?fr]) ?sB = copied_state e js ((heap s x)\<lparr>A_NAME := g\<rparr>) s"
    using fr(1) by (simp add: set_entries_def update_node_def copied_state_def add_state_def)
  have dest: "dirname ?dest = path_of qs" "basename (rstrip_chars slash ?dest) = g"
    using at_dir_paths(6) [OF assms(8,9)] rstrip_path_of [OF gd] basename_path_of [OF assms(9)] by simp_all
  have cp: "copy_entry x s = (?sA, Inr ?fr)"
    by (rule copy_file_entry [OF at_dirD(5) [OF assms(2)] assms(7)])
  show ?thesis
    using src nd dn cB fin dest at_dir_paths(1) [OF atA, of True] cp
    unfolding s_def
    by (simp add: cp_one_def path_exists_def is_dir_def resolv_normal [OF gs] resolv_normal [OF gd] exists_def
        destination_def in_fs_def in_vfs_def append_entry_def entry_list_def)
qed

text \<open>Copying a file to a new name adds one entry that equals the source but for its name, finds it
  under the destination, prints nothing, and leaves the source and every other entry untouched.\<close>

theorem cp_copies_file:
  fixes cs :: command_state
  defines "s \<equiv> vfs (sess cs)"
  assumes "at_dir s ps d ids" "fs_ok s" "good_piece f" "filter (\<lambda>x. A_NAME (heap s x) = f) ids = [x]"
    "A_TYPE (heap s x) = T_FILE" "A_CONTENTS (heap s x) = Entries []"
    "at_dir s qs e js" "good_piece g" "g \<notin> (\<lambda>x. A_NAME (heap s x)) ` set js"
    "command_cp [path_of (ps @ [f]), path_of (qs @ [g])] cs = (cs', r)"
  defines "s' \<equiv> vfs (sess cs')"
  shows "r = Inr () \<and> chain cs' = chain cs
    \<and> getfile s' (path_of (qs @ [g])) follow = Inr (Some (fresh s))
    \<and> heap s' (fresh s) = (heap s x)\<lparr>A_NAME := g\<rparr>
    \<and> (\<forall>k. k \<noteq> fresh s \<and> k \<noteq> e \<longrightarrow> heap s' k = heap s k)"
proof -
  let ?n = "(heap s x)\<lparr>A_NAME := g\<rparr>"
  have gopt: "getopt True shorts [] [path_of (ps @ [f]), path_of (qs @ [g])]
      = Inr ([], [path_of (ps @ [f]), path_of (qs @ [g])])" for shorts
    by (rule getopt_plain_args) (simp add: path_not_option)
  have tc: "target_checks ''cp'' True (Suc 0) (path_of (qs @ [g])) cs = (cs, Inr (Some False))"
    using plain_target [of cs qs e js g "''cp''" True] assms(8-10) by (simp add: s_def)
  have one: "cp_one False False (path_of (qs @ [g])) (path_of (ps @ [f])) cs
    = (cs\<lparr>sess := (sess cs)\<lparr>vfs := copied_state e js ?n s\<rparr>\<rparr>, Inr True)"
    using cp_one_eq [of cs ps d ids f x qs e js g] assms(2-10) unfolding s_def by blast
  have st: "s' = copied_state e js ?n s" "r = Inr ()" "chain cs' = chain cs"
    using assms(11) by (auto simp: command_cp_def gopt tc one s'_def simp del: getopt.simps)
  have fr: "e < fresh s" using at_dir_fresh [OF assms(8,3)] by simp
  have node: "heap s' (fresh s) = ?n" using add_state_heap(1) [OF fr] by (simp add: st copied_state_def)
  have at: "at_dir s' qs e (js @ [fresh s])"
    unfolding st(1) using add_state_agree [of e s js ?n]
    by (intro at_dir_update [OF assms(8,3)]) (simp_all add: copied_state_def add_state_heap)
  have one: "filter (\<lambda>x. A_NAME (heap s' x) = g) (js @ [fresh s]) = [fresh s]"
    using add_state_child [OF assms(8,3) _ assms(10), of ?n] by (simp add: st copied_state_def)
  have "getfile s' (path_of (qs @ [g])) follow = Inr (Some (fresh s))"
    by (rule at_dir_child [OF at assms(9) one]) (simp add: node assms(6))
  then show ?thesis using st node by (simp add: copied_state_def add_state_heap)
qed

definition example_command :: command_state where
  "example_command = \<lparr>sess = example_session\<lparr>vfs := example_file_fs\<rparr>, chain = [initial_pipe None False False]\<rparr>"

theorem cp_copies_file_witness:
  "\<exists>cs'. command_cp [''/tmp/a'', ''/b''] example_command = (cs', Inr ())
     \<and> getfile (vfs (sess cs')) ''/b'' True = Inr (Some 4)"
proof -
  note e = example_file_facts
  obtain cs' r where c: "command_cp [path_of ([''tmp''] @ [''a'']), path_of ([] @ [''b''])] example_command = (cs', r)"
    by (metis prod.collapse)
  have v: "vfs (sess example_command) = example_file_fs" by (simp add: example_command_def)
  have g: "good_piece ''a''" "good_piece ''b''" by (simp_all add: good_piece_def)
  have q: "''b'' \<notin> (\<lambda>x. A_NAME (heap example_file_fs x)) ` set [1, 2]" unfolding e(8) by simp
  have f: "fresh example_file_fs = 4" by (simp add: example_file_fs_def)
  have "r = Inr () \<and> getfile (vfs (sess cs')) (path_of ([] @ [''b''])) True = Inr (Some (fresh example_file_fs))"
    using cp_copies_file [of example_command, unfolded v, OF e(2,1) g(1) e(4-6) e(3) g(2) q c] by blast
  with c f show ?thesis by (auto simp: path_of_def)
qed

lemma py_eq_empty:
  assumes "0 < n" "A_CONTENTS (h x) = Entries []"
  shows "\<exists>b. py_eq n h k x = Inr b \<and> (b \<longrightarrow> A_NAME (h k) = A_NAME (h x))"
proof -
  obtain m where m: "n = Suc m" using assms(1) by (cases n) auto
  have "\<exists>b. contents_eq eq c (Entries []) = Inr b" for eq c
    by (cases c) (auto simp: contents_eq_def)
  then obtain b where "contents_eq (py_eq m h) (A_CONTENTS (h k)) (A_CONTENTS (h x)) = Inr b"
    unfolding assms(2) by blast
  then show ?thesis by (auto simp: m same_scalars_def)
qed

lemma list_remove_one:
  assumes "x \<in> set l" "0 < n" "A_CONTENTS (h x) = Entries []"
  shows "\<exists>as z bs. l = as @ z # bs \<and> list_remove (\<lambda>k. py_eq n h k x) x l = Inr (as @ bs)
    \<and> A_NAME (h z) = A_NAME (h x)"
  using assms(1)
proof (induction l)
  case (Cons y ys)
  obtain b where b: "py_eq n h y x = Inr b" "b \<longrightarrow> A_NAME (h y) = A_NAME (h x)"
    using py_eq_empty [where n=n and h=h and x=x and k=y] assms(2,3) by blast
  show ?case
  proof (cases "y = x \<or> b")
    case True
    then show ?thesis using b by (intro exI [of _ "[]"] exI [of _ y] exI [of _ ys]) auto
  next
    case False
    with Cons obtain as z bs where "ys = as @ z # bs" "list_remove (\<lambda>k. py_eq n h k x) x ys = Inr (as @ bs)"
      "A_NAME (h z) = A_NAME (h x)" by auto
    then show ?thesis using False b by (intro exI [of _ "y # as"] exI [of _ z] exI [of _ bs]) auto
  qed
qed simp

lemma walk_frame_names:
  assumes "\<forall>k \<in> set (trail h i ps). A_CONTENTS (h' k) = A_CONTENTS (h k) \<and>
      (\<forall>ids. A_CONTENTS (h k) = Entries ids \<longrightarrow>
        (\<forall>y \<in> set ids. A_NAME (h' y) = A_NAME (h y) \<and> A_TYPE (h' y) = A_TYPE (h y)))"
    "walk h i ps = Some j"
  shows "walk h' i ps = Some j"
  using assms
proof (induction ps arbitrary: i)
  case (Cons p ps)
  then obtain ids y where y: "A_CONTENTS (h i) = Entries ids" "filter (\<lambda>x. A_NAME (h x) = p) ids = [y]"
    "A_TYPE (h y) \<noteq> T_LINK" "walk h y ps = Some j" by (auto simp: walk_Cons_iff)
  have n: "\<forall>z \<in> set ids. A_NAME (h' z) = A_NAME (h z) \<and> A_TYPE (h' z) = A_TYPE (h z)"
    and c: "A_CONTENTS (h' i) = Entries ids"
    using Cons.prems(1) y(1) by simp_all
  have "filter (\<lambda>x. A_NAME (h' x) = p) ids = filter (\<lambda>x. A_NAME (h x) = p) ids"
    using n by (intro filter_cong) auto
  moreover have "A_TYPE (h' y) \<noteq> T_LINK" using n y(3) filter_single_mem [OF y(2)] by simp
  moreover have "walk h' y ps = Some j"
    by (rule Cons.IH [OF _ y(4)]) (use Cons.prems(1) y(1,2) in simp)
  ultimately show ?case using c y(2) unfolding walk_Cons_iff by auto
qed simp

lemma filter_remove_one:
  "length (filter P (as @ z # bs)) \<le> Suc (length (filter P (as @ bs)))"
  by simp

text \<open>\<open>mv\<close> onto an existing file does not replace it: the old entry stays in the directory next to
  the moved one, two entries of the same name.\<close>

theorem mv_keeps_old_target:
  fixes cs :: command_state
  defines "s \<equiv> vfs (sess cs)"
  assumes "at_dir s ps d ids" "good_piece f" "good_piece g"
    "filter (\<lambda>x. A_NAME (heap s x) = f) ids = [x]" "filter (\<lambda>x. A_NAME (heap s x) = g) ids = [y]" "f \<noteq> g"
    "A_TYPE (heap s x) = T_FILE" "A_TYPE (heap s y) = T_FILE" "A_CONTENTS (heap s x) = Entries []"
    "sole_entry s d x" "command_mv [path_of (ps @ [f]), path_of (ps @ [g])] cs = (cs', r)"
  defines "s' \<equiv> vfs (sess cs')"
  shows "r = Inr () \<and> (\<exists>ids'. A_CONTENTS (heap s' d) = Entries ids'
    \<and> length (filter (\<lambda>k. A_NAME (heap s' k) = g) ids') \<ge> 2)"
proof -
  let ?src = "path_of (ps @ [f])" and ?dest = "path_of (ps @ [g])"
  let ?s1 = "update_node x (\<lambda>n. n\<lparr>A_NAME := g\<rparr>) s"
  let ?s2 = "set_entries d (ids @ [x]) ?s1"
  note a = at_dirD [OF assms(2)]
  have gs: "\<forall>p \<in> set (ps @ [f]). good_piece p" "\<forall>p \<in> set (ps @ [g]). good_piece p"
    using assms(3,4) a(1) by simp_all
  have xm: "x \<in> set ids" "A_NAME (heap s x) = f" and ym: "y \<in> set ids" "A_NAME (heap s y) = g"
    using filter_single_mem [OF assms(5)] filter_single_mem [OF assms(6)] by auto
  have xy: "x \<noteq> y" "x \<noteq> d" using xm ym assms(7,10) a(4) by auto
  have src: "getfile s ?src True = Inr (Some x)" using at_dir_child [OF assms(2,3,5)] assms(8) by simp
  have dst: "getfile s ?dest True = Inr (Some y)" using at_dir_child [OF assms(2,4,6)] assms(9) by simp
  have nd: "\<not> isdir s ?dest" using dst path_of_root_iff [OF gs(2)] assms(9) by (simp add: isdir_def has_type_def)
  have pe: "exists s (path_of ps) = Inr True" using at_dir_paths(2) [OF assms(2)] by (simp add: exists_def)
  have dp: "dirname ?src = path_of ps" "dirname ?dest = path_of ps" "basename ?dest = g"
    using at_dir_paths(6,7) [OF assms(2)] assms(3,4) by simp_all
  have c2: "A_CONTENTS (heap ?s2 d) = Entries (ids @ [x])" by simp
  have "walk (heap ?s2) root ps = Some d"
  proof (rule walk_frame_names [OF _ a(2)], intro ballI conjI allI impI)
    fix k assume k: "k \<in> set (trail (heap s) root ps)"
    then have "k \<noteq> d" using a(3) by auto
    then show "A_CONTENTS (heap ?s2 k) = A_CONTENTS (heap s k)" by (simp add: update_node_def)
    fix js z assume js: "A_CONTENTS (heap s k) = Entries js" "z \<in> set js"
    then have "z \<noteq> x" using assms(11) \<open>k \<noteq> d\<close> by (auto simp: sole_entry_def)
    then show "A_NAME (heap ?s2 z) = A_NAME (heap s z)" "A_TYPE (heap ?s2 z) = A_TYPE (heap s z)"
      by (simp_all add: update_node_def)
  qed
  then have gp: "get_path ?s2 (path_of ps) True = Inr d" by (rule get_path_walk [OF a(1)])
  have cx: "A_CONTENTS (heap ?s2 x) = Entries []" using assms(10) xy(2) by (simp add: update_node_def)
  have fr: "0 < frames ?s2" using a(5) by (simp add: update_node_def)
  obtain as z bs where rm: "ids @ [x] = as @ z # bs"
    "list_remove (\<lambda>k. py_eq (frames ?s2) (heap ?s2) k x) x (ids @ [x]) = Inr (as @ bs)"
    using list_remove_one [where x=x and n="frames ?s2" and h="heap ?s2" and l="ids @ [x]"] fr cx by auto
  have re: "remove_entry d x ?s2 = (set_entries d (as @ bs) ?s2, Inr ())"
    by (simp only: remove_entry_def entry_list_def c2 contents.case rbind_simps rm(2) sum.case)
  have tc: "target_checks ''mv'' False (Suc 0) ?dest cs = (cs, Inr (Some False))"
    using path_last_not_slash [OF _ gs(2)] nd pe dp(2)
    by (simp add: target_checks_def is_dir_def resolv_normal [OF gs(2)] s_def)
  have ap: "append_entry d x ?s1 = (?s2, Inr ())"
    using a(4) xy(2) by (simp add: append_entry_def entry_list_def update_node_def)
  have one: "mv_one False ?dest ?src cs
      = (cs\<lparr>sess := (sess cs)\<lparr>vfs := set_entries d (as @ bs) ?s2\<rparr>\<rparr>, Inr True)"
    using src at_dir_paths(1) [OF assms(2), of True] dp gp re ap unfolding s_def
    by (simp add: mv_one_def path_exists_def resolv_normal [OF gs(1)] resolv_normal [OF gs(2)] exists_def
        destination_def in_fs_def in_vfs_def)
  have gopt: "getopt True shorts [] [?src, ?dest] = Inr ([], [?src, ?dest])" for shorts
    by (rule getopt_plain_args) (simp add: path_not_option)
  have st: "s' = set_entries d (as @ bs) ?s2" "r = Inr ()"
    using assms(12) by (auto simp: command_mv_def gopt tc one s'_def simp del: getopt.simps)
  let ?P = "\<lambda>k. A_NAME (heap s' k) = g"
  have P: "?P x" "?P y" using ym(2) xy by (simp_all add: st update_node_def)
  have two: "2 \<le> length (filter ?P ids)"
  proof -
    have "{x, y} \<subseteq> set (filter ?P ids)" using P xm(1) ym(1) by simp
    then have "card {x, y} \<le> card (set (filter ?P ids))" by (intro card_mono) simp_all
    also have "\<dots> \<le> length (filter ?P ids)" by (rule card_length)
    finally show ?thesis using xy(1) by simp
  qed
  then have "3 \<le> length (filter ?P (ids @ [x]))" using P by simp
  then have "3 \<le> length (filter ?P (as @ z # bs))" by (simp only: rm(1))
  then have "2 \<le> length (filter ?P (as @ bs))" using filter_remove_one [of ?P as z bs] by linarith
  moreover have "A_CONTENTS (heap s' d) = Entries (as @ bs)" by (simp add: st)
  ultimately show ?thesis using st(2) by blast
qed

definition example_two_files :: filesystem where
  "example_two_files =
     example_fs\<lparr>heap := (heap example_fs)
        (1 := (new_node ''tmp'' T_DIR 0 0 4096 16877 0)\<lparr>A_CONTENTS := Entries [3, 4]\<rparr>,
         3 := new_node ''a'' T_FILE 0 0 5 33188 0, 4 := new_node ''b'' T_FILE 0 0 9 33188 0), fresh := 5\<rparr>"

theorem mv_keeps_old_target_witness:
  "\<exists>cs' ids'. command_mv [''/tmp/a'', ''/tmp/b''] (example_command\<lparr>sess := example_session\<lparr>vfs := example_two_files\<rparr>\<rparr>) = (cs', Inr ())
     \<and> A_CONTENTS (heap (vfs (sess cs')) 1) = Entries ids'
     \<and> length (filter (\<lambda>k. A_NAME (heap (vfs (sess cs')) k) = ''b'') ids') \<ge> 2"
proof -
  let ?cs = "example_command\<lparr>sess := example_session\<lparr>vfs := example_two_files\<rparr>\<rparr>"
  have v: "vfs (sess ?cs) = example_two_files" by simp
  obtain cs' r where c: "command_mv [path_of ([''tmp''] @ [''a'']), path_of ([''tmp''] @ [''b''])] ?cs = (cs', r)"
    by (metis prod.collapse)
  have at: "at_dir example_two_files [''tmp''] 1 [3, 4]"
    by (simp add: at_dir_def example_two_files_def example_fs_def new_node_def walk.simps(2) good_piece_def)
  have g: "good_piece ''a''" "good_piece ''b''" by (simp_all add: good_piece_def)
  have f: "filter (\<lambda>x. A_NAME (heap example_two_files x) = ''a'') [3, 4] = [3]"
    "filter (\<lambda>x. A_NAME (heap example_two_files x) = ''b'') [3, 4] = [4]"
    by (simp_all add: example_two_files_def example_fs_def new_node_def)
  have t: "A_TYPE (heap example_two_files 3) = T_FILE" "A_TYPE (heap example_two_files 4) = T_FILE"
    "A_CONTENTS (heap example_two_files 3) = Entries []"
    by (simp_all add: example_two_files_def example_fs_def new_node_def)
  have so: "sole_entry example_two_files 1 3"
    by (auto simp: sole_entry_def example_two_files_def example_fs_def new_node_def split: if_splits)
  have "r = Inr () \<and> (\<exists>ids'. A_CONTENTS (heap (vfs (sess cs')) 1) = Entries ids'
      \<and> length (filter (\<lambda>k. A_NAME (heap (vfs (sess cs')) k) = ''b'') ids') \<ge> 2)"
    by (rule mv_keeps_old_target [of ?cs, unfolded v, OF at g f _ t so c]) simp
  with c show ?thesis by (auto simp: path_of_def)
qed

end
