(* ===== verification/Shell_Loop.thy ===== *)
theory Shell_Loop
  imports Shell
begin

section \<open>The loop over the tokens of a line ends\<close>

text \<open>
  Every round of \<open>line_loop\<close> takes a token from the lexer, and what a round calls never puts one back:
  the fuel it is given in \<open>line_received\<close> is enough, and more changes nothing.
\<close>

declare scan_close.simps [simp del]

named_theorems consumes \<open>operations that leave no more tokens than they found\<close>

lemma get_token_length: "get_token l = Inr (Some tok, l') \<Longrightarrow> length (fst l') < length (fst l)"
  by (cases l) (auto simp: get_token_def split: list.splits if_splits)

definition left_over :: "scan_result \<Rightarrow> lexer" where
  "left_over r = (case r of Scan_found e p l \<Rightarrow> l | Scan_eof l \<Rightarrow> l)"

lemma scan_length [consumes]:
  "scan_close b e p n c l = Inr r \<Longrightarrow> length (fst (left_over r)) \<le> length (fst l)"
  by (induction b e p n c l rule: scan_close.induct)
     (subst (asm) (6) scan_close.simps,
      (auto simp: Let_def left_over_def split: if_splits list.splits; meson le_SucI))

lemma sbind_Inr_iff: "sbind m f = (s, Inr x) \<longleftrightarrow> (\<exists>s1 y. m = (s1, Inr y) \<and> f s1 y = (s, Inr x))"
  by (cases m; cases "snd m") auto

lemma substitution_length [consumes]:
  "do_command_substitution k run tok l w = (w', Inr (t, l')) \<Longrightarrow> length (fst l') \<le> length (fst l)"
proof (induction k arbitrary: tok l w t)
  case (Suc k)
  from Suc.prems consider "l' = l"
    | e p l1 where "scan_close True e p 1 0 l = Inr (Scan_eof l1)" "l' = l1"
    | res e p l1 e1 p1 where "tok \<noteq> []" "substitution_start tok = Some (res, e, p)"
        "scan_close True e p 1 0 l = Inr (Scan_found e1 p1 l1)"
        "sbind (run_subshell_command run (take (Suc p1) e1) w) (\<lambda>w1 out.
           let (w2, res) = (if hd e1 = CHR ''('' then (terminal_write out w1, res) else (w1, res @ out));
               remainder = drop (Suc p1) e1
           in if remainder = [] then (w2, Inr (res, l1))
              else if contains ''$('' remainder \<or> contains ''`'' remainder
              then do_command_substitution k run (res @ remainder) l1 w2
              else (w2, Inr (res @ remainder, l1))) = (w', Inr (t, l'))"
    by (auto split: if_splits option.splits prod.splits sum.splits scan_result.splits)
  then show ?case
  proof cases
    case 2
    then show ?thesis using scan_length [OF 2(1)] by (simp add: left_over_def)
  next
    case (3 res e p l1 e1 p1)
    have l1: "length (fst l1) \<le> length (fst l)" using scan_length [OF 3(3)] by (simp add: left_over_def)
    have "length (fst l') \<le> length (fst l1)"
      using 3(4) Suc.IH
      by (cases l1) (auto simp: sbind_Inr_iff Let_def split: if_splits prod.splits)
    with l1 show ?thesis by simp
  qed simp
qed simp

lemma subshell_length [consumes]:
  "do_subshell_execution run tok l w = (w', Inr l') \<Longrightarrow> length (fst l') \<le> length (fst l)"
  by (auto simp: do_subshell_execution_def sbind_Inr_iff left_over_def dest!: scan_length
      split: sum.splits scan_result.splits)

lemma take_subshell_length: "length (snd (take_subshell n c ts)) \<le> length ts"
  by (induction n c ts rule: take_subshell.induct) (auto simp: Let_def split_beta)

lemma from_lexer_length [consumes]:
  "do_subshell_execution_from_lexer run l w = (w', Inr l') \<Longrightarrow> length (fst l') \<le> length (fst l)"
  using take_subshell_length [of 1 0 "fst l"]
  by (auto simp: do_subshell_execution_from_lexer_def sbind_Inr_iff Let_def split_beta split: if_splits)

lemma sbind_cong: "(\<And>s x. m = (s, Inr x) \<Longrightarrow> f s x = g s x) \<Longrightarrow> sbind m f = sbind m g"
  by (cases m; cases "snd m") auto

text \<open>C4: The loop over the tokens of a line ends by itself: any fuel above the number of tokens gives the same
  result, so what \<open>line_received\<close> computes never depends on it.\<close>

theorem line_loop_terminates:
  assumes "length (fst l) < n"
  shows "line_loop n depth run env l tokens pending w
    = line_loop (Suc (length (fst l))) depth run env l tokens pending w"
proof -
  have "line_loop n depth run env l tokens pending w = line_loop m depth run env l tokens pending w"
    if "length (fst l) < n" "length (fst l) < m" for m
    using that
  proof (induction n arbitrary: m l tokens pending w)
    case (Suc n)
    obtain m' where m: "m = Suc m'" using Suc.prems(2) by (cases m) simp
    have ih: "line_loop n depth run env l' ts ps v = line_loop m' depth run env l' ts ps v"
      if "length (fst l') < length (fst l)" for l' ts ps v
      using Suc.IH [of l' m'] that Suc.prems m by simp
    show ?case
    proof (cases "get_token l")
      case (Inr r)
      obtain tok l1 where r: "r = (tok, l1)" by (cases r)
      show ?thesis
      proof (cases tok)
        case (Some t)
        have l1: "length (fst l1) < length (fst l)" using Inr r Some by (simp add: get_token_length)
        have sub: "line_loop n depth run env l2 ts ps v = line_loop m' depth run env l2 ts ps v"
          if "length (fst l2) \<le> length (fst l1)" for l2 ts ps v using ih l1 that by simp
        have a: "sbind (if t = ''('' then do_subshell_execution_from_lexer run l1 w else do_subshell_execution run t l1 w)
            (\<lambda>w1 l2. line_loop n depth run env l2 tokens pending w1)
          = sbind (if t = ''('' then do_subshell_execution_from_lexer run l1 w else do_subshell_execution run t l1 w)
            (\<lambda>w1 l2. line_loop m' depth run env l2 tokens pending w1)"
          by (rule sbind_cong) (auto intro!: sub intro: from_lexer_length subshell_length split: if_splits)
        have b: "sbind (do_command_substitution depth run t l1 w) (\<lambda>w1 (x, l2). line_loop n depth run env l2 (tokens @ [x]) pending w1)
          = sbind (do_command_substitution depth run t l1 w) (\<lambda>w1 (x, l2). line_loop m' depth run env l2 (tokens @ [x]) pending w1)"
          by (rule sbind_cong) (auto intro!: sub intro: substitution_length)
        show ?thesis unfolding m line_loop.simps Inr r Some sum.case prod.case option.case a b ih [OF l1] ..
      qed (simp add: m Inr r)
    qed (simp add: m)
  qed simp
  from this [of "Suc (length (fst l))"] assms show ?thesis by simp
qed

theorem line_loop_terminates_witness:
  "\<forall>w. line_loop 100 0 (\<lambda>_ w. (w, Inr [])) [] ([''ls'', '';'', ''id''], False) [] [] w = (w, Inr [[''ls''], [''id'']])"
proof
  fix w
  have "line_loop 100 0 (\<lambda>_ w. (w, Inr [])) [] ([''ls'', '';'', ''id''], False) [] [] w
      = line_loop (Suc (length (fst ([''ls'', '';'', ''id''], False)))) 0 (\<lambda>_ w. (w, Inr [])) [] ([''ls'', '';'', ''id''], False) [] [] w"
    by (rule line_loop_terminates) simp
  then show "line_loop 100 0 (\<lambda>_ w. (w, Inr [])) [] ([''ls'', '';'', ''id''], False) [] [] w = (w, Inr [[''ls''], [''id'']])"
    by (simp add: get_token_def contains_def expand_variable_def env_brace_def env_simple_def)
qed

end
