(* ===== verification/Tty_Dir.thy ===== *)
theory Tty_Dir
  imports Tty_Log
begin

section \<open>The directory of session recordings\<close>

text \<open>
  How the proxies use \<open>core/ttylog.py\<close>: a recording is a file of the recordings' directory that is
  appended to and, when the session ends, is renamed to the hash of its input, or removed if a file of
  that name is there already. The directory is a map from names to contents; the mode of the files is
  left out.
\<close>

type_synonym tty_dir = "string \<rightharpoonup> string"

subsection \<open>Operations\<close>

text \<open>Opening for appending creates the file, also when packing the header raises afterwards.\<close>

definition append_with :: "(string \<Rightarrow> string res) \<Rightarrow> string \<Rightarrow> tty_dir \<Rightarrow> (tty_dir, unit) sres" where
  "append_with f name d =
     (let old = (case d name of None \<Rightarrow> [] | Some c \<Rightarrow> c) in
      case f old of Inl e \<Rightarrow> (d(name \<mapsto> old), Inl e) | Inr c \<Rightarrow> (d(name \<mapsto> c), Inr ()))"

definition tty_open :: "string \<Rightarrow> rat \<Rightarrow> tty_dir \<Rightarrow> (tty_dir, unit) sres" where
  "tty_open name t d = append_with (ttylog_open t) name d"

definition tty_write :: "string \<Rightarrow> int \<Rightarrow> rat \<Rightarrow> string \<Rightarrow> tty_dir \<Rightarrow> (tty_dir, unit) sres" where
  "tty_write name direction t data d =
     append_with (ttylog_write (int (length data)) direction t data) name d"

text \<open>\<open>os.path.join\<close> for a name that is not absolute.\<close>

definition join_path :: "string \<Rightarrow> string \<Rightarrow> string" where
  "join_path a b = (if a = [] \<or> last a = CHR ''/'' then a @ b else a @ ''/'' @ b)"

definition close_recording ::
  "(string \<Rightarrow> string) \<Rightarrow> string \<Rightarrow> string \<Rightarrow> rat \<Rightarrow> tty_dir \<Rightarrow> (tty_dir, string \<times> bool) sres" where
  "close_recording sha path name t d =
     sbind (append_with (ttylog_close t) name d) (\<lambda>d1 _.
       let content = (case d1 name of None \<Rightarrow> [] | Some c \<Rightarrow> c);
           shasum = ttylog_inputhash sha content;
           shasumfile = join_path path shasum
       in if d1 shasumfile \<noteq> None then (d1(name := None), Inr (shasum, True))
          else (d1(name := None, shasumfile \<mapsto> content), Inr (shasum, False)))"

subsection \<open>Recordings as events\<close>

definition tty_event :: "string \<Rightarrow> tty_event \<Rightarrow> tty_dir \<Rightarrow> (tty_dir, unit) sres" where
  "tty_event name e d = append_with (log_event e) name d"

lemma tty_event_simps:
  "tty_open name t = tty_event name (Tty_open t)"
  "tty_write name dir t data = tty_event name (Tty_write dir t data)"
  by (simp_all add: fun_eq_iff tty_open_def tty_write_def tty_event_def append_with_def)

text \<open>The directory holds the recording of these events under this name.\<close>

definition records :: "tty_dir \<Rightarrow> string \<Rightarrow> tty_event list \<Rightarrow> bool" where
  "records d name es \<longleftrightarrow> (\<exists>f. d name = Some f \<and> log_events es [] = Inr f)"

lemma log_events_append: "log_events (es @ es') f = rbind (log_events es f) (log_events es')"
proof (induction es arbitrary: f)
  case (Cons e es)
  then show ?case by (cases "log_event e f") simp_all
qed simp

lemma tty_event_records:
  assumes "records d name es" "tty_event name e d = (d', Inr ())"
  shows "records d' name (es @ [e]) \<and> (\<forall>n. n \<noteq> name \<longrightarrow> d' n = d n)"
proof -
  obtain f where f: "d name = Some f" "log_events es [] = Inr f" using assms(1) by (auto simp: records_def)
  then obtain c where "log_event e f = Inr c" "d' = d(name \<mapsto> c)"
    using assms(2) by (auto simp: tty_event_def append_with_def Let_def split: sum.splits)
  with f show ?thesis by (auto simp: records_def log_events_append)
qed

lemma tty_open_records:
  assumes "d name = None" "tty_event name (Tty_open t) d = (d', Inr ())"
  shows "records d' name [Tty_open t] \<and> (\<forall>n. n \<noteq> name \<longrightarrow> d' n = d n)"
  using assms by (auto simp: tty_event_def append_with_def records_def Let_def split: sum.splits)

lemma log_event_close [simp]: "log_event (Tty_close t) = ttylog_close t"
  by (simp add: fun_eq_iff)

text \<open>Closing names the recording after the bytes that were not output, and keeps one file per name.\<close>

lemma close_recording_records:
  assumes "records d name es" "close_recording sha path name t d = (d', Inr (h, dup))"
  shows "h = sha (typed_bytes es)
    \<and> (dup \<longleftrightarrow> d (join_path path h) \<noteq> None \<or> join_path path h = name)
    \<and> (dup \<longrightarrow> d' = d(name := None))
    \<and> (\<not> dup \<longrightarrow> records d' (join_path path h) (es @ [Tty_close t]) \<and> d' name = None
         \<and> (\<forall>n. n \<noteq> name \<and> n \<noteq> join_path path h \<longrightarrow> d' n = d n))"
proof -
  obtain d1 where d1: "tty_event name (Tty_close t) d = (d1, Inr ())"
    using assms(2) by (cases "append_with (ttylog_close t) name d"; cases "snd (append_with (ttylog_close t) name d)")
      (auto simp: close_recording_def tty_event_def)
  note r = tty_event_records [OF assms(1) d1]
  then obtain f where f: "d1 name = Some f" "log_events (es @ [Tty_close t]) [] = Inr f"
    by (auto simp: records_def)
  have t: "typed_bytes (es @ [Tty_close t]) = typed_bytes es"
    by (induction es rule: typed_bytes.induct) simp_all
  have h: "ttylog_inputhash sha f = sha (typed_bytes es)"
    using inputhash_only_input [OF f(2) f(2) refl, of sha] t by simp
  have "append_with (ttylog_close t) name d = (d1, Inr ())" using d1 by (simp add: tty_event_def)
  moreover have "d n = None" if "d1 n = None" for n using that f(1) r by (cases "n = name") auto
  ultimately show ?thesis using assms(2) f(1) h r
    by (auto simp: close_recording_def Let_def records_def f(2) split: if_splits)
qed

end
