(* ===== verification/Ssh_Base.thy ===== *)
theory Ssh_Base
  imports Prelude_Bytes
begin

section \<open>Reading the fields of SSH messages\<close>

text \<open>
  Model of \<open>ssh_proxy/protocols/base_protocol.py\<close> and \<open>ssh_proxy/util.py\<close>. Every protocol handler of
  the proxy is a \<open>BaseProtocol\<close>: here a record that the handlers' records extend, so that the reading
  operations apply to each of them. Reading past the end of the data raises nothing: a field is then
  shorter, and an integer is made of the bytes there are.
\<close>

named_theorems field_simps \<open>reading a field that is at the front of the data\<close>

subsection \<open>State and operations\<close>

record base_protocol =
  pdata :: string
  packetSize :: int

definition base_init :: base_protocol where
  "base_init = \<lparr>pdata = [], packetSize = 0\<rparr>"

definition extract_int :: "nat \<Rightarrow> 'a base_protocol_scheme \<Rightarrow> nat \<times> 'a base_protocol_scheme" where
  "extract_int n r =
     (unpack_be (take n (pdata r)), r\<lparr>packetSize := packetSize r - int n, pdata := drop n (pdata r)\<rparr>)"

definition put_int :: "nat \<Rightarrow> string res" where
  "put_int number = (if number < 256 ^ 4 then Inr (pack_be 4 number) else Inl OverflowError)"

definition extract_string :: "'a base_protocol_scheme \<Rightarrow> string \<times> 'a base_protocol_scheme" where
  "extract_string r =
     (let (n, r1) = extract_int 4 r
      in (take n (pdata r1), r1\<lparr>packetSize := packetSize r1 - int n, pdata := drop n (pdata r1)\<rparr>))"

definition extract_bool :: "'a base_protocol_scheme \<Rightarrow> bool \<times> 'a base_protocol_scheme" where
  "extract_bool r = (let (n, r1) = extract_int 1 r in (n \<noteq> 0, r1))"

definition extract_data :: "'a base_protocol_scheme \<Rightarrow> string \<times> 'a base_protocol_scheme" where
  "extract_data r =
     (let (n, r1) = extract_int 4 r; v = pdata r1
      in (v, r1\<lparr>packetSize := int n - int (length v), pdata := []\<rparr>))"

text \<open>\<open>util.py\<close>: the same fields written, with the error of \<open>struct.pack\<close> for a length over 32 bits.\<close>

definition bin_string_to_hex :: "string \<Rightarrow> string res" where
  "bin_string_to_hex message = rbind (struct_pack 4 (int (length message))) (\<lambda>size. Inr (size @ message))"

definition string_to_hex :: "string \<Rightarrow> string res" where
  "string_to_hex message = bin_string_to_hex message"

definition int_to_hex :: "int \<Rightarrow> string res" where
  "int_to_hex value = struct_pack 4 value"

subsection \<open>The getters of the client side\<close>

definition get_int :: "string \<Rightarrow> nat \<Rightarrow> nat" where
  "get_int data n = unpack_be (take n data)"

definition get_bool :: "string \<Rightarrow> bool" where
  "get_bool data \<longleftrightarrow> get_int data 1 \<noteq> 0"

definition get_string :: "string \<Rightarrow> nat \<times> string" where
  "get_string data = (let n = get_int data 4 in (n + 4, drop 4 (take (n + 4) data)))"

subsection \<open>What a written field reads as\<close>

text \<open>A text field as it is on the wire.\<close>

definition field :: "string \<Rightarrow> string" where
  "field s = pack_be 4 (length s) @ s"

lemma field_bin: "length s < 256 ^ 4 \<Longrightarrow> bin_string_to_hex s = Inr (field s)"
  by (simp add: bin_string_to_hex_def struct_pack_def field_def)

lemma pack_be_Nil_iff [simp]: "pack_be w n = [] \<longleftrightarrow> w = 0"
  using length_pack_be [of w n] by (cases w) auto

lemma field_not_Nil [simp]: "field s \<noteq> []"
  by (simp add: field_def)

lemma length_field [simp]: "length (field s) = 4 + length s"
  by (simp add: field_def)

lemma extract_int_field [field_simps]:
  assumes "n < 256 ^ w" "pdata r = pack_be w n @ rest"
  shows "extract_int w r = (n, r\<lparr>packetSize := packetSize r - int w, pdata := rest\<rparr>)"
  using assms by (simp add: extract_int_def unpack_pack_be)

lemma extract_string_field [field_simps]:
  assumes "length s < 256 ^ 4" "pdata r = field s @ rest"
  shows "extract_string r = (s, r\<lparr>packetSize := packetSize r - int (4 + length s), pdata := rest\<rparr>)"
  using assms by (simp add: extract_string_def extract_int_field [of "length s" 4 r "s @ rest"] field_def Let_def)

lemma get_string_field: "length s < 256 ^ 4 \<Longrightarrow> get_string (field s @ rest) = (4 + length s, s)"
  by (simp add: get_string_def get_int_def field_def unpack_pack_be Let_def)

text \<open>Reading never makes data appear, and an integer keeps its width.\<close>

lemma extract_int_bound: "fst (extract_int w r) < 256 ^ w"
proof -
  have "unpack_be (take w (pdata r)) < 256 ^ length (take w (pdata r))" by (rule unpack_be_bound)
  also have "\<dots> \<le> 256 ^ w" by (intro power_increasing) simp_all
  finally show ?thesis by (simp add: extract_int_def)
qed

lemma extract_string_length:
  "extract_string r = (s, r') \<Longrightarrow> length s + length (pdata r') \<le> length (pdata r)"
  by (auto simp: extract_string_def extract_int_def Let_def)

text \<open>The bytes a reader has consumed and the ones it still holds add up: \<open>packetSize\<close> follows the data
  exactly as long as the fields are inside it.\<close>

definition in_step :: "'a base_protocol_scheme \<Rightarrow> bool" where
  "in_step r \<longleftrightarrow> packetSize r = int (length (pdata r))"

lemma extract_string_in_step:
  assumes "in_step r" "extract_string r = (s, r')"
  shows "in_step r' \<longleftrightarrow> 4 + fst (extract_int 4 r) \<le> length (pdata r)"
  using assms by (auto simp: extract_string_def extract_int_def in_step_def Let_def)

end
