(* ===== verification/Ssh_Sftp.thy ===== *)
theory Ssh_Sftp
  imports Ssh_Base
begin

section \<open>SFTP sessions of the SSH proxy\<close>

text \<open>
  Model of \<open>ssh_proxy/protocols/sftp.py\<close>: putting SFTP packets together from the pieces the channel
  delivers, following the transfers, and keeping the files that were uploaded. The numbers of the packet
  types are those of the table in the source. Python's \<open>decode\<close> raises for a path that is no UTF-8, and
  so does the handler. The download directory maps the names of its files to their contents; SHA-256
  is a parameter.
\<close>

subsection \<open>State\<close>

datatype sftp_event =
    Entered string
  | Failed_command string string
  | New_pflag "nat list" string
  | New_extended string string
  | Finished_download string
  | Finished_upload string
  | Uploaded string string bool
  | Unhandled_packet

record sftp = base_protocol +
  prevID :: nat
  ID :: nat
  handle :: string
  sftp_path :: string
  sftp_command :: string
  theFile :: string
  offset :: nat
  clientPacket :: base_protocol
  serverPacket :: base_protocol
  downloads :: "string \<rightharpoonup> string"
  sftp_log :: "sftp_event list"

definition sftp_init :: "(string \<rightharpoonup> string) \<Rightarrow> sftp" where
  "sftp_init dl =
     \<lparr>pdata = [], packetSize = 0, prevID = 0, ID = 0, handle = [], sftp_path = [], sftp_command = [],
      theFile = [], offset = 0, clientPacket = base_init, serverPacket = base_init, downloads = dl,
      sftp_log = []\<rparr>"

datatype side = SERVER | CLIENT

lemma buffer_fields [simp]:
  "clientPacket (s\<lparr>pdata := x\<rparr>) = clientPacket s" "clientPacket (s\<lparr>packetSize := n\<rparr>) = clientPacket s"
  "serverPacket (s\<lparr>pdata := x\<rparr>) = serverPacket s" "serverPacket (s\<lparr>packetSize := n\<rparr>) = serverPacket s"
  "pdata (s\<lparr>clientPacket := b\<rparr>) = pdata s" "packetSize (s\<lparr>clientPacket := b\<rparr>) = packetSize s"
  "pdata (s\<lparr>serverPacket := b\<rparr>) = pdata s" "packetSize (s\<lparr>serverPacket := b\<rparr>) = packetSize s"
  by (cases s, simp)+

subsection \<open>Packet types\<close>

definition FXP_OPEN :: nat where "FXP_OPEN = 3"
definition FXP_CLOSE :: nat where "FXP_CLOSE = 4"
definition FXP_READ :: nat where "FXP_READ = 5"
definition FXP_WRITE :: nat where "FXP_WRITE = 6"
definition FXP_SETSTAT :: nat where "FXP_SETSTAT = 9"
definition FXP_OPENDIR :: nat where "FXP_OPENDIR = 11"
definition FXP_READDIR :: nat where "FXP_READDIR = 12"
definition FXP_REMOVE :: nat where "FXP_REMOVE = 13"
definition FXP_MKDIR :: nat where "FXP_MKDIR = 14"
definition FXP_RMDIR :: nat where "FXP_RMDIR = 15"
definition FXP_REALPATH :: nat where "FXP_REALPATH = 16"
definition FXP_SYMLINK :: nat where "FXP_SYMLINK = 20"
definition FXP_STATUS :: nat where "FXP_STATUS = 101"
definition FXP_HANDLE :: nat where "FXP_HANDLE = 102"
definition FXP_EXTENDED :: nat where "FXP_EXTENDED = 200"
definition FXP_EXTENDED_REPLY :: nat where "FXP_EXTENDED_REPLY = 201"

lemmas fxp_defs = FXP_OPEN_def FXP_CLOSE_def FXP_READ_def FXP_WRITE_def FXP_SETSTAT_def FXP_OPENDIR_def
  FXP_READDIR_def FXP_REMOVE_def FXP_MKDIR_def FXP_RMDIR_def FXP_REALPATH_def FXP_SYMLINK_def
  FXP_STATUS_def FXP_HANDLE_def FXP_EXTENDED_def FXP_EXTENDED_REPLY_def

subsection \<open>Attributes\<close>

text \<open>\<open>extract_attrs\<close>: the permissions as three groups of bits, each written as a decimal number.\<close>

definition chmod_text :: "nat \<Rightarrow> string" where
  "chmod_text p =
     (let perms = bin_text 9 p
      in digits_of_nat (value_base 2 (take 3 perms)) @ digits_of_nat (value_base 2 (take 3 (drop 3 perms)))
         @ digits_of_nat (value_base 2 (drop 6 perms)))"

definition extract_attrs :: "sftp \<Rightarrow> string \<times> sftp" where
  "extract_attrs s =
     (let (fl, s1) = extract_int 4 s; flags = bin_text 8 fl in
      if flags ! 5 = 1 then (let (p, s2) = extract_int 4 s1 in (''chmod '' @ chmod_text p, s2))
      else if flags ! 6 = 1 then
        (let (u, s2) = extract_int 4 s1; (g, s3) = extract_int 4 s2
         in (''chown '' @ digits_of_nat u @ '':'' @ digits_of_nat g, s3))
      else ([], s1))"

subsection \<open>Handling a packet\<close>

definition sftp_msg :: "sftp_event \<Rightarrow> sftp \<Rightarrow> sftp" where
  "sftp_msg e s = s\<lparr>sftp_log := sftp_log s @ [e]\<rparr>"

text \<open>A log line with the decoded command, or path.\<close>

definition log_decoded :: "(string \<Rightarrow> sftp_event) \<Rightarrow> string \<Rightarrow> sftp \<Rightarrow> (sftp, unit) sres" where
  "log_decoded ev t s = (case py_decode t of Inl e \<Rightarrow> (s, Inl e) | Inr x \<Rightarrow> (sftp_msg (ev x) s, Inr ()))"

definition set_command :: "string \<Rightarrow> sftp \<Rightarrow> sftp" where
  "set_command c s = s\<lparr>sftp_command := c\<rparr>"

definition sftp_open :: "sftp \<Rightarrow> (sftp, unit) sres" where
  "sftp_open s =
     (let (p, s1) = extract_string s;
          (fl, s2) = extract_int 4 (s1\<lparr>sftp_path := p\<rparr>);
          pflags = bin_text 8 fl;
          s3 = (if pflags ! 6 = 1 then (set_command (''put '' @ p) s2)\<lparr>theFile := []\<rparr>
                else if pflags ! 7 = 1 then set_command (''get '' @ p) s2
                else sftp_msg (New_pflag pflags (pdata s2)) s2)
      in log_decoded Entered (sftp_command s3) s3)"

definition sftp_write :: "sftp \<Rightarrow> sftp" where
  "sftp_write s =
     (let (h, s1) = extract_string s in
      if handle s1 = h then
        (let (off, s2) = extract_int 8 s1;
             (d, s3) = extract_data (s2\<lparr>offset := off\<rparr>)
         in s3\<lparr>theFile := take off (theFile s3) @ d\<rparr>)
      else s1)"

definition last_word :: "string \<Rightarrow> string" where
  "last_word c = last (split_on (CHR '' '') c)"

text \<open>Storing an upload: the file is kept under its hash; an existing file is left as it is.\<close>

definition store_sftp_upload :: "(string \<Rightarrow> string) \<Rightarrow> sftp \<Rightarrow> (sftp, unit) sres" where
  "store_sftp_upload sha s =
     (case py_decode (sftp_command s) of
        Inl e \<Rightarrow> (s, Inl e)
      | Inr c \<Rightarrow>
          let shasum = sha (theFile s); duplicate = (downloads s shasum \<noteq> None)
          in (sftp_msg (Uploaded (last_word c) shasum duplicate)
                (s\<lparr>downloads := (if duplicate then downloads s else (downloads s)(shasum \<mapsto> theFile s))\<rparr>),
              Inr ()))"

definition sftp_close :: "(string \<Rightarrow> string) \<Rightarrow> sftp \<Rightarrow> (sftp, unit) sres" where
  "sftp_close sha s =
     (let (h, s1) = extract_string s in
      if handle s1 = h then
        if contains ''get'' (sftp_command s1) then log_decoded Finished_download (sftp_path s1) s1
        else if contains ''put'' (sftp_command s1) then
          sbind (log_decoded Finished_upload (sftp_path s1) s1) (\<lambda>s2 _. store_sftp_upload sha s2)
        else (s1, Inr ())
      else (s1, Inr ()))"

definition sftp_extended :: "sftp \<Rightarrow> sftp" where
  "sftp_extended s =
     (let (cmd, s1) = extract_string s;
          (p, s2) = extract_string s1;
          s3 = s2\<lparr>sftp_path := p\<rparr> in
      if cmd = ''statvfs@openssh.com'' then set_command (''df '' @ p) s3
      else if cmd = ''hardlink@openssh.com'' then
        (let (q, s4) = extract_string s3 in set_command (''ln '' @ p @ '' '' @ q) s4)
      else if cmd = ''posix-rename@openssh.com'' then
        (let (q, s4) = extract_string s3 in set_command (''mv '' @ p @ '' '' @ q) s4)
      else sftp_msg (New_extended cmd (pdata s3)) s3)"

definition sftp_status :: "sftp \<Rightarrow> (sftp, unit) sres" where
  "sftp_status s =
     (if ID s = prevID s then
        (let (code, s1) = extract_int 4 s in
         if code \<in> {0, 1} then
           (if \<not> contains ''get'' (sftp_command s1) \<and> \<not> contains ''put'' (sftp_command s1)
            then log_decoded Entered (sftp_command s1) s1 else (s1, Inr ()))
         else
           (let (m, s2) = extract_string s1 in
            case py_decode (sftp_command s2) of
              Inl e \<Rightarrow> (s2, Inl e)
            | Inr c \<Rightarrow> log_decoded (Failed_command c) m s2))
      else (s, Inr ()))"

definition one_path :: "string \<Rightarrow> sftp \<Rightarrow> sftp" where
  "one_path name s = (let (p, s1) = extract_string s in set_command (name @ p) s1)"

definition handle_body :: "(string \<Rightarrow> string) \<Rightarrow> nat \<Rightarrow> sftp \<Rightarrow> (sftp, unit) sres" where
  "handle_body sha num s =
     (if num = FXP_OPENDIR then (let (p, s1) = extract_string s in (s1\<lparr>sftp_path := p\<rparr>, Inr ()))
      else if num = FXP_REALPATH then
        (let (p, s1) = extract_string s
         in log_decoded Entered (''cd '' @ p) (set_command (''cd '' @ p) (s1\<lparr>sftp_path := p\<rparr>)))
      else if num = FXP_OPEN then sftp_open s
      else if num = FXP_READ then (s, Inr ())
      else if num = FXP_WRITE then (sftp_write s, Inr ())
      else if num = FXP_HANDLE then
        (if ID s = prevID s then (let (h, s1) = extract_string s in (s1\<lparr>handle := h\<rparr>, Inr ()))
         else (s, Inr ()))
      else if num = FXP_READDIR then
        (let (h, s1) = extract_string s
         in (if handle s1 = h then set_command (''ls '' @ sftp_path s1) s1 else s1, Inr ()))
      else if num = FXP_SETSTAT then
        (let (p, s1) = extract_string s; (a, s2) = extract_attrs (s1\<lparr>sftp_path := p\<rparr>)
         in (set_command (a @ '' '' @ p) s2, Inr ()))
      else if num = FXP_EXTENDED then (sftp_extended s, Inr ())
      else if num = FXP_EXTENDED_REPLY then log_decoded Entered (sftp_command s) s
      else if num = FXP_CLOSE then sftp_close sha s
      else if num = FXP_SYMLINK then
        (let (p, s1) = extract_string s; (q, s2) = extract_string s1
         in (set_command (''ln -s '' @ p @ '' '' @ q) s2, Inr ()))
      else if num = FXP_MKDIR then (one_path ''mkdir '' s, Inr ())
      else if num = FXP_REMOVE then (one_path ''rm '' s, Inr ())
      else if num = FXP_RMDIR then (one_path ''rmdir '' s, Inr ())
      else if num = FXP_STATUS then sftp_status s
      else (sftp_msg Unhandled_packet s, Inr ()))"

definition parent_packet :: "side \<Rightarrow> sftp \<Rightarrow> base_protocol" where
  "parent_packet p s = (case p of SERVER \<Rightarrow> serverPacket s | CLIENT \<Rightarrow> clientPacket s)"

definition set_parent_packet :: "side \<Rightarrow> base_protocol \<Rightarrow> sftp \<Rightarrow> sftp" where
  "set_parent_packet p b s = (case p of SERVER \<Rightarrow> s\<lparr>serverPacket := b\<rparr> | CLIENT \<Rightarrow> s\<lparr>clientPacket := b\<rparr>)"

definition handle_packet :: "(string \<Rightarrow> string) \<Rightarrow> side \<Rightarrow> sftp \<Rightarrow> (sftp, unit) sres" where
  "handle_packet sha parent s =
     (let b = parent_packet parent s;
          (num, s1) = extract_int 1 (s\<lparr>packetSize := packetSize b, pdata := pdata b\<rparr>);
          (i, s2) = extract_int 4 (s1\<lparr>prevID := ID s1\<rparr>)
      in handle_body sha num (s2\<lparr>ID := i, sftp_path := []\<rparr>))"

subsection \<open>Putting packets together\<close>

text \<open>
  One call of \<open>parse_packet\<close> up to the handling: the packet of this side with the new piece, and what
  of the piece is left over. A piece that starts a packet is taken whole, however many packets it holds,
  and \<open>packetSize\<close> gets negative then.
\<close>

definition take_piece :: "base_protocol \<Rightarrow> string \<Rightarrow> (base_protocol \<times> string) res" where
  "take_piece b data =
     (if packetSize b = 0 then
        (if data = [] then Inl ValueError
         else Inr (\<lparr>pdata = drop 4 data,
                    packetSize = int (unpack_be (take 4 data)) - int (length (drop 4 data))\<rparr>, []))
      else if int (length data) > packetSize b then
        Inr (\<lparr>pdata = pdata b @ py_take (packetSize b) data, packetSize = 0\<rparr>, py_drop (packetSize b) data)
      else Inr (\<lparr>pdata = pdata b @ data, packetSize = packetSize b - int (length data)\<rparr>, []))"

lemma take_piece_rest:
  "take_piece b data = Inr (b', rest) \<Longrightarrow> rest \<noteq> [] \<Longrightarrow> packetSize b \<noteq> 0 \<and> packetSize b' = 0"
  by (auto simp: take_piece_def split: if_splits)

text \<open>The handling of a packet leaves the buffers of both sides alone.\<close>

named_theorems keeps_buffers \<open>an operation leaves the packet buffers alone\<close>

definition same_buffers :: "sftp \<Rightarrow> sftp \<Rightarrow> bool" where
  "same_buffers s s' \<longleftrightarrow> clientPacket s' = clientPacket s \<and> serverPacket s' = serverPacket s"

lemma log_decoded_buffers [keeps_buffers]: "same_buffers s (fst (log_decoded ev t s))"
  by (simp add: same_buffers_def log_decoded_def sftp_msg_def split: sum.splits)

lemma extract_buffers [simp, keeps_buffers]:
  "clientPacket (snd (extract_int n s)) = clientPacket s" "serverPacket (snd (extract_int n s)) = serverPacket s"
  "clientPacket (snd (extract_string s)) = clientPacket s" "serverPacket (snd (extract_string s)) = serverPacket s"
  "clientPacket (snd (extract_data s)) = clientPacket s" "serverPacket (snd (extract_data s)) = serverPacket s"
  by (simp_all add: extract_int_def extract_string_def extract_data_def Let_def)

lemma attrs_buffers [simp, keeps_buffers]:
  "clientPacket (snd (extract_attrs s)) = clientPacket s" "serverPacket (snd (extract_attrs s)) = serverPacket s"
  by (simp_all add: extract_attrs_def Let_def split_beta)

lemma set_buffers [simp, keeps_buffers]:
  "clientPacket (set_command c s) = clientPacket s" "serverPacket (set_command c s) = serverPacket s"
  "clientPacket (sftp_msg e s) = clientPacket s" "serverPacket (sftp_msg e s) = serverPacket s"
  "clientPacket (fst (log_decoded ev t s)) = clientPacket s" "serverPacket (fst (log_decoded ev t s)) = serverPacket s"
  by (simp_all add: set_command_def sftp_msg_def log_decoded_def split: sum.splits)

lemma store_buffers [simp]: "clientPacket (fst (store_sftp_upload sha s)) = clientPacket s"
  "serverPacket (fst (store_sftp_upload sha s)) = serverPacket s"
  by (simp_all add: store_sftp_upload_def Let_def split: sum.splits)

lemma sbind_buffers:
  "same_buffers s (fst m) \<Longrightarrow> (\<And>s' x. same_buffers s' (fst (f s' x))) \<Longrightarrow> same_buffers s (fst (sbind m f))"
  by (cases m; cases "snd m") (auto simp: same_buffers_def)

lemma close_buffers [simp]: "same_buffers s (fst (sftp_close sha s))"
proof -
  have "same_buffers s' (fst (sbind (log_decoded ev t s') (\<lambda>s2 _. store_sftp_upload sha s2)))" for ev t s'
    by (rule sbind_buffers) (simp_all add: same_buffers_def)
  then show ?thesis by (simp add: sftp_close_def Let_def split_beta same_buffers_def)
qed

lemma small_buffers [simp]: "same_buffers s (fst (sftp_open s))" "same_buffers s (sftp_write s)"
  "same_buffers s (sftp_extended s)" "same_buffers s (fst (sftp_status s))" "same_buffers s (one_path n s)"
  by (simp_all add: same_buffers_def sftp_open_def sftp_write_def sftp_extended_def sftp_status_def one_path_def
      Let_def split_beta split: sum.splits)

lemma handle_body_buffers: "same_buffers s (fst (handle_body sha num s))"
  using close_buffers [of s sha] small_buffers [of s]
  by (auto simp: handle_body_def Let_def split_beta same_buffers_def)

lemma handle_packet_buffers: "same_buffers s (fst (handle_packet sha parent s))"
proof -
  have "same_buffers s2 (fst (handle_body sha num s2))" for s2 num by (rule handle_body_buffers)
  then have b: "clientPacket (fst (handle_body sha num s2)) = clientPacket s2"
    "serverPacket (fst (handle_body sha num s2)) = serverPacket s2" for s2 :: sftp and num
    by (simp_all add: same_buffers_def)
  show ?thesis by (simp add: handle_packet_def same_buffers_def Let_def split_beta b)
qed

lemma parent_packet_set [simp]: "parent_packet p (set_parent_packet p b s) = b"
  by (cases p) (simp_all add: parent_packet_def set_parent_packet_def)

lemma handle_packet_parent: "handle_packet sha parent s = (s', r) \<Longrightarrow> parent_packet p s' = parent_packet p s"
  using handle_packet_buffers [of s sha parent] by (cases p) (simp_all add: same_buffers_def parent_packet_def)

function sftp_parse_packet :: "(string \<Rightarrow> string) \<Rightarrow> side \<Rightarrow> string \<Rightarrow> sftp \<Rightarrow> (sftp, unit) sres" where
  "sftp_parse_packet sha parent data s =
     (case take_piece (parent_packet parent s) data of
        Inl e \<Rightarrow> (s, Inl e)
      | Inr (b, rest) \<Rightarrow>
          (case (if packetSize b = 0 then handle_packet sha parent (set_parent_packet parent b s)
                 else (set_parent_packet parent b s, Inr ())) of
             (s1, Inl e) \<Rightarrow> (s1, Inl e)
           | (s1, Inr _) \<Rightarrow> if rest \<noteq> [] then sftp_parse_packet sha parent rest s1 else (s1, Inr ())))"
  by pat_completeness auto

text \<open>The call to itself ends: what is left over meets a buffer whose packet is complete, and starts a
  packet, which takes all of it.\<close>

termination
proof (relation "measure (\<lambda>(_, parent, _, s). if packetSize (parent_packet parent s) = 0 then 0 else 1)")
  fix sha parent data s x b rest s1 r u
  assume p: "take_piece (parent_packet parent s) data = Inr x" "(b, rest) = x"
    and h: "(s1, r) = (if packetSize b = 0 then handle_packet sha parent (set_parent_packet parent b s)
             else (set_parent_packet parent b s, Inr ()))" "r = Inr u"
    and ne: "rest \<noteq> []"
  then have z: "packetSize (parent_packet parent s) \<noteq> 0" "packetSize b = 0"
    using take_piece_rest [of "parent_packet parent s" data b rest] by auto
  then have "handle_packet sha parent (set_parent_packet parent b s) = (s1, r)" using h by simp
  from handle_packet_parent [OF this, of parent] z(2)
  have "packetSize (parent_packet parent s1) = 0" by simp
  with z show "((sha, parent, rest, s1), sha, parent, data, s)
      \<in> measure (\<lambda>(_, parent, _, s). if packetSize (parent_packet parent s) = 0 then 0 else 1)"
    by simp
qed simp

declare sftp_parse_packet.simps [simp del]

end
