(* ===== verification/Ssh_Term.thy ===== *)
theory Ssh_Term
  imports Prelude_Bytes Tty_Dir Ssh_Sftp
begin

section \<open>Terminal and exec sessions of the SSH proxy\<close>

text \<open>
  Model of \<open>ssh_proxy/protocols/term.py\<close> and \<open>exec_term.py\<close>. The terminal follows what the attacker
  edits on the command line, to log the commands, and both record the session. Data of the side
  \<open>SERVER\<close> comes from the attacker, data of \<open>CLIENT\<close> from the backend. One iteration of a loop is
  one function that says how many bytes it has used up.
\<close>

subsection \<open>State\<close>

datatype command_event = Command_input string | Command_unusual string

record term_session =
  t_command :: string
  t_pointer :: int
  tabPress :: bool
  upArrow :: bool
  ttylogEnabled :: bool
  ttylogFile :: string
  ttylogSize :: int
  t_log :: "command_event list"

subsection \<open>Keys\<close>

text \<open>A command is logged when it can be decoded.\<close>

definition command_event :: "string \<Rightarrow> command_event" where
  "command_event c = (case py_decode c of Inl _ \<Rightarrow> Command_unusual c | Inr x \<Rightarrow> Command_input x)"

definition term_enter :: "bool \<Rightarrow> term_session \<Rightarrow> term_session" where
  "term_enter ctrl_c t =
     (let c = (if ctrl_c then t_command t @ ''^C'' else t_command t)
      in t\<lparr>t_log := (if c \<noteq> [] then t_log t @ [command_event c] else t_log t), t_command := [], t_pointer := 0\<rparr>)"

definition term_insert :: "string \<Rightarrow> term_session \<Rightarrow> term_session" where
  "term_insert c t =
     t\<lparr>t_command := py_take (t_pointer t) (t_command t) @ c @ py_drop (t_pointer t) (t_command t),
       t_pointer := t_pointer t + 1\<rparr>"

definition term_backspace :: "term_session \<Rightarrow> term_session" where
  "term_backspace t =
     (if t_pointer t > 0
      then t\<lparr>t_command := py_take (t_pointer t - 1) (t_command t) @ py_drop (t_pointer t) (t_command t),
             t_pointer := t_pointer t - 1\<rparr>
      else t)"

abbreviation esc :: "string \<Rightarrow> string" where "esc s \<equiv> CHR 0x1B # s"

definition server_key :: "string \<Rightarrow> term_session \<Rightarrow> nat \<times> term_session" where
  "server_key d t =
     (if take 1 d = [CHR 0x09] then (1, t\<lparr>tabPress := True\<rparr>)
      else if take 1 d \<in> {[CHR 0x7F], [CHR 0x08]} then (1, term_backspace t)
      else if take 1 d \<in> {[CHR 0x0D], [CHR 0x03], [CHR 0x0A]} then (1, term_enter (take 1 d = [CHR 0x03]) t)
      else if take 3 d = esc ''OH'' then (3, t\<lparr>t_pointer := 0\<rparr>)
      else if take 3 d = esc ''OF'' then (3, t\<lparr>t_pointer := int (length (t_command t))\<rparr>)
      else if take 3 d = esc ''[C'' then
        (3, if t_pointer t \<noteq> int (length (t_command t)) then t\<lparr>t_pointer := t_pointer t + 1\<rparr> else t)
      else if take 3 d = esc ''[D'' then (3, if t_pointer t \<noteq> 0 then t\<lparr>t_pointer := t_pointer t - 1\<rparr> else t)
      else if take 3 d \<in> {esc ''[A'', esc ''[B''} then (3, t\<lparr>upArrow := True\<rparr>)
      else (1, term_insert (take 1 d) t))"

text \<open>The branch for a delete sequence compares an empty slice with a letter, so it is never taken.\<close>

definition client_key :: "string \<Rightarrow> term_session \<Rightarrow> nat \<times> term_session" where
  "client_key d t =
     (if take 1 d = [CHR 0x08] then (1, t\<lparr>t_command := butlast (t_command t), t_pointer := t_pointer t - 1\<rparr>)
      else if take 3 d = esc ''[K'' then (3, t\<lparr>t_command := py_take (t_pointer t) (t_command t)\<rparr>)
      else if take 1 d = [CHR 0x0D] then (1, t\<lparr>t_pointer := 0\<rparr>)
      else if take 3 d = esc ''[C'' then (3, t\<lparr>t_pointer := t_pointer t + 1\<rparr>)
      else if take 2 d = esc ''['' \<and> take 0 (drop 3 d) = ''P'' then (4, t)
      else if take 1 d \<noteq> [CHR 0x07] \<and> take 1 d \<noteq> [CHR 0x0D] then (1, term_insert (take 1 d) t)
      else (1, t\<lparr>t_pointer := t_pointer t + 1\<rparr>))"

lemma server_key_uses: "0 < fst (server_key d t)"
  by (simp add: server_key_def)

lemma client_key_uses: "0 < fst (client_key d t)"
  by (simp add: client_key_def)

text \<open>The two loops: each iteration uses up some of the data.\<close>

function server_keys :: "string \<Rightarrow> term_session \<Rightarrow> term_session" where
  "server_keys d t = (if d = [] then t else server_keys (drop (fst (server_key d t)) d) (snd (server_key d t)))"
  by pat_completeness auto
termination by (relation "measure (length \<circ> fst)") (auto simp: server_key_uses)

function client_keys :: "string \<Rightarrow> term_session \<Rightarrow> term_session" where
  "client_keys d t = (if d = [] then t else client_keys (drop (fst (client_key d t)) d) (snd (client_key d t)))"
  by pat_completeness auto
termination by (relation "measure (length \<circ> fst)") (auto simp: client_key_uses)

declare server_keys.simps [simp del] client_keys.simps [simp del]

subsection \<open>A packet\<close>

definition term_echo :: "string \<Rightarrow> term_session \<Rightarrow> term_session" where
  "term_echo d t =
     (let t1 = (if tabPress t
                then (if take 1 d \<noteq> [CHR 0x0D] \<and> d \<noteq> [CHR 0x07] then t\<lparr>t_command := t_command t @ d\<rparr> else t)
                       \<lparr>tabPress := False\<rparr>
                else t)
      in if upArrow t1 then (client_keys d t1)\<lparr>upArrow := False\<rparr> else t1)"

type_synonym ('t, 'a) recorded = "('t \<times> tty_dir, 'a) sres"

definition record_data :: "int \<Rightarrow> string \<Rightarrow> rat \<Rightarrow> term_session \<Rightarrow> tty_dir \<Rightarrow> (term_session, unit) recorded" where
  "record_data direction data now t d =
     (if ttylogEnabled t then
        (case tty_write (ttylogFile t) direction now data d of
           (d1, r) \<Rightarrow> ((t\<lparr>ttylogSize := ttylogSize t + int (length data)\<rparr>, d1), r))
      else ((t, d), Inr ()))"

definition term_parse_packet :: "side \<Rightarrow> string \<Rightarrow> rat \<Rightarrow> term_session \<Rightarrow> tty_dir \<Rightarrow> (term_session, unit) recorded" where
  "term_parse_packet parent data now t d =
     (case parent of
        SERVER \<Rightarrow> record_data TYPE_OUTPUT data now (server_keys data t) d
      | CLIENT \<Rightarrow> record_data TYPE_INPUT data now (term_echo data t) d)"

text \<open>Opening the session and closing it. The result of closing is the hash, and if it was a duplicate.\<close>

definition term_open :: "bool \<Rightarrow> string \<Rightarrow> rat \<Rightarrow> tty_dir \<Rightarrow> (term_session, unit) recorded" where
  "term_open enabled file now d =
     (let t = \<lparr>t_command = [], t_pointer = 0, tabPress = False, upArrow = False, ttylogEnabled = enabled,
               ttylogFile = file, ttylogSize = 0, t_log = []\<rparr>
      in if enabled then (case tty_open file now d of (d1, r) \<Rightarrow> ((t, d1), r)) else ((t, d), Inr ()))"

definition term_channel_closed ::
  "(string \<Rightarrow> string) \<Rightarrow> string \<Rightarrow> rat \<Rightarrow> term_session \<Rightarrow> tty_dir \<Rightarrow> (term_session, (string \<times> bool) option) recorded" where
  "term_channel_closed sha path now t d =
     (if ttylogEnabled t
      then (case close_recording sha path (ttylogFile t) now d of
              (d1, Inl e) \<Rightarrow> ((t, d1), Inl e) | (d1, Inr x) \<Rightarrow> ((t, d1), Inr (Some x)))
      else ((t, d), Inr None))"

subsection \<open>Exec sessions\<close>

record exec_session =
  x_enabled :: bool
  x_file :: string
  x_size :: int
  x_log :: "command_event list"

definition exec_open :: "bool \<Rightarrow> string \<Rightarrow> string \<Rightarrow> rat \<Rightarrow> tty_dir \<Rightarrow> (exec_session, unit) recorded" where
  "exec_open enabled file command now d =
     (let x = \<lparr>x_enabled = enabled, x_file = file, x_size = 0, x_log = [command_event command]\<rparr>
      in if enabled then (case tty_open file now d of (d1, r) \<Rightarrow> ((x, d1), r)) else ((x, d), Inr ()))"

text \<open>Whatever comes from whichever side is recorded as output.\<close>

definition exec_parse_packet :: "side \<Rightarrow> string \<Rightarrow> rat \<Rightarrow> exec_session \<Rightarrow> tty_dir \<Rightarrow> (exec_session, unit) recorded" where
  "exec_parse_packet parent data now x d =
     (if x_enabled x then
        (case tty_write (x_file x) TYPE_OUTPUT now data d of
           (d1, Inl e) \<Rightarrow> ((x, d1), Inl e)
         | (d1, Inr u) \<Rightarrow> ((x\<lparr>x_size := x_size x + int (length data)\<rparr>, d1), Inr u))
      else ((x, d), Inr ()))"

definition exec_channel_closed ::
  "(string \<Rightarrow> string) \<Rightarrow> string \<Rightarrow> rat \<Rightarrow> exec_session \<Rightarrow> tty_dir \<Rightarrow> (exec_session, (string \<times> bool) option) recorded" where
  "exec_channel_closed sha path now x d =
     (if x_enabled x
      then (case close_recording sha path (x_file x) now d of
              (d1, Inl e) \<Rightarrow> ((x, d1), Inl e) | (d1, Inr y) \<Rightarrow> ((x, d1), Inr (Some y)))
      else ((x, d), Inr None))"

end
