(* ===== verification/Ssh_Term_Props.thy ===== *)
theory Ssh_Term_Props
  imports Ssh_Term
begin

section \<open>Terminal sessions: editing, completion and recordings\<close>

text \<open>
  The command line of \<open>Ssh_Term\<close> refines an editor with the text on both sides of the cursor, as
  long as no data of the backend interferes; a completion does. Recordings of the proxy are named by
  what the backend printed, and those of exec sessions all by the same name.
\<close>

subsection \<open>The editor as a specification\<close>

datatype key = Typed char | Backspace | Enter | Ctrl_C | Home | End_key | Left | Right | Up | Down

fun key_bytes :: "key \<Rightarrow> string" where
  "key_bytes (Typed c) = [c]"
| "key_bytes Backspace = [CHR 0x7F]"
| "key_bytes Enter = [CHR 0x0D]"
| "key_bytes Ctrl_C = [CHR 0x03]"
| "key_bytes Home = esc ''OH''"
| "key_bytes End_key = esc ''OF''"
| "key_bytes Left = esc ''[D''"
| "key_bytes Right = esc ''[C''"
| "key_bytes Up = esc ''[A''"
| "key_bytes Down = esc ''[B''"

definition control_chars :: "char set" where
  "control_chars = {CHR 0x09, CHR 0x7F, CHR 0x08, CHR 0x0D, CHR 0x03, CHR 0x0A, CHR 0x1B}"

fun key_ok :: "key \<Rightarrow> bool" where
  "key_ok (Typed c) = (c \<notin> control_chars)"
| "key_ok _ = True"

text \<open>The text before the cursor, backwards, the text behind it, and the commands entered.\<close>

type_synonym editor = "string \<times> string \<times> command_event list"

definition entered :: "string \<Rightarrow> command_event list" where
  "entered c = (if c = [] then [] else [command_event c])"

fun edit :: "key \<Rightarrow> editor \<Rightarrow> editor" where
  "edit (Typed c) (l, r, w) = (c # l, r, w)"
| "edit Backspace (l, r, w) = (tl l, r, w)"
| "edit Enter (l, r, w) = ([], [], w @ entered (rev l @ r))"
| "edit Ctrl_C (l, r, w) = ([], [], w @ entered (rev l @ r @ ''^C''))"
| "edit Home (l, r, w) = ([], rev l @ r, w)"
| "edit End_key (l, r, w) = (rev r @ l, [], w)"
| "edit Left (l, r, w) = (case l of [] \<Rightarrow> (l, r, w) | c # l' \<Rightarrow> (l', c # r, w))"
| "edit Right (l, r, w) = (case r of [] \<Rightarrow> (l, r, w) | c # r' \<Rightarrow> (c # l, r', w))"
| "edit Up z = z"
| "edit Down z = z"

fun shows_line :: "editor \<Rightarrow> term_session \<Rightarrow> bool" where
  "shows_line (l, r, w) t \<longleftrightarrow> t_command t = rev l @ r \<and> t_pointer t = int (length l) \<and> t_log t = w"

lemma insert_shows: "shows_line (l, r, w) t \<Longrightarrow> shows_line (c # l, r, w) (term_insert [c] t)"
  by (simp add: term_insert_def)

lemma backspace_shows: "shows_line (l, r, w) t \<Longrightarrow> shows_line (tl l, r, w) (term_backspace t)"
  by (cases l) (simp_all add: term_backspace_def py_take_def py_drop_def nat_add_distrib)

lemma server_key_step:
  assumes "key_ok k" "shows_line z t"
  shows "\<exists>t'. server_key (key_bytes k @ rest) t = (length (key_bytes k), t') \<and> shows_line (edit k z) t'"
proof -
  obtain l r w where z: "z = (l, r, w)" by (cases z)
  show ?thesis
  proof (cases k)
    case (Typed c)
    then show ?thesis using assms insert_shows [of l r w t c]
      by (auto simp: z server_key_def control_chars_def)
  next
    case Backspace
    then show ?thesis using assms backspace_shows [of l r w t] by (auto simp: z server_key_def)
  next
    case Left
    then show ?thesis using assms by (cases l) (auto simp: z server_key_def)
  next
    case Right
    then show ?thesis using assms by (cases r) (auto simp: z server_key_def)
  qed (use assms in \<open>auto simp: z server_key_def term_enter_def entered_def Let_def\<close>)
qed

text \<open>C11: What the proxy takes for the command line is what an editor with a cursor makes of the keys: for
  any keys without Tab the logged commands, the line and the position of the cursor are the editor's.\<close>

theorem term_editing_refines_editor:
  assumes "list_all key_ok keys" "shows_line z t"
  shows "shows_line (fold edit keys z) (server_keys (concat (map key_bytes keys)) t)"
  using assms
proof (induction keys arbitrary: z t)
  case Nil
  then show ?case by (simp add: server_keys.simps)
next
  case (Cons k keys)
  obtain t' where t': "server_key (key_bytes k @ concat (map key_bytes keys)) t = (length (key_bytes k), t')"
    "shows_line (edit k z) t'"
    using server_key_step [of k z t "concat (map key_bytes keys)"] Cons.prems by auto
  have "key_bytes k \<noteq> []" by (cases k) simp_all
  then have "server_keys (key_bytes k @ concat (map key_bytes keys)) t
      = server_keys (concat (map key_bytes keys)) t'"
    by (simp add: server_keys.simps [of "key_bytes k @ concat (map key_bytes keys)"] t'(1))
  then show ?case using Cons.IH [OF _ t'(2)] Cons.prems(1) by simp
qed

subsection \<open>Completion\<close>

lemma server_keys_typed:
  assumes "set s \<inter> control_chars = {}" "0 \<le> t_pointer t" "t_pointer t \<le> int (length (t_command t))"
  shows "server_keys (s @ rest) t = server_keys rest
    (t\<lparr>t_command := py_take (t_pointer t) (t_command t) @ s @ py_drop (t_pointer t) (t_command t),
       t_pointer := t_pointer t + int (length s)\<rparr>)"
  using assms
proof (induction s arbitrary: t)
  case Nil
  then show ?case by simp
next
  case (Cons c s)
  then have c: "c \<notin> control_chars" by simp
  have k: "server_key (c # s @ rest) t = (1, term_insert [c] t)"
    using c by (auto simp: server_key_def control_chars_def)
  have p: "t_pointer (term_insert [c] t) = t_pointer t + 1"
    "t_command (term_insert [c] t) = py_take (t_pointer t) (t_command t) @ c # py_drop (t_pointer t) (t_command t)"
    by (simp_all add: term_insert_def)
  obtain n where n: "t_pointer t = int n" "n \<le> length (t_command t)" using Cons.prems(2,3)
    by (metis nonneg_int_cases of_nat_le_iff)
  have "server_keys (c # s @ rest) t = server_keys (s @ rest) (term_insert [c] t)"
    by (simp add: server_keys.simps [of "c # s @ rest"] k)
  also have "\<dots> = server_keys rest ((term_insert [c] t)
     \<lparr>t_command := py_take (int n + 1) (t_command (term_insert [c] t)) @ s
        @ py_drop (int n + 1) (t_command (term_insert [c] t)),
      t_pointer := int n + 1 + int (length s)\<rparr>)"
    using Cons.IH [of "term_insert [c] t"] Cons.prems(1) n p(1) by (simp add: term_insert_def)
  also have "(term_insert [c] t)
     \<lparr>t_command := py_take (int n + 1) (t_command (term_insert [c] t)) @ s
        @ py_drop (int n + 1) (t_command (term_insert [c] t)),
      t_pointer := int n + 1 + int (length s)\<rparr>
    = t\<lparr>t_command := py_take (t_pointer t) (t_command t) @ (c # s) @ py_drop (t_pointer t) (t_command t),
        t_pointer := t_pointer t + int (length (c # s))\<rparr>"
    using n by (simp add: term_insert_def py_take_def py_drop_def nat_add_distrib)
  finally show ?case by simp
qed

text \<open>After a completion the commands that are logged are wrong: the text the backend completes is put
  at the end of the line, but the cursor stays where Tab was pressed, so what is typed next goes in front
  of the completion.\<close>

theorem term_completion_misplaced:
  assumes "shows_line (rev c, [], w) t" "tabPress t = False" "upArrow t = False"
    "set x \<inter> control_chars = {}" "r \<noteq> []" "hd r \<noteq> CHR 0x0D" "r \<noteq> [CHR 0x07]"
  shows "t_log (server_keys (x @ [CHR 0x0D]) (term_echo r (server_keys [CHR 0x09] t)))
    = w @ [command_event (c @ x @ r)]"
proof -
  have t: "t_command t = c" "t_pointer t = int (length c)" "t_log t = w" using assms(1) by simp_all
  have tab: "server_keys [CHR 0x09] t = t\<lparr>tabPress := True\<rparr>"
    by (simp add: server_keys.simps [of "[CHR 0x09]"] server_keys.simps [of "[]"] server_key_def)
  have "take 1 r \<noteq> [CHR 0x0D]" using assms(5,6) by (cases r) auto
  then have echo: "term_echo r (t\<lparr>tabPress := True\<rparr>) = t\<lparr>t_command := c @ r, tabPress := False\<rparr>"
    using assms(3,7) t(1) by (simp add: term_echo_def)
  have "server_keys (x @ [CHR 0x0D]) (t\<lparr>t_command := c @ r, tabPress := False\<rparr>)
    = server_keys [CHR 0x0D] (t\<lparr>tabPress := False, t_command := c @ x @ r,
        t_pointer := int (length c) + int (length x)\<rparr>)"
    by (subst server_keys_typed [OF assms(4)]) (simp_all add: t(2))
  also have "t_log \<dots> = w @ [command_event (c @ x @ r)]"
    using assms(5) t(3)
    by (simp add: server_keys.simps [of "[CHR 0x0D]"] server_keys.simps [of "[]"] server_key_def term_enter_def Let_def)
  finally show ?thesis by (simp add: tab echo)
qed


subsection \<open>Recordings\<close>

text \<open>A packet as the channel delivers it: side, data and time.\<close>

fun term_run :: "(side \<times> string \<times> rat) list \<Rightarrow> term_session \<Rightarrow> tty_dir \<Rightarrow> (term_session, unit) recorded" where
  "term_run [] t d = ((t, d), Inr ())"
| "term_run ((p, data, now) # ps) t d =
     sbind (term_parse_packet p data now t d) (\<lambda>(t1, d1) _. term_run ps t1 d1)"

fun exec_run :: "(side \<times> string \<times> rat) list \<Rightarrow> exec_session \<Rightarrow> tty_dir \<Rightarrow> (exec_session, unit) recorded" where
  "exec_run [] x d = ((x, d), Inr ())"
| "exec_run ((p, data, now) # ps) x d =
     sbind (exec_parse_packet p data now x d) (\<lambda>(x1, d1) _. exec_run ps x1 d1)"

fun backend_data :: "(side \<times> string \<times> rat) list \<Rightarrow> string" where
  "backend_data [] = []"
| "backend_data ((p, data, _) # ps) = (if p = CLIENT then data else []) @ backend_data ps"

lemma server_keys_file:
  "ttylogEnabled (server_keys d t) = ttylogEnabled t \<and> ttylogFile (server_keys d t) = ttylogFile t"
proof (induction d t rule: server_keys.induct)
  case (1 d t)
  have "ttylogEnabled (snd (server_key d t)) = ttylogEnabled t \<and> ttylogFile (snd (server_key d t)) = ttylogFile t"
    by (simp add: server_key_def term_backspace_def term_enter_def term_insert_def Let_def)
  with 1 show ?case by (simp add: server_keys.simps [of d t])
qed

lemma client_keys_file:
  "ttylogEnabled (client_keys d t) = ttylogEnabled t \<and> ttylogFile (client_keys d t) = ttylogFile t"
proof (induction d t rule: client_keys.induct)
  case (1 d t)
  have "ttylogEnabled (snd (client_key d t)) = ttylogEnabled t \<and> ttylogFile (snd (client_key d t)) = ttylogFile t"
    by (simp add: client_key_def term_insert_def)
  with 1 show ?case by (simp add: client_keys.simps [of d t])
qed

lemma term_echo_file:
  "ttylogEnabled (term_echo d t) = ttylogEnabled t \<and> ttylogFile (term_echo d t) = ttylogFile t"
  by (simp add: term_echo_def Let_def client_keys_file)

text \<open>What the session recorded, with the backend's output as the input of the recording.\<close>

fun term_events :: "(side \<times> string \<times> rat) list \<Rightarrow> tty_event list" where
  "term_events [] = []"
| "term_events ((p, data, now) # ps) =
     Tty_write (if p = SERVER then TYPE_OUTPUT else TYPE_INPUT) now data # term_events ps"

lemma typed_bytes_append: "typed_bytes (es @ es') = typed_bytes es @ typed_bytes es'"
  by (induction es rule: typed_bytes.induct) simp_all

lemma typed_bytes_term: "typed_bytes (term_events ps) = backend_data ps"
  by (induction ps rule: backend_data.induct) (auto simp: tty_consts, metis side.exhaust)

lemma term_packet_records:
  assumes "records d (ttylogFile t) es" "ttylogEnabled t"
    "term_parse_packet p data now t d = ((t', d'), Inr ())"
  shows "records d' (ttylogFile t) (es @ [Tty_write (if p = SERVER then TYPE_OUTPUT else TYPE_INPUT) now data])
    \<and> ttylogFile t' = ttylogFile t \<and> ttylogEnabled t'"
  using assms tty_event_records [OF assms(1)]
  by (cases p) (fastforce simp: term_parse_packet_def record_data_def server_keys_file term_echo_file tty_event_simps
      split: prod.splits)+

lemma term_run_records:
  "records d (ttylogFile t) es \<Longrightarrow> ttylogEnabled t \<Longrightarrow> term_run ps t d = ((t', d'), Inr ())
   \<Longrightarrow> records d' (ttylogFile t) (es @ term_events ps) \<and> ttylogFile t' = ttylogFile t \<and> ttylogEnabled t'"
proof (induction ps arbitrary: t d es)
  case (Cons q ps)
  obtain p data now where q: "q = (p, data, now)" by (cases q)
  obtain t1 d1 where m: "term_parse_packet p data now t d = ((t1, d1), Inr ())" "term_run ps t1 d1 = ((t', d'), Inr ())"
    using Cons.prems(3) unfolding q
    by (cases "term_parse_packet p data now t d"; cases "snd (term_parse_packet p data now t d)") auto
  from term_packet_records [OF Cons.prems(1,2) m(1)]
  have r: "records d1 (ttylogFile t1) (es @ [Tty_write (if p = SERVER then TYPE_OUTPUT else TYPE_INPUT) now data])"
    "ttylogEnabled t1" "ttylogFile t1 = ttylogFile t" by simp_all
  from Cons.IH [OF r(1,2) m(2)] r(3) show ?case by (simp only: q term_events.simps append.simps append_assoc)
qed simp

text \<open>The name of a proxied session's recording depends on what the backend printed and not on what
  the attacker typed: the two directions are recorded the wrong way round.\<close>

theorem term_recording_named_by_output:
  assumes "term_open True file now d = ((t, d1), Inr ())" "d file = None"
    "term_run ps t d1 = ((t2, d2), Inr ())"
    "term_channel_closed sha path later t2 d2 = ((t3, d3), Inr (Some (h, dup)))"
  shows "h = sha (backend_data ps)"
proof -
  have o: "tty_event file (Tty_open now) d = (d1, Inr ())" "ttylogFile t = file" "ttylogEnabled t"
    using assms(1) by (auto simp: term_open_def tty_event_simps split: prod.splits)
  have "records d1 (ttylogFile t) [Tty_open now]" using tty_open_records [OF assms(2) o(1)] o(2) by simp
  from term_run_records [OF this o(3) assms(3)]
  have r: "records d2 file (Tty_open now # term_events ps)" "ttylogFile t2 = file" "ttylogEnabled t2"
    using o(2) by simp_all
  then have "close_recording sha path file later d2 = (d3, Inr (h, dup))"
    using assms(4) by (auto simp: term_channel_closed_def split: prod.splits sum.splits)
  from close_recording_records [OF r(1) this] show ?thesis by (simp add: typed_bytes_term)
qed

lemma exec_run_records:
  "records d (x_file x) es \<Longrightarrow> x_enabled x \<Longrightarrow> typed_bytes es = [] \<Longrightarrow> exec_run ps x d = ((x', d'), Inr ())
   \<Longrightarrow> (\<exists>es'. records d' (x_file x) es' \<and> typed_bytes es' = []) \<and> x_file x' = x_file x \<and> x_enabled x'
     \<and> (\<forall>n. n \<noteq> x_file x \<longrightarrow> d' n = d n)"
proof (induction ps arbitrary: x d es)
  case (Cons q ps)
  obtain p data now where q: "q = (p, data, now)" by (cases q)
  obtain x1 d1 where m: "exec_parse_packet p data now x d = ((x1, d1), Inr ())" "exec_run ps x1 d1 = ((x', d'), Inr ())"
    using Cons.prems(4) unfolding q
    by (cases "exec_parse_packet p data now x d"; cases "snd (exec_parse_packet p data now x d)") auto
  have w: "tty_event (x_file x) (Tty_write TYPE_OUTPUT now data) d = (d1, Inr ())"
    "x_file x1 = x_file x" "x_enabled x1"
    using m(1) Cons.prems(2) by (auto simp: exec_parse_packet_def tty_event_simps split: prod.splits sum.splits)
  note r = tty_event_records [OF Cons.prems(1) w(1)]
  have "typed_bytes (es @ [Tty_write TYPE_OUTPUT now data]) = []"
    using Cons.prems(3) by (simp add: typed_bytes_append)
  from Cons.IH [OF _ w(3) this m(2)] r w(2) show ?case by auto
qed auto

lemma exec_session_closed:
  assumes "exec_open True file cmd now d = ((x, d1), Inr ())" "d file = None"
    "exec_run ps x d1 = ((x2, d2), Inr ())"
    "exec_channel_closed sha path later x2 d2 = ((x3, d3), Inr (Some (h, dup)))"
  shows "h = sha [] \<and> (d (join_path path h) \<noteq> None \<longrightarrow> dup \<and> d3 = d)"
proof -
  have o: "tty_event file (Tty_open now) d = (d1, Inr ())" "x_file x = file" "x_enabled x"
    using assms(1) by (auto simp: exec_open_def tty_event_simps split: prod.splits)
  have r1: "records d1 (x_file x) [Tty_open now]" "\<forall>n. n \<noteq> file \<longrightarrow> d1 n = d n"
    using tty_open_records [OF assms(2) o(1)] o(2) by simp_all
  from exec_run_records [OF r1(1) o(3) _ assms(3)] obtain es' where
    es: "records d2 file es'" "typed_bytes es' = []" and x: "x_file x2 = file" "x_enabled x2"
    and same: "\<forall>n. n \<noteq> file \<longrightarrow> d2 n = d1 n" using o(2) by auto
  have "close_recording sha path file later d2 = (d3, Inr (h, dup))"
    using assms(4) x by (auto simp: exec_channel_closed_def split: prod.splits sum.splits)
  note c = close_recording_records [OF es(1) this]
  have "d3 = d" if "d (join_path path h) \<noteq> None"
  proof -
    have "d2 (join_path path h) \<noteq> None" using that same r1(2) assms(2) by (cases "join_path path h = file") auto
    with c have "d3 = d2(file := None)" by blast
    with same r1(2) assms(2) show "d3 = d" by (auto simp: fun_eq_iff)
  qed
  moreover have "dup" if "d (join_path path h) \<noteq> None"
    using c that same r1(2) assms(2) by (cases "join_path path h = file") auto
  ultimately show ?thesis using c es(2) by simp
qed

text \<open>Of all exec sessions only the first recording is kept: each of them has the name of an empty
  input, so a later one is taken for a duplicate and removed, whatever was run and printed in it.\<close>

theorem exec_recording_lost:
  assumes "exec_open True file cmd now d = ((x, d1), Inr ())" "d file = None"
    "exec_run ps x d1 = ((x2, d2), Inr ())"
    "exec_channel_closed sha path later x2 d2 = ((x3, d3), Inr (Some (h, dup)))"
    "d (join_path path (sha [])) \<noteq> None"
  shows "dup \<and> d3 = d"
  using exec_session_closed [OF assms(1-4)] assms(5) by auto


subsection \<open>The properties at concrete sessions\<close>

definition plain_term :: "string \<Rightarrow> term_session" where
  "plain_term c = \<lparr>t_command = c, t_pointer = int (length c), tabPress = False, upArrow = False,
     ttylogEnabled = False, ttylogFile = ''f'', ttylogSize = 0, t_log = []\<rparr>"

theorem term_editing_refines_editor_witness:
  "t_log (server_keys (''lz'' @ key_bytes Backspace @ ''s'' @ key_bytes Home @ ''x'' @ key_bytes Enter) (plain_term []))
    = [Command_input ''xls'']"
proof -
  let ?keys = "[Typed (CHR ''l''), Typed (CHR ''z''), Backspace, Typed (CHR ''s''), Home, Typed (CHR ''x''), Enter]"
  have "shows_line (fold edit ?keys ([], [], [])) (server_keys (concat (map key_bytes ?keys)) (plain_term []))"
    by (rule term_editing_refines_editor) (simp_all add: plain_term_def control_chars_def)
  moreover have "py_decode ''xls'' = Inr ''xls''" by (simp add: py_decode_ascii is_ascii_def)
  ultimately show ?thesis by (simp add: entered_def command_event_def)
qed

theorem term_completion_misplaced_witness:
  "t_log (server_keys (''x'' @ [CHR 0x0D]) (term_echo ''ho '' (server_keys [CHR 0x09] (plain_term ''ec''))))
    = [command_event ''ecxho '']"
  using term_completion_misplaced [of "''ec''" "[]" "plain_term ''ec''" "''x''" "''ho ''"]
  by (simp add: plain_term_def control_chars_def)

definition sample_packets :: "(side \<times> string \<times> rat) list" where
  "sample_packets = [(SERVER, ''id'', 1), (CLIENT, ''root'', 2)]"

lemma pack_ok: "0 \<le> n \<Longrightarrow> n < 2 ^ 31 \<Longrightarrow> is_ok (pack_i n)" "0 \<le> n \<Longrightarrow> n < 2 ^ 32 \<Longrightarrow> is_ok (pack_L n)"
  by (simp_all add: pack_i_def pack_L_def)

lemma is_ok_rbind: "is_ok m \<Longrightarrow> (\<And>x. is_ok (f x)) \<Longrightarrow> is_ok (rbind m f)"
  by (cases m) simp_all

lemma stamp_ok:
  assumes "0 \<le> op" "op < 2 ^ 31" "0 \<le> len" "len < 2 ^ 31" "0 \<le> dir" "dir < 2 ^ 31" "0 \<le> now" "now < 2 ^ 32"
  shows "is_ok (pack_header (stamp_header op len dir now))"
proof -
  have sec: "py_int now = \<lfloor>now\<rfloor>" "0 \<le> py_int now" "py_int now < 2 ^ 32"
    using assms(7,8) by (simp_all add: py_int_def floor_less_iff)
  have fr: "0 \<le> now - of_int \<lfloor>now\<rfloor>" "now - of_int \<lfloor>now\<rfloor> < 1" by linarith+
  then have "0 \<le> 1000000 * (now - of_int \<lfloor>now\<rfloor>)" "1000000 * (now - of_int \<lfloor>now\<rfloor>) < 2 ^ 32" by simp_all
  then have usec: "0 \<le> py_int (1000000 * (now - of_int (py_int now)))"
    "py_int (1000000 * (now - of_int (py_int now))) < 2 ^ 32"
    unfolding sec(1) by (simp_all add: py_int_def floor_less_iff)
  show ?thesis unfolding pack_header_def stamp_header_def tty_header.simps
    by (intro is_ok_rbind pack_ok assms sec(2,3) usec) simp_all
qed

lemma append_with_ok:
  assumes "\<And>c. is_ok (f c)"
  shows "\<exists>d'. append_with f name d = (d', Inr ())"
proof -
  have "is_ok (f (case d name of None \<Rightarrow> [] | Some c \<Rightarrow> c))" by (rule assms)
  then show ?thesis by (cases "f (case d name of None \<Rightarrow> [] | Some c \<Rightarrow> c)") (auto simp: append_with_def Let_def)
qed

lemma log_ok:
  assumes "0 \<le> now" "now < 2 ^ 32"
  shows "is_ok (ttylog_open now c)" "is_ok (ttylog_close now c)"
    "length data < 2 ^ 31 \<Longrightarrow> dir \<in> {1, 2} \<Longrightarrow> is_ok (ttylog_write (int (length data)) dir now data c)"
  using assms by (auto simp: ttylog_open_def ttylog_close_def ttylog_write_def tty_consts
      intro!: is_ok_rbind stamp_ok)

text \<open>Sessions whose stamps and lengths fit into the headers never raise.\<close>

lemma open_ok:
  assumes "0 \<le> now" "now < 2 ^ 32"
  shows "\<exists>t d'. term_open True name now d = ((t, d'), Inr ())" "\<exists>x d'. exec_open True name c now d = ((x, d'), Inr ())"
  using append_with_ok [of "ttylog_open now" name d] log_ok(1) [OF assms]
  by (auto simp: term_open_def exec_open_def tty_open_def)

lemma packet_ok:
  assumes "0 \<le> now" "now < 2 ^ 32" "length data < 2 ^ 31"
  shows "\<exists>t' d'. term_parse_packet p data now t d = ((t', d'), Inr ())"
    "\<exists>x' d'. exec_parse_packet p data now x d = ((x', d'), Inr ())"
proof -
  have w: "\<exists>d'. tty_write name dir now data d = (d', Inr ())" if "dir \<in> {1, 2}" for name dir
    unfolding tty_write_def by (rule append_with_ok) (rule log_ok(3) [OF assms(1,2,3) that])
  have i: "\<exists>d'. tty_write name 1 now data d = (d', Inr ())" and o: "\<exists>d'. tty_write name 2 now data d = (d', Inr ())"
    for name by (rule w; simp)+
  show "\<exists>t' d'. term_parse_packet p data now t d = ((t', d'), Inr ())"
    using i [of "ttylogFile (term_echo data t)"] o [of "ttylogFile (server_keys data t)"]
    by (cases p) (auto simp: term_parse_packet_def record_data_def tty_consts)
  show "\<exists>x' d'. exec_parse_packet p data now x d = ((x', d'), Inr ())"
    using o [of "x_file x"] by (auto simp: exec_parse_packet_def tty_consts)
qed

lemma close_ok:
  assumes "0 \<le> now" "now < 2 ^ 32"
  shows "\<exists>d' h dup. close_recording sha path name now d = (d', Inr (h, dup))"
  using append_with_ok [of "ttylog_close now" name d] log_ok(2) [OF assms]
  by (auto simp: close_recording_def Let_def)

theorem term_recording_named_by_output_witness:
  "\<exists>t d1 t2 d2 t3 d3 dup. term_open True ''f'' 0 Map.empty = ((t, d1), Inr ())
     \<and> term_run [(SERVER, ''id'', 1), (CLIENT, ''root'', 2)] t d1 = ((t2, d2), Inr ())
     \<and> term_channel_closed rev ''log'' 3 t2 d2 = ((t3, d3), Inr (Some (rev ''root'', dup)))"
proof -
  let ?ps = "[(SERVER, ''id'', 1), (CLIENT, ''root'', 2)] :: (side \<times> string \<times> rat) list"
  obtain t d1 where o: "term_open True ''f'' 0 Map.empty = ((t, d1), Inr ())" using open_ok(1) [of 0] by force
  obtain t1 e1 where p1: "term_parse_packet SERVER ''id'' 1 t d1 = ((t1, e1), Inr ())" using packet_ok(1) [of 1] by force
  obtain t2 d2 where p2: "term_parse_packet CLIENT ''root'' 2 t1 e1 = ((t2, d2), Inr ())" using packet_ok(1) [of 2] by force
  have r: "term_run ?ps t d1 = ((t2, d2), Inr ())" by (simp add: p1 p2)
  have "ttylogEnabled t" using o by (auto simp: term_open_def split: prod.splits)
  then have "ttylogEnabled t2" using p1 p2
    by (auto simp: term_parse_packet_def record_data_def server_keys_file term_echo_file split: prod.splits)
  moreover obtain d3 h dup where c: "close_recording rev ''log'' (ttylogFile t2) 3 d2 = (d3, Inr (h, dup))"
    using close_ok [of 3 rev "''log''" "ttylogFile t2" d2] by force
  ultimately have c: "term_channel_closed rev ''log'' 3 t2 d2 = ((t2, d3), Inr (Some (h, dup)))"
    by (simp add: term_channel_closed_def)
  have "h = rev (backend_data ?ps)" by (rule term_recording_named_by_output [OF o _ r c]) simp
  then have "h = rev ''root''" by simp
  with o r c show ?thesis by blast
qed

theorem exec_recording_lost_witness:
  "\<exists>x d1 x2 d2 x3 h. exec_open True ''f'' ''id'' 0 [''log/'' \<mapsto> ''first''] = ((x, d1), Inr ())
     \<and> exec_run [(CLIENT, ''root'', 1)] x d1 = ((x2, d2), Inr ())
     \<and> exec_channel_closed rev ''log'' 3 x2 d2 = ((x3, [''log/'' \<mapsto> ''first'']), Inr (Some (h, True)))"
proof -
  let ?d = "[''log/'' \<mapsto> ''first'']"
  obtain x d1 where o: "exec_open True ''f'' ''id'' 0 ?d = ((x, d1), Inr ())" using open_ok(2) [of 0] by force
  obtain x2 d2 where p1: "exec_parse_packet CLIENT ''root'' 1 x d1 = ((x2, d2), Inr ())" using packet_ok(2) [of 1] by force
  have r: "exec_run [(CLIENT, ''root'', 1)] x d1 = ((x2, d2), Inr ())" by (simp add: p1)
  have "x_enabled x" using o by (auto simp: exec_open_def split: prod.splits)
  then have "x_enabled x2" using p1 by (auto simp: exec_parse_packet_def split: prod.splits sum.splits)
  moreover obtain d3 h dup where "close_recording rev ''log'' (x_file x2) 3 d2 = (d3, Inr (h, dup))"
    using close_ok [of 3 rev "''log''" "x_file x2" d2] by force
  ultimately have c: "exec_channel_closed rev ''log'' 3 x2 d2 = ((x2, d3), Inr (Some (h, dup)))"
    by (simp add: exec_channel_closed_def)
  have "dup \<and> d3 = ?d"
    by (rule exec_recording_lost [OF o _ r c]) (simp_all add: join_path_def)
  then have e: "dup = True" "d3 = ?d" by simp_all
  show ?thesis using o r c unfolding e by blast
qed

end
