(* ===== verification/Ssh_Proxy.thy ===== *)
theory Ssh_Proxy
  imports Ssh_Term
begin

section \<open>The SSH message dispatcher of the proxy\<close>

text \<open>
  Model of \<open>ssh_proxy/protocols/ssh.py\<close>: messages of both sides are inspected, channels and the
  sessions on them are followed, and a message is passed on unless it belongs to the authentication
  or to something that is switched off. A message of the side \<open>SERVER\<close> came from the attacker and goes
  to the backend (\<open>to_backend\<close>), one of \<open>CLIENT\<close> the other way. A channel is a dictionary whose
  identifiers are there or not (\<open>None\<close>); asking for one that is not there raises KeyError. Channels
  carry other handlers: the composition with \<open>Ssh_Sftp\<close> and \<open>Ssh_Term\<close> is here. The configuration,
  the clock and the names made of it are in \<open>proxy_env\<close>; the names of the message numbers belong to
  Twisted, and \<open>known_message\<close> says which numbers have one.
\<close>

subsection \<open>State\<close>

datatype chan_session =
    Port_forward
  | Term_session term_session
  | Exec_session exec_session
  | Sftp_session sftp

record channel =
  serverID :: "nat option"
  clientID :: "nat option"
  chan_type :: string
  chan_name :: string
  chan_session :: "chan_session option"
  server_closed :: bool
  client_closed :: bool

record proxy_env =
  forwarding :: bool
  sftp_enabled :: bool
  log_raw :: bool
  tty_enabled :: bool
  tty_path :: string
  known_message :: "nat \<Rightarrow> bool"
  sha256 :: "string \<Rightarrow> string"
  env_now :: rat
  env_stamp :: string
  the_uuid :: string
  env_transport :: string

record ssh = base_protocol +
  channels :: "channel list"
  username :: string
  password :: string
  auth_type :: string
  sendOn :: bool
  expect_password :: nat
  client_set :: bool
  to_backend :: "(nat \<times> string) list"
  to_frontend :: "(nat \<times> string) list"
  raw_log :: "(side \<times> nat \<times> string) list"
  recordings :: tty_dir
  uploads :: "string \<rightharpoonup> string"

definition ssh_init :: "tty_dir \<Rightarrow> (string \<rightharpoonup> string) \<Rightarrow> ssh" where
  "ssh_init d u =
     \<lparr>pdata = [], packetSize = 0, channels = [], username = [], password = [], auth_type = [], sendOn = False,
      expect_password = 0, client_set = False, to_backend = [], to_frontend = [], raw_log = [], recordings = d,
      uploads = u\<rparr>"

definition set_client :: "ssh \<Rightarrow> ssh" where
  "set_client s = s\<lparr>client_set := True\<rparr>"

subsection \<open>Sending\<close>

text \<open>\<open>self.server.sendPacket\<close> and \<open>self.client.sendPacket\<close>; there may be no client yet.\<close>

definition server_send :: "nat \<Rightarrow> string \<Rightarrow> ssh \<Rightarrow> (ssh, unit) sres" where
  "server_send num payload s = (s\<lparr>to_frontend := to_frontend s @ [(num, payload)]\<rparr>, Inr ())"

definition client_send :: "nat \<Rightarrow> string \<Rightarrow> ssh \<Rightarrow> (ssh, unit) sres" where
  "client_send num payload s =
     (if client_set s then (s\<lparr>to_backend := to_backend s @ [(num, payload)]\<rparr>, Inr ()) else (s, Inl AttributeError))"

definition pass_on :: "side \<Rightarrow> nat \<Rightarrow> string \<Rightarrow> ssh \<Rightarrow> (ssh, unit) sres" where
  "pass_on parent num payload s =
     (if \<not> sendOn s then (s, Inr ())
      else case parent of SERVER \<Rightarrow> client_send num payload s | CLIENT \<Rightarrow> server_send num payload s)"

definition send_back :: "proxy_env \<Rightarrow> side \<Rightarrow> nat \<Rightarrow> string \<Rightarrow> ssh \<Rightarrow> (ssh, unit) sres" where
  "send_back env parent num payload s =
     (case parent of
        SERVER \<Rightarrow> server_send num payload s
      | CLIENT \<Rightarrow> if known_message env num then client_send num payload s else (s, Inl KeyError))"

definition no_send :: "ssh \<Rightarrow> ssh" where
  "no_send s = s\<lparr>sendOn := False\<rparr>"

subsection \<open>Channels\<close>

definition create_channel :: "side \<Rightarrow> nat \<Rightarrow> string \<Rightarrow> ssh \<Rightarrow> ssh" where
  "create_channel parent i ty s =
     s\<lparr>channels := channels s @
       [\<lparr>serverID = (if parent = SERVER then Some i else None), clientID = (if parent = CLIENT then Some i else None),
         chan_type = ty, chan_name = [], chan_session = None, server_closed = False, client_closed = False\<rparr>]\<rparr>"

text \<open>The search compares the identifier of the other side; a channel in front that has none yet ends it
  with KeyError, and so does its end. The result is the index.\<close>

definition search_id :: "side \<Rightarrow> channel \<Rightarrow> nat option" where
  "search_id parent c = (if parent = CLIENT then serverID c else clientID c)"

fun find_channel :: "side \<Rightarrow> nat \<Rightarrow> channel list \<Rightarrow> nat res" where
  "find_channel parent n [] = Inl KeyError"
| "find_channel parent n (c # cs) =
     (case search_id parent c of
        None \<Rightarrow> Inl KeyError
      | Some i \<Rightarrow> if i = n then Inr 0 else rbind (find_channel parent n cs) (\<lambda>k. Inr (Suc k)))"

definition get_channel :: "nat \<Rightarrow> side \<Rightarrow> ssh \<Rightarrow> nat res" where
  "get_channel n parent s = find_channel parent n (channels s)"

definition with_channel :: "nat \<Rightarrow> side \<Rightarrow> ssh \<Rightarrow> (nat \<Rightarrow> (ssh, unit) sres) \<Rightarrow> (ssh, unit) sres" where
  "with_channel n parent s k = (case get_channel n parent s of Inl e \<Rightarrow> (s, Inl e) | Inr i \<Rightarrow> k i)"

definition update_channel :: "nat \<Rightarrow> (channel \<Rightarrow> channel) \<Rightarrow> ssh \<Rightarrow> ssh" where
  "update_channel k f s = s\<lparr>channels := (channels s)[k := f (channels s ! k)]\<rparr>"

definition remove_channel :: "nat \<Rightarrow> ssh \<Rightarrow> ssh" where
  "remove_channel k s = s\<lparr>channels := take k (channels s) @ drop (Suc k) (channels s)\<rparr>"

definition chan_id :: "nat option \<Rightarrow> nat res" where
  "chan_id i = (case i of None \<Rightarrow> Inl KeyError | Some n \<Rightarrow> Inr n)"

subsection \<open>Sessions on a channel\<close>

text \<open>The handlers share the two directories of the proxy: the recordings and the uploads.\<close>

type_synonym dirs = "tty_dir \<times> (string \<rightharpoonup> string)"

definition session_parse_packet ::
  "proxy_env \<Rightarrow> side \<Rightarrow> string \<Rightarrow> chan_session \<Rightarrow> dirs \<Rightarrow> (chan_session \<times> dirs, unit) sres" where
  "session_parse_packet env parent data c du =
     (let (d, u) = du in
      case c of
        Port_forward \<Rightarrow> ((c, du), Inr ())
      | Term_session t \<Rightarrow> (case term_parse_packet parent data (env_now env) t d of ((t1, d1), r) \<Rightarrow> ((Term_session t1, d1, u), r))
      | Exec_session x \<Rightarrow> (case exec_parse_packet parent data (env_now env) x d of ((x1, d1), r) \<Rightarrow> ((Exec_session x1, d1, u), r))
      | Sftp_session f \<Rightarrow> (case sftp_parse_packet (sha256 env) parent data (f\<lparr>downloads := u\<rparr>) of
            (f1, r) \<Rightarrow> ((Sftp_session f1, d, downloads f1), r)))"

definition session_closed ::
  "proxy_env \<Rightarrow> chan_session \<Rightarrow> tty_dir \<Rightarrow> (chan_session \<times> tty_dir, unit) sres" where
  "session_closed env c d =
     (case c of
        Port_forward \<Rightarrow> ((c, d), Inr ())
      | Term_session t \<Rightarrow> (case term_channel_closed (sha256 env) (tty_path env) (env_now env) t d of
            ((t1, d1), r) \<Rightarrow> ((Term_session t1, d1), rbind r (\<lambda>_. Inr ())))
      | Exec_session x \<Rightarrow> (case exec_channel_closed (sha256 env) (tty_path env) (env_now env) x d of
            ((x1, d1), r) \<Rightarrow> ((Exec_session x1, d1), rbind r (\<lambda>_. Inr ())))
      | Sftp_session f \<Rightarrow> ((c, d), Inr ()))"

text \<open>Data for a channel: there is an AttributeError when nothing has been started on it.\<close>

definition channel_data :: "proxy_env \<Rightarrow> side \<Rightarrow> nat \<Rightarrow> ssh \<Rightarrow> (ssh, unit) sres" where
  "channel_data env parent k s =
     (case chan_session (channels s ! k) of
        None \<Rightarrow> (s, Inl AttributeError)
      | Some c \<Rightarrow>
          (let (data, s1) = extract_string s in
           case session_parse_packet env parent data c (recordings s1, uploads s1) of
             ((c1, d1, u1), r) \<Rightarrow>
               ((update_channel k (\<lambda>ch. ch\<lparr>chan_session := Some c1\<rparr>) s1)\<lparr>recordings := d1, uploads := u1\<rparr>, r)))"

subsection \<open>Messages\<close>

text \<open>Authentication: nothing of it is passed on.\<close>

definition service_request :: "ssh \<Rightarrow> ssh" where
  "service_request s = (let (service, s1) = extract_string s in if service = ''ssh-userauth'' then no_send s1 else s1)"

definition ext_info :: "ssh \<Rightarrow> ssh" where
  "ext_info s =
     (let (n, s1) = extract_int 4 s
      in no_send (((\<lambda>r. snd (extract_string (snd (extract_string r)))) ^^ n) s1))"

definition no_password_hint :: "string" where
  "no_password_hint = field ''password'' @ [CHR 0x00]"

definition userauth_request :: "ssh \<Rightarrow> (ssh, unit) sres" where
  "userauth_request s =
     (let (u, s1) = extract_string (no_send s);
          s2 = snd (extract_string (s1\<lparr>username := u\<rparr>));
          (ty, s3) = extract_string s2;
          s4 = s3\<lparr>auth_type := ty\<rparr> in
      if ty = ''password'' then
        (let s5 = snd (extract_bool s4); (p, s6) = extract_string s5 in (s6\<lparr>password := p\<rparr>, Inr ()))
      else if ty = ''publickey'' then server_send 51 no_password_hint s4
      else (s4, Inr ()))"

fun info_prompts :: "nat \<Rightarrow> nat \<Rightarrow> ssh \<Rightarrow> ssh" where
  "info_prompts i 0 s = s"
| "info_prompts i (Suc n) s =
     (let (request, s1) = extract_string s; s2 = snd (extract_bool s1)
      in info_prompts (Suc i) n (if contains ''password'' (py_lower request) then s2\<lparr>expect_password := i\<rparr> else s2))"

definition info_request :: "ssh \<Rightarrow> ssh" where
  "info_request s =
     (let s1 = snd (extract_string (snd (extract_string (snd (extract_string
                 ((no_send s)\<lparr>auth_type := ''keyboard-interactive''\<rparr>))))));
          (n, s2) = extract_int 4 s1
      in info_prompts 0 n s2)"

fun info_responses :: "nat \<Rightarrow> nat \<Rightarrow> ssh \<Rightarrow> ssh" where
  "info_responses i 0 s = s"
| "info_responses i (Suc n) s =
     (let (response, s1) = extract_string s
      in info_responses (Suc i) n (if i = expect_password s1 then s1\<lparr>password := response\<rparr> else s1))"

definition info_response :: "ssh \<Rightarrow> ssh" where
  "info_response s = (let (n, s1) = extract_int 4 (no_send s) in info_responses 0 n s1)"

text \<open>Opening a channel.\<close>

definition other_side :: "side \<Rightarrow> side" where
  "other_side p = (case p of SERVER \<Rightarrow> CLIENT | CLIENT \<Rightarrow> SERVER)"

definition forward_name :: "side \<Rightarrow> nat \<Rightarrow> string" where
  "forward_name parent i = (if parent = SERVER then ''[LPRTF'' else ''[RPRTF'') @ digits_of_nat i @ '']''"

definition open_failed :: "nat \<Rightarrow> string" where
  "open_failed i = pack_be 4 i @ pack_be 4 1 @ field ''open failed'' @ pack_be 4 0"

definition channel_open :: "proxy_env \<Rightarrow> side \<Rightarrow> ssh \<Rightarrow> (ssh, unit) sres" where
  "channel_open env parent s =
     (let (ty, s1) = extract_string s; (i, s2) = extract_int 4 s1 in
      if ty = ''session'' then (create_channel parent i ty s2, Inr ())
      else if ty \<in> {''direct-tcpip'', ''forwarded-tcpip''} then
        (let s3 = snd (extract_int 4 (snd (extract_int 4 s2)));
             s4 = snd (extract_int 4 (snd (extract_string s3)));
             s5 = snd (extract_int 4 (snd (extract_string s4))) in
         if forwarding env then
           (let s6 = create_channel parent i ty s5 in
            with_channel i (other_side parent) s6 (\<lambda>k.
              (update_channel k (\<lambda>ch. ch\<lparr>chan_name := forward_name parent i, chan_session := Some Port_forward\<rparr>) s6, Inr ())))
         else send_back env parent 92 (open_failed i) (no_send s5))
      else (s2, Inr ()))"

definition open_confirmation :: "side \<Rightarrow> ssh \<Rightarrow> (ssh, unit) sres" where
  "open_confirmation parent s =
     (let (n, s1) = extract_int 4 s in
      with_channel n parent s1 (\<lambda>k.
        let (i, s2) = extract_int 4 s1
        in (update_channel k (\<lambda>ch. if parent = SERVER then ch\<lparr>serverID := Some i\<rparr> else ch\<lparr>clientID := Some i\<rparr>) s2, Inr ())))"

definition open_failure :: "side \<Rightarrow> ssh \<Rightarrow> (ssh, unit) sres" where
  "open_failure parent s =
     (let (n, s1) = extract_int 4 s in with_channel n parent s1 (\<lambda>k. (remove_channel k s1, Inr ())))"

text \<open>Requests on a channel: starting a terminal, a command or SFTP.\<close>

definition log_file :: "proxy_env \<Rightarrow> string \<Rightarrow> nat \<Rightarrow> string \<Rightarrow> string" where
  "log_file env middle i suffix =
     tty_path env @ ''/'' @ env_stamp env @ ''-'' @ middle @ ''-'' @ digits_of_nat i @ suffix"

definition start_shell :: "proxy_env \<Rightarrow> nat \<Rightarrow> ssh \<Rightarrow> (ssh, unit) sres" where
  "start_shell env k s =
     (case chan_id (serverID (channels s ! k)) of
        Inl e \<Rightarrow> (s, Inl e)
      | Inr sid \<Rightarrow>
          let s1 = update_channel k (\<lambda>ch. ch\<lparr>chan_name := ''[TERM'' @ digits_of_nat sid @ '']''\<rparr>) s in
          (case chan_id (clientID (channels s ! k)) of
             Inl e \<Rightarrow> (s1, Inl e)
           | Inr cid \<Rightarrow>
               (case term_open (tty_enabled env) (log_file env (the_uuid env) cid ''i.log'') (env_now env) (recordings s1) of
                  ((t, d), Inl e) \<Rightarrow> (s1\<lparr>recordings := d\<rparr>, Inl e)
                | ((t, d), Inr _) \<Rightarrow>
                    ((update_channel k (\<lambda>ch. ch\<lparr>chan_session := Some (Term_session t)\<rparr>) s1)\<lparr>recordings := d\<rparr>, Inr ()))))"

definition start_exec :: "proxy_env \<Rightarrow> nat \<Rightarrow> ssh \<Rightarrow> (ssh, unit) sres" where
  "start_exec env k s =
     (case chan_id (serverID (channels s ! k)) of
        Inl e \<Rightarrow> (s, Inl e)
      | Inr sid \<Rightarrow>
          let s1 = snd (extract_bool (update_channel k (\<lambda>ch. ch\<lparr>chan_name := ''[EXEC'' @ digits_of_nat sid @ '']''\<rparr>) s));
              (command, s2) = extract_string s1 in
          (case exec_open (tty_enabled env) (log_file env (env_transport env) sid ''e.log'') command (env_now env) (recordings s2) of
             ((x, d), Inl e) \<Rightarrow> (s2\<lparr>recordings := d\<rparr>, Inl e)
           | ((x, d), Inr _) \<Rightarrow>
               ((update_channel k (\<lambda>ch. ch\<lparr>chan_session := Some (Exec_session x)\<rparr>) s2)\<lparr>recordings := d\<rparr>, Inr ())))"

definition start_subsystem :: "proxy_env \<Rightarrow> side \<Rightarrow> nat \<Rightarrow> ssh \<Rightarrow> (ssh, unit) sres" where
  "start_subsystem env parent k s =
     (let (subsystem, s1) = extract_string (snd (extract_bool s)) in
      if subsystem = ''sftp'' then
        (case chan_id (serverID (channels s1 ! k)) of
           Inl e \<Rightarrow> (if sftp_enabled env then s1 else no_send s1, Inl e)
         | Inr sid \<Rightarrow>
             if sftp_enabled env then
               (update_channel k (\<lambda>ch. ch\<lparr>chan_name := ''[SFTP'' @ digits_of_nat sid @ '']'',
                  chan_session := Some (Sftp_session (sftp_init (uploads s1)))\<rparr>) s1, Inr ())
             else send_back env parent 100 (pack_be 4 sid) (no_send s1))
      else (s1, rbind (py_decode subsystem) (\<lambda>_. Inr ())))"

definition quiet_requests :: "string list" where
  "quiet_requests = [''window-change'', ''pty-req'', ''exit-status'', ''exit-signal'']"

definition channel_request :: "proxy_env \<Rightarrow> side \<Rightarrow> ssh \<Rightarrow> (ssh, unit) sres" where
  "channel_request env parent s =
     (let (n, s1) = extract_int 4 s in
      with_channel n parent s1 (\<lambda>k.
        let (ty, s2) = extract_string s1 in
        if ty = ''shell'' then start_shell env k s2
        else if ty = ''exec'' then start_exec env k s2
        else if ty = ''subsystem'' then start_subsystem env parent k s2
        else if ty = ''env'' then
          (let (var, s3) = extract_string (snd (extract_bool s2)); (val, s4) = extract_string s3
           in (s4, rbind (py_decode var) (\<lambda>_. rbind (py_decode val) (\<lambda>_. Inr ()))))
        else if ty \<in> set quiet_requests then (s2, Inr ())
        else (s2, rbind (py_decode ty) (\<lambda>_. Inr ()))))"

text \<open>A channel is gone when both sides have closed it.\<close>

definition finish_close :: "proxy_env \<Rightarrow> nat \<Rightarrow> ssh \<Rightarrow> (ssh, unit) sres" where
  "finish_close env k s =
     (if server_closed (channels s ! k) \<and> client_closed (channels s ! k) then
        (case chan_session (channels s ! k) of
           None \<Rightarrow> (remove_channel k s, Inr ())
         | Some c \<Rightarrow> (case session_closed env c (recordings s) of
              ((c1, d), Inl e) \<Rightarrow> ((update_channel k (\<lambda>ch. ch\<lparr>chan_session := Some c1\<rparr>) s)\<lparr>recordings := d\<rparr>, Inl e)
            | ((c1, d), Inr _) \<Rightarrow> ((remove_channel k s)\<lparr>recordings := d\<rparr>, Inr ())))
      else (s, Inr ()))"

definition channel_close :: "proxy_env \<Rightarrow> side \<Rightarrow> ssh \<Rightarrow> (ssh, unit) sres" where
  "channel_close env parent s =
     (let (n, s1) = extract_int 4 s in
      with_channel n parent s1 (\<lambda>k. finish_close env k
        (update_channel k (\<lambda>ch. if parent = SERVER then ch\<lparr>server_closed := True\<rparr> else ch\<lparr>client_closed := True\<rparr>) s1)))"

definition message_data :: "proxy_env \<Rightarrow> side \<Rightarrow> bool \<Rightarrow> ssh \<Rightarrow> (ssh, unit) sres" where
  "message_data env parent extended s =
     (let (n, s1) = extract_int 4 s in
      with_channel n parent s1 (\<lambda>k. channel_data env parent k (if extended then snd (extract_int 4 s1) else s1)))"

definition global_request :: "proxy_env \<Rightarrow> side \<Rightarrow> ssh \<Rightarrow> (ssh, unit) sres" where
  "global_request env parent s =
     (let (ty, s1) = extract_string s in
      if ty = ''tcpip-forward'' \<and> \<not> forwarding env then send_back env parent 82 [] (no_send s1)
      else (s1, Inr ()))"

subsection \<open>The dispatcher\<close>

definition inspect :: "proxy_env \<Rightarrow> side \<Rightarrow> nat \<Rightarrow> ssh \<Rightarrow> (ssh, unit) sres" where
  "inspect env parent num s =
     (if num = 5 then (service_request s, Inr ())
      else if num = 53 then (no_send s, Inr ())
      else if num = 7 then (ext_info s, Inr ())
      else if num = 50 then userauth_request s
      else if num = 51 then (snd (extract_string (no_send s)), Inr ())
      else if num = 52 then (no_send s, Inr ())
      else if num = 60 then (info_request s, Inr ())
      else if num = 61 then (info_response s, Inr ())
      else if num = 90 then channel_open env parent s
      else if num = 91 then open_confirmation parent s
      else if num = 92 then open_failure parent s
      else if num = 98 then channel_request env parent s
      else if num = 100 then (s, Inr ())
      else if num = 97 then channel_close env parent s
      else if num = 94 then message_data env parent False s
      else if num = 95 then message_data env parent True s
      else if num = 80 then global_request env parent s
      else (s, Inr ()))"

definition parse_num_packet :: "proxy_env \<Rightarrow> side \<Rightarrow> nat \<Rightarrow> string \<Rightarrow> ssh \<Rightarrow> (ssh, unit) sres" where
  "parse_num_packet env parent num payload s =
     (let s1 = s\<lparr>pdata := payload, packetSize := int (length payload), sendOn := True\<rparr> in
      if log_raw env \<and> \<not> known_message env num then (s1, Inl KeyError)
      else
        (let s2 = (if log_raw env then s1\<lparr>raw_log := raw_log s1 @ [(parent, num, payload)]\<rparr> else s1)
         in sbind (inspect env parent num s2) (\<lambda>s3 _. pass_on parent num payload s3)))"

end
