(* ===== verification/Ssh_Transport.thy ===== *)
theory Ssh_Transport
  imports Ssh_Proxy
begin

section \<open>The two transports of the SSH proxy\<close>

text \<open>
  Model of \<open>ssh_proxy/server_transport.py\<close> (the attacker's side), \<open>client_transport.py\<close> (the backend's)
  and \<open>userauth.py\<close>: one connection, with the message dispatcher of \<open>Ssh_Proxy\<close> between the sides, and
  what happens on it as events. Twisted's own dispatching, its user authentication and its ciphers are
  not in the repository: what is handed to them is in \<open>to_twisted\<close>, and that keys are in place, or that
  the authentication has succeeded, are events. The framing of \<open>sendPacket\<close> has the cipher, the
  compression, the MAC and the padding as parameters.
\<close>

subsection \<open>State\<close>

record proxy_conf =
  conf_env :: proxy_env
  backend_user :: string
  backend_pass :: string

record conn =
  proto :: ssh
  front_encrypted :: bool
  frontendAuthenticated :: bool
  backendConnected :: bool
  front_delayed :: "(nat \<times> string) list"
  back_encrypted :: bool
  canAuth :: bool
  authDone :: bool
  back_delayed :: "(nat \<times> string) list"
  frontend_tried :: "(string \<times> string) option"
  exit_codes :: "nat list"
  to_twisted :: "(side \<times> nat \<times> string) list"

definition conn_init :: "ssh \<Rightarrow> conn" where
  "conn_init p =
     \<lparr>proto = p, front_encrypted = False, frontendAuthenticated = False, backendConnected = False, front_delayed = [],
      back_encrypted = False, canAuth = False, authDone = False, back_delayed = [], frontend_tried = None,
      exit_codes = [], to_twisted = []\<rparr>"

definition with_proto :: "(ssh \<Rightarrow> (ssh, unit) sres) \<Rightarrow> conn \<Rightarrow> (conn, unit) sres" where
  "with_proto f c = (case f (proto c) of (p, r) \<Rightarrow> (c\<lparr>proto := p\<rparr>, r))"

text \<open>\<open>for packet in delayedPackets\<close>: the first error ends the loop.\<close>

fun parse_each :: "proxy_env \<Rightarrow> side \<Rightarrow> (nat \<times> string) list \<Rightarrow> ssh \<Rightarrow> (ssh, unit) sres" where
  "parse_each env parent [] s = (s, Inr ())"
| "parse_each env parent ((num, payload) # ms) s =
     sbind (parse_num_packet env parent num payload s) (\<lambda>s' _. parse_each env parent ms s')"

subsection \<open>The backend's side\<close>

definition back_send :: "nat \<Rightarrow> string \<Rightarrow> conn \<Rightarrow> conn" where
  "back_send num payload c = c\<lparr>proto := (proto c)\<lparr>to_backend := to_backend (proto c) @ [(num, payload)]\<rparr>\<rparr>"

definition login_payload :: "proxy_conf \<Rightarrow> string res" where
  "login_payload conf =
     rbind (bin_string_to_hex (backend_user conf)) (\<lambda>u.
     rbind (string_to_hex ''ssh-connection'') (\<lambda>s.
     rbind (string_to_hex ''password'') (\<lambda>m.
     rbind (bin_string_to_hex (backend_pass conf)) (\<lambda>p. Inr (u @ s @ m @ [CHR 0x00] @ p)))))"

definition keep_tried :: "string \<Rightarrow> string option \<Rightarrow> conn \<Rightarrow> conn" where
  "keep_tried user pass c =
     (case pass of
        Some p \<Rightarrow> if user \<noteq> [] \<and> p \<noteq> [] then c\<lparr>frontend_tried := Some (user, p)\<rparr> else c
      | None \<Rightarrow> c)"

text \<open>The login at the backend, and then the messages that have been waiting for it. When one of them
  raises, the rest stay in the list and \<open>authDone\<close> is not set.\<close>

definition authenticate_backend :: "proxy_conf \<Rightarrow> conn \<Rightarrow> (conn, unit) sres" where
  "authenticate_backend conf c =
     (if \<not> frontendAuthenticated c \<or> \<not> canAuth c then (c, Inr ())
      else
        (let c1 = back_send 5 (field ''ssh-userauth'') c in
         case login_payload conf of
           Inl e \<Rightarrow> (c1, Inl e)
         | Inr payload \<Rightarrow>
             let c2 = (back_send 50 payload c1)\<lparr>backendConnected := True\<rparr> in
             sbind (with_proto (parse_each (conf_env conf) SERVER (front_delayed c2)) c2)
               (\<lambda>c3 _. (c3\<lparr>front_delayed := [], authDone := True\<rparr>, Inr ()))))"

definition connection_secure :: "proxy_conf \<Rightarrow> conn \<Rightarrow> (conn, unit) sres" where
  "connection_secure conf c = authenticate_backend conf (c\<lparr>canAuth := True\<rparr>)"

definition back_buffer :: "proxy_conf \<Rightarrow> nat \<Rightarrow> string \<Rightarrow> conn \<Rightarrow> (conn, unit) sres" where
  "back_buffer conf num payload c =
     (if \<not> frontendAuthenticated c then (c\<lparr>back_delayed := back_delayed c @ [(num, payload)]\<rparr>, Inr ())
      else if back_delayed c \<noteq> [] then
        (let c1 = c\<lparr>back_delayed := back_delayed c @ [(num, payload)]\<rparr> in
         sbind (with_proto (parse_each (conf_env conf) CLIENT (back_delayed c1)) c1)
           (\<lambda>c2 _. (c2\<lparr>back_delayed := []\<rparr>, Inr ())))
      else with_proto (parse_num_packet (conf_env conf) CLIENT num payload) c)"

definition log_exit_status :: "nat \<Rightarrow> string \<Rightarrow> conn \<Rightarrow> conn" where
  "log_exit_status num payload c =
     (if num = 98 then
        (let (leng, message) = get_string (drop 4 payload) in
         if message = ''exit-status'' then c\<lparr>exit_codes := exit_codes c @ [get_int (drop (4 + leng + 1) payload) 4]\<rparr>
         else c)
      else c)"

definition back_dispatch :: "proxy_conf \<Rightarrow> nat \<Rightarrow> string \<Rightarrow> conn \<Rightarrow> (conn, unit) sres" where
  "back_dispatch conf num payload c =
     (if num \<in> {6, 52} then (c, Inr ())
      else
        (let c1 = log_exit_status num payload c in
         if back_encrypted c1 then back_buffer conf num payload c1
         else (c1\<lparr>to_twisted := to_twisted c1 @ [(CLIENT, num, payload)]\<rparr>, Inr ())))"

subsection \<open>The attacker's side\<close>

definition front_buffer :: "proxy_conf \<Rightarrow> nat \<Rightarrow> string \<Rightarrow> conn \<Rightarrow> (conn, unit) sres" where
  "front_buffer conf num payload c =
     (if \<not> backendConnected c then (c\<lparr>front_delayed := front_delayed c @ [(num, payload)]\<rparr>, Inr ())
      else if front_delayed c \<noteq> [] then (c\<lparr>front_delayed := front_delayed c @ [(num, payload)]\<rparr>, Inr ())
      else with_proto (parse_num_packet (conf_env conf) SERVER num payload) c)"

definition front_twisted :: "nat \<Rightarrow> string \<Rightarrow> conn \<Rightarrow> conn" where
  "front_twisted num payload c = c\<lparr>to_twisted := to_twisted c @ [(SERVER, num, payload)]\<rparr>"

definition front_dispatch :: "proxy_conf \<Rightarrow> nat \<Rightarrow> string \<Rightarrow> conn \<Rightarrow> (conn, unit) sres" where
  "front_dispatch conf num payload c =
     (if num = 5 then (front_twisted 5 payload c, Inr ())
      else if 50 \<le> num \<and> num \<le> 79 then (front_twisted num payload (c\<lparr>frontendAuthenticated := False\<rparr>), Inr ())
      else if front_encrypted c then front_buffer conf num payload c
      else (front_twisted num payload c, Inr ()))"

text \<open>\<open>_cbFinishedAuth\<close> of \<open>userauth.py\<close>: the attacker is told, and the backend may be logged into.\<close>

definition finished_auth :: "proxy_conf \<Rightarrow> string \<Rightarrow> string option \<Rightarrow> conn \<Rightarrow> (conn, unit) sres" where
  "finished_auth conf user pass c =
     (let c1 = c\<lparr>proto := fst (server_send 52 [] (proto c)), frontendAuthenticated := True\<rparr> in
      if client_set (proto c1) then authenticate_backend conf (keep_tried user pass c1) else (c1, Inr ()))"

text \<open>What the pool is told when the attacker has gone: whether the machine has been used.\<close>

definition free_dirty :: "conn \<Rightarrow> bool" where
  "free_dirty c \<longleftrightarrow> client_set (proto c) \<and> authDone c"

subsection \<open>A connection\<close>

datatype conn_event =
    Front nat string
  | Front_keys
  | Backend_up
  | Backend_secure
  | Auth_finished string "string option"
  | Back nat string

fun conn_step :: "proxy_conf \<Rightarrow> conn_event \<Rightarrow> conn \<Rightarrow> (conn, unit) sres" where
  "conn_step conf (Front num payload) c = front_dispatch conf num payload c"
| "conn_step conf Front_keys c = (c\<lparr>front_encrypted := True\<rparr>, Inr ())"
| "conn_step conf Backend_up c = (c\<lparr>proto := set_client (proto c)\<rparr>, Inr ())"
| "conn_step conf Backend_secure c = connection_secure conf (c\<lparr>back_encrypted := True\<rparr>)"
| "conn_step conf (Auth_finished user pass) c = finished_auth conf user pass c"
| "conn_step conf (Back num payload) c = back_dispatch conf num payload c"

fun conn_run :: "proxy_conf \<Rightarrow> conn_event list \<Rightarrow> conn \<Rightarrow> (conn, unit) sres" where
  "conn_run conf [] c = (c, Inr ())"
| "conn_run conf (e # es) c = sbind (conn_step conf e c) (\<lambda>c' _. conn_run conf es c')"

subsection \<open>Framing a packet\<close>

record framing =
  compress :: "string \<Rightarrow> string"
  encrypt :: "string \<Rightarrow> string"
  make_mac :: "nat \<Rightarrow> string \<Rightarrow> string"
  block_size :: nat

definition len_pad :: "nat \<Rightarrow> nat \<Rightarrow> nat" where
  "len_pad bs n = (let l = bs - n mod bs in if l < 4 then l + bs else l)"

text \<open>The bytes that are encrypted. Only KEXINIT, number 20, is padded with zeros.\<close>

definition plain_packet :: "nat \<Rightarrow> (nat \<Rightarrow> string) \<Rightarrow> nat \<Rightarrow> string \<Rightarrow> string res" where
  "plain_packet bs pad num payload =
     (let size_all = 5 + length payload; l = len_pad bs size_all in
      rbind (struct_pack 4 (int (size_all + l - 4))) (\<lambda>a.
      rbind (struct_pack 1 (int l)) (\<lambda>b.
      Inr (a @ b @ payload @ (if num = 20 then replicate l (CHR 0x00) else pad l)))))"

record packet_out =
  blocked :: "(nat \<times> string) list"
  packets_sent :: nat
  written :: string

text \<open>\<open>allowed\<close> is Twisted's choice of what may be sent during a key exchange, \<open>kex\<close> says one is under way.\<close>

definition send_packet ::
  "framing \<Rightarrow> (nat \<Rightarrow> bool) \<Rightarrow> bool \<Rightarrow> (nat \<Rightarrow> string) \<Rightarrow> nat \<Rightarrow> string \<Rightarrow> packet_out \<Rightarrow> (packet_out, unit) sres" where
  "send_packet fr allowed kex pad num payload out =
     (if kex \<and> \<not> allowed num then (out\<lparr>blocked := blocked out @ [(num, payload)]\<rparr>, Inr ())
      else case plain_packet (block_size fr) pad num (compress fr (chr_encode num @ payload)) of
        Inl e \<Rightarrow> (out, Inl e)
      | Inr pk \<Rightarrow> (out\<lparr>written := written out @ encrypt fr pk @ make_mac fr (packets_sent out) pk,
                       packets_sent := Suc (packets_sent out)\<rparr>, Inr ()))"

subsection \<open>The version line\<close>

text \<open>What \<open>dataReceived\<close> does with the buffer before the first packet: the line up to the first newline is
  stripped and matched with \<open>SSH-(\d+.\d+)-(.*)\<close>, where the dot is any character. The packets themselves
  are Twisted's \<open>getPacket\<close>.\<close>

definition version_match :: "string \<Rightarrow> string option" where
  "version_match line =
     (if take 4 line \<noteq> ''SSH-'' then None
      else
        (let ds = takeWhile is_digit (drop 4 line) in
         case dropWhile is_digit (drop 4 line) of
           [] \<Rightarrow> None
         | x # y \<Rightarrow>
             if ds = [] then None
             else if x \<noteq> CHR 0x0A \<and> takeWhile is_digit y \<noteq> [] \<and> take 1 (dropWhile is_digit y) = ''-''
               then Some (ds @ x # takeWhile is_digit y)
             else if 3 \<le> length ds \<and> x = CHR ''-'' then Some ds
             else None))"

datatype intake_event = Client_version string | Line_written string | Connection_dropped | Kex_init_sent

record intake =
  ibuf :: string
  gotVersion :: bool
  intake_log :: "intake_event list"

definition bytes_space :: "char \<Rightarrow> bool" where
  "bytes_space c \<longleftrightarrow> of_char c \<in> {9, 10, 11, 12, 13, 32 :: nat}"

definition mismatch :: "string" where
  "mismatch = ''Protocol mismatch.'' @ [CHR 0x0A]"

definition unsupported :: "string" where
  "unsupported = ''Protocol major versions differ.'' @ [CHR 0x0A]"

text \<open>The second component says whether the loop over the packets is reached.\<close>

definition version_received :: "string list \<Rightarrow> string \<Rightarrow> intake \<Rightarrow> intake \<times> bool" where
  "version_received supported data s0 =
     (let s = s0\<lparr>ibuf := ibuf s0 @ data\<rparr> in
      if gotVersion s then (s, True)
      else if CHR 0x0A \<notin> set (ibuf s) then (s, False)
      else
        (let line = strip_chars bytes_space (takeWhile (\<lambda>c. c \<noteq> CHR 0x0A) (ibuf s));
             s1 = s\<lparr>intake_log := intake_log s @ [Client_version line]\<rparr> in
         case version_match line of
           None \<Rightarrow> (s1\<lparr>intake_log := intake_log s1 @ [Line_written mismatch, Connection_dropped]\<rparr>, False)
         | Some v \<Rightarrow>
             if v \<notin> set supported
             then (s1\<lparr>gotVersion := True, intake_log := intake_log s1 @ [Line_written unsupported, Connection_dropped]\<rparr>, False)
             else (s1\<lparr>gotVersion := True, ibuf := tl (dropWhile (\<lambda>c. c \<noteq> CHR 0x0A) (ibuf s1)),
                      intake_log := intake_log s1 @ [Kex_init_sent]\<rparr>, True)))"

subsection \<open>The fingerprint of the client\<close>

text \<open>\<open>ssh_KEXINIT\<close>: the ten name lists have been read by Twisted; MD5 is a parameter.\<close>

definition name_list :: "string \<Rightarrow> string res" where
  "name_list s =
     (let names = split_on (CHR '','') s in
      if list_all (\<lambda>n. utf8_valid (map of_char n)) names then Inr (join_with '','' names) else Inl UnicodeDecodeError)"

definition hassh_algorithms :: "string list \<Rightarrow> string res" where
  "hassh_algorithms k =
     (if length k \<noteq> 10 then Inl ValueError
      else
        rbind (name_list (k ! 0)) (\<lambda>kex. rbind (name_list (k ! 2)) (\<lambda>enc.
        rbind (name_list (k ! 4)) (\<lambda>mac. rbind (name_list (k ! 6)) (\<lambda>comp.
        Inr (kex @ '';'' @ enc @ '';'' @ mac @ '';'' @ comp))))))"

definition hassh :: "(string \<Rightarrow> string) \<Rightarrow> string list \<Rightarrow> string res" where
  "hassh md5 k = rbind (hassh_algorithms k) (\<lambda>t. Inr (md5 t))"

end
