(* ===== verification/Ssh_Sftp_Props.thy ===== *)
theory Ssh_Sftp_Props
  imports Ssh_Sftp
begin

section \<open>SFTP: reassembly and the capture of uploads\<close>

text \<open>
  What holds of \<open>Ssh_Sftp\<close>: packets are put together from any pieces that respect their ends, two
  packets in one piece are not, uploads are kept byte for byte, and the exceptions to that.
\<close>

subsection \<open>Runs\<close>

fun parse_pieces :: "(string \<Rightarrow> string) \<Rightarrow> side \<Rightarrow> string list \<Rightarrow> sftp \<Rightarrow> (sftp, unit) sres" where
  "parse_pieces sha p [] s = (s, Inr ())"
| "parse_pieces sha p (d # ds) s = sbind (sftp_parse_packet sha p d s) (\<lambda>s' _. parse_pieces sha p ds s')"

fun parse_run :: "(string \<Rightarrow> string) \<Rightarrow> (side \<times> string) list \<Rightarrow> sftp \<Rightarrow> (sftp, unit) sres" where
  "parse_run sha [] s = (s, Inr ())"
| "parse_run sha ((p, d) # ps) s = sbind (sftp_parse_packet sha p d s) (\<lambda>s' _. parse_run sha ps s')"

lemma parse_run_append:
  "parse_run sha (xs @ ys) s = sbind (parse_run sha xs s) (\<lambda>s' _. parse_run sha ys s')"
proof (induction xs arbitrary: s)
  case (Cons x xs)
  obtain p d where x: "x = (p, d)" by (cases x)
  obtain s1 r where "sftp_parse_packet sha p d s = (s1, r)" by (metis prod.collapse)
  with Cons.IH show ?case by (cases r) (simp_all add: x)
qed simp

text \<open>A packet on the wire: its length and its bytes.\<close>

abbreviation frame :: "string \<Rightarrow> string" where "frame pk \<equiv> field pk"

definition complete :: "string \<Rightarrow> base_protocol" where
  "complete pk = \<lparr>pdata = pk, packetSize = 0\<rparr>"

lemma complete_simps [simp]: "pdata (complete pk) = pk" "packetSize (complete pk) = 0"
  by (simp_all add: complete_def)

lemma set_parent_twice [simp]: "set_parent_packet p b (set_parent_packet p b' s) = set_parent_packet p b s"
  by (cases p; cases s) (simp_all add: set_parent_packet_def)

subsection \<open>Reassembly\<close>

lemma parse_tail:
  assumes "concat ds = rest" "ds \<noteq> []" "last ds \<noteq> []"
    "parent_packet p s = \<lparr>pdata = taken, packetSize = int (length rest)\<rparr>"
  shows "parse_pieces sha p ds s = handle_packet sha p (set_parent_packet p (complete (taken @ rest)) s)"
  using assms
proof (induction ds arbitrary: s taken rest)
  case (Cons d ds)
  have ne: "rest \<noteq> []"
    using Cons.prems(1,3) last_in_set [of "d # ds"] by (auto simp del: last.simps)
  show ?case
  proof (cases "ds = []")
    case True
    then have "rest = d" using Cons.prems(1) by simp
    then have "sftp_parse_packet sha p d s = handle_packet sha p (set_parent_packet p (complete (taken @ rest)) s)"
      using Cons.prems(4) ne
      by (simp add: sftp_parse_packet.simps [of sha p d s] take_piece_def complete_def split: prod.splits sum.splits)
    moreover obtain s1 r where "handle_packet sha p (set_parent_packet p (complete (taken @ rest)) s) = (s1, r)"
      by (metis prod.collapse)
    ultimately show ?thesis using True by (cases r) simp_all
  next
    case False
    let ?s = "set_parent_packet p \<lparr>pdata = taken @ d, packetSize = int (length (concat ds))\<rparr> s"
    have l: "concat ds \<noteq> []" using False Cons.prems(3) by (auto simp: last_in_set)
    have r: "rest = d @ concat ds" using Cons.prems(1) by simp
    have "0 < length (concat ds)" using l by simp
    then have nz: "int (length d) + int (length (concat ds)) \<noteq> 0" by linarith
    have "sftp_parse_packet sha p d s = (?s, Inr ())"
      using Cons.prems(4) ne l nz by (simp add: sftp_parse_packet.simps [of sha p d s] take_piece_def r del: concat_eq_Nil_conv)
    moreover have "parse_pieces sha p ds ?s
        = handle_packet sha p (set_parent_packet p (complete ((taken @ d) @ concat ds)) ?s)"
      by (rule Cons.IH) (use Cons.prems(3) False in simp_all)
    ultimately show ?thesis by (simp add: r)
  qed
qed simp

lemma parse_frame:
  assumes "length pk < 256 ^ 4" "packetSize (parent_packet p s) = 0"
  shows "sftp_parse_packet sha p (frame pk) s = handle_packet sha p (set_parent_packet p (complete pk) s)"
  unfolding sftp_parse_packet.simps [of sha p "frame pk" s]
  using assms by (simp add: take_piece_def field_def unpack_pack_be complete_def split: prod.splits sum.splits)

text \<open>C34: A packet that the channel cuts into pieces, the first of which has the whole length field and
  the last of which is not empty, is handled as in one piece: the handler handles exactly these bytes,
  once. Both conditions are needed: a cut inside the length field makes the handler handle an empty
  packet and read the rest of the length as the length of the next one (\<open>sftp_cut_length_field\<close>), and
  an empty piece between two packets raises an error (\<open>sftp_empty_piece_raises\<close>).\<close>

theorem sftp_reassembly:
  assumes "length pk < 256 ^ 4" "packetSize (parent_packet p s) = 0"
    "first @ concat others = frame pk" "4 \<le> length first" "others \<noteq> [] \<longrightarrow> last others \<noteq> []"
  shows "parse_pieces sha p (first # others) s = sftp_parse_packet sha p (frame pk) s
    \<and> parse_pieces sha p (first # others) s = handle_packet sha p (set_parent_packet p (complete pk) s)"
proof (cases "others = []")
  case True
  then have f: "first = frame pk" using assms(3) by simp
  obtain s1 r where h: "handle_packet sha p (set_parent_packet p (complete pk) s) = (s1, r)" by (metis prod.collapse)
  then show ?thesis using True by (cases r) (simp_all add: f parse_frame [OF assms(1,2)])
next
  case False
  obtain h where h: "first = h @ drop 4 first" "length h = 4" using assms(4)
    by (intro that [of "take 4 first"]) simp_all
  have eq: "h @ drop 4 first @ concat others = pack_be 4 (length pk) @ pk"
    using assms(3) h(1) by (metis append.assoc field_def)
  then have hp: "h = pack_be 4 (length pk)" and pk: "drop 4 first @ concat others = pk" using h(2) by simp_all
  let ?s = "set_parent_packet p \<lparr>pdata = drop 4 first, packetSize = int (length (concat others))\<rparr> s"
  have ne: "concat others \<noteq> []" using False assms(5) by (auto simp: last_in_set)
  have "take_piece (parent_packet p s) first
      = Inr (\<lparr>pdata = drop 4 first, packetSize = int (length (concat others))\<rparr>, [])"
  proof -
    have "unpack_be (take 4 first) = length pk"
      using h hp assms(1) by (metis append_eq_conv_conj unpack_pack_be)
    moreover have "length pk = length (drop 4 first) + length (concat others)" using pk by auto
    moreover have "first \<noteq> []" using assms(4) by auto
    ultimately show ?thesis using assms(2) by (simp add: take_piece_def)
  qed
  then have "sftp_parse_packet sha p first s = (?s, Inr ())"
    using ne by (simp add: sftp_parse_packet.simps [of sha p first s] del: concat_eq_Nil_conv)
  moreover have "parse_pieces sha p others ?s
      = handle_packet sha p (set_parent_packet p (complete (drop 4 first @ concat others)) ?s)"
    by (rule parse_tail) (use False assms(5) in simp_all)
  ultimately show ?thesis by (simp add: pk parse_frame [OF assms(1,2)])
qed

text \<open>A cut inside the length field, of a packet so short that the bytes before the cut are zero: the
  first piece is taken for an empty packet, which is handled and reported as unhandled. The handler then
  waits for the start of a packet, so it reads the length of the next packet from the middle of this
  one's. The request number is lost, too.\<close>

lemma take_pack_be: "n \<le> w \<Longrightarrow> take n (pack_be w m) = pack_be n (m div 256 ^ (w - n))"
proof (induction w arbitrary: m)
  case (Suc w)
  show ?case
  proof (cases "n = Suc w")
    case True
    then show ?thesis by simp
  next
    case False
    then have "n \<le> w" using Suc.prems by simp
    then show ?thesis using Suc.IH [of "m div 256"] by (simp add: Suc_diff_le div_mult2_eq)
  qed
qed simp

lemma handle_nothing:
  "\<exists>s'. handle_packet sha p (set_parent_packet p (complete []) s) = (s', Inr ())
     \<and> sftp_log s' = sftp_log s @ [Unhandled_packet] \<and> parent_packet p s' = complete [] \<and> ID s' = 0"
  by (cases p)
     (simp_all add: handle_packet_def handle_body_def fxp_defs extract_int_def Let_def parent_packet_def
        set_parent_packet_def complete_def sftp_msg_def)

theorem sftp_cut_length_field:
  assumes "0 < n" "n < 4" "length pk < 256 ^ (4 - n)" "packetSize (parent_packet p s) = 0"
  shows "\<exists>s'. parse_pieces sha p [take n (frame pk), drop n (frame pk)] s
      = sftp_parse_packet sha p (drop n (frame pk)) s'
    \<and> sftp_log s' = sftp_log s @ [Unhandled_packet] \<and> packetSize (parent_packet p s') = 0 \<and> ID s' = 0"
proof -
  have t: "take n (frame pk) = pack_be n 0"
    using assms(2,3) by (simp add: field_def take_pack_be)
  have "take_piece (parent_packet p s) (pack_be n 0) = Inr (complete [], [])"
    using assms(1,2,4) by (simp add: take_piece_def complete_def unpack_pack_be)
  then have "sftp_parse_packet sha p (take n (frame pk)) s
      = (case handle_packet sha p (set_parent_packet p (complete []) s) of
           (s1, Inl e) \<Rightarrow> (s1, Inl e) | (s1, Inr _) \<Rightarrow> (s1, Inr ()))"
    by (simp add: t sftp_parse_packet.simps [of sha p "pack_be n 0" s])
  moreover obtain s' where s': "handle_packet sha p (set_parent_packet p (complete []) s) = (s', Inr ())"
    "sftp_log s' = sftp_log s @ [Unhandled_packet]" "parent_packet p s' = complete []" "ID s' = 0"
    using handle_nothing by blast
  ultimately have "sftp_parse_packet sha p (take n (frame pk)) s = (s', Inr ())" by simp
  moreover obtain s2 r where "sftp_parse_packet sha p (drop n (frame pk)) s' = (s2, r)" by (metis prod.collapse)
  ultimately show ?thesis using s' by (intro exI [of _ s']) (cases r; simp)
qed

lemma sftp_empty_piece_raises:
  "packetSize (parent_packet p s) = 0 \<Longrightarrow> sftp_parse_packet sha p [] s = (s, Inl ValueError)"
  by (simp add: sftp_parse_packet.simps [of sha p "[]" s] take_piece_def)

text \<open>Two packets in one piece, as a client sends that does not wait for each answer: neither of them
  is handled. They lie in the buffer, whose size is now negative.\<close>

theorem sftp_pipelined_not_handled:
  assumes "length pk < 256 ^ 4" "packetSize (parent_packet p s) = 0"
  shows "\<exists>b. sftp_parse_packet sha p (frame pk @ frame pk') s = (set_parent_packet p b s, Inr ())
    \<and> packetSize b < 0 \<and> pdata b = pk @ frame pk'"
  unfolding sftp_parse_packet.simps [of sha p "frame pk @ frame pk'" s]
  using assms by (simp add: take_piece_def unpack_pack_be field_def [of pk]) (auto simp: field_def)

subsection \<open>Uploads\<close>

text \<open>The packets of a transfer as their senders write them.\<close>

definition packet :: "nat \<Rightarrow> nat \<Rightarrow> string \<Rightarrow> string" where
  "packet num i body = pack_be 1 num @ pack_be 4 i @ body"

definition fx_open :: "nat \<Rightarrow> string \<Rightarrow> nat \<Rightarrow> string \<Rightarrow> string" where
  "fx_open i path pflags attrs = packet FXP_OPEN i (field path @ pack_be 4 pflags @ attrs)"

definition fx_handle :: "nat \<Rightarrow> string \<Rightarrow> string" where
  "fx_handle i h = packet FXP_HANDLE i (field h)"

definition fx_write :: "nat \<Rightarrow> string \<Rightarrow> nat \<Rightarrow> string \<Rightarrow> string" where
  "fx_write i h off d = packet FXP_WRITE i (field h @ pack_be 8 off @ field d)"

definition fx_ok :: "nat \<Rightarrow> string \<Rightarrow> string" where
  "fx_ok i rest = packet FXP_STATUS i (pack_be 4 0 @ rest)"

definition fx_close :: "nat \<Rightarrow> string \<Rightarrow> string" where
  "fx_close i h = packet FXP_CLOSE i (field h)"

lemma handle_packet_of:
  assumes "num < 256" "i < 256 ^ 4"
  shows "handle_packet sha p (set_parent_packet p (complete (packet num i body)) s)
    = handle_body sha num ((set_parent_packet p (complete (packet num i body)) s)
        \<lparr>packetSize := - 5, pdata := body, prevID := ID s, ID := i, sftp_path := []\<rparr>)"
  using assms
  by (cases p; cases s)
     (simp_all add: handle_packet_def packet_def extract_int_def parent_packet_def set_parent_packet_def
       unpack_pack_be complete_def)

text \<open>A transfer under way: the command, the handle and the bytes so far, no packet half read.\<close>

definition transfer :: "string \<Rightarrow> string \<Rightarrow> string \<Rightarrow> (string \<rightharpoonup> string) \<Rightarrow> sftp \<Rightarrow> bool" where
  "transfer path h content dl s \<longleftrightarrow>
     sftp_command s = ''put '' @ path \<and> handle s = h \<and> theFile s = content \<and> downloads s = dl
     \<and> packetSize (clientPacket s) = 0 \<and> packetSize (serverPacket s) = 0"

lemma frame_step:
  assumes "packetSize (parent_packet p s) = 0" "num < 256" "i < 256 ^ 4" "length (packet num i body) < 256 ^ 4"
  shows "sftp_parse_packet sha p (frame (packet num i body)) s
    = handle_body sha num ((set_parent_packet p (complete (packet num i body)) s)
        \<lparr>packetSize := - 5, pdata := body, prevID := ID s, ID := i, sftp_path := []\<rparr>)"
  using parse_frame [OF assms(4,1)] handle_packet_of [OF assms(2,3)] by simp

lemma set_parent_fields [simp]:
  "sftp_command (set_parent_packet p b s) = sftp_command s" "handle (set_parent_packet p b s) = handle s"
  "theFile (set_parent_packet p b s) = theFile s" "downloads (set_parent_packet p b s) = downloads s"
  "sftp_log (set_parent_packet p b s) = sftp_log s" "ID (set_parent_packet p b s) = ID s"
  "packetSize (clientPacket (set_parent_packet p b s)) = (if p = CLIENT then packetSize b else packetSize (clientPacket s))"
  "packetSize (serverPacket (set_parent_packet p b s)) = (if p = SERVER then packetSize b else packetSize (serverPacket s))"
  by (cases p; simp add: set_parent_packet_def)+

lemma transfer_parent: "transfer path h c dl s \<Longrightarrow> packetSize (parent_packet p s) = 0"
  by (cases p) (simp_all add: transfer_def parent_packet_def)

lemma write_step:
  assumes "transfer path h content dl s" "i < 256 ^ 4" "length (fx_write i h (length content) d) < 256 ^ 4"
    "length content < 256 ^ 8"
  shows "\<exists>s'. sftp_parse_packet sha SERVER (frame (fx_write i h (length content) d)) s = (s', Inr ())
    \<and> transfer path h (content @ d) dl s'"
proof -
  let ?body = "field h @ pack_be 8 (length content) @ field d"
  let ?s0 = "(set_parent_packet SERVER (complete (packet FXP_WRITE i ?body)) s)
        \<lparr>packetSize := - 5, pdata := ?body, prevID := ID s, ID := i, sftp_path := []\<rparr>"
  have len: "length h < 256 ^ 4" "length d < 256 ^ 4" using assms(3) by (simp_all add: fx_write_def packet_def)
  have "sftp_parse_packet sha SERVER (frame (fx_write i h (length content) d)) s = (sftp_write ?s0, Inr ())"
    using frame_step [OF transfer_parent [OF assms(1)], where num=FXP_WRITE and i=i and body="?body" and p=SERVER]
      assms(2,3)
    by (simp add: fx_write_def handle_body_def fxp_defs)
  moreover have "transfer path h (content @ d) dl (sftp_write ?s0)"
    using assms(1,4) len
    by (simp add: sftp_write_def transfer_def extract_string_field [where s=h and rest="pack_be 8 (length content) @ field d"]
        extract_int_field [where n="length content" and w=8 and rest="field d"] extract_data_def Let_def)
       (simp add: field_def extract_int_def)
  ultimately show ?thesis by blast
qed

lemma contains_put: "contains ''put'' (''put '' @ path)"
  by (simp add: contains_def)

lemma ok_step:
  assumes "transfer path h content dl s" "i < 256 ^ 4" "length (fx_ok i rest) < 256 ^ 4"
  shows "\<exists>s'. sftp_parse_packet sha CLIENT (frame (fx_ok i rest)) s = (s', Inr ()) \<and> transfer path h content dl s'"
proof -
  let ?body = "pack_be 4 0 @ rest"
  let ?s0 = "(set_parent_packet CLIENT (complete (packet FXP_STATUS i ?body)) s)
        \<lparr>packetSize := - 5, pdata := ?body, prevID := ID s, ID := i, sftp_path := []\<rparr>"
  have "sftp_parse_packet sha CLIENT (frame (fx_ok i rest)) s = sftp_status ?s0"
    using frame_step [OF transfer_parent [OF assms(1)], where num=FXP_STATUS and i=i and body="?body" and p=CLIENT]
      assms(2,3)
    by (simp add: fx_ok_def handle_body_def fxp_defs)
  moreover have "sftp_command ?s0 = ''put '' @ path" using assms(1) by (simp add: transfer_def)
  moreover have "unpack_be (take 4 ?body) = 0" by (simp add: unpack_pack_be)
  ultimately show ?thesis using assms(1) contains_put [of path]
    by (simp add: sftp_status_def extract_int_def transfer_def Let_def)
qed

text \<open>The chunks of a file, each with the numbers of its request and of the answer, written one after the
  other and each acknowledged.\<close>

fun writes :: "string \<Rightarrow> nat \<Rightarrow> (nat \<times> nat \<times> string) list \<Rightarrow> (side \<times> string) list" where
  "writes h off [] = []"
| "writes h off ((i, j, d) # cs) =
     (SERVER, frame (fx_write i h off d)) # (CLIENT, frame (fx_ok j [])) # writes h (off + length d) cs"

definition chunk_fits :: "string \<Rightarrow> nat \<times> nat \<times> string \<Rightarrow> bool" where
  "chunk_fits h = (\<lambda>(i, j, d). i < 256 ^ 4 \<and> j < 256 ^ 4 \<and> length h + length d + 21 < 256 ^ 4)"

abbreviation chunk_data :: "(nat \<times> nat \<times> string) list \<Rightarrow> string" where
  "chunk_data cs \<equiv> concat (map (snd \<circ> snd) cs)"

lemma writes_run:
  assumes "transfer path h content dl s" "list_all (chunk_fits h) cs"
    "length content + length (chunk_data cs) < 256 ^ 8"
  shows "\<exists>s'. parse_run sha (writes h (length content) cs) s = (s', Inr ())
    \<and> transfer path h (content @ chunk_data cs) dl s'"
  using assms
proof (induction cs arbitrary: content s)
  case (Cons c cs)
  obtain i j d where c: "c = (i, j, d)" by (cases c)
  have fits: "i < 256 ^ 4" "j < 256 ^ 4" "length h + length d + 21 < 256 ^ 4"
    using Cons.prems(2) by (simp_all add: c chunk_fits_def)
  have lw: "length (fx_write i h (length content) d) < 256 ^ 4"
    using fits(3) by (simp add: fx_write_def packet_def)
  have lo: "length (fx_ok j []) < 256 ^ 4" by (simp add: fx_ok_def packet_def)
  obtain s1 where s1: "sftp_parse_packet sha SERVER (frame (fx_write i h (length content) d)) s = (s1, Inr ())"
    "transfer path h (content @ d) dl s1"
    using write_step [OF Cons.prems(1) fits(1) lw] Cons.prems(3) by fastforce
  obtain s2 where s2: "sftp_parse_packet sha CLIENT (frame (fx_ok j [])) s1 = (s2, Inr ())"
    "transfer path h (content @ d) dl s2"
    using ok_step [OF s1(2) fits(2) lo] by blast
  from Cons.IH [OF s2(2)] Cons.prems(2,3) c
  obtain s' where "parse_run sha (writes h (length (content @ d)) cs) s2 = (s', Inr ())"
    "transfer path h ((content @ d) @ chunk_data cs) dl s'" by (auto simp: comp_def)
  then show ?case using s1(1) s2(1) by (intro exI [of _ s']) (simp add: c comp_def)
qed simp

lemma open_step:
  assumes "packetSize (clientPacket s) = 0" "packetSize (serverPacket s) = 0" "downloads s = dl"
    "i < 256 ^ 4" "pflags < 256" "odd (pflags div 2)" "utf8_valid (map of_char path)"
    "length (fx_open i path pflags attrs) < 256 ^ 4" "length h + 9 < 256 ^ 4"
  shows "\<exists>s'. parse_run sha [(SERVER, frame (fx_open i path pflags attrs)), (CLIENT, frame (fx_handle i h))] s
    = (s', Inr ()) \<and> transfer path h [] dl s'"
proof -
  let ?b1 = "field path @ pack_be 4 pflags @ attrs" and ?b2 = "field h"
  let ?s0 = "(set_parent_packet SERVER (complete (packet FXP_OPEN i ?b1)) s)
        \<lparr>packetSize := - 5, pdata := ?b1, prevID := ID s, ID := i, sftp_path := []\<rparr>"
  have len: "length path < 256 ^ 4" using assms(8) by (simp add: fx_open_def packet_def)
  have bit: "bin_text 8 pflags ! 6 = 1"
    using bin_text_nth [of pflags 8 6] assms(5,6) by (simp add: odd_iff_mod_2_eq_one)
  have dec: "py_decode (''put '' @ path) = Inr (''put '' @ path)"
    using assms(7) by (simp add: py_decode_def)
  have p1: "packetSize (parent_packet SERVER s) = 0" using assms(2) by (simp add: parent_packet_def)
  have "sftp_parse_packet sha SERVER (frame (fx_open i path pflags attrs)) s = sftp_open ?s0"
    using frame_step [OF p1, where num=FXP_OPEN and i=i and body="?b1"] assms(4,8)
    by (simp add: fx_open_def handle_body_def fxp_defs)
  moreover obtain s1 where s1: "sftp_open ?s0 = (s1, Inr ())" "sftp_command s1 = ''put '' @ path" "theFile s1 = []"
    "ID s1 = i" "downloads s1 = dl" "packetSize (clientPacket s1) = 0" "packetSize (serverPacket s1) = 0"
    using assms(1-3,5) len dec bit
    by (simp add: sftp_open_def extract_string_field [where s=path and rest="pack_be 4 pflags @ attrs"]
        extract_int_field [where n=pflags and w=4 and rest=attrs] Let_def log_decoded_def sftp_msg_def set_command_def)
  ultimately have r1: "sftp_parse_packet sha SERVER (frame (fx_open i path pflags attrs)) s = (s1, Inr ())" by simp
  let ?s2 = "(set_parent_packet CLIENT (complete (packet FXP_HANDLE i ?b2)) s1)
        \<lparr>packetSize := - 5, pdata := ?b2, prevID := ID s1, ID := i, sftp_path := []\<rparr>"
  have p2: "packetSize (parent_packet CLIENT s1) = 0" using s1 by (simp add: parent_packet_def)
  have "length h < 256 ^ 4" using assms(9) by simp
  then have "\<exists>s'. sftp_parse_packet sha CLIENT (frame (fx_handle i h)) s1 = (s', Inr ()) \<and> transfer path h [] dl s'"
    using frame_step [OF p2, where num=FXP_HANDLE and i=i and body="?b2"] assms(4,9) s1
    by (simp add: fx_handle_def handle_body_def fxp_defs extract_string_field [where s=h and rest="[]"] packet_def
        transfer_def)
  then show ?thesis using r1 by auto
qed


lemma close_step:
  assumes "transfer path h content dl s" "k < 256 ^ 4" "length h + 9 < 256 ^ 4" "utf8_valid (map of_char path)"
  shows "\<exists>s'. sftp_parse_packet sha SERVER (frame (fx_close k h)) s = (s', Inr ())
    \<and> (if contains ''get'' (''put '' @ path)
       then downloads s' = dl \<and> last (sftp_log s') = Finished_download []
       else downloads s' = (if dl (sha content) = None then dl(sha content \<mapsto> content) else dl)
         \<and> last (sftp_log s') = Uploaded (last_word (''put '' @ path)) (sha content) (dl (sha content) \<noteq> None))"
proof -
  let ?s0 = "(set_parent_packet SERVER (complete (packet FXP_CLOSE k (field h))) s)
        \<lparr>packetSize := - 5, pdata := field h, prevID := ID s, ID := k, sftp_path := []\<rparr>"
  have len: "length (fx_close k h) < 256 ^ 4" "length h < 256 ^ 4"
    using assms(3) by (simp_all add: fx_close_def packet_def)
  have dec: "py_decode (''put '' @ path) = Inr (''put '' @ path)" "py_decode [] = Inr []"
    using assms(4) by (simp_all add: py_decode_def)
  have "sftp_parse_packet sha SERVER (frame (fx_close k h)) s = sftp_close sha ?s0"
    using frame_step [OF transfer_parent [OF assms(1)], where num=FXP_CLOSE and i=k and body="field h" and p=SERVER]
      assms(2) len(1)
    by (simp add: fx_close_def handle_body_def fxp_defs)
  then show ?thesis
    using assms(1) len(2) dec contains_put [of path]
    by (auto simp: sftp_close_def extract_string_field [where s=h and rest="[]"] transfer_def log_decoded_def
        sftp_msg_def store_sftp_upload_def Let_def)
qed

definition upload_session :: "nat \<Rightarrow> string \<Rightarrow> nat \<Rightarrow> string \<Rightarrow> string \<Rightarrow> (nat \<times> nat \<times> string) list \<Rightarrow> nat
    \<Rightarrow> (side \<times> string) list" where
  "upload_session i path pflags attrs h cs k =
     [(SERVER, frame (fx_open i path pflags attrs)), (CLIENT, frame (fx_handle i h))]
     @ writes h 0 cs @ [(SERVER, frame (fx_close k h))]"

text \<open>What a transfer needs to fit into its packets, and a handler between two packets.\<close>

definition upload_fits :: "nat \<Rightarrow> string \<Rightarrow> nat \<Rightarrow> string \<Rightarrow> string \<Rightarrow> (nat \<times> nat \<times> string) list \<Rightarrow> nat \<Rightarrow> bool" where
  "upload_fits i path pflags attrs h cs k \<longleftrightarrow>
     i < 256 ^ 4 \<and> k < 256 ^ 4 \<and> pflags < 256 \<and> odd (pflags div 2) \<and> utf8_valid (map of_char path)
     \<and> length path + length attrs + 13 < 256 ^ 4 \<and> length h + 9 < 256 ^ 4
     \<and> list_all (chunk_fits h) cs \<and> length (chunk_data cs) < 256 ^ 8"

definition between_packets :: "sftp \<Rightarrow> bool" where
  "between_packets s \<longleftrightarrow> packetSize (clientPacket s) = 0 \<and> packetSize (serverPacket s) = 0"

lemma upload_run:
  assumes "between_packets s" "upload_fits i path pflags attrs h cs k"
  shows "\<exists>s'. parse_run sha (upload_session i path pflags attrs h cs k) s = (s', Inr ())
    \<and> (if contains ''get'' (''put '' @ path)
       then downloads s' = downloads s \<and> last (sftp_log s') = Finished_download []
       else downloads s' = (if downloads s (sha (chunk_data cs)) = None
              then (downloads s)(sha (chunk_data cs) \<mapsto> chunk_data cs) else downloads s)
         \<and> last (sftp_log s') = Uploaded (last_word (''put '' @ path)) (sha (chunk_data cs))
             (downloads s (sha (chunk_data cs)) \<noteq> None))"
proof -
  have f: "i < 256 ^ 4" "k < 256 ^ 4" "pflags < 256" "odd (pflags div 2)" "utf8_valid (map of_char path)"
    "length (fx_open i path pflags attrs) < 256 ^ 4" "length h + 9 < 256 ^ 4" "list_all (chunk_fits h) cs"
    "length ([] :: string) + length (chunk_data cs) < 256 ^ 8"
    using assms(2) by (simp_all add: upload_fits_def fx_open_def packet_def)
  have b: "packetSize (clientPacket s) = 0" "packetSize (serverPacket s) = 0"
    using assms(1) by (simp_all add: between_packets_def)
  obtain s1 where s1: "parse_run sha [(SERVER, frame (fx_open i path pflags attrs)), (CLIENT, frame (fx_handle i h))] s
      = (s1, Inr ())" "transfer path h [] (downloads s) s1"
    using open_step [OF b refl f(1,3-7)] by blast
  obtain s2 where s2: "parse_run sha (writes h 0 cs) s1 = (s2, Inr ())"
    "transfer path h (chunk_data cs) (downloads s) s2"
    using writes_run [OF s1(2) f(8,9)] by auto
  obtain s3 where s3: "sftp_parse_packet sha SERVER (frame (fx_close k h)) s2 = (s3, Inr ())"
    "if contains ''get'' (''put '' @ path)
     then downloads s3 = downloads s \<and> last (sftp_log s3) = Finished_download []
     else downloads s3 = (if downloads s (sha (chunk_data cs)) = None
              then (downloads s)(sha (chunk_data cs) \<mapsto> chunk_data cs) else downloads s)
         \<and> last (sftp_log s3) = Uploaded (last_word (''put '' @ path)) (sha (chunk_data cs))
             (downloads s (sha (chunk_data cs)) \<noteq> None)"
    using close_step [OF s2(2) f(2,7,5)] by blast
  have "parse_run sha (upload_session i path pflags attrs h cs k) s = (s3, Inr ())"
    unfolding upload_session_def parse_run_append s1(1) sbind_simps s2(1) by (simp add: s3(1))
  with s3(2) show ?thesis by blast
qed

text \<open>An upload is kept byte for byte: after the client has opened a file for writing, sent its chunks
  one after the other and closed it, the download directory has the concatenation of the chunks under its
  hash (an equal file is left as it is), and the log names the file.\<close>

theorem sftp_upload_captured:
  assumes "between_packets s" "upload_fits i path pflags attrs h cs k" "\<not> contains ''get'' (''put '' @ path)"
    "downloads s (sha (chunk_data cs)) \<in> {None, Some (chunk_data cs)}"
  shows "\<exists>s'. parse_run sha (upload_session i path pflags attrs h cs k) s = (s', Inr ())
    \<and> downloads s' = (downloads s)(sha (chunk_data cs) \<mapsto> chunk_data cs)
    \<and> last (sftp_log s') = Uploaded (last_word (''put '' @ path)) (sha (chunk_data cs))
        (downloads s (sha (chunk_data cs)) \<noteq> None)"
  using upload_run [OF assms(1,2), of sha] assms(3,4) by (auto simp: fun_upd_idem split: if_splits)

text \<open>An upload to a path with the letters \<open>get\<close> in it (\<open>/tmp/wget.sh\<close>) is taken for a download when
  it is closed: nothing is kept of it, and the log reports a finished download.\<close>

theorem sftp_upload_named_get_lost:
  assumes "between_packets s" "upload_fits i path pflags attrs h cs k" "contains ''get'' path"
  shows "\<exists>s'. parse_run sha (upload_session i path pflags attrs h cs k) s = (s', Inr ())
    \<and> downloads s' = downloads s \<and> last (sftp_log s') = Finished_download []"
proof -
  obtain a b where "path = a @ ''get'' @ b" using assms(3) unfolding contains_iff by blast
  then have "''put '' @ path = (''put '' @ a) @ ''get'' @ b" by simp
  then have "contains ''get'' (''put '' @ path)" unfolding contains_iff by blast
  then show ?thesis using upload_run [OF assms(1,2), of sha] by auto
qed

subsection \<open>Attributes\<close>

lemma octal_digits:
  fixes p a b c :: nat
  assumes "p = 64 * a + 8 * b + c" "b < 8" "c < 8"
  shows "p div 64 = a \<and> p div 8 mod 8 = b \<and> p mod 8 = c"
proof -
  have p: "p = c + 8 * (b + 8 * a)" using assms(1) by simp
  have p8: "p div 8 = b + 8 * a" "p mod 8 = c"
    unfolding p using assms(3) by (simp_all only: div_mult_self2 mod_mult_self2 mod_less div_less add_0_right)
  have "p div 64 = p div 8 div 8" by (simp add: div_mult2_eq [of p 8 8, simplified])
  then show ?thesis using p8 assms(2) by simp
qed

text \<open>A change of permissions is reported with the three octal digits of the mode, for modes below 512
  (without the bits of the file type, set-user-id and the like).\<close>

theorem chmod_text_octal:
  assumes "p < 512"
  shows "chmod_text p = digits_of_nat (p div 64) @ digits_of_nat (p div 8 mod 8) @ digits_of_nat (p mod 8)"
proof -
  let ?t = "bin_text 9 p"
  let ?a = "value_base 2 (take 3 ?t)" and ?b = "value_base 2 (take 3 (drop 3 ?t))" and ?c = "value_base 2 (drop 6 ?t)"
  have len: "length ?t = 9" using assms by (intro length_bin_text) simp_all
  have "drop 6 ?t = drop 3 (drop 3 ?t)" by simp
  then have split: "take 3 ?t @ take 3 (drop 3 ?t) @ drop 6 ?t = ?t" by (metis append_take_drop_id)
  have small: "value_base 2 xs < 2 ^ length xs" if "set xs \<subseteq> set ?t" for xs
    using that bin_text_bits [of 9 p] by (intro value_base_less) (auto simp: list_all_iff)
  have "?b < 2 ^ length (take 3 (drop 3 ?t))" "?c < 2 ^ length (drop 6 ?t)"
    by (intro small, meson set_drop_subset set_take_subset subset_trans)+
  then have bc: "?b < 8" "?c < 8" using len by simp_all
  have "p = value_base 2 (take 3 ?t @ take 3 (drop 3 ?t) @ drop 6 ?t)" unfolding split value_bin_text ..
  also have "\<dots> = 64 * ?a + 8 * ?b + ?c" using len by (simp add: value_base_append)
  finally have p: "p = 64 * ?a + 8 * ?b + ?c" .
  have "p div 64 = ?a \<and> p div 8 mod 8 = ?b \<and> p mod 8 = ?c" by (rule octal_digits [OF p bc])
  then show ?thesis by (simp add: chmod_text_def Let_def)
qed


subsection \<open>The properties at concrete packets\<close>

lemma init_fields [simp]:
  "parent_packet p (sftp_init dl) = base_init" "packetSize base_init = 0" "downloads (sftp_init dl) = dl"
  "between_packets (sftp_init dl)"
  by (cases p) (simp_all add: sftp_init_def parent_packet_def base_init_def between_packets_def)

theorem sftp_reassembly_witness:
  "parse_pieces rev SERVER [take 6 (frame ''abcd''), [], drop 6 (frame ''abcd'')] (sftp_init Map.empty)
     = handle_packet rev SERVER (set_parent_packet SERVER (complete ''abcd'') (sftp_init Map.empty))"
proof -
  have "parse_pieces rev SERVER [take 6 (frame ''abcd''), [], drop 6 (frame ''abcd'')] (sftp_init Map.empty)
      = sftp_parse_packet rev SERVER (frame ''abcd'') (sftp_init Map.empty)
    \<and> parse_pieces rev SERVER [take 6 (frame ''abcd''), [], drop 6 (frame ''abcd'')] (sftp_init Map.empty)
      = handle_packet rev SERVER (set_parent_packet SERVER (complete ''abcd'') (sftp_init Map.empty))"
    by (rule sftp_reassembly) (simp_all add: field_def)
  then show ?thesis by (rule conjunct2)
qed

theorem sftp_cut_length_field_witness:
  "\<exists>s'. parse_pieces rev SERVER [take 2 (frame ''abcd''), drop 2 (frame ''abcd'')] (sftp_init Map.empty)
      = sftp_parse_packet rev SERVER (drop 2 (frame ''abcd'')) s'
    \<and> sftp_log s' = sftp_log (sftp_init Map.empty) @ [Unhandled_packet]
    \<and> packetSize (parent_packet SERVER s') = 0 \<and> ID s' = 0"
  by (rule sftp_cut_length_field) simp_all

theorem sftp_pipelined_not_handled_witness:
  "\<exists>b. sftp_parse_packet rev SERVER (frame ''abcd'' @ frame ''efgh'') (sftp_init Map.empty)
      = (set_parent_packet SERVER b (sftp_init Map.empty), Inr ())
    \<and> packetSize b < 0 \<and> pdata b = ''abcd'' @ frame ''efgh''"
  using sftp_pipelined_not_handled [of "''abcd''" SERVER "sftp_init Map.empty" rev "''efgh''"] by simp

theorem sftp_upload_captured_witness:
  "\<exists>s'. parse_run rev (upload_session 1 ''/tmp/a'' 2 [] ''h'' [(2, 2, ''xy''), (3, 3, ''z'')] 4) (sftp_init Map.empty)
      = (s', Inr ()) \<and> downloads s' = [''zyx'' \<mapsto> ''xyz'']"
proof -
  have "\<not> contains ''get'' (''put '' @ ''/tmp/a'')" by (simp add: contains_def)
  moreover have "upload_fits 1 ''/tmp/a'' 2 [] ''h'' [(2, 2, ''xy''), (3, 3, ''z'')] 4"
    by (simp add: upload_fits_def chunk_fits_def)
  ultimately show ?thesis
    using sftp_upload_captured [of "sftp_init Map.empty" 1 "''/tmp/a''" 2 "[]" "''h''"
        "[(2, 2, ''xy''), (3, 3, ''z'')]" 4 rev] by auto
qed

theorem sftp_upload_named_get_lost_witness:
  "\<exists>s'. parse_run rev (upload_session 1 ''/tmp/wget.sh'' 2 [] ''h'' [(2, 2, ''xy'')] 4) (sftp_init Map.empty)
      = (s', Inr ()) \<and> downloads s' = Map.empty \<and> last (sftp_log s') = Finished_download []"
proof -
  have "contains ''get'' ''/tmp/wget.sh''" by (simp add: contains_def)
  moreover have "upload_fits 1 ''/tmp/wget.sh'' 2 [] ''h'' [(2, 2, ''xy'')] 4"
    by (simp add: upload_fits_def chunk_fits_def)
  ultimately show ?thesis
    using sftp_upload_named_get_lost [of "sftp_init Map.empty" 1 "''/tmp/wget.sh''" 2 "[]" "''h''" "[(2, 2, ''xy'')]" 4 rev]
    by auto
qed

theorem chmod_text_octal_witness: "chmod_text 493 = ''755''"
proof -
  have "chmod_text 493 = digits_of_nat (493 div 64) @ digits_of_nat (493 div 8 mod 8) @ digits_of_nat (493 mod 8)"
    by (rule chmod_text_octal) simp
  also have "\<dots> = digits_of_nat 7 @ digits_of_nat 5 @ digits_of_nat 5" by simp
  also have "\<dots> = ''755''" by code_simp
  finally show ?thesis .
qed

text \<open>With the bits of a file type the groups are shifted: 0100644 is reported as 40420.\<close>

lemma chmod_text_with_type: "chmod_text 33188 = digits_of_nat 4 @ digits_of_nat 0 @ digits_of_nat 420"
  by (simp add: chmod_text_def bin_text_def digits_base.simps Let_def)

end
