(* ===== verification/Ssh_Proxy_Props.thy ===== *)
theory Ssh_Proxy_Props
  imports Ssh_Proxy Ssh_Sftp_Props
begin

section \<open>What the dispatcher passes on\<close>

text \<open>
  Properties of \<open>Ssh_Proxy\<close>: which messages of the attacker reach the backend, unchanged and once; the
  shape of the channels over any run; channels that wait for their confirmation; and the capture of
  uploads through the dispatcher.
\<close>

named_theorems proxy_effects \<open>what an operation of the dispatcher does to the fields that matter\<close>

subsection \<open>Fields by position\<close>

definition string_at :: "string \<Rightarrow> string" where
  "string_at p = take (unpack_be (take 4 p)) (drop 4 p)"

definition after_string :: "string \<Rightarrow> string" where
  "after_string p = drop (unpack_be (take 4 p)) (drop 4 p)"

lemma extract_string_fields [proxy_effects]:
  "fst (extract_string r) = string_at (pdata r)" "pdata (snd (extract_string r)) = after_string (pdata r)"
  by (simp_all add: extract_string_def extract_int_def string_at_def after_string_def Let_def)

lemma extract_int_fields [proxy_effects]:
  "fst (extract_int n r) = unpack_be (take n (pdata r))" "pdata (snd (extract_int n r)) = drop n (pdata r)"
  by (simp_all add: extract_int_def)

lemma extract_bool_fields [proxy_effects]: "pdata (snd (extract_bool r)) = drop 1 (pdata r)"
  by (simp add: extract_bool_def extract_int_def Let_def)

text \<open>Reading leaves everything but the data alone.\<close>

lemma extract_keeps [simp]:
  "channels (snd (extract_int n s)) = channels s" "channels (snd (extract_string s)) = channels s"
  "channels (snd (extract_bool s)) = channels s"
  "sendOn (snd (extract_int n s)) = sendOn s" "sendOn (snd (extract_string s)) = sendOn s"
  "sendOn (snd (extract_bool s)) = sendOn s"
  "to_backend (snd (extract_int n s)) = to_backend s" "to_backend (snd (extract_string s)) = to_backend s"
  "to_backend (snd (extract_bool s)) = to_backend s"
  "client_set (snd (extract_int n s)) = client_set s" "client_set (snd (extract_string s)) = client_set s"
  "client_set (snd (extract_bool s)) = client_set s"
  "raw_log (snd (extract_int n s)) = raw_log s" "raw_log (snd (extract_string s)) = raw_log s"
  "raw_log (snd (extract_bool s)) = raw_log s"
  "uploads (snd (extract_int n s)) = uploads s" "uploads (snd (extract_string s)) = uploads s"
  "uploads (snd (extract_bool s)) = uploads s"
  "recordings (snd (extract_int n s)) = recordings s" "recordings (snd (extract_string s)) = recordings s"
  "recordings (snd (extract_bool s)) = recordings s"
  by (simp_all add: extract_int_def extract_string_def extract_bool_def Let_def)

subsection \<open>What is withheld\<close>

definition withheld :: "proxy_env \<Rightarrow> nat \<Rightarrow> string \<Rightarrow> bool" where
  "withheld env num p \<longleftrightarrow>
     num \<in> {7, 50, 51, 52, 53, 60, 61}
     \<or> num = 5 \<and> string_at p = ''ssh-userauth''
     \<or> num = 90 \<and> string_at p \<in> {''direct-tcpip'', ''forwarded-tcpip''} \<and> \<not> forwarding env
     \<or> num = 98 \<and> string_at (drop 4 p) = ''subsystem'' \<and> string_at (drop 1 (after_string (drop 4 p))) = ''sftp''
       \<and> \<not> sftp_enabled env
     \<or> num = 80 \<and> string_at p = ''tcpip-forward'' \<and> \<not> forwarding env"

text \<open>An operation that sends nothing to the backend.\<close>

definition quiet :: "ssh \<Rightarrow> ssh \<Rightarrow> bool" where
  "quiet s s' \<longleftrightarrow> to_backend s' = to_backend s \<and> client_set s' = client_set s \<and> raw_log s' = raw_log s"

definition same_gate :: "ssh \<Rightarrow> ssh \<Rightarrow> bool" where
  "same_gate s s' \<longleftrightarrow> quiet s s' \<and> sendOn s' = sendOn s"

lemma update_keeps [simp]:
  "sendOn (update_channel k f s) = sendOn s" "to_backend (update_channel k f s) = to_backend s"
  "client_set (update_channel k f s) = client_set s" "raw_log (update_channel k f s) = raw_log s"
  "sendOn (remove_channel k s) = sendOn s" "to_backend (remove_channel k s) = to_backend s"
  "client_set (remove_channel k s) = client_set s" "raw_log (remove_channel k s) = raw_log s"
  "sendOn (create_channel p i ty s) = sendOn s" "to_backend (create_channel p i ty s) = to_backend s"
  "client_set (create_channel p i ty s) = client_set s" "raw_log (create_channel p i ty s) = raw_log s"
  "sendOn (no_send s) = False" "to_backend (no_send s) = to_backend s"
  "client_set (no_send s) = client_set s" "raw_log (no_send s) = raw_log s" "channels (no_send s) = channels s"
  by (simp_all add: update_channel_def remove_channel_def create_channel_def no_send_def)

lemma with_channel_gate:
  "same_gate s0 s \<Longrightarrow> (\<And>k. same_gate s0 (fst (f k))) \<Longrightarrow> same_gate s0 (fst (with_channel n p s f))"
  by (simp add: with_channel_def split: sum.splits)

lemma ext_info_gate: "quiet s (ext_info s) \<and> \<not> sendOn (ext_info s)"
proof -
  have "to_backend ((g ^^ n) r) = to_backend r \<and> client_set ((g ^^ n) r) = client_set r
      \<and> raw_log ((g ^^ n) r) = raw_log r" if "g = (\<lambda>r. snd (extract_string (snd (extract_string r))))" for g :: "ssh \<Rightarrow> ssh" and n r
    using that by (induction n arbitrary: r) (simp_all add: funpow_swap1)
  then show ?thesis by (simp add: ext_info_def quiet_def Let_def split_beta)
qed

lemma info_loops:
  "quiet s (info_prompts i n s) \<and> sendOn (info_prompts i n s) = sendOn s"
  "quiet s (info_responses i n s) \<and> sendOn (info_responses i n s) = sendOn s"
proof (induction n arbitrary: i s)
  case (Suc n)
  {
    case 1
    let ?s = "snd (extract_bool (snd (extract_string s)))"
    have "quiet s (info_prompts (Suc i) n ?s)" "sendOn (info_prompts (Suc i) n ?s) = sendOn s"
      "quiet s (info_prompts (Suc i) n (?s\<lparr>expect_password := i\<rparr>))"
      "sendOn (info_prompts (Suc i) n (?s\<lparr>expect_password := i\<rparr>)) = sendOn s"
      using Suc.IH(1) [of ?s "Suc i"] Suc.IH(1) [of "?s\<lparr>expect_password := i\<rparr>" "Suc i"] by (simp_all add: quiet_def)
    then show ?case by (simp add: Let_def split_beta)
  next
    case 2
    let ?s = "snd (extract_string s)" and ?p = "fst (extract_string s)"
    have "quiet s (info_responses (Suc i) n ?s)" "sendOn (info_responses (Suc i) n ?s) = sendOn s"
      "quiet s (info_responses (Suc i) n (?s\<lparr>password := ?p\<rparr>))"
      "sendOn (info_responses (Suc i) n (?s\<lparr>password := ?p\<rparr>)) = sendOn s"
      using Suc.IH(2) [of ?s "Suc i"] Suc.IH(2) [of "?s\<lparr>password := ?p\<rparr>" "Suc i"] by (simp_all add: quiet_def)
    then show ?case by (auto simp: Let_def split_beta)
  }
qed (simp_all add: quiet_def)

lemma userauth_gate: "quiet s (fst (userauth_request s)) \<and> \<not> sendOn (fst (userauth_request s))"
  by (simp add: userauth_request_def quiet_def Let_def split_beta server_send_def)

lemma info_gate:
  "quiet s (info_request s) \<and> \<not> sendOn (info_request s)" "quiet s (info_response s) \<and> \<not> sendOn (info_response s)"
  using info_loops by (simp_all add: info_request_def info_response_def quiet_def Let_def split_beta)

lemma data_gate: "same_gate s (fst (channel_data env p k s))"
  by (simp add: channel_data_def same_gate_def quiet_def Let_def split_beta split: option.splits prod.splits)

lemma close_gate: "same_gate s (fst (channel_close env p s))"
  unfolding channel_close_def Let_def split_beta
  by (intro with_channel_gate)
     (auto simp: finish_close_def same_gate_def quiet_def split: option.splits prod.splits sum.splits)

lemma message_data_gate: "same_gate s (fst (message_data env p ext s))"
proof -
  have "same_gate s (fst (channel_data env p k (snd (extract_int 4 s))))"
    "same_gate s (fst (channel_data env p k (snd (extract_int 4 (snd (extract_int 4 s))))))" for k
    using data_gate [of _ env p k] by (simp_all add: same_gate_def quiet_def)
  then show ?thesis unfolding message_data_def Let_def split_beta
    by (intro with_channel_gate) (auto simp: same_gate_def quiet_def)
qed

lemma confirmation_gate: "same_gate s (fst (open_confirmation p s))" "same_gate s (fst (open_failure p s))"
  unfolding open_confirmation_def open_failure_def Let_def split_beta
  by (intro with_channel_gate; simp add: same_gate_def quiet_def)+

lemma start_gate: "same_gate s (fst (start_shell env k s))" "same_gate s (fst (start_exec env k s))"
  by (simp_all add: start_shell_def start_exec_def same_gate_def quiet_def Let_def split_beta
      split: sum.splits prod.splits)


text \<open>The three requests that may be refused; the refusal goes back to the attacker.\<close>

lemma send_back_quiet: "same_gate s (fst (send_back env SERVER num p s))"
  by (simp add: send_back_def server_send_def same_gate_def quiet_def)

lemma channel_open_gate:
  "quiet s (fst (channel_open env SERVER s))
   \<and> (sendOn s \<longrightarrow> sendOn (fst (channel_open env SERVER s))
        = (\<not> (string_at (pdata s) \<in> {''direct-tcpip'', ''forwarded-tcpip''} \<and> \<not> forwarding env)))"
proof -
  have w: "same_gate s (fst (with_channel n p s1 (\<lambda>k. (update_channel k (f k) s1, Inr ()))))"
    if "same_gate s s1" for n p s1 f
    using that by (intro with_channel_gate) (simp_all add: same_gate_def quiet_def)
  have b: "quiet s (fst (send_back env SERVER 92 q (no_send s1))) \<and> \<not> sendOn (fst (send_back env SERVER 92 q (no_send s1)))"
    if "same_gate s s1" for q s1
    using that by (simp add: send_back_def server_send_def same_gate_def quiet_def)
  let ?s2 = "snd (extract_int 4 (snd (extract_string s)))"
  let ?s5 = "snd (extract_int 4 (snd (extract_string (snd (extract_int 4 (snd (extract_string
      (snd (extract_int 4 (snd (extract_int 4 ?s2)))))))))))"
  have g: "same_gate s ?s5" "same_gate s (create_channel p i ty ?s5)" "same_gate s (create_channel p i ty ?s2)"
    "same_gate s ?s2" for p i ty
    by (simp_all add: same_gate_def quiet_def)
  show ?thesis
    using w [OF g(2)] b [OF g(1)] g(3,4)
    by (auto simp: channel_open_def Let_def split_beta proxy_effects same_gate_def)
qed

lemma subsystem_gate:
  "quiet s (fst (start_subsystem env SERVER k s))
   \<and> (snd (start_subsystem env SERVER k s) = Inr () \<longrightarrow> sendOn s \<longrightarrow> sendOn (fst (start_subsystem env SERVER k s))
        = (\<not> (string_at (drop 1 (pdata s)) = ''sftp'' \<and> \<not> sftp_enabled env)))"
  by (simp add: start_subsystem_def Let_def split_beta proxy_effects quiet_def send_back_def server_send_def
      split: sum.splits)

lemma channel_request_gate:
  "quiet s (fst (channel_request env SERVER s))
   \<and> (snd (channel_request env SERVER s) = Inr () \<longrightarrow> sendOn s \<longrightarrow> sendOn (fst (channel_request env SERVER s))
        = (\<not> (string_at (drop 4 (pdata s)) = ''subsystem'' \<and> string_at (drop 1 (after_string (drop 4 (pdata s)))) = ''sftp''
               \<and> \<not> sftp_enabled env)))"
proof (cases "get_channel (fst (extract_int 4 s)) SERVER (snd (extract_int 4 s))")
  case (Inl e)
  then show ?thesis by (simp add: channel_request_def with_channel_def Let_def split_beta quiet_def)
next
  case (Inr k)
  let ?s2 = "snd (extract_string (snd (extract_int 4 s)))" and ?ty = "string_at (drop 4 (pdata s))"
  have g: "quiet s ?s2" "sendOn ?s2 = sendOn s" "pdata ?s2 = after_string (drop 4 (pdata s))"
    by (simp_all add: quiet_def proxy_effects)
  have q: "quiet s s'" if "quiet ?s2 s'" for s' using that by (simp add: quiet_def)
  have i: "get_channel (unpack_be (take 4 (pdata s))) SERVER (snd (extract_int 4 s)) = Inr k"
    using Inr by (simp add: proxy_effects)
  note request = channel_request_def with_channel_def i Let_def split_beta proxy_effects
  have o: "same_gate s (fst (channel_request env SERVER s))" if "?ty \<notin> {''shell'', ''exec'', ''subsystem''}"
    using that by (simp add: request same_gate_def quiet_def)
  consider "?ty = ''shell''" | "?ty = ''exec''" | "?ty = ''subsystem''" | "?ty \<notin> {''shell'', ''exec'', ''subsystem''}" by blast
  then show ?thesis
  proof cases
    case 1
    then have e: "channel_request env SERVER s = start_shell env k ?s2" by (simp add: request)
    show ?thesis unfolding e using start_gate(1) [of ?s2 env k] q g(2) 1 by (simp add: same_gate_def)
  next
    case 2
    then have e: "channel_request env SERVER s = start_exec env k ?s2" by (simp add: request)
    show ?thesis unfolding e using start_gate(2) [of ?s2 env k] q g(2) 2 by (simp add: same_gate_def)
  next
    case 3
    then have e: "channel_request env SERVER s = start_subsystem env SERVER k ?s2" by (simp add: request)
    show ?thesis unfolding e using subsystem_gate [of ?s2 env k] q g 3 by simp
  next
    case 4
    then show ?thesis using o by (simp add: same_gate_def)
  qed
qed

lemma global_request_gate:
  "quiet s (fst (global_request env SERVER s))
   \<and> (sendOn s \<longrightarrow> sendOn (fst (global_request env SERVER s))
        = (\<not> (string_at (pdata s) = ''tcpip-forward'' \<and> \<not> forwarding env)))"
  by (simp add: global_request_def Let_def split_beta proxy_effects quiet_def send_back_def server_send_def)

lemma service_request_gate:
  "quiet s (service_request s)
   \<and> (sendOn s \<longrightarrow> sendOn (service_request s) = (string_at (pdata s) \<noteq> ''ssh-userauth''))"
  by (simp add: service_request_def Let_def split_beta proxy_effects quiet_def)

lemmas gate_simps = inspect_def withheld_def same_gate_def quiet_def

lemma inspect_gate:
  assumes "inspect env SERVER num s = (s', Inr ())" "sendOn s"
  shows "quiet s s' \<and> sendOn s' = (\<not> withheld env num (pdata s))"
proof -
  have f: "fst (inspect env SERVER num s) = s'" "snd (inspect env SERVER num s) = Inr ()" by (simp_all add: assms(1))
  consider "num = 5" | "num = 7" | "num = 50" | "num \<in> {60, 61}" | "num = 90" | "num \<in> {91, 92}"
    | "num = 98" | "num = 97" | "num \<in> {94, 95}" | "num = 80" | "num \<in> {51, 52, 53}"
    | "num \<notin> {5, 7, 50, 51, 52, 53, 60, 61, 80, 90, 91, 92, 94, 95, 97, 98}" by blast
  then show ?thesis
  proof cases
    case 1 with service_request_gate [of s] f assms(2) show ?thesis by (simp add: gate_simps)
  next
    case 2 with ext_info_gate [of s] f assms(2) show ?thesis by (simp add: gate_simps)
  next
    case 3 with userauth_gate [of s] f assms(2) show ?thesis by (simp add: gate_simps)
  next
    case 4 then show ?thesis using info_gate [of s] f assms(2) by (auto simp: gate_simps)
  next
    case 5 with channel_open_gate [of s env] f assms(2) show ?thesis by (simp add: gate_simps)
  next
    case 6 then show ?thesis using confirmation_gate [of s SERVER] f assms(2) by (auto simp: gate_simps)
  next
    case 7 with channel_request_gate [of s env] f assms(2) show ?thesis by (simp add: gate_simps)
  next
    case 8 with close_gate [of s env SERVER] f assms(2) show ?thesis by (simp add: gate_simps)
  next
    case 9 then show ?thesis using message_data_gate [of s env SERVER] f assms(2) by (auto simp: gate_simps)
  next
    case 10 with global_request_gate [of s env] f assms(2) show ?thesis by (simp add: gate_simps)
  next
    case 11 then show ?thesis using f assms(2) by (auto simp: gate_simps)
  next
    case 12 then show ?thesis using f assms(2) by (auto simp: gate_simps split: if_splits)
  qed
qed

lemma passed_on:
  assumes "parse_num_packet env SERVER num payload s = (s', Inr ())"
  shows "to_backend s' = to_backend s @ (if withheld env num payload then [] else [(num, payload)])"
proof -
  define s1 where "s1 = s\<lparr>pdata := payload, packetSize := int (length payload), sendOn := True\<rparr>"
  define s2 where "s2 = (if log_raw env then s1\<lparr>raw_log := raw_log s1 @ [(SERVER, num, payload)]\<rparr> else s1)"
  have s2: "sendOn s2" "pdata s2 = payload" "to_backend s2 = to_backend s" by (simp_all add: s2_def s1_def)
  obtain s3 where i: "inspect env SERVER num s2 = (s3, Inr ())" "pass_on SERVER num payload s3 = (s', Inr ())"
    using assms
    by (cases "inspect env SERVER num s2"; cases "snd (inspect env SERVER num s2)")
       (auto simp: parse_num_packet_def Let_def s1_def [symmetric] s2_def [symmetric] split: if_splits)
  from inspect_gate [OF i(1) s2(1)] i(2) s2 show ?thesis
    by (auto simp: pass_on_def client_send_def quiet_def split: if_splits)
qed

text \<open>What the attacker sends reaches the backend unchanged, once and in its place, or not at all: a
  message that raises nothing is added to what was sent to the backend exactly if it is not withheld, and
  withheld are the messages of the authentication and the requests for what is switched off.\<close>

theorem attacker_message_passed_on:
  assumes "parse_num_packet env SERVER num payload s = (s', Inr ())"
  shows "to_backend s' = to_backend s @ (if withheld env num payload then [] else [(num, payload)])"
  using assms by (rule passed_on)


subsection \<open>The shape of channels\<close>

text \<open>A channel has an identifier of at least one side, and what runs on it has those it was started with.\<close>

definition channel_ok :: "channel \<Rightarrow> bool" where
  "channel_ok c \<longleftrightarrow>
     (serverID c \<noteq> None \<or> clientID c \<noteq> None)
     \<and> (case chan_session c of
          Some (Term_session _) \<Rightarrow> serverID c \<noteq> None \<and> clientID c \<noteq> None
        | Some (Exec_session _) \<Rightarrow> serverID c \<noteq> None
        | Some (Sftp_session _) \<Rightarrow> serverID c \<noteq> None
        | _ \<Rightarrow> True)"

definition chans_ok :: "ssh \<Rightarrow> bool" where
  "chans_ok s \<longleftrightarrow> list_all channel_ok (channels s)"

named_theorems chan_rules \<open>an operation keeps the shape of the channels\<close>

lemma chans_same [chan_rules]: "chans_ok s \<Longrightarrow> channels s' = channels s \<Longrightarrow> chans_ok s'"
  by (simp add: chans_ok_def)

lemma chans_update:
  assumes "chans_ok s" "channel_ok (channels s ! k) \<Longrightarrow> channel_ok (f (channels s ! k))"
  shows "chans_ok (update_channel k f s)"
proof (cases "k < length (channels s)")
  case True
  then have "channel_ok (channels s ! k)" using assms(1) by (simp add: chans_ok_def list_all_length)
  with assms show ?thesis
    by (auto simp: chans_ok_def update_channel_def list_all_iff dest!: set_update_subset_insert [THEN subsetD])
qed (use assms(1) in \<open>simp add: chans_ok_def update_channel_def list_update_beyond\<close>)

lemma chans_remove: "chans_ok s \<Longrightarrow> chans_ok (remove_channel k s)"
  by (auto simp: chans_ok_def remove_channel_def list_all_iff dest: in_set_takeD in_set_dropD)

lemma chans_create: "chans_ok s \<Longrightarrow> chans_ok (create_channel p i ty s)"
  by (cases p) (simp_all add: chans_ok_def create_channel_def channel_ok_def)

lemma find_channel_found:
  "find_channel p n cs = Inr k \<Longrightarrow> k < length cs \<and> search_id p (cs ! k) = Some n"
  by (induction cs arbitrary: k) (auto simp: rbind_Inr_iff split: option.splits if_splits)

lemma with_channel_chans:
  "chans_ok s \<Longrightarrow> (\<And>k. k < length (channels s) \<Longrightarrow> chans_ok (fst (f k))) \<Longrightarrow> chans_ok (fst (with_channel n p s f))"
  using find_channel_found [of p n "channels s"] by (auto simp: with_channel_def get_channel_def split: sum.splits)

lemma send_chans [simp]:
  "channels (fst (server_send num q s)) = channels s" "channels (fst (client_send num q s)) = channels s"
  "channels (fst (send_back env p num q s)) = channels s" "channels (fst (pass_on p num q s)) = channels s"
  by (simp_all add: server_send_def client_send_def send_back_def pass_on_def split: side.splits)

lemma info_chans [simp]:
  "channels (info_prompts i n s) = channels s" "channels (info_responses i n s) = channels s"
proof (induction n arbitrary: i s)
  case (Suc n)
  {
    case 1 then show ?case using Suc.IH(1) by (simp add: Let_def split_beta)
  next
    case 2 then show ?case using Suc.IH(2) by (simp add: Let_def split_beta)
  }
qed simp_all

lemma auth_chans [simp]:
  "channels (fst (userauth_request s)) = channels s" "channels (info_request s) = channels s"
  "channels (info_response s) = channels s" "channels (service_request s) = channels s"
  "channels (ext_info s) = channels s"
proof -
  have "channels ((g ^^ n) r) = channels r" if "g = (\<lambda>r. snd (extract_string (snd (extract_string r))))"
    for g :: "ssh \<Rightarrow> ssh" and n r
    using that by (induction n arbitrary: r) (simp_all add: funpow_swap1)
  then show "channels (ext_info s) = channels s" by (simp add: ext_info_def Let_def split_beta)
qed (simp_all add: userauth_request_def info_request_def info_response_def service_request_def Let_def split_beta)

lemma session_kind:
  assumes "session_parse_packet env p data c du = ((c1, du1), r)"
  shows "channel_ok (ch\<lparr>chan_session := Some c\<rparr>) \<Longrightarrow> channel_ok (ch\<lparr>chan_session := Some c1\<rparr>)"
  using assms
  by (auto simp: session_parse_packet_def channel_ok_def Let_def split: chan_session.splits prod.splits)

lemma session_closed_kind:
  assumes "session_closed env c d = ((c1, d1), r)"
  shows "channel_ok (ch\<lparr>chan_session := Some c\<rparr>) \<Longrightarrow> channel_ok (ch\<lparr>chan_session := Some c1\<rparr>)"
  using assms
  by (auto simp: session_closed_def channel_ok_def split: chan_session.splits prod.splits)

lemma data_chans: "chans_ok s \<Longrightarrow> chans_ok (fst (channel_data env p k s))"
proof (cases "chan_session (channels s ! k)")
  case (Some c)
  assume ok: "chans_ok s"
  let ?s1 = "snd (extract_string s)"
  obtain c1 d1 u1 r where r: "session_parse_packet env p (fst (extract_string s)) c (recordings ?s1, uploads ?s1)
      = ((c1, d1, u1), r)" by (metis prod.collapse)
  have "(channels s ! k)\<lparr>chan_session := Some c\<rparr> = channels s ! k" using Some by simp
  then have "chans_ok (update_channel k (\<lambda>ch. ch\<lparr>chan_session := Some c1\<rparr>) ?s1)"
    using ok session_kind [OF r, of "channels s ! k"] by (intro chans_update) (simp_all add: chans_ok_def)
  then show ?thesis using Some r by (simp add: channel_data_def Let_def split_beta chans_ok_def)
qed (simp add: channel_data_def)

lemma chans_ok_fields [simp]:
  "chans_ok (s\<lparr>recordings := d\<rparr>) = chans_ok s" "chans_ok (s\<lparr>uploads := u\<rparr>) = chans_ok s"
  "chans_ok (snd (extract_int n s)) = chans_ok s" "chans_ok (snd (extract_string s)) = chans_ok s"
  "chans_ok (snd (extract_bool s)) = chans_ok s" "chans_ok (no_send s) = chans_ok s"
  "chans_ok (fst (send_back env p num q s)) = chans_ok s"
  by (simp_all add: chans_ok_def)

lemma update_channel_nth: "k < length (channels s) \<Longrightarrow> channels (update_channel k f s) ! k = f (channels s ! k)"
  by (simp add: update_channel_def)

lemma channel_ok_name [simp]: "channel_ok (c\<lparr>chan_name := nm\<rparr>) = channel_ok c"
  unfolding channel_ok_def by (auto split: option.splits chan_session.splits)

lemma channel_ok_session:
  "serverID c \<noteq> None \<Longrightarrow> channel_ok (c\<lparr>chan_session := Some (Exec_session x)\<rparr>)"
  "serverID c \<noteq> None \<Longrightarrow> channel_ok (c\<lparr>chan_name := nm, chan_session := Some (Sftp_session f)\<rparr>)"
  "serverID c \<noteq> None \<Longrightarrow> clientID c \<noteq> None \<Longrightarrow> channel_ok (c\<lparr>chan_session := Some (Term_session t)\<rparr>)"
  by (simp_all add: channel_ok_def)

lemma start_chans:
  assumes "chans_ok s" "k < length (channels s)"
  shows "chans_ok (fst (start_shell env k s))" "chans_ok (fst (start_exec env k s))"
    "chans_ok (fst (start_subsystem env p k s))"
proof -
  let ?c = "channels s ! k"
  have nm: "chans_ok (update_channel k (\<lambda>ch. ch\<lparr>chan_name := nm\<rparr>) s)" for nm
    using assms(1) by (rule chans_update) simp
  have t: "chans_ok (update_channel k (\<lambda>ch. ch\<lparr>chan_session := Some (Term_session t)\<rparr>)
      (update_channel k (\<lambda>ch. ch\<lparr>chan_name := nm\<rparr>) s))" if "serverID ?c \<noteq> None" "clientID ?c \<noteq> None" for t nm
    using nm by (rule chans_update) (simp add: update_channel_nth assms(2) channel_ok_session that)
  have x: "chans_ok (update_channel k (\<lambda>ch. ch\<lparr>chan_session := Some (Exec_session x)\<rparr>) s')"
    if "serverID ?c \<noteq> None" "channels s' = channels (update_channel k (\<lambda>ch. ch\<lparr>chan_name := nm\<rparr>) s)" for x nm s'
    using nm [of nm] that by (intro chans_update) (simp_all add: update_channel_nth assms(2) channel_ok_session chans_ok_def)
  have f: "chans_ok (update_channel k (\<lambda>ch. ch\<lparr>chan_name := nm, chan_session := Some (Sftp_session f)\<rparr>) s')"
    if "serverID ?c \<noteq> None" "channels s' = channels s" for f nm s'
    using assms(1) that by (intro chans_update) (simp_all add: channel_ok_session chans_ok_def)
  show "chans_ok (fst (start_shell env k s))"
    using assms(1) nm t
    by (auto simp: start_shell_def chan_id_def Let_def split: sum.splits option.splits prod.splits)
  show "chans_ok (fst (start_exec env k s))"
    using assms(1) nm x
    by (auto simp: start_exec_def chan_id_def Let_def split_beta split: sum.splits option.splits prod.splits)
  show "chans_ok (fst (start_subsystem env p k s))"
    using assms(1) f
    by (auto simp: start_subsystem_def chan_id_def Let_def split_beta split: sum.splits option.splits prod.splits)
qed

lemma open_chans: "chans_ok s \<Longrightarrow> chans_ok (fst (channel_open env p s))"
proof -
  assume ok: "chans_ok s"
  have w: "chans_ok (fst (with_channel n q s1 (\<lambda>k. (update_channel k (\<lambda>ch. ch\<lparr>chan_name := nm, chan_session := Some Port_forward\<rparr>) s1, Inr ()))))"
    if "chans_ok s1" for n q s1 nm
    using that
    by (intro with_channel_chans) (auto intro!: chans_update simp: channel_ok_def split: option.splits chan_session.splits)
  show ?thesis
    using ok by (auto simp: channel_open_def Let_def split_beta intro!: w chans_create)
qed

lemma confirmation_chans:
  assumes "chans_ok s"
  shows "chans_ok (fst (open_confirmation p s))" "chans_ok (fst (open_failure p s))"
proof -
  have set_id: "channel_ok (if p = SERVER then c\<lparr>serverID := Some i\<rparr> else c\<lparr>clientID := Some i\<rparr>)" if "channel_ok c" for c i
    using that unfolding channel_ok_def by (auto split: option.splits chan_session.splits)
  show "chans_ok (fst (open_confirmation p s))"
    unfolding open_confirmation_def Let_def split_beta
    by (rule with_channel_chans) (use assms set_id in \<open>auto intro!: chans_update\<close>)
  show "chans_ok (fst (open_failure p s))"
    unfolding open_failure_def Let_def split_beta
    by (rule with_channel_chans) (use assms in \<open>auto intro: chans_remove\<close>)
qed

lemma request_chans: "chans_ok s \<Longrightarrow> chans_ok (fst (channel_request env p s))"
  unfolding channel_request_def Let_def split_beta
  by (rule with_channel_chans) (auto intro!: start_chans)

lemma finish_close_chans: "chans_ok s \<Longrightarrow> chans_ok (fst (finish_close env k s))"
proof -
  assume ok: "chans_ok s"
  have "chans_ok (update_channel k (\<lambda>ch. ch\<lparr>chan_session := Some c1\<rparr>) s)"
    if "chan_session (channels s ! k) = Some c" "session_closed env c d = ((c1, d1), r)" for c c1 d d1 r
  proof (rule chans_update [OF ok])
    assume "channel_ok (channels s ! k)"
    moreover have "(channels s ! k)\<lparr>chan_session := Some c\<rparr> = channels s ! k" using that(1) by simp
    ultimately show "channel_ok ((channels s ! k)\<lparr>chan_session := Some c1\<rparr>)"
      using session_closed_kind [OF that(2), of "channels s ! k"] by simp
  qed
  then show ?thesis
    using ok chans_remove [OF ok, of k]
    by (auto simp: finish_close_def split: option.splits prod.splits sum.splits)
qed

lemma close_chans: "chans_ok s \<Longrightarrow> chans_ok (fst (channel_close env p s))"
proof -
  assume ok: "chans_ok s"
  have "channel_ok c \<Longrightarrow> channel_ok (if p = SERVER then c\<lparr>server_closed := True\<rparr> else c\<lparr>client_closed := True\<rparr>)" for c
    unfolding channel_ok_def by (auto split: option.splits chan_session.splits)
  then show ?thesis unfolding channel_close_def Let_def split_beta
    by (intro with_channel_chans finish_close_chans chans_update) (simp_all add: ok)
qed

lemma message_data_chans: "chans_ok s \<Longrightarrow> chans_ok (fst (message_data env p ext s))"
  unfolding message_data_def Let_def split_beta
  by (rule with_channel_chans) (auto intro!: data_chans)

lemma global_chans: "chans_ok s \<Longrightarrow> chans_ok (fst (global_request env p s))"
  by (simp add: global_request_def Let_def split_beta)

lemma inspect_chans: "chans_ok s \<Longrightarrow> chans_ok (fst (inspect env p num s))"
  using open_chans [of s env p] confirmation_chans [of s p] request_chans [of s env p] close_chans [of s env p]
    message_data_chans [of s env p] global_chans [of s env p]
  by (simp add: inspect_def) (simp add: chans_ok_def)

lemma parse_chans: "chans_ok s \<Longrightarrow> chans_ok (fst (parse_num_packet env p num payload s))"
proof -
  assume ok: "chans_ok s"
  define s1 where "s1 = s\<lparr>pdata := payload, packetSize := int (length payload), sendOn := True\<rparr>"
  define s2 where "s2 = (if log_raw env then s1\<lparr>raw_log := raw_log s1 @ [(p, num, payload)]\<rparr> else s1)"
  have s2: "chans_ok s1" "chans_ok s2" using ok by (simp_all add: s1_def s2_def chans_ok_def)
  have "chans_ok (fst (sbind (inspect env p num s2) (\<lambda>s3 _. pass_on p num payload s3)))"
  proof (cases "inspect env p num s2")
    case (Pair s3 r)
    then have "chans_ok s3" using inspect_chans [OF s2(2), of env p num] by simp
    then show ?thesis using Pair by (cases r) (simp_all add: chans_ok_def)
  qed
  then show ?thesis using s2(1) by (simp add: parse_num_packet_def Let_def s1_def [symmetric] s2_def [symmetric])
qed

interpretation proxy_machine: machine "\<lambda>s (env, p, num, payload). fst (parse_num_packet env p num payload s)" chans_ok
  by unfold_locales (auto intro: parse_chans)

text \<open>C16: In every run of messages from both sides, well formed or not, each channel has the identifier of at
  least one side, a terminal on it those of both, and a command or an SFTP session that of the backend's
  side it is named after.\<close>

theorem channels_well_formed:
  assumes "c \<in> set (channels (foldl (\<lambda>s (env, p, num, payload). fst (parse_num_packet env p num payload s)) (ssh_init d u) ms))"
  shows "(serverID c \<noteq> None \<or> clientID c \<noteq> None)
    \<and> (\<forall>t. chan_session c = Some (Term_session t) \<longrightarrow> serverID c \<noteq> None \<and> clientID c \<noteq> None)
    \<and> (\<forall>x. chan_session c = Some (Exec_session x) \<longrightarrow> serverID c \<noteq> None)
    \<and> (\<forall>f. chan_session c = Some (Sftp_session f) \<longrightarrow> serverID c \<noteq> None)"
proof -
  have "chans_ok (ssh_init d u)" by (simp add: chans_ok_def ssh_init_def)
  from proxy_machine.run_inv [OF this, of ms] assms have "channel_ok c" by (auto simp: chans_ok_def list_all_iff)
  then show ?thesis unfolding channel_ok_def by (auto split: option.splits)
qed

subsection \<open>Channels that wait for their confirmation\<close>

lemma find_channel_blocked:
  "search_id p c = None \<Longrightarrow> \<forall>c' \<in> set cs. search_id p c' \<noteq> Some n \<Longrightarrow> find_channel p n (cs @ c # ds) = Inl KeyError"
  by (induction cs) (auto split: option.splits)

lemma blocked_inspect:
  assumes "find_channel p n (channels s) = Inl KeyError" "n < 256 ^ 4" "num \<in> {91, 92, 94, 95, 97, 98}"
    "pdata s = pack_be 4 n @ rest"
  shows "inspect env p num s = (s\<lparr>packetSize := packetSize s - int 4, pdata := rest\<rparr>, Inl KeyError)"
proof -
  have e: "extract_int 4 s = (n, s\<lparr>packetSize := packetSize s - int 4, pdata := rest\<rparr>)"
    by (rule extract_int_field [OF assms(2,4)])
  show ?thesis
    using assms(1,3)
    by (auto simp: inspect_def open_confirmation_def open_failure_def message_data_def channel_close_def
        channel_request_def e with_channel_def get_channel_def Let_def)
qed

text \<open>While a channel waits for its confirmation, every message of the other side for a channel opened
  after it raises KeyError and is not passed on, though that channel is there and confirmed.\<close>

theorem pending_channel_blocks:
  assumes "channels s = cs @ c # ds" "search_id p c = None" "\<forall>c' \<in> set cs. search_id p c' \<noteq> Some n"
    "n < 256 ^ 4" "num \<in> {91, 92, 94, 95, 97, 98}" "\<not> log_raw env"
  shows "\<exists>s'. parse_num_packet env p num (pack_be 4 n @ rest) s = (s', Inl KeyError)
    \<and> to_backend s' = to_backend s \<and> to_frontend s' = to_frontend s \<and> channels s' = channels s"
proof -
  let ?s = "s\<lparr>pdata := pack_be 4 n @ rest, packetSize := int (length (pack_be 4 n @ rest)), sendOn := True\<rparr>"
  have "find_channel p n (channels ?s) = Inl KeyError"
    unfolding assms(1) using find_channel_blocked [OF assms(2,3)] assms(1) by simp
  from blocked_inspect [OF this assms(4,5), of rest env] assms(6) show ?thesis
    by (simp add: parse_num_packet_def Let_def)
qed

subsection \<open>Uploads through the dispatcher\<close>

text \<open>The messages of a session, one after the other.\<close>

fun dispatch_run :: "proxy_env \<Rightarrow> (side \<times> nat \<times> string) list \<Rightarrow> ssh \<Rightarrow> (ssh, unit) sres" where
  "dispatch_run env [] s = (s, Inr ())"
| "dispatch_run env ((p, num, payload) # ms) s =
     sbind (parse_num_packet env p num payload s) (\<lambda>s' _. dispatch_run env ms s')"

definition data_message :: "(side \<Rightarrow> nat) \<Rightarrow> side \<times> string \<Rightarrow> side \<times> nat \<times> string" where
  "data_message ids m = (case m of (p, d) \<Rightarrow> (p, 94, pack_be 4 (ids p) @ field d))"

definition sftp_request :: "nat \<Rightarrow> side \<times> nat \<times> string" where
  "sftp_request n = (SERVER, 98, pack_be 4 n @ field ''subsystem'' @ pack_be 1 1 @ field ''sftp'')"

lemma find_channel_ids: "map (search_id p) cs = map (search_id p) cs' \<Longrightarrow> find_channel p n cs = find_channel p n cs'"
proof (induction cs arbitrary: cs')
  case (Cons c cs)
  then obtain c' ds where "cs' = c' # ds" "search_id p c = search_id p c'" "map (search_id p) cs = map (search_id p) ds"
    by (cases cs') auto
  with Cons.IH [of ds] show ?case by (simp split: option.split)
qed simp

lemma find_channel_update:
  assumes "k < length cs" "\<And>c. search_id p (f c) = search_id p c"
  shows "find_channel p n (cs[k := f (cs ! k)]) = find_channel p n cs"
  by (rule find_channel_ids) (simp add: map_update assms list_update_same_conv)

text \<open>Channel \<open>k\<close> is the one both sides mean, and carries the SFTP session \<open>f\<close>.\<close>

definition reached :: "(side \<Rightarrow> nat) \<Rightarrow> nat \<Rightarrow> ssh \<Rightarrow> bool" where
  "reached ids k s \<longleftrightarrow> client_set s \<and> k < length (channels s) \<and> (\<forall>p. find_channel p (ids p) (channels s) = Inr k)"

definition carries :: "(side \<Rightarrow> nat) \<Rightarrow> nat \<Rightarrow> sftp \<Rightarrow> ssh \<Rightarrow> bool" where
  "carries ids k f s \<longleftrightarrow> reached ids k s
     \<and> (\<exists>f0. chan_session (channels s ! k) = Some (Sftp_session f0) \<and> f = f0\<lparr>downloads := uploads s\<rparr>)"

lemma downloads_same [simp]: "(f :: sftp)\<lparr>downloads := downloads f\<rparr> = f"
  by (cases f) simp

lemma reached_update:
  assumes "reached ids k s" "\<And>p c. search_id p (g c) = search_id p c"
    "channels s' = channels (update_channel k g s)" "client_set s' = client_set s"
  shows "reached ids k s'"
  using assms by (simp add: reached_def update_channel_def find_channel_update)

lemma pass_on_ok:
  "client_set s \<Longrightarrow> \<exists>s'. pass_on p num payload s = (s', Inr ()) \<and> channels s' = channels s
     \<and> client_set s' = client_set s \<and> uploads s' = uploads s"
  by (cases p) (simp_all add: pass_on_def client_send_def server_send_def)

text \<open>Reading a field moves on in the data and leaves the rest of the state.\<close>

definition same_core :: "ssh \<Rightarrow> ssh \<Rightarrow> bool" where
  "same_core s s' \<longleftrightarrow> channels s' = channels s \<and> client_set s' = client_set s \<and> uploads s' = uploads s
     \<and> recordings s' = recordings s"

lemma read_int:
  assumes "n < 256 ^ w" "pdata s = pack_be w n @ rest"
  obtains s' where "extract_int w s = (n, s')" "pdata s' = rest" "same_core s s'"
  using extract_int_field [OF assms] by (simp add: same_core_def)

lemma read_string:
  assumes "length t < 256 ^ 4" "pdata s = field t @ rest"
  obtains s' where "extract_string s = (t, s')" "pdata s' = rest" "same_core s s'"
  using extract_string_field [OF assms] by (simp add: same_core_def)

lemma read_bool:
  assumes "pdata s = c # rest"
  obtains s' where "snd (extract_bool s) = s'" "pdata s' = rest" "same_core s s'"
  using assms by (simp add: extract_bool_def extract_int_def same_core_def)

text \<open>A message whose inspection leaves the session \<open>f\<close> on channel \<open>k\<close>.\<close>

lemma carried_message:
  assumes r: "reached ids k s" and l: "\<not> log_raw env" and g: "\<And>p c. search_id p (g c) = search_id p c"
    and c: "same_core s s1" "\<And>c. chan_session (g c) = Some (Sftp_session f)" "u = downloads f"
    and i: "inspect env p num (s\<lparr>pdata := payload, packetSize := int (length payload), sendOn := True\<rparr>)
      = ((update_channel k g s1)\<lparr>recordings := d, uploads := u\<rparr>, Inr ())"
  shows "\<exists>s'. dispatch_run env [(p, num, payload)] s = (s', Inr ()) \<and> carries ids k f s' \<and> uploads s' = u"
proof -
  let ?s4 = "(update_channel k g s1)\<lparr>recordings := d, uploads := u\<rparr>"
  have r4: "reached ids k ?s4"
    by (rule reached_update [OF r g]) (use c(1) in \<open>simp_all add: update_channel_def same_core_def\<close>)
  have f4: "chan_session (channels ?s4 ! k) = Some (Sftp_session f)"
    using r c by (simp add: reached_def update_channel_def same_core_def)
  obtain s5 where "pass_on p num payload ?s4 = (s5, Inr ())" "channels s5 = channels ?s4"
    "client_set s5 = client_set ?s4" "uploads s5 = uploads ?s4"
    using pass_on_ok [of ?s4 p num payload] r4 unfolding reached_def by blast
  with r4 f4 i l c(3) show ?thesis
    by (intro exI [of _ s5]) (simp add: parse_num_packet_def Let_def carries_def reached_def exI [of _ f])
qed

lemma carries_step:
  assumes c: "carries ids k f s" and w: "ids p < 256 ^ 4" "length d < 256 ^ 4" "\<not> log_raw env"
    and f: "sftp_parse_packet (sha256 env) p d f = (f', Inr ())"
  shows "\<exists>s'. dispatch_run env [data_message ids (p, d)] s = (s', Inr ()) \<and> carries ids k f' s' \<and> uploads s' = downloads f'"
proof -
  let ?pay = "pack_be 4 (ids p) @ field d" and ?g = "\<lambda>ch. ch\<lparr>chan_session := Some (Sftp_session f')\<rparr>"
  define s1 where "s1 = s\<lparr>pdata := ?pay, packetSize := int (length ?pay), sendOn := True\<rparr>"
  from c obtain f0 where f0: "reached ids k s" "chan_session (channels s ! k) = Some (Sftp_session f0)"
    "f0\<lparr>downloads := uploads s\<rparr> = f" by (auto simp: carries_def)
  obtain s2 where s2: "extract_int 4 s1 = (ids p, s2)" "pdata s2 = field d" "same_core s1 s2"
    by (rule read_int [OF w(1), of s1 "field d"]) (simp_all add: s1_def)
  obtain s3 where s3: "extract_string s2 = (d, s3)" "same_core s2 s3"
    by (rule read_string [OF w(2), of s2 "[]"]) (simp_all add: s2)
  have sc: "same_core s s3" using s2(3) s3(2) by (simp add: same_core_def s1_def)
  have "inspect env p 94 s1 = ((update_channel k ?g s3)\<lparr>recordings := recordings s, uploads := downloads f'\<rparr>, Inr ())"
    using f0 f sc s2(3) unfolding inspect_def message_data_def s2(1)
    by (simp add: with_channel_def get_channel_def reached_def channel_data_def s3(1) session_parse_packet_def
        same_core_def s1_def)
  then show ?thesis unfolding data_message_def prod.case s1_def
    by (intro carried_message [OF f0(1) w(3), of ?g s3]) (simp_all add: search_id_def sc)
qed

lemma carries_run:
  assumes "carries ids k f s" "\<forall>p. ids p < 256 ^ 4" "\<forall>(p, d) \<in> set ms. length d < 256 ^ 4" "\<not> log_raw env"
    "parse_run (sha256 env) ms f = (f', Inr ())"
  shows "\<exists>s'. dispatch_run env (map (data_message ids) ms) s = (s', Inr ()) \<and> carries ids k f' s' \<and>
    (ms \<noteq> [] \<longrightarrow> uploads s' = downloads f')"
  using assms
proof (induction ms arbitrary: f s)
  case (Cons m ms)
  obtain p d where m: "m = (p, d)" by (cases m)
  obtain f1 r where f1: "sftp_parse_packet (sha256 env) p d f = (f1, r)" by (metis prod.collapse)
  with Cons.prems(5) have r: "r = Inr ()" "parse_run (sha256 env) ms f1 = (f', Inr ())"
    by (cases r; simp add: m)+
  have "ids p < 256 ^ 4" using Cons.prems(2) by (rule spec)
  moreover have "length d < 256 ^ 4" using Cons.prems(3) by (simp add: m)
  ultimately have b: "ids p < 256 ^ 4" "length d < 256 ^ 4" .
  obtain s1 where
    s1: "dispatch_run env [data_message ids (p, d)] s = (s1, Inr ())" "carries ids k f1 s1" "uploads s1 = downloads f1"
    using carries_step [OF Cons.prems(1) b Cons.prems(4) f1 [unfolded r(1)]] by blast
  from Cons.IH [OF s1(2) Cons.prems(2) _ Cons.prems(4) r(2)] Cons.prems(3) obtain s2 where
    s2: "dispatch_run env (map (data_message ids) ms) s1 = (s2, Inr ())" "carries ids k f' s2"
      "ms \<noteq> [] \<longrightarrow> uploads s2 = downloads f'" by (auto simp: m)
  have "dispatch_run env (map (data_message ids) (m # ms)) s = (s2, Inr ())"
    using s1(1) s2(1) by (auto simp: m data_message_def sbind_def split: prod.splits sum.splits)
  moreover have "uploads s2 = downloads f'" using s1(3) s2 r(2) by (cases ms) auto
  ultimately show ?case using s2(2) by simp
qed simp

lemma sftp_start:
  assumes r: "reached ids k s" and e: "sftp_enabled env" "\<not> log_raw env" "ids SERVER < 256 ^ 4"
    "serverID (channels s ! k) \<noteq> None"
  shows "\<exists>s'. dispatch_run env [sftp_request (ids SERVER)] s = (s', Inr ())
    \<and> carries ids k (sftp_init (uploads s)) s' \<and> uploads s' = uploads s"
proof -
  let ?pay = "pack_be 4 (ids SERVER) @ field ''subsystem'' @ [char_of (1 :: nat)] @ field ''sftp''"
  define s1 where "s1 = s\<lparr>pdata := ?pay, packetSize := int (length ?pay), sendOn := True\<rparr>"
  obtain s2 where s2: "extract_int 4 s1 = (ids SERVER, s2)"
      "pdata s2 = field ''subsystem'' @ [char_of (1 :: nat)] @ field ''sftp''" "same_core s1 s2"
    by (rule read_int [OF e(3), of s1]) (simp_all add: s1_def)
  obtain s3 where s3: "extract_string s2 = (''subsystem'', s3)" "pdata s3 = char_of (1 :: nat) # field ''sftp''" "same_core s2 s3"
    by (rule read_string [of "''subsystem''" s2 "char_of (1 :: nat) # field ''sftp''"]) (simp_all add: s2)
  obtain s4 where s4: "snd (extract_bool s3) = s4" "pdata s4 = field ''sftp''" "same_core s3 s4"
    by (rule read_bool [OF s3(2)]) simp
  obtain s5 where s5: "extract_string s4 = (''sftp'', s5)" "same_core s4 s5"
    by (rule read_string [of "''sftp''" s4 "[]"]) (simp_all add: s4)
  from e(4) obtain sid where sid: "serverID (channels s ! k) = Some sid" by auto
  let ?g = "\<lambda>ch. ch\<lparr>chan_name := ''[SFTP'' @ digits_of_nat sid @ '']'', chan_session := Some (Sftp_session (sftp_init (uploads s)))\<rparr>"
  have sc: "same_core s s5" "same_core s s2" using s2(3) s3(3) s4(3) s5(2) by (simp_all add: same_core_def s1_def)
  have "inspect env SERVER 98 s1 = (update_channel k ?g s5, Inr ())"
    using r e(1) sid sc unfolding inspect_def channel_request_def s2(1)
    by (simp add: with_channel_def get_channel_def reached_def s3(1) start_subsystem_def s4(1) s5(1) chan_id_def
        same_core_def)
  moreover have "update_channel k ?g s5 = (update_channel k ?g s5)\<lparr>recordings := recordings s, uploads := uploads s\<rparr>"
    using sc(1) by (cases s5) (simp add: update_channel_def same_core_def)
  ultimately have "inspect env SERVER 98 s1
      = ((update_channel k ?g s5)\<lparr>recordings := recordings s, uploads := uploads s\<rparr>, Inr ())" by simp
  then show ?thesis unfolding sftp_request_def s1_def
    by (intro carried_message [OF r e(2), of ?g s5]) (simp_all add: search_id_def sc)
qed

text \<open>C10: The whole way of an upload: on an open channel the attacker asks for SFTP, opens a file for
  writing, sends it in consecutive chunks and closes it, each packet in a message of its own, and the download
  directory of the proxy has the file under its hash, and nothing else is new in it. Paths with the
  letters "get" in them are left out: the parser takes an upload to such a path for a download and
  loses it (\<open>sftp_upload_named_get_lost\<close> in \<open>Ssh_Sftp_Props\<close>).\<close>

theorem upload_through_dispatcher:
  assumes "reached ids k s" "serverID (channels s ! k) \<noteq> None" "\<forall>p. ids p < 256 ^ 4"
    "sftp_enabled env" "\<not> log_raw env"
    "upload_fits i path pflags attrs h cs n" "\<not> contains ''get'' (''put '' @ path)"
    "\<forall>(p, d) \<in> set (upload_session i path pflags attrs h cs n). length d < 256 ^ 4"
    "uploads s (sha256 env (chunk_data cs)) \<in> {None, Some (chunk_data cs)}"
  shows "\<exists>s'. dispatch_run env (sftp_request (ids SERVER)
        # map (data_message ids) (upload_session i path pflags attrs h cs n)) s = (s', Inr ())
    \<and> uploads s' = (uploads s)(sha256 env (chunk_data cs) \<mapsto> chunk_data cs)"
proof -
  obtain s1 where s1: "dispatch_run env [sftp_request (ids SERVER)] s = (s1, Inr ())"
    "carries ids k (sftp_init (uploads s)) s1"
    using sftp_start [OF assms(1,4,5) assms(3) [rule_format] assms(2)] by blast
  obtain f where f: "parse_run (sha256 env) (upload_session i path pflags attrs h cs n) (sftp_init (uploads s)) = (f, Inr ())"
    "downloads f = (uploads s)(sha256 env (chunk_data cs) \<mapsto> chunk_data cs)"
    using upload_run [of "sftp_init (uploads s)" i path pflags attrs h cs n "sha256 env"] assms(6,7,9)
    by (auto simp: fun_upd_idem split: if_splits)
  obtain s2 where s2: "dispatch_run env (map (data_message ids) (upload_session i path pflags attrs h cs n)) s1 = (s2, Inr ())"
    "uploads s2 = downloads f"
    using carries_run [OF s1(2) assms(3,8,5) f(1)] by (auto simp: upload_session_def)
  have "dispatch_run env (sftp_request (ids SERVER) # map (data_message ids) (upload_session i path pflags attrs h cs n)) s
      = (s2, Inr ())"
    using s1(1) s2(1) by (auto simp: sftp_request_def sbind_def split: prod.splits sum.splits)
  with s2(2) f(2) show ?thesis by auto
qed

subsection \<open>At work on a concrete proxy\<close>

definition demo_env :: proxy_env where
  "demo_env = \<lparr>forwarding = False, sftp_enabled = True, log_raw = False, tty_enabled = False, tty_path = ''t'',
     known_message = (\<lambda>_. True), sha256 = rev, env_now = 0, env_stamp = [], the_uuid = [], env_transport = []\<rparr>"

definition demo_channel :: channel where
  "demo_channel = \<lparr>serverID = Some 2, clientID = Some 1, chan_type = ''session'', chan_name = [], chan_session = None,
     server_closed = False, client_closed = False\<rparr>"

definition demo_ssh :: "channel list \<Rightarrow> ssh" where
  "demo_ssh cs = (set_client (ssh_init Map.empty Map.empty))\<lparr>channels := cs\<rparr>"

theorem attacker_message_passed_on_witness:
  "\<exists>s'. parse_num_packet demo_env SERVER 2 ''xyz'' (demo_ssh []) = (s', Inr ()) \<and> to_backend s' = [(2, ''xyz'')]"
proof -
  obtain s' where s': "parse_num_packet demo_env SERVER 2 ''xyz'' (demo_ssh []) = (s', Inr ())"
    by (simp add: parse_num_packet_def inspect_def demo_env_def demo_ssh_def ssh_init_def set_client_def Let_def
        pass_on_def client_send_def)
  from attacker_message_passed_on [OF s'] s' show ?thesis
    by (simp add: withheld_def demo_ssh_def ssh_init_def set_client_def)
qed

theorem channels_well_formed_witness:
  "\<exists>c. channels (foldl (\<lambda>s (env, p, num, payload). fst (parse_num_packet env p num payload s))
      (ssh_init Map.empty Map.empty) [(demo_env, CLIENT, 90, field ''session'' @ pack_be 4 7)]) = [c] \<and> clientID c \<noteq> None"
proof -
  let ?ms = "[(demo_env, CLIENT, 90 :: nat, field ''session'' @ pack_be 4 7)]"
  let ?run = "foldl (\<lambda>s (env, p, num, payload). fst (parse_num_packet env p num payload s)) (ssh_init Map.empty Map.empty) ?ms"
  have "\<exists>c. channels ?run = [c] \<and> serverID c = None"
    by (simp add: parse_num_packet_def inspect_def channel_open_def extract_string_def extract_int_def field_def
        unpack_pack_be create_channel_def ssh_init_def demo_env_def pass_on_def server_send_def Let_def)
  then obtain c where c: "channels ?run = [c]" "serverID c = None" by blast
  then have "c \<in> set (channels ?run)" by simp
  from channels_well_formed [OF this] c show ?thesis by blast
qed

theorem pending_channel_blocks_witness:
  "\<exists>s'. parse_num_packet demo_env SERVER 94 (pack_be 4 1 @ field ''ls'')
        (demo_ssh [demo_channel\<lparr>clientID := None\<rparr>, demo_channel]) = (s', Inl KeyError) \<and> to_backend s' = []"
proof -
  have "\<exists>s'. parse_num_packet demo_env SERVER 94 (pack_be 4 1 @ field ''ls'')
      (demo_ssh [demo_channel\<lparr>clientID := None\<rparr>, demo_channel]) = (s', Inl KeyError)
    \<and> to_backend s' = to_backend (demo_ssh [demo_channel\<lparr>clientID := None\<rparr>, demo_channel])
    \<and> to_frontend s' = to_frontend (demo_ssh [demo_channel\<lparr>clientID := None\<rparr>, demo_channel])
    \<and> channels s' = channels (demo_ssh [demo_channel\<lparr>clientID := None\<rparr>, demo_channel])"
    by (rule pending_channel_blocks [where cs = "[]" and c = "demo_channel\<lparr>clientID := None\<rparr>" and ds = "[demo_channel]"])
       (simp_all add: demo_ssh_def search_id_def demo_channel_def demo_env_def)
  then show ?thesis by (auto simp: demo_ssh_def ssh_init_def set_client_def)
qed

definition demo_ids :: "side \<Rightarrow> nat" where
  "demo_ids p = (case p of SERVER \<Rightarrow> 1 | CLIENT \<Rightarrow> 2)"

theorem upload_through_dispatcher_witness:
  "\<exists>s'. dispatch_run demo_env (sftp_request 1
        # map (data_message demo_ids) (upload_session 1 ''/tmp/a'' 2 [] ''h'' [(2, 2, ''xy''), (3, 3, ''z'')] 4))
      (demo_ssh [demo_channel]) = (s', Inr ()) \<and> uploads s' = [''zyx'' \<mapsto> ''xyz'']"
proof -
  let ?cs = "[(2, 2, ''xy''), (3, 3, ''z'')] :: (nat \<times> nat \<times> string) list"
  have n: "\<not> contains ''get'' (''put '' @ ''/tmp/a'')" by (simp add: contains_def)
  have u: "upload_fits 1 ''/tmp/a'' 2 [] ''h'' ?cs 4" by (simp add: upload_fits_def chunk_fits_def)
  have r: "reached demo_ids 0 (demo_ssh [demo_channel])"
    by (auto simp: reached_def demo_ids_def demo_ssh_def demo_channel_def set_client_def search_id_def split: side.splits)
  have i: "\<forall>p. demo_ids p < 256 ^ 4" by (simp add: demo_ids_def split: side.splits)
  have l: "\<forall>(p, d) \<in> set (upload_session 1 ''/tmp/a'' 2 [] ''h'' ?cs 4). length d < 256 ^ 4"
    by (simp add: upload_session_def fx_open_def fx_handle_def fx_write_def fx_close_def fx_ok_def packet_def)
  have e: "sftp_enabled demo_env" "\<not> log_raw demo_env" "sha256 demo_env = rev" by (simp_all add: demo_env_def)
  have c: "serverID (channels (demo_ssh [demo_channel]) ! 0) \<noteq> None" "uploads (demo_ssh [demo_channel]) = Map.empty"
    by (simp_all add: demo_ssh_def demo_channel_def set_client_def ssh_init_def)
  have "demo_ids SERVER = 1" by (simp add: demo_ids_def)
  then show ?thesis
    using upload_through_dispatcher [OF r c(1) i e(1,2) u n l] by (simp add: c(2) e(3))
qed

end
