(* ===== verification/Ssh_Transport_Props.thy ===== *)
theory Ssh_Transport_Props
  imports Ssh_Transport Ssh_Proxy_Props "HOL-Library.Sublist"
begin

section \<open>Nothing the attacker sends is lost or overtaken\<close>

text \<open>
  Properties of \<open>Ssh_Transport\<close>: the messages the attacker sends before the backend is there are held
  and reach it later, all of them and in order; the proxy's own login goes first; what breaks this; the
  frames on the wire; and the version line. What the two transports ask of the message dispatcher is the
  locale \<open>message_parser\<close>.
\<close>

subsection \<open>The dispatcher as the transports see it\<close>

locale message_parser =
  fixes parse :: "'m \<Rightarrow> 's \<Rightarrow> ('s, unit) sres" and sent :: "'s \<Rightarrow> 'o list" and out :: "'m \<Rightarrow> 'o list"
    and many :: "'m list \<Rightarrow> 's \<Rightarrow> ('s, unit) sres"
  assumes parse_sends: "parse m s = (s', Inr ()) \<Longrightarrow> sent s' = sent s @ out m"
    and many_Nil: "many [] s = (s, Inr ())"
    and many_Cons: "many (m # ms) s = sbind (parse m s) (\<lambda>s' _. many ms s')"
begin

lemma many_sends: "many ms s = (s', Inr ()) \<Longrightarrow> sent s' = sent s @ concat (map out ms)"
proof (induction ms arbitrary: s)
  case (Cons m ms)
  obtain s1 r where m: "parse m s = (s1, r)" by (metis prod.collapse)
  with Cons.prems have r: "r = Inr ()" by (cases r) (simp_all add: many_Cons)
  with Cons.IH [of s1] Cons.prems m parse_sends [OF m [unfolded r]] show ?case by (simp add: many_Cons)
qed (simp add: many_Nil)

text \<open>The first message that raises ends the run, and those before it have been sent.\<close>

lemma many_fails:
  assumes "many ms s = (s', Inl e)"
  obtains as m bs s1 where "ms = as @ m # bs" "many as s = (s1, Inr ())" "parse m s1 = (s', Inl e)"
    "sent s1 = sent s @ concat (map out as)"
  using assms
proof (induction ms arbitrary: s thesis)
  case (Cons m ms)
  obtain s1 r where m: "parse m s = (s1, r)" by (metis prod.collapse)
  show ?case
  proof (cases r)
    case (Inl e')
    with Cons.prems(2) m have "s' = s1" "e' = e" by (simp_all add: many_Cons)
    with Cons.prems(1) [of "[]" m ms s] m Inl show ?thesis by (simp add: many_Nil)
  next
    case (Inr u)
    then have m': "parse m s = (s1, Inr ())" using m by simp
    with Cons.prems(2) have "many ms s1 = (s', Inl e)" by (simp add: many_Cons)
    from Cons.IH [OF _ this] obtain as m2 bs s2 where "ms = as @ m2 # bs" "many as s1 = (s2, Inr ())"
      "parse m2 s2 = (s', Inl e)" "sent s2 = sent s1 @ concat (map out as)" by blast
    with Cons.prems(1) [of "m # as" m2 bs s2] m' parse_sends [OF m'] show ?thesis by (simp add: many_Cons)
  qed
qed (simp add: many_Nil)

end

definition passed :: "proxy_env \<Rightarrow> nat \<times> string \<Rightarrow> (nat \<times> string) list" where
  "passed env m = (if withheld env (fst m) (snd m) then [] else [m])"

interpretation ssh_parser: message_parser "\<lambda>(n, d). parse_num_packet env SERVER n d" to_backend "passed env"
  "parse_each env SERVER" for env
  by unfold_locales (auto simp: passed_def dest: passed_on)

subsection \<open>No message takes one back\<close>

text \<open>Whatever a message does, and whichever side it is from, what has been sent to the backend stays sent.\<close>

definition grows :: "ssh \<Rightarrow> ssh \<Rightarrow> bool" where
  "grows s s' \<longleftrightarrow> prefix (to_backend s) (to_backend s') \<and> client_set s' = client_set s"

lemma quiet_grows: "quiet s s' \<Longrightarrow> grows s s'"
  by (simp add: quiet_def grows_def)

lemma grows_trans: "grows s s1 \<Longrightarrow> grows s1 s2 \<Longrightarrow> grows s s2"
  by (auto simp: grows_def)

lemma send_grows [simp]:
  "grows s (fst (client_send n q s))" "grows s (fst (server_send n q s))" "grows s (no_send s)"
  "grows s (fst (send_back env p n q s))" "grows s (fst (pass_on p n q s))" "grows s s"
  by (simp_all add: grows_def client_send_def server_send_def no_send_def send_back_def pass_on_def split: side.splits)

lemma same_grows: "to_backend s' = to_backend s \<Longrightarrow> client_set s' = client_set s \<Longrightarrow> grows s s'"
  by (simp add: grows_def)

lemma grows_through:
  "grows s r \<Longrightarrow> grows s (no_send r)" "grows s r \<Longrightarrow> grows s (fst (send_back env p n q r))"
  "grows s r \<Longrightarrow> grows s (snd (extract_int k r))" "grows s r \<Longrightarrow> grows s (snd (extract_string r))"
  "grows s r \<Longrightarrow> grows s (create_channel p i ty r)"
  by (auto intro: grows_trans) (simp_all add: grows_def)

lemma with_channel_grows: "grows s0 s \<Longrightarrow> (\<And>k. grows s0 (fst (f k))) \<Longrightarrow> grows s0 (fst (with_channel n p s f))"
  by (simp add: with_channel_def split: sum.splits)

lemma request_grows: "grows s (fst (channel_request env p s))"
proof -
  have sub: "grows r (fst (start_subsystem env p k r))" for k r
    by (auto simp: start_subsystem_def Let_def split_beta intro: same_grows grows_trans [OF same_grows send_grows(4)]
        split: sum.splits)
  have g: "grows s r \<Longrightarrow> grows s (fst (start_shell env k r))" "grows s r \<Longrightarrow> grows s (fst (start_exec env k r))" for k r
    using start_gate [of r env k] by (auto simp: same_gate_def intro: grows_trans quiet_grows)
  have r: "grows s (snd (extract_int 4 s))" "grows s (snd (extract_string (snd (extract_int 4 s))))"
    by (simp_all add: grows_def)
  show ?thesis unfolding channel_request_def Let_def split_beta
    by (intro with_channel_grows) (auto simp: r intro!: g sub [THEN [2] grows_trans] same_grows)
qed

lemma open_grows: "grows s (fst (channel_open env p s))" "grows s (fst (global_request env p s))"
proof -
  show "grows s (fst (global_request env p s))"
    by (auto simp: global_request_def Let_def split_beta intro!: grows_through)
  have w: "grows s (fst (with_channel n q s1 (\<lambda>k. (update_channel k (f k) s1, Inr ()))))" if "grows s s1" for n q s1 f
    using that by (intro with_channel_grows) (simp_all add: grows_def)
  show "grows s (fst (channel_open env p s))" unfolding channel_open_def Let_def split_beta
    by (auto intro!: w grows_through)
qed

lemma parse_grows: "grows s (fst (parse_num_packet env p num payload s))"
proof -
  have i: "grows s2 (fst (inspect env p num s2))" for s2
    using service_request_gate [of s2] ext_info_gate [of s2] userauth_gate [of s2] info_gate [of s2]
      confirmation_gate [of s2 p] close_gate [of s2 env p] message_data_gate [of s2 env p]
    by (simp add: inspect_def same_gate_def quiet_grows open_grows request_grows same_grows)
  define s1 where "s1 = s\<lparr>pdata := payload, packetSize := int (length payload), sendOn := True\<rparr>"
  define s2 where "s2 = (if log_raw env then s1\<lparr>raw_log := raw_log s1 @ [(p, num, payload)]\<rparr> else s1)"
  have s: "grows s s1" "grows s s2" by (simp_all add: s1_def s2_def grows_def)
  have "grows s2 (fst (sbind (inspect env p num s2) (\<lambda>s3 _. pass_on p num payload s3)))"
    using i [of s2] send_grows(5) [of _ p num payload]
    by (cases "inspect env p num s2"; cases "snd (inspect env p num s2)") (auto intro: grows_trans)
  with s show ?thesis
    by (auto simp: parse_num_packet_def s1_def [symmetric] s2_def [symmetric] Let_def intro: grows_trans)
qed

lemma each_grows: "grows s (fst (parse_each env p ms s))"
proof (induction env p ms s rule: parse_each.induct)
  case (2 env p num payload ms s)
  then show ?case using parse_grows [of s env p num payload]
    by (cases "parse_num_packet env p num payload s"; cases "snd (parse_num_packet env p num payload s)")
       (auto intro: grows_trans)
qed simp

subsection \<open>The whole connection\<close>

text \<open>What of the events reaches the buffer on the attacker's side: not the messages Twisted gets.\<close>

fun received :: "bool \<Rightarrow> conn_event list \<Rightarrow> (nat \<times> string) list" where
  "received enc [] = []"
| "received enc (Front n d # es) = (if n = 5 \<or> 50 \<le> n \<and> n \<le> 79 \<or> \<not> enc then [] else [(n, d)]) @ received enc es"
| "received enc (Front_keys # es) = received True es"
| "received enc (_ # es) = received enc es"

text \<open>The backend's channel is secure only after the connection to it has been made.\<close>

fun in_order :: "bool \<Rightarrow> conn_event list \<Rightarrow> bool" where
  "in_order up [] = True"
| "in_order up (Backend_up # es) = in_order True es"
| "in_order up (Backend_secure # es) = (up \<and> in_order up es)"
| "in_order up (_ # es) = in_order up es"

definition logged_in :: "proxy_conf \<Rightarrow> (nat \<times> string) list \<Rightarrow> (nat \<times> string) list \<Rightarrow> bool" where
  "logged_in conf rs ys \<longleftrightarrow>
     (\<exists>pl zs. login_payload conf = Inr pl \<and> ys = [(5, field ''ssh-userauth''), (50, pl)] @ zs
        \<and> subseq (concat (map (passed (conf_env conf)) rs)) zs)"

definition in_sync :: "proxy_conf \<Rightarrow> (nat \<times> string) list \<Rightarrow> conn \<Rightarrow> bool" where
  "in_sync conf rs c \<longleftrightarrow>
     (if backendConnected c then front_delayed c = [] \<and> logged_in conf rs (to_backend (proto c))
      else front_delayed c = rs \<and> to_backend (proto c) = [])
     \<and> back_encrypted c = canAuth c \<and> (canAuth c \<longrightarrow> client_set (proto c))"

definition ready :: "conn \<Rightarrow> bool" where
  "ready c \<longleftrightarrow> (frontendAuthenticated c \<and> canAuth c \<longrightarrow> backendConnected c)"

lemma logged_in_grows: "logged_in conf rs ys \<Longrightarrow> prefix ys ys' \<Longrightarrow> logged_in conf rs ys'"
  unfolding logged_in_def by (auto elim!: prefixE)

lemma with_proto_ok: "with_proto f c = (c', Inr ()) \<Longrightarrow> c' = c\<lparr>proto := fst (f (proto c))\<rparr> \<and> f (proto c) = (proto c', Inr ())"
  by (auto simp: with_proto_def split: prod.splits)

lemma sbind_ok: "sbind m f = (s, Inr x) \<Longrightarrow> \<exists>s1 y. m = (s1, Inr y) \<and> f s1 y = (s, Inr x)"
  by (cases m; cases "snd m") auto

lemma in_sync_fields [simp]:
  "in_sync conf rs (c\<lparr>back_delayed := x\<rparr>) = in_sync conf rs c"
  "in_sync conf rs (c\<lparr>proto := p, back_delayed := x\<rparr>) = in_sync conf rs (c\<lparr>proto := p\<rparr>)"
  "in_sync conf rs (c\<lparr>frontendAuthenticated := b\<rparr>) = in_sync conf rs c"
  "in_sync conf rs (c\<lparr>to_twisted := m\<rparr>) = in_sync conf rs c"
  "in_sync conf rs (c\<lparr>exit_codes := l\<rparr>) = in_sync conf rs c"
  "in_sync conf rs (c\<lparr>frontend_tried := u\<rparr>) = in_sync conf rs c"
  "in_sync conf rs (c\<lparr>front_encrypted := b\<rparr>) = in_sync conf rs c"
  by (simp_all add: in_sync_def)

lemma authenticate_sync:
  assumes k: "in_sync conf rs c" and a: "authenticate_backend conf c = (c', Inr ())"
  shows "in_sync conf rs c' \<and> ready c' \<and> front_encrypted c' = front_encrypted c"
proof (cases "frontendAuthenticated c \<and> canAuth c")
  case False
  then show ?thesis using a k by (auto simp: authenticate_backend_def ready_def)
next
  case True
  from a True obtain pl where pl: "login_payload conf = Inr pl"
    by (auto simp: authenticate_backend_def Let_def split: sum.splits)
  define c2 where "c2 = (back_send 50 pl (back_send 5 (field ''ssh-userauth'') c))\<lparr>backendConnected := True\<rparr>"
  have "authenticate_backend conf c = sbind (with_proto (parse_each (conf_env conf) SERVER (front_delayed c2)) c2)
      (\<lambda>c3 _. (c3\<lparr>front_delayed := [], authDone := True\<rparr>, Inr ()))"
    using True pl by (simp add: authenticate_backend_def Let_def c2_def)
  with a obtain c3 where c3: "with_proto (parse_each (conf_env conf) SERVER (front_delayed c2)) c2 = (c3, Inr ())"
    "c' = c3\<lparr>front_delayed := [], authDone := True\<rparr>"
    by (auto dest: sbind_ok)
  obtain p3 where p: "c3 = c2\<lparr>proto := p3\<rparr>" "parse_each (conf_env conf) SERVER (front_delayed c2) (proto c2) = (p3, Inr ())"
    using with_proto_ok [OF c3(1)] by (metis fst_conv)
  from ssh_parser.many_sends [OF p(2)]
  have s: "to_backend p3 = to_backend (proto c) @ [(5, field ''ssh-userauth''), (50, pl)]
      @ concat (map (passed (conf_env conf)) (front_delayed c))"
    by (simp add: c2_def back_send_def)
  have f: "backendConnected c'" "front_delayed c' = []" "proto c' = p3" "back_encrypted c' = back_encrypted c"
    "canAuth c' = canAuth c" "front_encrypted c' = front_encrypted c"
    by (simp_all add: c3(2) p(1) c2_def back_send_def)
  have "client_set p3" using each_grows [of "proto c2" "conf_env conf" SERVER "front_delayed c2"] p(2) True k
    by (simp add: grows_def in_sync_def c2_def back_send_def)
  moreover have "logged_in conf rs (to_backend (proto c'))"
  proof (cases "backendConnected c")
    case True
    then have "logged_in conf rs (to_backend (proto c))" using k by (simp add: in_sync_def)
    then show ?thesis by (rule logged_in_grows) (simp add: f s)
  next
    case False
    with k have "front_delayed c = rs" "to_backend (proto c) = []" by (simp_all add: in_sync_def)
    then show ?thesis using pl by (simp add: f s logged_in_def)
  qed
  ultimately show ?thesis using f k by (simp add: in_sync_def ready_def)
qed

lemma proto_sync:
  assumes "in_sync conf rs c" "backendConnected c" "grows (proto c) p"
  shows "in_sync conf rs (c\<lparr>proto := p\<rparr>)"
  using assms by (auto simp: in_sync_def grows_def elim: logged_in_grows)

lemma back_buffer_sync:
  assumes k: "in_sync conf rs c" "ready c" "back_encrypted c" and b: "back_buffer conf n d c = (c', Inr ())"
  shows "in_sync conf rs c' \<and> ready c' \<and> front_encrypted c' = front_encrypted c"
proof (cases "frontendAuthenticated c")
  case False
  then show ?thesis using k b by (auto simp: back_buffer_def in_sync_def ready_def)
next
  case True
  then have up: "backendConnected c" using k by (simp add: in_sync_def ready_def)
  have s: "in_sync conf rs (c\<lparr>proto := fst (parse_each (conf_env conf) CLIENT ms (proto c)), back_delayed := []\<rparr>)"
    "in_sync conf rs (c\<lparr>proto := fst (parse_num_packet (conf_env conf) CLIENT n d (proto c))\<rparr>)" for ms
    using proto_sync [OF k(1) up each_grows] proto_sync [OF k(1) up parse_grows] by simp_all
  from b True consider
      "c' = c\<lparr>proto := fst (parse_each (conf_env conf) CLIENT (back_delayed c @ [(n, d)]) (proto c)), back_delayed := []\<rparr>"
    | "c' = c\<lparr>proto := fst (parse_num_packet (conf_env conf) CLIENT n d (proto c))\<rparr>"
    by (auto simp: back_buffer_def Let_def dest!: sbind_ok with_proto_ok split: if_splits)
  then show ?thesis by cases (use s up in \<open>simp_all add: ready_def\<close>)
qed

lemma front_buffer_sync:
  assumes k: "in_sync conf rs c" "ready c" and b: "front_buffer conf n d c = (c', Inr ())"
  shows "in_sync conf (rs @ [(n, d)]) c' \<and> ready c' \<and> front_encrypted c' = front_encrypted c"
proof (cases "backendConnected c")
  case False
  then show ?thesis using k b by (auto simp: front_buffer_def in_sync_def ready_def)
next
  case True
  then have e: "front_delayed c = []" using k by (simp add: in_sync_def)
  with b True have p: "c' = c\<lparr>proto := proto c'\<rparr>" "parse_num_packet (conf_env conf) SERVER n d (proto c) = (proto c', Inr ())"
    by (auto simp: front_buffer_def dest: with_proto_ok)
  have "client_set (proto c') = client_set (proto c)"
    using parse_grows [of "proto c" "conf_env conf" SERVER n d] p(2) by (simp add: grows_def)
  moreover have "logged_in conf (rs @ [(n, d)]) (to_backend (proto c'))"
  proof -
    from k True obtain pl zs where "login_payload conf = Inr pl"
      "to_backend (proto c) = [(5, field ''ssh-userauth''), (50, pl)] @ zs" "subseq (concat (map (passed (conf_env conf)) rs)) zs"
      by (auto simp: in_sync_def logged_in_def)
    with passed_on [OF p(2)] show ?thesis
      by (auto simp: logged_in_def passed_def list_emb_append_mono)
  qed
  ultimately have "in_sync conf (rs @ [(n, d)]) (c\<lparr>proto := proto c'\<rparr>)" using k True by (simp add: in_sync_def)
  with p(1) True show ?thesis by (metis conn.select_convs(2) conn.select_convs(4) conn.surjective conn.update_convs(1) ready_def)
qed

lemma ready_fields [simp]:
  "ready (c\<lparr>to_twisted := m\<rparr>) = ready c" "ready (c\<lparr>exit_codes := l\<rparr>) = ready c"
  "ready (c\<lparr>front_encrypted := b\<rparr>) = ready c" "ready (c\<lparr>frontend_tried := u\<rparr>) = ready c"
  "ready (c\<lparr>frontendAuthenticated := False\<rparr>)"
  by (simp_all add: ready_def)

lemma keep_tried_sync [simp]:
  "in_sync conf rs (keep_tried u p c) = in_sync conf rs c" "front_encrypted (keep_tried u p c) = front_encrypted c"
  by (simp_all add: keep_tried_def split: option.splits)

lemma log_exit_fields [simp]:
  "in_sync conf rs (log_exit_status n d c) = in_sync conf rs c" "ready (log_exit_status n d c) = ready c"
  "front_encrypted (log_exit_status n d c) = front_encrypted c" "back_encrypted (log_exit_status n d c) = back_encrypted c"
  "frontendAuthenticated (log_exit_status n d c) = frontendAuthenticated c"
  "back_delayed (log_exit_status n d c) = back_delayed c" "proto (log_exit_status n d c) = proto c"
  by (simp_all add: log_exit_status_def Let_def split_beta)

lemma finished_sync:
  assumes k: "in_sync conf rs c" and f: "finished_auth conf user pass c = (c', Inr ())"
  shows "in_sync conf rs c' \<and> ready c' \<and> front_encrypted c' = front_encrypted c"
proof -
  let ?c1 = "c\<lparr>proto := fst (server_send 52 [] (proto c)), frontendAuthenticated := True\<rparr>"
  have c1: "in_sync conf rs ?c1" using k by (simp add: in_sync_def server_send_def)
  show ?thesis
  proof (cases "client_set (proto ?c1)")
    case True
    then have "authenticate_backend conf (keep_tried user pass ?c1) = (c', Inr ())" using f by (simp add: finished_auth_def Let_def)
    from authenticate_sync [OF _ this, of rs] c1 show ?thesis by simp
  next
    case False
    then have "\<not> canAuth c" using k by (auto simp: in_sync_def server_send_def)
    with False f c1 show ?thesis by (auto simp: finished_auth_def Let_def ready_def)
  qed
qed

text \<open>Raising or not, no event takes back what the backend has been sent.\<close>

definition conn_grows :: "conn \<Rightarrow> conn \<Rightarrow> bool" where
  "conn_grows c c' \<longleftrightarrow> prefix (to_backend (proto c)) (to_backend (proto c'))
     \<and> (client_set (proto c) \<longrightarrow> client_set (proto c'))"

lemma conn_growsI: "proto c' = proto c \<Longrightarrow> conn_grows c c'" "grows (proto c) (proto c') \<Longrightarrow> conn_grows c c'"
  by (simp_all add: conn_grows_def grows_def)

lemma with_proto_grows:
  "conn_grows c (fst (with_proto (parse_each env p ms) c))" "conn_grows c (fst (with_proto (parse_num_packet env p n d) c))"
  using each_grows [of "proto c" env p ms] parse_grows [of "proto c" env p n d]
  by (auto simp: with_proto_def split_beta intro: conn_growsI(2))

lemma sbind_grows:
  "conn_grows c (fst m) \<Longrightarrow> (\<And>c1. proto (fst (f c1 ())) = proto c1) \<Longrightarrow> conn_grows c (fst (sbind m f))"
  by (cases m; cases "snd m") (auto simp: conn_grows_def)

lemma conn_grows_trans: "conn_grows a b \<Longrightarrow> conn_grows b c \<Longrightarrow> conn_grows a c"
  by (auto simp: conn_grows_def)

lemma flush_grows:
  assumes "conn_grows c c1" "\<And>c2. proto (g c2) = proto c2"
  shows "conn_grows c (fst (sbind (with_proto (parse_each env p ms) c1) (\<lambda>c2 _. (g c2, Inr ()))))"
  using assms(2) by (intro sbind_grows conn_grows_trans [OF assms(1) with_proto_grows(1)]) simp

lemma authenticate_grows: "conn_grows c (fst (authenticate_backend conf c))"
proof -
  have s: "conn_grows c (back_send n q c)" for n q c by (simp add: conn_grows_def back_send_def)
  have "conn_grows c ((back_send n q (back_send n' q' c))\<lparr>backendConnected := True\<rparr>)" for n q n' q'
    by (simp add: conn_grows_def back_send_def)
  note f = flush_grows [OF this, of "\<lambda>c3. c3\<lparr>front_delayed := [], authDone := True\<rparr>"]
  show ?thesis
  proof (cases "login_payload conf")
    case (Inl e)
    then show ?thesis using s by (simp add: authenticate_backend_def conn_growsI)
  next
    case (Inr pl)
    then show ?thesis using f by (simp add: authenticate_backend_def conn_growsI Let_def)
  qed
qed

lemma step_grows: "conn_grows c (fst (conn_step conf e c))"
proof (cases e)
  case (Front n d)
  then show ?thesis
    by (auto simp: front_dispatch_def front_twisted_def front_buffer_def with_proto_grows intro: conn_growsI)
next
  case Backend_up
  then show ?thesis by (simp add: conn_grows_def set_client_def)
next
  case Backend_secure
  then show ?thesis
    by (auto simp: connection_secure_def intro: conn_grows_trans [OF conn_growsI(1) authenticate_grows])
next
  case (Auth_finished u p)
  have "conn_grows c (keep_tried u p (c\<lparr>proto := fst (server_send 52 [] (proto c)), frontendAuthenticated := True\<rparr>))"
    "conn_grows c (c\<lparr>proto := fst (server_send 52 [] (proto c)), frontendAuthenticated := True\<rparr>)"
    by (simp_all add: conn_grows_def keep_tried_def server_send_def split: option.splits)
  with Auth_finished show ?thesis
    by (auto simp: finished_auth_def Let_def intro: conn_grows_trans [OF _ authenticate_grows])
next
  case (Back n d)
  have "conn_grows c (fst (back_buffer conf n d c1))" if "proto c1 = proto c" for c1
  proof -
    have c: "conn_grows c c1" "conn_grows c (c1\<lparr>back_delayed := x\<rparr>)" for x using that by (simp_all add: conn_growsI)
    show ?thesis
      using c flush_grows [OF c(2), of "\<lambda>c3. c3\<lparr>back_delayed := []\<rparr>"] conn_grows_trans [OF c(1) with_proto_grows(2)]
      by (simp add: back_buffer_def Let_def)
  qed
  with Back show ?thesis by (auto simp: back_dispatch_def Let_def intro!: conn_growsI)
qed (simp_all add: conn_growsI)

interpretation conn_machine: growing_machine "\<lambda>c (conf, e). fst (conn_step conf e c)" "\<lambda>_. True" "\<lambda>c. to_backend (proto c)"
  using step_grows by unfold_locales (auto simp: conn_grows_def prefix_def)

lemma step_sync:
  assumes k: "in_sync conf rs c" "ready c" and s: "conn_step conf e c = (c', Inr ())"
    and o: "e = Backend_secure \<Longrightarrow> client_set (proto c)"
  shows "in_sync conf (rs @ received (front_encrypted c) [e]) c' \<and> ready c'
    \<and> front_encrypted c' = (e = Front_keys \<or> front_encrypted c)"
proof (cases e)
  case (Front n d)
  then show ?thesis using k s front_buffer_sync [OF k, of n d c']
    by (auto simp: front_dispatch_def front_twisted_def split: if_splits)
next
  case Front_keys
  then show ?thesis using k s by auto
next
  case Backend_up
  then show ?thesis using k s by (auto simp: in_sync_def ready_def set_client_def)
next
  case Backend_secure
  have "in_sync conf rs (c\<lparr>back_encrypted := True, canAuth := True\<rparr>)" using k o Backend_secure by (simp add: in_sync_def)
  from authenticate_sync [OF this, of c'] s Backend_secure show ?thesis by (simp add: connection_secure_def)
next
  case (Auth_finished u p)
  then show ?thesis using finished_sync [OF k(1)] s by simp
next
  case (Back n d)
  then show ?thesis
    using k s back_buffer_sync [of conf rs "log_exit_status n d c" n d c']
    by (auto simp: back_dispatch_def Let_def split: if_splits)
qed

lemma received_Cons: "received enc (e # es) = received enc [e] @ received (e = Front_keys \<or> enc) es"
  by (cases e) simp_all

lemma run_sync:
  assumes "in_sync conf rs c" "ready c" "in_order up es" "up \<Longrightarrow> client_set (proto c)" "conn_run conf es c = (c', Inr ())"
  shows "in_sync conf (rs @ received (front_encrypted c) es) c' \<and> ready c'"
  using assms
proof (induction es arbitrary: rs c up)
  case (Cons e es)
  from Cons.prems(5) obtain c1 where c1: "conn_step conf e c = (c1, Inr ())" "conn_run conf es c1 = (c', Inr ())"
    by (auto dest: sbind_ok)
  have up: "e = Backend_secure \<Longrightarrow> client_set (proto c)" using Cons.prems(3,4) by auto
  from step_sync [OF Cons.prems(1,2) c1(1) up]
  have s: "in_sync conf (rs @ received (front_encrypted c) [e]) c1" "ready c1"
    "front_encrypted c1 = (e = Front_keys \<or> front_encrypted c)" by auto
  have "client_set (proto c) \<Longrightarrow> client_set (proto c1)" using step_grows [of c conf e] c1(1) by (simp add: conn_grows_def)
  moreover have "e = Backend_up \<Longrightarrow> client_set (proto c1)" using c1(1) by (auto simp: set_client_def)
  ultimately have "in_order (up \<or> e = Backend_up) es" "up \<or> e = Backend_up \<Longrightarrow> client_set (proto c1)"
    using Cons.prems(3,4) by (cases e; auto)+
  from Cons.IH [OF s(1,2) this c1(2)] s(3) show ?case by (simp add: received_Cons [of _ e es])
qed simp

text \<open>C2: In a run without errors every message of the attacker that Twisted does not handle itself reaches
  the backend, in order and behind the proxy's own login, unless it is withheld; until the backend is logged
  into, all of them are held and nothing at all is sent; and as soon as the attacker is authenticated and the
  backend's channel is secure, nothing is held any more.\<close>

theorem attacker_messages_arrive:
  assumes "conn_run conf es (conn_init (ssh_init d u)) = (c, Inr ())" "in_order False es"
  shows "(backendConnected c \<longrightarrow> front_delayed c = []
      \<and> (\<exists>pl zs. login_payload conf = Inr pl \<and> to_backend (proto c) = [(5, field ''ssh-userauth''), (50, pl)] @ zs
           \<and> subseq (concat (map (passed (conf_env conf)) (received False es))) zs))
    \<and> (\<not> backendConnected c \<longrightarrow> front_delayed c = received False es \<and> to_backend (proto c) = [])
    \<and> (frontendAuthenticated c \<and> canAuth c \<longrightarrow> backendConnected c)"
proof -
  have "in_sync conf [] (conn_init (ssh_init d u))" "ready (conn_init (ssh_init d u))" "\<not> front_encrypted (conn_init (ssh_init d u))"
    by (simp_all add: in_sync_def ready_def conn_init_def ssh_init_def)
  with run_sync [OF this(1,2) assms(2) _ assms(1)] have "in_sync conf (received False es) c \<and> ready c" by simp
  then show ?thesis by (auto simp: in_sync_def ready_def logged_in_def)
qed

text \<open>A message with one of the numbers of the authentication, sent by an attacker who is logged in, stops
  the other direction: what the backend sends from then on is held, all of it, and nothing reaches the
  attacker, until an authentication succeeds again.\<close>

theorem late_auth_message_silences_backend:
  assumes "50 \<le> n" "n \<le> 79" "back_encrypted c" "\<forall>(m, d) \<in> set ms. m \<notin> {6, 52}"
  shows "\<exists>c'. conn_run conf (Front n d # map (\<lambda>(m, d). Back m d) ms) c = (c', Inr ())
    \<and> back_delayed c' = back_delayed c @ ms \<and> to_frontend (proto c') = to_frontend (proto c)"
proof -
  have held: "\<exists>c'. conn_run conf (map (\<lambda>(m, d). Back m d) ms) c1 = (c', Inr ())
      \<and> back_delayed c' = back_delayed c1 @ ms \<and> proto c' = proto c1"
    if "\<not> frontendAuthenticated c1" "back_encrypted c1" "\<forall>(m, d) \<in> set ms. m \<notin> {6, 52}" for c1
    using that
  proof (induction ms arbitrary: c1)
    case (Cons x ms)
    obtain m d where x: "x = (m, d)" by (cases x)
    let ?c2 = "(log_exit_status m d c1)\<lparr>back_delayed := back_delayed c1 @ [(m, d)]\<rparr>"
    have "conn_step conf (Back m d) c1 = (?c2, Inr ())"
      using Cons.prems x by (simp add: back_dispatch_def back_buffer_def Let_def)
    moreover from Cons.IH [of ?c2] Cons.prems obtain c' where "conn_run conf (map (\<lambda>(m, d). Back m d) ms) ?c2 = (c', Inr ())"
      "back_delayed c' = back_delayed ?c2 @ ms" "proto c' = proto ?c2" by auto
    ultimately show ?case using x by simp
  qed simp
  let ?c1 = "front_twisted n d (c\<lparr>frontendAuthenticated := False\<rparr>)"
  have "conn_step conf (Front n d) c = (?c1, Inr ())" using assms(1,2) by (simp add: front_dispatch_def)
  moreover from held [of ?c1] assms(3,4) obtain c' where "conn_run conf (map (\<lambda>(m, d). Back m d) ms) ?c1 = (c', Inr ())"
    "back_delayed c' = back_delayed ?c1 @ ms" "proto c' = proto ?c1" by (auto simp: front_twisted_def)
  ultimately show ?thesis by (auto simp: front_twisted_def)
qed

text \<open>When a message that has been waiting for the backend raises an error, the backend has been logged
  into and has got the messages before it, but the machine is reported clean to the pool when the attacker
  leaves, and every later message of the attacker is only held.\<close>

theorem failed_flush_reports_clean:
  assumes "client_set (proto c)" "canAuth c" "\<not> authDone c" "front_encrypted c"
    "login_payload conf = Inr pl" "finished_auth conf user pass c = (c', Inl e)" "n \<noteq> 5" "n < 50 \<or> 79 < n"
  shows "\<not> free_dirty c' \<and> prefix (to_backend (proto c) @ [(5, field ''ssh-userauth''), (50, pl)]) (to_backend (proto c'))
    \<and> conn_run conf [Front n d] c' = (c'\<lparr>front_delayed := front_delayed c' @ [(n, d)]\<rparr>, Inr ())"
proof -
  let ?c1 = "keep_tried user pass (c\<lparr>proto := fst (server_send 52 [] (proto c)), frontendAuthenticated := True\<rparr>)"
  define c2 where "c2 = (back_send 50 pl (back_send 5 (field ''ssh-userauth'') ?c1))\<lparr>backendConnected := True\<rparr>"
  let ?flush = "with_proto (parse_each (conf_env conf) SERVER (front_delayed c2)) c2"
  have f: "finished_auth conf user pass c = authenticate_backend conf ?c1" "frontendAuthenticated ?c1" "canAuth ?c1"
    using assms(1,2) by (simp_all add: finished_auth_def server_send_def keep_tried_def Let_def split: option.splits)
  have c2: "to_backend (proto c2) = to_backend (proto c) @ [(5, field ''ssh-userauth''), (50, pl)]"
    "authDone c2 = authDone c" "backendConnected c2" "front_encrypted c2 = front_encrypted c"
    by (simp_all add: c2_def back_send_def server_send_def keep_tried_def split: option.splits)
  have "authenticate_backend conf ?c1 = sbind ?flush (\<lambda>c3 _. (c3\<lparr>front_delayed := [], authDone := True\<rparr>, Inr ()))"
    using f assms(5) by (simp add: authenticate_backend_def c2_def Let_def)
  with assms(6) f(1) obtain p where p: "parse_each (conf_env conf) SERVER (front_delayed c2) (proto c2) = (p, Inl e)"
    "c' = c2\<lparr>proto := p\<rparr>"
    by (cases ?flush; cases "snd ?flush") (auto simp: with_proto_def split: prod.splits)
  then have ne: "front_delayed c' \<noteq> []" by (cases "front_delayed c2") auto
  have "prefix (to_backend (proto c2)) (to_backend (proto c'))"
    using each_grows [of "proto c2" "conf_env conf" SERVER "front_delayed c2"] p by (simp add: grows_def)
  moreover have "\<not> free_dirty c'" "backendConnected c'" "front_encrypted c'" using p(2) c2 assms(3,4) by (simp_all add: free_dirty_def)
  ultimately show ?thesis using ne assms(7,8) c2(1) by (auto simp: front_dispatch_def front_buffer_def)
qed

subsection \<open>Frames\<close>

lemma len_pad_bounds:
  assumes "0 < bs"
  shows "(n + len_pad bs n) mod bs = 0" "4 \<le> bs \<Longrightarrow> 4 \<le> len_pad bs n" "len_pad bs n < bs + 4"
proof -
  define r where "r = n mod bs"
  have r: "r < bs" using assms by (simp add: r_def)
  have "n + (bs - r) = n div bs * bs + bs" using r div_mult_mod_eq [of n bs] unfolding r_def by linarith
  then have "(n + (bs - r)) mod bs = 0" "(n + (bs - r + bs)) mod bs = 0" by (simp_all add: add.assoc [symmetric])
  with r show "(n + len_pad bs n) mod bs = 0" "4 \<le> bs \<Longrightarrow> 4 \<le> len_pad bs n" "len_pad bs n < bs + 4"
    by (auto simp: len_pad_def r_def [symmetric] Let_def)
qed

text \<open>How a receiver reads the decrypted bytes: the length, the length of the padding, the payload.\<close>

definition read_frame :: "string \<Rightarrow> (string \<times> nat) option" where
  "read_frame pk =
     (let n = unpack_be (take 4 pk); l = unpack_be (take 1 (drop 4 pk)) in
      if length pk = 4 + n \<and> l < n then Some (take (n - l - 1) (drop 5 pk), l) else None)"

lemma frame_ok:
  assumes "4 \<le> bs" "bs \<le> 252" "\<forall>l. length (pad l) = l" "length payload + 256 < 256 ^ 4"
  shows "\<exists>pk. plain_packet bs pad num payload = Inr pk \<and> length pk mod bs = 0
    \<and> (\<exists>l. read_frame pk = Some (payload, l) \<and> 4 \<le> l \<and> l < 256)"
proof -
  let ?n = "5 + length payload" and ?tail = "if num = 20 then replicate (len_pad bs (5 + length payload)) (CHR 0x00) else pad (len_pad bs (5 + length payload))"
  define l where "l = len_pad bs ?n"
  have l: "(?n + l) mod bs = 0" "4 \<le> l" "l < 256" using len_pad_bounds [of bs ?n] assms(1,2) by (simp_all add: l_def)
  let ?pk = "pack_be 4 (?n + l - 4) @ pack_be 1 l @ payload @ ?tail"
  have t: "length ?tail = l" using assms(3) by (simp add: l_def)
  have s: "struct_pack 4 (int (?n + l - 4)) = Inr (pack_be 4 (?n + l - 4))" "struct_pack 1 (int l) = Inr (pack_be 1 l)"
    using l assms(4) by (simp_all add: struct_pack_def nat_diff_distrib nat_add_distrib)
  have p: "plain_packet bs pad num payload = Inr ?pk"
    unfolding plain_packet_def Let_def l_def [symmetric] s by (simp add: l_def)
  have u: "unpack_be (take 4 ?pk) = ?n + l - 4" "unpack_be (take 1 (drop 4 ?pk)) = l"
    using l assms(4) unpack_pack_be [of "?n + l - 4" 4] unpack_pack_be [of l 1] by simp_all
  have len: "length ?pk = ?n + l" using t by simp
  have "read_frame ?pk = Some (payload, l)"
    unfolding read_frame_def u Let_def len using l(2) by simp
  moreover have "length ?pk mod bs = 0" unfolding len by (rule l(1))
  ultimately have "\<exists>l. read_frame ?pk = Some (payload, l) \<and> 4 \<le> l \<and> l < 256" "length ?pk mod bs = 0"
    using l(2,3) by blast+
  with p show ?thesis by (rule_tac x = ?pk in exI) (intro conjI)
qed

text \<open>For every payload that fits in 32 bits and every block size up to 252 there is a frame; it is a
  whole number of blocks, has at least four bytes of padding, and the receiver reads the payload from it.\<close>

theorem frame_roundtrip:
  assumes "4 \<le> bs" "bs \<le> 252" "\<forall>l. length (pad l) = l" "length payload + 256 < 256 ^ 4"
  shows "\<exists>pk. plain_packet bs pad num payload = Inr pk \<and> length pk mod bs = 0
    \<and> (\<exists>l. read_frame pk = Some (payload, l) \<and> 4 \<le> l \<and> l < 256)"
  using assms by (rule frame_ok)


text \<open>A message whose number is 128 or more, as the private numbers are, is sent with two bytes for the
  number: the other side reads 194 or 195, and a payload with a byte too many.\<close>

theorem high_number_corrupted:
  assumes "128 \<le> num" "num < 256" "num \<noteq> 20" "\<not> kex" "4 \<le> block_size fr" "block_size fr \<le> 252"
    "\<forall>l. length (pad l) = l" "length payload + 258 < 256 ^ 4"
  shows "\<exists>pk b. send_packet (fr\<lparr>compress := id\<rparr>) allowed kex pad num payload out
      = (out\<lparr>written := written out @ encrypt fr pk @ make_mac fr (packets_sent out) pk,
            packets_sent := Suc (packets_sent out)\<rparr>, Inr ())
    \<and> (\<exists>l m. read_frame pk = Some (char_of m # b # payload, l) \<and> m \<in> {194, 195 :: nat})"
proof -
  have "num div 64 = 2 \<or> num div 64 = 3" using assms(1,2) by auto
  then have t: "\<exists>m b. chr_encode num = [char_of m, b] \<and> m \<in> {194, 195 :: nat}"
    using assms(1) by (auto simp: chr_encode_def)
  then obtain m b where tb: "chr_encode num = [char_of m, b]" "m \<in> {194, 195 :: nat}" by blast
  have "length (chr_encode num @ payload) + 256 < 256 ^ 4" using assms(8) tb by simp
  from frame_ok [OF assms(5,6,7) this, of num] obtain pk l where
    "plain_packet (block_size fr) pad num (chr_encode num @ payload) = Inr pk" "read_frame pk = Some (chr_encode num @ payload, l)"
    by blast
  with tb assms(4) show ?thesis
    by (intro exI [of _ pk] exI [of _ b]) (auto simp: send_packet_def)
qed

subsection \<open>The version line\<close>

definition version_pieces :: "string list \<Rightarrow> string list \<Rightarrow> intake \<Rightarrow> intake" where
  "version_pieces supported ds s = foldl (\<lambda>s d. fst (version_received supported d s)) s ds"

lemma first_while:
  "c \<notin> set zs \<Longrightarrow> takeWhile (\<lambda>x. x \<noteq> c) (zs @ c # ws) = zs"
  "c \<notin> set zs \<Longrightarrow> dropWhile (\<lambda>x. x \<noteq> c) (zs @ c # ws) = c # ws"
  by (subst takeWhile_append2 dropWhile_append2; auto)+

lemma first_split:
  assumes "c \<notin> set xs" "c \<notin> set xs'" "xs @ c # ys = xs' @ c # ys'"
  shows "xs' = xs \<and> ys' = ys"
  using first_while [OF assms(1), of ys] first_while [OF assms(2), of ys'] assms(3) by simp

lemma pieces_after: "gotVersion s \<Longrightarrow> version_pieces supported ds s = s\<lparr>ibuf := ibuf s @ concat ds\<rparr>"
proof (induction ds arbitrary: s)
  case (Cons d ds)
  from Cons.IH [of "s\<lparr>ibuf := ibuf s @ d\<rparr>"] Cons.prems show ?case
    by (simp add: version_pieces_def version_received_def Let_def)
qed (simp add: version_pieces_def)

text \<open>However the connection cuts what a client with a supported version sends, the version line is taken
  out once, the key exchange begins, and the bytes behind the line are in the buffer.\<close>

theorem version_any_pieces:
  assumes "ibuf s @ concat ds = line @ CHR 0x0A # rest" "CHR 0x0A \<notin> set line" "CHR 0x0A \<notin> set (ibuf s)"
    "\<not> gotVersion s" "version_match (strip_chars bytes_space line) = Some v" "v \<in> set supported"
  shows "version_pieces supported ds s = s\<lparr>gotVersion := True, ibuf := rest,
      intake_log := intake_log s @ [Client_version (strip_chars bytes_space line), Kex_init_sent]\<rparr>"
  using assms
proof (induction ds arbitrary: s)
  case Nil
  then have "CHR 0x0A \<in> set (ibuf s)" by simp
  with Nil.prems(3) show ?case by simp
next
  case (Cons d ds)
  let ?buf = "ibuf s @ d"
  show ?case
  proof (cases "CHR 0x0A \<in> set d")
    case False
    let ?s1 = "s\<lparr>ibuf := ?buf\<rparr>"
    have "version_received supported d s = (?s1, False)"
      using False Cons.prems(3,4) by (simp add: version_received_def Let_def)
    moreover have "version_pieces supported ds ?s1 = ?s1\<lparr>gotVersion := True, ibuf := rest,
        intake_log := intake_log ?s1 @ [Client_version (strip_chars bytes_space line), Kex_init_sent]\<rparr>"
      by (rule Cons.IH) (use Cons.prems False in simp_all)
    ultimately show ?thesis by (simp add: version_pieces_def)
  next
    case True
    then obtain a b where d: "d = a @ CHR 0x0A # b" "CHR 0x0A \<notin> set a" by (meson split_list_first)
    have "(ibuf s @ a) @ CHR 0x0A # (b @ concat ds) = line @ CHR 0x0A # rest" using Cons.prems(1) d(1) by simp
    moreover have "CHR 0x0A \<notin> set (ibuf s @ a)" using Cons.prems(3) d(2) by simp
    ultimately have l: "line = ibuf s @ a" "rest = b @ concat ds"
      using first_split [of "CHR 0x0A" "ibuf s @ a" line "b @ concat ds" rest] Cons.prems(2) by blast+
    have t: "takeWhile (\<lambda>c. c \<noteq> CHR 0x0A) ?buf = line" "dropWhile (\<lambda>c. c \<noteq> CHR 0x0A) ?buf = CHR 0x0A # b"
      using first_while [of "CHR 0x0A" line b] Cons.prems(2) l(1) d(1) by simp_all
    have "fst (version_received supported d s) = s\<lparr>gotVersion := True, ibuf := b,
        intake_log := intake_log s @ [Client_version (strip_chars bytes_space line), Kex_init_sent]\<rparr>"
      using True Cons.prems(4-6) by (simp add: version_received_def t Let_def)
    with pieces_after [of _ supported ds] l(2) show ?thesis by (simp add: version_pieces_def)
  qed
qed

subsection \<open>On a concrete connection\<close>

definition demo_conf :: proxy_conf where
  "demo_conf = \<lparr>conf_env = demo_env, backend_user = ''root'', backend_pass = ''pw''\<rparr>"

definition demo_events :: "conn_event list" where
  "demo_events = [Front_keys, Front 2 ''x'', Backend_up, Backend_secure, Front 2 ''y'', Auth_finished ''a'' (Some ''b''), Front 2 ''z'']"

lemmas run_simps = front_dispatch_def front_buffer_def connection_secure_def authenticate_backend_def finished_auth_def
  keep_tried_def server_send_def login_payload_def string_to_hex_def field_bin back_send_def with_proto_def parse_num_packet_def inspect_def
  global_request_def extract_string_def extract_int_def pass_on_def client_send_def set_client_def Let_def

theorem attacker_messages_arrive_witness:
  "\<exists>c. conn_run demo_conf demo_events (conn_init (ssh_init Map.empty Map.empty)) = (c, Inr ()) \<and> front_delayed c = []"
proof -
  have "\<exists>c. conn_run demo_conf demo_events (conn_init (ssh_init Map.empty Map.empty)) = (c, Inr ()) \<and> backendConnected c"
    by (simp add: demo_events_def conn_init_def ssh_init_def demo_conf_def demo_env_def run_simps)
  then obtain c where c: "conn_run demo_conf demo_events (conn_init (ssh_init Map.empty Map.empty)) = (c, Inr ())"
    "backendConnected c" by blast
  have "in_order False demo_events" by (simp add: demo_events_def)
  from attacker_messages_arrive [OF c(1) this] c show ?thesis by blast
qed

definition demo_conn :: conn where
  "demo_conn = (conn_init (demo_ssh []))\<lparr>front_encrypted := True, back_encrypted := True, canAuth := True\<rparr>"

theorem late_auth_message_silences_backend_witness:
  "\<exists>c'. conn_run demo_conf [Front 50 ''a'', Back 94 ''b''] demo_conn = (c', Inr ()) \<and> back_delayed c' = [(94, ''b'')]"
  using late_auth_message_silences_backend [of 50 demo_conn "[(94, ''b'')]" demo_conf "''a''"]
  by (auto simp: demo_conn_def conn_init_def)

theorem failed_flush_reports_clean_witness:
  "\<exists>c'. finished_auth demo_conf ''a'' None (demo_conn\<lparr>front_delayed := [(94, pack_be 4 0)]\<rparr>) = (c', Inl KeyError) \<and> \<not> free_dirty c'"
proof -
  let ?c = "demo_conn\<lparr>front_delayed := [(94, pack_be 4 0)]\<rparr>"
  have c: "client_set (proto ?c)" "canAuth ?c" "\<not> authDone ?c" "front_encrypted ?c"
    by (simp_all add: demo_conn_def conn_init_def demo_ssh_def set_client_def)
  have p: "login_payload demo_conf = Inr (field ''root'' @ field ''ssh-connection'' @ field ''password'' @ [CHR 0x00] @ field ''pw'')"
    by (simp add: login_payload_def demo_conf_def string_to_hex_def field_bin)
  have "\<exists>c'. finished_auth demo_conf ''a'' None ?c = (c', Inl KeyError)"
    by (simp add: demo_conn_def conn_init_def demo_ssh_def ssh_init_def demo_conf_def demo_env_def message_data_def
        with_channel_def get_channel_def string_to_hex_def run_simps)
  then obtain c' where f: "finished_auth demo_conf ''a'' None ?c = (c', Inl KeyError)" by blast
  have "\<not> free_dirty c'" using failed_flush_reports_clean [OF c p f, of 94 "[]"] by simp
  with f show ?thesis by blast
qed

theorem frame_roundtrip_witness:
  "\<exists>pk. plain_packet 8 (\<lambda>l. replicate l (CHR ''r'')) 94 ''data'' = Inr pk \<and> length pk mod 8 = 0"
  using frame_roundtrip [of 8 "\<lambda>l. replicate l (CHR ''r'')" "''data''" 94] by auto

theorem high_number_corrupted_witness:
  "\<exists>pk b l m. read_frame pk = Some (char_of (m :: nat) # b # ''x'', l) \<and> m \<in> {194, 195 :: nat}"
  using high_number_corrupted [of 192 False "\<lparr>compress = id, encrypt = id, make_mac = (\<lambda>_ _. []), block_size = 8\<rparr>"
      "\<lambda>l. replicate l (CHR ''r'')" "''x''" "\<lambda>_. True" "\<lparr>blocked = [], packets_sent = 0, written = []\<rparr>"]
  by auto

theorem version_any_pieces_witness:
  "ibuf (version_pieces [''2.0''] [''SSH-2.'', ''0-x'' @ [CHR 0x0D, CHR 0x0A, CHR ''k'']] \<lparr>ibuf = [], gotVersion = False, intake_log = []\<rparr>)
     = ''k''"
proof -
  have "strip_chars bytes_space (''SSH-2.0-x'' @ [CHR 0x0D]) = ''SSH-2.0-x''"
    by (simp add: strip_chars_def rstrip_chars_def lstrip_chars_def bytes_space_def)
  moreover have "version_match ''SSH-2.0-x'' = Some ''2.0''"
    by (simp add: version_match_def is_digit_def)
  ultimately show ?thesis
    using version_any_pieces [of "\<lparr>ibuf = [], gotVersion = False, intake_log = []\<rparr>"
        "[''SSH-2.'', ''0-x'' @ [CHR 0x0D, CHR 0x0A, CHR ''k'']]" "''SSH-2.0-x'' @ [CHR 0x0D]" "''k''" "''2.0''" "[''2.0'']"]
    by simp
qed

end
