(* ===== verification/Telnet_Proxy.thy ===== *)
theory Telnet_Proxy
  imports Prelude_Bytes Tty_Dir
begin

section \<open>The Telnet proxy\<close>

text \<open>
  Model of \<open>telnet_proxy/handler.py\<close>, with the calls the two transports make on it: packets of the
  attacker (\<open>Frontend\<close>) and of the backend pass through a handler that watches for the prompts of the
  login, takes the attacker's name and password out of the stream, puts those of the backend in, and
  records the session. The three regular expressions are configuration and the check of the password is
  another part's: they are functions in \<open>telnet_env\<close>, as is the clock.
\<close>

subsection \<open>Cleaning input\<close>

definition process_backspaces :: "string \<Rightarrow> string" where
  "process_backspaces s =
     foldl (\<lambda>n c. if chr_encode (of_char c) = [CHR 0x7F] then butlast n else n @ chr_encode (of_char c)) [] s"

definition remove_all :: "string \<Rightarrow> string list \<Rightarrow> string" where
  "remove_all original_string remove_list = foldl (\<lambda>n t. py_replace t [] n) original_string remove_list"

text \<open>\<open>decode('unicode-escape')\<close>: code points, or an error. \<open>known\<close> are the names of Unicode characters.\<close>

definition is_hex :: "char \<Rightarrow> bool" where
  "is_hex c \<longleftrightarrow> is_digit c \<or> (let n = (of_char c :: nat) in 97 \<le> n \<and> n \<le> 102 \<or> 65 \<le> n \<and> n \<le> 70)"

definition hex_digit :: "char \<Rightarrow> nat" where
  "hex_digit c = (let n = of_char c in if n < 58 then n - 48 else if n < 71 then n - 55 else n - 87)"

definition is_octal :: "char \<Rightarrow> bool" where
  "is_octal c \<longleftrightarrow> (let n = (of_char c :: nat) in 48 \<le> n \<and> n \<le> 55)"

definition escape_width :: "char \<Rightarrow> nat" where
  "escape_width c = (if c = CHR ''x'' then 2 else if c = CHR ''u'' then 4 else if c = CHR ''U'' then 8 else 0)"

definition simple_escapes :: "(char \<times> nat) list" where
  "simple_escapes = [(CHR 0x5C, 92), (CHR 0x27, 39), (CHR 0x22, 34), (CHR ''a'', 7), (CHR ''b'', 8), (CHR ''f'', 12),
     (CHR ''n'', 10), (CHR ''r'', 13), (CHR ''t'', 9), (CHR ''v'', 11)]"

abbreviation code :: "char \<Rightarrow> nat" where "code \<equiv> of_char"

abbreviation emit :: "nat list \<Rightarrow> nat list res \<Rightarrow> nat list res" where
  "emit ns r \<equiv> rbind r (\<lambda>xs. Inr (ns @ xs))"

function unicode_escape :: "(string \<Rightarrow> nat option) \<Rightarrow> string \<Rightarrow> nat list res" where
  "unicode_escape known [] = Inr []"
| "unicode_escape known [c] = (if c = CHR 0x5C then Inl UnicodeDecodeError else Inr [code c])"
| "unicode_escape known (c # e # s) =
     (if c \<noteq> CHR 0x5C then emit [code c] (unicode_escape known (e # s))
      else if e = CHR 0x0A then unicode_escape known s
      else if map_of simple_escapes e \<noteq> None then emit [the (map_of simple_escapes e)] (unicode_escape known s)
      else if is_octal e then
        (let ds = takeWhile is_octal (take 2 s)
         in emit [value_base 8 (map hex_digit (e # ds))] (unicode_escape known (drop (length ds) s)))
      else if e = CHR ''N'' then
        (case (if take 1 s = ''{'' \<and> CHR ''}'' \<in> set s then known (takeWhile (\<lambda>x. x \<noteq> CHR ''}'') (drop 1 s)) else None) of
           None \<Rightarrow> Inl UnicodeDecodeError
         | Some n \<Rightarrow> emit [n] (unicode_escape known (drop 1 (dropWhile (\<lambda>x. x \<noteq> CHR ''}'') s))))
      else if escape_width e = 0 then emit [92, code e] (unicode_escape known s)
      else
        (let w = escape_width e; ds = take w s; n = value_base 16 (map hex_digit ds) in
         if length ds < w \<or> \<not> list_all is_hex ds \<or> 1114111 < n then Inl UnicodeDecodeError
         else emit [n] (unicode_escape known (drop w s))))"
  by pat_completeness auto
termination
  by (relation "measure (\<lambda>(_, s). length s)") (auto simp: less_Suc_eq_le
      intro: order.trans [OF diff_le_self] order.trans [OF diff_le_self length_dropWhile_le] le_SucI length_dropWhile_le)

text \<open>Text without a backslash is taken as Latin-1.\<close>

lemma unicode_escape_plain: "CHR 0x5C \<notin> set s \<Longrightarrow> unicode_escape known s = Inr (map code s)"
  by (induction known s rule: unicode_escape.induct) auto

subsection \<open>State\<close>

datatype origin = Frontend | Backend

datatype telnet_event = Command_typed string | Login_input "nat list" | Password_input "nat list" | Env_username "nat list" | Exploit_attempt "nat list"

record telnet_env =
  spoofAuthenticationData :: bool
  backendLogin :: string
  backendPassword :: string
  negotiated_name :: "string \<Rightarrow> string option"
  spoof_name :: "string \<Rightarrow> string \<Rightarrow> string"
  login_prompt :: "string \<Rightarrow> bool"
  password_prompt :: "string \<Rightarrow> bool"
  check_user :: "string \<Rightarrow> string \<Rightarrow> bool"
  raw_logged :: bool
  known_names :: "string \<Rightarrow> nat option"
  telnet_now :: rat
  telnet_sha :: "string \<Rightarrow> string"
  telnet_path :: string

record telnet =
  currentData :: string
  sendData :: bool
  has_client :: bool
  currentCommand :: string
  authStarted :: bool
  authDone :: bool
  usernameState :: string
  inputingLogin :: bool
  passwordState :: string
  inputingPassword :: bool
  waitingLoginEcho :: bool
  prePasswordData :: bool
  backend_buffer :: "string list"
  tn_ttylog :: bool
  tn_file :: string
  tn_size :: int
  tn_dir :: tty_dir
  sent_back :: "string list"
  sent_front :: "string list"
  tn_log :: "telnet_event list"

definition telnet_init :: "bool \<Rightarrow> string \<Rightarrow> rat \<Rightarrow> tty_dir \<Rightarrow> (telnet, unit) sres" where
  "telnet_init enabled file now d =
     (let t = \<lparr>currentData = [], sendData = True, has_client = False, currentCommand = [], authStarted = False,
               authDone = False, usernameState = [], inputingLogin = False, passwordState = [], inputingPassword = False,
               waitingLoginEcho = False, prePasswordData = False, backend_buffer = [], tn_ttylog = enabled, tn_file = file,
               tn_size = 0, tn_dir = d, sent_back = [], sent_front = [], tn_log = []\<rparr>
      in if enabled then (case tty_open file now d of (d1, r) \<Rightarrow> (t\<lparr>tn_dir := d1\<rparr>, r)) else (t, Inr ()))"

definition setClient :: "telnet \<Rightarrow> telnet" where
  "setClient t = t\<lparr>has_client := True\<rparr>"

definition telnet_close :: "telnet_env \<Rightarrow> telnet \<Rightarrow> (telnet, unit) sres" where
  "telnet_close env t =
     (if tn_ttylog t then
        (case close_recording (telnet_sha env) (telnet_path env) (tn_file t) (telnet_now env) (tn_dir t) of
           (d, Inl e) \<Rightarrow> (t\<lparr>tn_dir := d\<rparr>, Inl e)
         | (d, Inr _) \<Rightarrow> (t\<lparr>tn_dir := d, tn_ttylog := False\<rparr>, Inr ()))
      else (t, Inr ()))"

subsection \<open>Sending\<close>

definition log_text :: "telnet_env \<Rightarrow> string \<Rightarrow> telnet \<Rightarrow> (telnet, nat list) sres" where
  "log_text env data t = (t, unicode_escape (known_names env) data)"

definition log_raw_data :: "telnet_env \<Rightarrow> string \<Rightarrow> telnet \<Rightarrow> (telnet, unit) sres" where
  "log_raw_data env data t = (if raw_logged env then sbind (log_text env data t) (\<lambda>t1 _. (t1, Inr ())) else (t, Inr ()))"

definition record_telnet :: "telnet_env \<Rightarrow> int \<Rightarrow> string \<Rightarrow> telnet \<Rightarrow> (telnet, unit) sres" where
  "record_telnet env direction data t =
     (if tn_ttylog t \<and> authStarted t then
        (case tty_write (tn_file t) direction (telnet_now env) data (tn_dir t) of (d, r) \<Rightarrow> (t\<lparr>tn_dir := d\<rparr>, r))
      else (t, Inr ()))"

text \<open>What is recorded, and counted, for each packet of the buffer is the data of this call.\<close>

definition recorded_size :: "string \<Rightarrow> telnet \<Rightarrow> telnet" where
  "recorded_size data t = (if tn_ttylog t \<and> authStarted t then t\<lparr>tn_size := tn_size t + int (length data)\<rparr> else t)"

fun flush_buffer :: "telnet_env \<Rightarrow> string \<Rightarrow> string list \<Rightarrow> telnet \<Rightarrow> (telnet, unit) sres" where
  "flush_buffer env data [] t = (t, Inr ())"
| "flush_buffer env data (p # ps) t =
     (let clean = py_replace [CHR 0x00] [CHR 0x0A] data in
      sbind (log_raw_data env data (t\<lparr>sent_back := sent_back t @ [p]\<rparr>)) (\<lambda>t1 _.
      sbind (record_telnet env TYPE_INPUT clean t1) (\<lambda>t2 _.
      flush_buffer env data ps ((recorded_size clean t2)\<lparr>backend_buffer := drop 1 (backend_buffer t2)\<rparr>))))"

definition sendBackend :: "telnet_env \<Rightarrow> string \<Rightarrow> telnet \<Rightarrow> (telnet, unit) sres" where
  "sendBackend env data t =
     (let t1 = t\<lparr>backend_buffer := backend_buffer t @ [data]\<rparr> in
      if \<not> has_client t1 then (t1, Inr ()) else flush_buffer env data (backend_buffer t1) t1)"

definition sendFrontend :: "telnet_env \<Rightarrow> string \<Rightarrow> telnet \<Rightarrow> (telnet, unit) sres" where
  "sendFrontend env data t =
     sbind (log_raw_data env data (t\<lparr>sent_front := sent_front t @ [data]\<rparr>)) (\<lambda>t1 _. record_telnet env TYPE_OUTPUT data t1)"

subsection \<open>The login\<close>

definition CR :: char where "CR = CHR 0x0D"

definition crlf :: "string" where "crlf = [CR, CHR 0x0A]"

fun index_of :: "char \<Rightarrow> string \<Rightarrow> nat" where
  "index_of c [] = 0"
| "index_of c (x # xs) = (if x = c then 0 else Suc (index_of c xs))"

text \<open>The byte behind the first carriage return; there may be none.\<close>

definition terminating_char :: "string \<Rightarrow> string res" where
  "terminating_char data = rbind (py_nth data (index_of CR data + 1)) (\<lambda>c. Inr (chr_encode (of_char c)))"

definition echo_text :: "string \<Rightarrow> string" where
  "echo_text data = py_replace [CHR 0x00] [CHR 0x0A] (py_replace [CHR 0x7F] [CHR 0x08, CHR '' '', CHR 0x08] data)"

definition processUsernameInput :: "telnet_env \<Rightarrow> telnet \<Rightarrow> (telnet, unit) sres" where
  "processUsernameInput env t =
     (let t1 = t\<lparr>sendData := False,
            usernameState := usernameState t @ remove_all (currentData t) [[CR], [CHR 0x00], [CHR 0x0A]]\<rparr> in
      sbind (sendFrontend env (echo_text (currentData t1)) t1) (\<lambda>t2 _.
        if CR \<notin> set (currentData t2) then (t2, Inr ())
        else case terminating_char (currentData t2) of
          Inl e \<Rightarrow> (t2, Inl e)
        | Inr term \<Rightarrow>
            let t3 = t2\<lparr>usernameState := process_backspaces (usernameState t2)\<rparr> in
            sbind (log_text env (usernameState t3) t3) (\<lambda>t4 text.
              (t4\<lparr>tn_log := tn_log t4 @ [Login_input text], inputingLogin := False,
                  currentData := backendLogin env @ [CR] @ term, sendData := True, waitingLoginEcho := True\<rparr>, Inr ()))))"

definition password_controls :: "string list" where
  "password_controls = [[CHR 0xFF], [CHR 0xFD], [CHR 0x01], [CR], [CHR 0x00], [CHR 0x0A]]"

definition pre_password :: "telnet_env \<Rightarrow> telnet \<Rightarrow> (telnet, unit) sres" where
  "pre_password env t =
     (if prePasswordData t then
        sbind (sendBackend env (take 3 (currentData t)) t) (\<lambda>t1 _. (t1\<lparr>prePasswordData := False\<rparr>, Inr ()))
      else (t, Inr ()))"

definition answer_password :: "telnet_env \<Rightarrow> string \<Rightarrow> nat list \<Rightarrow> telnet \<Rightarrow> telnet" where
  "answer_password env term text t =
     (let ok = check_user env (usernameState t) (passwordState t) in
      t\<lparr>tn_log := tn_log t @ [Password_input text], inputingPassword := False, authDone := authDone t \<or> ok,
        currentData := (if ok then backendPassword env else backendPassword env @ ''fake'') @ [CR] @ term, sendData := True\<rparr>)"

definition processPasswordInput :: "telnet_env \<Rightarrow> telnet \<Rightarrow> (telnet, unit) sres" where
  "processPasswordInput env t =
     sbind (pre_password env (t\<lparr>sendData := False\<rparr>)) (\<lambda>t1 _.
       let t2 = t1\<lparr>passwordState := passwordState t1 @ remove_all (currentData t1) password_controls\<rparr> in
       if CR \<notin> set (currentData t2) then (t2, Inr ())
       else case terminating_char (currentData t2) of
         Inl e \<Rightarrow> (t2, Inl e)
       | Inr term \<Rightarrow>
           let t3 = t2\<lparr>passwordState := process_backspaces (passwordState t2)\<rparr> in
           sbind (log_text env (passwordState t3) t3) (\<lambda>t4 text. (answer_password env term text t4, Inr ())))"

definition setProcessingStateBackend :: "telnet_env \<Rightarrow> telnet \<Rightarrow> telnet" where
  "setProcessingStateBackend env t =
     (let t1 = (if password_prompt env (currentData t)
                then t\<lparr>authStarted := True, inputingPassword := True, passwordState := []\<rparr> else t);
          t2 = (if login_prompt env (currentData t1)
                then t1\<lparr>authStarted := True, inputingLogin := True, usernameState := []\<rparr> else t1)
      in t2\<lparr>prePasswordData := contains [CHR 0xFF, CHR 0xFB, CHR 0x01] (currentData t2)\<rparr>)"

definition setProcessingStateFrontend :: "telnet_env \<Rightarrow> telnet \<Rightarrow> (telnet, unit) sres" where
  "setProcessingStateFrontend env t =
     (case negotiated_name env (currentData t) of
        None \<Rightarrow> (t, Inr ())
      | Some u \<Rightarrow>
          sbind (log_text env u (t\<lparr>usernameState := u\<rparr>)) (\<lambda>t1 text.
            (t1\<lparr>tn_log := tn_log t1 @ [Env_username text] @ (if starts_with text [45, 102] then [Exploit_attempt text] else []),
                currentData := spoof_name env (backendLogin env) (currentData t1)\<rparr>, Inr ())))"

subsection \<open>A packet\<close>

definition spoof_frontend :: "telnet_env \<Rightarrow> telnet \<Rightarrow> (telnet, unit) sres" where
  "spoof_frontend env t =
     sbind (setProcessingStateFrontend env t) (\<lambda>t1 _.
     sbind (if inputingPassword t1 then processPasswordInput env t1 else (t1, Inr ())) (\<lambda>t2 _.
       if inputingLogin t2 then processUsernameInput env t2 else (t2, Inr ())))"

definition spoof_backend :: "telnet_env \<Rightarrow> telnet \<Rightarrow> telnet" where
  "spoof_backend env t =
     (let t1 = setProcessingStateBackend env t in
      if waitingLoginEcho t1
      then t1\<lparr>currentData := py_replace (backendLogin env @ crlf) [] (currentData t1), waitingLoginEcho := False\<rparr>
      else t1)"

definition log_command :: "string \<Rightarrow> telnet \<Rightarrow> telnet" where
  "log_command data t =
     (let c = currentCommand t @ py_replace crlf [] (py_replace [CR, CHR 0x00] [] data) in
      if CR \<in> set data
      then t\<lparr>tn_log := (if c \<noteq> [] then tn_log t @ [Command_typed c] else tn_log t), currentCommand := []\<rparr>
      else t\<lparr>currentCommand := c\<rparr>)"

definition forward_data :: "telnet_env \<Rightarrow> origin \<Rightarrow> telnet \<Rightarrow> (telnet, unit) sres" where
  "forward_data env parent t =
     (if sendData t \<and> currentData t \<noteq> []
      then (case parent of Frontend \<Rightarrow> sendBackend env (currentData t) t | Backend \<Rightarrow> sendFrontend env (currentData t) t)
      else (t, Inr ()))"

definition addPacket :: "telnet_env \<Rightarrow> origin \<Rightarrow> string \<Rightarrow> telnet \<Rightarrow> (telnet, unit) sres" where
  "addPacket env parent data t =
     (let t0 = t\<lparr>currentData := data, sendData := True\<rparr> in
      sbind
        (if spoofAuthenticationData env \<and> \<not> authDone t0
         then (case parent of Backend \<Rightarrow> (spoof_backend env t0, Inr ()) | Frontend \<Rightarrow> spoof_frontend env t0)
         else (t0, Inr ()))
        (\<lambda>t1 _. forward_data env parent (if parent = Frontend \<and> authDone t1 then log_command data t1 else t1)))"

subsection \<open>The transport of the attacker\<close>

text \<open>\<open>connectionLost\<close> closes the recording and tells the pool whether the machine has been used.\<close>

definition telnet_connection_lost :: "telnet_env \<Rightarrow> telnet \<Rightarrow> (telnet, bool) sres" where
  "telnet_connection_lost env t = sbind (telnet_close env t) (\<lambda>t1 _. (t1, Inr (authDone t1)))"

end
