(* ===== verification/Telnet_Proxy_Props.thy ===== *)
theory Telnet_Proxy_Props
  imports Telnet_Proxy Auth
begin

section \<open>What the Telnet proxy lets through\<close>

text \<open>
  Properties of \<open>Telnet_Proxy\<close>: the password of the attacker is replaced by that of the backend, and
  the exceptions to it; what is not part of a login passes in order; and what is recorded of a buffer
  that is sent late.
\<close>

named_theorems telnet_defs \<open>the steps of a packet\<close>

lemmas [telnet_defs] = addPacket_def spoof_frontend_def setProcessingStateFrontend_def processPasswordInput_def
  pre_password_def Let_def

subsection \<open>Fields the helpers leave alone\<close>

lemma log_raw_state [simp]: "fst (log_raw_data env d t) = t" "fst (log_text env d t) = t"
  by (simp_all add: log_raw_data_def log_text_def sbind_def split: sum.splits)

definition same_stream :: "telnet \<Rightarrow> telnet \<Rightarrow> bool" where
  "same_stream t t' \<longleftrightarrow> sent_back t' = sent_back t \<and> sent_front t' = sent_front t \<and> has_client t' = has_client t
     \<and> backend_buffer t' = backend_buffer t \<and> usernameState t' = usernameState t \<and> passwordState t' = passwordState t
     \<and> inputingPassword t' = inputingPassword t \<and> inputingLogin t' = inputingLogin t \<and> authDone t' = authDone t
     \<and> prePasswordData t' = prePasswordData t \<and> tn_log t' = tn_log t \<and> currentCommand t' = currentCommand t
     \<and> currentData t' = currentData t \<and> sendData t' = sendData t"

lemma record_stream: "same_stream t (fst (record_telnet env dir d t))"
  by (simp add: record_telnet_def same_stream_def split: prod.splits)

lemma same_stream_trans: "same_stream a b \<Longrightarrow> same_stream b c \<Longrightarrow> same_stream a c"
  by (simp add: same_stream_def)

text \<open>A flush that raises nothing writes the whole buffer.\<close>

lemma flush_stream:
  assumes "flush_buffer env d ps t = (t', Inr ())" "backend_buffer t = ps @ bs"
  shows "same_stream (t\<lparr>sent_back := sent_back t @ ps, backend_buffer := bs\<rparr>) t'"
  using assms
proof (induction ps arbitrary: t)
  case (Cons p ps)
  let ?c = "py_replace [CHR 0x00] [CHR 0x0A] d" and ?t1 = "t\<lparr>sent_back := sent_back t @ [p]\<rparr>"
  obtain t2 where t2: "record_telnet env TYPE_INPUT ?c ?t1 = (t2, Inr ())"
    "flush_buffer env d ps ((recorded_size ?c t2)\<lparr>backend_buffer := drop 1 (backend_buffer t2)\<rparr>) = (t', Inr ())"
    using Cons.prems(1) log_raw_state(1) [of env d ?t1]
    by (cases "log_raw_data env d ?t1"; cases "record_telnet env TYPE_INPUT ?c ?t1")
       (auto simp: sbind_def Let_def split: sum.splits)
  have s: "same_stream ?t1 t2" using record_stream [of ?t1 env TYPE_INPUT ?c] t2(1) by simp
  let ?t3 = "(recorded_size ?c t2)\<lparr>backend_buffer := drop 1 (backend_buffer t2)\<rparr>"
  have b: "backend_buffer ?t3 = ps @ bs" using s Cons.prems(2) by (simp add: same_stream_def)
  have "same_stream (t\<lparr>sent_back := sent_back t @ [p], backend_buffer := ps @ bs\<rparr>) ?t3"
    using s b by (simp add: same_stream_def recorded_size_def)
  then have "same_stream (t\<lparr>sent_back := sent_back t @ p # ps, backend_buffer := bs\<rparr>) (?t3\<lparr>sent_back := sent_back ?t3 @ ps, backend_buffer := bs\<rparr>)"
    by (simp add: same_stream_def)
  then show ?case using Cons.IH [OF t2(2) b] by (rule same_stream_trans)
qed (simp add: same_stream_def)

lemma sendBackend_stream:
  assumes "sendBackend env d t = (t', Inr ())" "has_client t"
  shows "same_stream (t\<lparr>sent_back := sent_back t @ backend_buffer t @ [d], backend_buffer := []\<rparr>) t'"
  using flush_stream [of env d "backend_buffer t @ [d]" "t\<lparr>backend_buffer := backend_buffer t @ [d]\<rparr>" t' "[]"] assms
  by (simp add: sendBackend_def Let_def same_stream_def)

lemma sendFrontend_stream:
  assumes "sendFrontend env d t = (t', Inr ())"
  shows "same_stream (t\<lparr>sent_front := sent_front t @ [d]\<rparr>) t'"
  using assms record_stream [of "t\<lparr>sent_front := sent_front t @ [d]\<rparr>" env TYPE_OUTPUT d]
    log_raw_state(1) [of env d "t\<lparr>sent_front := sent_front t @ [d]\<rparr>"]
  by (cases "log_raw_data env d (t\<lparr>sent_front := sent_front t @ [d]\<rparr>)") (auto simp: sendFrontend_def sbind_def split: sum.splits)

subsection \<open>The password\<close>

fun telnet_run :: "telnet_env \<Rightarrow> (origin \<times> string) list \<Rightarrow> telnet \<Rightarrow> (telnet, unit) sres" where
  "telnet_run env [] t = (t, Inr ())"
| "telnet_run env ((p, d) # ps) t = sbind (addPacket env p d t) (\<lambda>t' _. telnet_run env ps t')"

text \<open>Waiting for a password, and nothing else going on.\<close>

definition asking :: "telnet_env \<Rightarrow> telnet \<Rightarrow> bool" where
  "asking env t \<longleftrightarrow> spoofAuthenticationData env \<and> \<not> authDone t \<and> inputingPassword t \<and> \<not> inputingLogin t
     \<and> has_client t \<and> backend_buffer t = [] \<and> currentCommand t = []"

text \<open>In the same state, and the packet of the backend that asked did not hide the echo.\<close>

definition asking_plain :: "telnet_env \<Rightarrow> telnet \<Rightarrow> bool" where
  "asking_plain env t \<longleftrightarrow> asking env t \<and> \<not> prePasswordData t"

lemma asking_plain_def': "asking_plain env t \<longleftrightarrow> spoofAuthenticationData env \<and> \<not> authDone t \<and> inputingPassword t
    \<and> \<not> inputingLogin t \<and> has_client t \<and> backend_buffer t = [] \<and> currentCommand t = [] \<and> \<not> prePasswordData t"
  by (simp add: asking_plain_def asking_def)

abbreviation clean_password :: "string \<Rightarrow> string" where
  "clean_password d \<equiv> remove_all d password_controls"

lemma piece_kept:
  assumes "asking_plain env t" "negotiated_name env d = None" "CR \<notin> set d"
  shows "\<exists>t'. addPacket env Frontend d t = (t', Inr ()) \<and> asking_plain env t'
    \<and> passwordState t' = passwordState t @ clean_password d \<and> usernameState t' = usernameState t
    \<and> sent_back t' = sent_back t \<and> sent_front t' = sent_front t \<and> tn_log t' = tn_log t"
  using assms by (simp add: telnet_defs forward_data_def asking_plain_def')

lemma index_of_append [simp]: "c \<notin> set xs \<Longrightarrow> index_of c (xs @ c # ys) = length xs"
  by (induction xs) auto

lemma terminating_char_behind: "CR \<notin> set body \<Longrightarrow> terminating_char (body @ CR # c # rest) = Inr (chr_encode (of_char c))"
  by (simp add: terminating_char_def py_nth_def nth_append)

definition backend_answer :: "telnet_env \<Rightarrow> bool \<Rightarrow> char \<Rightarrow> string" where
  "backend_answer env ok c = (if ok then backendPassword env else backendPassword env @ ''fake'') @ [CR] @ chr_encode (of_char c)"

lemma password_answered:
  assumes a: "asking_plain env t" and n: "negotiated_name env d = None" and d: "d = body @ CR # c # rest" "CR \<notin> set body"
    and r: "addPacket env Frontend d t = (t', Inr ())"
  defines "pw \<equiv> process_backspaces (passwordState t @ clean_password d)"
  shows "passwordState t' = pw \<and> authDone t' = check_user env (usernameState t) pw \<and> \<not> inputingPassword t'
    \<and> sent_back t' = sent_back t @ [backend_answer env (check_user env (usernameState t) pw) c] \<and> sent_front t' = sent_front t
    \<and> (authDone t' \<longrightarrow> last (tn_log t') = Command_typed (py_replace crlf [] (py_replace [CR, CHR 0x00] [] d))
         \<or> py_replace crlf [] (py_replace [CR, CHR 0x00] [] d) = [])"
proof -
  let ?ok = "check_user env (usernameState t) pw"
  have cr: "CR \<in> set d" and ne: "backend_answer env ?ok c \<noteq> []" by (simp_all add: d backend_answer_def)
  obtain tx where tx: "unicode_escape (known_names env) pw = Inr tx"
    using r a n cr terminating_char_behind [OF d(2), of c rest]
    by (cases "unicode_escape (known_names env) pw") (simp_all add: telnet_defs asking_plain_def' d pw_def log_text_def)
  define t1 where "t1 = answer_password env (chr_encode (of_char c)) tx
     (t\<lparr>currentData := d, sendData := False, passwordState := pw\<rparr>)"
  have t1: "currentData t1 = backend_answer env ?ok c" "sendData t1" "authDone t1 = ?ok" "has_client t1" "backend_buffer t1 = []"
    "sent_back t1 = sent_back t" "sent_front t1 = sent_front t" "passwordState t1 = pw" "\<not> inputingPassword t1"
    "currentCommand t1 = []"
    using a by (simp_all add: t1_def answer_password_def Let_def backend_answer_def asking_plain_def')
  let ?t2 = "if authDone t1 then log_command d t1 else t1"
  have "addPacket env Frontend d t = forward_data env Frontend ?t2"
    using a n cr terminating_char_behind [OF d(2), of c rest] tx
    by (simp add: telnet_defs asking_plain_def' log_text_def d pw_def answer_password_def t1_def)
  moreover have "currentData ?t2 = backend_answer env ?ok c" "sendData ?t2" "has_client ?t2" "backend_buffer ?t2 = []"
    "sent_back ?t2 = sent_back t" "sent_front ?t2 = sent_front t" "passwordState ?t2 = pw" "\<not> inputingPassword ?t2" "authDone ?t2 = ?ok"
    using t1 by (simp_all add: log_command_def Let_def)
  ultimately have s: "same_stream (?t2\<lparr>sent_back := sent_back t @ [backend_answer env ?ok c], backend_buffer := []\<rparr>) t'"
    using r ne sendBackend_stream [of env "backend_answer env ?ok c" ?t2 t'] by (simp add: forward_data_def split del: if_split)
  moreover have "authDone t1 \<Longrightarrow> last (tn_log ?t2) = Command_typed (py_replace crlf [] (py_replace [CR, CHR 0x00] [] d))
         \<or> py_replace crlf [] (py_replace [CR, CHR 0x00] [] d) = []"
    using cr t1 by (simp add: log_command_def Let_def)
  ultimately show ?thesis using t1 \<open>passwordState ?t2 = pw\<close> \<open>\<not> inputingPassword ?t2\<close> \<open>authDone ?t2 = ?ok\<close> \<open>sent_front ?t2 = sent_front t\<close>
    by (simp add: same_stream_def split del: if_split)
qed

text \<open>Without a recording, without the raw log and without backslashes nothing can raise here.\<close>

lemma flush_ok: "\<not> raw_logged env \<Longrightarrow> \<not> tn_ttylog t \<Longrightarrow> snd (flush_buffer env d ps t) = Inr ()"
  by (induction ps arbitrary: t) (simp_all add: log_raw_data_def record_telnet_def recorded_size_def Let_def)

lemma password_accepted_ok:
  assumes a: "asking_plain env t" and n: "negotiated_name env d = None" and d: "d = body @ CR # c # rest" "CR \<notin> set body"
    and e: "\<not> raw_logged env" "\<not> tn_ttylog t" "CHR 0x5C \<notin> set (process_backspaces (passwordState t @ clean_password d))"
  shows "\<exists>t'. addPacket env Frontend d t = (t', Inr ())"
proof -
  have "CR \<in> set d" by (simp add: d)
  then obtain t2 where t2: "addPacket env Frontend d t = forward_data env Frontend t2" "\<not> tn_ttylog t2"
    using a n e terminating_char_behind [OF d(2), of c rest] unicode_escape_plain [OF e(3), of "known_names env"]
    by (auto simp: telnet_defs asking_plain_def' log_text_def d(1) answer_password_def log_command_def)
  have "snd (forward_data env Frontend t2) = Inr ()"
    using flush_ok [OF e(1)] t2(2) by (simp add: forward_data_def sendBackend_def Let_def)
  with t2(1) show ?thesis by (metis prod.collapse)
qed

lemma pieces_kept:
  assumes "asking_plain env t" "\<forall>d \<in> set ds. negotiated_name env d = None \<and> CR \<notin> set d"
  shows "\<exists>t'. telnet_run env (map (Pair Frontend) ds) t = (t', Inr ()) \<and> asking_plain env t'
    \<and> passwordState t' = passwordState t @ concat (map clean_password ds) \<and> usernameState t' = usernameState t
    \<and> sent_back t' = sent_back t \<and> sent_front t' = sent_front t \<and> tn_log t' = tn_log t"
  using assms
proof (induction ds arbitrary: t)
  case (Cons d ds)
  obtain t1 where t1: "addPacket env Frontend d t = (t1, Inr ())" "asking_plain env t1"
    "passwordState t1 = passwordState t @ clean_password d" "usernameState t1 = usernameState t"
    "sent_back t1 = sent_back t" "sent_front t1 = sent_front t" "tn_log t1 = tn_log t"
    using piece_kept [OF Cons.prems(1), of d] Cons.prems(2) by auto
  from Cons.IH [OF t1(2)] Cons.prems(2) t1 show ?case by auto
qed simp

lemma telnet_run_append: "telnet_run env (xs @ ys) t = sbind (telnet_run env xs t) (\<lambda>t' _. telnet_run env ys t')"
proof (induction xs arbitrary: t)
  case (Cons x xs)
  obtain p d where x: "x = (p, d)" by (cases x)
  obtain t1 r where "addPacket env p d t = (t1, r)" by (metis prod.collapse)
  with Cons.IH show ?case by (cases r) (simp_all add: x)
qed simp

text \<open>
  After a packet of the backend with IAC WILL ECHO the first three bytes of the next packet go to the
  backend before anything else is done with it: they are meant to be the client's IAC DO ECHO. They are
  not looked at, and the packet is then handled as if it had come in the plain state.
\<close>

lemma first_bytes_sent:
  assumes a: "asking env t" "prePasswordData t" "negotiated_name env d = None"
    and r: "addPacket env Frontend d t = (t', Inr ())"
  obtains t1 where "asking_plain env t1" "addPacket env Frontend d t1 = (t', Inr ())" "sent_back t1 = sent_back t @ [take 3 d]"
    "sent_front t1 = sent_front t" "passwordState t1 = passwordState t" "usernameState t1 = usernameState t"
proof -
  let ?t0 = "t\<lparr>currentData := d, sendData := False\<rparr>"
  obtain t1 r1 where s: "sendBackend env (take 3 d) ?t0 = (t1, r1)" by (metis prod.collapse)
  with a r have "r1 = Inr ()"
    by (cases r1) (simp_all add: telnet_defs asking_def)
  with s have s: "sendBackend env (take 3 d) ?t0 = (t1, Inr ())" by simp
  from sendBackend_stream [OF s] a(1) have
    st: "same_stream (?t0\<lparr>sent_back := sent_back t @ [take 3 d], backend_buffer := []\<rparr>) t1"
    by (simp add: asking_def)
  let ?t2 = "t1\<lparr>prePasswordData := False\<rparr>"
  have ask: "asking_plain env ?t2" using st a(1) by (simp add: asking_plain_def' asking_def same_stream_def)
  have same: "?t2\<lparr>currentData := d, sendData := False\<rparr> = ?t2"
    using st by (simp add: same_stream_def)
  have "addPacket env Frontend d ?t2 = addPacket env Frontend d t"
    using a s same ask by (simp add: telnet_defs asking_def asking_plain_def')
  with r ask st show ?thesis by (intro that [of ?t2]) (simp_all add: same_stream_def)
qed

lemma password_replaced_plain:
  assumes "asking_plain env t" "\<forall>d \<in> set ds. negotiated_name env d = None \<and> CR \<notin> set d"
    "negotiated_name env (body @ CR # c # rest) = None" "CR \<notin> set body"
    "telnet_run env (map (Pair Frontend) (ds @ [body @ CR # c # rest])) t = (t', Inr ())"
  shows "sent_back t' = sent_back t @ [backend_answer env (authDone t') c] \<and> sent_front t' = sent_front t
    \<and> authDone t' = check_user env (usernameState t) (process_backspaces
        (passwordState t @ concat (map clean_password (ds @ [body @ CR # c # rest]))))"
proof -
  obtain t1 where t1: "telnet_run env (map (Pair Frontend) ds) t = (t1, Inr ())" "asking_plain env t1"
    "passwordState t1 = passwordState t @ concat (map clean_password ds)" "usernameState t1 = usernameState t"
    "sent_back t1 = sent_back t" "sent_front t1 = sent_front t"
    using pieces_kept [OF assms(1,2)] by blast
  obtain t2 r where t2: "addPacket env Frontend (body @ CR # c # rest) t1 = (t2, r)" by (metis prod.collapse)
  from assms(5) t1(1) t2 have "t2 = t'" "r = Inr ()" by (cases r; simp add: telnet_run_append)+
  with t2 have "addPacket env Frontend (body @ CR # c # rest) t1 = (t', Inr ())" by simp
  from password_answered [OF t1(2) assms(3) refl assms(4) this] t1(3-6) show ?thesis by simp
qed

text \<open>C7: The password the attacker types, in packets up to a return while the backend is silent, is taken
  out of the stream: the backend gets its own password when the attacker's name and password are accepted,
  one that is wrong when not, and nothing else. The exception is a backend that has hidden the echo in the
  packet that asks: then the first three bytes of the first packet, whatever they are, are sent to it before.\<close>

theorem telnet_password_replaced:
  assumes "asking env t" "\<forall>d \<in> set ds. negotiated_name env d = None \<and> CR \<notin> set d"
    "negotiated_name env (body @ CR # c # rest) = None" "CR \<notin> set body" "ps = ds @ [body @ CR # c # rest]"
    "telnet_run env (map (Pair Frontend) ps) t = (t', Inr ())"
  shows "sent_back t' = sent_back t @ (if prePasswordData t then [take 3 (hd ps)] else []) @ [backend_answer env (authDone t') c]
    \<and> sent_front t' = sent_front t
    \<and> authDone t' = check_user env (usernameState t) (process_backspaces (passwordState t @ concat (map clean_password ps)))"
proof (cases "prePasswordData t")
  case False
  with assms(1) have "asking_plain env t" by (simp add: asking_plain_def)
  from password_replaced_plain [OF this assms(2-4)] assms(5,6) False show ?thesis by simp
next
  case True
  have "ps \<noteq> []" using assms(5) by simp
  then obtain d ds' where ps: "ps = d # ds'" by (cases ps) blast+
  have n: "negotiated_name env d = None" using assms(2,3,5) ps by (cases ds) auto
  obtain t0 where t0: "addPacket env Frontend d t = (t0, Inr ())" "telnet_run env (map (Pair Frontend) ds') t0 = (t', Inr ())"
    using assms(6) ps by (cases "addPacket env Frontend d t"; cases "snd (addPacket env Frontend d t)") auto
  from first_bytes_sent [OF assms(1) True n t0(1)] obtain t1 where
    t1: "asking_plain env t1" "addPacket env Frontend d t1 = (t0, Inr ())" "sent_back t1 = sent_back t @ [take 3 d]"
      "sent_front t1 = sent_front t" "passwordState t1 = passwordState t" "usernameState t1 = usernameState t" by blast
  have "telnet_run env (map (Pair Frontend) ps) t1 = (t', Inr ())" using t0(2) t1(2) ps by simp
  moreover have "hd ps = d" using ps by simp
  ultimately show ?thesis
    using password_replaced_plain [OF t1(1) assms(2-4), of t'] t1(3-6) True assms(5) by simp
qed

text \<open>When the password is accepted, the packet that ends it is also logged as a command the attacker
  has typed.\<close>

theorem telnet_password_logged_as_command:
  assumes "asking_plain env t" "negotiated_name env (body @ CR # c # rest) = None" "CR \<notin> set body"
    "addPacket env Frontend (body @ CR # c # rest) t = (t', Inr ())" "authDone t'"
    "py_replace crlf [] (py_replace [CR, CHR 0x00] [] (body @ CR # c # rest)) = typed" "typed \<noteq> []"
  shows "last (tn_log t') = Command_typed typed"
  using password_answered [OF assms(1,2) refl assms(3,4)] assms(5-7) by auto

text \<open>A return at the end of a packet, with nothing behind it, raises IndexError while a name or a
  password is typed.\<close>

theorem telnet_bare_return_raises:
  assumes "spoofAuthenticationData env" "\<not> authDone t" "inputingPassword t" "\<not> prePasswordData t"
    "negotiated_name env (body @ [CR]) = None" "CR \<notin> set body"
  shows "snd (addPacket env Frontend (body @ [CR]) t) = Inl IndexError"
proof -
  have "terminating_char (body @ [CR]) = Inl IndexError"
    using assms(6) by (simp add: terminating_char_def py_nth_def)
  with assms show ?thesis by (simp add: telnet_defs)
qed

lemma log_command_front [simp]: "sent_front (log_command d t) = sent_front t"
  by (simp add: log_command_def Let_def)

lemma record_front: "sent_front (fst (record_telnet env dir d t)) = sent_front t"
  using record_stream [of t env dir d] by (simp add: same_stream_def)

lemma sbind_fst: "fst (sbind m f) = (case snd m of Inl e \<Rightarrow> fst m | Inr x \<Rightarrow> fst (f (fst m) x))"
  by (cases m) (simp add: sbind_def split: sum.split)

lemma flush_front: "sent_front (fst (flush_buffer env d ps t)) = sent_front t"
proof (induction ps arbitrary: t)
  case (Cons p ps)
  show ?case by (simp add: sbind_fst Cons.IH record_front recorded_size_def Let_def split: sum.split)
qed simp

text \<open>When the backend's packet looks like a prompt for the name and for the password at once, the
  password of the backend is echoed to the attacker as soon as a return is typed.\<close>

theorem telnet_backend_password_leaked:
  assumes "spoofAuthenticationData env" "\<not> authDone t" "inputingPassword t" "inputingLogin t" "\<not> prePasswordData t"
    "negotiated_name env (body @ CR # c # rest) = None" "CR \<notin> set body"
    "addPacket env Frontend (body @ CR # c # rest) t = (t', Inr ())" "CR \<notin> set (backendPassword env)"
  shows "\<exists>ok. last (sent_front t') = echo_text (backend_answer env ok c)"
proof -
  let ?d = "body @ CR # c # rest"
  let ?pw = "process_backspaces (passwordState t @ clean_password ?d)"
  let ?ok = "check_user env (usernameState t) ?pw"
  obtain tx where tx: "unicode_escape (known_names env) ?pw = Inr tx"
    using assms terminating_char_behind [OF assms(7), of c rest]
    by (cases "unicode_escape (known_names env) ?pw") (simp_all add: telnet_defs log_text_def)
  define t1 where "t1 = answer_password env (chr_encode (of_char c)) tx
     (t\<lparr>currentData := ?d, sendData := False, passwordState := ?pw\<rparr>)"
  have t1: "currentData t1 = backend_answer env ?ok c" "inputingLogin t1"
    using assms(4) by (simp_all add: t1_def answer_password_def Let_def backend_answer_def)
  obtain t2 where t2: "processUsernameInput env t1 = (t2, Inr ())"
    "forward_data env Frontend (if authDone t2 then log_command ?d t2 else t2) = (t', Inr ())"
    using assms terminating_char_behind [OF assms(7), of c rest] tx t1(2)
    by (cases "processUsernameInput env t1"; cases "snd (processUsernameInput env t1)")
       (simp_all add: telnet_defs log_text_def t1_def [symmetric] split: if_splits)
  have front: "last (sent_front t2) = echo_text (backend_answer env ?ok c)"
  proof -
    let ?t0 = "t1\<lparr>sendData := False, usernameState := usernameState t1 @ remove_all (currentData t1) [[CR], [CHR 0x00], [CHR 0x0A]]\<rparr>"
    from t2(1) obtain t3 where t3: "sendFrontend env (echo_text (currentData t1)) ?t0 = (t3, Inr ())"
      by (cases "sendFrontend env (echo_text (currentData t1)) ?t0"; cases "snd (sendFrontend env (echo_text (currentData t1)) ?t0)")
         (auto simp: processUsernameInput_def Let_def)
    from sendFrontend_stream [OF t3] have "sent_front t3 = sent_front t1 @ [echo_text (currentData t1)]" by (simp add: same_stream_def)
    moreover have "sent_front t2 = sent_front t3"
      using t2(1) t3 by (auto simp: processUsernameInput_def Let_def log_text_def sbind_def split: if_splits sum.splits)
    ultimately show ?thesis by (simp add: t1(1))
  qed
  have "sent_front t' = sent_front t2"
  proof -
    have "sent_front (fst (forward_data env Frontend s)) = sent_front s" for s
      by (simp add: forward_data_def sendBackend_def flush_front Let_def)
    with t2(2) show ?thesis by (metis fst_conv log_command_front)
  qed
  with front show ?thesis by auto
qed

subsection \<open>The stream outside of a login\<close>

datatype stream_event = Connected | Packet origin string

fun stream_run :: "telnet_env \<Rightarrow> stream_event list \<Rightarrow> telnet \<Rightarrow> (telnet, unit) sres" where
  "stream_run env [] t = (t, Inr ())"
| "stream_run env (Connected # es) t = stream_run env es (setClient t)"
| "stream_run env (Packet p d # es) t = sbind (addPacket env p d t) (\<lambda>t' _. stream_run env es t')"

fun typed_by :: "origin \<Rightarrow> stream_event list \<Rightarrow> string list" where
  "typed_by p [] = []"
| "typed_by p (Connected # es) = typed_by p es"
| "typed_by p (Packet q d # es) = (if p = q \<and> d \<noteq> [] then [d] else []) @ typed_by p es"

definition queue :: "telnet \<Rightarrow> string list" where
  "queue t = sent_back t @ backend_buffer t"

lemma log_command_stream [simp]:
  "queue (log_command d t) = queue t" "sent_front (log_command d t) = sent_front t"
  "has_client (log_command d t) = has_client t" "sendData (log_command d t) = sendData t"
  "currentData (log_command d t) = currentData t" "backend_buffer (log_command d t) = backend_buffer t"
  by (simp_all add: log_command_def queue_def Let_def)

lemma sendBackend_queue:
  assumes "sendBackend env d t = (t', Inr ())"
  shows "queue t' = queue t @ [d] \<and> sent_front t' = sent_front t \<and> has_client t' = has_client t
    \<and> (has_client t \<longrightarrow> backend_buffer t' = [])"
  using assms sendBackend_stream [OF assms]
  by (cases "has_client t") (auto simp: same_stream_def queue_def sendBackend_def Let_def)

lemma packet_stream:
  assumes "\<not> spoofAuthenticationData env" "addPacket env p d t = (t', Inr ())"
  shows "queue t' = queue t @ typed_by Frontend [Packet p d] \<and> sent_front t' = sent_front t @ typed_by Backend [Packet p d]
    \<and> has_client t' = has_client t \<and> (p = Frontend \<and> d \<noteq> [] \<and> has_client t \<longrightarrow> backend_buffer t' = [])"
proof -
  let ?t0 = "t\<lparr>currentData := d, sendData := True\<rparr>"
  let ?t1 = "if p = Frontend \<and> authDone t then log_command d ?t0 else ?t0"
  have f: "forward_data env p ?t1 = (t', Inr ())" using assms by (simp add: addPacket_def Let_def)
  have q: "queue ?t1 = queue t" "sent_front ?t1 = sent_front t" "has_client ?t1 = has_client t" "currentData ?t1 = d" "sendData ?t1"
    by (simp_all add: queue_def log_command_def Let_def)
  show ?thesis
  proof (cases "d = []")
    case True
    with f q show ?thesis by (simp add: forward_data_def split: if_splits)
  next
    case False
    show ?thesis
    proof (cases p)
      case Frontend
      with f q False have "sendBackend env d ?t1 = (t', Inr ())" by (simp add: forward_data_def)
      from sendBackend_queue [OF this] q Frontend False show ?thesis by simp
    next
      case Backend
      with f q False have "sendFrontend env d ?t1 = (t', Inr ())" by (simp add: forward_data_def)
      from sendFrontend_stream [OF this] q Backend False show ?thesis by (simp add: same_stream_def queue_def)
    qed
  qed
qed

text \<open>Without spoofing both directions pass in order and complete: what the backend has been sent,
  together with what waits for it, is what the attacker has typed, and after the first packet of the attacker
  with the backend there nothing waits.\<close>

theorem telnet_stream_in_order:
  assumes "\<not> spoofAuthenticationData env" "stream_run env es t = (t', Inr ())"
  shows "sent_back t' @ backend_buffer t' = sent_back t @ backend_buffer t @ typed_by Frontend es
    \<and> sent_front t' = sent_front t @ typed_by Backend es
    \<and> (\<forall>es0 d. es = es0 @ [Packet Frontend d] \<and> d \<noteq> [] \<and> has_client t' \<longrightarrow> backend_buffer t' = [])"
  using assms(2)
proof (induction es arbitrary: t)
  case (Cons e es)
  show ?case
  proof (cases e)
    case Connected
    with Cons.IH [of "setClient t"] Cons.prems show ?thesis
      by (auto simp: setClient_def Cons_eq_append_conv)
  next
    case (Packet p d)
    with Cons.prems obtain t1 where t1: "addPacket env p d t = (t1, Inr ())" "stream_run env es t1 = (t', Inr ())"
      by (auto simp: sbind_def split: prod.splits sum.splits)
    from packet_stream [OF assms(1) t1(1)] have s: "queue t1 = queue t @ typed_by Frontend [Packet p d]"
      "sent_front t1 = sent_front t @ typed_by Backend [Packet p d]" "has_client t1 = has_client t"
      "p = Frontend \<and> d \<noteq> [] \<and> has_client t \<longrightarrow> backend_buffer t1 = []" by auto
    from Cons.IH [OF t1(2)] s Packet t1(2) show ?thesis
      by (auto simp: queue_def Cons_eq_append_conv)
  qed
qed simp

subsection \<open>What is recorded of a late flush\<close>

lemma flush_recorded:
  assumes "flush_buffer env d ps t = (t', Inr ())" "tn_ttylog t" "authStarted t" "records (tn_dir t) (tn_file t) es"
  shows "records (tn_dir t') (tn_file t)
    (es @ replicate (length ps) (Tty_write TYPE_INPUT (telnet_now env) (py_replace [CHR 0x00] [CHR 0x0A] d)))"
  using assms
proof (induction ps arbitrary: t es)
  case (Cons p ps)
  let ?c = "py_replace [CHR 0x00] [CHR 0x0A] d" and ?t1 = "t\<lparr>sent_back := sent_back t @ [p]\<rparr>"
  obtain t2 where t2: "record_telnet env TYPE_INPUT ?c ?t1 = (t2, Inr ())"
    "flush_buffer env d ps ((recorded_size ?c t2)\<lparr>backend_buffer := drop 1 (backend_buffer t2)\<rparr>) = (t', Inr ())"
    using Cons.prems(1) log_raw_state(1) [of env d ?t1]
    by (cases "log_raw_data env d ?t1"; cases "record_telnet env TYPE_INPUT ?c ?t1")
       (auto simp: sbind_def Let_def split: sum.splits)
  from t2(1) Cons.prems(2,3) obtain dir where dir: "tty_event (tn_file t) (Tty_write TYPE_INPUT (telnet_now env) ?c) (tn_dir t) = (dir, Inr ())"
    "t2 = ?t1\<lparr>tn_dir := dir\<rparr>"
    by (auto simp: record_telnet_def tty_event_simps split: prod.splits)
  from tty_event_records [OF Cons.prems(4) dir(1)] have "records dir (tn_file t) (es @ [Tty_write TYPE_INPUT (telnet_now env) ?c])"
    by simp
  with Cons.IH [OF t2(2), of "es @ [Tty_write TYPE_INPUT (telnet_now env) ?c]"] Cons.prems(2,3) dir(2)
  show ?case by (simp add: recorded_size_def)
qed simp

text \<open>When packets have been waiting for the backend, the recording gets the newest data once for each of
  them and once for itself; what they held is not in it.\<close>

theorem telnet_late_flush_recorded:
  assumes "sendBackend env d t = (t', Inr ())" "has_client t" "tn_ttylog t" "authStarted t"
    "records (tn_dir t) (tn_file t) es"
  shows "sent_back t' = sent_back t @ backend_buffer t @ [d] \<and> records (tn_dir t') (tn_file t)
    (es @ replicate (length (backend_buffer t) + 1) (Tty_write TYPE_INPUT (telnet_now env) (py_replace [CHR 0x00] [CHR 0x0A] d)))"
  using flush_recorded [of env d "backend_buffer t @ [d]" "t\<lparr>backend_buffer := backend_buffer t @ [d]\<rparr>" t' es]
    sendBackend_stream [OF assms(1,2)] assms
  by (simp add: sendBackend_def Let_def same_stream_def)

subsection \<open>Backspaces\<close>

lemma process_backspaces_snoc:
  "process_backspaces (s @ [c]) =
     (if of_char c = (127 :: nat) then butlast (process_backspaces s) else process_backspaces s @ chr_encode (of_char c))"
proof -
  have "chr_encode (of_char c) = [CHR 0x7F] \<longleftrightarrow> of_char c = (127 :: nat)"
  proof
    assume "chr_encode (of_char c) = [CHR 0x7F]"
    then have "char_of (of_char c :: nat) = CHR 0x7F" by (simp add: chr_encode_def split: if_splits)
    then show "of_char c = (127 :: nat)" by simp
  next
    assume "of_char c = (127 :: nat)"
    then have "c = char_of (127 :: nat)" by (metis char_of_char)
    moreover have "char_of (127 :: nat) = CHR 0x7F" by code_simp
    ultimately show "chr_encode (of_char c) = [CHR 0x7F]" by (simp add: chr_encode_def)
  qed
  then show ?thesis by (simp add: process_backspaces_def)
qed

text \<open>In ASCII text a character and the backspace behind it cancel; a character above needs two.\<close>

lemma process_backspaces_cancel:
  assumes "of_char c < (127 :: nat)"
  shows "process_backspaces (a @ [c, CHR 0x7F] @ b) = process_backspaces (a @ b)"
proof (induction b rule: rev_induct)
  case Nil
  have "process_backspaces ((a @ [c]) @ [CHR 0x7F]) = process_backspaces a"
    using assms unfolding process_backspaces_snoc by (simp add: chr_encode_ascii)
  then show ?case by simp
next
  case (snoc x b)
  have "process_backspaces ((a @ [c, CHR 0x7F] @ b) @ [x]) = process_backspaces ((a @ b) @ [x])"
    unfolding process_backspaces_snoc snoc ..
  then show ?case by simp
qed

lemma process_backspaces_latin1: "process_backspaces [CHR 0xE9, CHR 0x7F] = [CHR 0xC3]"
  by code_simp

subsection \<open>On a concrete session\<close>

definition demo_telnet_env :: telnet_env where
  "demo_telnet_env = \<lparr>spoofAuthenticationData = True, backendLogin = ''root'', backendPassword = ''secret'',
     negotiated_name = (\<lambda>_. None), spoof_name = (\<lambda>_ d. d), login_prompt = contains ''login: '',
     password_prompt = contains ''Password: '', check_user = (\<lambda>u p. p = ''123''), raw_logged = False,
     known_names = (\<lambda>_. None), telnet_now = 0, telnet_sha = rev, telnet_path = ''t''\<rparr>"

definition demo_telnet :: telnet where
  "demo_telnet = \<lparr>currentData = [], sendData = True, has_client = True, currentCommand = [], authStarted = True,
     authDone = False, usernameState = ''bob'', inputingLogin = False, passwordState = [], inputingPassword = True,
     waitingLoginEcho = False, prePasswordData = False, backend_buffer = [], tn_ttylog = False, tn_file = ''f'',
     tn_size = 0, tn_dir = Map.empty, sent_back = [], sent_front = [], tn_log = []\<rparr>"

lemma demo_asking: "asking demo_telnet_env demo_telnet" "asking_plain demo_telnet_env demo_telnet"
  by (simp_all add: asking_def asking_plain_def demo_telnet_env_def demo_telnet_def)

lemma demo_password:
  "clean_password ''1'' = ''1''"
  "process_backspaces (CHR ''1'' # clean_password [CHR ''2'', CHR ''3'', CHR 0x0D, CHR 0x00]) = ''123''"
  "process_backspaces (clean_password [CHR ''1'', CHR ''2'', CHR ''3'', CHR 0x0D, CHR 0x00]) = ''123''"
  by code_simp+

theorem telnet_password_replaced_witness:
  "\<exists>t'. telnet_run demo_telnet_env [(Frontend, ''1''), (Frontend, [CHR ''2'', CHR ''3'', CR, CHR 0x00])] demo_telnet = (t', Inr ())
    \<and> authDone t' \<and> sent_back t' = [''secret'' @ [CR, CHR 0x00]]"
proof -
  let ?last = "''23'' @ CR # CHR 0x00 # []"
  let ?run = "telnet_run demo_telnet_env (map (Pair Frontend) [''1''] @ [(Frontend, ?last)]) demo_telnet"
  have n: "negotiated_name demo_telnet_env d = None" "\<not> raw_logged demo_telnet_env" for d by (simp_all add: demo_telnet_env_def)
  let ?t1 = "demo_telnet\<lparr>currentData := ''1'', sendData := False, passwordState := ''1''\<rparr>"
  have t1: "addPacket demo_telnet_env Frontend ''1'' demo_telnet = (?t1, Inr ())"
    using demo_password(1) by (simp add: telnet_defs forward_data_def demo_telnet_env_def demo_telnet_def CR_def)
  have "asking_plain demo_telnet_env ?t1" using demo_asking(2) by (simp add: asking_plain_def')
  moreover have "process_backspaces (passwordState ?t1 @ clean_password ?last) = ''123''" using demo_password(2) by (simp add: CR_def)
  ultimately have "\<exists>t'. addPacket demo_telnet_env Frontend ?last ?t1 = (t', Inr ())"
    by (intro password_accepted_ok [OF _ n(1) refl]) (simp_all add: n(2), simp_all add: CR_def demo_telnet_def)
  then obtain t' where run: "?run = (t', Inr ())" using t1 by auto
  have "sent_back t' = [backend_answer demo_telnet_env (authDone t') (CHR 0x00)]" "authDone t'"
    using telnet_password_replaced [OF demo_asking(1) _ _ _ refl, of "[''1'']" "''23''" "CHR 0x00" "[]" t'] run
    by (simp_all add: demo_telnet_env_def demo_telnet_def CR_def demo_password)
  moreover have "backend_answer demo_telnet_env True (CHR 0x00) = ''secret'' @ [CR, CHR 0x00]"
    by code_simp
  ultimately show ?thesis using run by (simp add: CR_def)
qed

theorem telnet_password_logged_as_command_witness:
  "\<exists>t'. addPacket demo_telnet_env Frontend (''123'' @ CR # CHR 0x00 # []) demo_telnet = (t', Inr ())
    \<and> last (tn_log t') = Command_typed ''123''"
proof -
  let ?d = "''123'' @ CR # CHR 0x00 # []"
  have n: "negotiated_name demo_telnet_env ?d = None" "\<not> raw_logged demo_telnet_env" by (simp_all add: demo_telnet_env_def)
  have pw: "process_backspaces (passwordState demo_telnet @ clean_password ?d) = ''123''"
    using demo_password(3) by (simp add: demo_telnet_def CR_def)
  obtain t' where r: "addPacket demo_telnet_env Frontend ?d demo_telnet = (t', Inr ())"
    using password_accepted_ok [OF demo_asking(2) n(1) refl _ n(2)] pw by (auto simp: demo_telnet_def CR_def)
  have "authDone t'" using password_answered [OF demo_asking(2) n(1) refl _ r] pw by (simp add: CR_def demo_telnet_env_def)
  have "py_replace crlf [] (py_replace [CR, CHR 0x00] [] ?d) = ''123''" by code_simp
  from telnet_password_logged_as_command [OF demo_asking(2) n(1) _ r \<open>authDone t'\<close> this] r show ?thesis by (simp add: CR_def)
qed

theorem telnet_bare_return_raises_witness:
  "snd (addPacket demo_telnet_env Frontend (''12'' @ [CR]) demo_telnet) = Inl IndexError"
  by (rule telnet_bare_return_raises) (simp_all add: demo_telnet_env_def demo_telnet_def CR_def)

theorem telnet_backend_password_leaked_witness:
  "\<exists>t'. addPacket demo_telnet_env Frontend (''x'' @ CR # CHR 0x00 # []) (demo_telnet\<lparr>inputingLogin := True\<rparr>) = (t', Inr ())
    \<and> (\<exists>ok. last (sent_front t') = echo_text (backend_answer demo_telnet_env ok (CHR 0x00)))"
proof -
  let ?t = "demo_telnet\<lparr>inputingLogin := True\<rparr>"
  let ?step = "addPacket demo_telnet_env Frontend (''x'' @ CR # CHR 0x00 # []) ?t"
  have "snd ?step = Inr ()" by code_simp
  then obtain t' where r: "?step = (t', Inr ())" by (metis prod.collapse)
  have "\<exists>ok. last (sent_front t') = echo_text (backend_answer demo_telnet_env ok (CHR 0x00))"
    by (rule telnet_backend_password_leaked [OF _ _ _ _ _ _ _ r]) (simp_all add: demo_telnet_env_def demo_telnet_def CR_def)
  with r show ?thesis by blast
qed

theorem telnet_stream_in_order_witness:
  "\<exists>t'. stream_run (demo_telnet_env\<lparr>spoofAuthenticationData := False\<rparr>)
      [Packet Frontend ''a'', Connected, Packet Backend ''b'', Packet Frontend ''c''] (demo_telnet\<lparr>has_client := False\<rparr>) = (t', Inr ())
    \<and> sent_back t' = [''a'', ''c''] \<and> sent_front t' = [''b'']"
proof -
  let ?env = "demo_telnet_env\<lparr>spoofAuthenticationData := False\<rparr>" and ?t = "demo_telnet\<lparr>has_client := False\<rparr>"
  let ?es = "[Packet Frontend ''a'', Connected, Packet Backend ''b'', Packet Frontend ''c'']"
  let ?run = "stream_run ?env ?es ?t"
  have "snd ?run = Inr ()" "has_client (fst ?run)" by code_simp+
  then obtain t' where r: "?run = (t', Inr ())" "has_client t'" by (cases ?run) simp
  have s: "sent_back t' @ backend_buffer t' = sent_back ?t @ backend_buffer ?t @ typed_by Frontend ?es"
    "sent_front t' = sent_front ?t @ typed_by Backend ?es"
    "\<forall>es0 d. ?es = es0 @ [Packet Frontend d] \<and> d \<noteq> [] \<and> has_client t' \<longrightarrow> backend_buffer t' = []"
    using telnet_stream_in_order [OF _ r(1)] by (simp_all add: demo_telnet_env_def)
  have "backend_buffer t' = []"
    using s(3) [rule_format, of "[Packet Frontend ''a'', Connected, Packet Backend ''b'']" "''c''"] r(2) by simp
  with r s show ?thesis by (simp add: demo_telnet_def)
qed

theorem telnet_late_flush_recorded_witness:
  "\<exists>t' f. sendBackend demo_telnet_env ''c'' (demo_telnet\<lparr>tn_ttylog := True, backend_buffer := [''a''], tn_dir := [''f'' \<mapsto> []]\<rparr>)
      = (t', Inr ()) \<and> records (tn_dir t') ''f'' [Tty_write TYPE_INPUT 0 ''c'', Tty_write TYPE_INPUT 0 ''c'']"
proof -
  let ?t = "demo_telnet\<lparr>tn_ttylog := True, backend_buffer := [''a''], tn_dir := [''f'' \<mapsto> []]\<rparr>"
  have c: "py_replace [CHR 0x00] [CHR 0x0A] ''c'' = ''c''" by code_simp
  have "records (tn_dir ?t) ''f'' []" by (simp add: records_def demo_telnet_def)
  moreover have "\<exists>t'. sendBackend demo_telnet_env ''c'' ?t = (t', Inr ())"
    by (simp add: sendBackend_def log_raw_data_def record_telnet_def demo_telnet_env_def demo_telnet_def Let_def c recorded_size_def
        tty_write_def append_with_def ttylog_write_def stamp_header_def pack_header_def pack_i_def pack_L_def py_int_def tty_consts)
  then obtain t' where "sendBackend demo_telnet_env ''c'' ?t = (t', Inr ())" by blast
  ultimately show ?thesis
    using telnet_late_flush_recorded [of demo_telnet_env "''c''" ?t t' "[]"]
    by (simp add: demo_telnet_def demo_telnet_env_def c numeral_2_eq_2)
qed

end
