(* ===== verification/Prelude_Utf8.thy ===== *)
theory Prelude_Utf8
  imports Prelude_Bytes
begin

section \<open>Decoding with replacement characters\<close>

text \<open>
  \<open>decode('utf-8', errors='replace')\<close>: every ill-formed part is replaced by U+FFFD, one for each
  maximal prefix of a well-formed sequence, as CPython does it. A text is the bytes of its UTF-8
  encoding, so the function maps bytes to bytes.
\<close>

definition replacement :: "nat list" where "replacement = [239, 191, 189]"

definition cont_byte :: "nat \<Rightarrow> bool" where "cont_byte b \<longleftrightarrow> 128 \<le> b \<and> b < 192"

text \<open>The second byte that may follow a first byte of 194 or more.\<close>

definition second_byte :: "nat \<Rightarrow> nat \<Rightarrow> bool" where
  "second_byte a b \<longleftrightarrow>
     (if a = 224 then 160 else if a = 240 then 144 else 128) \<le> b
     \<and> b < (if a = 237 then 160 else if a = 244 then 144 else 192)"

fun utf8_replace :: "nat list \<Rightarrow> nat list" where
  "utf8_replace [] = []"
| "utf8_replace (a # bs) =
     (if a < 128 then a # utf8_replace bs
      else if a < 194 \<or> 245 \<le> a then replacement @ utf8_replace bs
      else case bs of
        [] \<Rightarrow> replacement
      | b # r \<Rightarrow>
          if \<not> second_byte a b then replacement @ utf8_replace (b # r)
          else if a < 224 then a # b # utf8_replace r
          else (case r of
            [] \<Rightarrow> replacement
          | c # t \<Rightarrow>
              if \<not> cont_byte c then replacement @ utf8_replace (c # t)
              else if a < 240 then a # b # c # utf8_replace t
              else (case t of
                [] \<Rightarrow> replacement
              | d # u \<Rightarrow> if \<not> cont_byte d then replacement @ utf8_replace (d # u)
                          else a # b # c # d # utf8_replace u)))"

declare utf8_replace.simps(2) [simp del]

lemma utf8_valid_replacement [simp]: "utf8_valid (replacement @ ns) = utf8_valid ns"
  by (simp add: replacement_def)

lemma utf8_valid_replace: "utf8_valid (utf8_replace ns)"
proof (induction ns rule: utf8_replace.induct)
  case (2 a bs)
  then show ?case
    by (subst utf8_replace.simps)
      (auto split: list.splits simp: second_byte_def cont_byte_def utf8_valid_replacement [of "[]", simplified]
        split: if_splits)
qed simp

text \<open>The well-formed sequences in the same terms.\<close>

lemma utf8_valid_Cons:
  "utf8_valid (a # bs) \<longleftrightarrow>
     (if a < 128 then utf8_valid bs
      else if a < 194 \<or> 245 \<le> a then False
      else if a < 224 then (case bs of b # r \<Rightarrow> second_byte a b \<and> utf8_valid r | _ \<Rightarrow> False)
      else if a < 240 then (case bs of b # c # r \<Rightarrow> second_byte a b \<and> cont_byte c \<and> utf8_valid r | _ \<Rightarrow> False)
      else (case bs of b # c # d # r \<Rightarrow> second_byte a b \<and> cont_byte c \<and> cont_byte d \<and> utf8_valid r
            | _ \<Rightarrow> False))"
  by (auto simp: second_byte_def cont_byte_def split: list.splits)

lemma utf8_replace_valid: "utf8_valid ns \<Longrightarrow> utf8_replace ns = ns"
proof (induction ns rule: utf8_replace.induct)
  case (2 a bs)
  note valid = 2(9) [unfolded utf8_valid_Cons]
  show ?case
  proof (cases "a < 128")
    case True
    with valid 2(1) show ?thesis by (simp add: utf8_replace.simps(2))
  next
    case False
    with valid have a: "\<not> (a < 194 \<or> 245 \<le> a)" by (simp split: if_splits)
    with False valid obtain b r where b: "bs = b # r" "second_byte a b"
      by (auto split: if_splits list.splits)
    show ?thesis
    proof (cases "a < 224")
      case True
      with False a b valid 2(4) [OF False a b(1)] show ?thesis by (simp add: utf8_replace.simps(2))
    next
      case long: False
      with False a b valid obtain c t where c: "r = c # t" "cont_byte c"
        by (auto split: if_splits list.splits)
      show ?thesis
      proof (cases "a < 240")
        case True
        with False a b c long valid 2(6) [OF False a b(1) _ long c(1)] show ?thesis
          by (simp add: utf8_replace.simps(2))
      next
        case four: False
        with False a b c long valid obtain d u where d: "t = d # u" "cont_byte d"
          by (auto split: if_splits list.splits)
        with False a b c long four valid 2(8) [OF False a b(1) _ long c(1) _ four d(1)] show ?thesis
          by (simp add: utf8_replace.simps(2))
      qed
    qed
  qed
qed simp

lemma utf8_replace_bytes: "list_all (\<lambda>n. n < 256) ns \<Longrightarrow> list_all (\<lambda>n. n < 256) (utf8_replace ns)"
proof (induction ns rule: utf8_replace.induct)
  case (2 a bs)
  then show ?case
    by (subst utf8_replace.simps) (auto split: list.splits if_splits simp: replacement_def)
qed simp

definition decode_replace :: "string \<Rightarrow> string" where
  "decode_replace s = map char_of (utf8_replace (map of_char s))"

lemma map_of_char_decode_replace [simp]:
  "map of_char (decode_replace s) = (utf8_replace (map of_char s) :: nat list)"
proof -
  have "list_all (\<lambda>n. n < 256) (utf8_replace (map of_char s))"
    by (rule utf8_replace_bytes) (simp add: list_all_iff)
  then have "map (\<lambda>n. of_char (char_of n :: char)) (utf8_replace (map of_char s)) = utf8_replace (map of_char s)"
    by (intro map_idI) (auto simp: list_all_iff)
  then show ?thesis by (simp add: decode_replace_def comp_def)
qed

text \<open>The result can be decoded, and a text that can be decoded is left alone.\<close>

lemma decode_replace_valid [simp]: "py_decode (decode_replace s) = Inr (decode_replace s)"
  by (simp add: py_decode_def utf8_valid_replace)

lemma decode_replace_id: "py_decode s = Inr t \<Longrightarrow> decode_replace s = s"
  by (simp add: py_decode_def decode_replace_def utf8_replace_valid comp_def split: if_splits)

lemma decode_replace_Nil [simp]: "decode_replace [] = []"
  by (simp add: decode_replace_def)

end
