(* ===== verification/Telnet_Auth.thy ===== *)
theory Telnet_Auth
  imports Prelude_Utf8
begin

section \<open>The login of the telnet server\<close>

text \<open>
  Model of \<open>telnet/userauth.py\<close>: the prompts for a user name and a password, the login once the
  client has agreed to stop echoing, and the environment variables a client sends before, with the
  login bypass they can trigger. The base class of Twisted calls \<open>telnet_<state>\<close> with each line
  and moves to the state that call returns unless the state has changed meanwhile; this choice is
  \<open>settle\<close> (old state, state now, state returned). Whether a Deferred of the negotiation fires at
  once is part of the event, the answer of the portal is \<open>portal\<close>.
\<close>

datatype prompt_state = In_User | In_Password | In_Discard | In_Command

datatype telnet_out =
    Write string | Will_echo | Wont_echo | Submit string string | Set_timeout int
  | Forward string | Client_var string string | Exploit_attempt string | Exploit_success string string string

record login_env =
  portal :: "string \<Rightarrow> string \<Rightarrow> bool"
  vulnerable :: bool
  idle_timeout :: int
  banner :: string
  settle :: "prompt_state \<Rightarrow> prompt_state \<Rightarrow> prompt_state \<Rightarrow> prompt_state"

record telnet_login =
  prompt :: prompt_state
  user_line :: "string option"
  windowSize :: "nat \<times> nat"
  environ_received :: "(string \<times> string) list"
  cve_user :: "string option"
  waiting :: "(string \<times> string) option"
  session_window :: "(nat \<times> nat) option"
  outs :: "telnet_out list"

definition emit :: "telnet_out \<Rightarrow> telnet_login \<Rightarrow> telnet_login" where
  "emit x s = s\<lparr>outs := outs s @ [x]\<rparr>"

lemma emit_simps [simp]:
  "prompt (emit x s) = prompt s" "user_line (emit x s) = user_line s" "windowSize (emit x s) = windowSize s"
  "environ_received (emit x s) = environ_received s" "cve_user (emit x s) = cve_user s"
  "waiting (emit x s) = waiting s" "session_window (emit x s) = session_window s" "outs (emit x s) = outs s @ [x]"
  by (simp_all add: emit_def)

subsection \<open>Environment variables\<close>

abbreviation ENV_VAR :: char where "ENV_VAR \<equiv> CHR 0x00"
abbreviation ENV_VALUE :: char where "ENV_VALUE \<equiv> CHR 0x01"
abbreviation ENV_ESC :: char where "ENV_ESC \<equiv> CHR 0x02"
abbreviation ENV_USERVAR :: char where "ENV_USERVAR \<equiv> CHR 0x03"

definition save_variable :: "string \<Rightarrow> string \<Rightarrow> (string \<times> string) list \<Rightarrow> (string \<times> string) list" where
  "save_variable name val vars =
     (if name = [] then vars else AList.update (decode_replace name) (decode_replace val) vars)"

fun parse_environ ::
  "string \<Rightarrow> string \<Rightarrow> string \<Rightarrow> bool \<Rightarrow> bool \<Rightarrow> (string \<times> string) list \<Rightarrow> (string \<times> string) list" where
  "parse_environ [] name val in_value escaped vars = save_variable name val vars"
| "parse_environ (b # bs) name val in_value escaped vars =
     (if escaped then
        (if in_value then parse_environ bs name (val @ [b]) in_value False vars
         else parse_environ bs (name @ [b]) val in_value False vars)
      else if b = ENV_ESC then parse_environ bs name val in_value True vars
      else if b = ENV_VAR \<or> b = ENV_USERVAR then parse_environ bs [] [] False False (save_variable name val vars)
      else if b = ENV_VALUE then parse_environ bs name val True False vars
      else if in_value then parse_environ bs name (val @ [b]) in_value False vars
      else parse_environ bs (name @ [b]) val in_value False vars)"

definition parse_new_environ_data :: "string \<Rightarrow> (string \<times> string) list" where
  "parse_new_environ_data data = parse_environ data [] [] False False []"

definition extract_cve_user :: "string \<Rightarrow> string option" where
  "extract_cve_user val =
     (if \<not> starts_with val ''-f'' then None
      else let remainder = drop 2 val in
        if starts_with remainder '' '' then (if 1 < length remainder then Some (drop 1 remainder) else None)
        else if remainder \<noteq> [] then Some remainder else None)"

text \<open>\<open>name.upper() == 'USER'\<close>. Besides the letters themselves, U+017F (bytes C5 BF) becomes an S.\<close>

definition upper_char :: "char \<Rightarrow> char" where
  "upper_char c = (let n = (of_char c :: nat) in if 97 \<le> n \<and> n \<le> 122 then char_of (n - 32) else c)"

definition names_user :: "string \<Rightarrow> bool" where
  "names_user name \<longleftrightarrow> map upper_char (py_replace [CHR 0xC5, CHR 0xBF] ''S'' name) = ''USER''"

definition environ_variable :: "login_env \<Rightarrow> string \<times> string \<Rightarrow> telnet_login \<Rightarrow> telnet_login" where
  "environ_variable env v s =
     (let (name, val) = v;
          s1 = emit (Client_var name val) (s\<lparr>environ_received := AList.update name val (environ_received s)\<rparr>) in
      if names_user name \<and> starts_with val ''-f'' then
        (let s2 = emit (Exploit_attempt val) s1 in
         if vulnerable env then
           (case extract_cve_user val of None \<Rightarrow> s2 | Some u \<Rightarrow> s2\<lparr>cve_user := Some u\<rparr>)
         else s2)
      else s1)"

definition telnet_NEW_ENVIRON :: "login_env \<Rightarrow> string list \<Rightarrow> telnet_login \<Rightarrow> telnet_login" where
  "telnet_NEW_ENVIRON env data s =
     (case concat data of
        [] \<Rightarrow> s
      | command # rest \<Rightarrow>
          if command = CHR 0x00 \<or> command = CHR 0x02 then
            fold (environ_variable env) (parse_new_environ_data rest) s
          else s)"

definition telnet_NAWS :: "string list \<Rightarrow> telnet_login \<Rightarrow> (telnet_login, unit) sres" where
  "telnet_NAWS data s =
     (if length data = 4 then
        (let raw = concat data in
         if length raw = 4
         then (s\<lparr>windowSize := (unpack_be (drop 2 raw), unpack_be (take 2 raw))\<rparr>, Inr ())
         else (s, Inl StructError))
      else (s, Inr ()))"

subsection \<open>Prompts and login\<close>

definition connection_made :: "login_env \<Rightarrow> telnet_login" where
  "connection_made env =
     \<lparr>prompt = In_User, user_line = None, windowSize = (40, 80), environ_received = [], cve_user = None,
      waiting = None, session_window = None,
      outs = [Write (py_replace [CHR 0x0A] [CHR 0x0D, CHR 0x0D, CHR 0x0A] (banner env)), Write ''login: '']\<rparr>"

definition telnet_User :: "string \<Rightarrow> telnet_login \<Rightarrow> telnet_login" where
  "telnet_User line s = emit (Write ''Password: '') (emit Will_echo (s\<lparr>user_line := Some line\<rparr>))"

definition cb_login :: "login_env \<Rightarrow> telnet_login \<Rightarrow> telnet_login" where
  "cb_login env s =
     emit (Set_timeout (idle_timeout env))
       (emit (Write [CHR 0x0A]) (s\<lparr>session_window := Some (windowSize s), prompt := In_Command\<rparr>))"

definition eb_login :: "telnet_login \<Rightarrow> telnet_login" where
  "eb_login s =
     (emit (Write ''login: '')
       (emit (Write ([CHR 0x0A] @ ''Login incorrect'' @ [CHR 0x0A])) (emit Wont_echo s)))\<lparr>prompt := In_User\<rparr>"

definition submit_login :: "login_env \<Rightarrow> string \<Rightarrow> string \<Rightarrow> telnet_login \<Rightarrow> telnet_login" where
  "submit_login env u p s =
     (let s1 = emit (Submit u p) s in if portal env u p then cb_login env s1 else eb_login s1)"

text \<open>\<open>options\<close>: the client has negotiated something; \<open>now\<close>: the answer to WONT ECHO is there already.\<close>

definition telnet_Password :: "login_env \<Rightarrow> string \<Rightarrow> bool \<Rightarrow> bool \<Rightarrow> telnet_login \<Rightarrow> (telnet_login, unit) sres" where
  "telnet_Password env line options now s =
     (case user_line s of
        None \<Rightarrow> (s, Inl AttributeError)
      | Some u \<Rightarrow>
          let s1 = s\<lparr>user_line := None\<rparr>;
              (u', p', s2) =
                (case cve_user s1 of
                   None \<Rightarrow> (u, line, s1)
                 | Some x \<Rightarrow> (x, [], (emit (Exploit_success x u line) s1)\<lparr>cve_user := None\<rparr>)) in
          if options then
            (let s3 = emit Wont_echo s2 in
             (if now then submit_login env u' p' s3 else s3\<lparr>waiting := Some (u', p')\<rparr>, Inr ()))
          else (submit_login env u' p' s2, Inr ()))"

definition telnet_Command :: "string \<Rightarrow> telnet_login \<Rightarrow> telnet_login" where
  "telnet_Command line s = emit (Forward (line @ [CHR 0x0D])) s"

text \<open>\<open>lineReceived\<close> of the base class, and the late answer to WONT ECHO.\<close>

definition line_received :: "login_env \<Rightarrow> string \<Rightarrow> bool \<Rightarrow> bool \<Rightarrow> telnet_login \<Rightarrow> (telnet_login, unit) sres" where
  "line_received env line options now s =
     (let move = (\<lambda>new s'. s'\<lparr>prompt := settle env (prompt s) (prompt s') new\<rparr>) in
      case prompt s of
        In_User \<Rightarrow> (move In_Password (telnet_User line s), Inr ())
      | In_Password \<Rightarrow>
          sbind (telnet_Password env line options now s) (\<lambda>s' _. (move In_Discard s', Inr ()))
      | In_Discard \<Rightarrow> (s, Inr ())
      | In_Command \<Rightarrow> (move In_Command (telnet_Command line s), Inr ()))"

definition echo_negotiated :: "login_env \<Rightarrow> telnet_login \<Rightarrow> telnet_login" where
  "echo_negotiated env s =
     (case waiting s of None \<Rightarrow> s | Some (u, p) \<Rightarrow> submit_login env u p (s\<lparr>waiting := None\<rparr>))"

subsection \<open>Options\<close>

datatype telnet_option = OPT_ECHO | OPT_SGA | OPT_LINEMODE | OPT_NAWS | OPT_NEW_ENVIRON | OPT_other nat

definition enable_local :: "telnet_option \<Rightarrow> bool" where
  "enable_local option = (if option = OPT_ECHO then True else if option = OPT_SGA then False else False)"

definition enable_remote :: "telnet_option \<Rightarrow> bool" where
  "enable_remote option =
     (if option = OPT_LINEMODE then False else if option = OPT_NAWS then True
      else if option = OPT_SGA then True else if option = OPT_NEW_ENVIRON then True else False)"

subsection \<open>Runs\<close>

datatype telnet_event = Line string bool bool | Echo_negotiated | Naws "string list" | New_environ "string list"

text \<open>An exception ends the handling of its event.\<close>

fun telnet_step :: "login_env \<Rightarrow> telnet_login \<Rightarrow> telnet_event \<Rightarrow> telnet_login" where
  "telnet_step env s (Line l options now) = fst (line_received env l options now s)"
| "telnet_step env s Echo_negotiated = echo_negotiated env s"
| "telnet_step env s (Naws data) = fst (telnet_NAWS data s)"
| "telnet_step env s (New_environ data) = telnet_NEW_ENVIRON env data s"

end
