(* ===== verification/Telnet_Auth_Props.thy ===== *)
theory Telnet_Auth_Props
  imports Telnet_Auth
begin

section \<open>Properties of the telnet login\<close>

text \<open>
  The environment variables of a client are read back as it encoded them, and the login follows a
  machine of four phases: which credentials reach the portal, and which lines the session.
\<close>

subsection \<open>Environment variables\<close>

text \<open>The encoding of RFC 1572: bytes below four are escaped.\<close>

definition env_escape :: "string \<Rightarrow> string" where
  "env_escape s = concat (map (\<lambda>c. if of_char c < (4 :: nat) then [ENV_ESC, c] else [c]) s)"

definition encode_variable :: "bool \<times> string \<times> string \<Rightarrow> string" where
  "encode_variable v =
     (case v of (user, name, val) \<Rightarrow>
        (if user then ENV_USERVAR else ENV_VAR) # env_escape name @ ENV_VALUE # env_escape val)"

definition encode_environ :: "(bool \<times> string \<times> string) list \<Rightarrow> string" where
  "encode_environ vs = concat (map encode_variable vs)"

lemma plain_byte: "\<not> of_char c < (4 :: nat) \<Longrightarrow> c \<noteq> ENV_ESC \<and> c \<noteq> ENV_VAR \<and> c \<noteq> ENV_USERVAR \<and> c \<noteq> ENV_VALUE"
  by auto

lemma parse_name:
  "parse_environ (env_escape n @ r) nm val False False vars = parse_environ r (nm @ n) val False False vars"
  by (induction n arbitrary: nm) (auto simp: env_escape_def plain_byte)

lemma parse_value:
  "parse_environ (env_escape v @ r) nm val True False vars = parse_environ r nm (val @ v) True False vars"
  by (induction v arbitrary: val) (auto simp: env_escape_def plain_byte)

lemma parse_encoded:
  "parse_environ (encode_environ vs) nm val iv False vars =
     foldl (\<lambda>d (_, n, v). save_variable n v d) (save_variable nm val vars) vs"
proof (induction vs arbitrary: nm val iv vars)
  case (Cons x vs)
  obtain u n v where x: "x = (u, n, v)" by (cases x)
  show ?case
    by (simp add: x encode_environ_def encode_variable_def parse_name parse_value
        Cons.IH [unfolded encode_environ_def])
qed (simp add: encode_environ_def)

lemma fold_variables:
  assumes "list_all (\<lambda>(_, n, v). n \<noteq> [] \<and> py_decode n = Inr n \<and> py_decode v = Inr v) vs"
    "distinct (map fst d @ map (\<lambda>(_, n, _). n) vs)"
  shows "foldl (\<lambda>d (_, n, v). save_variable n v d) d vs = d @ map snd vs"
  using assms
proof (induction vs arbitrary: d)
  case (Cons x vs)
  obtain u n v where x: "x = (u, n, v)" by (cases x)
  from Cons.prems x have n: "n \<noteq> []" "decode_replace n = n" "decode_replace v = v" "map_of d n = None"
    by (auto simp: decode_replace_id map_of_eq_None_iff)
  have "foldl (\<lambda>d (_, n, v). save_variable n v d) (d @ [(n, v)]) vs
      = (d @ [(n, v)]) @ map snd vs"
    using Cons.prems x by (intro Cons.IH) auto
  with n show ?case by (simp add: x save_variable_def alist_update_new)
qed simp

text \<open>Whatever bytes they contain, the variables a client encodes as RFC 1572 says come out of the
  parser as they went in, in the same order, when the names are different, not empty, and names and
  values are UTF-8.\<close>

theorem environ_roundtrip:
  assumes "list_all (\<lambda>(_, n, v). n \<noteq> [] \<and> py_decode n = Inr n \<and> py_decode v = Inr v) vs"
    "distinct (map (\<lambda>(_, n, _). n) vs)"
  shows "parse_new_environ_data (encode_environ vs) = map snd vs"
  using fold_variables [of vs "[]"] assms
  by (simp add: parse_new_environ_data_def parse_encoded save_variable_def [of "[]"])

lemma environ_roundtrip_witness:
  "parse_new_environ_data (encode_environ [(False, ''USER'', ''-f root''), (True, [CHR 0x02, CHR 0x41], [CHR 0x00])])
     = [(''USER'', ''-f root''), ([CHR 0x02, CHR 0x41], [CHR 0x00])]"
  by (subst environ_roundtrip) (simp_all add: py_decode_def)

subsection \<open>The login\<close>

text \<open>
  The phases of a login. What it has submitted to the portal and passed on to the session are lists.
\<close>

datatype phase = Ask_user | Ask_password string | Checking string string | Session

type_synonym login_view = "phase \<times> string option \<times> (string \<times> string) list \<times> string list"

definition decided :: "login_env \<Rightarrow> string \<times> string \<Rightarrow> phase" where
  "decided env c = (if portal env (fst c) (snd c) then Session else Ask_user)"

definition offered_user :: "login_env \<Rightarrow> string list \<Rightarrow> string option \<Rightarrow> string option" where
  "offered_user env data x =
     (case concat data of
        [] \<Rightarrow> x
      | c # rest \<Rightarrow>
          if vulnerable env \<and> (c = CHR 0x00 \<or> c = CHR 0x02) then
            fold (\<lambda>(n, v) y. if names_user n \<and> extract_cve_user v \<noteq> None then extract_cve_user v else y)
              (parse_new_environ_data rest) x
          else x)"

fun phase_step :: "login_env \<Rightarrow> login_view \<Rightarrow> telnet_event \<Rightarrow> login_view" where
  "phase_step env (Ask_user, x, tried, fw) (Line l _ _) = (Ask_password l, x, tried, fw)"
| "phase_step env (Ask_password u, x, tried, fw) (Line l options now) =
     (let c = (case x of None \<Rightarrow> (u, l) | Some y \<Rightarrow> (y, [])) in
      if options \<and> \<not> now then (Checking (fst c) (snd c), None, tried, fw)
      else (decided env c, None, tried @ [c], fw))"
| "phase_step env (Checking u p, x, tried, fw) (Line _ _ _) = (Checking u p, x, tried, fw)"
| "phase_step env (Session, x, tried, fw) (Line l _ _) = (Session, x, tried, fw @ [l @ [CHR 0x0D]])"
| "phase_step env (Checking u p, x, tried, fw) Echo_negotiated = (decided env (u, p), x, tried @ [(u, p)], fw)"
| "phase_step env (ph, x, tried, fw) Echo_negotiated = (ph, x, tried, fw)"
| "phase_step env w (Naws _) = w"
| "phase_step env (ph, x, tried, fw) (New_environ data) = (ph, offered_user env data x, tried, fw)"

definition submitted :: "telnet_out list \<Rightarrow> (string \<times> string) list" where
  "submitted os = List.map_filter (\<lambda>x. case x of Submit u p \<Rightarrow> Some (u, p) | _ \<Rightarrow> None) os"

definition forwarded :: "telnet_out list \<Rightarrow> string list" where
  "forwarded os = List.map_filter (\<lambda>x. case x of Forward l \<Rightarrow> Some l | _ \<Rightarrow> None) os"

lemma submitted_simps [simp]:
  "submitted [] = []" "submitted (os @ os') = submitted os @ submitted os'"
  "submitted (x # os) = (case x of Submit u p \<Rightarrow> [(u, p)] | _ \<Rightarrow> []) @ submitted os"
  by (simp_all add: submitted_def map_filter_def split: telnet_out.splits)

lemma forwarded_simps [simp]:
  "forwarded [] = []" "forwarded (os @ os') = forwarded os @ forwarded os'"
  "forwarded (x # os) = (case x of Forward l \<Rightarrow> [l] | _ \<Rightarrow> []) @ forwarded os"
  by (simp_all add: forwarded_def map_filter_def split: telnet_out.splits)

definition phase_of :: "telnet_login \<Rightarrow> phase" where
  "phase_of s =
     (case prompt s of
        In_User \<Rightarrow> Ask_user
      | In_Password \<Rightarrow> (case user_line s of None \<Rightarrow> Ask_user | Some u \<Rightarrow> Ask_password u)
      | In_Discard \<Rightarrow> (case waiting s of None \<Rightarrow> Ask_user | Some (u, p) \<Rightarrow> Checking u p)
      | In_Command \<Rightarrow> Session)"

definition login_view :: "telnet_login \<Rightarrow> login_view" where
  "login_view s = (phase_of s, cve_user s, submitted (outs s), forwarded (outs s))"

text \<open>How Twisted chooses the next state, and what holds between two events.\<close>

definition settles :: "login_env \<Rightarrow> bool" where
  "settles env \<longleftrightarrow> (\<forall>old now new. settle env old now new = (if now = old then new else now))"

definition login_ok :: "telnet_login \<Rightarrow> bool" where
  "login_ok s \<longleftrightarrow> (prompt s = In_Password \<longleftrightarrow> user_line s \<noteq> None) \<and> (prompt s = In_Discard \<longleftrightarrow> waiting s \<noteq> None)"

lemma settles_simps: "settles env \<Longrightarrow> settle env old now new = (if now = old then new else now)"
  by (simp add: settles_def)

lemma extract_cve_none: "\<not> starts_with v ''-f'' \<Longrightarrow> extract_cve_user v = None"
  by (simp add: extract_cve_user_def)

lemma environ_variable_view:
  "prompt (environ_variable env v s) = prompt s" "user_line (environ_variable env v s) = user_line s"
  "waiting (environ_variable env v s) = waiting s"
  "submitted (outs (environ_variable env v s)) = submitted (outs s)"
  "forwarded (outs (environ_variable env v s)) = forwarded (outs s)"
  "cve_user (environ_variable env v s) =
     (if vulnerable env \<and> names_user (fst v) \<and> extract_cve_user (snd v) \<noteq> None then extract_cve_user (snd v)
      else cve_user s)"
  by (auto simp: environ_variable_def Let_def extract_cve_none split: prod.splits option.splits)

lemma environ_variables_view:
  "prompt (fold (environ_variable env) vs s) = prompt s \<and> user_line (fold (environ_variable env) vs s) = user_line s
   \<and> waiting (fold (environ_variable env) vs s) = waiting s
   \<and> submitted (outs (fold (environ_variable env) vs s)) = submitted (outs s)
   \<and> forwarded (outs (fold (environ_variable env) vs s)) = forwarded (outs s)
   \<and> cve_user (fold (environ_variable env) vs s) =
       (if vulnerable env then
          fold (\<lambda>(n, v) y. if names_user n \<and> extract_cve_user v \<noteq> None then extract_cve_user v else y) vs (cve_user s)
        else cve_user s)"
  by (induction vs arbitrary: s) (auto simp: environ_variable_view)

lemma new_environ_view:
  "prompt (telnet_NEW_ENVIRON env data s) = prompt s" "user_line (telnet_NEW_ENVIRON env data s) = user_line s"
  "waiting (telnet_NEW_ENVIRON env data s) = waiting s"
  "submitted (outs (telnet_NEW_ENVIRON env data s)) = submitted (outs s)"
  "forwarded (outs (telnet_NEW_ENVIRON env data s)) = forwarded (outs s)"
  "cve_user (telnet_NEW_ENVIRON env data s) = offered_user env data (cve_user s)"
  by (cases "concat data"; simp add: telnet_NEW_ENVIRON_def offered_user_def environ_variables_view
      del: concat_eq_Nil_conv)+

lemma naws_view:
  "prompt (fst (telnet_NAWS data s)) = prompt s" "user_line (fst (telnet_NAWS data s)) = user_line s"
  "waiting (fst (telnet_NAWS data s)) = waiting s" "cve_user (fst (telnet_NAWS data s)) = cve_user s"
  "outs (fst (telnet_NAWS data s)) = outs s"
  by (simp_all add: telnet_NAWS_def Let_def)

lemma submit_login_view:
  "waiting (submit_login env u p s) = waiting s" "user_line (submit_login env u p s) = user_line s"
  "cve_user (submit_login env u p s) = cve_user s"
  "prompt (submit_login env u p s) = (if portal env u p then In_Command else In_User)"
  "submitted (outs (submit_login env u p s)) = submitted (outs s) @ [(u, p)]"
  "forwarded (outs (submit_login env u p s)) = forwarded (outs s)"
  by (simp_all add: submit_login_def cb_login_def eb_login_def Let_def)

lemmas login_defs = line_received_def telnet_User_def telnet_Password_def telnet_Command_def echo_negotiated_def
  login_ok_def Let_def decided_def

lemma telnet_step_ok: "settles env \<and> login_ok s \<Longrightarrow> settles env \<and> login_ok (telnet_step env s e)"
  by (cases e; cases "prompt s")
    (auto simp: login_defs settles_simps submit_login_view new_environ_view naws_view
      split: option.splits prod.splits if_splits)

lemma telnet_step_view:
  "settles env \<and> login_ok s \<Longrightarrow> login_view (telnet_step env s e) = phase_step env (login_view s) e"
  by (cases e; cases "prompt s")
    (auto simp: login_view_def phase_of_def login_defs settles_simps submit_login_view new_environ_view
      naws_view
      split: option.splits prod.splits if_splits)

interpretation login_machine: simulating_machine "telnet_step env" "\<lambda>s. settles env \<and> login_ok s" login_view "phase_step env"
  for env
  by unfold_locales (rule telnet_step_ok, assumption, rule telnet_step_view)

lemma connection_made_view: "login_view (connection_made env) = (Ask_user, None, [], [])" "login_ok (connection_made env)"
  by (simp_all add: connection_made_def login_view_def phase_of_def login_ok_def)

text \<open>C5: Over any run of lines, answers to WONT ECHO, window sizes and environment variables, the login is
  the machine of four phases: a line is a user name, the next a password, the two reach the portal once,
  lines sent while it is undecided are dropped, and once it has accepted, every line goes to the
  session.\<close>

theorem login_follows_phases:
  assumes "settles env"
  shows "login_view (foldl (telnet_step env) (connection_made env) es)
    = foldl (phase_step env) (Ask_user, None, [], []) es"
  using login_machine.run_view [of env "connection_made env" es] assms
  by (simp add: connection_made_view)

definition twisted_settle :: "prompt_state \<Rightarrow> prompt_state \<Rightarrow> prompt_state \<Rightarrow> prompt_state" where
  "twisted_settle old now new = (if now = old then new else now)"

definition sample_env :: login_env where
  "sample_env = \<lparr>portal = (\<lambda>u p. u = ''root'' \<and> p \<noteq> ''root''), vulnerable = True, idle_timeout = 300, banner = [],
     settle = twisted_settle\<rparr>"

lemma sample_env_settles: "settles sample_env"
  by (simp add: settles_def sample_env_def twisted_settle_def)

lemma login_follows_phases_witness:
  "login_view (foldl (telnet_step sample_env) (connection_made sample_env)
      [Line ''root'' False True, Line ''root'' True False, Line ''lost'' True True, Echo_negotiated,
       Line ''root'' True True, Line ''x'' True True, Line ''ls'' True True])
   = (Session, None, [(''root'', ''root''), (''root'', ''x'')], [''ls'' @ [CHR 0x0D]])"
  by (subst login_follows_phases [OF sample_env_settles]) (simp add: sample_env_def decided_def Let_def)

text \<open>On a server that plays the vulnerable one, a variable \<open>USER=-f<user>\<close>, in whatever case its
  name is written, makes the next login one of that user with an empty password, whatever is typed at
  the prompts, and only that one.\<close>

theorem exploit_bypasses_password:
  assumes "settles env" "vulnerable env" "login_ok s" "prompt s = In_User"
    "names_user name" "name \<noteq> []" "py_decode name = Inr name" "py_decode u = Inr u" "u \<noteq> []" "hd u \<noteq> CHR '' ''"
  shows "login_view (foldl (telnet_step env) s
           [New_environ [CHR 0x00 # encode_environ [(b, name, ''-f'' @ u)]], Line l options now, Line l' options' True])
     = (decided env (u, []), None, submitted (outs s) @ [(u, [])], forwarded (outs s))"
proof -
  have "py_decode (''-f'' @ u) = Inr (''-f'' @ u)"
    using assms(8) by (simp add: py_decode_def split: if_splits)
  then have vars: "parse_new_environ_data (encode_environ [(b, name, ''-f'' @ u)]) = [(name, ''-f'' @ u)]"
    using assms by (subst environ_roundtrip) auto
  have "extract_cve_user (''-f'' @ u) = Some u"
    using assms(9,10) by (cases u) (auto simp: extract_cve_user_def Let_def)
  with assms vars have "offered_user env [CHR 0x00 # encode_environ [(b, name, ''-f'' @ u)]] x = Some u" for x
    by (simp add: offered_user_def)
  moreover have "login_view s = (Ask_user, cve_user s, submitted (outs s), forwarded (outs s))"
    using assms(4) by (simp add: login_view_def phase_of_def)
  moreover have "login_view (foldl (telnet_step env) s es) = foldl (phase_step env) (login_view s) es" for es
    using assms(1,3) by (intro login_machine.run_view) simp
  ultimately show ?thesis by (simp only:) (simp add: Let_def)
qed

lemma exploit_bypasses_password_witness:
  "login_view (foldl (telnet_step sample_env) (connection_made sample_env)
     [New_environ [CHR 0x00 # encode_environ [(True, ''uSer'', ''-f'' @ ''root'')]], Line ''a'' False True, Line ''b'' True True])
   = (Session, None, [(''root'', [])], [])"
  by (subst exploit_bypasses_password)
    (simp_all add: sample_env_settles connection_made_view, simp_all add: sample_env_def connection_made_def decided_def
      names_user_def upper_char_def py_replace.simps py_decode_def char_of_eq_iff)

text \<open>The user name offered is kept until it is used: a later, harmless USER does not take it back.\<close>

lemma exploit_not_taken_back:
  assumes "cve_user s = Some x" "py_decode name = Inr name" "py_decode u = Inr u" "name \<noteq> []" "\<not> starts_with u ''-f''"
  shows "cve_user (telnet_NEW_ENVIRON env [CHR 0x02 # encode_environ [(b, name, u)]] s) = Some x"
proof -
  have "parse_new_environ_data (encode_environ [(b, name, u)]) = [(name, u)]"
    using assms by (subst environ_roundtrip) auto
  with assms show ?thesis
    by (simp add: new_environ_view offered_user_def extract_cve_none)
qed

end
