(* ===== verification/Abuse_Reports.thy ===== *)
theory Abuse_Reports
  imports Prelude
begin

section \<open>Reporting of addresses to AbuseIPDB\<close>

text \<open>
  Model of \<open>output/abuseipdb.py\<close>. The log book has, for each address, either the times at which it
  was seen (a \<open>deque\<close> with a maximal length) or the time it was reported, a tuple \<open>(None, t)\<close> in the
  code. Times are arguments; what is posted is a list of the numbers a report is made of, and the
  answers of the service are events. A report that is sent once more after a refusal is in a list of its own. The dump file is a field of the state.
\<close>

datatype log_entry = Seen nat "rat list" | Reported rat

datatype post = Single string rat string | Multiple string int rat rat

datatype recall_state = No_recall | Recall_pending | Recall_called | Recall_cancelled

record abuse_dump =
  dump_sleeping :: bool
  dump_until :: rat
  dump_tolerated :: int
  dump_book :: "(string \<times> log_entry) list"

record abuse =
  tolerance_attempts :: int
  tolerance_window :: rat
  rereport_after :: rat
  sleeping :: bool
  sleep_until :: rat
  book :: "(string \<times> log_entry) list"
  recall :: recall_state
  alarms :: "rat list"
  state_dump :: "abuse_dump option"
  posts :: "post list"
  reposts :: "post list"

subsection \<open>The log book\<close>

definition REREPORT_MINIMUM :: rat where "REREPORT_MINIMUM = 900"

definition log_book :: "int \<Rightarrow> int \<Rightarrow> rat \<Rightarrow> abuse_dump option \<Rightarrow> abuse" where
  "log_book tolerance window_minutes rereport_hours dump =
     \<lparr>tolerance_attempts = tolerance, tolerance_window = of_int (60 * window_minutes),
      rereport_after = (if 3600 * rereport_hours < REREPORT_MINIMUM then REREPORT_MINIMUM else 3600 * rereport_hours),
      sleeping = False, sleep_until = 0, book = [], recall = No_recall, alarms = [], state_dump = dump, posts = [], reposts = []\<rparr>"

text \<open>\<open>append\<close> on a \<open>deque\<close> drops from the left what exceeds the maximal length.\<close>

definition deque_append :: "nat \<Rightarrow> rat list \<Rightarrow> rat \<Rightarrow> rat list" where
  "deque_append m xs t = (let ys = xs @ [t] in drop (length ys - m) ys)"

definition set_entry :: "string \<Rightarrow> log_entry \<Rightarrow> abuse \<Rightarrow> abuse" where
  "set_entry ip e s = s\<lparr>book := AList.update ip e (book s)\<rparr>"

text \<open>\<open>popleft\<close> while the oldest time is before the limit; a time of zero counts as nothing.\<close>

fun drop_expired :: "rat \<Rightarrow> rat list \<Rightarrow> rat list" where
  "drop_expired limit [] = []"
| "drop_expired limit (x # xs) = (if x = 0 then x # xs else if x < limit then drop_expired limit xs else x # xs)"

definition clean_expired_timestamps :: "rat \<Rightarrow> abuse \<Rightarrow> log_entry \<Rightarrow> log_entry" where
  "clean_expired_timestamps now s e =
     (case e of Seen m xs \<Rightarrow> Seen m (drop_expired (now - tolerance_window s) xs) | Reported t \<Rightarrow> Reported t)"

definition can_rereport :: "rat \<Rightarrow> abuse \<Rightarrow> log_entry \<Rightarrow> bool" where
  "can_rereport now s e =
     (case e of
        Reported t \<Rightarrow> t + rereport_after s < now
      | Seen m (x # y # _) \<Rightarrow>
          if y + rereport_after s < now then True else x \<noteq> 0 \<and> tolerance_attempts s \<le> 1
      | Seen m _ \<Rightarrow> True)"

definition find_and_delete_empty_entries :: "abuse \<Rightarrow> abuse" where
  "find_and_delete_empty_entries s =
     s\<lparr>book := filter (\<lambda>(_, e). case e of Seen _ [] \<Rightarrow> False | _ \<Rightarrow> True) (book s)\<rparr>"

definition dump_state :: "abuse \<Rightarrow> abuse" where
  "dump_state s =
     s\<lparr>state_dump := Some \<lparr>dump_sleeping = sleeping s, dump_until = sleep_until s,
        dump_tolerated = tolerance_attempts s, dump_book = book s\<rparr>\<rparr>"

definition cancel_recall :: "abuse \<Rightarrow> (abuse, unit) sres" where
  "cancel_recall s =
     (case recall s of
        No_recall \<Rightarrow> (s, Inr ())
      | Recall_pending \<Rightarrow> (s\<lparr>recall := Recall_cancelled\<rparr>, Inr ())
      | Recall_called \<Rightarrow> (s, Inl AlreadyCalled)
      | Recall_cancelled \<Rightarrow> (s, Inl AlreadyCancelled))"

definition clean_book :: "rat \<Rightarrow> abuse \<Rightarrow> abuse" where
  "clean_book t s =
     s\<lparr>book := map (\<lambda>(k, e). (k, clean_expired_timestamps t s e)) (filter (\<lambda>(_, e). \<not> can_rereport t s e) (book s))\<rparr>"

text \<open>\<open>stopping\<close> is mode 1.\<close>

definition cleanup_and_dump_state :: "rat \<Rightarrow> bool \<Rightarrow> abuse \<Rightarrow> (abuse, unit) sres" where
  "cleanup_and_dump_state now stopping s =
     sbind (if stopping then cancel_recall s else (s, Inr ()))
       (\<lambda>s1 _.
         let t = (if sleeping s1 then sleep_until s1 else now);
             s2 = dump_state (find_and_delete_empty_entries (clean_book t s1)) in
         (if \<not> stopping \<and> \<not> sleeping s2 then s2\<lparr>recall := Recall_pending\<rparr> else s2, Inr ()))"

definition wakeup :: "abuse \<Rightarrow> abuse" where
  "wakeup s = s\<lparr>sleeping := False, sleep_until := 0, recall := Recall_pending\<rparr>"

subsection \<open>Reports\<close>

definition report_ip_single :: "string \<Rightarrow> rat \<Rightarrow> string \<Rightarrow> abuse \<Rightarrow> abuse" where
  "report_ip_single ip t uname s = (set_entry ip (Reported t) s)\<lparr>posts := posts s @ [Single ip t uname]\<rparr>"

definition report_ip_multiple :: "string \<Rightarrow> nat \<Rightarrow> rat list \<Rightarrow> abuse \<Rightarrow> (abuse, unit) sres" where
  "report_ip_multiple ip m xs s =
     (if xs = [] then (s, Inl IndexError)
      else let t_last = last xs in
        case butlast xs of
          [] \<Rightarrow> (set_entry ip (Seen m []) s, Inl IndexError)
        | t_first # _ \<Rightarrow>
            ((set_entry ip (Reported t_last) s)\<lparr>posts := posts s @ [Multiple ip (tolerance_attempts s) t_first t_last]\<rparr>,
             Inr ()))"

text \<open>
  \<open>rate_limit_handler\<close> for an answer with a \<open>Retry-After\<close> header: a wait of nearly a day is not
  waited for, the report is posted again, whether the log book sleeps or not. What is posted again is
  kept apart from the reports the observers make.
\<close>

definition rate_limit_handler :: "post \<Rightarrow> nat \<Rightarrow> rat \<Rightarrow> abuse \<Rightarrow> (abuse, unit) sres" where
  "rate_limit_handler params retry now s =
     (if 86340 < retry then (s\<lparr>reposts := reposts s @ [params]\<rparr>, Inr ())
      else cleanup_and_dump_state now True
        (s\<lparr>sleeping := True, sleep_until := now + of_nat retry, alarms := alarms s @ [now + of_nat retry]\<rparr>))"

subsection \<open>The plugin\<close>

definition intolerant_observer :: "string \<Rightarrow> rat \<Rightarrow> string \<Rightarrow> abuse \<Rightarrow> abuse" where
  "intolerant_observer ip t uname s =
     (case map_of (book s) ip of
        Some e \<Rightarrow> if can_rereport t s e then report_ip_single ip t uname s else s
      | None \<Rightarrow> report_ip_single ip t uname s)"

definition fresh_entry :: "rat \<Rightarrow> abuse \<Rightarrow> log_entry" where
  "fresh_entry t s = Seen (nat (tolerance_attempts s)) (deque_append (nat (tolerance_attempts s)) [] t)"

text \<open>An IndexError inside the \<open>try\<close> appends the time to what the entry is then.\<close>

definition append_time :: "string \<Rightarrow> rat \<Rightarrow> abuse \<Rightarrow> (abuse, unit) sres" where
  "append_time ip t s =
     (case map_of (book s) ip of
        Some (Seen m xs) \<Rightarrow> (set_entry ip (Seen m (deque_append m xs t)) s, Inr ())
      | Some (Reported _) \<Rightarrow> (s, Inl AttributeError)
      | None \<Rightarrow> (s, Inl KeyError))"

definition observe_again :: "string \<Rightarrow> rat \<Rightarrow> nat \<Rightarrow> rat list \<Rightarrow> abuse \<Rightarrow> (abuse, unit) sres" where
  "observe_again ip t m xs s =
     (let ys = drop_expired (t - tolerance_window s) (deque_append m xs t);
          s1 = set_entry ip (Seen m ys) s in
      if tolerance_attempts s \<le> int (length ys) then
        (case report_ip_multiple ip m ys s1 of
           (s2, Inl IndexError) \<Rightarrow> append_time ip t s2
         | r \<Rightarrow> r)
      else (s1, Inr ()))"

definition tolerant_observer :: "string \<Rightarrow> rat \<Rightarrow> abuse \<Rightarrow> (abuse, unit) sres" where
  "tolerant_observer ip t s =
     (case map_of (book s) ip of
        None \<Rightarrow> (set_entry ip (fresh_entry t s) s, Inr ())
      | Some (Seen m []) \<Rightarrow> append_time ip t s
      | Some (Seen m (x # xs)) \<Rightarrow>
          if x \<noteq> 0 then observe_again ip t m (x # xs) s
          else if can_rereport t s (Seen m (x # xs)) then (set_entry ip (fresh_entry t s) s, Inr ())
          else (s, Inr ())
      | Some (Reported r) \<Rightarrow>
          if can_rereport t s (Reported r) then (set_entry ip (fresh_entry t s) s, Inr ()) else (s, Inr ()))"

text \<open>\<open>rsplit('.', 1)[0]\<close>\<close>

definition before_last_dot :: "string \<Rightarrow> string" where
  "before_last_dot s =
     (if CHR ''.'' \<in> set s then rev (tl (dropWhile (\<lambda>c. c \<noteq> CHR ''.'') (rev s))) else s)"

definition write_event :: "string \<Rightarrow> string \<Rightarrow> string \<Rightarrow> rat \<Rightarrow> abuse \<Rightarrow> (abuse, unit) sres" where
  "write_event eventid ip uname now s =
     (if sleeping s then (s, Inr ())
      else if before_last_dot eventid = ''cowrie.login'' then
        (if tolerance_attempts s \<le> 1 then (intolerant_observer ip now uname s, Inr ())
         else tolerant_observer ip now s)
      else (s, Inr ()))"

text \<open>
  \<open>start\<close>: the dump is loaded and cleaned, and if the number of attempts tolerated has changed since,
  every deque is given the new length (a negative one raises).
\<close>

definition load_dump :: "rat \<Rightarrow> abuse \<Rightarrow> abuse" where
  "load_dump now s =
     (case state_dump s of
        None \<Rightarrow> s
      | Some d \<Rightarrow>
          let s1 = s\<lparr>book := dump_book d\<rparr> in
          if dump_sleeping d \<and> now < dump_until d
          then s1\<lparr>sleeping := True, sleep_until := dump_until d, alarms := alarms s1 @ [dump_until d]\<rparr>
          else s1)"

definition resize_entry :: "nat \<Rightarrow> log_entry \<Rightarrow> log_entry" where
  "resize_entry m e = (case e of Seen _ xs \<Rightarrow> Seen m (drop (length xs - m) xs) | Reported t \<Rightarrow> Reported t)"

definition resize_deques :: "abuse \<Rightarrow> (abuse, unit) sres" where
  "resize_deques s =
     (if tolerance_attempts s < 0 \<and> (\<exists>(_, e) \<in> set (book s). case e of Seen _ _ \<Rightarrow> True | Reported _ \<Rightarrow> False)
      then (s, Inl ValueError)
      else (s\<lparr>book := map (\<lambda>(k, e). (k, resize_entry (nat (tolerance_attempts s)) e)) (book s)\<rparr>, Inr ()))"

definition start_plugin :: "int \<Rightarrow> int \<Rightarrow> rat \<Rightarrow> rat \<Rightarrow> abuse_dump option \<Rightarrow> (abuse, unit) sres" where
  "start_plugin tolerance window_minutes rereport_hours now dump =
     sbind (cleanup_and_dump_state now False (load_dump now (log_book tolerance window_minutes rereport_hours dump)))
       (\<lambda>s _.
         case dump of
           None \<Rightarrow> (s, Inr ())
         | Some d \<Rightarrow> if dump_tolerated d \<noteq> tolerance_attempts s then resize_deques s else (s, Inr ()))"

definition stop_plugin :: "rat \<Rightarrow> abuse \<Rightarrow> (abuse, unit) sres" where
  "stop_plugin now s = cleanup_and_dump_state now True s"

subsection \<open>Runs\<close>

datatype abuse_event = Event string string string rat | Cleanup_due rat | Limited post nat rat | Wake rat

text \<open>A call that fires is called; an exception ends the handling of its event.\<close>

fun abuse_step :: "abuse \<Rightarrow> abuse_event \<Rightarrow> abuse" where
  "abuse_step s (Event eventid ip uname t) = fst (write_event eventid ip uname t s)"
| "abuse_step s (Cleanup_due t) =
     fst (cleanup_and_dump_state t False (if recall s = Recall_pending then s\<lparr>recall := Recall_called\<rparr> else s))"
| "abuse_step s (Limited params retry t) = fst (rate_limit_handler params retry t s)"
| "abuse_step s (Wake t) = wakeup s"

end
