(* ===== verification/Abuse_Reports_Props.thy ===== *)
theory Abuse_Reports_Props
  imports Abuse_Reports "HOL-Library.Sublist"
begin

section \<open>Properties of the reports to AbuseIPDB\<close>

text \<open>
  An address is not reported again before its time, a report after several attempts has been earned
  by them, and what the regular cleanup forgets.
\<close>

definition post_ip :: "post \<Rightarrow> string" where
  "post_ip p = (case p of Single ip _ _ \<Rightarrow> ip | Multiple ip _ _ _ \<Rightarrow> ip)"

definition post_time :: "post \<Rightarrow> rat" where
  "post_time p = (case p of Single _ t _ \<Rightarrow> t | Multiple _ _ _ t \<Rightarrow> t)"

lemma post_simps [simp]:
  "post_ip (Single ip t u) = ip" "post_ip (Multiple ip n t t') = ip"
  "post_time (Single ip t u) = t" "post_time (Multiple ip n t t') = t'"
  by (simp_all add: post_ip_def post_time_def)

fun event_time :: "abuse_event \<Rightarrow> rat" where
  "event_time (Event _ _ _ t) = t"
| "event_time (Cleanup_due t) = t"
| "event_time (Limited _ _ t) = t"
| "event_time (Wake t) = t"

subsection \<open>Runs in time\<close>

text \<open>
  Time does not run backwards, the alarm does not ring before the end of the sleep, an answer with
  Retry-After is about a report that was posted, and one that asks for a pause does not arrive in a
  pause: a refusal that is answered by posting again (a wait of more than 86340 seconds) arrives at any
  time. An event against these rules does not happen. The history is what did. The last rule is not one the
  service keeps when several reports are on their way: \<open>second_limit_wakes_early\<close> below shows what the
  code does then.
\<close>

fun in_time :: "rat \<Rightarrow> abuse \<Rightarrow> abuse_event \<Rightarrow> bool" where
  "in_time now s (Wake t) = (now \<le> t \<and> (sleeping s \<longrightarrow> sleep_until s \<le> t))"
| "in_time now s (Limited p retry t) = 
     (now \<le> t \<and> p \<in> set (posts s) \<and> (retry \<le> 86340 \<longrightarrow> \<not> sleeping s))"
| "in_time now s e = (now \<le> event_time e)"

fun clocked_step :: "rat \<times> abuse_event list \<times> abuse \<Rightarrow> abuse_event \<Rightarrow> rat \<times> abuse_event list \<times> abuse" where
  "clocked_step (now, es, s) e =
     (if in_time now s e then (event_time e, es @ [e], abuse_step s e) else (now, es, s))"

text \<open>What the operations leave alone.\<close>

lemma set_entry_simps [simp]:
  "sleeping (set_entry ip e s) = sleeping s" "sleep_until (set_entry ip e s) = sleep_until s"
  "reposts (set_entry ip e s) = reposts s" "posts (set_entry ip e s) = posts s" "tolerance_attempts (set_entry ip e s) = tolerance_attempts s"
  "rereport_after (set_entry ip e s) = rereport_after s" "tolerance_window (set_entry ip e s) = tolerance_window s"
  "book (set_entry ip e s) = AList.update ip e (book s)" "recall (set_entry ip e s) = recall s"
  by (simp_all add: set_entry_def)

lemma report_simps [simp]:
  "sleeping (report_ip_single ip t u s) = sleeping s" "sleep_until (report_ip_single ip t u s) = sleep_until s"
  "posts (report_ip_single ip t u s) = posts s @ [Single ip t u]" "reposts (report_ip_single ip t u s) = reposts s"
  "book (report_ip_single ip t u s) = AList.update ip (Reported t) (book s)"
  "tolerance_attempts (report_ip_single ip t u s) = tolerance_attempts s"
  "rereport_after (report_ip_single ip t u s) = rereport_after s"
  "tolerance_window (report_ip_single ip t u s) = tolerance_window s"
  by (simp_all add: report_ip_single_def)

text \<open>
  One event on one address. Either nothing is posted and the entry of that address is new or has
  been seen again, or the report is posted and the entry says so.
\<close>

definition old_times :: "abuse \<Rightarrow> string \<Rightarrow> rat list" where
  "old_times s ip = (case map_of (book s) ip of Some (Seen m xs) \<Rightarrow> xs | _ \<Rightarrow> [])"

definition earned :: "rat \<Rightarrow> string \<Rightarrow> abuse \<Rightarrow> post \<Rightarrow> bool" where
  "earned t ip s p =
     (case p of
        Single _ _ _ \<Rightarrow> True
      | Multiple _ n _ _ \<Rightarrow> n = tolerance_attempts s \<and>
          (\<exists>zs. subseq zs (old_times s ip @ [t]) \<and> n \<le> int (length (drop_expired (t - tolerance_window s) zs))))"

inductive observed :: "rat \<Rightarrow> string \<Rightarrow> abuse \<Rightarrow> abuse \<Rightarrow> bool" for t ip s where
  unchanged: "observed t ip s s"
| seen: "(\<And>r. map_of (book s) ip = Some (Reported r) \<Longrightarrow> r + rereport_after s < t) \<Longrightarrow>
    m = nat (tolerance_attempts s) \<Longrightarrow> subseq xs (old_times s ip @ [t]) \<Longrightarrow>
    observed t ip s (set_entry ip (Seen m xs) s)"
| reported: "(\<And>r. map_of (book s) ip = Some (Reported r) \<Longrightarrow> r + rereport_after s < t) \<Longrightarrow>
    post_ip p = ip \<Longrightarrow> post_time p = t \<Longrightarrow> earned t ip s p \<Longrightarrow>
    observed t ip s ((set_entry ip (Reported t) s)\<lparr>posts := posts s @ [p]\<rparr>)"

lemma set_entry_twice [simp]: "set_entry ip e (set_entry ip e' s) = set_entry ip e s"
  by (simp add: set_entry_def)

lemma deque_append_last: "0 < m \<Longrightarrow> deque_append m xs t \<noteq> [] \<and> last (deque_append m xs t) = t"
  by (simp add: deque_append_def)

lemma drop_expired_suffix: "suffix (drop_expired l xs) xs"
  by (induction xs) (auto intro: suffix_ConsI)

lemma deque_append_subseq: "subseq (deque_append m xs t) (xs @ [t])"
  unfolding deque_append_def Let_def by (rule suffix_imp_subseq [OF suffix_drop])

lemma fresh_subseq: "subseq (deque_append m [] t) (ys @ [t])"
  using deque_append_subseq [of m "[]" t] by (simp add: subseq_drop_many)

lemma suffix_last: "suffix ys xs \<Longrightarrow> ys \<noteq> [] \<Longrightarrow> last ys = last xs"
  by (auto simp: suffix_def)

lemma observe_again_observed:
  assumes "2 \<le> tolerance_attempts s" "m = nat (tolerance_attempts s)" "map_of (book s) ip = Some (Seen m xs)"
  shows "observed t ip s (fst (observe_again ip t m xs s))"
proof -
  define ys where "ys = drop_expired (t - tolerance_window s) (deque_append m xs t)"
  have sub: "subseq (deque_append m xs t) (old_times s ip @ [t])"
    using assms(3) deque_append_subseq by (simp add: old_times_def)
  have "subseq ys (deque_append m xs t)"
    unfolding ys_def by (rule suffix_imp_subseq [OF drop_expired_suffix])
  from this sub have ys: "subseq ys (old_times s ip @ [t])" by (rule subseq_order.trans)
  show ?thesis
  proof (cases "tolerance_attempts s \<le> int (length ys)")
    case True
    with assms(1) have len: "2 \<le> length ys" by linarith
    then obtain y zs where ne: "ys \<noteq> []" "butlast ys = y # zs"
      by (cases ys; cases "tl ys"; simp)
    have "last ys = t"
      using suffix_last [OF drop_expired_suffix, of _ "deque_append m xs t"] deque_append_last [of m xs t] assms(1,2) ne(1)
      by (simp add: ys_def)
    then have "fst (observe_again ip t m xs s)
      = (set_entry ip (Reported t) s)\<lparr>posts := posts s @ [Multiple ip (tolerance_attempts s) y t]\<rparr>"
      using True ne by (simp add: observe_again_def ys_def [symmetric] report_ip_multiple_def Let_def)
    moreover have "earned t ip s (Multiple ip (tolerance_attempts s) y t)"
      using sub True by (auto simp: earned_def ys_def)
    ultimately show ?thesis using assms(3) observed.reported [of s ip t "Multiple ip (tolerance_attempts s) y t"] by simp
  next
    case False
    then have "fst (observe_again ip t m xs s) = set_entry ip (Seen m ys) s"
      by (simp add: observe_again_def ys_def [symmetric] Let_def)
    then show ?thesis using assms(2,3) observed.seen [of s ip t m ys] ys by simp
  qed
qed

text \<open>Every deque has the length the settings ask for, and no address occurs twice.\<close>

definition book_ok :: "abuse \<Rightarrow> bool" where
  "book_ok s \<longleftrightarrow> distinct (map fst (book s))
     \<and> (\<forall>ip m xs. map_of (book s) ip = Some (Seen m xs) \<longrightarrow> m = nat (tolerance_attempts s))"

lemma book_ok_same: "book s' = book s \<Longrightarrow> tolerance_attempts s' = tolerance_attempts s \<Longrightarrow> book_ok s' = book_ok s"
  by (simp add: book_ok_def)

lemma write_event_observed:
  assumes "book_ok s"
  shows "observed t ip s (fst (write_event eventid ip uname t s))"
proof (cases "sleeping s \<or> before_last_dot eventid \<noteq> ''cowrie.login''")
  case True
  then show ?thesis by (auto simp: write_event_def observed.unchanged)
next
  case active: False
  show ?thesis
  proof (cases "tolerance_attempts s \<le> 1")
    case True
    have "observed t ip s (report_ip_single ip t uname s)"
      if "\<And>r. map_of (book s) ip = Some (Reported r) \<Longrightarrow> r + rereport_after s < t"
      using observed.reported [of s ip t "Single ip t uname"] that by (simp add: report_ip_single_def earned_def)
    with True active show ?thesis
      by (auto simp: write_event_def intolerant_observer_def observed.unchanged can_rereport_def
          split: option.splits log_entry.splits)
  next
    case False
    have m: "m = nat (tolerance_attempts s)" "0 < m" if "map_of (book s) ip = Some (Seen m xs)" for m xs
    proof -
      show "m = nat (tolerance_attempts s)" using assms that unfolding book_ok_def by blast
      with False show "0 < m" by simp
    qed
    have seen: "observed t ip s (set_entry ip (fresh_entry t s) s)"
      if "\<And>r. map_of (book s) ip = Some (Reported r) \<Longrightarrow> r + rereport_after s < t"
      unfolding fresh_entry_def by (rule observed.seen [OF that]) (simp_all add: fresh_subseq)
    have "observed t ip s (fst (tolerant_observer ip t s))"
    proof (cases "map_of (book s) ip")
      case None
      then show ?thesis using seen by (simp add: tolerant_observer_def)
    next
      case (Some e)
      show ?thesis
      proof (cases e)
        case (Reported r)
        with Some seen show ?thesis
          by (auto simp: tolerant_observer_def can_rereport_def observed.unchanged)
      next
        case (Seen m xs)
        show ?thesis
        proof (cases xs)
          case Nil
          with Some Seen have "fst (tolerant_observer ip t s) = set_entry ip (Seen m (deque_append m [] t)) s"
            by (simp add: tolerant_observer_def append_time_def)
          moreover have "m = nat (tolerance_attempts s)" using Some Seen m by simp
          ultimately show ?thesis
            using Some Seen Nil deque_append_subseq [of m "[]" t] by (auto intro!: observed.seen simp: old_times_def)
        next
          case (Cons x ys)
          show ?thesis
          proof (cases "x = 0")
            case True
            with Some Seen seen Cons show ?thesis
              by (auto simp: tolerant_observer_def observed.unchanged)
          next
            case nonzero: False
            have "observed t ip s (fst (observe_again ip t m xs s))"
              using Some Seen m [of m xs] False by (intro observe_again_observed) simp_all
            with Some Seen nonzero Cons show ?thesis by (simp add: tolerant_observer_def)
          qed
        qed
      qed
    qed
    with active False show ?thesis by (simp add: write_event_def)
  qed
qed

text \<open>The cleanup: what it deletes may be reported again at the time it works with.\<close>

lemma entry_key: "(k, x) \<in> set b \<Longrightarrow> k \<in> fst ` set b"
  by (rule image_eqI [where x = "(k, x)"]) simp_all

lemma cleaned_lookup:
  assumes "distinct (map fst b)"
  shows "map_of (map (\<lambda>(k, e). (k, f e)) (filter (\<lambda>(_, e). P e) b)) k =
    (case map_of b k of Some e \<Rightarrow> if P e then Some (f e) else None | None \<Rightarrow> None)"
  using assms by (induction b) (auto simp: map_of_eq_None_iff dest: entry_key split: option.splits)

lemma filter_lookup:
  assumes "distinct (map fst b)"
  shows "map_of (filter (\<lambda>(_, e). P e) b) k =
    (case map_of b k of Some e \<Rightarrow> if P e then Some e else None | None \<Rightarrow> None)"
  using cleaned_lookup [OF assms, of "\<lambda>e. e" P k] by simp

lemma distinct_cleaned:
  "distinct (map fst b) \<Longrightarrow> distinct (map fst (map (\<lambda>(k, e). (k, f e)) (filter (\<lambda>(_, e). P e) b)))"
  by (induction b) (auto dest: entry_key)

definition cleaned :: "rat \<Rightarrow> abuse \<Rightarrow> (string \<times> log_entry) list" where
  "cleaned t s = book (find_and_delete_empty_entries (clean_book t s))"

lemma cleaned_map:
  assumes "distinct (map fst (book s))"
  shows "map_of (cleaned t s) k =
    (case map_of (book s) k of
       None \<Rightarrow> None
     | Some e \<Rightarrow> if can_rereport t s e then None
        else (case clean_expired_timestamps t s e of Seen _ [] \<Rightarrow> None | e' \<Rightarrow> Some e'))"
  unfolding cleaned_def find_and_delete_empty_entries_def clean_book_def
  by (simp add: filter_lookup [OF distinct_cleaned [OF assms]] cleaned_lookup [OF assms]
      split: option.splits log_entry.splits list.splits)

lemma distinct_cleaned_book: "distinct (map fst (book s)) \<Longrightarrow> distinct (map fst (cleaned t s))"
  unfolding cleaned_def find_and_delete_empty_entries_def clean_book_def
  by (simp add: distinct_cleaned distinct_map_filter del: map_map)

lemma cleanup_parts [simp]:
  "sleeping (clean_book t s) = sleeping s" "sleep_until (clean_book t s) = sleep_until s" "posts (clean_book t s) = posts s"
  "tolerance_attempts (clean_book t s) = tolerance_attempts s" "rereport_after (clean_book t s) = rereport_after s"
  "tolerance_window (clean_book t s) = tolerance_window s"
  "sleeping (find_and_delete_empty_entries s) = sleeping s" "sleep_until (find_and_delete_empty_entries s) = sleep_until s"
  "reposts (clean_book t s) = reposts s" "reposts (find_and_delete_empty_entries s) = reposts s"
  "reposts (dump_state s) = reposts s"
  "posts (find_and_delete_empty_entries s) = posts s" "rereport_after (find_and_delete_empty_entries s) = rereport_after s"
  "tolerance_attempts (find_and_delete_empty_entries s) = tolerance_attempts s"
  "tolerance_window (find_and_delete_empty_entries s) = tolerance_window s"
  "sleeping (dump_state s) = sleeping s" "sleep_until (dump_state s) = sleep_until s" "posts (dump_state s) = posts s"
  "tolerance_attempts (dump_state s) = tolerance_attempts s" "rereport_after (dump_state s) = rereport_after s"
  "tolerance_window (dump_state s) = tolerance_window s" "book (dump_state s) = book s"
  by (simp_all add: clean_book_def find_and_delete_empty_entries_def dump_state_def)

lemma cleaned_same:
  assumes "book s' = book s" "rereport_after s' = rereport_after s" "tolerance_attempts s' = tolerance_attempts s"
    "tolerance_window s' = tolerance_window s"
  shows "cleaned t s' = cleaned t s"
proof -
  have "can_rereport t s' = can_rereport t s" "clean_expired_timestamps t s' = clean_expired_timestamps t s"
    using assms by (auto simp: can_rereport_def clean_expired_timestamps_def fun_eq_iff split: log_entry.splits list.splits)
  with assms(1) show ?thesis by (simp add: cleaned_def clean_book_def find_and_delete_empty_entries_def)
qed

lemma cleaned_recall [simp]: "cleaned t (s\<lparr>recall := x\<rparr>) = cleaned t s"
  by (rule cleaned_same) simp_all

lemma book_cleaned: "book (find_and_delete_empty_entries (clean_book t s)) = cleaned t s"
  by (simp add: cleaned_def)

lemma cleanup_effect:
  fixes now s stopping
  defines "T \<equiv> (if sleeping s then sleep_until s else now)" and "c \<equiv> fst (cleanup_and_dump_state now stopping s)"
  shows "book c = cleaned T s \<or> stopping \<and> book c = book s" "sleeping c = sleeping s" "sleep_until c = sleep_until s"
    "posts c = posts s" "tolerance_attempts c = tolerance_attempts s" "rereport_after c = rereport_after s"
    "tolerance_window c = tolerance_window s" "reposts c = reposts s"
  unfolding T_def c_def cleanup_and_dump_state_def
  by (cases "recall s"; simp add: cancel_recall_def book_cleaned Let_def)+

lemma cleaned_ok:
  assumes "book_ok s" "book s' = cleaned t s" "tolerance_attempts s' = tolerance_attempts s"
  shows "book_ok s'"
proof -
  have d: "distinct (map fst (book s))" using assms(1) by (simp add: book_ok_def)
  have "m = nat (tolerance_attempts s)" if "map_of (cleaned t s) ip = Some (Seen m xs)" for ip m xs
  proof -
    from that obtain zs where "map_of (book s) ip = Some (Seen m zs)"
      by (auto simp: cleaned_map [OF d] clean_expired_timestamps_def
          split: option.splits if_splits log_entry.splits list.splits)
    with assms(1) show ?thesis unfolding book_ok_def by blast
  qed
  with assms distinct_cleaned_book [OF d] show ?thesis by (simp add: book_ok_def)
qed

lemma cleaned_reported:
  assumes "distinct (map fst (book s))" "map_of (book s) ip = Some (Reported r)"
  shows "map_of (cleaned t s) ip = (if r + rereport_after s < t then None else Some (Reported r))"
  using assms by (simp add: cleaned_map can_rereport_def clean_expired_timestamps_def)

text \<open>Whoever was reported is still listed as reported, or may be reported again, now or at the end of the sleep.\<close>

definition rested :: "rat \<Rightarrow> abuse \<Rightarrow> post \<Rightarrow> bool" where
  "rested now s p \<longleftrightarrow>
     (\<exists>r. map_of (book s) (post_ip p) = Some (Reported r) \<and> post_time p \<le> r)
     \<or> post_time p + rereport_after s < (if sleeping s then sleep_until s else now)"

definition spaced :: "rat \<Rightarrow> post list \<Rightarrow> bool" where
  "spaced d ps \<longleftrightarrow> sorted_wrt (\<lambda>p q. post_ip p = post_ip q \<longrightarrow> post_time p + d < post_time q) ps"




lemma rested_later: "rested now s p \<Longrightarrow> now \<le> t \<Longrightarrow> rested t s p"
  by (auto simp: rested_def split: if_splits)

lemma reports_observed:
  assumes "observed t ip s s'" "book_ok s" "\<not> sleeping s" "spaced (rereport_after s) (posts s)"
    "\<forall>p \<in> set (posts s). rested t s p"
  shows "spaced (rereport_after s') (posts s') \<and> (\<forall>p \<in> set (posts s'). rested t s' p) \<and> sleeping s' = sleeping s"
proof -
  have old: "post_time p + rereport_after s < t"
    if "p \<in> set (posts s)" "post_ip p = ip" "\<And>r. map_of (book s) ip = Some (Reported r) \<Longrightarrow> r + rereport_after s < t" for p
    using assms(3,5) that by (force simp: rested_def)
  show ?thesis
    using assms(1)
  proof cases
    case unchanged
    with assms show ?thesis by simp
  next
    case (seen m xs)
    have "rested t s' p" if p: "p \<in> set (posts s)" for p
      using assms(3,5) old [OF p] seen p by (cases "post_ip p = ip") (auto simp: rested_def map_of_alist_update)
    with assms seen show ?thesis by simp
  next
    case (reported q)
    have "rested t s' p" if p: "p \<in> set (posts s)" for p
      using assms(3,5) old [OF p] reported p by (cases "post_ip p = ip") (auto simp: rested_def map_of_alist_update)
    moreover have "rested t s' q"
      using reported by (auto simp: rested_def map_of_alist_update)
    moreover have "spaced (rereport_after s) (posts s @ [q])"
      using assms(4) old reported by (auto simp: spaced_def sorted_wrt_append)
    ultimately show ?thesis using reported by auto
  qed
qed

lemma observed_book_ok: "observed t ip s s' \<Longrightarrow> book_ok s \<Longrightarrow> book_ok s'"
  by (cases rule: observed.cases, assumption)
    (auto simp: book_ok_def map_of_alist_update distinct_update split: if_splits)

text \<open>What the events find: a book in order, and every post at rest at the time of the event.\<close>

definition at_rest :: "rat \<Rightarrow> abuse \<Rightarrow> bool" where
  "at_rest t s \<longleftrightarrow> book_ok s \<and> spaced (rereport_after s) (posts s) \<and> (\<forall>p \<in> set (posts s). rested t s p)"


lemma at_rest_same:
  assumes "book s' = book s" "posts s' = posts s" "rereport_after s' = rereport_after s"
    "tolerance_attempts s' = tolerance_attempts s" "sleeping s' = sleeping s" "sleep_until s' = sleep_until s"
  shows "at_rest t s' = at_rest t s"
  unfolding at_rest_def book_ok_def rested_def assms ..

lemma rested_cleaned:
  assumes "rested t s p" "book_ok s" "book s' = cleaned (if sleeping s then sleep_until s else t) s"
    "sleeping s' = sleeping s" "sleep_until s' = sleep_until s" "rereport_after s' = rereport_after s"
  shows "rested t s' p"
proof -
  have d: "distinct (map fst (book s))" using assms(2) by (simp add: book_ok_def)
  from assms(1) show ?thesis
    unfolding rested_def assms(3-6)
    by (elim disjE exE conjE) (simp_all add: cleaned_reported [OF d], linarith?)
qed

lemma at_rest_cleaned:
  assumes "at_rest t s" "book s' = cleaned (if sleeping s then sleep_until s else t) s"
    "sleeping s' = sleeping s" "sleep_until s' = sleep_until s" "rereport_after s' = rereport_after s"
    "posts s' = posts s" "tolerance_attempts s' = tolerance_attempts s"
  shows "at_rest t s'"
  using assms rested_cleaned [OF _ _ assms(2-5)] cleaned_ok [OF _ assms(2,7)] by (simp add: at_rest_def)

lemma at_rest_write:
  assumes "at_rest t s"
  shows "at_rest t (fst (write_event eventid ip uname t s))"
proof (cases "sleeping s")
  case True
  with assms show ?thesis by (simp add: write_event_def)
next
  case False
  have ok: "book_ok s" using assms by (simp add: at_rest_def)
  note o = write_event_observed [OF ok, of t ip eventid uname]
  show ?thesis
    using reports_observed [OF o ok False] observed_book_ok [OF o ok] assms by (simp add: at_rest_def)
qed

lemma at_rest_cleanup: "at_rest t s \<Longrightarrow> at_rest t (fst (cleanup_and_dump_state t False s))"
  by (rule at_rest_cleaned) (use cleanup_effect [of t False s] in simp_all)

lemma at_rest_sleep:
  assumes "at_rest t s" "\<not> sleeping s"
  shows "at_rest t (s\<lparr>sleeping := True, sleep_until := t + of_nat retry, alarms := as\<rparr>)"
proof -
  have "rested t (s\<lparr>sleeping := True, sleep_until := t + of_nat retry, alarms := as\<rparr>) p" if "rested t s p" for p
    using that assms(2) by (auto simp: rested_def intro: order.strict_trans2)
  with assms show ?thesis by (simp add: at_rest_def book_ok_def)
qed

lemma at_rest_limited:
  assumes "at_rest t s" "retry \<le> 86340 \<Longrightarrow> \<not> sleeping s"
  shows "at_rest t (fst (rate_limit_handler q retry t s))"
proof (cases "retry \<le> 86340")
  case short: True
  define s1 where "s1 = s\<lparr>sleeping := True, sleep_until := t + of_nat retry, alarms := alarms s @ [t + of_nat retry]\<rparr>"
  have r: "at_rest t s1" unfolding s1_def by (rule at_rest_sleep [OF assms(1) assms(2) [OF short]])
  let ?c = "fst (cleanup_and_dump_state t True s1)"
  note eff = cleanup_effect [of t True s1]
  have "at_rest t ?c"
  proof (cases "book ?c = book s1")
    case True
    with r eff(2-7) show ?thesis by (simp add: at_rest_same [of ?c s1])
  next
    case False
    with eff show ?thesis by (intro at_rest_cleaned [OF r]) simp_all
  qed
  with short show ?thesis by (simp add: rate_limit_handler_def s1_def)
next
  case False
  with assms(1) at_rest_same [of "fst (rate_limit_handler q retry t s)" s t] show ?thesis by (simp add: rate_limit_handler_def)
qed

lemma at_rest_later: "at_rest now s \<Longrightarrow> now \<le> t \<Longrightarrow> at_rest t s"
  by (auto simp: at_rest_def intro: rested_later)

lemma at_rest_wake:
  assumes "at_rest t s" "sleeping s \<Longrightarrow> sleep_until s \<le> t"
  shows "at_rest t (wakeup s)"
proof -
  have "rested t (wakeup s) p" if "rested t s p" for p
    using that assms(2) by (cases "sleeping s") (auto simp: rested_def wakeup_def)
  moreover have "book_ok (wakeup s) = book_ok s" by (simp add: book_ok_def wakeup_def)
  ultimately show ?thesis using assms(1) by (simp add: at_rest_def) (simp add: wakeup_def)
qed

lemma at_rest_recall: "at_rest t (s\<lparr>recall := x\<rparr>) = at_rest t s"
  by (rule at_rest_same) simp_all

lemma at_rest_step: "at_rest now s \<Longrightarrow> in_time now s e \<Longrightarrow> at_rest (event_time e) (abuse_step s e)"
  by (cases e)
    (auto intro!: at_rest_write at_rest_cleanup at_rest_limited at_rest_wake elim!: at_rest_later simp: at_rest_recall)





lemma settings_kept:
  "rereport_after (abuse_step s e) = rereport_after s \<and> tolerance_attempts (abuse_step s e) = tolerance_attempts s
   \<and> tolerance_window (abuse_step s e) = tolerance_window s" if "book_ok s"
proof (cases e)
  case (Event eid ip u t)
  show ?thesis
    using write_event_observed [OF that, of t ip eid u] Event by (cases rule: observed.cases) simp_all
next
  case (Cleanup_due t)
  then show ?thesis using cleanup_effect [of t False] by simp
next
  case (Limited p retry t)
  then show ?thesis using cleanup_effect [of t True] by (simp add: rate_limit_handler_def)
next
  case (Wake t)
  then show ?thesis by (simp add: wakeup_def)
qed

lemma run_settings:
  "at_rest now s \<Longrightarrow> foldl clocked_step (now, es0, s) es = (now', es', s') \<Longrightarrow> rereport_after s' = rereport_after s
     \<and> tolerance_attempts s' = tolerance_attempts s \<and> tolerance_window s' = tolerance_window s"
proof (induction es arbitrary: now s es0)
  case (Cons e es)
  show ?case
  proof (cases "in_time now s e")
    case True
    from Cons.prems(1) have "book_ok s" by (simp add: at_rest_def)
    with Cons.IH [OF at_rest_step [OF Cons.prems(1) True]] Cons.prems(2) True settings_kept [of s e]
    show ?thesis by simp
  qed (use Cons in simp)
qed simp


text \<open>The times at which logins of an address were seen.\<close>

fun login_time :: "string \<Rightarrow> abuse_event \<Rightarrow> rat list" where
  "login_time ip (Event eid ip' _ t) = (if ip = ip' \<and> before_last_dot eid = ''cowrie.login'' then [t] else [])"
| "login_time ip _ = []"

definition login_times :: "string \<Rightarrow> abuse_event list \<Rightarrow> rat list" where
  "login_times ip es = concat (map (login_time ip) es)"

definition count_within :: "rat \<Rightarrow> rat \<Rightarrow> rat list \<Rightarrow> nat" where
  "count_within a b ts = length (filter (\<lambda>x. a \<le> x \<and> x \<le> b) ts)"

definition count_ok :: "abuse \<Rightarrow> abuse_event list \<Rightarrow> post \<Rightarrow> bool" where
  "count_ok s es p =
     (case p of
        Single _ _ _ \<Rightarrow> True
      | Multiple ip n _ t \<Rightarrow> n = tolerance_attempts s \<and> n \<le> int (count_within (t - tolerance_window s) t (login_times ip es)))"

definition times_ok :: "rat \<Rightarrow> abuse_event list \<Rightarrow> bool" where
  "times_ok now es \<longleftrightarrow> 0 < now \<and>
     (\<forall>ip. sorted (login_times ip es) \<and> (\<forall>x \<in> set (login_times ip es). 0 < x \<and> x \<le> now))"

definition counts_ok :: "rat \<Rightarrow> abuse_event list \<Rightarrow> abuse \<Rightarrow> bool" where
  "counts_ok now es s \<longleftrightarrow>
     book_ok s \<and> times_ok now es \<and> (\<forall>ip. subseq (old_times s ip) (login_times ip es))
     \<and> (\<forall>p \<in> set (posts s). count_ok s es p)"

lemma login_times_append [simp]: "login_times ip (es @ [e]) = login_times ip es @ login_time ip e"
  by (simp add: login_times_def)

lemma drop_expired_above: "sorted zs \<Longrightarrow> \<forall>x \<in> set zs. 0 < x \<Longrightarrow> x \<in> set (drop_expired l zs) \<Longrightarrow> l \<le> x"
  by (induction zs) (force split: if_splits)+

lemma count_drop_expired:
  assumes "sorted ts" "\<forall>x \<in> set ts. 0 < x \<and> x \<le> t" "subseq zs ts"
  shows "length (drop_expired l zs) \<le> count_within l t ts"
proof -
  have "set zs \<subseteq> set ts" using assms(3) by (auto simp: subseq_conv_nths set_nths)
  moreover have sz: "sorted zs" using assms(1,3) by (auto simp: subseq_conv_nths sorted_nths)
  moreover have "set (drop_expired l zs) \<subseteq> set zs" by (rule set_mono_suffix [OF drop_expired_suffix])
  ultimately have "filter (\<lambda>x. l \<le> x \<and> x \<le> t) (drop_expired l zs) = drop_expired l zs"
    using assms(2) drop_expired_above [OF sz] by (intro filter_True) blast
  moreover have "subseq (filter (\<lambda>x. l \<le> x \<and> x \<le> t) (drop_expired l zs)) (filter (\<lambda>x. l \<le> x \<and> x \<le> t) ts)"
    by (intro subseq_filter subseq_order.trans [OF suffix_imp_subseq [OF drop_expired_suffix] assms(3)])
  ultimately show ?thesis unfolding count_within_def by (metis list_emb_length)
qed

lemma count_within_mono: "count_within a b ts \<le> count_within a b (ts @ us)"
  by (simp add: count_within_def)

lemma count_ok_more: "count_ok s es p \<Longrightarrow> count_ok s (es @ [e]) p"
  by (cases p) (auto simp: count_ok_def intro: order.trans [OF _ of_nat_mono [OF count_within_mono]])

lemma count_ok_same:
  "tolerance_attempts s' = tolerance_attempts s \<Longrightarrow> tolerance_window s' = tolerance_window s \<Longrightarrow> count_ok s' = count_ok s"
  by (simp add: count_ok_def fun_eq_iff split: post.splits)

lemma times_ok_more:
  assumes "times_ok now es" "now \<le> event_time e"
  shows "times_ok (event_time e) (es @ [e])"
proof -
  have "sorted (login_times ip (es @ [e])) \<and> (\<forall>x \<in> set (login_times ip (es @ [e])). 0 < x \<and> x \<le> event_time e)" for ip
  proof -
    have now: "sorted (login_times ip es)" "\<forall>x \<in> set (login_times ip es). 0 < x \<and> x \<le> now"
      using assms(1) by (simp_all add: times_ok_def)
    have l: "sorted (login_times ip es)" "\<forall>x \<in> set (login_times ip es). 0 < x \<and> x \<le> event_time e"
      using now assms(2) by (meson order.trans)+
    have "login_time ip e = [] \<or> login_time ip e = [event_time e]" by (cases e) simp_all
    then show ?thesis
    proof
      assume "login_time ip e = [event_time e]"
      moreover have "0 < event_time e" using assms by (simp add: times_ok_def)
      ultimately show ?thesis using l by (simp add: sorted_append)
    qed (use l in simp)
  qed
  moreover have "0 < event_time e" using assms by (simp add: times_ok_def)
  ultimately show ?thesis by (simp add: times_ok_def)
qed

lemma counts_observed:
  assumes "counts_ok now es s" "observed t ip s s'" "now \<le> t" "event_time e = t" "login_time ip e = [t]"
  shows "counts_ok t (es @ [e]) s'"
proof -
  have times: "times_ok t (es @ [e])"
    using times_ok_more [of now es e] assms(1,3,4) by (simp add: counts_ok_def)
  have l: "subseq (old_times s i) (login_times i es)" for i
    using assms(1) by (simp add: counts_ok_def)
  then have more: "subseq (old_times s i) (login_times i (es @ [e]))" for i
    using subseq_order.trans list_emb_append2 by (metis login_times_append subseq_rev_drop_many)
  have snoc: "subseq zs (login_times ip (es @ [e]))" if "subseq zs (old_times s ip @ [t])" for zs
    using subseq_order.trans [OF that list_emb_append_mono [OF l subseq_order.refl]] assms(5) by simp
  have old: "\<forall>p \<in> set (posts s). count_ok s (es @ [e]) p"
    using assms(1) count_ok_more by (auto simp: counts_ok_def)
  have ok: "book_ok s'" using observed_book_ok [OF assms(2)] assms(1) by (simp add: counts_ok_def)
  show ?thesis
    using assms(2)
  proof cases
    case unchanged
    with ok times more old show ?thesis by (simp add: counts_ok_def)
  next
    case (seen m xs)
    have "subseq (old_times s' i) (login_times i (es @ [e]))" for i
      using more [of i] snoc [OF seen(4)] seen(1) by (cases "i = ip") (simp_all add: old_times_def map_of_alist_update)
    moreover have "count_ok s' = count_ok s" by (rule count_ok_same) (simp_all add: seen(1))
    ultimately show ?thesis using ok times old seen(1) by (simp add: counts_ok_def)
  next
    case (reported p)
    have "subseq (old_times s' i) (login_times i (es @ [e]))" for i
      using more [of i] reported(1) by (cases "i = ip") (simp_all add: old_times_def map_of_alist_update)
    moreover have "count_ok s (es @ [e]) p"
    proof (cases p)
      case (Multiple ip' n t1 t2)
      with reported obtain zs where z: "subseq zs (old_times s ip @ [t])" "n = tolerance_attempts s"
        "n \<le> int (length (drop_expired (t - tolerance_window s) zs))"
        by (auto simp: earned_def)
      have "length (drop_expired (t - tolerance_window s) zs)
          \<le> count_within (t - tolerance_window s) t (login_times ip (es @ [e]))"
        using times snoc [OF z(1)] unfolding times_ok_def by (intro count_drop_expired) auto
      with z Multiple reported(3,4) show ?thesis by (simp add: count_ok_def)
    qed (simp add: count_ok_def)
    moreover have "count_ok s' = count_ok s" by (rule count_ok_same) (simp_all add: reported(1))
    ultimately show ?thesis using ok times old reported(1) by (simp add: counts_ok_def)
  qed
qed

lemma old_times_cleaned:
  assumes "distinct (map fst (book s))" "book s' = cleaned t s"
  shows "subseq (old_times s' ip) (old_times s ip)"
proof -
  have "old_times s' ip = [] \<or> old_times s' ip = drop_expired (t - tolerance_window s) (old_times s ip)"
    unfolding old_times_def assms(2) cleaned_map [OF assms(1)]
    by (auto simp: clean_expired_timestamps_def split: option.splits log_entry.splits list.splits)
  then show ?thesis using suffix_imp_subseq [OF drop_expired_suffix] by (metis list_emb_Nil)
qed

text \<open>Events that are no logins only forget.\<close>

lemma counts_forget:
  assumes "counts_ok now es s" "now \<le> event_time e" "\<And>ip. login_time ip e = []" "book_ok s'" "posts s' = posts s"
    "\<And>ip. subseq (old_times s' ip) (old_times s ip)" "tolerance_attempts s' = tolerance_attempts s"
    "tolerance_window s' = tolerance_window s"
  shows "counts_ok (event_time e) (es @ [e]) s'"
proof -
  have "subseq (old_times s' ip) (login_times ip (es @ [e]))" for ip
  proof -
    have "subseq (old_times s ip) (login_times ip es)" using assms(1) by (simp add: counts_ok_def)
    with assms(6) have "subseq (old_times s' ip) (login_times ip es)" by (rule subseq_order.trans)
    then show ?thesis by (simp add: assms(3))
  qed
  moreover have "count_ok s (es @ [e]) = count_ok s es"
    by (simp add: count_ok_def fun_eq_iff assms(3) split: post.splits)
  moreover note count_ok_same [OF assms(7,8)]
  ultimately show ?thesis
    using assms(1,4,5) times_ok_more [OF _ assms(2)] by (simp add: counts_ok_def)
qed

lemma counts_cleaned:
  assumes "counts_ok now es s" "now \<le> event_time e" "\<And>ip. login_time ip e = []"
    "book s' = cleaned t' s \<or> book s' = book s" "posts s' = posts s"
    "tolerance_attempts s' = tolerance_attempts s" "tolerance_window s' = tolerance_window s"
  shows "counts_ok (event_time e) (es @ [e]) s'"
proof -
  have ok: "book_ok s" using assms(1) by (simp add: counts_ok_def)
  then have d: "distinct (map fst (book s))" by (simp add: book_ok_def)
  from assms(4) have "book_ok s'"
    by (elim disjE) (rule cleaned_ok [OF ok _ assms(6)], assumption, simp add: book_ok_same [OF _ assms(6)] ok)
  moreover from assms(4) have "subseq (old_times s' ip) (old_times s ip)" for ip
    by (elim disjE) (rule old_times_cleaned [OF d], assumption, simp add: old_times_def)
  ultimately show ?thesis by (rule counts_forget [OF assms(1-3) _ assms(5) _ assms(6,7)])
qed

lemma counts_step:
  assumes "counts_ok now es s" "in_time now s e"
  shows "counts_ok (event_time e) (es @ [e]) (abuse_step s e)"
proof -
  have ok: "book_ok s" using assms(1) by (simp add: counts_ok_def)
  have le: "now \<le> event_time e" using assms(2) by (cases e) simp_all
  show ?thesis
  proof (cases e)
    case (Event eid ip u t)
    show ?thesis
    proof (cases "before_last_dot eid = ''cowrie.login''")
      case True
      with Event have "counts_ok t (es @ [e]) (abuse_step s e)"
        using counts_observed [OF assms(1) write_event_observed [OF ok, of t ip eid u]] le by simp
      with Event show ?thesis by simp
    next
      case False
      with Event ok show ?thesis
        by (intro counts_forget [OF assms(1) le]) (simp_all add: write_event_def)
    qed
  next
    case (Cleanup_due t)
    let ?s = "if recall s = Recall_pending then s\<lparr>recall := Recall_called\<rparr> else s"
    have same: "sleeping ?s = sleeping s" "cleaned T ?s = cleaned T s" for T by simp_all
    show ?thesis
      using cleanup_effect [of t False ?s] Cleanup_due
      by (intro counts_cleaned [OF assms(1) le, where t' = "if sleeping s then sleep_until s else t"]) (simp_all split: if_splits)
  next
    case (Limited p retry t)
    show ?thesis
    proof (cases "retry \<le> 86340")
    case True
    with Limited assms(2) have n: "\<not> sleeping s" "retry \<le> 86340" by simp_all
    let ?s = "s\<lparr>sleeping := True, sleep_until := t + of_nat retry, alarms := alarms s @ [t + of_nat retry]\<rparr>"
    have same: "cleaned T ?s = cleaned T s" for T by (rule cleaned_same) simp_all
    show ?thesis
      using cleanup_effect [of t True ?s] Limited n same
      by (intro counts_cleaned [OF assms(1) le, where t' = "t + of_nat retry"]) (auto simp: rate_limit_handler_def)
    next
    case False
    then show ?thesis using ok Limited
      by (intro counts_forget [OF assms(1) le]) (simp_all add: rate_limit_handler_def book_ok_def old_times_def)
    qed
  next
    case (Wake t)
    then show ?thesis using ok by (intro counts_forget [OF assms(1) le]) (simp_all add: wakeup_def book_ok_def old_times_def)
  qed
qed

interpretation count_machine: machine clocked_step "\<lambda>(now, es, s). counts_ok now es s"
  by unfold_locales (auto intro: counts_step split: if_splits)

text \<open>A report about several attempts is earned: at its time, the log has seen at least as many logins
  of that address within the tolerance window as the report says.\<close>

theorem multiple_report_earned:
  assumes "book s = []" "posts s = []" "0 < now" "foldl clocked_step (now, [], s) es = (now', es', s')"
    "Multiple ip n t1 t2 \<in> set (posts s')"
  shows "n = tolerance_attempts s
    \<and> n \<le> int (length (filter (\<lambda>x. t2 - tolerance_window s \<le> x \<and> x \<le> t2) (login_times ip es')))"
proof -
  have "counts_ok now [] s"
    using assms(1-3) by (simp add: counts_ok_def book_ok_def times_ok_def old_times_def login_times_def)
  with count_machine.run_inv [of "(now, [], s)" es] assms(4) have "counts_ok now' es' s'" by simp
  moreover have "at_rest now s" using assms(1,2) by (simp add: at_rest_def spaced_def book_ok_def)
  note run_settings [OF this assms(4)]
  ultimately show ?thesis using assms(5) by (force simp: counts_ok_def count_ok_def count_within_def)
qed

definition sample_abuse :: "int \<Rightarrow> abuse" where
  "sample_abuse n = log_book n 120 24 None"

lemma multiple_report_earned_witness:
  "\<exists>now' es' s'. foldl clocked_step (1, [], sample_abuse 2) [Event ''cowrie.login.failed'' ''a'' ''u'' 100,
       Event ''cowrie.login.failed'' ''a'' ''u'' 160] = (now', es', s') \<and> posts s' = [Multiple ''a'' 2 100 160]
     \<and> length (filter (\<lambda>x. -7040 \<le> x \<and> x \<le> 160) (login_times ''a'' es')) \<ge> 2"
proof -
  let ?es = "[Event ''cowrie.login.failed'' ''a'' ''u'' 100, Event ''cowrie.login.failed'' ''a'' ''u'' 160]"
  obtain now' es' s' where run: "foldl clocked_step (1, [], sample_abuse 2) ?es = (now', es', s')" by (metis surj_pair)
  then have "posts s' = [Multiple ''a'' 2 100 160]"
    by (simp add: sample_abuse_def log_book_def REREPORT_MINIMUM_def write_event_def before_last_dot_def
        tolerant_observer_def fresh_entry_def deque_append_def observe_again_def report_ip_multiple_def Let_def)
      (auto simp: set_entry_def)
  moreover from this have "2 \<le> int (length (filter (\<lambda>x. -7040 \<le> x \<and> x \<le> 160) (login_times ''a'' es')))"
    using multiple_report_earned [OF _ _ _ run, of "''a''" 2 100 160] by (simp add: sample_abuse_def log_book_def)
  ultimately have "posts s' = [Multiple ''a'' 2 100 160]
     \<and> length (filter (\<lambda>x. -7040 \<le> x \<and> x \<le> 160) (login_times ''a'' es')) \<ge> 2" by simp
  with run show ?thesis by blast
qed


subsection \<open>What goes wrong\<close>

text \<open>An address with a single attempt is dropped by every cleanup, because reading a second time
  that is not there counts as "may be reported again": an attacker who tries once between two cleanups
  is never reported, however many attempts are within the tolerance window.\<close>

theorem single_attempt_forgotten:
  assumes "2 \<le> tolerance_attempts s" "book s = []" "\<not> sleeping s" "before_last_dot eventid = ''cowrie.login''"
  shows "posts (foldl abuse_step s (concat (map (\<lambda>(t, t'). [Event eventid ip uname t, Cleanup_due t']) ts))) = posts s"
  using assms(1-3)
proof (induction ts arbitrary: s)
  case (Cons x ts)
  obtain t t' where x: "x = (t, t')" by (cases x)
  let ?s1 = "abuse_step s (Event eventid ip uname t)" and ?s2 = "abuse_step (abuse_step s (Event eventid ip uname t)) (Cleanup_due t')"
  have "?s1 = set_entry ip (fresh_entry t s) s"
    using Cons.prems assms(4) by (simp add: write_event_def tolerant_observer_def)
  moreover have "fresh_entry t s = Seen (nat (tolerance_attempts s)) [t]"
    using Cons.prems by (simp add: fresh_entry_def deque_append_def)
  ultimately have s1: "book ?s1 = [(ip, Seen (nat (tolerance_attempts s)) [t])]" "posts ?s1 = posts s"
      "tolerance_attempts ?s1 = tolerance_attempts s" "sleeping ?s1 = sleeping s"
    using Cons.prems by simp_all
  let ?r = "if recall ?s1 = Recall_pending then ?s1\<lparr>recall := Recall_called\<rparr> else ?s1"
  have "cleaned t' ?r = []"
    using s1 by (simp add: cleaned_def clean_book_def find_and_delete_empty_entries_def can_rereport_def)
  then have s2: "book ?s2 = []" "posts ?s2 = posts s" "2 \<le> tolerance_attempts ?s2" "\<not> sleeping ?s2"
    using cleanup_effect [of t' False ?r] s1 Cons.prems by (simp_all split: if_splits)
  show ?case
    using Cons.IH [OF s2(3,1,4)] s2(2) by (simp add: x)
qed simp

text \<open>
  Two answers with Retry-After, the second with a shorter wait: the cleanup at the first has already
  deleted what may be reported again at the end of the long pause, so an address is reported again
  within a quarter of an hour.
\<close>

lemma second_limit_wakes_early:
  "posts (foldl abuse_step (fst (start_plugin 1 120 24 50 None))
     [Event ''cowrie.login.failed'' ''a'' ''u'' 100, Limited (Single ''a'' 100 ''u'') 86340 1000,
      Limited (Single ''a'' 100 ''u'') 10 1001, Wake 1011, Event ''cowrie.login.failed'' ''a'' ''u'' 1012])
   = [Single ''a'' 100 ''u'', Single ''a'' 1012 ''u'']"
  by (simp add: start_plugin_def load_dump_def log_book_def REREPORT_MINIMUM_def cleanup_and_dump_state_def
      clean_book_def find_and_delete_empty_entries_def dump_state_def Let_def write_event_def before_last_dot_def
      intolerant_observer_def report_ip_single_def set_entry_def can_rereport_def rate_limit_handler_def
      cancel_recall_def clean_expired_timestamps_def wakeup_def)

text \<open>Stopping while it sleeps raises, so the state is not dumped then.\<close>

lemma stop_while_limited_raises:
  assumes "\<not> sleeping s" "retry \<le> 86340" "recall s = Recall_pending"
  shows "snd (stop_plugin t' (fst (rate_limit_handler p retry t s))) = Inl AlreadyCancelled"
  using assms
  by (simp add: rate_limit_handler_def stop_plugin_def cleanup_and_dump_state_def cancel_recall_def Let_def
      clean_book_def find_and_delete_empty_entries_def dump_state_def)

subsection \<open>Restarts\<close>

lemma map_of_resize: "map_of b ip = Some (Reported r) \<Longrightarrow> map_of (map (\<lambda>(k, e). (k, resize_entry m e)) b) ip = Some (Reported r)"
  by (induction b) (auto simp: resize_entry_def split: if_splits)

lemma resize_deques_reported:
  "map_of (book s) ip = Some (Reported r) \<Longrightarrow> map_of (book (fst (resize_deques s))) ip = Some (Reported r)"
  by (simp add: resize_deques_def map_of_resize)

text \<open>Who was reported stays reported over a restart, also with other settings: the next login
  before the re-report interval is over does not post.\<close>

theorem restart_keeps_reported:
  assumes "book_ok s" "map_of (book s) ip = Some (Reported r)" "\<not> sleeping s" "recall s = Recall_pending"
    "now \<le> r + rereport_after s" "state_dump (fst (stop_plugin now s)) = Some d"
    "start_plugin n w h now' (Some d) = (s', res)" "now' \<le> t" "t \<le> r + rereport_after s'"
  shows "map_of (book s') ip = Some (Reported r) \<and> write_event eventid ip uname t s' = (s', Inr ())"
proof -
  have d: "distinct (map fst (book s))" using assms(1) by (simp add: book_ok_def)
  have dump: "dump_book d = cleaned now s" "\<not> dump_sleeping d"
    using assms(3,4,6) by (auto simp: stop_plugin_def cleanup_and_dump_state_def cancel_recall_def dump_state_def
        book_cleaned Let_def)
  let ?s0 = "load_dump now' (log_book n w h (Some d))"
  let ?s1 = "fst (cleanup_and_dump_state now' False ?s0)"
  have s0: "book ?s0 = cleaned now s" "\<not> sleeping ?s0"
    using dump by (simp_all add: load_dump_def log_book_def)
  note eff = cleanup_effect [of now' False ?s0]
  have s1: "book ?s1 = cleaned now' ?s0" using eff(1) s0 by simp
  have "s' = ?s1 \<or> s' = fst (resize_deques ?s1)"
    using assms(7) by (auto simp: start_plugin_def sbind_def split: prod.splits sum.splits if_splits)
  moreover have re: "rereport_after (fst (resize_deques x)) = rereport_after x" "sleeping (fst (resize_deques x)) = sleeping x"
    "tolerance_attempts (fst (resize_deques x)) = tolerance_attempts x" for x
    by (simp_all add: resize_deques_def)
  ultimately have same: "rereport_after s' = rereport_after ?s1" by auto
  have "map_of (book ?s0) ip = Some (Reported r)"
    using assms(2,5) s0 by (simp add: cleaned_reported [OF d])
  then have "map_of (book ?s1) ip = Some (Reported r)"
    using assms(8,9) same eff(6) s1 cleaned_reported [of ?s0 ip r now'] s0 distinct_cleaned_book [OF d] by simp
  with \<open>s' = ?s1 \<or> s' = fst (resize_deques ?s1)\<close> have entry: "map_of (book s') ip = Some (Reported r)"
    by (auto intro: resize_deques_reported)
  moreover have "\<not> can_rereport t s' (Reported r)" using assms(9) by (simp add: can_rereport_def)
  ultimately show ?thesis by (simp add: write_event_def intolerant_observer_def tolerant_observer_def)
qed

lemma restart_keeps_reported_witness:
  "\<exists>s d s' res. state_dump (fst (stop_plugin 200 s)) = Some d \<and> start_plugin 10 120 1 300 (Some d) = (s', res)
     \<and> write_event ''cowrie.login.failed'' ''a'' ''u'' 3000 s' = (s', Inr ())"
proof -
  let ?s = "(sample_abuse 1)\<lparr>book := [(''a'', Reported 100)], recall := Recall_pending\<rparr>"
  obtain d where d: "state_dump (fst (stop_plugin 200 ?s)) = Some d"
    by (simp add: stop_plugin_def cleanup_and_dump_state_def cancel_recall_def dump_state_def Let_def)
  obtain s' res where s': "start_plugin 10 120 1 300 (Some d) = (s', res)" by (metis surj_pair)
  have "rereport_after s' = 3600"
    using s' cleanup_effect(6) [of 300 False "load_dump 300 (log_book 10 120 1 (Some d))"]
    by (auto simp: start_plugin_def sbind_def resize_deques_def load_dump_def log_book_def REREPORT_MINIMUM_def Let_def
        split: prod.splits sum.splits if_splits)
  then have "write_event ''cowrie.login.failed'' ''a'' ''u'' 3000 s' = (s', Inr ())"
    using restart_keeps_reported [OF _ _ _ _ _ d s', of "''a''" 100 3000]
    by (simp add: book_ok_def sample_abuse_def log_book_def REREPORT_MINIMUM_def)
  with d s' show ?thesis by blast
qed

lemma single_attempt_forgotten_witness:
  "posts (foldl abuse_step (sample_abuse 10)
     (concat (map (\<lambda>(t, t'). [Event ''cowrie.login.failed'' ''a'' ''u'' t, Cleanup_due t'])
       [(1, 600), (601, 1200), (1201, 1800), (1801, 2400), (2401, 3000), (3001, 3600), (3601, 4200), (4201, 4800),
        (4801, 5400), (5401, 6000), (6001, 6600), (6601, 7200)]))) = []"
  by (subst single_attempt_forgotten) (simp_all add: sample_abuse_def log_book_def before_last_dot_def)

end
