(* ===== verification/Session_Store.thy ===== *)
theory Session_Store
  imports Tty_Dir
begin

section \<open>What is kept of a session\<close>

text \<open>
  Model of \<open>core/artifact.py\<close> (captured files) and of \<open>insults/insults.py\<close> (the wrapper of the
  terminal that records a session, saves the standard input of a single command, and stores what
  redirections have written). Files of the host are a map from paths to contents, so a rename onto
  the hash of the content is an update of it; file modes are left out, SHA-256 is a parameter.
\<close>

subsection \<open>One file per content\<close>

text \<open>
  The lines shared by all three: a temporary file is removed if a file named by its hash exists, and
  renamed to that name otherwise. \<open>os.remove\<close> and \<open>os.rename\<close> need the file.
\<close>

definition keep_file ::
  "(string \<Rightarrow> string) \<Rightarrow> string \<Rightarrow> string \<Rightarrow> string \<Rightarrow> tty_dir \<Rightarrow> (tty_dir, string \<times> bool) sres" where
  "keep_file sha dir tmp data files =
     (let shasum = sha data; shasumfile = join_path dir shasum in
      if files shasumfile \<noteq> None then
        (if files tmp = None then (files, Inl FileNotFound) else (files(tmp := None), Inr (shasum, True)))
      else (case files tmp of
          None \<Rightarrow> (files, Inl FileNotFound)
        | Some c \<Rightarrow> (files(tmp := None, shasumfile \<mapsto> c), Inr (shasum, False))))"

subsection \<open>Artifacts\<close>

record artifact =
  label :: string
  tempFilename :: string
  fp_data :: string
  fp_closed :: bool
  shasum :: string
  shasumFilename :: string

definition artifact_new :: "string \<Rightarrow> string \<Rightarrow> tty_dir \<Rightarrow> tty_dir \<times> artifact" where
  "artifact_new lbl tmp files =
     (files(tmp \<mapsto> []),
      \<lparr>label = lbl, tempFilename = tmp, fp_data = [], fp_closed = False, shasum = [], shasumFilename = []\<rparr>)"

text \<open>Writing goes to the open file, also when its name is gone; a closed file raises.\<close>

definition artifact_write :: "string \<Rightarrow> tty_dir \<times> artifact \<Rightarrow> (tty_dir \<times> artifact, unit) sres" where
  "artifact_write data s =
     (case s of (files, a) \<Rightarrow>
        if fp_closed a then (s, Inl ValueError)
        else
          let d = fp_data a @ data in
          (((case files (tempFilename a) of None \<Rightarrow> files | Some _ \<Rightarrow> files(tempFilename a \<mapsto> d)),
            a\<lparr>fp_data := d\<rparr>), Inr ()))"

definition artifact_close ::
  "(string \<Rightarrow> string) \<Rightarrow> string \<Rightarrow> bool \<Rightarrow> tty_dir \<times> artifact \<Rightarrow> (tty_dir \<times> artifact, (string \<times> string) option) sres" where
  "artifact_close sha dir keepEmpty s =
     (case s of (files, a) \<Rightarrow>
        if fp_closed a then (s, Inl ValueError)
        else if fp_data a = [] \<and> \<not> keepEmpty then ((files(tempFilename a := None), a), Inr None)
        else
          let a1 = a\<lparr>fp_closed := True, shasum := sha (fp_data a), shasumFilename := join_path dir (sha (fp_data a))\<rparr> in
          (case keep_file sha dir (tempFilename a) (fp_data a) files of
             (files', Inl e) \<Rightarrow> ((files', a1), Inl e)
           | (files', Inr _) \<Rightarrow> ((files', a1), Inr (Some (shasum a1, shasumFilename a1)))))"

text \<open>\<open>with Artifact(...) as f\<close>: \<open>__exit__\<close> closes and swallows what the body raised.\<close>

definition with_artifact ::
  "(string \<Rightarrow> string) \<Rightarrow> string \<Rightarrow> string \<Rightarrow> string \<Rightarrow> (tty_dir \<times> artifact \<Rightarrow> (tty_dir \<times> artifact, unit) sres) \<Rightarrow>
   tty_dir \<Rightarrow> (tty_dir \<times> artifact, unit) sres" where
  "with_artifact sha dir lbl tmp body files =
     (let s1 = fst (body (artifact_new lbl tmp files)) in
      case artifact_close sha dir False s1 of (s2, Inl e) \<Rightarrow> (s2, Inl e) | (s2, Inr _) \<Rightarrow> (s2, Inr ()))"

subsection \<open>The recorder\<close>

datatype session_kind = Exec string | Interactive

datatype recorder_event =
    Saved_stdin string bool string | Saved_redir string bool string string | Limit_reached
  | Log_closed string bool nat

record recorder_conf =
  sha256 :: "string \<Rightarrow> string"
  ttylog_path :: string
  download_path :: string
  ttylog_enabled :: bool
  received_limit :: nat

record recorder =
  kind :: session_kind
  ttylogFile :: string
  ttylogOpen :: bool
  ttylogSize :: nat
  bytesSent :: nat
  bytesReceived :: nat
  redirFiles :: "(string \<times> string) list"
  stdinlogOpen :: bool
  stdinlogFile :: string
  files :: tty_dir
  terminal_input :: "string list"
  terminal_eofs :: nat
  written_out :: "string list"
  recorder_log :: "recorder_event list"

definition recorder_new :: "session_kind \<Rightarrow> tty_dir \<Rightarrow> recorder" where
  "recorder_new k fs =
     \<lparr>kind = k, ttylogFile = [], ttylogOpen = False, ttylogSize = 0, bytesSent = 0, bytesReceived = 0, redirFiles = [],
      stdinlogOpen = False, stdinlogFile = [], files = fs, terminal_input = [], terminal_eofs = 0, written_out = [],
      recorder_log = []\<rparr>"

definition kind_letter :: "session_kind \<Rightarrow> string" where
  "kind_letter k = (case k of Exec _ \<Rightarrow> ''e'' | Interactive \<Rightarrow> ''i'')"

definition on_files :: "(tty_dir \<Rightarrow> (tty_dir, unit) sres) \<Rightarrow> recorder \<Rightarrow> (recorder, unit) sres" where
  "on_files f r = (case f (files r) of (d, x) \<Rightarrow> (r\<lparr>files := d\<rparr>, x))"

text \<open>\<open>stem\<close> is the time of day with the numbers of the session and the channel.\<close>

definition recorder_made :: "recorder_conf \<Rightarrow> string \<Rightarrow> rat \<Rightarrow> recorder \<Rightarrow> (recorder, unit) sres" where
  "recorder_made conf stem now r =
     (let name = ttylog_path conf @ ''/'' @ stem @ kind_letter (kind r) @ ''.log'' in
      sbind (if ttylog_enabled conf
             then sbind (on_files (tty_open name now) (r\<lparr>ttylogFile := name\<rparr>))
                    (\<lambda>r1 _. (r1\<lparr>ttylogOpen := True, ttylogSize := 0\<rparr>, Inr ()))
             else (r, Inr ()))
        (\<lambda>r1 _.
          let r2 = r1\<lparr>stdinlogFile := download_path conf @ ''/'' @ stem @ ''-stdin.log''\<rparr> in
          case kind r of
            Exec cmd \<Rightarrow>
              let r3 = r2\<lparr>stdinlogOpen := True\<rparr> in
              if ttylog_enabled conf then on_files (tty_write (ttylogFile r3) TYPE_INTERACT now cmd) r3 else (r3, Inr ())
          | Interactive \<Rightarrow> (r2\<lparr>stdinlogOpen := False\<rparr>, Inr ())))"

definition recorder_write :: "recorder_conf \<Rightarrow> rat \<Rightarrow> string \<Rightarrow> recorder \<Rightarrow> (recorder, unit) sres" where
  "recorder_write conf now data r =
     (let r1 = r\<lparr>bytesSent := bytesSent r + length data\<rparr> in
      sbind (if ttylog_enabled conf \<and> ttylogOpen r1
             then sbind (on_files (tty_write (ttylogFile r1) TYPE_OUTPUT now data) r1)
                    (\<lambda>r2 _. (r2\<lparr>ttylogSize := ttylogSize r2 + length data\<rparr>, Inr ()))
             else (r1, Inr ()))
        (\<lambda>r2 _. (r2\<lparr>written_out := written_out r2 @ [data]\<rparr>, Inr ())))"

definition eof_received :: "recorder \<Rightarrow> recorder" where
  "eof_received r = r\<lparr>terminal_eofs := terminal_eofs r + 1\<rparr>"

definition append_file :: "string \<Rightarrow> string \<Rightarrow> tty_dir \<Rightarrow> tty_dir" where
  "append_file name data d = d(name \<mapsto> (case d name of None \<Rightarrow> [] | Some c \<Rightarrow> c) @ data)"

definition recorder_received :: "recorder_conf \<Rightarrow> rat \<Rightarrow> string \<Rightarrow> recorder \<Rightarrow> (recorder, unit) sres" where
  "recorder_received conf now data r =
     (let r1 = r\<lparr>bytesReceived := bytesReceived r + length data\<rparr> in
      if received_limit conf \<noteq> 0 \<and> received_limit conf < bytesReceived r1
      then (eof_received (r1\<lparr>recorder_log := recorder_log r1 @ [Limit_reached]\<rparr>), Inr ())
      else
        sbind (if stdinlogOpen r1 then (r1\<lparr>files := append_file (stdinlogFile r1) data (files r1)\<rparr>, Inr ())
               else if ttylog_enabled conf \<and> ttylogOpen r1
               then on_files (tty_write (ttylogFile r1) TYPE_INPUT now data) r1
               else (r1, Inr ()))
          (\<lambda>r2 _. (r2\<lparr>terminal_input := terminal_input r2 @ [data]\<rparr>, Inr ())))"

text \<open>A \<open>FileNotFoundError\<close> is an \<open>OSError\<close>, so it is passed over.\<close>

definition save_stdin :: "recorder_conf \<Rightarrow> recorder \<Rightarrow> recorder" where
  "save_stdin conf r =
     (if \<not> stdinlogOpen r then r
      else
        (case files r (stdinlogFile r) of
           None \<Rightarrow> r
         | Some data \<Rightarrow>
             (case keep_file (sha256 conf) (download_path conf) (stdinlogFile r) data (files r) of
                (d, Inl e) \<Rightarrow> r\<lparr>files := d\<rparr>
              | (d, Inr (h, dup)) \<Rightarrow>
                  r\<lparr>files := d, recorder_log := recorder_log r @ [Saved_stdin h dup (join_path (download_path conf) h)]\<rparr>))
          \<lparr>stdinlogOpen := False\<rparr>)"

text \<open>\<open>rf[rf.find('redir_') + len('redir_'):]\<close>; \<open>find\<close> gives -1 when it is not there.\<close>

definition redir_name :: "string \<Rightarrow> string" where
  "redir_name rf =
     (let places = filter (\<lambda>i. starts_with (drop i rf) ''redir_'') [0..<Suc (length rf)] in
      case places of [] \<Rightarrow> drop 5 rf | i # _ \<Rightarrow> drop (i + 6) rf)"

definition save_redirect :: "recorder_conf \<Rightarrow> string \<times> string \<Rightarrow> recorder \<Rightarrow> recorder" where
  "save_redirect conf rp r =
     (let rf = fst rp; url = (if snd rp \<noteq> [] then snd rp else redir_name rf) in
      case files r rf of
        None \<Rightarrow> r
      | Some data \<Rightarrow>
          if data = [] then r\<lparr>files := (files r)(rf := None)\<rparr>
          else (case keep_file (sha256 conf) (download_path conf) rf data (files r) of
              (d, Inl e) \<Rightarrow> r\<lparr>files := d\<rparr>
            | (d, Inr (h, dup)) \<Rightarrow>
                r\<lparr>files := d, recorder_log := recorder_log r @ [Saved_redir h dup (join_path (download_path conf) h) url]\<rparr>))"

definition close_log :: "recorder_conf \<Rightarrow> rat \<Rightarrow> recorder \<Rightarrow> (recorder, unit) sres" where
  "close_log conf now r =
     (if ttylog_enabled conf \<and> ttylogOpen r then
        (case close_recording (sha256 conf) (ttylog_path conf) (ttylogFile r) now (files r) of
           (d, Inl e) \<Rightarrow> (r\<lparr>files := d\<rparr>, Inl e)
         | (d, Inr (h, dup)) \<Rightarrow>
             (r\<lparr>files := d, ttylogOpen := False, recorder_log := recorder_log r @ [Log_closed h dup (ttylogSize r)]\<rparr>, Inr ()))
      else (r, Inr ()))"

definition recorder_lost :: "recorder_conf \<Rightarrow> rat \<Rightarrow> recorder \<Rightarrow> (recorder, unit) sres" where
  "recorder_lost conf now r =
     (let r1 = save_stdin conf r;
          r2 = (fold (save_redirect conf) (redirFiles r1) r1)\<lparr>redirFiles := []\<rparr> in
      close_log conf now r2)"

subsection \<open>Runs\<close>

text \<open>
  What a redirection does to the files of the host (\<open>shell/pipe.py\<close>): \<open>Emptied\<close>, it is opened with \<open>>\<close>
  on a backing file that is there; \<open>Redirected\<close>, a command has written to it. The backing file may be any: that of a file that was
  downloaded is its artifact, under its hash in the download directory.
\<close>

datatype session_event = Output rat string | Input rat string | Emptied string string | Redirected string string string | Lost rat

fun recorder_step :: "recorder_conf \<Rightarrow> recorder \<Rightarrow> session_event \<Rightarrow> recorder" where
  "recorder_step conf r (Output t d) = fst (recorder_write conf t d r)"
| "recorder_step conf r (Input t d) = fst (recorder_received conf t d r)"
| "recorder_step conf r (Emptied rf url) =
     r\<lparr>files := (files r)(rf \<mapsto> []), redirFiles := List.insert (rf, url) (redirFiles r)\<rparr>"
| "recorder_step conf r (Redirected rf url d) =
     r\<lparr>files := append_file rf d (files r), redirFiles := List.insert (rf, url) (redirFiles r)\<rparr>"
| "recorder_step conf r (Lost t) = fst (recorder_lost conf t r)"

end
