(* ===== verification/Session_Store_Props.thy ===== *)
theory Session_Store_Props
  imports Session_Store
begin

section \<open>Properties of what is kept of a session\<close>

text \<open>
  The download directory keeps one file per content, named by its hash, until a redirection is aimed at
  a file that was downloaded; what a command reads from
  its standard input is stored up to the limit; a terminal session is recorded completely; and losing
  the connection more than once changes nothing.
\<close>

subsection \<open>The store\<close>

definition is_hash :: "string \<Rightarrow> bool" where "is_hash h \<longleftrightarrow> length h = 64 \<and> CHR ''/'' \<notin> set h"

definition store_ok :: "(string \<Rightarrow> string) \<Rightarrow> string \<Rightarrow> tty_dir \<Rightarrow> bool" where
  "store_ok sha dir fs \<longleftrightarrow> (\<forall>h c. is_hash h \<longrightarrow> fs (join_path dir h) = Some c \<longrightarrow> sha c = h)"

definition temp_name :: "string \<Rightarrow> string \<Rightarrow> bool" where
  "temp_name dir n \<longleftrightarrow> (\<forall>h. is_hash h \<longrightarrow> n \<noteq> join_path dir h)"

lemma join_path_inject [simp]: "join_path dir a = join_path dir b \<longleftrightarrow> a = b"
  by (simp add: join_path_def)

lemma store_ok_temp: "temp_name dir n \<Longrightarrow> store_ok sha dir (fs(n := x)) = store_ok sha dir fs"
  by (auto simp: store_ok_def temp_name_def)

lemma store_ok_append: "temp_name dir n \<Longrightarrow> store_ok sha dir (append_file n d fs) = store_ok sha dir fs"
  by (simp add: append_file_def store_ok_temp)

lemma store_ok_append_with:
  "append_with f n fs = (fs', r) \<Longrightarrow> temp_name dir n \<Longrightarrow> store_ok sha dir fs' = store_ok sha dir fs"
  by (auto simp: append_with_def store_ok_temp Let_def split: sum.splits)

lemma store_ok_put:
  assumes "store_ok sha dir fs"
  shows "store_ok sha dir (fs(join_path dir (sha d) \<mapsto> d))"
  unfolding store_ok_def
proof (intro allI impI)
  fix h c
  assume h: "is_hash h" and c: "(fs(join_path dir (sha d) \<mapsto> d)) (join_path dir h) = Some c"
  show "sha c = h"
  proof (cases "h = sha d")
    case False
    with c have "fs (join_path dir h) = Some c" by simp
    with assms h show ?thesis unfolding store_ok_def by blast
  qed (use c in simp)
qed

text \<open>
  Keeping a file: it succeeds, the store stays in order, the name is gone, the content is found under
  its hash, and no other file changes.
\<close>

lemma keep_file_effect:
  assumes "store_ok sha dir fs" "\<And>x. is_hash (sha x)" "temp_name dir tmp" "fs tmp = Some data"
    "keep_file sha dir tmp data fs = (fs', r)"
  shows "\<exists>dup. r = Inr (sha data, dup)" "store_ok sha dir fs'" "fs' tmp = None"
    "\<exists>c. fs' (join_path dir (sha data)) = Some c \<and> sha c = sha data \<and> (fs (join_path dir (sha data)) = None \<longrightarrow> c = data)"
    "\<And>n. n \<noteq> tmp \<Longrightarrow> n \<noteq> join_path dir (sha data) \<Longrightarrow> fs' n = fs n"
    "\<And>n c. n \<noteq> tmp \<Longrightarrow> fs n = Some c \<Longrightarrow> fs' n = Some c"
proof -
  have t: "tmp \<noteq> join_path dir (sha data)" using assms(2,3) by (auto simp: temp_name_def)
  have fs': "fs' = (if fs (join_path dir (sha data)) \<noteq> None then fs(tmp := None)
      else fs(tmp := None, join_path dir (sha data) \<mapsto> data))" and r: "\<exists>dup. r = Inr (sha data, dup)"
    using assms(4,5) by (auto simp: keep_file_def Let_def split: if_splits)
  show "\<exists>dup. r = Inr (sha data, dup)" by (rule r)
  have "store_ok sha dir (fs(tmp := None))" using assms(1) store_ok_temp [OF assms(3)] by simp
  then show "store_ok sha dir fs'" unfolding fs' by (simp add: store_ok_put)
  show "fs' tmp = None" unfolding fs' using t by simp
  show "fs' n = fs n" if "n \<noteq> tmp" "n \<noteq> join_path dir (sha data)" for n
    unfolding fs' using that by simp
  show "fs' n = Some c" if "n \<noteq> tmp" "fs n = Some c" for n c
    unfolding fs' using that by auto
  show "\<exists>c. fs' (join_path dir (sha data)) = Some c \<and> sha c = sha data
      \<and> (fs (join_path dir (sha data)) = None \<longrightarrow> c = data)"
  proof (cases "fs (join_path dir (sha data))")
    case None
    then show ?thesis by (simp add: fs')
  next
    case (Some c)
    with assms(1) assms(2) [of data] have "sha c = sha data" unfolding store_ok_def by blast
    with Some t show ?thesis by (simp add: fs')
  qed
qed

subsection \<open>Artifacts\<close>

fun artifact_writes :: "string list \<Rightarrow> tty_dir \<times> artifact \<Rightarrow> (tty_dir \<times> artifact, unit) sres" where
  "artifact_writes [] s = (s, Inr ())"
| "artifact_writes (d # ds) s = sbind (artifact_write d s) (\<lambda>s' _. artifact_writes ds s')"

lemma artifact_writes_effect:
  assumes "\<not> fp_closed a" "fs (tempFilename a) = Some (fp_data a)"
  shows "artifact_writes ds (fs, a)
    = ((fs(tempFilename a \<mapsto> fp_data a @ concat ds), a\<lparr>fp_data := fp_data a @ concat ds\<rparr>), Inr ())"
  using assms
proof (induction ds arbitrary: fs a)
  case (Cons d ds)
  then show ?case by (simp add: artifact_write_def Cons.IH Let_def fun_eq_iff)
qed (simp add: fun_upd_idem)

text \<open>What is written to an artifact is found, when it is closed, in the download directory under
  the hash of its content, its temporary file is gone, and no other file changes, so the same content
  is kept once; nothing is kept of an empty one.\<close>

theorem artifact_kept_once:
  assumes "store_ok sha dir fs" "\<And>x. is_hash (sha x)" "temp_name dir tmp"
    "artifact_writes ds (artifact_new lbl tmp fs) = (s, Inr ())"
    "artifact_close sha dir keepEmpty s = ((fs', a'), Inr res)"
  shows "store_ok sha dir fs' \<and> fs' tmp = None
    \<and> (concat ds = [] \<and> \<not> keepEmpty \<longrightarrow> res = None)
    \<and> (concat ds \<noteq> [] \<or> keepEmpty \<longrightarrow> res = Some (sha (concat ds), join_path dir (sha (concat ds)))
        \<and> (\<exists>c. fs' (join_path dir (sha (concat ds))) = Some c \<and> sha c = sha (concat ds)
             \<and> (fs (join_path dir (sha (concat ds))) = None \<longrightarrow> c = concat ds)))
    \<and> (\<forall>n. n \<noteq> tmp \<and> n \<noteq> join_path dir (sha (concat ds)) \<longrightarrow> fs' n = fs n)"
proof -
  let ?fs1 = "fs(tmp \<mapsto> concat ds)" and ?d = "concat ds"
  have s: "fst s = ?fs1" "\<not> fp_closed (snd s)" "tempFilename (snd s) = tmp" "fp_data (snd s) = ?d"
    using assms(4) artifact_writes_effect [of "snd (artifact_new lbl tmp fs)" "fst (artifact_new lbl tmp fs)" ds]
    by (auto simp: artifact_new_def)
  have ok1: "store_ok sha dir ?fs1" using assms(1) store_ok_temp [OF assms(3)] by simp
  show ?thesis
  proof (cases "?d = [] \<and> \<not> keepEmpty")
    case True
    then have "fs' = ?fs1(tmp := None)" "res = None"
      using assms(5) s by (cases s; simp add: artifact_close_def)+
    with True ok1 store_ok_temp [OF assms(3), of sha ?fs1 None] show ?thesis by simp
  next
    case False
    obtain fs2 r where k: "keep_file sha dir tmp ?d ?fs1 = (fs2, r)" by (metis surj_pair)
    obtain dup where r: "r = Inr (sha ?d, dup)"
      using keep_file_effect(1) [OF ok1 assms(2,3) _ k] by auto
    have "artifact_close sha dir keepEmpty s = ((fs2, (snd s)\<lparr>fp_closed := True, shasum := sha ?d,
        shasumFilename := join_path dir (sha ?d)\<rparr>), Inr (Some (sha ?d, join_path dir (sha ?d))))"
      using s False k r by (cases s) (simp add: artifact_close_def Let_def del: concat_eq_Nil_conv)
    with assms(5) k r have k: "keep_file sha dir tmp ?d ?fs1 = (fs', r)"
      and res: "res = Some (sha ?d, join_path dir (sha ?d))" by simp_all
    have t: "tmp \<noteq> join_path dir (sha ?d)" using assms(2,3) by (auto simp: temp_name_def)
    note eff = keep_file_effect [OF ok1 assms(2,3) _ k]
    show ?thesis using eff(2-5) res False t by auto
  qed
qed

lemma artifact_kept_once_witness:
  "\<exists>s fs' a'. artifact_writes [''ab'', ''c''] (artifact_new ''x'' ''tmp1'' Map.empty) = (s, Inr ())
     \<and> artifact_close (\<lambda>x. replicate 64 (CHR ''0'')) ''dl'' False s
         = ((fs', a'), Inr (Some (replicate 64 (CHR ''0''), ''dl/'' @ replicate 64 (CHR ''0''))))
     \<and> fs' (''dl/'' @ replicate 64 (CHR ''0'')) = Some ''abc'' \<and> fs' ''tmp1'' = None"
proof -
  let ?sha = "\<lambda>x::string. replicate 64 (CHR ''0'')"
  obtain s where s: "artifact_writes [''ab'', ''c''] (artifact_new ''x'' ''tmp1'' Map.empty) = (s, Inr ())"
    by (simp add: artifact_new_def artifact_write_def Let_def)
  obtain fs' a' res where c: "artifact_close ?sha ''dl'' False s = ((fs', a'), Inr res)"
    using s by (auto simp: artifact_new_def artifact_write_def artifact_close_def keep_file_def join_path_def Let_def)
  have t: "temp_name ''dl'' ''tmp1''" by (simp add: temp_name_def join_path_def)
  have j: "join_path ''dl'' h = ''dl/'' @ h" for h by (simp add: join_path_def)
  have "store_ok ?sha ''dl'' Map.empty" "is_hash (?sha x)" for x
    by (simp_all add: store_ok_def is_hash_def)
  from artifact_kept_once [OF this t s c] c s show ?thesis
    by (simp add: j)
qed

text \<open>An exception raised while an artifact is open in a \<open>with\<close> block disappears: \<open>__exit__\<close> returns
  True, so the block ends as if nothing had happened.\<close>

theorem with_artifact_swallows:
  assumes "store_ok sha dir fs" "\<And>x. is_hash (sha x)" "temp_name dir tmp"
    "body (artifact_new lbl tmp fs) = (s, Inl e)" "artifact_writes ds (artifact_new lbl tmp fs) = (s, Inr ())"
  shows "snd (with_artifact sha dir lbl tmp body fs) = Inr ()"
proof -
  have s: "s = (fs(tmp \<mapsto> concat ds), (snd (artifact_new lbl tmp fs))\<lparr>fp_data := concat ds\<rparr>)"
    using assms(5) artifact_writes_effect [of "snd (artifact_new lbl tmp fs)" "fst (artifact_new lbl tmp fs)" ds]
    by (auto simp: artifact_new_def)
  obtain fs2 r where k: "keep_file sha dir tmp (concat ds) (fs(tmp \<mapsto> concat ds)) = (fs2, r)" by (metis surj_pair)
  have "store_ok sha dir (fs(tmp \<mapsto> concat ds))" using assms(1) store_ok_temp [OF assms(3)] by simp
  from keep_file_effect(1) [OF this assms(2,3) _ k] obtain dup where "r = Inr (sha (concat ds), dup)" by auto
  with k have "\<exists>s2 x. artifact_close sha dir False s = (s2, Inr x)"
    by (simp add: s artifact_close_def Let_def artifact_new_def del: concat_eq_Nil_conv)
  then show ?thesis by (auto simp: with_artifact_def assms(4))
qed

lemma with_artifact_swallows_witness:
  "snd (with_artifact (\<lambda>x. replicate 64 (CHR ''0'')) ''dl'' ''x'' ''tmp1'' (\<lambda>s. (s, Inl KeyError)) Map.empty) = Inr ()"
  by (rule with_artifact_swallows [where s = "artifact_new ''x'' ''tmp1'' Map.empty" and ds = "[]" and e = KeyError])
    (simp_all add: store_ok_def is_hash_def temp_name_def join_path_def)

subsection \<open>The directory over a session\<close>

definition conf_ok :: "recorder_conf \<Rightarrow> bool" where
  "conf_ok conf \<longleftrightarrow> (\<forall>x. is_hash (sha256 conf x))
     \<and> (\<forall>h. is_hash h \<longrightarrow> temp_name (download_path conf) (join_path (ttylog_path conf) h))"

abbreviation stored_ok :: "recorder_conf \<Rightarrow> tty_dir \<Rightarrow> bool" where
  "stored_ok conf \<equiv> store_ok (sha256 conf) (download_path conf)"

definition recorder_ok :: "recorder_conf \<Rightarrow> recorder \<Rightarrow> bool" where
  "recorder_ok conf r \<longleftrightarrow> stored_ok conf (files r)
     \<and> (ttylogOpen r \<longrightarrow> temp_name (download_path conf) (ttylogFile r))
     \<and> (stdinlogOpen r \<longrightarrow> temp_name (download_path conf) (stdinlogFile r))
     \<and> (\<forall>p \<in> set (redirFiles r). temp_name (download_path conf) (fst p))"

lemma on_files_eq [simp]: "on_files f r = (r\<lparr>files := fst (f (files r))\<rparr>, snd (f (files r)))"
  by (simp add: on_files_def split: prod.splits)

lemma tty_write_stored:
  assumes "temp_name (download_path conf) name"
  shows "stored_ok conf (fst (tty_write name dr t d fs)) = stored_ok conf fs"
  using store_ok_append_with [OF _ assms, of _ fs] unfolding tty_write_def
  by (cases "append_with (ttylog_write (int (length d)) dr t d) name fs") auto

lemma sbind_split: "P (sbind m f) \<longleftrightarrow> (\<forall>s e. m = (s, Inl e) \<longrightarrow> P (s, Inl e)) \<and> (\<forall>s x. m = (s, Inr x) \<longrightarrow> P (f s x))"
  by (cases m; cases "snd m") auto

lemma recorder_write_ok: "recorder_ok conf r \<Longrightarrow> recorder_ok conf (fst (recorder_write conf t d r))"
  by (simp add: recorder_write_def Let_def split: sbind_split)
    (auto simp: recorder_ok_def tty_write_stored)

lemma recorder_received_ok: "recorder_ok conf r \<Longrightarrow> recorder_ok conf (fst (recorder_received conf t d r))"
  by (simp add: recorder_received_def Let_def eof_received_def split: sbind_split)
    (auto simp: recorder_ok_def tty_write_stored store_ok_append)

text \<open>The three parts of losing the connection.\<close>

lemma save_stdin_ok:
  assumes "conf_ok conf" "recorder_ok conf r"
  shows "recorder_ok conf (save_stdin conf r) \<and> \<not> stdinlogOpen (save_stdin conf r)
    \<and> redirFiles (save_stdin conf r) = redirFiles r \<and> ttylogOpen (save_stdin conf r) = ttylogOpen r
    \<and> ttylogFile (save_stdin conf r) = ttylogFile r"
proof (cases "stdinlogOpen r")
  case True
  with assms(2) have t: "temp_name (download_path conf) (stdinlogFile r)" "stored_ok conf (files r)"
    by (simp_all add: recorder_ok_def)
  have sha: "is_hash (sha256 conf x)" for x using assms(1) by (simp add: conf_ok_def)
  show ?thesis
  proof (cases "files r (stdinlogFile r)")
    case None
    with True assms(2) show ?thesis by (simp add: save_stdin_def recorder_ok_def)
  next
    case (Some data)
    obtain d x where k: "keep_file (sha256 conf) (download_path conf) (stdinlogFile r) data (files r) = (d, x)" by (metis surj_pair)
    note eff = keep_file_effect [OF t(2) sha t(1) Some k]
    from eff(1) obtain dup where "x = Inr (sha256 conf data, dup)" by auto
    with True Some k eff(2) assms(2) show ?thesis by (simp add: save_stdin_def recorder_ok_def)
  qed
qed (use assms in \<open>simp add: save_stdin_def\<close>)

lemma save_redirect_ok:
  assumes "conf_ok conf" "recorder_ok conf r" "temp_name (download_path conf) (fst rp)"
  shows "recorder_ok conf (save_redirect conf rp r) \<and> stdinlogOpen (save_redirect conf rp r) = stdinlogOpen r
    \<and> ttylogOpen (save_redirect conf rp r) = ttylogOpen r \<and> ttylogFile (save_redirect conf rp r) = ttylogFile r
    \<and> redirFiles (save_redirect conf rp r) = redirFiles r"
proof (cases "files r (fst rp)")
  case None
  with assms(2) show ?thesis by (simp add: save_redirect_def Let_def)
next
  case (Some data)
  have t: "stored_ok conf (files r)" using assms(2) by (simp add: recorder_ok_def)
  have sha: "is_hash (sha256 conf x)" for x using assms(1) by (simp add: conf_ok_def)
  obtain d x where k: "keep_file (sha256 conf) (download_path conf) (fst rp) data (files r) = (d, x)" by (metis surj_pair)
  note eff = keep_file_effect [OF t sha assms(3) Some k]
  from eff(1) obtain dup where x: "x = Inr (sha256 conf data, dup)" by auto
  have "stored_ok conf ((files r)(fst rp := None))" using t store_ok_temp [OF assms(3)] by simp
  with Some k x eff(2) assms(2) show ?thesis by (simp add: save_redirect_def recorder_ok_def Let_def)
qed

lemma save_redirects_ok:
  assumes "conf_ok conf" "recorder_ok conf r" "\<forall>p \<in> set ps. temp_name (download_path conf) (fst p)"
  shows "recorder_ok conf (fold (save_redirect conf) ps r) \<and> stdinlogOpen (fold (save_redirect conf) ps r) = stdinlogOpen r
    \<and> ttylogOpen (fold (save_redirect conf) ps r) = ttylogOpen r
    \<and> ttylogFile (fold (save_redirect conf) ps r) = ttylogFile r"
  using assms(2,3)
proof (induction ps arbitrary: r)
  case (Cons p ps)
  with save_redirect_ok [OF assms(1) Cons.prems(1), of p] show ?case by simp
qed simp

lemma close_recording_stored:
  assumes "conf_ok conf" "stored_ok conf fs" "temp_name (download_path conf) name"
  shows "stored_ok conf (fst (close_recording (sha256 conf) (ttylog_path conf) name t fs))"
proof -
  have h: "temp_name (download_path conf) (join_path (ttylog_path conf) (sha256 conf x))" for x
    using assms(1) by (simp add: conf_ok_def)
  obtain d1 x where a: "append_with (ttylog_close t) name fs = (d1, x)" by (metis surj_pair)
  then have "stored_ok conf d1" using store_ok_append_with [OF a assms(3)] assms(2) by simp
  with assms(3) h show ?thesis
    by (cases x) (simp_all add: close_recording_def a Let_def store_ok_temp ttylog_inputhash_def)
qed

lemma close_log_ok:
  assumes "conf_ok conf" "recorder_ok conf r"
  shows "recorder_ok conf (fst (close_log conf t r))"
proof (cases "ttylog_enabled conf \<and> ttylogOpen r")
  case True
  obtain d x where c: "close_recording (sha256 conf) (ttylog_path conf) (ttylogFile r) t (files r) = (d, x)" by (metis surj_pair)
  have "stored_ok conf d"
    using close_recording_stored [OF assms(1), of "files r" "ttylogFile r" t] assms(2) True c by (simp add: recorder_ok_def)
  with True assms(2) show ?thesis
    by (cases x) (auto simp: close_log_def c recorder_ok_def split: prod.splits)
qed (use assms in \<open>auto simp: close_log_def\<close>)

lemma recorder_lost_ok:
  assumes "conf_ok conf" "recorder_ok conf r"
  shows "recorder_ok conf (fst (recorder_lost conf t r))"
proof -
  note a = save_stdin_ok [OF assms]
  then have "\<forall>p \<in> set (redirFiles (save_stdin conf r)). temp_name (download_path conf) (fst p)"
    by (auto simp: recorder_ok_def)
  with save_redirects_ok [OF assms(1)] a
  have "recorder_ok conf (fold (save_redirect conf) (redirFiles (save_stdin conf r)) (save_stdin conf r))" by blast
  then have "recorder_ok conf ((fold (save_redirect conf) (redirFiles (save_stdin conf r)) (save_stdin conf r))\<lparr>redirFiles := []\<rparr>)"
    by (simp add: recorder_ok_def)
  then show ?thesis unfolding recorder_lost_def Let_def by (rule close_log_ok [OF assms(1)])
qed

subsection \<open>Redirections onto captured files\<close>




















text \<open>
  What that costs: a redirection onto a file that was downloaded has the artifact for its backing file.
  When the session ends the artifact is not there any more under its hash: it is renamed to the hash of
  what it has become, deleted when it has been emptied, and deleted also when nothing was written to it,
  because the file with its hash, itself, exists already.
\<close>

theorem redirect_removes_artifact:
  assumes "redirFiles r = []" "\<not> stdinlogOpen r" "\<not> ttylogOpen r"
    "files r (join_path (download_path conf) (sha256 conf d)) = Some d"
    "e = Redirected (join_path (download_path conf) (sha256 conf d)) url x \<or> e = Emptied (join_path (download_path conf) (sha256 conf d)) url"
  shows "files (foldl (recorder_step conf) r [e, Lost t]) (join_path (download_path conf) (sha256 conf d)) = None"
proof -
  let ?n = "join_path (download_path conf) (sha256 conf d)"
  let ?r1 = "recorder_step conf r e"
  have r1: "redirFiles ?r1 = [(?n, url)]" "\<not> stdinlogOpen ?r1" "\<not> ttylogOpen ?r1" "\<exists>y. files ?r1 ?n = Some y"
    using assms by (auto simp: append_file_def)
  then obtain y where y: "files ?r1 ?n = Some y" by blast
  have "files (save_redirect conf (?n, url) ?r1) ?n = None"
    using y by (auto simp: save_redirect_def keep_file_def Let_def)
  with r1(1-3) show ?thesis
    by (simp add: recorder_lost_def save_stdin_def close_log_def Let_def split del: if_split)
      (simp add: save_redirect_def Let_def split: option.split prod.split sum.split)
qed

text \<open>Losing the connection again, which happens several times when a session ends, changes
  nothing: no file, no log entry.\<close>

theorem lost_twice:
  assumes "conf_ok conf" "recorder_ok conf r" "recorder_lost conf t r = (r', Inr ())"
  shows "recorder_lost conf t' r' = (r', Inr ())"
proof -
  note a = save_stdin_ok [OF assms(1,2)]
  then have p: "\<forall>p \<in> set (redirFiles (save_stdin conf r)). temp_name (download_path conf) (fst p)"
    by (auto simp: recorder_ok_def)
  let ?q = "(fold (save_redirect conf) (redirFiles (save_stdin conf r)) (save_stdin conf r))\<lparr>redirFiles := []\<rparr>"
  have q: "\<not> stdinlogOpen ?q" "redirFiles ?q = []" using save_redirects_ok [OF assms(1) _ p] a by simp_all
  have c: "close_log conf t ?q = (r', Inr ())" using assms(3) by (simp add: recorder_lost_def Let_def)
  have "\<not> stdinlogOpen r'" "redirFiles r' = []" "\<not> (ttylog_enabled conf \<and> ttylogOpen r')"
    using c q by (auto simp: close_log_def split: prod.splits sum.splits if_splits)
  moreover from this have "r'\<lparr>redirFiles := []\<rparr> = r'" by (cases r') simp
  ultimately show ?thesis
    by (cases "ttylog_enabled conf") (simp_all add: recorder_lost_def save_stdin_def close_log_def Let_def)
qed

subsection \<open>Standard input of a command\<close>

text \<open>The pieces within the limit: the first that exceeds it and all behind it are left out.\<close>

fun within_limit :: "nat \<Rightarrow> nat \<Rightarrow> string list \<Rightarrow> string list" where
  "within_limit l n [] = []"
| "within_limit l n (d # ds) = (if l \<noteq> 0 \<and> l < n + length d then [] else d # within_limit l (n + length d) ds)"

lemma within_limit_bound: "l \<noteq> 0 \<Longrightarrow> n \<le> l \<Longrightarrow> n + length (concat (within_limit l n ds)) \<le> l"
  by (induction ds arbitrary: n) (auto simp: add.assoc [symmetric])

lemma over_limit_received:
  assumes "received_limit conf \<noteq> 0" "received_limit conf < bytesReceived r"
  shows "files (foldl (recorder_step conf) r (map (Input t) ds)) = files r
    \<and> terminal_input (foldl (recorder_step conf) r (map (Input t) ds)) = terminal_input r
    \<and> stdinlogOpen (foldl (recorder_step conf) r (map (Input t) ds)) = stdinlogOpen r
    \<and> stdinlogFile (foldl (recorder_step conf) r (map (Input t) ds)) = stdinlogFile r"
  using assms by (induction ds arbitrary: r) (auto simp: recorder_received_def Let_def eof_received_def)

lemma inputs_saved:
  fixes conf r ds
  defines "ps \<equiv> within_limit (received_limit conf) (bytesReceived r) ds"
  assumes "stdinlogOpen r"
  shows "let r' = foldl (recorder_step conf) r (map (Input t) ds) in
    files r' = (if ps = [] then files r else append_file (stdinlogFile r) (concat ps) (files r))
    \<and> terminal_input r' = terminal_input r @ ps \<and> stdinlogOpen r' \<and> stdinlogFile r' = stdinlogFile r"
  using assms(2) unfolding ps_def
proof (induction ds arbitrary: r)
  case (Cons d ds)
  let ?r = "recorder_step conf r (Input t d)"
  show ?case
  proof (cases "received_limit conf \<noteq> 0 \<and> received_limit conf < bytesReceived r + length d")
    case True
    then have e: "?r = eof_received (r\<lparr>bytesReceived := bytesReceived r + length d, recorder_log := recorder_log r @ [Limit_reached]\<rparr>)"
      by (simp add: recorder_received_def Let_def)
    have "files ?r = files r \<and> terminal_input ?r = terminal_input r \<and> stdinlogOpen ?r \<and> stdinlogFile ?r = stdinlogFile r
        \<and> bytesReceived ?r = bytesReceived r + length d"
      unfolding e using Cons.prems by (simp add: eof_received_def)
    with over_limit_received [of conf ?r t ds] True show ?thesis by simp
  next
    case False
    then have e: "?r = r\<lparr>bytesReceived := bytesReceived r + length d, files := append_file (stdinlogFile r) d (files r),
        terminal_input := terminal_input r @ [d]\<rparr>"
      using Cons.prems by (auto simp: recorder_received_def Let_def)
    have "stdinlogOpen ?r" unfolding e using Cons.prems by simp
    note IH = Cons.IH [OF this, unfolded e]
    have w: "within_limit (received_limit conf) (bytesReceived r) (d # ds)
        = d # within_limit (received_limit conf) (bytesReceived r + length d) ds"
      using False by auto
    show ?thesis
      unfolding w using IH
      by (cases "within_limit (received_limit conf) (bytesReceived r + length d) ds = []")
        (simp_all add: e Let_def append_file_def fun_eq_iff del: recorder_step.simps concat_eq_Nil_conv)
  qed
qed simp

text \<open>What is stored stays stored.\<close>

lemma save_redirect_keeps:
  assumes "conf_ok conf" "recorder_ok conf r" "temp_name (download_path conf) (fst rp)" "is_hash h"
    "files r (join_path (download_path conf) h) = Some c"
  shows "files (save_redirect conf rp r) (join_path (download_path conf) h) = Some c"
proof (cases "files r (fst rp)")
  case None
  with assms(5) show ?thesis by (simp add: save_redirect_def Let_def)
next
  case (Some data)
  have ne: "join_path (download_path conf) h \<noteq> fst rp" using assms(3,4) by (auto simp: temp_name_def)
  have t: "stored_ok conf (files r)" using assms(2) by (simp add: recorder_ok_def)
  have sha: "is_hash (sha256 conf x)" for x using assms(1) by (simp add: conf_ok_def)
  obtain d x where k: "keep_file (sha256 conf) (download_path conf) (fst rp) data (files r) = (d, x)" by (metis surj_pair)
  note eff = keep_file_effect [OF t sha assms(3) Some k]
  from eff(1) obtain dup where x: "x = Inr (sha256 conf data, dup)" by auto
  show ?thesis using eff(6) [OF ne assms(5)] Some k x assms(5) ne by (simp add: save_redirect_def Let_def)
qed

lemma save_redirects_keep:
  assumes "conf_ok conf" "recorder_ok conf r" "\<forall>p \<in> set ps. temp_name (download_path conf) (fst p)" "is_hash h"
    "files r (join_path (download_path conf) h) = Some c"
  shows "files (fold (save_redirect conf) ps r) (join_path (download_path conf) h) = Some c"
  using assms(2,3,5)
proof (induction ps arbitrary: r)
  case (Cons p ps)
  with save_redirect_ok [OF assms(1) Cons.prems(1), of p] save_redirect_keeps [OF assms(1) Cons.prems(1) _ assms(4), of p c]
  show ?case by simp
qed simp

lemma close_log_keeps:
  assumes "conf_ok conf" "recorder_ok conf r" "is_hash h"
  shows "files (fst (close_log conf t r)) (join_path (download_path conf) h) = files r (join_path (download_path conf) h)"
proof (cases "ttylog_enabled conf \<and> ttylogOpen r")
  case True
  with assms(2,3) have n: "join_path (download_path conf) h \<noteq> ttylogFile r" by (auto simp: recorder_ok_def temp_name_def)
  have m: "join_path (download_path conf) h \<noteq> join_path (ttylog_path conf) (sha256 conf x)" for x
    using assms(1,3) by (auto simp: conf_ok_def temp_name_def) (metis (full_types))
  obtain d1 x where a: "append_with (ttylog_close t) (ttylogFile r) (files r) = (d1, x)" by (metis surj_pair)
  then have "d1 (join_path (download_path conf) h) = files r (join_path (download_path conf) h)"
    using n by (auto simp: append_with_def Let_def split: sum.splits)
  with a n m True show ?thesis
    by (cases x) (simp_all add: close_log_def close_recording_def Let_def ttylog_inputhash_def)
qed (auto simp: close_log_def)

text \<open>C18: What a single command is sent on its standard input, piece by piece, reaches the command and is
  stored under its hash when the connection is lost, up to the first piece that exceeds the limit on
  received bytes; so never more than the limit is stored.\<close>

theorem stdin_kept:
  assumes "conf_ok conf" "recorder_ok conf r" "stdinlogOpen r" "files r (stdinlogFile r) = None"
    "within_limit (received_limit conf) (bytesReceived r) ds = ps" "ps \<noteq> []"
    "recorder_lost conf t' (foldl (recorder_step conf) r (map (Input t) ds)) = (r', res)"
  shows "(\<exists>c. files r' (join_path (download_path conf) (sha256 conf (concat ps))) = Some c
        \<and> sha256 conf c = sha256 conf (concat ps)
        \<and> (files r (join_path (download_path conf) (sha256 conf (concat ps))) = None \<longrightarrow> c = concat ps))
    \<and> terminal_input (foldl (recorder_step conf) r (map (Input t) ds)) = terminal_input r @ ps
    \<and> (received_limit conf \<noteq> 0 \<longrightarrow> bytesReceived r \<le> received_limit conf
         \<longrightarrow> bytesReceived r + length (concat ps) \<le> received_limit conf)"
proof -
  let ?r1 = "foldl (recorder_step conf) r (map (Input t) ds)" and ?p = "join_path (download_path conf) (sha256 conf (concat ps))"
  have sha: "is_hash (sha256 conf x)" for x using assms(1) by (simp add: conf_ok_def)
  have ok1: "recorder_ok conf ?r1"
    using assms(2) by (induction ds arbitrary: r) (simp_all add: recorder_received_ok)
  have in1: "files ?r1 = (files r)(stdinlogFile r \<mapsto> concat ps)" "terminal_input ?r1 = terminal_input r @ ps"
    "stdinlogOpen ?r1" "stdinlogFile ?r1 = stdinlogFile r"
    using inputs_saved [OF assms(3), where conf = conf and ds = ds and t = t] assms(4-6) by (simp_all add: append_file_def Let_def)
  have t: "temp_name (download_path conf) (stdinlogFile ?r1)" "stored_ok conf (files ?r1)"
    using ok1 in1(3) by (simp_all add: recorder_ok_def)
  have f: "files ?r1 (stdinlogFile ?r1) = Some (concat ps)" by (simp add: in1)
  obtain d x where k: "keep_file (sha256 conf) (download_path conf) (stdinlogFile ?r1) (concat ps) (files ?r1) = (d, x)"
    by (metis surj_pair)
  note eff = keep_file_effect [OF t(2) sha t(1) f k]
  from eff(1) obtain dup where x: "x = Inr (sha256 conf (concat ps), dup)" by auto
  let ?r2 = "save_stdin conf ?r1"
  have "files ?r2 = d" using in1(3) f k x by (simp add: save_stdin_def)
  moreover have "?p \<noteq> stdinlogFile r" using t(1) sha in1(4) unfolding temp_name_def by metis
  ultimately obtain c where c: "files ?r2 ?p = Some c" "sha256 conf c = sha256 conf (concat ps)"
    "files r ?p = None \<longrightarrow> c = concat ps"
    using eff(4) by (auto simp: in1)
  note s = save_stdin_ok [OF assms(1) ok1]
  then have rp: "\<forall>p \<in> set (redirFiles ?r2). temp_name (download_path conf) (fst p)" by (auto simp: recorder_ok_def)
  let ?r3 = "(fold (save_redirect conf) (redirFiles ?r2) ?r2)\<lparr>redirFiles := []\<rparr>"
  have "files ?r3 ?p = Some c"
    using save_redirects_keep [OF assms(1) _ rp sha c(1)] s by simp
  moreover have "recorder_ok conf (fold (save_redirect conf) (redirFiles ?r2) ?r2)"
    using save_redirects_ok [OF assms(1) _ rp] s by blast
  then have "recorder_ok conf ?r3" by (simp add: recorder_ok_def)
  ultimately have "files r' ?p = Some c"
    using close_log_keeps [OF assms(1) _ sha, of ?r3 t'] assms(7) by (simp add: recorder_lost_def Let_def)
  with c in1(2) within_limit_bound [of "received_limit conf" "bytesReceived r" ds] assms(5) show ?thesis by auto
qed

subsection \<open>Recordings of terminal sessions\<close>

text \<open>What a session without a single command leaves in its recording: output, and the input within the limit.\<close>

fun session_record :: "nat \<Rightarrow> nat \<Rightarrow> session_event list \<Rightarrow> tty_event list" where
  "session_record l n [] = []"
| "session_record l n (Output t d # es) = Tty_write TYPE_OUTPUT t d # session_record l n es"
| "session_record l n (Input t d # es) =
     (if l \<noteq> 0 \<and> l < n + length d then [] else [Tty_write TYPE_INPUT t d]) @ session_record l (n + length d) es"
| "session_record l n (e # es) = session_record l n es"

text \<open>The time stamps fit their fields, so nothing raises.\<close>

fun stamp_ok :: "tty_event \<Rightarrow> bool" where
  "stamp_ok e = is_ok (log_event e [])"

lemma stamp_ok_event: "stamp_ok e \<Longrightarrow> \<exists>d'. tty_event name e d = (d', Inr ())"
proof -
  assume "stamp_ok e"
  then obtain c where "log_event e [] = Inr c" by (cases "log_event e []") simp_all
  then obtain s where "pack_header (fst (event_record e)) = Inr s" by (auto simp: log_event_Inr)
  then have "\<exists>c. log_event e f = Inr c" for f by (auto simp: log_event_Inr)
  then show ?thesis by (auto simp: tty_event_def append_with_def Let_def split: sum.splits) (metis sum.simps(4))
qed

lemma close_recording_succeeds:
  assumes "stamp_ok (Tty_close t)"
  shows "\<exists>d' h dup. close_recording sha path name t d = (d', Inr (h, dup))"
proof -
  obtain d1 where "append_with (ttylog_close t) name d = (d1, Inr ())"
    using stamp_ok_event [OF assms, of name d] by (auto simp: tty_event_def)
  then show ?thesis by (auto simp: close_recording_def Let_def)
qed

definition logging :: "recorder_conf \<Rightarrow> recorder \<Rightarrow> bool" where
  "logging conf r \<longleftrightarrow> ttylog_enabled conf \<and> ttylogOpen r \<and> \<not> stdinlogOpen r"

fun plain_event :: "session_event \<Rightarrow> bool" where
  "plain_event (Output _ _) \<longleftrightarrow> True"
| "plain_event (Input _ _) \<longleftrightarrow> True"
| "plain_event _ \<longleftrightarrow> False"

lemma session_recorded_run:
  assumes "logging conf r" "records (files r) (ttylogFile r) rs" "\<forall>e \<in> set es. plain_event e"
    "\<forall>e \<in> set (session_record (received_limit conf) (bytesReceived r) es). stamp_ok e"
  shows "let r' = foldl (recorder_step conf) r es in
    logging conf r' \<and> ttylogFile r' = ttylogFile r \<and> redirFiles r' = redirFiles r
    \<and> records (files r') (ttylogFile r) (rs @ session_record (received_limit conf) (bytesReceived r) es)
    \<and> (\<forall>n. n \<noteq> ttylogFile r \<longrightarrow> files r' n = files r n)"
  using assms
proof (induction es arbitrary: r rs)
  case (Cons e es)
  show ?case
  proof (cases e)
    case (Output t d)
    with Cons.prems obtain d' where d': "tty_event (ttylogFile r) (Tty_write TYPE_OUTPUT t d) (files r) = (d', Inr ())"
      using stamp_ok_event by fastforce
    note rec = tty_event_records [OF Cons.prems(2) d']
    let ?r = "recorder_step conf r (Output t d)"
    have e: "?r = r\<lparr>bytesSent := bytesSent r + length d, files := d', ttylogSize := ttylogSize r + length d,
        written_out := written_out r @ [d]\<rparr>"
      using Cons.prems(1) d' by (simp add: recorder_write_def logging_def tty_event_simps Let_def)
    have "logging conf ?r" unfolding e using Cons.prems(1) by (simp add: logging_def)
    moreover have "records (files ?r) (ttylogFile ?r) (rs @ [Tty_write TYPE_OUTPUT t d])" unfolding e using rec by simp
    ultimately show ?thesis
      using Cons.IH [of ?r "rs @ [Tty_write TYPE_OUTPUT t d]"] Cons.prems(3,4) rec Output
      unfolding e by (simp add: e Let_def del: recorder_step.simps)
  next
    case (Input t d)
    let ?r = "recorder_step conf r (Input t d)"
    show ?thesis
    proof (cases "received_limit conf \<noteq> 0 \<and> received_limit conf < bytesReceived r + length d")
      case True
      then have e: "?r = eof_received (r\<lparr>bytesReceived := bytesReceived r + length d, recorder_log := recorder_log r @ [Limit_reached]\<rparr>)"
        by (simp add: recorder_received_def Let_def)
      have "logging conf ?r" unfolding e using Cons.prems(1) by (simp add: logging_def eof_received_def)
      moreover have "records (files ?r) (ttylogFile ?r) rs" unfolding e using Cons.prems(2) by (simp add: eof_received_def)
      ultimately show ?thesis
        using Cons.IH [of ?r rs] Cons.prems(3,4) True Input unfolding e by (simp add: e Let_def eof_received_def del: recorder_step.simps)
    next
      case False
      with Input Cons.prems have "stamp_ok (Tty_write TYPE_INPUT t d)" by (auto simp del: stamp_ok.simps)
      then obtain d' where d': "tty_event (ttylogFile r) (Tty_write TYPE_INPUT t d) (files r) = (d', Inr ())"
        using stamp_ok_event by blast
      note rec = tty_event_records [OF Cons.prems(2) d']
      have e: "?r = r\<lparr>bytesReceived := bytesReceived r + length d, files := d', terminal_input := terminal_input r @ [d]\<rparr>"
        using Cons.prems(1) d' False by (auto simp: recorder_received_def logging_def tty_event_simps Let_def)
      have "logging conf ?r" unfolding e using Cons.prems(1) by (simp add: logging_def)
      moreover have "records (files ?r) (ttylogFile ?r) (rs @ [Tty_write TYPE_INPUT t d])" unfolding e using rec by simp
      ultimately show ?thesis
        using Cons.IH [of ?r "rs @ [Tty_write TYPE_INPUT t d]"] Cons.prems(3,4) rec Input False
        unfolding e by (auto simp: e Let_def simp del: recorder_step.simps)
    qed
  qed (use Cons.prems in simp_all)
qed (simp add: Let_def)

text \<open>C19: A terminal session is recorded completely: when the connection is lost, the recording, named
  after the hash of what was typed within the limit, holds its opening, every output and every such
  input in order, and its end; unless there is one with the same name already, then it is removed.\<close>

theorem terminal_session_recorded:
  assumes "ttylog_enabled conf" "recorder_made conf stem now (recorder_new Interactive fs) = (r, Inr ())"
    "fs (ttylogFile r) = None" "\<forall>e \<in> set es. plain_event e" "session_record (received_limit conf) 0 es = rs"
    "\<forall>e \<in> set rs. stamp_ok e" "recorder_lost conf t (foldl (recorder_step conf) r es) = (r', Inr ())"
    "sha256 conf (typed_bytes (Tty_open now # rs)) = h" "join_path (ttylog_path conf) h \<noteq> ttylogFile r"
  shows "(fs (join_path (ttylog_path conf) h) = None \<longrightarrow>
      records (files r') (join_path (ttylog_path conf) h) (Tty_open now # rs @ [Tty_close t]))
    \<and> (fs (join_path (ttylog_path conf) h) \<noteq> None \<longrightarrow> files r' (join_path (ttylog_path conf) h) = fs (join_path (ttylog_path conf) h))
    \<and> files r' (ttylogFile r) = None \<and> \<not> ttylogOpen r'"
proof -
  let ?name = "ttylog_path conf @ ''/'' @ stem @ ''i.log''"
  obtain d x where o: "tty_open ?name now fs = (d, x)" by (metis surj_pair)
  then have r: "x = Inr ()" "ttylogFile r = ?name" "files r = d" "ttylogOpen r" "\<not> stdinlogOpen r" "redirFiles r = []"
      "bytesReceived r = 0"
    using assms(1,2) by (cases x; auto simp: recorder_made_def recorder_new_def kind_letter_def Let_def)+
  have rec: "records d ?name [Tty_open now] \<and> (\<forall>n. n \<noteq> ?name \<longrightarrow> d n = fs n)"
    using tty_open_records [of fs ?name now d] o r(1,2) assms(3) by (simp add: tty_event_simps)
  let ?r1 = "foldl (recorder_step conf) r es"
  have run: "logging conf ?r1" "ttylogFile ?r1 = ?name" "redirFiles ?r1 = []"
      "records (files ?r1) ?name (Tty_open now # rs)" "\<And>n. n \<noteq> ?name \<Longrightarrow> files ?r1 n = fs n"
    using session_recorded_run [of conf r "[Tty_open now]" es] assms(1,4-6) r rec by (simp_all add: logging_def Let_def)
  have same: "?r1\<lparr>redirFiles := []\<rparr> = ?r1" using run(3) by (cases ?r1) simp
  obtain d' h' dup where c: "close_recording (sha256 conf) (ttylog_path conf) ?name t (files ?r1) = (d', Inr (h', dup))"
      and r': "files r' = d'" "\<not> ttylogOpen r'"
    using assms(7) run(1-3) same
    by (auto simp: recorder_lost_def save_stdin_def close_log_def logging_def Let_def split: prod.splits sum.splits)
  from close_recording_records [OF run(4) c] assms(8,9) r(2) run(5)
  show ?thesis by (auto simp: r')
qed

definition sample_conf :: recorder_conf where
  "sample_conf = \<lparr>sha256 = (\<lambda>x. replicate 64 (CHR ''0'')), ttylog_path = ''var/tty'', download_path = ''var/dl'',
     ttylog_enabled = True, received_limit = 4\<rparr>"

lemma sample_conf_ok: "conf_ok sample_conf"
  by (simp add: conf_ok_def sample_conf_def is_hash_def temp_name_def join_path_def)

lemma sample_recorder_ok:
  "recorder_ok sample_conf (recorder_new k Map.empty)"
  "recorder_ok sample_conf ((recorder_new k Map.empty)\<lparr>stdinlogOpen := True, stdinlogFile := ''tmp''\<rparr>)"
  by (simp_all add: recorder_ok_def recorder_new_def store_ok_def temp_name_def join_path_def sample_conf_def)


lemma lost_twice_witness:
  "\<exists>r'. recorder_lost sample_conf 5 ((recorder_new (Exec ''cat'') Map.empty)\<lparr>stdinlogOpen := True, stdinlogFile := ''tmp''\<rparr>)
       = (r', Inr ()) \<and> recorder_lost sample_conf 6 r' = (r', Inr ())"
proof -
  let ?r = "(recorder_new (Exec ''cat'') Map.empty)\<lparr>stdinlogOpen := True, stdinlogFile := ''tmp''\<rparr>"
  obtain r' where r': "recorder_lost sample_conf 5 ?r = (r', Inr ())"
    by (simp add: recorder_lost_def save_stdin_def close_log_def recorder_new_def Let_def)
  from r' lost_twice [OF sample_conf_ok sample_recorder_ok(2) r'] show ?thesis by blast
qed

lemma stdin_kept_witness:
  "\<exists>r' res. recorder_lost sample_conf 9 (foldl (recorder_step sample_conf)
        ((recorder_new (Exec ''cat'') Map.empty)\<lparr>stdinlogOpen := True, stdinlogFile := ''tmp''\<rparr>)
        (map (Input 5) [''ab'', ''c'', ''def''])) = (r', res)
     \<and> files r' (join_path ''var/dl'' (replicate 64 (CHR ''0''))) = Some ''abc''"
proof -
  let ?r = "(recorder_new (Exec ''cat'') Map.empty)\<lparr>stdinlogOpen := True, stdinlogFile := ''tmp''\<rparr>"
  obtain r' res where r': "recorder_lost sample_conf 9 (foldl (recorder_step sample_conf) ?r (map (Input 5) [''ab'', ''c'', ''def'']))
      = (r', res)" by (metis surj_pair)
  have "within_limit (received_limit sample_conf) (bytesReceived ?r) [''ab'', ''c'', ''def''] = [''ab'', ''c'']"
    by (simp add: sample_conf_def recorder_new_def)
  from stdin_kept [OF sample_conf_ok sample_recorder_ok(2) _ _ this _ r']
  have "files r' (join_path ''var/dl'' (replicate 64 (CHR ''0''))) = Some ''abc''"
    by (auto simp: recorder_new_def sample_conf_def)
  with r' show ?thesis by blast
qed

lemma sample_stamps: "stamp_ok (Tty_open 1)" "stamp_ok (Tty_write TYPE_OUTPUT 1 ''$ '')" "stamp_ok (Tty_write TYPE_INPUT 2 ''ls'')"
    "stamp_ok (Tty_close 3)"
  by (simp_all add: ttylog_open_def ttylog_write_def ttylog_close_def pack_header_def pack_i_def pack_L_def
      stamp_header_def py_int_def tty_consts)

lemma terminal_session_recorded_witness:
  "\<exists>r r'. recorder_made sample_conf ''x'' 1 (recorder_new Interactive Map.empty) = (r, Inr ())
     \<and> recorder_lost sample_conf 3 (foldl (recorder_step sample_conf) r [Output 1 ''$ '', Input 2 ''ls'']) = (r', Inr ())
     \<and> records (files r') (join_path ''var/tty'' (replicate 64 (CHR ''0'')))
         [Tty_open 1, Tty_write TYPE_OUTPUT 1 ''$ '', Tty_write TYPE_INPUT 2 ''ls'', Tty_close 3]"
proof -
  let ?es = "[Output 1 ''$ '', Input 2 ''ls'']" and ?fs = "Map.empty :: tty_dir"
  obtain d where "tty_event ''var/tty/xi.log'' (Tty_open 1) ?fs = (d, Inr ())" using stamp_ok_event sample_stamps(1) by blast
  then obtain r where r: "recorder_made sample_conf ''x'' 1 (recorder_new Interactive ?fs) = (r, Inr ())"
    and r2: "r = (recorder_new Interactive ?fs)\<lparr>ttylogFile := ''var/tty/xi.log'', files := d, ttylogOpen := True,
        stdinlogFile := ''var/dl/x-stdin.log''\<rparr>"
    by (simp add: recorder_made_def recorder_new_def sample_conf_def kind_letter_def tty_event_simps Let_def)
  have rs: "session_record (received_limit sample_conf) 0 ?es = [Tty_write TYPE_OUTPUT 1 ''$ '', Tty_write TYPE_INPUT 2 ''ls'']"
    by (simp add: sample_conf_def)
  have open_d: "records d ''var/tty/xi.log'' [Tty_open 1]"
    using tty_open_records [of ?fs] \<open>tty_event _ _ _ = _\<close> by fastforce
  have run: "logging sample_conf (foldl (recorder_step sample_conf) r ?es)"
      "ttylogFile (foldl (recorder_step sample_conf) r ?es) = ''var/tty/xi.log''"
      "redirFiles (foldl (recorder_step sample_conf) r ?es) = []"
    using session_recorded_run [of sample_conf r "[Tty_open 1]" ?es] open_d sample_stamps
    by (simp_all add: r2 logging_def recorder_new_def rs Let_def sample_conf_def del: stamp_ok.simps foldl.simps)
  obtain d' h dup where "close_recording (sha256 sample_conf) (ttylog_path sample_conf) ''var/tty/xi.log'' 3
      (files (foldl (recorder_step sample_conf) r ?es)) = (d', Inr (h, dup))"
    using close_recording_succeeds [OF sample_stamps(4)] by blast
  then obtain r' where r': "recorder_lost sample_conf 3 (foldl (recorder_step sample_conf) r ?es) = (r', Inr ())"
    using run by (auto simp: recorder_lost_def save_stdin_def close_log_def logging_def Let_def simp del: foldl.simps)
  have n: "ttylogFile r = ''var/tty/xi.log''" by (simp add: r2)
  have zeros: "replicate 64 (CHR ''0'') \<noteq> ''xi.log''"
  proof
    assume "replicate 64 (CHR ''0'') = ''xi.log''"
    then have "length (replicate 64 (CHR ''0'')) = length ''xi.log''" by simp
    then show False by simp
  qed
  have "ttylog_enabled sample_conf" "ttylog_path sample_conf = ''var/tty''" "sha256 sample_conf x = replicate 64 (CHR ''0'')" for x
    by (simp_all add: sample_conf_def)
  with terminal_session_recorded [OF _ r _ _ rs _ r' refl] sample_stamps
  have "records (files r') (join_path ''var/tty'' (replicate 64 (CHR ''0'')))
      ([Tty_open 1] @ [Tty_write TYPE_OUTPUT 1 ''$ '', Tty_write TYPE_INPUT 2 ''ls''] @ [Tty_close 3])"
    by (simp add: n join_path_def zeros del: stamp_ok.simps)
  with r r' show ?thesis by auto
qed

end
