(* ===== verification/Prelude_Text.thy ===== *)
theory Prelude_Text
  imports Prelude_Utf8
begin

section \<open>Reading numbers\<close>

text \<open>
  \<open>int(s)\<close> in base ten: white space around, a sign, ASCII digits with single underscores between
  them, at most 4300 of them.
\<close>

abbreviation crlf_text :: string where "crlf_text \<equiv> [CHR 0x0D, CHR 0x0A]"

definition strip_space :: "string \<Rightarrow> string" where
  "strip_space s = strip_chars is_space s"

definition split_sign :: "string \<Rightarrow> int \<times> string" where
  "split_sign s =
     (case s of
        c # r \<Rightarrow> if c = CHR ''-'' then (- 1, r) else if c = CHR ''+'' then (1, r) else (1, s)
      | [] \<Rightarrow> (1, []))"

definition digit_groups :: "string \<Rightarrow> bool" where
  "digit_groups d \<longleftrightarrow> list_all py_isdigit (split_on (CHR ''_'') d)"

definition int_text :: "string \<Rightarrow> int res" where
  "int_text s =
     (let (sign, d) = split_sign (strip_space s); ds = filter (\<lambda>c. c \<noteq> CHR ''_'') d in
      if digit_groups d \<and> length ds \<le> 4300 then Inr (sign * int (nat_of_digits 0 ds)) else Inl ValueError)"

lemma digit_code: "d < (10 :: nat) \<Longrightarrow> is_digit (char_of (48 + d))"
  by (simp add: is_digit_def Let_def)

lemma digits_all: "list_all is_digit (digits_of_nat n)"
proof (induction n rule: digits_of_nat.induct)
  case (1 n)
  then show ?case
    by (cases "n < 10") (simp_all add: digits_of_nat.simps [of n] digit_code)
qed

lemma digit_not:
  assumes "is_digit c"
  shows "c \<noteq> CHR ''_''" "c \<noteq> CHR ''-''" "c \<noteq> CHR ''+''" "\<not> is_space c"
  using assms by (auto simp: is_digit_def is_space_def Let_def)

lemma dropWhile_none: "xs = [] \<or> \<not> P (hd xs) \<Longrightarrow> dropWhile P xs = xs"
  by (cases xs) simp_all

lemma strip_none: "xs = [] \<or> \<not> P (hd xs) \<and> \<not> P (last xs) \<Longrightarrow> strip_chars P xs = xs"
  by (auto simp: strip_chars_def lstrip_chars_def rstrip_chars_def dropWhile_none hd_rev)

lemma length_digits: "n < 10 ^ k \<Longrightarrow> 0 < k \<Longrightarrow> length (digits_of_nat n) \<le> k"
proof (induction n arbitrary: k rule: digits_of_nat.induct)
  case (1 n)
  show ?case
  proof (cases "n < 10")
    case True
    with 1(3) show ?thesis by (simp add: digits_of_nat.simps [of n])
  next
    case False
    with 1(2,3) obtain j where k: "k = Suc j" "0 < j" by (cases k; cases "k - 1"; simp)
    with 1(2) have "n div 10 < 10 ^ j" by (simp add: less_mult_imp_div_less mult.commute)
    from 1(1) [OF False this k(2)] False k(1) show ?thesis by (simp add: digits_of_nat.simps [of n])
  qed
qed

text \<open>What \<open>str\<close> writes is read back.\<close>

lemma int_text_digits:
  assumes "n < 10 ^ 4300"
  shows "int_text (digits_of_nat n) = Inr (int n)"
proof -
  let ?d = "digits_of_nat n"
  have all: "list_all is_digit ?d" by (rule digits_all)
  then have hl: "is_digit (hd ?d)" "is_digit (last ?d)" by (simp_all add: list_all_iff)
  have "strip_space ?d = ?d" unfolding strip_space_def using digit_not(4) hl by (intro strip_none) simp
  moreover have "split_sign ?d = (1, ?d)" using hl(1) digit_not by (cases ?d) (auto simp: split_sign_def)
  moreover have "filter (\<lambda>c. c \<noteq> CHR ''_'') ?d = ?d" using all digit_not(1) by (auto simp: list_all_iff intro: filter_True)
  moreover have "CHR ''_'' \<notin> set ?d" using all digit_not(1) by (auto simp: list_all_iff)
  then have "digit_groups ?d" using all by (simp add: digit_groups_def split_on_no_sep py_isdigit_def)
  moreover have "length ?d \<le> 4300" using length_digits [OF assms] by simp
  ultimately show ?thesis by (simp add: int_text_def Let_def)
qed

lemma int_text_small: "n < 1000000000 \<Longrightarrow> int_text (digits_of_nat n) = Inr (int n)"
proof (rule int_text_digits)
  assume "n < 1000000000"
  also have "(1000000000 :: nat) = 10 ^ 9" by simp
  also have "(10 :: nat) ^ 9 \<le> 10 ^ 4300" by (rule power_increasing) simp_all
  finally show "n < 10 ^ 4300" .
qed

end
