(* ===== verification/Fingerprint.thy ===== *)
theory Fingerprint
  imports Prelude_Text "HOL-Library.List_Lexorder" "HOL-Library.Char_ord" "HOL-Library.Multiset"
begin

section \<open>Fingerprints of forwarded traffic\<close>

text \<open>
  Model of \<open>core/fingerprint.py\<close>: the parsers of a TLS Client Hello and of an HTTP request, and the
  JA4 and JA4H fingerprints made of what they find, with the tables and \<open>sha_encode\<close> of
  \<open>vendor/ja4/common.py\<close>. The parsers catch every exception and give None, so a read past the end is
  None here. SHA-256, as hexadecimal text, is a parameter.
\<close>

subsection \<open>TLS\<close>

definition GREASE_VALUES :: "nat list" where
  "GREASE_VALUES = [0x0a0a, 0x1a1a, 0x2a2a, 0x3a3a, 0x4a4a, 0x5a5a, 0x6a6a, 0x7a7a,
     0x8a8a, 0x9a9a, 0xaaaa, 0xbaba, 0xcaca, 0xdada, 0xeaea, 0xfafa]"

definition TLS_VERSION_MAP :: "(nat \<times> string) list" where
  "TLS_VERSION_MAP = [(0x0002, ''s2''), (0x0300, ''s3''), (0x0301, ''10''), (0x0302, ''11''), (0x0303, ''12''), (0x0304, ''13'')]"

record tls_hello =
  tls_version :: nat
  ciphers :: "nat list"
  extensions :: "nat list"
  has_sni :: bool
  alpn :: "string option"
  signature_algorithms :: "nat list option"

text \<open>\<open>struct.unpack('!H', data[i:i + 2])[0]\<close> and \<open>data[i]\<close>.\<close>

definition u16 :: "string \<Rightarrow> nat \<Rightarrow> nat option" where
  "u16 data i = (let s = take 2 (drop i data) in if length s = 2 then Some (unpack_be s) else None)"

definition byte_at :: "string \<Rightarrow> nat \<Rightarrow> nat option" where
  "byte_at data i = (if i < length data then Some (of_char (data ! i)) else None)"

text \<open>\<open>for i in range(0, n, 2)\<close> over 16-bit numbers.\<close>

definition even_range :: "nat \<Rightarrow> nat list" where
  "even_range n = map (\<lambda>k. 2 * k) [0..<(n + 1) div 2]"

fun all_some :: "'a option list \<Rightarrow> 'a list option" where
  "all_some [] = Some []"
| "all_some (None # _) = None"
| "all_some (Some x # xs) = map_option ((#) x) (all_some xs)"

definition read_ciphers :: "string \<Rightarrow> nat \<Rightarrow> nat \<Rightarrow> nat list option" where
  "read_ciphers data offset n = all_some (map (\<lambda>i. u16 data (offset + i)) (even_range n))"

definition is_ascii_char :: "char \<Rightarrow> bool" where
  "is_ascii_char c \<longleftrightarrow> (of_char c :: nat) < 128"

text \<open>The first protocol name of the ALPN extension, or what was found before.\<close>

definition read_alpn :: "string \<Rightarrow> nat \<Rightarrow> string option \<Rightarrow> string option option" where
  "read_alpn data offset old =
     (case u16 data offset of
        None \<Rightarrow> None
      | Some n \<Rightarrow>
          if 0 < n \<and> offset + 2 + n \<le> length data then
            (let d = take n (drop (offset + 2) data) in
             if 1 < length d then
               (let m = of_char (d ! 0) in
                if 0 < m \<and> 1 + m \<le> length d then Some (Some (filter is_ascii_char (take m (drop 1 d)))) else Some old)
             else Some old)
          else Some old)"

definition read_sig_algs :: "string \<Rightarrow> nat \<Rightarrow> nat list option \<Rightarrow> nat list option option" where
  "read_sig_algs data offset old =
     (case u16 data offset of
        None \<Rightarrow> None
      | Some n \<Rightarrow>
          if 0 < n \<and> offset + 2 + n \<le> length data then
            map_option Some (all_some (map (\<lambda>i. u16 data (offset + 2 + i))
              (filter (\<lambda>i. offset + 2 + i + 2 \<le> length data) (even_range n))))
          else Some old)"

text \<open>The loop over the extensions; it ends at the first that does not fit.\<close>

function read_extensions :: "string \<Rightarrow> nat \<Rightarrow> nat \<Rightarrow> tls_hello \<Rightarrow> tls_hello option" where
  "read_extensions data ext_end offset h =
     (if offset < ext_end \<and> offset + 4 \<le> length data then
        (case (u16 data offset, u16 data (offset + 2)) of
           (Some ext_type, Some ext_length) \<Rightarrow>
             if length data < offset + 4 + ext_length then Some h
             else
               let h1 = h\<lparr>extensions := extensions h @ [ext_type]\<rparr>; o4 = offset + 4 in
               if ext_type = 0 then read_extensions data ext_end (o4 + ext_length) (h1\<lparr>has_sni := True\<rparr>)
               else if ext_type = 0x0010 \<and> 2 < ext_length then
                 (case read_alpn data o4 (alpn h1) of
                    None \<Rightarrow> None
                  | Some a \<Rightarrow> read_extensions data ext_end (o4 + ext_length) (h1\<lparr>alpn := a\<rparr>))
               else if ext_type = 0x000d \<and> 2 < ext_length then
                 (case read_sig_algs data o4 (signature_algorithms h1) of
                    None \<Rightarrow> None
                  | Some a \<Rightarrow> read_extensions data ext_end (o4 + ext_length) (h1\<lparr>signature_algorithms := a\<rparr>))
               else read_extensions data ext_end (o4 + ext_length) h1
         | _ \<Rightarrow> None)
      else Some h)"
  by pat_completeness auto
termination by (relation "measure (\<lambda>(data, _, offset, _). length data - offset)") auto

declare read_extensions.simps [simp del]

text \<open>The parts behind the session id, each at its offset.\<close>

definition hello_extensions :: "string \<Rightarrow> nat \<Rightarrow> nat \<Rightarrow> nat list \<Rightarrow> tls_hello option" where
  "hello_extensions data offset version cs =
     (if length data < offset + 2 then None
      else Option.bind (u16 data offset) (\<lambda>n.
        read_extensions data (offset + 2 + n) (offset + 2)
          \<lparr>tls_version = version, ciphers = cs, extensions = [], has_sni = False, alpn = None,
           signature_algorithms = None\<rparr>))"

definition hello_compression :: "string \<Rightarrow> nat \<Rightarrow> nat \<Rightarrow> nat list \<Rightarrow> tls_hello option" where
  "hello_compression data offset version cs =
     (if length data < offset + 1 then None
      else Option.bind (byte_at data offset) (\<lambda>n. hello_extensions data (offset + 1 + n) version cs))"

definition hello_suites :: "string \<Rightarrow> nat \<Rightarrow> nat \<Rightarrow> tls_hello option" where
  "hello_suites data offset version =
     (if length data < offset + 2 then None
      else Option.bind (u16 data offset) (\<lambda>n.
        if length data < offset + 2 + n then None
        else Option.bind (read_ciphers data (offset + 2) n) (\<lambda>cs.
          hello_compression data (offset + 2 + n) version cs)))"

definition parse_tls_client_hello :: "string \<Rightarrow> tls_hello option" where
  "parse_tls_client_hello data =
     (if length data < 43 then None
      else if byte_at data 0 \<noteq> Some 0x16 then None
      else if byte_at data 5 \<noteq> Some 0x01 then None
      else if length data < 9 + 35 then None
      else
        Option.bind (u16 data 9) (\<lambda>version.
        Option.bind (byte_at data 43) (\<lambda>session_id_length.
          hello_suites data (44 + session_id_length) version)))"

subsection \<open>JA4\<close>

definition hex04 :: "nat \<Rightarrow> string" where
  "hex04 n = (let h = hex_of_nat n in replicate (4 - length h) (CHR ''0'') @ h)"

definition dec02 :: "nat \<Rightarrow> string" where
  "dec02 n = (let d = digits_of_nat n in replicate (2 - length d) (CHR ''0'') @ d)"

definition sha_encode :: "(string \<Rightarrow> string) \<Rightarrow> string \<Rightarrow> string" where
  "sha_encode sha s = take 12 (sha s)"

definition no_grease :: "nat list \<Rightarrow> nat list" where
  "no_grease xs = filter (\<lambda>x. x \<notin> set GREASE_VALUES) xs"

definition zero_hash :: string where "zero_hash = ''000000000000''"

definition alpn_value :: "string option \<Rightarrow> string" where
  "alpn_value a =
     (case a of
        None \<Rightarrow> ''00''
      | Some s \<Rightarrow> if s = [] then ''00'' else if 2 < length s then [hd s, last s] else s)"

definition generate_ja4 :: "(string \<Rightarrow> string) \<Rightarrow> bool \<Rightarrow> tls_hello \<Rightarrow> string" where
  "generate_ja4 sha use_quic h =
     (let version = (case map_of TLS_VERSION_MAP (tls_version h) of None \<Rightarrow> ''00'' | Some v \<Rightarrow> v);
          fc = no_grease (ciphers h); fe = no_grease (extensions h);
          sc = sort (map hex04 fc); se = sort (map hex04 fe);
          cipher_hash = (if sc = [] then zero_hash else sha_encode sha (join_with '','' sc));
          ext_string = (case signature_algorithms h of
              Some (s # ss) \<Rightarrow> join_with '','' se @ ''_'' @ join_with '','' (map hex04 (s # ss))
            | _ \<Rightarrow> join_with '','' se);
          ext_hash = (if se = [] then zero_hash else sha_encode sha ext_string)
      in (if use_quic then ''q'' else ''t'') @ version @ (if has_sni h then ''d'' else ''i'')
         @ dec02 (min (length fc) 99) @ dec02 (min (length fe) 99) @ alpn_value (alpn h)
         @ ''_'' @ cipher_hash @ ''_'' @ ext_hash)"

subsection \<open>HTTP\<close>

record http_request =
  http_method :: string
  http_version :: string
  headers :: "string list"
  cookies :: "string list option"
  referer :: "string option"
  accept_language :: "string option"

definition read_cookies :: "string \<Rightarrow> string list option" where
  "read_cookies v =
     (let names = filter (\<lambda>n. n \<noteq> []) (map (\<lambda>c. strip_space (hd (split_on (CHR ''='') c))) (split_on (CHR '';'') v)) in
      if names = [] then None else Some names)"

definition read_header :: "http_request \<Rightarrow> string \<Rightarrow> http_request" where
  "read_header r line =
     (if CHR '':'' \<notin> set line then r
      else
        let name = strip_space (takeWhile (\<lambda>c. c \<noteq> CHR '':'') line);
            val = strip_space (drop 1 (dropWhile (\<lambda>c. c \<noteq> CHR '':'') line));
            r1 = r\<lparr>headers := headers r @ [name]\<rparr>
        in if py_lower name = ''cookie'' then r1\<lparr>cookies := read_cookies val\<rparr>
           else if py_lower name = ''referer'' then r1\<lparr>referer := Some val\<rparr>
           else if py_lower name = ''accept-language'' then r1\<lparr>accept_language := Some val\<rparr>
           else r1)"

definition parse_http_request :: "string \<Rightarrow> http_request option" where
  "parse_http_request data =
     (let lines = split_str [CHR 0x0D, CHR 0x0A] (filter is_ascii_char data) in
      case split_space is_space [] (hd lines) of
        m # _ # v # _ \<Rightarrow>
          Some (foldl read_header
            \<lparr>http_method = m, http_version = (if starts_with v ''HTTP/'' then drop 5 v else ''1.1''), headers = [],
             cookies = None, referer = None, accept_language = None\<rparr> (tl lines))
      | _ \<Rightarrow> None)"

subsection \<open>JA4H\<close>

definition version_digits :: "string \<Rightarrow> string" where
  "version_digits v =
     (if v = ''2.0'' then ''20'' else if v = ''1.1'' then ''11'' else if v = ''1.0'' then ''10'' else ''11'')"

definition language_code :: "string option \<Rightarrow> string" where
  "language_code a =
     (case a of
        None \<Rightarrow> ''0000''
      | Some s \<Rightarrow>
          if s = [] then ''0000''
          else let lang = take 4 (hd (split_on (CHR '','') (py_lower
                 (map (\<lambda>c. if c = CHR '';'' then CHR '','' else c) (filter (\<lambda>c. c \<noteq> CHR ''-'') s)))))
               in lang @ replicate (4 - length lang) (CHR ''0''))"

definition generate_ja4h :: "(string \<Rightarrow> string) \<Rightarrow> http_request \<Rightarrow> string" where
  "generate_ja4h sha r =
     (let fh = filter (\<lambda>h. py_lower h \<notin> {''cookie'', ''referer''} \<and> h \<noteq> []) (headers r);
          sh = sort (map py_lower fh);
          header_hash = (if sh = [] then zero_hash else sha_encode sha (join_with '','' sh));
          cookie_hash = (case cookies r of
              Some (c # cs) \<Rightarrow> sha_encode sha (join_with '','' (sort (map py_lower (c # cs))))
            | _ \<Rightarrow> zero_hash)
      in take 2 (py_lower (http_method r)) @ version_digits (http_version r)
         @ (case cookies r of Some (_ # _) \<Rightarrow> ''c'' | _ \<Rightarrow> ''n'')
         @ (case referer r of Some (_ # _) \<Rightarrow> ''r'' | _ \<Rightarrow> ''n'')
         @ dec02 (min (length fh) 99) @ language_code (accept_language r)
         @ ''_'' @ header_hash @ ''_'' @ cookie_hash @ ''_'' @ zero_hash)"

end
