(* ===== verification/Fingerprint_Props.thy ===== *)
theory Fingerprint_Props
  imports Fingerprint
begin

section \<open>Properties of the fingerprints\<close>

text \<open>
  JA4 does not depend on the order of cipher suites and extensions nor on GREASE values, JA4H not on
  the order and the case of the header names; the parser of a Client Hello gives back what was
  encoded, and of a truncated one the extensions that fit.
\<close>

subsection \<open>What the fingerprints do not depend on\<close>

lemma sort_mset: "mset xs = mset ys \<Longrightarrow> sort xs = sort ys"
  by (metis sorted_list_of_multiset_mset)

lemma mset_same_length: "mset xs = mset ys \<Longrightarrow> length xs = length ys"
  by (metis size_mset)

lemma sort_hex: "mset xs = mset ys \<Longrightarrow> sort (map hex04 xs) = sort (map hex04 ys)"
  by (rule sort_mset) simp

text \<open>C39: The JA4 fingerprint is the same for clients that send the same cipher suites and extensions
  in another order, with other or without GREASE values.\<close>

theorem ja4_order_and_grease:
  assumes "mset (no_grease (ciphers h)) = mset (no_grease (ciphers h'))"
    "mset (no_grease (extensions h)) = mset (no_grease (extensions h'))"
    "tls_version h = tls_version h'" "has_sni h = has_sni h'" "alpn h = alpn h'"
    "signature_algorithms h = signature_algorithms h'"
  shows "generate_ja4 sha quic h = generate_ja4 sha quic h'"
  using assms(3-6) mset_same_length [OF assms(1)] mset_same_length [OF assms(2)] sort_hex [OF assms(1)] sort_hex [OF assms(2)]
  by (simp only: generate_ja4_def Let_def)

definition sample_hello :: "nat list \<Rightarrow> nat list \<Rightarrow> tls_hello" where
  "sample_hello cs es = \<lparr>tls_version = 0x0303, ciphers = cs, extensions = es, has_sni = True, alpn = Some ''h2'',
     signature_algorithms = Some [0x0403]\<rparr>"

lemma ja4_order_and_grease_witness:
  "generate_ja4 id False (sample_hello [0x1a1a, 0x1301, 0xc02b] [0, 0x0a0a, 16, 13])
     = generate_ja4 id False (sample_hello [0xc02b, 0x1301] [13, 16, 0])"
  by (rule ja4_order_and_grease) (simp_all add: sample_hello_def no_grease_def GREASE_VALUES_def)

lemma lower_char_idem [simp]: "lower_char (lower_char c) = lower_char c"
  by (auto simp: lower_char_def Let_def)

lemma py_lower_idem [simp]: "py_lower (py_lower s) = py_lower s"
  by (simp add: py_lower_def)

lemma py_lower_Nil_iff [simp]: "py_lower s = [] \<longleftrightarrow> s = []"
  by (simp add: py_lower_def)

lemma counted_headers_lower:
  "map py_lower (filter (\<lambda>h. py_lower h \<notin> {''cookie'', ''referer''} \<and> h \<noteq> []) hs)
     = filter (\<lambda>h. h \<notin> {''cookie'', ''referer''} \<and> h \<noteq> []) (map py_lower hs)"
  by (simp add: filter_map comp_def)

text \<open>The JA4H fingerprint is the same for requests with the same header names in another order or
  case, and with the same cookie names in another order or case.\<close>

theorem ja4h_order_and_case:
  assumes "mset (map py_lower (headers r)) = mset (map py_lower (headers r'))"
    "rel_option (\<lambda>c c'. mset (map py_lower c) = mset (map py_lower c')) (cookies r) (cookies r')"
    "py_lower (http_method r) = py_lower (http_method r')" "http_version r = http_version r'"
    "referer r = referer r'" "accept_language r = accept_language r'"
  shows "generate_ja4h sha r = generate_ja4h sha r'"
proof -
  let ?f = "filter (\<lambda>h. py_lower h \<notin> {''cookie'', ''referer''} \<and> h \<noteq> [])"
  have m: "mset (map py_lower (?f (headers r))) = mset (map py_lower (?f (headers r')))"
    unfolding counted_headers_lower mset_filter assms(1) ..
  then have hs: "sort (map py_lower (?f (headers r))) = sort (map py_lower (?f (headers r')))"
    and len: "length (?f (headers r)) = length (?f (headers r'))"
    using sort_mset [OF m] mset_same_length [OF m] by simp_all
  show ?thesis
  proof (cases "cookies r")
    case None
    with assms(2) have "cookies r' = None" by (cases "cookies r'") simp_all
    with None assms(3-6) hs len show ?thesis by (simp add: generate_ja4h_def Let_def)
  next
    case (Some c)
    with assms(2) obtain c' where c': "cookies r' = Some c'" "mset (map py_lower c) = mset (map py_lower c')"
      by (cases "cookies r'") simp_all
    have sc: "sort (map py_lower c) = sort (map py_lower c')" and lc: "length c = length c'"
      using sort_mset [OF c'(2)] mset_same_length [OF c'(2)] by simp_all
    have "(case cookies r of Some (c # cs) \<Rightarrow> sha_encode sha (join_with '','' (sort (map py_lower (c # cs)))) | _ \<Rightarrow> zero_hash)
        = (case cookies r' of Some (c # cs) \<Rightarrow> sha_encode sha (join_with '','' (sort (map py_lower (c # cs)))) | _ \<Rightarrow> zero_hash)"
      using Some c' sc lc by (cases c; cases c') simp_all
    moreover have "(case cookies r of Some (_ # _) \<Rightarrow> ''c'' | _ \<Rightarrow> ''n'') = (case cookies r' of Some (_ # _) \<Rightarrow> ''c'' | _ \<Rightarrow> ''n'')"
      using Some c' lc by (cases c; cases c') simp_all
    ultimately show ?thesis using assms(3-6) hs len by (simp only: generate_ja4h_def Let_def)
  qed
qed

lemma ja4h_order_and_case_witness:
  "generate_ja4h id \<lparr>http_method = ''GET'', http_version = ''1.1'', headers = [''Host'', ''Accept''], cookies = Some [''a'', ''B''],
       referer = None, accept_language = Some ''en-US''\<rparr>
     = generate_ja4h id \<lparr>http_method = ''Get'', http_version = ''1.1'', headers = [''ACCEPT'', ''host''], cookies = Some [''b'', ''A''],
       referer = None, accept_language = Some ''en-US''\<rparr>"
proof -
  have l: "py_lower ''Host'' = ''host''" "py_lower ''host'' = ''host''" "py_lower ''Accept'' = ''accept''" "py_lower ''ACCEPT'' = ''accept''"
    "py_lower ''a'' = ''a''" "py_lower ''A'' = ''a''" "py_lower ''b'' = ''b''" "py_lower ''B'' = ''b''"
    "py_lower ''GET'' = ''get''" "py_lower ''Get'' = ''get''"
    by (simp_all add: py_lower_def lower_char_def char_of_eq_iff)
  show ?thesis by (rule ja4h_order_and_case) (simp_all add: l)
qed

text \<open>
  What JA4 hashes for the extensions includes the two of them, server name and ALPN, that the
  specification leaves out (\<open>get_hex_sorted\<close> of the vendored code does), so the same client with and
  without a server name gets another hash.
\<close>

lemma ja4_hashes_server_name:
  "generate_ja4 id False \<lparr>tls_version = 0x0303, ciphers = [], extensions = [0, 0x17], has_sni = True, alpn = None,
       signature_algorithms = None\<rparr> = ''t12d000200_000000000000_0000,0017''"
  "generate_ja4 id False \<lparr>tls_version = 0x0303, ciphers = [], extensions = [0x17], has_sni = False, alpn = None,
       signature_algorithms = None\<rparr> = ''t12i000100_000000000000_0017''"
proof -
  have h: "hex04 0 = ''0000''" "hex04 0x17 = ''0017''"
    by (simp_all add: hex04_def hex_of_nat.simps [of 0] hex_of_nat.simps [of 23] hex_of_nat.simps [of "Suc 0"] hex_char_def
        numeral_2_eq_2 numeral_3_eq_3 Let_def char_of_eq_iff)
  have d: "dec02 0 = ''00''" "dec02 (Suc 0) = ''01''" "dec02 (Suc (Suc 0)) = ''02''"
    by (simp_all add: dec02_def digits_of_nat.simps [of 0] digits_of_nat.simps [of "Suc 0"] digits_of_nat.simps [of "Suc (Suc 0)"] Let_def
        char_of_eq_iff)
  show "generate_ja4 id False \<lparr>tls_version = 0x0303, ciphers = [], extensions = [0, 0x17], has_sni = True, alpn = None,
       signature_algorithms = None\<rparr> = ''t12d000200_000000000000_0000,0017''"
    "generate_ja4 id False \<lparr>tls_version = 0x0303, ciphers = [], extensions = [0x17], has_sni = False, alpn = None,
       signature_algorithms = None\<rparr> = ''t12i000100_000000000000_0017''"
    by (simp_all add: generate_ja4_def no_grease_def GREASE_VALUES_def TLS_VERSION_MAP_def h d alpn_value_def
        zero_hash_def sha_encode_def Let_def less_eq_char_def)
qed

subsection \<open>A Client Hello that is read back\<close>

datatype tls_ext = Server_name string | Alpn "string list" | Sig_algs "nat list" | Other nat string

definition alpn_list :: "string list \<Rightarrow> string" where
  "alpn_list ps = concat (map (\<lambda>p. char_of (length p) # p) ps)"

fun ext_type :: "tls_ext \<Rightarrow> nat" where
  "ext_type (Server_name _) = 0" | "ext_type (Alpn _) = 0x0010" | "ext_type (Sig_algs _) = 0x000d" | "ext_type (Other t _) = t"

fun ext_body :: "tls_ext \<Rightarrow> string" where
  "ext_body (Server_name b) = b"
| "ext_body (Alpn ps) = pack_be 2 (length (alpn_list ps)) @ alpn_list ps"
| "ext_body (Sig_algs ss) = pack_be 2 (2 * length ss) @ concat (map (pack_be 2) ss)"
| "ext_body (Other _ b) = b"

definition encode_ext :: "tls_ext \<Rightarrow> string" where
  "encode_ext e = pack_be 2 (ext_type e) @ pack_be 2 (length (ext_body e)) @ ext_body e"

text \<open>Extensions as RFC 8446 has them: at least one protocol or algorithm, lengths that fit.\<close>

fun ext_ok :: "tls_ext \<Rightarrow> bool" where
  "ext_ok (Server_name b) \<longleftrightarrow> length b < 65536"
| "ext_ok (Alpn ps) \<longleftrightarrow> ps \<noteq> [] \<and> (\<forall>p \<in> set ps. p \<noteq> [] \<and> length p < 256 \<and> list_all is_ascii_char p) \<and> length (alpn_list ps) < 65534"
| "ext_ok (Sig_algs ss) \<longleftrightarrow> ss \<noteq> [] \<and> (\<forall>s \<in> set ss. s < 65536) \<and> length ss < 32767"
| "ext_ok (Other t b) \<longleftrightarrow> t < 65536 \<and> t \<noteq> 0 \<and> t \<noteq> 0x0010 \<and> t \<noteq> 0x000d \<and> length b < 65536"

fun note_ext :: "tls_hello \<Rightarrow> tls_ext \<Rightarrow> tls_hello" where
  "note_ext h (Server_name b) = h\<lparr>extensions := extensions h @ [0], has_sni := True\<rparr>"
| "note_ext h (Alpn ps) = h\<lparr>extensions := extensions h @ [0x0010], alpn := Some (hd ps)\<rparr>"
| "note_ext h (Sig_algs ss) = h\<lparr>extensions := extensions h @ [0x000d], signature_algorithms := Some ss\<rparr>"
| "note_ext h (Other t b) = h\<lparr>extensions := extensions h @ [t]\<rparr>"

lemma u16_at [simp]: "n < 65536 \<Longrightarrow> u16 (pre @ pack_be 2 n @ rest) (length pre) = Some n"
  by (simp add: u16_def unpack_pack_be)

lemma length_two: "length (concat (map (pack_be 2) ss)) = 2 * length ss"
  by (induction ss) simp_all

lemma even_range_Suc: "even_range (2 * Suc n) = even_range (2 * n) @ [2 * n]"
  by (simp add: even_range_def)

lemma even_range_double: "even_range (2 * n) = map (\<lambda>k. 2 * k) [0..<n]"
  by (simp add: even_range_def)

lemma all_some_Some: "all_some (map Some xs) = Some xs"
  by (induction xs) simp_all

lemma u16_list:
  assumes "\<forall>s \<in> set ss. s < 65536" "k < length ss"
  shows "u16 (pre @ concat (map (pack_be 2) ss) @ rest) (length pre + 2 * k) = Some (ss ! k)"
proof -
  have "ss = take k ss @ ss ! k # drop (Suc k) ss" using assms(2) by (simp add: id_take_nth_drop)
  then have "concat (map (pack_be 2) ss)
      = concat (map (pack_be 2) (take k ss)) @ pack_be 2 (ss ! k) @ concat (map (pack_be 2) (drop (Suc k) ss))"
    by (metis (no_types, lifting) concat.simps(2) concat_append list.simps(9) map_append)
  moreover have "length (pre @ concat (map (pack_be 2) (take k ss))) = length pre + 2 * k"
    using assms(2) by (simp add: length_two)
  moreover have "ss ! k < 65536" using assms by simp
  ultimately show ?thesis
    using u16_at [of "ss ! k" "pre @ concat (map (pack_be 2) (take k ss))"] by simp
qed

lemma read_u16_list:
  assumes "\<forall>s \<in> set ss. s < 65536"
  shows "all_some (map (\<lambda>i. u16 (pre @ concat (map (pack_be 2) ss) @ rest) (length pre + i)) (even_range (2 * length ss))) = Some ss"
proof -
  have "map (\<lambda>i. u16 (pre @ concat (map (pack_be 2) ss) @ rest) (length pre + i)) (even_range (2 * length ss)) = map Some ss"
    by (rule nth_equalityI) (simp_all add: even_range_double u16_list [OF assms])
  then show ?thesis by (simp add: all_some_Some)
qed

text \<open>The bodies of the two extensions that are looked into, wherever they stand.\<close>

lemma read_alpn_body:
  assumes "ext_ok (Alpn ps)"
  shows "read_alpn (pre @ ext_body (Alpn ps) @ rest) (length pre) old = Some (Some (hd ps))"
proof -
  obtain p qs where ps: "ps = p # qs" using assms by (cases ps) simp_all
  let ?l = "alpn_list ps" and ?data = "pre @ ext_body (Alpn ps) @ rest"
  have p: "p \<noteq> []" "length p < 256" "list_all is_ascii_char p" "length ?l < 65534" using assms ps by simp_all
  have l: "alpn_list (p # qs) = char_of (length p) # p @ alpn_list qs" by (simp add: alpn_list_def)
  have "u16 ?data (length pre) = Some (length ?l)" using p(4) by simp
  moreover have "take (length ?l) (drop (length pre + 2) ?data) = ?l" by simp
  moreover have "filter is_ascii_char p = p" using p(3) by (simp add: list_all_iff)
  moreover have "(of_char (char_of (length p) :: char) :: nat) = length p" using p(2) by simp
  ultimately show ?thesis
    using p by (simp add: read_alpn_def Let_def ps del: ext_body.simps) (simp add: l)
qed

lemma read_sig_algs_body:
  assumes "ext_ok (Sig_algs ss)"
  shows "read_sig_algs (pre @ ext_body (Sig_algs ss) @ rest) (length pre) old = Some (Some ss)"
proof -
  let ?data = "pre @ ext_body (Sig_algs ss) @ rest" and ?n = "2 * length ss"
  have s: "\<forall>s \<in> set ss. s < 65536" "ss \<noteq> []" "length ss < 32767" using assms by simp_all
  have data: "?data = (pre @ pack_be 2 ?n) @ concat (map (pack_be 2) ss) @ rest" by simp
  have u: "u16 ?data (length pre) = Some ?n" using s(3) by simp
  have len: "length pre + 2 + ?n \<le> length ?data" by (simp add: length_two)
  then have "filter (\<lambda>i. length pre + 2 + i + 2 \<le> length ?data) (even_range ?n) = even_range ?n"
    by (intro filter_True) (auto simp: even_range_double)
  moreover have "all_some (map (\<lambda>i. u16 ?data (length pre + 2 + i)) (even_range ?n)) = Some ss"
    using read_u16_list [OF s(1), of "pre @ pack_be 2 ?n" rest] unfolding data by (simp add: add.assoc)
  ultimately show ?thesis
    using u len s(2) by (simp add: read_sig_algs_def del: ext_body.simps)
qed

lemma ext_body_length: "ext_ok e \<Longrightarrow> length (ext_body e) < 65536 \<and> ext_type e < 65536"
  by (cases e) (simp_all add: length_two)

lemma body_not_short:
  "ext_ok (Alpn ps) \<Longrightarrow> 2 < length (ext_body (Alpn ps))" "ext_ok (Sig_algs ss) \<Longrightarrow> 2 < length (ext_body (Sig_algs ss))"
  by (cases ps; simp add: alpn_list_def) (cases ss; simp)

lemma length_encode_ext: "length (encode_ext e) = 4 + length (ext_body e)"
  by (simp add: encode_ext_def)

text \<open>One extension that fits is noted, and the loop goes on behind it.\<close>

lemma read_one_extension:
  assumes "ext_ok e" "length pre < ext_end"
  shows "read_extensions (pre @ encode_ext e @ rest) ext_end (length pre) h
    = read_extensions (pre @ encode_ext e @ rest) ext_end (length (pre @ encode_ext e)) (note_ext h e)"
proof -
  let ?data = "pre @ encode_ext e @ rest"
  note b = ext_body_length [OF assms(1)]
  have t: "u16 ?data (length pre) = Some (ext_type e)" using b by (simp add: encode_ext_def)
  have l: "u16 ?data (length pre + 2) = Some (length (ext_body e))"
    using u16_at [of "length (ext_body e)" "pre @ pack_be 2 (ext_type e)" "ext_body e @ rest"] b
    by (simp add: encode_ext_def)
  let ?pre = "pre @ pack_be 2 (ext_type e) @ pack_be 2 (length (ext_body e))"
  have d: "?data = ?pre @ ext_body e @ rest" "length ?pre = length pre + 4" by (simp_all add: encode_ext_def)
  show ?thesis
  proof (cases e)
    case (Server_name x)
    with assms t l show ?thesis
      by (subst read_extensions.simps) (simp add: length_encode_ext Let_def add.assoc)
  next
    case (Other n x)
    with assms t l show ?thesis
      by (subst read_extensions.simps) (simp add: length_encode_ext Let_def add.assoc)
  next
    case (Alpn ps)
    have "read_alpn ?data (length pre + 4) old = Some (Some (hd ps))" for old
      using read_alpn_body [of ps ?pre rest old] assms(1) Alpn d by simp
    with Alpn assms t l body_not_short(1) [of ps] show ?thesis
      by (subst read_extensions.simps) (simp add: length_encode_ext Let_def add.assoc del: ext_ok.simps ext_body.simps)
  next
    case (Sig_algs ss)
    have "read_sig_algs ?data (length pre + 4) old = Some (Some ss)" for old
      using read_sig_algs_body [of ss ?pre rest old] assms(1) Sig_algs d by simp
    with Sig_algs assms t l body_not_short(2) [of ss] show ?thesis
      by (subst read_extensions.simps) (simp add: length_encode_ext Let_def add.assoc del: ext_ok.simps ext_body.simps)
  qed
qed

text \<open>Of extensions cut off after \<open>k\<close> bytes, those that are complete.\<close>

fun fitting :: "nat \<Rightarrow> tls_ext list \<Rightarrow> tls_ext list" where
  "fitting k [] = []"
| "fitting k (e # es) = (if length (encode_ext e) \<le> k then e # fitting (k - length (encode_ext e)) es else [])"

lemma fitting_all: "length (concat (map encode_ext es)) \<le> k \<Longrightarrow> fitting k es = es"
  by (induction es arbitrary: k) auto

text \<open>A cut inside an extension: the loop ends there, whatever is left of it.\<close>

lemma read_cut_extension:
  assumes "ext_ok e" "k < length (encode_ext e)" "ext_end = length pre + n"
  shows "read_extensions (pre @ take k (encode_ext e)) ext_end (length pre) h = Some h"
proof -
  let ?data = "pre @ take k (encode_ext e)"
  note b = ext_body_length [OF assms(1)]
  show ?thesis
  proof (cases "4 \<le> k")
    case False
    then show ?thesis by (subst read_extensions.simps) simp
  next
    case True
    then have data: "?data = pre @ pack_be 2 (ext_type e) @ pack_be 2 (length (ext_body e)) @ take (k - 4) (ext_body e)"
      by (simp add: encode_ext_def take_append)
    have "u16 ?data (length pre) = Some (ext_type e)" unfolding data using b by simp
    moreover have "u16 ?data (length pre + 2) = Some (length (ext_body e))"
      using u16_at [of "length (ext_body e)" "pre @ pack_be 2 (ext_type e)" "take (k - 4) (ext_body e)"] b
      by (simp add: data)
    moreover have "length ?data < length pre + 4 + length (ext_body e)" using assms(2) by (simp add: length_encode_ext)
    ultimately show ?thesis by (subst read_extensions.simps) (simp del: length_append)
  qed
qed

lemma read_extension_list:
  assumes "\<forall>e \<in> set es. ext_ok e"
  shows "read_extensions (pre @ take k (concat (map encode_ext es))) (length pre + length (concat (map encode_ext es))) (length pre) h
    = Some (foldl note_ext h (fitting k es))"
  using assms
proof (induction es arbitrary: pre k h)
  case Nil
  then show ?case by (subst read_extensions.simps) simp
next
  case (Cons e es)
  let ?rest = "concat (map encode_ext es)"
  show ?case
  proof (cases "length (encode_ext e) \<le> k")
    case True
    let ?t = "take (k - length (encode_ext e)) ?rest"
    have e: "ext_ok e" using Cons.prems by simp
    have "read_extensions (pre @ encode_ext e @ ?t) (length pre + length (encode_ext e @ ?rest)) (length pre) h
        = read_extensions (pre @ encode_ext e @ ?t) (length pre + length (encode_ext e @ ?rest)) (length (pre @ encode_ext e)) (note_ext h e)"
      by (rule read_one_extension [OF e]) (simp add: length_encode_ext)
    also have "\<dots> = Some (foldl note_ext (note_ext h e) (fitting (k - length (encode_ext e)) es))"
      using Cons.IH [of "pre @ encode_ext e" "k - length (encode_ext e)" "note_ext h e"] Cons.prems by (simp add: add.assoc)
    finally show ?thesis using True by (simp add: take_append)
  next
    case False
    then have "pre @ take k (concat (map encode_ext (e # es))) = pre @ take k (encode_ext e)" by simp
    moreover have "read_extensions (pre @ take k (encode_ext e)) (length pre + length (concat (map encode_ext (e # es)))) (length pre) h = Some h"
      using Cons.prems False by (intro read_cut_extension) auto
    ultimately show ?thesis using False by simp
  qed
qed

subsection \<open>The whole message\<close>

record client_hello =
  record_rest :: string
  handshake_length :: string
  hello_version :: nat
  random_bytes :: string
  session_id :: string
  suites :: "nat list"
  compression :: string
  exts :: "tls_ext list"

definition encode_exts :: "client_hello \<Rightarrow> string" where
  "encode_exts c = concat (map encode_ext (exts c))"

definition suite_bytes :: "client_hello \<Rightarrow> string" where
  "suite_bytes c = concat (map (pack_be 2) (suites c))"

definition hello_head :: "client_hello \<Rightarrow> string" where
  "hello_head c =
     CHR 0x16 # record_rest c @ CHR 0x01 # handshake_length c @ pack_be 2 (hello_version c) @ random_bytes c
     @ char_of (length (session_id c)) # session_id c
     @ pack_be 2 (2 * length (suites c)) @ suite_bytes c
     @ char_of (length (compression c)) # compression c
     @ pack_be 2 (length (encode_exts c))"

definition encode_hello :: "client_hello \<Rightarrow> string" where
  "encode_hello c = hello_head c @ encode_exts c"

definition hello_ok :: "client_hello \<Rightarrow> bool" where
  "hello_ok c \<longleftrightarrow> length (record_rest c) = 4 \<and> length (handshake_length c) = 3 \<and> hello_version c < 65536
     \<and> length (random_bytes c) = 32 \<and> length (session_id c) < 256 \<and> (\<forall>s \<in> set (suites c). s < 65536)
     \<and> length (suites c) < 32768 \<and> length (compression c) < 256 \<and> (\<forall>e \<in> set (exts c). ext_ok e)
     \<and> length (encode_exts c) < 65536"

definition bare_hello :: "client_hello \<Rightarrow> tls_hello" where
  "bare_hello c = \<lparr>tls_version = hello_version c, ciphers = suites c, extensions = [], has_sni = False, alpn = None,
     signature_algorithms = None\<rparr>"

lemma byte_at_pre: "byte_at (pre @ c # rest) (length pre) = Some (of_char c)"
  by (simp add: byte_at_def)

lemma byte_at_take: "i < k \<Longrightarrow> byte_at (take k xs) i = byte_at xs i"
  by (simp add: byte_at_def)

lemma u16_take: "i + 2 \<le> k \<Longrightarrow> u16 (take k xs) i = u16 xs i"
  by (simp add: u16_def drop_take min_def)

lemma length_suite_bytes [simp]: "length (suite_bytes c) = 2 * length (suites c)"
  by (simp add: suite_bytes_def length_two)

text \<open>The positions of the fields.\<close>

definition pos_suites :: "client_hello \<Rightarrow> nat" where "pos_suites c = 44 + length (session_id c)"
definition pos_compression :: "client_hello \<Rightarrow> nat" where "pos_compression c = pos_suites c + 2 + 2 * length (suites c)"
definition pos_extensions :: "client_hello \<Rightarrow> nat" where "pos_extensions c = pos_compression c + 1 + length (compression c)"

lemma length_hello_head: "hello_ok c \<Longrightarrow> length (hello_head c) = pos_extensions c + 2"
  by (simp add: hello_ok_def hello_head_def pos_extensions_def pos_compression_def pos_suites_def)

lemma hello_fields:
  assumes "hello_ok c"
  defines "d \<equiv> encode_hello c"
  shows "byte_at d 0 = Some 0x16" "byte_at d 5 = Some 0x01" "u16 d 9 = Some (hello_version c)"
    "byte_at d 43 = Some (length (session_id c))" "u16 d (pos_suites c) = Some (2 * length (suites c))"
    "read_ciphers d (pos_suites c + 2) (2 * length (suites c)) = Some (suites c)"
    "byte_at d (pos_compression c) = Some (length (compression c))"
    "u16 d (pos_extensions c) = Some (length (encode_exts c))"
proof -
  note ok = assms(1) [unfolded hello_ok_def]
  let ?p1 = "CHR 0x16 # record_rest c"
  let ?p2 = "?p1 @ CHR 0x01 # handshake_length c"
  let ?p3 = "?p2 @ pack_be 2 (hello_version c) @ random_bytes c"
  let ?p4 = "?p3 @ char_of (length (session_id c)) # session_id c"
  let ?p5 = "?p4 @ pack_be 2 (2 * length (suites c))"
  let ?p6 = "?p5 @ suite_bytes c"
  let ?p7 = "?p6 @ char_of (length (compression c)) # compression c"
  have len: "length ?p1 = 5" "length ?p2 = 9" "length ?p3 = 43" "length ?p4 = pos_suites c" "length ?p5 = pos_suites c + 2"
    "length ?p6 = pos_compression c" "length ?p7 = pos_extensions c"
    using ok by (simp_all add: pos_extensions_def pos_compression_def pos_suites_def)
  obtain r0 where r0: "d = [] @ CHR 0x16 # r0" by (simp add: d_def encode_hello_def hello_head_def)
  obtain r1 where r1: "d = ?p1 @ CHR 0x01 # r1" by (simp add: d_def encode_hello_def hello_head_def)
  obtain r2 where r2: "d = ?p2 @ pack_be 2 (hello_version c) @ r2" by (simp add: d_def encode_hello_def hello_head_def)
  obtain r3 where r3: "d = ?p3 @ char_of (length (session_id c)) # r3" by (simp add: d_def encode_hello_def hello_head_def)
  obtain r4 where r4: "d = ?p4 @ pack_be 2 (2 * length (suites c)) @ r4" by (simp add: d_def encode_hello_def hello_head_def)
  obtain r5 where r5: "d = ?p5 @ suite_bytes c @ r5" by (simp add: d_def encode_hello_def hello_head_def)
  obtain r6 where r6: "d = ?p6 @ char_of (length (compression c)) # r6" by (simp add: d_def encode_hello_def hello_head_def)
  obtain r7 where r7: "d = ?p7 @ pack_be 2 (length (encode_exts c)) @ r7" by (simp add: d_def encode_hello_def hello_head_def)
  show "byte_at d 0 = Some 0x16" using byte_at_pre [of "[]" "CHR 0x16" r0] r0 by simp
  show "byte_at d 5 = Some 0x01" using byte_at_pre [of ?p1 "CHR 0x01" r1] r1 len(1) by simp
  show "u16 d 9 = Some (hello_version c)" using u16_at [of "hello_version c" ?p2 r2] r2 len(2) ok by simp
  show "byte_at d 43 = Some (length (session_id c))"
    using byte_at_pre [of ?p3 "char_of (length (session_id c))" r3] r3 len(3) ok by simp
  show "u16 d (pos_suites c) = Some (2 * length (suites c))"
    using u16_at [of "2 * length (suites c)" ?p4 r4] r4 len(4) ok by simp
  show "read_ciphers d (pos_suites c + 2) (2 * length (suites c)) = Some (suites c)"
  proof -
    have "read_ciphers d (length ?p5) (2 * length (suites c)) = Some (suites c)"
      unfolding read_ciphers_def r5 suite_bytes_def by (rule read_u16_list) (use ok in simp)
    then show ?thesis unfolding len(5) .
  qed
  show "byte_at d (pos_compression c) = Some (length (compression c))"
    using byte_at_pre [of ?p6 "char_of (length (compression c))" r6] r6 len(6) ok by simp
  show "u16 d (pos_extensions c) = Some (length (encode_exts c))"
    using u16_at [of "length (encode_exts c)" ?p7 r7] r7 len(7) ok by simp
qed

lemma read_ciphers_take:
  assumes "offset + 2 * n \<le> k"
  shows "read_ciphers (take k d) offset (2 * n) = read_ciphers d offset (2 * n)"
proof -
  have "map (\<lambda>i. u16 (take k d) (offset + i)) (even_range (2 * n)) = map (\<lambda>i. u16 d (offset + i)) (even_range (2 * n))"
    using assms by (intro map_cong refl u16_take) (auto simp: even_range_double)
  then show ?thesis unfolding read_ciphers_def by (rule arg_cong)
qed

text \<open>C13: A Client Hello comes out of the parser as it was encoded, and one that is cut off after its
  head as one with the extensions that are complete.\<close>

theorem hello_roundtrip:
  assumes "hello_ok c" "length (hello_head c) \<le> k"
  shows "parse_tls_client_hello (take k (encode_hello c))
    = Some (foldl note_ext (bare_hello c) (fitting (k - length (hello_head c)) (exts c)))"
proof -
  let ?d = "take k (encode_hello c)"
  note f = hello_fields [OF assms(1)]
  have p: "44 \<le> pos_suites c" "pos_suites c + 2 + 2 * length (suites c) = pos_compression c"
    "pos_compression c + 1 + length (compression c) = pos_extensions c" "length (hello_head c) = pos_extensions c + 2"
    using length_hello_head [OF assms(1)] by (simp_all add: pos_extensions_def pos_compression_def pos_suites_def)
  have k: "pos_extensions c + 2 \<le> k" using assms(2) p by simp
  have len: "pos_extensions c + 2 \<le> length ?d" using k p(4) by (simp add: encode_hello_def)
  have t: "byte_at ?d 0 = Some 0x16" "byte_at ?d 5 = Some 0x01" "u16 ?d 9 = Some (hello_version c)"
      "byte_at ?d 43 = Some (length (session_id c))" "u16 ?d (44 + length (session_id c)) = Some (2 * length (suites c))"
      "read_ciphers ?d (pos_suites c + 2) (2 * length (suites c)) = Some (suites c)"
      "byte_at ?d (pos_compression c) = Some (length (compression c))"
      "u16 ?d (pos_extensions c) = Some (length (encode_exts c))"
    using f p k by (simp_all add: byte_at_take u16_take read_ciphers_take pos_suites_def [symmetric])
  have "?d = hello_head c @ take (k - length (hello_head c)) (encode_exts c)"
    using assms(2) by (simp add: encode_hello_def)
  moreover have "\<forall>e \<in> set (exts c). ext_ok e" using assms(1) by (simp add: hello_ok_def)
  ultimately have r: "read_extensions ?d (pos_extensions c + 2 + length (encode_exts c)) (pos_extensions c + 2) h
      = Some (foldl note_ext h (fitting (k - length (hello_head c)) (exts c)))" for h
    using read_extension_list [of "exts c" "hello_head c" "k - length (hello_head c)" h] p(4) by (simp add: encode_exts_def)
  have "hello_extensions ?d (pos_extensions c) (hello_version c) (suites c)
      = Some (foldl note_ext (bare_hello c) (fitting (k - length (hello_head c)) (exts c)))"
    using t(8) len r [of "bare_hello c"] by (simp add: hello_extensions_def bare_hello_def add.assoc min_def)
  then have "hello_compression ?d (pos_compression c) (hello_version c) (suites c)
      = Some (foldl note_ext (bare_hello c) (fitting (k - length (hello_head c)) (exts c)))"
    using t(7) len p by (simp add: hello_compression_def min_def)
  then have "hello_suites ?d (pos_suites c) (hello_version c)
      = Some (foldl note_ext (bare_hello c) (fitting (k - length (hello_head c)) (exts c)))"
    using t(5,6) len p by (simp add: hello_suites_def pos_suites_def [symmetric] min_def)
  then show ?thesis
    using t(1-4) len p by (simp add: parse_tls_client_hello_def pos_suites_def min_def)
qed

text \<open>A Client Hello that is cut off before its extensions begin is rejected.\<close>

theorem cut_hello_rejected:
  assumes "hello_ok c" "k < length (hello_head c)"
  shows "parse_tls_client_hello (take k (encode_hello c)) = None"
proof -
  let ?d = "take k (encode_hello c)"
  note f = hello_fields [OF assms(1)]
  have p: "44 \<le> pos_suites c" "pos_suites c + 2 + 2 * length (suites c) = pos_compression c"
    "pos_compression c + 1 + length (compression c) = pos_extensions c" "length (hello_head c) = pos_extensions c + 2"
    using length_hello_head [OF assms(1)] by (simp_all add: pos_extensions_def pos_compression_def pos_suites_def)
  have len: "length ?d = k" using assms(2) by (simp add: encode_hello_def)
  show ?thesis
  proof (cases "k < 44")
    case True
    then show ?thesis using len by (simp add: parse_tls_client_hello_def)
  next
    case False
    then have t: "byte_at ?d 0 = Some 0x16" "byte_at ?d 5 = Some 0x01" "u16 ?d 9 = Some (hello_version c)"
        "byte_at ?d 43 = Some (length (session_id c))"
      using f by (simp_all add: byte_at_take u16_take)
    have t2: "u16 ?d (pos_suites c) = Some (2 * length (suites c))" if "pos_suites c + 2 \<le> k"
      using f that by (simp add: u16_take)
    have t3: "byte_at ?d (pos_compression c) = Some (length (compression c))" if "pos_compression c + 1 \<le> k"
      using f that by (simp add: byte_at_take)
    have short: "k < pos_extensions c + 2" using assms(2) p(4) by simp
    have "hello_compression ?d (pos_compression c) v cs = None" for v cs
    proof (cases "k < pos_compression c + 1")
      case True
      then show ?thesis using len by (simp add: hello_compression_def)
    next
      case False
      have "hello_extensions ?d (pos_extensions c) v cs = None" using short len by (simp add: hello_extensions_def)
      with False t3 len p show ?thesis by (simp add: hello_compression_def)
    qed
    then have "hello_suites ?d (pos_suites c) v = None" for v
      using t2 len p
      by (cases "read_ciphers ?d (pos_suites c + 2) (2 * length (suites c))"; cases "k < pos_suites c + 2")
        (simp_all add: hello_suites_def)
    then show ?thesis using t len by (simp add: parse_tls_client_hello_def pos_suites_def)
  qed
qed

definition sample_client :: client_hello where
  "sample_client = \<lparr>record_rest = replicate 4 (CHR 0x00), handshake_length = replicate 3 (CHR 0x00), hello_version = 0x0303,
     random_bytes = replicate 32 (CHR ''r''), session_id = ''s'', suites = [0x1301, 0x1302], compression = [CHR 0x00],
     exts = [Server_name ''a'', Alpn [''h2'', ''x''], Sig_algs [0x0403], Other 10 ''xx'']\<rparr>"

lemma sample_client_ok: "hello_ok sample_client"
  by (simp add: hello_ok_def sample_client_def encode_exts_def encode_ext_def alpn_list_def is_ascii_char_def)

lemma hello_roundtrip_witness:
  "parse_tls_client_hello (encode_hello sample_client) = Some \<lparr>tls_version = 0x0303, ciphers = [0x1301, 0x1302],
     extensions = [0, 16, 13, 10], has_sni = True, alpn = Some ''h2'', signature_algorithms = Some [0x0403]\<rparr>"
proof -
  have "fitting (length (encode_hello sample_client) - length (hello_head sample_client)) (exts sample_client) = exts sample_client"
    by (rule fitting_all) (simp add: encode_hello_def encode_exts_def)
  then show ?thesis
    using hello_roundtrip [OF sample_client_ok, of "length (encode_hello sample_client)"]
    by (simp add: encode_hello_def bare_hello_def) (simp add: sample_client_def)
qed

lemma cut_hello_rejected_witness: "parse_tls_client_hello (take 50 (encode_hello sample_client)) = None"
  by (rule cut_hello_rejected [OF sample_client_ok])
    (simp add: length_hello_head [OF sample_client_ok] pos_extensions_def pos_compression_def pos_suites_def, simp add: sample_client_def)

subsection \<open>HTTP requests\<close>

lemma find_crlf: "CHR 0x0D \<notin> set p \<Longrightarrow> find_sub crlf_text (p @ crlf_text @ r) = Some (length p)"
  by (induction p) auto

lemma split_crlf: "CHR 0x0D \<notin> set p \<Longrightarrow> split_str crlf_text (p @ crlf_text @ r) = p # split_str crlf_text r"
  by (subst split_str.simps) (simp add: find_crlf [simplified])

lemma find_crlf_none: "CHR 0x0D \<notin> set p \<Longrightarrow> find_sub crlf_text p = None"
  by (induction p) auto

lemma split_crlf_last: "CHR 0x0D \<notin> set p \<Longrightarrow> split_str crlf_text p = [p]"
  by (subst split_str.simps) (simp add: find_crlf_none)

lemma split_crlf_lines:
  "ps \<noteq> [] \<Longrightarrow> \<forall>p \<in> set ps. CHR 0x0D \<notin> set p \<Longrightarrow> split_str crlf_text (join_with crlf_text ps) = ps"
proof (induction ps)
  case (Cons p ps)
  then show ?case
    by (cases ps) (simp_all add: split_crlf_last split_crlf [simplified])
qed simp

definition word :: "string \<Rightarrow> bool" where "word w \<longleftrightarrow> w \<noteq> [] \<and> (\<forall>c \<in> set w. \<not> is_space c)"

lemma split_space_word: "\<forall>c \<in> set w. \<not> is_space c \<Longrightarrow> split_space is_space cur (w @ r) = split_space is_space (cur @ w) r"
  by (induction w arbitrary: cur) auto

lemma split_three:
  assumes "word a" "word b" "word c"
  shows "split_space is_space [] (a @ '' '' @ b @ '' '' @ c) = [a, b, c]"
proof -
  have sp: "is_space (CHR '' '')" by (simp add: is_space_def)
  have "split_space is_space [] (c @ []) = [c]" using assms(3) by (subst split_space_word) (auto simp: word_def)
  moreover have "split_space is_space [] (b @ '' '' @ c) = b # split_space is_space [] c"
    using assms(2) sp by (subst split_space_word) (auto simp: word_def)
  moreover have "split_space is_space [] (a @ '' '' @ b @ '' '' @ c) = a # split_space is_space [] (b @ '' '' @ c)"
    using assms(1) sp by (subst split_space_word) (auto simp: word_def)
  ultimately show ?thesis by simp
qed

text \<open>What one header line adds.\<close>

definition note_header :: "http_request \<Rightarrow> string \<times> string \<Rightarrow> http_request" where
  "note_header r nv =
     (let (n, v) = nv; r1 = r\<lparr>headers := headers r @ [n]\<rparr> in
      if py_lower n = ''cookie'' then r1\<lparr>cookies := read_cookies v\<rparr>
      else if py_lower n = ''referer'' then r1\<lparr>referer := Some v\<rparr>
      else if py_lower n = ''accept-language'' then r1\<lparr>accept_language := Some v\<rparr>
      else r1)"

definition header_line :: "string \<times> string \<Rightarrow> string" where
  "header_line nv = fst nv @ '': '' @ snd nv"

definition header_ok :: "string \<times> string \<Rightarrow> bool" where
  "header_ok nv \<longleftrightarrow> CHR '':'' \<notin> set (fst nv) \<and> strip_space (fst nv) = fst nv \<and> strip_space (snd nv) = snd nv"

lemma strip_space_Cons: "is_space c \<Longrightarrow> strip_space (c # v) = strip_space v"
  by (simp add: strip_space_def strip_chars_def lstrip_chars_def)

lemma read_header_line:
  assumes "header_ok nv"
  shows "read_header r (header_line nv) = note_header r nv"
proof -
  obtain n v where nv: "nv = (n, v)" by (cases nv)
  let ?l = "n @ '': '' @ v"
  have "takeWhile (\<lambda>c. c \<noteq> CHR '':'') ?l = n" using assms nv by (subst takeWhile_append2) (auto simp: header_ok_def)
  moreover have "dropWhile (\<lambda>c. c \<noteq> CHR '':'') ?l = '': '' @ v" using assms nv by (subst dropWhile_append2) (auto simp: header_ok_def)
  moreover have "strip_space ('' '' @ v) = v" using assms nv by (simp add: header_ok_def strip_space_Cons is_space_def)
  moreover have "strip_space n = n" using assms nv by (simp add: header_ok_def)
  ultimately show ?thesis by (simp add: read_header_def note_header_def header_line_def nv Let_def)
qed

definition request_lines :: "string \<Rightarrow> string \<Rightarrow> string \<Rightarrow> (string \<times> string) list \<Rightarrow> string list \<Rightarrow> string list" where
  "request_lines m path v hs body = (m @ '' '' @ path @ '' HTTP/'' @ v) # map header_line hs @ [] # body"

definition bare_request :: "string \<Rightarrow> string \<Rightarrow> http_request" where
  "bare_request m v = \<lparr>http_method = m, http_version = v, headers = [], cookies = None, referer = None, accept_language = None\<rparr>"

text \<open>A request comes out of the parser with its method, its version and its headers, in order; but
  the lines of its body are taken for headers as well.\<close>

theorem http_request_read:
  assumes "word m" "word path" "word v" "\<forall>nv \<in> set hs. header_ok nv"
    "\<forall>l \<in> set (request_lines m path v hs body). CHR 0x0D \<notin> set l \<and> list_all is_ascii_char l"
  shows "parse_http_request (join_with crlf_text (request_lines m path v hs body))
    = Some (foldl read_header (foldl note_header (bare_request m v) hs) body)"
proof -
  let ?ls = "request_lines m path v hs body"
  have "filter is_ascii_char (join_with crlf_text ls) = join_with crlf_text ls"
    if "\<forall>l \<in> set ls. list_all is_ascii_char l" for ls
    using that
  proof (induction ls)
    case (Cons l ls)
    then show ?case by (cases ls) (auto simp: list_all_iff is_ascii_char_def intro: filter_True)
  qed simp
  with assms(5) have "split_str crlf_text (filter is_ascii_char (join_with crlf_text ?ls)) = ?ls"
    by (subst split_crlf_lines [symmetric]) (auto simp: request_lines_def)
  moreover have "word (''HTTP/'' @ v)" using assms(3) by (simp add: word_def is_space_def)
  then have "split_space is_space [] (hd ?ls) = [m, path, ''HTTP/'' @ v]"
    using split_three [OF assms(1,2)] by (simp add: request_lines_def)
  moreover have "foldl read_header r (map header_line hs) = foldl note_header r hs" for r
    using assms(4) by (induction hs arbitrary: r) (simp_all add: read_header_line)
  moreover have "read_header r [] = r" for r by (simp add: read_header_def)
  ultimately show ?thesis by (simp add: parse_http_request_def bare_request_def request_lines_def)
qed

lemma http_request_read_witness:
  "parse_http_request (join_with crlf_text (request_lines ''POST'' ''/'' ''1.1'' [(''Host'', ''a'')] [''x:y'']))
     = Some \<lparr>http_method = ''POST'', http_version = ''1.1'', headers = [''Host'', ''x''], cookies = None, referer = None,
         accept_language = None\<rparr>"
  by (subst http_request_read)
    (simp_all add: word_def is_space_def header_ok_def strip_space_def strip_chars_def lstrip_chars_def rstrip_chars_def
      request_lines_def header_line_def is_ascii_char_def bare_request_def note_header_def read_header_def py_lower_def lower_char_def
      Let_def char_of_eq_iff)

end
