(* ===== verification/Ssh_Forwarding.thy ===== *)
theory Ssh_Forwarding
  imports Fingerprint
begin

section \<open>Forwarded connections of the SSH server\<close>

text \<open>
  Model of \<open>ssh/forwarding.py\<close>: where a request for a direct TCP connection goes, and the channels
  that answer it. The base class of Twisted, which connects to the other end, is a list of what it is
  given; \<open>_close\<close> is counted. Log texts are left out.
\<close>

type_synonym host_port = "string \<times> int"

datatype forward_target = Redirect host_port | Tunnel host_port host_port | Discard_data host_port

record forward_conf =
  forward_redirect :: bool
  forward_tunnel :: bool
  ssh_items :: "(string \<times> string) list"

subsection \<open>Choosing the channel\<close>

text \<open>The table of one kind of target; the first malformed item ends it with an exception.\<close>

fun forward_table :: "string \<Rightarrow> (string \<times> string) list \<Rightarrow> (int \<times> host_port) list \<Rightarrow> (int \<times> host_port) list res" where
  "forward_table prefix [] d = Inr d"
| "forward_table prefix ((k, v) # items) d =
     (if starts_with k prefix then
        (let destPort = last (split_on (CHR ''_'') k); hp = split_on (CHR '':'') v in
         rbind (py_nth hp 1) (\<lambda>p.
         rbind (int_text p) (\<lambda>n.
         rbind (int_text destPort) (\<lambda>port. forward_table prefix items (AList.update port (hd hp, n) d)))))
      else forward_table prefix items d)"

definition open_connect_forwarding :: "forward_conf \<Rightarrow> host_port \<Rightarrow> forward_target res" where
  "open_connect_forwarding conf remoteHP =
     rbind (if forward_redirect conf then forward_table ''forward_redirect_'' (ssh_items conf) [] else Inr [])
       (\<lambda>redirects.
         case map_of redirects (snd remoteHP) of
           Some hp \<Rightarrow> Inr (Redirect hp)
         | None \<Rightarrow>
             rbind (if forward_tunnel conf then forward_table ''forward_tunnel_'' (ssh_items conf) [] else Inr [])
               (\<lambda>tunnels.
                 case map_of tunnels (snd remoteHP) of
                   Some hp \<Rightarrow> Inr (Tunnel hp remoteHP)
                 | None \<Rightarrow> Inr (Discard_data remoteHP)))"

subsection \<open>Fingerprints of the data\<close>

datatype forward_event = Ja4 string | Ja4h string | Data_discarded string | Data_sent string | Tunnel_error string

definition fingerprint_events :: "(string \<Rightarrow> string) \<Rightarrow> string \<Rightarrow> forward_event list" where
  "fingerprint_events sha data =
     (if 6 \<le> length data \<and> data ! 0 = CHR 0x16 \<and> data ! 5 = CHR 0x01 then
        (case parse_tls_client_hello data of None \<Rightarrow> [] | Some h \<Rightarrow> [Ja4 (generate_ja4 sha False h)])
      else if starts_with data ''GET '' \<or> starts_with data ''POST '' \<or> starts_with data ''HEAD '' then
        (case parse_http_request data of None \<Rightarrow> [] | Some r \<Rightarrow> [Ja4h (generate_ja4h sha r)])
      else [])"

subsection \<open>Channels\<close>

record forward_channel =
  to_target :: "string list"
  to_attacker :: "string list"
  close_calls :: nat
  tunnel_established :: bool
  forward_log :: "forward_event list"

definition channel_new :: forward_channel where
  "channel_new = \<lparr>to_target = [], to_attacker = [], close_calls = 0, tunnel_established = False, forward_log = []\<rparr>"

definition close_channel :: "forward_channel \<Rightarrow> forward_channel" where
  "close_channel c = c\<lparr>close_calls := close_calls c + 1\<rparr>"

definition fake_received :: "(string \<Rightarrow> string) \<Rightarrow> string \<Rightarrow> forward_channel \<Rightarrow> forward_channel" where
  "fake_received sha data c =
     close_channel (c\<lparr>forward_log := forward_log c @ fingerprint_events sha data @ [Data_discarded data]\<rparr>)"

text \<open>\<open>dst.encode('ascii')\<close> raises for a host name that is not ASCII.\<close>

definition tunnel_open :: "host_port \<Rightarrow> forward_channel \<Rightarrow> (forward_channel, unit) sres" where
  "tunnel_open dst c =
     (let d = fst dst @ '':'' @ (if snd dst < 0 then ''-'' else []) @ digits_of_nat (nat \<bar>snd dst\<bar>) in
      if is_ascii d
      then (c\<lparr>to_target := to_target c @ [''CONNECT '' @ d @ '' HTTP/1.1'' @ crlf_text @ crlf_text]\<rparr>, Inr ())
      else (c, Inl UnicodeEncodeError))"

definition tunnel_received :: "(string \<Rightarrow> string) \<Rightarrow> string \<Rightarrow> forward_channel \<Rightarrow> forward_channel" where
  "tunnel_received sha data c =
     c\<lparr>forward_log := forward_log c @ fingerprint_events sha data @ [Data_sent data], to_target := to_target c @ [data]\<rparr>"

definition strip_response :: "string \<Rightarrow> string" where
  "strip_response data =
     (case find_sub (crlf_text @ crlf_text) data of None \<Rightarrow> data | Some i \<Rightarrow> drop (i + 4) data)"

definition tunnel_write :: "string \<Rightarrow> forward_channel \<Rightarrow> (forward_channel, unit) sres" where
  "tunnel_write data c =
     (let pass = (\<lambda>d c. c\<lparr>to_attacker := to_attacker c @ [d]\<rparr>) in
      if \<not> tunnel_established c \<and> py_lower (take 4 data) = ''http'' then
        (case py_nth (split_on (CHR '' '') data) 1 of
           Inl e \<Rightarrow> (c, Inl e)
         | Inr code \<Rightarrow>
             (case int_text code of
                Inl _ \<Rightarrow> (close_channel (c\<lparr>forward_log := forward_log c @ [Tunnel_error code]\<rparr>), Inr ())
              | Inr res_code \<Rightarrow>
                  let c1 = (if res_code \<noteq> 200
                      then close_channel (c\<lparr>forward_log := forward_log c @ [Tunnel_error code]\<rparr>) else c)
                  in (pass (strip_response data) (c1\<lparr>tunnel_established := True\<rparr>), Inr ())))
      else (pass data c, Inr ()))"

text \<open>A run of what the proxy at the other end sends.\<close>

fun tunnel_writes :: "string list \<Rightarrow> forward_channel \<Rightarrow> forward_channel" where
  "tunnel_writes [] c = c"
| "tunnel_writes (d # ds) c = tunnel_writes ds (fst (tunnel_write d c))"

section \<open>Properties of forwarded connections\<close>

lemma established_passes:
  "tunnel_established c \<Longrightarrow> tunnel_writes ds c = c\<lparr>to_attacker := to_attacker c @ ds\<rparr>"
proof (induction ds arbitrary: c)
  case (Cons d ds)
  then show ?case by (simp add: tunnel_write_def Let_def)
qed simp

text \<open>The status line and the headers of an answer to CONNECT.\<close>

definition response_head :: "nat \<Rightarrow> string \<Rightarrow> string" where
  "response_head code more_head = ''HTTP/1.1 '' @ digits_of_nat code @ '' '' @ more_head"

lemma find_sub_append:
  assumes "find_sub t (p @ t @ r) = Some i" "t \<noteq> []"
  shows "i \<le> length p"
  using assms
proof (induction p arbitrary: i)
  case Nil
  then show ?case by (cases t) (auto split: if_splits simp: starts_with_iff)
next
  case (Cons c p)
  then show ?case by (auto split: if_splits)
qed

lemma response_code:
  assumes "code < 10 ^ 4300"
  shows "py_lower (take 4 (response_head code h @ r)) = ''http''"
    "\<exists>ws. split_on (CHR '' '') (response_head code h @ r) = ''HTTP/1.1'' # digits_of_nat code # ws"
proof -
  show "py_lower (take 4 (response_head code h @ r)) = ''http''"
    by (simp add: response_head_def py_lower_def lower_char_def char_of_eq_iff)
  have n: "CHR '' '' \<notin> set (digits_of_nat code)"
    using digits_all [of code] by (auto simp: list_all_iff is_digit_def)
  have "split_on (CHR '' '') (digits_of_nat code @ CHR '' '' # h @ r) = digits_of_nat code # split_on (CHR '' '') (h @ r)"
    by (rule split_on_append [OF n])
  then show "\<exists>ws. split_on (CHR '' '') (response_head code h @ r) = ''HTTP/1.1'' # digits_of_nat code # ws"
    by (simp add: response_head_def)
qed

lemma short_code: "code < 1000 \<Longrightarrow> (code::nat) < 10 ^ 4300"
  by (rule less_le_trans [of _ "10 ^ 3"]) (simp, rule power_increasing, simp_all)

lemma less_code_port: "code < 100000 \<Longrightarrow> (code::nat) < 10 ^ 4300"
  by (rule less_le_trans [of _ "10 ^ 5"]) (simp, rule power_increasing, simp_all)

lemma tunnel_write_response:
  assumes "code < 10 ^ 4300" "\<not> tunnel_established c"
  shows "fst (tunnel_write (response_head code h @ r) c) =
    c\<lparr>close_calls := close_calls c + (if code = 200 then 0 else 1),
      forward_log := forward_log c @ (if code = 200 then [] else [Tunnel_error (digits_of_nat code)]),
      tunnel_established := True, to_attacker := to_attacker c @ [strip_response (response_head code h @ r)]\<rparr>"
proof -
  obtain ws where ws: "split_on (CHR '' '') (response_head code h @ r) = ''HTTP/1.1'' # digits_of_nat code # ws"
    using response_code(2) [OF assms(1)] by blast
  then have n: "py_nth (split_on (CHR '' '') (response_head code h @ r)) 1 = Inr (digits_of_nat code)"
    by (simp add: py_nth_def)
  have l: "(\<not> tunnel_established c \<and> py_lower (take 4 (response_head code h @ r)) = ''http'') = True"
    using assms(2) response_code(1) [OF assms(1)] by blast
  show ?thesis
    unfolding tunnel_write_def Let_def l n
    by (simp add: int_text_digits [OF assms(1)] close_channel_def)
qed

text \<open>The headers end at the first empty line, so an answer whose head has none is stripped exactly.\<close>

lemma starts_with_longer:
  "length t \<le> length a \<Longrightarrow> starts_with (a @ r) t \<longleftrightarrow> starts_with a t"
  by (auto simp: starts_with_iff append_eq_append_conv2)

lemma find_sub_at:
  assumes "find_sub t (p @ t) = Some (length p)" "t \<noteq> []"
  shows "find_sub t (p @ t @ r) = Some (length p)"
  using assms
proof (induction p)
  case Nil
  then show ?case by (cases t) (auto simp: starts_with_iff)
next
  case (Cons x p)
  have "starts_with ((x # p @ t) @ r) t \<longleftrightarrow> starts_with (x # p @ t) t"
    by (rule starts_with_longer) simp
  then show ?case using Cons by (auto split: if_splits)
qed

text \<open>a tunnel through an HTTP proxy that agrees: when the channel opens the first thing sent to the
  proxy is the CONNECT line for the address the attacker asked for; the proxy's answer with code 200 is
  taken off whatever its headers are, what follows the empty line in the same packet and every later
  packet reach the attacker unchanged and in order, and the channel is not closed.\<close>

theorem tunnel_strips_answer:
  assumes "is_ascii host" "find_sub (crlf_text @ crlf_text) (response_head 200 h @ crlf_text @ crlf_text)
    = Some (length (response_head 200 h))"
  shows "let c = fst (tunnel_open (host, int port) channel_new);
           c' = tunnel_writes ((response_head 200 h @ crlf_text @ crlf_text @ rest) # ds) c in
    to_target c' = [''CONNECT '' @ host @ '':'' @ digits_of_nat port @ '' HTTP/1.1'' @ crlf_text @ crlf_text]
    \<and> to_attacker c' = rest # ds \<and> close_calls c' = 0 \<and> tunnel_established c'"
proof -
  let ?c = "channel_new\<lparr>to_target := [''CONNECT '' @ host @ '':'' @ digits_of_nat port @ '' HTTP/1.1'' @ crlf_text @ crlf_text]\<rparr>"
  have a: "is_ascii (digits_of_nat port)"
    using digits_all [of port] by (fastforce simp: is_ascii_def list_all_iff is_digit_def Let_def)
  have o: "fst (tunnel_open (host, int port) channel_new) = ?c"
    using assms(1) a by (simp add: tunnel_open_def channel_new_def is_ascii_def Let_def)
  have s: "strip_response (response_head 200 h @ crlf_text @ crlf_text @ rest) = rest"
    using find_sub_at [OF assms(2), of rest] by (simp add: strip_response_def)
  have w: "fst (tunnel_write (response_head 200 h @ crlf_text @ crlf_text @ rest) ?c)
      = ?c\<lparr>tunnel_established := True, to_attacker := [rest]\<rparr>"
    using tunnel_write_response [OF short_code, of 200 ?c h "crlf_text @ crlf_text @ rest"] s by (simp add: channel_new_def)
  have e: "tunnel_writes ds (?c\<lparr>tunnel_established := True, to_attacker := [rest]\<rparr>)
      = ?c\<lparr>tunnel_established := True, to_attacker := rest # ds\<rparr>"
    by (subst established_passes) simp_all
  show ?thesis
    unfolding Let_def o tunnel_writes.simps w e by (simp add: channel_new_def del: digits_of_nat.simps)
qed

text \<open>An answer with another code: the channel is closed, and the answer's rest is passed on all the same.\<close>

text \<open>a proxy that refuses: an answer with any code other than 200 closes the channel and is logged,
  yet the tunnel then counts as established: what follows the headers, and everything the proxy sends
  later, is still written to the attacker, and no later answer is checked.\<close>

theorem refused_tunnel_still_passes:
  assumes "code < 10 ^ 4300" "code \<noteq> 200" "\<not> tunnel_established c"
  shows "let c' = tunnel_writes ((response_head code h @ r) # ds) c in
    close_calls c' = close_calls c + 1 \<and> tunnel_established c'
    \<and> forward_log c' = forward_log c @ [Tunnel_error (digits_of_nat code)]
    \<and> to_attacker c' = to_attacker c @ strip_response (response_head code h @ r) # ds"
proof -
  have w: "fst (tunnel_write (response_head code h @ r) c) = c\<lparr>close_calls := close_calls c + 1,
      forward_log := forward_log c @ [Tunnel_error (digits_of_nat code)],
      tunnel_established := True, to_attacker := to_attacker c @ [strip_response (response_head code h @ r)]\<rparr>"
    using tunnel_write_response [OF assms(1,3), of h r] assms(2) by simp
  show ?thesis unfolding Let_def tunnel_writes.simps w by (simp add: established_passes)
qed

lemma refused_tunnel_still_passes_witness:
  "let c' = tunnel_writes [response_head 407 ''x'', ''login:''] channel_new in
    close_calls c' = close_calls channel_new + 1 \<and> tunnel_established c'
    \<and> forward_log c' = forward_log channel_new @ [Tunnel_error (digits_of_nat 407)]
    \<and> to_attacker c' = to_attacker channel_new @ [strip_response (response_head 407 ''x''), ''login:'']"
proof -
  show ?thesis
    using refused_tunnel_still_passes [OF short_code, of 407 channel_new "''x''" "[]" "[''login:'']"] by (simp add: channel_new_def del: digits_of_nat.simps)
qed

text \<open>a response the code cannot read: one that starts with HTTP and has no blank raises out of the
  write (only the failed conversion is caught), one whose second word is no number closes the channel and
  is not passed on, and one that does not start with HTTP is passed on with the answer still awaited.\<close>

theorem tunnel_answer_cases:
  assumes "\<not> tunnel_established c"
  shows "(py_lower (take 4 d) = ''http'' \<and> CHR '' '' \<notin> set d \<longrightarrow> tunnel_write d c = (c, Inl IndexError))
    \<and> (py_lower (take 4 d) = ''http'' \<and> split_on (CHR '' '') d = w # code # ws \<and> int_text code = Inl e
      \<longrightarrow> tunnel_write d c = (close_channel (c\<lparr>forward_log := forward_log c @ [Tunnel_error code]\<rparr>), Inr ()))
    \<and> (py_lower (take 4 d) \<noteq> ''http'' \<longrightarrow> tunnel_write d c = (c\<lparr>to_attacker := to_attacker c @ [d]\<rparr>, Inr ()))"
  using assms split_on_no_sep [of "CHR '' ''" d] by (simp add: tunnel_write_def Let_def py_nth_def)

lemma http_lower: "py_lower (take 4 (''HTTP'' @ s)) = ''http''"
  by (simp add: py_lower_def lower_char_def char_of_eq_iff)

lemma tunnel_answer_cases_witness:
  "tunnel_write ''HTTP'' channel_new = (channel_new, Inl IndexError)
   \<and> tunnel_write ''HTTP/1.1 abc'' channel_new
     = (close_channel (channel_new\<lparr>forward_log := [Tunnel_error ''abc'']\<rparr>), Inr ())"
proof -
  have n: "\<not> tunnel_established channel_new" "forward_log channel_new = []" by (simp_all add: channel_new_def)
  have i: "int_text ''abc'' = Inl ValueError" by code_simp
  show ?thesis
    using tunnel_answer_cases [OF n(1), of "''HTTP''"] http_lower [of "[]"]
      tunnel_answer_cases [OF n(1), of "''HTTP/1.1 abc''" "''HTTP/1.1''" "''abc''" "[]" ValueError]
      http_lower [of "''/1.1 abc''"] i n(2)
    by simp
qed

text \<open>an answer cut between two packets: when the first packet ends before the empty line, the whole
  of it and the remaining header lines of the next packet all reach the attacker as tunnelled data.\<close>

theorem cut_answer_leaks:
  assumes "find_sub (crlf_text @ crlf_text) (response_head 200 h) = None"
  shows "to_attacker (tunnel_writes [response_head 200 h, r] channel_new) = [response_head 200 h, r]"
proof -
  have w: "to_attacker (fst (tunnel_write (response_head 200 h) channel_new)) = [response_head 200 h]"
      "tunnel_established (fst (tunnel_write (response_head 200 h) channel_new))"
    using tunnel_write_response [OF short_code, of 200 channel_new h "[]"] assms
    by (simp_all add: channel_new_def strip_response_def)
  show ?thesis
    by (simp only: tunnel_writes.simps(2) [of "response_head 200 h"] established_passes [OF w(2)]) (simp add: w)
qed

lemma cut_answer_leaks_witness:
  "to_attacker (tunnel_writes [response_head 200 ''OK'', ''Via: p''] channel_new) = [response_head 200 ''OK'', ''Via: p'']"
  by (rule cut_answer_leaks, simp add: response_head_def digits_of_nat.simps [of 200] digits_of_nat.simps [of 20]
      digits_of_nat.simps [of 2] char_of_eq_iff del: digits_of_nat.simps)

lemma tunnel_strips_answer_witness:
  "let c = fst (tunnel_open (''h'', int 80) channel_new);
       c' = tunnel_writes [response_head 200 ''OK'' @ crlf_text @ crlf_text @ ''SSH-2.0'', ''more''] c in
    to_target c' = [''CONNECT '' @ ''h'' @ '':'' @ digits_of_nat 80 @ '' HTTP/1.1'' @ crlf_text @ crlf_text]
    \<and> to_attacker c' = [''SSH-2.0'', ''more''] \<and> close_calls c' = 0 \<and> tunnel_established c'"
  by (rule tunnel_strips_answer; simp add: is_ascii_def response_head_def digits_of_nat.simps [of 200]
      digits_of_nat.simps [of 20] digits_of_nat.simps [of 2] char_of_eq_iff del: digits_of_nat.simps)

subsection \<open>Which channel\<close>

text \<open>An item of the configuration: a port and the host and port it stands for, numbers of at most five digits.\<close>

fun forward_item :: "string \<Rightarrow> nat \<times> string \<times> nat \<Rightarrow> string \<times> string" where
  "forward_item prefix (p, h, q) = (prefix @ digits_of_nat p, h @ CHR '':'' # digits_of_nat q)"

fun item_ok :: "nat \<times> string \<times> nat \<Rightarrow> bool" where
  "item_ok (p, h, q) \<longleftrightarrow> p < 100000 \<and> q < 100000 \<and> CHR '':'' \<notin> set h"

fun item_entry :: "nat \<times> string \<times> nat \<Rightarrow> int \<times> host_port" where
  "item_entry (p, h, q) = (int p, h, int q)"

lemma digits_free: "c \<notin> {CHR ''0''..CHR ''9''} \<Longrightarrow> \<not> is_digit c \<Longrightarrow> c \<notin> set (digits_of_nat n)"
  using digits_all [of n] by (auto simp: list_all_iff)

lemma split_on_prefix_last:
  "c \<notin> set b \<Longrightarrow> last (split_on c (a @ c # b)) = b"
proof (induction a)
  case Nil
  then show ?case by (simp add: split_on_no_sep)
next
  case (Cons x a)
  show ?case
  proof (cases "split_on c (a @ c # b)")
    case (Cons p ps)
    have "ps \<noteq> []"
    proof
      assume "ps = []"
      then have "a @ c # b = p" using join_split_on [of c "a @ c # b"] Cons by simp
      moreover have "c \<notin> set p" using split_on_pieces [of p c "a @ c # b"] Cons by simp
      ultimately show False by auto
    qed
    then show ?thesis using Cons.IH Cons.prems Cons by simp
  qed simp
qed

lemma forward_table_item:
  assumes "item_ok e" "prefix = pre @ ''_''"
  shows "forward_table prefix (forward_item prefix e # items) d
    = forward_table prefix items (AList.update (fst (item_entry e)) (snd (item_entry e)) d)"
proof -
  obtain p h q where e: "e = (p, h, q)" by (cases e)
  have n: "CHR ''_'' \<notin> set (digits_of_nat p)" by (rule digits_free) (auto simp: is_digit_def)
  have c: "CHR '':'' \<notin> set (digits_of_nat q)" by (rule digits_free) (auto simp: is_digit_def)
  have l: "last (split_on (CHR ''_'') (prefix @ digits_of_nat p)) = digits_of_nat p"
    using split_on_prefix_last [OF n, of pre] assms(2) by simp
  have s: "split_on (CHR '':'') (h @ CHR '':'' # digits_of_nat q) = [h, digits_of_nat q]"
    using assms(1) e split_on_append [of "CHR '':''" h] split_on_no_sep [OF c] by simp
  show ?thesis
    using assms(1) by (simp add: e l s Let_def py_nth_def int_text_digits [OF less_code_port])
qed

lemma forward_table_items:
  assumes "\<forall>e \<in> set es. item_ok e" "prefix = pre @ ''_''"
  shows "\<exists>d'. forward_table prefix (map (forward_item prefix) es @ items) d = forward_table prefix items d'
    \<and> map_of d' = map_of (rev (map item_entry es) @ d)"
  using assms(1)
proof (induction es arbitrary: d)
  case (Cons e es)
  obtain d' where "forward_table prefix (map (forward_item prefix) es @ items)
        (AList.update (fst (item_entry e)) (snd (item_entry e)) d) = forward_table prefix items d'"
      "map_of d' = map_of (rev (map item_entry es) @ AList.update (fst (item_entry e)) (snd (item_entry e)) d)"
    using Cons by fastforce
  then show ?case
    using forward_table_item [of e prefix pre "map (forward_item prefix) es @ items" d] Cons.prems assms(2)
    by (auto simp: update_conv' map_add_def split: option.splits)
next
  case Nil
  then show ?case by auto
qed

lemma forward_table_other: "\<forall>i \<in> set items. \<not> starts_with (fst i) prefix \<Longrightarrow> forward_table prefix items d = Inr d"
  by (induction items) auto

text \<open>where a request goes when redirection is on and the section holds well-formed redirect items,
  then items of other names: a port with a redirect item goes to the target of the last item that names
  it, whatever the tunnel table says, and a port without one is treated as if redirection were off.\<close>

theorem redirect_last_item:
  assumes "forward_redirect conf" "ssh_items conf = map (forward_item ''forward_redirect_'') es @ items"
    "\<forall>e \<in> set es. item_ok e" "\<forall>i \<in> set items. \<not> starts_with (fst i) ''forward_redirect_''"
  shows "open_connect_forwarding conf (host, port) =
    (case map_of (rev (map item_entry es)) port of
       Some hp \<Rightarrow> Inr (Redirect hp)
     | None \<Rightarrow> open_connect_forwarding (conf\<lparr>forward_redirect := False\<rparr>) (host, port))"
proof -
  obtain d' where d: "forward_table ''forward_redirect_'' (ssh_items conf) [] = forward_table ''forward_redirect_'' items d'"
      "map_of d' = map_of (rev (map item_entry es))"
    using forward_table_items [OF assms(3), of "''forward_redirect_''" "''forward_redirect''" items "[]"] assms(2) by auto
  show ?thesis
    using assms(1) by (simp add: open_connect_forwarding_def d forward_table_other [OF assms(4)] split: option.splits)
qed

lemma redirect_last_item_witness:
  "open_connect_forwarding \<lparr>forward_redirect = True, forward_tunnel = False,
      ssh_items = map (forward_item ''forward_redirect_'') [(25, ''a'', 12525), (25, ''b'', 2525)]\<rparr> (''mx'', 25)
   = Inr (Redirect (''b'', 2525))"
  by (subst redirect_last_item [of _ "[(25, ''a'', 12525), (25, ''b'', 2525)]" "[]"]) simp_all

text \<open>one bad item spoils the table: a redirect item without a colon, after any well-formed ones, makes
  every request of every client fail with an exception, also for ports that have a good item.\<close>

theorem bad_item_stops_forwarding:
  assumes "forward_redirect conf"
    "ssh_items conf = map (forward_item ''forward_redirect_'') es @ (''forward_redirect_'' @ k, v) # items"
    "\<forall>e \<in> set es. item_ok e" "CHR '':'' \<notin> set v"
  shows "open_connect_forwarding conf hp = Inl IndexError"
proof -
  obtain d' where d: "forward_table ''forward_redirect_'' (ssh_items conf) []
      = forward_table ''forward_redirect_'' ((''forward_redirect_'' @ k, v) # items) d'"
    using forward_table_items [OF assms(3), of "''forward_redirect_''" "''forward_redirect''"
      "(''forward_redirect_'' @ k, v) # items" "[]"] assms(2) by auto
  show ?thesis
    using assms(1,4) by (simp add: open_connect_forwarding_def d split_on_no_sep Let_def py_nth_def)
qed

lemma bad_item_stops_forwarding_witness:
  "open_connect_forwarding \<lparr>forward_redirect = True, forward_tunnel = False,
      ssh_items = [(''forward_redirect_25'', ''localhost'')]\<rparr> (''mx'', 80) = Inl IndexError"
  by (rule bad_item_stops_forwarding [of _ "[]" "''25''" "''localhost''" "[]"]) simp_all

end
