(* ===== verification/Commands_Text.thy ===== *)
theory Commands_Text
  imports Commands_Fs Prelude_Text
begin

section \<open>Text commands\<close>

text \<open>
  Model of \<open>commands/cut.py\<close>, \<open>uniq.py\<close>, \<open>wc.py\<close>, \<open>base64.py\<close>, \<open>tee.py\<close> and \<open>chmod.py\<close>. As in
  \<open>Commands_Fs\<close> help and version texts are parameters, and the result of a command that overrides
  \<open>start\<close> says whether it has called \<open>exit\<close>; the others wait for lines of the terminal. What a command
  prints is computed as pieces, one for each call of \<open>write\<close>.
\<close>

text \<open>Lines of piped data: the piece after the last newline is dropped if it is empty.\<close>

definition data_lines :: "string \<Rightarrow> string list" where
  "data_lines data = (let ls = split_on (CHR 0x0A) data in if last ls = [] then butlast ls else ls)"

subsection \<open>cut\<close>

record cut_conf =
  delimiter :: string
  field_spec :: "string option"
  suppress :: bool

text \<open>The loop over the options; the left result is a text to print before exit.\<close>

fun cut_options :: "string \<Rightarrow> opts \<Rightarrow> cut_conf \<Rightarrow> string + cut_conf" where
  "cut_options help [] c = Inr c"
| "cut_options help ((o1, v) # os) c =
     (if o1 = ''--help'' then Inl help
      else if o1 = ''--version'' then Inl (''cut (GNU coreutils) 8.30'' @ newline)
      else if o1 \<in> {''-d'', ''--delimiter''} then cut_options help os (c\<lparr>delimiter := v\<rparr>)
      else if o1 \<in> {''-f'', ''--fields''} then cut_options help os (c\<lparr>field_spec := Some v\<rparr>)
      else if o1 = ''-s'' then cut_options help os (c\<lparr>suppress := True\<rparr>)
      else if o1 \<in> {''-b'', ''-c''} then cut_options help os (c\<lparr>field_spec := Some v\<rparr>)
      else cut_options help os c)"

type_synonym field_range = "int \<times> int option"

definition parse_field_part :: "string \<Rightarrow> field_range res" where
  "parse_field_part part =
     (if CHR ''-'' \<in> set part then
        (let start_s = takeWhile (\<lambda>c. c \<noteq> CHR ''-'') part; end_s = drop 1 (dropWhile (\<lambda>c. c \<noteq> CHR ''-'') part) in
         rbind (if start_s = [] then Inr 0 else rbind (int_text start_s) (\<lambda>n. Inr (n - 1))) (\<lambda>start.
         rbind (if end_s = [] then Inr None else rbind (int_text end_s) (\<lambda>n. Inr (Some n))) (\<lambda>end'.
           Inr (start, end'))))
      else rbind (int_text part) (\<lambda>n. Inr (n - 1, Some n)))"

fun all_ok :: "('a \<Rightarrow> 'b res) \<Rightarrow> 'a list \<Rightarrow> 'b list res" where
  "all_ok f [] = Inr []"
| "all_ok f (x # xs) = rbind (f x) (\<lambda>y. rbind (all_ok f xs) (\<lambda>ys. Inr (y # ys)))"

definition parse_field_spec :: "string \<Rightarrow> field_range list res" where
  "parse_field_spec spec = all_ok parse_field_part (split_on (CHR '','') spec)"

text \<open>\<open>xs[start:end]\<close>: a negative bound counts from the end.\<close>

definition slice_bound :: "'a list \<Rightarrow> int \<Rightarrow> nat" where
  "slice_bound xs i = (if i < 0 then nat (int (length xs) + i) else nat i)"

definition py_slice :: "int \<Rightarrow> int option \<Rightarrow> 'a list \<Rightarrow> 'a list" where
  "py_slice start end' xs =
     drop (slice_bound xs start) (case end' of None \<Rightarrow> xs | Some e \<Rightarrow> take (slice_bound xs e) xs)"

definition select_fields :: "field_range list \<Rightarrow> string list \<Rightarrow> string list" where
  "select_fields rs cells = concat (map (\<lambda>(start, end'). py_slice start end' cells) rs)"

definition cut_line :: "cut_conf \<Rightarrow> field_range list \<Rightarrow> string \<Rightarrow> string list res" where
  "cut_line c rs line =
     (let s = decode_replace line in
      if \<not> contains (delimiter c) s then Inr (if suppress c then [] else [s @ newline])
      else if delimiter c = [] then Inl ValueError
      else Inr [join_with (delimiter c) (select_fields rs (split_str (delimiter c) s)) @ newline])"

definition cut_process :: "cut_conf \<Rightarrow> field_range list \<Rightarrow> string \<Rightarrow> unit command" where
  "cut_process c rs data =
     for_args (\<lambda>line. cbind (pure_res (\<lambda>_. cut_line c rs line)) (\<lambda>ps. then_do (out_all ps) (ret True))) (data_lines data)"

definition cut_try_help :: string where
  "cut_try_help = ''Try '' @ quote_end @ ''cut --help'' @ quote_end @ '' for more information.'' @ newline"

definition cut_files :: "(string \<Rightarrow> string) \<Rightarrow> cut_conf \<Rightarrow> field_range list \<Rightarrow> string list \<Rightarrow> unit command" where
  "cut_files ab c rs args =
     for_args (\<lambda>arg. cbind (resolv arg) (\<lambda>pname. then_do
       (catch_any (cbind (pure_res (\<lambda>w. file_contents ab (vfs w) pname)) (cut_process c rs))
         (error_write (''cut: '' @ arg @ no_such_file)))
       (ret True))) args"

definition cut_longs :: "string list" where "cut_longs = [''help'', ''version'', ''delimiter='', ''fields='']"

definition command_cut :: "(string \<Rightarrow> string) \<Rightarrow> string \<Rightarrow> string list \<Rightarrow> string option \<Rightarrow> bool command" where
  "command_cut ab help args input =
     (case getopt True ''d:f:b:c:s'' cut_longs args of
        Inl opt \<Rightarrow> then_do (error_write (''cut: invalid option -- '' @ quote_end @ opt @ quote_end @ newline))
                    (then_do (error_write cut_try_help) (ret True))
      | Inr (optlist, args1) \<Rightarrow>
          (case cut_options help optlist \<lparr>delimiter = [CHR 0x09], field_spec = None, suppress = False\<rparr> of
             Inl text1 \<Rightarrow> then_do (out text1) (ret True)
           | Inr c \<Rightarrow>
               (case field_spec c of
                  None \<Rightarrow> then_do (error_write (''cut: you must specify a list of bytes, characters, or fields'' @ newline))
                            (then_do (error_write cut_try_help) (ret True))
                | Some spec \<Rightarrow>
                    cbind (pure_res (\<lambda>_. parse_field_spec spec)) (\<lambda>rs.
                      if input \<notin> {None, Some []} then then_do (cut_process c rs (the input)) (ret True)
                      else if args1 \<noteq> [] then then_do (cut_files ab c rs args1) (ret True)
                      else ret False))))"

subsection \<open>uniq\<close>

text \<open>The lines printed and the last line kept, from the last line before.\<close>

fun uniq_lines :: "string option \<Rightarrow> string list \<Rightarrow> string list \<times> string option" where
  "uniq_lines last_line [] = ([], last_line)"
| "uniq_lines last_line (l # ls) =
     (if Some l = last_line then uniq_lines last_line ls
      else let (ps, r) = uniq_lines (Some l) ls in ((l @ newline) # ps, r))"

definition uniq_received :: "string \<Rightarrow> string option \<Rightarrow> string option command" where
  "uniq_received line last_line =
     (let (ps, r) = uniq_lines last_line [line] in then_do (out_all ps) (ret r))"

definition command_uniq :: "string \<Rightarrow> string list \<Rightarrow> string option \<Rightarrow> bool command" where
  "command_uniq help args input =
     (if ''--help'' \<in> set args then then_do (out help) (ret True)
      else if input \<notin> {None, Some []}
      then then_do (out_all (fst (uniq_lines None (data_lines (the input))))) (ret True)
      else ret False)"

subsection \<open>wc\<close>

text \<open>\<open>re.sub(b" +", b" ", s)\<close>\<close>

fun squeeze_spaces :: "string \<Rightarrow> string" where
  "squeeze_spaces (a # b # s) =
     (if a = CHR '' '' \<and> b = CHR '' '' then squeeze_spaces (b # s) else a # squeeze_spaces (b # s))"
| "squeeze_spaces s = s"

definition wc_words :: "string \<Rightarrow> nat" where
  "wc_words contents =
     length (split_on (CHR '' '') (squeeze_spaces
       (strip_chars byte_space (strip_chars (\<lambda>c. c = CHR 0x0A) contents))))"

definition wc_lines :: "string \<Rightarrow> nat" where
  "wc_lines contents = length (split_on (CHR 0x0A) contents) - 1"

fun wc_pieces :: "string list \<Rightarrow> string list \<Rightarrow> string \<Rightarrow> opts \<Rightarrow> string list" where
  "wc_pieces help version contents [] = []"
| "wc_pieces help version contents ((o1, v) # os) =
     (if o1 = ''-l'' then [digits_of_nat (wc_lines contents) @ newline]
      else if o1 = ''-w'' then [digits_of_nat (wc_words contents) @ newline]
      else if o1 = ''-m'' \<or> o1 = ''-c'' then [digits_of_nat (length contents) @ newline]
      else if o1 = ''-v'' then version else help) @ wc_pieces help version contents os"

definition wc_application :: "string list \<Rightarrow> string list \<Rightarrow> string \<Rightarrow> opts \<Rightarrow> unit command" where
  "wc_application help version contents os = out_all (wc_pieces help version contents os)"

definition wc_get_contents ::
  "(string \<Rightarrow> string) \<Rightarrow> string list \<Rightarrow> string list \<Rightarrow> string \<Rightarrow> opts \<Rightarrow> unit command" where
  "wc_get_contents ab help version filename os =
     catch_any (cbind (pure_res (\<lambda>w. file_contents ab (vfs w) filename)) (\<lambda>c. wc_application help version c os))
       (error_write (''wc: '' @ filename @ no_such_file))"

definition command_wc ::
  "(string \<Rightarrow> string) \<Rightarrow> string list \<Rightarrow> string list \<Rightarrow> string list \<Rightarrow> string option \<Rightarrow> bool command" where
  "command_wc ab help version args input =
     (if args = [] then ret True
      else if hd args = ''>'' then pure_res (\<lambda>_. Inl UnboundLocalError)
      else case getopt False ''cmlLwhv'' [] args of
        Inl opt \<Rightarrow> then_do (error_write (''wc: invalid option -- '' @ opt @ newline)) (then_do (out_all help) (ret True))
      | Inr (optlist, args1) \<Rightarrow>
          (case find (\<lambda>(o1, _). o1 = ''-v'' \<or> o1 = ''-h'') optlist of
             Some (o1, _) \<Rightarrow> then_do (out_all (if o1 = ''-v'' then version else help)) (ret True)
           | None \<Rightarrow>
               if input \<in> {None, Some []}
               then cbind (check_arguments ''wc'' (drop 1 args1)) (\<lambda>files.
                      then_do (for_args (\<lambda>pname. then_do (wc_get_contents ab help version pname optlist) (ret True)) files)
                        (ret True))
               else then_do (wc_application help version (the input) optlist) (ret True)))"

subsection \<open>base64\<close>

definition base64_alphabet :: string where
  "base64_alphabet = ''ABCDEFGHIJKLMNOPQRSTUVWXYZabcdefghijklmnopqrstuvwxyz0123456789+/''"

definition sextet_char :: "nat \<Rightarrow> char" where
  "sextet_char n = base64_alphabet ! n"

definition char_sextet :: "char \<Rightarrow> nat option" where
  "char_sextet c = (if c \<in> set base64_alphabet then Some (length (takeWhile (\<lambda>x. x \<noteq> c) base64_alphabet)) else None)"

fun b64encode :: "string \<Rightarrow> string" where
  "b64encode (a # b # c # s) =
     (let x = of_char a; y = of_char b; z = of_char c in
      [sextet_char (x div 4), sextet_char (x mod 4 * 16 + y div 16), sextet_char (y mod 16 * 4 + z div 64),
       sextet_char (z mod 64)] @ b64encode s)"
| "b64encode [a, b] =
     (let x = of_char a; y = of_char b in
      [sextet_char (x div 4), sextet_char (x mod 4 * 16 + y div 16), sextet_char (y mod 16 * 4), CHR ''=''])"
| "b64encode [a] = (let x = of_char a in [sextet_char (x div 4), sextet_char (x mod 4 * 16), CHR ''='', CHR ''=''])"
| "b64encode [] = []"

text \<open>
  Decoding as \<open>binascii\<close> does it: the position in the group of four, the bits left over, the padding
  seen. Other characters are skipped; enough padding ends the data.
\<close>

fun b64_scan :: "nat \<Rightarrow> nat \<Rightarrow> nat \<Rightarrow> string \<Rightarrow> string res" where
  "b64_scan q left pads [] = (if q = 0 then Inr [] else Inl ValueError)"
| "b64_scan q left pads (c # s) =
     (if c = CHR ''='' then
        (if 2 \<le> q \<and> 4 \<le> q + (pads + 1) then Inr []
         else b64_scan q left (if 2 \<le> q then pads + 1 else pads) s)
      else case char_sextet c of
        None \<Rightarrow> b64_scan q left pads s
      | Some n \<Rightarrow>
          if q = 0 then b64_scan 1 n 0 s
          else if q = 1 then rbind (b64_scan 2 (n mod 16) 0 s) (\<lambda>r. Inr (char_of (left * 4 + n div 16) # r))
          else if q = 2 then rbind (b64_scan 3 (n mod 4) 0 s) (\<lambda>r. Inr (char_of (left * 16 + n div 4) # r))
          else rbind (b64_scan 0 0 0 s) (\<lambda>r. Inr (char_of (left * 64 + n) # r)))"

definition b64decode :: "string \<Rightarrow> string res" where
  "b64decode s = b64_scan 0 0 0 s"

record base64_conf =
  decoding :: bool
  ignore_garbage :: bool

definition dojob :: "base64_conf \<Rightarrow> string \<Rightarrow> unit command" where
  "dojob conf s0 =
     (let s = (if ignore_garbage conf then filter (\<lambda>c. c \<in> set (base64_alphabet @ ''='')) s0 else s0) in
      if \<not> decoding conf then then_do (out (b64encode s)) (out newline)
      else catch_any (cbind (pure_res (\<lambda>_. b64decode s)) out) (error_write (''base64: invalid input'' @ newline)))"

definition base64_received :: "base64_conf \<Rightarrow> string \<Rightarrow> unit command" where
  "base64_received conf line = (if is_ascii line then dojob conf line else pure_res (\<lambda>_. Inl UnicodeEncodeError))"

fun base64_options :: "string \<Rightarrow> string \<Rightarrow> opts \<Rightarrow> base64_conf \<Rightarrow> string + base64_conf" where
  "base64_options help version [] c = Inr c"
| "base64_options help version ((o1, v) # os) c =
     (if o1 = ''--help'' then Inl help
      else if o1 = ''--version'' then Inl version
      else if o1 = ''-d'' \<or> o1 = ''--decode'' then base64_options help version os (c\<lparr>decoding := True\<rparr>)
      else if o1 = ''-i'' \<or> o1 = ''--ignore-garbage'' then base64_options help version os (c\<lparr>ignore_garbage := True\<rparr>)
      else base64_options help version os c)"

definition base64_longs :: "string list" where
  "base64_longs = [''version'', ''help'', ''decode'', ''ignore-garbage'', ''wrap='']"

definition base64_file :: "(string \<Rightarrow> string) \<Rightarrow> base64_conf \<Rightarrow> string \<Rightarrow> unit command" where
  "base64_file ab conf arg =
     cbind (resolv arg) (\<lambda>pname. cbind (pure_res (\<lambda>w. Inr (isdir (vfs w) pname))) (\<lambda>d.
       if d then error_write (''base64: read error: Is a directory'' @ newline)
       else catch_any (cbind (pure_res (\<lambda>w. file_contents ab (vfs w) pname)) (dojob conf))
              (error_write (''base64: '' @ arg @ no_such_file))))"

definition command_base64 ::
  "(string \<Rightarrow> string) \<Rightarrow> string \<Rightarrow> string \<Rightarrow> string list \<Rightarrow> string option \<Rightarrow> bool command" where
  "command_base64 ab help version args input =
     (case getopt False ''diw:'' base64_longs args of
        Inl opt \<Rightarrow> then_do (error_write (''Unrecognized option'' @ newline)) (ret True)
      | Inr (optlist, args1) \<Rightarrow>
          (case base64_options help version optlist \<lparr>decoding = False, ignore_garbage = False\<rparr> of
             Inl text1 \<Rightarrow> then_do (out text1) (ret True)
           | Inr conf \<Rightarrow>
               (case args1 of
                  [] \<Rightarrow> if input \<in> {None, Some []} then ret False else then_do (dojob conf (the input)) (ret True)
                | [a] \<Rightarrow> then_do (base64_file ab conf a) (ret True)
                | a # _ \<Rightarrow> then_do (error_write (''base64: extra operand '' @ quote_end @ a @ quote_end @ newline
                             @ ''Try '' @ quote_end @ ''base64 --help'' @ quote_end @ '' for more information.'' @ newline))
                            (ret True))))"

subsection \<open>tee\<close>

text \<open>The files that could be made, in order.\<close>

fun tee_files :: "string list \<Rightarrow> string list command" where
  "tee_files [] = ret []"
| "tee_files (arg # args) =
     cbind (resolv arg) (\<lambda>pname. cbind (pure_res (\<lambda>w. Inr (isdir (vfs w) pname))) (\<lambda>d.
       if d then then_do (error_write (''tee: '' @ arg @ '': Is a directory'' @ newline)) (tee_files args)
       else cbind (resolv (dirname pname)) (\<lambda>fname. cbind (pure_res (\<lambda>w. Inr (isdir (vfs w) fname))) (\<lambda>pd.
         if \<not> pd then then_do (error_write (''tee: '' @ arg @ no_such_file)) (tee_files args)
         else cbind
           (catch_only FileNotFound
             (\<lambda>cs. cbind (in_fs (mkfile pname (user_uid (sess cs)) (user_gid (sess cs)) 0 0x1A4 (now (sess cs)))) (\<lambda>_. ret True) cs)
             (then_do (error_write (''tee: '' @ arg @ no_such_file)) (ret False))) (\<lambda>made.
             cbind (tee_files args) (\<lambda>fs. ret (if made then pname # fs else fs)))))))"

text \<open>One line printed, then the size of every file set to the bytes written so far.\<close>

definition tee_sizes :: "string list \<Rightarrow> nat \<Rightarrow> unit command" where
  "tee_sizes files n = for_args (\<lambda>f. then_do (in_fs (update_size f (int n))) (ret True)) files"

fun tee_lines :: "string list \<Rightarrow> string list \<Rightarrow> nat \<Rightarrow> nat command" where
  "tee_lines files [] n = ret n"
| "tee_lines files (l # ls) n =
     then_do (out (l @ newline)) (then_do (tee_sizes files (n + length l + 1)) (tee_lines files ls (n + length l + 1)))"

definition tee_output :: "string list \<Rightarrow> string \<Rightarrow> nat \<Rightarrow> nat command" where
  "tee_output files inb n =
     (if inb = [] then ret n
      else cbind (pure_res (\<lambda>_. py_decode inb)) (\<lambda>inp. tee_lines files (data_lines inp) n))"

definition command_tee :: "string \<Rightarrow> string list \<Rightarrow> string option \<Rightarrow> bool command" where
  "command_tee help args input =
     (case getopt True ''aip'' [''help'', ''append'', ''version''] args of
        Inl opt \<Rightarrow> then_do (error_write (''tee: invalid option -- '' @ quote_end @ opt @ quote_end @ newline
                     @ ''Try '' @ quote_end @ ''tee --help'' @ quote_end @ '' for more information.'' @ newline)) (ret True)
      | Inr (optlist, args1) \<Rightarrow>
          if has_opt [''--help''] optlist then then_do (out help) (ret True)
          else cbind (tee_files args1) (\<lambda>files.
            if input \<in> {None, Some []} then ret False
            else cbind (tee_output files (the input) 0) (\<lambda>_. ret True)))"

subsection \<open>chmod\<close>

definition mode_op :: "char \<Rightarrow> bool" where
  "mode_op c \<longleftrightarrow> c \<in> set ''-+=''"

function mode_groups :: "string \<Rightarrow> bool" where
  "mode_groups s =
     (let g = takeWhile (\<lambda>c. \<not> mode_op c) s; r = dropWhile (\<lambda>c. \<not> mode_op c) s in
      (list_all (\<lambda>c. c \<in> set ''rwxXst'') g \<or> (length g = 1 \<and> hd g \<in> set ''ugo''))
      \<and> (case r of [] \<Rightarrow> True | _ # t \<Rightarrow> mode_groups t))"
  by pat_completeness auto
termination
proof (relation "measure length")
  fix s x r c t
  assume "x = takeWhile (\<lambda>c. \<not> mode_op c) s" "r = dropWhile (\<lambda>c. \<not> mode_op c) s" "r = c # t"
  then have "length (c # t) \<le> length s" by (metis length_dropWhile_le)
  then show "(t, s) \<in> measure length" by simp
qed simp

declare mode_groups.simps [simp del]

definition octal_char :: "char \<Rightarrow> bool" where
  "octal_char c \<longleftrightarrow> c \<in> set ''01234567''"

definition mode_matches :: "string \<Rightarrow> bool" where
  "mode_matches m =
     ((case dropWhile (\<lambda>c. c \<in> set ''ugoa'') m of [] \<Rightarrow> False | c # r \<Rightarrow> mode_op c \<and> mode_groups r)
      \<or> (let d = (case m of c # r \<Rightarrow> if mode_op c then r else m | [] \<Rightarrow> []) in d \<noteq> [] \<and> list_all octal_char d))"

text \<open>\<open>int(mode, 8)\<close> for a text that matches.\<close>

definition octal_value :: "string \<Rightarrow> int res" where
  "octal_value m =
     (let (sign, d) = split_sign m in
      if d \<noteq> [] \<and> list_all octal_char d then Inr (sign * int (value_base 8 (map (\<lambda>c. of_char c - 48) d))) else Inl ValueError)"

text \<open>The first argument that starts with a dash and is a mode is taken out.\<close>

fun take_dash_mode :: "string list \<Rightarrow> string option \<times> string list" where
  "take_dash_mode [] = (None, [])"
| "take_dash_mode (a # args) =
     (if starts_with a ''-'' \<and> mode_matches a then (Some a, args)
      else let (m, r) = take_dash_mode args in (m, a # r))"

text \<open>Whether the message of the error of \<open>getopt\<close> names the option with two dashes.\<close>

function failed_long :: "string \<Rightarrow> string list \<Rightarrow> string list \<Rightarrow> bool" where
  "failed_long shorts longs [] = False"
| "failed_long shorts longs (a # args) =
     (if a = ''--'' then False
      else if starts_with a ''--'' then
        (case do_longs longs (drop 2 a) args of Inl e \<Rightarrow> True | Inr (os, r) \<Rightarrow> failed_long shorts longs r)
      else if starts_with a ''-'' \<and> a \<noteq> ''-'' then
        (case do_shorts shorts (drop 1 a) args of Inl e \<Rightarrow> e = ''-'' | Inr (os, r) \<Rightarrow> failed_long shorts longs r)
      else failed_long shorts longs args)"
  by pat_completeness auto
termination
  by (relation "measure (\<lambda>(_, _, args). length args)")
     (auto simp: less_Suc_eq_le dest: do_shorts_shorter do_longs_shorter)

definition chmod_longs :: "string list" where
  "chmod_longs = [''changes'', ''silent'', ''quiet'', ''verbose'', ''no-preserve-root'', ''preserve-root'', ''reference='',
     ''recursive'', ''help'', ''version'']"

definition chmod_try_help :: string where
  "chmod_try_help = ''Try '' @ quote_end @ ''chmod --help'' @ quote_end @ '' for more information.'' @ newline"

definition curly :: "string \<Rightarrow> string" where
  "curly s = [CHR 0xE2, CHR 0x80, CHR 0x98] @ s @ [CHR 0xE2, CHR 0x80, CHR 0x99]"

definition chmod_one :: "string \<Rightarrow> string \<Rightarrow> bool command" where
  "chmod_one mode f =
     (if f = ''*'' then
        cbind (pure_res (\<lambda>w. rbind (get_path (vfs w) (cwd w) True) (\<lambda>d. Inr (contents_len (heap (vfs w)) d)))) (\<lambda>n.
          if n = 0 then then_do (error_write (''chmod: cannot access '' @ quote_end @ ''*'' @ quote_end @ no_such_file)) (ret True)
          else ret True)
      else cbind (resolv f) (\<lambda>path. cbind (pure_res (\<lambda>w. exists (vfs w) path)) (\<lambda>ex.
        if \<not> ex then then_do (error_write (''chmod: cannot access '' @ quote_end @ f @ quote_end @ no_such_file)) (ret True)
        else cbind (pure_res (\<lambda>w. getfile (vfs w) path True)) (\<lambda>i. case i of
            None \<Rightarrow> pure_res (\<lambda>_. Inl TypeError)
          | Some i \<Rightarrow> (case octal_value mode of
                Inl _ \<Rightarrow> ret True
              | Inr n \<Rightarrow> then_do (in_fs (\<lambda>fs. (update_node i (\<lambda>nd. nd\<lparr>A_MODE := n\<rparr>) fs, Inr ()))) (ret True))))))"

definition chmod_run :: "string option \<Rightarrow> string list \<Rightarrow> unit command" where
  "chmod_run mode files =
     (let m = (case mode of None \<Rightarrow> [] | Some m \<Rightarrow> m) in
      if (m = [] \<or> starts_with m ''-'') \<and> files = [] then error_write (''chmod: missing operand'' @ newline @ chmod_try_help)
      else if m \<noteq> [] \<and> files = []
      then error_write (''chmod: missing operand after '' @ curly m @ newline @ chmod_try_help)
      else if \<not> mode_matches m then error_write (''chmod: invalid mode: '' @ curly m @ newline @ chmod_try_help)
      else for_args (chmod_one m) files)"

definition command_chmod :: "string \<Rightarrow> string \<Rightarrow> string list \<Rightarrow> unit command" where
  "command_chmod help version args =
     (let (dash, rest) = take_dash_mode args in
      case getopt True ''cfvR'' chmod_longs rest of
        Inl opt \<Rightarrow>
          if failed_long ''cfvR'' chmod_longs rest
          then error_write (''chmod: unrecognized option '' @ quote_end @ ''--'' @ opt @ quote_end @ newline @ chmod_try_help)
          else error_write (''chmod: invalid option -- '' @ quote_end @ opt @ quote_end @ newline @ chmod_try_help)
      | Inr (opts1, args1) \<Rightarrow>
          let (mode, files) = (if dash = None \<and> args1 \<noteq> [] then (Some (hd args1), tl args1) else (dash, args1)) in
          (case find (\<lambda>(o1, _). o1 = ''--help'' \<or> o1 = ''--version'') opts1 of
             Some (o1, _) \<Rightarrow> error_write (if o1 = ''--help'' then help else version)
           | None \<Rightarrow> chmod_run mode files))"

end
