(* ===== verification/Commands_Text_Props.thy ===== *)
theory Commands_Text_Props
  imports Commands_Text Commands_Props
begin

section \<open>Properties of the text commands\<close>

unbundle bit_operations_syntax

text \<open>
  \<open>base64\<close> decodes what it encodes, \<open>uniq\<close> prints the lines without adjacent repetitions, \<open>cut\<close> the
  fields its list names, \<open>wc\<close> counts, except for its first file; and what \<open>chmod\<close> and \<open>tee\<close> do to the
  entries of the file system.
\<close>

subsection \<open>Printing on the terminal\<close>

definition on_terminal :: "command_state \<Rightarrow> bool" where
  "on_terminal cs \<longleftrightarrow> (\<exists>p ps. chain cs = p # ps \<and> targets p 1 = Some FD_TERMINAL)"

definition printed :: "string \<Rightarrow> command_state \<Rightarrow> command_state" where
  "printed data cs = cs\<lparr>sess := terminal_write data (sess cs)\<rparr>"

lemma printed_simps [simp]:
  "on_terminal (printed d cs) = on_terminal cs" "printed b (printed a cs) = printed (a @ b) cs" "printed [] cs = cs"
  "chain (printed d cs) = chain cs" "vfs (sess (printed d cs)) = vfs (sess cs)" "cwd (sess (printed d cs)) = cwd (sess cs)"
  by (simp_all add: printed_def on_terminal_def terminal_write_def)

lemma out_terminal [simp]: "on_terminal cs \<Longrightarrow> out d cs = (printed d cs, Inr ())"
  by (auto simp: on_terminal_def out_def write_stdout_def write_to_fd_def printed_def)

lemma out_all_terminal [simp]: "on_terminal cs \<Longrightarrow> out_all ps cs = (printed (concat ps) cs, Inr ())"
  unfolding out_all_def by (induction ps arbitrary: cs) simp_all

lemma example_terminal: "on_terminal example_command"
  by (simp add: example_command_def on_terminal_def initial_pipe_def default_targets_def)

subsection \<open>base64\<close>


definition base64_char :: "char \<Rightarrow> bool" where
  "base64_char c \<longleftrightarrow> c \<in> set base64_alphabet \<or> c = CHR ''=''"












text \<open>The words that switch to decoding, and that ask to ignore other characters.\<close>

definition decode_words :: "string list" where "decode_words = [''-d'', ''--decode'', ''-di'', ''-id'']"
definition ignore_words :: "string list" where "ignore_words = [''-i'', ''--ignore-garbage'', ''-di'', ''-id'']"

lemmas base64_words = decode_words_def ignore_words_def

definition word_opts :: "string \<Rightarrow> opts" where
  "word_opts w =
     (if w = ''-di'' then [(''-d'', []), (''-i'', [])] else if w = ''-id'' then [(''-i'', []), (''-d'', [])] else [(w, [])])"

lemma base64_longs_found:
  "do_longs base64_longs ''decode'' args = Inr ([(''--decode'', [])], args)"
  "do_longs base64_longs ''ignore-garbage'' args = Inr ([(''--ignore-garbage'', [])], args)"
  by (simp_all add: do_longs_def long_match_def long_result_def base64_longs_def)

lemma base64_getopt:
  assumes "w \<in> set decode_words \<union> set ignore_words" "getopt False ''diw:'' base64_longs ws = Inr (os, [])"
  shows "getopt False ''diw:'' base64_longs (w # ws) = Inr (word_opts w @ os, [])"
proof -
  have "w = ''-d'' \<or> w = ''--decode'' \<or> w = ''-di'' \<or> w = ''-id'' \<or> w = ''-i'' \<or> w = ''--ignore-garbage''"
    using assms(1) unfolding base64_words by auto
  then show ?thesis
    by (elim disjE) (simp_all add: assms(2) base64_longs_found word_opts_def)
qed

lemma base64_word:
  assumes "w \<in> set decode_words \<union> set ignore_words"
  shows "base64_options help version (word_opts w @ os) c = base64_options help version os
    \<lparr>decoding = decoding c \<or> w \<in> set decode_words, ignore_garbage = ignore_garbage c \<or> w \<in> set ignore_words\<rparr>"
proof -
  have "w = ''-d'' \<or> w = ''--decode'' \<or> w = ''-di'' \<or> w = ''-id'' \<or> w = ''-i'' \<or> w = ''--ignore-garbage''"
    using assms unfolding base64_words by auto
  then show ?thesis
    by (elim disjE; cases c) (simp_all add: base64_words word_opts_def)
qed

lemma base64_flags:
  assumes "set ws \<subseteq> set decode_words \<union> set ignore_words"
  shows "\<exists>os. getopt False ''diw:'' base64_longs ws = Inr (os, [])
    \<and> (\<forall>c. base64_options help version os c =
         Inr \<lparr>decoding = decoding c \<or> set ws \<inter> set decode_words \<noteq> {},
              ignore_garbage = ignore_garbage c \<or> set ws \<inter> set ignore_words \<noteq> {}\<rparr>)"
  using assms
proof (induction ws)
  case (Cons w ws)
  then obtain os where os: "getopt False ''diw:'' base64_longs ws = Inr (os, [])"
    "\<forall>c. base64_options help version os c =
         Inr \<lparr>decoding = decoding c \<or> set ws \<inter> set decode_words \<noteq> {},
              ignore_garbage = ignore_garbage c \<or> set ws \<inter> set ignore_words \<noteq> {}\<rparr>"
    by auto
  have w: "w \<in> set decode_words \<union> set ignore_words" using Cons.prems by auto
  then show ?case
    using base64_getopt [OF w os(1)]
    by (intro exI [of _ "word_opts w @ os"]) (auto simp: base64_word os(2))
qed simp



text \<open>With \<open>-i\<close> and without \<open>-d\<close> the other characters are dropped from what is encoded, so the
  input is not given back; the help text says that the option is for decoding.\<close>

theorem base64_ignore_drops_input:
  assumes "on_terminal cs" "s \<noteq> []"
  shows "command_base64 ab help version [''-i''] (Some s) cs
    = (printed (b64encode (filter base64_char s) @ newline) cs, Inr True)"
proof -
  have f: "filter (\<lambda>c. c \<in> set (base64_alphabet @ ''='')) s = filter base64_char s"
    by (rule filter_cong) (auto simp: base64_char_def)
  obtain os where "getopt False ''diw:'' base64_longs [''-i''] = Inr (os, [])"
    "base64_options help version os \<lparr>decoding = False, ignore_garbage = False\<rparr>
       = Inr \<lparr>decoding = False, ignore_garbage = True\<rparr>"
    using base64_flags [of "[''-i'']" "help" "version"] by (auto simp: base64_words)
  then show ?thesis using assms by (simp add: command_base64_def dojob_def f del: set_append)
qed

subsection \<open>uniq\<close>

lemma uniq_lines_new: "Some l \<noteq> k \<Longrightarrow> fst (uniq_lines k (l # ls)) = (l @ newline) # fst (uniq_lines (Some l) ls)"
  by (simp add: split_beta)

lemma uniq_lines_some: "fst (uniq_lines (Some a) ls) = map (\<lambda>l. l @ newline) (tl (remdups_adj (a # ls)))"
proof (induction ls arbitrary: a)
  case (Cons l ls)
  show ?case
  proof (cases "l = a")
    case False
    have r: "map (\<lambda>l. l @ newline) (remdups_adj (l # ls)) = (l @ newline) # map (\<lambda>l. l @ newline) (tl (remdups_adj (l # ls)))"
      by (metis list.simps(9) remdups_adj_Cons_alt)
    have "tl (remdups_adj (a # l # ls)) = remdups_adj (l # ls)" using False by simp
    then show ?thesis using False Cons uniq_lines_new [of l "Some a" ls] r by simp
  qed (use Cons in simp)
qed simp

lemma uniq_lines_none: "fst (uniq_lines None ls) = map (\<lambda>l. l @ newline) (remdups_adj ls)"
proof (cases ls)
  case (Cons l r)
  have "remdups_adj (l # r) = l # tl (remdups_adj (l # r))" by simp
  then show ?thesis unfolding Cons using uniq_lines_new [of l None r] by (metis list.simps(9) option.distinct(1) uniq_lines_some)
qed simp

lemma uniq_lines_append:
  "uniq_lines k (xs @ ys) = (let (a, k1) = uniq_lines k xs; (b, k2) = uniq_lines k1 ys in (a @ b, k2))"
  by (induction xs arbitrary: k) (auto simp: Let_def split: prod.splits)

text \<open>A session in which lines are typed one after the other.\<close>

fun uniq_typed :: "string list \<Rightarrow> string option \<Rightarrow> string option command" where
  "uniq_typed [] k = ret k"
| "uniq_typed (l # ls) k = cbind (uniq_received l k) (uniq_typed ls)"

lemma uniq_typed_terminal:
  "on_terminal cs \<Longrightarrow> uniq_typed ls k cs = (printed (concat (fst (uniq_lines k ls))) cs, Inr (snd (uniq_lines k ls)))"
  by (induction ls arbitrary: k cs) (auto simp: uniq_received_def Let_def split: prod.splits)

text \<open>\<open>uniq\<close> prints the lines without those equal to the line before, in order, and it prints the same
  whether the data is piped in as a whole or its lines are typed one at a time.\<close>

theorem uniq_output:
  assumes "on_terminal cs" "data \<noteq> []" "''--help'' \<notin> set args"
  shows "command_uniq help args (Some data) cs
      = (printed (concat (map (\<lambda>l. l @ newline) (remdups_adj (data_lines data)))) cs, Inr True)
    \<and> fst (uniq_typed (data_lines data) None cs) = fst (command_uniq help args (Some data) cs)"
  using assms by (simp add: command_uniq_def uniq_lines_none uniq_typed_terminal)

lemma uniq_output_witness:
  "command_uniq [] [] (Some ''a'') example_command
     = (printed (concat (map (\<lambda>l. l @ newline) (remdups_adj (data_lines ''a'')))) example_command, Inr True)
   \<and> fst (uniq_typed (data_lines ''a'') None example_command) = fst (command_uniq [] [] (Some ''a'') example_command)"
  by (rule uniq_output) (simp_all add: example_terminal)

subsection \<open>cut\<close>

lemma split_str_char: "split_str [d] s = split_on d s"
proof (induction s)
  case (Cons c s)
  show ?case
  proof (cases "c = d")
    case True
    then have "find_sub [d] (c # s) = Some 0" by simp
    then show ?thesis using True Cons by (subst split_str.simps) simp
  next
    case False
    show ?thesis
    proof (cases "find_sub [d] s")
      case None
      then have "split_str [d] s = [s]" by (subst split_str.simps) simp
      then have "split_on d s = [s]" using Cons by simp
      then show ?thesis using None False by (subst split_str.simps) simp
    next
      case (Some i)
      then have "split_str [d] s = take i s # split_str [d] (drop (Suc i) s)" by (subst split_str.simps) simp
      then have "split_on d s = take i s # split_str [d] (drop (Suc i) s)" using Cons.IH by simp
      then show ?thesis using Some False by (subst split_str.simps) simp
    qed
  qed
qed (simp add: split_str.simps)

datatype field_item = One_field nat | Fields_from nat | Fields_to nat | Fields_between nat nat

fun item_text :: "field_item \<Rightarrow> string" where
  "item_text (One_field n) = digits_of_nat n"
| "item_text (Fields_from n) = digits_of_nat n @ ''-''"
| "item_text (Fields_to n) = ''-'' @ digits_of_nat n"
| "item_text (Fields_between a b) = digits_of_nat a @ ''-'' @ digits_of_nat b"

fun item_fields :: "string list \<Rightarrow> field_item \<Rightarrow> string list" where
  "item_fields xs (One_field n) = take 1 (drop (n - 1) xs)"
| "item_fields xs (Fields_from n) = drop (n - 1) xs"
| "item_fields xs (Fields_to n) = take n xs"
| "item_fields xs (Fields_between a b) = drop (a - 1) (take b xs)"

definition field_number :: "nat \<Rightarrow> bool" where
  "field_number n \<longleftrightarrow> 0 < n \<and> n < 1000000000"

fun item_numbers :: "field_item \<Rightarrow> bool" where
  "item_numbers (One_field n) \<longleftrightarrow> field_number n"
| "item_numbers (Fields_from n) \<longleftrightarrow> field_number n"
| "item_numbers (Fields_to n) \<longleftrightarrow> field_number n"
| "item_numbers (Fields_between a b) \<longleftrightarrow> field_number a \<and> field_number b"

fun item_range :: "field_item \<Rightarrow> field_range" where
  "item_range (One_field n) = (int n - 1, Some (int n))"
| "item_range (Fields_from n) = (int n - 1, None)"
| "item_range (Fields_to n) = (0, Some (int n))"
| "item_range (Fields_between a b) = (int a - 1, Some (int b))"

lemma digits_no: "\<not> is_digit c \<Longrightarrow> c \<notin> set (digits_of_nat n)"
  using digits_all [of n] by (auto simp: list_all_iff)

lemma dash_no_digit: "CHR ''-'' \<notin> set (digits_of_nat n)" "CHR '','' \<notin> set (digits_of_nat n)"
  by (rule digits_no, simp add: is_digit_def)+

lemma cut_at_dash:
  "CHR ''-'' \<notin> set p \<Longrightarrow> takeWhile (\<lambda>c. c \<noteq> CHR ''-'') (p @ CHR ''-'' # r) = p"
  "CHR ''-'' \<notin> set p \<Longrightarrow> dropWhile (\<lambda>c. c \<noteq> CHR ''-'') (p @ CHR ''-'' # r) = CHR ''-'' # r"
  by (induction p) auto

lemma parse_item: "item_numbers i \<Longrightarrow> parse_field_part (item_text i) = Inr (item_range i)"
  by (cases i) (auto simp: parse_field_part_def field_number_def dash_no_digit cut_at_dash int_text_small)


lemma item_no_comma: "CHR '','' \<notin> set (item_text i)"
  by (cases i) (auto simp: dash_no_digit)

lemma parse_items:
  assumes "is \<noteq> []" "\<forall>i \<in> set is. item_numbers i"
  shows "parse_field_spec (join_with '','' (map item_text is)) = Inr (map item_range is)"
proof -
  have s: "split_on (CHR '','') (join_with '','' (map item_text is)) = map item_text is"
    using assms(1) item_no_comma by (intro split_on_join) auto
  have "all_ok parse_field_part (map item_text is) = Inr (map item_range is)"
    using assms(2) by (induction "is") (auto simp: parse_item)
  then show ?thesis by (simp add: parse_field_spec_def s)
qed

lemma slice_bounds [simp]:
  "slice_bound xs (int n) = n" "0 < n \<Longrightarrow> slice_bound xs (int n - 1) = n - 1" "slice_bound xs 0 = 0"
  by (auto simp: slice_bound_def nat_diff_distrib)

lemma take_one: "0 < n \<Longrightarrow> drop (n - 1) (take n xs) = take 1 (drop (n - 1) xs)"
  by (simp add: drop_take)

lemma item_slice: "item_numbers i \<Longrightarrow> (case item_range i of (start, end') \<Rightarrow> py_slice start end' xs) = item_fields xs i"
  by (cases i) (auto simp: py_slice_def field_number_def take_one simp del: take_Suc One_nat_def)

text \<open>\<open>cut -f\<close> with a list of numbers and ranges counted from one: of a line of at least two fields it
  prints the fields of each item in the order of the list (an item named twice is printed twice), put
  together with the delimiter; a line without the delimiter is printed whole, or left out with \<open>-s\<close>.\<close>

theorem cut_selects:
  assumes "is \<noteq> []" "\<forall>i \<in> set is. item_numbers i" "delimiter c = [d]" "py_decode line = Inr line"
  shows "\<exists>rs. parse_field_spec (join_with '','' (map item_text is)) = Inr rs
    \<and> cut_line c rs line = Inr
        (if d \<in> set line then [join_with [d] (concat (map (item_fields (split_on d line)) is)) @ newline]
         else if suppress c then [] else [line @ newline])"
proof -
  have "select_fields (map item_range is) xs = concat (map (item_fields xs) is)" for xs
    using assms(2) by (induction "is") (auto simp: select_fields_def item_slice [symmetric])
  moreover have "contains [d] line \<longleftrightarrow> d \<in> set line"
    by (auto simp: contains_iff in_set_conv_decomp)
  ultimately show ?thesis
    using assms by (simp add: parse_items cut_line_def Let_def decode_replace_id split_str_char)
qed

lemma cut_selects_witness:
  "\<exists>rs. parse_field_spec ''3,1-2'' = Inr rs
    \<and> cut_line \<lparr>delimiter = '':'', field_spec = None, suppress = False\<rparr> rs ''a:b:c:d'' = Inr [''c:a:b'' @ newline]"
proof -
  have d: "digits_of_nat 3 = ''3''" "digits_of_nat 2 = ''2''" "digits_of_nat (Suc 0) = ''1''"
    by (simp_all add: digits_of_nat.simps [of 3] digits_of_nat.simps [of 2] digits_of_nat.simps [of "Suc 0"] char_of_eq_iff)
  have u: "py_decode ''a:b:c:d'' = Inr ''a:b:c:d''" by (rule py_decode_ascii) (simp add: is_ascii_def)
  show ?thesis
    using cut_selects [of "[One_field 3, Fields_between 1 2]" "\<lparr>delimiter = '':'', field_spec = None, suppress = False\<rparr>"
        "CHR '':''" "''a:b:c:d''"] u
    by (simp add: field_number_def d)
qed

text \<open>Field numbers below one are accepted: \<open>0-\<close> is the last field.\<close>

lemma cut_from_zero:
  "parse_field_spec ''0-'' = Inr [(- 1, None)] \<and> (xs \<noteq> [] \<longrightarrow> select_fields [(- 1, None)] xs = [last xs])"
proof
  show "parse_field_spec ''0-'' = Inr [(- 1, None)]" by code_simp
  have "drop (length xs - 1) xs = [last xs]" if "xs \<noteq> []" using that by (induction xs) (auto simp: drop_Cons')
  then show "xs \<noteq> [] \<longrightarrow> select_fields [(- 1, None)] xs = [last xs]"
    by (auto simp: select_fields_def py_slice_def slice_bound_def nat_diff_distrib neq_Nil_conv)
qed

subsection \<open>wc\<close>

lemma length_split_on: "length (split_on c s) = Suc (count_list s c)"
  by (induction s) (auto split: list.splits)

definition wc_word :: "string \<Rightarrow> bool" where
  "wc_word w \<longleftrightarrow> w \<noteq> [] \<and> (\<forall>c \<in> set w. \<not> byte_space c)"

text \<open>Words, each behind at least one space.\<close>

fun spaced :: "(nat \<times> string) list \<Rightarrow> string" where
  "spaced [] = []"
| "spaced ((k, w) # r) = replicate (Suc k) (CHR '' '') @ w @ spaced r"

lemma wc_word_space: "wc_word w \<Longrightarrow> CHR '' '' \<notin> set w"
  by (auto simp: wc_word_def byte_space_def)

lemma squeeze_word: "CHR '' '' \<notin> set w \<Longrightarrow> squeeze_spaces (w @ t) = w @ squeeze_spaces t"
proof (induction w)
  case (Cons a w)
  then have a: "a \<noteq> CHR '' ''" by auto
  have "squeeze_spaces (a # s) = a # squeeze_spaces s" for s using a by (cases s) auto
  then show ?case using Cons by simp
qed simp

lemma squeeze_gap:
  "wc_word w \<Longrightarrow> squeeze_spaces (replicate (Suc k) (CHR '' '') @ w @ t) = CHR '' '' # squeeze_spaces (w @ t)"
proof (induction k)
  case 0
  then show ?case using wc_word_space [OF 0] by (cases w) (auto simp: wc_word_def)
qed simp

lemma squeeze_spaced:
  "CHR '' '' \<notin> set v \<Longrightarrow> \<forall>(k, w) \<in> set kws. wc_word w \<Longrightarrow>
   squeeze_spaces (v @ spaced kws) = join_with '' '' (v # map snd kws)"
proof (induction kws arbitrary: v)
  case Nil
  then show ?case using squeeze_word [of v "[]"] by simp
next
  case (Cons x kws)
  obtain k w where x: "x = (k, w)" by (cases x)
  have w: "wc_word w" using Cons.prems x by simp
  have "squeeze_spaces (v @ spaced (x # kws)) = v @ CHR '' '' # squeeze_spaces (w @ spaced kws)"
    using squeeze_word [OF Cons.prems(1)] squeeze_gap [OF w] by (simp add: x del: replicate.simps)
  also have "squeeze_spaces (w @ spaced kws) = join_with '' '' (w # map snd kws)"
    using Cons w wc_word_space by simp
  finally show ?case by (simp add: x)
qed

lemma spaced_ends:
  assumes "wc_word v" "\<forall>(k, w) \<in> set kws. wc_word w"
  shows "\<not> byte_space (hd (v @ spaced kws))" "\<not> byte_space (last (v @ spaced kws))"
proof -
  show "\<not> byte_space (hd (v @ spaced kws))" using assms(1) by (simp add: wc_word_def)
  show "\<not> byte_space (last (v @ spaced kws))"
    using assms
  proof (induction kws arbitrary: v)
    case (Cons x kws)
    obtain k w where x: "x = (k, w)" by (cases x)
    have "w \<noteq> []" using Cons.prems x by (simp add: wc_word_def)
    then have "last (v @ spaced (x # kws)) = last (w @ spaced kws)"
      by (simp add: x last_append)
    then show ?case using Cons x by simp
  qed (simp add: wc_word_def)
qed

lemma strip_ends:
  assumes "xs \<noteq> []" "\<not> byte_space (hd xs)" "\<not> byte_space (last xs)"
  shows "strip_chars byte_space (strip_chars (\<lambda>c. c = CHR 0x0A) xs) = xs"
proof -
  have "\<not> (\<lambda>c. c = CHR 0x0A) (hd xs)" "\<not> (\<lambda>c. c = CHR 0x0A) (last xs)" using assms by (auto simp: byte_space_def)
  then show ?thesis using assms by (simp add: strip_none)
qed

text \<open>\<open>wc\<close> counts line ends, and words as long as they stand on one line with spaces between them;
  words on several lines without a space are one word, and so is an empty file.\<close>

theorem wc_counts:
  "wc_lines contents = count_list contents (CHR 0x0A)
   \<and> (wc_word v \<and> (\<forall>(k, w) \<in> set kws. wc_word w) \<longrightarrow> wc_words (v @ spaced kws) = Suc (length kws))
   \<and> (ws \<noteq> [] \<and> (\<forall>w \<in> set ws. wc_word w) \<longrightarrow> wc_words (join_with newline ws) = 1) \<and> wc_words [] = 1"
proof (intro conjI impI)
  show "wc_lines contents = count_list contents (CHR 0x0A)" by (simp add: wc_lines_def length_split_on)
  show "wc_words [] = 1" by (simp add: wc_words_def strip_chars_def lstrip_chars_def rstrip_chars_def)
next
  assume a: "wc_word v \<and> (\<forall>(k, w) \<in> set kws. wc_word w)"
  then have s: "split_on (CHR '' '') (join_with '' '' (v # map snd kws)) = v # map snd kws"
    using wc_word_space by (intro split_on_join) auto
  have ne: "v @ spaced kws \<noteq> []" using a by (simp add: wc_word_def)
  have st: "strip_chars byte_space (strip_chars (\<lambda>c. c = CHR 0x0A) (v @ spaced kws)) = v @ spaced kws"
    by (rule strip_ends [OF ne]) (use a spaced_ends in blast)+
  show "wc_words (v @ spaced kws) = Suc (length kws)"
    unfolding wc_words_def st using squeeze_spaced [of v kws] a wc_word_space s by simp
next
  assume a: "ws \<noteq> [] \<and> (\<forall>w \<in> set ws. wc_word w)"
  let ?t = "join_with newline ws"
  have e: "?t \<noteq> [] \<and> \<not> byte_space (hd ?t) \<and> \<not> byte_space (last ?t) \<and> CHR '' '' \<notin> set ?t"
    using a
  proof (induction newline ws rule: join_with.induct)
    case (3 x y zs)
    then have "wc_word x" by simp
    then show ?case using 3 wc_word_space [of x] by (auto simp: wc_word_def newline_def)
  qed (auto simp: wc_word_def byte_space_def)
  have st: "strip_chars byte_space (strip_chars (\<lambda>c. c = CHR 0x0A) ?t) = ?t"
    by (rule strip_ends) (use e in auto)
  show "wc_words ?t = 1"
    unfolding wc_words_def st using e squeeze_word [of ?t "[]"] by (simp add: split_on_no_sep)
qed

lemma wc_counts_witness:
  "wc_lines [CHR 0x0A] = count_list [CHR 0x0A] (CHR 0x0A) \<and> wc_words (''ab'' @ spaced [(2, ''c''), (0, ''d'')]) = 3
   \<and> wc_words (join_with newline [''ab'', ''c'']) = 1"
  using wc_counts [of "[CHR 0x0A]" "''ab''" "[(2, ''c''), (0, ''d'')]" "[''ab'', ''c'']"]
  by (simp add: wc_word_def byte_space_def del: spaced.simps)

text \<open>\<open>wc\<close> never looks at the first file it is given: what it does with an option and files does not
  depend on the first, and with one file it prints nothing at all.\<close>

theorem wc_skips_first_file:
  assumes "o1 \<in> {''-l'', ''-w'', ''-m'', ''-c''}" "\<not> starts_with f ''-''" "\<not> starts_with g ''-''"
  shows "command_wc ab help version (o1 # f # fs) None = command_wc ab help version (o1 # g # fs) None
    \<and> command_wc ab help version [o1, f] None cs = (cs, Inr True)"
proof -
  have ns: "h \<noteq> ''--'' \<and> \<not> starts_with h ''--''" if "\<not> starts_with h ''-''" for h :: string
    using that by (cases h) (auto simp: starts_with_iff)
  have "getopt False ''cmlLwhv'' [] (o1 # h # hs) = Inr ([(o1, [])], h # hs)" if "\<not> starts_with h ''-''" for h hs
    using assms(1) that ns [OF that] by (auto simp: rbind_def)
  then show ?thesis using assms by (auto simp: command_wc_def fun_eq_iff simp del: getopt.simps)
qed

lemma wc_skips_first_file_witness:
  "command_wc ab help version [''-l'', ''a'', ''b''] None = command_wc ab help version [''-l'', ''c'', ''b''] None
    \<and> command_wc ab help version [''-l'', ''a''] None example_command = (example_command, Inr True)"
  by (rule wc_skips_first_file) simp_all

subsection \<open>tee\<close>

definition sized :: "nat \<Rightarrow> nat \<Rightarrow> command_state \<Rightarrow> command_state" where
  "sized x k cs = cs\<lparr>sess := (sess cs)\<lparr>vfs := update_node x (\<lambda>n. n\<lparr>A_SIZE := int k\<rparr>) (vfs (sess cs))\<rparr>\<rparr>"

text \<open>The path finds the regular file \<open>x\<close>.\<close>

definition finds_file :: "string \<Rightarrow> nat \<Rightarrow> command_state \<Rightarrow> bool" where
  "finds_file p x cs \<longleftrightarrow> getfile (vfs (sess cs)) p True = Inr (Some x) \<and> A_TYPE (heap (vfs (sess cs)) x) = T_FILE"

lemma sized_finds [simp]: "finds_file p x (sized y k cs) = finds_file p x cs"
proof -
  let ?s = "vfs (sess cs)" and ?t = "vfs (sess (sized y k cs))"
  have "same_lookup (heap ?s) (heap ?t)" "frames ?t = frames ?s"
    by (simp_all add: sized_def update_node_def same_lookup_def)
  then show ?thesis using getfile_same [of ?s ?t] by (simp add: finds_file_def same_lookup_def)
qed

lemma sized_simps [simp]:
  "on_terminal (sized x k cs) = on_terminal cs" "finds_file p x (printed d cs) = finds_file p x cs"
  "sized x k (sized x j cs) = sized x k cs" "sized x k (printed d cs) = printed d (sized x k cs)"
  by (simp_all add: sized_def on_terminal_def finds_file_def update_node_def printed_def terminal_write_def)

lemma tee_sizes_one: "finds_file p x cs \<Longrightarrow> tee_sizes [p] k cs = (sized x k cs, Inr ())"
  by (simp add: tee_sizes_def in_fs_def in_vfs_def update_size_def finds_file_def sized_def)

abbreviation text_of :: "string list \<Rightarrow> string" where
  "text_of ls \<equiv> concat (map (\<lambda>l. l @ newline) ls)"

lemma newline_length [simp]: "length newline = 1"
  by (simp add: newline_def)

lemma tee_lines_terminal:
  assumes "on_terminal cs" "finds_file p x cs"
  shows "tee_lines [p] (l # ls) n cs
    = (printed (text_of (l # ls)) (sized x (n + length (text_of (l # ls))) cs), Inr (n + length (text_of (l # ls))))"
  using assms
proof (induction ls arbitrary: l n cs)
  case Nil
  then show ?case by (simp add: tee_sizes_one)
next
  case (Cons l2 ls)
  let ?cs = "printed (l @ newline) (sized x (n + length l + 1) cs)"
  have "tee_lines [p] (l # l2 # ls) n cs = tee_lines [p] (l2 # ls) (n + length l + 1) ?cs"
    using Cons.prems by (simp add: tee_sizes_one del: tee_lines.simps(2)) (simp add: tee_lines.simps(2) [of "[p]" l] tee_sizes_one del: tee_lines.simps(2))
  also have "\<dots> = (printed (text_of (l2 # ls)) (sized x (n + length l + 1 + length (text_of (l2 # ls))) ?cs),
      Inr (n + length l + 1 + length (text_of (l2 # ls))))"
    by (rule Cons.IH) (use Cons.prems in simp_all)
  finally show ?case by (simp add: add.assoc)
qed

lemma data_lines_nonempty: "data \<noteq> [] \<Longrightarrow> data_lines data \<noteq> []"
proof -
  assume d: "data \<noteq> []"
  obtain p ps where s: "split_on (CHR 0x0A) data = p # ps" by (cases "split_on (CHR 0x0A) data") auto
  show ?thesis
  proof (cases ps)
    case Nil
    then have "p = data" using s join_split_on [of "CHR 0x0A" data] by simp
    then show ?thesis using d s Nil by (simp add: data_lines_def)
  qed (use s in \<open>auto simp: data_lines_def Let_def\<close>)
qed

text \<open>\<open>tee\<close> with a new file on the terminal: the data is printed, and the file is made with the number
  of bytes printed as its size, but nothing of the data is in it: reading it gives nothing.\<close>

theorem tee_keeps_no_content:
  fixes cs :: command_state
  defines "s \<equiv> vfs (sess cs)"
  assumes "on_terminal cs" "at_dir s ps d ids" "A_TYPE (heap s d) = T_DIR" "fs_ok s" "good_piece f"
    "\<not> special (path_of ps)" "newcount s \<le> 10000" "f \<notin> (\<lambda>x. A_NAME (heap s x)) ` set ids"
    "py_decode data = Inr data" "data \<noteq> []" "command_tee help [path_of (ps @ [f])] (Some data) cs = (cs', r)"
  defines "s' \<equiv> vfs (sess cs')"
  shows "r = Inr True \<and> terminal (sess cs') = terminal (sess cs) @ text_of (data_lines data)
    \<and> getfile s' (path_of (ps @ [f])) True = Inr (Some (fresh s))
    \<and> A_SIZE (heap s' (fresh s)) = int (length (text_of (data_lines data)))
    \<and> file_contents ab s' (path_of (ps @ [f])) = Inr []"
proof -
  let ?p = "path_of (ps @ [f])"
  let ?n = "new_node f T_FILE (user_uid (sess cs)) (user_gid (sess cs)) 0 0x1A4 (now (sess cs))"
  let ?js = "filter (\<lambda>x. A_NAME (heap s x) \<noteq> f) ids"
  let ?cs1 = "cs\<lparr>sess := (sess cs)\<lparr>vfs := add_state d ?js ?n s\<rparr>\<rparr>"
  have g: "\<forall>x \<in> set (ps @ [f]). good_piece x" "\<forall>x \<in> set ps. good_piece x" using assms(6) at_dirD(1) [OF assms(3)] by simp_all
  have js: "filter (\<lambda>x. A_NAME (heap s x) = f) ids = []" using assms(9) by (auto simp: filter_empty_conv)
  have nd: "\<not> isdir s ?p"
    using at_dir_no_child [OF assms(3,6,9)] path_of_root_iff [OF g(1)] by (simp add: isdir_def has_type_def)
  have pd: "isdir s (path_of ps)" using at_dir_paths(2) [OF assms(3), of True] assms(4) by (simp add: isdir_def has_type_def)
  have mk: "mkfile ?p uid gid sz mode t s = (add_state d ?js (new_node f T_FILE uid gid sz mode t) s, Inr True)" for uid gid sz mode t
    by (rule mkfile_eq [OF assms(3,5-8)]) (simp add: js)
  have tf: "tee_files [?p] cs = (?cs1, Inr [?p])"
    using nd pd mk at_dir_paths(6) [OF assms(3,6)] unfolding s_def
    by (simp add: resolv_normal [OF g(1)] resolv_normal [OF g(2)] in_fs_def in_vfs_def catch_only_def)
  have look: "getfile (add_state d ?js ?n s) ?p True = Inr (Some (fresh s))" "heap (add_state d ?js ?n s) (fresh s) = ?n"
    using mkfile_then_lookup [OF assms(3,5-8) _ mk] js by simp_all
  have ff: "finds_file ?p (fresh s) ?cs1" using look by (simp add: finds_file_def new_node_def)
  obtain l ls where dl: "data_lines data = l # ls" using data_lines_nonempty [OF assms(11)] by (cases "data_lines data") auto
  let ?k = "length (text_of (l # ls))"
  have gopt: "getopt True sh lo [?p] = Inr ([], [?p])" for sh lo
    by (rule getopt_plain_args) (simp add: path_not_option)
  have ot: "on_terminal ?cs1" using assms(2) by (simp add: on_terminal_def)
  have c: "command_tee help [?p] (Some data) cs = (printed (text_of (l # ls)) (sized (fresh s) ?k ?cs1), Inr True)"
    using assms(10,11) tee_lines_terminal [OF ot ff, of l ls 0]
    by (simp add: command_tee_def gopt tf tee_output_def dl del: getopt.simps tee_files.simps tee_lines.simps)
  then have cs': "cs' = printed (text_of (l # ls)) (sized (fresh s) ?k ?cs1)" "r = Inr True" using assms(12) by simp_all
  have fin: "finds_file ?p (fresh s) cs'" using ff by (simp add: cs')
  have node: "heap s' (fresh s) = ?n\<lparr>A_SIZE := int ?k\<rparr>"
    using look(2) by (simp add: s'_def cs' sized_def update_node_def)
  have ne: "?p \<noteq> []" by (simp add: path_of_def)
  have gf: "getfile s' ?p True = Inr (Some (fresh s))" using fin by (simp add: finds_file_def s'_def)
  have x: "(0x1A4 :: int) AND S_IXUSR = 0" by (simp add: S_IXUSR_def)
  have "node_contents ab s' (heap s' (fresh s)) = Inr []" unfolding node using x by (simp add: node_contents_def new_node_def)
  then have "file_contents ab s' ?p = Inr []"
    by (simp add: file_contents_def resolve_normal [OF g(1)] exists_def gf ne)
  then show ?thesis
    using fin node by (simp add: finds_file_def s'_def [symmetric] cs'(2) dl) (simp add: cs'(1) sized_def printed_def terminal_write_def)
qed

lemma tee_keeps_no_content_witness:
  "\<exists>cs'. command_tee [] [''/tmp/x''] (Some ''hi'') \<lparr>sess = example_session, chain = [initial_pipe None False False]\<rparr> = (cs', Inr True)
     \<and> file_contents (\<lambda>_. []) (vfs (sess cs')) ''/tmp/x'' = Inr []"
proof -
  let ?cs = "\<lparr>sess = example_session, chain = [initial_pipe None False False]\<rparr>"
  obtain cs' r where c: "command_tee [] [path_of ([''tmp''] @ [''x''])] (Some ''hi'') ?cs = (cs', r)" by (metis surj_pair)
  have v: "vfs (sess ?cs) = example_fs" by (simp add: example_session_def)
  have o1: "on_terminal ?cs" by (simp add: on_terminal_def initial_pipe_def default_targets_def)
  have g: "good_piece ''x''" by (simp add: good_piece_def)
  have sp: "\<not> special (path_of [''tmp''])" by (simp add: special_def path_of_def SPECIAL_PATHS_def)
  have ty: "A_TYPE (heap example_fs 1) = T_DIR" "newcount example_fs \<le> 10000" by (simp_all add: example_fs_def new_node_def)
  have u: "py_decode ''hi'' = Inr ''hi''" by (rule py_decode_ascii) (simp add: is_ascii_def)
  have "r = Inr True \<and> file_contents (\<lambda>_. []) (vfs (sess cs')) (path_of ([''tmp''] @ [''x''])) = Inr []"
    using tee_keeps_no_content [of ?cs, unfolded v, OF o1 example_at_tmp ty(1) example_fs_ok g sp ty(2) _ u _ c, of "\<lambda>_. []"]
    by simp
  then show ?thesis using c by (auto simp: path_of_def)
qed

subsection \<open>chmod\<close>

lemma octal_digits_less: "list_all octal_char m \<Longrightarrow> list_all (\<lambda>d. d < 8) (map (\<lambda>c. of_char c - 48 :: nat) m)"
  by (induction m) (auto simp: octal_char_def)

lemma octal_mode_bits:
  assumes "v < 8 ^ 4"
  shows "int v AND S_IFMT = 0"
proof -
  have "int v = take_bit 12 (int v)" using assms by (simp add: take_bit_int_eq_self)
  then have "int v AND S_IFMT = int v AND (mask 12 AND S_IFMT)" by (metis and.assoc take_bit_eq_mask)
  also have "(mask 12 AND S_IFMT :: int) = 0" by (simp add: S_IFMT_def mask_eq_exp_minus_1)
  finally show ?thesis by simp
qed

definition octal_mode :: "string \<Rightarrow> nat" where
  "octal_mode m = value_base 8 (map (\<lambda>c. of_char c - 48) m)"

text \<open>What \<open>chmod\<close> does when it has found one file.\<close>

lemma chmod_one_found:
  assumes "f \<noteq> ''*''" "resolv f cs = (cs, Inr p)" "getfile (vfs (sess cs)) p True = Inr (Some i)"
  shows "chmod_one m f cs = (case octal_value m of
      Inl _ \<Rightarrow> (cs, Inr True)
    | Inr n \<Rightarrow> (cs\<lparr>sess := (sess cs)\<lparr>vfs := update_node i (\<lambda>nd. nd\<lparr>A_MODE := n\<rparr>) (vfs (sess cs))\<rparr>\<rparr>, Inr True))"
  using assms by (auto simp: chmod_one_def exists_def in_fs_def in_vfs_def split: sum.splits)

lemma no_dash: "\<not> starts_with f ''-'' \<Longrightarrow> f \<noteq> ''-'' \<and> f \<noteq> ''--'' \<and> \<not> starts_with f ''--''"
  by (cases f) (auto simp: starts_with_iff)

lemma command_chmod_plain:
  assumes "\<not> starts_with m ''-''" "m \<noteq> []" "mode_matches m" "\<forall>f \<in> set (f # fs). \<not> starts_with f ''-''"
  shows "command_chmod help version (m # f # fs) = for_args (chmod_one m) (f # fs)"
proof -
  have "take_dash_mode as = (None, as)" if "\<forall>f \<in> set as. \<not> starts_with f ''-''" for as
    using that by (induction as) auto
  then have d: "take_dash_mode (m # f # fs) = (None, m # f # fs)" using assms(1,4) by simp
  have "getopt True sh lo (m # f # fs) = Inr ([], m # f # fs)" for sh lo
    by (rule getopt_plain_args) (use assms(1,4) in auto)
  then show ?thesis using d assms(1-3) by (simp add: command_chmod_def chmod_run_def del: getopt.simps take_dash_mode.simps for_args.simps)
qed

lemma octal_matches:
  assumes "list_all octal_char m" "m \<noteq> []"
  shows "mode_matches m" "octal_value m = Inr (int (octal_mode m))" "\<not> starts_with m ''-''"
proof -
  obtain c r where m: "m = c # r" using assms(2) by (cases m) auto
  have c: "\<not> mode_op c" "c \<noteq> CHR ''-''" "c \<noteq> CHR ''+''" using assms(1) m by (auto simp: octal_char_def mode_op_def)
  show "mode_matches m" using assms c by (simp add: mode_matches_def m)
  show "octal_value m = Inr (int (octal_mode m))" using assms c by (simp add: octal_value_def split_sign_def octal_mode_def m)
  show "\<not> starts_with m ''-''" using c by (auto simp: m)
qed

text \<open>\<open>chmod\<close> with an octal mode replaces the whole mode of the file, the bits that say what kind of
  file it is included; with a mode in letters, or with \<open>*\<close> for the files of a directory, it says
  nothing and changes nothing.\<close>

theorem chmod_modes:
  fixes cs :: command_state
  assumes "f \<noteq> ''*''" "\<not> starts_with f ''-''" "resolv f cs = (cs, Inr p)" "getfile (vfs (sess cs)) p True = Inr (Some i)"
  shows "(list_all octal_char m \<and> m \<noteq> [] \<longrightarrow>
      command_chmod help version [m, f] cs
        = (cs\<lparr>sess := (sess cs)\<lparr>vfs := update_node i (\<lambda>nd. nd\<lparr>A_MODE := int (octal_mode m)\<rparr>) (vfs (sess cs))\<rparr>\<rparr>, Inr ())
      \<and> (length m \<le> 4 \<longrightarrow> int (octal_mode m) AND S_IFMT = 0))
    \<and> (mode_matches m \<and> octal_value m = Inl e \<and> \<not> starts_with m ''-'' \<and> m \<noteq> [] \<longrightarrow> command_chmod help version [m, f] cs = (cs, Inr ()))
    \<and> (mode_matches m \<and> \<not> starts_with m ''-'' \<and> m \<noteq> [] \<and> get_path (vfs (sess cs)) (cwd (sess cs)) True = Inr d
       \<and> contents_len (heap (vfs (sess cs))) d > 0 \<longrightarrow> command_chmod help version [m, ''*''] cs = (cs, Inr ()))"
proof (intro conjI impI)
  assume a: "list_all octal_char m \<and> m \<noteq> []"
  then have m: "mode_matches m" "octal_value m = Inr (int (octal_mode m))" "\<not> starts_with m ''-''" "m \<noteq> []"
    using octal_matches [of m] by auto
  show "command_chmod help version [m, f] cs
      = (cs\<lparr>sess := (sess cs)\<lparr>vfs := update_node i (\<lambda>nd. nd\<lparr>A_MODE := int (octal_mode m)\<rparr>) (vfs (sess cs))\<rparr>\<rparr>, Inr ())"
    using command_chmod_plain [of m f "[]"] m assms(2) chmod_one_found [OF assms(1,3,4), of m] by simp
next
  assume a: "list_all octal_char m \<and> m \<noteq> []" "length m \<le> 4"
  have "octal_mode m < 8 ^ length m" using value_base_less [OF octal_digits_less [of m]] a(1) by (simp add: octal_mode_def)
  also have "(8 :: nat) ^ length m \<le> 8 ^ 4" by (rule power_increasing) (use a in simp_all)
  finally show "int (octal_mode m) AND S_IFMT = 0" by (rule octal_mode_bits)
next
  assume a: "mode_matches m \<and> octal_value m = Inl e \<and> \<not> starts_with m ''-'' \<and> m \<noteq> []"
  then show "command_chmod help version [m, f] cs = (cs, Inr ())"
    using command_chmod_plain [of m f "[]"] assms(2) chmod_one_found [OF assms(1,3,4), of m] by simp
next
  assume a: "mode_matches m \<and> \<not> starts_with m ''-'' \<and> m \<noteq> [] \<and> get_path (vfs (sess cs)) (cwd (sess cs)) True = Inr d
    \<and> contents_len (heap (vfs (sess cs))) d > 0"
  then show "command_chmod help version [m, ''*''] cs = (cs, Inr ())"
    using command_chmod_plain [of m "''*''" "[]"] by (simp add: chmod_one_def)
qed

lemma chmod_modes_witness:
  "command_chmod [] [] [''755'', ''/tmp''] \<lparr>sess = example_session, chain = []\<rparr>
     = (\<lparr>sess = example_session\<lparr>vfs := update_node 1 (\<lambda>nd. nd\<lparr>A_MODE := 493\<rparr>) (vfs example_session)\<rparr>, chain = []\<rparr>, Inr ())
   \<and> command_chmod [] [] [''u+x'', ''/tmp''] \<lparr>sess = example_session, chain = []\<rparr> = (\<lparr>sess = example_session, chain = []\<rparr>, Inr ())"
proof -
  let ?cs = "\<lparr>sess = example_session, chain = []\<rparr> :: command_state"
  have v: "vfs (sess ?cs) = example_fs" by (simp add: example_session_def)
  have r: "resolv ''/tmp'' ?cs = (?cs, Inr ''/tmp'')"
    using resolv_normal [of "[''tmp'']" ?cs] by (simp add: path_of_def good_piece_def)
  have g: "getfile (vfs (sess ?cs)) ''/tmp'' True = Inr (Some 1)"
    using at_dir_paths(2) [OF example_at_tmp, of True] unfolding v by (simp add: path_of_def)
  have o1: "list_all octal_char ''755''" by (simp add: octal_char_def)
  have o2: "octal_mode ''755'' = 493" by (simp add: octal_mode_def)
  have m: "mode_matches ''u+x''" by (simp add: mode_matches_def mode_op_def mode_groups.simps [of "''x''"])
  have e: "octal_value ''u+x'' = Inl ValueError" by (simp add: octal_value_def split_sign_def octal_char_def)
  show ?thesis
    using chmod_modes [OF _ _ r g, of "''755''" "[]" "[]"] chmod_modes [OF _ _ r g, of "''u+x''" "[]" "[]" ValueError] o1 o2 m e
    by simp
qed

end
