(* ===== verification/Shell_Run.thy ===== *)
theory Shell_Run
  imports Commands_Base
begin

section \<open>Running the commands of a line\<close>

text \<open>
  Model of how commands are started and ended: \<open>call_command\<close> and \<open>lineReceived\<close> of
  \<open>shell/protocol.py\<close>, \<open>exit\<close> and the queued input of \<open>shell/command.py\<close>, \<open>resume\<close> and the end of
  \<open>runCommand\<close> in \<open>shell/honeypot.py\<close>, \<open>outConnectionLost\<close> of \<open>shell/pipe.py\<close>. The stack has one
  shell at the bottom and commands above it; a command that has not called \<open>exit\<close> stays on the stack.
  What a command does is a parameter, as is what a substitution prints. These functions call each other
  as deep as the line is long, and Python ends a recursion that is too deep with an exception: the first
  argument is that bound.
\<close>

subsection \<open>State\<close>

text \<open>A pipe protocol with its command; the next one of the pipeline has the next number.\<close>

record 'c proc =
  proc_pipe :: pipe
  proc_cmd :: 'c
  proc_args :: "string list"
  proc_next :: bool

text \<open>\<open>stack\<close> has the numbers of the commands above the shell, the last first. \<open>calls\<close> lists what has
  been started, with its arguments and the data piped into it.\<close>

record 'c runner =
  rsess :: session
  main_shell :: shell
  stack :: "nat list"
  procs :: "nat \<Rightarrow> 'c proc"
  next_proc :: nat
  cur_pp :: "nat option"
  redir_files :: "(string \<times> string) list"
  session_ended :: bool
  calls :: "('c \<times> string list \<times> string option) list"

text \<open>What commands do: the result of \<open>start\<close> and of a handler says whether \<open>exit\<close> has been called; a
  command without \<open>lineReceived\<close> queues the line.\<close>

record 'c program =
  bytes_of_arch :: "string \<Rightarrow> string"
  table :: "'c command_table"
  run_in_subshell :: run
  canned_answer :: "string \<Rightarrow> string option"
  user_account :: account
  exec_session :: bool
  start_command :: "'c \<Rightarrow> string list \<Rightarrow> string option \<Rightarrow> bool command"
  line_handler :: "'c \<Rightarrow> (string \<Rightarrow> bool command) option"
  ctrl_d_handler :: "'c \<Rightarrow> bool command"

subsection \<open>Queued input\<close>

text \<open>\<open>shlex.split\<close>: blanks between words, quotes and backslashes.\<close>

datatype word_state = Between | In_word | In_quote char | Escaped word_state

definition shlex_blank :: "char \<Rightarrow> bool" where
  "shlex_blank c \<longleftrightarrow> c \<in> {CHR '' '', CHR 0x09, CHR 0x0D, CHR 0x0A}"

definition shlex_quote :: "char \<Rightarrow> bool" where
  "shlex_quote c \<longleftrightarrow> c \<in> {CHR 0x22, CHR 0x27}"

text \<open>The word so far, and whether it has a quoted part; a word without characters counts if it has.\<close>

fun split_words :: "word_state \<Rightarrow> string \<Rightarrow> bool \<Rightarrow> string \<Rightarrow> string list res" where
  "split_words Between t q [] = Inr (if t \<noteq> [] \<or> q then [t] else [])"
| "split_words In_word t q [] = Inr (if t \<noteq> [] \<or> q then [t] else [])"
| "split_words (In_quote k) t q [] = Inl ValueError"
| "split_words (Escaped k) t q [] = Inl ValueError"
| "split_words Between t q (c # s) =
     (if shlex_blank c then (if t \<noteq> [] \<or> q then rbind (split_words Between [] False s) (\<lambda>r. Inr (t # r))
                             else split_words Between t q s)
      else if c = CHR 0x5C then split_words (Escaped In_word) t q s
      else if shlex_quote c then split_words (In_quote c) t q s
      else split_words In_word [c] q s)"
| "split_words In_word t q (c # s) =
     (if shlex_blank c then (if t \<noteq> [] \<or> q then rbind (split_words Between [] False s) (\<lambda>r. Inr (t # r))
                             else split_words Between t q s)
      else if shlex_quote c then split_words (In_quote c) t q s
      else if c = CHR 0x5C then split_words (Escaped In_word) t q s
      else split_words In_word (t @ [c]) q s)"
| "split_words (In_quote k) t q (c # s) =
     (if c = k then split_words In_word t True s
      else if c = CHR 0x5C \<and> k = CHR 0x22 then split_words (Escaped (In_quote k)) t True s
      else split_words (In_quote k) (t @ [c]) True s)"
| "split_words (Escaped k) t q (c # s) =
     split_words k
       (t @ (case k of In_quote d \<Rightarrow> if c \<noteq> CHR 0x5C \<and> c \<noteq> d then [CHR 0x5C, c] else [c] | _ \<Rightarrow> [c])) q s"

definition shlex_split :: "string \<Rightarrow> string list res" where
  "shlex_split s = split_words Between [] False s"

subsection \<open>Pipelines\<close>

text \<open>The pipe protocols from number \<open>i\<close> on, at most \<open>k\<close>.\<close>

fun chain_ids :: "nat \<Rightarrow> (nat \<Rightarrow> 'c proc) \<Rightarrow> nat \<Rightarrow> nat list" where
  "chain_ids 0 ps i = []"
| "chain_ids (Suc k) ps i = i # (if proc_next (ps i) then chain_ids k ps (Suc i) else [])"

definition proc_ids :: "'c runner \<Rightarrow> nat \<Rightarrow> nat list" where
  "proc_ids r i = chain_ids (next_proc r - i) (procs r) i"

definition put_pipes :: "nat list \<Rightarrow> pipe list \<Rightarrow> (nat \<Rightarrow> 'c proc) \<Rightarrow> nat \<Rightarrow> 'c proc" where
  "put_pipes ids ps f = fold (\<lambda>(i, p) g. g(i := (g i)\<lparr>proc_pipe := p\<rparr>)) (zip ids ps) f"

text \<open>A command runs with the pipe protocol it was made with.\<close>

definition with_pipes :: "'a command \<Rightarrow> nat \<Rightarrow> 'c runner \<Rightarrow> ('c runner, 'a) sres" where
  "with_pipes m i r =
     (case m \<lparr>sess = rsess r, chain = map (\<lambda>j. proc_pipe (procs r j)) (proc_ids r i)\<rparr> of
        (cs, res) \<Rightarrow> (r\<lparr>rsess := sess cs, procs := put_pipes (proc_ids r i) (chain cs) (procs r)\<rparr>, res))"

text \<open>The protocols of a pipeline that has been built get the next numbers.\<close>

fun make_procs :: "pipe list \<Rightarrow> ('c \<times> string list) list \<Rightarrow> nat \<Rightarrow> (nat \<Rightarrow> 'c proc) \<Rightarrow> nat \<Rightarrow> 'c proc" where
  "make_procs (p # ps) ((c, args) # cs) i f =
     make_procs ps cs (Suc i) (f(i := \<lparr>proc_pipe = p, proc_cmd = c, proc_args = args, proc_next = (cs \<noteq> [])\<rparr>))"
| "make_procs _ _ i f = f"

definition add_pipeline :: "pipe list \<Rightarrow> ('c \<times> string list) list \<Rightarrow> 'c runner \<Rightarrow> 'c runner" where
  "add_pipeline ps cs r =
     r\<lparr>procs := make_procs ps cs (next_proc r) (procs r), next_proc := next_proc r + length cs\<rparr>"

definition pp_has_next :: "'c runner \<Rightarrow> bool" where
  "pp_has_next r = (case cur_pp r of None \<Rightarrow> False | Some j \<Rightarrow> proc_next (procs r j))"

definition in_session :: "(session \<Rightarrow> (session, 'a) sres) \<Rightarrow> 'c runner \<Rightarrow> ('c runner, 'a) sres" where
  "in_session f r = (case f (rsess r) of (w, res) \<Rightarrow> (r\<lparr>rsess := w\<rparr>, res))"

subsection \<open>Starting and ending commands\<close>

definition push_call :: "nat \<Rightarrow> 'c runner \<Rightarrow> 'c runner" where
  "push_call i r =
     (let p = procs r i in
      r\<lparr>cur_pp := Some i, stack := i # stack r, calls := calls r @ [(proc_cmd p, proc_args p, input_data (proc_pipe p))]\<rparr>)"

definition pop_command :: "nat \<Rightarrow> 'c runner \<Rightarrow> 'c runner" where
  "pop_command i r =
     r\<lparr>stack := remove1 i (stack r),
       redir_files := (case cur_pp r of
           None \<Rightarrow> redir_files r
         | Some j \<Rightarrow> fold List.insert (redirect_real_files (proc_pipe (procs r j))) (redir_files r))\<rparr>"

text \<open>\<open>runCommand\<close> with its calls, \<open>call_command\<close> and \<open>exit\<close>.\<close>

fun resume_shell :: "nat \<Rightarrow> 'c program \<Rightarrow> 'c runner \<Rightarrow> ('c runner, unit) sres"
  and run_or_show :: "nat \<Rightarrow> 'c program \<Rightarrow> 'c runner \<Rightarrow> ('c runner, unit) sres"
  and call_command :: "nat \<Rightarrow> 'c program \<Rightarrow> nat \<Rightarrow> 'c runner \<Rightarrow> ('c runner, unit) sres"
  and out_connection_lost :: "nat \<Rightarrow> 'c program \<Rightarrow> 'c runner \<Rightarrow> ('c runner, unit) sres"
  and exit_command :: "nat \<Rightarrow> 'c program \<Rightarrow> nat \<Rightarrow> 'c runner \<Rightarrow> ('c runner, unit) sres" where
  "resume_shell 0 prog r = (r, Inl RecursionError)"
| "resume_shell (Suc n) prog r =
     (case run_command (bytes_of_arch prog) (table prog) (pp_has_next r) (Suc (length (stack r))) (main_shell r) (rsess r) of
        ((w, sh), Inl e) \<Rightarrow> (r\<lparr>rsess := w, main_shell := sh\<rparr>, Inl e)
      | ((w, sh), Inr (Call ps cs)) \<Rightarrow>
          call_command n prog (next_proc r) (add_pipeline ps cs (r\<lparr>rsess := w, main_shell := sh\<rparr>))
      | ((w, sh), Inr (Do a)) \<Rightarrow>
          (let r1 = r\<lparr>rsess := w, main_shell := sh\<rparr> in
           case a of
             Run_or_prompt \<Rightarrow> run_or_show n prog r1
           | Not_found \<Rightarrow>
               run_or_show n prog (if exec_session prog \<and> cmdpending sh = [] then r1\<lparr>session_ended := True\<rparr> else r1)
           | Show_prompt \<Rightarrow> in_session (show_prompt (user_account prog) sh) r1
           | End_session \<Rightarrow> (r1\<lparr>session_ended := True\<rparr>, Inr ())
           | Stop_here \<Rightarrow> (r1, Inr ())))"
| "run_or_show 0 prog r = (r, Inl RecursionError)"
| "run_or_show (Suc n) prog r =
     (if cmdpending (main_shell r) \<noteq> [] then resume_shell n prog r
      else in_session (show_prompt (user_account prog) (main_shell r)) r)"
| "call_command 0 prog i r = (r, Inl RecursionError)"
| "call_command (Suc n) prog i r =
     (let p = procs r i; r1 = push_call i r in
      case with_pipes (start_command prog (proc_cmd p) (proc_args p) (input_data (proc_pipe p))) i r1 of
        (r2, Inl e) \<Rightarrow> (r2, Inl e)
      | (r2, Inr exited) \<Rightarrow>
          sbind (if exited then exit_command n prog i r2 else (r2, Inr ())) (\<lambda>r3 _. out_connection_lost n prog r3))"
| "out_connection_lost 0 prog r = (r, Inl RecursionError)"
| "out_connection_lost (Suc n) prog r =
     (case cur_pp r of
        None \<Rightarrow> (r, Inr ())
      | Some j \<Rightarrow> if proc_next (procs r j) then call_command n prog (Suc j) r else (r, Inr ()))"
| "exit_command 0 prog i r = (r, Inl RecursionError)"
| "exit_command (Suc n) prog i r =
     (let r1 = pop_command i r in if stack r1 = [] then resume_shell n prog r1 else (r1, Inr ()))"

subsection \<open>Input\<close>

definition ended :: "nat \<Rightarrow> 'c program \<Rightarrow> nat \<Rightarrow> 'c runner \<times> bool res \<Rightarrow> ('c runner, unit) sres" where
  "ended n prog i x = sbind x (\<lambda>r done1. if done1 then exit_command n prog i r else (r, Inr ()))"

text \<open>A line for the shell, or for the command in front of it.\<close>

definition shell_line :: "nat \<Rightarrow> 'c program \<Rightarrow> string \<Rightarrow> 'c runner \<Rightarrow> ('c runner, unit) sres" where
  "shell_line n prog line r =
     (case line_received (canned_answer prog) (run_in_subshell prog) (user_account prog) line (main_shell r) (rsess r) of
        ((w, sh), Inl e) \<Rightarrow> (r\<lparr>rsess := w, main_shell := sh\<rparr>, Inl e)
      | ((w, sh), Inr go) \<Rightarrow>
          (let r1 = r\<lparr>rsess := w, main_shell := sh\<rparr> in if go then resume_shell n prog r1 else (r1, Inr ())))"

definition command_line :: "nat \<Rightarrow> 'c program \<Rightarrow> nat \<Rightarrow> string \<Rightarrow> 'c runner \<Rightarrow> ('c runner, unit) sres" where
  "command_line n prog i line r =
     (case line_handler prog (proc_cmd (procs r i)) of
        Some f \<Rightarrow> ended n prog i (with_pipes (f line) i r)
      | None \<Rightarrow>
          (case shlex_split line of
             Inl e \<Rightarrow> (r, Inl e)
           | Inr ws \<Rightarrow> (r\<lparr>main_shell := (main_shell r)\<lparr>cmdpending := cmdpending (main_shell r) @ [ws]\<rparr>\<rparr>, Inr ())))"

definition line_typed :: "nat \<Rightarrow> 'c program \<Rightarrow> string \<Rightarrow> 'c runner \<Rightarrow> ('c runner, unit) sres" where
  "line_typed n prog line r =
     (case py_decode line of
        Inl e \<Rightarrow> (r, Inl e)
      | Inr s \<Rightarrow> (case stack r of [] \<Rightarrow> shell_line n prog s r | i # _ \<Rightarrow> command_line n prog i s r))"

text \<open>The keys that end a line or a command.\<close>

definition ctrl_c :: "nat \<Rightarrow> 'c program \<Rightarrow> 'c runner \<Rightarrow> ('c runner, unit) sres" where
  "ctrl_c n prog r =
     (case stack r of
        [] \<Rightarrow> in_session (\<lambda>w. show_prompt (user_account prog) (main_shell r) (terminal_write newline w)) r
      | i # _ \<Rightarrow> ended n prog i (with_pipes (then_do (out (''^C'' @ newline)) (ret True)) i r))"

definition ctrl_d :: "nat \<Rightarrow> 'c program \<Rightarrow> 'c runner \<Rightarrow> ('c runner, unit) sres" where
  "ctrl_d n prog r =
     (case stack r of
        [] \<Rightarrow> (r\<lparr>session_ended := True\<rparr>, Inr ())
      | i # _ \<Rightarrow> ended n prog i (with_pipes (ctrl_d_handler prog (proc_cmd (procs r i))) i r))"

text \<open>The command of an exec request, its lines put together as one.\<close>

definition exec_request :: "nat \<Rightarrow> 'c program \<Rightarrow> string \<Rightarrow> 'c runner \<Rightarrow> ('c runner, unit) sres" where
  "exec_request n prog execcmd r =
     shell_line n prog (join_with ''; '' (split_on (CHR 0x0A) (strip_chars is_space execcmd))) r"

end
