(* ===== verification/Shell_Run_Props.thy ===== *)
theory Shell_Run_Props
  imports Shell_Run Shell_Props
begin

section \<open>Which commands of a line are run\<close>

text \<open>
  What \<open>Shell_Run\<close> starts for a line of pipelines: of every pipeline but the last only the first
  command, and of the last one every command in order; and what becomes of lines typed while a command
  is in front of the shell.
\<close>

subsection \<open>Plain pipelines\<close>

text \<open>A stage is the name of a command with its arguments.\<close>

type_synonym stage = "string \<times> string list"

definition plain_token :: "string \<Rightarrow> bool" where
  "plain_token t \<longleftrightarrow> plain_word t \<and> t \<noteq> ''|''"

definition stage_ok :: "stage \<Rightarrow> bool" where
  "stage_ok st \<longleftrightarrow> strip_chars is_space (fst st) \<noteq> [] \<and> CHR ''='' \<notin> set (fst st)
     \<and> (\<forall>t \<in> set (fst st # snd st). plain_token t)"

definition stage_tokens :: "stage \<Rightarrow> string list" where
  "stage_tokens st = fst st # snd st"

definition pipeline_tokens :: "stage list \<Rightarrow> string list" where
  "pipeline_tokens p = join_with [''|''] (map stage_tokens p)"

definition stage_call :: "'c command_table \<Rightarrow> stage \<Rightarrow> 'c \<times> string list" where
  "stage_call tab st = (the (commands tab (fst st)), snd st)"

lemma parse_plain: "\<forall>t \<in> set ts. plain_word t \<Longrightarrow> parse_redirections ts = (ts, [])"
  by (induction ts) (auto simp: plain_token_op)

lemma split_pipeline:
  assumes "p \<noteq> []" "\<forall>st \<in> set p. stage_ok st"
  shows "split_on ''|'' (pipeline_tokens p) = map stage_tokens p"
  unfolding pipeline_tokens_def
  by (rule split_on_join) (use assms in \<open>auto simp: stage_tokens_def stage_ok_def plain_token_def\<close>)

text \<open>The pipe protocols of a pipeline without redirections.\<close>

definition plain_pipe :: "bool \<Rightarrow> bool \<Rightarrow> pipe" where
  "plain_pipe redir has_next = initial_pipe None has_next redir"

fun plain_chain :: "bool \<Rightarrow> 'a list \<Rightarrow> pipe list" where
  "plain_chain redir [] = []"
| "plain_chain redir (x # xs) = plain_pipe redir (xs \<noteq> []) # plain_chain redir xs"

lemma plain_pipe_error [simp]: "has_redirection_error (plain_pipe redir b) = False" "input_data (plain_pipe redir b) = None"
  "redirect_real_files (plain_pipe redir b) = []"
  by (simp_all add: plain_pipe_def initial_pipe_def)

lemma length_plain_chain [simp]: "length (plain_chain redir xs) = length xs"
  by (induction xs) simp_all

lemma pipe_protocol_plain:
  "case nxt of None \<Rightarrow> True | Some q \<Rightarrow> \<not> has_redirection_error q \<Longrightarrow>
   pipe_protocol ab None nxt redir [] w = (w, Inr (plain_pipe redir (nxt \<noteq> None)))"
  by (auto simp: pipe_protocol_def Let_def plain_pipe_def initial_pipe_def split: option.splits)

definition found :: "'c command_table \<Rightarrow> stage \<Rightarrow> bool" where
  "found tab st \<longleftrightarrow> stage_ok st \<and> commands tab (fst st) \<noteq> None"

lemma get_command_found: "found tab st \<Longrightarrow> get_command tab w (fst st) paths = Inr (Some (fst (stage_call tab st)))"
  by (auto simp: get_command_def found_def stage_ok_def stage_call_def)

definition plain_spec :: "stage \<Rightarrow> cmd_spec" where
  "plain_spec st = \<lparr>cmd_name = fst st, rargs = snd st, redirects = []\<rparr>"

lemma build_plain:
  assumes "\<forall>st \<in> set p. found tab st" "map_of env ''PATH'' = Some path" "q \<noteq> [] \<longrightarrow> classes \<noteq> []"
  shows "build_pipeline ab tab env redir (rev (map plain_spec p)) (plain_chain redir q) classes w
    = (w, Inr (Built (plain_chain redir (p @ q)) (map (stage_call tab) p @ classes)))"
  using assms
proof (induction p arbitrary: q classes rule: rev_induct)
  case (snoc st p)
  have f: "found tab st" using snoc.prems by simp
  have pp: "pipe_protocol ab None (case plain_chain redir q of [] \<Rightarrow> None | x # _ \<Rightarrow> Some x) redir [] w
      = (w, Inr (plain_pipe redir (q \<noteq> [])))"
    by (cases q) (simp_all add: pipe_protocol_plain)
  have st: "stage_call tab st = (fst (stage_call tab st), snd st)" by (simp add: stage_call_def)
  have "build_pipeline ab tab env redir (rev (map plain_spec (p @ [st]))) (plain_chain redir q) classes w
      = build_pipeline ab tab env redir (rev (map plain_spec p)) (plain_chain redir (st # q)) ((fst (stage_call tab st), snd st) # classes) w"
    using get_command_found [OF f] pp snoc.prems(2) by (simp add: plain_spec_def dict_get_def)
  also have "\<dots> = (w, Inr (Built (plain_chain redir (p @ st # q)) (map (stage_call tab) p @ stage_call tab st # classes)))"
    using snoc.IH [of "st # q" "stage_call tab st # classes"] snoc.prems st by simp
  finally show ?case by simp
qed simp

lemma run_plain:
  assumes "cmdpending sh = pipeline_tokens p # later" "p \<noteq> []" "\<forall>st \<in> set p. found tab st"
    "map_of (environ sh) ''PATH'' = Some path"
  shows "run_command ab tab hn k sh w
    = ((w, sh\<lparr>cmdpending := later\<rparr>), Inr (Call (plain_chain (redirect sh) p) (map (stage_call tab) p)))"
proof -
  obtain st q where p: "p = st # q" using assms(2) by (cases p) auto
  have ok: "\<forall>st \<in> set p. stage_ok st" using assms(3) by (auto simp: found_def)
  have toks: "\<exists>r. pipeline_tokens p = fst st # r" unfolding p pipeline_tokens_def by (cases q) (simp_all add: stage_tokens_def)
  then obtain r where r: "pipeline_tokens p = fst st # r" by blast
  have ta: "take_assignments (pipeline_tokens p) (environ sh) = (environ sh, pipeline_tokens p)"
    using ok unfolding r by (simp add: p stage_ok_def)
  have parse: "parse_redirections (stage_tokens st) = (stage_tokens st, [])" if "st \<in> set p" for st
    using ok that by (intro parse_plain) (auto simp: stage_tokens_def stage_ok_def plain_token_def)
  have later: "later_commands (map stage_tokens q) = map plain_spec q"
  proof -
    have "\<forall>st \<in> set q. parse_redirections (stage_tokens st) = (stage_tokens st, [])" using parse p by simp
    then show ?thesis
      by (induction q) (auto simp: later_commands_def plain_spec_def stage_tokens_def)
  qed
  have b: "build_pipeline ab tab (environ sh) (redirect sh) (rev (map plain_spec p)) [] [] w
      = (w, Inr (Built (plain_chain (redirect sh) p) (map (stage_call tab) p)))"
    using build_plain [OF assms(3,4), of "[]" "[]" ab "redirect sh" w] by simp
  have rs: "run_stages ab tab (environ sh) (redirect sh) (map stage_tokens p) w
      = (w, Inr (Call (plain_chain (redirect sh) p) (map (stage_call tab) p)))"
    using parse [of st] later b by (simp add: run_stages_def p stage_tokens_def plain_spec_def Let_def)
  show ?thesis
    using assms(1) ta rs split_pipeline [OF assms(2) ok] r by (simp add: run_command_def Let_def)
qed

subsection \<open>The calls of a line\<close>

text \<open>A command that calls \<open>exit\<close> at once, whatever it does before.\<close>

definition quick :: "'c program \<Rightarrow> 'c \<Rightarrow> bool" where
  "quick prog k \<longleftrightarrow> (\<forall>args inp cs. \<exists>cs'. start_command prog k args inp cs = (cs', Inr True))"

text \<open>The prompt can be written in ASCII.\<close>

definition prompt_ok :: "'c program \<Rightarrow> shell \<Rightarrow> bool" where
  "prompt_ok prog sh \<longleftrightarrow> interactive sh \<longrightarrow> (\<exists>p. prompt_option (user_account prog) = Some p \<and> is_ascii p)"

text \<open>What running the body of a command does not touch.\<close>

definition kept :: "'c runner \<Rightarrow> 'c runner \<Rightarrow> bool" where
  "kept r r' \<longleftrightarrow> calls r' = calls r \<and> main_shell r' = main_shell r \<and> cur_pp r' = cur_pp r
     \<and> (\<forall>j. proc_cmd (procs r' j) = proc_cmd (procs r j) \<and> proc_args (procs r' j) = proc_args (procs r j)
            \<and> proc_next (procs r' j) = proc_next (procs r j))"

lemma kept_refl [simp]: "kept r r"
  by (simp add: kept_def)

lemma kept_trans: "kept a b \<Longrightarrow> kept b c \<Longrightarrow> kept a c"
  by (simp add: kept_def)

lemma put_pipes_fields:
  "proc_cmd (put_pipes ids ps f j) = proc_cmd (f j)" "proc_args (put_pipes ids ps f j) = proc_args (f j)"
  "proc_next (put_pipes ids ps f j) = proc_next (f j)"
proof -
  have "proc_cmd (fold (\<lambda>(i, p) g. g(i := (g i)\<lparr>proc_pipe := p\<rparr>)) xs f j) = proc_cmd (f j)
      \<and> proc_args (fold (\<lambda>(i, p) g. g(i := (g i)\<lparr>proc_pipe := p\<rparr>)) xs f j) = proc_args (f j)
      \<and> proc_next (fold (\<lambda>(i, p) g. g(i := (g i)\<lparr>proc_pipe := p\<rparr>)) xs f j) = proc_next (f j)" for xs
    by (induction xs arbitrary: f) (auto simp: split_beta)
  then show "proc_cmd (put_pipes ids ps f j) = proc_cmd (f j)" "proc_args (put_pipes ids ps f j) = proc_args (f j)"
    "proc_next (put_pipes ids ps f j) = proc_next (f j)" by (simp_all add: put_pipes_def)
qed

lemma with_pipes_kept: "with_pipes m i r = (r', res) \<Longrightarrow> kept r r' \<and> stack r' = stack r"
  by (auto simp: with_pipes_def kept_def put_pipes_fields split: prod.splits)

lemma show_prompt_ok: "prompt_ok prog sh \<Longrightarrow> \<exists>w'. show_prompt (user_account prog) sh w = (w', Inr ())"
  by (auto simp: show_prompt_def prompt_ok_def prompt_text_def Let_def is_ascii_def)

lemma resume_idle:
  assumes "cmdpending (main_shell r) = []" "prompt_ok prog (main_shell r)" "stack r = []"
  shows "\<exists>r'. resume_shell (Suc n) prog r = (r', Inr ()) \<and> kept r r' \<and> stack r' = []"
proof -
  obtain w' where w: "show_prompt (user_account prog) (main_shell r) (rsess r) = (w', Inr ())"
    using show_prompt_ok [OF assms(2)] by blast
  show ?thesis
    using assms w by (auto simp: run_command_def nothing_pending_def in_session_def kept_def Let_def)
qed

fun lined_up :: "('c \<times> string list) list \<Rightarrow> nat \<Rightarrow> 'c runner \<Rightarrow> bool" where
  "lined_up [] i r \<longleftrightarrow> True"
| "lined_up (c # cs) i r \<longleftrightarrow> (proc_cmd (procs r i), proc_args (procs r i)) = c \<and> proc_next (procs r i) = (cs \<noteq> [])
     \<and> lined_up cs (Suc i) r"

lemma lined_up_kept: "kept r r' \<Longrightarrow> lined_up cs i r \<Longrightarrow> lined_up cs i r'"
  by (induction cs arbitrary: i) (auto simp: kept_def)

lemma lined_up_procs: "procs r' = procs r \<Longrightarrow> lined_up cs i r' = lined_up cs i r"
  by (induction cs arbitrary: i) auto

definition call_names :: "'c runner \<Rightarrow> ('c \<times> string list) list" where
  "call_names r = map (\<lambda>(k, args, _). (k, args)) (calls r)"

lemma kept_names: "kept r r' \<Longrightarrow> call_names r' = call_names r"
  by (simp add: kept_def call_names_def)

text \<open>Starting a quick command: it is noted, it runs, and it is taken off the stack again.\<close>

lemma start_quick:
  assumes "lined_up (c # cs) i r" "quick prog (fst c)"
  obtains r2 where "with_pipes (start_command prog (proc_cmd (procs r i)) (proc_args (procs r i)) (input_data (proc_pipe (procs r i)))) i
      (push_call i r) = (r2, Inr True)"
    "call_names r2 = call_names r @ [c]" "main_shell r2 = main_shell r" "cur_pp r2 = Some i" "stack r2 = i # stack r"
    "lined_up (c # cs) i r2"
proof -
  have k: "proc_cmd (procs r i) = fst c" "proc_args (procs r i) = snd c" using assms(1) by auto
  let ?m = "start_command prog (proc_cmd (procs r i)) (proc_args (procs r i)) (input_data (proc_pipe (procs r i)))"
  obtain r2 res where w: "with_pipes ?m i (push_call i r) = (r2, res)" by (metis surj_pair)
  have res: "res = Inr True"
  proof -
    obtain cs1 where "?m \<lparr>sess = rsess (push_call i r), chain = map (\<lambda>j. proc_pipe (procs (push_call i r) j)) (proc_ids (push_call i r) i)\<rparr> = (cs1, Inr True)"
      unfolding k using assms(2) unfolding quick_def by blast
    then show ?thesis using w by (simp add: with_pipes_def)
  qed
  note kp = with_pipes_kept [OF w]
  have p: "procs (push_call i r) = procs r" by (simp add: push_call_def Let_def)
  show ?thesis
  proof (rule that [of r2])
    show "with_pipes ?m i (push_call i r) = (r2, Inr True)" using w res by simp
    show "call_names r2 = call_names r @ [c]"
      using kp assms(1) by (simp add: kept_def call_names_def push_call_def Let_def split: prod.splits)
    show "main_shell r2 = main_shell r" "cur_pp r2 = Some i" "stack r2 = i # stack r"
      using kp by (simp_all add: kept_def push_call_def Let_def)
    show "lined_up (c # cs) i r2" using kp lined_up_kept [of "push_call i r" r2] assms(1) lined_up_procs [OF p] by blast
  qed
qed

lemma pop_kept: "kept r (pop_command i r)"
  by (simp add: pop_command_def kept_def)

lemma four_more: "4 \<le> n \<Longrightarrow> \<exists>k. n = Suc (Suc (Suc (Suc k)))"
  by (rule exI [of _ "n - 4"]) simp

lemma chain_calls:
  assumes "lined_up (c # cs) i r" "\<forall>x \<in> set (c # cs). quick prog (fst x)" "stack r = []"
    "cmdpending (main_shell r) = []" "prompt_ok prog (main_shell r)" "2 * length cs + 4 \<le> n"
  shows "\<exists>r'. call_command n prog i r = (r', Inr ()) \<and> call_names r' = call_names r @ c # cs \<and> stack r' = []
    \<and> main_shell r' = main_shell r \<and> \<not> pp_has_next r'"
  using assms
proof (induction cs arbitrary: c i r n)
  case (Cons d cs)
  then obtain k where n: "n = Suc (Suc (Suc (Suc k)))" "2 * length cs + 4 \<le> Suc (Suc k)"
    using four_more [of n] by auto
  obtain r2 where r2: "with_pipes (start_command prog (proc_cmd (procs r i)) (proc_args (procs r i)) (input_data (proc_pipe (procs r i)))) i
      (push_call i r) = (r2, Inr True)"
    "call_names r2 = call_names r @ [c]" "main_shell r2 = main_shell r" "cur_pp r2 = Some i" "stack r2 = i # stack r"
    "lined_up (c # d # cs) i r2"
    using start_quick [OF Cons.prems(1)] Cons.prems(2) by auto
  have st: "stack (pop_command i r2) = []" using r2(5) Cons.prems(3) by (simp add: pop_command_def)
  have pk: "kept r2 (pop_command i r2)" by (rule pop_kept)
  have ms: "main_shell (pop_command i r2) = main_shell r" using pk r2(3) by (simp add: kept_def)
  obtain r3 where r3: "resume_shell (Suc (Suc k)) prog (pop_command i r2) = (r3, Inr ())" "kept (pop_command i r2) r3" "stack r3 = []"
    using resume_idle [of "pop_command i r2" prog "Suc k"] st ms Cons.prems(4,5) by auto
  have k3: "kept r2 r3" using pk r3(2) by (rule kept_trans)
  have l3: "lined_up (d # cs) (Suc i) r3" "proc_next (procs r3 i)" using lined_up_kept [OF k3 r2(6)] by auto
  obtain r4 where r4: "call_command (Suc (Suc k)) prog (Suc i) r3 = (r4, Inr ())" "call_names r4 = call_names r3 @ d # cs"
    "stack r4 = []" "main_shell r4 = main_shell r3" "\<not> pp_has_next r4"
    using Cons.IH [OF l3(1), of "Suc (Suc k)"] Cons.prems n(2) r3(3) k3 r2(3) by (auto simp: kept_def)
  have cu: "cur_pp r3 = Some i" using k3 r2(4) by (simp add: kept_def)
  have "call_command n prog i r = (r4, Inr ())"
    unfolding n(1) call_command.simps(2) [of _ prog i]
    using r2(1) st r3(1) cu l3(2) r4(1) by (simp add: Let_def del: resume_shell.simps call_command.simps)
  moreover have "call_names r4 = call_names r @ c # d # cs" using r4(2) kept_names [OF k3] r2(2) by simp
  ultimately show ?case using r4 k3 r2(3) by (auto simp: kept_def)
next
  case Nil
  then obtain k where n: "n = Suc (Suc (Suc (Suc k)))" using four_more [of n] by auto
  obtain r2 where r2: "with_pipes (start_command prog (proc_cmd (procs r i)) (proc_args (procs r i)) (input_data (proc_pipe (procs r i)))) i
      (push_call i r) = (r2, Inr True)"
    "call_names r2 = call_names r @ [c]" "main_shell r2 = main_shell r" "cur_pp r2 = Some i" "stack r2 = i # stack r"
    "lined_up [c] i r2"
    using start_quick [OF Nil.prems(1)] Nil.prems(2) by auto
  have st: "stack (pop_command i r2) = []" using r2(5) Nil.prems(3) by (simp add: pop_command_def)
  have pk: "kept r2 (pop_command i r2)" by (rule pop_kept)
  have ms: "main_shell (pop_command i r2) = main_shell r" using pk r2(3) by (simp add: kept_def)
  obtain r3 where r3: "resume_shell (Suc (Suc k)) prog (pop_command i r2) = (r3, Inr ())" "kept (pop_command i r2) r3" "stack r3 = []"
    using resume_idle [of "pop_command i r2" prog "Suc k"] st ms Nil.prems(4,5) by auto
  have k3: "kept r2 r3" using pk r3(2) by (rule kept_trans)
  have l3: "\<not> proc_next (procs r3 i)" using lined_up_kept [OF k3 r2(6)] by auto
  have cu: "cur_pp r3 = Some i" using k3 r2(4) by (simp add: kept_def)
  have "call_command n prog i r = (r3, Inr ())"
    unfolding n using r2(1) st r3(1) cu l3 by (simp add: Let_def del: resume_shell.simps)
  then show ?case using r3(3) k3 r2 l3 cu kept_names [OF k3] by (auto simp: kept_def pp_has_next_def)
qed

text \<open>The commands of which a line's pipelines are started: the first of every pipeline but the last, and
  all of the last.\<close>

fun started :: "stage list list \<Rightarrow> stage list" where
  "started [] = []"
| "started [p] = p"
| "started (p # q # ps) = hd p # started (q # ps)"

lemma make_procs_old: "j < i \<Longrightarrow> make_procs ps cs i f j = f j"
  by (induction ps cs i f rule: make_procs.induct) auto

lemma lined_up_made:
  assumes "length ps = length cs"
  shows "lined_up cs i (r\<lparr>procs := make_procs ps cs i f\<rparr>)"
  using assms
proof (induction cs arbitrary: ps i f)
  case (Cons c cs)
  then obtain p ps' where p: "ps = p # ps'" by (cases ps) auto
  obtain k args where c: "c = (k, args)" by (cases c)
  have "lined_up cs (Suc i) (r\<lparr>procs := make_procs ps' cs (Suc i) (f(i := \<lparr>proc_pipe = p, proc_cmd = k, proc_args = args, proc_next = (cs \<noteq> [])\<rparr>))\<rparr>)"
    using Cons p by simp
  then show ?case by (simp add: p c make_procs_old)
qed simp

lemma lined_up_add:
  assumes "length ps = length cs"
  shows "lined_up cs (next_proc r) (add_pipeline ps cs r)"
proof -
  have "procs (add_pipeline ps cs r) = procs (r\<lparr>procs := make_procs ps cs (next_proc r) (procs r)\<rparr>)"
    by (simp add: add_pipeline_def)
  then show ?thesis using lined_up_made [OF assms, of "next_proc r" "procs r" r] lined_up_procs by blast
qed

definition stages_ok :: "'c program \<Rightarrow> stage list list \<Rightarrow> bool" where
  "stages_ok prog ps \<longleftrightarrow> (\<forall>p \<in> set ps. p \<noteq> [] \<and>
     (\<forall>st \<in> set p. found (table prog) st \<and> quick prog (fst (stage_call (table prog) st))))"

lemma line_calls:
  assumes "stages_ok prog ps" "ps \<noteq> []" "cmdpending (main_shell r) = map pipeline_tokens ps" "stack r = []"
    "prompt_ok prog (main_shell r)" "map_of (environ (main_shell r)) ''PATH'' = Some path"
    "4 * length ps + 2 * length (last ps) + 4 \<le> n"
  shows "\<exists>r'. resume_shell n prog r = (r', Inr ()) \<and> call_names r' = call_names r @ map (stage_call (table prog)) (started ps)
    \<and> stack r' = [] \<and> main_shell r' = (main_shell r)\<lparr>cmdpending := []\<rparr> \<and> \<not> pp_has_next r'"
  using assms
proof (induction ps arbitrary: r n rule: started.induct)
  case 1
  then show ?case by simp
next
  case (2 p)
  let ?sh = "(main_shell r)\<lparr>cmdpending := []\<rparr>" and ?cs = "map (stage_call (table prog)) p"
  let ?r1 = "add_pipeline (plain_chain (redirect (main_shell r)) p) ?cs (r\<lparr>rsess := rsess r, main_shell := ?sh\<rparr>)"
  have p: "p \<noteq> []" "\<forall>st \<in> set p. found (table prog) st" using 2 by (auto simp: stages_ok_def)
  obtain c cs where cs: "?cs = c # cs" using p(1) by (cases p) auto
  obtain m where n: "n = Suc m" "2 * length cs + 4 \<le> m" using 2(7) cs by (cases n) (auto dest: arg_cong [of _ _ length])
  have rc: "run_command (bytes_of_arch prog) (table prog) (pp_has_next r) (Suc (length (stack r))) (main_shell r) (rsess r)
      = ((rsess r, ?sh), Inr (Call (plain_chain (redirect (main_shell r)) p) ?cs))"
    by (rule run_plain [OF _ p]) (use 2 in simp_all)
  have l: "lined_up (c # cs) (next_proc r) ?r1"
    unfolding cs [symmetric]
    using lined_up_add [of "plain_chain (redirect (main_shell r)) p" ?cs "r\<lparr>rsess := rsess r, main_shell := ?sh\<rparr>"] by simp
  have q: "\<forall>x \<in> set (c # cs). quick prog (fst x)" using 2(1) unfolding cs [symmetric] by (auto simp: stages_ok_def)
  have pr: "prompt_ok prog (main_shell ?r1)" using 2(5) by (simp add: add_pipeline_def prompt_ok_def)
  have "\<exists>r'. call_command m prog (next_proc r) ?r1 = (r', Inr ()) \<and> call_names r' = call_names ?r1 @ c # cs \<and> stack r' = []
      \<and> main_shell r' = main_shell ?r1 \<and> \<not> pp_has_next r'"
    by (rule chain_calls [OF l q _ _ pr n(2)]) (use 2(4) in \<open>simp_all add: add_pipeline_def\<close>)
  then show ?case
    unfolding n(1) resume_shell.simps rc by (auto simp: add_pipeline_def call_names_def cs simp del: call_command.simps)
next
  case (3 p q ps)
  let ?sh = "(main_shell r)\<lparr>cmdpending := map pipeline_tokens (q # ps)\<rparr>" and ?cs = "map (stage_call (table prog)) p"
  let ?r1 = "add_pipeline (plain_chain (redirect (main_shell r)) p) ?cs (r\<lparr>rsess := rsess r, main_shell := ?sh\<rparr>)"
  let ?i = "next_proc r"
  have p: "p \<noteq> []" "\<forall>st \<in> set p. found (table prog) st" using 3(2) by (auto simp: stages_ok_def)
  obtain st p' where pc: "p = st # p'" using p(1) by (cases p) auto
  obtain c cs where cs: "?cs = c # cs" "c = stage_call (table prog) st" using pc by auto
  have n4: "4 * length (q # ps) + 2 * length (last (q # ps)) + 4 \<le> n - 4" "4 \<le> n" using 3(8) by auto
  then obtain m where n: "n = Suc (Suc (Suc (Suc m)))" using four_more by blast
  have rc: "run_command (bytes_of_arch prog) (table prog) (pp_has_next r) (Suc (length (stack r))) (main_shell r) (rsess r)
      = ((rsess r, ?sh), Inr (Call (plain_chain (redirect (main_shell r)) p) ?cs))"
    by (rule run_plain [OF _ p]) (use 3 in simp_all)
  have l: "lined_up (c # cs) ?i ?r1"
    unfolding cs(1) [symmetric]
    using lined_up_add [of "plain_chain (redirect (main_shell r)) p" ?cs "r\<lparr>rsess := rsess r, main_shell := ?sh\<rparr>"] by simp
  have qk: "quick prog (fst c)" using 3(2) cs(2) pc by (auto simp: stages_ok_def)
  obtain r2 where r2: "with_pipes (start_command prog (proc_cmd (procs ?r1 ?i)) (proc_args (procs ?r1 ?i)) (input_data (proc_pipe (procs ?r1 ?i)))) ?i
      (push_call ?i ?r1) = (r2, Inr True)"
    "call_names r2 = call_names ?r1 @ [c]" "main_shell r2 = main_shell ?r1" "cur_pp r2 = Some ?i" "stack r2 = ?i # stack ?r1"
    "lined_up (c # cs) ?i r2"
    using start_quick [OF l qk] by blast
  let ?r3 = "pop_command ?i r2"
  have k3: "kept r2 ?r3" by (rule pop_kept)
  have s3: "stack ?r3 = []" using r2(5) 3(5) by (simp add: pop_command_def add_pipeline_def)
  have m3: "main_shell ?r3 = ?sh" using k3 r2(3) by (simp add: kept_def add_pipeline_def)
  obtain r4 where r4: "resume_shell (Suc m) prog ?r3 = (r4, Inr ())"
    "call_names r4 = call_names ?r3 @ map (stage_call (table prog)) (started (q # ps))" "stack r4 = []"
    "main_shell r4 = (main_shell ?r3)\<lparr>cmdpending := []\<rparr>" "\<not> pp_has_next r4"
    using "3.IH" [of ?r3 "Suc m"] 3(2,6,7) s3 m3 n n4(1) by (auto simp: stages_ok_def prompt_ok_def)
  have ol: "out_connection_lost (Suc (Suc m)) prog r4 = (r4, Inr ())"
    using r4(5) by (auto simp: pp_has_next_def split: option.splits)
  have cc: "call_command (Suc (Suc (Suc m))) prog ?i ?r1 = (r4, Inr ())"
    unfolding call_command.simps(2) Let_def r2(1) using s3 r4(1) ol
    by (simp add: Let_def del: resume_shell.simps out_connection_lost.simps)
  have names: "call_names r4 = call_names r @ c # map (stage_call (table prog)) (started (q # ps))"
    using r4(2) kept_names [OF k3] r2(2) by (simp add: add_pipeline_def call_names_def)
  have "resume_shell n prog r = (r4, Inr ())"
    unfolding n resume_shell.simps(2) rc using cc by (simp del: call_command.simps)
  then show ?case using names r4 m3 cs(2) pc by simp
qed

text \<open>C20: A line of pipelines joined by semicolons, all of commands that are known and end at once: every
  pipeline but the last has only its first command started, whose output is thrown away with the pipe;
  the last pipeline has all of them started, in order. Then nothing is pending or on the stack, the
  shell is as before, and no call is left open.\<close>

theorem line_starts_commands:
  assumes "stages_ok prog ps" "ps \<noteq> []" "cmdpending (main_shell r) = map pipeline_tokens ps" "stack r = []"
    "prompt_ok prog (main_shell r)" "map_of (environ (main_shell r)) ''PATH'' = Some path"
    "4 * length ps + 2 * length (last ps) + 4 \<le> n"
  shows "\<exists>r'. resume_shell n prog r = (r', Inr ()) \<and> call_names r' = call_names r @ map (stage_call (table prog)) (started ps)
    \<and> stack r' = [] \<and> main_shell r' = (main_shell r)\<lparr>cmdpending := []\<rparr>"
  using line_calls [OF assms] by blast

text \<open>A program for the examples: two commands that end at once and print nothing.\<close>

definition example_program :: "string program" where
  "example_program =
     \<lparr>bytes_of_arch = (\<lambda>_. []), table = \<lparr>commands = (\<lambda>c. if c \<in> {''a'', ''b'', ''c''} then Some c else None),
        txtcmd = (\<lambda>_. Inr None), scriptcmd = (\<lambda>s. s)\<rparr>,
      run_in_subshell = (\<lambda>_ w. (w, Inr [])), canned_answer = (\<lambda>_. None),
      user_account = \<lparr>username = ''root'', hostname = ''svr'', avatar_home = ''/root'', prompt_option = Some ''$''\<rparr>,
      exec_session = False, start_command = (\<lambda>_ _ _. ret True), line_handler = (\<lambda>_. None), ctrl_d_handler = (\<lambda>_. ret True)\<rparr>"

definition example_runner :: "nat list \<Rightarrow> stage list list \<Rightarrow> string runner" where
  "example_runner st ps =
     \<lparr>rsess = example_session,
      main_shell = \<lparr>interactive = True, redirect = False, cmdpending = map pipeline_tokens ps, environ = [(''PATH'', ''/bin'')]\<rparr>,
      stack = st, procs = (\<lambda>_. \<lparr>proc_pipe = plain_pipe False False, proc_cmd = ''a'', proc_args = [], proc_next = False\<rparr>),
      next_proc = length st, cur_pp = None, redir_files = [], session_ended = False, calls = []\<rparr>"

lemma example_stages_ok:
  assumes "\<forall>p \<in> set ps. p \<noteq> [] \<and> set p \<subseteq> {(''a'', []), (''b'', []), (''c'', [])}"
  shows "stages_ok example_program ps"
proof -
  have "found (table example_program) st \<and> quick example_program (fst (stage_call (table example_program) st))"
    if "st \<in> {(''a'', []), (''b'', []), (''c'', [])}" for st
    using that by (auto simp: example_program_def found_def stage_ok_def plain_token_def plain_word_def quick_def
        strip_chars_def lstrip_chars_def rstrip_chars_def is_space_def)
  then show ?thesis unfolding stages_ok_def using assms by (meson subsetD)
qed

lemma line_starts_commands_witness:
  "\<exists>r'. resume_shell 20 example_program (example_runner [] [[(''a'', []), (''b'', [])], [(''c'', [])]]) = (r', Inr ())
     \<and> call_names r' = [(''a'', []), (''c'', [])]"
proof -
  let ?ps = "[[(''a'', []), (''b'', [])], [(''c'', [])]] :: stage list list"
  have ok: "stages_ok example_program ?ps" by (rule example_stages_ok) simp
  have pr: "prompt_ok example_program (main_shell (example_runner [] ?ps))"
    by (simp add: prompt_ok_def example_program_def is_ascii_def)
  have "\<exists>r'. resume_shell 20 example_program (example_runner [] ?ps) = (r', Inr ())
      \<and> call_names r' = call_names (example_runner [] ?ps) @ map (stage_call (table example_program)) (started ?ps)
      \<and> stack r' = [] \<and> main_shell r' = (main_shell (example_runner [] ?ps))\<lparr>cmdpending := []\<rparr>"
    by (rule line_starts_commands [OF ok _ _ _ pr, of "''/bin''"]) (simp_all add: example_runner_def)
  then show ?thesis by (auto simp: call_names_def example_runner_def example_program_def stage_call_def)
qed

subsection \<open>Lines typed ahead\<close>

definition typed_word :: "string \<Rightarrow> bool" where
  "typed_word t \<longleftrightarrow> t \<noteq> [] \<and> (\<forall>c \<in> set t. \<not> shlex_blank c \<and> \<not> shlex_quote c \<and> c \<noteq> CHR 0x5C)"

lemma split_word:
  "\<forall>c \<in> set t. \<not> shlex_blank c \<and> \<not> shlex_quote c \<and> c \<noteq> CHR 0x5C \<Longrightarrow> split_words In_word u q (t @ s) = split_words In_word (u @ t) q s"
  by (induction t arbitrary: u) simp_all

lemma split_typed:
  assumes "typed_word t"
  shows "split_words Between [] False (t @ s) = split_words In_word t False s"
proof -
  obtain c r where t: "t = c # r" using assms by (cases t) (auto simp: typed_word_def)
  show ?thesis using assms split_word [of r "[c]" False s] by (simp add: t typed_word_def)
qed

lemma shlex_split_words:
  assumes "\<forall>t \<in> set ws. typed_word t"
  shows "shlex_split (join_with '' '' ws) = Inr ws"
  using assms
proof (induction "'' ''" ws rule: join_with.induct)
  case (2 x)
  then show ?case using split_typed [of x "[]"] by (simp add: shlex_split_def typed_word_def)
next
  case (3 x y zs)
  have b: "shlex_blank (CHR '' '')" by (simp add: shlex_blank_def)
  then show ?case using 3 split_typed [of x] by (simp add: shlex_split_def typed_word_def)
qed (simp add: shlex_split_def)

text \<open>Queued lines are words only: a semicolon is part of the word it is written on.\<close>

lemma queued_semicolon: "shlex_split ''ls; id'' = Inr [''ls;'', ''id'']"
  using shlex_split_words [of "[''ls;'', ''id'']"] by (simp add: typed_word_def shlex_blank_def shlex_quote_def)

fun type_lines :: "nat \<Rightarrow> 'c program \<Rightarrow> string list \<Rightarrow> 'c runner \<Rightarrow> ('c runner, unit) sres" where
  "type_lines n prog [] r = (r, Inr ())"
| "type_lines n prog (l # ls) r = sbind (line_typed n prog l r) (\<lambda>r1 _. type_lines n prog ls r1)"

definition queued :: "string list list \<Rightarrow> 'c runner \<Rightarrow> 'c runner" where
  "queued ws r = r\<lparr>main_shell := (main_shell r)\<lparr>cmdpending := cmdpending (main_shell r) @ ws\<rparr>\<rparr>"

lemma type_lines_queued:
  assumes "stack r = i # rest" "line_handler prog (proc_cmd (procs r i)) = None"
    "\<forall>ws \<in> set wss. is_ascii (join_with '' '' ws) \<and> (\<forall>t \<in> set ws. typed_word t)"
  shows "type_lines n prog (map (join_with '' '') wss) r = (queued wss r, Inr ())"
  using assms
proof (induction wss arbitrary: r)
  case (Cons ws wss)
  have "line_typed n prog (join_with '' '' ws) r = (queued [ws] r, Inr ())"
    using Cons.prems by (simp add: line_typed_def py_decode_ascii command_line_def shlex_split_words queued_def)
  then show ?case using Cons.IH [of "queued [ws] r"] Cons.prems by (simp add: queued_def)
qed (simp add: queued_def)

text \<open>C31: While a command that takes no input is in front of the shell, as \<open>sleep\<close> until its timer ends it or
  \<open>wget\<close> until its download is done, lines typed start nothing and show nothing; when the command has
  called \<open>exit\<close>, they are run in the order they were typed, as the pipelines of one line are.\<close>

theorem typed_ahead_runs:
  assumes "stages_ok prog ps" "ps \<noteq> []" "cmdpending (main_shell r) = []" "stack r = [i]"
    "line_handler prog (proc_cmd (procs r i)) = None"
    "prompt_ok prog (main_shell r)" "map_of (environ (main_shell r)) ''PATH'' = Some path"
    "4 * length ps + 2 * length (last ps) + 5 \<le> n"
    "\<forall>p \<in> set ps. is_ascii (join_with '' '' (pipeline_tokens p)) \<and> (\<forall>t \<in> set (pipeline_tokens p). typed_word t)"
  shows "\<exists>r1 r'. type_lines n prog (map (\<lambda>p. join_with '' '' (pipeline_tokens p)) ps) r = (r1, Inr ())
    \<and> calls r1 = calls r \<and> stack r1 = stack r \<and> rsess r1 = rsess r
    \<and> exit_command n prog i r1 = (r', Inr ()) \<and> call_names r' = call_names r @ map (stage_call (table prog)) (started ps) \<and> stack r' = []"
proof -
  let ?r1 = "queued (map pipeline_tokens ps) r"
  have q: "type_lines n prog (map (\<lambda>p. join_with '' '' (pipeline_tokens p)) ps) r = (?r1, Inr ())"
    using type_lines_queued [of r i "[]" prog "map pipeline_tokens ps" n] assms(4,5,9) by (simp add: comp_def)
  obtain m where n: "n = Suc m" "4 * length ps + 2 * length (last ps) + 4 \<le> m" using assms(8) by (cases n) auto
  let ?r3 = "pop_command i ?r1"
  have k: "kept ?r1 ?r3" by (rule pop_kept)
  have st: "stack ?r3 = []" using assms(4) by (simp add: queued_def pop_command_def)
  have m3: "main_shell ?r3 = main_shell ?r1" using k by (simp add: kept_def)
  obtain r' where r': "resume_shell m prog ?r3 = (r', Inr ())"
    "call_names r' = call_names ?r3 @ map (stage_call (table prog)) (started ps)" "stack r' = []"
    using line_calls [OF assms(1,2) _ st _ _ n(2), of path] assms(3,6,7) m3 by (auto simp: queued_def prompt_ok_def)
  have "exit_command n prog i ?r1 = (r', Inr ())" using st r'(1) by (simp add: n(1) Let_def)
  moreover have "call_names ?r3 = call_names r" using kept_names [OF k] by (simp add: queued_def call_names_def)
  ultimately show ?thesis using q r' by (intro exI [of _ ?r1] exI [of _ r']) (simp add: queued_def)
qed

text \<open>A \<open>sleep\<close> that is started, two lines, and the end of the \<open>sleep\<close>.\<close>

definition sleep_program :: "string program" where
  "sleep_program = example_program\<lparr>start_command := (\<lambda>c _ _. ret (c \<noteq> ''sleep''))\<rparr>"

definition sleep_runner :: "string runner" where
  "sleep_runner = (let r = example_runner [] [] in
     r\<lparr>procs := (procs r)(0 := (procs r 0)\<lparr>proc_cmd := ''sleep'', proc_args := [''5'']\<rparr>), next_proc := 1\<rparr>)"

lemma typed_ahead_runs_witness:
  "\<exists>r r1 r'. call_command 5 sleep_program 0 sleep_runner = (r, Inr ()) \<and> call_names r = [(''sleep'', [''5''])]
     \<and> type_lines 30 sleep_program [''b'', ''c''] r = (r1, Inr ()) \<and> calls r1 = calls r
     \<and> exit_command 30 sleep_program 0 r1 = (r', Inr ()) \<and> call_names r' = [(''sleep'', [''5'']), (''b'', []), (''c'', [])]"
proof -
  let ?ps = "[[(''b'', [])], [(''c'', [])]] :: stage list list"
  have start: "call_command 5 sleep_program 0 sleep_runner
      = (push_call 0 sleep_runner, Inr ())"
    by (simp add: numeral_eq_Suc sleep_program_def sleep_runner_def example_runner_def example_program_def
        push_call_def with_pipes_def ret_def proc_ids_def put_pipes_def Let_def)
  let ?r = "push_call 0 sleep_runner"
  have r: "main_shell ?r = main_shell (example_runner [] [])" "stack ?r = [0]" "call_names ?r = [(''sleep'', [''5''])]"
    by (simp_all add: push_call_def sleep_runner_def example_runner_def call_names_def Let_def)
  have same: "table sleep_program = table example_program" "line_handler sleep_program = line_handler example_program"
    "user_account sleep_program = user_account example_program" "bytes_of_arch sleep_program = bytes_of_arch example_program"
    by (simp_all add: sleep_program_def)
  have ok: "stages_ok sleep_program ?ps"
    by (auto simp: stages_ok_def sleep_program_def example_program_def found_def stage_ok_def plain_token_def plain_word_def
        quick_def strip_chars_def lstrip_chars_def rstrip_chars_def is_space_def stage_call_def)
  have pr: "prompt_ok sleep_program (main_shell ?r)"
    by (simp add: prompt_ok_def same r(1) example_program_def is_ascii_def example_runner_def)
  have tk: "pipeline_tokens [(''b'', [])] = [''b'']" "pipeline_tokens [(''c'', [])] = [''c'']"
    by (simp_all add: pipeline_tokens_def stage_tokens_def)
  have "\<exists>r1 r'. type_lines 30 sleep_program (map (\<lambda>p. join_with '' '' (pipeline_tokens p)) ?ps) ?r = (r1, Inr ())
    \<and> calls r1 = calls ?r \<and> stack r1 = stack ?r \<and> rsess r1 = rsess ?r
    \<and> exit_command 30 sleep_program 0 r1 = (r', Inr ())
    \<and> call_names r' = call_names ?r @ map (stage_call (table sleep_program)) (started ?ps) \<and> stack r' = []"
    by (rule typed_ahead_runs [OF ok _ _ r(2) _ pr, of "''/bin''"])
       (simp_all add: r example_runner_def same example_program_def tk is_ascii_def typed_word_def shlex_blank_def shlex_quote_def)
  with start r(3) show ?thesis by (auto simp: tk same example_program_def stage_call_def)
qed

end
