(* ===== verification/Bedrock.thy ===== *)
theory Bedrock
  imports Prelude_Bytes
begin

section \<open>Answers of a remote language model\<close>

text \<open>
  Model of \<open>llm/bedrock.py\<close>: the cache of answers (bounded, with a time to live, the least recently used
  entry goes first), the prompt, the call of the service with its retries, the time limit, the variant
  that reads a stream, and the statistics. The service is a parameter: what the n-th call is answered, and
  how long it takes. Time is the field \<open>mono\<close>, which a call and \<open>sleep\<close> move on. SHA-256 is a
  parameter; messages of the log are left out.
\<close>

subsection \<open>The cache\<close>

record cache_entry =
  entry_value :: string
  entry_at :: rat

text \<open>\<open>cache_store\<close> is the ordered dictionary, the least recently used key first.\<close>

record response_cache =
  max_entries :: int
  ttl_seconds :: int
  cache_store :: "(string \<times> cache_entry) list"
  cache_hits :: nat
  cache_misses :: nat
  cache_evictions :: nat

definition response_cache_new :: "int \<Rightarrow> int \<Rightarrow> response_cache" where
  "response_cache_new most ttl =
     \<lparr>max_entries = most, ttl_seconds = ttl, cache_store = [], cache_hits = 0, cache_misses = 0, cache_evictions = 0\<rparr>"

definition move_to_end :: "'k \<Rightarrow> ('k \<times> 'v) list \<Rightarrow> ('k \<times> 'v) list" where
  "move_to_end k d = (case map_of d k of None \<Rightarrow> d | Some v \<Rightarrow> AList.delete k d @ [(k, v)])"

definition cache_get :: "rat \<Rightarrow> string \<Rightarrow> response_cache \<Rightarrow> response_cache \<times> string option" where
  "cache_get now k c =
     (case map_of (cache_store c) k of
        None \<Rightarrow> (c\<lparr>cache_misses := cache_misses c + 1\<rparr>, None)
      | Some e \<Rightarrow>
          if of_int (ttl_seconds c) < now - entry_at e
          then (c\<lparr>cache_store := AList.delete k (cache_store c), cache_misses := cache_misses c + 1,
                  cache_evictions := cache_evictions c + 1\<rparr>, None)
          else (c\<lparr>cache_store := move_to_end k (cache_store c), cache_hits := cache_hits c + 1\<rparr>, Some (entry_value e)))"

definition cache_put :: "rat \<Rightarrow> string \<Rightarrow> string \<Rightarrow> response_cache \<Rightarrow> response_cache" where
  "cache_put now k v c =
     (let e = \<lparr>entry_value = v, entry_at = now\<rparr> in
      if map_of (cache_store c) k \<noteq> None
      then c\<lparr>cache_store := AList.update k e (move_to_end k (cache_store c))\<rparr>
      else let d = AList.update k e (cache_store c) in
           if max_entries c < int (length d) then c\<lparr>cache_store := tl d, cache_evictions := cache_evictions c + 1\<rparr>
           else c\<lparr>cache_store := d\<rparr>)"

definition cache_invalidate :: "string \<Rightarrow> response_cache \<Rightarrow> response_cache" where
  "cache_invalidate k c = c\<lparr>cache_store := AList.delete k (cache_store c)\<rparr>"

definition cache_clear :: "response_cache \<Rightarrow> response_cache" where
  "cache_clear c = c\<lparr>cache_store := []\<rparr>"

subsection \<open>The question\<close>

record question =
  ask_command :: string
  ask_host :: string
  ask_user :: string
  ask_cwd :: string

definition build_cache_key :: "(string \<Rightarrow> string) \<Rightarrow> question \<Rightarrow> string" where
  "build_cache_key sha q =
     sha (join_with ''|'' [join_with '' '' (split_space is_space [] (ask_command q)), ask_cwd q, ask_user q, ask_host q])"

definition fallback_response :: "string \<Rightarrow> string" where
  "fallback_response cmd =
     ''-bash: '' @ (case split_space is_space [] cmd of [] \<Rightarrow> cmd | t # _ \<Rightarrow> t) @ '': command not found''"

definition system_prompt :: string where
  "system_prompt =
     ''You are a Linux bash shell running on a server. ''
     @ ''When given a command, respond ONLY with the exact terminal output that command would produce. ''
     @ ''Do not explain, do not add commentary, do not use markdown. ''
     @ ''If the command is not found, respond exactly as bash would: ''
     @ [CHR 0x27] @ ''-bash: <command>: command not found'' @ [CHR 0x27] @ ''. ''
     @ ''Keep responses concise and realistic.''"

text \<open>\<open>text[: text.rfind(".") + 1]\<close>, or the text if it has no full stop.\<close>

definition cut_sentence :: "string \<Rightarrow> string" where
  "cut_sentence t = (if CHR ''.'' \<in> set t then rev (dropWhile (\<lambda>c. c \<noteq> CHR ''.'') (rev t)) else t)"

record request =
  req_model :: string
  req_system :: string
  req_user :: string
  req_max_tokens :: int
  req_temperature :: rat

subsection \<open>Statistics\<close>

record latency_stats =
  total_calls :: nat
  lat_hits :: nat
  lat_misses :: nat
  lat_timeouts :: nat
  lat_errors :: nat
  total_latency_ms :: rat

definition latency_stats_new :: latency_stats where
  "latency_stats_new = \<lparr>total_calls = 0, lat_hits = 0, lat_misses = 0, lat_timeouts = 0, lat_errors = 0, total_latency_ms = 0\<rparr>"

definition record_outcome :: "string \<Rightarrow> rat \<Rightarrow> latency_stats \<Rightarrow> latency_stats" where
  "record_outcome outcome ms s =
     (let t = s\<lparr>total_calls := total_calls s + 1, total_latency_ms := total_latency_ms s + ms\<rparr> in
      if outcome = ''hit'' then t\<lparr>lat_hits := lat_hits t + 1\<rparr>
      else if outcome = ''miss'' then t\<lparr>lat_misses := lat_misses t + 1\<rparr>
      else if outcome = ''timeout'' then t\<lparr>lat_timeouts := lat_timeouts t + 1\<rparr>
      else if outcome = ''error'' then t\<lparr>lat_errors := lat_errors t + 1\<rparr>
      else t)"

definition mean_latency_ms :: "latency_stats \<Rightarrow> rat" where
  "mean_latency_ms s = (if 0 < total_calls s then total_latency_ms s / of_nat (total_calls s) else 0)"

subsection \<open>The client\<close>

text \<open>The options as the parser of the configuration gives them: absent, a value, or an exception.\<close>

record bedrock_options =
  opt_model :: string
  opt_max_tokens :: "int option res"
  opt_temperature :: "rat option res"
  opt_cache_enabled :: "bool option res"
  opt_cache_ttl :: "int option res"
  opt_cache_max :: "int option res"
  opt_timeout :: "rat option res"
  opt_max_retries :: "int option res"
  opt_streaming :: "bool option res"
  opt_prompt_chars :: "int option res"

definition strict :: "'a \<Rightarrow> 'a option res \<Rightarrow> 'a res" where
  "strict d r = rbind r (\<lambda>v. Inr (case v of None \<Rightarrow> d | Some x \<Rightarrow> x))"

definition lenient :: "'a \<Rightarrow> 'a option res \<Rightarrow> 'a" where
  "lenient d r = (case r of Inr (Some v) \<Rightarrow> v | _ \<Rightarrow> d)"

text \<open>\<open>has_boto\<close>: the client of the service is there. \<open>requests\<close> lists what has been sent.\<close>

record bedrock =
  model_id :: string
  max_tokens :: int
  temperature :: rat
  timeout_seconds :: rat
  max_retries :: int
  streaming :: bool
  max_prompt_chars :: int
  answers :: "response_cache option"
  lat_stats :: latency_stats
  has_boto :: bool
  mono :: rat
  requests :: "request list"

definition bedrock_new :: "bedrock_options \<Rightarrow> rat \<Rightarrow> bedrock res" where
  "bedrock_new opt now =
     rbind (strict 300 (opt_max_tokens opt)) (\<lambda>tokens.
     rbind (strict (3 / 10) (opt_temperature opt)) (\<lambda>temp.
       let ttl = lenient 3600 (opt_cache_ttl opt); most = lenient 1000 (opt_cache_max opt) in
       if ttl \<le> 0 \<or> most \<le> 0 then Inl ValueError
       else Inr \<lparr>model_id = opt_model opt, max_tokens = tokens, temperature = temp,
                 timeout_seconds = lenient 10 (opt_timeout opt), max_retries = lenient 2 (opt_max_retries opt),
                 streaming = lenient False (opt_streaming opt), max_prompt_chars = lenient 500 (opt_prompt_chars opt),
                 answers = (if lenient True (opt_cache_enabled opt) then Some (response_cache_new most ttl) else None),
                 lat_stats = latency_stats_new, has_boto = True, mono = now, requests = []\<rparr>))"

definition build_prompt :: "bedrock \<Rightarrow> question \<Rightarrow> request" where
  "build_prompt b q =
     (let user = ''['' @ ask_user q @ ''@'' @ ask_host q @ '' '' @ ask_cwd q @ '']$ '' @ ask_command q;
          available = max_prompt_chars b - int (ulen user);
          sys = (if available \<le> 0 then []
                 else if available < int (length system_prompt) then cut_sentence (take (nat available) system_prompt)
                 else system_prompt)
      in \<lparr>req_model = model_id b, req_system = sys, req_user = user, req_max_tokens = max_tokens b,
          req_temperature = temperature b\<rparr>)"

text \<open>What the service may answer: blocks of which some hold text, or one of the errors.\<close>

datatype reply = Blocks "string option list" | Throttled | Client_error | Endpoint_error | Boto_error | Other_error py_error

datatype stream_event = Stream_chunk string bool | Stream_error

record service =
  converse :: "request \<Rightarrow> nat \<Rightarrow> rat \<times> reply"
  converse_stream :: "request \<Rightarrow> nat \<Rightarrow> rat \<times> stream_event list"

definition call_once :: "service \<Rightarrow> question \<Rightarrow> bedrock \<Rightarrow> bedrock \<times> reply" where
  "call_once srv q b =
     (let req = build_prompt b q in
      if \<not> has_boto b then (b, Other_error AttributeError)
      else case converse srv req (length (requests b)) of
             (t, rep) \<Rightarrow> (b\<lparr>requests := requests b @ [req], mono := mono b + t\<rparr>, rep))"

definition block_text :: "string option list \<Rightarrow> string" where
  "block_text bs = concat (map (\<lambda>x. case x of None \<Rightarrow> [] | Some t \<Rightarrow> t) bs)"

text \<open>The attempts from number \<open>i\<close> on, \<open>k\<close> of them.\<close>

fun call_attempts :: "nat \<Rightarrow> service \<Rightarrow> question \<Rightarrow> nat \<Rightarrow> bedrock \<Rightarrow> (bedrock, string) sres" where
  "call_attempts 0 srv q i b = (b, Inr (fallback_response (ask_command q)))"
| "call_attempts (Suc k) srv q i b =
     (case call_once srv q b of
        (b1, Blocks bs) \<Rightarrow> (b1, Inr (strip_chars is_space (block_text bs)))
      | (b1, Throttled) \<Rightarrow>
          if int i < max_retries b1 then call_attempts k srv q (Suc i) (b1\<lparr>mono := mono b1 + 2 ^ i / 2\<rparr>)
          else (b1, Inr (fallback_response (ask_command q)))
      | (b1, Client_error) \<Rightarrow> (b1, Inr (fallback_response (ask_command q)))
      | (b1, Endpoint_error) \<Rightarrow> (b1\<lparr>has_boto := False\<rparr>, Inr (fallback_response (ask_command q)))
      | (b1, Boto_error) \<Rightarrow> (b1, Inr (fallback_response (ask_command q)))
      | (b1, Other_error e) \<Rightarrow> (b1, Inl e))"

definition call_bedrock :: "service \<Rightarrow> question \<Rightarrow> bedrock \<Rightarrow> (bedrock, string) sres" where
  "call_bedrock srv q b = call_attempts (nat (max_retries b + 1)) srv q 0 b"

text \<open>The call runs in a thread of an executor, and leaving the executor waits for the thread.\<close>

definition call_bedrock_with_timeout :: "service \<Rightarrow> question \<Rightarrow> bedrock \<Rightarrow> (bedrock, string) sres" where
  "call_bedrock_with_timeout srv q b =
     (if timeout_seconds b = 0 then call_bedrock srv q b
      else case call_bedrock srv q b of
             (b1, r) \<Rightarrow>
               if timeout_seconds b < mono b1 - mono b
               then (b1\<lparr>lat_stats := record_outcome ''timeout'' (timeout_seconds b * 1000) (lat_stats b1)\<rparr>,
                     Inr (fallback_response (ask_command q)))
               else (b1, r))"

fun stream_chunks :: "string \<Rightarrow> stream_event list \<Rightarrow> string list" where
  "stream_chunks fall [] = []"
| "stream_chunks fall (Stream_chunk t stop # es) =
     (if t = [] then [] else [t]) @ (if stop then [] else stream_chunks fall es)"
| "stream_chunks fall (Stream_error # es) = [fall]"

definition call_bedrock_streaming :: "service \<Rightarrow> question \<Rightarrow> bedrock \<Rightarrow> bedrock \<times> string" where
  "call_bedrock_streaming srv q b =
     (let req = build_prompt b q; fall = fallback_response (ask_command q) in
      if \<not> has_boto b then (b, strip_chars is_space fall)
      else case converse_stream srv req (length (requests b)) of
             (t, es) \<Rightarrow> (b\<lparr>requests := requests b @ [req], mono := mono b + t\<rparr>,
                        strip_chars is_space (concat (stream_chunks fall es))))"

subsection \<open>An answer\<close>

definition count_outcome :: "string \<Rightarrow> rat \<Rightarrow> bedrock \<Rightarrow> bedrock" where
  "count_outcome outcome t0 b = b\<lparr>lat_stats := record_outcome outcome ((mono b - t0) * 1000) (lat_stats b)\<rparr>"

definition ask_service :: "service \<Rightarrow> question \<Rightarrow> bedrock \<Rightarrow> (bedrock, string) sres" where
  "ask_service srv q b =
     (if streaming b then (case call_bedrock_streaming srv q b of (b1, t) \<Rightarrow> (b1, Inr t))
      else call_bedrock_with_timeout srv q b)"

definition answer_missed :: "(string \<Rightarrow> string) \<Rightarrow> service \<Rightarrow> question \<Rightarrow> bedrock \<Rightarrow> (bedrock, string) sres" where
  "answer_missed sha srv q b =
     sbind (ask_service srv q b) (\<lambda>b1 t.
       (count_outcome ''miss'' (mono b)
          (b1\<lparr>answers := map_option (cache_put (mono b1) (build_cache_key sha q) t) (answers b1)\<rparr>), Inr t))"

definition get_response_sync :: "(string \<Rightarrow> string) \<Rightarrow> service \<Rightarrow> question \<Rightarrow> bedrock \<Rightarrow> (bedrock, string) sres" where
  "get_response_sync sha srv q b =
     (case answers b of
        None \<Rightarrow> answer_missed sha srv q b
      | Some c \<Rightarrow>
          (case cache_get (mono b) (build_cache_key sha q) c of
             (c1, Some t) \<Rightarrow> (count_outcome ''hit'' (mono b) (b\<lparr>answers := Some c1\<rparr>), Inr t)
           | (c1, None) \<Rightarrow> answer_missed sha srv q (b\<lparr>answers := Some c1\<rparr>)))"

text \<open>Any exception ends in the empty answer.\<close>

definition get_response :: "(string \<Rightarrow> string) \<Rightarrow> service \<Rightarrow> question \<Rightarrow> bedrock \<Rightarrow> bedrock \<times> string" where
  "get_response sha srv q b =
     (case get_response_sync sha srv q b of (b1, Inl e) \<Rightarrow> (b1, []) | (b1, Inr t) \<Rightarrow> (b1, t))"

end
