(* ===== verification/Bedrock_Props.thy ===== *)
theory Bedrock_Props
  imports Bedrock "HOL-Library.Sublist"
begin

section \<open>The cache keeps its promises, the client not all of its own\<close>

text \<open>
  The cache of \<open>Bedrock\<close> is bounded, gives back what was put last, and forgets the least recently used key
  first. Of the client: the length of a prompt, the retries, and three faults: a failure is kept like an
  answer, a lost connection is never made again, and the time limit does not limit the time.
\<close>

subsection \<open>Runs of the cache\<close>

datatype cache_op = Cache_get rat string | Cache_put rat string string | Cache_invalidate string | Cache_clear

fun cache_step :: "response_cache \<Rightarrow> cache_op \<Rightarrow> response_cache" where
  "cache_step c (Cache_get now k) = fst (cache_get now k c)"
| "cache_step c (Cache_put now k v) = cache_put now k v c"
| "cache_step c (Cache_invalidate k) = cache_invalidate k c"
| "cache_step c Cache_clear = cache_clear c"

definition cache_ok :: "response_cache \<Rightarrow> bool" where
  "cache_ok c \<longleftrightarrow> distinct (map fst (cache_store c)) \<and> 0 < max_entries c \<and> int (length (cache_store c)) \<le> max_entries c"

lemma cache_limits [simp]:
  "max_entries (fst (cache_get now k c)) = max_entries c" "max_entries (cache_put now k v c) = max_entries c"
  "ttl_seconds (fst (cache_get now k c)) = ttl_seconds c" "ttl_seconds (cache_put now k v c) = ttl_seconds c"
  by (auto simp: cache_get_def cache_put_def Let_def split: option.splits)

lemma step_limits [simp]: "max_entries (cache_step c op) = max_entries c" "ttl_seconds (cache_step c op) = ttl_seconds c"
  by (cases op; simp add: cache_invalidate_def cache_clear_def)+

lemma move_to_end_moves: "map_of d k = Some v \<Longrightarrow> move_to_end k d = AList.delete k d @ [(k, v)]"
  by (simp add: move_to_end_def)

lemma delete_absent: "k \<notin> fst ` set d \<Longrightarrow> AList.delete k d = d"
  by (induction d) auto

lemma update_last:
  assumes "map_of d k = Some w"
  shows "AList.update k e (move_to_end k d) = AList.delete k d @ [(k, e)]"
proof -
  have "k \<notin> fst ` set (AList.delete k d)" by (simp add: fst_delete)
  then show ?thesis unfolding move_to_end_moves [OF assms] using alist_update_mid [of k "AList.delete k d" e w "[]"] by simp
qed

lemma length_delete_le: "length (AList.delete k d) \<le> length d"
  by (induction d) auto

lemma length_delete_less: "map_of d k = Some w \<Longrightarrow> length (AList.delete k d) < length d"
proof (induction d)
  case (Cons x d)
  then show ?case using length_delete_le [of k d] by (cases "fst x = k") auto
qed simp

text \<open>What a step does to the entries.\<close>

lemma store_after_get:
  "cache_store (fst (cache_get now k c)) =
     (case map_of (cache_store c) k of
        None \<Rightarrow> cache_store c
      | Some e \<Rightarrow> AList.delete k (cache_store c) @ (if of_int (ttl_seconds c) < now - entry_at e then [] else [(k, e)]))"
  by (auto simp: cache_get_def move_to_end_def split: option.splits)

lemma store_after_put:
  assumes "cache_ok c"
  shows "cache_store (cache_put now k v c) =
     (let d = AList.delete k (cache_store c) @ [(k, \<lparr>entry_value = v, entry_at = now\<rparr>)] in
      if max_entries c < int (length d) then tl d else d)"
proof (cases "map_of (cache_store c) k")
  case None
  then have "k \<notin> fst ` set (cache_store c)" by (simp add: map_of_eq_None_iff)
  then show ?thesis using None by (auto simp: cache_put_def Let_def alist_update_new delete_absent)
next
  case (Some w)
  then have "length (AList.delete k (cache_store c)) < length (cache_store c)" by (rule length_delete_less)
  then have "\<not> max_entries c < int (Suc (length (AList.delete k (cache_store c))))" using assms by (simp add: cache_ok_def)
  then show ?thesis using Some by (simp add: cache_put_def Let_def update_last)
qed

lemma distinct_snoc_fresh: "distinct (map fst d) \<Longrightarrow> distinct (map fst (AList.delete k d @ [(k, e)]))"
  by (auto simp: distinct_delete fst_delete)

lemma cache_ok_store:
  "cache_ok c \<Longrightarrow> distinct (map fst d) \<Longrightarrow> length d \<le> length (cache_store c) \<Longrightarrow> cache_ok (c\<lparr>cache_store := d\<rparr>)"
  by (simp add: cache_ok_def)

lemma cache_step_ok:
  assumes "cache_ok c"
  shows "cache_ok (cache_step c op)"
proof (cases op)
  case (Cache_get now k)
  let ?d = "AList.delete k (cache_store c)"
  show ?thesis
  proof (cases "map_of (cache_store c) k")
    case None
    then show ?thesis using assms by (simp add: Cache_get cache_get_def cache_ok_def)
  next
    case (Some e)
    then have "int (Suc (length ?d)) \<le> max_entries c"
      using assms length_delete_less [OF Some] by (simp add: cache_ok_def)
    then show ?thesis
      using assms Some distinct_snoc_fresh [of "cache_store c" k e]
      by (simp add: Cache_get cache_ok_def store_after_get distinct_delete)
  qed
next
  case (Cache_put now k v)
  let ?d = "AList.delete k (cache_store c) @ [(k, \<lparr>entry_value = v, entry_at = now\<rparr>)]"
  have "distinct (map fst ?d)" using assms by (intro distinct_snoc_fresh) (simp add: cache_ok_def)
  moreover have "int (length ?d) \<le> max_entries c + 1"
    using assms length_delete_le [of k "cache_store c"] by (simp add: cache_ok_def)
  ultimately show ?thesis
    using assms by (simp add: Cache_put cache_ok_def store_after_put [OF assms] Let_def map_tl distinct_tl)
next
  case (Cache_invalidate k)
  then show ?thesis using assms length_delete_le [of k "cache_store c"]
    by (simp add: cache_ok_def cache_invalidate_def distinct_delete)
next
  case Cache_clear
  then show ?thesis using assms by (simp add: cache_ok_def cache_clear_def)
qed

interpretation cache: machine cache_step cache_ok
  by unfold_locales (rule cache_step_ok)

lemma cache_new_ok: "0 < most \<Longrightarrow> cache_ok (response_cache_new most ttl)"
  by (simp add: cache_ok_def response_cache_new_def)

lemma run_limits [simp]: "max_entries (foldl cache_step c ops) = max_entries c" "ttl_seconds (foldl cache_step c ops) = ttl_seconds c"
  by (induction ops arbitrary: c) simp_all

subsection \<open>A hit is what was put last\<close>

text \<open>The last value put under a key, and when, as the operations say it.\<close>

fun last_put :: "(string \<Rightarrow> cache_entry option) \<Rightarrow> cache_op \<Rightarrow> string \<Rightarrow> cache_entry option" where
  "last_put f (Cache_put now k v) = f(k \<mapsto> \<lparr>entry_value = v, entry_at = now\<rparr>)"
| "last_put f (Cache_invalidate k) = f(k := None)"
| "last_put f Cache_clear = (\<lambda>_. None)"
| "last_put f (Cache_get now k) = f"

definition agrees :: "('k \<times> 'v) list \<Rightarrow> ('k \<Rightarrow> 'v option) \<Rightarrow> bool" where
  "agrees d f \<longleftrightarrow> (\<forall>x e. map_of d x = Some e \<longrightarrow> f x = Some e)"

lemma map_of_tl: "distinct (map fst d) \<Longrightarrow> map_of (tl d) x = Some e \<Longrightarrow> map_of d x = Some e"
proof (cases d)
  case (Cons y ys)
  assume "distinct (map fst d)" "map_of (tl d) x = Some e"
  then have "(x, e) \<in> set ys" "fst y \<notin> fst ` set ys" by (auto simp: Cons dest: map_of_SomeD)
  then have "fst y \<noteq> x" by (metis fst_conv image_eqI)
  then show ?thesis using \<open>map_of (tl d) x = Some e\<close> by (cases y) (simp add: Cons)
qed simp

lemma map_of_move: "map_of (AList.delete k d @ [(k, e)]) = (map_of d)(k \<mapsto> e)"
proof
  fix x show "map_of (AList.delete k d @ [(k, e)]) x = ((map_of d)(k \<mapsto> e)) x"
    by (cases "x = k") (auto simp: map_add_def delete_conv' split: option.splits)
qed

lemma store_latest_step:
  assumes "cache_ok c" "agrees (cache_store c) f"
  shows "agrees (cache_store (cache_step c op)) (last_put f op)"
proof (cases op)
  case (Cache_get now k)
  have "agrees (AList.delete k (cache_store c)) f" using assms(2) by (auto simp: agrees_def delete_conv')
  moreover have "agrees (AList.delete k (cache_store c) @ [(k, e)]) f" if "map_of (cache_store c) k = Some e" for e
    using assms(2) that by (simp add: agrees_def map_of_move del: map_of_append)
  ultimately show ?thesis using assms(2) by (simp add: Cache_get store_after_get split: option.splits)
next
  case (Cache_put now k v)
  let ?e = "\<lparr>entry_value = v, entry_at = now\<rparr>" and ?d = "cache_store c"
  let ?n = "AList.delete k ?d @ [(k, ?e)]"
  have "distinct (map fst ?n)" using assms(1) by (intro distinct_snoc_fresh) (simp add: cache_ok_def)
  moreover have "agrees ?n (f(k \<mapsto> ?e))" using assms(2) by (simp add: agrees_def map_of_move del: map_of_append)
  ultimately have "agrees ?n (f(k \<mapsto> ?e))" "agrees (tl ?n) (f(k \<mapsto> ?e))"
    using map_of_tl [of ?n] unfolding agrees_def by blast+
  then show ?thesis unfolding Cache_put cache_step.simps last_put.simps store_after_put [OF assms(1)] Let_def
    by (simp split: if_split)
next
  case (Cache_invalidate k)
  then show ?thesis using assms(2) by (auto simp: cache_invalidate_def delete_conv' agrees_def)
next
  case Cache_clear
  then show ?thesis by (simp add: cache_clear_def agrees_def)
qed

lemma store_latest:
  "cache_ok c \<Longrightarrow> agrees (cache_store c) f \<Longrightarrow> agrees (cache_store (foldl cache_step c ops)) (foldl last_put f ops)"
proof (induction ops arbitrary: c f)
  case (Cons op ops)
  then show ?case using cache_step_ok store_latest_step by simp
qed simp

lemma get_hit:
  "cache_get now k c = (c', Some v) \<Longrightarrow>
   \<exists>e. map_of (cache_store c) k = Some e \<and> entry_value e = v \<and> now - entry_at e \<le> of_int (ttl_seconds c)"
  by (auto simp: cache_get_def not_less split: option.splits if_splits)

text \<open>After any run of the cache that starts empty: it has never more entries than it may, each key once;
  and a hit is the value that was put last under this key, not taken back since, and not older than the
  time to live.\<close>

theorem cache_hit_is_latest:
  assumes "0 < most" "cache_get now k (foldl cache_step (response_cache_new most ttl) ops) = (c', Some v)"
  shows "cache_ok c' \<and> (\<exists>t. foldl last_put (\<lambda>_. None) ops k = Some \<lparr>entry_value = v, entry_at = t\<rparr> \<and> now - t \<le> of_int ttl)"
proof -
  let ?c = "foldl cache_step (response_cache_new most ttl) ops"
  have ok: "cache_ok ?c" using cache_new_ok [OF assms(1)] by (rule cache.run_inv)
  have "cache_ok c'" using cache_step_ok [OF ok, of "Cache_get now k"] assms(2) by simp
  moreover obtain e where e: "map_of (cache_store ?c) k = Some e" "entry_value e = v" "now - entry_at e \<le> of_int (ttl_seconds ?c)"
    using get_hit [OF assms(2)] by blast
  moreover have "agrees (cache_store ?c) (foldl last_put (\<lambda>_. None) ops)"
    by (rule store_latest [OF cache_new_ok [OF assms(1)]]) (simp add: response_cache_new_def agrees_def)
  moreover have "ttl_seconds ?c = ttl" by (simp add: response_cache_new_def)
  ultimately show ?thesis unfolding agrees_def by (cases e) auto
qed

lemma cache_hit_is_latest_witness:
  "\<exists>t. foldl last_put (\<lambda>_. None) [Cache_put 0 ''a'' ''x'', Cache_put 5 ''a'' ''y''] ''a'' = Some \<lparr>entry_value = ''y'', entry_at = t\<rparr>
     \<and> 10 - t \<le> of_int 60"
proof -
  let ?c = "foldl cache_step (response_cache_new 2 60) [Cache_put 0 ''a'' ''x'', Cache_put 5 ''a'' ''y'']"
  have "cache_get 10 ''a'' ?c = (fst (cache_get 10 ''a'' ?c), Some ''y'')"
    by (simp add: cache_get_def cache_put_def response_cache_new_def move_to_end_def Let_def)
  from cache_hit_is_latest [OF _ this] show ?thesis by simp
qed

subsection \<open>The least recently used key goes first\<close>

fun touched :: "cache_op \<Rightarrow> string set" where
  "touched (Cache_get now k) = {k}"
| "touched (Cache_put now k v) = {k}"
| "touched (Cache_invalidate k) = {}"
| "touched Cache_clear = {}"

text \<open>An operation that leaves the entry of a key alone, but for a read in time.\<close>

fun spares :: "string \<Rightarrow> rat \<Rightarrow> cache_op \<Rightarrow> bool" where
  "spares k deadline (Cache_get now l) \<longleftrightarrow> l = k \<longrightarrow> now \<le> deadline"
| "spares k deadline (Cache_put now l v) \<longleftrightarrow> l \<noteq> k"
| "spares k deadline (Cache_invalidate l) \<longleftrightarrow> l \<noteq> k"
| "spares k deadline Cache_clear \<longleftrightarrow> False"

text \<open>Only keys of the set \<open>T\<close> have been used after \<open>k\<close>.\<close>

definition used_after :: "string \<Rightarrow> cache_entry \<Rightarrow> string set \<Rightarrow> response_cache \<Rightarrow> bool" where
  "used_after k e T c \<longleftrightarrow> (\<exists>as bs. cache_store c = as @ (k, e) # bs \<and> fst ` set bs \<subseteq> T)"

lemma used_after_same: "used_after k e T c \<Longrightarrow> cache_store c' = cache_store c \<Longrightarrow> T \<subseteq> T' \<Longrightarrow> used_after k e T' c'"
  unfolding used_after_def by (metis subset_trans)

lemma used_afterI: "cache_store c = as @ (k, e) # bs \<Longrightarrow> fst ` set bs \<subseteq> T \<Longrightarrow> used_after k e T c"
  by (auto simp: used_after_def)

lemma delete_around:
  "l \<noteq> k \<Longrightarrow> AList.delete l (as @ (k, e) # bs) = AList.delete l as @ (k, e) # AList.delete l bs"
  by (simp add: AList.delete_eq)

lemma used_after_delete:
  assumes "used_after k e T c" "l \<noteq> k"
  obtains as bs where "AList.delete l (cache_store c) = as @ (k, e) # bs" "fst ` set bs \<subseteq> T"
proof -
  obtain as bs where s: "cache_store c = as @ (k, e) # bs" "fst ` set bs \<subseteq> T" using assms(1) by (auto simp: used_after_def)
  show ?thesis
    by (rule that [of "AList.delete l as" "AList.delete l bs"]) (use s assms(2) in \<open>auto simp: delete_around fst_delete\<close>)
qed

lemma used_after_lookup: "cache_ok c \<Longrightarrow> used_after k e T c \<Longrightarrow> map_of (cache_store c) k = Some e"
  by (auto simp: used_after_def cache_ok_def)

lemma used_after_step:
  assumes "cache_ok c" "used_after k e T c" "finite T" "k \<notin> T" "int (card (T \<union> (touched op - {k}))) < max_entries c"
    "spares k (entry_at e + of_int (ttl_seconds c)) op"
  shows "used_after k e (T \<union> (touched op - {k})) (cache_step c op)"
proof (cases op)
  case (Cache_get now l)
  show ?thesis
  proof (cases "l = k")
    case True
    then have "\<not> of_int (ttl_seconds c) < now - entry_at e" using assms(6) by (simp add: Cache_get)
    then have "cache_store (cache_step c op) = AList.delete k (cache_store c) @ (k, e) # []"
      using used_after_lookup [OF assms(1,2)] True by (simp add: Cache_get store_after_get)
    then show ?thesis unfolding used_after_def by (metis empty_subsetI image_empty list.set(1))
  next
    case False
    obtain as bs where d: "AList.delete l (cache_store c) = as @ (k, e) # bs" "fst ` set bs \<subseteq> T"
      using used_after_delete [OF assms(2) False] .
    show ?thesis
    proof (cases "map_of (cache_store c) l")
      case None
      then have "cache_store (cache_step c op) = cache_store c" by (simp add: Cache_get store_after_get)
      with assms(2) show ?thesis by (rule used_after_same) simp
    next
      case (Some w)
      then have "cache_store (cache_step c op) = as @ (k, e) # bs @ (if of_int (ttl_seconds c) < now - entry_at w then [] else [(l, w)])"
        using d(1) by (simp add: Cache_get store_after_get)
      then show ?thesis by (rule used_afterI) (use d(2) False in \<open>auto simp: Cache_get\<close>)
    qed
  qed
next
  case (Cache_put now l v)
  then have l: "l \<noteq> k" using assms(6) by simp
  let ?n = "\<lparr>entry_value = v, entry_at = now\<rparr>"
  obtain as bs where d: "AList.delete l (cache_store c) = as @ (k, e) # bs" "fst ` set bs \<subseteq> T"
    using used_after_delete [OF assms(2) l] .
  let ?all = "as @ (k, e) # bs @ [(l, ?n)]"
  have st: "cache_store (cache_step c op) = (if max_entries c < int (length ?all) then tl ?all else ?all)"
    unfolding Cache_put cache_step.simps store_after_put [OF assms(1)] d(1) Let_def by simp
  have sub: "fst ` set (bs @ [(l, ?n)]) \<subseteq> T \<union> (touched op - {k})" using d(2) l by (auto simp: Cache_put)
  have "as \<noteq> []" if "max_entries c < int (length ?all)"
  proof
    assume "as = []"
    have "distinct (map fst (AList.delete l (cache_store c) @ [(l, ?n)]))"
      using assms(1) by (intro distinct_snoc_fresh) (simp add: cache_ok_def)
    then have "distinct (map fst (bs @ [(l, ?n)]))" unfolding d(1) by simp
    then have "length (bs @ [(l, ?n)]) = card (fst ` set (bs @ [(l, ?n)]))" by (metis distinct_card length_map set_map)
    also have "\<dots> \<le> card (T \<union> (touched op - {k}))" using sub assms(3) by (intro card_mono) (simp_all add: Cache_put)
    finally show False using that assms(5) \<open>as = []\<close> by simp
  qed
  then have "\<exists>as'. cache_store (cache_step c op) = as' @ (k, e) # bs @ [(l, ?n)]"
    unfolding st by (cases as) auto
  then show ?thesis using sub unfolding used_after_def by blast
next
  case (Cache_invalidate l)
  then have "l \<noteq> k" using assms(6) by simp
  then show ?thesis using used_after_delete [OF assms(2)] unfolding used_after_def
    by (auto simp: Cache_invalidate cache_invalidate_def elim!: used_after_delete [OF assms(2)])
next
  case Cache_clear
  then show ?thesis using assms(6) by simp
qed

lemma used_after_run:
  assumes "cache_ok c" "used_after k e T c" "finite T" "k \<notin> T"
    "int (card (T \<union> (\<Union> (touched ` set ops) - {k}))) < max_entries c"
    "\<forall>op \<in> set ops. spares k (entry_at e + of_int (ttl_seconds c)) op"
  shows "\<exists>T'. used_after k e T' (foldl cache_step c ops)"
  using assms
proof (induction ops arbitrary: c T)
  case (Cons op ops)
  let ?T = "T \<union> (touched op - {k})"
  have fin: "finite (touched x)" for x by (cases x) simp_all
  have eq: "?T \<union> (\<Union> (touched ` set ops) - {k}) = T \<union> (\<Union> (touched ` set (op # ops)) - {k})" by auto
  have "card ?T \<le> card (T \<union> (\<Union> (touched ` set (op # ops)) - {k}))"
    by (rule card_mono) (use Cons.prems(3) fin in auto)
  then have "used_after k e ?T (cache_step c op)"
    using Cons.prems by (intro used_after_step) auto
  then show ?case
    using Cons.IH [of "cache_step c op" ?T] Cons.prems cache_step_ok [OF Cons.prems(1)] fin eq by simp
qed auto

lemma recent_stays:
  assumes "cache_ok c" "\<forall>op \<in> set ops. spares k (t + of_int (ttl_seconds c)) op"
    "int (card (\<Union> (touched ` set ops) - {k})) < max_entries c" "now \<le> t + of_int (ttl_seconds c)"
  shows "snd (cache_get now k (foldl cache_step (cache_put t k v c) ops)) = Some v"
proof -
  let ?e = "\<lparr>entry_value = v, entry_at = t\<rparr>" and ?c = "cache_put t k v c"
  let ?all = "AList.delete k (cache_store c) @ [(k, ?e)]"
  have ok: "cache_ok ?c" using cache_step_ok [OF assms(1), of "Cache_put t k v"] by simp
  have "used_after k ?e {} ?c"
  proof (cases "max_entries c < int (length ?all)")
    case True
    moreover have "AList.delete k (cache_store c) \<noteq> []" using True assms(1) by (auto simp: cache_ok_def)
    ultimately show ?thesis unfolding used_after_def store_after_put [OF assms(1)] Let_def by (auto simp: neq_Nil_conv)
  next
    case False
    then show ?thesis unfolding used_after_def store_after_put [OF assms(1)] Let_def by auto
  qed
  then obtain T where "used_after k ?e T (foldl cache_step ?c ops)"
    using used_after_run [OF ok, of k ?e "{}" ops] assms by auto
  then have "map_of (cache_store (foldl cache_step ?c ops)) k = Some ?e"
    using used_after_lookup cache.run_inv [OF ok] by blast
  then show ?thesis using assms(4) by (simp add: cache_get_def)
qed

text \<open>C26: A value stays for its time to live, however the cache is used, as long as fewer other keys than the
  cache has room for are put or read after it.\<close>

theorem cache_keeps_recent:
  assumes "cache_ok c" "\<forall>op \<in> set ops. spares k (t + of_int (ttl_seconds c)) op"
    "int (card (\<Union> (touched ` set ops) - {k})) < max_entries c" "now \<le> t + of_int (ttl_seconds c)"
  shows "snd (cache_get now k (foldl cache_step (cache_put t k v c) ops)) = Some v"
  using recent_stays [OF assms] .

lemma cache_keeps_recent_witness:
  "snd (cache_get 9 ''a'' (foldl cache_step (cache_put 0 ''a'' ''x'' (response_cache_new 2 60))
     [Cache_put 1 ''b'' ''y'', Cache_get 2 ''b'', Cache_put 3 ''b'' ''z''])) = Some ''x''"
  by (rule cache_keeps_recent [OF cache_new_ok])
     (simp_all add: response_cache_new_def card_insert_if)

subsection \<open>The prompt\<close>

lemma cut_sentence_prefix: "\<exists>r. t = cut_sentence t @ r"
proof (cases "CHR ''.'' \<in> set t")
  case True
  have "rev t = takeWhile (\<lambda>c. c \<noteq> CHR ''.'') (rev t) @ dropWhile (\<lambda>c. c \<noteq> CHR ''.'') (rev t)" by simp
  then have "t = rev (dropWhile (\<lambda>c. c \<noteq> CHR ''.'') (rev t)) @ rev (takeWhile (\<lambda>c. c \<noteq> CHR ''.'') (rev t))"
    by (metis rev_append rev_rev_ident)
  then show ?thesis using True by (auto simp: cut_sentence_def)
qed (simp add: cut_sentence_def)

text \<open>The instructions that are sent are a beginning of the system prompt. Together with the question they
  keep the limit, if the question alone does; a longer question is sent whole, without instructions.\<close>

theorem prompt_within_budget:
  "let r = build_prompt b q; n = max_prompt_chars b in
   prefix (req_system r) system_prompt
   \<and> (if int (ulen (req_user r)) < n then int (ulen (req_user r)) + int (length (req_system r)) \<le> n
      else req_system r = [])"
proof -
  define r where "r = build_prompt b q"
  define avail where "avail = max_prompt_chars b - int (ulen (req_user r))"
  define short where "short = cut_sentence (take (nat avail) system_prompt)"
  have sys: "req_system r = (if avail \<le> 0 then [] else if avail < int (length system_prompt) then short else system_prompt)"
    by (simp only: r_def avail_def short_def build_prompt_def Let_def request.simps)
  obtain s where s: "take (nat avail) system_prompt = short @ s"
    unfolding short_def using cut_sentence_prefix by blast
  have "prefix short system_prompt" using s by (metis append_prefixD take_is_prefix)
  moreover have "length short \<le> nat avail"
    using arg_cong [OF s, of length] by (metis length_append length_take min.cobounded2 le_add1 le_trans)
  ultimately show ?thesis
    unfolding Let_def r_def [symmetric] using avail_def sys by (cases "avail \<le> 0"; cases "avail < int (length system_prompt)") simp_all
qed

subsection \<open>Retries\<close>

lemma call_once_sent:
  "has_boto b \<Longrightarrow> call_once srv q b =
    (b\<lparr>requests := requests b @ [build_prompt b q], mono := mono b + fst (converse srv (build_prompt b q) (length (requests b)))\<rparr>,
     snd (converse srv (build_prompt b q) (length (requests b))))"
  by (simp add: call_once_def Let_def split: prod.splits)

lemma build_prompt_same [simp]:
  "build_prompt (b\<lparr>requests := rs\<rparr>) q = build_prompt b q" "build_prompt (b\<lparr>mono := t\<rparr>) q = build_prompt b q"
  "build_prompt (b\<lparr>has_boto := x\<rparr>) q = build_prompt b q" "build_prompt (b\<lparr>answers := a\<rparr>) q = build_prompt b q"
  "build_prompt (b\<lparr>lat_stats := l\<rparr>) q = build_prompt b q"
  by (simp_all add: build_prompt_def)

text \<open>Time spent by the calls of number \<open>n\<close> to \<open>n + k - 1\<close>.\<close>

definition time_spent :: "service \<Rightarrow> request \<Rightarrow> nat \<Rightarrow> nat \<Rightarrow> rat" where
  "time_spent srv req n k = (\<Sum>i<k. fst (converse srv req (n + i)))"

lemma time_spent_Suc: "time_spent srv req n (Suc k) = fst (converse srv req n) + time_spent srv req (Suc n) k"
  unfolding time_spent_def by (subst sum.lessThan_Suc_shift) simp

lemma attempts_throttled:
  assumes "has_boto b" "\<forall>j<k. snd (converse srv (build_prompt b q) (length (requests b) + j)) = Throttled"
    "int (i + k) \<le> max_retries b"
  shows "call_attempts (k + m) srv q i b =
    call_attempts m srv q (i + k)
      (b\<lparr>requests := requests b @ replicate k (build_prompt b q),
         mono := mono b + time_spent srv (build_prompt b q) (length (requests b)) k + (2 ^ (i + k) - 2 ^ i) / 2\<rparr>)"
  using assms
proof (induction k arbitrary: i b)
  case 0
  then show ?case by (simp add: time_spent_def)
next
  case (Suc k)
  let ?p = "build_prompt b q" and ?n = "length (requests b)"
  let ?b1 = "b\<lparr>requests := requests b @ [?p], mono := mono b + fst (converse srv ?p ?n) + 2 ^ i / 2\<rparr>"
  have r: "snd (converse srv ?p ?n) = Throttled" using Suc.prems(2) by (metis add_0_right zero_less_Suc)
  have first: "call_attempts (Suc k + m) srv q i b = call_attempts (k + m) srv q (Suc i) ?b1"
    using Suc.prems(1,3) r by (simp add: call_once_sent)
  have sh: "\<forall>j<k. snd (converse srv ?p (Suc (?n + j))) = Throttled"
    using Suc.prems(2) by (metis Suc_less_eq add_Suc_right)
  have "call_attempts (k + m) srv q (Suc i) ?b1 = call_attempts m srv q (Suc i + k)
      (?b1\<lparr>requests := requests ?b1 @ replicate k ?p,
         mono := mono ?b1 + time_spent srv ?p (length (requests ?b1)) k + (2 ^ (Suc i + k) - 2 ^ Suc i) / 2\<rparr>)"
    using Suc.IH [of ?b1 "Suc i"] Suc.prems(1,3) sh by simp
  also have "\<dots> = call_attempts m srv q (i + Suc k)
      (b\<lparr>requests := requests b @ replicate (Suc k) ?p,
         mono := mono b + time_spent srv ?p ?n (Suc k) + (2 ^ (i + Suc k) - 2 ^ i) / 2\<rparr>)"
    by (simp add: time_spent_Suc algebra_simps diff_divide_distrib)
  finally show ?case unfolding first .
qed

text \<open>A call that is throttled \<open>k\<close> times and then answered gives the text of the answer, if \<open>k\<close> retries
  are allowed. It has sent the prompt \<open>k + 1\<close> times, and has waited half a second, then twice as long
  each time.\<close>

theorem throttled_call_backs_off:
  assumes "has_boto b" "\<forall>j<k. snd (converse srv (build_prompt b q) (length (requests b) + j)) = Throttled"
    "snd (converse srv (build_prompt b q) (length (requests b) + k)) = Blocks bs" "int k \<le> max_retries b"
  shows "call_bedrock srv q b =
    (b\<lparr>requests := requests b @ replicate (Suc k) (build_prompt b q),
       mono := mono b + time_spent srv (build_prompt b q) (length (requests b)) (Suc k) + (2 ^ k - 1) / 2\<rparr>,
     Inr (strip_chars is_space (block_text bs)))"
proof -
  obtain m where m: "nat (max_retries b + 1) = k + Suc m"
    using assms(4) by (metis Suc_eq_plus1 add.commute add_Suc_right le_Suc_ex nat_int nat_le_iff nat_mono Suc_nat_eq_nat_zadd1 of_nat_0_le_iff order_trans add.left_commute)
  have spent: "time_spent srv p n (Suc k) = time_spent srv p n k + fst (converse srv p (n + k))" for p n
    by (simp add: time_spent_def)
  have rep: "replicate k x @ [x] = replicate (Suc k) x" for x :: request by (simp add: replicate_append_same)
  show ?thesis
    unfolding call_bedrock_def m using attempts_throttled [OF assms(1,2), of 0 "Suc m"] assms
    by (simp add: call_once_sent spent rep [simplified] algebra_simps)
qed

text \<open>When the retries are used up, the answer is that of a command that does not exist.\<close>

lemma throttled_call_gives_up:
  assumes "has_boto b" "\<forall>j. snd (converse srv (build_prompt b q) j) = Throttled" "0 \<le> max_retries b"
  shows "snd (call_bedrock srv q b) = Inr (fallback_response (ask_command q))
    \<and> requests (fst (call_bedrock srv q b)) = requests b @ replicate (Suc (nat (max_retries b))) (build_prompt b q)"
proof -
  let ?k = "nat (max_retries b)"
  have m: "nat (max_retries b + 1) = ?k + 1" using assms(3) by simp
  show ?thesis
    unfolding call_bedrock_def m using attempts_throttled [of b ?k srv q 0 1] assms
    by (simp add: call_once_sent replicate_append_same)
qed

lemma throttled_call_backs_off_witness:
  "\<exists>b srv q. snd (call_bedrock srv q b) = Inr ''root'' \<and> length (requests (fst (call_bedrock srv q b))) = 3 \<and> mono (fst (call_bedrock srv q b)) = 9 / 2"
proof -
  define b where "b = \<lparr>model_id = ''m'', max_tokens = 300, temperature = 0, timeout_seconds = 0, max_retries = 2, streaming = False,
      max_prompt_chars = 500, answers = None, lat_stats = latency_stats_new, has_boto = True, mono = 0, requests = []\<rparr>"
  define srv :: service where "srv = \<lparr>converse = (\<lambda>r n. (1, if n < 2 then Throttled else Blocks [Some ''root''])), converse_stream = (\<lambda>r n. (1, []))\<rparr>"
  define q where "q = \<lparr>ask_command = ''whoami'', ask_host = ''h'', ask_user = ''root'', ask_cwd = ''/''\<rparr>"
  have "call_bedrock srv q b =
    (b\<lparr>requests := requests b @ replicate (Suc 2) (build_prompt b q),
       mono := mono b + time_spent srv (build_prompt b q) (length (requests b)) (Suc 2) + (2 ^ 2 - 1) / 2\<rparr>,
     Inr (strip_chars is_space (block_text [Some ''root''])))"
    by (rule throttled_call_backs_off) (simp_all add: b_def srv_def)
  then show ?thesis
    by (intro exI [of _ b] exI [of _ srv] exI [of _ q])
       (simp add: b_def srv_def time_spent_def numeral_3_eq_3 block_text_def strip_chars_def lstrip_chars_def rstrip_chars_def is_space_def)
qed

subsection \<open>A failure is kept like an answer\<close>

lemma ask_keeps:
  "answers (fst (call_attempts k srv q i b)) = answers b"
  "answers (fst (call_bedrock_with_timeout srv q b)) = answers b"
  "answers (fst (ask_service srv q b)) = answers b"
proof -
  have a: "answers (fst (call_attempts k srv q i b)) = answers b" for k i b
    by (induction k srv q i b rule: call_attempts.induct)
       (auto simp: call_once_def Let_def split: prod.splits reply.splits if_splits)
  then show "answers (fst (call_attempts k srv q i b)) = answers b" .
  show w: "answers (fst (call_bedrock_with_timeout srv q b)) = answers b"
    using a [of "nat (max_retries b + 1)" 0 b] by (auto simp: call_bedrock_with_timeout_def call_bedrock_def split: prod.splits)
  show "answers (fst (ask_service srv q b)) = answers b"
    using w by (auto simp: ask_service_def call_bedrock_streaming_def Let_def split: prod.splits)
qed

lemma count_outcome_simps [simp]:
  "answers (count_outcome x t b) = answers b" "requests (count_outcome x t b) = requests b" "mono (count_outcome x t b) = mono b"
  "has_boto (count_outcome x t b) = has_boto b" "streaming (count_outcome x t b) = streaming b"
  by (simp_all add: count_outcome_def)

lemma answer_missed_result:
  assumes "ask_service srv q b = (b1, Inr t)" "answers b = Some c"
  shows "\<exists>b2. answer_missed sha srv q b = (b2, Inr t) \<and> answers b2 = Some (cache_put (mono b2) (build_cache_key sha q) t c)"
  using assms ask_keeps(3) [of srv q b] by (simp add: answer_missed_def)

lemma put_then_get:
  assumes "cache_ok c" "now \<le> t + of_int (ttl_seconds c)"
  shows "snd (cache_get now k (cache_put t k v c)) = Some v"
  using recent_stays [of c "[]" k t now v] assms by (simp add: cache_ok_def)

text \<open>C30: When the service refuses a call, the answer is that the command was not found. It is kept as the answer
  to this command: until the time to live is over, nothing is sent and the same is answered, whatever the
  service would say by now.\<close>

theorem failure_kept_as_answer:
  assumes "answers b = Some c" "cache_ok c" "map_of (cache_store c) (build_cache_key sha q) = None"
    "has_boto b" "\<not> streaming b" "timeout_seconds b = 0" "0 \<le> max_retries b"
    "snd (converse srv (build_prompt b q) (length (requests b))) = Client_error"
    "0 \<le> wait" "wait \<le> of_int (ttl_seconds c)"
  shows "let (b1, a) = get_response sha srv q b; (b2, a') = get_response sha srv' q (b1\<lparr>mono := mono b1 + wait\<rparr>) in
    a = fallback_response (ask_command q) \<and> a' = a \<and> requests b2 = requests b1 \<and> length (requests b1) = Suc (length (requests b))"
proof -
  let ?k = "build_cache_key sha q" and ?c = "c\<lparr>cache_misses := cache_misses c + 1\<rparr>"
  let ?b = "b\<lparr>answers := Some ?c\<rparr>" and ?a = "fallback_response (ask_command q)"
  have get: "cache_get (mono b) ?k c = (?c, None)" using assms(3) by (simp add: cache_get_def)
  have n: "nat (max_retries b + 1) = Suc (nat (max_retries b))" using assms(7) by simp
  obtain b1 where ask: "ask_service srv q ?b = (b1, Inr ?a)" "length (requests b1) = Suc (length (requests b))"
    using assms(4-8) by (simp add: ask_service_def call_bedrock_with_timeout_def call_bedrock_def n call_once_sent)
  obtain b2 where miss: "answer_missed sha srv q ?b = (b2, Inr ?a)" "answers b2 = Some (cache_put (mono b2) ?k ?a ?c)"
    using answer_missed_result [OF ask(1)] by auto
  have r2: "requests b2 = requests b1" using miss(1) ask(1) by (auto simp: answer_missed_def)
  have first: "get_response sha srv q b = (b2, ?a)"
    using get miss(1) assms(1) by (simp add: get_response_def get_response_sync_def)
  have ok: "cache_ok ?c" using assms(2) by (simp add: cache_ok_def)
  have "snd (cache_get (mono b2 + wait) ?k (cache_put (mono b2) ?k ?a ?c)) = Some ?a"
    by (rule put_then_get [OF ok]) (use assms(10) in simp)
  then obtain c3 where "cache_get (mono b2 + wait) ?k (cache_put (mono b2) ?k ?a ?c) = (c3, Some ?a)"
    by (metis prod.collapse)
  then have "get_response sha srv' q (b2\<lparr>mono := mono b2 + wait\<rparr>) =
      (count_outcome ''hit'' (mono b2 + wait) (b2\<lparr>mono := mono b2 + wait, answers := Some c3\<rparr>), ?a)"
    using miss(2) by (simp add: get_response_def get_response_sync_def)
  then show ?thesis using first ask(2) r2 by simp
qed

definition example_bedrock :: bedrock where
  "example_bedrock = \<lparr>model_id = ''m'', max_tokens = 300, temperature = 0, timeout_seconds = 0, max_retries = 2, streaming = False,
     max_prompt_chars = 500, answers = Some (response_cache_new 2 60), lat_stats = latency_stats_new, has_boto = True, mono = 0, requests = []\<rparr>"

definition example_question :: question where
  "example_question = \<lparr>ask_command = ''whoami'', ask_host = ''h'', ask_user = ''root'', ask_cwd = ''/''\<rparr>"

definition failing_service :: "reply \<Rightarrow> service" where
  "failing_service r = \<lparr>converse = (\<lambda>_ _. (20, r)), converse_stream = (\<lambda>_ _. (1, []))\<rparr>"

lemma failure_kept_as_answer_witness:
  "let (b1, a) = get_response id (failing_service Client_error) example_question example_bedrock;
       (b2, a') = get_response id (failing_service (Blocks [Some ''root''])) example_question (b1\<lparr>mono := mono b1 + 30\<rparr>) in
   a = fallback_response ''whoami'' \<and> a' = a \<and> requests b2 = requests b1 \<and> length (requests b1) = Suc 0"
proof -
  have "let (b1, a) = get_response id (failing_service Client_error) example_question example_bedrock;
       (b2, a') = get_response id (failing_service (Blocks [Some ''root''])) example_question (b1\<lparr>mono := mono b1 + 30\<rparr>) in
   a = fallback_response (ask_command example_question) \<and> a' = a \<and> requests b2 = requests b1
     \<and> length (requests b1) = Suc (length (requests example_bedrock))"
    by (rule failure_kept_as_answer [of _ "response_cache_new 2 60"])
       (simp_all add: example_bedrock_def cache_new_ok failing_service_def, simp_all add: response_cache_new_def)
  then show ?thesis by (simp add: example_bedrock_def example_question_def)
qed

subsection \<open>A lost connection\<close>

lemma get_response_offline:
  assumes "\<not> has_boto b" "\<not> streaming b" "0 \<le> max_retries b"
  shows "let (b', a) = get_response sha srv q b in
    \<not> has_boto b' \<and> \<not> streaming b' \<and> max_retries b' = max_retries b \<and> requests b' = requests b \<and> mono b' = mono b
    \<and> timeout_seconds b' = timeout_seconds b \<and> (answers b = None \<longrightarrow> answers b' = None)
    \<and> (a = [] \<or> timeout_seconds b < 0 \<or> (\<exists>c. answers b = Some c \<and> snd (cache_get (mono b) (build_cache_key sha q) c) = Some a))"
proof -
  have n: "nat (max_retries b + 1) = Suc (nat (max_retries b))" using assms(3) by simp
  have call: "call_bedrock srv q b1 = (b1, Inl AttributeError)" if "\<not> has_boto b1" "max_retries b1 = max_retries b" for b1
    using that n by (simp add: call_bedrock_def call_once_def Let_def)
  show ?thesis
    using assms by (auto simp: get_response_def get_response_sync_def answer_missed_def ask_service_def call_bedrock_with_timeout_def
        call count_outcome_def split: option.splits prod.splits)
qed

fun ask_all :: "(string \<Rightarrow> string) \<Rightarrow> (service \<times> question) list \<Rightarrow> bedrock \<Rightarrow> bedrock \<times> string list" where
  "ask_all sha [] b = (b, [])"
| "ask_all sha ((srv, q) # qs) b =
     (case get_response sha srv q b of (b1, a) \<Rightarrow> (case ask_all sha qs b1 of (b2, as) \<Rightarrow> (b2, a # as)))"

lemma ask_all_offline:
  assumes "\<not> has_boto b" "\<not> streaming b" "0 \<le> max_retries b" "answers b = None" "timeout_seconds b = 0"
  shows "let (b', as) = ask_all sha qs b in as = replicate (length qs) [] \<and> requests b' = requests b"
  using assms
proof (induction qs arbitrary: b)
  case (Cons x qs)
  obtain srv q where x: "x = (srv, q)" by (cases x)
  obtain b1 a where g: "get_response sha srv q b = (b1, a)" by (metis surj_pair)
  have o: "\<not> has_boto b1" "\<not> streaming b1" "max_retries b1 = max_retries b" "requests b1 = requests b" "answers b1 = None" "a = []" "timeout_seconds b1 = 0"
    using get_response_offline [OF Cons.prems(1-3), of sha srv q] g Cons.prems(4,5) by auto
  show ?case using Cons.IH [of b1] o g x Cons.prems(3,5) by (auto split: prod.splits)
qed simp

text \<open>When a connection to the service has failed once, no request is sent any more: the answer to that question
  is that the command was not found, and the answer to every question after it is empty.\<close>

theorem lost_connection_stays_lost:
  assumes "has_boto b" "\<not> streaming b" "timeout_seconds b = 0" "0 \<le> max_retries b" "answers b = None"
    "snd (converse srv (build_prompt b q) (length (requests b))) = Endpoint_error"
  shows "let (b1, a) = get_response sha srv q b; (b2, as) = ask_all sha qs b1 in
    a = fallback_response (ask_command q) \<and> as = replicate (length qs) [] \<and> requests b2 = requests b1"
proof -
  have n: "nat (max_retries b + 1) = Suc (nat (max_retries b))" using assms(4) by simp
  obtain b1 where b1: "get_response sha srv q b = (b1, fallback_response (ask_command q))" "\<not> has_boto b1" "\<not> streaming b1"
    "max_retries b1 = max_retries b" "answers b1 = None" "timeout_seconds b1 = 0"
    using assms by (simp add: get_response_def get_response_sync_def answer_missed_def ask_service_def call_bedrock_with_timeout_def
        call_bedrock_def n call_once_sent count_outcome_def)
  show ?thesis using ask_all_offline [of b1 sha qs] b1 assms(4) by (auto split: prod.splits)
qed

lemma lost_connection_stays_lost_witness:
  "let (b1, a) = get_response id (failing_service Endpoint_error) example_question (example_bedrock\<lparr>answers := None\<rparr>);
       (b2, as) = ask_all id (replicate 3 (failing_service (Blocks [Some ''root'']), example_question)) b1 in
   a = fallback_response ''whoami'' \<and> as = [[], [], []] \<and> requests b2 = requests b1"
proof -
  have "let (b1, a) = get_response id (failing_service Endpoint_error) example_question (example_bedrock\<lparr>answers := None\<rparr>);
       (b2, as) = ask_all id (replicate 3 (failing_service (Blocks [Some ''root'']), example_question)) b1 in
   a = fallback_response (ask_command example_question)
   \<and> as = replicate (length (replicate 3 (failing_service (Blocks [Some ''root'']), example_question))) [] \<and> requests b2 = requests b1"
    by (rule lost_connection_stays_lost) (simp_all add: example_bedrock_def failing_service_def)
  then show ?thesis by (simp add: example_question_def numeral_3_eq_3)
qed

subsection \<open>The time limit\<close>

text \<open>A call that takes longer than the limit is not cut: the attacker waits until it is over, is told that
  the command was not found, and the call is counted twice.\<close>

theorem limit_does_not_limit:
  assumes "timeout_seconds b \<noteq> 0" "\<not> streaming b" "answers b = None" "call_bedrock srv q b = (b1, r)"
    "timeout_seconds b < mono b1 - mono b"
  shows "let (b2, a) = get_response sha srv q b in
    a = fallback_response (ask_command q) \<and> mono b2 = mono b1 \<and> requests b2 = requests b1
    \<and> total_calls (lat_stats b2) = total_calls (lat_stats b1) + 2 \<and> lat_timeouts (lat_stats b2) = lat_timeouts (lat_stats b1) + 1
    \<and> lat_misses (lat_stats b2) = lat_misses (lat_stats b1) + 1"
proof -
  have "answers b1 = None" using ask_keeps(1) [of "nat (max_retries b + 1)" srv q 0 b] assms(3,4) by (simp add: call_bedrock_def)
  then show ?thesis
    using assms by (simp add: get_response_def get_response_sync_def answer_missed_def ask_service_def call_bedrock_with_timeout_def
        count_outcome_def record_outcome_def Let_def)
qed

lemma limit_does_not_limit_witness:
  "let (b2, a) = get_response id (failing_service (Blocks [Some ''root''])) example_question (example_bedrock\<lparr>answers := None, timeout_seconds := 10\<rparr>) in
   a = fallback_response ''whoami'' \<and> mono b2 = 20 \<and> total_calls (lat_stats b2) = 2"
proof -
  let ?b = "example_bedrock\<lparr>answers := None, timeout_seconds := 10\<rparr>" and ?srv = "failing_service (Blocks [Some ''root''])"
  obtain b1 where b1: "call_bedrock ?srv example_question ?b = (b1, Inr (strip_chars is_space ''root''))" "mono b1 = 20" "total_calls (lat_stats b1) = 0"
    by (simp add: call_bedrock_def example_bedrock_def numeral_3_eq_3 call_once_sent failing_service_def block_text_def latency_stats_new_def)
  have "let (b2, a) = get_response id ?srv example_question ?b in
    a = fallback_response (ask_command example_question) \<and> mono b2 = mono b1 \<and> requests b2 = requests b1
    \<and> total_calls (lat_stats b2) = total_calls (lat_stats b1) + 2 \<and> lat_timeouts (lat_stats b2) = lat_timeouts (lat_stats b1) + 1
    \<and> lat_misses (lat_stats b2) = lat_misses (lat_stats b1) + 1"
    by (rule limit_does_not_limit [OF _ _ _ b1(1)]) (simp_all add: b1 example_bedrock_def)
  then show ?thesis using b1 by (auto simp: example_question_def split: prod.splits)
qed

subsection \<open>Keys\<close>

text \<open>Commands with the same words share an answer, also where the number of spaces matters.\<close>

lemma key_ignores_spacing:
  "split_space is_space [] c = split_space is_space [] d \<Longrightarrow>
   build_cache_key sha (q\<lparr>ask_command := c\<rparr>) = build_cache_key sha (q\<lparr>ask_command := d\<rparr>)"
  by (simp add: build_cache_key_def)

text \<open>A bar in a command or a directory name is not told from the bars between the parts.\<close>

lemma key_ambiguous:
  "build_cache_key sha \<lparr>ask_command = ''ls|x'', ask_host = h, ask_user = u, ask_cwd = ''/''\<rparr> =
   build_cache_key sha \<lparr>ask_command = ''ls'', ask_host = h, ask_user = u, ask_cwd = ''x|/''\<rparr>"
  by (simp add: build_cache_key_def is_space_def)

end
