(* ===== verification/Scalpel_Router.thy ===== *)
theory Scalpel_Router
  imports Prelude_Bytes
begin

section \<open>The router of commands\<close>

text \<open>
  Model of \<open>scalpel/\<close>: \<open>router/handle_command.py\<close>, which answers a command from a table of recorded
  outputs, from a local model or from a remote one, \<open>local_llm/client.py\<close> and \<open>aws/client.py\<close>, which
  ask the models and clean what they say, \<open>bedrock_helper.py\<close>, \<open>dashboard/telemetry.py\<close> and the hook
  that calls the router. The table and what the models say are parameters; times are left out.
\<close>

subsection \<open>Results\<close>

text \<open>The exceptions that the router tells from others, and the others.\<close>

datatype failure = Tier_unavailable | Ollama_error | Bedrock_error | Raised py_error

text \<open>An event of the telemetry without its times; the ring buffer has room for a thousand, the queue is for the
  writer of the log.\<close>

record telemetry_event =
  tel_tier :: nat
  tel_cmd :: string
  tel_session :: string
  tel_outcome :: string

record router =
  asked_local :: "string list"
  asked_remote :: "string list"
  tel_events :: "telemetry_event list"
  tel_queue :: "telemetry_event list"

type_synonym 'a routed = "router \<times> (failure + 'a)"

definition routed_bind :: "'a routed \<Rightarrow> (router \<Rightarrow> 'a \<Rightarrow> 'b routed) \<Rightarrow> 'b routed" where
  "routed_bind m f = (case m of (s, Inl e) \<Rightarrow> (s, Inl e) | (s, Inr x) \<Rightarrow> f s x)"

lemma routed_bind_simps [simp]: "routed_bind (s, Inl e) f = (s, Inl e)" "routed_bind (s, Inr x) f = f s x"
  by (simp_all add: routed_bind_def)

text \<open>\<open>s[:n]\<close> counts characters: bytes of a character after its first are not counted.\<close>

fun take_chars :: "nat \<Rightarrow> string \<Rightarrow> string" where
  "take_chars n [] = []"
| "take_chars n (c # s) = (if is_cont c then c # take_chars n s else case n of 0 \<Rightarrow> [] | Suc k \<Rightarrow> c # take_chars k s)"

definition record_event :: "nat \<Rightarrow> string \<Rightarrow> string \<Rightarrow> string \<Rightarrow> router \<Rightarrow> router" where
  "record_event tier cmd session outcome s =
     (let ev = \<lparr>tel_tier = tier, tel_cmd = take_chars 200 cmd, tel_session = session, tel_outcome = outcome\<rparr>;
          evs = tel_events s @ [ev]
      in s\<lparr>tel_events := drop (length evs - 1000) evs, tel_queue := tel_queue s @ [ev]\<rparr>)"

subsection \<open>The local model\<close>

text \<open>What the request to the local model gives: no connection, another exception of the library, no JSON, JSON
  that is no object, or an object whose \<open>response\<close> is a text, absent, or something else.\<close>

datatype ollama_reply = Unreachable | Http_exception py_error | Not_json | Json_no_object | Json_text string | Json_absent | Json_other

definition fence :: string where "fence = ''```''"

text \<open>\<open>text.split("\n", 1)[1]\<close>, empty if there is no line end.\<close>

definition after_line :: "string \<Rightarrow> string" where
  "after_line t = drop 1 (dropWhile (\<lambda>c. c \<noteq> CHR 0x0A) t)"

definition clean_text :: "string \<Rightarrow> string" where
  "clean_text text =
     (let t = strip_chars is_space text;
          u = (if starts_with t fence then after_line t else t);
          v = (if starts_with (rev u) fence then take (length u - 3) u else u);
          w = strip_chars is_space v
      in if w \<noteq> [] then w @ [CHR 0x0A] else [])"

definition generate :: "ollama_reply \<Rightarrow> failure + string" where
  "generate r =
     (case r of
        Unreachable \<Rightarrow> Inl Ollama_error
      | Http_exception e \<Rightarrow> Inl (Raised e)
      | Not_json \<Rightarrow> Inl Ollama_error
      | Json_no_object \<Rightarrow> Inl (Raised AttributeError)
      | Json_text t \<Rightarrow> Inr (clean_text t)
      | Json_absent \<Rightarrow> Inr (clean_text [])
      | Json_other \<Rightarrow> Inl Ollama_error)"

subsection \<open>The remote model\<close>

text \<open>What the helper gets from the service: text, or an error with its code or its text.\<close>

datatype service_reply = Service_text string | Service_client_error string string | Service_boto_error string | Service_error string

definition ask_bedrock :: "service_reply \<Rightarrow> string" where
  "ask_bedrock r =
     (case r of
        Service_text t \<Rightarrow> t
      | Service_client_error code msg \<Rightarrow> ''[Bedrock ClientError] '' @ code @ '': '' @ msg
      | Service_boto_error e \<Rightarrow> ''[Bedrock BotoCoreError] '' @ e
      | Service_error e \<Rightarrow> ''[Bedrock Error] '' @ e)"

datatype history_entry = Exchange string string | Command_only string | Other_entry

definition history_lines :: "history_entry list \<Rightarrow> string list" where
  "history_lines h =
     concat (map (\<lambda>x. case x of
         Exchange c r \<Rightarrow> [''$ '' @ c @ [CHR 0x0A] @ rstrip_chars is_space r]
       | Command_only c \<Rightarrow> [''$ '' @ c]
       | Other_entry \<Rightarrow> []) (drop (length h - 5) h))"

definition escalate_prompt :: "string \<Rightarrow> history_entry list \<Rightarrow> string" where
  "escalate_prompt cmd h =
     (let text = join_with [CHR 0x0A] (history_lines h)
      in if text \<noteq> [] then text @ [CHR 0x0A] @ ''$ '' @ cmd else ''$ '' @ cmd)"

definition clean_answer :: "string \<Rightarrow> failure + string" where
  "clean_answer result =
     (if starts_with result ''[Bedrock'' then Inl Bedrock_error
      else let text = rstrip_chars is_space result in Inr (if text \<noteq> [] then text @ [CHR 0x0A] else []))"

subsection \<open>The tiers\<close>

text \<open>\<open>local_ready\<close>: the module of the local model can be imported; \<open>helper_ready\<close>: that of the
  service. The answers depend on how many have been asked before.\<close>

record tiers =
  recorded :: "string \<Rightarrow> string option"
  local_ready :: bool
  local_model :: "nat \<Rightarrow> string \<Rightarrow> ollama_reply"
  remote_ready :: bool
  helper_ready :: bool
  remote_model :: "nat \<Rightarrow> string \<Rightarrow> service_reply"

definition tier2 :: "tiers \<Rightarrow> string \<Rightarrow> string \<Rightarrow> router \<Rightarrow> string routed" where
  "tier2 T session cmd s =
     (if \<not> local_ready T then (s, Inl Tier_unavailable)
      else let s1 = s\<lparr>asked_local := asked_local s @ [cmd]\<rparr> in
        case generate (local_model T (length (asked_local s)) cmd) of
          Inr t \<Rightarrow> (record_event 2 cmd session ''ok'' s1, Inr t)
        | Inl Ollama_error \<Rightarrow> (record_event 2 cmd session ''error'' s1, Inl Tier_unavailable)
        | Inl e \<Rightarrow> (s1, Inl e))"

definition escalate :: "tiers \<Rightarrow> string \<Rightarrow> history_entry list \<Rightarrow> router \<Rightarrow> string routed" where
  "escalate T cmd h s =
     (if \<not> helper_ready T then (s, Inl Bedrock_error)
      else let p = escalate_prompt cmd h in
        (s\<lparr>asked_remote := asked_remote s @ [p]\<rparr>, clean_answer (ask_bedrock (remote_model T (length (asked_remote s)) p))))"

definition tier3 :: "tiers \<Rightarrow> string \<Rightarrow> string \<Rightarrow> router \<Rightarrow> string routed" where
  "tier3 T session cmd s =
     (if \<not> remote_ready T then (s, Inl Tier_unavailable)
      else case escalate T cmd [] s of
          (s1, Inr t) \<Rightarrow> (record_event 3 cmd session ''ok'' s1, Inr t)
        | (s1, Inl Bedrock_error) \<Rightarrow> (record_event 3 cmd session ''error'' s1, Inl Tier_unavailable)
        | (s1, Inl e) \<Rightarrow> (s1, Inl e))"

definition escalate_with_fallback :: "tiers \<Rightarrow> string \<Rightarrow> string \<Rightarrow> router \<Rightarrow> string routed" where
  "escalate_with_fallback T session cmd s =
     (case tier3 T session cmd s of
        (s1, Inl Tier_unavailable) \<Rightarrow> tier2 T session cmd s1
      | x \<Rightarrow> x)"

subsection \<open>Routing\<close>

definition control_flow_tokens :: "string list" where
  "control_flow_tokens = ['' for '', '' while '', '' if '', '' case '', '' until '', ''function '']"

definition is_control_flow :: "string \<Rightarrow> bool" where
  "is_control_flow cmd \<longleftrightarrow> (\<exists>tok \<in> set control_flow_tokens. contains tok ('' '' @ cmd @ '' ''))"

definition should_escalate :: "string \<Rightarrow> bool" where
  "should_escalate cmd \<longleftrightarrow> CHR ''|'' \<in> set cmd \<or> contains ''$('' cmd \<or> CHR ''`'' \<in> set cmd \<or> 80 < ulen cmd"

text \<open>The pieces between semicolons, line ends, double ampersands and double bars.\<close>

fun chain_split :: "string \<Rightarrow> string \<Rightarrow> string list" where
  "chain_split cur [] = [cur]"
| "chain_split cur [c] = (if c = CHR '';'' \<or> c = CHR 0x0A then [cur, []] else [cur @ [c]])"
| "chain_split cur (c # d # s) =
     (if c = CHR '';'' \<or> c = CHR 0x0A then cur # chain_split [] (d # s)
      else if (c = CHR ''&'' \<or> c = CHR ''|'') \<and> d = c then cur # chain_split [] s
      else chain_split (cur @ [c]) (d # s))"

definition chain_parts :: "string \<Rightarrow> string list" where
  "chain_parts cmd = filter (\<lambda>p. p \<noteq> []) (map (strip_chars is_space) (chain_split [] cmd))"

text \<open>No command is on the list of those that go to the local model.\<close>

definition goodllm :: "string list" where "goodllm = []"

text \<open>The answers of all pieces in order, joined.\<close>

fun answer_all :: "(string \<Rightarrow> router \<Rightarrow> string routed) \<Rightarrow> string list \<Rightarrow> router \<Rightarrow> string routed" where
  "answer_all f [] s = (s, Inr [])"
| "answer_all f (p # ps) s = routed_bind (f p s) (\<lambda>s1 t. routed_bind (answer_all f ps s1) (\<lambda>s2 u. (s2, Inr (t @ u))))"

lemma answer_all_cong [fundef_cong]:
  "ps = qs \<Longrightarrow> s = s' \<Longrightarrow> (\<And>p s. p \<in> set qs \<Longrightarrow> f p s = g p s) \<Longrightarrow> answer_all f ps s = answer_all g qs s'"
  by (induction ps arbitrary: qs s s') (auto simp: routed_bind_def split: prod.splits sum.splits)

lemma length_strip: "length (strip_chars P xs) \<le> length xs"
  by (simp add: strip_chars_def lstrip_chars_def rstrip_chars_def) (metis length_dropWhile_le length_rev order_trans)

lemma chain_split_length: "sum_list (map length (chain_split cur s)) + (length (chain_split cur s) - 1) \<le> length cur + length s"
  by (induction cur s rule: chain_split.induct) auto

function handle_command :: "tiers \<Rightarrow> string \<Rightarrow> string \<Rightarrow> router \<Rightarrow> string routed" where
  "handle_command T session command s =
     (let cmd = strip_chars is_space command; parts = chain_parts cmd in
      if cmd = [] then (s, Inr [])
      else if is_control_flow cmd then escalate_with_fallback T session cmd s
      else if 1 < length parts then answer_all (handle_command T session) parts s
      else case recorded T cmd of
          Some t \<Rightarrow> (record_event 1 cmd session ''ok'' s, Inr t)
        | None \<Rightarrow>
            if cmd \<in> set goodllm then tier2 T session cmd s
            else if should_escalate cmd then escalate_with_fallback T session cmd s
            else (s, Inl Tier_unavailable))"
  by pat_completeness auto

lemma part_shorter:
  assumes "p \<in> set (chain_parts cmd)" "1 < length (chain_parts cmd)"
  shows "length p < length cmd"
proof -
  let ?raw = "chain_split [] cmd"
  obtain q where q: "q \<in> set ?raw" "p = strip_chars is_space q" using assms(1) by (auto simp: chain_parts_def)
  have "length (chain_parts cmd) \<le> length (map (strip_chars is_space) ?raw)"
    unfolding chain_parts_def by (rule length_filter_le)
  then have "1 < length ?raw" using assms(2) by simp
  moreover have "length q \<le> sum_list (map length ?raw)" using q(1) by (simp add: member_le_sum_list)
  moreover have "length p \<le> length q" unfolding q(2) by (rule length_strip)
  ultimately show ?thesis using chain_split_length [of "[]" cmd] by simp
qed

termination handle_command
proof (relation "measure (\<lambda>(T, session, command, s). length command)")
  show "wf (measure (\<lambda>(T :: tiers, session :: string, command :: string, s :: router). length command))" by simp
next
  fix T :: tiers and session command :: string and s t :: router and x xa p
  assume "x = strip_chars is_space command" "xa = chain_parts x" "1 < length xa" "p \<in> set xa"
  then have "length p < length x" using part_shorter by blast
  also have "length x \<le> length command" using \<open>x = _\<close> length_strip by simp
  finally show "((T, session, p, t), T, session, command, s) \<in> measure (\<lambda>(T, session, command, s). length command)" by simp
qed

declare handle_command.simps [simp del]

text \<open>The hook: an answer, or none if no tier has one. Other exceptions pass through.\<close>

definition on_command :: "tiers \<Rightarrow> string \<Rightarrow> string \<Rightarrow> router \<Rightarrow> string option routed" where
  "on_command T session command s =
     (case handle_command T session command s of
        (s1, Inr t) \<Rightarrow> (s1, Inr (Some t))
      | (s1, Inl Tier_unavailable) \<Rightarrow> (s1, Inr None)
      | (s1, Inl e) \<Rightarrow> (s1, Inl e))"

end
