(* ===== verification/Llm_Session.thy ===== *)
theory Llm_Session
  imports Scalpel_Router
begin

section \<open>Sessions played by a language model\<close>

text \<open>
  Model of \<open>llm/protocol.py\<close> (a line goes to the router and, if that has no answer, to the model with the
  last ten entries of the conversation; exec requests) and of \<open>llm/llm.py\<close> (the messages of a request,
  and what is read from an answer). The answer of the service is an event of a run. The editing of the
  line is that of the shell and not modelled again.
\<close>

subsection \<open>Cleaning an answer\<close>

text \<open>\<open>\w*\<close>: ASCII letters, digits and the underscore; which other characters are letters is a table of Python,
  the parameter \<open>wide\<close> on the bytes of a character.\<close>

definition ascii_word :: "char \<Rightarrow> bool" where
  "ascii_word c \<longleftrightarrow> (let n = (of_char c :: nat) in is_digit c \<or> 65 \<le> n \<and> n \<le> 90 \<or> 97 \<le> n \<and> n \<le> 122 \<or> n = 95)"

function drop_word :: "(string \<Rightarrow> bool) \<Rightarrow> string \<Rightarrow> string" where
  "drop_word wide [] = []"
| "drop_word wide (c # s) =
     (if (of_char c :: nat) < 128 then (if ascii_word c then drop_word wide s else c # s)
      else if wide (c # takeWhile is_cont s) then drop_word wide (dropWhile is_cont s) else c # s)"
  by pat_completeness auto
termination
  by (relation "measure (length \<circ> snd)") (auto simp: le_imp_less_Suc length_dropWhile_le)

lemma length_drop_word: "length (drop_word wide s) \<le> length s"
  by (induction wide s rule: drop_word.induct) (auto intro: le_SucI order_trans length_dropWhile_le)

text \<open>The substitution of the pattern: three backquotes, a word, a line end if there is one.\<close>

function drop_fences :: "(string \<Rightarrow> bool) \<Rightarrow> string \<Rightarrow> string" where
  "drop_fences wide [] = []"
| "drop_fences wide (c # s) =
     (if starts_with (c # s) fence
      then let r = drop_word wide (drop 2 s) in drop_fences wide (if r \<noteq> [] \<and> hd r = CHR 0x0A then tl r else r)
      else c # drop_fences wide s)"
  by pat_completeness auto
termination
proof (relation "measure (length \<circ> snd)")
  fix wide c s r
  assume "starts_with (c # s) fence" "r = drop_word wide (drop 2 s)"
  then have "length r \<le> length s - 2" using length_drop_word [of wide "drop 2 s"] by simp
  then show "((wide, if r \<noteq> [] \<and> hd r = CHR 0x0A then tl r else r), wide, c # s) \<in> measure (length \<circ> snd)" by auto
qed auto

definition strip_markdown :: "(string \<Rightarrow> bool) \<Rightarrow> string \<Rightarrow> string" where
  "strip_markdown wide text = strip_chars is_space (filter (\<lambda>c. c \<noteq> CHR ''`'') (drop_fences wide text))"

subsection \<open>Requests and answers of the service\<close>

datatype role = Role_system | Role_user | Role_assistant

definition message_of :: "string \<Rightarrow> role \<times> string" where
  "message_of m =
     (if starts_with m ''User:'' then (Role_user, strip_chars is_space (drop 5 m))
      else if starts_with m ''System:'' then (Role_assistant, strip_chars is_space (drop 7 m))
      else (Role_user, m))"

fun format_messages :: "string list \<Rightarrow> (role \<times> string) list" where
  "format_messages [] = []"
| "format_messages (m # ms) = (Role_system, m) # map message_of ms"

text \<open>The body of an answer: no JSON, an exception while it is read, no choices, or the content of the first,
  which may be null.\<close>

datatype llm_body = Body_not_json | Body_raises py_error | Body_no_choices | Body_content "string option"

record llm_reply =
  reply_status :: int
  reply_utf8 :: bool
  reply_body :: llm_body

text \<open>The result of \<open>get_response\<close>; a failed connection is an answer with status 500.\<close>

definition llm_content :: "llm_reply \<Rightarrow> string option res" where
  "llm_content r =
     (if reply_status r \<noteq> 200 then (if reply_utf8 r then Inr (Some []) else Inl UnicodeDecodeError)
      else case reply_body r of
          Body_not_json \<Rightarrow> Inr (Some [])
        | Body_raises e \<Rightarrow> Inl e
        | Body_no_choices \<Rightarrow> Inr (Some [])
        | Body_content c \<Rightarrow> Inr c)"

subsection \<open>The session\<close>

datatype shown = Output_text string | Prompt_text string

record llm_session =
  llm_user :: string
  llm_host :: string
  llm_cwd :: string
  session_no :: string
  terminal_open :: bool
  screen :: "shown list"
  command_history :: "string list"
  llm_requests :: "string list list"
  pending :: nat
  router_state :: router

definition llm_write :: "shown \<Rightarrow> llm_session \<Rightarrow> llm_session" where
  "llm_write x s = s\<lparr>screen := screen s @ [x]\<rparr>"

definition llm_prompt :: "llm_session \<Rightarrow> string" where
  "llm_prompt s =
     llm_user s @ ''@'' @ llm_host s @ '':'' @ llm_cwd s @ (if llm_user s = ''root'' then ''# '' else ''$ '')"

definition show_llm_prompt :: "llm_session \<Rightarrow> llm_session" where
  "show_llm_prompt s = llm_write (Prompt_text (llm_prompt s)) s"

definition system_context :: "llm_session \<Rightarrow> string" where
  "system_context s =
     ''You are simulating a Linux server that has been accessed via SSH. ''
     @ ''Respond as if you were the shell on this system. ''
     @ ''Your response should be the output that would be displayed after executing the command. ''
     @ ''Keep responses realistic, including appropriate error messages for invalid commands. ''
     @ ''For file paths, maintain consistent state with previous commands. ''
     @ ''The hostname is '' @ [CHR 0x27] @ llm_host s @ [CHR 0x27] @ '' and username is '' @ [CHR 0x27] @ llm_user s @ [CHR 0x27] @ ''. ''
     @ ''The current working directory is '' @ [CHR 0x27] @ llm_cwd s @ [CHR 0x27] @ ''. ''"

definition last_ten :: "'a list \<Rightarrow> 'a list" where
  "last_ten xs = drop (length xs - 10) xs"

definition process_command_with_llm :: "string \<Rightarrow> llm_session \<Rightarrow> llm_session" where
  "process_command_with_llm cmd s =
     (let h = command_history s @ [''User: '' @ cmd] in
      s\<lparr>command_history := h, llm_requests := llm_requests s @ [system_context s # last_ten h], pending := pending s + 1\<rparr>)"

text \<open>\<open>connectionMade\<close> of an interactive session.\<close>

definition llm_connected :: "string \<Rightarrow> string \<Rightarrow> string \<Rightarrow> llm_session" where
  "llm_connected user host no =
     show_llm_prompt \<lparr>llm_user = user, llm_host = host, llm_cwd = ''/'', session_no = no, terminal_open = True, screen = [],
       command_history = [], llm_requests = [], pending = 0,
       router_state = \<lparr>asked_local = [], asked_remote = [], tel_events = [], tel_queue = []\<rparr>\<rparr>"

definition llm_line_received :: "tiers \<Rightarrow> string \<Rightarrow> llm_session \<Rightarrow> (llm_session, unit) sres" where
  "llm_line_received T line s =
     (case py_decode line of
        Inl e \<Rightarrow> (s, Inl e)
      | Inr cmd \<Rightarrow>
          (case on_command T (session_no s) cmd (router_state s) of
             (r, Inr (Some canned)) \<Rightarrow>
               let h = command_history s @ [''User: '' @ cmd, ''System: '' @ rstrip_chars (\<lambda>c. c = CHR 0x0A) canned];
                   s1 = s\<lparr>router_state := r, command_history := h\<rparr>
               in if terminal_open s then (show_llm_prompt (llm_write (Output_text canned) s1), Inr ()) else (s1, Inl AttributeError)
           | (r, _) \<Rightarrow> (process_command_with_llm cmd (s\<lparr>router_state := r\<rparr>), Inr ())))"

definition handle_llm_response :: "(string \<Rightarrow> bool) \<Rightarrow> string option res \<Rightarrow> llm_session \<Rightarrow> llm_session" where
  "handle_llm_response wide r s =
     (if \<not> terminal_open s then s
      else case r of
          Inl e \<Rightarrow> show_llm_prompt s
        | Inr None \<Rightarrow> show_llm_prompt s
        | Inr (Some t) \<Rightarrow>
            if t = [] then show_llm_prompt s
            else let clean = strip_markdown wide t in
              show_llm_prompt (llm_write (Output_text (clean @ [CHR 0x0A])) (s\<lparr>command_history := command_history s @ [''System: '' @ clean]\<rparr>)))"

text \<open>The events of a session: a line, an answer of the service to one of the requests, the end.\<close>

datatype llm_event = Typed_line string | Llm_answer llm_reply | Hung_up

fun llm_step :: "tiers \<Rightarrow> (string \<Rightarrow> bool) \<Rightarrow> llm_session \<Rightarrow> llm_event \<Rightarrow> llm_session" where
  "llm_step T wide s (Typed_line line) = fst (llm_line_received T line s)"
| "llm_step T wide s (Llm_answer r) =
     (if pending s = 0 then s else handle_llm_response wide (llm_content r) (s\<lparr>pending := pending s - 1\<rparr>))"
| "llm_step T wide s Hung_up = s\<lparr>terminal_open := False\<rparr>"

subsection \<open>Exec requests\<close>

text \<open>\<open>exec_ended\<close>: the process has been ended. The request is one message with the command in it.\<close>

record llm_exec =
  exec_user :: string
  exec_host :: string
  exec_command_text :: string
  exec_open :: bool
  exec_screen :: "string list"
  exec_requests :: "string list list"
  exec_ended :: bool
  exec_router :: router

definition exec_context :: "llm_exec \<Rightarrow> string" where
  "exec_context s =
     ''You are simulating a Linux server that has been accessed via SSH with a command to execute. ''
     @ ''Respond with ONLY the output that would be displayed after executing this command. ''
     @ ''Keep responses realistic, including appropriate error messages for invalid commands. ''
     @ ''The hostname is '' @ [CHR 0x27] @ exec_host s @ [CHR 0x27] @ '' and username is '' @ [CHR 0x27] @ exec_user s @ [CHR 0x27] @ ''. ''
     @ ''The current working directory is '' @ [CHR 0x27] @ ''/'' @ [CHR 0x27] @ ''. ''
     @ ''The command to execute is: '' @ exec_command_text s"

definition exec_connected :: "tiers \<Rightarrow> string \<Rightarrow> llm_exec \<Rightarrow> llm_exec" where
  "exec_connected T no s =
     (case on_command T no (exec_command_text s) (exec_router s) of
        (r, Inr (Some canned)) \<Rightarrow>
          s\<lparr>exec_router := r, exec_screen := exec_screen s @ (if canned = [] then [] else [canned]), exec_ended := True\<rparr>
      | (r, _) \<Rightarrow> s\<lparr>exec_router := r, exec_requests := exec_requests s @ [[exec_context s]]\<rparr>)"

definition handle_exec_response :: "(string \<Rightarrow> bool) \<Rightarrow> string option res \<Rightarrow> llm_exec \<Rightarrow> llm_exec" where
  "handle_exec_response wide r s =
     (if \<not> exec_open s then s
      else case r of
          Inr (Some t) \<Rightarrow> s\<lparr>exec_screen := exec_screen s @ (if t = [] then [] else [strip_markdown wide t @ [CHR 0x0A]]), exec_ended := True\<rparr>
        | _ \<Rightarrow> s\<lparr>exec_ended := True\<rparr>)"

end
