(* ===== verification/Scalpel_Router_Props.thy ===== *)
theory Scalpel_Router_Props
  imports Scalpel_Router Prelude_Text
begin

section \<open>What the router makes of a line\<close>

text \<open>
  A line is answered piece by piece, each piece by the tiers in a fixed order; the operators between the
  pieces are not looked at; one piece without an answer takes the answers of all others with it.
  Separators that are none, in quotes or behind a keyword, cut all the same. How often the models are
  asked, what the telemetry keeps, and what becomes of a model's text.
\<close>

subsection \<open>Pieces are not cut again\<close>

definition cuts :: "char \<Rightarrow> bool" where
  "cuts c \<longleftrightarrow> c = CHR '';'' \<or> c = CHR 0x0A"

definition doubles :: "char \<Rightarrow> bool" where
  "doubles c \<longleftrightarrow> c = CHR ''&'' \<or> c = CHR ''|''"

fun no_sep :: "string \<Rightarrow> bool" where
  "no_sep [] \<longleftrightarrow> True"
| "no_sep [c] \<longleftrightarrow> \<not> cuts c"
| "no_sep (c # d # s) \<longleftrightarrow> \<not> cuts c \<and> \<not> (doubles c \<and> d = c) \<and> no_sep (d # s)"

definition apart :: "string \<Rightarrow> string \<Rightarrow> bool" where
  "apart a b \<longleftrightarrow> a = [] \<or> b = [] \<or> \<not> (doubles (last a) \<and> hd b = last a)"

lemma no_sep_Cons: "no_sep (c # s) \<longleftrightarrow> \<not> cuts c \<and> no_sep s \<and> apart [c] s"
  by (cases s) (auto simp: apart_def)

lemma no_sep_append: "no_sep (a @ b) \<longleftrightarrow> no_sep a \<and> no_sep b \<and> apart a b"
proof (induction a)
  case (Cons c a)
  have "no_sep ((c # a) @ b) \<longleftrightarrow> \<not> cuts c \<and> no_sep (a @ b) \<and> apart [c] (a @ b)" by (simp add: no_sep_Cons)
  then show ?case using Cons.IH by (cases a) (auto simp: no_sep_Cons apart_def)
qed (simp add: apart_def)

lemma chain_split_plain: "no_sep s \<Longrightarrow> chain_split cur s = [cur @ s]"
  by (induction cur s rule: chain_split.induct) (auto simp: cuts_def doubles_def)

lemma chain_split_no_sep: "no_sep cur \<Longrightarrow> apart cur s \<Longrightarrow> \<forall>q \<in> set (chain_split cur s). no_sep q"
proof (induction cur s rule: chain_split.induct)
  case (2 cur c)
  then show ?case by (auto simp: no_sep_append cuts_def)
next
  case (3 cur c d s)
  show ?case
  proof (cases "cuts c \<or> doubles c \<and> d = c")
    case True
    then show ?thesis using 3 by (auto simp: cuts_def doubles_def apart_def)
  next
    case False
    then have "no_sep (cur @ [c])" "apart (cur @ [c]) (d # s)" using 3(4,5) by (auto simp: no_sep_append apart_def)
    then show ?thesis using 3(3) False by (auto simp: cuts_def doubles_def)
  qed
qed simp

lemma strip_inside: "\<exists>a b. s = a @ strip_chars P s @ b"
proof -
  let ?l = "dropWhile P s"
  have "s = takeWhile P s @ ?l" by simp
  moreover have "rev ?l = takeWhile P (rev ?l) @ dropWhile P (rev ?l)" by simp
  then have "?l = rev (dropWhile P (rev ?l)) @ rev (takeWhile P (rev ?l))" by (metis rev_append rev_rev_ident)
  ultimately show ?thesis by (metis lstrip_chars_def rstrip_chars_def strip_chars_def)
qed

lemma no_sep_strip: "no_sep s \<Longrightarrow> no_sep (strip_chars P s)"
  using strip_inside [of s P] by (metis no_sep_append)

lemma stripped_ends: "strip_chars P s \<noteq> [] \<Longrightarrow> \<not> P (hd (strip_chars P s)) \<and> \<not> P (last (strip_chars P s))"
proof -
  assume n: "strip_chars P s \<noteq> []"
  let ?l = "dropWhile P s"
  have d: "strip_chars P s = rev (dropWhile P (rev ?l))" by (simp add: strip_chars_def lstrip_chars_def rstrip_chars_def)
  then have "\<not> P (last (strip_chars P s))" using n by (metis hd_dropWhile last_rev rev.simps(1))
  moreover have "hd (strip_chars P s) = hd ?l"
  proof -
    obtain b where "?l = rev (dropWhile P (rev ?l)) @ b"
      by (metis rev_append rev_rev_ident takeWhile_dropWhile_id)
    then show ?thesis using d n by (metis hd_append2)
  qed
  ultimately show ?thesis using n d by (metis dropWhile_eq_Nil_conv hd_dropWhile rev.simps(1) dropWhile.simps(1))
qed

lemma strip_twice [simp]: "strip_chars P (strip_chars P s) = strip_chars P s"
  using stripped_ends [of P s] by (intro strip_none) blast

lemma part_plain: "p \<in> set (chain_parts cmd) \<Longrightarrow> no_sep p \<and> p \<noteq> [] \<and> strip_chars is_space p = p"
  using chain_split_no_sep [of "[]" cmd] by (auto simp: chain_parts_def apart_def no_sep_strip)

lemma parts_plain: "no_sep p \<Longrightarrow> p \<noteq> [] \<Longrightarrow> strip_chars is_space p = p \<Longrightarrow> chain_parts p = [p]"
  by (simp add: chain_parts_def chain_split_plain)

subsection \<open>The flat router\<close>

text \<open>What the router does with a piece that is not cut, without recursion.\<close>

definition piece_answer :: "tiers \<Rightarrow> string \<Rightarrow> string \<Rightarrow> router \<Rightarrow> string routed" where
  "piece_answer T session p s =
     (if is_control_flow p then escalate_with_fallback T session p s
      else case recorded T p of
          Some t \<Rightarrow> (record_event 1 p session ''ok'' s, Inr t)
        | None \<Rightarrow> if should_escalate p then escalate_with_fallback T session p s else (s, Inl Tier_unavailable))"

lemma piece_answered:
  "p \<noteq> [] \<Longrightarrow> strip_chars is_space p = p \<Longrightarrow> length (chain_parts p) \<le> 1 \<Longrightarrow> handle_command T session p s = piece_answer T session p s"
  by (subst handle_command.simps) (simp add: piece_answer_def goodllm_def Let_def split: option.splits)

lemma handle_parts:
  assumes "strip_chars is_space command = cmd" "\<not> is_control_flow cmd" "1 < length (chain_parts cmd)"
  shows "handle_command T session command s = answer_all (piece_answer T session) (chain_parts cmd) s"
proof -
  have "handle_command T session p t = piece_answer T session p t" if "p \<in> set (chain_parts cmd)" for p t
    using part_plain [OF that] by (intro piece_answered) (auto simp: parts_plain)
  then have "answer_all (handle_command T session) (chain_parts cmd) s = answer_all (piece_answer T session) (chain_parts cmd) s"
    by (intro answer_all_cong) auto
  moreover have "cmd \<noteq> []" using assms(3) by (auto simp: chain_parts_def strip_chars_def lstrip_chars_def rstrip_chars_def)
  ultimately show ?thesis using assms by (subst handle_command.simps) (simp add: Let_def)
qed

lemma router_flat:
  "handle_command T session command s =
    (let cmd = strip_chars is_space command in
     if cmd = [] then (s, Inr [])
     else if is_control_flow cmd \<or> length (chain_parts cmd) \<le> 1 then piece_answer T session cmd s
     else answer_all (piece_answer T session) (chain_parts cmd) s)"
proof -
  let ?cmd = "strip_chars is_space command"
  have same: "handle_command T session command s = handle_command T session ?cmd s"
    by (subst (1 2) handle_command.simps) simp
  show ?thesis
  proof (cases "?cmd = [] \<or> is_control_flow ?cmd")
    case True
    then show ?thesis by (subst handle_command.simps) (auto simp: Let_def piece_answer_def)
  next
    case False
    then show ?thesis unfolding Let_def using handle_parts [of command ?cmd] piece_answered [of ?cmd] same by auto
  qed
qed

text \<open>C28: The recursion of the router is one level deep: a line is empty, or a loop or condition that goes to a
  model as a whole, or several pieces that are answered in order, or one that is answered itself. A line
  with one piece and separators around it is looked up with them.\<close>

theorem router_is_flat:
  "handle_command T session command s =
    (let cmd = strip_chars is_space command in
     if cmd = [] then (s, Inr [])
     else if is_control_flow cmd \<or> length (chain_parts cmd) \<le> 1 then piece_answer T session cmd s
     else answer_all (piece_answer T session) (chain_parts cmd) s)"
  by (rule router_flat)

subsection \<open>Separators\<close>

text \<open>A piece that can be joined to others: no separator in it or begun at its ends, and no blanks around it.\<close>

definition clean_piece :: "string \<Rightarrow> bool" where
  "clean_piece p \<longleftrightarrow> no_sep p \<and> p \<noteq> [] \<and> \<not> is_space (hd p) \<and> \<not> is_space (last p) \<and> \<not> doubles (last p)"

definition operators :: "string list" where
  "operators = ['';'', ''&&'', ''||'', [CHR 0x0A]]"

fun chain_line :: "string \<Rightarrow> (string \<times> string) list \<Rightarrow> string" where
  "chain_line p [] = p"
| "chain_line p ((sep, q) # rest) = p @ '' '' @ sep @ '' '' @ chain_line q rest"

lemma split_at_operator:
  assumes "no_sep (cur @ p)" "sep \<in> set operators"
  shows "chain_split cur (p @ '' '' @ sep @ '' '' @ rest) = (cur @ p @ '' '') # chain_split [] ('' '' @ rest)"
  using assms
proof (induction p arbitrary: cur)
  case Nil
  then show ?case by (auto simp: operators_def)
next
  case (Cons c p)
  have c: "\<not> cuts c" using Cons.prems(1) by (auto simp: no_sep_append no_sep_Cons)
  obtain d s where ds: "p @ '' '' @ sep @ '' '' @ rest = d # s" by (cases p) auto
  have "\<not> (doubles c \<and> d = c)"
    using Cons.prems(1) ds by (cases p) (auto simp: no_sep_append no_sep_Cons apart_def doubles_def)
  then have "chain_split cur ((c # p) @ '' '' @ sep @ '' '' @ rest) = chain_split (cur @ [c]) (p @ '' '' @ sep @ '' '' @ rest)"
    using c ds by (auto simp: cuts_def doubles_def)
  then show ?case using Cons.IH [of "cur @ [c]"] Cons.prems by simp
qed

lemma strip_blanks:
  "p \<noteq> [] \<Longrightarrow> \<not> is_space (hd p) \<Longrightarrow> \<not> is_space (last p) \<Longrightarrow>
   strip_chars is_space (replicate a (CHR '' '') @ p @ replicate b (CHR '' '')) = p"
proof -
  assume p: "p \<noteq> []" "\<not> is_space (hd p)" "\<not> is_space (last p)"
  have sp: "is_space (CHR '' '')" by (simp add: is_space_def)
  have d: "dropWhile is_space (replicate n (CHR '' '') @ xs) = dropWhile is_space xs" for n xs
    using sp by (induction n) simp_all
  have "dropWhile is_space (p @ replicate b (CHR '' '')) = p @ replicate b (CHR '' '')" using p by (cases p) simp_all
  moreover have "dropWhile is_space (rev p) = rev p" using p by (intro dropWhile_none) (simp add: hd_rev)
  ultimately show ?thesis by (simp add: strip_chars_def lstrip_chars_def rstrip_chars_def d)
qed

lemma clean_line_parts:
  assumes "clean_piece p" "\<forall>x \<in> set rest. fst x \<in> set operators \<and> clean_piece (snd x)"
  shows "map (strip_chars is_space) (chain_split [] (replicate a (CHR '' '') @ chain_line p rest)) = p # map snd rest"
  using assms
proof (induction p rest arbitrary: a rule: chain_line.induct)
  case (1 p)
  have "no_sep (replicate a (CHR '' '') @ p)"
    using 1 by (induction a) (auto simp: no_sep_Cons clean_piece_def apart_def cuts_def doubles_def)
  then show ?case using 1 strip_blanks [of p a 0] by (simp add: chain_split_plain clean_piece_def)
next
  case (2 p sep q rest)
  have ns: "no_sep (replicate a (CHR '' '') @ p)"
    using 2(2) by (induction a) (auto simp: no_sep_Cons clean_piece_def apart_def cuts_def doubles_def)
  have "chain_split [] (replicate a (CHR '' '') @ chain_line p ((sep, q) # rest))
      = (replicate a (CHR '' '') @ p @ '' '') # chain_split [] ('' '' @ chain_line q rest)"
    using split_at_operator [of "[]" "replicate a (CHR '' '') @ p" sep "chain_line q rest"] ns 2(3) by simp
  then show ?case using "2.IH" [of 1] 2(2,3) strip_blanks [of p a 1] by (simp add: clean_piece_def)
qed

lemma clean_line_chain:
  assumes "clean_piece p" "\<forall>x \<in> set rest. fst x \<in> set operators \<and> clean_piece (snd x)"
  shows "chain_parts (chain_line p rest) = p # map snd rest" "strip_chars is_space (chain_line p rest) = chain_line p rest"
proof -
  have "\<forall>x \<in> set (p # map snd rest). x \<noteq> []" using assms by (auto simp: clean_piece_def)
  then show "chain_parts (chain_line p rest) = p # map snd rest"
    using clean_line_parts [OF assms, of 0] by (simp add: chain_parts_def del: map_eq_Cons_conv)
  have "chain_line p rest \<noteq> [] \<and> hd (chain_line p rest) = hd p \<and> \<not> is_space (last (chain_line p rest))"
    using assms by (induction p rest rule: chain_line.induct) (auto simp: clean_piece_def)
  then show "strip_chars is_space (chain_line p rest) = chain_line p rest"
    using assms(1) by (intro strip_none) (simp add: clean_piece_def)
qed

text \<open>C29: Whether the pieces of a line are joined by semicolons, line ends, \<open>&&\<close> or \<open>||\<close> makes no difference:
  every piece is answered, also the second of \<open>true || x\<close>.\<close>

theorem separators_do_not_matter:
  assumes "clean_piece p" "\<forall>x \<in> set rest. fst x \<in> set operators \<and> clean_piece (snd x)"
    "\<forall>x \<in> set rest'. fst x \<in> set operators" "map snd rest' = map snd rest"
    "\<not> is_control_flow (chain_line p rest)" "\<not> is_control_flow (chain_line p rest')"
  shows "handle_command T session (chain_line p rest') s = handle_command T session (chain_line p rest) s"
proof -
  have r': "\<forall>x \<in> set rest'. fst x \<in> set operators \<and> clean_piece (snd x)"
    using assms(2,3,4) by (metis (no_types, lifting) image_eqI image_iff list.set_map)
  note c = clean_line_chain [OF assms(1,2)] clean_line_chain [OF assms(1) r']
  show ?thesis
  proof (cases rest)
    case Nil
    then show ?thesis using assms(4) by simp
  next
    case (Cons x xs)
    then have "1 < length (chain_parts (chain_line p rest))" "1 < length (chain_parts (chain_line p rest'))"
      using c assms(4) by simp_all
    then show ?thesis using c assms(4-6) handle_parts by (metis (no_types))
  qed
qed

subsection \<open>A piece without an answer\<close>

lemma answer_all_snoc_fails:
  "f p s1 = (s2, Inl e) \<Longrightarrow> answer_all f ps s = (s1, Inr t) \<Longrightarrow> answer_all f (ps @ p # qs) s = (s2, Inl e)"
  by (induction ps arbitrary: s t) (auto simp: routed_bind_def split: prod.splits sum.splits)

text \<open>When the pieces before one without an answer have been answered, by models that were asked for them, the
  line has no answer: what was said is thrown away, and the rest of the line is not looked at.\<close>

theorem unanswered_piece_loses_all:
  assumes "clean_piece p" "\<forall>x \<in> set (rest @ (sep, q) # later). fst x \<in> set operators \<and> clean_piece (snd x)"
    "\<not> is_control_flow (chain_line p (rest @ (sep, q) # later))"
    "answer_all (piece_answer T session) (p # map snd rest) s = (s1, Inr t)"
    "\<not> is_control_flow q" "recorded T q = None" "\<not> should_escalate q"
  shows "on_command T session (chain_line p (rest @ (sep, q) # later)) s = (s1, Inr None)"
proof -
  let ?l = "chain_line p (rest @ (sep, q) # later)"
  note c = clean_line_chain [OF assms(1,2)]
  have "piece_answer T session q s1 = (s1, Inl Tier_unavailable)" using assms(5-7) by (simp add: piece_answer_def)
  then have "answer_all (piece_answer T session) ((p # map snd rest) @ q # map snd later) s = (s1, Inl Tier_unavailable)"
    using assms(4) by (rule answer_all_snoc_fails)
  then have "handle_command T session ?l s = (s1, Inl Tier_unavailable)"
    using handle_parts [OF c(2) assms(3)] c(1) by simp
  then show ?thesis by (simp add: on_command_def)
qed

definition example_tiers :: tiers where
  "example_tiers = \<lparr>recorded = (\<lambda>c. if c = ''whoami'' then Some ''root'' else None), local_ready = True, local_model = (\<lambda>_ _. Unreachable),
     remote_ready = True, helper_ready = True, remote_model = (\<lambda>_ _. Service_text ''ok'')\<rparr>"

definition example_router :: router where
  "example_router = \<lparr>asked_local = [], asked_remote = [], tel_events = [], tel_queue = []\<rparr>"

lemmas router_eval = is_control_flow_def control_flow_tokens_def contains_def should_escalate_def ulen_def is_cont_def
  clean_piece_def operators_def no_sep_Cons apart_def cuts_def doubles_def is_space_def

lemma separators_do_not_matter_witness:
  "handle_command example_tiers ''1'' ''true || x'' example_router = handle_command example_tiers ''1'' ''true ; x'' example_router"
proof -
  have "handle_command example_tiers ''1'' (chain_line ''true'' [(''||'', ''x'')]) example_router = handle_command example_tiers ''1'' (chain_line ''true'' [('';'', ''x'')]) example_router"
    by (rule separators_do_not_matter)
       (simp_all add: router_eval)
  then show ?thesis by simp
qed

lemma unanswered_piece_loses_all_witness:
  "\<exists>s1. on_command example_tiers ''1'' ''cat x | sh ; ls'' example_router = (s1, Inr None) \<and> asked_remote s1 = [''$ cat x | sh'']"
proof -
  define s1 where "s1 = fst (piece_answer example_tiers ''1'' ''cat x | sh'' example_router)"
  have a: "answer_all (piece_answer example_tiers ''1'') (''cat x | sh'' # map snd []) example_router = (s1, Inr [CHR ''o'', CHR ''k'', CHR 0x0A])"
    "asked_remote s1 = [''$ cat x | sh'']"
    by (simp_all add: s1_def piece_answer_def router_eval example_tiers_def example_router_def escalate_with_fallback_def tier3_def escalate_def
        escalate_prompt_def history_lines_def clean_answer_def ask_bedrock_def rstrip_chars_def record_event_def Let_def)
  have "on_command example_tiers ''1'' (chain_line ''cat x | sh'' ([] @ ('';'', ''ls'') # [])) example_router = (s1, Inr None)"
    by (rule unanswered_piece_loses_all [OF _ _ _ a(1)]) (simp_all add: router_eval example_tiers_def)
  then show ?thesis using a(2) by auto
qed

subsection \<open>How often the models are asked\<close>

lemma record_event_asked [simp]:
  "asked_local (record_event n c x y s) = asked_local s" "asked_remote (record_event n c x y s) = asked_remote s"
  by (simp_all add: record_event_def Let_def)

definition asked_by :: "router \<Rightarrow> router \<Rightarrow> nat \<Rightarrow> bool" where
  "asked_by s s' n \<longleftrightarrow> (\<exists>l r. asked_local s' = asked_local s @ l \<and> asked_remote s' = asked_remote s @ r \<and> length l \<le> n \<and> length r \<le> n)"

lemma asked_by_trans: "asked_by s t m \<Longrightarrow> asked_by t u n \<Longrightarrow> asked_by s u (m + n)"
  unfolding asked_by_def by (elim exE conjE) (intro exI conjI, auto)

lemma asked_by_more: "asked_by s t m \<Longrightarrow> m \<le> n \<Longrightarrow> asked_by s t n"
  unfolding asked_by_def by fastforce

lemma asked_none: "asked_by s s n" "asked_by s (record_event k c x y s) n"
  by (auto simp: asked_by_def)

lemma asked_escalated: "asked_by s (fst (escalate_with_fallback T session cmd s)) 1"
  by (auto simp: asked_by_def escalate_with_fallback_def tier3_def tier2_def escalate_def Let_def
      split: prod.splits sum.splits failure.splits if_splits)

lemma asked_piece: "asked_by s (fst (piece_answer T session p s)) 1"
  using asked_escalated [of s T session p] asked_none by (auto simp: piece_answer_def split: option.splits)

lemma asked_pieces: "asked_by s (fst (answer_all (piece_answer T session) ps s)) (length ps)"
proof (induction ps arbitrary: s)
  case (Cons p ps)
  obtain s1 r where p: "piece_answer T session p s = (s1, r)" by (metis surj_pair)
  then have one: "asked_by s s1 1" using asked_piece [of s T session p] by simp
  show ?case
  proof (cases r)
    case (Inl e)
    then show ?thesis using p asked_by_more [OF one] by simp
  next
    case (Inr t)
    obtain s2 r2 where a: "answer_all (piece_answer T session) ps s1 = (s2, r2)" by (metis surj_pair)
    have "asked_by s s2 (1 + length ps)" using asked_by_trans [OF one Cons.IH [of s1]] a by simp
    then show ?thesis using p Inr a by (cases r2) simp_all
  qed
qed (simp add: asked_none)

text \<open>For a line, each model is asked at most once for each of its pieces.\<close>

theorem models_asked_once:
  "\<exists>l r. let s' = fst (handle_command T session command s) in
     asked_local s' = asked_local s @ l \<and> asked_remote s' = asked_remote s @ r
     \<and> length l \<le> max 1 (length (chain_parts (strip_chars is_space command)))
     \<and> length r \<le> max 1 (length (chain_parts (strip_chars is_space command)))"
proof -
  let ?cmd = "strip_chars is_space command"
  have "asked_by s (fst (handle_command T session command s)) (max 1 (length (chain_parts ?cmd)))"
    unfolding router_flat Let_def
    using asked_none(1) [of s] asked_piece [of s T session ?cmd, THEN asked_by_more] asked_pieces [of s T session "chain_parts ?cmd", THEN asked_by_more]
    by auto
  then show ?thesis by (simp add: asked_by_def Let_def)
qed

subsection \<open>The telemetry\<close>

definition telemetry_ok :: "router \<Rightarrow> bool" where
  "telemetry_ok s \<longleftrightarrow> tel_events s = drop (length (tel_queue s) - 1000) (tel_queue s)"

lemma telemetry_recorded: "telemetry_ok s \<Longrightarrow> telemetry_ok (record_event n c x y s)"
proof -
  assume ok: "telemetry_ok s"
  have "length xs - (length xs - 1000 + 999) + (length xs - 1000) = length xs - 999" for xs :: "telemetry_event list" by simp
  then show ?thesis using ok by (simp add: telemetry_ok_def record_event_def Let_def)
qed

lemma telemetry_asked [simp]:
  "telemetry_ok (s\<lparr>asked_local := l\<rparr>) = telemetry_ok s" "telemetry_ok (s\<lparr>asked_remote := r\<rparr>) = telemetry_ok s"
  by (simp_all add: telemetry_ok_def)

lemma telemetry_escalated: "telemetry_ok s \<Longrightarrow> telemetry_ok (fst (escalate_with_fallback T session cmd s))"
  by (auto simp: escalate_with_fallback_def tier3_def tier2_def escalate_def Let_def telemetry_recorded
      split: prod.splits sum.splits failure.splits if_splits)

lemma telemetry_piece: "telemetry_ok s \<Longrightarrow> telemetry_ok (fst (piece_answer T session p s))"
  by (auto simp: piece_answer_def telemetry_escalated telemetry_recorded split: option.splits)

lemma telemetry_pieces: "telemetry_ok s \<Longrightarrow> telemetry_ok (fst (answer_all (piece_answer T session) ps s))"
proof (induction ps arbitrary: s)
  case (Cons p ps)
  then show ?case using telemetry_piece [of s T session p]
    by (auto simp: routed_bind_def split: prod.splits sum.splits) (metis fst_conv)+
qed simp

lemma telemetry_command: "telemetry_ok s \<Longrightarrow> telemetry_ok (fst (handle_command T session command s))"
  unfolding router_flat Let_def using telemetry_piece telemetry_pieces by auto

interpretation telemetry: machine "\<lambda>s (T, session, command). fst (handle_command T session command s)" telemetry_ok
  by unfold_locales (auto simp: telemetry_command)

text \<open>After any commands of any sessions the buffer of the dashboard holds the last thousand of the events that
  were handed to the writer of the log.\<close>

theorem telemetry_window:
  "let s = foldl (\<lambda>s (T, session, command). fst (handle_command T session command s)) example_router cmds in
   tel_events s = drop (length (tel_queue s) - 1000) (tel_queue s) \<and> length (tel_events s) \<le> 1000"
  using telemetry.run_inv [of example_router cmds] by (simp add: telemetry_ok_def example_router_def Let_def)

subsection \<open>The text of a model\<close>

lemma clean_text_shape: "clean_text t = [] \<or> (\<exists>w. clean_text t = w @ [CHR 0x0A] \<and> w \<noteq> [] \<and> strip_chars is_space w = w)"
  by (simp add: clean_text_def Let_def)

text \<open>A text that a model puts into a fenced block, of whatever language, loses the fences and keeps its lines;
  it ends with one line end.\<close>

theorem fenced_text_unwrapped:
  assumes "CHR 0x0A \<notin> set lang" "strip_chars is_space body = body" "body \<noteq> []"
  shows "clean_text (fence @ lang @ [CHR 0x0A] @ body @ [CHR 0x0A] @ fence) = body @ [CHR 0x0A]"
proof -
  let ?t = "fence @ lang @ [CHR 0x0A] @ body @ [CHR 0x0A] @ fence"
  have t: "strip_chars is_space ?t = ?t" by (intro strip_none) (simp add: fence_def is_space_def)
  have st: "starts_with ?t fence" by simp
  have al: "after_line ?t = body @ [CHR 0x0A] @ fence"
  proof -
    have "dropWhile (\<lambda>c. c \<noteq> CHR 0x0A) ((fence @ lang) @ CHR 0x0A # body @ [CHR 0x0A] @ fence) = CHR 0x0A # body @ [CHR 0x0A] @ fence"
      using assms(1) by (subst dropWhile_append2) (auto simp: fence_def)
    then show ?thesis by (simp add: after_line_def)
  qed
  have en: "starts_with (rev (body @ [CHR 0x0A] @ fence)) fence" by (simp add: fence_def)
  have tk: "take (length (body @ [CHR 0x0A] @ fence) - 3) (body @ [CHR 0x0A] @ fence) = body @ [CHR 0x0A]"
    by (simp add: fence_def)
  have lastb: "\<not> is_space (hd body) \<and> \<not> is_space (last body)" using stripped_ends [of is_space body] assms(2,3) by simp
  have bs: "strip_chars is_space (body @ [CHR 0x0A]) = body"
  proof -
    have "dropWhile is_space (body @ [CHR 0x0A]) = body @ [CHR 0x0A]" using lastb assms(3) by (intro dropWhile_none) simp
    moreover have "dropWhile is_space (rev body) = rev body" using lastb assms(3) by (intro dropWhile_none) (simp add: hd_rev)
    ultimately show ?thesis by (simp add: strip_chars_def lstrip_chars_def rstrip_chars_def is_space_def)
  qed
  show ?thesis unfolding clean_text_def Let_def t using st al en tk bs assms(3) by simp
qed

lemma fenced_text_unwrapped_witness:
  "clean_text (fence @ ''sh'' @ [CHR 0x0A] @ ''a b'' @ [CHR 0x0A] @ fence) = ''a b'' @ [CHR 0x0A]"
  by (rule fenced_text_unwrapped) (simp_all add: strip_chars_def lstrip_chars_def rstrip_chars_def is_space_def)

text \<open>A fenced text on one line is lost.\<close>

lemma one_line_fence_lost: "clean_text (fence @ ''root'' @ fence) = []"
  by (simp add: clean_text_def fence_def after_line_def strip_chars_def lstrip_chars_def rstrip_chars_def is_space_def Let_def)

subsection \<open>Separators that are none\<close>

text \<open>A quoted semicolon cuts.\<close>

lemma quotes_are_cut:
  "chain_parts (''echo '' @ [CHR 0x22] @ ''a;b'' @ [CHR 0x22]) = [''echo '' @ [CHR 0x22] @ ''a'', ''b'' @ [CHR 0x22]]"
  by (simp add: chain_parts_def strip_chars_def lstrip_chars_def rstrip_chars_def is_space_def)

text \<open>A loop right behind a semicolon is not seen as one: its parts are answered as commands.\<close>

lemma loop_is_cut:
  "\<not> is_control_flow ''x=1;for i in 1 2;do ls;done''"
  "chain_parts ''x=1;for i in 1 2;do ls;done'' = [''x=1'', ''for i in 1 2'', ''do ls'', ''done'']"
  by (simp_all add: router_eval chain_parts_def strip_chars_def lstrip_chars_def rstrip_chars_def)

text \<open>A word of a command that is a keyword of the shell sends it to the models, recorded or not.\<close>

lemma keyword_as_word: "is_control_flow ''grep for /etc/motd''"
  by (simp add: router_eval)

text \<open>A recorded command with a semicolon behind it is not found.\<close>

lemma trailing_separator_misses:
  "snd (handle_command example_tiers ''1'' ''whoami'' example_router) = Inr ''root''"
  "snd (handle_command example_tiers ''1'' ''whoami;'' example_router) = Inl Tier_unavailable"
  by (simp_all add: router_flat chain_parts_def strip_chars_def lstrip_chars_def rstrip_chars_def piece_answer_def router_eval
      example_tiers_def Let_def)

end
