(* ===== verification/Llm_Session_Props.thy ===== *)
theory Llm_Session_Props
  imports Llm_Session Scalpel_Router_Props
begin

section \<open>What a model-played session does\<close>

text \<open>
  Prompts and lines balance over every run; what a request carries; that recorded commands stay with the
  router; that answers which come late stand behind the wrong line, and that the directory never changes.
\<close>

lemma write_simps [simp]:
  "llm_cwd (llm_write x s) = llm_cwd s" "llm_user (llm_write x s) = llm_user s" "llm_host (llm_write x s) = llm_host s"
  "terminal_open (llm_write x s) = terminal_open s" "command_history (llm_write x s) = command_history s"
  "pending (llm_write x s) = pending s" "llm_requests (llm_write x s) = llm_requests s" "screen (llm_write x s) = screen s @ [x]"
  "router_state (llm_write x s) = router_state s" "session_no (llm_write x s) = session_no s"
  by (simp_all add: llm_write_def)

lemma prompt_simps [simp]:
  "llm_cwd (show_llm_prompt s) = llm_cwd s" "llm_user (show_llm_prompt s) = llm_user s" "llm_host (show_llm_prompt s) = llm_host s"
  "terminal_open (show_llm_prompt s) = terminal_open s" "command_history (show_llm_prompt s) = command_history s"
  "pending (show_llm_prompt s) = pending s" "llm_requests (show_llm_prompt s) = llm_requests s"
  "screen (show_llm_prompt s) = screen s @ [Prompt_text (llm_prompt s)]" "router_state (show_llm_prompt s) = router_state s"
  "session_no (show_llm_prompt s) = session_no s"
  by (simp_all add: show_llm_prompt_def)

lemma llm_prompt_cong: "llm_user s = llm_user t \<Longrightarrow> llm_host s = llm_host t \<Longrightarrow> llm_cwd s = llm_cwd t \<Longrightarrow> llm_prompt s = llm_prompt t"
  by (simp add: llm_prompt_def)

subsection \<open>Every line gets its prompt\<close>

definition is_prompt :: "shown \<Rightarrow> bool" where
  "is_prompt x \<longleftrightarrow> (case x of Prompt_text _ \<Rightarrow> True | Output_text _ \<Rightarrow> False)"

lemma is_prompt_simps [simp]: "is_prompt (Prompt_text t)" "\<not> is_prompt (Output_text t)"
  by (simp_all add: is_prompt_def)

definition prompts :: "llm_session \<Rightarrow> nat" where
  "prompts s = length (filter is_prompt (screen s))"

definition valid_line :: "llm_event \<Rightarrow> bool" where
  "valid_line e \<longleftrightarrow> (case e of Typed_line l \<Rightarrow> py_decode l \<noteq> Inl UnicodeDecodeError | _ \<Rightarrow> False)"

lemma decode_cases: "py_decode l = Inl UnicodeDecodeError \<or> py_decode l = Inr l"
  by (simp add: py_decode_def)

lemma line_effect:
  assumes "py_decode l = Inr l" "terminal_open s"
  shows "let s' = fst (llm_line_received T l s) in terminal_open s' \<and> prompts s' + pending s' = Suc (prompts s + pending s)"
  using assms by (auto simp: llm_line_received_def process_command_with_llm_def prompts_def Let_def split: prod.splits sum.splits option.splits)

lemma answer_effect:
  assumes "terminal_open s" "0 < pending s"
  shows "let s' = llm_step T wide s (Llm_answer r) in terminal_open s' \<and> prompts s' + pending s' = prompts s + pending s"
  using assms by (auto simp: handle_llm_response_def prompts_def Let_def split: sum.splits option.splits)

text \<open>C27: Over any run before the attacker hangs up, the prompts shown and the answers still awaited together are one
  more than the lines that were typed: once all answers are there, each line has been given its prompt,
  whatever the service said.\<close>

theorem every_line_prompted:
  assumes "Hung_up \<notin> set es"
  shows "let s = foldl (llm_step T wide) (llm_connected user host no) es in
    prompts s + pending s = Suc (length (filter valid_line es))"
proof -
  have "terminal_open (foldl (llm_step T wide) s es)
      \<and> prompts (foldl (llm_step T wide) s es) + pending (foldl (llm_step T wide) s es) = prompts s + pending s + length (filter valid_line es)"
    if "terminal_open s" for s
    using assms that
  proof (induction es arbitrary: s)
    case (Cons e es)
    have step: "terminal_open (llm_step T wide s e)
        \<and> prompts (llm_step T wide s e) + pending (llm_step T wide s e) = prompts s + pending s + (if valid_line e then 1 else 0)"
    proof (cases e)
      case (Typed_line l)
      then show ?thesis using decode_cases [of l] line_effect [of l s T] Cons.prems(2)
        by (auto simp: valid_line_def llm_line_received_def Let_def)
    next
      case (Llm_answer r)
      then show ?thesis using answer_effect [of s T wide r] Cons.prems(2) by (cases "pending s = 0") (auto simp: valid_line_def Let_def)
    next
      case Hung_up
      then show ?thesis using Cons.prems(1) by simp
    qed
    then show ?case using Cons.IH [of "llm_step T wide s e"] Cons.prems(1) by auto
  qed simp
  moreover have "terminal_open (llm_connected user host no)" "prompts (llm_connected user host no) = 1" "pending (llm_connected user host no) = 0"
    by (simp_all add: llm_connected_def prompts_def)
  ultimately show ?thesis unfolding Let_def by simp
qed

subsection \<open>What a request carries\<close>

lemma last_ten_snoc: "last_ten (xs @ [x]) = drop (length xs - 9) xs @ [x]"
  by (simp add: last_ten_def)

text \<open>A line that the router does not answer is sent with the instructions first and the line last, and with at
  most the nine last entries of the conversation in between.\<close>

theorem request_carries_line:
  assumes "py_decode l = Inr l" "\<forall>t. snd (on_command T (session_no s) l (router_state s)) \<noteq> Inr (Some t)"
  shows "let s' = fst (llm_line_received T l s) in
    llm_requests s' = llm_requests s @ [system_context s # drop (length (command_history s) - 9) (command_history s) @ [''User: '' @ l]]
    \<and> format_messages (last (llm_requests s')) =
        (Role_system, system_context s) # map message_of (drop (length (command_history s) - 9) (command_history s))
          @ [(Role_user, strip_chars is_space l)]
    \<and> screen s' = screen s"
proof -
  obtain r x where o: "on_command T (session_no s) l (router_state s) = (r, x)" by (metis surj_pair)
  have n: "\<forall>t. x \<noteq> Inr (Some t)" using assms(2) o by simp
  have sp: "strip_chars is_space (CHR '' '' # l) = strip_chars is_space l"
    by (simp add: strip_chars_def lstrip_chars_def is_space_def)
  have ctx: "system_context (s\<lparr>router_state := r\<rparr>) = system_context s" by (simp add: system_context_def)
  have "fst (llm_line_received T l s) = process_command_with_llm l (s\<lparr>router_state := r\<rparr>)"
    using assms(1) o n by (auto simp: llm_line_received_def split: sum.splits option.splits)
  then show ?thesis by (simp add: process_command_with_llm_def last_ten_snoc ctx message_of_def sp Let_def)
qed

lemma every_line_prompted_witness:
  "let s = foldl (llm_step example_tiers (\<lambda>_. True)) (llm_connected ''root'' ''pi'' ''1'') [Typed_line ''ls'', Typed_line ''whoami''] in
   prompts s + pending s = 3"
proof -
  have "let s = foldl (llm_step example_tiers (\<lambda>_. True)) (llm_connected ''root'' ''pi'' ''1'') [Typed_line ''ls'', Typed_line ''whoami''] in
    prompts s + pending s = Suc (length (filter valid_line [Typed_line ''ls'', Typed_line ''whoami'']))"
    by (rule every_line_prompted) simp
  then show ?thesis by (simp add: valid_line_def py_decode_def Let_def)
qed

lemma example_unanswered: "on_command example_tiers no ''ls'' r = (r, Inr None)"
  by (simp add: on_command_def router_flat chain_parts_def strip_chars_def lstrip_chars_def rstrip_chars_def piece_answer_def router_eval
      example_tiers_def Let_def)

lemma request_carries_line_witness:
  "format_messages (last (llm_requests (fst (llm_line_received example_tiers ''ls'' (llm_connected ''root'' ''pi'' ''1''))))) =
     [(Role_system, system_context (llm_connected ''root'' ''pi'' ''1'')), (Role_user, ''ls'')]"
proof -
  let ?s = "llm_connected ''root'' ''pi'' ''1''"
  have d: "py_decode ''ls'' = Inr ''ls''" by (simp add: py_decode_def)
  have "\<forall>t. snd (on_command example_tiers (session_no ?s) ''ls'' (router_state ?s)) \<noteq> Inr (Some t)" by (simp add: example_unanswered)
  note request_carries_line [OF d this, unfolded Let_def, THEN conjunct2, THEN conjunct1]
  then show ?thesis by (simp add: llm_connected_def strip_chars_def lstrip_chars_def rstrip_chars_def is_space_def)
qed

subsection \<open>Recorded commands\<close>

text \<open>C14: A recorded command is answered at once, with the recorded output and a prompt; no model is asked, and the
  conversation has it as if a model had said it. Only the output's last line ends are left out there.\<close>

theorem recorded_line_stays_local:
  assumes "py_decode l = Inr l" "clean_piece l" "\<not> is_control_flow l" "recorded T l = Some t" "terminal_open s"
  shows "let s' = fst (llm_line_received T l s) in
    screen s' = screen s @ [Output_text t, Prompt_text (llm_prompt s)]
    \<and> command_history s' = command_history s @ [''User: '' @ l, ''System: '' @ rstrip_chars (\<lambda>c. c = CHR 0x0A) t]
    \<and> llm_requests s' = llm_requests s \<and> pending s' = pending s
    \<and> asked_local (router_state s') = asked_local (router_state s) \<and> asked_remote (router_state s') = asked_remote (router_state s)"
proof -
  have strip: "strip_chars is_space l = l" "l \<noteq> []" using assms(2) strip_none [of l is_space] by (auto simp: clean_piece_def)
  have "chain_parts l = [l]" using assms(2) strip by (intro parts_plain) (auto simp: clean_piece_def)
  then have "on_command T (session_no s) l (router_state s) = (record_event 1 l (session_no s) ''ok'' (router_state s), Inr (Some t))"
    using assms(3,4) strip by (simp add: on_command_def router_flat piece_answer_def Let_def)
  then show ?thesis using assms(1,5)
    by (simp add: llm_line_received_def Let_def) (simp add: llm_prompt_def)
qed

lemma recorded_line_stays_local_witness:
  "screen (fst (llm_line_received example_tiers ''whoami'' (llm_connected ''root'' ''pi'' ''1''))) =
     [Prompt_text ''root@pi:/# '', Output_text ''root'', Prompt_text ''root@pi:/# '']"
proof -
  have d: "py_decode ''whoami'' = Inr ''whoami''" by (simp add: py_decode_def)
  have "let s' = fst (llm_line_received example_tiers ''whoami'' (llm_connected ''root'' ''pi'' ''1'')) in
    screen s' = screen (llm_connected ''root'' ''pi'' ''1'') @ [Output_text ''root'', Prompt_text (llm_prompt (llm_connected ''root'' ''pi'' ''1''))]
    \<and> command_history s' = command_history (llm_connected ''root'' ''pi'' ''1'') @ [''User: '' @ ''whoami'', ''System: '' @ rstrip_chars (\<lambda>c. c = CHR 0x0A) ''root'']
    \<and> llm_requests s' = llm_requests (llm_connected ''root'' ''pi'' ''1'') \<and> pending s' = pending (llm_connected ''root'' ''pi'' ''1'')
    \<and> asked_local (router_state s') = asked_local (router_state (llm_connected ''root'' ''pi'' ''1''))
    \<and> asked_remote (router_state s') = asked_remote (router_state (llm_connected ''root'' ''pi'' ''1''))"
    by (rule recorded_line_stays_local [OF d]) (simp_all add: router_eval example_tiers_def llm_connected_def)
  then show ?thesis by (simp add: Let_def llm_connected_def show_llm_prompt_def llm_write_def llm_prompt_def)
qed

subsection \<open>Late answers, and a directory that stays\<close>

text \<open>When a second line is typed before the first is answered, the model is shown both lines and then both
  answers: the answer to the first stands behind the second.\<close>

theorem late_answer_misplaced:
  assumes "py_decode a = Inr a" "py_decode b = Inr b"
    "\<forall>r t. snd (on_command T (session_no s) a r) \<noteq> Inr (Some t)" "\<forall>r t. snd (on_command T (session_no s) b r) \<noteq> Inr (Some t)"
    "terminal_open s" "llm_content ra = Inr (Some ta)" "llm_content rb = Inr (Some tb)" "ta \<noteq> []" "tb \<noteq> []"
  shows "command_history (foldl (llm_step T wide) s [Typed_line a, Typed_line b, Llm_answer ra, Llm_answer rb]) =
    command_history s @ [''User: '' @ a, ''User: '' @ b, ''System: '' @ strip_markdown wide ta, ''System: '' @ strip_markdown wide tb]"
proof -
  have line: "\<exists>r. fst (llm_line_received T l s') = process_command_with_llm l (s'\<lparr>router_state := r\<rparr>)"
    if "py_decode l = Inr l" "\<forall>r t. snd (on_command T (session_no s') l r) \<noteq> Inr (Some t)" for l s'
  proof -
    obtain r x where o: "on_command T (session_no s') l (router_state s') = (r, x)" by (metis surj_pair)
    then have "\<forall>t. x \<noteq> Inr (Some t)" using that(2) by (metis snd_conv)
    then show ?thesis using that(1) o by (auto simp: llm_line_received_def split: sum.splits option.splits)
  qed
  obtain r1 where 1: "fst (llm_line_received T a s) = process_command_with_llm a (s\<lparr>router_state := r1\<rparr>)"
    using line [of a s] assms(1,3) by blast
  let ?s1 = "process_command_with_llm a (s\<lparr>router_state := r1\<rparr>)"
  obtain r2 where 2: "fst (llm_line_received T b ?s1) = process_command_with_llm b (?s1\<lparr>router_state := r2\<rparr>)"
    using line [of b ?s1] assms(2,4) by (auto simp: process_command_with_llm_def Let_def)
  show ?thesis using 1 2 assms(5-9)
    by (simp add: handle_llm_response_def process_command_with_llm_def Let_def)
qed

lemma late_answer_misplaced_witness:
  "command_history (foldl (llm_step example_tiers (\<lambda>_. True)) (llm_connected ''root'' ''pi'' ''1'')
     [Typed_line ''ls'', Typed_line ''ls'',
      Llm_answer \<lparr>reply_status = 200, reply_utf8 = True, reply_body = Body_content (Some ''a'')\<rparr>,
      Llm_answer \<lparr>reply_status = 200, reply_utf8 = True, reply_body = Body_content (Some ''b'')\<rparr>]) =
   [''User: ls'', ''User: ls'', ''System: a'', ''System: b'']"
proof -
  have d: "py_decode ''ls'' = Inr ''ls''" by (simp add: py_decode_def)
  have "command_history (foldl (llm_step example_tiers (\<lambda>_. True)) (llm_connected ''root'' ''pi'' ''1'')
     [Typed_line ''ls'', Typed_line ''ls'',
      Llm_answer \<lparr>reply_status = 200, reply_utf8 = True, reply_body = Body_content (Some ''a'')\<rparr>,
      Llm_answer \<lparr>reply_status = 200, reply_utf8 = True, reply_body = Body_content (Some ''b'')\<rparr>]) =
    command_history (llm_connected ''root'' ''pi'' ''1'') @ [''User: '' @ ''ls'', ''User: '' @ ''ls'',
      ''System: '' @ strip_markdown (\<lambda>_. True) ''a'', ''System: '' @ strip_markdown (\<lambda>_. True) ''b'']"
    by (rule late_answer_misplaced [OF d d]) (simp_all add: example_unanswered llm_connected_def llm_content_def)
  then show ?thesis
    by (simp add: llm_connected_def strip_markdown_def fence_def strip_chars_def lstrip_chars_def rstrip_chars_def is_space_def)
qed

text \<open>No line changes the directory of the prompt, whatever the model says about \<open>cd\<close>.\<close>

lemma directory_stays: "llm_cwd (foldl (llm_step T wide) s es) = llm_cwd s"
proof (induction es arbitrary: s)
  case (Cons e es)
  have "llm_cwd (llm_step T wide s e) = llm_cwd s"
    by (cases e) (auto simp: llm_line_received_def handle_llm_response_def process_command_with_llm_def Let_def
        split: prod.splits sum.splits option.splits)
  then show ?case using Cons by simp
qed simp

text \<open>No backquote is left in what is shown of an answer, in a command substitution neither.\<close>

lemma no_backquote_left: "CHR ''`'' \<notin> set (strip_markdown wide t)"
proof -
  obtain a b where "filter (\<lambda>c. c \<noteq> CHR ''`'') (drop_fences wide t) = a @ strip_markdown wide t @ b"
    unfolding strip_markdown_def using strip_inside by blast
  then have "set (strip_markdown wide t) \<subseteq> set (filter (\<lambda>c. c \<noteq> CHR ''`'') (drop_fences wide t))" by auto
  then show ?thesis by auto
qed

subsection \<open>Exec requests\<close>

text \<open>An exec request is answered by the router and over, or asks the model once and is over with its answer.\<close>

theorem exec_ends_once:
  assumes "exec_open s" "\<not> exec_ended s" "exec_requests s = []"
  shows "let s1 = exec_connected T no s in
    (exec_ended s1 \<and> exec_requests s1 = [] \<or> \<not> exec_ended s1 \<and> exec_requests s1 = [[exec_context s]] \<and> exec_screen s1 = exec_screen s)
    \<and> (\<not> exec_ended s1 \<longrightarrow> exec_ended (handle_exec_response wide r s1) \<and> length (exec_screen (handle_exec_response wide r s1)) \<le> Suc (length (exec_screen s)))"
  using assms by (auto simp: exec_connected_def handle_exec_response_def Let_def split: prod.splits sum.splits option.splits)

end
