(* ===== verification/Event_Output.thy ===== *)
theory Event_Output
  imports Prelude_Text
begin

section \<open>Events on their way to the output plugins\<close>

text \<open>
  Model of \<open>core/output.py\<close>: the conversion of an event, the session it belongs to, and the state that
  every plugin keeps of the sessions. The formatting operator of Python, \<open>formatTime\<close> and the clock are
  parameters; what a plugin writes is the list \<open>written\<close>.
\<close>

subsection \<open>Values\<close>

datatype ev_value =
    Text string | Bytes string | Number rat | Flag bool | Nothing | Tuple "ev_value list" | Items "ev_value list"
  | Dict "(ev_value \<times> ev_value) list" | Object nat

type_synonym event = "(string \<times> ev_value) list"

text \<open>\<open>repr\<close> of a \<open>bytes\<close>.\<close>

definition repr_byte :: "char \<Rightarrow> char \<Rightarrow> string" where
  "repr_byte quote c =
     (let n = (of_char c :: nat) in
      if c = quote \<or> c = CHR 0x5C then [CHR 0x5C, c]
      else if c = CHR 0x09 then [CHR 0x5C, CHR ''t'']
      else if c = CHR 0x0A then [CHR 0x5C, CHR ''n'']
      else if c = CHR 0x0D then [CHR 0x5C, CHR ''r'']
      else if n < 32 \<or> 127 \<le> n then [CHR 0x5C, CHR ''x'', hex_char (n div 16), hex_char (n mod 16)]
      else [c])"

definition repr_bytes :: "string \<Rightarrow> string" where
  "repr_bytes b =
     (let quote = (if CHR 0x27 \<in> set b \<and> CHR 0x22 \<notin> set b then CHR 0x22 else CHR 0x27)
      in [CHR ''b'', quote] @ concat (map (repr_byte quote) b) @ [quote])"

text \<open>Keys that are the same after the conversion are one key.\<close>

function convert :: "ev_value \<Rightarrow> ev_value" where
  "convert (Text s) = Text s"
| "convert (Dict d) = Dict (fold (\<lambda>(k, v) acc. AList.update k v acc) (map (\<lambda>(k, v). (convert k, convert v)) d) [])"
| "convert (Items xs) = Items (map convert xs)"
| "convert (Bytes b) = (case py_decode b of Inr s \<Rightarrow> Text s | Inl e \<Rightarrow> Text (repr_bytes b))"
| "convert (Number q) = Number q"
| "convert (Flag b) = Flag b"
| "convert Nothing = Nothing"
| "convert (Tuple xs) = Tuple xs"
| "convert (Object n) = Object n"
  by pat_completeness auto
termination
proof (relation "measure size")
  fix d :: "(ev_value \<times> ev_value) list" and p k v
  assume "p \<in> set d" "(k, v) = p"
  then have "size_prod size size p \<le> size_list (size_prod size size) d" by (intro size_list_estimation') auto
  then show "(k, Dict d) \<in> measure size" "(v, Dict d) \<in> measure size" using \<open>(k, v) = p\<close> by auto
next
  fix xs :: "ev_value list" and x
  assume "x \<in> set xs"
  then have "size x \<le> size_list size xs" by (intro size_list_estimation') auto
  then show "(x, Items xs) \<in> measure size" by simp
qed simp

definition convert_event :: "event \<Rightarrow> event" where
  "convert_event ev = map (\<lambda>(k, v). (k, convert v)) ev"

subsection \<open>Session numbers\<close>

text \<open>The pattern of a log prefix: the name of the transport with a comma, digits, a comma, an address, at the
  end of the text or before a last line end; the last place of the line where it fits.\<close>

definition address_char :: "char \<Rightarrow> bool" where
  "address_char c \<longleftrightarrow> is_digit c \<or> c \<in> {CHR ''a'', CHR ''b'', CHR ''c'', CHR ''d'', CHR ''e'', CHR ''f'', CHR '':'', CHR ''.''}"

definition match_here :: "string \<Rightarrow> string \<Rightarrow> string option" where
  "match_here name s =
     (if starts_with s (name @ '','')
      then let r = drop (length name + 1) s; no = takeWhile is_digit r; rest = dropWhile is_digit r in
        (case rest of
           c # addr \<Rightarrow>
             let tail = dropWhile address_char addr in
             if no \<noteq> [] \<and> c = CHR '','' \<and> takeWhile address_char addr \<noteq> [] \<and> (tail = [] \<or> tail = [CHR 0x0A]) then Some no else None
         | [] \<Rightarrow> None)
      else None)"

fun match_transport :: "string \<Rightarrow> string \<Rightarrow> string option" where
  "match_transport name [] = None"
| "match_transport name (c # s) =
     (case (if c = CHR 0x0A then None else match_transport name s) of
        Some no \<Rightarrow> Some no
      | None \<Rightarrow> match_here name (c # s))"

subsection \<open>State\<close>

record output_conf =
  sensor :: string
  out_uuid :: string
  render :: "ev_value \<Rightarrow> event \<Rightarrow> string option"
  format_time :: "ev_value \<Rightarrow> string"

record plugin =
  sessions :: "(ev_value \<times> ev_value) list"
  ips :: "(ev_value \<times> ev_value) list"
  written :: "event list"

definition plugin_new :: plugin where
  "plugin_new = \<lparr>sessions = [], ips = [], written = []\<rparr>"

definition has_key :: "string \<Rightarrow> event \<Rightarrow> bool" where
  "has_key k ev \<longleftrightarrow> map_of ev k \<noteq> None"

definition set_key :: "string \<Rightarrow> ev_value \<Rightarrow> event \<Rightarrow> event" where
  "set_key k v ev = AList.update k v ev"

text \<open>The events that plugins see at all.\<close>

definition relevant :: "event \<Rightarrow> bool" where
  "relevant ev \<longleftrightarrow> \<not> has_key ''printed'' ev \<and> has_key ''eventid'' ev
     \<and> (has_key ''sessionno'' ev \<or> has_key ''session'' ev \<or> has_key ''system'' ev)
     \<and> (has_key ''message'' ev \<or> has_key ''format'' ev)"

definition add_message :: "output_conf \<Rightarrow> event \<Rightarrow> event" where
  "add_message conf ev =
     (case map_of ev ''format'' of
        None \<Rightarrow> ev
      | Some f \<Rightarrow>
          if \<not> has_key ''message'' ev \<or> map_of ev ''message'' = Some (Tuple [])
          then (case render conf f ev of
                  None \<Rightarrow> ev
                | Some m \<Rightarrow> AList.delete ''format'' (set_key ''message'' (Text m) ev))
          else ev)"

definition complete :: "output_conf \<Rightarrow> rat \<Rightarrow> event \<Rightarrow> event" where
  "complete conf now ev0 =
     (let ev1 = AList.delete ''isError'' (set_key ''uuid'' (Text (out_uuid conf)) (set_key ''sensor'' (Text (sensor conf)) (convert_event ev0)));
          ev2 = (if has_key ''time'' ev1 then ev1 else set_key ''time'' (Number now) ev1);
          ev3 = set_key ''timestamp'' (Text (format_time conf (the (map_of ev2 ''time'')))) ev2
      in add_message conf ev3)"

text \<open>The number of the session, and the event without it if it was given; none when the event is not passed on.\<close>

definition session_number :: "plugin \<Rightarrow> event \<Rightarrow> (ev_value option \<times> event) res" where
  "session_number s ev =
     (case map_of ev ''sessionno'' of
        Some n \<Rightarrow> Inr (Some n, AList.delete ''sessionno'' ev)
      | None \<Rightarrow>
          (case map_of ev ''session'' of
             Some i \<Rightarrow> Inr (map_option fst (find (\<lambda>(k, v). v = i) (sessions s)), ev)
           | None \<Rightarrow>
               (case map_of ev ''system'' of
                  Some (Text t) \<Rightarrow>
                    Inr (case match_transport ''TelnetTransport'' t of
                           Some n \<Rightarrow> Some (Text (CHR ''T'' # n))
                         | None \<Rightarrow> map_option (\<lambda>n. Text (CHR ''S'' # n)) (match_transport ''SSHTransport'' t), ev)
                | Some _ \<Rightarrow> Inl TypeError
                | None \<Rightarrow> Inr (None, ev))))"

definition protocol_name :: "ev_value \<Rightarrow> string res" where
  "protocol_name n =
     (case n of
        Text [] \<Rightarrow> Inl IndexError
      | Text (c # _) \<Rightarrow> Inr (if c = CHR ''S'' then ''ssh'' else if c = CHR ''T'' then ''telnet'' else ''unknown'')
      | _ \<Rightarrow> Inl TypeError)"

definition is_event :: "string \<Rightarrow> event \<Rightarrow> bool" where
  "is_event name ev \<longleftrightarrow> map_of ev ''eventid'' = Some (Text name)"

definition attribute :: "ev_value \<Rightarrow> event \<Rightarrow> plugin \<Rightarrow> (plugin, event) sres" where
  "attribute n ev0 s =
     (let ev = (case map_of (ips s) n of None \<Rightarrow> ev0 | Some ip \<Rightarrow> set_key ''src_ip'' ip ev0) in
      if is_event ''cowrie.session.connect'' ev
      then case map_of ev ''session'' of
          None \<Rightarrow> (s, Inl KeyError)
        | Some i \<Rightarrow>
            let s1 = s\<lparr>sessions := AList.update n i (sessions s)\<rparr> in
            (case map_of ev ''src_ip'' of
               None \<Rightarrow> (s1, Inl KeyError)
             | Some ip \<Rightarrow> (s1\<lparr>ips := AList.update n ip (ips s1)\<rparr>, Inr ev))
      else case map_of (sessions s) n of
          None \<Rightarrow> (s, Inl KeyError)
        | Some i \<Rightarrow> (s, Inr (set_key ''session'' i ev)))"

definition close_session :: "ev_value \<Rightarrow> plugin \<Rightarrow> (plugin, unit) sres" where
  "close_session n s =
     (case dict_del n (sessions s) of
        Inl e \<Rightarrow> (s, Inl e)
      | Inr d \<Rightarrow>
          (case dict_del n (ips s) of
             Inl e \<Rightarrow> (s\<lparr>sessions := d\<rparr>, Inl e)
           | Inr d2 \<Rightarrow> (s\<lparr>sessions := d, ips := d2\<rparr>, Inr ())))"

definition out_emit :: "output_conf \<Rightarrow> rat \<Rightarrow> event \<Rightarrow> plugin \<Rightarrow> (plugin, unit) sres" where
  "out_emit conf now event s =
     (if \<not> relevant event then (s, Inr ())
      else case session_number s (complete conf now event) of
          Inl e \<Rightarrow> (s, Inl e)
        | Inr (None, ev) \<Rightarrow> (s, Inr ())
        | Inr (Some n, ev) \<Rightarrow>
            sbind (attribute n ev s) (\<lambda>s1 ev1.
              case protocol_name n of
                Inl e \<Rightarrow> (s1, Inl e)
              | Inr p \<Rightarrow>
                  let ev2 = set_key ''protocol'' (Text p) ev1; s2 = s1\<lparr>written := written s1 @ [ev2]\<rparr> in
                  if is_event ''cowrie.session.closed'' ev2 then close_session n s2 else (s2, Inr ())))"

end
