(* ===== verification/Event_Output_Props.thy ===== *)
theory Event_Output_Props
  imports Event_Output
begin

section \<open>Events carry the session they belong to\<close>

text \<open>
  Over any run a plugin writes each event with the session and the address of the last connection that
  used its number, from the connection up to its end, and nothing outside. A number that is used again
  before it was closed keeps the old address. The conversion leaves no bytes.
\<close>

subsection \<open>Keys of an event\<close>

definition added_keys :: "string set" where
  "added_keys = {''sensor'', ''uuid'', ''isError'', ''time'', ''timestamp'', ''message'', ''format''}"

lemma map_of_convert: "map_of (convert_event ev) k = map_option convert (map_of ev k)"
  by (induction ev) (auto simp: convert_event_def)

lemma map_of_set [simp]: "map_of (set_key k v ev) = (map_of ev)(k \<mapsto> v)"
  by (simp add: set_key_def map_of_alist_update)

lemma map_of_del [simp]: "map_of (AList.delete k ev) = (map_of ev)(k := None)"
  by (rule delete_conv')

lemma add_message_key: "k \<notin> {''message'', ''format''} \<Longrightarrow> map_of (add_message conf ev) k = map_of ev k"
  by (auto simp: add_message_def split: option.splits)

lemma complete_key: "k \<notin> added_keys \<Longrightarrow> map_of (complete conf now ev) k = map_option convert (map_of ev k)"
  by (auto simp: complete_def Let_def add_message_key added_keys_def map_of_convert)

subsection \<open>Where an event comes from\<close>

text \<open>
  An event names its session by a number (connections), by the name of the session, or not at all: then
  the number is in the log prefix that the logging adds, the name of the transport with its number and the
  address of the peer, behind what else is in the prefix. Each event of the log has some prefix.
\<close>

datatype transport_kind = SSH | Telnet

datatype attribution =
    With_number string string | With_name string string | In_transport transport_kind string string string | Outside string

definition transport_name :: "transport_kind \<Rightarrow> string" where
  "transport_name k = (case k of SSH \<Rightarrow> ''SSHTransport'' | Telnet \<Rightarrow> ''TelnetTransport'')"

definition log_prefix :: "transport_kind \<Rightarrow> string \<Rightarrow> string \<Rightarrow> string \<Rightarrow> string" where
  "log_prefix k before num addr = before @ transport_name k @ '','' @ num @ '','' @ addr"

fun encode_attribution :: "attribution \<Rightarrow> event" where
  "encode_attribution (With_number n system) = [(''sessionno'', Text n), (''system'', Text system)]"
| "encode_attribution (With_name i system) = [(''session'', Text i), (''system'', Text system)]"
| "encode_attribution (In_transport k before num addr) = [(''system'', Text (log_prefix k before num addr))]"
| "encode_attribution (Outside system) = [(''system'', Text system)]"

fun attribution_ok :: "attribution \<Rightarrow> bool" where
  "attribution_ok (With_number n system) \<longleftrightarrow> n \<noteq> []"
| "attribution_ok (With_name i system) \<longleftrightarrow> True"
| "attribution_ok (In_transport k before num addr) \<longleftrightarrow>
     CHR 0x0A \<notin> set before \<and> num \<noteq> [] \<and> (\<forall>c \<in> set num. is_digit c) \<and> addr \<noteq> [] \<and> (\<forall>c \<in> set addr. address_char c)"
| "attribution_ok (Outside system) \<longleftrightarrow> CHR '','' \<notin> set system"

text \<open>The two patterns on such a prefix.\<close>

lemma match_later:
  assumes "CHR 0x0A \<notin> set w" "match_transport name s = Some n"
  shows "match_transport name (w @ s) = Some n"
  using assms(1) by (induction w) (auto simp: assms(2))

lemma match_no_start: "c \<notin> set s \<Longrightarrow> match_transport (c # name) s = None"
  by (induction s) (auto simp: match_here_def)

lemma takeWhile_digits: "\<forall>c \<in> set num. is_digit c \<Longrightarrow> takeWhile is_digit (num @ CHR '','' # addr) = num"
  "\<forall>c \<in> set num. is_digit c \<Longrightarrow> dropWhile is_digit (num @ CHR '','' # addr) = CHR '','' # addr"
proof -
  have "\<not> is_digit (CHR '','')" by (simp add: is_digit_def)
  then show "\<forall>c \<in> set num. is_digit c \<Longrightarrow> takeWhile is_digit (num @ CHR '','' # addr) = num"
    "\<forall>c \<in> set num. is_digit c \<Longrightarrow> dropWhile is_digit (num @ CHR '','' # addr) = CHR '','' # addr"
    by (simp_all add: takeWhile_append2 dropWhile_append2)
qed

lemma match_here_prefix:
  assumes "num \<noteq> []" "\<forall>c \<in> set num. is_digit c" "addr \<noteq> []" "\<forall>c \<in> set addr. address_char c"
  shows "match_here name (name @ '','' @ num @ '','' @ addr) = Some num"
proof -
  have t: "takeWhile address_char addr = addr" "dropWhile address_char addr = []" using assms(4) by auto
  have "starts_with (name @ '','' @ num @ '','' @ addr) (name @ '','')" unfolding starts_with_iff by simp
  then show ?thesis using assms(1,3,4) by (simp add: match_here_def Let_def t takeWhile_digits [OF assms(2)])
qed

lemma prefix_letters:
  assumes "\<forall>c \<in> set num. is_digit c" "\<forall>c \<in> set addr. address_char c"
  shows "CHR ''S'' \<notin> set (num @ '','' @ addr)" "CHR ''T'' \<notin> set (num @ '','' @ addr)"
proof -
  have "\<not> is_digit (CHR ''S'')" "\<not> is_digit (CHR ''T'')" "\<not> address_char (CHR ''S'')" "\<not> address_char (CHR ''T'')"
    by (simp_all add: is_digit_def address_char_def)
  with assms show "CHR ''S'' \<notin> set (num @ '','' @ addr)" "CHR ''T'' \<notin> set (num @ '','' @ addr)" by auto
qed

lemma match_prefix:
  assumes "attribution_ok (In_transport k before num addr)"
  shows "match_transport (transport_name k) (log_prefix k before num addr) = Some num"
proof -
  have a: "num \<noteq> []" "\<forall>c \<in> set num. is_digit c" "addr \<noteq> []" "\<forall>c \<in> set addr. address_char c" "CHR 0x0A \<notin> set before"
    using assms by auto
  let ?rest = "num @ '','' @ addr"
  note l = prefix_letters [OF a(2,4)]
  note n = match_no_start [OF l(1)] match_no_start [OF l(2)]
  have "match_transport (transport_name k) (transport_name k @ '','' @ ?rest) = Some num"
  proof (cases k)
    case SSH
    have "match_transport ''SSHTransport'' (tl ''SSHTransport'' @ '','' @ ?rest) = None"
      using n(1) [of "''SHTransport''"] by (simp add: match_here_def)
    then show ?thesis using match_here_prefix [OF a(1-4), of "''SSHTransport''"] SSH by (simp add: transport_name_def)
  next
    case Telnet
    have "match_transport ''TelnetTransport'' (tl ''TelnetTransport'' @ '','' @ ?rest) = None"
      using n(2) [of "''elnetTransport''"] by (simp add: match_here_def)
    then show ?thesis using match_here_prefix [OF a(1-4), of "''TelnetTransport''"] Telnet by (simp add: transport_name_def)
  qed
  then show ?thesis unfolding log_prefix_def by (rule match_later [OF a(5)])
qed

text \<open>A fit reaches the end of the text, so it has no other letters than those of the pattern.\<close>

lemma match_here_letters:
  assumes "match_here name s = Some n" "c \<in> set s"
  shows "c \<in> set name \<or> c = CHR '','' \<or> is_digit c \<or> address_char c \<or> c = CHR 0x0A"
proof -
  let ?r = "drop (length name + 1) s"
  from assms(1) have st: "take (length name + 1) s = name @ '',''"
    by (auto simp: match_here_def starts_with_iff Let_def split: if_splits)
  from assms(1) obtain d addr where d: "dropWhile is_digit ?r = CHR '','' # addr"
      "dropWhile address_char addr = [] \<or> dropWhile address_char addr = [CHR 0x0A]"
    by (auto simp: match_here_def Let_def split: if_splits list.splits)
  have "s = take (length name + 1) s @ takeWhile is_digit ?r @ dropWhile is_digit ?r" by simp
  also have "\<dots> = (name @ '','') @ takeWhile is_digit ?r @ CHR '','' # takeWhile address_char addr @ dropWhile address_char addr"
    by (simp only: st d(1) takeWhile_dropWhile_id)
  finally have "c \<in> set ((name @ '','') @ takeWhile is_digit ?r @ CHR '','' # takeWhile address_char addr @ dropWhile address_char addr)"
    using assms(2) by simp
  then consider "c \<in> set (name @ '','')" | "c \<in> set (takeWhile is_digit ?r)" | "c = CHR '',''"
    | "c \<in> set (takeWhile address_char addr)" | "c \<in> set (dropWhile address_char addr)"
    unfolding set_append list.set by blast
  then show ?thesis using d(2) by cases (auto dest: set_takeWhileD set_dropWhileD)
qed

lemma match_transport_letter:
  assumes "c \<in> set rest" "c \<notin> set name" "c \<noteq> CHR '','' \<and> \<not> is_digit c \<and> \<not> address_char c \<and> c \<noteq> CHR 0x0A"
    "match_transport name rest = None"
  shows "match_transport name (w @ rest) = None"
proof (induction w)
  case (Cons x w)
  have "match_here name ((x # w) @ rest) = None"
  proof (cases "match_here name ((x # w) @ rest)")
    case (Some n)
    with match_here_letters [of name "(x # w) @ rest" n c] assms(1-3) show ?thesis by auto
  qed
  with Cons show ?case by auto
qed (simp add: assms(4))

lemma telnet_not_ssh:
  assumes "attribution_ok (In_transport SSH before num addr)"
  shows "match_transport ''TelnetTransport'' (log_prefix SSH before num addr) = None"
proof -
  have a: "\<forall>c \<in> set num. is_digit c" "\<forall>c \<in> set addr. address_char c" using assms by auto
  have n: "match_transport ''TelnetTransport'' (''SSHTransport'' @ '','' @ num @ '','' @ addr) = None"
    using match_no_start [OF prefix_letters(2) [OF a], of "''elnetTransport''"] by (simp add: match_here_def)
  have s: "CHR ''S'' \<in> set (''SSHTransport'' @ '','' @ num @ '','' @ addr)" "CHR ''S'' \<notin> set ''TelnetTransport''"
    "CHR ''S'' \<noteq> CHR '','' \<and> \<not> is_digit (CHR ''S'') \<and> \<not> address_char (CHR ''S'') \<and> CHR ''S'' \<noteq> CHR 0x0A"
    by (simp_all add: is_digit_def address_char_def)
  from match_transport_letter [OF s n] show ?thesis
    unfolding log_prefix_def transport_name_def transport_kind.case by simp
qed

lemma match_outside: "CHR '','' \<notin> set s \<Longrightarrow> match_transport name s = None"
proof (induction s)
  case (Cons c s)
  have "\<not> starts_with (c # s) (name @ '','')"
  proof
    assume "starts_with (c # s) (name @ '','')"
    then obtain r where "c # s = (name @ '','') @ r" unfolding starts_with_iff by blast
    then have "CHR '','' \<in> set (c # s)" by simp
    with Cons.prems show False by blast
  qed
  then have "match_here name (c # s) = None" by (simp add: match_here_def)
  with Cons show ?case by (cases "c = CHR 0x0A") auto
qed simp

subsection \<open>Session events\<close>

datatype session_event =
    Session_connect string string string string
  | Session_event attribution string event
  | Session_closed attribution

fun attribution_of :: "session_event \<Rightarrow> attribution" where
  "attribution_of (Session_connect n i ip system) = With_number n system"
| "attribution_of (Session_event a e extra) = a"
| "attribution_of (Session_closed a) = a"

fun kind_of :: "session_event \<Rightarrow> string" where
  "kind_of (Session_connect n i ip system) = ''cowrie.session.connect''"
| "kind_of (Session_event a e extra) = e"
| "kind_of (Session_closed a) = ''cowrie.session.closed''"

definition reserved_keys :: "string set" where
  "reserved_keys = added_keys \<union> {''sessionno'', ''eventid'', ''session'', ''src_ip'', ''printed'', ''protocol'', ''system''}"

definition encode_event :: "session_event \<Rightarrow> event" where
  "encode_event e =
     encode_attribution (attribution_of e) @ [(''eventid'', Text (kind_of e)), (''message'', Text [])]
     @ (case e of
          Session_connect n i ip system \<Rightarrow> [(''session'', Text i), (''src_ip'', Text ip)]
        | Session_event a k extra \<Rightarrow> extra
        | Session_closed a \<Rightarrow> [])"

definition session_event_ok :: "session_event \<Rightarrow> bool" where
  "session_event_ok e \<longleftrightarrow> attribution_ok (attribution_of e) \<and>
     (case e of
        Session_event a k extra \<Rightarrow>
          k \<noteq> ''cowrie.session.connect'' \<and> k \<noteq> ''cowrie.session.closed'' \<and> (\<forall>x \<in> reserved_keys. x \<notin> fst ` set extra)
      | _ \<Rightarrow> True)"

text \<open>
  What the sessions are: number, name and address of each that is open, in the order they were opened. The
  number of an event: the one it names, that of the first session of its name, or that of its
  transport, with a letter for the kind. What is written of an event is session, address, kind and
  protocol.
\<close>

type_synonym session_table = "(string \<times> string \<times> string) list"

type_synonym written_event = "ev_value option \<times> ev_value option \<times> ev_value option \<times> ev_value option"

fun number_of :: "session_table \<Rightarrow> attribution \<Rightarrow> string option" where
  "number_of f (With_number n system) = Some n"
| "number_of f (With_name i system) = map_option fst (find (\<lambda>(n, j, ip). j = i) f)"
| "number_of f (In_transport k before num addr) = Some ((case k of SSH \<Rightarrow> CHR ''S'' | Telnet \<Rightarrow> CHR ''T'') # num)"
| "number_of f (Outside system) = None"

definition protocol_of :: "string \<Rightarrow> string" where
  "protocol_of n = (if hd n = CHR ''S'' then ''ssh'' else if hd n = CHR ''T'' then ''telnet'' else ''unknown'')"

definition written_as :: "string \<Rightarrow> string \<Rightarrow> string \<Rightarrow> string \<Rightarrow> written_event" where
  "written_as n i ip k = (Some (Text i), Some (Text ip), Some (Text k), Some (Text (protocol_of n)))"

fun spec_event :: "session_table \<times> written_event list \<Rightarrow> session_event \<Rightarrow> session_table \<times> written_event list" where
  "spec_event (f, out) (Session_connect n i ip system) =
     (let ip1 = (case map_of f n of None \<Rightarrow> ip | Some (_, old) \<Rightarrow> old)
      in (AList.update n (i, ip1) f, out @ [written_as n i ip1 ''cowrie.session.connect'']))"
| "spec_event (f, out) (Session_event a e extra) =
     (case number_of f a of
        None \<Rightarrow> (f, out)
      | Some n \<Rightarrow> (case map_of f n of None \<Rightarrow> (f, out) | Some (i, ip) \<Rightarrow> (f, out @ [written_as n i ip e])))"
| "spec_event (f, out) (Session_closed a) =
     (case number_of f a of
        None \<Rightarrow> (f, out)
      | Some n \<Rightarrow> (case map_of f n of
            None \<Rightarrow> (f, out)
          | Some (i, ip) \<Rightarrow> (AList.delete n f, out @ [written_as n i ip ''cowrie.session.closed''])))"

definition summary :: "event \<Rightarrow> written_event" where
  "summary ev = (map_of ev ''session'', map_of ev ''src_ip'', map_of ev ''eventid'', map_of ev ''protocol'')"

definition names_dict :: "session_table \<Rightarrow> (ev_value \<times> ev_value) list" where
  "names_dict f = map (\<lambda>(n, i, ip). (Text n, Text i)) f"

definition ips_dict :: "session_table \<Rightarrow> (ev_value \<times> ev_value) list" where
  "ips_dict f = map (\<lambda>(n, i, ip). (Text n, Text ip)) f"

definition follows :: "plugin \<Rightarrow> session_table \<times> written_event list \<Rightarrow> bool" where
  "follows s p \<longleftrightarrow> sessions s = names_dict (fst p) \<and> ips s = ips_dict (fst p) \<and> (\<forall>x \<in> set (fst p). fst x \<noteq> [])
     \<and> map summary (written s) = snd p"

text \<open>The two dictionaries are kept in step.\<close>

lemma dicts_lookup [simp]:
  "map_of (names_dict f) (Text n) = map_option (Text \<circ> fst) (map_of f n)"
  "map_of (ips_dict f) (Text n) = map_option (Text \<circ> snd) (map_of f n)"
  by (induction f) (auto simp: names_dict_def ips_dict_def)

lemma dicts_update [simp]:
  "AList.update (Text n) (Text i) (names_dict f) = names_dict (AList.update n (i, ip) f)"
  "AList.update (Text n) (Text ip) (ips_dict f) = ips_dict (AList.update n (i, ip) f)"
  by (induction f) (auto simp: names_dict_def ips_dict_def)

lemma dicts_delete [simp]:
  "AList.delete (Text n) (names_dict f) = names_dict (AList.delete n f)"
  "AList.delete (Text n) (ips_dict f) = ips_dict (AList.delete n f)"
  by (induction f) (auto simp: names_dict_def ips_dict_def AList.delete_eq)

lemma names_find: "map_option fst (find (\<lambda>(k, v). v = Text i) (names_dict f)) = map_option (Text \<circ> fst) (find (\<lambda>(n, j, ip). j = i) f)"
  by (induction f) (auto simp: names_dict_def)

subsection \<open>One event\<close>

lemma encoded_key:
  assumes "session_event_ok e"
  shows "map_of (encode_event e) ''eventid'' = Some (Text (kind_of e))"
    "map_of (encode_event e) ''sessionno'' = (case attribution_of e of With_number n _ \<Rightarrow> Some (Text n) | _ \<Rightarrow> None)"
    "map_of (encode_event e) ''src_ip'' = (case e of Session_connect n i ip _ \<Rightarrow> Some (Text ip) | _ \<Rightarrow> None)"
    "map_of (encode_event e) ''session'' =
      (case e of Session_connect n i ip _ \<Rightarrow> Some (Text i) | _ \<Rightarrow> (case attribution_of e of With_name i _ \<Rightarrow> Some (Text i) | _ \<Rightarrow> None))"
    "map_of (encode_event e) ''system'' = Some (Text (case attribution_of e of With_number n x \<Rightarrow> x | With_name i x \<Rightarrow> x
       | In_transport k b n a \<Rightarrow> log_prefix k b n a | Outside x \<Rightarrow> x))"
    "map_of (encode_event e) ''message'' \<noteq> None" "map_of (encode_event e) ''printed'' = None"
proof -
  have x: "map_of x k = None" if "\<forall>k \<in> reserved_keys. k \<notin> fst ` set x" "k \<in> reserved_keys" for x :: event and k
    using that by (simp add: map_of_eq_None_iff)
  show "map_of (encode_event e) ''eventid'' = Some (Text (kind_of e))"
    "map_of (encode_event e) ''system'' = Some (Text (case attribution_of e of With_number n x \<Rightarrow> x | With_name i x \<Rightarrow> x
       | In_transport k b n a \<Rightarrow> log_prefix k b n a | Outside x \<Rightarrow> x))"
    "map_of (encode_event e) ''message'' \<noteq> None"
    by (cases "attribution_of e"; simp add: encode_event_def)+
  show "map_of (encode_event e) ''sessionno'' = (case attribution_of e of With_number n _ \<Rightarrow> Some (Text n) | _ \<Rightarrow> None)"
    "map_of (encode_event e) ''printed'' = None"
    using assms by (cases e; cases "attribution_of e"; simp add: encode_event_def session_event_ok_def x reserved_keys_def)+
  show "map_of (encode_event e) ''src_ip'' = (case e of Session_connect n i ip _ \<Rightarrow> Some (Text ip) | _ \<Rightarrow> None)"
    "map_of (encode_event e) ''session'' =
      (case e of Session_connect n i ip _ \<Rightarrow> Some (Text i) | _ \<Rightarrow> (case attribution_of e of With_name i _ \<Rightarrow> Some (Text i) | _ \<Rightarrow> None))"
    using assms by (cases e; cases "attribution_of e"; simp add: encode_event_def session_event_ok_def x reserved_keys_def)+
qed

lemma relevant_encoded: "session_event_ok e \<Longrightarrow> relevant (encode_event e)"
  by (simp add: relevant_def has_key_def encoded_key)

definition given :: "output_conf \<Rightarrow> rat \<Rightarrow> session_event \<Rightarrow> event" where
  "given conf now e =
     (if map_of (encode_event e) ''sessionno'' = None then complete conf now (encode_event e)
      else AList.delete ''sessionno'' (complete conf now (encode_event e)))"

lemma given_key:
  "k \<notin> added_keys \<Longrightarrow> k \<noteq> ''sessionno'' \<Longrightarrow> map_of (given conf now e) k = map_option convert (map_of (encode_event e) k)"
  by (simp add: given_def complete_key)

lemma given_event:
  assumes "session_event_ok e"
  shows "map_of (given conf now e) ''eventid'' = Some (Text (kind_of e))"
    "map_of (given conf now e) ''src_ip'' = (case e of Session_connect n i ip _ \<Rightarrow> Some (Text ip) | _ \<Rightarrow> None)"
    "case e of Session_connect n i ip _ \<Rightarrow> map_of (given conf now e) ''session'' = Some (Text i) | _ \<Rightarrow> True"
  using encoded_key [OF assms] by (auto simp: given_key added_keys_def split: session_event.split)

text \<open>The number that is found is the one the event belongs to.\<close>

lemma session_number_of:
  assumes "session_event_ok e" "follows s (f, out)"
  shows "session_number s (complete conf now (encode_event e)) = Inr (map_option Text (number_of f (attribution_of e)), given conf now e)"
proof -
  note k = encoded_key [OF assms(1)]
  have c: "map_of (complete conf now (encode_event e)) x = map_option convert (map_of (encode_event e) x)"
    if "x \<in> {''sessionno'', ''session'', ''system''}" for x using that by (auto simp: complete_key added_keys_def)
  show ?thesis
  proof (cases "attribution_of e")
    case (With_number n system)
    with k c show ?thesis by (simp add: session_number_def given_def)
  next
    case (With_name i system)
    then have "map_of (encode_event e) ''session'' = Some (Text i)" using k(4) by (cases e) auto
    with With_name k(2) c assms(2) names_find [of i f] show ?thesis
      by (simp add: session_number_def given_def follows_def option.map_comp)
  next
    case (In_transport t w num addr)
    then have ok: "attribution_ok (In_transport t w num addr)" using assms(1) by (simp add: session_event_ok_def)
    have "map_of (encode_event e) ''session'' = None" using k(4) In_transport by (cases e) auto
    with In_transport k c match_prefix [OF ok] telnet_not_ssh [of w num addr] ok show ?thesis
      by (cases t) (simp_all add: session_number_def given_def transport_name_def)
  next
    case (Outside system)
    then have "CHR '','' \<notin> set system" using assms(1) by (simp add: session_event_ok_def)
    moreover have "map_of (encode_event e) ''session'' = None" using k(4) Outside by (cases e) auto
    ultimately show ?thesis using Outside k c by (simp add: session_number_def given_def match_outside)
  qed
qed

lemma number_nonempty:
  assumes "session_event_ok e" "follows s (f, out)" "number_of f (attribution_of e) = Some n"
  shows "n \<noteq> []"
proof (cases "attribution_of e")
  case (With_name i system)
  with assms(3) obtain x where "find (\<lambda>(n, j, ip). j = i) f = Some x" "n = fst x" by auto
  then have "x \<in> set f" "n = fst x" by (auto simp: find_Some_iff in_set_conv_nth)
  with assms(2) show ?thesis by (auto simp: follows_def)
qed (use assms in \<open>auto simp: session_event_ok_def\<close>)

lemma protocol_name_text: "n \<noteq> [] \<Longrightarrow> protocol_name (Text n) = Inr (protocol_of n)"
  by (cases n) (simp_all add: protocol_name_def protocol_of_def)

definition deliver :: "string \<Rightarrow> event \<Rightarrow> plugin \<Rightarrow> (plugin, unit) sres" where
  "deliver n ev s =
     sbind (attribute (Text n) ev s) (\<lambda>s1 ev1.
       let ev2 = set_key ''protocol'' (Text (protocol_of n)) ev1; s2 = s1\<lparr>written := written s1 @ [ev2]\<rparr> in
       if is_event ''cowrie.session.closed'' ev2 then close_session (Text n) s2 else (s2, Inr ()))"

lemma emit_delivers:
  assumes "session_event_ok e" "follows s (f, out)"
  shows "out_emit conf now (encode_event e) s =
    (case number_of f (attribution_of e) of None \<Rightarrow> (s, Inr ()) | Some n \<Rightarrow> deliver n (given conf now e) s)"
  using relevant_encoded [OF assms(1)] session_number_of [OF assms, of conf now] number_nonempty [OF assms]
  by (auto simp: out_emit_def deliver_def protocol_name_text split: option.split)

lemma follows_dicts:
  assumes "follows s (f, out)"
  shows "sessions s = names_dict f" "ips s = ips_dict f" "\<forall>x \<in> set f. fst x \<noteq> []" "map summary (written s) = out"
  using assms by (simp_all add: follows_def)

lemma update_nonempty: "\<forall>x \<in> set f. fst x \<noteq> [] \<Longrightarrow> n \<noteq> [] \<Longrightarrow> \<forall>x \<in> set (AList.update n v f). fst x \<noteq> []"
  by (induction f) (auto split: if_splits)

lemma emit_follows:
  assumes "session_event_ok e" "follows s (f, out)"
  shows "follows (fst (out_emit conf now (encode_event e) s)) (spec_event (f, out) e)"
proof (cases "number_of f (attribution_of e)")
  case None
  then have "out_emit conf now (encode_event e) s = (s, Inr ())" by (simp add: emit_delivers [OF assms])
  moreover have "spec_event (f, out) e = (f, out)" using None by (cases e) simp_all
  ultimately show ?thesis using assms(2) by simp
next
  case (Some n)
  have n: "n \<noteq> []" by (rule number_nonempty [OF assms Some])
  have em: "out_emit conf now (encode_event e) s = deliver n (given conf now e) s"
    by (simp add: emit_delivers [OF assms] Some)
  note d = follows_dicts [OF assms(2)] and g = given_event [OF assms(1), of conf now]
  show ?thesis
  proof (cases e)
    case (Session_connect m i ip system)
    with Some have "m = n" by simp
    with d g Session_connect n update_nonempty [OF d(3) n] show ?thesis unfolding em deliver_def
      by (cases "map_of f n") (auto simp: attribute_def is_event_def Let_def follows_def summary_def written_as_def)
  next
    case (Session_event a k x)
    then have "k \<noteq> ''cowrie.session.connect''" "k \<noteq> ''cowrie.session.closed''"
      using assms(1) by (simp_all add: session_event_ok_def)
    with d g Session_event Some show ?thesis unfolding em deliver_def
      by (cases "map_of f n") (auto simp: attribute_def is_event_def Let_def follows_def summary_def written_as_def)
  next
    case (Session_closed a)
    have del: "\<forall>x \<in> set (AList.delete n f). fst x \<noteq> []" using d(3) by (auto simp: AList.delete_eq)
    with d g Session_closed Some show ?thesis unfolding em deliver_def
      by (cases "map_of f n")
        (auto simp: attribute_def is_event_def Let_def follows_def summary_def written_as_def close_session_def dict_del_def)
  qed
qed

text \<open>C25: Over any run of sessions' events, at any times, the events written are those of the open sessions, each with
  the name, the address and the protocol its number stands for, whether the event names the number, the
  session, or neither and the number is in its log prefix, behind whatever else is in there. An event of a
  number that is not open, or not any more, or of no transport, is not written.\<close>

theorem plugin_follows_sessions:
  assumes "\<forall>(e, now) \<in> set es. session_event_ok e"
  shows "follows (foldl (\<lambda>s (e, now). fst (out_emit conf now (encode_event e) s)) plugin_new es)
    (foldl spec_event ([], []) (map fst es))"
proof -
  have run: "follows (foldl (\<lambda>s (e, now). fst (out_emit conf now (encode_event e) s)) s es) (foldl spec_event p (map fst es))"
    if "follows s p" for s p
    using assms that
  proof (induction es arbitrary: s p)
    case (Cons x es)
    obtain e now where x: "x = (e, now)" by (cases x)
    obtain f out where p: "p = (f, out)" by (cases p)
    have "follows (fst (out_emit conf now (encode_event e) s)) (spec_event p e)"
      using Cons.prems x p emit_follows by auto
    then show ?case using Cons.IH Cons.prems(1) x by auto
  qed simp
  have "follows plugin_new ([], [])" by (simp add: follows_def plugin_new_def names_dict_def ips_dict_def)
  then show ?thesis by (rule run)
qed

definition example_output_conf :: output_conf where
  "example_output_conf = \<lparr>sensor = ''pi'', out_uuid = ''unknown'', render = (\<lambda>_ _. None), format_time = (\<lambda>_. [])\<rparr>"

definition example_events :: "(session_event \<times> rat) list" where
  "example_events =
     [(Session_connect ''S12'' ''ab'' ''1.2.3.4'' ''-'', 0),
      (Session_event (In_transport Telnet ''Cowrie'' ''12'' ''1.2.3.4'') ''cowrie.login.failed'' [], 1),
      (Session_event (In_transport SSH ''SSHService ssh-userauth on HoneyPot'' ''12'' ''1.2.3.4'') ''cowrie.login.failed'' [], 2),
      (Session_event (With_name ''ab'' ''-'') ''cowrie.session.file_upload'' [], 3),
      (Session_closed (In_transport SSH ''HoneyPot'' ''12'' ''1.2.3.4''), 4)]"

lemma plugin_follows_sessions_witness:
  "map summary (written (foldl (\<lambda>s (e, now). fst (out_emit example_output_conf now (encode_event e) s)) plugin_new example_events)) =
   map (\<lambda>k. (Some (Text ''ab''), Some (Text ''1.2.3.4''), Some (Text k), Some (Text ''ssh'')))
     [''cowrie.session.connect'', ''cowrie.login.failed'', ''cowrie.session.file_upload'', ''cowrie.session.closed'']"
proof -
  have "follows (foldl (\<lambda>s (e, now). fst (out_emit example_output_conf now (encode_event e) s)) plugin_new example_events)
    (foldl spec_event ([], []) (map fst example_events))"
    by (rule plugin_follows_sessions)
      (simp add: example_events_def session_event_ok_def is_digit_def address_char_def)
  then have "map summary (written (foldl (\<lambda>s (e, now). fst (out_emit example_output_conf now (encode_event e) s)) plugin_new example_events))
      = snd (foldl spec_event ([], []) (map fst example_events))" unfolding follows_def by blast
  then show ?thesis by (simp add: Let_def example_events_def written_as_def protocol_of_def)
qed

text \<open>A number that is used for a new connection before the old one was closed keeps the old address: the
  event of the new connection itself is written with it.\<close>

lemma reconnect_keeps_old_address:
  "spec_event (spec_event ([], []) (Session_connect n i ip x)) (Session_connect n j ip' y) =
     ([(n, j, ip)], [written_as n i ip ''cowrie.session.connect'', written_as n j ip ''cowrie.session.connect''])"
  by simp

subsection \<open>The conversion\<close>

fun no_bytes :: "ev_value \<Rightarrow> bool" where
  "no_bytes (Bytes b) \<longleftrightarrow> False"
| "no_bytes (Items xs) \<longleftrightarrow> list_all no_bytes xs"
| "no_bytes v \<longleftrightarrow> True"

lemma convert_no_bytes: "no_bytes (convert v)"
proof (induction v rule: convert.induct)
  case (3 xs)
  then show ?case by (simp add: list_all_iff)
next
  case (4 b)
  then show ?case by (simp split: sum.splits)
qed simp_all

text \<open>A text in UTF-8 and its bytes are the same after the conversion.\<close>

lemma convert_utf8: "py_decode b = Inr b \<Longrightarrow> convert (Bytes b) = convert (Text b)"
  by simp

end
