(* ===== verification/Passwd_Db.thy ===== *)
theory Passwd_Db
  imports Prelude_Text Vfs_Ops
begin

section \<open>Users, groups and the accounts of sessions\<close>

text \<open>
  The password and group files of \<open>shell/pwd.py\<close>, and what a login makes of them: the avatar of
  \<open>shell/avatar.py\<close>, the virtual server of \<open>shell/server.py\<close>, and the start of SSH
  (\<open>shell/session.py\<close>) and telnet sessions (\<open>telnet/session.py\<close>). The texts of both files, the
  pickled file system and the functions of the generator of random numbers are arguments; the state of the
  generator, which the whole program shares, is passed along. \<open>crc32\<close> is that of \<open>binascii\<close>.
\<close>

subsection \<open>The password file\<close>

datatype gecos = Gecos string | Gecos_Zero

record pw_entry =
  pw_name :: string
  pw_passwd :: string
  pw_uid :: int
  pw_gid :: int
  pw_gecos :: gecos
  pw_dir :: string
  pw_shell :: string

definition id_of_text :: "string \<Rightarrow> int" where
  "id_of_text s = (case int_text s of Inr n \<Rightarrow> n | Inl _ \<Rightarrow> 1001)"

text \<open>A blank line or a comment.\<close>

definition skipped_line :: "string \<Rightarrow> bool" where
  "skipped_line line = (line = [] \<or> starts_with line ''#'')"

definition passwd_line :: "string \<Rightarrow> pw_entry option" where
  "passwd_line rawline =
     (let line = strip_space rawline in
      if skipped_line line then None
      else case split_on (CHR '':'') line of
             [name, pass, uid, gid, gecos, dir, shell] \<Rightarrow>
               Some \<lparr>pw_name = name, pw_passwd = pass, pw_uid = id_of_text uid, pw_gid = id_of_text gid,
                     pw_gecos = Gecos gecos, pw_dir = dir, pw_shell = shell\<rparr>
           | _ \<Rightarrow> None)"

abbreviation line_feed :: char where "line_feed \<equiv> CHR 0x0A"

definition load_passwd :: "string \<Rightarrow> pw_entry list" where
  "load_passwd contents = List.map_filter passwd_line (split_on line_feed contents)"

definition getpwnam :: "pw_entry list \<Rightarrow> string \<Rightarrow> pw_entry res" where
  "getpwnam db name = (case find (\<lambda>e. pw_name e = name) db of None \<Rightarrow> Inl KeyError | Some e \<Rightarrow> Inr e)"

definition getpwuid :: "pw_entry list \<Rightarrow> int \<Rightarrow> pw_entry res" where
  "getpwuid db uid = (case find (\<lambda>e. uid = pw_uid e) db of None \<Rightarrow> Inl KeyError | Some e \<Rightarrow> Inr e)"

primrec crc_shift :: "nat \<Rightarrow> 32 word \<Rightarrow> 32 word" where
  "crc_shift 0 c = c"
| "crc_shift (Suc n) c = crc_shift n (if bit c 0 then drop_bit 1 c XOR 0xEDB88320 else drop_bit 1 c)"

definition crc32 :: "string \<Rightarrow> int" where
  "crc32 s = uint (fold (\<lambda>ch c. crc_shift 8 (c XOR word_of_nat (of_char ch))) s 0xFFFFFFFF XOR 0xFFFFFFFF)"

text \<open>\<open>random.seed\<close> and \<open>random.randint\<close>, with the state of the generator as a number.\<close>

record random_source =
  seed :: "int \<Rightarrow> nat \<Rightarrow> nat"
  randint :: "int \<Rightarrow> int \<Rightarrow> nat \<Rightarrow> int \<times> nat"

definition setpwentry :: "random_source \<Rightarrow> pw_entry list \<Rightarrow> string \<Rightarrow> nat \<Rightarrow> (pw_entry list \<times> pw_entry) \<times> nat" where
  "setpwentry R db name g =
     (let g1 = seed R (crc32 name) g;
          (uid, g2) = randint R 1500 10000 g1;
          e = \<lparr>pw_name = name, pw_passwd = ''x'', pw_uid = uid, pw_gid = uid, pw_gecos = Gecos_Zero,
               pw_dir = ''/home/'' @ name, pw_shell = ''/bin/bash''\<rparr>
      in ((db @ [e], e), g2))"

subsection \<open>The group file\<close>

record gr_entry =
  gr_name :: string
  gr_gid :: int
  gr_mem :: string

text \<open>Here a line with another number of fields is not skipped: taking it apart raises.\<close>

definition group_line :: "string \<Rightarrow> gr_entry option res" where
  "group_line rawline =
     (let line = strip_space rawline in
      if skipped_line line then Inr None
      else case split_on (CHR '':'') line of
             [name, _, gid, mem] \<Rightarrow> Inr (Some \<lparr>gr_name = name, gr_gid = id_of_text gid, gr_mem = mem\<rparr>)
           | _ \<Rightarrow> Inl ValueError)"

fun load_groups :: "string list \<Rightarrow> gr_entry list res" where
  "load_groups [] = Inr []"
| "load_groups (rawline # rest) =
     rbind (group_line rawline) (\<lambda>e. rbind (load_groups rest) (\<lambda>es.
       Inr (case e of None \<Rightarrow> es | Some g \<Rightarrow> g # es)))"

text \<open>The file is opened each time, and may be missing.\<close>

definition load_group :: "string option \<Rightarrow> gr_entry list res" where
  "load_group file =
     (case file of
        None \<Rightarrow> Inl OSError_ENOENT
      | Some contents \<Rightarrow> load_groups (split_on line_feed contents))"

definition getgrnam :: "gr_entry list \<Rightarrow> string \<Rightarrow> gr_entry res" where
  "getgrnam db name = (case find (\<lambda>e. name = gr_name e) db of None \<Rightarrow> Inl KeyError | Some e \<Rightarrow> Inr e)"

definition getgrgid :: "gr_entry list \<Rightarrow> int \<Rightarrow> gr_entry res" where
  "getgrgid db gid = (case find (\<lambda>e. gid = gr_gid e) db of None \<Rightarrow> Inl KeyError | Some e \<Rightarrow> Inr e)"

subsection \<open>Logins\<close>

text \<open>
  What every session reads: the texts of \<open>/etc/passwd\<close> and \<open>/etc/group\<close>, the generator, the two
  options of \<open>[ssh]\<close>, and the loaded file system with the files of \<open>honeyfs\<close>.
\<close>

record site =
  etc_passwd :: string
  etc_group :: "string option"
  rng :: random_source
  sftp_enabled :: bool
  forwarding :: bool
  pickle :: filesystem
  contents_path :: string
  honeyfs_files :: "string list"

datatype channel_class = HoneyPotSSHSession | OpenConnectForwardingClient

record avatar =
  av_username :: string
  av_temporary :: bool
  av_uid :: int
  av_gid :: int
  av_home :: string
  av_subsystems :: "string list"
  av_channels :: "(string \<times> channel_class) list"

definition login_entry :: "site \<Rightarrow> string \<Rightarrow> nat \<Rightarrow> (pw_entry \<times> bool) \<times> nat" where
  "login_entry st name g =
     (case getpwnam (load_passwd (etc_passwd st)) name of
        Inr e \<Rightarrow> ((e, False), g)
      | Inl _ \<Rightarrow>
          let ((_, e), g1) = setpwentry (rng st) (load_passwd (etc_passwd st)) name g in ((e, True), g1))"

definition cowrie_user :: "site \<Rightarrow> string \<Rightarrow> nat \<Rightarrow> (nat, avatar) sres" where
  "cowrie_user st username g =
     (case py_decode username of
        Inl e \<Rightarrow> (g, Inl e)
      | Inr name \<Rightarrow>
       let ((e, temporary), g1) = login_entry st name g
       in (g1, Inr \<lparr>av_username = name, av_temporary = temporary, av_uid = pw_uid e, av_gid = pw_gid e,
               av_home = pw_dir e, av_subsystems = (if sftp_enabled st then [''sftp''] else []),
               av_channels = (''session'', HoneyPotSSHSession)
                 # (if forwarding st then [(''direct-tcpip'', OpenConnectForwardingClient)] else [])\<rparr>))"

text \<open>\<open>lookupChannel\<close>: no class is the answer \<open>ConchError\<close>, unknown channel type.\<close>

definition lookup_channel :: "avatar \<Rightarrow> string \<Rightarrow> channel_class option" where
  "lookup_channel av channelType = map_of (av_channels av) channelType"

text \<open>\<open>HoneyPotFilesystem(arch, home)\<close>: the file is read each time; an error while the files of
  \<open>honeyfs\<close> are attached ends that loop only. The files of the host are those of now.\<close>

definition load_filesystem :: "site \<Rightarrow> string \<Rightarrow> string \<Rightarrow> (string \<rightharpoonup> string) \<Rightarrow> filesystem" where
  "load_filesystem st ar hm dk =
     fst (init_honeyfs (contents_path st) (honeyfs_files st)
       ((pickle st)\<lparr>arch := ar, home := hm, tempfiles := [], filenames := [], newcount := 0, disk := dk\<rparr>))"

subsection \<open>The virtual server and the sessions\<close>

record server =
  server_fs :: "filesystem option"
  server_arch :: string
  host_disk :: "string \<rightharpoonup> string"

text \<open>The files of the host as they are: the file system of the server writes them too. The list of processes
  that is read along with the file system is not part of the model.\<close>

definition host_files :: "server \<Rightarrow> (string \<rightharpoonup> string)" where
  "host_files sv = (case server_fs sv of None \<Rightarrow> host_disk sv | Some fs \<Rightarrow> disk fs)"

definition init_file_system :: "site \<Rightarrow> string \<Rightarrow> server \<Rightarrow> server" where
  "init_file_system st hm sv = sv\<lparr>server_fs := Some (load_filesystem st (server_arch sv) hm (host_files sv))\<rparr>"

definition session_path :: "int \<Rightarrow> string" where
  "session_path uid =
     (if uid = 0 then ''/usr/local/sbin:/usr/local/bin:/usr/sbin:/usr/bin:/sbin:/bin''
      else ''/usr/local/bin:/usr/bin:/bin:/usr/local/games:/usr/games'')"

text \<open>\<open>str(n)\<close> of an integer.\<close>

definition str_int :: "int \<Rightarrow> string" where
  "str_int n = (if n < 0 then CHR ''-'' # digits_of_nat (nat (- n)) else digits_of_nat (nat n))"

definition ssh_environ :: "avatar \<Rightarrow> (string \<times> string) list" where
  "ssh_environ av =
     [(''HOME'', av_home av), (''LOGNAME'', av_username av), (''SHELL'', ''/bin/bash''), (''SHLVL'', ''1''),
      (''TMOUT'', ''1800''), (''UID'', str_int (av_uid av)), (''USER'', av_username av),
      (''PATH'', session_path (av_uid av))]"

text \<open>\<open>SSHSessionForCowrieUser\<close>: a user of no line gets a home. The mode is the decimal 755 of the source.\<close>

definition ssh_session :: "site \<Rightarrow> rat \<Rightarrow> avatar \<Rightarrow> server \<Rightarrow> (server, (string \<times> string) list) sres" where
  "ssh_session st now av sv =
     (let sv1 = init_file_system st (av_home av) sv
      in case server_fs sv1 of
           None \<Rightarrow> (sv1, Inl AttributeError)
         | Some fs \<Rightarrow>
             if av_temporary av
             then (case mkdir (av_home av) (av_uid av) (av_gid av) 4096 755 now fs of
                     (fs1, Inl e) \<Rightarrow> (sv1\<lparr>server_fs := Some fs1\<rparr>, Inl e)
                   | (fs1, Inr _) \<Rightarrow> (sv1\<lparr>server_fs := Some fs1\<rparr>, Inr (ssh_environ av)))
             else (sv1, Inr (ssh_environ av)))"

record telnet_account =
  ta_username :: string
  ta_uid :: int
  ta_gid :: int
  ta_home :: string
  ta_environ :: "(string \<times> string) list"

definition telnet_account_of :: "site \<Rightarrow> string \<Rightarrow> telnet_account res" where
  "telnet_account_of st username =
     rbind (py_decode username) (\<lambda>name.
       let (uid, gid, hm) = (case getpwnam (load_passwd (etc_passwd st)) name of
              Inr e \<Rightarrow> (pw_uid e, pw_gid e, pw_dir e)
            | Inl _ \<Rightarrow> (1001, 1001, ''/home''))
       in Inr \<lparr>ta_username = name, ta_uid = uid, ta_gid = gid, ta_home = hm,
               ta_environ = [(''LOGNAME'', name), (''USER'', name), (''SHELL'', ''/bin/bash''), (''HOME'', hm),
                 (''TMOUT'', ''1800''), (''PATH'', session_path uid)]\<rparr>)"

definition telnet_session :: "site \<Rightarrow> string \<Rightarrow> server \<Rightarrow> (server, telnet_account) sres" where
  "telnet_session st username sv =
     (case telnet_account_of st username of
        Inl e \<Rightarrow> (sv, Inl e)
      | Inr a \<Rightarrow> (init_file_system st (ta_home a) sv, Inr a))"

end
