(* ===== verification/Prelude_Paths.thy ===== *)
theory Prelude_Paths
  imports Vfs_Props
begin

section \<open>Paths of the host\<close>

text \<open>
  What the code uses of \<open>os.path\<close> beyond \<open>dirname\<close> and \<open>basename\<close>: joining, and the normal form of
  a path, with what holds of absolute paths.
\<close>

text \<open>\<open>os.path.join\<close>, \<open>os.path.normpath\<close> and \<open>os.path.abspath\<close>.\<close>

definition os_join :: "string \<Rightarrow> string \<Rightarrow> string" where
  "os_join a b =
     (if starts_with b ''/'' then b
      else if a = [] \<or> last a = CHR ''/'' then a @ b
      else a @ ''/'' @ b)"

definition leading_slashes :: "string \<Rightarrow> nat" where
  "leading_slashes p =
     (if starts_with p ''//'' \<and> \<not> starts_with p ''///'' then 2 else if starts_with p ''/'' then 1 else 0)"

fun norm_comps :: "bool \<Rightarrow> string list \<Rightarrow> string list \<Rightarrow> string list" where
  "norm_comps rooted [] new_comps = new_comps"
| "norm_comps rooted (piece # comps) new_comps =
     (if piece = [] \<or> piece = ''.'' then norm_comps rooted comps new_comps
      else if piece \<noteq> ''..'' \<or> (\<not> rooted \<and> new_comps = []) \<or> (new_comps \<noteq> [] \<and> last new_comps = ''..'')
      then norm_comps rooted comps (new_comps @ [piece])
      else norm_comps rooted comps (butlast new_comps))"

definition normpath :: "string \<Rightarrow> string" where
  "normpath p =
     (if p = [] then ''.''
      else let n = leading_slashes p;
               r = replicate n (CHR ''/'') @ join_with ''/'' (norm_comps (n > 0) (split_on (CHR ''/'') p) [])
           in if r = [] then ''.'' else r)"

definition abspath :: "string \<Rightarrow> string \<Rightarrow> string" where
  "abspath cwd p = normpath (if starts_with p ''/'' then p else os_join cwd p)"

subsection \<open>Absolute paths\<close>

lemma norm_comps_rooted: "''..'' \<notin> set cs \<Longrightarrow> norm_comps True ps cs = resolve_pieces ps cs"
proof (induction ps arbitrary: cs)
  case (Cons p ps)
  have "''..'' \<notin> set (butlast cs)" using Cons.prems by (auto dest: in_set_butlastD)
  moreover have "cs \<noteq> [] \<Longrightarrow> last cs \<noteq> ''..''" using Cons.prems by (metis last_in_set)
  ultimately show ?case using Cons by auto
qed simp

text \<open>What an absolute path becomes: pieces that are neither empty nor dots, after one slash or two.\<close>

definition rooted_path :: "nat \<Rightarrow> string list \<Rightarrow> string" where
  "rooted_path n ps = replicate n (CHR ''/'') @ join_with ''/'' ps"

lemma leading_rooted: "starts_with p ''/'' \<Longrightarrow> leading_slashes p = 1 \<or> leading_slashes p = 2"
  by (simp add: leading_slashes_def)

lemma normpath_rooted:
  assumes "starts_with p ''/''"
  shows "normpath p = rooted_path (leading_slashes p) (resolve_pieces (split_on (CHR ''/'') p) [])"
proof -
  have "p \<noteq> []" using assms by auto
  then show ?thesis
    using leading_rooted [OF assms] norm_comps_rooted [of "[]" "split_on (CHR ''/'') p"]
    by (auto simp: normpath_def rooted_path_def)
qed

lemma join_head:
  assumes "\<forall>x \<in> set ps. good_piece x"
  shows "\<not> starts_with (join_with ''/'' ps) ''/''"
proof (cases ps)
  case (Cons x xs)
  obtain c cs where "x = c # cs" "c \<noteq> CHR ''/''"
    using assms Cons by (cases x) (auto simp: good_piece_def)
  then show ?thesis using Cons by (cases xs) simp_all
qed simp

lemma split_rooted:
  assumes "\<forall>x \<in> set ps. good_piece x"
  shows "resolve_pieces (split_on (CHR ''/'') (replicate n (CHR ''/'') @ join_with ''/'' ps)) [] = ps"
proof (induction n)
  case 0
  have "\<forall>x \<in> set ps. CHR ''/'' \<notin> set x" using assms by (simp add: good_piece_def)
  then have "split_on (CHR ''/'') (join_with ''/'' ps) = (if ps = [] then [[]] else ps)"
    using split_on_join [of ps "CHR ''/''"] by simp
  then show ?case using resolve_pieces_id [OF assms] by simp
qed simp

lemma normpath_id:
  assumes "\<forall>x \<in> set ps. good_piece x" "n = 1 \<or> n = 2"
  shows "normpath (rooted_path n ps) = rooted_path n ps"
proof -
  have "\<not> starts_with (join_with ''/'' ps) ''/''" by (rule join_head [OF assms(1)])
  then have "leading_slashes (rooted_path n ps) = n" "starts_with (rooted_path n ps) ''/''"
    using assms(2) by (cases "join_with ''/'' ps"; auto simp: leading_slashes_def rooted_path_def numeral_2_eq_2)+
  then show ?thesis using split_rooted [OF assms(1), of n] normpath_rooted by (simp add: rooted_path_def)
qed

lemma os_join_rooted: "starts_with a ''/'' \<Longrightarrow> starts_with (os_join a b) ''/''"
  by (cases a) (auto simp: os_join_def)

lemma split_on_chars: "x \<in> set (split_on c p) \<Longrightarrow> set x \<subseteq> set p"
  by (induction p arbitrary: x) (fastforce split: if_splits list.splits)+

lemma resolve_chars: "x \<in> set (resolve_pieces ps cs) \<Longrightarrow> x \<in> set ps \<or> x \<in> set cs"
proof (induction ps arbitrary: cs)
  case (Cons p ps)
  from Cons.prems Cons.IH [of "[]"] Cons.IH [of "butlast cs"] Cons.IH [of cs] Cons.IH [of "cs @ [p]"]
  show ?case by (auto dest: in_set_butlastD split: if_splits)
qed simp

lemma join_chars: "set (join_with sep ps) \<subseteq> set sep \<union> \<Union> (set ` set ps)"
  by (induction sep ps rule: join_with.induct) auto

lemma rooted_chars:
  assumes "c \<in> set (rooted_path n (resolve_pieces ps []))"
  shows "c = CHR ''/'' \<or> (\<exists>x \<in> set ps. c \<in> set x)"
proof -
  from assms have "c = CHR ''/'' \<or> c \<in> set (join_with ''/'' (resolve_pieces ps []))"
    by (auto simp: rooted_path_def)
  then have "c = CHR ''/'' \<or> (\<exists>x \<in> set (resolve_pieces ps []). c \<in> set x)"
    using join_chars [of "''/''" "resolve_pieces ps []"] by auto
  then show ?thesis using resolve_chars [of _ ps "[]"] by auto
qed

end
