(* ===== verification/Sftp_Server.thy ===== *)
theory Sftp_Server
  imports Passwd_Db Tty_Log Vfs_Main Prelude_Paths
begin

section \<open>The SFTP server of the honeypot\<close>

text \<open>
  \<open>shell/filetransfer.py\<close>: files, directories and requests of an SFTP session, on the virtual files.
  A file opened for writing is a file of the host too, written at the offsets the client names. The state
  is the virtual file system, the descriptors the host has given out, and the open files by handle. A
  descriptor keeps its file when that is renamed; \<open>None\<close> is a descriptor whose file has no name any more.
  Handles are those of the library's server, which calls one method at a time.
\<close>

unbundle bit_operations_syntax

subsection \<open>Paths\<close>

text \<open>\<open>nativeString\<close>: of bytes and of text, only ASCII is accepted.\<close>

definition native_bytes :: "string \<Rightarrow> string res" where
  "native_bytes s = (if is_ascii s then Inr s else Inl UnicodeDecodeError)"

definition native_text :: "string \<Rightarrow> string res" where
  "native_text s = (if is_ascii s then Inr s else Inl UnicodeEncodeError)"

text \<open>\<open>_absPath\<close>; the path comes from the wire, the home from the account.\<close>

definition sftp_path :: "string \<Rightarrow> string \<Rightarrow> string \<Rightarrow> string res" where
  "sftp_path cwd hm path =
     rbind (native_text hm) (\<lambda>h. rbind (native_bytes path) (\<lambda>p. Inr (abspath cwd (os_join h p))))"

subsection \<open>Flags and attributes\<close>

definition FXF_READ :: int where "FXF_READ = 1"
definition FXF_WRITE :: int where "FXF_WRITE = 2"
definition FXF_APPEND :: int where "FXF_APPEND = 4"
definition FXF_CREAT :: int where "FXF_CREAT = 8"
definition FXF_TRUNC :: int where "FXF_TRUNC = 16"
definition FXF_EXCL :: int where "FXF_EXCL = 32"

definition O_WRONLY :: int where "O_WRONLY = 1"
definition O_RDWR :: int where "O_RDWR = 2"
definition O_CREAT :: int where "O_CREAT = 64"
definition O_EXCL :: int where "O_EXCL = 128"
definition O_TRUNC :: int where "O_TRUNC = 512"
definition O_APPEND :: int where "O_APPEND = 1024"

lemmas sftp_consts = FXF_READ_def FXF_WRITE_def FXF_APPEND_def FXF_CREAT_def FXF_TRUNC_def FXF_EXCL_def
  O_WRONLY_def O_RDWR_def O_CREAT_def O_EXCL_def O_TRUNC_def O_APPEND_def

definition has_flag :: "int \<Rightarrow> int \<Rightarrow> bool" where
  "has_flag flags f \<longleftrightarrow> flags AND f = f"

definition also_flag :: "int \<Rightarrow> int \<Rightarrow> int \<Rightarrow> int \<Rightarrow> int" where
  "also_flag flags f o_flag openFlags = (if has_flag flags f then openFlags OR o_flag else openFlags)"

definition open_flags :: "int \<Rightarrow> int" where
  "open_flags flags =
     (let o1 = (if has_flag flags FXF_WRITE \<and> flags AND FXF_READ = 0 then O_WRONLY else 0);
          o2 = (if has_flag flags FXF_WRITE \<and> has_flag flags FXF_READ then O_RDWR else o1)
      in also_flag flags FXF_EXCL O_EXCL (also_flag flags FXF_TRUNC O_TRUNC
           (also_flag flags FXF_CREAT O_CREAT (also_flag flags FXF_APPEND O_APPEND o2))))"

text \<open>Attributes as the library hands them over; values of extensions are not looked at.\<close>

type_synonym attrs = "(string \<times> int) list"

definition pair_attrs :: "attrs \<Rightarrow> string \<Rightarrow> string \<Rightarrow> (int \<times> int) option" where
  "pair_attrs a k l =
     (case (map_of a k, map_of a l) of (Some x, Some y) \<Rightarrow> Some (x, y) | _ \<Rightarrow> None)"

definition set_attrs :: "string \<Rightarrow> attrs \<Rightarrow> filesystem \<Rightarrow> (filesystem, unit) sres" where
  "set_attrs path a s =
     sbind (case pair_attrs a ''uid'' ''gid'' of None \<Rightarrow> (s, Inr ()) | Some (u, g) \<Rightarrow> chown path u g s) (\<lambda>s1 _.
     sbind (case map_of a ''permissions'' of None \<Rightarrow> (s1, Inr ()) | Some m \<Rightarrow> chmod path m s1) (\<lambda>s2 _.
       case pair_attrs a ''atime'' ''mtime'' of
         None \<Rightarrow> (s2, Inr ())
       | Some (_, mt) \<Rightarrow> utime path (rat_of_int mt) s2))"

definition get_attrs :: "statobj \<Rightarrow> attrs" where
  "get_attrs s =
     [(''size'', st_size s), (''uid'', st_uid s), (''gid'', st_gid s), (''permissions'', st_mode s),
      (''atime'', py_int (st_atime s)), (''mtime'', py_int (st_mtime s))]"

subsection \<open>Open files\<close>

record sftp_file =
  sf_name :: string
  sf_received :: int
  sf_fd :: "int option"
  sf_flags :: int
  sf_pos :: nat
  sf_contents :: "string option"

record sftp_dir =
  dr_files :: "string list"
  dr_dir :: string

record sftp_session =
  vfs :: filesystem
  descs :: "(int \<times> string option) list"
  files :: "(nat \<times> sftp_file) list"
  dirs :: "(nat \<times> sftp_dir) list"

text \<open>The host, and what the configuration says.\<close>

record sftp_host =
  site_of :: site
  user_home :: string
  work_dir :: string
  os_open :: host_open
  dl_path :: string
  received_limit :: int
  max_offset :: int
  sha256_hex :: "string \<Rightarrow> string"
  arch_data :: "string \<Rightarrow> string"
  ls_line :: "string \<Rightarrow> statobj \<Rightarrow> string \<Rightarrow> string \<Rightarrow> string"

definition upd_vfs :: "filesystem \<Rightarrow> sftp_session \<Rightarrow> sftp_session" where
  "upd_vfs f s = s\<lparr>vfs := f\<rparr>"

text \<open>An operation of the file system in the session.\<close>

definition on_vfs :: "(filesystem \<Rightarrow> (filesystem, 'a) sres) \<Rightarrow> sftp_session \<Rightarrow> (sftp_session, 'a) sres" where
  "on_vfs f s = (let (v, r) = f (vfs s) in (upd_vfs v s, r))"

text \<open>
  \<open>CowrieSFTPFile(self, filename, flags, attrs)\<close>: \<open>stamp\<close> is the time in the name of the host file.
  The permissions are taken out of the attributes first; other attributes are set by path.
\<close>

definition path_set_attrs :: "sftp_host \<Rightarrow> string \<Rightarrow> attrs \<Rightarrow> filesystem \<Rightarrow> (filesystem, unit) sres" where
  "path_set_attrs h path a s =
     (case sftp_path (work_dir h) (user_home h) path of
        Inl e \<Rightarrow> (s, Inl e)
      | Inr p \<Rightarrow> set_attrs p a s)"

definition open_mode :: "attrs \<Rightarrow> int" where
  "open_mode a = (case map_of a ''permissions'' of None \<Rightarrow> 511 | Some m \<Rightarrow> m)"

definition open_sftp_file ::
  "sftp_host \<Rightarrow> string \<Rightarrow> rat \<Rightarrow> string \<Rightarrow> int \<Rightarrow> attrs \<Rightarrow> sftp_session \<Rightarrow> (sftp_session, sftp_file) sres" where
  "open_sftp_file h stamp now filename flags a s =
     (let mode = open_mode a; a' = AList.delete ''permissions'' a
      in case fs_open (os_open h) (dl_path h) stamp now filename (open_flags flags) mode (vfs s) of
           (v, Inl e) \<Rightarrow> (upd_vfs v s, Inl e)
         | (v, Inr fd) \<Rightarrow>
             let d = (case fd of None \<Rightarrow> descs s
                      | Some n \<Rightarrow> AList.update n (map_of (tempfiles v) n) (descs s));
                 s1 = s\<lparr>vfs := v, descs := d\<rparr>
             in sbind (if a' = [] then (s1, Inr ()) else on_vfs (path_set_attrs h filename a') s1) (\<lambda>s2 _.
                let f = \<lparr>sf_name = filename, sf_received = 0, sf_fd = fd, sf_flags = open_flags flags, sf_pos = 0, sf_contents = None\<rparr>
                in if has_flag flags FXF_READ
                   then (case file_contents (arch_data h) (vfs s2) filename of
                           Inl e \<Rightarrow> (s2, Inl e)
                         | Inr b \<Rightarrow> (s2, Inr (f\<lparr>sf_contents := Some b\<rparr>)))
                   else (s2, Inr f)))"

subsection \<open>Reading and writing\<close>

definition read_chunk :: "sftp_file \<Rightarrow> nat \<Rightarrow> nat \<Rightarrow> string res" where
  "read_chunk f offset len =
     (case sf_contents f of None \<Rightarrow> Inl AttributeError | Some b \<Rightarrow> Inr (take len (drop offset b)))"

text \<open>\<open>os.write(fd, data)\<close> at a position, with \<open>O_APPEND\<close> at the end.\<close>

definition os_write :: "sftp_host \<Rightarrow> int \<Rightarrow> int \<Rightarrow> nat \<Rightarrow> string \<Rightarrow> sftp_session \<Rightarrow> (sftp_session, unit) sres" where
  "os_write h n flags offset d s =
     (case map_of (descs s) n of
        None \<Rightarrow> (s, Inl (OSError ''EBADF''))
      | Some None \<Rightarrow> (s, Inr ())
      | Some (Some p) \<Rightarrow>
          let b = (case disk (vfs s) p of None \<Rightarrow> [] | Some b \<Rightarrow> b);
              off = (if has_flag flags O_APPEND then length b else offset)
          in if d \<noteq> [] \<and> int (off + length d) > max_offset h then (s, Inl (OSError ''EFBIG''))
             else (upd_vfs ((vfs s)\<lparr>disk := (disk (vfs s))(p \<mapsto> put_at off d b)\<rparr>) s, Inr ()))"

text \<open>\<open>lseek\<close> and \<open>write\<close> of the file system: without a descriptor the write fails, and descriptor 0 is not
  positioned, so that it goes on where the last write ended. An offset of 64 bits may be too large for the
  call, or for the file.\<close>

definition seek_write :: "sftp_host \<Rightarrow> sftp_file \<Rightarrow> nat \<Rightarrow> string \<Rightarrow> sftp_session \<Rightarrow> (sftp_session, unit) sres" where
  "seek_write h f offset d s =
     (case sf_fd f of
        None \<Rightarrow> (s, Inl TypeError)
      | Some n \<Rightarrow>
          if n = 0 then os_write h n (sf_flags f) (sf_pos f) d s
          else if offset \<ge> 2 ^ 63 then (s, Inl OverflowError)
          else if map_of (descs s) n = None then (s, Inl (OSError ''EBADF''))
          else if int offset > max_offset h then (s, Inl (OSError ''EINVAL''))
          else os_write h n (sf_flags f) offset d s)"

definition write_chunk ::
  "sftp_host \<Rightarrow> nat \<Rightarrow> string \<Rightarrow> sftp_file \<Rightarrow> sftp_session \<Rightarrow> sftp_file \<times> (sftp_session, unit) sres" where
  "write_chunk h offset d f s =
     (let f' = f\<lparr>sf_received := sf_received f + int (length d)\<rparr>
      in if received_limit h \<noteq> 0 \<and> sf_received f' > received_limit h then (f', (s, Inl SFTPError))
         else case seek_write h f' offset d s of
                (s', Inl e) \<Rightarrow> (f', (s', Inl e))
              | (s', Inr _) \<Rightarrow> (f'\<lparr>sf_pos := sf_pos f' + length d\<rparr>, (s', Inr ())))"

text \<open>\<open>getAttrs\<close> of an open file calls the server without its second argument.\<close>

definition file_get_attrs :: "rat \<Rightarrow> sftp_file \<Rightarrow> sftp_session \<Rightarrow> attrs res" where
  "file_get_attrs now f s = rbind (stat now (vfs s) (sf_name f) True) (\<lambda>_. Inl TypeError)"

definition file_set_attrs :: "sftp_file \<Rightarrow> attrs \<Rightarrow> unit res" where
  "file_set_attrs f a = Inl NotImplementedError"

text \<open>Closing stores the host file under its hash; other descriptors follow it.\<close>

definition follow_store :: "string \<Rightarrow> string option \<Rightarrow> (int \<times> string option) list \<Rightarrow> (int \<times> string option) list" where
  "follow_store tmp new ds = map (\<lambda>(n, p). (n, if p = Some tmp then new else p)) ds"

definition close_descs :: "sftp_host \<Rightarrow> int option \<Rightarrow> filesystem \<Rightarrow> (int \<times> string option) list \<Rightarrow> (int \<times> string option) list" where
  "close_descs h fd v ds =
     (case fd of
        None \<Rightarrow> ds
      | Some n \<Rightarrow>
          if n = 0 then ds
          else case rbind (dict_get (tempfiles v) n) (\<lambda>tmp. rbind (read_bytes v tmp) (\<lambda>b. Inr (tmp, b))) of
            Inl _ \<Rightarrow> ds
          | Inr (tmp, b) \<Rightarrow>
              let sha = dl_path h @ ''/'' @ sha256_hex h b
              in follow_store tmp (if disk v sha \<noteq> None then None else Some sha) ds)"

definition close_file :: "sftp_host \<Rightarrow> sftp_file \<Rightarrow> sftp_session \<Rightarrow> (sftp_session, unit) sres" where
  "close_file h f s =
     sbind (if sf_received f > 0 then on_vfs (update_size (sf_name f) (sf_received f)) s else (s, Inr ())) (\<lambda>s1 _.
       case fs_close (sha256_hex h) (dl_path h) (sf_fd f) (vfs s1) of
         (v, r) \<Rightarrow>
           let ds = close_descs h (sf_fd f) (vfs s1) (descs s1);
               ds' = (case (r, sf_fd f) of (Inr _, Some n) \<Rightarrow> if n = 0 then ds else AList.delete n ds | _ \<Rightarrow> ds)
           in (s1\<lparr>vfs := v, descs := ds'\<rparr>, r))"

subsection \<open>Directories\<close>

definition open_sftp_dir :: "filesystem \<Rightarrow> string \<Rightarrow> sftp_dir res" where
  "open_sftp_dir s directory =
     rbind (listdir s directory) (\<lambda>names. Inr \<lparr>dr_files = ''.'' # ''..'' # names, dr_dir = directory\<rparr>)"

text \<open>The names of owner and group are looked up for each entry, and have to be in the files.\<close>

definition owner_names :: "site \<Rightarrow> statobj \<Rightarrow> (string \<times> string) res" where
  "owner_names st s =
     rbind (getpwuid (load_passwd (etc_passwd st)) (st_uid s)) (\<lambda>u.
     rbind (load_group (etc_group st)) (\<lambda>db.
     rbind (getgrgid db (st_gid s)) (\<lambda>g. Inr (pw_name u, gr_name g))))"

definition sftp_parent :: "string \<Rightarrow> string" where
  "sftp_parent d = ''/'' @ join_with ''/'' (butlast (split_on (CHR ''/'') (strip_space d)))"

definition entry_path :: "string \<Rightarrow> string \<Rightarrow> string" where
  "entry_path d f = (if f = ''..'' then sftp_parent d else if f = ''.'' then d else os_join d f)"

text \<open>\<open>__next__\<close>: \<open>None\<close> is the end. The name is taken off before anything can fail.\<close>

definition dir_next ::
  "sftp_host \<Rightarrow> rat \<Rightarrow> filesystem \<Rightarrow> sftp_dir \<Rightarrow> sftp_dir \<times> (string \<times> string \<times> attrs) option res" where
  "dir_next h now s d =
     (case dr_files d of
        [] \<Rightarrow> (d, Inr None)
      | f # fs \<Rightarrow>
          (d\<lparr>dr_files := fs\<rparr>,
           rbind (lstat now s (entry_path (dr_dir d) f)) (\<lambda>st.
           rbind (owner_names (site_of h) st) (\<lambda>(user, group).
             Inr (Some (f, ls_line h f st user group, get_attrs st))))))"

definition close_dir :: "sftp_dir \<Rightarrow> sftp_dir" where
  "close_dir d = d\<lparr>dr_files := []\<rparr>"

subsection \<open>Requests\<close>

datatype sftp_request =
    OpenFile nat string int attrs | CloseFile nat | ReadChunk nat nat nat | WriteChunk nat nat string
  | FileGetAttrs nat | FileSetAttrs nat attrs
  | RemoveFile string | RenameFile string string | MakeDirectory string attrs | RemoveDirectory string
  | OpenDirectory nat string | NextEntry nat | CloseDirectory nat
  | GetAttrs string bool | SetAttrs string attrs | ReadLink string | MakeLink string string | RealPath string
  | ExtendedRequest

datatype sftp_reply =
    Done | Removed bool | Chunk string | Attrs attrs | Target "string option" | Path string
  | Entry "(string \<times> string \<times> attrs) option"

abbreviation abs_in :: "sftp_host \<Rightarrow> string \<Rightarrow> string res" where
  "abs_in h p \<equiv> sftp_path (work_dir h) (user_home h) p"

text \<open>An operation of the file system on one path, and on a path that comes from the client.\<close>

definition at_path ::
  "sftp_host \<Rightarrow> string \<Rightarrow> (string \<Rightarrow> filesystem \<Rightarrow> (filesystem, sftp_reply) sres) \<Rightarrow> sftp_session \<Rightarrow> (sftp_session, sftp_reply) sres" where
  "at_path h path f s = (case abs_in h path of Inl e \<Rightarrow> (s, Inl e) | Inr p \<Rightarrow> on_vfs (f p) s)"

definition replying :: "('a \<Rightarrow> sftp_reply) \<Rightarrow> (filesystem, 'a) sres \<Rightarrow> (filesystem, sftp_reply) sres" where
  "replying g m = sbind m (\<lambda>s x. (s, Inr (g x)))"

abbreviation quietly :: "(filesystem, 'a) sres \<Rightarrow> (filesystem, sftp_reply) sres" where
  "quietly \<equiv> replying (\<lambda>_. Done)"

text \<open>A method of an open file; the library refuses a handle it has not given out.\<close>

definition with_handle :: "('k \<times> 'f) list \<Rightarrow> 'k \<Rightarrow> ('f \<Rightarrow> (sftp_session, sftp_reply) sres) \<Rightarrow> sftp_session \<Rightarrow> (sftp_session, sftp_reply) sres" where
  "with_handle fs k f s = (case map_of fs k of None \<Rightarrow> (s, Inl KeyError) | Some x \<Rightarrow> f x)"

definition make_directory :: "rat \<Rightarrow> attrs \<Rightarrow> string \<Rightarrow> filesystem \<Rightarrow> (filesystem, unit) sres" where
  "make_directory now a p s = sbind (mkdir2 now p s) (\<lambda>s1 _. set_attrs p a s1)"

fun serve :: "sftp_host \<Rightarrow> string \<Rightarrow> rat \<Rightarrow> sftp_request \<Rightarrow> sftp_session \<Rightarrow> (sftp_session, sftp_reply) sres" where
  "serve h stamp now (OpenFile k path flags a) s =
     (case abs_in h path of
        Inl e \<Rightarrow> (s, Inl e)
      | Inr p \<Rightarrow> sbind (open_sftp_file h stamp now p flags a s) (\<lambda>s1 f.
          (s1\<lparr>files := AList.update k f (files s1)\<rparr>, Inr Done)))"
| "serve h stamp now (CloseFile k) s = with_handle (files s) k (\<lambda>f.
     sbind (close_file h f s) (\<lambda>s1 _. (s1\<lparr>files := AList.delete k (files s1)\<rparr>, Inr Done))) s"
| "serve h stamp now (ReadChunk k offset len) s = with_handle (files s) k (\<lambda>f.
     (s, rbind (read_chunk f offset len) (\<lambda>b. Inr (Chunk b)))) s"
| "serve h stamp now (WriteChunk k offset d) s = with_handle (files s) k (\<lambda>f.
     (case write_chunk h offset d f s of
        (f', (s1, r)) \<Rightarrow> (s1\<lparr>files := AList.update k f' (files s1)\<rparr>, rbind r (\<lambda>_. Inr Done)))) s"
| "serve h stamp now (FileGetAttrs k) s = with_handle (files s) k (\<lambda>f.
     (s, rbind (file_get_attrs now f s) (\<lambda>a. Inr (Attrs a)))) s"
| "serve h stamp now (FileSetAttrs k a) s = with_handle (files s) k (\<lambda>f.
     (s, rbind (file_set_attrs f a) (\<lambda>_. Inr Done))) s"
| "serve h stamp now (RemoveFile path) s = at_path h path (\<lambda>p v. quietly (fs_remove p v)) s"
| "serve h stamp now (RenameFile old new) s =
     (case rbind (abs_in h old) (\<lambda>p. rbind (abs_in h new) (\<lambda>q. Inr (p, q))) of
        Inl e \<Rightarrow> (s, Inl e)
      | Inr (p, q) \<Rightarrow> on_vfs (\<lambda>v. quietly (rename p q v)) s)"
| "serve h stamp now (MakeDirectory path a) s = at_path h path (\<lambda>p v. quietly (make_directory now a p v)) s"
| "serve h stamp now (RemoveDirectory path) s = at_path h path (\<lambda>p v. replying Removed (rmdir p v)) s"
| "serve h stamp now (OpenDirectory k path) s =
     (case rbind (abs_in h path) (open_sftp_dir (vfs s)) of
        Inl e \<Rightarrow> (s, Inl e)
      | Inr d \<Rightarrow> (s\<lparr>dirs := AList.update k d (dirs s)\<rparr>, Inr Done))"
| "serve h stamp now (NextEntry k) s = with_handle (dirs s) k (\<lambda>d.
     (case dir_next h now (vfs s) d of
        (d', r) \<Rightarrow> (s\<lparr>dirs := AList.update k d' (dirs s)\<rparr>, rbind r (\<lambda>e. Inr (Entry e))))) s"
| "serve h stamp now (CloseDirectory k) s = with_handle (dirs s) k (\<lambda>d.
     (s\<lparr>dirs := AList.delete k (dirs s)\<rparr>, Inr Done)) s"
| "serve h stamp now (GetAttrs path followLinks) s = at_path h path (\<lambda>p v.
     (v, rbind (stat now v p followLinks) (\<lambda>st. Inr (Attrs (get_attrs st))))) s"
| "serve h stamp now (SetAttrs path a) s = at_path h path (\<lambda>p v. quietly (set_attrs p a v)) s"
| "serve h stamp now (ReadLink path) s = at_path h path (\<lambda>p v. replying Target (readlink p v)) s"
| "serve h stamp now (MakeLink linkPath targetPath) s =
     (s, rbind (abs_in h linkPath) (\<lambda>_. rbind (abs_in h targetPath) (\<lambda>_. Inl NotImplementedError)))"
| "serve h stamp now (RealPath path) s = (s, rbind (abs_in h path) (\<lambda>p. Inr (Path p)))"
| "serve h stamp now ExtendedRequest s = (s, Inl NotImplementedError)"

text \<open>\<open>SFTPServerForCowrieUser(avatar)\<close>: the file system is loaded again, with nothing open.\<close>

definition start_sftp :: "site \<Rightarrow> avatar \<Rightarrow> server \<Rightarrow> server \<times> sftp_session option" where
  "start_sftp st av sv =
     (let sv1 = init_file_system st (av_home av) sv
      in (sv1, map_option (\<lambda>fs. \<lparr>vfs = fs, descs = [], files = [], dirs = []\<rparr>) (server_fs sv1)))"

definition sftp_run :: "sftp_host \<Rightarrow> (string \<times> rat \<times> sftp_request) list \<Rightarrow> sftp_session \<Rightarrow> sftp_session" where
  "sftp_run h reqs s = foldl (\<lambda>s (stamp, now, req). fst (serve h stamp now req s)) s reqs"

end
