(* ===== verification/Passwd_Db_Props.thy ===== *)
theory Passwd_Db_Props
  imports Passwd_Db Vfs_Main
begin

section \<open>Properties of accounts and sessions\<close>

text \<open>
  The password file is read back as it is written, every user has an account and keeps it, a user of no
  line gets a home, and each session starts from the file system on disk, whatever happened before.
\<close>

unbundle bit_operations_syntax

subsection \<open>Reading the files\<close>

definition passwd_text :: "pw_entry \<Rightarrow> string" where
  "passwd_text e =
     join_with '':'' [pw_name e, pw_passwd e, digits_of_nat (nat (pw_uid e)), digits_of_nat (nat (pw_gid e)),
       (case pw_gecos e of Gecos g \<Rightarrow> g | Gecos_Zero \<Rightarrow> ''0''), pw_dir e, pw_shell e]"

definition plain_field :: "string \<Rightarrow> bool" where
  "plain_field x \<longleftrightarrow> CHR '':'' \<notin> set x \<and> line_feed \<notin> set x"

definition plain_entry :: "pw_entry \<Rightarrow> bool" where
  "plain_entry e \<longleftrightarrow>
     (\<forall>x \<in> {pw_name e, pw_passwd e, pw_dir e, pw_shell e}. plain_field x)
     \<and> (\<exists>g. pw_gecos e = Gecos g \<and> plain_field g)
     \<and> pw_name e \<noteq> [] \<and> \<not> is_space (hd (pw_name e)) \<and> hd (pw_name e) \<noteq> CHR ''#''
     \<and> (pw_shell e \<noteq> [] \<longrightarrow> \<not> is_space (last (pw_shell e)))
     \<and> 0 \<le> pw_uid e \<and> pw_uid e < 1000000000 \<and> 0 \<le> pw_gid e \<and> pw_gid e < 1000000000"

lemma digits_plain: "plain_field (digits_of_nat n)"
  using digits_all [of n] by (auto simp: plain_field_def list_all_iff is_digit_def Let_def)

lemma id_of_digits: "0 \<le> i \<Longrightarrow> i < 1000000000 \<Longrightarrow> id_of_text (digits_of_nat (nat i)) = i"
  using int_text_small [of "nat i"] by (simp add: id_of_text_def)

lemma passwd_text_plain:
  assumes "plain_entry e"
  shows "line_feed \<notin> set (passwd_text e)" "strip_space (passwd_text e) = passwd_text e"
    "\<not> skipped_line (passwd_text e)"
proof -
  obtain g where g: "pw_gecos e = Gecos g" "plain_field g" using assms by (auto simp: plain_entry_def)
  show "line_feed \<notin> set (passwd_text e)"
    using assms digits_plain g by (auto simp: plain_entry_def plain_field_def passwd_text_def)
  obtain c cs where n: "pw_name e = c # cs" "\<not> is_space c" "c \<noteq> CHR ''#''"
    using assms by (cases "pw_name e") (auto simp: plain_entry_def)
  have "\<not> is_space (last (passwd_text e))"
    using assms by (cases "pw_shell e = []") (auto simp: passwd_text_def plain_entry_def is_space_def)
  then show "strip_space (passwd_text e) = passwd_text e"
    using n unfolding strip_space_def by (intro strip_none) (simp add: passwd_text_def)
  show "\<not> skipped_line (passwd_text e)" using n by (simp add: skipped_line_def passwd_text_def)
qed

lemma passwd_line_text:
  assumes "plain_entry e"
  shows "passwd_line (passwd_text e) = Some e"
proof -
  obtain g where g: "pw_gecos e = Gecos g" "plain_field g" using assms by (auto simp: plain_entry_def)
  have f: "plain_field (pw_name e)" "plain_field (pw_passwd e)" "plain_field (pw_dir e)" "plain_field (pw_shell e)"
    using assms by (auto simp: plain_entry_def)
  have "split_on (CHR '':'') (passwd_text e)
      = [pw_name e, pw_passwd e, digits_of_nat (nat (pw_uid e)), digits_of_nat (nat (pw_gid e)), g, pw_dir e, pw_shell e]"
    unfolding passwd_text_def using f g digits_plain by (subst split_on_join) (auto simp: plain_field_def)
  then show ?thesis
    using passwd_text_plain [OF assms] assms g
    by (cases e) (simp add: passwd_line_def plain_entry_def id_of_digits)
qed

text \<open>The password file is read back: entries written a line each, fields separated by colons, are the
  entries that \<open>load\<close> gives, in their order.\<close>

theorem passwd_roundtrip:
  assumes "\<forall>e \<in> set es. plain_entry e"
  shows "load_passwd (join_with [line_feed] (map passwd_text es)) = es"
proof (cases "es = []")
  case True
  have "passwd_line [] = None" by code_simp
  with True show ?thesis by (simp add: load_passwd_def map_filter_def)
next
  case False
  have "split_on line_feed (join_with [line_feed] (map passwd_text es)) = map passwd_text es"
    using False assms passwd_text_plain(1) by (intro split_on_join) auto
  moreover have "List.map_filter passwd_line (map passwd_text es) = es"
    using assms by (induction es) (simp_all add: map_filter_def passwd_line_text)
  ultimately show ?thesis by (simp add: load_passwd_def)
qed

definition example_users :: "pw_entry list" where
  "example_users =
     [\<lparr>pw_name = ''root'', pw_passwd = ''x'', pw_uid = 0, pw_gid = 0, pw_gecos = Gecos ''root'',
       pw_dir = ''/root'', pw_shell = ''/bin/bash''\<rparr>,
      \<lparr>pw_name = ''phil'', pw_passwd = ''x'', pw_uid = 1000, pw_gid = 1000, pw_gecos = Gecos '''',
       pw_dir = ''/home/phil'', pw_shell = ''''\<rparr>]"

theorem passwd_roundtrip_witness:
  "load_passwd (join_with [line_feed] (map passwd_text example_users)) = example_users"
  by (rule passwd_roundtrip) (simp add: example_users_def plain_entry_def plain_field_def is_space_def)

text \<open>One line of the group file with a field too many and nobody's group can be found, while such a line
  of the password file is passed over.\<close>

lemma load_groups_strict:
  "is_ok (load_groups ls) \<longleftrightarrow> list_all (\<lambda>l. is_ok (group_line l)) ls"
proof (induction ls)
  case (Cons l ls)
  then show ?case by (cases "group_line l"; cases "load_groups ls") simp_all
qed simp

lemma bad_group_line:
  assumes "l \<in> set (split_on line_feed t)" "\<not> skipped_line (strip_space l)"
    "length (split_on (CHR '':'') (strip_space l)) \<noteq> 4"
  shows "\<not> is_ok (load_group (Some t))"
proof -
  have "group_line l = Inl ValueError"
    using assms(2,3) by (auto simp: group_line_def Let_def split: list.splits)
  then have "\<not> is_ok (group_line l)" by simp
  then show ?thesis
    using assms(1) unfolding load_group_def option.case load_groups_strict list_all_iff by blast
qed

lemma passwd_line_skipped:
  "length (split_on (CHR '':'') (strip_space l)) \<noteq> 7 \<Longrightarrow> passwd_line l = None"
  by (auto simp: passwd_line_def Let_def split: list.splits)

subsection \<open>Accounts\<close>

text \<open>What the generator promises: a number within the bounds, and that \<open>seed\<close> starts over.\<close>

definition draws_in_range :: "random_source \<Rightarrow> bool" where
  "draws_in_range R \<longleftrightarrow> (\<forall>lo hi g. lo \<le> hi \<longrightarrow> lo \<le> fst (randint R lo hi g) \<and> fst (randint R lo hi g) \<le> hi)"


lemma find_name: "find (\<lambda>e. pw_name e = n) db = Some e \<Longrightarrow> e \<in> set db \<and> pw_name e = n"
  by (auto simp: find_Some_iff)

text \<open>The ids of a user of no line: the first number after seeding with its name.\<close>

lemma login_entry_new:
  assumes "find (\<lambda>e. pw_name e = name) (load_passwd (etc_passwd st)) = None"
  shows "\<exists>e. fst (login_entry st name g) = (e, True) \<and> pw_name e = name \<and> pw_dir e = ''/home/'' @ name
    \<and> pw_gid e = pw_uid e \<and> pw_uid e = fst (randint (rng st) 1500 10000 (seed (rng st) (crc32 name) g))"
  using assms by (simp add: login_entry_def getpwnam_def setpwentry_def Let_def split: prod.split)

lemma cowrie_user_decoded:
  assumes "py_decode name = Inr name"
  shows "snd (cowrie_user st name g) = Inr \<lparr>av_username = name, av_temporary = snd (fst (login_entry st name g)),
      av_uid = pw_uid (fst (fst (login_entry st name g))), av_gid = pw_gid (fst (fst (login_entry st name g))),
      av_home = pw_dir (fst (fst (login_entry st name g))), av_subsystems = (if sftp_enabled st then [''sftp''] else []),
      av_channels = (''session'', HoneyPotSSHSession)
        # (if forwarding st then [(''direct-tcpip'', OpenConnectForwardingClient)] else [])\<rparr>"
  using assms by (simp add: cowrie_user_def Let_def split: prod.split)


definition example_site :: site where
  "example_site =
     \<lparr>etc_passwd = join_with [line_feed] (map passwd_text example_users), etc_group = Some ''root:x:0:'',
      
      rng = \<lparr>seed = (\<lambda>a g. nat a), randint = (\<lambda>lo hi g. (lo + int g mod (hi - lo + 1), Suc g))\<rparr>, sftp_enabled = True, forwarding = True, pickle = example_fs,
      contents_path = ''honeyfs'', honeyfs_files = []\<rparr>"


lemma example_eve: "py_decode ''eve'' = Inr ''eve''" "find (\<lambda>e. pw_name e = ''eve'') (load_passwd (etc_passwd example_site)) = None"
proof -
  show "py_decode ''eve'' = Inr ''eve''" by (rule py_decode_ascii) (simp add: is_ascii_def)
qed code_simp


text \<open>The ids of such an account are in no line of the password file, so nothing finds its name.\<close>

text \<open>What a temporary account has, whatever the generator does.\<close>

lemma temporary_account:
  assumes "cowrie_user st name g = (g', Inr av)" "av_temporary av"
  obtains n where "av_home av = ''/home/'' @ n" "py_decode name = Inr n"
    "av_uid av = fst (randint (rng st) 1500 10000 (seed (rng st) (crc32 n) g))"
proof -
  obtain n where n: "py_decode name = Inr n" using assms(1) by (auto simp: cowrie_user_def split: sum.splits)
  show ?thesis
  proof (cases "find (\<lambda>e. pw_name e = n) (load_passwd (etc_passwd st))")
    case None
    from login_entry_new [OF this, of g] n assms(1) show ?thesis
      by (intro that [of n]) (auto simp: cowrie_user_def Let_def split: prod.splits)
  next
    case (Some e)
    then have "login_entry st n g = ((e, False), g)" by (simp add: login_entry_def getpwnam_def)
    with n assms show ?thesis by (auto simp: cowrie_user_def)
  qed
qed

lemma temporary_uid_unknown:
  assumes "cowrie_user st name g = (g', Inr av)" "av_temporary av" "draws_in_range (rng st)"
    "\<forall>e \<in> set (load_passwd (etc_passwd st)). pw_uid e < 1500 \<or> 10000 < pw_uid e"
  shows "getpwuid (load_passwd (etc_passwd st)) (av_uid av) = Inl KeyError"
proof -
  obtain n where "av_uid av = fst (randint (rng st) 1500 10000 (seed (rng st) (crc32 n) g))"
    using temporary_account [OF assms(1,2)] by blast
  moreover have "(1500 :: int) \<le> 10000" by simp
  ultimately have "1500 \<le> av_uid av" "av_uid av \<le> 10000" using assms(3) unfolding draws_in_range_def by auto
  then have "find (\<lambda>e. av_uid av = pw_uid e) (load_passwd (etc_passwd st)) = None"
    using assms(4) by (auto simp: find_None_iff)
  then show ?thesis by (simp add: getpwuid_def)
qed

subsection \<open>Sessions\<close>

text \<open>Two file systems with the same tree: the same entries under the same names, with the same owners.\<close>

definition same_node :: "node \<Rightarrow> node \<Rightarrow> bool" where
  "same_node a b \<longleftrightarrow> (\<exists>r. b = a\<lparr>A_REALFILE := r\<rparr>)"

definition same_tree :: "filesystem \<Rightarrow> filesystem \<Rightarrow> bool" where
  "same_tree a b \<longleftrightarrow> fresh b = fresh a \<and> frames b = frames a \<and> newcount b = newcount a
     \<and> (\<forall>k. same_node (heap a k) (heap b k))"

lemma same_node_refl [simp]: "same_node a a"
  unfolding same_node_def by (rule exI [of _ "A_REALFILE a"]) simp

lemma same_node_trans: "same_node a b \<Longrightarrow> same_node b c \<Longrightarrow> same_node a c"
  unfolding same_node_def by fastforce

lemma same_nodeD:
  assumes "same_node a b"
  shows "A_NAME b = A_NAME a" "A_TYPE b = A_TYPE a" "A_CONTENTS b = A_CONTENTS a" "A_TARGET b = A_TARGET a"
    "A_UID b = A_UID a" "A_GID b = A_GID a" "A_MODE b = A_MODE a" "A_SIZE b = A_SIZE a"
  using assms by (auto simp: same_node_def)

lemma same_tree_refl [simp]: "same_tree s s"
  by (simp add: same_tree_def)

lemma same_tree_trans: "same_tree a b \<Longrightarrow> same_tree b c \<Longrightarrow> same_tree a c"
  unfolding same_tree_def using same_node_trans by metis

lemma same_tree_update_realfile: "same_tree s (fst (update_realfile f p s))"
proof -
  have "same_node n (n\<lparr>A_REALFILE := r\<rparr>)" for n r unfolding same_node_def by blast
  then have "same_tree s (update_node i (\<lambda>n. n\<lparr>A_REALFILE := r\<rparr>) s)" for i r
    by (simp add: same_tree_def update_node_def)
  then show ?thesis by (cases f) (simp_all add: update_realfile_def)
qed

lemma same_tree_sbind:
  "same_tree s (fst m) \<Longrightarrow> (\<And>s' x. m = (s', Inr x) \<Longrightarrow> same_tree s' (fst (f s' x))) \<Longrightarrow> same_tree s (fst (sbind m f))"
  by (cases m; cases "snd m") (auto intro: same_tree_trans)

lemma same_tree_init_honeyfs: "same_tree s (fst (init_honeyfs c rels s))"
proof (induction rels arbitrary: s)
  case (Cons rel rels)
  have "same_tree s (fst (sbind (update_realfile (Some f) p s) (\<lambda>s' _. init_honeyfs c rels s')))" for f p
    by (intro same_tree_sbind same_tree_update_realfile Cons.IH)
  then show ?case using Cons.IH by (simp split: sum.split option.split)
qed simp

lemma same_tree_load: "newcount (pickle st) = 0 \<Longrightarrow> same_tree (pickle st) (load_filesystem st ar hm dk)"
  unfolding load_filesystem_def
  by (rule same_tree_trans [OF _ same_tree_init_honeyfs]) (simp add: same_tree_def)

lemma same_tree_fs_ok: "same_tree a b \<Longrightarrow> fs_ok a \<Longrightarrow> fs_ok b"
  unfolding same_tree_def fs_ok_def closed_heap_def by (metis same_nodeD(2,3))

text \<open>Lookups see names, kinds, contents and targets only.\<close>

definition same_paths :: "filesystem \<Rightarrow> filesystem \<Rightarrow> bool" where
  "same_paths a b \<longleftrightarrow> frames b = frames a \<and> (\<forall>k. A_NAME (heap b k) = A_NAME (heap a k) \<and> A_TYPE (heap b k) = A_TYPE (heap a k)
     \<and> A_CONTENTS (heap b k) = A_CONTENTS (heap a k) \<and> A_TARGET (heap b k) = A_TARGET (heap a k))"

lemma same_paths_fields:
  assumes "same_paths a b"
  shows "A_NAME (heap b k) = A_NAME (heap a k)" "A_TYPE (heap b k) = A_TYPE (heap a k)"
    "A_CONTENTS (heap b k) = A_CONTENTS (heap a k)" "A_TARGET (heap b k) = A_TARGET (heap a k)"
  using assms by (auto simp: same_paths_def)

lemma same_tree_paths: "same_tree a b \<Longrightarrow> same_paths a b"
  by (simp add: same_tree_def same_paths_def same_nodeD)

lemmas same_tree_fields = same_paths_fields [OF same_tree_paths]

lemma same_tree_at_dir:
  assumes "same_tree a b" "fs_ok a" "at_dir a ps d ids"
  shows "at_dir b ps d ids"
  by (rule at_dir_update [OF assms(3,2)])
    (use assms same_tree_fields [OF assms(1)] in \<open>simp_all add: agree_but_def at_dir_def same_tree_def\<close>)

lemma same_paths_entries: "same_paths a b \<Longrightarrow> entries (heap b) i = entries (heap a) i"
  by (simp add: entries_def same_paths_fields)

lemma same_paths_last_match:
  assumes "same_paths a b"
  shows "last_match t (heap b) piece ids p = last_match t (heap a) piece ids p"
proof (induction ids arbitrary: p)
  case (Cons x xs)
  then show ?case by (simp add: same_paths_fields [OF assms] rbind_def split: sum.split option.split)
qed simp

lemma same_paths_steps:
  assumes "same_paths a b"
  shows "getfile_steps rec (heap b) fl l ps p = getfile_steps rec (heap a) fl l ps p"
proof (induction ps arbitrary: p)
  case (Cons q ps)
  have t: "entry_target rec (heap b) = entry_target rec (heap a)"
    by (intro ext) (simp add: entry_target_def same_paths_fields [OF assms])
  have "getfile_steps rec (heap b) fl l ps = getfile_steps rec (heap a) fl l ps" using Cons.IH by (rule ext)
  then show ?case
    by (simp only: getfile_steps.simps t same_paths_entries [OF assms] same_paths_last_match [OF assms]
        same_paths_fields [OF assms])
qed simp

lemma same_paths_getfile:
  assumes "same_paths a b"
  shows "getfile b p fl = getfile a p fl"
proof -
  have "getfile_at n (heap b) p fl = getfile_at n (heap a) p fl" for n
  proof (induction n arbitrary: p)
    case (Suc n)
    then have "(\<lambda>t. getfile_at n (heap b) t fl) = (\<lambda>t. getfile_at n (heap a) t fl)" by (intro ext)
    then show ?case by (simp add: same_paths_steps [OF assms])
  qed simp
  then show ?thesis using assms by (simp add: getfile_def same_paths_def)
qed

lemma same_paths_get_path:
  assumes "same_paths a b"
  shows "get_path b p fl = get_path a p fl"
proof -
  have "get_path_steps rec (heap b) ps c = get_path_steps rec (heap a) ps c" for rec ps c
  proof (induction ps arbitrary: c)
    case (Cons q ps)
    have "get_path_steps rec (heap b) ps = get_path_steps rec (heap a) ps" using Cons.IH by (rule ext)
    then show ?case
      by (simp only: get_path_steps.simps same_paths_entries [OF assms] same_paths_fields [OF assms])
  qed simp
  then show ?thesis by (simp add: get_path_def same_paths_getfile [OF assms])
qed

lemma same_paths_listdir: "same_paths a b \<Longrightarrow> listdir b p = listdir a p"
  by (simp add: listdir_def same_paths_get_path same_paths_entries same_paths_fields)

lemma mkdir_eq:
  assumes "at_dir s ps d ids" "fs_ok s" "good_piece f" "newcount s \<le> 10000"
  shows "mkdir (path_of (ps @ [f])) u g sz m t s = (add_state d ids (new_node f T_DIR u g sz m t) s, Inr ())"
proof -
  have gp: "\<forall>x \<in> set (ps @ [f]). good_piece x" using assms(3) at_dirD(1) [OF assms(1)] by simp
  have "strip_chars slash (path_of (ps @ [f])) = join_with ''/'' (ps @ [f])"
    using strip_path_of [OF gp] by simp
  moreover have "join_with ''/'' (ps @ [f]) \<noteq> []" using join_pieces_slash [OF _ gp] by simp
  moreover have "get_path s (join_with ''/'' ps) True = Inr d"
    using at_dir_paths(1) [OF assms(1), of True] by (simp add: path_of_def get_path_relative)
  ultimately show ?thesis
    using assms(3,4) add_node_at [OF assms(1,2)] by (simp add: mkdir_def dirname_join [OF gp] basename_path_of)
qed

lemma added_directory:
  assumes "at_dir s ps d ids" "fs_ok s" "good_piece f" "f \<notin> (\<lambda>x. A_NAME (heap s x)) ` set ids"
    "A_NAME n = f" "A_TYPE n = T_DIR" "A_CONTENTS n = Entries []"
  shows "getfile (add_state d ids n s) (path_of (ps @ [f])) fl = Inr (Some (fresh s))"
    "heap (add_state d ids n s) (fresh s) = n" "listdir (add_state d ids n s) (path_of (ps @ [f])) = Inr []"
proof -
  let ?s = "add_state d ids n s"
  have fr: "d < fresh s" using at_dir_fresh [OF assms(1,2)] by simp
  show node: "heap ?s (fresh s) = n" by (rule add_state_heap(1) [OF fr])
  have at: "at_dir ?s ps d (ids @ [fresh s])"
    by (rule at_dir_update [OF assms(1,2) add_state_agree]) (simp_all add: add_state_heap)
  have one: "filter (\<lambda>x. A_NAME (heap ?s x) = f) (ids @ [fresh s]) = [fresh s]"
    by (rule add_state_child [OF assms(1,2) _ assms(4,5)]) simp
  have gp: "\<forall>x \<in> set (ps @ [f]). good_piece x" using assms(3) at_dirD(1) [OF assms(1)] by simp
  show "getfile ?s (path_of (ps @ [f])) fl = Inr (Some (fresh s))"
    by (rule at_dir_child [OF at assms(3) one]) (simp add: node assms(6))
  have "walk (heap ?s) root (ps @ [f]) = Some (fresh s)"
    using at_dirD [OF at] one node assms(6) by (simp add: walk_append walk_Cons_iff)
  from get_path_walk [OF gp this] show "listdir ?s (path_of (ps @ [f])) = Inr []"
    using at_dirD(5) [OF at] node assms(7) by (simp add: listdir_def entries_def)
qed

text \<open>A user of no line of the password file is given a home at the start of an SSH session: an empty
  directory of the name of the user, with the ids of the account. Its mode is the decimal number 755, which
  is 1363 in octal: not the mode of a directory, with no right to read for the owner.\<close>

theorem temporary_user_gets_home:
  assumes "cowrie_user st name g = (g', Inr av)" "av_temporary av" "good_piece name"
    "fs_ok (pickle st)" "newcount (pickle st) = 0" "at_dir (pickle st) [''home''] d ids"
    "name \<notin> (\<lambda>x. A_NAME (heap (pickle st) x)) ` set ids"
    "ssh_session st now av sv = (sv', r)"
  shows "r = Inr (ssh_environ av)
    \<and> (\<exists>fs i. server_fs sv' = Some fs
         \<and> getfile fs (path_of [''home'', name]) True = Inr (Some i)
         \<and> heap fs i = new_node name T_DIR (av_uid av) (av_gid av) 4096 755 now
         \<and> listdir fs (path_of [''home'', name]) = Inr [])"
proof -
  define fs0 where "fs0 = load_filesystem st (server_arch sv) (av_home av) (host_files sv)"
  have t: "same_tree (pickle st) fs0" unfolding fs0_def by (rule same_tree_load [OF assms(5)])
  have ok: "fs_ok fs0" by (rule same_tree_fs_ok [OF t assms(4)])
  have at: "at_dir fs0 [''home''] d ids" by (rule same_tree_at_dir [OF t assms(4,6)])
  obtain n where n: "av_home av = ''/home/'' @ n" "py_decode name = Inr n"
    using temporary_account [OF assms(1,2)] by blast
  then have home: "av_home av = path_of [''home'', name]"
    by (auto simp: path_of_def py_decode_def split: if_splits)
  let ?n = "new_node name T_DIR (av_uid av) (av_gid av) 4096 755 now"
  let ?fs = "add_state d ids ?n fs0"
  have "mkdir (av_home av) (av_uid av) (av_gid av) 4096 755 now fs0 = (?fs, Inr ())"
    using mkdir_eq [OF at ok assms(3)] t assms(5) by (simp add: home same_tree_def)
  then have r: "server_fs sv' = Some ?fs" "r = Inr (ssh_environ av)"
    using assms(2,8) by (simp_all add: ssh_session_def init_file_system_def Let_def flip: fs0_def)
       (auto simp: fs0_def)
  have nn: "name \<notin> (\<lambda>x. A_NAME (heap fs0 x)) ` set ids" using assms(7) by (simp add: same_tree_fields [OF t])
  have "A_NAME ?n = name" "A_TYPE ?n = T_DIR" "A_CONTENTS ?n = Entries []" by (simp_all add: new_node_def)
  from added_directory [OF at ok assms(3) nn this] r show ?thesis by auto
qed

text \<open>The bits of the type of a file, and the owner's right to read.\<close>

lemma home_mode: "(755 :: int) AND S_IFMT = 0" "(755 :: int) AND 256 = 0"
  by (simp_all add: S_IFMT_def)

definition home_fs :: filesystem where
  "home_fs = example_fs\<lparr>heap := (heap example_fs)(1 := new_node ''home'' T_DIR 0 0 4096 16877 0)\<rparr>"

lemma home_fs_facts: "fs_ok home_fs" "at_dir home_fs [''home''] 1 []" "newcount home_fs = 0"
proof -
  show "fs_ok home_fs" unfolding fs_ok_def closed_heap_def
    by (auto simp: home_fs_def example_fs_def new_node_def less_Suc_eq numeral_3_eq_3 split: if_splits)
  show "at_dir home_fs [''home''] 1 []"
    by (simp add: at_dir_def home_fs_def example_fs_def new_node_def walk.simps(2) good_piece_def)
qed (simp add: home_fs_def example_fs_def)

lemma cowrie_user_pickle: "cowrie_user (st\<lparr>pickle := p\<rparr>) n g = cowrie_user st n g"
  by (cases st) (simp add: cowrie_user_def login_entry_def cong: sum.case_cong)

theorem temporary_user_gets_home_witness:
  "\<exists>g av sv' fs i. cowrie_user (example_site\<lparr>pickle := home_fs\<rparr>) ''eve'' 3 = (g, Inr av)
     \<and> ssh_session (example_site\<lparr>pickle := home_fs\<rparr>) 7 av \<lparr>server_fs = None, server_arch = ''linux-x64-lsb'', host_disk = Map.empty\<rparr>
         = (sv', Inr (ssh_environ av))
     \<and> server_fs sv' = Some fs \<and> getfile fs (path_of [''home'', ''eve'']) True = Inr (Some i)
     \<and> A_MODE (heap fs i) = 755"
proof -
  let ?st = "example_site\<lparr>pickle := home_fs\<rparr>"
  let ?sv = "\<lparr>server_fs = None, server_arch = ''linux-x64-lsb'', host_disk = Map.empty\<rparr>"
  obtain e where e: "fst (login_entry example_site ''eve'' 3) = (e, True)" using login_entry_new [OF example_eve(2)] by blast
  then obtain av where av: "snd (cowrie_user example_site ''eve'' 3) = Inr av" "av_temporary av"
    by (auto simp: cowrie_user_decoded [OF example_eve(1)])
  obtain g where c: "cowrie_user ?st ''eve'' 3 = (g, Inr av)"
    using av(1) unfolding cowrie_user_pickle by (metis prod.collapse)
  obtain sv' r where ss: "ssh_session ?st 7 av ?sv = (sv', r)" by fastforce
  have "fs_ok (pickle ?st)" "newcount (pickle ?st) = 0" "at_dir (pickle ?st) [''home''] 1 []"
    using home_fs_facts by simp_all
  from temporary_user_gets_home [OF c av(2) _ this _ ss]
  show ?thesis using c ss by (fastforce simp: good_piece_def new_node_def)
qed

text \<open>A session starts from the file system on disk: whatever was done before on the same server, over
  SFTP or in an earlier shell, paths of a new session lead where they lead there.\<close>

theorem session_starts_over:
  assumes "newcount (pickle st) = 0" "\<not> av_temporary av"
  shows "\<exists>fs. server_fs (fst (ssh_session st now av sv)) = Some fs
    \<and> (\<forall>path fl. getfile fs path fl = getfile (pickle st) path fl \<and> listdir fs path = listdir (pickle st) path)"
proof -
  note t = same_tree_load [OF assms(1), of "server_arch sv" "av_home av" "host_files sv"]
  show ?thesis
    using assms(2) same_paths_getfile [OF same_tree_paths [OF t]] same_paths_listdir [OF same_tree_paths [OF t]]
    by (simp add: ssh_session_def init_file_system_def Let_def)
qed

theorem session_starts_over_witness:
  "\<exists>g av fs. cowrie_user example_site ''root'' 3 = (g, Inr av)
     \<and> server_fs (fst (ssh_session example_site 7 av \<lparr>server_fs = Some home_fs, server_arch = ''x'', host_disk = Map.empty\<rparr>))
         = Some fs
     \<and> listdir fs ''/home'' = listdir example_fs ''/home''"
proof -
  have d: "py_decode ''root'' = Inr ''root''" by (rule py_decode_ascii) (simp add: is_ascii_def)
  have f: "find (\<lambda>e. pw_name e = ''root'') (load_passwd (etc_passwd example_site)) = Some (hd example_users)"
    by code_simp
  obtain g av where av: "cowrie_user example_site ''root'' 3 = (g, Inr av)" "\<not> av_temporary av"
    using d f by (simp add: cowrie_user_def login_entry_def getpwnam_def)
  have n: "newcount (pickle example_site) = 0" by (simp add: example_site_def example_fs_def)
  from session_starts_over [OF n av(2)] av show ?thesis by (fastforce simp: example_site_def)
qed

end
