(* ===== verification/Sftp_Server_Props.thy ===== *)
theory Sftp_Server_Props
  imports Sftp_Server Passwd_Db_Props
begin

section \<open>Properties of the SFTP server\<close>

text \<open>
  Paths are normal whatever the client writes; the chunks of an upload make up the file in any order; a
  download sees the file as it was at its opening; no request breaks the file system; and what goes wrong
  when a file is opened without being created, a quota is passed, or an owner has no name.
\<close>

unbundle bit_operations_syntax

subsection \<open>Paths\<close>

text \<open>C24: Whatever path the client writes, the server uses an absolute one: one slash or two, and then pieces
  that are neither empty nor dots. Taking it through the server again changes nothing, so that the
  attributes of a file that is opened are set on that file.\<close>

theorem sftp_path_normal:
  assumes "sftp_path cwd hm path = Inr q" "starts_with hm ''/''"
  shows "(\<exists>n ps. (n = 1 \<or> n = 2) \<and> (\<forall>x \<in> set ps. good_piece x) \<and> q = replicate n (CHR ''/'') @ join_with ''/'' ps)
    \<and> sftp_path cwd hm q = Inr q"
proof -
  define p where "p = os_join hm path"
  define ps where "ps = resolve_pieces (split_on (CHR ''/'') p) []"
  have p: "starts_with p ''/''" unfolding p_def by (rule os_join_rooted [OF assms(2)])
  have a: "is_ascii hm" "q = normpath p" "is_ascii path"
    using assms(1) p unfolding p_def
    by (auto simp: sftp_path_def native_text_def native_bytes_def abspath_def rbind_Inr_iff split: if_splits)
  have g: "\<forall>x \<in> set ps. good_piece x"
    unfolding ps_def by (rule resolve_pieces_good) (auto dest: split_on_pieces)
  have n: "leading_slashes p = 1 \<or> leading_slashes p = 2" by (rule leading_rooted [OF p])
  have q: "q = rooted_path (leading_slashes p) ps" using a(2) normpath_rooted [OF p] by (simp add: ps_def)
  have s1: "starts_with q ''/''" using q n by (auto simp: rooted_path_def numeral_2_eq_2)
  have s2: "normpath q = q" unfolding q by (rule normpath_id [OF g n])
  have "set p \<subseteq> set hm \<union> set path \<union> {CHR ''/''}" unfolding p_def by (auto simp: os_join_def split: if_splits)
  moreover have "c = CHR ''/'' \<or> c \<in> set p" if "c \<in> set q" for c
    using rooted_chars [OF that [unfolded q ps_def]] by (auto dest: split_on_chars)
  ultimately have "set q \<subseteq> set hm \<union> set path \<union> {CHR ''/''}" by blast
  then have "is_ascii q" using a(1,3) by (auto simp: is_ascii_def list_all_iff)
  with s1 s2 have "sftp_path cwd hm q = Inr q"
    using a(1) by (simp add: sftp_path_def native_text_def native_bytes_def os_join_def abspath_def)
  then show ?thesis using g n q unfolding rooted_path_def by blast
qed

theorem sftp_path_normal_witness:
  "sftp_path ''/'' ''/root'' ''../etc/./passwd'' = Inr ''/etc/passwd''
   \<and> sftp_path ''/'' ''/root'' ''/etc/passwd'' = Inr ''/etc/passwd''"
proof -
  have e: "sftp_path ''/'' ''/root'' ''../etc/./passwd'' = Inr ''/etc/passwd''" by code_simp
  from sftp_path_normal [OF e] e show ?thesis by simp
qed

subsection \<open>Uploads\<close>

lemma length_put_at: "d \<noteq> [] \<Longrightarrow> length (put_at k d b) = max (length b) (k + length d)"
  by (simp add: put_at_def)

lemma nth_put_at:
  assumes "i < length (put_at k d b)"
  shows "put_at k d b ! i =
    (if k \<le> i \<and> i < k + length d then d ! (i - k) else if i < length b then b ! i else CHR 0x00)"
proof (cases "d = []")
  case False
  then have i: "i < length b \<or> i < k + length d" using assms by (auto simp: length_put_at max_def split: if_splits)
  show ?thesis
  proof (cases "i < k")
    case True
    then have "i - length b < k - length b" if "\<not> i < length b" using that by linarith
    with True False show ?thesis by (auto simp: put_at_def nth_append)
  next
    case ge: False
    with False i show ?thesis by (cases "i < k + length d") (auto simp: put_at_def nth_append not_less min_def)
  qed
qed (use assms in \<open>auto simp: put_at_def\<close>)

text \<open>A piece of a text at its place.\<close>

definition slice_of :: "string \<Rightarrow> nat \<times> string \<Rightarrow> bool" where
  "slice_of content c \<longleftrightarrow>
     fst c + length (snd c) \<le> length content \<and> snd c = take (length (snd c)) (drop (fst c) content)"

definition chunk_span :: "nat \<times> string \<Rightarrow> nat set" where
  "chunk_span c = {fst c..<fst c + length (snd c)}"

definition agrees :: "string \<Rightarrow> string \<Rightarrow> nat set \<Rightarrow> bool" where
  "agrees content b cov \<longleftrightarrow> length b \<le> length content \<and> (\<forall>i \<in> cov. i < length b \<and> b ! i = content ! i)"

lemma agrees_put_at:
  assumes "agrees content b cov" "slice_of content (k, d)"
  shows "agrees content (put_at k d b) (cov \<union> chunk_span (k, d))"
proof (cases "d = []")
  case False
  have le: "k + length d \<le> length content" and eq: "take (length d) (drop k content) = d"
    using assms(2) by (simp_all add: slice_of_def)
  have d: "d ! j = content ! (k + j)" if "j < length d" for j
  proof -
    have "take (length d) (drop k content) ! j = content ! (k + j)" using that le by simp
    then show ?thesis by (simp only: eq)
  qed
  have len: "length (put_at k d b) = max (length b) (k + length d)" by (rule length_put_at [OF False])
  have "put_at k d b ! i = content ! i \<and> i < length (put_at k d b)" if "i \<in> cov \<union> chunk_span (k, d)" for i
  proof -
    have i: "i < length (put_at k d b)" using that assms(1) len by (auto simp: agrees_def chunk_span_def max_def)
    with that assms(1) d [of "i - k"] show ?thesis
      by (auto simp: nth_put_at agrees_def chunk_span_def)
  qed
  then show ?thesis using assms(1) le len by (auto simp: agrees_def)
qed (use assms in \<open>simp add: put_at_def chunk_span_def\<close>)

lemma agrees_all: "agrees content b cov \<Longrightarrow> {..<length content} \<subseteq> cov \<Longrightarrow> b = content"
  by (rule nth_equalityI) (auto simp: agrees_def subset_eq intro!: antisym leI)

text \<open>An open file that is being written: where its bytes go and how many have been received.\<close>

definition writes_to :: "sftp_session \<Rightarrow> nat \<Rightarrow> string \<Rightarrow> int \<Rightarrow> int \<Rightarrow> string \<Rightarrow> string \<Rightarrow> bool" where
  "writes_to s k name n received p b \<longleftrightarrow>
     (\<exists>f. map_of (files s) k = Some f \<and> sf_name f = name \<and> sf_fd f = Some n \<and> n \<noteq> 0
        \<and> \<not> has_flag (sf_flags f) O_APPEND \<and> sf_received f = received)
     \<and> map_of (descs s) n = Some (Some p) \<and> disk (vfs s) p = Some b"

lemma write_chunk_step:
  assumes "writes_to s k name n received p b"
    "received_limit h = 0 \<or> received + int (length d) \<le> received_limit h"
    "int (j + length d) \<le> max_offset h" "j < 2 ^ 63"
  shows "snd (serve h stamp now (WriteChunk k j d) s) = Inr Done"
    "writes_to (fst (serve h stamp now (WriteChunk k j d) s)) k name n (received + int (length d)) p (put_at j d b)"
    "vfs (fst (serve h stamp now (WriteChunk k j d) s)) = (vfs s)\<lparr>disk := (disk (vfs s))(p \<mapsto> put_at j d b)\<rparr>"
proof -
  obtain f where f: "map_of (files s) k = Some f" "sf_name f = name" "sf_fd f = Some n" "n \<noteq> 0"
    "\<not> has_flag (sf_flags f) O_APPEND" "sf_received f = received"
    using assms(1) by (auto simp: writes_to_def)
  have m: "map_of (descs s) n = Some (Some p)" "disk (vfs s) p = Some b" using assms(1) by (simp_all add: writes_to_def)
  let ?f = "f\<lparr>sf_received := received + int (length d)\<rparr>"
  have "seek_write h ?f j d s = (upd_vfs ((vfs s)\<lparr>disk := (disk (vfs s))(p \<mapsto> put_at j d b)\<rparr>) s, Inr ())"
    using f m assms(3,4) by (simp add: seek_write_def os_write_def)
  then have w: "write_chunk h j d f s = (?f\<lparr>sf_pos := sf_pos f + length d\<rparr>,
      (upd_vfs ((vfs s)\<lparr>disk := (disk (vfs s))(p \<mapsto> put_at j d b)\<rparr>) s, Inr ()))"
    using assms(2) f(6) by (auto simp: write_chunk_def)
  show "snd (serve h stamp now (WriteChunk k j d) s) = Inr Done"
    "writes_to (fst (serve h stamp now (WriteChunk k j d) s)) k name n (received + int (length d)) p (put_at j d b)"
    "vfs (fst (serve h stamp now (WriteChunk k j d) s)) = (vfs s)\<lparr>disk := (disk (vfs s))(p \<mapsto> put_at j d b)\<rparr>"
    using f m by (simp_all add: with_handle_def w upd_vfs_def writes_to_def map_of_alist_update)
qed

definition write_all :: "string \<Rightarrow> rat \<Rightarrow> nat \<Rightarrow> (nat \<times> string) list \<Rightarrow> (string \<times> rat \<times> sftp_request) list" where
  "write_all stamp now k cs = map (\<lambda>(j, d). (stamp, now, WriteChunk k j d)) cs"

definition total :: "(nat \<times> string) list \<Rightarrow> nat" where
  "total cs = sum_list (map (length \<circ> snd) cs)"

lemma sftp_run_Cons: "sftp_run h ((stamp, now, r) # rs) s = sftp_run h rs (fst (serve h stamp now r s))"
  by (simp add: sftp_run_def)

lemma write_run:
  assumes "writes_to s k name n received p b" "\<forall>c \<in> set cs. slice_of content c"
    "received_limit h = 0 \<or> received + int (total cs) \<le> received_limit h"
    "int (length content) \<le> max_offset h" "length content < 2 ^ 63" "agrees content b cov"
  shows "\<exists>b'. writes_to (sftp_run h (write_all stamp now k cs) s) k name n (received + int (total cs)) p b'
    \<and> agrees content b' (cov \<union> (\<Union>c \<in> set cs. chunk_span c))
    \<and> vfs (sftp_run h (write_all stamp now k cs) s) = (vfs s)\<lparr>disk := (disk (vfs s))(p \<mapsto> b')\<rparr>"
  using assms(1,2,3,6)
proof (induction cs arbitrary: s received b cov)
  case Nil
  then have "(disk (vfs s))(p \<mapsto> b) = disk (vfs s)" by (auto simp: writes_to_def)
  with Nil show ?case by (intro exI [of _ b]) (simp add: sftp_run_def write_all_def total_def)
next
  case (Cons c cs)
  obtain j d where c: "c = (j, d)" by fastforce
  have sl: "slice_of content (j, d)" using Cons.prems(2) c by simp
  then have bnd: "int (j + length d) \<le> max_offset h" "j < 2 ^ 63" using assms(4,5) by (auto simp: slice_of_def)
  have lim: "received_limit h = 0 \<or> received + int (length d) \<le> received_limit h"
    "received_limit h = 0 \<or> (received + int (length d)) + int (total cs) \<le> received_limit h"
    using Cons.prems(3) c by (auto simp: total_def)
  note st = write_chunk_step [OF Cons.prems(1) lim(1) bnd, of stamp now]
  have "\<forall>c \<in> set cs. slice_of content c" using Cons.prems(2) by simp
  from Cons.IH [OF st(2) this lim(2) agrees_put_at [OF Cons.prems(4) sl]]
  obtain b' where b': "writes_to (sftp_run h (write_all stamp now k cs) (fst (serve h stamp now (WriteChunk k j d) s))) k name n
      (received + int (length d) + int (total cs)) p b'"
    "agrees content b' (cov \<union> chunk_span (j, d) \<union> (\<Union>c \<in> set cs. chunk_span c))"
    and v: "vfs (sftp_run h (write_all stamp now k cs) (fst (serve h stamp now (WriteChunk k j d) s)))
      = (vfs (fst (serve h stamp now (WriteChunk k j d) s)))
          \<lparr>disk := (disk (vfs (fst (serve h stamp now (WriteChunk k j d) s))))(p \<mapsto> b')\<rparr>"
    by blast
  have v': "vfs (sftp_run h (write_all stamp now k cs) (fst (serve h stamp now (WriteChunk k j d) s)))
      = (vfs s)\<lparr>disk := (disk (vfs s))(p \<mapsto> b')\<rparr>"
    unfolding v st(3) by simp
  have eqs: "sftp_run h (write_all stamp now k (c # cs)) s
      = sftp_run h (write_all stamp now k cs) (fst (serve h stamp now (WriteChunk k j d) s))"
    "received + int (total (c # cs)) = received + int (length d) + int (total cs)"
    "cov \<union> (\<Union>c \<in> set (c # cs). chunk_span c) = cov \<union> chunk_span (j, d) \<union> (\<Union>c \<in> set cs. chunk_span c)"
    by (simp_all add: write_all_def total_def c sftp_run_Cons Un_assoc del: serve.simps)
  show ?case unfolding eqs using b' v' by blast
qed

text \<open>Opening a file for writing.\<close>

text \<open>
  What \<open>os.open\<close> promises when it does not fail. A file that is not there is created, empty, and only with
  \<open>O_CREAT\<close>; one that is there is not opened with \<open>O_CREAT\<close> and \<open>O_EXCL\<close>, keeps its content without
  \<open>O_TRUNC\<close>, and is emptied with it when it is opened for writing. Other files stay as they are, and the
  descriptor is not that of the standard input of the server, which is open.
\<close>

definition posix_open :: "host_open \<Rightarrow> bool" where
  "posix_open oo \<longleftrightarrow> (\<forall>p fl m dk dk' n. oo p fl m dk = Inr (dk', n) \<longrightarrow> 0 < n \<and>
     (case dk p of
        None \<Rightarrow> has_flag fl O_CREAT \<and> dk' = dk(p \<mapsto> [])
      | Some b \<Rightarrow> \<not> (has_flag fl O_CREAT \<and> has_flag fl O_EXCL)
          \<and> (\<exists>c. dk' = dk(p \<mapsto> c) \<and> (\<not> has_flag fl O_TRUNC \<longrightarrow> c = b)
               \<and> (has_flag fl O_TRUNC \<and> fl AND 3 \<noteq> 0 \<longrightarrow> c = []))))"

lemma open_flags_bits:
  "has_flag flags FXF_WRITE \<Longrightarrow> open_flags flags AND 1 = 1 \<or> open_flags flags AND 2 = 2"
  "\<not> has_flag flags FXF_APPEND \<Longrightarrow> \<not> has_flag (open_flags flags) O_APPEND"
  "\<not> has_flag flags FXF_CREAT \<Longrightarrow> open_flags flags AND O_CREAT = 0"
proof -
  have rw: "has_flag flags FXF_READ \<or> flags AND FXF_READ = 0"
    by (auto simp: has_flag_def FXF_READ_def and_one_eq)
  show "has_flag flags FXF_WRITE \<Longrightarrow> open_flags flags AND 1 = 1 \<or> open_flags flags AND 2 = 2"
    using rw by (auto simp: open_flags_def also_flag_def sftp_consts Let_def has_flag_def)
  show "\<not> has_flag flags FXF_APPEND \<Longrightarrow> \<not> has_flag (open_flags flags) O_APPEND"
    by (auto simp: open_flags_def also_flag_def O_WRONLY_def O_RDWR_def O_CREAT_def O_EXCL_def O_TRUNC_def O_APPEND_def
        Let_def has_flag_def [of _ 1024])
  show "\<not> has_flag flags FXF_CREAT \<Longrightarrow> open_flags flags AND O_CREAT = 0"
    by (auto simp: open_flags_def also_flag_def O_WRONLY_def O_RDWR_def O_CREAT_def O_EXCL_def O_TRUNC_def O_APPEND_def Let_def)
qed

lemma open_flags_trunc:
  "has_flag flags FXF_TRUNC \<Longrightarrow> has_flag flags FXF_WRITE \<Longrightarrow> has_flag (open_flags flags) O_TRUNC \<and> open_flags flags AND 3 \<noteq> 0"
proof -
  assume a: "has_flag flags FXF_TRUNC" "has_flag flags FXF_WRITE"
  have rw: "has_flag flags FXF_READ \<or> flags AND FXF_READ = 0"
    by (auto simp: has_flag_def FXF_READ_def and_one_eq)
  with a show ?thesis
    by (auto simp: open_flags_def also_flag_def sftp_consts Let_def has_flag_def)
qed

lemma posix_openD:
  assumes "posix_open oo" "oo p fl m dk = Inr (dk', n)"
  shows "0 < n \<and> dk' p \<noteq> None \<and> (dk p = None \<or> has_flag fl O_TRUNC \<and> fl AND 3 \<noteq> 0 \<longrightarrow> dk' p = Some [])"
proof -
  from assms have "0 < n \<and> (case dk p of
        None \<Rightarrow> has_flag fl O_CREAT \<and> dk' = dk(p \<mapsto> [])
      | Some b \<Rightarrow> \<not> (has_flag fl O_CREAT \<and> has_flag fl O_EXCL)
          \<and> (\<exists>c. dk' = dk(p \<mapsto> c) \<and> (\<not> has_flag fl O_TRUNC \<longrightarrow> c = b)
               \<and> (has_flag fl O_TRUNC \<and> fl AND 3 \<noteq> 0 \<longrightarrow> c = [])))"
    unfolding posix_open_def by blast
  then show ?thesis by (cases "dk p") auto
qed

lemma posix_open_host: "posix_open oo \<Longrightarrow> host_opens oo"
  unfolding host_opens_def using posix_openD by blast

lemma update_realfile_disk: "disk (fst (update_realfile f p s)) = disk s"
  by (simp add: update_realfile_def update_node_def split: option.split)

lemma fs_open_disk:
  assumes "at_dir s ps d ids" "fs_ok s" "good_piece f" "\<not> special (path_of ps)" "newcount s \<le> 10000"
    "length (filter (\<lambda>x. A_NAME (heap s x) = f) ids) \<le> 1"
    "posix_open oo" "fs_open oo dl st t (path_of (ps @ [f])) fl m s = (s1, Inr (Some n))"
    "disk s (hostfile_of dl st (path_of (ps @ [f]))) = None \<or> has_flag fl O_TRUNC \<and> fl AND 3 \<noteq> 0"
  shows "disk s1 (hostfile_of dl st (path_of (ps @ [f]))) = Some [] \<and> n \<noteq> 0"
proof -
  let ?p = "path_of (ps @ [f])"
  let ?hf = "hostfile_of dl st ?p"
  note mk = mkfile_eq [OF assms(1-6), of 0 0 0 "S_IFREG OR m" t]
  let ?s0 = "add_state d (filter (\<lambda>x. A_NAME (heap s x) \<noteq> f) ids) (new_node f T_FILE 0 0 0 (S_IFREG OR m) t) s"
  obtain dk g s3 where o: "oo ?hf fl (hostmode m) (disk s) = Inr (dk, n)"
    and u: "update_realfile g ?hf (?s0\<lparr>disk := dk\<rparr>) = (s3, Inr ())" and d: "disk s1 = disk s3"
    using assms(8) by (auto simp: fs_open_def mk sbind_def Let_def hostfile_of_def split: if_splits sum.splits prod.splits)
  have "disk s3 = dk" using update_realfile_disk [of g ?hf "?s0\<lparr>disk := dk\<rparr>"] u by simp
  with d have d: "disk s1 = dk" by simp
  from assms(9) have "dk ?hf = Some [] \<and> 0 < n"
    using posix_openD [OF assms(7) o] by blast
  with d show ?thesis by simp
qed

lemma open_file_vfs:
  assumes "open_sftp_file h stamp now fn flags a s = (s1, Inr fo)" "has_flag flags FXF_WRITE"
    "AList.delete ''permissions'' a = []"
  shows "\<exists>n v. fs_open (os_open h) (dl_path h) stamp now fn (open_flags flags) (open_mode a) (vfs s) = (v, Inr (Some n))
    \<and> s1 = s\<lparr>vfs := v, descs := AList.update n (map_of (tempfiles v) n) (descs s)\<rparr>
    \<and> sf_name fo = fn \<and> sf_received fo = 0 \<and> sf_fd fo = Some n \<and> sf_flags fo = open_flags flags"
proof -
  obtain v r where o: "fs_open (os_open h) (dl_path h) stamp now fn (open_flags flags) (open_mode a) (vfs s) = (v, r)"
    by fastforce
  with assms(1) obtain fd where r: "r = Inr fd" by (cases r) (auto simp: open_sftp_file_def)
  have "fd \<noteq> None" using o r open_flags_bits(1) [OF assms(2)]
    by (auto simp: fs_open_def sbind_def Let_def split: if_splits sum.splits prod.splits)
  then obtain n where "fd = Some n" by blast
  with o r assms(1,3) show ?thesis
    by (auto simp: open_sftp_file_def sbind_def Let_def split: if_splits sum.splits)
qed

lemma opened_for_writing:
  assumes "at_dir (vfs s) ps d ids" "fs_ok (vfs s)" "good_piece f" "\<not> special (path_of ps)" "newcount (vfs s) \<le> 10000"
    "length (filter (\<lambda>x. A_NAME (heap (vfs s) x) = f) ids) \<le> 1"
    "posix_open (os_open h)" "abs_in h path = Inr (path_of (ps @ [f]))"
    "has_flag flags FXF_WRITE" "\<not> has_flag flags FXF_APPEND" "AList.delete ''permissions'' a = []"
    "disk (vfs s) (hostfile_of (dl_path h) stamp (path_of (ps @ [f]))) = None \<or> has_flag flags FXF_TRUNC"
    "serve h stamp now (OpenFile k path flags a) s = (s1, Inr Done)"
  shows "\<exists>n. writes_to s1 k (path_of (ps @ [f])) n 0 (hostfile_of (dl_path h) stamp (path_of (ps @ [f]))) []
    \<and> map_of (tempfiles (vfs s1)) n = Some (hostfile_of (dl_path h) stamp (path_of (ps @ [f])))
    \<and> map_of (filenames (vfs s1)) n = Some (path_of (ps @ [f]))
    \<and> getfile (vfs s1) (path_of (ps @ [f])) True = Inr (Some (fresh (vfs s)))
    \<and> A_TYPE (heap (vfs s1) (fresh (vfs s))) = T_FILE
    \<and> A_REALFILE (heap (vfs s1) (fresh (vfs s))) = Some (hostfile_of (dl_path h) stamp (path_of (ps @ [f])))"
proof -
  let ?p = "path_of (ps @ [f])"
  obtain s0 fo where op: "open_sftp_file h stamp now ?p flags a s = (s0, Inr fo)"
    and s1: "s1 = s0\<lparr>files := AList.update k fo (files s0)\<rparr>"
    using assms(8,13) by (auto simp: sbind_def split: prod.splits sum.splits)
  from open_file_vfs [OF op assms(9,11)] obtain n v where
    v: "fs_open (os_open h) (dl_path h) stamp now ?p (open_flags flags) (open_mode a) (vfs s) = (v, Inr (Some n))"
    and s0: "s0 = s\<lparr>vfs := v, descs := AList.update n (map_of (tempfiles v) n) (descs s)\<rparr>"
    and fo: "sf_name fo = ?p" "sf_received fo = 0" "sf_fd fo = Some n" "sf_flags fo = open_flags flags"
    by blast
  note st = fs_open_state [OF assms(1-6) posix_open_host [OF assms(7)] v]
  have "disk v (hostfile_of (dl_path h) stamp ?p) = Some [] \<and> n \<noteq> 0" 
    by (rule fs_open_disk [OF assms(1-7) v]) (use assms(12) open_flags_trunc [OF _ assms(9)] in blast)
  with st fo open_flags_bits(2) [OF assms(10)] show ?thesis
    by (intro exI [of _ n]) (simp add: s1 s0 writes_to_def map_of_alist_update)
qed

text \<open>Closing it.\<close>

lemma getfile_disk: "getfile (v\<lparr>disk := d\<rparr>) p fl = getfile v p fl"
  by (simp add: getfile_def)

lemma same_paths_size: "same_paths v (update_node i (\<lambda>n. n\<lparr>A_SIZE := z\<rparr>) v)"
  by (simp add: same_paths_def update_node_def)

lemma closing:
  assumes "writes_to s k name n received hf b" "0 < received"
    "map_of (tempfiles (vfs s)) n = Some hf" "map_of (filenames (vfs s)) n = Some name"
    "getfile (vfs s) name True = Inr (Some i)" "A_TYPE (heap (vfs s) i) = T_FILE" "hf \<noteq> []"
    "A_REALFILE (heap (vfs s) i) = Some hf" "stored = dl_path h @ ''/'' @ sha256_hex h b" "stored \<noteq> hf"
    "disk (vfs s) stored \<in> {None, Some b}" "serve h stamp now (CloseFile k) s = (s3, r)"
  shows "r = Inr Done \<and> disk (vfs s3) stored = Some b \<and> disk (vfs s3) hf = None
    \<and> getfile (vfs s3) name True = Inr (Some i) \<and> A_SIZE (heap (vfs s3) i) = received \<and> map_of (files s3) k = None"
proof -
  obtain f where f: "map_of (files s) k = Some f" "sf_name f = name" "sf_fd f = Some n" "n \<noteq> 0" "sf_received f = received"
    using assms(1) by (auto simp: writes_to_def)
  have b: "disk (vfs s) hf = Some b" using assms(1) by (simp add: writes_to_def)
  let ?v1 = "update_node i (\<lambda>n. n\<lparr>A_SIZE := received\<rparr>) (vfs s)"
  have up: "update_size name received (vfs s) = (?v1, Inr ())"
    using assms(5,6) by (simp add: update_size_def)
  have v1: "disk ?v1 = disk (vfs s)" "tempfiles ?v1 = tempfiles (vfs s)" "filenames ?v1 = filenames (vfs s)"
    by (simp_all add: update_node_def)
  have got: "getfile ?v1 name True = Inr (Some i)"
    using same_paths_getfile [OF same_paths_size] assms(5) by simp
  let ?v2 = "store_upload hf stored b ?v1"
  have st: "dl_path h @ CHR ''/'' # sha256_hex h b = stored" using assms(9) by simp
  have node: "A_REALFILE (heap ?v1 i) = Some hf" using assms(8) by (simp add: update_node_def)
  have "getfile ?v2 name True = Inr (Some i)" using got by (simp add: store_upload_def getfile_disk)
  moreover have "filenames ?v2 = filenames (vfs s)" "tempfiles ?v2 = tempfiles (vfs s)" "heap ?v2 = heap ?v1"
    by (simp_all add: store_upload_def v1)
  moreover have "update_realfile (Some i) stored ?v2 = (?v2, Inr ())"
    using node assms(7) calculation(4) by (auto simp: update_realfile_def)
  ultimately have cl: "fs_close (sha256_hex h) (dl_path h) (Some n) ?v1
      = (?v2\<lparr>tempfiles := AList.delete n (tempfiles (vfs s)), filenames := AList.delete n (filenames (vfs s))\<rparr>, Inr ())"
    using assms(3,4) f(4) b v1 st by (simp add: fs_close_def dict_get_def read_bytes_def)
  have "vfs s3 = ?v2\<lparr>tempfiles := AList.delete n (tempfiles (vfs s)), filenames := AList.delete n (filenames (vfs s))\<rparr>
      \<and> r = Inr Done \<and> map_of (files s3) k = None"
    using assms(2,12) f
    by (auto simp: with_handle_def close_file_def on_vfs_def up cl upd_vfs_def Let_def sbind_def AList.delete_conv' split: prod.splits)
  moreover have "getfile ?v2 name True = Inr (Some i)" using got by (simp add: store_upload_def getfile_disk)
  ultimately show ?thesis using assms(10,11) v1 by (auto simp: getfile_def store_upload_def update_node_def)
qed

text \<open>C21: An upload arrives whole. Whatever order the client sends the pieces of a file in, however they
  overlap, and whatever it sends again: once they cover the file and it is closed, the content is stored
  under its hash, every write having succeeded. The size of the entry is the number of bytes received, so that
  a piece that was sent again counts twice. The file of the host the pieces go to is named by the second; it
  must not be there, unless the client asks for it to be emptied.\<close>

theorem upload_in_any_order:
  assumes "at_dir (vfs s) ps d ids" "fs_ok (vfs s)" "good_piece f" "\<not> special (path_of ps)" "newcount (vfs s) \<le> 10000"
    "length (filter (\<lambda>x. A_NAME (heap (vfs s) x) = f) ids) \<le> 1"
    "posix_open (os_open h)" "abs_in h path = Inr (path_of (ps @ [f]))"
    "has_flag flags FXF_WRITE" "\<not> has_flag flags FXF_APPEND" "AList.delete ''permissions'' a = []"
    "disk (vfs s) (hostfile_of (dl_path h) stamp (path_of (ps @ [f]))) = None \<or> has_flag flags FXF_TRUNC"
    "serve h stamp now (OpenFile k path flags a) s = (s1, Inr Done)"
    "\<forall>c \<in> set cs. slice_of content c" "{..<length content} \<subseteq> (\<Union>c \<in> set cs. chunk_span c)" "content \<noteq> []"
    "received_limit h = 0 \<or> int (total cs) \<le> received_limit h"
    "int (length content) \<le> max_offset h" "length content < 2 ^ 63"
    "\<And>b. CHR ''_'' \<notin> set (sha256_hex h b)"
    "disk (vfs s1) (dl_path h @ ''/'' @ sha256_hex h content) \<in> {None, Some content}"
    "serve h stamp now (CloseFile k) (sftp_run h (write_all stamp now k cs) s1) = (s3, r)"
  shows "r = Inr Done
    \<and> disk (vfs s3) (dl_path h @ ''/'' @ sha256_hex h content) = Some content
    \<and> (\<exists>i. getfile (vfs s3) (path_of (ps @ [f])) True = Inr (Some i) \<and> A_SIZE (heap (vfs s3) i) = int (total cs))"
proof -
  let ?p = "path_of (ps @ [f])"
  define hf where "hf = hostfile_of (dl_path h) stamp ?p"
  obtain n where n: "writes_to s1 k ?p n 0 hf []" "map_of (tempfiles (vfs s1)) n = Some hf"
    "map_of (filenames (vfs s1)) n = Some ?p" "getfile (vfs s1) ?p True = Inr (Some (fresh (vfs s)))"
    "A_TYPE (heap (vfs s1) (fresh (vfs s))) = T_FILE" "A_REALFILE (heap (vfs s1) (fresh (vfs s))) = Some hf"
    using opened_for_writing [OF assms(1-13)] unfolding hf_def by blast
  define s2 where "s2 = sftp_run h (write_all stamp now k cs) s1"
  have ag: "agrees content [] {}" by (simp add: agrees_def)
  have lim: "received_limit h = 0 \<or> 0 + int (total cs) \<le> received_limit h" using assms(17) by simp
  obtain b where b: "writes_to s2 k ?p n (0 + int (total cs)) hf b" "agrees content b ({} \<union> (\<Union>c \<in> set cs. chunk_span c))"
    and v2: "vfs s2 = (vfs s1)\<lparr>disk := (disk (vfs s1))(hf \<mapsto> b)\<rparr>"
    using write_run [OF n(1) assms(14) lim assms(18,19) ag, of stamp now] unfolding s2_def by blast
  have bc: "b = content" using agrees_all [OF b(2)] assms(15) by simp
  have ne: "dl_path h @ ''/'' @ sha256_hex h content \<noteq> hf"
  proof
    assume "dl_path h @ ''/'' @ sha256_hex h content = hf"
    then have "sha256_hex h content = stamp @ ''_sftp_'' @ safe_name ?p" by (simp add: hf_def hostfile_of_def)
    then have "CHR ''_'' \<in> set (sha256_hex h content)" by simp
    with assms(20) show False by blast
  qed
  have pos: "0 < int (total cs)"
  proof -
    have "0 \<in> (\<Union>c \<in> set cs. chunk_span c)" using assms(15,16) by auto
    then obtain c where c: "c \<in> set cs" "0 < length (snd c)" by (auto simp: chunk_span_def)
    have "length (snd c) \<le> total cs" unfolding total_def by (rule member_le_sum_list) (use c in auto)
    with c(2) have "0 < total cs" by linarith
    then show ?thesis by simp
  qed
  have "r = Inr Done \<and> disk (vfs s3) (dl_path h @ ''/'' @ sha256_hex h content) = Some content \<and> disk (vfs s3) hf = None
    \<and> getfile (vfs s3) ?p True = Inr (Some (fresh (vfs s))) \<and> A_SIZE (heap (vfs s3) (fresh (vfs s))) = int (total cs)
    \<and> map_of (files s3) k = None"
    by (rule closing [OF b(1) [unfolded bc add_0] pos _ _ _ _ _ _ refl ne _ assms(22) [folded s2_def]])
      (use n ne assms(21) in \<open>simp_all add: v2 getfile_disk hf_def hostfile_of_def\<close>)
  then show ?thesis by blast
qed

text \<open>Pieces that follow each other, each sent once, give the right size.\<close>

lemma total_no_resends:
  assumes "{..<length content} = (\<Union>c \<in> set cs. chunk_span c)" "distinct cs"
    "\<forall>c \<in> set cs. \<forall>c' \<in> set cs. c \<noteq> c' \<longrightarrow> chunk_span c \<inter> chunk_span c' = {}"
  shows "total cs = length content"
proof -
  have "length content = card (\<Union>c \<in> set cs. chunk_span c)" by (simp flip: assms(1))
  also have "\<dots> = (\<Sum>c \<in> set cs. card (chunk_span c))"
    by (rule card_UN_disjoint) (use assms(3) in \<open>auto simp: chunk_span_def\<close>)
  also have "\<dots> = total cs" using assms(2) by (simp add: total_def chunk_span_def sum_list_distinct_conv_sum_set comp_def)
  finally show ?thesis by simp
qed

text \<open>A host that keeps the promises.\<close>

definition posix_host :: host_open where
  "posix_host = (\<lambda>p fl m dk. case dk p of
     None \<Rightarrow> if has_flag fl O_CREAT then Inr (dk(p \<mapsto> []), 5) else Inl OSError_ENOENT
   | Some b \<Rightarrow> if has_flag fl O_CREAT \<and> has_flag fl O_EXCL then Inl (OSError ''EEXIST'')
       else Inr (dk(p \<mapsto> (if has_flag fl O_TRUNC then [] else b)), 5))"

lemma posix_host_open: "posix_open posix_host"
  by (auto simp: posix_open_def posix_host_def split: option.splits if_splits)

definition example_sftp_host :: sftp_host where
  "example_sftp_host =
     \<lparr>site_of = example_site, user_home = ''/root'', work_dir = ''/'', os_open = posix_host, dl_path = ''dl'',
      received_limit = 100, max_offset = 1000000, sha256_hex = (\<lambda>_. ''ab''), arch_data = (\<lambda>_. []),
      ls_line = (\<lambda>f st u g. f)\<rparr>"

definition example_sftp :: sftp_session where
  "example_sftp = \<lparr>vfs = example_fs, descs = [], files = [], dirs = []\<rparr>"

theorem upload_in_any_order_witness:
  "\<exists>s1 s3. serve example_sftp_host ''1'' 0 (OpenFile 1 ''/tmp/x'' 10 []) example_sftp = (s1, Inr Done)
    \<and> serve example_sftp_host ''1'' 0 (CloseFile 1)
        (sftp_run example_sftp_host (write_all ''1'' 0 1 [(2, ''cd''), (0, ''abc''), (2, ''cd'')]) s1) = (s3, Inr Done)
    \<and> disk (vfs s3) ''dl/ab'' = Some ''abcd''
    \<and> (\<exists>i. getfile (vfs s3) ''/tmp/x'' True = Inr (Some i) \<and> A_SIZE (heap (vfs s3) i) = 7)"
proof -
  let ?h = example_sftp_host and ?cs = "[(2, ''cd''), (0, ''abc''), (2, ''cd'')]"
  let ?s1 = "fst (serve ?h ''1'' 0 (OpenFile 1 ''/tmp/x'' 10 []) example_sftp)"
  have r1: "snd (serve ?h ''1'' 0 (OpenFile 1 ''/tmp/x'' 10 []) example_sftp) = Inr Done" by code_simp
  have o: "serve ?h ''1'' 0 (OpenFile 1 ''/tmp/x'' 10 []) example_sftp = (?s1, Inr Done)" by (simp only: prod_eq_iff r1 fst_conv snd_conv simp_thms)
  have d: "disk (vfs ?s1) ''dl/ab'' = None" by code_simp
  have p: "abs_in ?h ''/tmp/x'' = Inr (path_of ([''tmp''] @ [''x'']))" by code_simp
  obtain s3 r where cl: "serve ?h ''1'' 0 (CloseFile 1) (sftp_run ?h (write_all ''1'' 0 1 ?cs) ?s1) = (s3, r)" by fastforce
  have c1: "\<forall>c \<in> set ?cs. slice_of ''abcd'' c" by (simp add: slice_of_def)
  have c2: "{..<length ''abcd''} \<subseteq> (\<Union>c \<in> set ?cs. chunk_span c)" by (auto simp: chunk_span_def)
  have oe: "posix_open (os_open ?h)" using posix_host_open by (simp add: example_sftp_host_def)
  have dn: "disk (vfs example_sftp) (hostfile_of (dl_path ?h) ''1'' (path_of ([''tmp''] @ [''x'']))) = None \<or> has_flag 10 FXF_TRUNC"
    by (simp add: example_sftp_def example_fs_def)
  have w: "has_flag 10 FXF_WRITE" "\<not> has_flag 10 FXF_APPEND" by (simp_all add: has_flag_def sftp_consts)
  have nc: "newcount example_fs = 0" by (simp add: example_fs_def)
  have a: "at_dir (vfs example_sftp) [''tmp''] 1 []" "fs_ok (vfs example_sftp)" "good_piece ''x''"
    "\<not> special (path_of [''tmp''])" "newcount (vfs example_sftp) \<le> 10000"
    using example_at_tmp example_fs_ok nc
    by (simp_all add: example_sftp_def special_def path_of_def SPECIAL_PATHS_def good_piece_def)
  have l: "received_limit ?h = 0 \<or> int (total ?cs) \<le> received_limit ?h" "int (length ''abcd'') \<le> max_offset ?h"
    "length ''abcd'' < 2 ^ 63" "\<And>b. CHR ''_'' \<notin> set (sha256_hex ?h b)"
    by (simp_all add: example_sftp_host_def total_def)
  have e: "disk (vfs ?s1) (dl_path ?h @ ''/'' @ sha256_hex ?h ''abcd'') \<in> {None, Some ''abcd''}"
    using d by (simp add: example_sftp_host_def del: serve.simps)
  have "r = Inr Done \<and> disk (vfs s3) (dl_path ?h @ ''/'' @ sha256_hex ?h ''abcd'') = Some ''abcd''
    \<and> (\<exists>i. getfile (vfs s3) (path_of ([''tmp''] @ [''x''])) True = Inr (Some i) \<and> A_SIZE (heap (vfs s3) i) = int (total ?cs))"
    by (rule upload_in_any_order [OF a _ oe p w _ dn o c1 c2 _ l e cl]) simp_all
  then have "r = Inr Done" "disk (vfs s3) ''dl/ab'' = Some ''abcd''"
    "\<exists>i. getfile (vfs s3) ''/tmp/x'' True = Inr (Some i) \<and> A_SIZE (heap (vfs s3) i) = 7"
    by (simp_all add: example_sftp_host_def path_of_def total_def)
  with o cl show ?thesis by blast
qed

subsection \<open>The invariant of every session\<close>

definition sftp_ok :: "sftp_session \<Rightarrow> bool" where
  "sftp_ok s \<longleftrightarrow> fs_ok (vfs s) \<and> (\<forall>k f. map_of (files s) k = Some f \<longrightarrow> 0 \<le> sf_received f)"

lemma fs_ok_set_attrs [fs_ok_rules]: "fs_ok s \<Longrightarrow> fs_ok (fst (set_attrs p a s))"
  unfolding set_attrs_def
  by (auto intro!: fs_ok_sbind intro: fs_ok_rules split: option.splits)

lemma fs_ok_replying: "fs_ok (fst m) \<Longrightarrow> fs_ok (fst (replying g m))"
  by (auto simp: replying_def sbind_def split: prod.splits sum.splits)

lemma fs_ok_path_set_attrs [fs_ok_rules]: "fs_ok s \<Longrightarrow> fs_ok (fst (path_set_attrs h p a s))"
  by (simp add: path_set_attrs_def fs_ok_set_attrs split: sum.split)

lemma fs_ok_make_directory [fs_ok_rules]: "fs_ok s \<Longrightarrow> fs_ok (fst (make_directory now a p s))"
  unfolding make_directory_def by (auto intro!: fs_ok_sbind intro: fs_ok_rules)

lemma on_vfs_parts: "vfs (fst (on_vfs f s)) = fst (f (vfs s))" "files (fst (on_vfs f s)) = files s"
  by (simp_all add: on_vfs_def upd_vfs_def Let_def split: prod.split)

lemma at_path_ok: "(\<And>p. fs_ok (vfs s) \<Longrightarrow> fs_ok (fst (f p (vfs s)))) \<Longrightarrow> sftp_ok s \<Longrightarrow> sftp_ok (fst (at_path h path f s))"
  by (simp add: at_path_def sftp_ok_def on_vfs_parts split: sum.split)

lemma sbind_value_iff: "sbind m f = (s', Inr y) \<longleftrightarrow> (\<exists>s x. m = (s, Inr x) \<and> f s x = (s', Inr y))"
  by (cases m; cases "snd m") (auto simp: sbind_def)

lemma sftp_ok_sbind:
  "sftp_ok (fst m) \<Longrightarrow> (\<And>s x. m = (s, Inr x) \<Longrightarrow> sftp_ok s \<Longrightarrow> sftp_ok (fst (f s x))) \<Longrightarrow> sftp_ok (fst (sbind m f))"
  by (cases m; cases "snd m") (auto simp: sbind_def)

lemma open_file_ok:
  assumes "sftp_ok s"
  shows "sftp_ok (fst (open_sftp_file h stamp now fn flags a s))"
proof -
  have ok: "fs_ok (vfs s)" using assms by (simp add: sftp_ok_def)
  obtain v r0 where o: "fs_open (os_open h) (dl_path h) stamp now fn (open_flags flags) (open_mode a) (vfs s) = (v, r0)"
    by fastforce
  have v: "fs_ok v" using fs_ok_fs_open [OF ok, of "os_open h" "dl_path h" stamp now fn "open_flags flags" "open_mode a"] o by simp
  show ?thesis
  proof (cases r0)
    case (Inl e)
    then show ?thesis using assms o v by (simp add: open_sftp_file_def upd_vfs_def sftp_ok_def)
  next
    case (Inr fd)
    have p: "sftp_ok (fst (on_vfs (path_set_attrs h fn b) s0))" if "sftp_ok s0" for b s0
      using that by (simp add: sftp_ok_def on_vfs_parts fs_ok_path_set_attrs)
    have d: "sftp_ok (s\<lparr>vfs := v, descs := ds\<rparr>)" for ds using assms v by (simp add: sftp_ok_def)
    show ?thesis unfolding open_sftp_file_def o Inr Let_def prod.case sum.case
      by (intro sftp_ok_sbind) (simp_all add: p d split: sum.split)
  qed
qed

lemma open_file_received:
  assumes "open_sftp_file h stamp now fn flags a s = (s1, Inr f)"
  shows "sf_received f = 0"
proof (cases "fs_open (os_open h) (dl_path h) stamp now fn (open_flags flags) (open_mode a) (vfs s)")
  case (Pair v r)
  with assms show ?thesis
    by (cases r) (auto simp: open_sftp_file_def Let_def sbind_value_iff split: if_splits sum.split_asm)
qed

lemma os_write_ok: "sftp_ok s \<Longrightarrow> sftp_ok (fst (os_write h n fl j d s)) \<and> files (fst (os_write h n fl j d s)) = files s"
  by (simp add: os_write_def Let_def upd_vfs_def sftp_ok_def fs_ok_disk split: option.split)

lemma seek_write_ok: "sftp_ok s \<Longrightarrow> sftp_ok (fst (seek_write h f j d s)) \<and> files (fst (seek_write h f j d s)) = files s"
  by (simp add: seek_write_def os_write_ok split: option.split)

lemma write_chunk_ok:
  assumes "sftp_ok s"
  shows "sftp_ok (fst (snd (write_chunk h j d f s))) \<and> files (fst (snd (write_chunk h j d f s))) = files s
    \<and> sf_received (fst (write_chunk h j d f s)) = sf_received f + int (length d)"
proof -
  let ?f = "f\<lparr>sf_received := sf_received f + int (length d)\<rparr>"
  obtain s1 r where w: "seek_write h ?f j d s = (s1, r)" by fastforce
  from seek_write_ok [OF assms, of h ?f j d] show ?thesis
    using assms by (cases r) (simp_all add: write_chunk_def Let_def w)
qed

lemma close_file_ok:
  assumes "sftp_ok s"
  shows "sftp_ok (fst (close_file h f s)) \<and> files (fst (close_file h f s)) = files s"
proof -
  let ?m = "if sf_received f > 0 then on_vfs (update_size (sf_name f) (sf_received f)) s else (s, Inr ())"
  obtain s1 r where m: "?m = (s1, r)" by fastforce
  have "sftp_ok (fst ?m) \<and> files (fst ?m) = files s"
    using assms by (simp add: sftp_ok_def on_vfs_parts fs_ok_update_size)
  then have s1: "sftp_ok s1" "files s1 = files s" unfolding m by simp_all
  obtain v q where c: "fs_close (sha256_hex h) (dl_path h) (sf_fd f) (vfs s1) = (v, q)" by fastforce
  have "fs_ok v" using fs_ok_fs_close [of "vfs s1" "sha256_hex h" "dl_path h" "sf_fd f"] s1(1) c by (simp add: sftp_ok_def)
  with s1 show ?thesis unfolding close_file_def m
    by (cases r) (simp_all add: c sftp_ok_def Let_def)
qed

lemma sftp_ok_handles:
  "sftp_ok s \<Longrightarrow> 0 \<le> sf_received f \<Longrightarrow> sftp_ok (s\<lparr>files := AList.update k f (files s)\<rparr>)"
  "sftp_ok s \<Longrightarrow> sftp_ok (s\<lparr>files := AList.delete k (files s)\<rparr>)"
  "sftp_ok s \<Longrightarrow> sftp_ok (s\<lparr>dirs := ds\<rparr>)"
  by (auto simp: sftp_ok_def map_of_alist_update AList.delete_conv' split: if_splits)

lemma with_handle_ok:
  assumes "sftp_ok s" "\<And>x. map_of fs k = Some x \<Longrightarrow> sftp_ok (fst (f x))"
  shows "sftp_ok (fst (with_handle fs k f s))"
  using assms by (simp add: with_handle_def split: option.split)

lemma serve_write_ok:
  assumes "sftp_ok s" "map_of (files s) k = Some f"
  shows "sftp_ok (fst (case write_chunk h j d f s of (f', s1, r) \<Rightarrow>
    (s1\<lparr>files := AList.update k f' (files s1)\<rparr>, rbind r (\<lambda>_. Inr Done))))"
proof -
  obtain f' s1 r where w: "write_chunk h j d f s = (f', (s1, r))" by (metis prod_cases3)
  have "0 \<le> sf_received f" using assms by (auto simp: sftp_ok_def)
  with write_chunk_ok [OF assms(1), of h j d f] sftp_ok_handles(1) [of s1 f' k] show ?thesis by (simp add: w)
qed

lemmas serve_path_ok = fs_ok_replying fs_ok_rules fs_ok_make_directory fs_ok_set_attrs

lemma readlink_same: "fst (readlink p s) = s"
  by (simp add: readlink_def with_file_def split: sum.split option.split)

lemma serve_ok:
  assumes "sftp_ok s"
  shows "sftp_ok (fst (serve h stamp now req s))"
proof (cases req)
  case (OpenFile k path flags a)
  then show ?thesis using assms open_file_ok [OF assms] open_file_received
    by (auto intro!: sftp_ok_sbind sftp_ok_handles(1) split: sum.split)
next
  case (CloseFile k)
  then show ?thesis using assms close_file_ok [OF assms]
    by (auto intro!: with_handle_ok sftp_ok_sbind sftp_ok_handles(2))
next
  case (WriteChunk k j d)
  then show ?thesis using assms serve_write_ok [OF assms] by (auto intro!: with_handle_ok)
next
  case (RenameFile old new)
  have "sftp_ok (fst (on_vfs (\<lambda>v. quietly (rename p q v)) s))" for p q
    using assms by (simp add: sftp_ok_def on_vfs_parts fs_ok_replying fs_ok_rename)
  with RenameFile assms show ?thesis by (simp split: sum.split)
next
  case (NextEntry k)
  then show ?thesis using assms by (auto intro!: with_handle_ok simp: sftp_ok_handles(3) split: prod.split)
qed (use assms in \<open>auto intro!: with_handle_ok at_path_ok fs_ok_replying
      simp: serve_path_ok sftp_ok_handles(3) readlink_same split: sum.split\<close>)

interpretation sftp_machine: machine "\<lambda>s (stamp, now, req). fst (serve h stamp now req s)" sftp_ok for h
proof unfold_locales
  fix s :: sftp_session and e :: "string \<times> rat \<times> sftp_request"
  assume "sftp_ok s"
  then show "sftp_ok (case e of (stamp, now, req) \<Rightarrow> fst (serve h stamp now req s))"
    by (cases e) (simp only: prod.case serve_ok)
qed

text \<open>No session breaks the file system: whatever requests a client sends, in any order and on handles that
  are open or not, no directory of the virtual files refers to an entry that does not exist, the root stays a
  directory, and no more than 10001 entries are created.\<close>

theorem sftp_sessions_ok:
  assumes "fs_ok (vfs s)" "files s = []"
  shows "closed_heap (heap (vfs (sftp_run h reqs s))) (fresh (vfs (sftp_run h reqs s)))
    \<and> A_TYPE (heap (vfs (sftp_run h reqs s)) root) = T_DIR \<and> newcount (vfs (sftp_run h reqs s)) \<le> 10001"
proof -
  have "sftp_ok s" using assms by (simp add: sftp_ok_def)
  from sftp_machine.run_inv [OF this, of h reqs] show ?thesis
    by (simp add: sftp_run_def sftp_ok_def fs_ok_def)
qed

theorem sftp_sessions_ok_witness:
  "newcount (vfs (sftp_run example_sftp_host
     [(''1'', 0, OpenFile 1 ''/tmp/x'' 10 []), (''1'', 0, RenameFile ''/tmp/x'' ''../y''), (''1'', 0, CloseFile 1)] example_sftp)) \<le> 10001"
  using sftp_sessions_ok [of example_sftp] example_fs_ok by (simp add: example_sftp_def)

subsection \<open>The quota\<close>

lemma sbind_error: "snd m = Inl e \<Longrightarrow> sbind m f = (fst m, Inl e)"
  by (cases m) (simp add: sbind_def)

lemma refused_write:
  assumes "map_of (files s) k = Some f" "received_limit h \<noteq> 0"
    "received_limit h < sf_received f + int (length d)"
  shows "snd (serve h stamp now (WriteChunk k j d) s) = Inl SFTPError"
    "vfs (fst (serve h stamp now (WriteChunk k j d) s)) = vfs s"
    "\<exists>f'. map_of (files (fst (serve h stamp now (WriteChunk k j d) s))) k = Some f'
       \<and> sf_received f' = sf_received f + int (length d)"
  using assms by (simp_all add: with_handle_def write_chunk_def map_of_alist_update)

text \<open>Once the quota of a file is passed, nothing more of it is written: every later write is refused,
  even of no bytes at all, and changes nothing in the virtual files or on disk.\<close>

theorem quota_is_final:
  assumes "map_of (files s) k = Some f" "received_limit h \<noteq> 0" "received_limit h < sf_received f + int (length d)"
  shows "vfs (sftp_run h ((stamp, now, WriteChunk k j d) # write_all stamp now k cs) s) = vfs s
    \<and> snd (serve h stamp now (WriteChunk k j' d') (sftp_run h ((stamp, now, WriteChunk k j d) # write_all stamp now k cs) s))
        = Inl SFTPError"
proof -
  have run: "vfs (sftp_run h (write_all stamp now k cs) s0) = vfs s0
      \<and> (\<exists>g. map_of (files (sftp_run h (write_all stamp now k cs) s0)) k = Some g \<and> received_limit h < sf_received g)"
    if "map_of (files s0) k = Some g0" "received_limit h < sf_received g0" for s0 g0
    using that
  proof (induction cs arbitrary: s0 g0)
    case (Cons c cs)
    obtain i e where c: "c = (i, e)" by fastforce
    have "received_limit h < sf_received g0 + int (length e)" using Cons.prems(2) by simp
    note r = refused_write [OF Cons.prems(1) assms(2) this, of stamp now i]
    then obtain g1 where g1: "map_of (files (fst (serve h stamp now (WriteChunk k i e) s0))) k = Some g1"
      "sf_received g1 = sf_received g0 + int (length e)" by blast
    then have "received_limit h < sf_received g1" using Cons.prems(2) by simp
    from Cons.IH [OF g1(1) this] r(2) show ?case
      by (simp add: write_all_def c sftp_run_Cons del: serve.simps)
  qed (auto simp: sftp_run_def write_all_def)
  note r = refused_write [OF assms, of stamp now j]
  obtain g where g: "map_of (files (fst (serve h stamp now (WriteChunk k j d) s))) k = Some g"
    "sf_received g = sf_received f + int (length d)" using r(3) by blast
  let ?s = "sftp_run h (write_all stamp now k cs) (fst (serve h stamp now (WriteChunk k j d) s))"
  have "received_limit h < sf_received g" using g(2) assms(3) by simp
  from run [OF g(1) this] r(2) obtain g' where g': "vfs ?s = vfs s" "map_of (files ?s) k = Some g'"
    "received_limit h < sf_received g'" by auto
  have "received_limit h < sf_received g' + int (length d')" using g'(3) by simp
  from refused_write(1) [OF g'(2) assms(2) this] g'(1) show ?thesis by (simp only: sftp_run_Cons)
qed

text \<open>The quota bounds the bytes that are received, not the length of the file: one byte far away makes it
  long, the gap being zeros.\<close>

lemma sparse_upload: "length (put_at j [c] []) = Suc j" "put_at j [c] [] ! i = CHR 0x00" if "i < j"
  using that by (simp_all add: put_at_def nth_append)

definition example_open_file :: sftp_file where
  "example_open_file = \<lparr>sf_name = ''/tmp/x'', sf_received = 90, sf_fd = Some 5, sf_flags = 65, sf_pos = 0, sf_contents = None\<rparr>"

theorem quota_is_final_witness:
  "snd (serve example_sftp_host ''1'' 0 (WriteChunk 1 0 ''c'')
      (sftp_run example_sftp_host ((''1'', 0, WriteChunk 1 0 ''01234567890'') # write_all ''1'' 0 1 [(0, ''a'')])
         (example_sftp\<lparr>files := [(1, example_open_file)]\<rparr>))) = Inl SFTPError"
  by (rule conjunct2 [OF quota_is_final [of "example_sftp\<lparr>files := [(1, example_open_file)]\<rparr>" 1 example_open_file]])
    (simp_all add: example_sftp_host_def example_open_file_def)

subsection \<open>Downloads\<close>

text \<open>Requests that leave a handle alone.\<close>

fun other_handle :: "nat \<Rightarrow> sftp_request \<Rightarrow> bool" where
  "other_handle k (OpenFile j p fl a) = (j \<noteq> k)"
| "other_handle k (CloseFile j) = (j \<noteq> k)"
| "other_handle k _ = True"

definition reads_as :: "sftp_session \<Rightarrow> nat \<Rightarrow> string \<Rightarrow> bool" where
  "reads_as s k b \<longleftrightarrow> (\<exists>f. map_of (files s) k = Some f \<and> sf_contents f = Some b)"

lemma write_chunk_contents: "sf_contents (fst (write_chunk h j d f s)) = sf_contents f"
  by (simp add: write_chunk_def Let_def split: prod.split sum.split)

lemma seek_write_files: "files (fst (seek_write h f j d s)) = files s"
  by (simp add: seek_write_def os_write_def Let_def upd_vfs_def split: option.split)

lemma write_chunk_files: "files (fst (snd (write_chunk h j d f s))) = files s"
proof -
  obtain s1 r where w: "seek_write h (f\<lparr>sf_received := sf_received f + int (length d)\<rparr>) j d s = (s1, r)" by fastforce
  with seek_write_files [of h "f\<lparr>sf_received := sf_received f + int (length d)\<rparr>" j d s] show ?thesis
    by (cases r) (simp_all add: write_chunk_def Let_def)
qed

lemma open_file_files: "files (fst (open_sftp_file h stamp now fn flags a s)) = files s"
proof -
  obtain v r where o: "fs_open (os_open h) (dl_path h) stamp now fn (open_flags flags) (open_mode a) (vfs s) = (v, r)"
    by fastforce
  have b: "files (fst (sbind m g)) = files s" if "files (fst m) = files s" "\<And>s0 x. files (fst (g s0 x)) = files s0"
    for m :: "(sftp_session, unit) sres" and g :: "sftp_session \<Rightarrow> unit \<Rightarrow> (sftp_session, sftp_file) sres"
    using that by (cases m; cases "snd m") simp_all
  show ?thesis
    by (cases r) (auto simp: open_sftp_file_def o Let_def upd_vfs_def on_vfs_parts intro!: b split: sum.split)
qed

lemma close_file_files: "files (fst (close_file h f s)) = files s"
proof -
  let ?m = "if sf_received f > 0 then on_vfs (update_size (sf_name f) (sf_received f)) s else (s, Inr ())"
  obtain s1 r where m: "?m = (s1, r)" by fastforce
  have "files (fst ?m) = files s" by (simp add: on_vfs_parts)
  then have "files s1 = files s" unfolding m by simp
  then show ?thesis unfolding close_file_def m by (cases r) (simp_all add: Let_def split: prod.split)
qed

lemma at_path_files: "files (fst (at_path h p f s)) = files s"
  by (simp add: at_path_def on_vfs_parts split: sum.split)

lemma reads_kept:
  assumes "reads_as s k b" "other_handle k req"
  shows "reads_as (fst (serve h stamp now req s)) k b"
proof (cases req)
  case (OpenFile j path flags a)
  show ?thesis
  proof (cases "abs_in h path")
    case (Inr p)
    obtain s1 r where o: "open_sftp_file h stamp now p flags a s = (s1, r)" by fastforce
    then have "files s1 = files s" using open_file_files [of h stamp now p flags a s] by simp
    then show ?thesis using OpenFile Inr assms o
      by (cases r) (auto simp: reads_as_def map_of_alist_update)
  qed (use OpenFile assms in simp)
next
  case (CloseFile j)
  show ?thesis
  proof (cases "map_of (files s) j")
    case (Some f)
    obtain s1 r where c: "close_file h f s = (s1, r)" by fastforce
    then have "files s1 = files s" using close_file_files [of h f s] by simp
    then show ?thesis using CloseFile Some assms c
      by (cases r) (auto simp: reads_as_def with_handle_def AList.delete_conv')
  qed (use CloseFile assms in \<open>simp add: with_handle_def\<close>)
next
  case (WriteChunk j i d)
  show ?thesis
  proof (cases "map_of (files s) j")
    case (Some f)
    obtain f' s1 r where w: "write_chunk h i d f s = (f', (s1, r))" by (metis prod_cases3)
    then have "sf_contents f' = sf_contents f" "files s1 = files s"
      using write_chunk_contents [of h i d f s] write_chunk_files [of h i d f s] by simp_all
    then show ?thesis using WriteChunk Some assms w
      by (auto simp: reads_as_def with_handle_def map_of_alist_update)
  qed (use WriteChunk assms in \<open>simp add: with_handle_def\<close>)
next
  case (RenameFile old new)
  then show ?thesis using assms by (auto simp: reads_as_def on_vfs_parts split: sum.split)
next
  case (NextEntry j)
  then show ?thesis using assms by (auto simp: reads_as_def with_handle_def split: option.split prod.split)
qed (use assms in \<open>auto simp: reads_as_def at_path_files with_handle_def split: option.split sum.split\<close>)

lemma reads_kept_run:
  assumes "reads_as s k b" "\<forall>(stamp, now, req) \<in> set reqs. other_handle k req"
  shows "reads_as (sftp_run h reqs s) k b"
  using assms
proof (induction reqs arbitrary: s)
  case (Cons r reqs)
  obtain stamp now req where r: "r = (stamp, now, req)" by (metis prod_cases3)
  have "reads_as (fst (serve h stamp now req s)) k b" by (rule reads_kept) (use Cons.prems r in auto)
  from Cons.IH [OF this] Cons.prems(2) show ?case by (simp add: r sftp_run_Cons)
qed (simp add: sftp_run_def)

text \<open>C22: A download is of one piece. A file that has been opened for reading reads as it was at that moment,
  whatever is done to it, or to any other file, until it is closed; and reading it from the start in pieces
  of some size gives it whole.\<close>

theorem download_is_snapshot:
  assumes "serve h stamp now (OpenFile k path flags a) s = (s1, Inr Done)" "has_flag flags FXF_READ"
    "\<forall>(stamp, now, req) \<in> set reqs. other_handle k req"
  shows "\<exists>b p. abs_in h path = Inr p \<and> file_contents (arch_data h) (vfs s1) p = Inr b
    \<and> (\<forall>offset len. snd (serve h stamp' now' (ReadChunk k offset len) (sftp_run h reqs s1)) = Inr (Chunk (take len (drop offset b))))"
proof -
  obtain p s0 fo where p: "abs_in h path = Inr p" and op: "open_sftp_file h stamp now p flags a s = (s0, Inr fo)"
    and s1: "s1 = s0\<lparr>files := AList.update k fo (files s0)\<rparr>"
    using assms(1) by (auto simp: sbind_value_iff split: sum.splits)
  have "\<exists>b. file_contents (arch_data h) (vfs s0) p = Inr b \<and> sf_contents fo = Some b"
  proof (cases "fs_open (os_open h) (dl_path h) stamp now p (open_flags flags) (open_mode a) (vfs s)")
    case (Pair v r)
    with op assms(2) obtain s2 fo' where r: "(case file_contents (arch_data h) (vfs s2) p of Inl e \<Rightarrow> (s2, Inl e)
        | Inr b \<Rightarrow> (s2, Inr (fo'\<lparr>sf_contents := Some b\<rparr>))) = (s0, Inr fo)"
      by (cases r) (auto simp: open_sftp_file_def Let_def sbind_value_iff simp del: sf_contents_update_def)
    then show ?thesis by (cases "file_contents (arch_data h) (vfs s2) p") auto
  qed
  then obtain b where b: "file_contents (arch_data h) (vfs s0) p = Inr b" "sf_contents fo = Some b" by blast
  have "reads_as s1 k b" using b(2) by (simp add: reads_as_def s1 map_of_alist_update)
  from reads_kept_run [OF this assms(3), of h]
  have "snd (serve h stamp' now' (ReadChunk k offset len) (sftp_run h reqs s1)) = Inr (Chunk (take len (drop offset b)))" for offset len
    by (auto simp: reads_as_def with_handle_def read_chunk_def)
  with p b(1) show ?thesis by (auto simp: s1)
qed

definition example_blob_fs :: filesystem where
  "example_blob_fs =
     example_file_fs\<lparr>heap := (heap example_file_fs)(3 := (heap example_file_fs 3)\<lparr>A_CONTENTS := Blob ''abcd''\<rparr>)\<rparr>"

theorem download_is_snapshot_witness:
  "snd (serve example_sftp_host ''1'' 0 (ReadChunk 2 1 2)
     (sftp_run example_sftp_host [(''1'', 0, RemoveFile ''/tmp/a'')]
       (fst (serve example_sftp_host ''1'' 0 (OpenFile 2 ''/tmp/a'' 1 []) (example_sftp\<lparr>vfs := example_blob_fs\<rparr>))))) = Inr (Chunk ''bc'')"
proof -
  let ?r = "serve example_sftp_host ''1'' 0 (OpenFile 2 ''/tmp/a'' 1 []) (example_sftp\<lparr>vfs := example_blob_fs\<rparr>)"
  have d: "snd ?r = Inr Done" by code_simp
  have c: "abs_in example_sftp_host ''/tmp/a'' = Inr ''/tmp/a''" by code_simp
  have e: "file_contents (arch_data example_sftp_host) (vfs (fst ?r)) ''/tmp/a'' = Inr ''abcd''" by code_simp
  have o: "?r = (fst ?r, Inr Done)" by (simp only: prod_eq_iff d fst_conv snd_conv simp_thms)
  have f: "has_flag 1 FXF_READ" by (simp add: has_flag_def FXF_READ_def)
  from download_is_snapshot [OF o f, of "[(''1'', 0, RemoveFile ''/tmp/a'')]" "''1''" 0] c e
  show ?thesis by (auto simp del: serve.simps)
qed

lemma pieces_make_whole:
  assumes "0 < n"
  shows "concat (map (\<lambda>i. take n (drop (i * n) b)) [0..<m]) = take (m * n) b"
proof (induction m)
  case (Suc m)
  have "Suc m * n = m * n + n" by simp
  then have "take (Suc m * n) b = take (m * n) b @ take n (drop (m * n) b)" by (simp only: take_add)
  with Suc show ?case by simp
qed simp

subsection \<open>Opening without creating\<close>

text \<open>What the host promises: a file that is not there is only opened to be created.\<close>

definition refuses_missing :: "host_open \<Rightarrow> bool" where
  "refuses_missing oo \<longleftrightarrow> (\<forall>p fl m dk. fl AND O_CREAT = 0 \<and> dk p = None \<longrightarrow> oo p fl m dk = Inl OSError_ENOENT)"

text \<open>Opening a file for writing without the flag to create it destroys it. The entry is replaced by an
  empty one first, then the file of the host is opened, which is not there: the client is told that there is
  no such file, and from then on the file reads as empty.\<close>

theorem open_without_create_empties:
  assumes "at_dir (vfs s) ps d ids" "fs_ok (vfs s)" "good_piece f" "\<not> special (path_of ps)" "newcount (vfs s) \<le> 10000"
    "length (filter (\<lambda>x. A_NAME (heap (vfs s) x) = f) ids) \<le> 1"
    "abs_in h path = Inr (path_of (ps @ [f]))" "has_flag flags FXF_WRITE" "\<not> has_flag flags FXF_CREAT"
    "refuses_missing (os_open h)" "disk (vfs s) (hostfile_of (dl_path h) stamp (path_of (ps @ [f]))) = None"
    "serve h stamp now (OpenFile k path flags a) s = (s1, r)"
  shows "r = Inl OSError_ENOENT \<and> file_contents (arch_data h) (vfs s1) (path_of (ps @ [f])) = Inr []"
proof -
  let ?p = "path_of (ps @ [f])"
  let ?n = "new_node f T_FILE 0 0 0 (S_IFREG OR open_mode a) now"
  let ?js = "filter (\<lambda>x. A_NAME (heap (vfs s) x) \<noteq> f) ids"
  let ?v = "add_state d ?js ?n (vfs s)"
  have mk: "mkfile ?p 0 0 0 (S_IFREG OR open_mode a) now (vfs s) = (?v, Inr True)" by (rule mkfile_eq [OF assms(1-6)])
  have "os_open h (hostfile_of (dl_path h) stamp ?p) (open_flags flags) (hostmode (open_mode a)) (disk ?v) = Inl OSError_ENOENT"
    using assms(10,11) open_flags_bits(3) [OF assms(9)] by (simp add: refuses_missing_def)
  then have "fs_open (os_open h) (dl_path h) stamp now ?p (open_flags flags) (open_mode a) (vfs s) = (?v, Inl OSError_ENOENT)"
    using open_flags_bits(1) [OF assms(8)] by (simp add: fs_open_def mk hostfile_of_def Let_def)
  then have r: "r = Inl OSError_ENOENT" "vfs s1 = ?v"
    using assms(7,12) by (auto simp: open_sftp_file_def upd_vfs_def sbind_def)
  have fr: "d < fresh (vfs s)" using at_dir_fresh [OF assms(1,2)] by simp
  have node: "heap ?v (fresh (vfs s)) = ?n" by (rule add_state_heap(1) [OF fr])
  have at: "at_dir ?v ps d (?js @ [fresh (vfs s)])"
    by (rule at_dir_update [OF assms(1,2) add_state_agree]) (simp_all add: add_state_heap)
  have one: "filter (\<lambda>x. A_NAME (heap ?v x) = f) (?js @ [fresh (vfs s)]) = [fresh (vfs s)]"
    by (rule add_state_child [OF assms(1,2)]) (auto simp: new_node_def)
  have k: "A_TYPE (heap ?v (fresh (vfs s))) = T_FILE" "A_CONTENTS (heap ?v (fresh (vfs s))) = Entries []"
    "A_REALFILE (heap ?v (fresh (vfs s))) = None" "A_SIZE (heap ?v (fresh (vfs s))) = 0"
    by (simp_all only: node) (simp_all add: new_node_def)
  have got: "getfile ?v ?p True = Inr (Some (fresh (vfs s)))"
    by (rule at_dir_child [OF at assms(3) one]) (simp add: k)
  have g: "\<forall>x \<in> set (ps @ [f]). good_piece x" using assms(3) at_dirD(1) [OF assms(1)] by simp
  have "?p \<noteq> []" by (simp add: path_of_def)
  then have "file_contents (arch_data h) ?v ?p = Inr []"
    using got k by (simp add: file_contents_def resolve_normal [OF g] exists_def node_contents_def)
  with r show ?thesis by simp
qed

theorem open_without_create_empties_witness:
  "file_contents (\<lambda>_. []) example_blob_fs ''/tmp/a'' = Inr ''abcd''
   \<and> (\<exists>s1. serve (example_sftp_host\<lparr>os_open := posix_host\<rparr>) ''1'' 0 (OpenFile 1 ''/tmp/a'' 2 []) (example_sftp\<lparr>vfs := example_blob_fs\<rparr>)
       = (s1, Inl OSError_ENOENT)
     \<and> file_contents (\<lambda>_. []) (vfs s1) ''/tmp/a'' = Inr [])"
proof -
  let ?h = "example_sftp_host\<lparr>os_open := posix_host\<rparr>" and ?s = "example_sftp\<lparr>vfs := example_blob_fs\<rparr>"
  obtain s1 r where o: "serve ?h ''1'' 0 (OpenFile 1 ''/tmp/a'' 2 []) ?s = (s1, r)" by fastforce
  have e: "heap example_blob_fs = (heap example_file_fs)(3 := (heap example_file_fs 3)\<lparr>A_CONTENTS := Blob ''abcd''\<rparr>)"
    "frames example_blob_fs = frames example_file_fs" "fresh example_blob_fs = fresh example_file_fs"
    "newcount example_blob_fs = 0" "newcount example_file_fs = 0" "disk example_blob_fs = Map.empty" "fresh example_file_fs = 4"
    by (simp_all add: example_blob_fs_def example_file_fs_def example_fs_def)
  have ok: "fs_ok (vfs ?s)"
    by (rule fs_ok_sub [OF example_file_facts(1)]) (auto simp: example_sftp_def e split: if_splits)
  have at: "at_dir (vfs ?s) [''tmp''] 1 [3]"
    by (simp add: at_dir_def example_sftp_def example_blob_fs_def example_file_fs_def example_fs_def new_node_def walk.simps(2) good_piece_def)
  have p: "abs_in ?h ''/tmp/a'' = Inr (path_of ([''tmp''] @ [''a'']))" by code_simp
  have c: "good_piece ''a''" "\<not> special (path_of [''tmp''])" "newcount (vfs ?s) \<le> 10000"
    "length (filter (\<lambda>x. A_NAME (heap (vfs ?s) x) = ''a'') [3]) \<le> 1"
    by (simp_all add: good_piece_def special_def path_of_def SPECIAL_PATHS_def e)
  have w: "has_flag 2 FXF_WRITE" "\<not> has_flag 2 FXF_CREAT" by (simp_all add: has_flag_def sftp_consts)
  have m: "refuses_missing (os_open ?h)" by (simp add: refuses_missing_def posix_host_def has_flag_def O_CREAT_def)
  have dk: "disk (vfs ?s) q = None" for q by (simp add: e)
  have "r = Inl OSError_ENOENT \<and> file_contents (arch_data ?h) (vfs s1) (path_of ([''tmp''] @ [''a''])) = Inr []"
    by (rule open_without_create_empties [OF at ok c(1-4) p w m dk o])
  moreover have "file_contents (\<lambda>_. []) example_blob_fs ''/tmp/a'' = Inr ''abcd''" by code_simp
  ultimately show ?thesis using o by (simp add: example_sftp_host_def path_of_def del: serve.simps)
qed

subsection \<open>Owners without a name\<close>

text \<open>A listing stops at an entry whose owner is in no line of the password file: the account a session was
  given when its user was in none, or what the client itself has set.\<close>

lemma unknown_owner_stops:
  assumes "dr_files d = f # fs" "lstat now v (entry_path (dr_dir d) f) = Inr st"
    "getpwuid (load_passwd (etc_passwd (site_of h))) (st_uid st) = Inl KeyError"
  shows "dir_next h now v d = (d\<lparr>dr_files := fs\<rparr>, Inl KeyError)"
  using assms by (simp add: dir_next_def owner_names_def)

text \<open>After a client has given a file to a user of no name, the directory of the file can no longer be
  listed: reading the entry of that file fails.\<close>

theorem chown_breaks_listing:
  assumes "at_dir (vfs s) ps d ids" "good_piece f" "filter (\<lambda>x. A_NAME (heap (vfs s) x) = f) ids = [x]"
    "A_TYPE (heap (vfs s) x) \<noteq> T_LINK" "ps \<noteq> []" "uid \<noteq> - 1"
    "getpwuid (load_passwd (etc_passwd (site_of h))) uid = Inl KeyError"
    "abs_in h path = Inr (path_of (ps @ [f]))"
    "serve h stamp now (SetAttrs path [(''uid'', uid), (''gid'', gid)]) s = (s1, r)"
    "dr_dir dir = path_of ps" "dr_files dir = f # fs"
  shows "r = Inr Done \<and> dir_next h now (vfs s1) dir = (dir\<lparr>dr_files := fs\<rparr>, Inl KeyError)"
proof -
  let ?p = "path_of (ps @ [f])"
  have g: "\<forall>x \<in> set (ps @ [f]). good_piece x" using assms(2) at_dirD(1) [OF assms(1)] by simp
  have got: "getfile (vfs s) ?p fl = Inr (Some x)" for fl by (rule at_dir_child [OF assms(1-4)])
  let ?v1 = "update_node x (\<lambda>n. n\<lparr>A_UID := uid\<rparr>) (vfs s)"
  define v where "v = (if gid \<noteq> - 1 then update_node x (\<lambda>n. n\<lparr>A_GID := gid\<rparr>) ?v1 else ?v1)"
  have "chown ?p uid gid (vfs s) = (v, Inr ())"
    using got [of True] assms(6) by (simp add: chown_def with_file_def v_def Let_def)
  then have s1: "vfs s1 = v" "r = Inr Done"
    using assms(8,9) by (auto simp: at_path_def on_vfs_def set_attrs_def pair_attrs_def replying_def upd_vfs_def)
  have sp: "same_paths (vfs s) v" by (simp add: v_def same_paths_def update_node_def)
  have u: "A_UID (heap v x) = uid" by (simp add: v_def update_node_def)
  have "?p \<noteq> ''/''" using path_of_root_iff [OF g] by simp
  then have "lstat now v ?p = Inr (stat_of (heap v x))"
    using same_paths_getfile [OF sp] got [of False] by (simp add: lstat_def stat_def)
  moreover have e: "entry_path (path_of ps) f = ?p"
  proof -
    have "last (path_of ps) \<noteq> CHR ''/''"
      using join_pieces_slash [OF assms(5)] g assms(5) by (auto simp: path_of_def)
    moreover have "\<not> starts_with f ''/''" using assms(2) by (cases f) (auto simp: good_piece_def)
    moreover have "path_of (ps @ [f]) = path_of ps @ ''/'' @ f"
      using assms(5) by (induction ps rule: induct_list012) (simp_all add: path_of_def)
    ultimately show ?thesis using assms(2) by (simp add: entry_path_def os_join_def good_piece_def path_of_def)
  qed
  ultimately have "dir_next h now v dir = (dir\<lparr>dr_files := fs\<rparr>, Inl KeyError)"
    using unknown_owner_stops [OF assms(11), of now v "stat_of (heap v x)" h] e assms(7,10) u by (simp add: stat_of_def)
  then show ?thesis using s1 by simp
qed

theorem chown_breaks_listing_witness:
  "\<exists>s1. serve example_sftp_host ''1'' 0 (SetAttrs ''/tmp/a'' [(''uid'', 4711), (''gid'', 0)]) (example_sftp\<lparr>vfs := example_file_fs\<rparr>)
       = (s1, Inr Done)
     \<and> dir_next example_sftp_host 0 (vfs s1) \<lparr>dr_files = [''a''], dr_dir = ''/tmp''\<rparr>
       = (\<lparr>dr_files = [], dr_dir = ''/tmp''\<rparr>, Inl KeyError)"
proof -
  let ?s = "example_sftp\<lparr>vfs := example_file_fs\<rparr>"
  obtain s1 r where o: "serve example_sftp_host ''1'' 0 (SetAttrs ''/tmp/a'' [(''uid'', 4711), (''gid'', 0)]) ?s = (s1, r)"
    by fastforce
  have at: "at_dir (vfs ?s) [''tmp''] 1 [3]" "A_TYPE (heap (vfs ?s) 3) \<noteq> T_LINK"
    "filter (\<lambda>x. A_NAME (heap (vfs ?s) x) = ''a'') [3] = [3]"
    using example_file_facts by simp_all
  have g: "good_piece ''a''" by (simp add: good_piece_def)
  have p: "abs_in example_sftp_host ''/tmp/a'' = Inr (path_of ([''tmp''] @ [''a'']))" by code_simp
  have u: "getpwuid (load_passwd (etc_passwd (site_of example_sftp_host))) 4711 = Inl KeyError" by code_simp
  have "r = Inr Done \<and> dir_next example_sftp_host 0 (vfs s1) \<lparr>dr_files = [''a''], dr_dir = ''/tmp''\<rparr>
      = (\<lparr>dr_files = [''a''], dr_dir = ''/tmp''\<rparr>\<lparr>dr_files := []\<rparr>, Inl KeyError)"
    by (rule chown_breaks_listing [OF at(1) g at(3,2) _ _ u p o]) (simp_all add: path_of_def)
  then show ?thesis using o by (simp del: serve.simps)
qed

text \<open>A file that is open cannot be asked for its attributes, nor given any.\<close>

lemma open_file_has_no_attrs: "\<not> is_ok (file_get_attrs now f s)" "\<not> is_ok (file_set_attrs f a)"
  by (simp_all add: file_get_attrs_def file_set_attrs_def rbind_def split: sum.split)

end
