(* ===== verification/Spec2Isabelle.thy ===== *)
theory Spec2Isabelle
  imports Pool_Wire Pool_Nat_Props Rate_Limiter Auth Tty_Log Commands_Props Shell_Loop Ssh_Term_Props Ssh_Transport_Props
  Telnet_Proxy_Props Telnet_Auth_Props Abuse_Reports_Props Session_Store_Props Fingerprint_Props Ssh_Forwarding Commands_Text_Props
  Shell_Run_Props Bedrock_Props Llm_Session_Props Event_Output_Props Sftp_Server_Props
begin

text \<open>
  \<^bold>\<open>Verification library for the Cowrie honeypot\<close> (\<open>src/src/cowrie\<close>).

  \<^bold>\<open>The program.\<close> Cowrie answers SSH and telnet logins. In its own mode it plays a Linux shell on
  a file system that exists in memory only. In proxy mode it sits between the attacker and a real machine,
  which a pool of virtual machines may provide, and follows what is sent. In both modes it records
  sessions, keeps the files that are moved, and reports who tried to log in.

  \<^item> \<^bold>\<open>Pool.\<close> \<open>Pool_Backend\<close> models \<open>backend_pool/util.py\<close> and \<open>libvirt/backend_service.py\<close> (addresses,
    MACs, ids of guests), \<open>Pool_Service\<close> models \<open>pool_service.py\<close> (the record \<open>pool\<close>, the producer's
    phases, requests, \<open>free_vm\<close>, \<open>reuse_vm\<close>), \<open>Pool_Nat\<close> models \<open>nat.py\<close> (the NAT table and the
    proxy that buffers until its guest is connected), \<open>Pool_Wire\<close> the messages of \<open>pool_server.py\<close> and
    \<open>ssh_proxy/client_transport.py\<close>'s pool client, acting on pool and NAT together. \<open>Pool_Props\<close>,
    \<open>Pool_Nat_Props\<close>: the invariant of guests under every run, service of a request, the producer's
    guarantees, and that NAT implements one counter per guest.
  \<^item> \<^bold>\<open>Logins.\<close> \<open>Auth\<close> models \<open>core/auth.py\<close>, \<open>Rate_Limiter\<close> models \<open>core/rate_limiter.py\<close>,
    \<open>Telnet_Auth\<close> models \<open>telnet/userauth.py\<close> (\<open>Telnet_Auth_Props\<close>: a login follows a machine of four
    phases, the environment variables are read back), \<open>Abuse_Reports\<close> models \<open>output/abuseipdb.py\<close>
    (\<open>Abuse_Reports_Props\<close>: reports keep their distance, a report is earned, what a cleanup forgets).
  \<^item> \<^bold>\<open>File system.\<close> \<open>Vfs\<close> models entries, paths and lookup of \<open>shell/fs.py\<close>; the store is explicit
    because entries are shared lists that are changed in place. \<open>Vfs_Ops\<close> has the operations,
    \<open>Vfs_Props\<close> and \<open>Vfs_Main\<close> normal paths, frame properties and the invariant of every run.
  \<^item> \<^bold>\<open>Shell.\<close> \<open>Shell_Line\<close> (lexer, variables, substitution) and \<open>Shell\<close> (the loop over a line,
    pipelines, lookup of a command), \<open>Shell_Complete\<close> (keys) model \<open>shell/honeypot.py\<close> and parts of
    \<open>shell/protocol.py\<close>; \<open>Shell_Parser\<close> models \<open>shell/parser.py\<close>, \<open>Shell_Pipe\<close> models
    \<open>shell/pipe.py\<close>, which writes redirected output to the virtual files; \<open>Commands_Base\<close> models the
    output of \<open>shell/command.py\<close> and \<open>Commands_Fs\<close> the commands of \<open>commands/fs.py\<close>. \<open>Shell_Props\<close>,
    \<open>Shell_Loop\<close>, \<open>Commands_Props\<close>: how a line is cut, that the loop ends, what the commands print and
    leave behind. \<open>Commands_Text\<close> models \<open>cut.py\<close>, \<open>uniq.py\<close>, \<open>wc.py\<close>, \<open>base64.py\<close>, \<open>tee.py\<close> and
    \<open>chmod.py\<close> (\<open>Commands_Text_Props\<close>: what they select, count, decode and lose). \<open>Shell_Run\<close> runs what
    a line names: the stack of commands, pipelines, queued lines, keys (\<open>Shell_Run_Props\<close>: which commands of
    a line are started, and what becomes of lines typed ahead).
  \<^item> \<^bold>\<open>SSH proxy.\<close> \<open>Ssh_Base\<close> (fields of messages), \<open>Ssh_Sftp\<close>, \<open>Ssh_Term\<close> (terminal and exec
    sessions), \<open>Ssh_Proxy\<close> (the dispatcher \<open>protocols/ssh.py\<close>) and \<open>Ssh_Transport\<close> (both transports
    and the login at the backend), each with its \<open>_Props\<close>: which messages reach the backend and when,
    well-formed channels, packets from any pieces, the command line as an editor.
  \<^item> \<^bold>\<open>Telnet proxy.\<close> \<open>Telnet_Proxy\<close> models \<open>telnet_proxy/handler.py\<close>; \<open>Telnet_Proxy_Props\<close>: the
    password of the attacker is replaced by the backend's, but for the first bytes of a packet that carries
    the end of the negotiation; both directions stay in order.
  \<^item> \<^bold>\<open>Recordings and files.\<close> \<open>Tty_Log\<close> models \<open>core/ttylog.py\<close> and the replay of
    \<open>scripts/asciinema.py\<close>, \<open>Tty_Dir\<close> the directory the proxies keep recordings in, \<open>Session_Store\<close>
    models \<open>core/artifact.py\<close> and \<open>insults/insults.py\<close> (\<open>Session_Store_Props\<close>: one file per content
    until a redirection is aimed at a downloaded file, standard input up to the limit, complete recordings).
  \<^item> \<^bold>\<open>Forwarding.\<close> \<open>Fingerprint\<close> models \<open>core/fingerprint.py\<close> (\<open>Fingerprint_Props\<close>: what a parser
    reads back, what a fingerprint does not depend on), \<open>Ssh_Forwarding\<close> models \<open>ssh/forwarding.py\<close>,
    with its properties.

  \<^item> \<^bold>\<open>Sessions played by a language model.\<close> \<open>Bedrock\<close> models \<open>llm/bedrock.py\<close> (the cache of answers,
    the prompt, retries, streams), \<open>Scalpel_Router\<close> models \<open>src/scalpel\<close> (a line cut at its separators,
    recorded answers before models, the two clients, telemetry, the hook) and \<open>Llm_Session\<close> models
    \<open>llm/protocol.py\<close> and \<open>llm/llm.py\<close> (history, requests, the prompt). \<open>Bedrock_Props\<close>: the cache
    keeps the newest answer and what was used last, attempts back off; \<open>Scalpel_Router_Props\<close>: what a chain
    answers, and what an unanswered piece loses; \<open>Llm_Session_Props\<close>: each line is answered by a prompt.
  \<^item> \<^bold>\<open>Accounts and SFTP.\<close> \<open>Passwd_Db\<close> models \<open>shell/pwd.py\<close> and what \<open>shell/avatar.py\<close>,
    \<open>shell/server.py\<close>, \<open>shell/session.py\<close> and \<open>telnet/session.py\<close> make of a login (\<open>Passwd_Db_Props\<close>: the
    file is read back, every user has an account that is the same at each login, a session starts over; the
    random generator is a parameter with a state of its own), \<open>Sftp_Server\<close> models
    \<open>shell/filetransfer.py\<close> on the virtual files and those of the host (\<open>Sftp_Server_Props\<close>: paths, uploads
    in any order, quota, downloads, the invariant of a session).
  \<^item> \<^bold>\<open>Events.\<close> \<open>Event_Output\<close> models the common part of output plugins, \<open>core/output.py\<close>
    (\<open>Event_Output_Props\<close>: which session and address an event is reported with).

  \<^bold>\<open>Shared.\<close> \<open>Prelude\<close> has results (\<open>res\<close>: an exception or a value), operations on a state that may
  raise (\<open>sres\<close>, with \<open>sbind\<close>), lists and dictionaries, and the locales \<open>machine\<close> (an
  invariant kept by steps holds after every run), \<open>growing_machine\<close> (an output that only grows) and
  \<open>simulating_machine\<close> (a view of the state that follows a specification). They are interpreted by
  the pool, the NAT proxy, the rate limiter, \<open>AuthRandom\<close>, the file system, the dispatcher of the SSH
  proxy, its connections, the telnet login, the report book, the cache of answers, the telemetry window and the SFTP sessions. The pool's client side of libvirt is the
  locale \<open>guest_provider\<close>, the transports' view of the dispatcher \<open>message_parser\<close>.
  \<open>Prelude_Bytes\<close>, \<open>Prelude_Text\<close> and \<open>Prelude_Utf8\<close> have Python's operations on bytes and text.

  \<^bold>\<open>Conventions.\<close> A Python text is the string of its UTF-8 bytes, \<open>bytes\<close> a string of characters below
  256; \<open>int\<close> is unbounded; times are rationals. Where the code strips white space from a text or splits at it, the
  model does so for the ASCII white space (\<open>is_space\<close>) only: a text with other Unicode spaces, such as a no-break
  space at the end of a line given to the router, is outside of what the properties say of the code. An exception is a value of \<open>error\<close>, and the state it
  leaves behind is part of the result. Deferred calls and answers of the network are events of a run.
  SHA-256, regular expressions of users, key exchange, sockets and file names of the host are
  parameters; what a property needs of them is an explicit hypothesis.

  \<^bold>\<open>Bounds.\<close> The loop over the tokens of a line (\<open>line_loop\<close>) has fuel: each round takes a token, and
  \<open>line_loop_terminates\<close> shows that one more than the number of tokens is enough. The functions that start
  and end commands (\<open>Shell_Run\<close>) call each other as deep as a line has commands, and take the depth that
  Python allows as an argument; \<open>line_starts_commands\<close> shows that four for every pipeline, two for every
  stage of the last and four more are enough. Every other recursion has a termination proof. \<open>int\<close> of a
  text refuses more than 4300 digits, as Python does. Widths of fields of messages are written out, with
  the error of \<open>struct.pack\<close>.

  \<^bold>\<open>Not modelled.\<close> The classes whose behaviour is that of a library: key exchange, channels and
  user authentication of Twisted, libvirt, database and message clients of the output plugins. The
  language models themselves are parameters: what a model answers is an argument. Commands that print constants. Texts written to the log, file modes and help texts.
  The vendored JA4 tools but for the table and hash that are called. The scripts for operators but for
  \<open>asciinema\<close>.
\<close>

end
